(* ===== verification/Prelude.thy ===== *)
theory Prelude
  imports Main "HOL-Library.Sublist"
begin

text \<open>
  Shared vocabulary of the development: the collections of simplification rules the
  components feed, generic lemmas on lists and association lists, the JSON values that the
  program exchanges and stores, and decimal printing of numbers in template literals.
  A JavaScript string is modelled by its UTF-8 bytes (a list of \<open>char\<close>); a JavaScript
  object used as a dictionary is a map or an association list.
\<close>

named_theorems step_simps \<open>equations of the components' step functions\<close>
named_theorems view_simps \<open>equations of the rendered views\<close>

type_synonym jsstring = string

section \<open>Generic facts on lists\<close>

lemma filter_keep_distinct [simp]: "distinct (map f xs) \<Longrightarrow> distinct (map f (filter P xs))"
  by (induction xs) auto

lemma filter_neq_notin: "x \<notin> f ` set xs \<Longrightarrow> filter (\<lambda>y. f y \<noteq> x) xs = xs"
  by (induction xs) auto

lemma find_Some_mem: "find P xs = Some x \<Longrightarrow> x \<in> set xs \<and> P x"
  by (auto simp: find_Some_iff)

lemma find_filter_None: "(\<And>x. P x \<Longrightarrow> \<not> Q x) \<Longrightarrow> find P (filter Q xs) = None"
  by (induction xs) auto

lemma list_all_filter: "list_all P xs \<Longrightarrow> list_all P (filter Q xs)"
  by (induction xs) auto

lemma length_filter_mono:
  "(\<And>x. x \<in> set xs \<Longrightarrow> P x \<Longrightarrow> Q x) \<Longrightarrow> length (filter P xs) \<le> length (filter Q xs)"
  by (induction xs) auto

lemma sort_key_neq_Nil [simp]: "sort_key f xs = [] \<longleftrightarrow> xs = []"
  using length_sort [of f xs] by (metis length_0_conv)

lemma less_16_cases: "(nib::nat) < 16 \<Longrightarrow>
   nib = 0 \<or> nib = 1 \<or> nib = 2 \<or> nib = 3 \<or> nib = 4 \<or> nib = 5 \<or> nib = 6 \<or> nib = 7 \<or>
   nib = 8 \<or> nib = 9 \<or> nib = 10 \<or> nib = 11 \<or> nib = 12 \<or> nib = 13 \<or> nib = 14 \<or> nib = 15"
  by arith

lemma filter_remove1_other: "\<not> P c \<Longrightarrow> filter P (remove1 c xs) = filter P xs"
  by (induction xs) auto

lemma length_filter_remove1: "P c \<Longrightarrow> c \<in> set xs \<Longrightarrow> length (filter P (remove1 c xs)) = length (filter P xs) - 1"
  by (simp add: filter_remove1 length_remove1)

lemma count_remove1: "x \<in> set xs \<Longrightarrow> length (filter P (remove1 x xs)) + (if P x then 1 else 0) = length (filter P xs)"
  by (induction xs) auto

lemma list_all_remove1: "list_all P xs \<Longrightarrow> list_all P (remove1 x xs)"
  using set_remove1_subset [of x xs] by (auto simp: list_all_iff)

lemma length_filter_disjoint: "(\<And>x. P x \<Longrightarrow> \<not> Q x) \<Longrightarrow> length (filter P xs) + length (filter Q xs) \<le> length xs"
  by (induction xs) auto

section \<open>Numbers in template literals\<close>

definition digit_char :: "nat \<Rightarrow> char" where
  "digit_char n = ''0123456789'' ! n"

fun show_nat :: "nat \<Rightarrow> jsstring" where
  "show_nat n = (if n < 10 then [digit_char n] else show_nat (n div 10) @ [digit_char (n mod 10)])"

declare show_nat.simps [simp del]

lemma show_nat_not_Nil [simp]: "show_nat n \<noteq> []"
  by (subst show_nat.simps) simp

definition show_int :: "int \<Rightarrow> jsstring" where
  "show_int i = (if i < 0 then ''-'' @ show_nat (nat (- i)) else show_nat (nat i))"

text \<open>\<open>String.prototype.padStart\<close> on a one-character filler.\<close>

definition pad_start :: "nat \<Rightarrow> char \<Rightarrow> jsstring \<Rightarrow> jsstring" where
  "pad_start n c s = replicate (n - length s) c @ s"

lemma length_pad_start [simp]: "length (pad_start n c s) = max n (length s)"
  by (simp add: pad_start_def)

section \<open>JSON values\<close>

text \<open>
  What \<open>JSON.parse\<close> returns. Numbers that reach JSON in the modelled code are integers
  (ids, counts, indices, naira amounts in whole units, millisecond stamps).
\<close>

datatype json =
    JNull
  | JBool bool
  | JNum int
  | JStr jsstring
  | JArr "json list"
  | JObj "(jsstring \<times> json) list"

text \<open>
  An object literal whose values may be \<open>undefined\<close>: \<open>JSON.stringify\<close> drops those keys.
\<close>

definition obj :: "(jsstring \<times> json option) list \<Rightarrow> json" where
  "obj kvs = JObj (map (\<lambda>(k, v). (k, the v)) (filter (\<lambda>(k, v). v \<noteq> None) kvs))"

text \<open>
  Property access \<open>x.k\<close> on a parsed value: \<open>None\<close> is \<open>undefined\<close>. Reading a property of
  \<open>null\<close> raises a \<open>TypeError\<close>; the optional chain \<open>x?.k\<close> of the source gives
  \<open>undefined\<close> there, and only \<open>?.\<close> is translated with \<open>jget\<close>.
\<close>

fun jget :: "json \<Rightarrow> jsstring \<Rightarrow> json option" where
  "jget (JObj kvs) k = map_of kvs k"
| "jget _ k = None"

text \<open>JavaScript truthiness and nullishness of an optional value.\<close>

fun truthy :: "json \<Rightarrow> bool" where
  "truthy JNull = False"
| "truthy (JBool b) = b"
| "truthy (JNum n) = (n \<noteq> 0)"
| "truthy (JStr s) = (s \<noteq> [])"
| "truthy (JArr _) = True"
| "truthy (JObj _) = True"

definition nullish :: "json option \<Rightarrow> bool" where
  "nullish v = (v = None \<or> v = Some JNull)"

definition or_default :: "json option \<Rightarrow> json \<Rightarrow> json" where
  "or_default v d = (if nullish v then d else the v)"

lemma or_default_simps [simp]:
  "or_default None d = d"
  "or_default (Some JNull) d = d"
  "or_default (Some (JArr xs)) d = JArr xs"
  "or_default (Some (JStr s)) d = JStr s"
  "or_default (Some (JNum n)) d = JNum n"
  "or_default (Some (JBool b)) d = JBool b"
  "or_default (Some (JObj m)) d = JObj m"
  by (simp_all add: or_default_def nullish_def)

lemma jget_obj: "distinct (map fst kvs) \<Longrightarrow>
   jget (obj kvs) k = (case map_of kvs k of None \<Rightarrow> None | Some v \<Rightarrow> v)"
proof (induction kvs)
  case Nil
  then show ?case by (simp add: obj_def)
next
  case (Cons p kvs)
  obtain k' v where p: "p = (k', v)" by (cases p)
  have none: "k = k' \<Longrightarrow> map_of kvs k = None"
    using Cons.prems p by (auto simp: map_of_eq_None_iff)
  show ?case
    using Cons p none by (cases v) (auto simp: obj_def)
qed

section \<open>Objects as dictionaries\<close>

text \<open>Assignment to a key of an object: in place when the key is there, at the end otherwise.\<close>

fun put_answer :: "jsstring \<Rightarrow> 'a \<Rightarrow> (jsstring \<times> 'a) list \<Rightarrow> (jsstring \<times> 'a) list" where
  "put_answer k v [] = [(k, v)]"
| "put_answer k v ((k', v') # xs) = (if k' = k then (k, v) # xs else (k', v') # put_answer k v xs)"

lemma keys_put_answer: "fst ` set (put_answer k v xs) = insert k (fst ` set xs)"
  by (induction k v xs rule: put_answer.induct) auto

lemma distinct_put_answer: "distinct (map fst xs) \<Longrightarrow> distinct (map fst (put_answer k v xs))"
  by (induction k v xs rule: put_answer.induct) (auto simp: keys_put_answer)

lemma all_put_answer: "list_all P xs \<Longrightarrow> P (k, v) \<Longrightarrow> list_all P (put_answer k v xs)"
  by (induction xs) auto

text \<open>Grouping by a key, in order of first occurrence: \<open>(m[k] ||= []).push(x)\<close>.\<close>

fun into_groups :: "('a \<Rightarrow> jsstring) \<Rightarrow> 'a list \<Rightarrow> (jsstring \<times> 'a list) list \<Rightarrow> (jsstring \<times> 'a list) list" where
  "into_groups key [] m = m"
| "into_groups key (l # ls) m = into_groups key ls (put_answer (key l) ((case map_of m (key l) of None \<Rightarrow> [] | Some xs \<Rightarrow> xs) @ [l]) m)"

lemma into_groups_keys: "distinct (map fst m) \<Longrightarrow> distinct (map fst (into_groups key ls m))"
  by (induction key ls m rule: into_groups.induct) (simp_all add: distinct_put_answer)

lemma map_of_put_answer: "map_of (put_answer k v m) = (map_of m)(k \<mapsto> v)"
  by (induction k v m rule: put_answer.induct) auto

lemma into_groups_lookup:
  "(case map_of (into_groups key ls m) d of None \<Rightarrow> [] | Some xs \<Rightarrow> xs) =
   (case map_of m d of None \<Rightarrow> [] | Some xs \<Rightarrow> xs) @ filter (\<lambda>l. key l = d) ls"
  by (induction key ls m rule: into_groups.induct) (auto simp: map_of_put_answer split: option.split)

lemma into_groups_nonempty: "list_all (\<lambda>x. snd x \<noteq> []) m \<Longrightarrow> list_all (\<lambda>x. snd x \<noteq> []) (into_groups key ls m)"
  by (induction key ls m rule: into_groups.induct) (simp_all add: all_put_answer)

lemma into_groups_dom: "fst ` set (into_groups key ls m) = fst ` set m \<union> key ` set ls"
  by (induction key ls m rule: into_groups.induct) (auto simp: keys_put_answer)

text \<open>Grouping is a partition: distinct keys, and under each the lessons with that key in order.\<close>

lemma into_groups_partition:
  "distinct (map fst (into_groups key ls [])) \<and> fst ` set (into_groups key ls []) = key ` set ls \<and>
   list_all (\<lambda>(d, xs). xs = filter (\<lambda>l. key l = d) ls) (into_groups key ls [])"
proof -
  have d: "distinct (map fst (into_groups key ls []))" by (rule into_groups_keys) simp
  have "xs = filter (\<lambda>l. key l = k) ls" if "(k, xs) \<in> set (into_groups key ls [])" for k xs
    using into_groups_lookup [of key ls "[]" k] map_of_is_SomeI [OF d that] by simp
  then show ?thesis using d into_groups_dom [of key ls "[]"] by (auto simp: list_all_iff)
qed

text \<open>
  A sheet of answers to listed questions, one per question and as many as there are questions,
  answers them all.
\<close>

lemma sheet_complete:
  assumes "distinct (map fst ans)" "fst ` set ans \<subseteq> set ids" "length ids \<le> length ans"
  shows "fst ` set ans = set ids"
proof (rule card_seteq)
  have "card (set ids) \<le> length ans" using card_length [of ids] assms(3) by simp
  then show "card (set ids) \<le> card (fst ` set ans)" using distinct_card [OF assms(1)] by simp
qed (use assms(2) in auto)

section \<open>Rendered widgets\<close>

text \<open>
  A React component's return value, reduced to what it shows and what it lets the user do:
  text, buttons with their enabled flag and the event their handler raises, and text
  inputs. Styling is not modelled.
\<close>

datatype 'e widget = Txt jsstring | Btn jsstring bool 'e | Field jsstring jsstring

fun offered :: "'e widget list \<Rightarrow> 'e list" where
  "offered [] = []"
| "offered (Btn l en e # ws) = (if en then e # offered ws else offered ws)"
| "offered (_ # ws) = offered ws"

lemma offered_append [simp]: "offered (xs @ ys) = offered xs @ offered ys"
  by (induction xs rule: offered.induct) auto

lemma offered_concat [simp]: "offered (concat xss) = concat (map offered xss)"
  by (induction xss) auto

lemma offered_map_Txt [simp]: "offered (map (\<lambda>x. Txt (f x)) xs) = []"
  by (induction xs) auto

lemma offered_map_Btn [simp]: "offered (map (\<lambda>x. Btn (l x) True (h x)) xs) = map h xs"
  by (induction xs) auto

lemma offered_map: "e \<in> set (offered (map f xs)) \<Longrightarrow> \<exists>x\<in>set xs. e \<in> set (offered [f x])"
proof (induction xs)
  case (Cons x xs)
  have "offered (map f (x # xs)) = offered [f x] @ offered (map f xs)" using offered_append [of "[f x]" "map f xs"] by simp
  with Cons show ?case by auto
qed simp

lemma offered_map_when: "offered (map (\<lambda>x. Btn (l x) (p x) (h x)) xs) = map h (filter p xs)"
  by (induction xs) auto

lemma find_const: "find (\<lambda>a. b) xs = (if b \<and> xs \<noteq> [] then Some (hd xs) else None)"
  by (induction xs) auto

text \<open>Membership in what is offered, piece by piece.\<close>

lemma in_offered_append: "e \<in> set (offered (xs @ ys)) \<longleftrightarrow> e \<in> set (offered xs) \<or> e \<in> set (offered ys)"
  by simp

lemma in_offered_Btn: "e \<in> set (offered (Btn l p x # ws)) \<longleftrightarrow> (p \<and> e = x) \<or> e \<in> set (offered ws)"
  by auto

lemma in_offered_Txt: "e \<in> set (offered (Txt t # ws)) \<longleftrightarrow> e \<in> set (offered ws)"
  by simp

lemma in_offered_Nil: "e \<in> set (offered []) \<longleftrightarrow> False"
  by simp

lemma in_offered_if: "e \<in> set (offered (if b then xs else ys)) \<longleftrightarrow> (b \<and> e \<in> set (offered xs)) \<or> (\<not> b \<and> e \<in> set (offered ys))"
  by simp

lemma in_offered_map: "e \<in> set (offered (map (\<lambda>x. Btn (l x) (p x) (h x)) xs)) \<longleftrightarrow> (\<exists>x\<in>set xs. p x \<and> e = h x)"
  by (auto simp: offered_map_when)

lemmas in_offered = in_offered_append in_offered_Btn in_offered_Txt in_offered_Nil in_offered_if in_offered_map

end
