(* ===== verification/JsText.thy ===== *)
theory JsText
  imports Prelude
begin

text \<open>
  The string operations of the JavaScript standard library that the program uses, on the
  UTF-8 bytes of a string: \<open>startsWith\<close>, \<open>includes\<close>, \<open>split\<close>, \<open>join\<close>, \<open>trim\<close>,
  \<open>toLowerCase\<close>, \<open>replace(/x$/, "")\<close>, \<open>encodeURIComponent\<close> and \<open>decodeURIComponent\<close>.
  Case folding and trimming are the ASCII part of the standard's tables (a non-ASCII byte
  is left as it is); the searched and split texts are byte sequences, on which UTF-8
  searching agrees with code-unit searching.
\<close>

section \<open>Searching and case\<close>

abbreviation starts_with :: "jsstring \<Rightarrow> jsstring \<Rightarrow> bool" where
  "starts_with s p \<equiv> prefix p s"

abbreviation ends_with :: "jsstring \<Rightarrow> jsstring \<Rightarrow> bool" where
  "ends_with s p \<equiv> suffix p s"

fun str_includes :: "jsstring \<Rightarrow> jsstring \<Rightarrow> bool" where
  "str_includes [] p = (p = [])"
| "str_includes (c # s) p = (prefix p (c # s) \<or> str_includes s p)"

lemma includes_iff: "str_includes s p \<longleftrightarrow> (\<exists>a b. s = a @ p @ b)"
proof (induction s)
  case Nil
  then show ?case by auto
next
  case (Cons c s)
  have "(\<exists>a b. c # s = a @ p @ b) \<longleftrightarrow> prefix p (c # s) \<or> (\<exists>a b. s = a @ p @ b)"
    (is "?l \<longleftrightarrow> ?r")
  proof
    assume ?l
    then obtain a b where "c # s = a @ p @ b" by blast
    then show ?r by (cases a) (auto simp: prefix_def)
  next
    assume ?r
    then show ?l by (metis append_Cons append_Nil prefix_def)
  qed
  with Cons show ?case by simp
qed

definition lower_char :: "char \<Rightarrow> char" where
  "lower_char c = (let n = of_char c :: nat in if 65 \<le> n \<and> n \<le> 90 then char_of (n + 32) else c)"

definition upper_char :: "char \<Rightarrow> char" where
  "upper_char c = (let n = of_char c :: nat in if 97 \<le> n \<and> n \<le> 122 then char_of (n - 32) else c)"

definition to_lower :: "jsstring \<Rightarrow> jsstring" where "to_lower = map lower_char"
definition to_upper :: "jsstring \<Rightarrow> jsstring" where "to_upper = map upper_char"

lemma to_lower_append [simp]: "to_lower (xs @ ys) = to_lower xs @ to_lower ys"
  by (simp add: to_lower_def)

lemma lower_char_idem [simp]: "lower_char (lower_char c) = lower_char c"
proof (cases "65 \<le> (of_char c :: nat) \<and> (of_char c :: nat) \<le> 90")
  case True
  then have "(of_char (lower_char c) :: nat) = of_char c + 32"
    by (simp add: lower_char_def)
  with True show ?thesis by (simp add: lower_char_def [of "lower_char c"])
next
  case False
  then have "lower_char c = c" unfolding lower_char_def Let_def by (rule if_not_P)
  then show ?thesis by simp
qed

lemma to_lower_idem [simp]: "to_lower (to_lower s) = to_lower s"
  by (simp add: to_lower_def)

section \<open>Trimming, splitting, joining\<close>

definition is_space :: "char \<Rightarrow> bool" where
  "is_space c = (let n = of_char c :: nat in n = 32 \<or> (9 \<le> n \<and> n \<le> 13))"

definition trim :: "jsstring \<Rightarrow> jsstring" where
  "trim s = rev (dropWhile is_space (rev (dropWhile is_space s)))"

lemma trim_subset: "set (trim s) \<subseteq> set s"
  by (auto simp: trim_def dest!: set_dropWhileD)

lemma dropWhile_rev_fixed:
  "xs \<noteq> [] \<Longrightarrow> \<not> P (last xs) \<Longrightarrow> rev (dropWhile P (rev xs)) = xs"
  by (cases xs rule: rev_cases) auto

lemma hd_trim: "trim s \<noteq> [] \<Longrightarrow> \<not> is_space (hd (trim s))"
proof -
  define t where "t = dropWhile is_space s"
  assume ne: "trim s \<noteq> []"
  have tr: "trim s = rev (dropWhile is_space (rev t))" by (simp add: trim_def t_def)
  with ne have tne: "t \<noteq> []" by (cases "t = []") simp_all
  have "suffix (dropWhile is_space (rev t)) (rev t)" by (rule suffix_dropWhile)
  then have "prefix (trim s) t" by (simp add: tr suffix_to_prefix)
  with ne tne have "hd (trim s) = hd t" by (auto simp: prefix_def)
  moreover have "\<not> is_space (hd t)"
    using hd_dropWhile [of is_space s] tne unfolding t_def by blast
  ultimately show ?thesis by simp
qed

lemma trim_Nil [simp]: "trim [] = []"
  by (simp add: trim_def)

lemma trim_no_sep: "c \<notin> set s \<Longrightarrow> c \<notin> set (trim s)"
  using trim_subset by fast

lemma trim_fixed: "s \<noteq> [] \<Longrightarrow> \<not> is_space (hd s) \<Longrightarrow> \<not> is_space (last s) \<Longrightarrow> trim s = s"
  using dropWhile_rev_fixed [of s is_space] by (cases s) (simp_all add: trim_def)

lemma last_trim: "trim s \<noteq> [] \<Longrightarrow> \<not> is_space (last (trim s))"
  using hd_dropWhile [of is_space "rev (dropWhile is_space s)"] by (simp add: trim_def last_rev)

lemma trim_idem [simp]: "trim (trim s) = trim s"
  by (cases "trim s = []") (simp_all add: trim_fixed hd_trim last_trim)

fun split_on :: "char \<Rightarrow> jsstring \<Rightarrow> jsstring list" where
  "split_on c [] = [[]]"
| "split_on c (x # xs) =
     (if x = c then [] # split_on c xs
      else (case split_on c xs of [] \<Rightarrow> [[x]] | p # ps \<Rightarrow> (x # p) # ps))"

fun join :: "jsstring \<Rightarrow> jsstring list \<Rightarrow> jsstring" where
  "join sep [] = []"
| "join sep [s] = s"
| "join sep (s # t # ts) = s @ sep @ join sep (t # ts)"

lemma split_on_ne [simp]: "split_on c s \<noteq> []"
  by (induction s) (auto split: list.splits)

lemma join_split_on: "join [c] (split_on c s) = s"
proof (induction s)
  case Nil
  then show ?case by simp
next
  case (Cons x xs)
  obtain p ps where ps: "split_on c xs = p # ps" by (cases "split_on c xs") auto
  then show ?case using Cons by (cases ps) auto
qed

lemma split_on_no_sep: "p \<in> set (split_on c s) \<Longrightarrow> c \<notin> set p"
  by (induction s arbitrary: p) (auto split: list.splits if_splits)

lemma split_on_chars: "p \<in> set (split_on c s) \<Longrightarrow> set p \<subseteq> set s"
  by (induction s arbitrary: p) (fastforce split: list.splits if_splits)+

lemma join_Cons: "ss \<noteq> [] \<Longrightarrow> join sep (s # ss) = s @ sep @ join sep ss"
  by (cases ss) auto

lemma split_on_free: "c \<notin> set s \<Longrightarrow> split_on c s = [s]"
  by (induction s) auto

lemma split_on_append: "c \<notin> set s \<Longrightarrow> split_on c (s @ c # t) = s # split_on c t"
  by (induction s) auto

lemma split_on_join:
  "ss \<noteq> [] \<Longrightarrow> (\<And>s. s \<in> set ss \<Longrightarrow> c \<notin> set s) \<Longrightarrow> split_on c (join [c] ss) = ss"
proof (induction ss)
  case Nil
  then show ?case by simp
next
  case (Cons s ss)
  show ?case
  proof (cases "ss = []")
    case True
    with Cons.prems show ?thesis by (simp add: split_on_free)
  next
    case False
    with Cons show ?thesis by (simp add: join_Cons split_on_append)
  qed
qed

text \<open>\<open>s.replace(/x$/, "")\<close> for a one-character suffix.\<close>

definition drop_last_char :: "char \<Rightarrow> jsstring \<Rightarrow> jsstring" where
  "drop_last_char c s = (if s \<noteq> [] \<and> last s = c then butlast s else s)"

text \<open>\<open>s.replace(/suf$/, "")\<close> for a literal suffix.\<close>

definition drop_suffix :: "jsstring \<Rightarrow> jsstring \<Rightarrow> jsstring" where
  "drop_suffix suf s = (if suffix suf s then take (length s - length suf) s else s)"

lemma drop_last_char_append [simp]: "drop_last_char c (s @ [c]) = s"
  by (simp add: drop_last_char_def)

text \<open>Typographic characters of the user interface, as UTF-8.\<close>

definition em_dash :: jsstring where "em_dash = [CHR 0xE2, CHR 0x80, CHR 0x94]"
definition ellipsis :: jsstring where "ellipsis = [CHR 0xE2, CHR 0x80, CHR 0xA6]"

section \<open>Percent encoding\<close>

definition hex_digit :: "nat \<Rightarrow> char" where
  "hex_digit n = ''0123456789ABCDEF'' ! n"

definition pct :: "char \<Rightarrow> jsstring" where
  "pct c = (let n = of_char c :: nat in [CHR ''%'', hex_digit (n div 16), hex_digit (n mod 16)])"

definition alnum :: "char \<Rightarrow> bool" where
  "alnum c = (let n = of_char c :: nat in
     (48 \<le> n \<and> n \<le> 57) \<or> (65 \<le> n \<and> n \<le> 90) \<or> (97 \<le> n \<and> n \<le> 122))"

definition uri_unreserved :: "char \<Rightarrow> bool" where
  "uri_unreserved c = (alnum c \<or> c \<in> {CHR ''-'', CHR ''_'', CHR ''.'', CHR ''!'', CHR ''~'',
     CHR ''*'', CHR 0x27, CHR ''('', CHR '')''})"

definition encode_with :: "(char \<Rightarrow> bool) \<Rightarrow> jsstring \<Rightarrow> jsstring" where
  "encode_with keep s = concat (map (\<lambda>c. if keep c then [c] else pct c) s)"

definition encode_uri_component :: "jsstring \<Rightarrow> jsstring" where
  "encode_uri_component = encode_with uri_unreserved"

lemma encode_with_simps [simp]:
  "encode_with k [] = []"
  "encode_with k (c # s) = (if k c then [c] else pct c) @ encode_with k s"
  by (simp_all add: encode_with_def)

lemma encode_with_append [simp]: "encode_with k (s @ t) = encode_with k s @ encode_with k t"
  by (induction s) auto

lemma encode_with_id: "(\<And>c. c \<in> set s \<Longrightarrow> k c) \<Longrightarrow> encode_with k s = s"
  by (induction s) auto

definition hex_val :: "char \<Rightarrow> nat option" where
  "hex_val c = (let n = of_char c :: nat in
     if 48 \<le> n \<and> n \<le> 57 then Some (n - 48)
     else if 65 \<le> n \<and> n \<le> 70 then Some (n - 55)
     else if 97 \<le> n \<and> n \<le> 102 then Some (n - 87) else None)"

text \<open>Number of continuation bytes a UTF-8 lead byte announces; \<open>None\<close> if it is not one.\<close>

definition utf8_follow :: "nat \<Rightarrow> nat option" where
  "utf8_follow n = (if n < 128 then Some 0
     else if 194 \<le> n \<and> n \<le> 223 then Some 1
     else if 224 \<le> n \<and> n \<le> 239 then Some 2
     else if 240 \<le> n \<and> n \<le> 244 then Some 3 else None)"

text \<open>
  The second byte of a three- or four-byte sequence is restricted further, which excludes
  overlong forms, surrogates and values above U+10FFFF.
\<close>

definition utf8_second_ok :: "nat \<Rightarrow> nat \<Rightarrow> bool" where
  "utf8_second_ok lead b = (128 \<le> b \<and> b \<le> 191 \<and>
     (lead = 224 \<longrightarrow> 160 \<le> b) \<and> (lead = 237 \<longrightarrow> b \<le> 159) \<and>
     (lead = 240 \<longrightarrow> 144 \<le> b) \<and> (lead = 244 \<longrightarrow> b \<le> 143))"

text \<open>One escape \<open>%XY\<close> at the head of a text.\<close>

fun esc_byte :: "jsstring \<Rightarrow> (nat \<times> jsstring) option" where
  "esc_byte (p # h # l # s) =
     (if p = CHR ''%'' then
        (case (hex_val h, hex_val l) of (Some a, Some b) \<Rightarrow> Some (16 * a + b, s) | _ \<Rightarrow> None)
      else None)"
| "esc_byte _ = None"

lemma esc_byte_length: "esc_byte s = Some (n, t) \<Longrightarrow> length t < length s"
  by (induction s rule: esc_byte.induct) (auto split: if_splits option.splits)

fun esc_conts :: "nat \<Rightarrow> jsstring \<Rightarrow> (nat list \<times> jsstring) option" where
  "esc_conts 0 s = Some ([], s)"
| "esc_conts (Suc k) s =
     (case esc_byte s of
        Some (b, t) \<Rightarrow>
          (if 128 \<le> b \<and> b \<le> 191
           then map_option (\<lambda>(bs, u). (b # bs, u)) (esc_conts k t) else None)
      | None \<Rightarrow> None)"

lemma esc_conts_length: "esc_conts k s = Some (bs, t) \<Longrightarrow> length t \<le> length s"
proof (induction k arbitrary: s bs)
  case 0
  then show ?case by simp
next
  case (Suc k)
  then show ?case
    by (auto split: option.splits prod.splits if_splits dest!: esc_byte_length) (meson Suc.IH le_trans less_imp_le_nat)
qed

text \<open>\<open>decodeURIComponent\<close>: \<open>None\<close> is the \<open>URIError\<close> it raises on a malformed sequence.\<close>

function decode_uri_component :: "jsstring \<Rightarrow> jsstring option" where
  "decode_uri_component [] = Some []"
| "decode_uri_component (c # s) =
     (if c \<noteq> CHR ''%'' then map_option ((#) c) (decode_uri_component s)
      else (case esc_byte (c # s) of
          None \<Rightarrow> None
        | Some (lead, t) \<Rightarrow>
            (case utf8_follow lead of
               None \<Rightarrow> None
             | Some k \<Rightarrow>
                 (case esc_conts k t of
                    None \<Rightarrow> None
                  | Some (bs, u) \<Rightarrow>
                      if bs \<noteq> [] \<and> \<not> utf8_second_ok lead (hd bs) then None
                      else map_option ((@) (map char_of (lead # bs))) (decode_uri_component u)))))"
  by pat_completeness auto
termination
  by (relation "measure length") (fastforce dest: esc_byte_length esc_conts_length)+

text \<open>Encoding an ASCII text and decoding it again gives the text back.\<close>

definition ascii :: "jsstring \<Rightarrow> bool" where
  "ascii s = list_all (\<lambda>c. (of_char c :: nat) < 128) s"

lemma hex_val_digit: "n < 16 \<Longrightarrow> hex_val (hex_digit n) = Some n"
  by (drule less_16_cases) (elim disjE, simp_all add: hex_val_def hex_digit_def)

lemma esc_byte_pct: "esc_byte (pct c @ s) = Some (of_char c, s)"
  using of_char_of [where ?'a = nat]
  by (simp add: pct_def Let_def hex_val_digit of_char_mod_256 less_mult_imp_div_less)

lemma decode_encode_ascii: "ascii s \<Longrightarrow> decode_uri_component (encode_uri_component s) = Some s"
proof (induction s)
  case Nil
  then show ?case by (simp add: encode_uri_component_def)
next
  case (Cons c s)
  then have c: "(of_char c :: nat) < 128" and s: "ascii s" by (simp_all add: ascii_def)
  show ?case
  proof (cases "uri_unreserved c")
    case True
    then have "c \<noteq> CHR ''%''" by (auto simp: uri_unreserved_def alnum_def)
    with Cons True s show ?thesis by (simp add: encode_uri_component_def)
  next
    case False
    obtain t where t: "pct c = CHR ''%'' # t" by (simp add: pct_def Let_def)
    have "esc_byte (CHR ''%'' # t @ encode_with uri_unreserved s)
            = Some (of_char c, encode_with uri_unreserved s)"
      using esc_byte_pct [of c] t by simp
    with False t c Cons.IH s show ?thesis
      by (simp add: encode_uri_component_def utf8_follow_def)
  qed
qed

lemma of_char_256: "(of_char (d :: char) :: nat) < 256"
  by (metis of_char_mod_256 mod_less_divisor zero_less_numeral)

lemma of_char_div16: "(of_char (d :: char) :: nat) div 16 < 16"
  using of_char_256 [of d] by (intro less_mult_imp_div_less) (simp only: mult_num_simps arith_simps numeral_times_numeral)

text \<open>No character that structures a URL occurs in an escape, so an encoded component has none.\<close>

lemma pct_free:
  assumes "c \<in> {CHR ''/'', CHR ''?'', CHR ''#'', CHR ''&'', CHR ''=''}"
  shows "c \<notin> set (pct d)"
proof -
  have "c \<noteq> hex_digit n" if "n < 16" for n
    using less_16_cases [OF that] assms by (elim disjE) (auto simp: hex_digit_def)
  moreover have "c \<noteq> CHR ''%''" using assms by auto
  ultimately show ?thesis by (simp add: pct_def Let_def of_char_div16)
qed

lemma encode_component_free:
  assumes "c \<in> {CHR ''/'', CHR ''?'', CHR ''#'', CHR ''&'', CHR ''=''}"
  shows "c \<notin> set (encode_uri_component s)"
proof -
  have "\<not> uri_unreserved c"
    using assms by (elim insertE emptyE) (simp_all add: uri_unreserved_def alnum_def)
  then show ?thesis using pct_free [OF assms]
    by (induction s) (auto simp: encode_uri_component_def)
qed

text \<open>\<open>s.length\<close> of a text: its UTF-16 code units, counted on the UTF-8 bytes.\<close>

definition utf16_units :: "char \<Rightarrow> nat" where
  "utf16_units c = (let n = of_char c :: nat in if 128 \<le> n \<and> n < 192 then 0 else if 240 \<le> n then 2 else 1)"

definition utf16_length :: "jsstring \<Rightarrow> nat" where
  "utf16_length s = sum_list (map utf16_units s)"

lemma utf16_length_simps [simp]:
  "utf16_length [] = 0" "utf16_length (c # s) = utf16_units c + utf16_length s"
  by (simp_all add: utf16_length_def)

text \<open>What is left of a text after keeping ASCII characters only is no longer than the text was.\<close>

lemma utf16_units_ascii [simp]: "(of_char c :: nat) < 128 \<Longrightarrow> utf16_units c = 1"
  by (simp add: utf16_units_def)

lemma utf16_length_ascii: "list_all (\<lambda>c. (of_char c :: nat) < 128) s \<Longrightarrow> utf16_length s = length s"
  by (induction s) (simp_all add: utf16_units_ascii)

lemma ascii_filter_length: "(\<And>c. P c \<Longrightarrow> (of_char c :: nat) < 128) \<Longrightarrow> length (filter P s) \<le> utf16_length s"
  by (induction s) (auto simp: utf16_units_ascii)

end
