(* ===== verification/Http.thy ===== *)
theory Http
  imports JsText
begin

text \<open>
  What the two API clients share: JavaScript exceptions, requests, responses, the outcome
  of one \<open>fetch\<close>, the effects of a call in the order they happen, the endpoint
  descriptions, and the contract \<open>api_client\<close> under which the endpoint functions are
  proved once for both clients. The network is a parameter: a function that gives the
  outcome of the n-th \<open>fetch\<close> of a call.
\<close>

section \<open>Exceptions, requests, responses\<close>

datatype exn_class = DomExn | TypeExn | SyntaxExn | PlainExn | NotAnError

record js_exn =
  ex_class :: exn_class
  ex_name :: jsstring
  ex_message :: jsstring

definition plain_error :: "jsstring \<Rightarrow> js_exn" where
  "plain_error m = \<lparr>ex_class = PlainExn, ex_name = ''Error'', ex_message = m\<rparr>"

lemma plain_error_simps [simp]:
  "ex_class (plain_error m) = PlainExn"
  "ex_name (plain_error m) = ''Error''"
  "ex_message (plain_error m) = m"
  by (simp_all add: plain_error_def)

definition instanceof_Error :: "js_exn \<Rightarrow> bool" where
  "instanceof_Error e = (ex_class e \<noteq> NotAnError)"

text \<open>\<open>e instanceof Error ? e.message : d\<close>\<close>

definition message_or :: "jsstring \<Rightarrow> js_exn \<Rightarrow> jsstring" where
  "message_or d e = (if instanceof_Error e then ex_message e else d)"

datatype body = NoBody | JsonText json | FormData "(jsstring \<times> jsstring) list"

record req_init =
  ri_method :: "jsstring option"
  ri_headers :: "(jsstring \<times> jsstring) list"
  ri_body :: body
  ri_signal :: bool \<comment> \<open>the caller passed its own abort signal\<close>

definition get_init :: req_init where
  "get_init = \<lparr>ri_method = None, ri_headers = [], ri_body = NoBody, ri_signal = False\<rparr>"

definition send_init :: "jsstring \<Rightarrow> body \<Rightarrow> req_init" where
  "send_init m b = \<lparr>ri_method = Some m, ri_headers = [], ri_body = b, ri_signal = False\<rparr>"

lemma init_simps [simp]:
  "ri_method get_init = None" "ri_headers get_init = []" "ri_body get_init = NoBody"
  "ri_signal get_init = False"
  "ri_method (send_init m b) = Some m" "ri_headers (send_init m b) = []"
  "ri_body (send_init m b) = b" "ri_signal (send_init m b) = False"
  by (simp_all add: get_init_def send_init_def)

record request =
  rq_url :: jsstring
  rq_method :: jsstring
  rq_headers :: "(jsstring \<times> jsstring) list"
  rq_body :: body

record response =
  rs_status :: nat
  rs_headers :: "(jsstring \<times> jsstring) list" \<comment> \<open>names in lower case\<close>
  rs_body :: "js_exn + json" \<comment> \<open>what \<open>res.json()\<close> gives or rejects with\<close>

definition rs_ok :: "response \<Rightarrow> bool" where
  "rs_ok r = (200 \<le> rs_status r \<and> rs_status r \<le> 299)"

definition content_type :: "response \<Rightarrow> jsstring" where
  "content_type r = (case map_of (rs_headers r) ''content-type'' of None \<Rightarrow> [] | Some c \<Rightarrow> c)"

datatype outcome = Responds response | Rejects js_exn

text \<open>Object spread \<open>{...a, ...b}\<close> on dictionaries: the later entry of a key wins.\<close>

definition spread :: "('k \<times> 'v) list \<Rightarrow> ('k \<times> 'v) list \<Rightarrow> ('k \<times> 'v) list" where
  "spread a b = filter (\<lambda>(k, _). k \<notin> fst ` set b) a @ b"

lemma map_of_filter_keys:
  "map_of (filter (\<lambda>(k, _). k \<notin> S) a) k = (if k \<in> S then None else map_of a k)"
  by (induction a) auto

lemma map_of_spread: "map_of (spread a b) k = (case map_of b k of None \<Rightarrow> map_of a k | Some v \<Rightarrow> Some v)"
proof (cases "k \<in> fst ` set b")
  case True
  then obtain v where "map_of b k = Some v" by (metis map_of_eq_None_iff not_None_eq)
  with True show ?thesis by (simp add: spread_def map_add_def map_of_filter_keys)
next
  case False
  then have "map_of b k = None" by (simp add: map_of_eq_None_iff)
  with False show ?thesis by (cases "map_of a k") (simp_all add: spread_def map_add_def map_of_filter_keys)
qed

text \<open>\<open>String(v)\<close> of a JSON value, as \<open>new Error(v)\<close> applies it.\<close>

fun to_str :: "json \<Rightarrow> jsstring" where
  "to_str JNull = ''null''"
| "to_str (JBool b) = (if b then ''true'' else ''false'')"
| "to_str (JNum n) = show_int n"
| "to_str (JStr s) = s"
| "to_str (JArr xs) = join '','' (map (\<lambda>x. if x = JNull then [] else to_str x) xs)"
| "to_str (JObj _) = ''[object Object]''"

text \<open>\<open>body?.error?.message || fallback\<close> on a body that may be \<open>null\<close>.\<close>

definition error_message :: "json option \<Rightarrow> jsstring \<Rightarrow> jsstring" where
  "error_message b fallback =
     (case Option.bind (Option.bind b (\<lambda>j. jget j ''error'')) (\<lambda>e. jget e ''message'') of
        Some m \<Rightarrow> if truthy m then to_str m else fallback
      | None \<Rightarrow> fallback)"

definition error_body :: "jsstring \<Rightarrow> jsstring \<Rightarrow> json" where
  "error_body code m = JObj [(''error'', JObj [(''code'', JStr code), (''message'', JStr m)])]"

lemma error_message_body [simp]:
  "error_message (Some (error_body c m)) d = (if m = [] then d else m)"
  "error_message None d = d"
  by (simp_all add: error_message_def error_body_def)

section \<open>Effects\<close>

datatype effect =
    Sent request
  | Slept nat
  | Navigated jsstring
  | TokenCleared
  | UnauthorizedCalled

fun is_sent :: "effect \<Rightarrow> bool" where
  "is_sent (Sent _) = True"
| "is_sent _ = False"

definition sents :: "effect list \<Rightarrow> effect list" where
  "sents = filter is_sent"

lemma sents_simps [simp]:
  "sents [] = []"
  "sents (Sent r # es) = Sent r # sents es"
  "sents (Slept n # es) = sents es"
  "sents (Navigated u # es) = sents es"
  "sents (TokenCleared # es) = sents es"
  "sents (UnauthorizedCalled # es) = sents es"
  "sents (es @ fs) = sents es @ sents fs"
  by (simp_all add: sents_def)

type_synonym call_result = "effect list \<times> (js_exn + json)"

section \<open>Endpoint functions\<close>

text \<open>
  An API function of \<open>client/features\<close> or \<open>mobile/src/lib\<close> is a path, a request and what it
  does with the envelope: return \<open>res.data\<close>, return \<open>res.data ?? d\<close>, return the envelope,
  return nothing, or one of these inside \<open>try { ... } catch { return d }\<close>.
\<close>

datatype unwrap =
    Data
  | DataOr json
  | Whole
  | Discard
  | Via "json \<Rightarrow> js_exn + json option" \<comment> \<open>any other shape made of the envelope\<close>

record endpoint =
  ep_path :: jsstring
  ep_init :: req_init
  ep_unwrap :: unwrap
  ep_catch :: "json option"

definition GET :: "jsstring \<Rightarrow> unwrap \<Rightarrow> endpoint" where
  "GET p u = \<lparr>ep_path = p, ep_init = get_init, ep_unwrap = u, ep_catch = None\<rparr>"

definition SEND :: "jsstring \<Rightarrow> jsstring \<Rightarrow> body \<Rightarrow> unwrap \<Rightarrow> endpoint" where
  "SEND m p b u = \<lparr>ep_path = p, ep_init = send_init m b, ep_unwrap = u, ep_catch = None\<rparr>"

lemma endpoint_simps [simp]:
  "ep_path (GET p u) = p" "ep_init (GET p u) = get_init" "ep_unwrap (GET p u) = u"
  "ep_catch (GET p u) = None"
  "ep_path (SEND m p b u) = p" "ep_init (SEND m p b u) = send_init m b"
  "ep_unwrap (SEND m p b u) = u" "ep_catch (SEND m p b u) = None"
  by (simp_all add: GET_def SEND_def)

text \<open>\<open>res.data\<close>: reading a property of \<open>null\<close> raises; a missing one is \<open>undefined\<close>.\<close>

definition null_deref :: js_exn where
  "null_deref = \<lparr>ex_class = TypeExn, ex_name = ''TypeError'', ex_message = ''Cannot read properties of null''\<rparr>"

fun unwrapped :: "unwrap \<Rightarrow> json \<Rightarrow> js_exn + json option" where
  "unwrapped Whole j = Inr (Some j)"
| "unwrapped Discard j = Inr None"
| "unwrapped Data j = (if j = JNull then Inl null_deref else Inr (jget j ''data''))"
| "unwrapped (Via f) j = f j"
| "unwrapped (DataOr d) j = (if j = JNull then Inl null_deref else Inr (Some (or_default (jget j ''data'') d)))"

definition finish_endpoint :: "endpoint \<Rightarrow> js_exn + json \<Rightarrow> js_exn + json option" where
  "finish_endpoint ep res =
     (let v = (case res of Inl e \<Rightarrow> Inl e | Inr j \<Rightarrow> unwrapped (ep_unwrap ep) j)
      in case (v, ep_catch ep) of (Inl _, Some d) \<Rightarrow> Inr (Some d) | _ \<Rightarrow> v)"

definition run_endpoint ::
  "(jsstring \<Rightarrow> req_init \<Rightarrow> call_result) \<Rightarrow> endpoint \<Rightarrow> effect list \<times> (js_exn + json option)" where
  "run_endpoint call ep =
     (let r = call (ep_path ep) (ep_init ep) in (fst r, finish_endpoint ep (snd r)))"

definition safe_method :: "req_init \<Rightarrow> bool" where
  "safe_method i = (case ri_method i of None \<Rightarrow> True
     | Some m \<Rightarrow> to_upper m \<in> {''GET'', ''HEAD'', ''OPTIONS''})"

text \<open>
  The contract of an API client: it starts with one request, returns the parsed body of a
  successful first answer, reports an error answer by the server's message, and sends at
  most \<open>budget\<close> requests.
\<close>

locale api_client =
  fixes call :: "'w \<Rightarrow> jsstring \<Rightarrow> req_init \<Rightarrow> call_result"
    and net :: "'w \<Rightarrow> nat \<Rightarrow> outcome"
    and budget :: nat
  assumes call_ok: "net w 0 = Responds r \<Longrightarrow> rs_ok r \<Longrightarrow> str_includes (content_type r) ''json'' \<Longrightarrow>
      rs_body r = Inr j \<Longrightarrow> snd (call w p i) = Inr j"
    and call_sends: "length (sents (fst (call w p i))) \<le> budget"
    and call_starts: "\<exists>q es. fst (call w p i) = Sent q # es"
begin

lemma endpoint_data:
  assumes "net w 0 = Responds r" "rs_ok r" "str_includes (content_type r) ''json''"
    and "rs_body r = Inr (JObj kvs)" "ep_unwrap ep = Data"
  shows "snd (run_endpoint (call w) ep) = Inr (map_of kvs ''data'')"
proof -
  have "snd (call w (ep_path ep) (ep_init ep)) = Inr (JObj kvs)"
    using call_ok [OF assms(1-4)] .
  with assms(5) show ?thesis
    by (cases "ep_catch ep") (simp_all add: run_endpoint_def finish_endpoint_def Let_def)
qed

lemma endpoint_catch:
  assumes "ep_catch ep = Some d"
  shows "\<exists>v. snd (run_endpoint (call w) ep) = Inr v"
  using assms
  by (auto simp: run_endpoint_def finish_endpoint_def Let_def split: sum.splits)

lemma endpoint_sends: "length (sents (fst (run_endpoint (call w) ep))) \<le> budget"
  using call_sends [of w "ep_path ep" "ep_init ep"] by (simp add: run_endpoint_def Let_def)

lemma endpoint_sends_some: "0 < length (sents (fst (run_endpoint (call w) ep)))"
  using call_starts [of w "ep_path ep" "ep_init ep"]
  by (auto simp: run_endpoint_def Let_def)

end

end
