(* ===== verification/Machine.thy ===== *)
theory Machine
  imports Prelude
begin

text \<open>
  State machines with guarded events. A component gives its start states, a guard (which
  events the user, the timer or the network can deliver in a state) and a step function
  that translates its handlers. \<open>reach\<close> is the set of states that some run visits;
  \<open>run\<close> folds the step function over an event list when the guard holds at each step.
  The locale \<open>machine\<close> is the contract of an invariant: established at the start and kept
  by every guarded step. Components interpret it on their own definitions.
\<close>

inductive reach :: "('s \<Rightarrow> bool) \<Rightarrow> ('s \<Rightarrow> 'e \<Rightarrow> bool) \<Rightarrow> ('s \<Rightarrow> 'e \<Rightarrow> 's) \<Rightarrow> 's \<Rightarrow> bool"
  for I :: "'s \<Rightarrow> bool" and G :: "'s \<Rightarrow> 'e \<Rightarrow> bool" and st :: "'s \<Rightarrow> 'e \<Rightarrow> 's" where
  reach_init: "I s \<Longrightarrow> reach I G st s"
| reach_step: "reach I G st s \<Longrightarrow> G s e \<Longrightarrow> reach I G st (st s e)"

fun run :: "('s \<Rightarrow> 'e \<Rightarrow> 's) \<Rightarrow> 's \<Rightarrow> 'e list \<Rightarrow> 's" where
  "run st s [] = s"
| "run st s (e # es) = run st (st s e) es"

fun allowed :: "('s \<Rightarrow> 'e \<Rightarrow> bool) \<Rightarrow> ('s \<Rightarrow> 'e \<Rightarrow> 's) \<Rightarrow> 's \<Rightarrow> 'e list \<Rightarrow> bool" where
  "allowed G st s [] = True"
| "allowed G st s (e # es) = (G s e \<and> allowed G st (st s e) es)"

lemma run_append [simp]: "run st s (xs @ ys) = run st (run st s xs) ys"
  by (induction xs arbitrary: s) auto

lemma allowed_append: "allowed G st s (xs @ ys) = (allowed G st s xs \<and> allowed G st (run st s xs) ys)"
  by (induction xs arbitrary: s) auto

lemma run_reach: "reach I G st s \<Longrightarrow> allowed G st s es \<Longrightarrow> reach I G st (run st s es)"
proof (induction es arbitrary: s)
  case Nil
  then show ?case by simp
next
  case (Cons e es)
  then show ?case using reach_step [of I G st s e] by simp
qed

text \<open>A run from a start state reaches its final state: the form witnesses use.\<close>

lemma run_reachable: "I s \<Longrightarrow> allowed G st s es \<Longrightarrow> reach I G st (run st s es)"
  by (rule run_reach) (rule reach_init)

locale machine =
  fixes I :: "'s \<Rightarrow> bool"
    and G :: "'s \<Rightarrow> 'e \<Rightarrow> bool"
    and st :: "'s \<Rightarrow> 'e \<Rightarrow> 's"
    and inv :: "'s \<Rightarrow> bool"
  assumes inv_start: "I s \<Longrightarrow> inv s"
    and inv_step: "inv s \<Longrightarrow> G s e \<Longrightarrow> inv (st s e)"
begin

lemma reach_inv: "reach I G st s \<Longrightarrow> inv s"
  by (induction rule: reach.induct) (auto intro: inv_start inv_step)

lemma run_inv: "inv s \<Longrightarrow> allowed G st s es \<Longrightarrow> inv (run st s es)"
  by (induction es arbitrary: s) (auto intro: inv_step)

end

text \<open>
  A machine with a load (pending calls, open connections, failures counted) that the
  invariant bounds: the bound holds in every reachable state.
\<close>

locale bounded_machine = machine I G st inv
  for I :: "'s \<Rightarrow> bool" and G :: "'s \<Rightarrow> 'e \<Rightarrow> bool" and st :: "'s \<Rightarrow> 'e \<Rightarrow> 's"
    and inv :: "'s \<Rightarrow> bool" +
  fixes load :: "'s \<Rightarrow> nat" and limit :: nat
  assumes load_inv: "inv s \<Longrightarrow> load s \<le> limit"
begin

lemma reach_load: "reach I G st s \<Longrightarrow> load s \<le> limit"
  using load_inv reach_inv by blast

end

text \<open>
  A machine that simulates another through an abstraction of its states: each step is a list of
  steps of the other, and so is each run.
\<close>

locale simulation = machine I G st inv
  for I :: "'s \<Rightarrow> bool" and G :: "'s \<Rightarrow> 'e \<Rightarrow> bool" and st :: "'s \<Rightarrow> 'e \<Rightarrow> 's"
    and inv :: "'s \<Rightarrow> bool" +
  fixes abs :: "'s \<Rightarrow> 'a" and ast :: "'a \<Rightarrow> 'f \<Rightarrow> 'a" and ev :: "'e \<Rightarrow> 'f list"
  assumes sim_step: "inv s \<Longrightarrow> G s e \<Longrightarrow> abs (st s e) = run ast (abs s) (ev e)"
begin

lemma sim_run: "inv s \<Longrightarrow> allowed G st s es \<Longrightarrow> abs (run st s es) = run ast (abs s) (concat (map ev es))"
  by (induction es arbitrary: s) (simp_all add: sim_step inv_step)

lemma sim_start: "I s \<Longrightarrow> allowed G st s es \<Longrightarrow> abs (run st s es) = run ast (abs s) (concat (map ev es))"
  using sim_run inv_start by blast

end

end
