(* ===== verification/SsrClient.thy ===== *)
theory SsrClient
  imports Http Machine
begin

text \<open>
  The server-side client \<open>client/lib/server-api.ts\<close>: a bounded fetch behind a circuit
  breaker. The two module variables \<open>consecutiveFailures\<close> and \<open>breakerOpenUntil\<close> are shared
  by every page that is rendered, and \<open>apiFetchSSR\<close> suspends at its \<open>await\<close>, so a call is
  two steps (\<open>ssr_call\<close> up to the fetch, \<open>ssr_settle\<close> from its outcome on) and calls
  interleave freely. Times are milliseconds of \<open>Date.now()\<close>.
\<close>

definition ssr_base :: "jsstring option \<Rightarrow> jsstring" where
  "ssr_base api_url = (case api_url of
     Some u \<Rightarrow> if u \<noteq> [] then u else ''http://localhost:8080/api/v1''
   | None \<Rightarrow> ''http://localhost:8080/api/v1'')"

text \<open>\<open>Number(env)\<close> is \<open>None\<close> when it is not finite.\<close>

definition SSR_FETCH_TIMEOUT_MS :: "int option \<Rightarrow> int" where
  "SSR_FETCH_TIMEOUT_MS raw = (case raw of Some n \<Rightarrow> if n > 0 then n else 8000 | None \<Rightarrow> 8000)"

definition BREAKER_THRESHOLD :: nat where "BREAKER_THRESHOLD = 3"
definition BREAKER_COOLDOWN_MS :: int where "BREAKER_COOLDOWN_MS = 60000"

record ssr_state =
  consecutiveFailures :: nat
  breakerOpenUntil :: int
  inflight :: nat \<comment> \<open>calls suspended at their fetch\<close>
  clock :: int

definition ssr_init :: "ssr_state \<Rightarrow> bool" where
  "ssr_init s = (consecutiveFailures s = 0 \<and> breakerOpenUntil s = 0 \<and> inflight s = 0 \<and> 0 \<le> clock s)"

definition tripBreaker :: "int \<Rightarrow> ssr_state \<Rightarrow> ssr_state" where
  "tripBreaker now s =
     (let n = consecutiveFailures s + 1 in
      if n \<ge> BREAKER_THRESHOLD
      then s\<lparr>breakerOpenUntil := now + BREAKER_COOLDOWN_MS, consecutiveFailures := 0\<rparr>
      else s\<lparr>consecutiveFailures := n\<rparr>)"

definition skips :: "int \<Rightarrow> ssr_state \<Rightarrow> bool" where
  "skips now s = (now < breakerOpenUntil s)"

text \<open>Up to the fetch: either the call is skipped with an error, or a request goes out.\<close>

definition ssr_call :: "int \<Rightarrow> jsstring \<Rightarrow> ssr_state \<Rightarrow> ssr_state \<times> js_exn option" where
  "ssr_call now path s =
     (if skips now s
      then (s\<lparr>clock := now\<rparr>, Some (plain_error (''SSR fetch skipped (API unavailable) '' @ path)))
      else (s\<lparr>clock := now, inflight := inflight s + 1\<rparr>, None))"

text \<open>From the outcome of the fetch to the end of the call.\<close>

definition ssr_settle ::
  "int \<Rightarrow> jsstring \<Rightarrow> int \<Rightarrow> outcome \<Rightarrow> ssr_state \<Rightarrow> ssr_state \<times> (js_exn + json)" where
  "ssr_settle now path timeoutMs out s =
     (let s1 = s\<lparr>clock := now, inflight := inflight s - 1\<rparr> in
      case out of
        Rejects cause \<Rightarrow>
          (tripBreaker now s1,
           Inl (plain_error (''SSR fetch failed (timeout '' @ show_int timeoutMs @ ''ms) '' @ path @
             '': '' @ ex_name cause @ '': '' @ ex_message cause)))
      | Responds res \<Rightarrow>
          if \<not> rs_ok res
          then (s1, Inl (plain_error (''SSR fetch failed '' @ show_nat (rs_status res) @ '' '' @ path)))
          else (s1\<lparr>consecutiveFailures := 0, breakerOpenUntil := 0\<rparr>, rs_body res))"

datatype ssr_event = Call int jsstring | Settle int jsstring int outcome

fun ssr_guard :: "ssr_state \<Rightarrow> ssr_event \<Rightarrow> bool" where
  "ssr_guard s (Call t p) = (clock s \<le> t)"
| "ssr_guard s (Settle t p ms out) = (clock s \<le> t \<and> 0 < inflight s)"

fun ssr_step :: "ssr_state \<Rightarrow> ssr_event \<Rightarrow> ssr_state" where
  "ssr_step s (Call t p) = fst (ssr_call t p s)"
| "ssr_step s (Settle t p ms out) = fst (ssr_settle t p ms out s)"

lemmas ssr_defs [step_simps] = ssr_call_def ssr_settle_def tripBreaker_def Let_def
  BREAKER_THRESHOLD_def BREAKER_COOLDOWN_MS_def skips_def

section \<open>The breaker's invariant\<close>

definition breaker_inv :: "ssr_state \<Rightarrow> bool" where
  "breaker_inv s = (consecutiveFailures s < BREAKER_THRESHOLD \<and>
     breakerOpenUntil s \<le> clock s + BREAKER_COOLDOWN_MS \<and> 0 \<le> clock s)"

lemma breaker_inv_init: "ssr_init s \<Longrightarrow> breaker_inv s"
  by (simp add: ssr_init_def breaker_inv_def BREAKER_THRESHOLD_def BREAKER_COOLDOWN_MS_def)

lemma breaker_inv_step: "breaker_inv s \<Longrightarrow> ssr_guard s e \<Longrightarrow> breaker_inv (ssr_step s e)"
  by (cases e) (auto simp: breaker_inv_def step_simps split: outcome.splits)

interpretation ssr: bounded_machine ssr_init ssr_guard ssr_step breaker_inv consecutiveFailures 2
proof unfold_locales
  show "breaker_inv s \<Longrightarrow> consecutiveFailures s \<le> 2" for s
    by (simp add: breaker_inv_def BREAKER_THRESHOLD_def)
qed (fact breaker_inv_init, fact breaker_inv_step)

abbreviation ssr_reach :: "ssr_state \<Rightarrow> bool" where
  "ssr_reach \<equiv> reach ssr_init ssr_guard ssr_step"

definition ssr_start :: ssr_state where
  "ssr_start = \<lparr>consecutiveFailures = 0, breakerOpenUntil = 0, inflight = 0, clock = 1000\<rparr>"

lemma ssr_start_init: "ssr_init ssr_start"
  by (simp add: ssr_start_def ssr_init_def)

lemma ssr_run_reach:
  "allowed ssr_guard ssr_step ssr_start es \<Longrightarrow> ssr_reach (run ssr_step ssr_start es)"
  by (rule run_reachable) (rule ssr_start_init)

definition net_down :: outcome where
  "net_down = Rejects \<lparr>ex_class = TypeExn, ex_name = ''TypeError'', ex_message = ''fetch failed''\<rparr>"

definition answer :: "nat \<Rightarrow> outcome" where
  "answer code = Responds \<lparr>rs_status = code, rs_headers = [], rs_body = Inr JNull\<rparr>"

text \<open>A call that goes out at \<open>t\<close> and is rejected at \<open>t\<close>, with no other call in between.\<close>

definition lost_call :: "int \<Rightarrow> ssr_event list" where
  "lost_call t = [Call t ''/p'', Settle t ''/p'' 8000 net_down]"

definition answered_call :: "int \<Rightarrow> nat \<Rightarrow> ssr_event list" where
  "answered_call t code = [Call t ''/p'', Settle t ''/p'' 8000 (answer code)]"

text \<open>
  C8. The breaker can delay recovery by at most its cooldown: in every reachable state,
  however the calls interleave, a call made 60 seconds later is not skipped, and the failure
  counter is below the threshold.
\<close>

theorem breaker_recovers:
  assumes "ssr_reach s" "clock s + 60000 \<le> t"
  shows "snd (ssr_call t p s) = None \<and> consecutiveFailures s < 3"
proof -
  have "breaker_inv s" using assms(1) by (rule ssr.reach_inv)
  with assms(2) show ?thesis by (simp add: breaker_inv_def step_simps)
qed

theorem breaker_recovers_witness:
  "skips 30000 (run ssr_step ssr_start (lost_call 1000 @ lost_call 1001 @ lost_call 1002)) \<and>
   snd (ssr_call 61002 ''/tutors'' (run ssr_step ssr_start (lost_call 1000 @ lost_call 1001 @ lost_call 1002))) = None"
proof -
  let ?es = "lost_call 1000 @ lost_call 1001 @ lost_call 1002"
  have "allowed ssr_guard ssr_step ssr_start ?es" "clock (run ssr_step ssr_start ?es) = 1002"
      "skips 30000 (run ssr_step ssr_start ?es)"
    by (simp_all add: ssr_start_def lost_call_def net_down_def step_simps)
  with breaker_recovers [OF ssr_run_reach [of ?es], of 61002 "''/tutors''"]
  show ?thesis by simp
qed

lemma lost_call_run:
  "\<not> skips t s \<Longrightarrow> run ssr_step s (lost_call t) =
     tripBreaker t (s\<lparr>clock := t\<rparr>)"
  by (simp add: lost_call_def net_down_def step_simps)

text \<open>
  Three lost calls in a row open the breaker for 60 seconds from the last one: until
  then every call fails without sending a request.
\<close>

theorem three_losses_open:
  assumes "consecutiveFailures s = 0" "breakerOpenUntil s \<le> t1" "t1 \<le> t2" "t2 \<le> t3"
    and "u < t3 + 60000"
  shows "snd (ssr_call u p (run ssr_step s (lost_call t1 @ lost_call t2 @ lost_call t3)))
    = Some (plain_error (''SSR fetch skipped (API unavailable) '' @ p))"
proof -
  have "run ssr_step s (lost_call t1 @ lost_call t2 @ lost_call t3) =
      s\<lparr>clock := t3, consecutiveFailures := 0, breakerOpenUntil := t3 + 60000\<rparr>"
    using assms by (simp add: lost_call_run step_simps)
  with assms(5) show ?thesis by (simp add: step_simps)
qed

theorem three_losses_open_witness:
  "snd (ssr_call 5000 ''/tutors'' (run ssr_step ssr_start (lost_call 1000 @ lost_call 1001 @ lost_call 1002)))
    = Some (plain_error ''SSR fetch skipped (API unavailable) /tutors'')"
  using three_losses_open [of ssr_start 1000 1001 1002 5000 "''/tutors''"]
  by (simp add: ssr_start_def)

text \<open>
  An error answer (4xx or 5xx) leaves both breaker variables as they were, and a
  successful answer closes the breaker, whatever its state.
\<close>

theorem answers_do_not_trip:
  "(let s' = fst (ssr_settle t p ms (Responds r) s) in
     if rs_ok r then consecutiveFailures s' = 0 \<and> breakerOpenUntil s' = 0
     else consecutiveFailures s' = consecutiveFailures s \<and> breakerOpenUntil s' = breakerOpenUntil s)"
  by (simp add: step_simps)

text \<open>
  The counter is not one of \emph{consecutive} failures: lost calls that alternate with
  404 answers, each of which shows the API to be reachable, open the breaker too.
\<close>

theorem alternating_losses_open:
  "skips 2006 (run ssr_step ssr_start
     (lost_call 2000 @ answered_call 2001 404 @ lost_call 2002 @ answered_call 2003 404 @ lost_call 2004))
   \<and> allowed ssr_guard ssr_step ssr_start
     (lost_call 2000 @ answered_call 2001 404 @ lost_call 2002 @ answered_call 2003 404 @ lost_call 2004)"
  by (simp add: ssr_start_def lost_call_def answered_call_def net_down_def answer_def rs_ok_def step_simps)

text \<open>
  A success can close a breaker that later failures had opened: a call that was sent
  before the outage and answers after it resets both variables, so the next page calls the
  unavailable API again.
\<close>

lemma late_success_closes:
  "skips 3004 (run ssr_step ssr_start (Call 2000 ''/slow'' # lost_call 3001 @ lost_call 3002 @ lost_call 3003))
   \<and> \<not> skips 3005 (run ssr_step ssr_start ((Call 2000 ''/slow'' # lost_call 3001 @ lost_call 3002 @ lost_call 3003)
         @ [Settle 3004 ''/slow'' 8000 (answer 200)]))"
  by (simp add: ssr_start_def lost_call_def net_down_def answer_def rs_ok_def step_simps)

end
