(* ===== verification/ApiClient.thy ===== *)
theory ApiClient
  imports Http
begin

text \<open>
  The browser client \<open>client/lib/api.ts\<close>: base URL, trace ids, one bounded request
  (\<open>rawFetch\<close>), and \<open>apiFetch\<close> with its single retry of safe methods, the redirect to the
  login page on an expired session and the envelope handling. The lemmas show how often a
  request can be sent, when the redirect happens, and what each answer returns.
\<close>

record web_env =
  we_browser :: bool \<comment> \<open>\<open>typeof window !== "undefined"\<close>\<close>
  we_api_url :: "jsstring option" \<comment> \<open>\<open>NEXT_PUBLIC_API_URL\<close>\<close>
  we_trace :: "nat \<Rightarrow> jsstring" \<comment> \<open>trace id drawn for the n-th request\<close>
  we_net :: "nat \<Rightarrow> outcome" \<comment> \<open>outcome of the n-th request\<close>

definition API_BASE :: "web_env \<Rightarrow> jsstring" where
  "API_BASE env =
     (if \<not> we_browser env
      then (case we_api_url env of
              Some u \<Rightarrow> if u \<noteq> [] then u else ''http://localhost:8080/api/v1''
            | None \<Rightarrow> ''http://localhost:8080/api/v1'')
      else ''/api/v1'')"

section \<open>Trace ids\<close>

definition hex_lower :: "nat \<Rightarrow> char" where
  "hex_lower n = ''0123456789abcdef'' ! n"

text \<open>
  The fallback of \<open>getTraceId\<close>: every \<open>x\<close> and \<open>y\<close> of the pattern is replaced by a random
  hexadecimal digit (\<open>rs\<close>, each below 16); a \<open>y\<close> digit is \<open>(r & 0x3) | 0x8\<close>.
\<close>

fun trace_fill :: "jsstring \<Rightarrow> nat list \<Rightarrow> jsstring" where
  "trace_fill [] rs = []"
| "trace_fill (c # cs) rs =
     (if c = CHR ''x'' \<or> c = CHR ''y'' then
        (case rs of
           [] \<Rightarrow> c # trace_fill cs []
         | r # rs' \<Rightarrow>
             hex_lower (if c = CHR ''x'' then r else or (and r 3) 8) # trace_fill cs rs')
      else c # trace_fill cs rs)"

definition trace_pattern :: jsstring where
  "trace_pattern = ''xxxxxxxx-xxxx-4xxx-yxxx-xxxxxxxxxxxx''"

definition getTraceId_fallback :: "nat list \<Rightarrow> jsstring" where
  "getTraceId_fallback rs = trace_fill trace_pattern rs"

lemma length_trace_fill [simp]: "length (trace_fill cs rs) = length cs"
  by (induction cs rs rule: trace_fill.induct) (auto split: list.splits)

lemma trace_fill_fixed:
  "i < length cs \<Longrightarrow> cs ! i \<noteq> CHR ''x'' \<Longrightarrow> cs ! i \<noteq> CHR ''y'' \<Longrightarrow> trace_fill cs rs ! i = cs ! i"
  by (induction cs rs arbitrary: i rule: trace_fill.induct) (auto simp: nth_Cons split: nat.splits list.splits)

lemma variant_digit: "(r::nat) < 16 \<Longrightarrow> hex_lower (or (and r 3) 8) \<in> set ''89ab''"
  by (drule less_16_cases)
    (elim disjE, simp_all add: hex_lower_def del: One_nat_def)

lemma trace_fill_y:
  "i < length cs \<Longrightarrow> cs ! i = CHR ''y'' \<Longrightarrow> length cs \<le> length rs \<Longrightarrow> \<forall>r \<in> set rs. r < 16 \<Longrightarrow>
   trace_fill cs rs ! i \<in> set ''89ab''"
proof (induction cs rs arbitrary: i rule: trace_fill.induct)
  case (1 rs)
  then show ?case by simp
next
  case (2 c cs rs)
  obtain r rs' where rs: "rs = r # rs'" using "2.prems"(3) by (cases rs) auto
  have r: "hex_lower (or (and r 3) 8) \<in> set ''89ab''"
    using variant_digit [of r] "2.prems"(4) rs by simp
  show ?case
  proof (cases i)
    case 0
    with "2.prems" r rs show ?thesis by simp
  next
    case (Suc j)
    then show ?thesis using "2.prems" "2.IH" rs by auto
  qed
qed

section \<open>One request\<close>

definition rawFetch :: "web_env \<Rightarrow> nat \<Rightarrow> jsstring \<Rightarrow> req_init \<Rightarrow> request" where
  "rawFetch env n path init =
     (let traceId = we_trace env n;
          isForm = (case ri_body init of FormData _ \<Rightarrow> True | _ \<Rightarrow> False)
      in \<lparr>rq_url = API_BASE env @ path,
          rq_method = (case ri_method init of None \<Rightarrow> ''GET'' | Some m \<Rightarrow> m),
          rq_headers = spread
            ((if isForm then [] else [(''Content-Type'', ''application/json'')]) @
             [(''X-Trace-ID'', traceId), (''X-Request-ID'', traceId)])
            (ri_headers init),
          rq_body = ri_body init\<rparr>)"

definition RETRY_BACKOFF_MS :: nat where "RETRY_BACKOFF_MS = 500"

definition RETRYABLE_METHODS :: "jsstring list" where
  "RETRYABLE_METHODS = [''GET'', ''HEAD'', ''OPTIONS'']"

definition retryable :: "req_init \<Rightarrow> bool" where
  "retryable init =
     (let m = to_upper (case ri_method init of None \<Rightarrow> ''GET'' | Some m \<Rightarrow> m)
      in m \<in> set RETRYABLE_METHODS \<and> \<not> ri_signal init)"

definition transient :: "js_exn \<Rightarrow> bool" where
  "transient e = (ex_class e = DomExn \<or> ex_class e = TypeExn)"

text \<open>The two nested \<open>try\<close> blocks: effects so far, and the response or the exception.\<close>

definition fetch_with_retry :: "web_env \<Rightarrow> jsstring \<Rightarrow> req_init \<Rightarrow> effect list \<times> outcome" where
  "fetch_with_retry env path init =
     (case we_net env 0 of
        Responds r \<Rightarrow> ([Sent (rawFetch env 0 path init)], Responds r)
      | Rejects e \<Rightarrow>
          if retryable init \<and> transient e
          then ([Sent (rawFetch env 0 path init), Slept RETRY_BACKOFF_MS,
                 Sent (rawFetch env 1 path init)], we_net env 1)
          else ([Sent (rawFetch env 0 path init)], Rejects e))"

definition timed_out :: "js_exn \<Rightarrow> bool" where
  "timed_out e = (ex_class e = DomExn \<and> ex_name e = ''AbortError'')"

definition redirects :: "web_env \<Rightarrow> jsstring \<Rightarrow> response \<Rightarrow> bool" where
  "redirects env path res =
     (rs_status res = 401 \<and> we_browser env \<and> \<not> starts_with path ''/auth/'')"

definition read_response :: "response \<Rightarrow> js_exn + json" where
  "read_response res =
     (let ct = content_type res in
      if \<not> rs_ok res then
        Inl (plain_error (error_message
          (if str_includes ct ''json'' then (case rs_body res of Inl _ \<Rightarrow> None | Inr j \<Rightarrow> Some j) else None)
          (''Request failed '' @ show_nat (rs_status res))))
      else if \<not> str_includes ct ''json'' then
        Inl (plain_error (''Request failed: expected JSON, got '' @ (if ct = [] then ''unknown'' else ct)))
      else rs_body res)"

definition apiFetch :: "web_env \<Rightarrow> jsstring \<Rightarrow> req_init \<Rightarrow> call_result" where
  "apiFetch env path init =
     (case fetch_with_retry env path init of
        (effs, Rejects e) \<Rightarrow>
          (effs, Inl (if timed_out e then plain_error ''Request timed out. Check your connection.'' else e))
      | (effs, Responds res) \<Rightarrow>
          (effs @ (if redirects env path res then [Navigated ''/login''] else []), read_response res))"

lemmas api_defs = apiFetch_def fetch_with_retry_def

section \<open>Properties of the client\<close>

lemma apiFetch_ok:
  "we_net env 0 = Responds r \<Longrightarrow> rs_ok r \<Longrightarrow> str_includes (content_type r) ''json'' \<Longrightarrow>
   rs_body r = Inr j \<Longrightarrow> snd (apiFetch env p i) = Inr j"
  by (simp add: api_defs read_response_def Let_def)

lemma apiFetch_sends_le2: "length (sents (fst (apiFetch env p i))) \<le> 2"
  by (auto simp: api_defs split: outcome.splits)

lemma apiFetch_starts: "\<exists>q es. fst (apiFetch env p i) = Sent q # es"
  by (auto simp: api_defs split: outcome.splits)

interpretation web: api_client apiFetch we_net 2
  by unfold_locales (fact apiFetch_ok, fact apiFetch_sends_le2, fact apiFetch_starts)

lemma unsafe_one_request:
  assumes "\<not> safe_method i"
  shows "length (sents (fst (apiFetch env p i))) = 1"
  using assms
  by (auto simp: api_defs retryable_def RETRYABLE_METHODS_def safe_method_def
      split: outcome.splits option.splits)

lemma auth_path_stays:
  "starts_with p ''/auth/'' \<Longrightarrow> Navigated u \<notin> set (fst (apiFetch env p i))"
  by (auto simp: api_defs redirects_def split: outcome.splits)

text \<open>
  C22. A request that is not a \<open>GET\<close>, \<open>HEAD\<close> or \<open>OPTIONS\<close> is sent exactly once, whatever the
  network does: a payment or booking is never repeated by the client.
\<close>

theorem unsafe_sent_once:
  assumes "\<not> safe_method i"
  shows "length (sents (fst (apiFetch env p i))) = 1"
  using assms by (rule unsafe_one_request)

theorem unsafe_sent_once_witness:
  "length (sents (fst (apiFetch
     \<lparr>we_browser = True, we_api_url = None, we_trace = (\<lambda>_. ''t''),
      we_net = (\<lambda>_. Rejects \<lparr>ex_class = TypeExn, ex_name = ''TypeError'', ex_message = ''Failed to fetch''\<rparr>)\<rparr>
     ''/bookings'' (send_init ''POST'' NoBody)))) = 1"
  by (rule unsafe_sent_once) (simp add: safe_method_def to_upper_def upper_char_def)

text \<open>
  A second request is sent exactly when the first one was rejected with a transient
  exception and the method is safe and uncancelled; it comes after a 500 ms pause, and the
  result is then decided by the second outcome alone.
\<close>

theorem retry_characterised:
  "length (sents (fst (apiFetch env p i))) = 2 \<longleftrightarrow>
     (\<exists>e. we_net env 0 = Rejects e \<and> transient e \<and> retryable i)"
  by (auto simp: api_defs split: outcome.splits)

lemma retry_uses_second:
  assumes "we_net env 0 = Rejects e" "transient e" "retryable i"
  shows "snd (apiFetch env p i) = snd (apiFetch (env\<lparr>we_net := (\<lambda>_. we_net env 1)\<rparr>) p i)"
  using assms
  by (cases "we_net env 1") (auto simp: api_defs redirects_def API_BASE_def)

text \<open>
  The browser is sent to the login page exactly when the answer that decides the call
  is a 401 for a path outside \<open>/auth/\<close>; a failed log-in attempt never reloads the page.
\<close>

theorem login_redirect_iff:
  "Navigated u \<in> set (fst (apiFetch env p i)) \<longleftrightarrow>
     u = ''/login'' \<and> we_browser env \<and> \<not> starts_with p ''/auth/'' \<and>
     (\<exists>res. snd (fetch_with_retry env p i) = Responds res \<and> rs_status res = 401)"
  by (auto simp: api_defs redirects_def split: outcome.splits)

text \<open>Every failure is an exception object with a message for the user, and never a silent value.\<close>

lemma error_answer:
  assumes "we_net env 0 = Responds r" "\<not> rs_ok r"
  shows "\<exists>m. snd (apiFetch env p i) = Inl (plain_error m)"
  using assms by (auto simp: api_defs read_response_def Let_def)

lemma success_only_from_ok:
  assumes "snd (apiFetch env p i) = Inr j"
  shows "\<exists>r. snd (fetch_with_retry env p i) = Responds r \<and> rs_ok r \<and>
           str_includes (content_type r) ''json'' \<and> rs_body r = Inr j"
  using assms
  by (auto simp: apiFetch_def read_response_def Let_def split: prod.splits outcome.splits if_splits)

text \<open>
  The fallback trace id has the shape of a version-4 UUID: 36 characters, a \<open>4\<close> at position
  14 and a variant digit at position 19.
\<close>

theorem trace_id_v4:
  assumes "36 \<le> length rs" "\<forall>r \<in> set rs. r < 16"
  shows "length (getTraceId_fallback rs) = 36 \<and> getTraceId_fallback rs ! 14 = CHR ''4'' \<and>
    getTraceId_fallback rs ! 19 \<in> set ''89ab''"
proof -
  have p: "length trace_pattern = 36" "trace_pattern ! 14 = CHR ''4''" "trace_pattern ! 19 = CHR ''y''"
    by (simp_all add: trace_pattern_def)
  have "length (getTraceId_fallback rs) = 36" by (simp add: getTraceId_fallback_def p)
  moreover have "getTraceId_fallback rs ! 14 = CHR ''4''"
    unfolding getTraceId_fallback_def by (subst trace_fill_fixed) (simp_all add: p)
  moreover have "getTraceId_fallback rs ! 19 \<in> set ''89ab''"
    unfolding getTraceId_fallback_def by (rule trace_fill_y) (use assms p in simp_all)
  ultimately show ?thesis by simp
qed


lemma trace_id_v4_witness: "getTraceId_fallback (replicate 36 10) ! 14 = CHR ''4''"
  using trace_id_v4 [of "replicate 36 10"] by simp

end
