(* ===== verification/SafeNext.thy ===== *)
theory SafeNext
  imports JsText
begin

text \<open>
  Deep-link safety of the log-in flows: \<open>client/lib/safe-next.ts\<close>. The URL parser of the
  platform is modelled for the inputs that reach it, root-relative texts resolved against
  an \<open>https\<close> base: splitting off the fragment and the query, dot-segment removal and
  percent-encoding of the path and the query. The lemmas say which characters a validated
  target can contain, that it never leads back into the log-in pages, and when it is on
  this origin.
\<close>

section \<open>The URL parser on root-relative inputs\<close>

definition c0_set :: "char \<Rightarrow> bool" where
  "c0_set c = (let n = of_char c :: nat in n \<le> 31 \<or> 126 < n)"

definition query_keep :: "char \<Rightarrow> bool" where
  "query_keep c = (\<not> c0_set c \<and> c \<notin> {CHR '' '', CHR 0x22, CHR ''#'', CHR ''<'', CHR ''>'', CHR 0x27})"

definition path_keep :: "char \<Rightarrow> bool" where
  "path_keep c = (\<not> c0_set c \<and>
     c \<notin> {CHR '' '', CHR 0x22, CHR ''#'', CHR ''<'', CHR ''>'', CHR ''?'', CHR ''^'', CHR 0x60,
           CHR ''{'', CHR ''}''})"

definition single_dot :: "jsstring \<Rightarrow> bool" where
  "single_dot s = (to_lower s \<in> {''.'', ''%2e''})"

definition double_dot :: "jsstring \<Rightarrow> bool" where
  "double_dot s = (to_lower s \<in> {''..'', ''.%2e'', ''%2e.'', ''%2e%2e''})"

text \<open>The path state: \<open>out\<close> is the URL's path so far, latest segment first.\<close>

fun path_state :: "jsstring list \<Rightarrow> jsstring list \<Rightarrow> jsstring list" where
  "path_state out [] = rev out"
| "path_state out [s] =
     (if double_dot s then rev ([] # tl out)
      else if single_dot s then rev ([] # out)
      else rev (encode_with path_keep s # out))"
| "path_state out (s # t # ts) =
     (if double_dot s then path_state (tl out) (t # ts)
      else if single_dot s then path_state out (t # ts)
      else path_state (encode_with path_keep s # out) (t # ts))"

definition before :: "char \<Rightarrow> jsstring \<Rightarrow> jsstring" where
  "before c s = takeWhile (\<lambda>x. x \<noteq> c) s"

definition onward ::"char \<Rightarrow> jsstring \<Rightarrow> jsstring" where
  "onward c s = dropWhile (\<lambda>x. x \<noteq> c) s"

text \<open>\<open>new URL(v, base).pathname\<close> and \<open>.search\<close> for \<open>v = "/" @ ...\<close>.\<close>

definition url_segments :: "jsstring \<Rightarrow> jsstring list" where
  "url_segments v = split_on (CHR ''/'') (tl (before (CHR ''?'') (before (CHR ''#'') v)))"

definition url_pathname :: "jsstring \<Rightarrow> jsstring" where
  "url_pathname v = concat (map (\<lambda>s. CHR ''/'' # s) (path_state [] (url_segments v)))"

definition url_search :: "jsstring \<Rightarrow> jsstring" where
  "url_search v = (case onward (CHR ''?'') (before (CHR ''#'') v) of
      [] \<Rightarrow> [] | _ # q \<Rightarrow> if q = [] then [] else CHR ''?'' # encode_with query_keep q)"

section \<open>\<open>safeNextPath\<close> and \<open>withNext\<close>\<close>

definition AUTH_PREFIXES :: "jsstring list" where
  "AUTH_PREFIXES = [''/login'', ''/login-code'', ''/register'', ''/onboarding'',
     ''/forgot-password'', ''/reset-password'', ''/verify-email'']"

definition auth_target :: "jsstring \<Rightarrow> bool" where
  "auth_target lower = list_ex (\<lambda>p. lower = p \<or> starts_with lower (p @ ''/'') \<or> starts_with lower (p @ ''?'')) AUTH_PREFIXES"

definition control_char :: "char \<Rightarrow> bool" where
  "control_char c = ((of_char c :: nat) \<le> 31)"

definition safeNextPath :: "jsstring option \<Rightarrow> jsstring option" where
  "safeNextPath raw =
     (case raw of
        None \<Rightarrow> None
      | Some r \<Rightarrow>
          if r = [] then None
          else (let v = trim r in
            if \<not> starts_with v ''/'' then None
            else if starts_with v ''//'' \<or> str_includes v [CHR 0x5C] \<or> str_includes v ''://'' \<or>
                    str_includes v ''%5c'' then None
            else if list_ex control_char v then None
            else (let path = url_pathname v; search = url_search v; lower = to_lower (path @ search) in
              if auth_target lower then None else Some (path @ search))))"

definition withNext :: "jsstring \<Rightarrow> jsstring option \<Rightarrow> jsstring" where
  "withNext route nxt =
     (case safeNextPath nxt of
        Some n \<Rightarrow> if n \<noteq> [] then route @ ''?next='' @ encode_uri_component n else route
      | None \<Rightarrow> route)"

definition loginWithReturn :: "(jsstring \<times> jsstring) option \<Rightarrow> jsstring" where
  "loginWithReturn location =
     (case location of None \<Rightarrow> ''/login'' | Some (pathname, search) \<Rightarrow> withNext ''/login'' (Some (pathname @ search)))"

section \<open>Characters of a validated target\<close>

definition url_safe :: "char \<Rightarrow> bool" where
  "url_safe c = (let n = of_char c :: nat in
     33 \<le> n \<and> n \<le> 126 \<and> c \<notin> {CHR 0x22, CHR ''#'', CHR ''<'', CHR ''>''})"

lemma hex_digit_safe: "n < 16 \<Longrightarrow> url_safe (hex_digit n)"
  by (drule less_16_cases) (elim disjE, simp_all add: hex_digit_def url_safe_def)

lemma pct_safe: "c \<in> set (pct d) \<Longrightarrow> url_safe c"
proof -
  assume c: "c \<in> set (pct d)"
  have "list_all url_safe (pct d)"
    by (simp add: pct_def Let_def hex_digit_safe of_char_div16) (simp add: url_safe_def)
  with c show "url_safe c" by (simp add: list_all_iff)
qed

lemma encode_with_safe:
  assumes "\<And>c. k c \<Longrightarrow> url_safe c" "c \<in> set (encode_with k s)"
  shows "url_safe c"
  using assms(2) by (induction s) (auto simp: assms(1) pct_safe split: if_splits)

lemma char_33: "\<not> c0_set c \<Longrightarrow> c \<noteq> CHR '' '' \<Longrightarrow> 33 \<le> (of_char c :: nat) \<and> (of_char c :: nat) \<le> 126"
proof -
  assume a: "\<not> c0_set c" "c \<noteq> CHR '' ''"
  have "char_of (32::nat) = CHR '' ''" by (simp add: char_of_def bit_0)
  then have "(of_char c :: nat) \<noteq> 32" using a(2) char_of_char [of c] by metis
  with a(1) show ?thesis by (auto simp: c0_set_def Let_def)
qed

lemma path_keep_safe: "path_keep c \<Longrightarrow> url_safe c"
  using char_33 [of c] by (auto simp: path_keep_def url_safe_def Let_def)

lemma query_keep_safe: "query_keep c \<Longrightarrow> url_safe c"
  using char_33 [of c] by (auto simp: query_keep_def url_safe_def Let_def)

abbreviation safe_text :: "jsstring \<Rightarrow> bool" where
  "safe_text \<equiv> list_all url_safe"

lemma safe_path_segment: "safe_text (encode_with path_keep s)"
  using encode_with_safe [OF path_keep_safe] by (auto simp: list_all_iff)

lemma safe_query_text: "safe_text (encode_with query_keep s)"
  using encode_with_safe [OF query_keep_safe] by (auto simp: list_all_iff)

lemma list_all_tl: "list_all P xs \<Longrightarrow> list_all P (tl xs)"
  by (cases xs) auto

lemma path_state_safe: "list_all safe_text out \<Longrightarrow> list_all safe_text (path_state out segs)"
  by (induction out segs rule: path_state.induct) (auto simp: safe_path_segment list_all_tl)

lemma slash_safe: "url_safe (CHR ''/'')" "url_safe (CHR ''?'')"
  by (simp_all add: url_safe_def)

lemma url_pathname_safe: "safe_text (url_pathname v)"
  using path_state_safe [of "[]" "url_segments v"]
  by (simp add: url_pathname_def slash_safe list_all_iff)

lemma url_search_safe: "safe_text (url_search v)"
  by (simp add: url_search_def safe_query_text slash_safe split: list.splits)

lemma path_state_ne: "segs \<noteq> [] \<Longrightarrow> path_state out segs \<noteq> []"
  by (induction out segs rule: path_state.induct) auto

lemma url_pathname_slash: "\<exists>t. url_pathname v = CHR ''/'' # t"
  using path_state_ne [of "url_segments v" "[]"]
  by (cases "path_state [] (url_segments v)") (auto simp: url_pathname_def url_segments_def)

lemma safeNextPath_SomeD:
  assumes "safeNextPath raw = Some n"
  shows "\<exists>r. raw = Some r \<and> starts_with (trim r) ''/'' \<and> \<not> starts_with (trim r) ''//'' \<and>
    n = url_pathname (trim r) @ url_search (trim r) \<and> \<not> auth_target (to_lower n)"
  using assms unfolding safeNextPath_def Let_def
  by (auto split: option.splits if_splits)

text \<open>Evaluation of \<open>safeNextPath\<close> on a concrete text, one intermediate value at a time.\<close>

lemma safeNextPath_eval:
  assumes "trim r = v" "url_pathname v = p" "url_search v = q" "to_lower (p @ q) = l" "r \<noteq> []"
  shows "safeNextPath (Some r) =
     (if \<not> starts_with v ''/'' then None
      else if starts_with v ''//'' \<or> str_includes v [CHR 0x5C] \<or> str_includes v ''://'' \<or>
              str_includes v ''%5c'' then None
      else if list_ex control_char v then None
      else if auth_target l then None else Some (p @ q))"
  using assms(5) unfolding safeNextPath_def Let_def option.case assms(1) assms(2) assms(3) assms(4)
  by (simp only: if_False)

lemmas text_eval = trim_def is_space_def to_lower_def lower_char_def Let_def
lemmas url_eval = url_pathname_def url_search_def url_segments_def before_def onward_def
  single_dot_def double_dot_def path_keep_def query_keep_def c0_set_def text_eval

section \<open>Properties\<close>

lemma validated_shape:
  assumes "safeNextPath raw = Some n"
  shows "starts_with n ''/'' \<and> safe_text n \<and> \<not> auth_target (to_lower n)"
proof -
  obtain r where r: "n = url_pathname (trim r) @ url_search (trim r)" "\<not> auth_target (to_lower n)"
    using safeNextPath_SomeD [OF assms] by blast
  have "safe_text n" by (simp add: r(1) url_pathname_safe url_search_safe)
  moreover obtain t where "url_pathname (trim r) = CHR ''/'' # t" using url_pathname_slash by blast
  ultimately show ?thesis using r by simp
qed

lemma url_safe_range: "url_safe c \<Longrightarrow> 33 \<le> (of_char c :: nat) \<and> (of_char c :: nat) \<le> 126"
  unfolding url_safe_def Let_def by (elim conjE) (rule conjI)

lemma url_safe_not_space: "url_safe c \<Longrightarrow> \<not> is_space c"
  by (drule url_safe_range) (simp add: is_space_def Let_def)

lemma safe_text_trim:
  assumes "safe_text n"
  shows "trim n = n"
proof -
  have id: "dropWhile is_space xs = xs" if "safe_text xs" for xs
    using that by (cases xs) (simp_all add: url_safe_not_space)
  have "safe_text (rev n)" using assms by (simp add: list_all_iff)
  with assms show ?thesis by (simp add: trim_def id)
qed

lemma dashboard_validated: "safeNextPath (Some ''/dashboard'') = Some ''/dashboard''"
proof -
  have t: "trim ''/dashboard'' = ''/dashboard''" by (simp add: text_eval)
  have u: "url_pathname ''/dashboard'' = ''/dashboard''" "url_search ''/dashboard'' = []"
    by (simp_all add: url_eval)
  have l: "to_lower (''/dashboard'' @ []) = ''/dashboard''" by (simp add: text_eval)
  show ?thesis
    by (subst safeNextPath_eval [OF t u l])
      (simp_all add: control_char_def auth_target_def AUTH_PREFIXES_def)
qed

text \<open>
  A validated target is a root-relative path of printable ASCII without quotes, angle
  brackets, blanks or a fragment, so it can be put into a header or a query string as it
  is; and it never leads back to a log-in, registration or recovery page.
\<close>

theorem safeNextPath_shape:
  assumes "safeNextPath raw = Some n"
  shows "starts_with n ''/'' \<and> safe_text n \<and> \<not> auth_target (to_lower n)"
  using assms by (rule validated_shape)

lemma safeNextPath_shape_witness:
  "starts_with ''/dashboard'' ''/'' \<and> safe_text ''/dashboard'' \<and> \<not> auth_target (to_lower ''/dashboard'')"
  using safeNextPath_shape [OF dashboard_validated] .

text \<open>Dot segments are looked for before and after encoding with the same result.\<close>

definition dot_segment :: "jsstring \<Rightarrow> bool" where
  "dot_segment s = (single_dot s \<or> double_dot s)"

fun only_dot_escapes :: "jsstring \<Rightarrow> bool" where
  "only_dot_escapes [] = True"
| "only_dot_escapes (c # r) =
     (if c = CHR ''%'' then
        (case r of a # b # r' \<Rightarrow> a = CHR ''2'' \<and> b = CHR ''e'' \<and> only_dot_escapes r' | _ \<Rightarrow> False)
      else only_dot_escapes r)"

lemma dot_only_escapes: "dot_segment s \<Longrightarrow> only_dot_escapes (to_lower s)"
  by (auto simp: dot_segment_def single_dot_def double_dot_def)

lemma lower_hex: "n < 16 \<Longrightarrow> lower_char (hex_digit n) = CHR ''2'' \<longleftrightarrow> n = 2"
    "n < 16 \<Longrightarrow> lower_char (hex_digit n) = CHR ''e'' \<longleftrightarrow> n = 14"
  by (drule less_16_cases, elim disjE, simp_all add: hex_digit_def lower_char_def char_of_def bit_0)+

lemma pct_dot:
  assumes "lower_char (hex_digit ((of_char c :: nat) div 16)) = CHR ''2''"
    and "lower_char (hex_digit ((of_char c :: nat) mod 16)) = CHR ''e''"
  shows "c = CHR ''.''"
proof -
  have "(of_char c :: nat) div 16 = 2" "(of_char c :: nat) mod 16 = 14"
    using assms of_char_256 [of c] by (simp_all add: lower_hex)
  then have "(of_char c :: nat) = 46" by presburger
  moreover have "char_of (46::nat) = CHR ''.''" by (simp add: char_of_def bit_0)
  ultimately show ?thesis using char_of_char [of c] by metis
qed

lemma lower_is_pct: "lower_char c = CHR ''%'' \<longleftrightarrow> c = CHR ''%''"
proof
  assume a: "lower_char c = CHR ''%''"
  show "c = CHR ''%''"
  proof (cases "65 \<le> (of_char c :: nat) \<and> (of_char c :: nat) \<le> 90")
    case True
    then have "(of_char (lower_char c) :: nat) = of_char c + 32" by (simp add: lower_char_def)
    with a True show ?thesis by simp
  next
    case False
    then have "lower_char c = c" unfolding lower_char_def Let_def by (rule if_not_P)
    with a show ?thesis by simp
  qed
qed (simp add: lower_char_def)

lemma lower_is_dot: "lower_char c = CHR ''.'' \<longleftrightarrow> c = CHR ''.''"
proof
  assume a: "lower_char c = CHR ''.''"
  show "c = CHR ''.''"
  proof (cases "65 \<le> (of_char c :: nat) \<and> (of_char c :: nat) \<le> 90")
    case True
    then have "(of_char (lower_char c) :: nat) = of_char c + 32" by (simp add: lower_char_def)
    with a True show ?thesis by simp
  next
    case False
    then have "lower_char c = c" unfolding lower_char_def Let_def by (rule if_not_P)
    with a show ?thesis by simp
  qed
qed (simp add: lower_char_def)

lemma concat_slashes: "ss \<noteq> [] \<Longrightarrow> concat (map (\<lambda>s. c # s) ss) = c # join [c] ss"
proof (induction ss)
  case Nil
  then show ?case by simp
next
  case (Cons s ss)
  then show ?case by (cases ss) (simp_all add: join_Cons)
qed

text \<open>
  A path of letters, digits, hyphens and underscores is kept as it is, unless it is one of the
  log-in pages.
\<close>

definition plain_char :: "char \<Rightarrow> bool" where
  "plain_char c = (let n = of_char c :: nat in (48 \<le> n \<and> n \<le> 57) \<or> (65 \<le> n \<and> n \<le> 90) \<or>
     (97 \<le> n \<and> n \<le> 122) \<or> n = 45 \<or> n = 95 \<or> n = 47)"

lemma plain_not:
  "\<not> plain_char (CHR ''?'')" "\<not> plain_char (CHR ''#'')" "\<not> plain_char (CHR ''.'')" "\<not> plain_char (CHR ''%'')"
  "\<not> plain_char (CHR '':'')" "\<not> plain_char (CHR 0x5C)" "\<not> plain_char (CHR '' '')" "\<not> plain_char (CHR 0x22)"
  "\<not> plain_char (CHR ''<'')" "\<not> plain_char (CHR ''>'')" "\<not> plain_char (CHR ''^'')" "\<not> plain_char (CHR 0x60)"
  "\<not> plain_char (CHR ''{'')" "\<not> plain_char (CHR ''}'')"
  by (simp_all add: plain_char_def)

lemma plain_keep: "plain_char c \<Longrightarrow> path_keep c"
proof -
  assume p: "plain_char c"
  then have "\<not> c0_set c" unfolding plain_char_def c0_set_def Let_def by arith
  moreover have "c \<notin> {CHR '' '', CHR 0x22, CHR ''#'', CHR ''<'', CHR ''>'', CHR ''?'', CHR ''^'', CHR 0x60, CHR ''{'', CHR ''}''}"
    using p plain_not by auto
  ultimately show ?thesis by (simp add: path_keep_def)
qed

lemma plain_no_dots: "list_all plain_char s \<Longrightarrow> \<not> single_dot s \<and> \<not> double_dot s"
proof -
  assume "list_all plain_char s"
  then have "CHR ''.'' \<notin> set s" "CHR ''%'' \<notin> set s" using plain_not by (auto simp: list_all_iff)
  then have "CHR ''.'' \<notin> set (to_lower s)" "CHR ''%'' \<notin> set (to_lower s)"
    unfolding to_lower_def set_map image_iff by (metis lower_is_dot, metis lower_is_pct)
  then show ?thesis by (auto simp: single_dot_def double_dot_def)
qed

lemma path_state_plain: "list_all (list_all plain_char) segs \<Longrightarrow> path_state out segs = rev out @ segs"
  by (induction out segs rule: path_state.induct)
    (simp_all add: plain_no_dots encode_with_id plain_keep list_all_iff)

lemma before_free: "c \<notin> set s \<Longrightarrow> before c s = s"
  by (auto simp: before_def takeWhile_eq_all_conv)

lemma onward_free: "c \<notin> set s \<Longrightarrow> onward c s = []"
  by (auto simp: onward_def)

lemma includes_char: "str_includes s p \<Longrightarrow> set p \<subseteq> set s"
  by (auto simp: includes_iff)

lemma safeNextPath_plain:
  assumes "list_all plain_char (a # t)"
  shows "safeNextPath (Some (CHR ''/'' # a # t)) =
    (if a = CHR ''/'' \<or> auth_target (to_lower (CHR ''/'' # a # t)) then None else Some (CHR ''/'' # a # t))"
proof -
  let ?v = "CHR ''/'' # a # t"
  have pl: "list_all plain_char ?v" using assms by (simp add: plain_char_def)
  then have no: "c \<in> set ?v \<Longrightarrow> plain_char c" for c by (simp only: list_all_iff)
  have free: "\<not> plain_char c \<Longrightarrow> c \<notin> set ?v" for c using no by blast
  have "path_keep c" if "c \<in> set ?v" for c using no [OF that] by (rule plain_keep)
  then have safe: "safe_text ?v" using path_keep_safe by (auto simp only: list_all_iff)
  have q: "CHR ''?'' \<notin> set ?v" "CHR ''#'' \<notin> set ?v" "CHR '':'' \<notin> set ?v" "CHR ''%'' \<notin> set ?v" "CHR 0x5C \<notin> set ?v"
    using plain_not by (auto intro!: free simp del: list.set)
  have b: "before (CHR ''?'') (before (CHR ''#'') ?v) = ?v"
    by (simp only: before_free [OF q(1)] before_free [OF q(2)])
  have segs: "url_segments ?v = split_on (CHR ''/'') (a # t)"
    unfolding url_segments_def b by simp
  have "list_all (list_all plain_char) (split_on (CHR ''/'') (a # t))"
    using assms unfolding list_all_iff by (meson split_on_chars subsetD)
  then have "url_pathname ?v = concat (map (\<lambda>s. CHR ''/'' # s) (split_on (CHR ''/'') (a # t)))"
    unfolding url_pathname_def segs by (simp only: path_state_plain rev.simps append_Nil)
  also have "\<dots> = ?v" by (simp only: concat_slashes [OF split_on_ne] join_split_on)
  finally have path: "url_pathname ?v = ?v" .
  have search: "url_search ?v = []"
    by (simp only: url_search_def before_free [OF q(2)] onward_free [OF q(1)] list.case)
  have no_esc: "\<not> str_includes ?v [CHR 0x5C]" "\<not> str_includes ?v ''://''" "\<not> str_includes ?v ''%5c''"
    using includes_char [of ?v] q by (metis insert_subset list.simps(15))+
  have ctl: "\<not> list_ex control_char ?v"
    using safe url_safe_range unfolding list_ex_iff list_all_iff control_char_def by fastforce
  have tr: "trim ?v = ?v" using safe by (rule safe_text_trim)
  show ?thesis
    using safeNextPath_eval [OF tr path search refl] no_esc ctl by auto
qed

lemma escapes_kept:
  "only_dot_escapes (to_lower (encode_with path_keep s)) \<Longrightarrow> list_all path_keep s"
proof (induction s rule: length_induct)
  case (1 s)
  show ?case
  proof (cases s)
    case Nil
    then show ?thesis by simp
  next
    case (Cons c s')
    have keep: "path_keep c"
    proof (rule ccontr)
      assume no: "\<not> path_keep c"
      with "1.prems" Cons have "c = CHR ''.''"
        by (intro pct_dot) (simp_all add: pct_def Let_def to_lower_def lower_is_pct)
      with no show False by (simp add: path_keep_def c0_set_def)
    qed
    show ?thesis
    proof (cases "c = CHR ''%''")
      case False
      with "1.prems" "1.IH" keep Cons show ?thesis by (simp add: to_lower_def lower_is_pct)
    next
      case True
      have two: "\<exists>x xs. t = x # xs \<and> path_keep x \<and> to_lower (encode_with path_keep t) = lower_char x # to_lower (encode_with path_keep xs)"
        if "to_lower (encode_with path_keep t) = d # ds" "d \<noteq> CHR ''%''" for t d ds
        using that by (cases t) (auto simp: to_lower_def pct_def Let_def lower_is_pct split: if_splits)
      from "1.prems" True keep Cons obtain ds where
        d: "to_lower (encode_with path_keep s') = CHR ''2'' # CHR ''e'' # ds" "only_dot_escapes ds"
        by (auto simp: to_lower_def lower_is_pct split: list.splits)
      obtain x xs where x: "s' = x # xs" "path_keep x"
          "to_lower (encode_with path_keep xs) = CHR ''e'' # ds"
        using two [OF d(1)] d(1) by auto
      obtain y ys where y: "xs = y # ys" "path_keep y" "to_lower (encode_with path_keep ys) = ds"
        using two [OF x(3)] x(3) by auto
      have "list_all path_keep ys" using "1.IH" d(2) y(3) x(1) y(1) Cons by simp
      with keep x y Cons show ?thesis by simp
    qed
  qed
qed

lemma encode_kept_id: "list_all path_keep s \<Longrightarrow> encode_with path_keep s = s"
  by (rule encode_with_id) (simp add: list_all_iff)

lemma dot_encode: "dot_segment (encode_with path_keep s) \<Longrightarrow> dot_segment s"
  using dot_only_escapes escapes_kept encode_kept_id by metis

lemma hex_digit_kept: "n < 16 \<Longrightarrow> path_keep (hex_digit n)"
  by (drule less_16_cases) (elim disjE, simp_all add: hex_digit_def path_keep_def c0_set_def)

lemma encode_kept: "list_all path_keep (encode_with path_keep s)"
proof (induction s)
  case Nil
  then show ?case by simp
next
  case (Cons c s)
  have "list_all path_keep (pct c)"
    by (simp add: pct_def Let_def hex_digit_kept of_char_div16) (simp add: path_keep_def c0_set_def)
  with Cons show ?case by simp
qed

text \<open>Segments that the parser puts out: kept characters, no slash, no dot segment.\<close>

definition clean_segment :: "jsstring \<Rightarrow> bool" where
  "clean_segment s = (list_all path_keep s \<and> CHR ''/'' \<notin> set s \<and> \<not> dot_segment s)"

lemma empty_clean: "clean_segment []"
  by (simp add: clean_segment_def dot_segment_def single_dot_def double_dot_def to_lower_def)

lemma slash_encode: "CHR ''/'' \<in> set (encode_with path_keep s) \<Longrightarrow> CHR ''/'' \<in> set s"
proof (induction s)
  case (Cons c s)
  have "CHR ''/'' \<noteq> hex_digit n" if "n < 16" for n
    using less_16_cases [OF that] by (elim disjE) (simp_all add: hex_digit_def)
  then have "CHR ''/'' \<notin> set (pct c)" by (simp add: pct_def Let_def of_char_div16)
  with Cons show ?case by (auto split: if_splits)
qed simp

lemma encode_clean: "CHR ''/'' \<notin> set s \<Longrightarrow> \<not> dot_segment s \<Longrightarrow> clean_segment (encode_with path_keep s)"
  using dot_encode slash_encode encode_kept by (auto simp: clean_segment_def)

lemma path_state_clean:
  "list_all clean_segment out \<Longrightarrow> list_all (\<lambda>s. CHR ''/'' \<notin> set s) segs \<Longrightarrow>
   list_all clean_segment (path_state out segs)"
  by (induction out segs rule: path_state.induct)
    (auto simp: empty_clean list_all_tl encode_clean dot_segment_def)

lemma path_state_id:
  "list_all clean_segment segs \<Longrightarrow> path_state out segs = rev out @ segs"
  by (induction out segs rule: path_state.induct)
    (auto simp: clean_segment_def dot_segment_def encode_kept_id)

section \<open>When the target stays on this origin\<close>

text \<open>\<open>//host\<close> is a protocol-relative reference: a browser reads it as another origin.\<close>

definition protocol_relative :: "jsstring \<Rightarrow> bool" where
  "protocol_relative n = starts_with n ''//''"

lemma segments_no_slash: "list_all (\<lambda>s. CHR ''/'' \<notin> set s) (url_segments v)"
  by (auto simp: url_segments_def list_all_iff dest: split_on_no_sep)

lemma path_output_clean: "list_all clean_segment (path_state [] (url_segments v))"
  by (rule path_state_clean) (simp_all add: segments_no_slash)

lemma clean_no_query: "clean_segment s \<Longrightarrow> CHR ''?'' \<notin> set s \<and> CHR ''#'' \<notin> set s"
  by (auto simp: clean_segment_def list_all_iff path_keep_def)

lemma path_text_join: "ss \<noteq> [] \<Longrightarrow> concat (map (\<lambda>s. CHR ''/'' # s) ss) = CHR ''/'' # join [CHR ''/''] ss"
proof (induction ss)
  case (Cons s ss)
  then show ?case by (cases ss) auto
qed simp

lemma join_chars: "c \<in> set (join [d] ss) \<Longrightarrow> c = d \<or> (\<exists>s \<in> set ss. c \<in> set s)"
  by (induction "[d]" ss rule: join.induct) auto

lemma before_append:
  "c \<notin> set xs \<Longrightarrow> before c (xs @ ys) = xs @ before c ys"
  "c \<notin> set xs \<Longrightarrow> onward c (xs @ ys) = onward c ys"
  by (induction xs) (auto simp: before_def onward_def)

lemma before_none: "c \<notin> set xs \<Longrightarrow> before c xs = xs"
  by (induction xs) (auto simp: before_def)

text \<open>Parsing a printed URL again: the path is unchanged.\<close>

lemma reparse_path:
  assumes "segs \<noteq> []" "list_all clean_segment segs" "q = [] \<or> (\<exists>t. q = CHR ''?'' # t)" "CHR ''#'' \<notin> set q"
  shows "url_segments (concat (map (\<lambda>s. CHR ''/'' # s) segs) @ q) = segs"
proof -
  let ?p = "CHR ''/'' # join [CHR ''/''] segs"
  have p: "concat (map (\<lambda>s. CHR ''/'' # s) segs) = ?p" using assms(1) by (rule path_text_join)
  have free: "CHR ''?'' \<notin> set ?p" "CHR ''#'' \<notin> set ?p"
    using assms(2) join_chars clean_no_query by (fastforce simp: list_all_iff)+
  have "before (CHR ''#'') (?p @ q) = ?p @ q"
    using free assms(4) by (intro before_none) simp
  moreover have "before (CHR ''?'') (?p @ q) = ?p"
    using free(1) assms(3) by (subst before_append) (auto simp: before_def)
  moreover have "split_on (CHR ''/'') (join [CHR ''/''] segs) = segs"
    using assms(1,2) by (intro split_on_join) (auto simp: clean_segment_def list_all_iff)
  ultimately show ?thesis unfolding url_segments_def p by simp
qed

lemma pathname_protocol_relative:
  assumes "segs \<noteq> []" "list_all (\<lambda>s. CHR ''/'' \<notin> set s) segs"
  shows "starts_with (concat (map (\<lambda>s. CHR ''/'' # s) segs) @ q) ''//'' \<longleftrightarrow>
    (hd segs = [] \<and> (tl segs \<noteq> [] \<or> starts_with q ''/''))"
  using assms by (cases segs; cases "hd segs"; cases "tl segs") auto

lemma url_search_shape: "url_search v = [] \<or> (\<exists>t. url_search v = CHR ''?'' # t)"
  by (simp add: url_search_def split: list.splits)

lemma url_search_no_hash: "CHR ''#'' \<notin> set (url_search v)"
  using url_search_safe [of v] by (auto simp: list_all_iff url_safe_def)

text \<open>The printed result of the parser, parsed again, is not protocol-relative unless it already was.\<close>

lemma reparse_not_protocol_relative:
  assumes "n = url_pathname v @ url_search v" "\<not> protocol_relative n"
  shows "\<not> protocol_relative (url_pathname n @ url_search n)"
proof -
  let ?out = "path_state [] (url_segments v)"
  have out: "?out \<noteq> []" "list_all clean_segment ?out"
    using path_state_ne [of "url_segments v"] path_output_clean by (simp_all add: url_segments_def)
  have ns: "list_all (\<lambda>s. CHR ''/'' \<notin> set s) ?out"
    using out(2) by (auto simp: list_all_iff clean_segment_def)
  have "url_segments n = ?out"
    unfolding assms(1) url_pathname_def
    by (rule reparse_path [OF out url_search_shape url_search_no_hash])
  then have path: "url_pathname n = url_pathname v"
    using path_state_id [OF out(2), of "[]"] by (simp add: url_pathname_def)
  have "\<not> starts_with (url_search v) ''/''" "\<not> starts_with (url_search n) ''/''"
    using url_search_shape [of v] url_search_shape [of n] by auto
  with assms path show ?thesis
    unfolding protocol_relative_def url_pathname_def
    by (simp add: pathname_protocol_relative [OF out(1) ns])
qed

lemma validated_twice:
  assumes "safeNextPath raw = Some n" "safeNextPath (Some n) = Some m"
  shows "\<not> protocol_relative m"
proof -
  obtain r where r: "n = url_pathname (trim r) @ url_search (trim r)"
    using safeNextPath_SomeD [OF assms(1)] by blast
  have safe: "safe_text n" using validated_shape [OF assms(1)] by blast
  have "trim n = n" using safe by (rule safe_text_trim)
  with assms(2) have m: "m = url_pathname n @ url_search n" "\<not> starts_with n ''//''"
    using safeNextPath_SomeD [OF assms(2)] by auto
  then show ?thesis
    using reparse_not_protocol_relative [OF r] by (simp add: protocol_relative_def)
qed

text \<open>
  C1. A target validated twice, as the log-in pages do it, is always a path on this origin.
\<close>

theorem twice_validated_same_origin:
  assumes "safeNextPath raw = Some n" "safeNextPath (Some n) = Some m"
  shows "\<not> protocol_relative m"
  using assms by (rule validated_twice)

lemma twice_validated_same_origin_witness: "\<not> protocol_relative ''/dashboard''"
  using twice_validated_same_origin [OF dashboard_validated dashboard_validated] .

lemma dot_segment_target: "safeNextPath (Some ''/.//evil.example/x'') = Some ''//evil.example/x''"
proof -
  have t: "trim ''/.//evil.example/x'' = ''/.//evil.example/x''" by (simp add: text_eval)
  have u: "url_pathname ''/.//evil.example/x'' = ''//evil.example/x''" "url_search ''/.//evil.example/x'' = []"
    by (simp_all add: url_eval)
  have l: "to_lower (''//evil.example/x'' @ []) = ''//evil.example/x''" by (simp add: text_eval)
  show ?thesis
    by (subst safeNextPath_eval [OF t u l])
      (simp_all add: control_char_def auth_target_def AUTH_PREFIXES_def)
qed

lemma validated_once_dot_free:
  assumes "safeNextPath (Some r) = Some n" "list_all (\<lambda>s. \<not> dot_segment s) (url_segments (trim r))"
  shows "\<not> protocol_relative n"
proof -
  let ?v = "trim r" and ?segs = "url_segments (trim r)"
  have v: "starts_with ?v ''/''" "\<not> starts_with ?v ''//''" "n = url_pathname ?v @ url_search ?v"
    using safeNextPath_SomeD [OF assms(1)] by auto
  have id: "path_state out segs = rev out @ map (encode_with path_keep) segs"
    if "list_all (\<lambda>s. \<not> dot_segment s) segs" for out segs
    using that by (induction out segs rule: path_state.induct) (auto simp: dot_segment_def)
  obtain w where w: "?v = CHR ''/'' # w" using v(1) by (auto simp: prefix_def)
  let ?b = "before (CHR ''?'') (before (CHR ''#'') ?v)"
  have b: "?b = CHR ''/'' # before (CHR ''?'') (before (CHR ''#'') w)" by (simp add: w before_def)
  have enc: "encode_with path_keep s \<noteq> [] " if "s \<noteq> []" for s
    using that by (cases s) (auto simp: pct_def Let_def)
  have "hd ?segs \<noteq> [] \<or> tl ?segs = []"
  proof (cases "before (CHR ''?'') (before (CHR ''#'') w)")
    case Nil
    then show ?thesis by (simp add: url_segments_def b)
  next
    case (Cons c t)
    then have "c \<noteq> CHR ''/''" using v(2) w by (cases w) (auto simp: before_def split: if_splits)
    with Cons show ?thesis by (auto simp: url_segments_def b split: list.splits)
  qed
  then have "hd (map (encode_with path_keep) ?segs) \<noteq> [] \<or> tl (map (encode_with path_keep) ?segs) = []"
    using enc by (cases ?segs) auto
  moreover have "list_all (\<lambda>s. CHR ''/'' \<notin> set s) (map (encode_with path_keep) ?segs)"
    using segments_no_slash [of ?v] slash_encode by (auto simp: list_all_iff)
  moreover have "\<not> starts_with (url_search ?v) ''/''" using url_search_shape [of ?v] by auto
  ultimately show ?thesis
    using id [OF assms(2), of "[]"] pathname_protocol_relative [of "map (encode_with path_keep) ?segs" "url_search ?v"]
    by (auto simp: v(3) url_pathname_def protocol_relative_def url_segments_def)
qed

text \<open>
  Validated once, the target can leave the origin: dot-segment removal happens after the
  test for a leading \<open>//\<close> and can create one.
\<close>

theorem once_validated_leaves_origin:
  "safeNextPath (Some ''/.//evil.example/x'') = Some ''//evil.example/x''
   \<and> protocol_relative ''//evil.example/x''"
  using dot_segment_target by (simp add: protocol_relative_def)

text \<open>
  Without dot segments in the input one validation is enough.
\<close>

theorem dot_free_same_origin:
  assumes "safeNextPath (Some r) = Some n" "list_all (\<lambda>s. \<not> dot_segment s) (url_segments (trim r))"
  shows "\<not> protocol_relative n"
  using assms by (rule validated_once_dot_free)

lemma dot_free_same_origin_witness: "\<not> protocol_relative ''/dashboard''"
proof (rule dot_free_same_origin [OF dashboard_validated])
  have "trim ''/dashboard'' = ''/dashboard''" by (simp add: text_eval)
  then show "list_all (\<lambda>s. \<not> dot_segment s) (url_segments (trim ''/dashboard''))"
    by (simp add: url_eval dot_segment_def)
qed

text \<open>
  The escaped-backslash test is case-sensitive: \<open>%5c\<close> is refused, \<open>%5C\<close> is not.
\<close>

theorem upper_case_backslash_passes:
  "safeNextPath (Some ''/%5cevil.example'') = None
   \<and> safeNextPath (Some ''/%5Cevil.example'') = Some ''/%5Cevil.example''"
proof -
  have t: "trim ''/%5cevil.example'' = ''/%5cevil.example''" "trim ''/%5Cevil.example'' = ''/%5Cevil.example''"
    by (simp_all add: text_eval)
  have u: "url_pathname ''/%5Cevil.example'' = ''/%5Cevil.example''" "url_search ''/%5Cevil.example'' = []"
    by (simp_all add: url_eval)
  have l: "to_lower (''/%5Cevil.example'' @ []) = ''/%5cevil.example''" by (simp add: text_eval char_of_def bit_0)
  have "safeNextPath (Some ''/%5cevil.example'') = None"
    by (subst safeNextPath_eval [OF t(1) refl refl refl]) simp_all
  moreover have "safeNextPath (Some ''/%5Cevil.example'') = Some ''/%5Cevil.example''"
    by (subst safeNextPath_eval [OF t(2) u l])
      (simp_all add: control_char_def auth_target_def AUTH_PREFIXES_def)
  ultimately show ?thesis by simp
qed

section \<open>The \<open>next\<close> parameter\<close>

lemma url_safe_ascii: "url_safe c \<Longrightarrow> (of_char c :: nat) < 128"
  by (drule url_safe_range) simp

lemma safe_text_ascii: "safe_text n \<Longrightarrow> ascii n"
  by (induction n) (simp_all add: ascii_def url_safe_ascii)

text \<open>
  A target put into a route with \<open>withNext\<close> comes back unchanged when the parameter is
  decoded: nothing of a validated path is lost on the way through the log-in pages.
\<close>

theorem withNext_roundtrip:
  assumes "safeNextPath raw = Some n"
  shows "\<exists>e. withNext route raw = route @ ''?next='' @ e \<and> decode_uri_component e = Some n"
proof -
  have n: "starts_with n ''/''" "safe_text n" using validated_shape [OF assms] by auto
  then have "n \<noteq> []" by auto
  moreover have "decode_uri_component (encode_uri_component n) = Some n"
    using n(2) by (intro decode_encode_ascii safe_text_ascii)
  ultimately show ?thesis using assms by (auto simp: withNext_def)
qed

lemma withNext_roundtrip_witness:
  "\<exists>e. withNext ''/login'' (Some ''/dashboard'') = ''/login'' @ ''?next='' @ e
     \<and> decode_uri_component e = Some ''/dashboard''"
  using withNext_roundtrip [OF dashboard_validated] .

end
