(* ===== verification/Session.thy ===== *)
theory Session
  imports SafeNext Http
begin

text \<open>
  Who may see what, and where a signed-in user lands: the route guard of
  \<open>client/middleware.ts\<close>, the session cookie and the single-sign-on landing routes
  (\<open>lib/auth-session.ts\<close>, \<open>app/auth/google/callback\<close>, \<open>app/auth/college/handoff\<close>,
  \<open>app/auth/complete\<close>), the role homes (\<open>hooks/useDashboardRoute.ts\<close>), the dashboards'
  \<open>RoleGate\<close>, the navigation of the signed-in shell (\<open>lib/app-nav.ts\<close>, \<open>AppShell\<close>,
  \<open>AuthNav\<close>) and \<open>destinationFor\<close> of the log-in pages.
\<close>

section \<open>URLSearchParams\<close>

type_synonym params = "(jsstring \<times> jsstring) list"

fun params_set :: "jsstring \<Rightarrow> jsstring \<Rightarrow> params \<Rightarrow> params" where
  "params_set k v [] = [(k, v)]"
| "params_set k v ((a, b) # ps) =
     (if a = k then (k, v) # filter (\<lambda>p. fst p \<noteq> k) ps else (a, b) # params_set k v ps)"

abbreviation params_get :: "params \<Rightarrow> jsstring \<Rightarrow> jsstring option" where
  "params_get \<equiv> map_of"

lemma params_get_set [simp]:
  "params_get (params_set k v ps) k' = (if k' = k then Some v else params_get ps k')"
proof -
  have "map_of (filter (\<lambda>p. fst p \<noteq> k) qs) k' = (if k' = k then None else map_of qs k')" for qs :: params
    by (induction qs) auto
  then show ?thesis by (induction k v ps rule: params_set.induct) auto
qed

text \<open>Parsing a query: pairs at \<open>&\<close>, name and value at the first \<open>=\<close>, \<open>+\<close> is a blank.\<close>

definition form_decode :: "jsstring \<Rightarrow> jsstring" where
  "form_decode s = (let t = map (\<lambda>c. if c = CHR ''+'' then CHR '' '' else c) s in
     case decode_uri_component t of Some u \<Rightarrow> u | None \<Rightarrow> t)"

definition parse_query :: "jsstring \<Rightarrow> params" where
  "parse_query q = map (\<lambda>p. (form_decode (before (CHR ''='') p), form_decode (tl (onward (CHR ''='') p))))
     (filter (\<lambda>p. p \<noteq> []) (split_on (CHR ''&'') q))"

section \<open>\<open>middleware.ts\<close>\<close>

definition PROTECTED_PREFIXES :: "jsstring list" where
  "PROTECTED_PREFIXES =
     [''/dashboard'', ''/student-dashboard'', ''/tutor-dashboard'', ''/lms'', ''/account'',
      ''/messages'', ''/notifications'', ''/onboarding/wizard'', ''/onboarding/learner'',
      ''/admin'', ''/checkout'', ''/saved'', ''/chat'']"

definition config_matcher :: "jsstring list" where
  "config_matcher =
     [''/dashboard/:path*'', ''/student-dashboard/:path*'', ''/tutor-dashboard/:path*'',
      ''/lms/:path*'', ''/account/:path*'', ''/messages/:path*'', ''/notifications/:path*'',
      ''/onboarding/wizard/:path*'', ''/onboarding/learner/:path*'', ''/admin/:path*'',
      ''/checkout/:path*'', ''/saved/:path*'', ''/chat/:path*'']"

text \<open>The framework's pattern language, as far as the configuration uses it: a literal path
  followed by \<open>/:path*\<close>, zero or more further segments.\<close>

definition pattern_matches :: "jsstring \<Rightarrow> jsstring \<Rightarrow> bool" where
  "pattern_matches pat path =
     (if ends_with pat ''/:path*'' then
        (let p = take (length pat - 7) pat in path = p \<or> starts_with path (p @ ''/''))
      else path = pat)"

definition middleware_runs :: "jsstring \<Rightarrow> bool" where
  "middleware_runs path = list_ex (\<lambda>m. pattern_matches m path) config_matcher"

definition guarded :: "jsstring \<Rightarrow> bool" where
  "guarded pathname = list_ex (\<lambda>p. pathname = p \<or> starts_with pathname (p @ ''/'')) PROTECTED_PREFIXES"

record next_url =
  nu_pathname :: jsstring
  nu_params :: params

datatype mw_result = NextResponse_next | NextResponse_redirect next_url

definition middleware :: "next_url \<Rightarrow> jsstring list \<Rightarrow> mw_result" where
  "middleware url cookies =
     (if guarded (nu_pathname url) then
        if ''ykv_session'' \<notin> set cookies then
          NextResponse_redirect (url\<lparr>nu_pathname := ''/login'',
            nu_params := params_set ''next'' (nu_pathname url) (nu_params url)\<rparr>)
        else NextResponse_next
      else NextResponse_next)"

text \<open>\<open>safeNextPath(sp.get("next") ?? sp.get("returnTo"))\<close> of both log-in pages.\<close>

definition login_next :: "params \<Rightarrow> jsstring option" where
  "login_next sp = safeNextPath (case params_get sp ''next'' of Some n \<Rightarrow> Some n | None \<Rightarrow> params_get sp ''returnTo'')"

text \<open>
  The guard and the framework's matcher name the same pages: the middleware runs on
  every page that the guard protects, and protects every page that it runs on.
\<close>

theorem guard_matches_config: "middleware_runs path \<longleftrightarrow> guarded path"
  by (simp add: middleware_runs_def guarded_def config_matcher_def PROTECTED_PREFIXES_def pattern_matches_def
      suffix_def prefix_def)

text \<open>What the framework makes of a request: the middleware is asked only on the matcher's pages.\<close>

definition site_guard :: "next_url \<Rightarrow> jsstring list \<Rightarrow> mw_result" where
  "site_guard url cookies = (if middleware_runs (nu_pathname url) then middleware url cookies else NextResponse_next)"

text \<open>
  The pages of members, by the segments of the path: what the guard is to keep, said without
  its list of prefixes.
\<close>

fun members_page :: "jsstring list \<Rightarrow> bool" where
  "members_page (r # a # ss) = (r = [] \<and>
     (if a = ''onboarding'' then ss \<noteq> [] \<and> hd ss \<in> {''wizard'', ''learner''}
      else a \<in> {''dashboard'', ''student-dashboard'', ''tutor-dashboard'', ''lms'', ''account'', ''messages'',
        ''notifications'', ''admin'', ''checkout'', ''saved'', ''chat''}))"
| "members_page ss = False"

lemma split_on_begins:
  "ps \<noteq> [] \<Longrightarrow> list_all (\<lambda>p. c \<notin> set p) ps \<Longrightarrow>
     (s = join [c] ps \<or> prefix (join [c] ps @ [c]) s) = prefix ps (split_on c s)"
proof (induction ps arbitrary: s)
  case Nil
  then show ?case by simp
next
  case (Cons p ps)
  obtain q qs where q: "split_on c s = q # qs" by (cases "split_on c s") auto
  then have s: "s = join [c] (q # qs)" and free: "c \<notin> set q"
    using join_split_on [of c s] split_on_no_sep [of q c s] by simp_all
  show ?case
  proof (cases "ps = []")
    case True
    have "s = p \<or> prefix (p @ [c]) s \<longleftrightarrow> q = p"
    proof
      assume "s = p \<or> prefix (p @ [c]) s"
      then have "split_on c s = p # tl (split_on c s)"
        using Cons.prems by (auto simp: prefix_def split_on_free split_on_append)
      then show "q = p" using q by simp
    next
      assume "q = p"
      then show "s = p \<or> prefix (p @ [c]) s" using s by (cases qs) auto
    qed
    then show ?thesis using True q by auto
  next
    case False
    then have j: "join [c] (p # ps) = p @ c # join [c] ps" by (simp add: join_Cons)
    show ?thesis
    proof (cases "\<exists>t. s = p @ c # t")
      case True
      then obtain t where t: "s = p @ c # t" by blast
      then have "split_on c s = p # split_on c t" using Cons.prems by (simp add: split_on_append)
      then show ?thesis using Cons.IH [of t] Cons.prems False by (simp add: j t)
    next
      case no: False
      then have "\<not> (s = join [c] (p # ps) \<or> prefix (join [c] (p # ps) @ [c]) s)"
        unfolding j prefix_def by auto
      moreover have "\<not> prefix (p # ps) (split_on c s)"
      proof
        assume "prefix (p # ps) (split_on c s)"
        then have "q = p" "qs \<noteq> []" using False q by (auto simp: prefix_def)
        then show False using no s by (simp add: join_Cons)
      qed
      ultimately show ?thesis by blast
    qed
  qed
qed

lemma guarded_members: "guarded path = members_page (split_on (CHR ''/'') path)"
proof -
  have one: "(path = CHR ''/'' # p \<or> starts_with path (CHR ''/'' # p @ ''/'')) = prefix [[], p] (split_on (CHR ''/'') path)"
    if "CHR ''/'' \<notin> set p" for p using split_on_begins [of "[[], p]" "CHR ''/''" path] that by simp
  have two: "(path = CHR ''/'' # p @ CHR ''/'' # q \<or> starts_with path (CHR ''/'' # p @ CHR ''/'' # q @ ''/'')) =
      prefix [[], p, q] (split_on (CHR ''/'') path)"
    if "CHR ''/'' \<notin> set p" "CHR ''/'' \<notin> set q" for p q
    using split_on_begins [of "[[], p, q]" "CHR ''/''" path] that by simp
  have "guarded path = list_ex (\<lambda>ps. prefix ps (split_on (CHR ''/'') path))
    [[[], ''dashboard''], [[], ''student-dashboard''], [[], ''tutor-dashboard''], [[], ''lms''], [[], ''account''],
     [[], ''messages''], [[], ''notifications''], [[], ''onboarding'', ''wizard''], [[], ''onboarding'', ''learner''],
     [[], ''admin''], [[], ''checkout''], [[], ''saved''], [[], ''chat'']]"
    using one [of "''dashboard''"] one [of "''student-dashboard''"] one [of "''tutor-dashboard''"] one [of "''lms''"]
      one [of "''account''"] one [of "''messages''"] one [of "''notifications''"] two [of "''onboarding''" "''wizard''"]
      two [of "''onboarding''" "''learner''"] one [of "''admin''"] one [of "''checkout''"] one [of "''saved''"] one [of "''chat''"]
    by (simp add: guarded_def PROTECTED_PREFIXES_def)
  also have "\<dots> = members_page (split_on (CHR ''/'') path)"
    by (cases "split_on (CHR ''/'') path" rule: members_page.cases) (auto simp: neq_Nil_conv prefix_def)
  finally show ?thesis .
qed

lemma members_page_shape:
  assumes "members_page (split_on (CHR ''/'') path)"
  shows "\<exists>a t. path = CHR ''/'' # a # t \<and> a \<noteq> CHR ''/'' \<and>
    auth_target (to_lower path) = (hd (tl (split_on (CHR ''/'') path)) = ''onboarding'')"
proof -
  obtain a ss where ss: "split_on (CHR ''/'') path = [] # a # ss" "members_page ([] # a # ss)"
    using assms by (cases "split_on (CHR ''/'') path" rule: members_page.cases) auto
  have path: "path = CHR ''/'' # join ''/'' (a # ss)" using join_split_on [of "CHR ''/''" path] ss(1) by simp
  then have t: "path = CHR ''/'' # a @ (if ss = [] then [] else CHR ''/'' # join ''/'' ss)"
    by (cases ss) simp_all
  from ss(2) have "a = ''onboarding'' \<and> ss \<noteq> [] \<or>
    a \<in> {''dashboard'', ''student-dashboard'', ''tutor-dashboard'', ''lms'', ''account'', ''messages'',
        ''notifications'', ''admin'', ''checkout'', ''saved'', ''chat''}" by (simp split: if_splits)
  then show ?thesis using t ss(1)
    by (elim disjE conjE insertE) (simp_all add: auth_target_def AUTH_PREFIXES_def text_eval)
qed

text \<open>
  C9. A page is withheld exactly when its first segment names one of the eleven areas for members,
  or it is the wizard or the learner's page under onboarding, and the request has no session cookie.
  The visitor is sent to the public log-in page with the path in \<open>next\<close> and the rest of the query
  as it was; after the log-in, a path of letters, digits, hyphens and underscores is where he is led,
  unless it is a page under onboarding, which the log-in page refuses as a target.
\<close>

theorem middleware_guard:
  "(case site_guard url cookies of
      NextResponse_next \<Rightarrow> ''ykv_session'' \<in> set cookies \<or> \<not> members_page (split_on (CHR ''/'') (nu_pathname url))
    | NextResponse_redirect u \<Rightarrow> ''ykv_session'' \<notin> set cookies \<and> members_page (split_on (CHR ''/'') (nu_pathname url)) \<and>
        nu_pathname u = ''/login'' \<and> \<not> members_page (split_on (CHR ''/'') (nu_pathname u)) \<and>
        params_get (nu_params u) = (params_get (nu_params url))(''next'' \<mapsto> nu_pathname url) \<and>
        (if list_all plain_char (nu_pathname url)
         then login_next (nu_params u) =
           (if hd (tl (split_on (CHR ''/'') (nu_pathname url))) = ''onboarding'' then None else Some (nu_pathname url))
         else True))"
proof (cases "guarded (nu_pathname url) \<and> ''ykv_session'' \<notin> set cookies")
  case True
  let ?p = "nu_pathname url"
  from True have m: "members_page (split_on (CHR ''/'') ?p)" by (simp add: guarded_members)
  obtain a t where t: "?p = CHR ''/'' # a # t" "a \<noteq> CHR ''/''"
      "auth_target (to_lower ?p) = (hd (tl (split_on (CHR ''/'') ?p)) = ''onboarding'')"
    using members_page_shape [OF m] by blast
  have "safeNextPath (Some ?p) = (if hd (tl (split_on (CHR ''/'') ?p)) = ''onboarding'' then None else Some ?p)"
    if "list_all plain_char ?p"
    using safeNextPath_plain [of a t] that t(2) unfolding t(3) [symmetric] unfolding t(1) by simp
  then show ?thesis using True m by (auto simp: site_guard_def guard_matches_config middleware_def login_next_def)
next
  case False
  then show ?thesis by (auto simp: site_guard_def guard_matches_config middleware_def guarded_members)
qed

text \<open>
  A visitor whose session has gone while in the wizard loses the page he was going to:
  the guard replaces the \<open>next\<close> of the wizard's address by the wizard's own path, and the
  log-in page refuses that as a target.
\<close>

theorem wizard_return_lost:
  "\<exists>u. middleware \<lparr>nu_pathname = ''/onboarding/wizard'', nu_params = ps\<rparr> [] = NextResponse_redirect u
     \<and> login_next (nu_params u) = None"
proof -
  have t: "trim ''/onboarding/wizard'' = ''/onboarding/wizard''" by (simp add: text_eval)
  have u: "url_pathname ''/onboarding/wizard'' = ''/onboarding/wizard''" "url_search ''/onboarding/wizard'' = []"
    by (simp_all add: url_eval)
  have l: "to_lower (''/onboarding/wizard'' @ []) = ''/onboarding/wizard''" by (simp add: text_eval)
  have "safeNextPath (Some ''/onboarding/wizard'') = None"
    by (subst safeNextPath_eval [OF t u l])
      (simp_all add: control_char_def auth_target_def AUTH_PREFIXES_def)
  then show ?thesis
    by (simp add: middleware_def guarded_def PROTECTED_PREFIXES_def login_next_def)
qed

section \<open>Roles and homes\<close>

definition ADMIN_ROLES :: "jsstring list" where
  "ADMIN_ROLES = [''SUPER_ADMIN'', ''ACADEMIC_ADMIN'']"

definition isAdmin :: "jsstring list \<Rightarrow> bool" where
  "isAdmin roles = list_ex (\<lambda>r. r \<in> set ADMIN_ROLES) roles"

definition homeForRoles :: "jsstring list \<Rightarrow> jsstring" where
  "homeForRoles roles =
     (if isAdmin roles then ''/admin''
      else if ''TUTOR'' \<in> set roles then ''/tutor-dashboard''
      else if ''STUDENT'' \<in> set roles then ''/student-dashboard''
      else if ''PARENT'' \<in> set roles then ''/dashboard''
      else ''/dashboard'')"

definition onboardingPath :: "jsstring list \<Rightarrow> jsstring" where
  "onboardingPath roles = ''/onboarding/wizard''"

definition DASHBOARD_ROLES :: "(jsstring \<times> jsstring list) list" where
  "DASHBOARD_ROLES =
     [(''/dashboard'', [''PARENT'']),
      (''/student-dashboard'', [''STUDENT'']),
      (''/tutor-dashboard'', [''TUTOR'']),
      (''/admin'', ADMIN_ROLES),
      (''/lms'', [''PARENT'', ''STUDENT'', ''TUTOR'']),
      (''/lms/tutor'', [''TUTOR''])]"

text \<open>\<open>isAdmin\<close> of \<open>features/auth/api.ts\<close>, on a user that may be missing.\<close>

definition auth_isAdmin :: "jsstring list option \<Rightarrow> bool" where
  "auth_isAdmin user = (case user of None \<Rightarrow> False
     | Some roles \<Rightarrow> list_ex (\<lambda>r. r = ''SUPER_ADMIN'' \<or> r = ''ACADEMIC_ADMIN'') roles)"

definition auth_isTutor :: "jsstring list option \<Rightarrow> bool" where
  "auth_isTutor user = (case user of None \<Rightarrow> False | Some roles \<Rightarrow> ''TUTOR'' \<in> set roles)"

record sso_user =
  su_onboarded :: bool \<comment> \<open>a missing flag is \<open>False\<close>\<close>
  su_roles :: "jsstring list option"
  su_status :: "jsstring option"

definition destForUser :: "sso_user option \<Rightarrow> jsstring" where
  "destForUser user =
     (case user of None \<Rightarrow> ''/onboarding/wizard'' | Some u \<Rightarrow>
        if \<not> su_onboarded u then ''/onboarding/wizard''
        else (let roles = (case su_roles u of Some r \<Rightarrow> r | None \<Rightarrow> []) in
          if ''SUPER_ADMIN'' \<in> set roles \<or> ''ACADEMIC_ADMIN'' \<in> set roles then ''/admin''
          else if ''TUTOR'' \<in> set roles then ''/tutor-dashboard''
          else if ''STUDENT'' \<in> set roles then ''/student-dashboard''
          else ''/dashboard''))"

text \<open>The primary link of \<open>AuthNav\<close>.\<close>

definition primaryDashboard :: "jsstring list \<Rightarrow> jsstring \<times> jsstring" where
  "primaryDashboard roles =
     (if auth_isAdmin (Some roles) then (''/admin'', ''Admin console'')
      else if ''TUTOR'' \<in> set roles then (''/tutor-dashboard'', ''Tutor dashboard'')
      else if ''STUDENT'' \<in> set roles then (''/student-dashboard'', ''My dashboard'')
      else (''/dashboard'', ''Parent dashboard''))"

section \<open>The signed-in shell\<close>

record app_nav_item =
  ni_href :: jsstring
  ni_label :: jsstring
  ni_icon :: jsstring
  ni_exact :: bool
  ni_superAdminOnly :: bool

definition item :: "jsstring \<Rightarrow> jsstring \<Rightarrow> jsstring \<Rightarrow> bool \<Rightarrow> bool \<Rightarrow> app_nav_item" where
  "item h l i e s = \<lparr>ni_href = h, ni_label = l, ni_icon = i, ni_exact = e, ni_superAdminOnly = s\<rparr>"

datatype app_variant = Parent | Student | Tutor | Admin

record app_nav_spec =
  nav_title :: jsstring
  nav_home :: jsstring
  nav_subtitle :: jsstring
  nav_chip :: jsstring
  nav_main :: "app_nav_item list"
  nav_more :: "app_nav_item list"

definition nav_parent :: app_nav_spec where
  "nav_parent =
    \<lparr>nav_title = ''Parent'', nav_home = ''/dashboard'',
     nav_subtitle = (''Bookings, payments and your family'' @ [CHR 0x27] @ ''s progress''), nav_chip = ''Family'',
     nav_main =
      [item ''/dashboard'' ''Dashboard'' ''LayoutDashboard'' True False,
       item ''/lms'' ''My courses'' ''BookOpen'' False False,
       item ''/lms/exams'' ''Practice exams'' ''ClipboardCheck'' False False,
       item ''/lms/recorded'' ''LMS'' ''Play'' False False,
       item ''/messages'' ''Community'' ''MessageSquare'' False False],
     nav_more =
      [item ''/notifications'' ''Notifications'' ''Bell'' False False,
       item ''/account/plus'' ''YK-Virtual Plus'' ''Crown'' False False,
       item ''/account'' ''Settings'' ''Settings'' False False,
       item ''/help'' ''Help Center'' ''LifeBuoy'' False False]\<rparr>"

definition nav_student :: app_nav_spec where
  "nav_student =
    \<lparr>nav_title = ''Student'', nav_home = ''/student-dashboard'',
     nav_subtitle = ''Your lessons, assignments and progress'', nav_chip = ''Learner'',
     nav_main =
      [item ''/student-dashboard'' ''Dashboard'' ''LayoutDashboard'' True False,
       item ''/lms'' ''My courses'' ''BookOpen'' False False,
       item ''/lms/exams'' ''Practice exams'' ''ClipboardCheck'' False False,
       item ''/lms/recorded'' ''LMS'' ''Play'' False False,
       item ''/messages'' ''Community'' ''MessageSquare'' False False],
     nav_more =
      [item ''/notifications'' ''Notifications'' ''Bell'' False False,
       item ''/account/plus'' ''YK-Virtual Plus'' ''Crown'' False False,
       item ''/account'' ''Settings'' ''Settings'' False False,
       item ''/help'' ''Help Center'' ''LifeBuoy'' False False]\<rparr>"

definition nav_tutor :: app_nav_spec where
  "nav_tutor =
    \<lparr>nav_title = ''Tutor'', nav_home = ''/tutor-dashboard'',
     nav_subtitle = ''Teaching, roster and earnings'', nav_chip = ''Tutor'',
     nav_main =
      [item ''/tutor-dashboard'' ''Dashboard'' ''LayoutDashboard'' True False,
       item ''/lms/tutor'' ''Teaching'' ''ClipboardCheck'' False False,
       item ''/messages'' ''Community'' ''MessageSquare'' False False],
     nav_more =
      [item ''/notifications'' ''Notifications'' ''Bell'' False False,
       item ''/account'' ''Settings'' ''Settings'' False False,
       item ''/help'' ''Help Center'' ''LifeBuoy'' False False]\<rparr>"

definition nav_admin :: app_nav_spec where
  "nav_admin =
    \<lparr>nav_title = ''Admin'', nav_home = ''/admin'',
     nav_subtitle = ''Platform operations'', nav_chip = ''Console'',
     nav_main =
      [item ''/admin'' ''Dashboard'' ''LayoutDashboard'' True False,
       item ''/admin/super'' ''Super admin'' ''ShieldCheck'' False True,
       item ''/admin/users'' ''Users'' ''Users'' False False,
       item ''/admin/vetting'' ''Tutor vetting'' ''BadgeCheck'' False False,
       item ''/admin/tutors'' ''Tutors'' ''UserPlus'' False False,
       item ''/admin/cohorts'' ''Cohorts'' ''CalendarDays'' False False,
       item ''/admin/programmes'' ''Programmes'' ''BookOpen'' False False,
       item ''/admin/admissions'' ''Admissions'' ''GraduationCap'' False False,
       item ''/admin/dashboard'' ''Student dashboard'' ''LayoutDashboard'' False False],
     nav_more =
      [item ''/admin/private-tuition'' ''Private tuition'' ''UserPlus'' False False,
       item ''/admin/lessons'' (''Today'' @ [CHR 0x27] @ ''s classes'') ''Users'' False False,
       item ''/admin/analytics'' ''Analytics'' ''BarChart3'' False False,
       item ''/admin/leads'' ''Leads'' ''PhoneCall'' False False,
       item ''/admin/support'' ''Support'' ''LifeBuoy'' False False,
       item ''/admin/blog'' ''Blog CMS'' ''Newspaper'' False False,
       item ''/admin/institutions'' ''Institutions'' ''Building2'' False False,
       item ''/admin/referrals'' ''Referrals'' ''Gift'' False False,
       item ''/admin/reviews'' ''Reviews'' ''Star'' False False,
       item ''/admin/payments'' ''Payments'' ''Wallet'' False False,
       item ''/admin/payouts'' ''Payouts'' ''Banknote'' False False,
       item ''/account'' ''Settings'' ''Settings'' False False]\<rparr>"

primrec APP_NAV :: "app_variant \<Rightarrow> app_nav_spec" where
  "APP_NAV Parent = nav_parent"
| "APP_NAV Student = nav_student"
| "APP_NAV Tutor = nav_tutor"
| "APP_NAV Admin = nav_admin"

definition variantForRoles :: "jsstring list \<Rightarrow> app_variant" where
  "variantForRoles roles =
     (if list_ex (\<lambda>r. r = ''SUPER_ADMIN'' \<or> r = ''ACADEMIC_ADMIN'') roles then Admin
      else if ''TUTOR'' \<in> set roles then Tutor
      else if ''STUDENT'' \<in> set roles then Student
      else Parent)"

text \<open>The links of one \<open>NavList\<close>: target, label, shown as the current page, unread badge.\<close>

record nav_link =
  nl_href :: jsstring
  nl_label :: jsstring
  nl_active :: bool
  nl_badge :: "nat option"

definition nav_item_active :: "jsstring \<Rightarrow> app_nav_item \<Rightarrow> bool" where
  "nav_item_active pathname it =
     (if ni_exact it then pathname = ni_href it
      else pathname = ni_href it \<or> starts_with pathname (ni_href it @ ''/''))"

definition NavList :: "app_nav_item list \<Rightarrow> jsstring \<Rightarrow> jsstring list \<Rightarrow> nat \<Rightarrow> nav_link list" where
  "NavList items pathname userRoles unreadN =
     map (\<lambda>it. \<lparr>nl_href = ni_href it, nl_label = ni_label it, nl_active = nav_item_active pathname it,
                nl_badge = (if ni_href it = ''/notifications'' \<and> unreadN > 0 then Some unreadN else None)\<rparr>)
       (filter (\<lambda>it. \<not> ni_superAdminOnly it \<or> ''SUPER_ADMIN'' \<in> set userRoles) items)"

text \<open>The two lists of the shell for the signed-in user's roles (none when signed out).\<close>

definition AppShell_links :: "app_variant option \<Rightarrow> jsstring list option \<Rightarrow> jsstring \<Rightarrow> nat \<Rightarrow> nav_link list" where
  "AppShell_links forced user pathname unreadN =
     (let roles = (case user of Some r \<Rightarrow> r | None \<Rightarrow> []);
          spec = APP_NAV (case forced of Some v \<Rightarrow> v | None \<Rightarrow> variantForRoles roles)
      in NavList (nav_main spec) pathname roles unreadN @ NavList (nav_more spec) pathname roles unreadN)"

lemmas nav_data = nav_parent_def nav_student_def nav_tutor_def nav_admin_def item_def

lemma isAdmin_iff: "isAdmin roles \<longleftrightarrow> ''SUPER_ADMIN'' \<in> set roles \<or> ''ACADEMIC_ADMIN'' \<in> set roles"
  by (auto simp: isAdmin_def ADMIN_ROLES_def list_ex_iff)

lemma auth_isAdmin_iff: "auth_isAdmin (Some roles) \<longleftrightarrow> isAdmin roles"
  by (auto simp: auth_isAdmin_def isAdmin_iff list_ex_iff)

text \<open>
  C16. The five places that decide where a role belongs agree: the log-in home, the
  single-sign-on destination of an onboarded user, the shell's home, the header's primary
  link, and the administration layout's test.
\<close>

theorem role_homes_agree:
  "destForUser (Some \<lparr>su_onboarded = True, su_roles = Some roles, su_status = st\<rparr>) = homeForRoles roles
   \<and> nav_home (APP_NAV (variantForRoles roles)) = homeForRoles roles
   \<and> fst (primaryDashboard roles) = homeForRoles roles
   \<and> (auth_isAdmin (Some roles) \<longleftrightarrow> variantForRoles roles = Admin)"
proof -
  have ex: "list_ex (\<lambda>r. r = ''SUPER_ADMIN'' \<or> r = ''ACADEMIC_ADMIN'') roles \<longleftrightarrow> isAdmin roles"
    by (auto simp: isAdmin_iff list_ex_iff)
  show ?thesis
    by (simp add: destForUser_def Let_def isAdmin_iff [symmetric] homeForRoles_def variantForRoles_def
        ex primaryDashboard_def auth_isAdmin_iff nav_data)
qed

text \<open>
  A role that is none of the two platform administrators, an institution's
  administrator among them, gets neither the administration console as its home nor the
  shell's administration links; and the super-administrator link is shown only to a super
  administrator, in every shell.
\<close>

theorem institution_admin_is_no_admin:
  "(''SUPER_ADMIN'' \<notin> set roles \<and> ''ACADEMIC_ADMIN'' \<notin> set roles \<longrightarrow>
      homeForRoles roles \<noteq> ''/admin'' \<and>
      list_all (\<lambda>l. \<not> starts_with (nl_href l) ''/admin'') (AppShell_links None (Some roles) path n))
   \<and> (''SUPER_ADMIN'' \<notin> set roles \<longrightarrow>
      list_all (\<lambda>l. nl_href l \<noteq> ''/admin/super'') (AppShell_links v (Some roles) path n))"
proof (intro conjI impI)
  assume no: "''SUPER_ADMIN'' \<notin> set roles \<and> ''ACADEMIC_ADMIN'' \<notin> set roles"
  then show "homeForRoles roles \<noteq> ''/admin''" by (simp add: homeForRoles_def isAdmin_iff)
  have "variantForRoles roles \<in> {Parent, Student, Tutor}"
    using no by (auto simp: variantForRoles_def list_ex_iff)
  then show "list_all (\<lambda>l. \<not> starts_with (nl_href l) ''/admin'') (AppShell_links None (Some roles) path n)"
    by (auto simp: AppShell_links_def NavList_def nav_data)
next
  assume "''SUPER_ADMIN'' \<notin> set roles"
  then show "list_all (\<lambda>l. nl_href l \<noteq> ''/admin/super'') (AppShell_links v (Some roles) path n)"
    by (cases "case v of Some v \<Rightarrow> v | None \<Rightarrow> variantForRoles roles")
      (simp_all add: AppShell_links_def NavList_def nav_data)
qed

lemma institution_admin_is_no_admin_witness:
  "homeForRoles [''INSTITUTION_ADMIN''] \<noteq> ''/admin''
   \<and> list_all (\<lambda>l. nl_href l \<noteq> ''/admin/super'') (AppShell_links (Some Admin) (Some [''ACADEMIC_ADMIN'']) ''/admin'' 0)"
  using institution_admin_is_no_admin [of "[''INSTITUTION_ADMIN'']" "''/''" 0 None]
    institution_admin_is_no_admin [of "[''ACADEMIC_ADMIN'']" "''/admin''" 0 "Some Admin"] by simp

section \<open>\<open>RoleGate\<close>\<close>

datatype gate_action =
    GateWait
  | GateRetry \<comment> \<open>refetch the session in 350 ms\<close>
  | GateReplace jsstring
  | GateStay

definition RoleGate :: "jsstring \<Rightarrow> bool \<Rightarrow> jsstring list option \<Rightarrow> nat \<Rightarrow> gate_action" where
  "RoleGate page isLoading user tries =
     (if isLoading then GateWait
      else case user of
        Some roles \<Rightarrow>
          (let allowed = (case map_of DASHBOARD_ROLES page of Some a \<Rightarrow> a | None \<Rightarrow> []) in
            if isAdmin roles then (if page \<noteq> ''/admin'' then GateReplace ''/admin'' else GateStay)
            else if \<not> list_ex (\<lambda>r. r \<in> set roles) allowed then GateReplace (homeForRoles roles)
            else GateStay)
      | None \<Rightarrow> if tries < 5 then GateRetry else GateReplace ''/login'')"

text \<open>The gate over the successive readings of the session.\<close>

fun gate_run :: "jsstring \<Rightarrow> nat \<Rightarrow> jsstring list option list \<Rightarrow> gate_action list" where
  "gate_run page tries [] = []"
| "gate_run page tries (user # later) =
     (case RoleGate page False user tries of
        GateRetry \<Rightarrow> GateRetry # gate_run page (Suc tries) later
      | act \<Rightarrow> [act])"

lemma gate_run_waits:
  "tries + k \<le> 5 \<Longrightarrow> gate_run page tries (replicate k None @ rest) = replicate k GateRetry @ gate_run page (tries + k) rest"
  by (induction k arbitrary: tries) (simp_all add: RoleGate_def)

lemma gate_run_user: "gate_run page tries (Some roles # rest) = [RoleGate page False (Some roles) tries]"
  by (simp add: RoleGate_def Let_def)

text \<open>
  A session that shows up within five retries is let in like one that is there at
  once; without one the gate asks six times and then sends the visitor to the log-in page.
\<close>

theorem gate_patience:
  "(k \<le> 5 \<longrightarrow> gate_run page 0 (replicate k None @ Some roles # rest)
      = replicate k GateRetry @ [RoleGate page False (Some roles) 0])
   \<and> gate_run page 0 (replicate 6 None @ rest) = replicate 5 GateRetry @ [GateReplace ''/login'']"
proof (intro conjI impI)
  assume "k \<le> 5"
  then show "gate_run page 0 (replicate k None @ Some roles # rest)
      = replicate k GateRetry @ [RoleGate page False (Some roles) 0]"
    by (simp add: gate_run_waits gate_run_user) (simp add: RoleGate_def)
next
  have "replicate 6 None = replicate 5 None @ [None :: jsstring list option]"
    using replicate_add [of 5 1 "None :: jsstring list option"] by simp
  then show "gate_run page 0 (replicate 6 None @ rest) = replicate 5 GateRetry @ [GateReplace ''/login'']"
    using gate_run_waits [of 0 5 page "None # rest"] by (simp add: RoleGate_def)
qed

lemma gate_patience_witness:
  "gate_run ''/dashboard'' 0 (replicate 2 None @ Some [''PARENT''] # []) = [GateRetry, GateRetry, GateStay]"
  using gate_patience [of 2 "''/dashboard''" "[''PARENT'']" "[]"]
  by (simp add: RoleGate_def isAdmin_iff DASHBOARD_ROLES_def numeral_2_eq_2)

text \<open>
  One redirect is enough: a gate only ever sends a signed-in user to the home of his
  roles, and the gate there either lets him stay or names the page he is already on, so
  gates never send a user back and forth.
\<close>

theorem gate_redirects_once:
  assumes "RoleGate page False (Some roles) tries = GateReplace target"
  shows "target = homeForRoles roles
    \<and> RoleGate target False (Some roles) tries' \<in> {GateStay, GateReplace target}"
proof -
  have t: "target = homeForRoles roles"
    using assms by (auto simp: RoleGate_def Let_def homeForRoles_def split: if_splits)
  then show ?thesis by (simp add: RoleGate_def Let_def homeForRoles_def)
qed

lemma gate_redirects_once_witness:
  "RoleGate ''/student-dashboard'' False (Some [''STUDENT'']) 0 \<in> {GateStay, GateReplace ''/student-dashboard''}"
  using gate_redirects_once [of "''/dashboard''" "[''STUDENT'']" 0 "''/student-dashboard''" 0]
  by (simp add: RoleGate_def isAdmin_iff DASHBOARD_ROLES_def homeForRoles_def)

text \<open>The learner hub sends administrators and pure tutors away (\<open>app/lms/page.tsx\<close>).\<close>

definition lms_redirect :: "bool \<Rightarrow> jsstring list option \<Rightarrow> jsstring option" where
  "lms_redirect isLoading user =
     (case user of None \<Rightarrow> None | Some roles \<Rightarrow>
        if isLoading then None
        else if isAdmin roles then Some ''/admin''
        else if ''TUTOR'' \<in> set roles \<and> ''STUDENT'' \<notin> set roles then Some ''/lms/tutor''
        else None)"

section \<open>The session cookie and the single-sign-on routes\<close>

record session_cookie =
  sc_name :: jsstring
  sc_value :: jsstring
  sc_httpOnly :: bool
  sc_sameSite :: jsstring
  sc_secure :: bool
  sc_path :: jsstring
  sc_maxAge :: nat

text \<open>The protocol of a request URL decides on \<open>Secure\<close>.\<close>

definition applySessionCookie :: "jsstring \<Rightarrow> jsstring \<Rightarrow> session_cookie" where
  "applySessionCookie token protocol =
     \<lparr>sc_name = ''ykv_session'', sc_value = token, sc_httpOnly = True, sc_sameSite = ''lax'',
      sc_secure = (protocol = ''https:''), sc_path = ''/'', sc_maxAge = 30 * 24 * 60 * 60\<rparr>"

definition completePath :: "jsstring \<Rightarrow> jsstring \<Rightarrow> jsstring" where
  "completePath origin dest =
     (let nxt = (if starts_with dest ''/'' \<and> \<not> starts_with dest ''//'' then dest else ''/dashboard'')
      in origin @ ''/auth/complete?'' @ encode_with query_keep (''next='' @ encode_uri_component nxt))"

definition apiV1Base :: "jsstring option \<Rightarrow> jsstring option \<Rightarrow> jsstring" where
  "apiV1Base API_PROXY_TARGET NEXT_PUBLIC_API_URL =
     (case map_option (drop_last_char (CHR ''/'')) API_PROXY_TARGET of
        Some p \<Rightarrow> if p \<noteq> [] then p @ ''/api/v1''
          else drop_last_char (CHR ''/'') (case NEXT_PUBLIC_API_URL of
            Some u \<Rightarrow> if u = [] then ''http://localhost:8080/api/v1'' else u
          | None \<Rightarrow> ''http://localhost:8080/api/v1'')
      | None \<Rightarrow> drop_last_char (CHR ''/'') (case NEXT_PUBLIC_API_URL of
            Some u \<Rightarrow> if u = [] then ''http://localhost:8080/api/v1'' else u
          | None \<Rightarrow> ''http://localhost:8080/api/v1''))"

text \<open>A JSON user of the declared type \<open>{ onboarded?, roles?, status? }\<close>.\<close>

definition json_strings :: "json \<Rightarrow> jsstring list" where
  "json_strings j = (case j of JArr xs \<Rightarrow> concat (map (\<lambda>x. case x of JStr s \<Rightarrow> [s] | _ \<Rightarrow> []) xs) | _ \<Rightarrow> [])"

definition decode_user :: "json \<Rightarrow> sso_user" where
  "decode_user j =
     \<lparr>su_onboarded = (case jget j ''onboarded'' of Some v \<Rightarrow> truthy v | None \<Rightarrow> False),
      su_roles = map_option json_strings (case jget j ''roles'' of Some JNull \<Rightarrow> None | r \<Rightarrow> r),
      su_status = (case jget j ''status'' of Some (JStr s) \<Rightarrow> Some s | _ \<Rightarrow> None)\<rparr>"

text \<open>An answer of a route: a redirect, with the cookie it sets, if any.\<close>

record sso_answer =
  sa_location :: jsstring
  sa_cookie :: "session_cookie option"

definition error_page :: "jsstring \<Rightarrow> jsstring \<Rightarrow> jsstring \<Rightarrow> sso_answer" where
  "error_page origin page reason =
     \<lparr>sa_location = origin @ page @ ''?'' @ encode_with query_keep (''reason='' @ encode_uri_component reason),
      sa_cookie = None\<rparr>"

text \<open>
  The exchange both routes share: the upstream's outcome, and the three texts for a refusal
  without a message, a missing token and a failed call.
\<close>

definition sso_exchange ::
  "jsstring \<Rightarrow> jsstring \<Rightarrow> (jsstring \<Rightarrow> sso_answer) \<Rightarrow> outcome \<Rightarrow> jsstring \<Rightarrow> jsstring \<Rightarrow> jsstring \<Rightarrow> sso_answer" where
  "sso_exchange origin protocol fail out refused no_token network =
     (case out of
        Rejects _ \<Rightarrow> fail network
      | Responds r \<Rightarrow>
          if \<not> rs_ok r then
            fail (error_message (case rs_body r of Inl _ \<Rightarrow> None | Inr j \<Rightarrow> Some j) refused)
          else (case rs_body r of
              Inl _ \<Rightarrow> fail network
            | Inr j \<Rightarrow>
                if j = JNull then fail network
                else (case Option.bind (jget j ''data'') (\<lambda>d. jget d ''token'') of
                    None \<Rightarrow> fail no_token
                  | Some t \<Rightarrow>
                      if \<not> truthy t then fail no_token
                      else \<lparr>sa_location = completePath origin
                              (destForUser (case Option.bind (jget j ''data'') (\<lambda>d. jget d ''user'') of
                                 Some u \<Rightarrow> if u = JNull then None else Some (decode_user u) | None \<Rightarrow> None)),
                            sa_cookie = Some (applySessionCookie (to_str t) protocol)\<rparr>)))"

definition google_callback_GET ::
  "jsstring \<Rightarrow> jsstring \<Rightarrow> params \<Rightarrow> (json \<Rightarrow> outcome) \<Rightarrow> sso_answer" where
  "google_callback_GET origin protocol sp upstream =
     (let fail = error_page origin ''/auth/google/error'';
          set = (\<lambda>v. case v of None \<Rightarrow> False | Some s \<Rightarrow> s \<noteq> []) in
      if set (params_get sp ''error'') \<or> \<not> set (params_get sp ''code'') \<or> \<not> set (params_get sp ''state'') then
        fail (if set (params_get sp ''error'') then the (params_get sp ''error'') else ''Missing authorization code'')
      else sso_exchange origin protocol fail
        (upstream (JObj [(''code'', JStr (the (params_get sp ''code''))), (''state'', JStr (the (params_get sp ''state''))),
          (''redirect_uri'', JStr (origin @ ''/auth/google/callback''))]))
        ''Google sign-in could not be completed'' ''Google sign-in returned no session token''
        ''Network error while completing sign-in'')"

text \<open>The posted token: \<open>Inl\<close> when reading the body raises.\<close>

definition college_handoff_POST ::
  "jsstring \<Rightarrow> jsstring \<Rightarrow> js_exn + jsstring \<Rightarrow> (json \<Rightarrow> outcome) \<Rightarrow> sso_answer" where
  "college_handoff_POST origin protocol posted upstream =
     (let fail = error_page origin ''/login'' in
      case posted of
        Inl _ \<Rightarrow> fail ''College sign-in did not send a session''
      | Inr raw \<Rightarrow>
          (let token = trim raw in
           if token = [] then fail ''College sign-in did not send a session''
           else sso_exchange origin protocol fail (upstream (JObj [(''token'', JStr token)]))
             ''College sign-in could not be completed'' ''College sign-in returned no session token''
             ''Network error while completing College sign-in''))"

lemma sso_exchange_cookie:
  assumes "\<And>m. sa_cookie (fail m) = None" "sa_cookie (sso_exchange o' p fail out a b c) = Some k"
  shows "sc_name k = ''ykv_session'' \<and> sc_httpOnly k \<and> sc_sameSite k = ''lax'' \<and> (sc_secure k \<longleftrightarrow> p = ''https:'') \<and>
    (\<exists>r. out = Responds r \<and> rs_ok r) \<and> (\<exists>d. sa_location (sso_exchange o' p fail out a b c) = completePath o' (destForUser d))"
  using assms(2)
  by (auto simp: sso_exchange_def assms(1) applySessionCookie_def
      split: outcome.splits if_splits sum.splits option.splits)

definition exchanged :: "jsstring \<Rightarrow> jsstring \<Rightarrow> (json \<Rightarrow> outcome) \<Rightarrow> sso_answer \<Rightarrow> bool" where
  "exchanged origin protocol upstream a =
     (\<exists>pg q x y z. a = sso_exchange origin protocol (error_page origin pg) (upstream q) x y z)"

lemma error_page_cookie [simp]: "sa_cookie (error_page origin p m) = None"
  by (simp add: error_page_def)

lemma exchangedI:
  "exchanged origin protocol upstream (sso_exchange origin protocol (error_page origin pg) (upstream q) x y z)"
  unfolding exchanged_def by blast

lemma google_exchanged:
  assumes "sa_cookie (google_callback_GET origin protocol sp upstream) = Some k"
  shows "exchanged origin protocol upstream (google_callback_GET origin protocol sp upstream)"
proof -
  have *: "exchanged origin protocol upstream a"
    if "a = (if c then error_page origin pg m else sso_exchange origin protocol (error_page origin pg) (upstream q) x y z)"
      "sa_cookie a = Some k" for a c pg m q x y z
    using that exchangedI by (cases c) simp_all
  show ?thesis
    by (rule * [OF _ assms]) (unfold google_callback_GET_def Let_def, rule refl)
qed

lemma college_exchanged:
  assumes "sa_cookie (college_handoff_POST origin protocol posted upstream) = Some k"
  shows "exchanged origin protocol upstream (college_handoff_POST origin protocol posted upstream)"
proof (cases posted)
  case (Inl e)
  with assms show ?thesis by (simp add: college_handoff_POST_def)
next
  case (Inr raw)
  with assms exchangedI show ?thesis
    by (cases "trim raw = []") (simp_all add: college_handoff_POST_def Let_def)
qed

text \<open>
  Both single-sign-on routes set a session cookie only after the upstream has accepted
  the exchange; the cookie cannot be read by scripts and is \<open>Secure\<close> exactly on an
  \<open>https\<close> request, and the visitor continues on this origin at the landing page for the
  destination of his roles.
\<close>

theorem sso_cookie_only_on_success:
  assumes "a = google_callback_GET origin protocol sp upstream \<or> a = college_handoff_POST origin protocol posted upstream"
    and "sa_cookie a = Some k"
  shows "sc_name k = ''ykv_session'' \<and> sc_httpOnly k \<and> sc_sameSite k = ''lax'' \<and> (sc_secure k \<longleftrightarrow> protocol = ''https:'')
    \<and> (\<exists>q r. upstream q = Responds r \<and> rs_ok r)
    \<and> (\<exists>d. sa_location a = completePath origin (destForUser d))"
proof -
  have fail: "sa_cookie (error_page origin p m) = None" for p m by (simp add: error_page_def)
  have "exchanged origin protocol upstream a"
    using assms google_exchanged college_exchanged by blast
  then obtain pg q x y z where a: "a = sso_exchange origin protocol (error_page origin pg) (upstream q) x y z"
    unfolding exchanged_def by blast
  show ?thesis
    using sso_exchange_cookie [where fail = "error_page origin pg", OF fail assms(2) [unfolded a]]
    unfolding a by blast
qed

text \<open>\<open>app/auth/complete/page.tsx\<close>: the landing page after single sign-on.\<close>

definition loadUser :: "outcome \<Rightarrow> json option" where
  "loadUser out =
     (case out of
        Rejects _ \<Rightarrow> None
      | Responds r \<Rightarrow>
          if \<not> rs_ok r then None
          else (case rs_body r of
              Inl _ \<Rightarrow> None
            | Inr j \<Rightarrow> (case jget j ''data'' of Some JNull \<Rightarrow> None | d \<Rightarrow> d)))"

datatype complete_view = AuthCompleteFail | RedirectedTo jsstring

definition AuthCompletePage :: "jsstring option \<Rightarrow> jsstring option \<Rightarrow> (jsstring \<Rightarrow> outcome) \<Rightarrow> complete_view" where
  "AuthCompletePage cookie sp_next me =
     (case cookie of
        None \<Rightarrow> AuthCompleteFail
      | Some token \<Rightarrow>
          if token = [] then AuthCompleteFail
          else (case loadUser (me token) of
              None \<Rightarrow> AuthCompleteFail
            | Some d \<Rightarrow>
                if \<not> truthy d then AuthCompleteFail
                else (let user = decode_user d; nxt = safeNextPath sp_next in
                  if su_status user = Some ''PENDING_VERIFICATION'' then RedirectedTo ''/verify-email?sent=1''
                  else if \<not> su_onboarded user then
                    RedirectedTo (case nxt of
                        Some n \<Rightarrow> if starts_with n ''/onboarding'' then n else ''/onboarding/wizard''
                      | None \<Rightarrow> ''/onboarding/wizard'')
                  else RedirectedTo (case nxt of Some n \<Rightarrow> n | None \<Rightarrow> destForUser (Some user)))))"

definition me_answer :: "json \<Rightarrow> outcome" where
  "me_answer user = Responds \<lparr>rs_status = 200, rs_headers = [(''content-type'', ''application/json'')],
     rs_body = Inr (JObj [(''data'', user)])\<rparr>"

text \<open>
  The landing page validates its target once, so it can be made to redirect a freshly
  signed-in, onboarded user to another origin: \<open>next=/.//evil.example/x\<close> comes out as
  \<open>//evil.example/x\<close>.
\<close>

theorem complete_open_redirect:
  "AuthCompletePage (Some ''t'') (Some ''/.//evil.example/x'')
     (\<lambda>_. me_answer (JObj [(''onboarded'', JBool True), (''roles'', JArr [JStr ''PARENT'']), (''status'', JStr ''ACTIVE'')]))
   = RedirectedTo ''//evil.example/x'' \<and> protocol_relative ''//evil.example/x''"
  using dot_segment_target
  by (simp add: AuthCompletePage_def loadUser_def me_answer_def rs_ok_def decode_user_def Let_def protocol_relative_def)

text \<open>
  Landing with a target free of dot segments keeps every visitor on this origin, and a
  user who has not finished onboarding is never sent into the product.
\<close>

theorem complete_lands_safely:
  assumes "AuthCompletePage cookie sp_next me = RedirectedTo target"
    and "\<forall>r. sp_next = Some r \<longrightarrow> list_all (\<lambda>s. \<not> dot_segment s) (url_segments (trim r))"
  shows "\<not> protocol_relative target
    \<and> (\<exists>t d. cookie = Some t \<and> loadUser (me t) = Some d \<and>
        (\<not> su_onboarded (decode_user d) \<longrightarrow>
           starts_with target ''/onboarding'' \<or> target = ''/verify-email?sent=1''))"
proof -
  have home: "\<not> protocol_relative (destForUser u)" for u
    by (simp add: destForUser_def Let_def protocol_relative_def split: option.splits)
  have nxt: "\<not> protocol_relative n" if "safeNextPath sp_next = Some n" for n
    using that assms(2) validated_once_dot_free by (cases sp_next) (auto simp: safeNextPath_def)
  have vw: "\<not> protocol_relative ''/verify-email?sent=1''" "\<not> protocol_relative ''/onboarding/wizard''"
    by (simp_all add: protocol_relative_def)
  from assms(1) show ?thesis
    unfolding AuthCompletePage_def Let_def
    by (auto simp: home nxt vw split: option.splits if_splits)
qed

section \<open>Where the log-in pages send a user\<close>

record current_user =
  cu_email :: jsstring
  cu_status :: jsstring
  cu_roles :: "jsstring list"
  cu_onboarded :: bool

definition destinationFor :: "current_user \<Rightarrow> jsstring option \<Rightarrow> jsstring" where
  "destinationFor user nxt =
     (if cu_status user = ''PENDING_VERIFICATION'' then withNext ''/verify-email?sent=1'' nxt
      else if \<not> cu_onboarded user then withNext ''/onboarding/wizard'' nxt
      else (case safeNextPath nxt of Some n \<Rightarrow> n | None \<Rightarrow> homeForRoles (cu_roles user)))"

lemma withNext_prefix: "\<exists>t. withNext route nxt = route @ t"
  by (simp add: withNext_def split: option.splits)

text \<open>
  The log-in pages never leave the origin: they validate the target when they read it
  and again when they use it.
\<close>

theorem login_lands_on_origin: "\<not> protocol_relative (destinationFor user (login_next sp))"
proof -
  have wn: "\<not> protocol_relative (withNext (CHR ''/'' # CHR ''v'' # r) n)"
      "\<not> protocol_relative (withNext (CHR ''/'' # CHR ''o'' # r) n)" for r n
    using withNext_prefix [of "CHR ''/'' # CHR ''v'' # r" n] withNext_prefix [of "CHR ''/'' # CHR ''o'' # r" n]
    by (auto simp: protocol_relative_def)
  have home: "\<not> protocol_relative (homeForRoles r)" for r
    by (simp add: homeForRoles_def protocol_relative_def)
  have nxt: "\<not> protocol_relative m" if "safeNextPath (login_next sp) = Some m" for m
  proof (cases "login_next sp")
    case None
    with that show ?thesis by (simp add: safeNextPath_def)
  next
    case (Some n)
    show ?thesis
      by (rule validated_twice [OF Some [unfolded login_next_def] that [unfolded Some]])
  qed
  show ?thesis
    by (auto simp: destinationFor_def wn home nxt split: option.splits)
qed

text \<open>A route's query, as the page that it leads to reads it.\<close>

definition route_params :: "jsstring \<Rightarrow> params" where
  "route_params route = parse_query (tl (onward (CHR ''?'') route))"

lemma encode_no_amp: "CHR ''&'' \<notin> set (encode_uri_component s)"
  by (rule encode_component_free) simp

lemma form_decode_plain: "decode_uri_component s = Some s \<Longrightarrow> CHR ''+'' \<notin> set s \<Longrightarrow> form_decode s = s"
proof -
  assume d: "decode_uri_component s = Some s" and p: "CHR ''+'' \<notin> set s"
  have "map (\<lambda>c. if c = CHR ''+'' then CHR '' '' else c) s = s"
    using p by (intro map_idI) auto
  with d show ?thesis by (simp add: form_decode_def)
qed

text \<open>
  A user who must still verify his address loses the page he was going to: \<open>withNext\<close>
  is applied to a route that already has a query, and the verification page, which reads
  \<open>next\<close> from the query, finds none.
\<close>

theorem verify_email_drops_next:
  assumes "cu_status user = ''PENDING_VERIFICATION''" "safeNextPath nxt = Some n"
  shows "destinationFor user nxt = ''/verify-email?sent=1?next='' @ encode_uri_component n
    \<and> params_get (route_params (destinationFor user nxt)) ''next'' = None"
proof -
  have "n \<noteq> []" using validated_shape [OF assms(2)] by auto
  then have d: "destinationFor user nxt = ''/verify-email?sent=1?next='' @ encode_uri_component n"
    using assms by (simp add: destinationFor_def withNext_def)
  have q: "tl (onward (CHR ''?'') (''/verify-email?sent=1?next='' @ e)) = ''sent=1?next='' @ e" for e
    by (simp add: onward_def)
  have one: "split_on (CHR ''&'') (''sent=1?next='' @ encode_uri_component n) = [''sent=1?next='' @ encode_uri_component n]"
    using encode_no_amp by (intro split_on_free) simp
  have "form_decode ''sent'' = ''sent''" by (rule form_decode_plain) simp_all
  then show ?thesis
    unfolding d route_params_def q parse_query_def one by (simp add: d before_def)
qed

lemma verify_email_drops_next_witness:
  "params_get (route_params (destinationFor
     \<lparr>cu_email = ''a@b.co'', cu_status = ''PENDING_VERIFICATION'', cu_roles = [''PARENT''], cu_onboarded = False\<rparr>
     (Some ''/dashboard''))) ''next'' = None"
  by (rule conjunct2 [OF verify_email_drops_next [OF _ dashboard_validated]]) simp

lemma middleware_guard_witness:
  "\<exists>u. site_guard \<lparr>nu_pathname = ''/checkout/c1'', nu_params = []\<rparr> [''theme''] = NextResponse_redirect u
     \<and> login_next (nu_params u) = Some ''/checkout/c1''"
  using middleware_guard [where url = "\<lparr>nu_pathname = ''/checkout/c1'', nu_params = []\<rparr>" and cookies = "[''theme'']"]
  by (cases "site_guard \<lparr>nu_pathname = ''/checkout/c1'', nu_params = []\<rparr> [''theme'']") (simp_all add: plain_char_def)

lemma sso_cookie_only_on_success_witness:
  "\<exists>k. sa_cookie (college_handoff_POST ''https://y.co'' ''https:'' (Inr ''t'')
       (\<lambda>_. me_answer (JObj [(''token'', JStr ''s'')]))) = Some k \<and> sc_secure k"
proof -
  let ?a = "college_handoff_POST ''https://y.co'' ''https:'' (Inr ''t'') (\<lambda>_. me_answer (JObj [(''token'', JStr ''s'')]))"
  have "sa_cookie ?a = Some (applySessionCookie ''s'' ''https:'')"
    by (simp add: college_handoff_POST_def sso_exchange_def me_answer_def rs_ok_def text_eval Let_def)
  then show ?thesis
    using sso_cookie_only_on_success [of ?a "''https://y.co''" "''https:''" "[]" _ "Inr ''t''"] by blast
qed

lemma complete_lands_safely_witness:
  "\<not> protocol_relative ''/onboarding/wizard''"
  using complete_lands_safely [of "Some ''t''" None "\<lambda>_. me_answer (JObj [(''roles'', JArr [])])" "''/onboarding/wizard''"]
  by (simp add: AuthCompletePage_def loadUser_def me_answer_def rs_ok_def decode_user_def safeNextPath_def Let_def)

end
