(* ===== verification/JsNumber.thy ===== *)
theory JsNumber
  imports Complex_Main "HOL-Library.Log_Nat"
begin

text \<open>
  JavaScript numbers where rounding matters. A finite number is its rational value; every
  arithmetic operation of the source rounds its exact result to the nearest number with a
  53-bit significand, ties to even (\<open>fl\<close>). Exponent range limits are not modelled: the
  quantities rounded here (percentages and averages) stay far inside it.
  \<open>Math.round\<close> takes the nearest integer, ties upwards, of the rounded argument.
  The locale \<open>rounding\<close> is the contract the statistics rest on (monotone, exact on
  short dyadic fractions); \<open>fl\<close> interprets it.
\<close>

definition pow2 :: "int \<Rightarrow> rat" where
  "pow2 k = (if 0 \<le> k then 2 ^ nat k else 1 / 2 ^ nat (- k))"

lemma pow2_powi: "pow2 k = 2 powi k"
  by (auto simp: pow2_def power_int_def divide_simps)

lemma pow2_pos [simp]: "0 < pow2 k"
  by (simp add: pow2_powi)

lemma pow2_ne0 [simp]: "pow2 k \<noteq> 0"
  using pow2_pos [of k] by (metis less_irrefl)

lemma pow2_add: "pow2 (a + b) = pow2 a * pow2 b"
  by (simp add: pow2_powi power_int_add)

lemma pow2_mono: "a \<le> b \<Longrightarrow> pow2 a \<le> pow2 b"
  unfolding pow2_powi by (rule power_int_increasing) auto

lemma pow2_diff: "pow2 (a - b) = pow2 a / pow2 b"
  by (simp add: pow2_powi power_int_diff)

lemma pow2_nat: "0 \<le> k \<Longrightarrow> pow2 k = of_int (2 ^ nat k)"
  by (simp add: pow2_def)

text \<open>Round to the nearest integer, ties to even.\<close>

definition round_even :: "rat \<Rightarrow> int" where
  "round_even q = (let n = \<lfloor>q\<rfloor>; d = q - of_int n in
     if d < 1 / 2 then n else if d > 1 / 2 then n + 1 else if even n then n else n + 1)"

lemma round_even_int [simp]: "round_even (of_int n) = n"
  by (simp add: round_even_def)

lemma round_even_floor: "\<lfloor>q\<rfloor> \<le> round_even q \<and> round_even q \<le> \<lfloor>q\<rfloor> + 1"
  by (simp add: round_even_def Let_def)

lemma round_even_mono:
  assumes "p \<le> q"
  shows "round_even p \<le> round_even q"
proof (cases "\<lfloor>p\<rfloor> = \<lfloor>q\<rfloor>")
  case True
  with assms show ?thesis by (auto simp: round_even_def Let_def)
next
  case False
  with assms have "\<lfloor>p\<rfloor> + 1 \<le> \<lfloor>q\<rfloor>" using floor_mono [OF assms] by linarith
  with round_even_floor [of p] round_even_floor [of q] show ?thesis by linarith
qed

text \<open>The binary exponent of a positive rational: \<open>pow2 (expo x) \<le> x < pow2 (expo x + 1)\<close>.\<close>

definition expo :: "rat \<Rightarrow> int" where
  "expo x = (let (n, d) = quotient_of x; k = bitlen n - bitlen d in
     if pow2 k \<le> x then k else k - 1)"

lemma bitlen_rat:
  assumes "0 < n"
  shows "pow2 (bitlen n - 1) \<le> of_int n" and "of_int n < pow2 (bitlen n)"
proof -
  have b: "2 ^ nat (bitlen n - 1) \<le> n" "n < 2 ^ nat (bitlen n)"
    using bitlen_bounds [OF assms] by auto
  have pos: "0 \<le> bitlen n - 1" using assms bitlen_ge_iff_power [of 1 n] by simp
  then show "pow2 (bitlen n - 1) \<le> of_int n"
    using b(1) by (simp only: pow2_nat of_int_le_iff)
  show "of_int n < pow2 (bitlen n)"
    using b(2) pos pow2_nat [of "bitlen n"] by (simp only: of_int_less_iff)
qed

lemma expo_bounds:
  assumes "0 < x"
  shows "pow2 (expo x) \<le> x" and "x < pow2 (expo x + 1)"
proof -
  obtain n d where q: "quotient_of x = (n, d)" by (cases "quotient_of x")
  then have d: "0 < d" and x: "x = of_int n / of_int d"
    using quotient_of_denom_pos quotient_of_div by blast+
  with assms have n: "0 < n" by (simp add: zero_less_divide_iff)
  let ?k = "bitlen n - bitlen d"
  have xd: "x * of_int d = of_int n" using d x by simp
  have "x * pow2 (bitlen d - 1) \<le> x * of_int d"
    by (rule mult_left_mono) (use bitlen_rat(1) [OF d] assms in simp_all)
  then have "x * pow2 (bitlen d - 1) < pow2 (bitlen n)"
    using bitlen_rat(2) [OF n] xd by linarith
  moreover have "pow2 (bitlen n) = pow2 (?k + 1) * pow2 (bitlen d - 1)"
    by (simp add: pow2_add [symmetric])
  ultimately have up: "x < pow2 (?k + 1)"
    by (simp only: mult_less_cancel_right_pos [OF pow2_pos])
  have "pow2 (bitlen n - 1) \<le> x * of_int d"
    using bitlen_rat(1) [OF n] xd by simp
  also have "\<dots> \<le> x * pow2 (bitlen d)"
    using bitlen_rat(2) [OF d] assms by (simp add: mult_left_mono)
  finally have "pow2 (bitlen n - 1) \<le> x * pow2 (bitlen d)" .
  moreover have "pow2 (bitlen n - 1) = pow2 (?k - 1) * pow2 (bitlen d)"
    by (simp add: pow2_add [symmetric])
  ultimately have lo: "pow2 (?k - 1) \<le> x"
    by (simp only: mult_le_cancel_right_pos [OF pow2_pos])
  show "pow2 (expo x) \<le> x" "x < pow2 (expo x + 1)"
    using up lo by (auto simp: expo_def q Let_def)
qed

lemma expo_mono:
  assumes "0 < x" "x \<le> y"
  shows "expo x \<le> expo y"
proof (rule ccontr)
  assume "\<not> expo x \<le> expo y"
  then have "pow2 (expo y + 1) \<le> pow2 (expo x)" by (intro pow2_mono) simp
  with expo_bounds [OF assms(1)] expo_bounds [of y] assms show False by linarith
qed

definition ulp :: "rat \<Rightarrow> rat" where
  "ulp x = pow2 (expo x - 52)"

definition fl_pos :: "rat \<Rightarrow> rat" where
  "fl_pos x = of_int (round_even (x / ulp x)) * ulp x"

definition fl :: "rat \<Rightarrow> rat" where
  "fl x = (if x = 0 then 0 else if 0 < x then fl_pos x else - fl_pos (- x))"

lemma ulp_pos [simp]: "0 < ulp x"
  by (simp add: ulp_def)

text \<open>Rounding never leaves the binade, up to its right end point.\<close>

lemma fl_pos_range:
  assumes "0 < x"
  shows "pow2 (expo x) \<le> fl_pos x" and "fl_pos x \<le> pow2 (expo x + 1)"
proof -
  have a: "pow2 (expo x) = of_int (2 ^ 52) * ulp x" "pow2 (expo x + 1) = of_int (2 ^ 53) * ulp x"
    using pow2_add [of 52 "expo x - 52"] pow2_add [of 53 "expo x - 52"]
    by (simp_all add: ulp_def pow2_def [of 52] pow2_def [of 53] add.commute)
  have q: "of_int (2 ^ 52) \<le> x / ulp x" "x / ulp x \<le> of_int (2 ^ 53)"
    using expo_bounds [OF assms] a by (simp_all add: pos_le_divide_eq pos_divide_le_eq)
  then have "2 ^ 52 \<le> round_even (x / ulp x)" "round_even (x / ulp x) \<le> 2 ^ 53"
    using round_even_mono [OF q(1)] round_even_mono [OF q(2)] by (simp_all only: round_even_int)
  then have "of_int (2 ^ 52) \<le> (of_int (round_even (x / ulp x)) :: rat)"
      "(of_int (round_even (x / ulp x)) :: rat) \<le> of_int (2 ^ 53)"
    by (simp_all only: of_int_le_iff)
  then show "pow2 (expo x) \<le> fl_pos x" "fl_pos x \<le> pow2 (expo x + 1)"
    unfolding a fl_pos_def by (simp_all only: mult_right_mono less_imp_le [OF ulp_pos])
qed

lemma fl_pos_mono:
  assumes "0 < x" "x \<le> y"
  shows "fl_pos x \<le> fl_pos y"
proof (cases "expo x = expo y")
  case True
  then have u: "ulp x = ulp y" by (simp add: ulp_def)
  have "x / ulp x \<le> y / ulp y" using assms u by (simp add: divide_right_mono less_imp_le)
  then have "round_even (x / ulp x) \<le> round_even (y / ulp y)" by (rule round_even_mono)
  then show ?thesis unfolding fl_pos_def u by (simp add: mult_right_mono less_imp_le)
next
  case False
  with expo_mono [OF assms] have "expo x + 1 \<le> expo y" by simp
  then have "pow2 (expo x + 1) \<le> pow2 (expo y)" by (rule pow2_mono)
  with fl_pos_range [OF assms(1)] fl_pos_range [of y] assms show ?thesis by linarith
qed

lemma fl_mono:
  assumes "x \<le> y"
  shows "fl x \<le> fl y"
proof -
  have pos: "0 < z \<Longrightarrow> 0 < fl_pos z" for z
    using fl_pos_range(1) [of z] pow2_pos [of "expo z"] by linarith
  consider "0 < x" | "x \<le> 0" "0 \<le> y" | "y < 0" using assms by linarith
  then show ?thesis
  proof cases
    case 1
    with assms show ?thesis by (simp add: fl_def fl_pos_mono)
  next
    case 2
    with pos [of "- x"] pos [of y] show ?thesis by (auto simp: fl_def)
  next
    case 3
    with assms fl_pos_mono [of "- y" "- x"] show ?thesis by (simp add: fl_def)
  qed
qed

lemma div_div_eq: "c * b * a = 1 \<Longrightarrow> n / a / b = n * (c :: rat)"
proof -
  assume h: "c * b * a = 1"
  then have "a \<noteq> 0" "b \<noteq> 0" by auto
  then have "n / a / b = n * (c * b * a) / (a * b)" using h by simp
  also have "\<dots> = n * c" using \<open>a \<noteq> 0\<close> \<open>b \<noteq> 0\<close> by simp
  finally show ?thesis .
qed

text \<open>A fraction \<open>n / 2^k\<close> with at most 53 significant bits is represented exactly.\<close>

lemma fl_dyadic:
  assumes "0 \<le> n" "n < 2 ^ 53" "0 \<le> k"
  shows "fl (of_int n / pow2 k) = of_int n / pow2 k"
proof (cases "n = 0")
  case True
  then show ?thesis by (simp add: fl_def)
next
  case False
  let ?x = "of_int n / pow2 k :: rat"
  have x: "0 < ?x" using assms False by simp
  have "of_int n < (of_int (2 ^ 53) :: rat)" using assms by (simp only: of_int_less_iff)
  then have "?x < pow2 (53 - k)" by (simp add: pow2_diff pow2_def [of 53] divide_strict_right_mono)
  moreover have "pow2 (53 - k) \<le> pow2 (expo ?x)" if "53 - k \<le> expo ?x"
    using that by (rule pow2_mono)
  ultimately have e: "expo ?x < 53 - k" using expo_bounds(1) [OF x] by (meson leD le_less_trans not_le)
  define m where "m = 52 - k - expo ?x"
  have m: "0 \<le> m" using e m_def by linarith
  have "pow2 m * ulp ?x * pow2 k = 1"
    unfolding ulp_def pow2_add [symmetric] m_def by (simp add: pow2_def)
  then have "?x / ulp ?x = of_int n * pow2 m" by (rule div_div_eq)
  also have "\<dots> = of_int (n * 2 ^ nat m)" using m by (simp add: pow2_nat)
  finally have q: "?x / ulp ?x = of_int (n * 2 ^ nat m)" .
  have "ulp ?x \<noteq> 0" using ulp_pos [of ?x] by (metis less_irrefl)
  from nonzero_divide_eq_eq [THEN iffD1, OF this q]
  have xeq: "of_int (n * 2 ^ nat m) * ulp ?x = ?x" by (rule sym)
  have "fl ?x = fl_pos ?x" unfolding fl_def using x by auto
  also have "\<dots> = of_int (n * 2 ^ nat m) * ulp ?x"
    unfolding fl_pos_def q round_even_int ..
  finally show ?thesis unfolding xeq .
qed

lemma fl_of_int: "0 \<le> n \<Longrightarrow> n < 2 ^ 53 \<Longrightarrow> fl (of_int n) = of_int n"
  using fl_dyadic [of n 0] by (simp add: pow2_def)

text \<open>The relative error of a rounding is at most \<open>2 ^ - 53\<close>.\<close>

lemma round_even_close: "\<bar>of_int (round_even q) - q\<bar> \<le> 1 / 2"
  unfolding round_even_def Let_def by (simp add: abs_if) linarith

lemma fl_close:
  assumes "0 \<le> x"
  shows "\<bar>fl x - x\<bar> * 2 ^ 53 \<le> x"
proof (cases "x = 0")
  case False
  with assms have x: "0 < x" by simp
  have u: "0 < ulp x" "ulp x * 2 ^ 52 \<le> x"
    using expo_bounds(1) [OF x] by (simp_all add: ulp_def pow2_diff pow2_def [of 52])
  have "ulp x \<noteq> 0" using u(1) by linarith
  then have "x / ulp x * ulp x = x" by simp
  then have "fl x - x = (of_int (round_even (x / ulp x)) - x / ulp x) * ulp x"
    using x by (simp only: fl_def fl_pos_def left_diff_distrib) simp
  then have "\<bar>fl x - x\<bar> = \<bar>of_int (round_even (x / ulp x)) - x / ulp x\<bar> * ulp x" using u(1) by (simp add: abs_mult abs_of_pos)
  also have "\<dots> \<le> 1 / 2 * ulp x" by (rule mult_right_mono [OF round_even_close less_imp_le [OF u(1)]])
  finally show ?thesis using u(2) by simp
qed (simp add: fl_def)

text \<open>\<open>Math.round\<close>.\<close>

definition js_round :: "rat \<Rightarrow> int" where
  "js_round x = \<lfloor>x + 1 / 2\<rfloor>"

lemma js_round_mono: "x \<le> y \<Longrightarrow> js_round x \<le> js_round y"
  by (simp add: js_round_def floor_mono)

lemma js_round_eqI: "of_int n \<le> x + 1 / 2 \<Longrightarrow> x + 1 / 2 < of_int n + 1 \<Longrightarrow> js_round x = n"
  unfolding js_round_def by (rule floor_unique)

lemma js_round_int [simp]: "js_round (of_int n) = n"
  by (rule js_round_eqI) simp_all

locale rounding =
  fixes rnd :: "rat \<Rightarrow> rat"
  assumes rnd_mono: "x \<le> y \<Longrightarrow> rnd x \<le> rnd y"
    and rnd_dyadic: "0 \<le> n \<Longrightarrow> n < 2 ^ 53 \<Longrightarrow> 0 \<le> k \<Longrightarrow> rnd (of_int n / pow2 k) = of_int n / pow2 k"
begin

lemma rnd_int: "0 \<le> n \<Longrightarrow> n < 2 ^ 53 \<Longrightarrow> rnd (of_int n) = of_int n"
  using rnd_dyadic [of n 0] by (simp add: pow2_def)

lemma rnd_ratio_range:
  assumes "0 \<le> w" "w \<le> t" "0 < t"
  shows "0 \<le> rnd (of_int w / of_int t)" and "rnd (of_int w / of_int t) \<le> 1"
  using assms rnd_mono [of 0 "of_int w / of_int t"] rnd_mono [of "of_int w / of_int t" 1]
    rnd_int [of 0] rnd_int [of 1] by simp_all

text \<open>The percentage \<open>Math.round(w / t * 100)\<close> of a share.\<close>

lemma pct_range:
  assumes "0 \<le> w" "w \<le> t" "0 < t"
  shows "0 \<le> js_round (rnd (rnd (of_int w / of_int t) * 100))"
    and "js_round (rnd (rnd (of_int w / of_int t) * 100)) \<le> 100"
proof -
  let ?r = "rnd (of_int w / of_int t)"
  have "rnd 0 \<le> rnd (?r * 100)" "rnd (?r * 100) \<le> rnd 100"
    using rnd_ratio_range [OF assms] by (intro rnd_mono; simp)+
  then have "of_int 0 \<le> rnd (?r * 100)" "rnd (?r * 100) \<le> of_int 100"
    using rnd_int [of 0] rnd_int [of 100] by simp_all
  from this [THEN js_round_mono] show "0 \<le> js_round (rnd (?r * 100))" "js_round (rnd (?r * 100)) \<le> 100"
    by (simp_all only: js_round_int)
qed

lemma pct_mono:
  assumes "v \<le> w" "0 < t"
  shows "js_round (rnd (rnd (of_int v / of_int t) * 100)) \<le> js_round (rnd (rnd (of_int w / of_int t) * 100))"
  using assms by (intro js_round_mono rnd_mono mult_right_mono divide_right_mono) auto

lemma pct_full: "0 < t \<Longrightarrow> js_round (rnd (rnd (of_int t / of_int t) * 100)) = 100"
  using rnd_int [of 1] rnd_int [of 100] js_round_int [of 100] by simp

text \<open>Up to 199 items, an incomplete share never rounds to 100 percent.\<close>

lemma pct_incomplete:
  assumes "0 \<le> w" "w < t" "t < 200"
  shows "js_round (rnd (rnd (of_int w / of_int t) * 100)) \<le> 99"
proof -
  have "w * 200 \<le> t * 199" "w * 8192 \<le> t * 8151" using assms by linarith+
  then have "of_int (w * 8192) \<le> (of_int (t * 8151) :: rat)" by (simp only: of_int_le_iff)
  then have "of_int w / of_int t \<le> (8151 / 8192 :: rat)"
    using assms by (simp add: divide_simps mult.commute)
  then have "rnd (of_int w / of_int t) \<le> rnd (8151 / 8192)" by (rule rnd_mono)
  also have "\<dots> = 8151 / 8192" using rnd_dyadic [of 8151 13] by (simp add: pow2_def)
  finally have "rnd (rnd (of_int w / of_int t) * 100) \<le> rnd (815100 / 8192)"
    by (intro rnd_mono) simp
  also have "\<dots> = 815100 / 8192" using rnd_dyadic [of 815100 13] by (simp add: pow2_def)
  finally have "js_round (rnd (rnd (of_int w / of_int t) * 100)) \<le> js_round (815100 / 8192)"
    by (rule js_round_mono)
  also have "js_round (815100 / 8192) = 99" by (rule js_round_eqI) simp_all
  finally show ?thesis .
qed

end

interpretation ieee: rounding fl
  by unfold_locales (fact fl_mono, fact fl_dyadic)

end
