(* ===== verification/Proxy.thy ===== *)
theory Proxy
  imports ApiClient Session JsNumber
begin

text \<open>
  The same-origin API proxy \<open>client/app/api/v1/[...path]/route.ts\<close>: where a request goes,
  which headers travel with it, how the session cookie becomes a bearer token, the bounded
  wait for the upstream, and what comes back. The upstream is a parameter: the answer to
  \<open>fetch\<close>, or its rejection (which includes the abort at the deadline). The lemmas show that
  cookies are bound to this host with everything else intact, which credential the upstream
  sees, and what the browser's client makes of an outage.
\<close>

section \<open>Requests and answers\<close>

record proxy_env =
  API_PROXY_TARGET :: "jsstring option"
  NEXT_PUBLIC_API_URL :: "jsstring option"
  API_PROXY_TIMEOUT_MS :: "rat option" \<comment> \<open>\<open>Number(...)\<close>, \<open>None\<close> when it is not finite\<close>

record proxy_request =
  px_method :: jsstring
  px_headers :: "(jsstring \<times> jsstring) list" \<comment> \<open>names in lower case\<close>
  px_search :: jsstring
  px_host :: jsstring
  px_protocol :: jsstring \<comment> \<open>with its colon\<close>
  px_origin :: jsstring
  px_body :: jsstring

record upstream_request =
  up_url :: jsstring
  up_method :: jsstring
  up_headers :: "(jsstring \<times> jsstring) list"
  up_body :: "jsstring option"
  up_deadline :: rat \<comment> \<open>the wait for the headers, in milliseconds\<close>

record upstream_answer =
  ua_status :: nat
  ua_headers :: "(jsstring \<times> jsstring) list" \<comment> \<open>all but the cookies, names in lower case and distinct\<close>
  ua_cookies :: "jsstring list" \<comment> \<open>\<open>getSetCookie()\<close>\<close>
  ua_body :: "js_exn + json"

section \<open>Where requests go\<close>

definition api_base_default :: "jsstring option \<Rightarrow> jsstring" where
  "api_base_default u = (case u of Some s \<Rightarrow> if s \<noteq> [] then s else ''http://localhost:8080/api/v1''
     | None \<Rightarrow> ''http://localhost:8080/api/v1'')"

text \<open>\<open>pub.replace(/\/api\/v1\/?$/, "")\<close>\<close>

definition strip_api_v1 :: "jsstring \<Rightarrow> jsstring" where
  "strip_api_v1 s = (if ends_with s ''/api/v1/'' then drop_suffix ''/api/v1/'' s else drop_suffix ''/api/v1'' s)"

definition upstreamBase :: "proxy_env \<Rightarrow> jsstring" where
  "upstreamBase env =
     (case map_option (drop_last_char (CHR ''/'')) (API_PROXY_TARGET env) of
        Some p \<Rightarrow> if p \<noteq> [] then p else strip_api_v1 (api_base_default (NEXT_PUBLIC_API_URL env))
      | None \<Rightarrow> strip_api_v1 (api_base_default (NEXT_PUBLIC_API_URL env)))"

definition UPSTREAM_HEADER_TIMEOUT_MS :: "proxy_env \<Rightarrow> rat" where
  "UPSTREAM_HEADER_TIMEOUT_MS env =
     (case API_PROXY_TIMEOUT_MS env of Some r \<Rightarrow> if r > 0 then r else 10000 | None \<Rightarrow> 10000)"

section \<open>Cookies\<close>

text \<open>One \<open>;\<close>-separated part of a cookie header: its name and value, if it has a name.\<close>

fun cut_eq :: "jsstring \<Rightarrow> (jsstring \<times> jsstring) option" where
  "cut_eq [] = None"
| "cut_eq (c # s) = (if c = CHR ''='' then Some ([], s) else map_option (\<lambda>(k, v). (c # k, v)) (cut_eq s))"

fun cookie_scan :: "jsstring \<Rightarrow> jsstring list \<Rightarrow> jsstring" where
  "cookie_scan name [] = []"
| "cookie_scan name (part # parts) =
     (case cut_eq (trim part) of
        Some (k, raw) \<Rightarrow>
          if k = [] then cookie_scan name parts
          else if k = name then (case decode_uri_component raw of Some v \<Rightarrow> v | None \<Rightarrow> raw)
          else cookie_scan name parts
      | None \<Rightarrow> cookie_scan name parts)"

definition cookieValue :: "jsstring \<Rightarrow> jsstring \<Rightarrow> jsstring" where
  "cookieValue header name = cookie_scan name (split_on (CHR '';'') header)"

definition cookie_parts :: "jsstring \<Rightarrow> jsstring list" where
  "cookie_parts raw = map trim (split_on (CHR '';'') raw)"

definition hostOnlySetCookie :: "jsstring \<Rightarrow> jsstring" where
  "hostOnlySetCookie raw =
     join ''; '' (filter (\<lambda>p. p \<noteq> [] \<and> \<not> starts_with (to_lower p) ''domain='') (cookie_parts raw))"

section \<open>The proxy\<close>

definition header :: "proxy_request \<Rightarrow> jsstring \<Rightarrow> jsstring" where
  "header req k = (case map_of (px_headers req) k of None \<Rightarrow> [] | Some v \<Rightarrow> v)"

text \<open>\<open>if (v) headers.set(k, v)\<close>\<close>

definition pass :: "jsstring \<Rightarrow> jsstring \<Rightarrow> (jsstring \<times> jsstring) list" where
  "pass k v = (if v = [] then [] else [(k, v)])"

definition proxy_auth :: "proxy_request \<Rightarrow> jsstring" where
  "proxy_auth req =
     (let auth = header req ''authorization''; cookie = header req ''cookie'' in
      if auth = [] \<and> cookie \<noteq> [] then
        (let token = cookieValue cookie ''ykv_session'' in if token \<noteq> [] then ''Bearer '' @ token else auth)
      else auth)"

definition proxy_headers :: "proxy_request \<Rightarrow> (jsstring \<times> jsstring) list" where
  "proxy_headers req =
     (let trace = (if header req ''x-trace-id'' \<noteq> [] then header req ''x-trace-id'' else header req ''x-request-id'');
          host = (if header req ''host'' \<noteq> [] then header req ''host'' else px_host req) in
      pass ''cookie'' (header req ''cookie'') @
      pass ''content-type'' (header req ''content-type'') @
      pass ''authorization'' (proxy_auth req) @
      pass ''x-trace-id'' trace @ pass ''x-request-id'' trace @
      [(''x-forwarded-host'', host),
       (''x-forwarded-proto'', remove1 (CHR '':'') (px_protocol req)),
       (''x-forwarded-origin'', px_origin req)] @
      pass ''origin'' (header req ''origin'') @
      pass ''referer'' (header req ''referer''))"

definition proxied :: "proxy_env \<Rightarrow> proxy_request \<Rightarrow> jsstring list \<Rightarrow> upstream_request" where
  "proxied env req path =
     \<lparr>up_url = upstreamBase env @ ''/api/v1/'' @ join ''/'' path @ px_search req,
      up_method = px_method req,
      up_headers = proxy_headers req,
      up_body = (if px_method req \<noteq> ''GET'' \<and> px_method req \<noteq> ''HEAD'' \<and> px_method req \<noteq> ''OPTIONS''
                 then Some (px_body req) else None),
      up_deadline = UPSTREAM_HEADER_TIMEOUT_MS env\<rparr>"

definition unavailable :: upstream_answer where
  "unavailable =
     \<lparr>ua_status = 504, ua_headers = [(''content-type'', ''application/json'')], ua_cookies = [],
      ua_body = Inr (error_body ''upstream_unavailable'' ''The API did not respond in time. Please try again.'')\<rparr>"

definition dropped_headers :: "jsstring list" where
  "dropped_headers = [''set-cookie'', ''content-encoding'', ''transfer-encoding'']"

definition returned :: "upstream_answer \<Rightarrow> upstream_answer" where
  "returned up = up\<lparr>
     ua_headers := filter (\<lambda>(k, _). to_lower k \<notin> set dropped_headers) (ua_headers up),
     ua_cookies := map hostOnlySetCookie (ua_cookies up)\<rparr>"

text \<open>\<open>proxy\<close>; \<open>fetch\<close> gives the upstream's answer, \<open>None\<close> for any rejection.\<close>

definition proxy ::
  "proxy_env \<Rightarrow> (upstream_request \<Rightarrow> upstream_answer option) \<Rightarrow> proxy_request \<Rightarrow> jsstring list \<Rightarrow> upstream_answer" where
  "proxy env fetch req path =
     (case fetch (proxied env req path) of None \<Rightarrow> unavailable | Some up \<Rightarrow> returned up)"

text \<open>The exported handlers; the framework answers every other method itself.\<close>

definition route_methods :: "jsstring list" where
  "route_methods = [''GET'', ''POST'', ''PUT'', ''PATCH'', ''DELETE'', ''HEAD'', ''OPTIONS'']"

definition handle :: "proxy_env \<Rightarrow> (upstream_request \<Rightarrow> upstream_answer option) \<Rightarrow> proxy_request \<Rightarrow>
    jsstring list \<Rightarrow> upstream_answer option" where
  "handle env fetch req path =
     (if px_method req \<in> set route_methods then Some (proxy env fetch req path) else None)"

section \<open>One API for the proxy and the sign-on routes\<close>

lemma drop_suffix_append [simp]: "drop_suffix t (s @ t) = s"
  by (simp add: drop_suffix_def suffix_def)

lemma strip_base:
  "strip_api_v1 s @ ''/api/v1'' = drop_last_char (CHR ''/'') s \<longleftrightarrow> ends_with s ''/api/v1'' \<or> ends_with s ''/api/v1/''"
proof (cases "ends_with s ''/api/v1/''")
  case True
  then obtain t where s: "s = t @ ''/api/v1/''" by (auto simp: suffix_def)
  then have "s = (t @ ''/api/v1'') @ [CHR ''/'']" by simp
  then have "drop_last_char (CHR ''/'') s = t @ ''/api/v1''" by (metis drop_last_char_append)
  then show ?thesis using True s by (simp add: strip_api_v1_def)
next
  case False
  show ?thesis
  proof (cases "ends_with s ''/api/v1''")
    case True
    then obtain t where s: "s = t @ ''/api/v1''" by (auto simp: suffix_def)
    then have "drop_last_char (CHR ''/'') s = s" by (simp add: drop_last_char_def)
    then show ?thesis using True False s by (simp add: strip_api_v1_def)
  next
    case no: False
    have le: "length (drop_last_char (CHR ''/'') s) \<le> length s" by (simp add: drop_last_char_def)
    have "s @ ''/api/v1'' \<noteq> drop_last_char (CHR ''/'') s"
    proof
      assume "s @ ''/api/v1'' = drop_last_char (CHR ''/'') s"
      then have "length s + length ''/api/v1'' = length (drop_last_char (CHR ''/'') s)"
        by (metis length_append)
      with le show False by simp
    qed
    then show ?thesis using no False by (simp add: strip_api_v1_def drop_suffix_def)
  qed
qed

text \<open>
  The proxy and the single sign-on routes speak to the same API exactly when the proxy
  target is set or the public API address ends in \<open>/api/v1\<close>, with or without a final slash.
\<close>

theorem one_upstream:
  "upstreamBase env @ ''/api/v1'' = apiV1Base (API_PROXY_TARGET env) (NEXT_PUBLIC_API_URL env) \<longleftrightarrow>
     API_PROXY_TARGET env \<notin> {None, Some [], Some ''/''} \<or>
     list_ex (ends_with (api_base_default (NEXT_PUBLIC_API_URL env))) [''/api/v1'', ''/api/v1/'']"
proof -
  have "drop_last_char (CHR ''/'') t = [] \<longleftrightarrow> t = [] \<or> t = ''/''" for t
    by (cases t rule: rev_cases) (auto simp: drop_last_char_def)
  moreover have "apiV1Base None u = drop_last_char (CHR ''/'') (api_base_default u)" for u
    by (auto simp: apiV1Base_def api_base_default_def split: option.splits)
  ultimately show ?thesis
    by (cases "API_PROXY_TARGET env")
      (auto simp: upstreamBase_def apiV1Base_def api_base_default_def strip_base split: option.splits)
qed

section \<open>Cookies are bound to this host\<close>

lemma trim_blank: "trim (CHR '' '' # s) = trim s"
  by (simp add: trim_def is_space_def)

lemma parts_of_join:
  assumes "\<And>p. p \<in> set ps \<Longrightarrow> CHR '';'' \<notin> set p \<and> trim p = p" "ps \<noteq> []"
  shows "cookie_parts (join ''; '' ps) = ps"
  using assms
proof (induction ps)
  case Nil
  then show ?case by simp
next
  case (Cons p ps)
  have p: "CHR '';'' \<notin> set p" "trim p = p" using Cons.prems(1) [of p] by auto
  show ?case
  proof (cases "ps = []")
    case True
    then show ?thesis using p by (simp add: cookie_parts_def split_on_free)
  next
    case False
    have IH: "cookie_parts (join ''; '' ps) = ps" using Cons False by simp
    obtain q qs where q: "split_on (CHR '';'') (join ''; '' ps) = q # qs"
      by (cases "split_on (CHR '';'') (join ''; '' ps)") auto
    have "split_on (CHR '';'') (CHR '' '' # join ''; '' ps) = (CHR '' '' # q) # qs" using q by simp
    then show ?thesis using p IH q False
      by (simp add: cookie_parts_def join_Cons split_on_append trim_blank)
  qed
qed

lemma host_only_parts:
  "filter (\<lambda>p. p \<noteq> []) (cookie_parts (hostOnlySetCookie raw)) =
     filter (\<lambda>p. p \<noteq> [] \<and> \<not> starts_with (to_lower p) ''domain='') (cookie_parts raw)"
proof -
  let ?ps = "filter (\<lambda>p. p \<noteq> [] \<and> \<not> starts_with (to_lower p) ''domain='') (cookie_parts raw)"
  have ok: "CHR '';'' \<notin> set p \<and> trim p = p" if "p \<in> set ?ps" for p
  proof -
    from that obtain q where "q \<in> set (split_on (CHR '';'') raw)" "p = trim q" by (auto simp: cookie_parts_def)
    then show ?thesis using split_on_no_sep [of q "CHR '';''" raw] trim_no_sep [of "CHR '';''" q] by simp
  qed
  show ?thesis
  proof (cases "?ps = []")
    case True
    then show ?thesis by (simp add: hostOnlySetCookie_def cookie_parts_def)
  next
    case False
    then have "cookie_parts (hostOnlySetCookie raw) = ?ps"
      unfolding hostOnlySetCookie_def using ok by (intro parts_of_join)
    then show ?thesis by (metis (no_types, lifting) filter_True mem_Collect_eq set_filter)
  qed
qed

text \<open>
  Every cookie the proxy hands to the browser is the upstream's cookie without its
  \<open>Domain\<close> attribute, however that is spelt, and with every other part in its place: the
  session is bound to this host, and stays \<open>HttpOnly\<close>, \<open>Secure\<close> and as long as it was set.
\<close>

theorem proxy_cookies_host_only:
  assumes "fetch (proxied env req path) = Some up"
  shows "list_all2 (\<lambda>c raw. filter (\<lambda>p. p \<noteq> []) (cookie_parts c) =
      filter (\<lambda>p. p \<noteq> [] \<and> \<not> starts_with (to_lower p) ''domain='') (cookie_parts raw))
    (ua_cookies (proxy env fetch req path)) (ua_cookies up)"
  using assms by (simp add: proxy_def returned_def list_all2_map1 list_all2_same host_only_parts list.rel_map)

section \<open>The credential the upstream sees\<close>

text \<open>The cookie header a browser sends for a jar of names and encoded values.\<close>

definition cookie_header :: "(jsstring \<times> jsstring) list \<Rightarrow> jsstring" where
  "cookie_header jar = join ''; '' (map (\<lambda>(k, v). k @ ''='' @ encode_uri_component v) jar)"

definition cookie_name :: "jsstring \<Rightarrow> bool" where
  "cookie_name k = (k \<noteq> [] \<and> list_all (\<lambda>c. c \<noteq> CHR '';'' \<and> c \<noteq> CHR ''='' \<and> \<not> is_space c) k)"

lemma cut_eq_append: "CHR ''='' \<notin> set k \<Longrightarrow> cut_eq (k @ CHR ''='' # v) = Some (k, v)"
  by (induction k) auto

lemma hex_digit_plain: "n < 16 \<Longrightarrow> hex_digit n \<noteq> CHR '';'' \<and> \<not> is_space (hex_digit n)"
  by (drule less_16_cases) (elim disjE, simp_all add: hex_digit_def is_space_def)

lemma encoded_plain:
  assumes "c \<in> set (encode_uri_component s)" shows "c \<noteq> CHR '';'' \<and> \<not> is_space c"
proof -
  have "c \<noteq> CHR '';'' \<and> \<not> is_space c" if "c \<in> set (pct d)" for d
    using that hex_digit_plain of_char_div16 [of d]
    by (auto simp: pct_def Let_def is_space_def [of "CHR ''%''"])
  moreover have "d \<noteq> CHR '';'' \<and> \<not> is_space d" if "uri_unreserved d" for d
    using that by (auto simp: uri_unreserved_def alnum_def is_space_def Let_def)
  ultimately show ?thesis using assms
    by (induction s) (auto simp: encode_uri_component_def split: if_splits)
qed

lemma cookie_pair_plain:
  assumes "cookie_name k" "c \<in> set (k @ ''='' @ encode_uri_component v)"
  shows "c \<noteq> CHR '';'' \<and> \<not> is_space c"
proof -
  have "\<not> is_space (CHR ''='')" by (simp add: is_space_def)
  moreover from assms(2) have "c \<in> set k \<or> c = CHR ''='' \<or> c \<in> set (encode_uri_component v)" by simp blast
  moreover have "c \<noteq> CHR '';'' \<and> \<not> is_space c" if "c \<in> set k"
    using assms(1) that unfolding cookie_name_def list_all_iff by blast
  ultimately show ?thesis using encoded_plain [of c v] by (elim disjE) simp_all
qed

lemma cookie_pair_part:
  assumes "cookie_name k"
  shows "CHR '';'' \<notin> set (k @ ''='' @ encode_uri_component v)"
    and "trim (k @ ''='' @ encode_uri_component v) = k @ ''='' @ encode_uri_component v"
proof -
  let ?p = "k @ ''='' @ encode_uri_component v"
  show "CHR '';'' \<notin> set ?p" using cookie_pair_plain [OF assms, of _ v] by blast
  have "hd ?p \<in> set ?p" "last ?p \<in> set ?p" by (rule list.set_sel(1), simp) (rule last_in_set, simp)
  then show "trim ?p = ?p" using cookie_pair_plain [OF assms, of _ v] by (intro trim_fixed) auto
qed

lemma cookie_scan_trim: "cookie_scan name (map trim ps) = cookie_scan name ps"
  by (induction ps) (auto split: option.splits)

lemma cookie_value_jar:
  assumes "list_all (\<lambda>(k, v). cookie_name k \<and> ascii v) jar" "jar \<noteq> []"
  shows "cookieValue (cookie_header jar) name = (case map_of jar name of Some v \<Rightarrow> v | None \<Rightarrow> [])"
proof -
  let ?p = "\<lambda>(k, v). k @ ''='' @ encode_uri_component v"
  have "cookie_parts (cookie_header jar) = map ?p jar"
    unfolding cookie_header_def
  proof (rule parts_of_join)
    fix p assume "p \<in> set (map ?p jar)"
    then obtain k v where "(k, v) \<in> set jar" and p: "p = k @ ''='' @ encode_uri_component v" by auto
    with assms(1) have "cookie_name k" by (auto simp: list_all_iff)
    with p show "CHR '';'' \<notin> set p \<and> trim p = p" using cookie_pair_part by blast
  qed (use assms(2) in simp)
  then have "cookieValue (cookie_header jar) name = cookie_scan name (map ?p jar)"
    by (simp add: cookieValue_def cookie_parts_def flip: cookie_scan_trim [of name "split_on _ _"])
  also have "\<dots> = (case map_of jar name of Some v \<Rightarrow> v | None \<Rightarrow> [])"
    using assms(1)
  proof (induction jar)
    case (Cons kv jar)
    obtain k v where kv: "kv = (k, v)" by (cases kv)
    with Cons.prems have k: "cookie_name k" "ascii v" by auto
    then have "CHR ''='' \<notin> set k" "k \<noteq> []" by (auto simp: cookie_name_def list_all_iff)
    with cut_eq_append [of k "encode_uri_component v"] Cons kv k show ?case
      by (simp add: cookie_pair_part(2) [simplified] decode_encode_ascii)
  qed simp
  finally show ?thesis .
qed

text \<open>
  C14. The upstream's credential is the request's own \<open>Authorization\<close> header when it has one;
  else, when the browser's cookies name a session, \<open>Bearer\<close> with exactly the session's value
  (decoded, the first one if it occurs twice); and none for a visitor without a session.
\<close>

theorem upstream_credential:
  assumes "list_all (\<lambda>(k, v). cookie_name k \<and> ascii v \<and> v \<noteq> []) jar" "jar \<noteq> []"
    and "map_of (px_headers req) ''cookie'' = Some (cookie_header jar)"
  shows "map_of (up_headers (proxied env req path)) ''authorization'' =
    (case map_of (px_headers req) ''authorization'' of
       Some (c # cs) \<Rightarrow> Some (c # cs)
     | _ \<Rightarrow> map_option (\<lambda>v. ''Bearer '' @ v) (map_of jar ''ykv_session''))"
proof -
  have ok: "list_all (\<lambda>(k, v). cookie_name k \<and> ascii v) jar" using assms(1) by (auto simp: list_all_iff)
  have ne: "cookie_header jar \<noteq> []"
    using assms(2) by (cases jar; cases "tl jar") (auto simp: cookie_header_def split: prod.splits)
  have tok: "map_of jar ''ykv_session'' \<noteq> Some []"
    using assms(1) by (auto simp: list_all_iff dest!: map_of_SomeD)
  have auth: "map_of (up_headers (proxied env req path)) ''authorization'' =
      (if proxy_auth req = [] then None else Some (proxy_auth req))"
    by (auto simp: proxied_def proxy_headers_def pass_def Let_def)
  have "proxy_auth req = (case map_of (px_headers req) ''authorization'' of
       Some (c # cs) \<Rightarrow> c # cs
     | _ \<Rightarrow> (case map_of jar ''ykv_session'' of Some v \<Rightarrow> ''Bearer '' @ v | None \<Rightarrow> []))"
    using ne tok assms(3) cookie_value_jar [OF ok assms(2), of "''ykv_session''"]
    by (auto simp: proxy_auth_def header_def Let_def split: option.splits list.splits)
  then show ?thesis using auth by (auto split: option.splits list.splits)
qed

theorem upstream_credential_witness:
  "map_of (up_headers (proxied \<lparr>API_PROXY_TARGET = None, NEXT_PUBLIC_API_URL = None, API_PROXY_TIMEOUT_MS = None\<rparr>
     \<lparr>px_method = ''GET'', px_headers = [(''cookie'', cookie_header [(''theme'', ''dark''), (''ykv_session'', ''a+b='')])],
      px_search = [], px_host = ''app.example'', px_protocol = ''https:'', px_origin = ''https://app.example'',
      px_body = []\<rparr> [''auth'', ''me''])) ''authorization'' = Some (''Bearer a+b='')"
  by (subst upstream_credential [of "[(''theme'', ''dark''), (''ykv_session'', ''a+b='')]"])
    (simp_all add: cookie_name_def is_space_def ascii_def)

theorem proxy_cookies_host_only_witness:
  "list_all2 (\<lambda>c raw. filter (\<lambda>p. p \<noteq> []) (cookie_parts c) =
      filter (\<lambda>p. p \<noteq> [] \<and> \<not> starts_with (to_lower p) ''domain='') (cookie_parts raw))
    (ua_cookies (proxy \<lparr>API_PROXY_TARGET = None, NEXT_PUBLIC_API_URL = None, API_PROXY_TIMEOUT_MS = None\<rparr>
      (\<lambda>_. Some \<lparr>ua_status = 200, ua_headers = [], ua_cookies = [''ykv_session=t; Domain=api.example; HttpOnly''],
        ua_body = Inr JNull\<rparr>)
      \<lparr>px_method = ''GET'', px_headers = [], px_search = [], px_host = [], px_protocol = [], px_origin = [],
       px_body = []\<rparr> [])) [''ykv_session=t; Domain=api.example; HttpOnly'']"
  by (rule proxy_cookies_host_only [where up = "\<lparr>ua_status = 200, ua_headers = [],
      ua_cookies = [''ykv_session=t; Domain=api.example; HttpOnly''], ua_body = Inr JNull\<rparr>", simplified
        upstream_answer.select_convs]) simp

section \<open>Outages\<close>

definition as_response :: "upstream_answer \<Rightarrow> response" where
  "as_response a = \<lparr>rs_status = ua_status a, rs_headers = ua_headers a, rs_body = ua_body a\<rparr>"

text \<open>
  When the upstream cannot be reached or does not answer within the deadline, the
  browser's client gets an answer at once: it does not send the request again, does not
  leave the page, and shows the proxy's message.
\<close>

theorem outage_reported_once:
  assumes "fetch (proxied env req path) = None"
    and "we_net wenv 0 = Responds (as_response (proxy env fetch req path))"
  shows "apiFetch wenv p i =
    ([Sent (rawFetch wenv 0 p i)], Inl (plain_error ''The API did not respond in time. Please try again.''))"
proof -
  have body: "proxy env fetch req path = unavailable" using assms(1) by (simp add: proxy_def)
  have "content_type (as_response unavailable) = ''application/json''" "\<not> rs_ok (as_response unavailable)"
    "rs_status (as_response unavailable) = 504"
    "rs_body (as_response unavailable) =
       Inr (error_body ''upstream_unavailable'' ''The API did not respond in time. Please try again.'')"
    by (simp_all add: as_response_def unavailable_def content_type_def rs_ok_def)
  moreover have "str_includes ''application/json'' ''json''" by simp
  ultimately show ?thesis using assms(2) body
    by (simp add: api_defs redirects_def read_response_def Let_def)
qed

theorem outage_reported_once_witness:
  "snd (apiFetch \<lparr>we_browser = True, we_api_url = None, we_trace = (\<lambda>_. ''t''),
     we_net = (\<lambda>_. Responds (as_response (proxy
       \<lparr>API_PROXY_TARGET = None, NEXT_PUBLIC_API_URL = None, API_PROXY_TIMEOUT_MS = None\<rparr> (\<lambda>_. None)
       \<lparr>px_method = ''GET'', px_headers = [], px_search = [], px_host = [], px_protocol = [], px_origin = [],
        px_body = []\<rparr> [])))\<rparr> ''/auth/me'' get_init)
   = Inl (plain_error ''The API did not respond in time. Please try again.'')"
  by (subst outage_reported_once) simp_all

text \<open>
  An answer keeps its status and every header but three. A compressed answer loses its
  \<open>content-encoding\<close> and keeps its \<open>content-length\<close>.
\<close>

lemma answer_headers:
  assumes "fetch (proxied env req path) = Some up"
  shows "ua_status (proxy env fetch req path) = ua_status up \<and>
    map_of (ua_headers (proxy env fetch req path)) k =
      (if to_lower k \<in> set dropped_headers then None else map_of (ua_headers up) k)"
proof -
  have "map_of (filter (\<lambda>(k, _). to_lower k \<notin> S) hs) k = (if to_lower k \<in> S then None else map_of hs k)"
    for S and hs :: "(jsstring \<times> jsstring) list"
    by (induction hs) auto
  with assms show ?thesis by (simp add: proxy_def returned_def)
qed

end
