(* ===== verification/Realtime.thy ===== *)
theory Realtime
  imports Machine Http
begin

text \<open>
  Realtime pokes. The mobile connection manager \<open>mobile/src/lib/sse.ts\<close> (one shared stream,
  reference-counted, callbacks by event name) with the polling hook of
  \<open>mobile/src/lib/realtime.ts\<close>, and the web hook \<open>client/hooks/useRealtimeEvents.ts\<close>. A state
  of the manager is its module variables, the bindings made on the current stream, and the
  unsubscribe functions handed out and not yet called. The event source and the token store
  are not modelled: their answers are events. The manager is shown to refine a plain
  publish-subscribe specification.
\<close>

section \<open>The connection manager\<close>

datatype rt_event = MessageNew | NotificationNew | Opened | Errored

text \<open>Callbacks are compared by identity, so they are numbers here.\<close>

record hub =
  es :: bool \<comment> \<open>a stream is open\<close>
  bound :: "rt_event list" \<comment> \<open>names with a \<open>dispatch\<close> handler on the open stream\<close>
  refCount :: int
  listeners :: "(rt_event \<times> nat list) list"
  connecting :: bool
  handles :: "(rt_event \<times> nat) list" \<comment> \<open>unsubscribe functions not yet called\<close>

definition hub0 :: hub where
  "hub0 = \<lparr>es = False, bound = [], refCount = 0, listeners = [], connecting = False, handles = []\<rparr>"

text \<open>The callbacks one \<open>dispatch\<close> runs; a callback that raises does not stop the others.\<close>

definition dispatch :: "hub \<Rightarrow> rt_event \<Rightarrow> nat list" where
  "dispatch s name = (case map_of (listeners s) name of None \<Rightarrow> [] | Some set_ids \<Rightarrow> set_ids)"

text \<open>\<open>connect\<close> up to its \<open>await getToken()\<close>, and from there on.\<close>

definition connect_start :: "hub \<Rightarrow> hub" where
  "connect_start s = (if es s \<or> connecting s then s else s\<lparr>connecting := True\<rparr>)"

definition connect_token :: "bool \<Rightarrow> hub \<Rightarrow> hub" where
  "connect_token signed_in s =
     (if signed_in then s\<lparr>connecting := False, es := True, bound := map fst (listeners s)\<rparr>
      else s\<lparr>connecting := False\<rparr>)"

definition maybeClose :: "hub \<Rightarrow> hub" where
  "maybeClose s = (if refCount s = 0 \<and> es s then s\<lparr>es := False, bound := []\<rparr> else s)"

definition set_add :: "'a \<Rightarrow> 'a list \<Rightarrow> 'a list" where
  "set_add x xs = (if x \<in> set xs then xs else xs @ [x])"

definition with_name :: "rt_event \<Rightarrow> hub \<Rightarrow> hub" where
  "with_name name s =
     (if map_of (listeners s) name = None
      then s\<lparr>listeners := listeners s @ [(name, [])], bound := (if es s then bound s @ [name] else bound s)\<rparr>
      else s)"

definition update_set :: "rt_event \<Rightarrow> (nat list \<Rightarrow> nat list) \<Rightarrow> hub \<Rightarrow> hub" where
  "update_set name f s = s\<lparr>listeners := map (\<lambda>(n, cs). if n = name then (n, f cs) else (n, cs)) (listeners s)\<rparr>"

definition subscribeRealtime :: "rt_event \<Rightarrow> nat \<Rightarrow> hub \<Rightarrow> hub" where
  "subscribeRealtime name cb s =
     (let s1 = update_set name (set_add cb) (with_name name s);
          s2 = s1\<lparr>refCount := refCount s1 + 1, handles := (name, cb) # handles s1\<rparr>
      in connect_start s2)"

definition unsubscribe :: "rt_event \<Rightarrow> nat \<Rightarrow> hub \<Rightarrow> hub" where
  "unsubscribe name cb s =
     (let s1 = update_set name (removeAll cb) s
      in maybeClose (s1\<lparr>refCount := refCount s1 - 1, handles := remove1 (name, cb) (handles s1)\<rparr>))"

text \<open>The callbacks that one event of the open stream runs, through every bound handler.\<close>

definition deliver :: "hub \<Rightarrow> rt_event \<Rightarrow> nat list" where
  "deliver s name =
     (if es s then
        concat (map (\<lambda>n. dispatch s n) (filter (\<lambda>n. n = name) (bound s))) @
        (if name = Opened then dispatch s MessageNew @ dispatch s NotificationNew else [])
      else [])"

datatype hub_event =
    Subscribe rt_event nat
  | Unsubscribe rt_event nat
  | Token bool \<comment> \<open>\<open>getToken\<close> answered; whether there was a token\<close>

fun hub_guard :: "hub \<Rightarrow> hub_event \<Rightarrow> bool" where
  "hub_guard s (Subscribe n cb) = ((n, cb) \<notin> set (handles s))"
| "hub_guard s (Unsubscribe n cb) = ((n, cb) \<in> set (handles s))"
| "hub_guard s (Token b) = connecting s"

fun hub_step :: "hub \<Rightarrow> hub_event \<Rightarrow> hub" where
  "hub_step s (Subscribe n cb) = subscribeRealtime n cb s"
| "hub_step s (Unsubscribe n cb) = unsubscribe n cb s"
| "hub_step s (Token b) = connect_token b s"

section \<open>Every subscriber is called once\<close>

definition hub_inv :: "hub \<Rightarrow> bool" where
  "hub_inv s =
     (distinct (map fst (listeners s)) \<and> distinct (handles s) \<and>
      (\<forall>n. distinct (dispatch s n)) \<and>
      (\<forall>n cb. (n, cb) \<in> set (handles s) \<longleftrightarrow> cb \<in> set (dispatch s n)) \<and>
      refCount s = int (length (handles s)) \<and>
      (es s \<longrightarrow> set (bound s) = fst ` set (listeners s) \<and> distinct (bound s) \<and> \<not> connecting s))"

lemma dispatch_update: "dispatch (update_set name f s) n =
    (if n = name \<and> map_of (listeners s) n \<noteq> None then f (dispatch s n) else dispatch s n)"
proof -
  have "map_of (map (\<lambda>(n, cs). if n = name then (n, f cs) else (n, cs)) ls) n
      = (if n = name then map_option f (map_of ls n) else map_of ls n)" for ls
    by (induction ls) auto
  then show ?thesis by (auto simp: dispatch_def update_set_def split: option.splits)
qed

lemma update_set_simps [simp]:
  "map fst (listeners (update_set name f s)) = map fst (listeners s)"
  "es (update_set name f s) = es s" "bound (update_set name f s) = bound s"
  "refCount (update_set name f s) = refCount s" "connecting (update_set name f s) = connecting s"
  "handles (update_set name f s) = handles s"
  by (auto simp: update_set_def comp_def split_beta)

lemma with_name_simps [simp]:
  "refCount (with_name n s) = refCount s" "handles (with_name n s) = handles s" "es (with_name n s) = es s"
  "connecting (with_name n s) = connecting s" "dispatch (with_name n s) m = dispatch s m"
  "map_of (listeners (with_name n s)) n \<noteq> None"
  by (auto simp: with_name_def dispatch_def map_add_def split: option.splits)

lemma with_name_inv: "hub_inv s \<Longrightarrow> hub_inv (with_name n s)"
  unfolding hub_inv_def with_name_simps
  by (auto simp: with_name_def map_of_eq_None_iff)

lemma dispatch_fields [simp]:
  "dispatch (s\<lparr>refCount := r\<rparr>) n = dispatch s n" "dispatch (s\<lparr>handles := h\<rparr>) n = dispatch s n"
  "dispatch (s\<lparr>connecting := c\<rparr>) n = dispatch s n" "dispatch (s\<lparr>es := e\<rparr>) n = dispatch s n"
  "dispatch (s\<lparr>bound := b\<rparr>) n = dispatch s n"
  by (simp_all add: dispatch_def)

lemma keys_update: "fst ` set (listeners (update_set name f s)) = fst ` set (listeners s)"
  by (metis list.set_map update_set_simps(1))

lemma connect_inv: "hub_inv s \<Longrightarrow> hub_inv (connect_start s)"
  by (auto simp: hub_inv_def connect_start_def)

lemma token_inv: "hub_inv s \<Longrightarrow> hub_inv (connect_token b s)"
  by (auto simp: hub_inv_def connect_token_def)

lemma close_inv: "hub_inv s \<Longrightarrow> hub_inv (maybeClose s)"
  by (auto simp: hub_inv_def maybeClose_def)

lemma subscribe_inv:
  assumes "hub_inv s" "(n, cb) \<notin> set (handles s)"
  shows "hub_inv (subscribeRealtime n cb s)"
proof -
  have w: "hub_inv (with_name n s)" by (rule with_name_inv [OF assms(1)])
  have d: "dispatch (update_set n f (with_name n s)) m = (if m = n then f (dispatch s m) else dispatch s m)" for f m
    using with_name_simps(6) [of n s] by (auto simp: dispatch_update)
  have "hub_inv (update_set n (set_add cb) (with_name n s)
      \<lparr>refCount := refCount s + 1, handles := (n, cb) # handles s\<rparr>)"
    using w assms(2) by (auto simp: hub_inv_def d keys_update set_add_def)
  then show ?thesis by (simp add: subscribeRealtime_def Let_def connect_inv)
qed

lemma unsubscribe_inv:
  assumes "hub_inv s" "(n, cb) \<in> set (handles s)"
  shows "hub_inv (unsubscribe n cb s)"
proof -
  have cb: "cb \<in> set (dispatch s n)" using assms by (auto simp: hub_inv_def)
  then have "map_of (listeners s) n \<noteq> None" by (cases "map_of (listeners s) n") (simp_all add: dispatch_def)
  then have d: "dispatch (update_set n f s) m = (if m = n then f (dispatch s m) else dispatch s m)" for f m
    by (auto simp: dispatch_update)
  have "int (length (handles s)) - 1 = int (length (remove1 (n, cb) (handles s)))"
    using assms(2) length_pos_if_in_set [OF assms(2)] by (simp add: length_remove1 of_nat_diff Suc_leI)
  then have "hub_inv (update_set n (removeAll cb) s
      \<lparr>refCount := refCount s - 1, handles := remove1 (n, cb) (handles s)\<rparr>)"
    using assms by (auto simp: hub_inv_def d keys_update distinct_removeAll)
  then show ?thesis by (simp add: unsubscribe_def Let_def close_inv)
qed

interpretation hub: machine "\<lambda>s. s = hub0" hub_guard hub_step hub_inv
proof
  fix s assume "s = hub0"
  then show "hub_inv s" by (simp add: hub_inv_def hub0_def dispatch_def)
next
  fix s e assume "hub_inv s" "hub_guard s e"
  then show "hub_inv (hub_step s e)"
    by (cases e) (auto intro: subscribe_inv unsubscribe_inv token_inv)
qed

abbreviation hub_reach :: "hub \<Rightarrow> bool" where
  "hub_reach \<equiv> reach (\<lambda>s. s = hub0) hub_guard hub_step"

lemma filter_single: "distinct xs \<Longrightarrow> x \<in> set xs \<Longrightarrow> filter (\<lambda>m. m = x) xs = [x]"
  by (induction xs) (auto simp: filter_empty_conv)

lemma deliver_dispatch:
  assumes "hub_inv s" "es s" "n \<noteq> Opened"
  shows "deliver s n = dispatch s n"
proof (cases "n \<in> set (bound s)")
  case True
  then have "filter (\<lambda>m. m = n) (bound s) = [n]"
    using assms by (intro filter_single) (auto simp: hub_inv_def)
  then show ?thesis using assms by (simp add: deliver_def)
next
  case False
  then have "filter (\<lambda>m. m = n) (bound s) = []" by (auto simp: filter_empty_conv)
  moreover have "map_of (listeners s) n = None"
    using False assms by (auto simp: hub_inv_def map_of_eq_None_iff)
  ultimately show ?thesis using assms by (simp add: deliver_def dispatch_def)
qed

text \<open>
  The specification: the set of live subscriptions, and an event reaches those of its name.
\<close>

fun spec_step :: "(rt_event \<times> nat) set \<Rightarrow> hub_event \<Rightarrow> (rt_event \<times> nat) set" where
  "spec_step subs (Subscribe n cb) = insert (n, cb) subs"
| "spec_step subs (Unsubscribe n cb) = subs - {(n, cb)}"
| "spec_step subs (Token b) = subs"

lemma handles_step:
  assumes "hub_inv s" "hub_guard s e"
  shows "set (handles (hub_step s e)) = spec_step (set (handles s)) e"
  using assms
  by (cases e) (auto simp: subscribeRealtime_def unsubscribe_def connect_start_def connect_token_def maybeClose_def
      hub_inv_def Let_def)

lemma handles_run:
  "hub_inv s \<Longrightarrow> allowed hub_guard hub_step s evs \<Longrightarrow> set (handles (run hub_step s evs)) = foldl spec_step (set (handles s)) evs"
  by (induction evs arbitrary: s) (simp_all add: handles_step hub.inv_step)

text \<open>
  C6. The manager refines the specification: after any sequence of subscriptions, token
  answers and unsubscriptions, an event of the open stream calls each live subscriber of its
  name exactly once, and nobody else.
\<close>

theorem hub_refines_pubsub:
  assumes "allowed hub_guard hub_step hub0 evs" "es (run hub_step hub0 evs)" "n \<noteq> Opened"
  shows "distinct (deliver (run hub_step hub0 evs) n) \<and>
    set (deliver (run hub_step hub0 evs) n) = {cb. (n, cb) \<in> foldl spec_step {} evs}"
proof -
  have i0: "hub_inv hub0" by (rule hub.inv_start) simp
  note inv = hub.run_inv [OF i0 assms(1)]
  have "set (handles (run hub_step hub0 evs)) = foldl spec_step {} evs"
    using handles_run [OF i0 assms(1)] by (simp add: hub0_def)
  with inv deliver_dispatch [OF inv assms(2,3)] show ?thesis by (auto simp: hub_inv_def)
qed

lemmas hub_eval = hub0_def subscribeRealtime_def unsubscribe_def connect_start_def connect_token_def maybeClose_def
  update_set_def with_name_def set_add_def Let_def

theorem hub_refines_pubsub_witness:
  "set (deliver (run hub_step hub0 [Subscribe MessageNew 1, Token True, Subscribe MessageNew 2, Unsubscribe MessageNew 1])
     MessageNew) = {2}"
proof -
  let ?evs = "[Subscribe MessageNew 1, Token True, Subscribe MessageNew 2, Unsubscribe MessageNew 1]"
  have "allowed hub_guard hub_step hub0 ?evs" by (simp add: hub_eval)
  moreover have "es (run hub_step hub0 ?evs)" by (simp add: hub_eval)
  ultimately have "set (deliver (run hub_step hub0 ?evs) MessageNew) = {cb. (MessageNew, cb) \<in> foldl spec_step {} ?evs}"
    by (rule hub_refines_pubsub [THEN conjunct2]) simp
  also have "\<dots> = {2}" by auto
  finally show ?thesis .
qed

text \<open>
  A fresh connection refreshes everything once: whoever waits for messages or
  notifications is called when the stream opens, beside the subscribers of the opening.
\<close>

theorem open_refreshes_all:
  assumes "hub_reach s" "es s" "(n, cb) \<in> set (handles s)" "n \<noteq> Errored"
  shows "cb \<in> set (deliver s Opened)"
proof -
  have inv: "hub_inv s" by (rule hub.reach_inv [OF assms(1)])
  then have cb: "cb \<in> set (dispatch s n)" using assms(3) by (auto simp: hub_inv_def)
  show ?thesis
  proof (cases "n = Opened")
    case True
    then have "n \<in> set (bound s)" using cb inv assms(2)
      by (cases "map_of (listeners s) n") (auto simp: hub_inv_def dispatch_def dest!: map_of_SomeD intro: rev_image_eqI)
    then show ?thesis using True cb assms(2) by (auto simp: deliver_def)
  next
    case False
    then have "n = MessageNew \<or> n = NotificationNew" using assms(4) by (cases n) simp_all
    then show ?thesis using cb assms(2) by (auto simp: deliver_def)
  qed
qed

theorem open_refreshes_all_witness:
  "2 \<in> set (deliver (run hub_step hub0 [Subscribe MessageNew 2, Token True]) Opened)"
  by (rule open_refreshes_all [of _ MessageNew], rule run_reachable) (simp_all add: hub_eval)

text \<open>
  A screen that is left while the token is still being read leaks the connection: the
  stream is opened although nobody subscribes, and it stays open.
\<close>

theorem late_token_leaks_stream:
  "allowed hub_guard hub_step hub0 [Subscribe n cb, Unsubscribe n cb, Token True] \<and>
   (let s = run hub_step hub0 [Subscribe n cb, Unsubscribe n cb, Token True]
    in es s \<and> handles s = [] \<and> refCount s = 0)"
  by (simp add: hub_eval)

section \<open>The polling hook\<close>

record poll_options =
  intervalMs :: nat
  enabled :: bool
  events :: "rt_event list"

record poller =
  live :: bool
  armed :: "nat option" \<comment> \<open>the interval that is running\<close>
  loads :: nat
  subscribed :: "rt_event list"

definition poll0 :: poller where
  "poll0 = \<lparr>live = False, armed = None, loads = 0, subscribed = []\<rparr>"

text \<open>The effect: run on mount, and again (after its cleanup) when an option changes.\<close>

definition usePolling :: "poll_options \<Rightarrow> poller \<Rightarrow> poller" where
  "usePolling opts s =
     (if \<not> enabled opts then s\<lparr>armed := None, subscribed := []\<rparr>
      else if events opts \<noteq> [] then
        s\<lparr>loads := loads s + 1, subscribed := events opts,
          armed := Some (if live s then intervalMs opts * 3 else intervalMs opts)\<rparr>
      else s\<lparr>loads := loads s + 1, subscribed := [], armed := Some (intervalMs opts)\<rparr>)"

datatype poll_event = Rerun poll_options | Poke rt_event | Elapsed

fun poll_guard :: "poller \<Rightarrow> poll_event \<Rightarrow> bool" where
  "poll_guard s (Poke n) = (n \<in> set (subscribed s))"
| "poll_guard s Elapsed = (armed s \<noteq> None)"
| "poll_guard s (Rerun opts) = True"

fun poll_step :: "poller \<Rightarrow> poll_event \<Rightarrow> poller" where
  "poll_step s (Rerun opts) = usePolling opts s"
| "poll_step s (Poke n) = s\<lparr>live := True, loads := loads s + 1\<rparr>"
| "poll_step s Elapsed = s\<lparr>loads := loads s + 1\<rparr>"

lemma poke_run:
  "list_all (\<lambda>e. \<not> (case e of Rerun _ \<Rightarrow> True | _ \<Rightarrow> False)) evs \<Longrightarrow> armed (run poll_step s evs) = armed s \<and>
   (live s \<longrightarrow> live (run poll_step s evs)) \<and> loads (run poll_step s evs) = loads s + length evs"
proof (induction evs arbitrary: s)
  case (Cons e evs)
  then show ?case by (cases e) auto
qed simp

text \<open>
  Between two runs of its effect the hook keeps the interval it was armed with, pokes or
  not, and every poke and every tick loads: polling never stops while the stream works, and
  does not slow down either until an option changes.
\<close>

theorem polling_keeps_cadence:
  assumes "enabled opts" "list_all (\<lambda>e. \<not> (case e of Rerun _ \<Rightarrow> True | _ \<Rightarrow> False)) evs"
  shows "armed (run poll_step (usePolling opts poll0) evs) = Some (intervalMs opts) \<and>
    loads (run poll_step (usePolling opts poll0) evs) = 1 + length evs"
  using poke_run [OF assms(2), of "usePolling opts poll0"] assms(1)
  by (simp add: usePolling_def poll0_def)

theorem polling_keeps_cadence_witness:
  "armed (run poll_step (usePolling \<lparr>intervalMs = 10000, enabled = True, events = [MessageNew]\<rparr> poll0)
     [Poke MessageNew, Elapsed]) = Some 10000"
  using polling_keeps_cadence [of "\<lparr>intervalMs = 10000, enabled = True, events = [MessageNew]\<rparr>" "[Poke MessageNew, Elapsed]"]
  by simp

text \<open>After one poke every later run of the effect polls three times slower, stream or no stream.\<close>

lemma live_for_good:
  assumes "live s" "enabled opts" "events opts \<noteq> []"
  shows "live (usePolling opts s) \<and> armed (usePolling opts s) = Some (3 * intervalMs opts)"
  using assms by (simp add: usePolling_def mult.commute)

section \<open>The web hook\<close>

text \<open>When \<open>useRealtimeEvents\<close> opens a stream, and the query keys an event invalidates.\<close>

definition opens_stream :: "bool \<Rightarrow> bool \<Rightarrow> bool \<Rightarrow> bool" where
  "opens_stream isLoading signed_in has_EventSource = (\<not> isLoading \<and> signed_in \<and> has_EventSource)"

fun web_invalidates :: "rt_event \<Rightarrow> jsstring list" where
  "web_invalidates MessageNew = [''conversations'', ''messages'', ''notifications'', ''unread-count'']"
| "web_invalidates NotificationNew = [''notifications'', ''unread-count'']"
| "web_invalidates _ = []"

end
