(* ===== verification/Device.thy ===== *)
theory Device
  imports Http "HOL-Library.AList"
begin

text \<open>
  Key-value storage of a device (\<open>AsyncStorage\<close> on the phone, \<open>localStorage\<close> in the browser):
  texts by key, where reading or writing may be refused. A text is the JSON value it parses
  to, or malformed; operations of one device happen in the order they were issued. The
  helpers \<open>readCache\<close> and \<open>writeCache\<close> occur word for word in \<open>mobile/src/lib/messaging.ts\<close>
  and \<open>mobile/src/lib/notifications.ts\<close>. The locale \<open>offline_cache\<close> is the contract of a
  cache that a network-first read falls back to; its lemmas say what a screen shows without
  a network.
\<close>

text \<open>What an API client gives for a path and a request, without its effects.\<close>

type_synonym client = "jsstring \<Rightarrow> req_init \<Rightarrow> js_exn + json"

datatype stored = Malformed | Stored json

record device =
  items :: "jsstring \<Rightarrow> stored option"
  readable :: bool
  writable :: bool

definition device0 :: device where
  "device0 = \<lparr>items = (\<lambda>_. None), readable = True, writable = True\<rparr>"

text \<open>\<open>raw ? JSON.parse(raw) : null\<close> inside \<open>try\<close>: \<open>None\<close> for null and for everything that raises.\<close>

definition readCache :: "jsstring \<Rightarrow> device \<Rightarrow> json option" where
  "readCache k d =
     (if \<not> readable d then None
      else case items d k of Some (Stored v) \<Rightarrow> (if v = JNull then None else Some v) | _ \<Rightarrow> None)"

definition writeCache :: "jsstring \<Rightarrow> json \<Rightarrow> device \<Rightarrow> device" where
  "writeCache k v d = (if writable d then d\<lparr>items := (items d)(k := Some (Stored v))\<rparr> else d)"

definition removeItem :: "jsstring \<Rightarrow> device \<Rightarrow> device" where
  "removeItem k d = (if writable d then d\<lparr>items := (items d)(k := None)\<rparr> else d)"

lemma device_flags [simp]:
  "readable (writeCache k v d) = readable d" "writable (writeCache k v d) = writable d"
  "readable (removeItem k d) = readable d" "writable (removeItem k d) = writable d"
  by (simp_all add: writeCache_def removeItem_def)

lemma read_write [simp]:
  "readable d \<Longrightarrow> writable d \<Longrightarrow> readCache k (writeCache k v d) = (if v = JNull then None else Some v)"
  "k' \<noteq> k \<Longrightarrow> readCache k' (writeCache k v d) = readCache k' d"
  by (simp_all add: readCache_def writeCache_def)

lemma read_remove [simp]:
  "writable d \<Longrightarrow> readCache k (removeItem k d) = None"
  "k' \<noteq> k \<Longrightarrow> readCache k' (removeItem k d) = readCache k' d"
  by (simp_all add: readCache_def removeItem_def)

text \<open>
  A network-first read: the envelope's \<open>data\<close> (or \<open>[]\<close>) is returned and cached; when the
  call, or the access to the envelope, raises, the cached value (or \<open>[]\<close>) is returned.
\<close>

definition read_through ::
  "(jsstring \<Rightarrow> json \<Rightarrow> 's \<Rightarrow> 's) \<Rightarrow> (jsstring \<Rightarrow> 's \<Rightarrow> json option) \<Rightarrow> json \<Rightarrow> jsstring \<Rightarrow>
   js_exn + json \<Rightarrow> 's \<Rightarrow> json \<times> 's" where
  "read_through put get d k r s =
     (case r of
        Inl e \<Rightarrow> (or_default (get k s) d, s)
      | Inr j \<Rightarrow> if j = JNull then (or_default (get k s) d, s)
                 else (let v = or_default (jget j ''data'') d in (v, put k v s)))"

fun failed :: "js_exn + json \<Rightarrow> bool" where
  "failed (Inl e) = True"
| "failed (Inr j) = (j = JNull)"

locale offline_cache =
  fixes put :: "jsstring \<Rightarrow> json \<Rightarrow> 's \<Rightarrow> 's"
    and get :: "jsstring \<Rightarrow> 's \<Rightarrow> json option"
    and works :: "'s \<Rightarrow> bool"
  assumes get_put: "works s \<Longrightarrow> v \<noteq> JNull \<Longrightarrow> get k (put k v s) = Some v"
    and get_other: "k' \<noteq> k \<Longrightarrow> get k' (put k v s) = get k' s"
    and works_put: "works (put k v s) = works s"
begin

abbreviation reads :: "json \<Rightarrow> jsstring \<Rightarrow> js_exn + json \<Rightarrow> 's \<Rightarrow> json \<times> 's" where
  "reads \<equiv> read_through put get"

lemma works_reads: "works (snd (reads d k r s)) = works s"
  by (cases r) (simp_all add: read_through_def works_put Let_def)

lemma reads_other: "k' \<noteq> k \<Longrightarrow> get k' (snd (reads d k r s)) = get k' s"
  by (cases r) (simp_all add: read_through_def get_other Let_def)

lemma offline_value: "failed r \<Longrightarrow> reads d k r s = (or_default (get k s) d, s)"
  by (cases r) (simp_all add: read_through_def)

lemma online_value: "j \<noteq> JNull \<Longrightarrow> fst (reads d k (Inr j) s) = or_default (jget j ''data'') d"
  by (simp add: read_through_def Let_def)

text \<open>What was fetched last is what is shown when the next read fails.\<close>

lemma offline_replays:
  assumes "works s" "d \<noteq> JNull" "failed r"
  shows "fst (reads d k r (snd (reads d k (Inr j) s))) = fst (reads d k (Inr j) s)"
proof (cases "j = JNull")
  case False
  let ?v = "or_default (jget j ''data'') d"
  have v: "?v \<noteq> JNull"
    using assms(2) by (cases "jget j ''data''") (auto simp: or_default_def nullish_def)
  have "reads d k (Inr j) s = (?v, put k ?v s)" using False by (simp add: read_through_def Let_def)
  moreover have "or_default (Some ?v) d = ?v" using v by (subst or_default_def) (simp add: nullish_def)
  ultimately show ?thesis using get_put [OF assms(1) v] by (simp add: offline_value [OF assms(3)])
qed (use assms in \<open>simp add: offline_value\<close>)

end

abbreviation storage_works :: "device \<Rightarrow> bool" where
  "storage_works d \<equiv> readable d \<and> writable d"

interpretation plain_cache: offline_cache writeCache readCache storage_works
  by unfold_locales auto

end
