(* ===== verification/Messaging.thy ===== *)
theory Messaging
  imports Device Machine
begin

text \<open>
  Messages on the phone: \<open>mobile/src/lib/messaging.ts\<close> (conversations and threads, cached on
  the device, with sent messages put in front of the cached thread) and the thread screen
  \<open>mobile/app/messages/[conversationId].tsx\<close> with its optimistic send. The client is a
  parameter that answers a path and a request. The cache is shown to refine a map from
  conversations to threads; the last section follows a send that fails.
\<close>

section \<open>The cached client\<close>

definition CONV_KEY :: jsstring where "CONV_KEY = ''msg:conversations''"

definition msgKey :: "jsstring \<Rightarrow> jsstring" where "msgKey ident = ''msg:thread:'' @ ident"

lemma msgKey_simps [simp]: "msgKey a = msgKey b \<longleftrightarrow> a = b" "msgKey a \<noteq> CONV_KEY" "CONV_KEY \<noteq> msgKey a"
  by (simp_all add: msgKey_def CONV_KEY_def)

definition getConversations :: "client \<Rightarrow> device \<Rightarrow> json \<times> device" where
  "getConversations call d =
     read_through writeCache readCache (JArr []) CONV_KEY (call ''/me/conversations'' get_init) d"

definition messages_path :: "jsstring \<Rightarrow> jsstring" where
  "messages_path conversationId = ''/me/conversations/'' @ conversationId @ ''/messages''"

definition getMessages :: "client \<Rightarrow> jsstring \<Rightarrow> device \<Rightarrow> json \<times> device" where
  "getMessages call conversationId d =
     read_through writeCache readCache (JArr []) (msgKey conversationId)
       (call (messages_path conversationId) get_init) d"

text \<open>
  \<open>[msg, ...existing]\<close>: a cached thread is what \<open>getMessages\<close> or this function wrote, an
  array; spreading anything else raises, and a missing message is written as \<open>null\<close>.
\<close>

definition sendMessage :: "client \<Rightarrow> jsstring \<Rightarrow> jsstring \<Rightarrow> device \<Rightarrow> json option \<times> device" where
  "sendMessage call conversationId text d =
     (case call (messages_path conversationId) (send_init ''POST'' (JsonText (JObj [(''body'', JStr text)]))) of
        Inl e \<Rightarrow> (Some JNull, d)
      | Inr j \<Rightarrow>
          if j = JNull then (Some JNull, d)
          else (let msg = jget j ''data'' in
                case readCache (msgKey conversationId) d of
                  Some (JArr existing) \<Rightarrow>
                    (msg, writeCache (msgKey conversationId) (JArr (or_default msg JNull # existing)) d)
                | Some v \<Rightarrow> (if truthy v then (Some JNull, d) else (msg, d))
                | None \<Rightarrow> (msg, d)))"

section \<open>The cache refines a map of threads\<close>

datatype thread_op =
    Inbox "js_exn + json"
  | Fetch jsstring "js_exn + json"
  | Post jsstring jsstring "js_exn + json"

text \<open>A client that gives one answer.\<close>

definition answers :: "js_exn + json \<Rightarrow> client" where
  "answers r = (\<lambda>_ _. r)"

fun thread_step :: "device \<Rightarrow> thread_op \<Rightarrow> device" where
  "thread_step d (Inbox r) = snd (getConversations (answers r) d)"
| "thread_step d (Fetch i r) = snd (getMessages (answers r) i d)"
| "thread_step d (Post i t r) = snd (sendMessage (answers r) i t d)"

text \<open>The specification: the thread last fetched with the messages sent since in front.\<close>

fun thread_of :: "js_exn + json \<Rightarrow> json list option" where
  "thread_of (Inl e) = None"
| "thread_of (Inr j) = (if j = JNull then None else
     (case or_default (jget j ''data'') (JArr []) of JArr xs \<Rightarrow> Some xs | _ \<Rightarrow> None))"

fun spec_op :: "(jsstring \<Rightarrow> json list option) \<Rightarrow> thread_op \<Rightarrow> (jsstring \<Rightarrow> json list option)" where
  "spec_op m (Inbox r) = m"
| "spec_op m (Fetch i r) = (case thread_of r of None \<Rightarrow> m | Some xs \<Rightarrow> m(i := Some xs))"
| "spec_op m (Post i t r) =
     (if failed r then m
      else m(i := map_option (\<lambda>xs. or_default (jget (projr r) ''data'') JNull # xs) (m i)))"

text \<open>The server's \<open>data\<close> for a thread is an array, or missing.\<close>

fun well_typed :: "thread_op \<Rightarrow> bool" where
  "well_typed (Fetch i r) = (failed r \<or> thread_of r \<noteq> None)"
| "well_typed _ = True"

definition thread_abs :: "(jsstring \<Rightarrow> json list option) \<Rightarrow> device \<Rightarrow> bool" where
  "thread_abs m d = (storage_works d \<and> (\<forall>i. readCache (msgKey i) d = map_option JArr (m i)))"

lemma failed_thread: "failed r \<Longrightarrow> thread_of r = None"
  by (cases r) simp_all

lemma fetched_thread:
  assumes "thread_of r = Some xs"
  shows "read_through writeCache readCache (JArr []) k r d = (JArr xs, writeCache k (JArr xs) d)"
proof -
  obtain j where r: "r = Inr j" "j \<noteq> JNull" using assms by (cases r) (auto split: if_splits)
  with assms have "or_default (jget j ''data'') (JArr []) = JArr xs" by (auto split: json.splits)
  with r show ?thesis by (simp add: read_through_def Let_def)
qed

lemma thread_abs_step:
  assumes "thread_abs m d" "well_typed e"
  shows "thread_abs (spec_op m e) (thread_step d e)"
proof (cases e)
  case (Inbox r)
  then show ?thesis using assms plain_cache.reads_other [of "msgKey _" CONV_KEY] plain_cache.works_reads
    by (simp add: thread_abs_def getConversations_def)
next
  case (Fetch i r)
  show ?thesis
  proof (cases "failed r")
    case True
    then show ?thesis using assms Fetch
      by (simp add: getMessages_def answers_def plain_cache.offline_value failed_thread)
  next
    case False
    then obtain xs where "thread_of r = Some xs" using assms(2) Fetch by auto
    then show ?thesis using assms Fetch by (auto simp: thread_abs_def getMessages_def answers_def fetched_thread)
  qed
next
  case (Post i t r)
  show ?thesis
  proof (cases "failed r")
    case True
    then show ?thesis using assms Post by (cases r) (simp_all add: sendMessage_def answers_def)
  next
    case False
    then obtain j where r: "r = Inr j" "j \<noteq> JNull" by (cases r) auto
    then show ?thesis using assms Post
      by (cases "m i") (auto simp: thread_abs_def sendMessage_def answers_def Let_def)
  qed
qed

lemma thread_abs_run:
  "thread_abs m d \<Longrightarrow> list_all well_typed ops \<Longrightarrow> thread_abs (foldl spec_op m ops) (foldl thread_step d ops)"
  by (induction ops arbitrary: m d) (simp_all add: thread_abs_step)

text \<open>
  C7. The device's cache refines the map of threads: after any sequence of inbox reads, thread
  reads and sends, answered or failed, a thread that is opened without a network shows the
  messages last fetched for it with the messages sent since in front, and no other thread's.
\<close>

theorem offline_thread:
  assumes "list_all well_typed ops" "failed (call (messages_path ident) get_init)"
  shows "getMessages call ident (foldl thread_step device0 ops) =
    (JArr (case foldl spec_op (\<lambda>_. None) ops ident of None \<Rightarrow> [] | Some xs \<Rightarrow> xs), foldl thread_step device0 ops)"
proof -
  have "thread_abs (\<lambda>_. None) device0" by (simp add: thread_abs_def device0_def readCache_def)
  from thread_abs_run [OF this assms(1)] assms(2) show ?thesis
    by (auto simp: thread_abs_def getMessages_def plain_cache.offline_value split: option.splits)
qed

definition offline :: client where
  "offline = (\<lambda>_ _. Inl \<lparr>ex_class = TypeExn, ex_name = ''TypeError'', ex_message = ''Network request failed''\<rparr>)"

theorem offline_thread_witness:
  "fst (getMessages offline ''c1'' (foldl thread_step device0
     [Fetch ''c1'' (Inr (JObj [(''data'', JArr [JStr ''old''])])), Post ''c1'' ''hi'' (Inr (JObj [(''data'', JStr ''new'')])),
      Fetch ''c2'' (Inr (JObj [(''data'', JArr [])]))])) = JArr [JStr ''new'', JStr ''old'']"
  by (subst offline_thread) (simp_all add: offline_def)

section \<open>The thread screen\<close>

record thread_screen =
  messages :: "json list"
  myId :: "json"
  draft :: jsstring
  sending :: bool
  outgoing :: jsstring \<comment> \<open>the \<open>body\<close> of the send in flight\<close>

definition arr :: "json \<Rightarrow> json list" where
  "arr j = (case j of JArr xs \<Rightarrow> xs | _ \<Rightarrow> [])"

text \<open>\<open>load\<close>: the user and the thread; a user call that fails counts as nobody.\<close>

definition thread_load :: "client \<Rightarrow> jsstring \<Rightarrow> thread_screen \<Rightarrow> device \<Rightarrow> thread_screen \<times> device" where
  "thread_load call cid s d =
     (let (msgs, d') = getMessages call cid d in
      case call ''/auth/me'' get_init of
        Inl e \<Rightarrow> (s\<lparr>myId := JNull, messages := arr msgs\<rparr>, d')
      | Inr j \<Rightarrow>
          if j = JNull then (s, d')
          else (s\<lparr>myId := or_default (Option.bind (jget j ''data'') (\<lambda>u. jget u ''id'')) JNull, messages := arr msgs\<rparr>, d'))"

definition temp_message :: "jsstring \<Rightarrow> int \<Rightarrow> jsstring \<Rightarrow> thread_screen \<Rightarrow> jsstring \<Rightarrow> json" where
  "temp_message cid now stamp s text =
     JObj [(''id'', JStr (''temp-'' @ show_int now)), (''conversation_id'', JStr cid),
       (''sender_user_id'', if myId s = JNull then JStr [] else myId s), (''type'', JStr ''text''), (''body'', JStr text),
       (''metadata'', JNull), (''is_edited'', JBool False), (''created_at'', JStr stamp), (''updated_at'', JStr stamp)]"

text \<open>\<open>send\<close> up to its first \<open>await\<close>, and from there on; neither awaited call can raise.\<close>

definition send_start :: "jsstring \<Rightarrow> int \<Rightarrow> jsstring \<Rightarrow> thread_screen \<Rightarrow> thread_screen" where
  "send_start cid now stamp s =
     (let text = trim (draft s) in
      if text = [] \<or> sending s then s
      else s\<lparr>sending := True, messages := temp_message cid now stamp s text # messages s, draft := [], outgoing := text\<rparr>)"

definition send_rest :: "client \<Rightarrow> client \<Rightarrow> jsstring \<Rightarrow> thread_screen \<Rightarrow> device \<Rightarrow> thread_screen \<times> device" where
  "send_rest call call' cid s d =
     (let d1 = snd (sendMessage call cid (outgoing s) d);
          (s1, d2) = thread_load call' cid s d1
      in (s1\<lparr>sending := False\<rparr>, d2))"

text \<open>
  A message that could not be sent is lost: the composer stays empty, and the thread shows
  what it would have shown had nothing been written. Nothing on the screen or on the device
  keeps the text.
\<close>

theorem failed_send_loses_text:
  assumes "trim (draft s) \<noteq> []" "\<not> sending s"
    and "failed (call (messages_path cid) (send_init ''POST'' (JsonText (JObj [(''body'', JStr (trim (draft s)))]))))"
    and "call' ''/auth/me'' get_init \<noteq> Inr JNull"
  shows "draft (fst (send_rest call call' cid (send_start cid now stamp s) d)) = [] \<and>
    messages (fst (send_rest call call' cid (send_start cid now stamp s) d)) = arr (fst (getMessages call' cid d)) \<and>
    snd (send_rest call call' cid (send_start cid now stamp s) d) = snd (getMessages call' cid d)"
proof -
  have "snd (sendMessage call cid (trim (draft s)) d) = d"
    using assms(3) by (cases "call (messages_path cid) (send_init ''POST'' (JsonText (JObj [(''body'', JStr (trim (draft s)))])))")
      (auto simp: sendMessage_def)
  then show ?thesis using assms
    by (auto simp: send_rest_def send_start_def thread_load_def Let_def split: prod.splits sum.splits)
qed

text \<open>
  A message the server took is in front of a cached thread even when the screen cannot
  read the thread again.
\<close>

theorem sent_message_stays_visible:
  assumes "storage_works d" "readCache (msgKey cid) d = Some (JArr xs)"
    and "trim (draft s) \<noteq> []" "\<not> sending s"
    and "call (messages_path cid) (send_init ''POST'' (JsonText (JObj [(''body'', JStr (trim (draft s)))]))) =
      Inr (JObj [(''data'', msg)])"
    and "failed (call' (messages_path cid) get_init)" "call' ''/auth/me'' get_init \<noteq> Inr JNull"
  shows "messages (fst (send_rest call call' cid (send_start cid now stamp s) d)) = msg # xs"
proof -
  have "or_default (Some msg) JNull = msg" by (cases msg) simp_all
  then show ?thesis using assms
    by (auto simp: send_rest_def send_start_def thread_load_def sendMessage_def getMessages_def Let_def arr_def
        plain_cache.offline_value split: prod.splits sum.splits)
qed

definition composing :: "jsstring \<Rightarrow> thread_screen" where
  "composing t = \<lparr>messages = [], myId = JNull, draft = t, sending = False, outgoing = []\<rparr>"

theorem failed_send_loses_text_witness:
  "draft (fst (send_rest offline offline ''c1'' (send_start ''c1'' 0 ''now'' (composing ''hello'')) device0)) = []"
  using failed_send_loses_text [of "composing ''hello''" offline "''c1''" offline 0 "''now''" device0]
  by (simp add: offline_def composing_def trim_def is_space_def)

theorem sent_message_stays_visible_witness:
  "messages (fst (send_rest (\<lambda>_ _. Inr (JObj [(''data'', JStr ''hello'')])) offline ''c1''
     (send_start ''c1'' 0 ''now'' (composing ''hello'')) (writeCache (msgKey ''c1'') (JArr []) device0))) = [JStr ''hello'']"
  by (rule sent_message_stays_visible)
    (simp_all add: offline_def composing_def trim_def is_space_def device0_def)

end
