(* ===== verification/Notifications.thy ===== *)
theory Notifications
  imports Device "HOL-Library.Multiset"
begin

text \<open>
  Notifications on the phone: \<open>mobile/src/lib/notifications.ts\<close> (list and unread count, cached
  on the device), the inbox screen \<open>mobile/app/notifications.tsx\<close> (marking as read, order),
  and \<open>mobile/src/lib/deeplink.ts\<close> (from a notification's data to a screen). The lemmas show
  what marking does to the cached list, the order of the inbox and where a tap can lead.
\<close>

section \<open>The cached client\<close>

definition KEY :: jsstring where "KEY = ''notif:list''"
definition UNREAD_KEY :: jsstring where "UNREAD_KEY = ''notif:unread''"

lemma keys_differ [simp]: "KEY \<noteq> UNREAD_KEY" "UNREAD_KEY \<noteq> KEY"
  by (simp_all add: KEY_def UNREAD_KEY_def)

definition getNotifications :: "client \<Rightarrow> device \<Rightarrow> json \<times> device" where
  "getNotifications call d =
     read_through writeCache readCache (JArr []) KEY (call ''/me/notifications'' get_init) d"

definition getUnreadCount :: "client \<Rightarrow> device \<Rightarrow> json \<times> device" where
  "getUnreadCount call d =
     (case call ''/me/notifications/unread-count'' get_init of
        Inl e \<Rightarrow> (or_default (readCache UNREAD_KEY d) (JNum 0), d)
      | Inr j \<Rightarrow>
          if j = JNull then (or_default (readCache UNREAD_KEY d) (JNum 0), d)
          else (let n = or_default (Option.bind (jget j ''data'') (\<lambda>x. jget x ''unread'')) (JNum 0)
                in (n, writeCache UNREAD_KEY n d)))"

text \<open>\<open>{ ...n, is_read: true }\<close>; a key that exists keeps its place.\<close>

definition set_read :: "json \<Rightarrow> json" where
  "set_read n = (case n of JObj kvs \<Rightarrow> JObj (AList.update ''is_read'' (JBool True) kvs)
     | _ \<Rightarrow> JObj [(''is_read'', JBool True)])"

text \<open>The callback of \<open>list.map\<close> raises on a \<open>null\<close> entry, and then nothing is written.\<close>

definition mark_one :: "jsstring \<Rightarrow> json list \<Rightarrow> json list option" where
  "mark_one ident xs = (if JNull \<in> set xs then None
     else Some (map (\<lambda>n. if jget n ''id'' = Some (JStr ident) then set_read n else n) xs))"

definition post_path :: "jsstring \<Rightarrow> jsstring" where
  "post_path ident = ''/me/notifications/'' @ ident @ ''/read''"

definition markNotificationRead :: "client \<Rightarrow> jsstring \<Rightarrow> device \<Rightarrow> device" where
  "markNotificationRead call ident d =
     (case call (post_path ident) (send_init ''POST'' NoBody) of
        Inl e \<Rightarrow> d
      | Inr j \<Rightarrow> (case readCache KEY d of
            Some (JArr xs) \<Rightarrow> (case mark_one ident xs of None \<Rightarrow> d | Some ys \<Rightarrow> writeCache KEY (JArr ys) d)
          | _ \<Rightarrow> d))"

definition markAllNotificationsRead :: "client \<Rightarrow> device \<Rightarrow> device" where
  "markAllNotificationsRead call d =
     (case call ''/me/notifications/read-all'' (send_init ''POST'' NoBody) of
        Inl e \<Rightarrow> d
      | Inr j \<Rightarrow> (case readCache KEY d of
            Some (JArr xs) \<Rightarrow> writeCache KEY (JArr (map set_read xs)) d
          | _ \<Rightarrow> d))"

definition is_read :: "json \<Rightarrow> bool" where
  "is_read n = (case jget n ''is_read'' of Some v \<Rightarrow> truthy v | None \<Rightarrow> False)"

lemma set_read_is_read [simp]: "is_read (set_read n)"
  by (cases n) (simp_all add: is_read_def set_read_def update_conv')

text \<open>
  After the server has marked one notification as read, an inbox opened offline shows the
  cached list with exactly that notification changed: it is read, the others keep their
  state, and none is added, lost or moved.
\<close>

theorem marked_offline:
  assumes "storage_works d" "readCache KEY d = Some (JArr xs)" "JNull \<notin> set xs"
    and "call (post_path ident) (send_init ''POST'' NoBody) = Inr j" "failed (call' ''/me/notifications'' get_init)"
  shows "\<exists>ys. fst (getNotifications call' (markNotificationRead call ident d)) = JArr ys \<and>
    list_all2 (\<lambda>y x. jget y ''id'' = jget x ''id'' \<and>
      (if jget x ''id'' = Some (JStr ident) then is_read y else y = x)) ys xs"
proof -
  let ?ys = "map (\<lambda>n. if jget n ''id'' = Some (JStr ident) then set_read n else n) xs"
  have "jget (set_read n) ''id'' = jget n ''id''" if "jget n ''id'' = Some v" for n v
    using that by (cases n) (simp_all add: set_read_def update_conv')
  then have "list_all2 (\<lambda>y x. jget y ''id'' = jget x ''id'' \<and>
      (if jget x ''id'' = Some (JStr ident) then is_read y else y = x)) ?ys xs"
    by (auto simp: list_all2_map1 intro: list_all2_refl)
  with assms show ?thesis
    by (auto simp: getNotifications_def markNotificationRead_def mark_one_def plain_cache.offline_value)
qed

text \<open>
  Marking everything as read leaves the cached count alone: offline the inbox shows no
  unread notification while the badge still shows the old number.
\<close>

theorem badge_stale_after_read_all:
  assumes "storage_works d" "readCache KEY d = Some (JArr xs)" "readCache UNREAD_KEY d = Some (JNum n)"
    and "call ''/me/notifications/read-all'' (send_init ''POST'' NoBody) = Inr j"
    and "failed (call' ''/me/notifications'' get_init)" "failed (call' ''/me/notifications/unread-count'' get_init)"
  shows "\<exists>ys. fst (getNotifications call' (markAllNotificationsRead call d)) = JArr ys \<and> list_all is_read ys \<and>
    fst (getUnreadCount call' (markAllNotificationsRead call d)) = JNum n"
proof -
  have "fst (getUnreadCount call' e) = or_default (readCache UNREAD_KEY e) (JNum 0)" for e
    using assms(6) by (cases "call' ''/me/notifications/unread-count'' get_init") (simp_all add: getUnreadCount_def)
  with assms show ?thesis
    by (simp add: getNotifications_def markAllNotificationsRead_def plain_cache.offline_value list_all_iff)
qed

section \<open>The inbox\<close>

text \<open>
  \<open>time\<close> is \<open>new Date(...).getTime()\<close> of \<open>created_at\<close>, a valid date. The comparison of the
  source orders by the read flag first and by the later date within.
\<close>

definition before :: "(json \<Rightarrow> int) \<Rightarrow> json \<Rightarrow> json \<Rightarrow> bool" where
  "before time a b = (if is_read a \<noteq> is_read b then is_read b else time a > time b)"

definition ordered :: "(json \<Rightarrow> int) \<Rightarrow> json list \<Rightarrow> json list" where
  "ordered time ns = sort_key is_read (rev (sort_key time (rev ns)))"

definition unread_of :: "json list \<Rightarrow> nat" where
  "unread_of ns = length (filter (\<lambda>n. \<not> is_read n) ns)"

definition subtitle :: "json list \<Rightarrow> jsstring" where
  "subtitle ns = (if unread_of ns > 0 then ''You have '' @ show_nat (unread_of ns) @ '' unread'' else ''You're all caught up'')"

text \<open>What a tap and the button do to the list on the screen, whatever the server answered.\<close>

definition mark_shown :: "jsstring \<Rightarrow> json list \<Rightarrow> json list" where
  "mark_shown ident ns = map (\<lambda>x. if jget x ''id'' = Some (JStr ident) then set_read x else x) ns"

definition all_shown :: "json list \<Rightarrow> json list" where
  "all_shown ns = map set_read ns"

lemma sorted_rev_key: "sorted_wrt (\<lambda>a b. f b \<le> f a) (rev (sort_key f xs))" for f :: "json \<Rightarrow> int"
  using sorted_sort_key [of f xs] by (simp add: sorted_wrt_rev sorted_map)

lemma sorted_filter_blocks:
  assumes "sorted_wrt R xs"
  shows "sorted_wrt (\<lambda>a b. (P a \<longrightarrow> P b) \<and> (P a = P b \<longrightarrow> R a b)) (filter (\<lambda>x. \<not> P x) xs @ filter P xs)"
proof -
  have block: "sorted_wrt (\<lambda>a b. (P a \<longrightarrow> P b) \<and> (P a = P b \<longrightarrow> R a b)) (filter Q xs)"
    if "\<And>a b. Q a \<Longrightarrow> Q b \<Longrightarrow> P a = P b" for Q
    using sorted_wrt_filter [OF assms, of Q] by (rule sorted_wrt_mono_rel [rotated]) (use that in auto)
  show ?thesis using block [of "\<lambda>x. \<not> P x"] block [of P] by (simp add: sorted_wrt_append)
qed

lemma sort_key_bool: "sort_key P xs = filter (\<lambda>x. \<not> P x) xs @ filter P xs"
proof (induction xs)
  case (Cons x xs)
  have "insort_key P x (filter (\<lambda>x. \<not> P x) xs @ filter P xs) =
      (if P x then filter (\<lambda>x. \<not> P x) xs @ x # filter P xs else x # filter (\<lambda>x. \<not> P x) xs @ filter P xs)"
  proof (cases "P x")
    case True
    have "insort_key P x (as @ bs) = as @ insort_key P x bs" if "\<forall>a \<in> set as. \<not> P a" for as bs
      using that True by (induction as) auto
    moreover have "insort_key P x bs = x # bs" if "\<forall>b \<in> set bs. P b" for bs
      using that True by (cases bs) auto
    ultimately show ?thesis using True by simp
  next
    case False
    then show ?thesis by (cases "filter (\<lambda>x. \<not> P x) xs @ filter P xs") auto
  qed
  with Cons show ?case by simp
qed simp

text \<open>
  C23. The inbox shows every notification once, the unread ones first and the latest first
  within each part; the number in its heading is the length of the first part.
\<close>

theorem inbox_order:
  "mset (ordered time ns) = mset ns \<and>
   sorted_wrt (\<lambda>a b. \<not> before time b a) (ordered time ns) \<and>
   list_all (\<lambda>n. \<not> is_read n) (take (unread_of ns) (ordered time ns)) \<and>
   list_all is_read (drop (unread_of ns) (ordered time ns))"
proof -
  let ?ts = "rev (sort_key time (rev ns))"
  have split: "ordered time ns = filter (\<lambda>n. \<not> is_read n) ?ts @ filter is_read ?ts"
    by (simp add: ordered_def sort_key_bool)
  have "mset (filter (\<lambda>n. \<not> is_read n) ?ts) = mset (filter (\<lambda>n. \<not> is_read n) ns)" by simp
  then have len: "length (filter (\<lambda>n. \<not> is_read n) ?ts) = unread_of ns"
    unfolding unread_of_def by (rule mset_eq_length)
  have "sorted_wrt (\<lambda>a b. \<not> before time b a) (ordered time ns)"
    using sorted_filter_blocks [OF sorted_rev_key, of is_read time "rev ns"]
    unfolding split by (rule sorted_wrt_mono_rel [rotated]) (auto simp: before_def)
  moreover have "mset (ordered time ns) = mset ns" by (simp add: ordered_def)
  ultimately show ?thesis using len by (simp add: split list_all_iff)
qed

section \<open>Where a tap leads\<close>

text \<open>A notification's \<open>data\<close>: nothing, an object, or a text.\<close>

datatype tap_data = NoData | Object json | DataText stored

definition parseTarget :: "tap_data \<Rightarrow> json" where
  "parseTarget data = (case data of NoData \<Rightarrow> JObj [] | Object j \<Rightarrow> j
     | DataText Malformed \<Rightarrow> JObj [] | DataText (Stored j) \<Rightarrow> j)"

definition fld :: "json \<Rightarrow> jsstring \<Rightarrow> json option" where
  "fld t k = (case jget t k of Some v \<Rightarrow> if truthy v then Some v else None | None \<Rightarrow> None)"

definition or_fld :: "json option \<Rightarrow> json option \<Rightarrow> json option" where
  "or_fld a b = (case a of None \<Rightarrow> b | Some v \<Rightarrow> Some v)"

definition link :: "jsstring \<Rightarrow> json option \<Rightarrow> jsstring \<Rightarrow> jsstring" where
  "link p v d = (case v of None \<Rightarrow> d | Some x \<Rightarrow> p @ to_str x)"

definition routeForTarget :: "json \<Rightarrow> js_exn + jsstring option" where
  "routeForTarget t =
     (if t = JNull then Inl null_deref
      else Inr (case fld t ''screen'' of
        Some sc \<Rightarrow> Some (
          if sc = JStr ''conversation'' then link ''/messages/'' (or_fld (fld t ''conversation_id'') (fld t ''id'')) ''/messages''
          else if sc = JStr ''course'' \<or> sc = JStr ''cohort'' then link ''/lms/'' (fld t ''cohort_id'') ''/lms''
          else if sc = JStr ''lesson'' then ''/my-lessons''
          else if sc = JStr ''receipt'' then link ''/orders/'' (fld t ''id'') ''/payments''
          else if sc = JStr ''inbox'' then ''/messages''
          else ''/notifications'')
      | None \<Rightarrow>
          (case fld t ''conversation_id'' of Some v \<Rightarrow> Some (''/messages/'' @ to_str v)
           | None \<Rightarrow> (case fld t ''cohort_id'' of Some v \<Rightarrow> Some (''/lms/'' @ to_str v)
           | None \<Rightarrow> (case fld t ''id'' of Some v \<Rightarrow> Some (''/orders/'' @ to_str v) | None \<Rightarrow> None)))))"

definition openNotification :: "tap_data \<Rightarrow> js_exn + jsstring option" where
  "openNotification data = routeForTarget (parseTarget data)"

text \<open>
  Whatever a notification carries, a tap opens one of the six areas of the app or nothing;
  it raises exactly on the text \<open>null\<close> (or a \<open>null\<close> object).
\<close>

theorem tap_stays_in_app:
  "(case openNotification data of
      Inl e \<Rightarrow> data = DataText (Stored JNull) \<or> data = Object JNull
    | Inr None \<Rightarrow> True
    | Inr (Some r) \<Rightarrow> list_ex (starts_with r) [''/messages'', ''/lms'', ''/my-lessons'', ''/orders/'', ''/payments'', ''/notifications''])"
proof -
  have pre: "prefix p (p @ q)" for p q :: jsstring by simp
  have "link ''/messages/'' v ''/messages'' = ''/messages'' \<or> (\<exists>q. link ''/messages/'' v ''/messages'' = ''/messages'' @ q)"
    "link ''/lms/'' v ''/lms'' = ''/lms'' \<or> (\<exists>q. link ''/lms/'' v ''/lms'' = ''/lms'' @ q)"
    "link ''/orders/'' v ''/payments'' = ''/payments'' \<or> (\<exists>q. link ''/orders/'' v ''/payments'' = ''/orders/'' @ q)" for v
    by (auto simp: link_def split: option.splits)
  then show ?thesis
    by (cases "parseTarget data = JNull")
      (auto simp: openNotification_def routeForTarget_def parseTarget_def link_def split: option.splits tap_data.splits stored.splits)
qed

theorem marked_offline_witness:
  "\<exists>ys. fst (getNotifications (\<lambda>_ _. Inl null_deref) (markNotificationRead (\<lambda>_ _. Inr (JObj [])) ''n1''
     (writeCache KEY (JArr [JObj [(''id'', JStr ''n1'')], JObj [(''id'', JStr ''n2'')]]) device0))) = JArr ys"
  using marked_offline [of "writeCache KEY (JArr [JObj [(''id'', JStr ''n1'')], JObj [(''id'', JStr ''n2'')]]) device0"
      "[JObj [(''id'', JStr ''n1'')], JObj [(''id'', JStr ''n2'')]]" "\<lambda>_ _. Inr (JObj [])" "''n1''" "JObj []"
      "\<lambda>_ _. Inl null_deref"]
  by (auto simp: device0_def)

theorem badge_stale_after_read_all_witness:
  "fst (getUnreadCount (\<lambda>_ _. Inl null_deref) (markAllNotificationsRead (\<lambda>_ _. Inr (JObj []))
     (writeCache UNREAD_KEY (JNum 3) (writeCache KEY (JArr []) device0)))) = JNum 3"
  using badge_stale_after_read_all [of "writeCache UNREAD_KEY (JNum 3) (writeCache KEY (JArr []) device0)" "[]" 3
      "\<lambda>_ _. Inr (JObj [])" "JObj []" "\<lambda>_ _. Inl null_deref"]
  by (auto simp: device0_def)

end
