(* ===== verification/Endpoints.thy ===== *)
theory Endpoints
  imports Http
begin

text \<open>
  What the endpoint functions of \<open>client/features\<close> and \<open>mobile/src/lib\<close> share: query strings
  as \<open>URLSearchParams\<close> prints them, optional and defaulted parameters, the shapes that are
  made of an envelope, and the facts about requests that the two clients inherit from the
  contract \<open>api_client\<close>. A request body that the caller builds is a JSON parameter.
\<close>

section \<open>Query strings\<close>

text \<open>The serialiser keeps letters, digits and \<open>* - . _\<close>, and writes a blank as \<open>+\<close>.\<close>

definition form_keep :: "char \<Rightarrow> bool" where
  "form_keep c = (alnum c \<or> c \<in> {CHR ''*'', CHR ''-'', CHR ''.'', CHR ''_''})"

definition form_encode :: "jsstring \<Rightarrow> jsstring" where
  "form_encode s = concat (map (\<lambda>c. if c = CHR '' '' then ''+'' else if form_keep c then [c] else pct c) s)"

definition qs_text :: "(jsstring \<times> jsstring) list \<Rightarrow> jsstring" where
  "qs_text ps = join ''&'' (map (\<lambda>(k, v). form_encode k @ ''='' @ form_encode v) ps)"

text \<open>The optional field \<open>text || undefined\<close> of a body.\<close>

definition when_filled :: "jsstring \<Rightarrow> json option" where
  "when_filled v = (if v \<noteq> [] then Some (JStr v) else None)"

text \<open>How a server reads such a text back (\<open>application/x-www-form-urlencoded\<close>).\<close>

fun form_decode :: "jsstring \<Rightarrow> jsstring" where
  "form_decode [] = []"
| "form_decode (c # s) =
     (if c = CHR ''+'' then CHR '' '' # form_decode s
      else if c = CHR ''%'' then
        (case s of
           h # l # t \<Rightarrow> (case (hex_val h, hex_val l) of
               (Some a, Some b) \<Rightarrow> char_of (16 * a + b) # form_decode t
             | _ \<Rightarrow> c # form_decode s)
         | _ \<Rightarrow> c # form_decode s)
      else c # form_decode s)"

definition parse_pair :: "jsstring \<Rightarrow> jsstring \<times> jsstring" where
  "parse_pair p = (case split_on (CHR ''='') p of
     [] \<Rightarrow> ([], []) | k # vs \<Rightarrow> (form_decode k, form_decode (join ''='' vs)))"

definition parse_qs :: "jsstring \<Rightarrow> (jsstring \<times> jsstring) list" where
  "parse_qs s = map parse_pair (filter (\<lambda>p. p \<noteq> []) (split_on (CHR ''&'') s))"

lemma form_encode_simps [simp]:
  "form_encode [] = []"
  "form_encode (c # s) =
     (if c = CHR '' '' then ''+'' else if form_keep c then [c] else pct c) @ form_encode s"
  by (simp_all add: form_encode_def)

lemma form_decode_pct: "form_decode (pct c @ s) = c # form_decode s"
  by (simp add: pct_def Let_def hex_val_digit of_char_div16 of_char_mod_256)

lemma form_keep_not: "form_keep c \<Longrightarrow> c \<notin> {CHR ''+'', CHR ''%'', CHR ''&'', CHR ''=''}"
  by (auto simp: form_keep_def alnum_def)

lemma form_decode_encode [simp]: "form_decode (form_encode s) = s"
proof (induction s)
  case (Cons c s)
  then show ?case using form_keep_not [of c] by (simp add: form_decode_pct)
qed simp

lemma form_encode_free:
  assumes "c \<in> {CHR ''&'', CHR ''=''}"
  shows "c \<notin> set (form_encode s)"
proof (induction s)
  case (Cons d s)
  moreover have "c \<notin> set (pct d)" using assms by (intro pct_free) auto
  ultimately show ?case using assms form_keep_not [of d] by auto
qed simp

lemma parse_pair_print: "parse_pair (form_encode k @ ''='' @ form_encode v) = (k, v)"
proof -
  have "CHR ''='' \<notin> set (form_encode k)" "CHR ''='' \<notin> set (form_encode v)"
    by (auto dest: form_encode_free [THEN notE, rotated])
  then have "split_on (CHR ''='') (form_encode k @ CHR ''='' # form_encode v) = [form_encode k, form_encode v]"
    by (simp add: split_on_append split_on_free)
  then show ?thesis by (simp add: parse_pair_def)
qed

text \<open>A query string that \<open>URLSearchParams\<close> prints is read back entry by entry.\<close>

lemma parse_qs_text: "parse_qs (qs_text ps) = ps"
proof (cases "ps = []")
  case True
  then show ?thesis by (simp add: parse_qs_def qs_text_def)
next
  case False
  let ?f = "\<lambda>(k, v). form_encode k @ ''='' @ form_encode v"
  have "split_on (CHR ''&'') (join [CHR ''&''] (map ?f ps)) = map ?f ps"
    using False by (intro split_on_join) (auto dest: form_encode_free [THEN notE, rotated])
  moreover have "filter (\<lambda>p. p \<noteq> []) (map ?f ps) = map ?f ps"
    by (induction ps) auto
  moreover have "map parse_pair (map ?f ps) = ps"
    by (induction ps) (auto simp: parse_pair_print [unfolded append_Cons append_Nil])
  ultimately show ?thesis by (simp add: parse_qs_def qs_text_def)
qed

text \<open>\<open>if (v) qs.set(k, v)\<close> for a text, \<open>if (n) qs.set(k, String(n))\<close> for a number.\<close>

definition opt_s :: "jsstring \<Rightarrow> jsstring option \<Rightarrow> (jsstring \<times> jsstring) list" where
  "opt_s k v = (case v of None \<Rightarrow> [] | Some s \<Rightarrow> if s = [] then [] else [(k, s)])"

definition opt_n :: "jsstring \<Rightarrow> int option \<Rightarrow> (jsstring \<times> jsstring) list" where
  "opt_n k v = (case v of None \<Rightarrow> [] | Some n \<Rightarrow> if n = 0 then [] else [(k, show_int n)])"

text \<open>\<open>v ? t(v) : ""\<close> for an optional text, and a defaulted parameter.\<close>

definition opt_text :: "jsstring option \<Rightarrow> (jsstring \<Rightarrow> jsstring) \<Rightarrow> jsstring" where
  "opt_text v t = (case v of None \<Rightarrow> [] | Some s \<Rightarrow> if s = [] then [] else t s)"

definition dflt :: "'a \<Rightarrow> 'a option \<Rightarrow> 'a" where
  "dflt d v = (case v of None \<Rightarrow> d | Some x \<Rightarrow> x)"

section \<open>Shapes made of the envelope\<close>

definition env_data :: "json \<Rightarrow> json option" where
  "env_data j = (case jget j ''data'' of Some JNull \<Rightarrow> None | d \<Rightarrow> d)"

text \<open>\<open>{ k: res.data ?? [], total: res.meta?.total_items ?? 0 }\<close>.\<close>

definition paged :: "jsstring \<Rightarrow> json \<Rightarrow> js_exn + json option" where
  "paged k j =
     (if j = JNull then Inl null_deref
      else Inr (Some (JObj [(k, or_default (jget j ''data'') (JArr [])),
        (''total'', or_default (Option.bind (jget j ''meta'') (\<lambda>m. jget m ''total_items'')) (JNum 0))])))"

text \<open>\<open>res.data.k\<close>, \<open>res.data.k ?? null\<close> and \<open>res.data?.k ?? d\<close>.\<close>

definition data_field :: "jsstring \<Rightarrow> json \<Rightarrow> js_exn + json option" where
  "data_field k j = (if j = JNull then Inl null_deref
     else case env_data j of None \<Rightarrow> Inl null_deref | Some d \<Rightarrow> Inr (jget d k))"

definition data_field_null :: "jsstring \<Rightarrow> json \<Rightarrow> js_exn + json option" where
  "data_field_null k j = (case data_field k j of Inl e \<Rightarrow> Inl e | Inr v \<Rightarrow> Inr (Some (or_default v JNull)))"

definition data_field_or :: "jsstring \<Rightarrow> json \<Rightarrow> json \<Rightarrow> js_exn + json option" where
  "data_field_or k d j = (if j = JNull then Inl null_deref
     else Inr (Some (or_default (Option.bind (env_data j) (\<lambda>x. jget x k)) d)))"

end
