(* ===== verification/Catalogue.thy ===== *)
theory Catalogue
  imports Device Endpoints
begin

text \<open>
  The public catalogue on the phone, \<open>mobile/src/lib/catalogue.ts\<close>: network-first reads with a
  copy on the device that is served for 24 hours when the network fails. Times are the
  milliseconds of \<open>Date.now()\<close>. The cache with its expiry is a second implementation of the
  contract \<open>offline_cache\<close>, for reads within the 24 hours.
\<close>

definition CACHE_TTL_MS :: int where "CACHE_TTL_MS = 24 * 60 * 60 * 1000"

text \<open>
  A property of a parsed text: only \<open>null\<close> raises; \<open>_data\<close> is \<open>undefined\<close> when the entry
  has none.
\<close>

definition cacheGet :: "int \<Rightarrow> jsstring \<Rightarrow> device \<Rightarrow> json option" where
  "cacheGet now key d =
     (case readCache (''cat:'' @ key) d of
        None \<Rightarrow> None
      | Some parsed \<Rightarrow>
          (case jget parsed ''_ts'' of
             Some (JNum ts) \<Rightarrow> if now - ts > CACHE_TTL_MS then None else jget parsed ''_data''
           | _ \<Rightarrow> jget parsed ''_data''))"

definition cacheSet :: "int \<Rightarrow> jsstring \<Rightarrow> json option \<Rightarrow> device \<Rightarrow> device" where
  "cacheSet now key data d = writeCache (''cat:'' @ key) (obj [(''_ts'', Some (JNum now)), (''_data'', data)]) d"

definition fetchCached :: "client \<Rightarrow> int \<Rightarrow> jsstring \<Rightarrow> device \<Rightarrow> json option \<times> device" where
  "fetchCached call now path d =
     (case call path get_init of
        Inl e \<Rightarrow> (cacheGet now path d, d)
      | Inr j \<Rightarrow>
          if j = JNull then (cacheGet now path d, d)
          else (Some (or_default (jget j ''data'') JNull), cacheSet now path (jget j ''data'') d))"

section \<open>Query strings and reads\<close>

text \<open>\<open>qs\<close>: keys as they are, values encoded, \<open>undefined\<close> (\<open>None\<close>) and empty ones dropped.\<close>

definition cat_qs :: "(jsstring \<times> jsstring option) list \<Rightarrow> jsstring" where
  "cat_qs params =
     (let parts = concat (map (\<lambda>(k, v). case v of None \<Rightarrow> [] | Some s \<Rightarrow>
            if s = [] then [] else [k @ ''='' @ encode_uri_component s]) params)
      in if parts = [] then [] else ''?'' @ join ''&'' parts)"

definition or_empty :: "json option \<times> device \<Rightarrow> json \<times> device" where
  "or_empty r = (or_default (fst r) (JArr []), snd r)"

definition subjects_path :: "jsstring option \<Rightarrow> jsstring option \<Rightarrow> jsstring" where
  "subjects_path search category =
     ''/subjects'' @ cat_qs [(''search'', search), (''category'', category), (''page_size'', Some ''100'')]"

definition listSubjects :: "client \<Rightarrow> int \<Rightarrow> jsstring option \<Rightarrow> jsstring option \<Rightarrow> device \<Rightarrow> json \<times> device" where
  "listSubjects call now search category d = or_empty (fetchCached call now (subjects_path search category) d)"

definition getSubject :: "client \<Rightarrow> int \<Rightarrow> jsstring \<Rightarrow> device \<Rightarrow> json option \<times> device" where
  "getSubject call now slug d = fetchCached call now (''/subjects/'' @ slug) d"

definition search_path :: "jsstring option \<Rightarrow> jsstring option \<Rightarrow> int option \<Rightarrow> jsstring" where
  "search_path q subject page_size =
     ''/tutors/search'' @ cat_qs [(''q'', q), (''subject'', subject), (''page_size'', Some (show_int (dflt 30 page_size)))]"

definition searchTutors ::
  "client \<Rightarrow> int \<Rightarrow> jsstring option \<Rightarrow> jsstring option \<Rightarrow> int option \<Rightarrow> device \<Rightarrow> json \<times> device" where
  "searchTutors call now q subject page_size d = or_empty (fetchCached call now (search_path q subject page_size) d)"

definition getTutor :: "client \<Rightarrow> int \<Rightarrow> jsstring \<Rightarrow> device \<Rightarrow> json option \<times> device" where
  "getTutor call now slug d = fetchCached call now (''/tutors/'' @ slug) d"

definition getTutorReviews :: "client \<Rightarrow> int \<Rightarrow> jsstring \<Rightarrow> device \<Rightarrow> json \<times> device" where
  "getTutorReviews call now slug d = or_empty (fetchCached call now (''/tutors/'' @ slug @ ''/reviews'') d)"

definition getProgramme :: "client \<Rightarrow> int \<Rightarrow> jsstring \<Rightarrow> device \<Rightarrow> json option \<times> device" where
  "getProgramme call now slug d = fetchCached call now (''/programmes/'' @ slug) d"

definition getCohort :: "client \<Rightarrow> int \<Rightarrow> jsstring \<Rightarrow> device \<Rightarrow> json option \<times> device" where
  "getCohort call now ident d = fetchCached call now (''/cohorts/'' @ ident) d"

section \<open>The contract, within 24 hours\<close>

lemma cache_obj [simp]:
  "jget (obj [(''_ts'', Some t), (''_data'', v)]) ''_ts'' = Some t"
  "jget (obj [(''_ts'', Some t), (''_data'', v)]) ''_data'' = v"
  "obj [(''_ts'', Some t), (''_data'', v)] \<noteq> JNull"
  by (cases v; simp add: obj_def)+

lemma cacheGet_set:
  "storage_works d \<Longrightarrow> cacheGet now key (cacheSet t key v d) = (if now - t > CACHE_TTL_MS then None else v)"
  by (simp add: cacheGet_def cacheSet_def)

interpretation day_cache: offline_cache "\<lambda>k v. cacheSet t k (Some v)" "cacheGet now"
  "\<lambda>d. storage_works d \<and> now - t \<le> CACHE_TTL_MS" for t now
proof unfold_locales
  fix d v k assume "storage_works d \<and> now - t \<le> CACHE_TTL_MS"
  then show "cacheGet now k (cacheSet t k (Some v) d) = Some v" by (simp add: cacheGet_set)
next
  fix k k' :: jsstring and v d assume "k' \<noteq> k"
  then show "cacheGet now k' (cacheSet t k (Some v) d) = cacheGet now k' d"
    by (simp add: cacheGet_def cacheSet_def)
next
  fix k v d
  show "(storage_works (cacheSet t k (Some v) d) \<and> now - t \<le> CACHE_TTL_MS) =
      (storage_works d \<and> now - t \<le> CACHE_TTL_MS)"
    by (simp add: cacheSet_def)
qed

text \<open>
  A page of the catalogue that was read at time \<open>t\<close> is shown again without a network for
  24 hours, the last millisecond included, whatever other pages were read in between; after
  that it is gone.
\<close>

theorem catalogue_day:
  fixes t now :: int
  assumes "storage_works d" "call path get_init = Inr j" "j \<noteq> JNull" "jget j ''data'' = Some v" "v \<noteq> JNull"
    and "list_all (\<lambda>(c, n, p). p \<noteq> path) reads" "failed (call' path get_init)"
  defines "d1 \<equiv> snd (fetchCached call t path d)"
  defines "d2 \<equiv> foldl (\<lambda>d (c, n, p). snd (fetchCached c n p d)) d1 reads"
  shows "fst (fetchCached call' now path d2) = (if now - t \<le> CACHE_TTL_MS then Some v else None)"
proof -
  have keep: "cacheGet now path (snd (fetchCached c n p e)) = cacheGet now path e" if "p \<noteq> path" for c n p e
    using that by (auto simp: fetchCached_def cacheGet_def cacheSet_def split: sum.split)
  have "cacheGet now path (foldl (\<lambda>d (c, n, p). snd (fetchCached c n p d)) e reads) = cacheGet now path e" for e
    using assms(6) by (induction reads arbitrary: e) (auto simp: keep)
  then have "cacheGet now path d2 = cacheGet now path d1" by (simp add: d2_def)
  moreover have "d1 = cacheSet t path (Some v) d" using assms by (simp add: fetchCached_def)
  moreover have "fst (fetchCached call' now path d2) = cacheGet now path d2"
    using assms(7) by (cases "call' path get_init") (simp_all add: fetchCached_def)
  ultimately show ?thesis using assms(1) by (auto simp: cacheGet_set)
qed

theorem catalogue_day_witness:
  "fst (fetchCached (\<lambda>_ _. Inl null_deref) 86400000 ''/subjects/maths''
     (snd (fetchCached (\<lambda>_ _. Inr (JObj [(''data'', JStr ''Maths'')])) 0 ''/subjects/maths'' device0))) = Some (JStr ''Maths'')"
  using catalogue_day [of device0 "\<lambda>_ _. Inr (JObj [(''data'', JStr ''Maths'')])" "''/subjects/maths''"
      "JObj [(''data'', JStr ''Maths'')]" "JStr ''Maths''" "[]" "\<lambda>_ _. Inl null_deref" 86400000 0]
  by (simp add: device0_def CACHE_TTL_MS_def)

end
