(* ===== verification/OfflineVideo.thy ===== *)
theory OfflineVideo
  imports Machine "HOL-Library.AList"
begin

text \<open>
  Lesson videos kept on the phone: \<open>mobile/src/lib/offline-video.ts\<close>, its use in the course
  screen \<open>mobile/app/lms/[cohortId].tsx\<close> and the choice of the player. The index under
  \<open>offline:videos\<close> is written by this module alone and kept here as the list it parses to;
  the file system is the set of files that exist, and \<open>File.downloadFileAsync\<close> is a
  parameter that gives the file a source is saved as, \<open>None\<close> when it rejects.
\<close>

record cached_video =
  lessonId :: jsstring
  uri :: jsstring
  source :: jsstring
  at :: int

record video_store =
  index :: "cached_video list option" \<comment> \<open>\<open>None\<close>: no index, or one that does not parse\<close>
  v_readable :: bool
  v_writable :: bool
  files :: "jsstring set"

type_synonym downloader = "jsstring \<Rightarrow> jsstring option"

definition getIndex :: "video_store \<Rightarrow> cached_video list" where
  "getIndex s = (if v_readable s then (case index s of Some xs \<Rightarrow> xs | None \<Rightarrow> []) else [])"

definition isVideoCached :: "jsstring \<Rightarrow> video_store \<Rightarrow> bool" where
  "isVideoCached lid s = list_ex (\<lambda>v. lessonId v = lid) (getIndex s)"

definition getCachedVideoUri :: "jsstring \<Rightarrow> video_store \<Rightarrow> jsstring option" where
  "getCachedVideoUri lid s =
     (case find (\<lambda>v. lessonId v = lid) (getIndex s) of
        None \<Rightarrow> None
      | Some f \<Rightarrow> if uri f \<in> files s then Some (uri f) else None)"

definition without :: "jsstring \<Rightarrow> cached_video list \<Rightarrow> cached_video list" where
  "without lid = filter (\<lambda>v. lessonId v \<noteq> lid)"

text \<open>The result and the state; a file stays when only the index could not be written.\<close>

definition cacheVideo :: "downloader \<Rightarrow> int \<Rightarrow> jsstring \<Rightarrow> jsstring \<Rightarrow> video_store \<Rightarrow> jsstring option \<times> video_store" where
  "cacheVideo dl now lid sourceUrl s =
     (case dl sourceUrl of
        None \<Rightarrow> (None, s)
      | Some u \<Rightarrow>
          (let s1 = s\<lparr>files := insert u (files s)\<rparr>;
               nxt = without lid (getIndex s1) @ [\<lparr>lessonId = lid, uri = u, source = sourceUrl, at = now\<rparr>]
           in if v_writable s1 then (Some u, s1\<lparr>index := Some nxt\<rparr>) else (None, s1)))"

text \<open>Whether it returns (the last write is not guarded), and the state.\<close>

definition removeCachedVideo :: "jsstring \<Rightarrow> video_store \<Rightarrow> bool \<times> video_store" where
  "removeCachedVideo lid s =
     (let idx = getIndex s;
          s1 = (case find (\<lambda>v. lessonId v = lid) idx of
                  Some f \<Rightarrow> s\<lparr>files := files s - {uri f}\<rparr> | None \<Rightarrow> s)
      in if v_writable s1 then (True, s1\<lparr>index := Some (without lid idx)\<rparr>) else (False, s1))"

section \<open>One entry per lesson\<close>

definition index_ok :: "video_store \<Rightarrow> bool" where
  "index_ok s = (case index s of None \<Rightarrow> True | Some xs \<Rightarrow> distinct (map lessonId xs))"

datatype video_op = Download jsstring jsstring int | Remove jsstring

fun video_step :: "downloader \<Rightarrow> video_store \<Rightarrow> video_op \<Rightarrow> video_store" where
  "video_step dl s (Download lid src now) = snd (cacheVideo dl now lid src s)"
| "video_step dl s (Remove lid) = snd (removeCachedVideo lid s)"

lemma without_distinct: "distinct (map lessonId xs) \<Longrightarrow> distinct (map lessonId (without lid xs)) \<and> lid \<notin> lessonId ` set (without lid xs)"
  by (auto simp: without_def)

lemma index_distinct: "index_ok s \<Longrightarrow> distinct (map lessonId (getIndex s))"
  by (auto simp: index_ok_def getIndex_def split: option.splits)

lemma getIndex_files [simp]: "getIndex (s\<lparr>files := f\<rparr>) = getIndex s"
  by (simp add: getIndex_def)

lemma getIndex_written: "v_readable s \<Longrightarrow> getIndex (s\<lparr>index := Some xs\<rparr>) = xs"
  by (simp add: getIndex_def)

lemma index_step: "index_ok s \<Longrightarrow> index_ok (video_step dl s e)"
  using without_distinct [OF index_distinct]
  by (cases e) (auto simp: cacheVideo_def removeCachedVideo_def Let_def index_ok_def split: option.splits)

interpretation videos: machine index_ok "\<lambda>s e. True" "video_step dl" index_ok for dl
  by unfold_locales (auto intro: index_step)

lemma find_without: "l' \<noteq> l \<Longrightarrow> find (\<lambda>v. lessonId v = l') (without l xs) = find (\<lambda>v. lessonId v = l') xs"
  by (induction xs) (auto simp: without_def)

lemma find_without_same: "find (\<lambda>v. lessonId v = l) (without l xs @ ys) = find (\<lambda>v. lessonId v = l) ys"
  by (induction xs) (auto simp: without_def)

lemma find_append_other: "lessonId y \<noteq> l' \<Longrightarrow> find (\<lambda>v. lessonId v = l') (xs @ [y]) = find (\<lambda>v. lessonId v = l') xs"
  by (induction xs) auto

text \<open>
  A video that was downloaded plays offline from the file it was saved as, a lesson's new
  download replaces its old one, and the downloads of other lessons stay as they were.
\<close>

theorem downloaded_plays:
  assumes "v_readable s" "fst (cacheVideo dl now lid src s) = Some u"
  shows "getCachedVideoUri lid (snd (cacheVideo dl now lid src s)) = Some u \<and>
    isVideoCached lid (snd (cacheVideo dl now lid src s)) \<and>
    list_all (\<lambda>l'. l' = lid \<or> getCachedVideoUri l' s = None \<or>
       getCachedVideoUri l' (snd (cacheVideo dl now lid src s)) = getCachedVideoUri l' s) lids"
proof -
  let ?y = "\<lparr>lessonId = lid, uri = u, source = src, at = now\<rparr>"
  have d: "dl src = Some u" "v_writable s"
    using assms(2) by (auto simp: cacheVideo_def Let_def split: option.splits if_splits)
  then have s': "snd (cacheVideo dl now lid src s) =
      s\<lparr>files := insert u (files s), index := Some (without lid (getIndex s) @ [?y])\<rparr>"
    by (simp add: cacheVideo_def Let_def)
  have idx: "getIndex (snd (cacheVideo dl now lid src s)) = without lid (getIndex s) @ [?y]"
    using assms(1) by (simp add: s' getIndex_def)
  have "getCachedVideoUri l' (snd (cacheVideo dl now lid src s)) = getCachedVideoUri l' s"
    if "l' \<noteq> lid" "getCachedVideoUri l' s \<noteq> None" for l'
    using that unfolding getCachedVideoUri_def idx
    by (auto simp: find_append_other find_without s' split: option.splits if_splits)
  moreover have "getCachedVideoUri lid (snd (cacheVideo dl now lid src s)) = Some u"
    unfolding getCachedVideoUri_def idx by (simp add: find_without_same s')
  moreover have "isVideoCached lid (snd (cacheVideo dl now lid src s))"
    unfolding isVideoCached_def idx by simp
  ultimately show ?thesis unfolding list_all_iff by blast
qed

text \<open>
  Two lessons whose sources are saved under one name share the file: after the second
  download and the removal of either, the other is still listed as downloaded but cannot be
  played offline.
\<close>

theorem shared_name_collides:
  fixes t1 t2 :: int
  assumes "v_readable s" "v_writable s" "dl src1 = Some u" "dl src2 = Some u" "l1 \<noteq> l2"
  defines "both \<equiv> snd (cacheVideo dl t2 l2 src2 (snd (cacheVideo dl t1 l1 src1 s)))"
  shows "isVideoCached l1 (snd (removeCachedVideo l2 both)) \<and> getCachedVideoUri l1 (snd (removeCachedVideo l2 both)) = None"
proof -
  let ?y1 = "\<lparr>lessonId = l1, uri = u, source = src1, at = t1\<rparr>"
  let ?y2 = "\<lparr>lessonId = l2, uri = u, source = src2, at = t2\<rparr>"
  let ?xs = "without l2 (without l1 (getIndex s) @ [?y1])"
  have both: "both = s\<lparr>files := insert u (files s), index := Some (?xs @ [?y2])\<rparr>"
    using assms by (simp add: both_def cacheVideo_def Let_def getIndex_def insert_absorb)
  have "find (\<lambda>v. lessonId v = l2) (?xs @ [?y2]) = Some ?y2" by (simp add: find_without_same)
  then have r: "snd (removeCachedVideo l2 both) =
      both\<lparr>files := files both - {u}, index := Some (without l2 (?xs @ [?y2]))\<rparr>"
    using assms(1,2) by (simp add: removeCachedVideo_def Let_def both getIndex_def)
  have "without l2 (?xs @ [?y2]) = without l2 (without l1 (getIndex s)) @ [?y1]"
    using assms(5) by (simp add: without_def)
  then have idx: "getIndex (snd (removeCachedVideo l2 both)) = without l2 (without l1 (getIndex s)) @ [?y1]"
    using assms(1) by (simp only: r) (simp add: getIndex_def both)
  have "without l2 (without l1 zs) = without l1 (without l2 zs)" for zs
    by (simp add: without_def filter_filter conj_commute)
  then have "find (\<lambda>v. lessonId v = l1) (without l2 (without l1 (getIndex s)) @ [?y1]) = Some ?y1"
    by (simp add: find_without_same)
  moreover have "u \<notin> files (snd (removeCachedVideo l2 both))" by (simp add: r)
  ultimately show ?thesis by (simp add: isVideoCached_def getCachedVideoUri_def idx)
qed

definition empty_store :: video_store where
  "empty_store = \<lparr>index = None, v_readable = True, v_writable = True, files = {}\<rparr>"

theorem downloaded_plays_witness:
  "getCachedVideoUri ''l1'' (snd (cacheVideo Some 0 ''l1'' ''https://cdn/a.mp4'' empty_store)) = Some ''https://cdn/a.mp4''"
  using downloaded_plays [of empty_store Some 0 "''l1''" "''https://cdn/a.mp4''" "''https://cdn/a.mp4''" "[]"]
  by (simp add: empty_store_def cacheVideo_def Let_def)

theorem shared_name_collides_witness:
  "getCachedVideoUri ''l1'' (snd (removeCachedVideo ''l2'' (snd (cacheVideo (\<lambda>_. Some ''a.mp4'') 0 ''l2'' ''y/a.mp4''
     (snd (cacheVideo (\<lambda>_. Some ''a.mp4'') 0 ''l1'' ''x/a.mp4'' empty_store)))))) = None"
  by (rule shared_name_collides [THEN conjunct2]) (simp_all add: empty_store_def)

section \<open>The course screen\<close>

datatype offline_flag = Idle | Downloading | Cached

record course_screen =
  lessons :: "jsstring list"
  offlineState :: "(jsstring \<times> offline_flag) list"
  offlineChecked :: bool

definition course0 :: course_screen where
  "course0 = \<lparr>lessons = [], offlineState = [], offlineChecked = False\<rparr>"

text \<open>The effect that looks up the loaded lessons; it runs after every change of its inputs.\<close>

definition check_effect :: "video_store \<Rightarrow> course_screen \<Rightarrow> course_screen" where
  "check_effect v s =
     (if offlineChecked s then s
      else s\<lparr>offlineState := map (\<lambda>l. (l, if isVideoCached l v then Cached else Idle)) (lessons s), offlineChecked := True\<rparr>)"

definition lessons_loaded :: "jsstring list \<Rightarrow> course_screen \<Rightarrow> course_screen" where
  "lessons_loaded ls s = s\<lparr>lessons := ls\<rparr>"

text \<open>\<open>toggleOffline\<close> of a lesson with a video; \<open>authorized\<close> is the server's URL, \<open>None\<close> when it refuses.\<close>

definition toggleOffline ::
  "downloader \<Rightarrow> int \<Rightarrow> jsstring option \<Rightarrow> jsstring \<Rightarrow> jsstring \<Rightarrow> course_screen \<times> video_store \<Rightarrow> course_screen \<times> video_store" where
  "toggleOffline dl now authorized lid video_url sv =
     (let (s, v) = sv in
      if video_url = [] then sv
      else if map_of (offlineState s) lid = Some Cached then
        (let (ok, v') = removeCachedVideo lid v
         in ((if ok then s\<lparr>offlineState := AList.update lid Idle (offlineState s)\<rparr> else s), v'))
      else (let (r, v') = cacheVideo dl now lid (case authorized of Some u \<Rightarrow> u | None \<Rightarrow> video_url) v
            in (s\<lparr>offlineState := AList.update lid (if r = None then Idle else Cached) (offlineState s)\<rparr>, v')))"

text \<open>
  The screen never finds out which lessons are on the phone: the look-up runs when the
  screen opens, before any lesson is loaded, and is then switched off, so a lesson that was
  downloaded earlier is offered for download again.
\<close>

theorem downloads_forgotten:
  "offlineState (check_effect v (lessons_loaded ls (check_effect v course0))) = []"
  by (simp add: check_effect_def course0_def lessons_loaded_def)

end
