(* ===== verification/Drafts.thy ===== *)
theory Drafts
  imports Device
begin

text \<open>
  Small device stores: the wizard draft \<open>mobile/src/lib/wizard-draft.ts\<close>, the saved tutors
  of the phone \<open>mobile/src/lib/wishlist.ts\<close> and of the browser
  \<open>client/features/wishlist/hook.ts\<close>, the experiment buckets \<open>client/lib/ab.ts\<close>, and the
  signup draft \<open>client/lib/onboarding.ts\<close>. A tutor or a draft is stored as JSON; reading
  back what was written gives the same value.
\<close>

section \<open>The wizard draft\<close>

record wizard_draft =
  wd_role :: json
  wd_firstName :: json
  wd_level :: json
  wd_goals :: "json list"

definition WIZARD_KEY :: jsstring where "WIZARD_KEY = ''ykv_wizard_draft''"

definition LEVELS :: "jsstring list" where
  "LEVELS = [''Primary'', ''JSS1'', ''JSS2'', ''JSS3'', ''SSS1'', ''SSS2'', ''SSS3'', ''IGCSE'', ''A Level'']"

definition TUTOR_SUBJECTS :: "jsstring list" where
  "TUTOR_SUBJECTS = [''Mathematics'', ''English'', ''Sciences'', ''Computer Science'', ''Exam Prep'']"

definition emptyDraft :: wizard_draft where
  "emptyDraft = \<lparr>wd_role = JNull, wd_firstName = JStr [], wd_level = JStr [], wd_goals = []\<rparr>"

text \<open>A stored \<open>null\<close> raises when its fields are read, which gives the empty draft too.\<close>

definition getDraft :: "device \<Rightarrow> wizard_draft" where
  "getDraft d =
     (case readCache WIZARD_KEY d of
        None \<Rightarrow> emptyDraft
      | Some parsed \<Rightarrow>
          \<lparr>wd_role = or_default (jget parsed ''role'') JNull,
           wd_firstName = or_default (jget parsed ''firstName'') (JStr []),
           wd_level = or_default (jget parsed ''level'') (JStr []),
           wd_goals = (case jget parsed ''goals'' of Some (JArr gs) \<Rightarrow> gs | _ \<Rightarrow> [])\<rparr>)"

definition draft_json :: "wizard_draft \<Rightarrow> json" where
  "draft_json w = JObj [(''role'', wd_role w), (''firstName'', wd_firstName w), (''level'', wd_level w),
     (''goals'', JArr (wd_goals w))]"

definition setDraft :: "wizard_draft \<Rightarrow> device \<Rightarrow> device" where
  "setDraft w d = writeCache WIZARD_KEY (draft_json w) d"

definition clearDraft :: "device \<Rightarrow> device" where
  "clearDraft d = removeItem WIZARD_KEY d"

text \<open>
  A wizard draft is read back exactly as it was left, and after it is cleared the next
  user starts with an empty one.
\<close>

theorem draft_roundtrip:
  assumes "storage_works d" "wd_firstName w \<noteq> JNull" "wd_level w \<noteq> JNull"
  shows "getDraft (setDraft w d) = w \<and> getDraft (clearDraft (setDraft w d)) = emptyDraft"
proof -
  have "or_default (Some v) JNull = v" "v \<noteq> JNull \<Longrightarrow> or_default (Some v) e = v" for v e
    by (cases v; simp)+
  then show ?thesis using assms
    by (simp add: getDraft_def setDraft_def draft_json_def clearDraft_def)
qed

theorem draft_roundtrip_witness:
  "getDraft (setDraft \<lparr>wd_role = JStr ''STUDENT'', wd_firstName = JStr ''Ada'', wd_level = JStr ''SSS1'',
     wd_goals = [JStr ''exams'']\<rparr> device0) = \<lparr>wd_role = JStr ''STUDENT'', wd_firstName = JStr ''Ada'',
     wd_level = JStr ''SSS1'', wd_goals = [JStr ''exams'']\<rparr>"
  by (rule draft_roundtrip [THEN conjunct1]) (simp_all add: device0_def)

section \<open>Saved tutors on the phone\<close>

record saved_tutor =
  st_slug :: jsstring
  st_name :: jsstring
  st_subjects :: "jsstring list"
  st_rating :: json \<comment> \<open>a number, never computed with\<close>

definition SAVED_KEY :: jsstring where "SAVED_KEY = ''yk-virtual-saved-tutors''"

definition tutor_json :: "saved_tutor \<Rightarrow> json" where
  "tutor_json t = JObj [(''slug'', JStr (st_slug t)), (''name'', JStr (st_name t)),
     (''subjects'', JArr (map JStr (st_subjects t))), (''rating'', st_rating t)]"

text \<open>The stored list is one these modules wrote; its elements are compared by slug only.\<close>

definition slug_of :: "json \<Rightarrow> json option" where "slug_of t = jget t ''slug''"

definition readSaved :: "device \<Rightarrow> json list" where
  "readSaved d = (case readCache SAVED_KEY d of Some (JArr ts) \<Rightarrow> ts | _ \<Rightarrow> [])"

definition has_slug :: "jsstring \<Rightarrow> json list \<Rightarrow> bool" where
  "has_slug slug = list_ex (\<lambda>t. slug_of t = Some (JStr slug))"

definition drop_slug :: "jsstring \<Rightarrow> json list \<Rightarrow> json list" where
  "drop_slug slug = filter (\<lambda>t. slug_of t \<noteq> Some (JStr slug))"

definition isSaved :: "jsstring \<Rightarrow> device \<Rightarrow> bool" where
  "isSaved slug d = has_slug slug (readSaved d)"

definition toggled :: "saved_tutor \<Rightarrow> json list \<Rightarrow> json list" where
  "toggled t prev = (if has_slug (st_slug t) prev then drop_slug (st_slug t) prev else prev @ [tutor_json t])"

definition toggleSaved :: "saved_tutor \<Rightarrow> device \<Rightarrow> json list \<times> device" where
  "toggleSaved t d = (let nxt = toggled t (readSaved d) in (nxt, writeCache SAVED_KEY (JArr nxt) d))"

definition removeSaved :: "jsstring \<Rightarrow> device \<Rightarrow> json list \<times> device" where
  "removeSaved slug d = (let nxt = drop_slug slug (readSaved d) in (nxt, writeCache SAVED_KEY (JArr nxt) d))"

lemma saved_written [simp]: "storage_works d \<Longrightarrow> readSaved (writeCache SAVED_KEY (JArr ts) d) = ts"
  by (simp add: readSaved_def)

lemma slug_tutor [simp]: "slug_of (tutor_json t) = Some (JStr (st_slug t))"
  by (simp add: slug_of_def tutor_json_def)

lemma has_drop: "has_slug s' (drop_slug s ts) = (s' \<noteq> s \<and> has_slug s' ts)"
  by (induction ts) (auto simp: has_slug_def drop_slug_def)

lemma has_toggled: "has_slug s' (toggled t ts) = (if s' = st_slug t then \<not> has_slug s' ts else has_slug s' ts)"
proof (cases "has_slug (st_slug t) ts")
  case True
  then show ?thesis by (simp add: toggled_def has_drop)
next
  case False
  then show ?thesis by (auto simp: toggled_def has_slug_def)
qed

text \<open>
  The heart of a tutor flips exactly that tutor's mark: pressed twice it leaves the set of
  saved tutors as it was, and no press touches another tutor.
\<close>

theorem toggle_flips:
  assumes "storage_works d"
  shows "isSaved slug (snd (toggleSaved t d)) = (if slug = st_slug t then \<not> isSaved slug d else isSaved slug d) \<and>
    isSaved slug (snd (toggleSaved t (snd (toggleSaved t d)))) = isSaved slug d \<and>
    isSaved slug (snd (removeSaved (st_slug t) d)) = (slug \<noteq> st_slug t \<and> isSaved slug d)"
  using assms by (simp add: isSaved_def toggleSaved_def removeSaved_def Let_def has_toggled has_drop)

theorem toggle_flips_witness:
  "isSaved ''ada'' (snd (toggleSaved \<lparr>st_slug = ''ada'', st_name = ''Ada'', st_subjects = [], st_rating = JNum 5\<rparr> device0))"
  using toggle_flips [of device0 "''ada''" "\<lparr>st_slug = ''ada'', st_name = ''Ada'', st_subjects = [], st_rating = JNum 5\<rparr>"]
  by (simp add: device0_def isSaved_def readSaved_def has_slug_def readCache_def)

section \<open>Saved tutors in the browser\<close>

text \<open>
  A page holds its own copy, read once on mount, and writes the whole list on every change.
  Tabs of one browser share the storage.
\<close>

definition wishlist_mount :: "device \<Rightarrow> json list" where
  "wishlist_mount d = readSaved d"

definition wishlist_toggle :: "saved_tutor \<Rightarrow> json list \<times> device \<Rightarrow> json list \<times> device" where
  "wishlist_toggle t = (\<lambda>(saved, d). let nxt = toggled t saved in (nxt, writeCache SAVED_KEY (JArr nxt) d))"

definition wishlist_remove :: "jsstring \<Rightarrow> json list \<times> device \<Rightarrow> json list \<times> device" where
  "wishlist_remove slug = (\<lambda>(saved, d). let nxt = drop_slug slug saved in (nxt, writeCache SAVED_KEY (JArr nxt) d))"

text \<open>As long as one page is open, page and storage agree, and the page does what the phone does.\<close>

lemma wishlist_single:
  assumes "storage_works d" "saved = readSaved d"
  shows "wishlist_toggle t (saved, d) = toggleSaved t d" "wishlist_remove s (saved, d) = removeSaved s d"
  using assms by (simp_all add: wishlist_toggle_def wishlist_remove_def toggleSaved_def removeSaved_def Let_def)

text \<open>
  With two pages open the later change wins: a tutor saved on one page is forgotten when
  another page, opened before, saves a different one.
\<close>

theorem second_page_overwrites:
  assumes "storage_works d" "\<not> isSaved (st_slug a) d" "\<not> isSaved (st_slug b) d" "st_slug a \<noteq> st_slug b"
  shows "let first = wishlist_toggle a (wishlist_mount d, d);
             second = wishlist_toggle b (wishlist_mount d, snd first)
    in isSaved (st_slug a) (snd first) \<and> \<not> isSaved (st_slug a) (snd second) \<and> isSaved (st_slug b) (snd second)"
  using assms
  by (simp add: wishlist_toggle_def wishlist_mount_def Let_def isSaved_def has_toggled)

theorem second_page_overwrites_witness:
  "\<not> isSaved ''ada'' (snd (wishlist_toggle \<lparr>st_slug = ''ben'', st_name = ''Ben'', st_subjects = [], st_rating = JNum 5\<rparr>
     (wishlist_mount device0, snd (wishlist_toggle \<lparr>st_slug = ''ada'', st_name = ''Ada'', st_subjects = [], st_rating = JNum 5\<rparr>
        (wishlist_mount device0, device0)))))"
  using second_page_overwrites [of device0 "\<lparr>st_slug = ''ada'', st_name = ''Ada'', st_subjects = [], st_rating = JNum 5\<rparr>"
      "\<lparr>st_slug = ''ben'', st_name = ''Ben'', st_subjects = [], st_rating = JNum 5\<rparr>"]
  by (simp add: device0_def isSaved_def readSaved_def has_slug_def readCache_def Let_def)

section \<open>Experiments and the signup draft\<close>

definition AB_PREFIX :: jsstring where "AB_PREFIX = ''ykvirtual:ab:''"

datatype variant = Control | B

fun variant_text :: "variant \<Rightarrow> jsstring" where
  "variant_text Control = ''control''"
| "variant_text B = ''b''"

text \<open>
  The texts of \<open>localStorage\<close>; reading or writing may raise. \<open>coin\<close> is \<open>Math.random() < 0.5\<close>.
\<close>

record browser =
  texts :: "jsstring \<Rightarrow> jsstring option"
  can_read :: bool
  can_write :: bool

definition abVariant :: "bool \<Rightarrow> jsstring \<Rightarrow> browser option \<Rightarrow> variant \<times> browser option" where
  "abVariant coin key w =
     (case w of
        None \<Rightarrow> (Control, None)
      | Some b \<Rightarrow>
          if \<not> can_read b then (Control, w)
          else if texts b (AB_PREFIX @ key) = Some ''control'' then (Control, w)
          else if texts b (AB_PREFIX @ key) = Some ''b'' then (B, w)
          else (let assigned = (if coin then Control else B)
                in if can_write b
                   then (assigned, Some (b\<lparr>texts := (texts b)(AB_PREFIX @ key \<mapsto> variant_text assigned)\<rparr>))
                   else (Control, w)))"

text \<open>
  A visitor keeps the variant he was first shown, whatever the later draws; where nothing
  can be stored he always sees the control.
\<close>

theorem ab_sticky:
  "fst (abVariant coin' key (snd (abVariant coin key w))) = fst (abVariant coin key w) \<and>
   snd (abVariant coin' key (snd (abVariant coin key w))) = snd (abVariant coin key w)"
  by (auto simp: abVariant_def Let_def split: option.splits)

definition ONBOARDING_STORAGE_KEY :: jsstring where "ONBOARDING_STORAGE_KEY = ''yk-virtual-onboarding''"

definition clearOnboardingDraft :: "device \<Rightarrow> device" where
  "clearOnboardingDraft d = removeItem ONBOARDING_STORAGE_KEY d"

text \<open>\<open>useLogout\<close>: the draft is cleared first; a logout call that fails ends there.\<close>

definition useLogout :: "js_exn + json \<Rightarrow> device \<Rightarrow> jsstring option \<times> device" where
  "useLogout answer d =
     (case answer of
        Inl e \<Rightarrow> (None, clearOnboardingDraft d)
      | Inr j \<Rightarrow> (Some ''/'', clearOnboardingDraft d))"

lemma logout_clears_draft: "writable d \<Longrightarrow> readCache ONBOARDING_STORAGE_KEY (snd (useLogout r d)) = None"
  by (cases r) (simp_all add: useLogout_def clearOnboardingDraft_def)

end
