(* ===== verification/LoginCode.thy ===== *)
theory LoginCode
  imports Machine Session
begin

text \<open>
  Signing in with a code, \<open>client/app/(auth)/login-code/page.tsx\<close>: ask for a code, enter it,
  get a session. A state is the component's hooks and the calls in flight; an event is a
  click on a button the page shows, a key, typing, a tick of a countdown or the settling of a
  call. The invariant bounds the calls in flight and the countdown, and says what can reach
  the server.
\<close>

section \<open>State and handlers\<close>

datatype code_step = AskEmail | AskCode

record login_code =
  lc_email :: jsstring
  lc_code :: jsstring
  lc_step :: code_step
  lc_busy :: bool
  lc_error :: "jsstring option"
  cooldown :: nat
  confirming :: bool
  timers :: nat \<comment> \<open>countdowns that are running\<close>
  requesting :: "jsstring list" \<comment> \<open>requests for a code in flight\<close>
  confirms :: "(jsstring \<times> jsstring) list" \<comment> \<open>confirmations in flight\<close>
  sent_codes :: "(jsstring \<times> jsstring) list" \<comment> \<open>all confirmations so far\<close>
  lc_session :: "current_user option"
  lc_pushed :: "jsstring list"

definition login_code0 :: login_code where
  "login_code0 = \<lparr>lc_email = [], lc_code = [], lc_step = AskEmail, lc_busy = False, lc_error = None,
     cooldown = 0, confirming = False, timers = 0, requesting = [], confirms = [], sent_codes = [],
     lc_session = None, lc_pushed = []\<rparr>"

text \<open>\<open>/^[^\s@]+@[^\s@]+\.[^\s@]+$/\<close>\<close>

definition email_ok :: "jsstring \<Rightarrow> bool" where
  "email_ok s = (list_all (\<lambda>c. \<not> is_space c) s \<and>
     (case split_on (CHR ''@'') s of
        [name, host] \<Rightarrow> name \<noteq> [] \<and> list_ex (\<lambda>i. host ! i = CHR ''.'') [1..<length host - 1]
      | _ \<Rightarrow> False))"

definition digit :: "char \<Rightarrow> bool" where
  "digit c = (c \<in> set ''0123456789'')"

text \<open>\<open>value.replace(/\D/g, "").slice(0, 6)\<close>\<close>

definition six_digits :: "jsstring \<Rightarrow> jsstring" where
  "six_digits v = take 6 (filter digit v)"

definition request_start :: "login_code \<Rightarrow> login_code" where
  "request_start s =
     (if \<not> email_ok (trim (lc_email s)) then s\<lparr>lc_error := Some ''Enter a valid email address''\<rparr>
      else s\<lparr>lc_busy := True, lc_error := None, requesting := requesting s @ [trim (lc_email s)]\<rparr>)"

definition request_ok :: "login_code \<Rightarrow> login_code" where
  "request_ok s = s\<lparr>lc_step := AskCode, lc_code := [], cooldown := 30, timers := timers s + 1,
     lc_busy := False, requesting := tl (requesting s)\<rparr>"

definition request_fail :: "js_exn \<Rightarrow> login_code \<Rightarrow> login_code" where
  "request_fail e s = s\<lparr>lc_error := Some (if instanceof_Error e then ex_message e else ''Could not send code''),
     lc_busy := False, requesting := tl (requesting s)\<rparr>"

text \<open>One callback of one interval, which stops itself at the end of the countdown.\<close>

definition second :: "login_code \<Rightarrow> login_code" where
  "second s = (if cooldown s \<le> 1 then s\<lparr>cooldown := 0, timers := timers s - 1\<rparr>
     else s\<lparr>cooldown := cooldown s - 1\<rparr>)"

definition confirm_start :: "login_code \<Rightarrow> login_code" where
  "confirm_start s =
     (if length (trim (lc_code s)) \<noteq> 6 then s\<lparr>lc_error := Some ''Enter the 6-digit code from your email''\<rparr>
      else if confirming s then s
      else (let c = (trim (lc_email s), trim (lc_code s)) in
        s\<lparr>confirming := True, lc_busy := True, lc_error := None, confirms := confirms s @ [c],
          sent_codes := sent_codes s @ [c]\<rparr>))"

definition confirm_ok :: "jsstring option \<Rightarrow> current_user \<Rightarrow> login_code \<Rightarrow> login_code" where
  "confirm_ok nxt user s = s\<lparr>lc_session := Some user, lc_pushed := lc_pushed s @ [destinationFor user nxt],
     confirming := False, lc_busy := False, confirms := tl (confirms s)\<rparr>"

definition confirm_fail :: "js_exn \<Rightarrow> login_code \<Rightarrow> login_code" where
  "confirm_fail e s = s\<lparr>lc_error := Some (if instanceof_Error e then ex_message e else ''Invalid code''),
     confirming := False, lc_busy := False, confirms := tl (confirms s)\<rparr>"

text \<open>Typing a code, and the effect that submits it once it has six digits.\<close>

definition type_code :: "jsstring \<Rightarrow> login_code \<Rightarrow> login_code" where
  "type_code v s =
     (let c = six_digits v; s1 = s\<lparr>lc_code := c\<rparr> in
      if c = lc_code s then s
      else if lc_step s1 = AskCode \<and> length (trim c) = 6 \<and> \<not> lc_busy s1 then confirm_start s1 else s1)"

section \<open>The page\<close>

datatype code_event =
    TypeEmail jsstring
  | SendCode
  | EnterEmail
  | TypeCode jsstring
  | EnterCode
  | LogIn
  | Resend
  | RequestOk
  | RequestFail js_exn
  | Second
  | ConfirmOk current_user
  | ConfirmFail js_exn

definition code_view :: "login_code \<Rightarrow> code_event widget list" where
  "code_view s =
     (if lc_step s = AskEmail
      then [Txt ''Log in with a code'', Field ''Email'' (lc_email s)] @
           (case lc_error s of None \<Rightarrow> [] | Some e \<Rightarrow> if e = [] then [] else [Txt e]) @
           [Btn (if lc_busy s then ''Sending'' @ ellipsis else ''Send login code'') (\<not> lc_busy s) SendCode]
      else [Txt ''Enter your login code'', Field ''Login code'' (lc_code s)] @
           (case lc_error s of None \<Rightarrow> [] | Some e \<Rightarrow> if e = [] then [] else [Txt e]) @
           [Btn (if lc_busy s then ''Signing in'' @ ellipsis else ''Log in'') (\<not> lc_busy s) LogIn,
            Btn (if cooldown s > 0 then ''Resend code in '' @ show_nat (cooldown s) @ ''s'' else ''Resend code'')
              (cooldown s = 0) Resend])"

fun code_guard :: "login_code \<Rightarrow> code_event \<Rightarrow> bool" where
  "code_guard s (TypeEmail v) = (lc_step s = AskEmail)"
| "code_guard s EnterEmail = (lc_step s = AskEmail)"
| "code_guard s (TypeCode v) = (lc_step s = AskCode)"
| "code_guard s EnterCode = (lc_step s = AskCode)"
| "code_guard s RequestOk = (requesting s \<noteq> [])"
| "code_guard s (RequestFail e) = (requesting s \<noteq> [])"
| "code_guard s Second = (timers s > 0)"
| "code_guard s (ConfirmOk u) = (confirms s \<noteq> [])"
| "code_guard s (ConfirmFail e) = (confirms s \<noteq> [])"
| "code_guard s e = (e \<in> set (offered (code_view s)))"

fun login_code_step :: "jsstring option \<Rightarrow> login_code \<Rightarrow> code_event \<Rightarrow> login_code" where
  "login_code_step nxt s (TypeEmail v) = s\<lparr>lc_email := v\<rparr>"
| "login_code_step nxt s SendCode = request_start s"
| "login_code_step nxt s EnterEmail = request_start s"
| "login_code_step nxt s (TypeCode v) = type_code v s"
| "login_code_step nxt s EnterCode = confirm_start s"
| "login_code_step nxt s LogIn = confirm_start s"
| "login_code_step nxt s Resend = request_start s"
| "login_code_step nxt s RequestOk = request_ok s"
| "login_code_step nxt s (RequestFail e) = request_fail e s"
| "login_code_step nxt s Second = second s"
| "login_code_step nxt s (ConfirmOk u) = confirm_ok nxt u s"
| "login_code_step nxt s (ConfirmFail e) = confirm_fail e s"

section \<open>The invariant\<close>

definition code_ok :: "jsstring \<Rightarrow> bool" where
  "code_ok c = (length c = 6 \<and> list_all digit c)"

definition code_inv :: "login_code \<Rightarrow> bool" where
  "code_inv s =
     (list_all digit (lc_code s) \<and> length (lc_code s) \<le> 6 \<and>
      length (confirms s) \<le> 1 \<and> (confirming s \<longleftrightarrow> confirms s \<noteq> []) \<and>
      list_all (\<lambda>(e, c). code_ok c) (sent_codes s) \<and>
      cooldown s \<le> 30 \<and> (cooldown s > 0 \<longrightarrow> timers s > 0))"

lemma digit_space: "digit c \<Longrightarrow> \<not> is_space c"
  by (auto simp: digit_def is_space_def)

lemma trim_digits: "list_all digit c \<Longrightarrow> trim c = c"
  using hd_in_set [of c] last_in_set [of c]
  by (cases "c = []") (auto simp: list_all_iff trim_def dropWhile_eq_self_iff dropWhile_rev_fixed digit_space
      simp del: hd_in_set last_in_set)

lemma six_digits_ok: "list_all digit (six_digits v)" "length (six_digits v) \<le> 6"
  using set_take_subset [of 6 "filter digit v"] by (auto simp: six_digits_def list_all_iff)

lemma confirm_inv: "code_inv s \<Longrightarrow> code_inv (confirm_start s)"
  by (auto simp: code_inv_def confirm_start_def Let_def code_ok_def trim_digits)

lemma code_inv_step:
  assumes "code_inv s" "code_guard s e"
  shows "code_inv (login_code_step nxt s e)"
proof (cases e)
  case (TypeCode v)
  have "code_inv (s\<lparr>lc_code := six_digits v\<rparr>)" using assms(1) six_digits_ok by (simp add: code_inv_def)
  then show ?thesis using TypeCode assms(1) by (auto simp: type_code_def Let_def confirm_inv)
next
  case Second
  then show ?thesis using assms by (auto simp: code_inv_def second_def)
next
  case (ConfirmOk u)
  then show ?thesis using assms by (cases "confirms s") (auto simp: code_inv_def confirm_ok_def)
next
  case (ConfirmFail x)
  then show ?thesis using assms by (cases "confirms s") (auto simp: code_inv_def confirm_fail_def)
next
  case EnterCode
  then show ?thesis using confirm_inv [OF assms(1)] by simp
next
  case LogIn
  then show ?thesis using confirm_inv [OF assms(1)] by simp
qed (use assms in \<open>auto simp: code_inv_def request_start_def request_ok_def request_fail_def\<close>)

interpretation code_page: bounded_machine "\<lambda>s. s = login_code0" code_guard "login_code_step nxt" code_inv
  "\<lambda>s. length (confirms s)" 1 for nxt
proof unfold_locales
  fix s assume "s = login_code0"
  then show "code_inv s" by (simp add: code_inv_def login_code0_def)
next
  fix s e assume "code_inv s" "code_guard s e"
  then show "code_inv (login_code_step nxt s e)" by (rule code_inv_step)
next
  fix s assume "code_inv s"
  then show "length (confirms s) \<le> 1" by (simp add: code_inv_def)
qed

abbreviation code_reach :: "jsstring option \<Rightarrow> login_code \<Rightarrow> bool" where
  "code_reach nxt \<equiv> reach (\<lambda>s. s = login_code0) code_guard (login_code_step nxt)"

text \<open>
  However a visitor types, clicks, presses Enter, asks again and waits: at most one
  confirmation is on its way at any time, and every code that was ever sent to the server
  has exactly six digits.
\<close>

theorem one_confirmation_at_a_time:
  assumes "code_reach nxt s"
  shows "length (confirms s) \<le> 1 \<and> list_all (\<lambda>(e, c). length c = 6 \<and> list_all digit c) (sent_codes s)"
  using code_page.reach_load [OF assms] code_page.reach_inv [OF assms]
  by (simp add: code_inv_def code_ok_def)

lemma seconds_run:
  "cooldown s > 0 \<longrightarrow> timers s > 0 \<Longrightarrow> cooldown s = n \<Longrightarrow>
   allowed code_guard (login_code_step nxt) s (replicate n Second) \<and>
   cooldown (run (login_code_step nxt) s (replicate n Second)) = 0 \<and>
   lc_step (run (login_code_step nxt) s (replicate n Second)) = lc_step s"
proof (induction n arbitrary: s)
  case (Suc n)
  have "cooldown (second s) = n" "lc_step (second s) = lc_step s"
    "cooldown (second s) > 0 \<longrightarrow> timers (second s) > 0"
    using Suc.prems by (auto simp: second_def)
  with Suc.IH [of "second s"] Suc.prems show ?case by simp
qed simp

text \<open>
  C32. A new code can be asked for again after at most thirty ticks: in every reachable state of
  the second step the countdown is at most 30, it is running while it is not over, and after
  that many ticks the button is enabled.
\<close>

theorem resend_comes_back:
  assumes "code_reach nxt s" "lc_step s = AskCode"
  shows "cooldown s \<le> 30 \<and>
    allowed code_guard (login_code_step nxt) s (replicate (cooldown s) Second @ [Resend])"
proof -
  have inv: "code_inv s" by (rule code_page.reach_inv [OF assms(1)])
  then have r: "allowed code_guard (login_code_step nxt) s (replicate (cooldown s) Second)"
      "cooldown (run (login_code_step nxt) s (replicate (cooldown s) Second)) = 0"
      "lc_step (run (login_code_step nxt) s (replicate (cooldown s) Second)) = AskCode"
    using seconds_run [of s] assms(2) by (auto simp: code_inv_def)
  have "allowed code_guard (login_code_step nxt) t (as @ bs) \<longleftrightarrow>
      allowed code_guard (login_code_step nxt) t as \<and> allowed code_guard (login_code_step nxt) (run (login_code_step nxt) t as) bs"
    for t as bs by (induction as arbitrary: t) auto
  with r have "allowed code_guard (login_code_step nxt) s (replicate (cooldown s) Second @ [Resend])"
    by (simp add: code_view_def split: option.splits)
  with inv show ?thesis by (simp add: code_inv_def)
qed

definition entered :: login_code where
  "entered = run (login_code_step None) login_code0
     [TypeEmail ''a@b.co'', SendCode, RequestOk, TypeCode ''12 34 56 78'', EnterCode]"

lemmas code_eval = login_code0_def request_start_def request_ok_def type_code_def confirm_start_def Let_def
  six_digits_def digit_def trim_def is_space_def email_ok_def code_view_def

lemma entered_eval: "entered = \<lparr>lc_email = ''a@b.co'', lc_code = ''123456'', lc_step = AskCode, lc_busy = True,
   lc_error = None, cooldown = 30, confirming = True, timers = 1, requesting = [],
   confirms = [(''a@b.co'', ''123456'')], sent_codes = [(''a@b.co'', ''123456'')], lc_session = None, lc_pushed = []\<rparr>"
  by (simp add: entered_def code_eval)

lemma entered_reach: "code_reach None entered"
  unfolding entered_def by (rule run_reachable) (simp_all add: code_eval)

theorem one_confirmation_at_a_time_witness: "length (confirms entered) \<le> 1"
  using one_confirmation_at_a_time [OF entered_reach] by simp

theorem resend_comes_back_witness:
  "cooldown entered = 30 \<and> allowed code_guard (login_code_step None) entered (replicate (cooldown entered) Second @ [Resend])"
  using resend_comes_back [OF entered_reach] by (simp add: entered_eval)

end
