(* ===== verification/AccountEndpoints.thy ===== *)
theory AccountEndpoints
  imports Endpoints
begin

text \<open>
  The endpoint functions of accounts and sessions, messaging, the family portal, memberships, bookings and payments, and the public catalogue. Each is a path, a
  request and the use of the answer; \<open>run_endpoint\<close> runs it with a client.
\<close>

section \<open>\<open>client/features/auth/api.ts\<close>\<close>

definition updateProfile :: "json \<Rightarrow> endpoint" where
  "updateProfile input =
     SEND ''PUT'' ''/auth/me/profile'' (JsonText input) Data"

definition markOnboarded :: endpoint where
  "markOnboarded =
     SEND ''POST'' ''/auth/me/onboarded'' NoBody Discard"

definition register :: "json \<Rightarrow> endpoint" where
  "register input =
     SEND ''POST'' ''/auth/register'' (JsonText input) Data"

definition login :: "jsstring \<Rightarrow> jsstring \<Rightarrow> bool option \<Rightarrow> endpoint" where
  "login email password rememberMe =
     SEND ''POST'' ''/auth/login'' (JsonText (JObj [(''email'', JStr email), (''password'', JStr password),
       (''remember_me'', JBool (dflt (True) rememberMe))])) Data"

definition confirmMFA :: "jsstring \<Rightarrow> jsstring \<Rightarrow> bool option \<Rightarrow> endpoint"
       where
  "confirmMFA email code rememberMe =
     SEND ''POST'' ''/auth/mfa/confirm'' (JsonText (JObj [(''email'', JStr email), (''code'', JStr code),
       (''remember_me'', JBool (dflt (True) rememberMe))])) Data"

definition logout :: endpoint where
  "logout =
     SEND ''POST'' ''/auth/logout'' NoBody Discard"

definition getCurrentUser :: endpoint where
  "getCurrentUser =
     (GET ''/auth/me'' Data)\<lparr>ep_catch := Some (JNull)\<rparr>"

definition resendVerificationEmail :: "jsstring \<Rightarrow> endpoint" where
  "resendVerificationEmail email =
     SEND ''POST'' ''/auth/verify-email/request'' (JsonText (JObj [(''email'', JStr email)])) Discard"

definition confirmVerification :: "jsstring \<Rightarrow> endpoint" where
  "confirmVerification token =
     SEND ''POST'' ''/auth/verify-email/confirm'' (JsonText (JObj [(''token'', JStr token)])) Data"

definition requestPasswordReset :: "jsstring \<Rightarrow> endpoint" where
  "requestPasswordReset email =
     SEND ''POST'' ''/auth/password-reset/request'' (JsonText (JObj [(''email'', JStr email)])) Discard"

definition confirmPasswordReset :: "jsstring \<Rightarrow> jsstring \<Rightarrow> endpoint" where
  "confirmPasswordReset token newPassword =
     SEND ''POST'' ''/auth/password-reset/confirm'' (JsonText (JObj [(''token'', JStr token),
       (''new_password'', JStr newPassword)])) Discard"

definition requestLoginCode :: "jsstring \<Rightarrow> endpoint" where
  "requestLoginCode email =
     SEND ''POST'' ''/auth/login-code/request'' (JsonText (JObj [(''email'', JStr email)])) Discard"

definition confirmLoginCode :: "jsstring \<Rightarrow> jsstring \<Rightarrow> endpoint" where
  "confirmLoginCode email code =
     SEND ''POST'' ''/auth/login-code/confirm'' (JsonText (JObj [(''email'', JStr email), (''code'', JStr
       code)])) Data"

definition getGoogleAuthURL :: endpoint where
  "getGoogleAuthURL =
     GET ''/auth/google/url'' Data"

definition getCollegeAuthConfig :: endpoint where
  "getCollegeAuthConfig =
     (GET ''/auth/college/config'' Data)\<lparr>ep_catch := Some (JObj [(''enabled'', JBool False)])\<rparr>"

definition loginWithCollegeCredentials :: "jsstring \<Rightarrow> jsstring \<Rightarrow> endpoint" where
  "loginWithCollegeCredentials email password =
     SEND ''POST'' ''/auth/college/credentials'' (JsonText (JObj [(''email'', JStr email), (''password'', JStr password)]))
       (Via (\<lambda>j. if j = JNull then Inl null_deref
          else case env_data j of None \<Rightarrow> Inl null_deref
            | Some d \<Rightarrow> Inr (Some (or_default (jget d ''user'') d))))"

definition setPrimaryRole :: "jsstring \<Rightarrow> endpoint" where
  "setPrimaryRole role =
     SEND ''POST'' ''/auth/me/role'' (JsonText (JObj [(''role'', JStr role)])) (Via (data_field ''roles''))"

definition changePassword :: "jsstring \<Rightarrow> jsstring \<Rightarrow> endpoint" where
  "changePassword currentPassword newPassword =
     SEND ''POST'' ''/auth/me/password'' (JsonText (JObj [(''current_password'', JStr currentPassword),
       (''new_password'', JStr newPassword)])) Discard"

definition getSessionContext :: endpoint where
  "getSessionContext =
     (GET ''/auth/me/context'' Data)\<lparr>ep_catch := Some (JNull)\<rparr>"

section \<open>\<open>client/features/account/api.ts\<close>\<close>

definition listDevices :: endpoint where
  "listDevices =
     GET ''/me/devices'' (DataOr (JArr []))"

definition removeDevice :: "jsstring \<Rightarrow> endpoint" where
  "removeDevice ident =
     SEND ''DELETE'' (''/me/devices/'' @ ident) NoBody Discard"

section \<open>\<open>client/features/onboarding/api.ts\<close>\<close>

definition createLearner :: "json \<Rightarrow> endpoint" where
  "createLearner input =
     SEND ''POST'' ''/me/learners'' (JsonText input) Data"

definition listLearners :: endpoint where
  "listLearners =
     GET ''/me/learners'' (DataOr (JArr []))"

definition ensureOwnLearner :: "json \<Rightarrow> endpoint" where
  "ensureOwnLearner input =
     SEND ''POST'' ''/me/learner-profile'' (JsonText input) Data"

section \<open>\<open>client/features/messaging/api.ts\<close>\<close>

definition listConversations :: "int option \<Rightarrow> endpoint" where
  "listConversations page =
     GET (''/me/conversations?page='' @ show_int (dflt 1 page)) Whole"

definition createBookingConversation :: "jsstring \<Rightarrow> jsstring list \<Rightarrow> endpoint" where
  "createBookingConversation packageId participantUserIds =
     SEND ''POST'' ''/me/conversations'' (JsonText (JObj [(''type'', JStr ''BOOKING''), (''package_id'',
       JStr packageId), (''participant_user_ids'', JArr (map JStr participantUserIds))])) Data"

definition listMessages :: "jsstring \<Rightarrow> int option \<Rightarrow> endpoint" where
  "listMessages conversationId limit =
     GET (''/me/conversations/'' @ conversationId @ ''/messages?limit='' @ show_int (dflt 50 limit)) Data"

definition sendMessage :: "jsstring \<Rightarrow> jsstring \<Rightarrow> endpoint" where
  "sendMessage conversationId body_json =
     SEND ''POST'' (''/me/conversations/'' @ conversationId @ ''/messages'') (JsonText (JObj [(''type'',
       JStr ''TEXT''), (''body'', JStr body_json)])) Data"

definition markConversationRead :: "jsstring \<Rightarrow> endpoint" where
  "markConversationRead conversationId =
     SEND ''POST'' (''/me/conversations/'' @ conversationId @ ''/read'') NoBody Discard"

definition listNotifications :: "int option \<Rightarrow> endpoint" where
  "listNotifications page =
     GET (''/me/notifications?page='' @ show_int (dflt 1 page)) Whole"

definition unreadCount :: endpoint where
  "unreadCount =
     GET ''/me/notifications/unread-count'' (Via (data_field_or ''unread'' (JNum 0)))"

definition markNotificationRead :: "jsstring \<Rightarrow> endpoint" where
  "markNotificationRead ident =
     SEND ''POST'' (''/me/notifications/'' @ ident @ ''/read'') NoBody Discard"

definition markAllNotificationsRead :: endpoint where
  "markAllNotificationsRead =
     SEND ''POST'' ''/me/notifications/read-all'' NoBody Discard"

definition listConversationContacts :: endpoint where
  "listConversationContacts =
     GET ''/me/conversation-contacts'' (DataOr (JArr []))"

definition startCohortConversation :: "jsstring \<Rightarrow> endpoint" where
  "startCohortConversation cohortId =
     SEND ''POST'' ''/me/conversations'' (JsonText (JObj [(''type'', JStr ''COHORT''), (''cohort_id'', JStr
       cohortId)])) Data"

section \<open>\<open>client/features/chat/api.ts\<close>\<close>

definition createChatThread :: "jsstring option \<Rightarrow> endpoint" where
  "createChatThread title =
     SEND ''POST'' ''/chat/threads'' (JsonText (obj [(''title'', map_option JStr title)])) Data"

definition listChatThreads :: endpoint where
  "listChatThreads =
     GET ''/chat/threads'' (DataOr (JArr []))"

definition listChatMessages :: "jsstring \<Rightarrow> endpoint" where
  "listChatMessages threadId =
     GET (''/chat/threads/'' @ threadId @ ''/messages'') (DataOr (JArr []))"

definition sendChatMessage :: "jsstring \<Rightarrow> jsstring \<Rightarrow> endpoint" where
  "sendChatMessage threadId content =
     SEND ''POST'' (''/chat/threads/'' @ threadId @ ''/messages'') (JsonText (JObj [(''content'', JStr
       content)])) Data"

definition escalateChatThread :: "jsstring \<Rightarrow> jsstring option \<Rightarrow> endpoint" where
  "escalateChatThread threadId note_text =
     SEND ''POST'' (''/chat/threads/'' @ threadId @ ''/escalate'') (JsonText (obj [(''note'', map_option
       JStr note_text)])) Discard"

definition rateChatThread :: "jsstring \<Rightarrow> int \<Rightarrow> jsstring option \<Rightarrow>
       endpoint" where
  "rateChatThread threadId score comment =
     SEND ''POST'' (''/chat/threads/'' @ threadId @ ''/rating'') (JsonText (obj [(''score'', Some (JNum
       score)), (''comment'', map_option JStr comment)])) Discard"

definition listAllChatThreads :: endpoint where
  "listAllChatThreads =
     GET ''/admin/chat/threads'' (DataOr (JArr []))"

definition getChatAnalytics :: endpoint where
  "getChatAnalytics =
     GET ''/admin/chat/analytics'' Data"

definition agentReply :: "jsstring \<Rightarrow> jsstring \<Rightarrow> endpoint" where
  "agentReply threadId content =
     SEND ''POST'' (''/admin/chat/threads/'' @ threadId @ ''/reply'') (JsonText (JObj [(''content'', JStr
       content)])) Data"

definition closeChatThread :: "jsstring \<Rightarrow> endpoint" where
  "closeChatThread threadId =
     SEND ''POST'' (''/admin/chat/threads/'' @ threadId @ ''/close'') NoBody Discard"

definition getChatTrends :: "int option \<Rightarrow> endpoint" where
  "getChatTrends days =
     GET (''/admin/chat/analytics/trends?days='' @ show_int (dflt 14 days)) (DataOr (JArr []))"

section \<open>\<open>client/features/portal/api.ts\<close>\<close>

definition listAvailability :: "jsstring option \<Rightarrow> endpoint" where
  "listAvailability tutorProfileId =
     GET (''/me/availability'' @ (opt_text tutorProfileId (\<lambda>tutorProfileId. ''?tutor_profile_id='' @
       tutorProfileId))) (DataOr (JArr []))"

definition upsertAvailability :: "json \<Rightarrow> endpoint" where
  "upsertAvailability input =
     SEND ''POST'' ''/me/availability'' (JsonText input) Data"

definition deleteAvailability :: "jsstring \<Rightarrow> jsstring option \<Rightarrow> endpoint" where
  "deleteAvailability ident tutorProfileId =
     SEND ''DELETE'' (''/me/availability/'' @ ident @ (opt_text tutorProfileId (\<lambda>tutorProfileId.
       ''?tutor_profile_id='' @ tutorProfileId))) NoBody Discard"

definition listAvailabilityExceptions :: "jsstring option \<Rightarrow> endpoint" where
  "listAvailabilityExceptions tutorProfileId =
     GET (''/me/availability-exceptions'' @ (opt_text tutorProfileId (\<lambda>tutorProfileId.
       ''?tutor_profile_id='' @ tutorProfileId))) (DataOr (JArr []))"

definition upsertAvailabilityException :: "json \<Rightarrow> endpoint" where
  "upsertAvailabilityException input =
     SEND ''POST'' ''/me/availability-exceptions'' (JsonText input) Data"

definition listMyAssignments :: "jsstring option \<Rightarrow> endpoint" where
  "listMyAssignments studentProfileId =
     GET (''/me/assignments'' @ (opt_text studentProfileId (\<lambda>studentProfileId.
       ''?student_profile_id='' @ studentProfileId))) (DataOr (JArr []))"

definition submitAssignment :: "jsstring \<Rightarrow> jsstring \<Rightarrow> jsstring \<Rightarrow>
       endpoint" where
  "submitAssignment studentProfileId assignmentId content =
     SEND ''POST'' (''/me/assignments/'' @ assignmentId @ ''/submit'' @ (if studentProfileId = [] then []
       else ''?student_profile_id='' @ studentProfileId)) (JsonText (JObj [(''content'', JStr content)]))
       Data"

definition listMySubmissions :: "jsstring option \<Rightarrow> endpoint" where
  "listMySubmissions studentProfileId =
     GET (''/me/submissions'' @ (opt_text studentProfileId (\<lambda>studentProfileId.
       ''?student_profile_id='' @ studentProfileId))) (DataOr (JArr []))"

definition getAttendanceSummary :: "jsstring option \<Rightarrow> endpoint" where
  "getAttendanceSummary studentProfileId =
     GET (''/me/attendance-summary'' @ (opt_text studentProfileId (\<lambda>studentProfileId.
       ''?student_profile_id='' @ studentProfileId))) Data"

definition getOrderReceipt :: "jsstring \<Rightarrow> endpoint" where
  "getOrderReceipt orderId =
     GET (''/me/orders/'' @ orderId) Data"

definition verifyOrder :: "jsstring \<Rightarrow> endpoint" where
  "verifyOrder orderId =
     SEND ''POST'' (''/me/orders/'' @ orderId @ ''/verify'') NoBody Data"

section \<open>\<open>client/features/plus/api.ts\<close>\<close>

definition getMyPlus :: endpoint where
  "getMyPlus =
     GET ''/me/plus'' Data"

definition listPlusPlans :: endpoint where
  "listPlusPlans =
     GET ''/plus/plans'' (DataOr (JArr []))"

definition activatePlus :: "jsstring \<Rightarrow> bool option \<Rightarrow> endpoint" where
  "activatePlus planCode trial =
     SEND ''POST'' ''/me/plus/activate'' (JsonText (JObj [(''plan_code'', JStr planCode), (''trial'', JBool
       (dflt (False) trial))])) Data"

definition purchasePlus :: "jsstring \<Rightarrow> endpoint" where
  "purchasePlus planCode =
     SEND ''POST'' ''/me/plus/purchase'' (JsonText (JObj [(''plan_code'', JStr planCode)])) Data"

definition getMyAdvisor :: endpoint where
  "getMyAdvisor =
     GET ''/me/advisor'' Data"

definition getMyLearningPlan :: "jsstring \<Rightarrow> endpoint" where
  "getMyLearningPlan studentProfileId =
     GET (''/me/advisor/plan?student_profile_id='' @ encode_uri_component (studentProfileId)) Data"

definition getPlusTeamsAllocation :: "jsstring \<Rightarrow> endpoint" where
  "getPlusTeamsAllocation institutionId =
     GET (''/me/institutions/'' @ institutionId @ ''/plus'') Data"

definition setPlusTeamsSeats :: "jsstring \<Rightarrow> int \<Rightarrow> endpoint" where
  "setPlusTeamsSeats institutionId totalSeats =
     SEND ''PUT'' (''/me/institutions/'' @ institutionId @ ''/plus/seats'') (JsonText (JObj
       [(''total_seats'', JNum totalSeats)])) Data"

definition listPlusTeamsSeats :: "jsstring \<Rightarrow> endpoint" where
  "listPlusTeamsSeats institutionId =
     GET (''/me/institutions/'' @ institutionId @ ''/plus/seats'') (DataOr (JArr []))"

definition assignPlusTeamSeat :: "jsstring \<Rightarrow> jsstring \<Rightarrow> endpoint" where
  "assignPlusTeamSeat institutionId userId =
     SEND ''POST'' (''/me/institutions/'' @ institutionId @ ''/plus/seats'') (JsonText (JObj [(''user_id'',
       JStr userId)])) Data"

definition releasePlusTeamSeat :: "jsstring \<Rightarrow> jsstring \<Rightarrow> endpoint" where
  "releasePlusTeamSeat institutionId userId =
     SEND ''DELETE'' (''/me/institutions/'' @ institutionId @ ''/plus/seats/'' @ userId) NoBody Discard"

definition cancelPlus :: endpoint where
  "cancelPlus =
     SEND ''POST'' ''/me/plus/cancel'' NoBody Discard"

section \<open>\<open>client/features/bookings/api/create.ts\<close>\<close>

definition createCohortBooking :: "jsstring \<Rightarrow> jsstring \<Rightarrow> jsstring \<Rightarrow> jsstring option \<Rightarrow> endpoint" where
  "createCohortBooking cohort_id student_id idempotency_key coupon_code =
     SEND ''POST'' ''/bookings''
       (JsonText (obj [(''type'', Some (JStr ''COHORT'')), (''cohort_id'', Some (JStr cohort_id)),
          (''student_id'', Some (JStr student_id)), (''idempotency_key'', Some (JStr idempotency_key)),
          (''coupon_code'', map_option JStr coupon_code)])) Data"

definition validateCoupon :: "jsstring \<Rightarrow> int \<Rightarrow> endpoint" where
  "validateCoupon code subtotal =
     SEND ''POST'' ''/coupons/validate'' (JsonText (JObj [(''code'', JStr code), (''subtotal'', JNum
       subtotal)])) Data"

definition createPrivateBooking :: "(jsstring \<times> json) list \<Rightarrow> endpoint" where
  "createPrivateBooking params =
     SEND ''POST'' ''/bookings'' (JsonText (JObj (spread [(''type'', JStr ''PRIVATE'')] params))) Data"

definition initiatePayment :: "json \<Rightarrow> endpoint" where
  "initiatePayment params =
     SEND ''POST'' ''/payments/initiate'' (JsonText params) Data"

section \<open>\<open>client/features/cohorts/api/get.ts\<close>\<close>

definition getCohortSSR :: "jsstring \<Rightarrow> endpoint" where
  "getCohortSSR ident =
     GET (''/cohorts/'' @ ident) Data"

section \<open>\<open>client/features/cohorts/api/join.ts\<close>\<close>

definition requestCohortJoin :: "jsstring \<Rightarrow> jsstring option \<Rightarrow> endpoint" where
  "requestCohortJoin cohortId note_text =
     SEND ''POST'' (''/me/cohorts/'' @ cohortId @ ''/join'')
       (JsonText (obj [(''note'', if dflt [] note_text = [] then None else map_option JStr note_text)])) Discard"

section \<open>\<open>client/features/cohorts/api/lessons.ts\<close>\<close>

definition getCohortLessonsSSR :: "jsstring \<Rightarrow> endpoint" where
  "getCohortLessonsSSR cohortId =
     GET (''/cohorts/'' @ cohortId @ ''/lessons'') (DataOr (JArr []))"

definition getCohortResources :: "jsstring \<Rightarrow> endpoint" where
  "getCohortResources cohortId =
     GET (''/cohorts/'' @ cohortId @ ''/resources'') (DataOr (JArr []))"

definition getCohortAssignments :: "jsstring \<Rightarrow> endpoint" where
  "getCohortAssignments cohortId =
     GET (''/cohorts/'' @ cohortId @ ''/assignments'') (DataOr (JArr []))"

section \<open>\<open>client/features/cohorts/api/list.ts\<close>\<close>

definition listCohorts :: "jsstring option \<Rightarrow> int option \<Rightarrow> int option \<Rightarrow> endpoint" where
  "listCohorts programme_id page page_size =
     GET (''/cohorts?'' @ qs_text (opt_s ''programme_id'' programme_id @ [(''page'', show_int (dflt 1 page)),
       (''page_size'', show_int (dflt 20 page_size))])) Whole"

section \<open>\<open>client/features/cohorts/api/waitlist.ts\<close>\<close>

definition getWaitlistCount :: "jsstring \<Rightarrow> endpoint" where
  "getWaitlistCount cohortId =
     GET (''/cohorts/'' @ cohortId @ ''/waitlist'') (Via (data_field_or ''waiting'' (JNum 0)))"

definition joinWaitlist :: "jsstring \<Rightarrow> endpoint" where
  "joinWaitlist cohortId =
     SEND ''POST'' (''/me/cohorts/'' @ cohortId @ ''/waitlist'') NoBody Data"

definition leaveWaitlist :: "jsstring \<Rightarrow> endpoint" where
  "leaveWaitlist cohortId =
     SEND ''DELETE'' (''/me/cohorts/'' @ cohortId @ ''/waitlist'') NoBody Discard"

definition getMyWaitlist :: "jsstring \<Rightarrow> endpoint" where
  "getMyWaitlist cohortId =
     GET (''/me/cohorts/'' @ cohortId @ ''/waitlist'') (DataOr JNull)"

definition adminListWaitlist :: "jsstring \<Rightarrow> endpoint" where
  "adminListWaitlist cohortId =
     GET (''/admin/cohorts/'' @ cohortId @ ''/waitlist'') (DataOr (JArr []))"

definition adminNotifyWaitlist :: "jsstring \<Rightarrow> endpoint" where
  "adminNotifyWaitlist cohortId =
     SEND ''POST'' (''/admin/cohorts/'' @ cohortId @ ''/waitlist/notify'') NoBody Data"

section \<open>\<open>client/features/programmes/api/list.ts\<close>\<close>

text \<open>\<open>Object.entries(params)\<close> with the values as texts, \<open>undefined\<close> and \<open>null\<close> as \<open>None\<close>.\<close>

definition listProgrammes :: "(jsstring \<times> jsstring option) list \<Rightarrow> endpoint" where
  "listProgrammes params =
     GET (''/programmes?'' @ qs_text (filter (\<lambda>(_, v). v \<noteq> []) (map (\<lambda>(k, v). (k, dflt [] v)) params))) Whole"

section \<open>\<open>client/features/subjects/api/list.ts\<close>\<close>

definition listSubjects :: "jsstring option \<Rightarrow> jsstring option \<Rightarrow> int option \<Rightarrow> int option \<Rightarrow> endpoint" where
  "listSubjects search category page page_size =
     GET (''/subjects?'' @ qs_text (opt_s ''search'' search @ opt_s ''category'' category @
       opt_n ''page'' page @ opt_n ''page_size'' page_size)) Whole"

section \<open>\<open>client/features/tutors/api/availability.ts\<close>\<close>

definition getTutorAvailability :: "jsstring \<Rightarrow> endpoint" where
  "getTutorAvailability tutorProfileId =
     GET (''/tutors/'' @ tutorProfileId @ ''/availability'') (DataOr (JArr []))"

definition getTutorAvailabilitySSR :: "jsstring \<Rightarrow> endpoint" where
  "getTutorAvailabilitySSR tutorProfileId =
     GET (''/tutors/'' @ tutorProfileId @ ''/availability'') (DataOr (JArr []))"

section \<open>\<open>client/features/tutors/api/search.ts\<close>\<close>

definition searchTutors :: "(jsstring \<times> jsstring option) list \<Rightarrow> endpoint" where
  "searchTutors params =
     GET (''/tutors/search?'' @ qs_text (filter (\<lambda>(_, v). v \<noteq> []) (map (\<lambda>(k, v). (k, dflt [] v)) params))) Whole"

end
