(* ===== verification/Login.thy ===== *)
theory Login
  imports LoginCode AccountEndpoints Device
begin

text \<open>
  Signing in with a password, \<open>client/app/(auth)/login/page.tsx\<close>, with the second step for
  administrators, the fallback to the college's portal and the remembered address; and the
  pages around it (\<open>reset-password\<close>, \<open>verify-email\<close>, \<open>forgot-password\<close>, \<open>register\<close>). The form
  library and the e-mail test of the schema library are parameters: the form calls its
  handler with the values when its validator accepts them.
\<close>

section \<open>Small functions\<close>

text \<open>\<open>/.../i.test(raw)\<close> for literal patterns.\<close>

definition mentions :: "jsstring \<Rightarrow> jsstring \<Rightarrow> bool" where
  "mentions raw p = str_includes (to_lower raw) p"

definition friendlyError :: "jsstring \<Rightarrow> jsstring" where
  "friendlyError raw =
     (if mentions raw ''invalid credentials'' then ''Email or password is incorrect. Try again, or reset your password below.''
      else if mentions raw ''not active'' then ''This account isn't active yet - check your inbox for the verification email.''
      else if mentions raw ''rate limit'' \<or> mentions raw ''too many'' then ''Too many attempts. Wait a minute, then try again.''
      else if mentions raw ''failed to fetch'' \<or> mentions raw ''network'' \<or> mentions raw ''fetch''
        then ''Can't reach YK-Virtual right now. Check your connection and try again.''
      else raw)"

text \<open>The remembered address; nothing happens where storage is refused.\<close>

definition persistRememberedEmail :: "bool \<Rightarrow> bool \<Rightarrow> jsstring \<Rightarrow> jsstring option \<Rightarrow> jsstring option" where
  "persistRememberedEmail allowed_storage remember email stored =
     (if \<not> allowed_storage then stored else if remember \<and> email \<noteq> [] then Some email else None)"

definition asks_college :: "jsstring \<Rightarrow> bool" where
  "asks_college raw = (mentions raw ''invalid credentials'' \<or> mentions raw ''incorrect'')"

section \<open>The page\<close>

record login_page =
  lp_email :: jsstring
  lp_password :: jsstring
  lp_error :: "jsstring option"
  lp_submitting :: bool
  rememberMe :: bool
  mfaEmail :: "jsstring option"
  mfaCode :: jsstring
  mfaError :: "jsstring option"
  mfaSubmitting :: bool
  attempts :: "(jsstring \<times> jsstring) list" \<comment> \<open>log-in calls in flight\<close>
  colleges :: "(jsstring \<times> jsstring \<times> jsstring) list" \<comment> \<open>college calls in flight, with the first error\<close>
  mfas :: "(jsstring \<times> jsstring) list" \<comment> \<open>confirmations in flight\<close>
  lp_session :: "current_user option"
  lp_pushed :: "jsstring list"
  remembered :: "jsstring option" \<comment> \<open>the browser's storage\<close>

text \<open>The state after the mount effect.\<close>

definition login_page0 :: "jsstring option \<Rightarrow> login_page" where
  "login_page0 stored =
     (let r = (case stored of None \<Rightarrow> [] | Some e \<Rightarrow> e) in
      \<lparr>lp_email = r, lp_password = [], lp_error = None, lp_submitting = False, rememberMe = (r \<noteq> []),
       mfaEmail = None, mfaCode = [], mfaError = None, mfaSubmitting = False, attempts = [], colleges = [], mfas = [],
       lp_session = None, lp_pushed = [], remembered = stored\<rparr>)"

definition submit :: "(jsstring \<Rightarrow> bool) \<Rightarrow> bool \<Rightarrow> login_page \<Rightarrow> login_page" where
  "submit valid_email store s =
     (if valid_email (lp_email s) \<and> lp_password s \<noteq> []
      then s\<lparr>lp_submitting := True, lp_error := None,
             remembered := persistRememberedEmail store (rememberMe s) (trim (lp_email s)) (remembered s),
             attempts := attempts s @ [(trim (lp_email s), lp_password s)]\<rparr>
      else s)"

definition signed_in :: "jsstring option \<Rightarrow> current_user \<Rightarrow> login_page \<Rightarrow> login_page" where
  "signed_in nxt u s = s\<lparr>lp_session := Some u, lp_pushed := lp_pushed s @ [destinationFor u nxt]\<rparr>"

definition login_ok :: "jsstring option \<Rightarrow> current_user \<Rightarrow> login_page \<Rightarrow> login_page" where
  "login_ok nxt u s = (signed_in nxt u s)\<lparr>lp_submitting := False, attempts := tl (attempts s)\<rparr>"

definition login_mfa :: "jsstring option \<Rightarrow> login_page \<Rightarrow> login_page" where
  "login_mfa email s = s\<lparr>mfaEmail := Some (case email of Some e \<Rightarrow> e | None \<Rightarrow> fst (hd (attempts s))),
     lp_submitting := False, attempts := tl (attempts s)\<rparr>"

definition login_fail :: "js_exn \<Rightarrow> login_page \<Rightarrow> login_page" where
  "login_fail e s =
     (let raw = (if instanceof_Error e then ex_message e else ''Login failed''); (email, pw) = hd (attempts s) in
      if asks_college raw then s\<lparr>attempts := tl (attempts s), colleges := colleges s @ [(email, pw, raw)]\<rparr>
      else s\<lparr>lp_error := Some (friendlyError raw), lp_submitting := False, attempts := tl (attempts s)\<rparr>)"

definition college_ok :: "jsstring option \<Rightarrow> current_user \<Rightarrow> login_page \<Rightarrow> login_page" where
  "college_ok nxt u s = (signed_in nxt u s)\<lparr>lp_submitting := False, colleges := tl (colleges s)\<rparr>"

definition college_fail :: "login_page \<Rightarrow> login_page" where
  "college_fail s = s\<lparr>lp_error := Some (friendlyError (snd (snd (hd (colleges s))))), lp_submitting := False,
     colleges := tl (colleges s)\<rparr>"

definition confirmMfaSubmit :: "bool \<Rightarrow> login_page \<Rightarrow> login_page" where
  "confirmMfaSubmit store s =
     (case mfaEmail s of
        None \<Rightarrow> s
      | Some m \<Rightarrow> if m = [] then s
          else s\<lparr>mfaSubmitting := True, mfaError := None,
                 remembered := persistRememberedEmail store (rememberMe s) m (remembered s),
                 mfas := mfas s @ [(m, mfaCode s)]\<rparr>)"

definition mfa_ok :: "jsstring option \<Rightarrow> current_user \<Rightarrow> login_page \<Rightarrow> login_page" where
  "mfa_ok nxt u s = (signed_in nxt u s)\<lparr>mfaSubmitting := False, mfas := tl (mfas s)\<rparr>"

definition mfa_fail :: "js_exn \<Rightarrow> login_page \<Rightarrow> login_page" where
  "mfa_fail e s = s\<lparr>mfaError := Some (if instanceof_Error e then ex_message e else ''That code was invalid or expired.''),
     mfaSubmitting := False, mfas := tl (mfas s)\<rparr>"

text \<open>Typing the code, and the effect that submits it once it has six digits.\<close>

definition type_mfa :: "bool \<Rightarrow> jsstring \<Rightarrow> login_page \<Rightarrow> login_page" where
  "type_mfa store v s =
     (let c = six_digits v; s1 = s\<lparr>mfaCode := c\<rparr> in
      if c = mfaCode s then s
      else if length c = 6 \<and> (case mfaEmail s1 of Some m \<Rightarrow> m \<noteq> [] | None \<Rightarrow> False) \<and> \<not> mfaSubmitting s1
      then confirmMfaSubmit store s1 else s1)"

definition other_account :: "login_page \<Rightarrow> login_page" where
  "other_account s = s\<lparr>mfaEmail := None, mfaCode := [], mfaError := None\<rparr>"

datatype login_event =
    TypeLogin jsstring jsstring
  | Remember bool
  | Submit
  | LoginOk current_user
  | LoginMfa "jsstring option"
  | LoginFail js_exn
  | CollegeOk current_user
  | CollegeFail js_exn
  | TypeMfa jsstring
  | EnterMfa
  | Verify
  | MfaOk current_user
  | MfaFail js_exn
  | OtherAccount

text \<open>The code screen is shown while \<open>mfaEmail\<close> is set.\<close>

definition mfa_shown :: "login_page \<Rightarrow> bool" where
  "mfa_shown s = (case mfaEmail s of Some m \<Rightarrow> m \<noteq> [] | None \<Rightarrow> False)"

fun login_guard :: "login_page \<Rightarrow> login_event \<Rightarrow> bool" where
  "login_guard s (TypeLogin e p) = (\<not> mfa_shown s)"
| "login_guard s (Remember b) = (\<not> mfa_shown s)"
| "login_guard s Submit = (\<not> mfa_shown s \<and> \<not> lp_submitting s)"
| "login_guard s (LoginOk u) = (attempts s \<noteq> [])"
| "login_guard s (LoginMfa e) = (attempts s \<noteq> [])"
| "login_guard s (LoginFail e) = (attempts s \<noteq> [])"
| "login_guard s (CollegeOk u) = (colleges s \<noteq> [])"
| "login_guard s (CollegeFail e) = (colleges s \<noteq> [])"
| "login_guard s (TypeMfa v) = mfa_shown s"
| "login_guard s EnterMfa = (mfa_shown s \<and> length (mfaCode s) = 6)"
| "login_guard s Verify = (mfa_shown s \<and> \<not> mfaSubmitting s \<and> length (mfaCode s) = 6)"
| "login_guard s (MfaOk u) = (mfas s \<noteq> [])"
| "login_guard s (MfaFail e) = (mfas s \<noteq> [])"
| "login_guard s OtherAccount = mfa_shown s"

fun login_step :: "(jsstring \<Rightarrow> bool) \<Rightarrow> bool \<Rightarrow> jsstring option \<Rightarrow> login_page \<Rightarrow> login_event \<Rightarrow> login_page" where
  "login_step ve st nxt s (TypeLogin e p) = s\<lparr>lp_email := e, lp_password := p\<rparr>"
| "login_step ve st nxt s (Remember b) = s\<lparr>rememberMe := b\<rparr>"
| "login_step ve st nxt s Submit = submit ve st s"
| "login_step ve st nxt s (LoginOk u) = login_ok nxt u s"
| "login_step ve st nxt s (LoginMfa e) = login_mfa e s"
| "login_step ve st nxt s (LoginFail e) = login_fail e s"
| "login_step ve st nxt s (CollegeOk u) = college_ok nxt u s"
| "login_step ve st nxt s (CollegeFail e) = college_fail s"
| "login_step ve st nxt s (TypeMfa v) = type_mfa st v s"
| "login_step ve st nxt s EnterMfa = confirmMfaSubmit st s"
| "login_step ve st nxt s Verify = confirmMfaSubmit st s"
| "login_step ve st nxt s (MfaOk u) = mfa_ok nxt u s"
| "login_step ve st nxt s (MfaFail e) = mfa_fail e s"
| "login_step ve st nxt s OtherAccount = other_account s"

section \<open>The form never hangs\<close>

definition login_inv :: "login_page \<Rightarrow> bool" where
  "login_inv s =
     (length (attempts s) + length (colleges s) = (if lp_submitting s then 1 else 0) \<and>
      list_all (\<lambda>(e, p). p \<noteq> []) (attempts s) \<and> list_all (\<lambda>(e, p, r). p \<noteq> [] \<and> asks_college r) (colleges s) \<and>
      list_all (\<lambda>(e, c). length c = 6 \<and> list_all digit c) (mfas s) \<and>
      list_all digit (mfaCode s) \<and> length (mfaCode s) \<le> 6)"

lemma mfa_submit_inv: "login_inv s \<Longrightarrow> length (mfaCode s) = 6 \<Longrightarrow> login_inv (confirmMfaSubmit st s)"
  by (auto simp: login_inv_def confirmMfaSubmit_def split: option.splits)

lemma type_mfa_inv: "login_inv s \<Longrightarrow> login_inv (type_mfa st v s)"
proof -
  assume "login_inv s"
  then have "login_inv (s\<lparr>mfaCode := six_digits v\<rparr>)" using six_digits_ok [of v] by (simp add: login_inv_def)
  with \<open>login_inv s\<close> show ?thesis by (auto simp: type_mfa_def Let_def intro: mfa_submit_inv)
qed

lemma login_inv_step:
  assumes "login_inv s" "login_guard s e"
  shows "login_inv (login_step ve st nxt s e)"
proof (cases e)
  case (TypeMfa v)
  then show ?thesis using type_mfa_inv [OF assms(1)] by simp
next
  case EnterMfa
  then show ?thesis using mfa_submit_inv [OF assms(1)] assms(2) by simp
next
  case Verify
  then show ?thesis using mfa_submit_inv [OF assms(1)] assms(2) by simp
next
  case (LoginOk u)
  then show ?thesis using assms
    by (cases "attempts s") (auto simp: login_inv_def login_ok_def signed_in_def split: if_splits)
next
  case (LoginMfa m)
  then show ?thesis using assms
    by (cases "attempts s") (auto simp: login_inv_def login_mfa_def split: if_splits)
next
  case (LoginFail x)
  then show ?thesis using assms
    by (cases "attempts s") (auto simp: login_inv_def login_fail_def Let_def split: if_splits)
next
  case (CollegeOk u)
  then show ?thesis using assms
    by (cases "colleges s") (auto simp: login_inv_def college_ok_def signed_in_def split: if_splits)
next
  case (CollegeFail x)
  then show ?thesis using assms
    by (cases "colleges s") (auto simp: login_inv_def college_fail_def split: if_splits)
next
  case (MfaOk u)
  then show ?thesis using assms by (cases "mfas s") (auto simp: login_inv_def mfa_ok_def signed_in_def)
next
  case (MfaFail x)
  then show ?thesis using assms by (cases "mfas s") (auto simp: login_inv_def mfa_fail_def)
qed (use assms in \<open>auto simp: login_inv_def submit_def other_account_def\<close>)

interpretation login_form: machine "\<lambda>s. \<exists>stored. s = login_page0 stored" login_guard "login_step ve st nxt" login_inv
  for ve st nxt
proof unfold_locales
  fix s assume "\<exists>stored. s = login_page0 stored"
  then show "login_inv s" by (auto simp: login_inv_def login_page0_def Let_def)
next
  fix s e assume "login_inv s" "login_guard s e"
  then show "login_inv (login_step ve st nxt s e)" by (rule login_inv_step)
qed

abbreviation login_reach ::
  "(jsstring \<Rightarrow> bool) \<Rightarrow> bool \<Rightarrow> jsstring option \<Rightarrow> login_page \<Rightarrow> bool" where
  "login_reach ve st nxt \<equiv> reach (\<lambda>s. \<exists>stored. s = login_page0 stored) login_guard (login_step ve st nxt)"

text \<open>
  The log-in form is waiting exactly while one log-in call or its one fallback call is in
  flight, so it always becomes usable again; no empty password is ever sent, the college's
  portal is asked only after a refusal that names the credentials, and only six-digit codes
  are sent for the second step.
\<close>

theorem login_form_settles:
  assumes "login_reach ve st nxt s"
  shows "length (attempts s) + length (colleges s) = (if lp_submitting s then 1 else 0) \<and>
    list_all (\<lambda>(e, p). p \<noteq> []) (attempts s) \<and> list_all (\<lambda>(e, p, r). p \<noteq> [] \<and> asks_college r) (colleges s) \<and>
    list_all (\<lambda>(e, c). length c = 6 \<and> list_all digit c) (mfas s)"
  using login_form.reach_inv [OF assms] by (simp add: login_inv_def)

text \<open>
  The second step can send one code twice: typing the sixth digit sends it, and Enter sends
  it again while the first confirmation is still in flight.
\<close>

theorem mfa_code_sent_twice:
  assumes "mfaEmail s = Some m" "m \<noteq> []" "mfaCode s = []" "\<not> mfaSubmitting s" "mfas s = []" "code_ok c"
  shows "allowed login_guard (login_step ve st nxt) s [TypeMfa c, EnterMfa] \<and>
    mfas (run (login_step ve st nxt) s [TypeMfa c, EnterMfa]) = [(m, c), (m, c)]"
proof -
  have "six_digits c = c" using assms(6) by (simp add: six_digits_def code_ok_def list_all_iff)
  moreover have "c \<noteq> []" "length c = 6" using assms(6) by (auto simp: code_ok_def)
  ultimately show ?thesis using assms
    by (simp add: mfa_shown_def type_mfa_def confirmMfaSubmit_def Let_def)
qed

text \<open>
  A remembered address comes back: after a log-in with the box ticked the next visit starts
  with the address and the box as they were left; without it, with neither.
\<close>

theorem remembered_email_roundtrip:
  assumes "ve (lp_email s)" "lp_password s \<noteq> []" "trim (lp_email s) \<noteq> []"
  shows "lp_email (login_page0 (remembered (submit ve True s))) = (if rememberMe s then trim (lp_email s) else []) \<and>
    rememberMe (login_page0 (remembered (submit ve True s))) = rememberMe s"
  using assms by (simp add: submit_def persistRememberedEmail_def login_page0_def Let_def)

definition at_mfa :: login_page where
  "at_mfa = (login_page0 None)\<lparr>mfaEmail := Some ''admin@b.co''\<rparr>"

theorem mfa_code_sent_twice_witness:
  "mfas (run (login_step (\<lambda>_. True) True None) at_mfa [TypeMfa ''123456'', EnterMfa])
    = [(''admin@b.co'', ''123456''), (''admin@b.co'', ''123456'')]"
  by (rule mfa_code_sent_twice [THEN conjunct2])
    (simp_all add: at_mfa_def login_page0_def Let_def code_ok_def digit_def)

theorem remembered_email_roundtrip_witness:
  "lp_email (login_page0 (remembered (submit (\<lambda>_. True) True
     ((login_page0 None)\<lparr>lp_email := '' a@b.co'', lp_password := ''secret'', rememberMe := True\<rparr>)))) = ''a@b.co''"
  by (subst remembered_email_roundtrip [THEN conjunct1]) (simp_all add: trim_def is_space_def login_page0_def Let_def)

theorem login_form_settles_witness:
  "length (attempts (submit (\<lambda>_. True) True ((login_page0 None)\<lparr>lp_email := ''a@b.co'', lp_password := ''secret''\<rparr>))) = 1"
proof -
  have "login_reach (\<lambda>_. True) True None (run (login_step (\<lambda>_. True) True None) (login_page0 None)
      [TypeLogin ''a@b.co'' ''secret'', Submit])"
    by (rule run_reachable) (auto simp: login_page0_def Let_def mfa_shown_def)
  from login_form_settles [OF this] show ?thesis
    by (simp add: submit_def login_page0_def Let_def)
qed

section \<open>The pages around it\<close>

text \<open>
  \<open>reset-password\<close>: what the validator reports (\<open>None\<close> when the form is sent), and the call
  with its outcome. The password's length counts UTF-16 units.
\<close>

record reset_page =
  rp_error :: "jsstring option"
  rp_submitting :: bool
  rp_done :: bool

definition reset_issues :: "jsstring \<Rightarrow> jsstring \<Rightarrow> jsstring option" where
  "reset_issues password confirm =
     (let issues = (if utf16_length password < 8 then [''Password must be at least 8 characters''] else if password \<noteq> confirm
        then [''Passwords do not match''] else [])
      in if issues = [] then None else Some (join ''; '' issues))"

definition reset_submit :: "client \<Rightarrow> jsstring \<Rightarrow> jsstring \<Rightarrow> jsstring \<Rightarrow> reset_page \<Rightarrow> reset_page" where
  "reset_submit call token password confirm s =
     (if reset_issues password confirm \<noteq> None then s
      else if token = [] then s\<lparr>rp_error := Some ''This reset link is invalid - please request a new one.''\<rparr>
      else (let ep = AccountEndpoints.confirmPasswordReset token password in
        case finish_endpoint ep (call (ep_path ep) (ep_init ep)) of
          Inl e \<Rightarrow> s\<lparr>rp_error := Some (if instanceof_Error e then ex_message e else ''Reset failed''), rp_submitting := False\<rparr>
        | Inr v \<Rightarrow> s\<lparr>rp_error := None, rp_submitting := False, rp_done := True\<rparr>))"

text \<open>\<open>verify-email\<close>\<close>

datatype verify_state = Working | Verified | VerifyError jsstring | ResendSent

definition verify_mount :: "client \<Rightarrow> jsstring option \<Rightarrow> verify_state" where
  "verify_mount call token =
     (case token of
        None \<Rightarrow> ResendSent
      | Some t \<Rightarrow> if t = [] then ResendSent
          else (let ep = AccountEndpoints.confirmVerification t in
            case finish_endpoint ep (call (ep_path ep) (ep_init ep)) of
              Inl e \<Rightarrow> VerifyError (if instanceof_Error e then ex_message e else ''Verification failed'')
            | Inr v \<Rightarrow> Verified))"

definition verify_continue :: "jsstring option \<Rightarrow> jsstring" where
  "verify_continue sp_next = (case safeNextPath sp_next of Some n \<Rightarrow> n | None \<Rightarrow> ''/login'')"

text \<open>The button sends exactly when the address has an \<open>@\<close>; a failed call leaves the page as it was.\<close>

definition verify_resend :: "client \<Rightarrow> jsstring \<Rightarrow> verify_state \<Rightarrow> verify_state" where
  "verify_resend call email s =
     (if \<not> str_includes email ''@'' then s
      else (let ep = resendVerificationEmail email in
        case finish_endpoint ep (call (ep_path ep) (ep_init ep)) of Inl e \<Rightarrow> s | Inr v \<Rightarrow> ResendSent))"

text \<open>\<open>forgot-password\<close>\<close>

record forgot_page =
  fp_email :: jsstring
  fp_sent :: bool
  fp_error :: "jsstring option"

definition forgot_submit :: "client \<Rightarrow> forgot_page \<Rightarrow> forgot_page" where
  "forgot_submit call s =
     (if \<not> str_includes (fp_email s) ''@'' then s\<lparr>fp_error := Some ''Enter a valid email''\<rparr>
      else (let ep = AccountEndpoints.requestPasswordReset (fp_email s) in
        case finish_endpoint ep (call (ep_path ep) (ep_init ep)) of
          Inl e \<Rightarrow> s\<lparr>fp_error := Some (if instanceof_Error e then ex_message e else ''Something went wrong'')\<rparr>
        | Inr v \<Rightarrow> s\<lparr>fp_error := None, fp_sent := True\<rparr>))"

text \<open>\<open>register\<close>: the first value of a repeated parameter, and the parameters that are forwarded.\<close>

definition RegisterPage :: "jsstring list \<Rightarrow> jsstring list \<Rightarrow> jsstring" where
  "RegisterPage nexts refs =
     (let nxt = (case nexts of [] \<Rightarrow> [] | n # _ \<Rightarrow> n); r = (case refs of [] \<Rightarrow> [] | x # _ \<Rightarrow> x);
          qs = (if nxt \<noteq> [] \<and> starts_with nxt ''/'' \<and> \<not> starts_with nxt ''//'' then [(''next'', nxt)] else []) @
               (if r \<noteq> [] then [(''ref'', r)] else [])
      in if qs_text qs \<noteq> [] then ''/onboarding?'' @ qs_text qs else ''/onboarding'')"

text \<open>
  A root-relative return target and a referral code survive the hop from the register page
  to the signup flow unchanged, and nothing else is forwarded.
\<close>

theorem register_forwards:
  assumes "starts_with nxt ''/''" "\<not> starts_with nxt ''//''" "r \<noteq> []"
  shows "\<exists>q. RegisterPage (nxt # ns) (r # rs) = ''/onboarding?'' @ q \<and> parse_qs q = [(''next'', nxt), (''ref'', r)]"
proof -
  have "nxt \<noteq> []" using assms(1) by auto
  moreover have "qs_text [(''next'', nxt), (''ref'', r)] \<noteq> []"
    using parse_qs_text [of "[(''next'', nxt), (''ref'', r)]"] by (auto simp: parse_qs_def)
  ultimately show ?thesis using assms by (simp add: RegisterPage_def Let_def parse_qs_text)
qed

theorem register_forwards_witness:
  "\<exists>q. RegisterPage [''/checkout/a?b=1''] [''KAY10''] = ''/onboarding?'' @ q \<and>
     parse_qs q = [(''next'', ''/checkout/a?b=1''), (''ref'', ''KAY10'')]"
  by (rule register_forwards) simp_all

end
