(* ===== verification/Checkout.thy ===== *)
theory Checkout
  imports Machine SafeNext AccountEndpoints Drafts
begin

text \<open>
  Paying for a seat: \<open>client/features/bookings/components/CheckoutClient.tsx\<close> and the
  enrolment window of \<open>client/features/cohorts/api/get.ts\<close>. A state is the hooks of the
  component with the calls in flight and a log of what was sent, answered and opened; the
  events are the form's inputs, the buttons the page offers and the settling of the calls.
  The validators of the form library (a UUID, an e-mail address) and the date formatter are
  parameters. The card that waits for the gateway is a machine of its own.
\<close>

section \<open>The cohort and its enrolment window\<close>

record cohort =
  co_id :: jsstring
  co_capacity :: int
  co_enrolled_count :: int
  co_end_date :: jsstring
  co_fee :: int
  co_opens_at :: "jsstring option"
  co_closes_at :: "jsstring option"

text \<open>
  \<open>time s\<close> is \<open>new Date(s).getTime()\<close>, \<open>None\<close> for an unreadable text: every comparison with
  it is false. \<open>show_date\<close> is \<open>toLocaleDateString\<close>.
\<close>

definition is_before :: "int \<Rightarrow> int option \<Rightarrow> bool" where
  "is_before now t = (case t of Some x \<Rightarrow> now < x | None \<Rightarrow> False)"

definition is_after :: "int \<Rightarrow> int option \<Rightarrow> bool" where
  "is_after now t = (case t of Some x \<Rightarrow> now > x | None \<Rightarrow> False)"

definition given :: "jsstring option \<Rightarrow> bool" where
  "given x = (x \<noteq> None \<and> x \<noteq> Some [])"

definition enrollmentWindow ::
  "(jsstring \<Rightarrow> int option) \<Rightarrow> (jsstring \<Rightarrow> jsstring) \<Rightarrow> cohort \<Rightarrow> int \<Rightarrow> bool \<times> jsstring option" where
  "enrollmentWindow time show_date c now =
     (if given (co_opens_at c) \<and> is_before now (time (the (co_opens_at c)))
      then (False, Some (''Enrolment opens '' @ show_date (the (co_opens_at c))))
      else if given (co_closes_at c) \<and> is_after now (time (the (co_closes_at c)))
      then (False, Some ''Enrolment for this cohort has closed'')
      else if co_end_date c \<noteq> [] \<and> is_after now (time (co_end_date c))
      then (False, Some ''This cohort has ended'')
      else (True, None))"

definition seatsLeft :: "cohort \<Rightarrow> int" where
  "seatsLeft c = max 0 (co_capacity c - co_enrolled_count c)"

section \<open>State\<close>

datatype provider = PAYSTACK | FLUTTERWAVE

record order =
  or_id :: jsstring
  or_number :: jsstring
  or_status :: jsstring

record booking_response =
  bk_order :: order
  bk_payment_required :: bool

record payment_response =
  pa_order_number :: jsstring
  pa_link :: jsstring

record coupon_validation =
  cv_code :: jsstring
  cv_discount :: int
  cv_currency :: jsstring

record checkout_values =
  v_student_id :: jsstring
  v_email :: jsstring
  v_provider :: provider

datatype checkout_step =
    Form
  | Creating
  | Error jsstring
  | Initiating
  | LinkReady booking_response payment_response

record booking_request =
  br_cohort :: jsstring
  br_student :: jsstring
  br_key :: jsstring
  br_coupon :: "jsstring option"

record payment_request =
  pq_order :: jsstring
  pq_provider :: provider
  pq_email :: jsstring
  pq_callback :: jsstring

record checkout =
  ck_user :: bool
  ck_loading :: bool
  ck_step :: checkout_step
  ck_values :: checkout_values
  couponCode :: jsstring
  couponResult :: "coupon_validation option"
  couponError :: "jsstring option"
  couponBusy :: bool
  coupon_calls :: "jsstring list" \<comment> \<open>coupon checks in flight\<close>
  booking_call :: "checkout_values option" \<comment> \<open>the booking in flight, with the submitted values\<close>
  payment_call :: "booking_response option" \<comment> \<open>the payment being initiated\<close>
  bookings_sent :: "booking_request list"
  booked :: "(booking_request \<times> booking_response) list" \<comment> \<open>the bookings the server answered, with its answers\<close>
  payments_sent :: "payment_request list"
  coupons_ok :: "jsstring list" \<comment> \<open>codes the server has validated\<close>
  links :: "jsstring list" \<comment> \<open>payment links the server has issued\<close>
  assigned :: "jsstring list" \<comment> \<open>addresses the page has opened\<close>
  ck_pushed :: "jsstring list"
  cached_orders :: "order list option"
  cached_order :: "jsstring \<Rightarrow> order option"
  goals :: "jsstring list" \<comment> \<open>analytics goals\<close>

definition checkout0 :: checkout where
  "checkout0 = \<lparr>ck_user = False, ck_loading = True, ck_step = Form,
     ck_values = \<lparr>v_student_id = [], v_email = [], v_provider = PAYSTACK\<rparr>,
     couponCode = [], couponResult = None, couponError = None, couponBusy = False, coupon_calls = [],
     booking_call = None, payment_call = None, bookings_sent = [], booked = [], payments_sent = [], coupons_ok = [],
     links = [], assigned = [], ck_pushed = [], cached_orders = None, cached_order = (\<lambda>_. None), goals = []\<rparr>"

text \<open>
  What stays the same while the page is open: the cohort, the memoised window, the
  idempotency key, the address of the page and the form library's two checks.
\<close>

record checkout_env =
  en_cohort :: cohort
  en_window :: "bool \<times> jsstring option"
  en_key :: jsstring
  en_pathname :: jsstring
  en_search :: jsstring
  en_uuid :: "jsstring \<Rightarrow> bool"
  en_email :: "jsstring \<Rightarrow> bool"
  en_variant :: variant

abbreviation en_open :: "checkout_env \<Rightarrow> bool" where
  "en_open en \<equiv> fst (en_window en)"

definition en_reason :: "checkout_env \<Rightarrow> jsstring \<Rightarrow> jsstring" where
  "en_reason en d = (case snd (en_window en) of Some r \<Rightarrow> r | None \<Rightarrow> d)"

definition middle_dot :: jsstring where "middle_dot = [CHR 0xC2, CHR 0xB7]"

definition checkoutSchema :: "checkout_env \<Rightarrow> checkout_values \<Rightarrow> bool" where
  "checkoutSchema en v = (en_uuid en (v_student_id v) \<and> en_email en (v_email v))"

section \<open>Handlers\<close>

definition booking_of :: "checkout_env \<Rightarrow> checkout \<Rightarrow> booking_request" where
  "booking_of en s = \<lparr>br_cohort = co_id (en_cohort en), br_student = v_student_id (ck_values s),
     br_key = en_key en, br_coupon = map_option cv_code (couponResult s)\<rparr>"

text \<open>The request as the endpoint function sends it.\<close>

definition booking_endpoint :: "booking_request \<Rightarrow> endpoint" where
  "booking_endpoint r = createCohortBooking (br_cohort r) (br_student r) (br_key r) (br_coupon r)"

definition submit_checkout :: "checkout_env \<Rightarrow> checkout \<Rightarrow> checkout" where
  "submit_checkout en s =
     (if checkoutSchema en (ck_values s)
      then s\<lparr>goals := goals s @ [''begin_checkout''], ck_step := Creating, booking_call := Some (ck_values s),
             bookings_sent := bookings_sent s @ [booking_of en s]\<rparr>
      else s)"

definition cache_booking :: "order \<Rightarrow> checkout \<Rightarrow> checkout" where
  "cache_booking o' s = s\<lparr>cached_orders := Some (o' # (case cached_orders s of Some xs \<Rightarrow> xs | None \<Rightarrow> [])),
     cached_order := (cached_order s)(or_number o' \<mapsto> o')\<rparr>"

definition payment_of :: "booking_response \<Rightarrow> checkout_values \<Rightarrow> payment_request" where
  "payment_of b v = \<lparr>pq_order = or_id (bk_order b), pq_provider = v_provider v, pq_email = v_email v,
     pq_callback = ''/receipts/'' @ or_id (bk_order b)\<rparr>"

definition booking_ok :: "booking_response \<Rightarrow> checkout \<Rightarrow> checkout" where
  "booking_ok b s =
     (let s1 = (cache_booking (bk_order b) s)\<lparr>booking_call := None, booked := booked s @ [(last (bookings_sent s), b)]\<rparr> in
      if \<not> bk_payment_required b
      then s1\<lparr>ck_step := Error (''This booking was already paid '' @ em_dash @ '' please check your dashboard.'')\<rparr>
      else s1\<lparr>ck_step := Initiating, payment_call := Some b,
              payments_sent := payments_sent s @ [payment_of b (the (booking_call s))]\<rparr>)"

definition failed_step :: "js_exn \<Rightarrow> checkout_step" where
  "failed_step e = Error (if instanceof_Error e then ex_message e else ''Something went wrong. Please try again.'')"

definition mark_pending :: "jsstring \<Rightarrow> checkout \<Rightarrow> checkout" where
  "mark_pending n s = s\<lparr>cached_order := (case cached_order s n of
       Some old \<Rightarrow> (cached_order s)(n \<mapsto> old\<lparr>or_status := ''PENDING''\<rparr>) | None \<Rightarrow> cached_order s)\<rparr>"

definition payment_ok :: "payment_response \<Rightarrow> checkout \<Rightarrow> checkout" where
  "payment_ok p s =
     (let s1 = mark_pending (pa_order_number p) s in
      s1\<lparr>payment_call := None, ck_step := LinkReady (the (payment_call s)) p, links := links s @ [pa_link p],
         goals := goals s @ [''payment_link''],
         assigned := (if pa_link p = [] then assigned s else assigned s @ [pa_link p])\<rparr>)"

definition type_coupon :: "jsstring \<Rightarrow> checkout \<Rightarrow> checkout" where
  "type_coupon v s = s\<lparr>couponCode := v, couponResult := None, couponError := None\<rparr>"

definition applyCoupon :: "checkout \<Rightarrow> checkout" where
  "applyCoupon s = (if trim (couponCode s) = [] then s
     else s\<lparr>couponBusy := True, couponError := None, coupon_calls := coupon_calls s @ [trim (couponCode s)]\<rparr>)"

definition coupon_ok :: "coupon_validation \<Rightarrow> checkout \<Rightarrow> checkout" where
  "coupon_ok r s = s\<lparr>couponResult := Some r, couponBusy := False, coupon_calls := tl (coupon_calls s),
     coupons_ok := coupons_ok s @ [cv_code r]\<rparr>"

definition coupon_fail :: "js_exn \<Rightarrow> checkout \<Rightarrow> checkout" where
  "coupon_fail e s = s\<lparr>couponResult := None,
     couponError := Some (if instanceof_Error e then ex_message e else ''That coupon isn'' @ [CHR 0x27] @ ''t valid for this order.''),
     couponBusy := False, coupon_calls := tl (coupon_calls s)\<rparr>"

section \<open>The page\<close>

datatype checkout_event =
    SessionIs bool bool
  | PickLearner jsstring
  | TypeBilling jsstring
  | PickProvider provider
  | TypeCoupon jsstring
  | ApplyCoupon
  | CouponOk coupon_validation
  | CouponErr js_exn
  | Submit
  | BookingOk booking_response
  | BookingErr js_exn
  | PaymentOk payment_response
  | PaymentErr js_exn
  | SignIn
  | CreateAccount

definition pay_enabled :: "checkout_env \<Rightarrow> checkout \<Rightarrow> bool" where
  "pay_enabled en s = (\<not> (booking_call s \<noteq> None \<or> payment_call s \<noteq> None \<or> v_student_id (ck_values s) = [] \<or>
     v_email (ck_values s) = [] \<or> seatsLeft (en_cohort en) = 0 \<or> \<not> en_open en))"

definition pay_label :: "checkout_env \<Rightarrow> checkout \<Rightarrow> jsstring" where
  "pay_label en s =
     (if booking_call s \<noteq> None \<or> payment_call s \<noteq> None then ''Processing'' @ ellipsis
      else if \<not> en_open en then en_reason en ''Enrolment closed''
      else if en_variant en = B then ''Secure my seat now'' else ''Pay securely now'')"

definition seats_text :: "cohort \<Rightarrow> jsstring" where
  "seats_text c = (if seatsLeft c > 0
     then show_int (seatsLeft c) @ '' of '' @ show_int (co_capacity c) @ '' seats left'' else ''Cohort full'')"

definition form_view :: "checkout_env \<Rightarrow> checkout \<Rightarrow> checkout_event widget list" where
  "form_view en s =
     [Txt (seats_text (en_cohort en))] @ (if en_open en then [] else [Txt (en_reason en [])]) @
     [Field ''Billing email'' (v_email (ck_values s)),
      Btn (''Card '' @ middle_dot @ '' Paystack'') True (PickProvider PAYSTACK), Btn (''Bank '' @ middle_dot @ '' Flutterwave'') True (PickProvider FLUTTERWAVE),
      Field ''Promo code (optional)'' (couponCode s),
      Btn (if couponBusy s then ''Checking'' @ ellipsis else ''Apply'') (\<not> (couponBusy s \<or> trim (couponCode s) = [])) ApplyCoupon] @
     (case couponResult s of Some r \<Rightarrow> [Txt (cv_code r @ '' applied'')]
      | None \<Rightarrow> case couponError s of Some e \<Rightarrow> if e = [] then [] else [Txt e] | None \<Rightarrow> []) @
     (case ck_step s of Error m \<Rightarrow> [Txt m] | _ \<Rightarrow> []) @
     [Btn (pay_label en s) (pay_enabled en s) Submit]"

definition checkout_view :: "checkout_env \<Rightarrow> checkout \<Rightarrow> checkout_event widget list" where
  "checkout_view en s =
     (case ck_step s of
        Creating \<Rightarrow> [Txt (''Creating your secure booking order'' @ ellipsis)]
      | Initiating \<Rightarrow> [Txt (''Connecting to the payment gateway'' @ ellipsis)]
      | st \<Rightarrow>
          if \<not> ck_user s
          then (if ck_loading s then []
                else [Btn ''Sign in to enrol'' True SignIn, Btn ''Create free account'' True CreateAccount])
          else (case st of LinkReady b p \<Rightarrow> [Txt (''Order '' @ or_number (bk_order b) @ '' '' @ em_dash @ '' ready to pay'')]
                | _ \<Rightarrow> form_view en s))"

definition form_shown :: "checkout \<Rightarrow> bool" where
  "form_shown s = (ck_user s \<and> (case ck_step s of Form \<Rightarrow> True | Error m \<Rightarrow> True | _ \<Rightarrow> False))"

fun checkout_guard :: "checkout_env \<Rightarrow> checkout \<Rightarrow> checkout_event \<Rightarrow> bool" where
  "checkout_guard en s (SessionIs u l) = True"
| "checkout_guard en s (PickLearner x) = form_shown s"
| "checkout_guard en s (TypeBilling x) = form_shown s"
| "checkout_guard en s (TypeCoupon x) = form_shown s"
| "checkout_guard en s (CouponOk r) = (coupon_calls s \<noteq> [])"
| "checkout_guard en s (CouponErr e) = (coupon_calls s \<noteq> [])"
| "checkout_guard en s (BookingOk b) = (booking_call s \<noteq> None)"
| "checkout_guard en s (BookingErr e) = (booking_call s \<noteq> None)"
| "checkout_guard en s (PaymentOk p) = (payment_call s \<noteq> None)"
| "checkout_guard en s (PaymentErr e) = (payment_call s \<noteq> None)"
| "checkout_guard en s e = (e \<in> set (offered (checkout_view en s)))"

fun checkout_do :: "checkout_env \<Rightarrow> checkout \<Rightarrow> checkout_event \<Rightarrow> checkout" where
  "checkout_do en s (SessionIs u l) = s\<lparr>ck_user := u, ck_loading := l\<rparr>"
| "checkout_do en s (PickLearner x) = s\<lparr>ck_values := (ck_values s)\<lparr>v_student_id := x\<rparr>\<rparr>"
| "checkout_do en s (TypeBilling x) = s\<lparr>ck_values := (ck_values s)\<lparr>v_email := x\<rparr>\<rparr>"
| "checkout_do en s (PickProvider p) = s\<lparr>ck_values := (ck_values s)\<lparr>v_provider := p\<rparr>\<rparr>"
| "checkout_do en s (TypeCoupon v) = type_coupon v s"
| "checkout_do en s ApplyCoupon = applyCoupon s"
| "checkout_do en s (CouponOk r) = coupon_ok r s"
| "checkout_do en s (CouponErr e) = coupon_fail e s"
| "checkout_do en s Submit = submit_checkout en s"
| "checkout_do en s (BookingOk b) = booking_ok b s"
| "checkout_do en s (BookingErr e) = s\<lparr>booking_call := None, ck_step := failed_step e\<rparr>"
| "checkout_do en s (PaymentOk p) = payment_ok p s"
| "checkout_do en s (PaymentErr e) = s\<lparr>payment_call := None, ck_step := failed_step e\<rparr>"
| "checkout_do en s SignIn = s\<lparr>ck_pushed := ck_pushed s @ [loginWithReturn (Some (en_pathname en, en_search en))]\<rparr>"
| "checkout_do en s CreateAccount = s\<lparr>ck_pushed := ck_pushed s @ [''/register?next='' @ encode_uri_component (en_pathname en)]\<rparr>"


section \<open>What can reach the server\<close>

definition booking_request_ok :: "checkout_env \<Rightarrow> jsstring list \<Rightarrow> booking_request \<Rightarrow> bool" where
  "booking_request_ok en ok r = (br_cohort r = co_id (en_cohort en) \<and> br_key r = en_key en \<and>
     en_uuid en (br_student r) \<and> pred_option (\<lambda>c. c \<in> set ok) (br_coupon r))"

definition payment_request_ok :: "checkout_env \<Rightarrow> payment_request \<Rightarrow> bool" where
  "payment_request_ok en p = (en_email en (pq_email p) \<and> pq_callback p = ''/receipts/'' @ pq_order p)"

text \<open>
  The orders the server answered with as still to be paid, and the bookings it can still answer.
\<close>

definition orders_to_pay :: "(booking_request \<times> booking_response) list \<Rightarrow> jsstring list" where
  "orders_to_pay rs = map (or_id \<circ> bk_order) (filter bk_payment_required (map snd rs))"

fun settled_bookings :: "checkout_values option \<Rightarrow> booking_request list \<Rightarrow> booking_request list" where
  "settled_bookings None rs = rs"
| "settled_bookings (Some v) rs = butlast rs"

definition in_flight :: "checkout \<Rightarrow> nat" where
  "in_flight s = (if booking_call s = None then 0 else 1) + (if payment_call s = None then 0 else 1)"

definition checkout_inv :: "checkout_env \<Rightarrow> checkout \<Rightarrow> bool" where
  "checkout_inv en s =
     ((booking_call s \<noteq> None \<longleftrightarrow> ck_step s = Creating) \<and> (payment_call s \<noteq> None \<longleftrightarrow> ck_step s = Initiating) \<and>
      pred_option (checkoutSchema en) (booking_call s) \<and>
      pred_option (\<lambda>r. cv_code r \<in> set (coupons_ok s)) (couponResult s) \<and>
      length (coupon_calls s) \<le> 1 \<and> (couponBusy s \<longleftrightarrow> coupon_calls s \<noteq> []) \<and>
      list_all (booking_request_ok en (coupons_ok s)) (bookings_sent s) \<and>
      list_all (payment_request_ok en) (payments_sent s) \<and>
      (booking_call s \<noteq> None \<longrightarrow> bookings_sent s \<noteq> []) \<and>
      subseq (map fst (booked s)) (settled_bookings (booking_call s) (bookings_sent s)) \<and>
      map pq_order (payments_sent s) = orders_to_pay (booked s) \<and>
      length (links s) + (if payment_call s = None then 0 else 1) \<le> length (payments_sent s) \<and>
      set (assigned s) \<subseteq> set (links s) \<and>
      (seatsLeft (en_cohort en) = 0 \<or> \<not> en_open en \<longrightarrow> bookings_sent s = []))"

text \<open>A button of the page that is offered says what the state is.\<close>

lemma offered_case_Txt [simp]:
  "offered (case x of None \<Rightarrow> [] | Some y \<Rightarrow> if y = [] then [] else [Txt y]) = []"
  by (cases x) auto

lemma form_view_offers:
  "e \<in> set (offered (form_view en s)) \<longleftrightarrow>
     e = PickProvider PAYSTACK \<or> e = PickProvider FLUTTERWAVE \<or>
     e = ApplyCoupon \<and> \<not> couponBusy s \<and> trim (couponCode s) \<noteq> [] \<or> e = Submit \<and> pay_enabled en s"
  by (cases "couponResult s"; cases "ck_step s"; auto simp: form_view_def)

lemma checkout_view_offers:
  "e \<in> set (offered (checkout_view en s)) \<longleftrightarrow>
     (if form_shown s then e \<in> set (offered (form_view en s))
      else e \<in> {SignIn, CreateAccount} \<and> \<not> ck_user s \<and> \<not> ck_loading s \<and> ck_step s \<notin> {Creating, Initiating})"
  by (cases "ck_step s") (auto simp: checkout_view_def form_shown_def)

lemma booking_request_mono: "booking_request_ok en ok r \<Longrightarrow> set ok \<subseteq> set ok' \<Longrightarrow> booking_request_ok en ok' r"
  by (cases "br_coupon r") (auto simp: booking_request_ok_def)

lemma bookings_mono:
  "list_all (booking_request_ok en ok) rs \<Longrightarrow> set ok \<subseteq> set ok' \<Longrightarrow> list_all (booking_request_ok en ok') rs"
  by (auto simp: list_all_iff intro: booking_request_mono)


text \<open>The answer to the booking in flight is the answer to the last one sent.\<close>

lemma subseq_last: "xs \<noteq> [] \<Longrightarrow> subseq ys (butlast xs) \<Longrightarrow> subseq (ys @ [last xs]) xs"
  using list_emb_append_mono [of "(=)" ys "butlast xs" "[last xs]" "[last xs]"] by simp

lemma subseq_butlast: "subseq (butlast xs) xs"
  by (cases xs rule: rev_cases) auto

lemma submit_inv:
  assumes "checkout_inv en s" "pay_enabled en s"
  shows "checkout_inv en (submit_checkout en s)"
proof -
  have idle: "booking_call s = None" "payment_call s = None" using assms(2) by (auto simp: pay_enabled_def)
  have "booking_request_ok en (coupons_ok s) (booking_of en s)" if "checkoutSchema en (ck_values s)"
    using assms(1) that by (cases "couponResult s") (auto simp: booking_request_ok_def booking_of_def checkoutSchema_def checkout_inv_def)
  then show ?thesis using assms idle
    by (auto simp: checkout_inv_def submit_checkout_def pay_enabled_def orders_to_pay_def)
qed

lemma booking_ok_inv:
  assumes "checkout_inv en s" "booking_call s \<noteq> None"
  shows "checkout_inv en (booking_ok b s)"
proof -
  obtain v where v: "booking_call s = Some v" using assms(2) by blast
  then have "payment_request_ok en (payment_of b v)"
    using assms(1) by (simp add: checkout_inv_def checkoutSchema_def payment_request_ok_def payment_of_def)
  moreover have "subseq (map fst (booked s) @ [last (bookings_sent s)]) (bookings_sent s)"
    using assms(1) v by (auto simp: checkout_inv_def intro: subseq_last)
  ultimately show ?thesis using assms(1) v
    by (auto simp: checkout_inv_def booking_ok_def cache_booking_def orders_to_pay_def payment_of_def Let_def)
qed

lemma payment_ok_inv:
  assumes "checkout_inv en s" "payment_call s \<noteq> None"
  shows "checkout_inv en (payment_ok p s)"
  using assms by (auto simp: checkout_inv_def payment_ok_def mark_pending_def orders_to_pay_def Let_def split: option.splits)

lemma coupon_ok_inv:
  assumes "checkout_inv en s" "coupon_calls s \<noteq> []"
  shows "checkout_inv en (coupon_ok r s)"
proof -
  have "list_all (booking_request_ok en (coupons_ok s)) (bookings_sent s)"
    using assms(1) unfolding checkout_inv_def by blast
  then have "list_all (booking_request_ok en (coupons_ok s @ [cv_code r])) (bookings_sent s)"
    by (rule bookings_mono) auto
  moreover have "length (coupon_calls s) = 1" using assms by (cases "coupon_calls s") (auto simp: checkout_inv_def)
  then have "tl (coupon_calls s) = []" by (cases "coupon_calls s") auto
  ultimately show ?thesis using assms(1)
    by (simp add: checkout_inv_def coupon_ok_def)
qed

lemma checkout_inv_step:
  assumes "checkout_inv en s" "checkout_guard en s e"
  shows "checkout_inv en (checkout_do en s e)"
proof (cases e)
  case ApplyCoupon
  then have "\<not> couponBusy s" using assms(2) by (auto simp: checkout_view_offers form_view_offers split: if_splits)
  then show ?thesis using assms(1) ApplyCoupon by (simp add: checkout_inv_def applyCoupon_def)
next
  case Submit
  then have "pay_enabled en s" using assms(2) by (auto simp: checkout_view_offers form_view_offers split: if_splits)
  then show ?thesis using assms(1) Submit by (simp add: submit_inv)
next
  case (CouponOk r)
  then show ?thesis using assms by (simp add: coupon_ok_inv)
next
  case (CouponErr x)
  then show ?thesis using assms by (cases "coupon_calls s") (auto simp: checkout_inv_def coupon_fail_def)
next
  case (BookingOk b)
  then show ?thesis using assms by (auto intro: booking_ok_inv)
next
  case (BookingErr x)
  then show ?thesis using assms by (auto simp: checkout_inv_def failed_step_def orders_to_pay_def
        intro: subseq_order.trans [OF _ subseq_butlast])
next
  case (PaymentOk p)
  then show ?thesis using assms by (auto intro: payment_ok_inv)
next
  case (PaymentErr x)
  then show ?thesis using assms by (auto simp: checkout_inv_def failed_step_def orders_to_pay_def)
next
  case (TypeCoupon v)
  then show ?thesis using assms(1) by (simp add: checkout_inv_def type_coupon_def)
qed (use assms(1) in \<open>simp_all add: checkout_inv_def\<close>)

lemma checkout_inv_start: "checkout_inv en checkout0"
  by (simp add: checkout_inv_def checkout0_def orders_to_pay_def)

interpretation till: bounded_machine "\<lambda>s. s = checkout0" "checkout_guard en" "checkout_do en" "checkout_inv en"
  in_flight 1 for en
proof unfold_locales
  fix s assume "s = checkout0"
  then show "checkout_inv en s" by (simp add: checkout_inv_start)
next
  fix s e assume "checkout_inv en s" "checkout_guard en s e"
  then show "checkout_inv en (checkout_do en s e)" by (rule checkout_inv_step)
next
  fix s assume "checkout_inv en s"
  then show "in_flight s \<le> 1" by (cases "ck_step s") (auto simp: checkout_inv_def in_flight_def)
qed

abbreviation checkout_reach :: "checkout_env \<Rightarrow> checkout \<Rightarrow> bool" where
  "checkout_reach en \<equiv> reach (\<lambda>s. s = checkout0) (checkout_guard en) (checkout_do en)"

text \<open>
  C4. However the payer types, clicks and retries and whatever the server answers: at most one of
  the booking and the payment call is on its way, and at most one check of a promo code (which may
  run beside them); every booking names this cohort, a valid learner, the one idempotency key of
  the page and no coupon that the server has not validated; the payments asked for are, in order
  and one each, the orders that the server answered to distinct bookings of the page and called
  unpaid, with a valid address and the receipt page of that order as their return; the page opens
  only links that the server issued, no more of them than payments; and a full or closed cohort is
  never booked.
\<close>

theorem checkout_requests:
  assumes "checkout_reach en s"
  shows "in_flight s \<le> 1 \<and> length (coupon_calls s) \<le> 1 \<and>
    list_all (\<lambda>r. br_cohort r = co_id (en_cohort en) \<and> br_key r = en_key en \<and> en_uuid en (br_student r) \<and>
       pred_option (\<lambda>c. c \<in> set (coupons_ok s)) (br_coupon r)) (bookings_sent s) \<and>
    subseq (map fst (booked s)) (bookings_sent s) \<and>
    map pq_order (payments_sent s) =
      map (\<lambda>p. or_id (bk_order (snd p))) (filter (\<lambda>p. bk_payment_required (snd p)) (booked s)) \<and>
    list_all (\<lambda>p. en_email en (pq_email p) \<and> pq_callback p = ''/receipts/'' @ pq_order p) (payments_sent s) \<and>
    length (links s) \<le> length (payments_sent s) \<and> set (assigned s) \<subseteq> set (links s) \<and>
    (if seatsLeft (en_cohort en) = 0 \<or> \<not> en_open en then bookings_sent s = [] else True)"
proof -
  have inv: "checkout_inv en s" by (rule till.reach_inv [OF assms])
  have "in_flight s \<le> 1" by (rule till.reach_load [OF assms])
  moreover from inv have "list_all (booking_request_ok en (coupons_ok s)) (bookings_sent s)"
      "list_all (payment_request_ok en) (payments_sent s)" "length (coupon_calls s) \<le> 1"
      "map pq_order (payments_sent s) = orders_to_pay (booked s)" "subseq (map fst (booked s)) (settled_bookings (booking_call s) (bookings_sent s))"
      "length (links s) + (if payment_call s = None then 0 else 1) \<le> length (payments_sent s)"
      "set (assigned s) \<subseteq> set (links s)"
      "seatsLeft (en_cohort en) = 0 \<or> \<not> en_open en \<longrightarrow> bookings_sent s = []"
    unfolding checkout_inv_def by blast+
  moreover from this(5) have "subseq (map fst (booked s)) (bookings_sent s)"
    using subseq_order.trans [OF _ subseq_butlast] by (cases "booking_call s") auto
  ultimately show ?thesis
    by (simp add: booking_request_ok_def [abs_def] payment_request_ok_def [abs_def] orders_to_pay_def filter_map comp_def
        split: if_splits)
qed


definition ada_checkout :: checkout_env where
  "ada_checkout = \<lparr>en_cohort = \<lparr>co_id = ''c1'', co_capacity = 10, co_enrolled_count = 9, co_end_date = [], co_fee = 5000,
       co_opens_at = None, co_closes_at = None\<rparr>,
     en_window = (True, None), en_key = ''k1'', en_pathname = ''/checkout/c1'', en_search = [],
     en_uuid = (\<lambda>x. length x = 2), en_email = (\<lambda>x. CHR ''@'' \<in> set x), en_variant = Control\<rparr>"

definition ada_order :: booking_response where
  "ada_order = \<lparr>bk_order = \<lparr>or_id = ''o1'', or_number = ''N1'', or_status = ''PENDING''\<rparr>, bk_payment_required = True\<rparr>"

definition ada_booked :: checkout where
  "ada_booked = run (checkout_do ada_checkout) checkout0
     [SessionIs True False, PickLearner ''s1'', TypeBilling ''a@b'', Submit, BookingOk ada_order]"

lemmas till_eval = ada_checkout_def ada_order_def checkout0_def submit_checkout_def booking_of_def booking_ok_def
  cache_booking_def payment_of_def checkoutSchema_def checkout_view_offers form_shown_def form_view_offers
  pay_enabled_def seatsLeft_def Let_def

lemma ada_booked_reach: "checkout_reach ada_checkout ada_booked"
  unfolding ada_booked_def by (rule run_reachable) (simp_all add: till_eval)

theorem checkout_requests_witness: "in_flight ada_booked \<le> 1 \<and> length (bookings_sent ada_booked) = 1 \<and>
  map pq_order (payments_sent ada_booked) = [''o1'']"
  using checkout_requests [OF ada_booked_reach] by (simp add: ada_booked_def till_eval)

section \<open>Retrying with another learner, editing a code that is being checked\<close>

text \<open>
  The key is drawn once per visit and not per learner: a parent whose payment could not be
  initiated, and who then picks her other child and pays again, sends the second child's
  booking under the first one's key. The server answers a known key with the first order.
\<close>

theorem retry_for_sibling_same_key:
  fixes en a c m b e
  assumes "en_uuid en a" "en_uuid en c" "en_email en m" "a \<noteq> []" "c \<noteq> []" "m \<noteq> []"
    and "seatsLeft (en_cohort en) > 0" "en_open en" "bk_payment_required b"
  defines "evs \<equiv> [SessionIs True False, PickLearner a, TypeBilling m, Submit, BookingOk b, PaymentErr e, PickLearner c, Submit]"
  shows "allowed (checkout_guard en) (checkout_do en) checkout0 evs \<and>
    map (\<lambda>r. (br_student r, br_key r)) (bookings_sent (run (checkout_do en) checkout0 evs)) =
      [(a, en_key en), (c, en_key en)]"
  using assms(1-9) unfolding evs_def
  by (simp add: checkout0_def submit_checkout_def booking_of_def booking_ok_def cache_booking_def checkoutSchema_def
      checkout_view_offers form_shown_def form_view_offers pay_enabled_def failed_step_def Let_def)

theorem retry_for_sibling_same_key_witness:
  "map (\<lambda>r. (br_student r, br_key r)) (bookings_sent (run (checkout_do ada_checkout) checkout0
     [SessionIs True False, PickLearner ''s1'', TypeBilling ''a@b'', Submit, BookingOk ada_order,
      PaymentErr (plain_error ''down''), PickLearner ''s2'', Submit])) = [(''s1'', ''k1''), (''s2'', ''k1'')]"
  using retry_for_sibling_same_key [of ada_checkout "''s1''" "''s2''" "''a@b''" ada_order "plain_error ''down''"]
  by (simp add: ada_checkout_def ada_order_def seatsLeft_def del: run.simps allowed.simps)

text \<open>
  A code that is edited or removed while the server still checks it comes back: the answer
  for the old text is shown beside the new one, and the next booking carries the old code.
\<close>

theorem edited_coupon_comes_back:
  fixes en s old new r
  assumes "form_shown s" "pay_enabled en s" "\<not> couponBusy s" "coupon_calls s = []" "trim old \<noteq> []" "checkoutSchema en (ck_values s)"
  defines "evs \<equiv> [TypeCoupon old, ApplyCoupon, TypeCoupon new, CouponOk r, Submit]"
  shows "allowed (checkout_guard en) (checkout_do en) s evs \<and>
    couponCode (run (checkout_do en) s evs) = new \<and>
    br_coupon (last (bookings_sent (run (checkout_do en) s evs))) = Some (cv_code r)"
  using assms(1-6) unfolding evs_def
  by (simp add: submit_checkout_def booking_of_def checkoutSchema_def type_coupon_def applyCoupon_def coupon_ok_def
      checkout_view_offers form_shown_def form_view_offers pay_enabled_def)

theorem edited_coupon_comes_back_witness:
  "br_coupon (last (bookings_sent (run (checkout_do ada_checkout)
     (checkout0\<lparr>ck_user := True, ck_values := \<lparr>v_student_id = ''s1'', v_email = ''a@b'', v_provider = PAYSTACK\<rparr>\<rparr>)
     [TypeCoupon ''SAVE10'', ApplyCoupon, TypeCoupon [], CouponOk \<lparr>cv_code = ''SAVE10'', cv_discount = 10, cv_currency = ''NGN''\<rparr>, Submit])))
   = Some ''SAVE10''"
  using edited_coupon_comes_back [of "checkout0\<lparr>ck_user := True, ck_values := \<lparr>v_student_id = ''s1'', v_email = ''a@b'', v_provider = PAYSTACK\<rparr>\<rparr>"
      ada_checkout "''SAVE10''" "[]" "\<lparr>cv_code = ''SAVE10'', cv_discount = 10, cv_currency = ''NGN''\<rparr>"]
  by (simp add: till_eval trim_def is_space_def)

section \<open>The enrolment window\<close>

text \<open>
  Enrolment is open from the opening instant to the earlier of closing and end, both bounds
  included; the open instants form an interval, and a reason is given exactly while it is closed.
\<close>

theorem window_is_interval:
  fixes time show_date c
  defines "w \<equiv> enrollmentWindow time show_date c"
  shows "fst (w now) =
      ((if given (co_opens_at c) then case time (the (co_opens_at c)) of Some t \<Rightarrow> t \<le> now | None \<Rightarrow> True else True) \<and>
       (if given (co_closes_at c) then case time (the (co_closes_at c)) of Some t \<Rightarrow> now \<le> t | None \<Rightarrow> True else True) \<and>
       (if co_end_date c \<noteq> [] then case time (co_end_date c) of Some t \<Rightarrow> now \<le> t | None \<Rightarrow> True else True)) \<and>
    (fst (w now) = (snd (w now) = None)) \<and>
    (if fst (w lo) \<and> fst (w hi) \<and> lo \<le> now \<and> now \<le> hi then fst (w now) else True)"
  by (cases "time (the (co_opens_at c))"; cases "time (the (co_closes_at c))"; cases "time (co_end_date c)")
    (auto simp: w_def enrollmentWindow_def is_before_def is_after_def)

end
