(* ===== verification/PayCard.thy ===== *)
theory PayCard
  imports Checkout
begin

text \<open>
  Waiting for the gateway: \<open>PaymentLinkCard\<close> of
  \<open>client/features/bookings/components/CheckoutClient.tsx\<close>. The card polls the order every
  six seconds while it is pending, asks the gateway once by itself and again on a click. The
  one automatic check runs the handler of the render in which its timer was started, with
  the \<open>verifying\<close> flag of that render (\<open>auto_saw\<close>).
\<close>

section \<open>State and handlers\<close>

record pay_card =
  pc_status :: jsstring
  pc_checked :: nat
  pc_verifying :: bool
  pc_copied :: bool
  auto_due :: bool \<comment> \<open>the timer of the automatic check is running\<close>
  auto_saw :: bool
  polls :: nat \<comment> \<open>order requests in flight\<close>
  gateway_checks :: nat \<comment> \<open>verifications in flight\<close>
  statuses :: "jsstring list" \<comment> \<open>every status the server has given for this order\<close>
  pc_opened :: "jsstring list"

definition pay_card0 :: "order \<Rightarrow> pay_card" where
  "pay_card0 order = \<lparr>pc_status = or_status order, pc_checked = 0, pc_verifying = False, pc_copied = False,
     auto_due = (or_status order = ''PENDING''), auto_saw = False, polls = 0, gateway_checks = 0,
     statuses = [or_status order], pc_opened = []\<rparr>"

text \<open>A new status restarts the two effects that depend on it.\<close>

definition set_status :: "jsstring \<Rightarrow> pay_card \<Rightarrow> pay_card" where
  "set_status st s = (if st = pc_status s then s
     else s\<lparr>pc_status := st, auto_due := (st = ''PENDING''), auto_saw := pc_verifying s\<rparr>)"

definition poll_ok :: "jsstring \<Rightarrow> pay_card \<Rightarrow> pay_card" where
  "poll_ok st s = (set_status st s)\<lparr>pc_checked := pc_checked s + 1, polls := polls s - 1, statuses := statuses s @ [st]\<rparr>"

definition checkWithGateway :: "bool \<Rightarrow> pay_card \<Rightarrow> pay_card" where
  "checkWithGateway verifying s = (if verifying then s
     else s\<lparr>pc_verifying := True, gateway_checks := gateway_checks s + 1\<rparr>)"

definition gateway_ok :: "jsstring \<Rightarrow> pay_card \<Rightarrow> pay_card" where
  "gateway_ok st s =
     (let s1 = s\<lparr>pc_verifying := False, gateway_checks := gateway_checks s - 1\<rparr> in
      if st = [] then s1 else (set_status st s1)\<lparr>statuses := statuses s @ [st]\<rparr>)"

definition gateway_fail :: "pay_card \<Rightarrow> pay_card" where
  "gateway_fail s = s\<lparr>pc_verifying := False, gateway_checks := gateway_checks s - 1\<rparr>"

definition paid :: "pay_card \<Rightarrow> bool" where
  "paid s = (pc_status s = ''PAID'' \<or> pc_status s = ''COMPLETED'')"

datatype card_event = Continue | CopyLink | ConfirmNow | PollTick | PollOk jsstring | PollErr | AutoCheck
  | GatewayOk jsstring | GatewayErr

definition pay_card_view :: "pay_card \<Rightarrow> card_event widget list" where
  "pay_card_view s =
     (if paid s
      then [Txt ([CHR 0xE2, CHR 0x9C, CHR 0x85] @ '' Payment confirmed '' @ em_dash @ '' your seat is secured! View it in your dashboard.'')]
      else [Btn ''Continue to payment gateway'' True Continue,
            Btn (if pc_copied s then ''Copied '' @ [CHR 0xE2, CHR 0x9C, CHR 0x93] else ''Copy payment link'') True CopyLink,
            Btn (if pc_verifying s then ''Checking'' @ ellipsis else ''I'' @ [CHR 0x27] @ ''ve paid '' @ em_dash @ '' confirm now'')
              (\<not> pc_verifying s) ConfirmNow]) @
     (if pc_status s = ''PENDING'' then [Txt (''Waiting for payment confirmation'' @ ellipsis @
        (if pc_checked s > 0 then '' (checked '' @ show_nat (pc_checked s) @ '')'' else '' this page refreshes automatically''))]
      else [])"

fun card_guard :: "pay_card \<Rightarrow> card_event \<Rightarrow> bool" where
  "card_guard s PollTick = (pc_status s = ''PENDING'')"
| "card_guard s (PollOk st) = (polls s > 0)"
| "card_guard s PollErr = (polls s > 0)"
| "card_guard s AutoCheck = auto_due s"
| "card_guard s (GatewayOk st) = (gateway_checks s > 0)"
| "card_guard s GatewayErr = (gateway_checks s > 0)"
| "card_guard s e = (e \<in> set (offered (pay_card_view s)))"

fun card_do :: "payment_response \<Rightarrow> pay_card \<Rightarrow> card_event \<Rightarrow> pay_card" where
  "card_do p s Continue = s\<lparr>pc_opened := pc_opened s @ [pa_link p]\<rparr>"
| "card_do p s CopyLink = s\<lparr>pc_copied := True\<rparr>"
| "card_do p s ConfirmNow = checkWithGateway (pc_verifying s) s"
| "card_do p s PollTick = s\<lparr>polls := polls s + 1\<rparr>"
| "card_do p s (PollOk st) = poll_ok st s"
| "card_do p s PollErr = s\<lparr>polls := polls s - 1\<rparr>"
| "card_do p s AutoCheck = checkWithGateway (auto_saw s) (s\<lparr>auto_due := False\<rparr>)"
| "card_do p s (GatewayOk st) = gateway_ok st s"
| "card_do p s GatewayErr = gateway_fail s"

section \<open>What the card shows\<close>

definition card_inv :: "payment_response \<Rightarrow> pay_card \<Rightarrow> bool" where
  "card_inv p s = (pc_status s \<in> set (statuses s) \<and> (if auto_due s then pc_status s = ''PENDING'' else True) \<and>
     list_all (\<lambda>l. l = pa_link p) (pc_opened s) \<and>
     (if pc_verifying s then gateway_checks s > 0 else True))"

lemma set_status_simps [simp]:
  "pc_status (set_status st s) = st" "statuses (set_status st s) = statuses s"
  "pc_opened (set_status st s) = pc_opened s" "pc_verifying (set_status st s) = pc_verifying s"
  "gateway_checks (set_status st s) = gateway_checks s" "polls (set_status st s) = polls s"
  by (simp_all add: set_status_def)

lemma set_status_auto: "auto_due (set_status st s) \<Longrightarrow> (auto_due s \<longrightarrow> pc_status s = ''PENDING'') \<Longrightarrow> st = ''PENDING''"
  by (auto simp: set_status_def split: if_splits)

lemma card_offers: "e \<in> set (offered (pay_card_view s)) \<longleftrightarrow>
   \<not> paid s \<and> (e = Continue \<or> e = CopyLink \<or> e = ConfirmNow \<and> \<not> pc_verifying s)"
  by (auto simp: pay_card_view_def)

lemma card_inv_step:
  assumes "card_inv p s" "card_guard s e"
  shows "card_inv p (card_do p s e)"
proof (cases e)
  case (PollOk st)
  then show ?thesis using assms(1) set_status_auto [of st s]
    by (auto simp: card_inv_def poll_ok_def split: if_splits)
next
  case (GatewayOk st)
  then show ?thesis
    using assms(1) set_status_auto [of st "s\<lparr>pc_verifying := False, gateway_checks := gateway_checks s - 1\<rparr>"]
    by (auto simp: card_inv_def gateway_ok_def Let_def split: if_splits)
next
  case ConfirmNow
  then show ?thesis using assms by (auto simp: card_inv_def checkWithGateway_def)
next
  case AutoCheck
  then show ?thesis using assms by (auto simp: card_inv_def checkWithGateway_def)
next
  case GatewayErr
  then show ?thesis using assms by (simp add: card_inv_def gateway_fail_def)
qed (use assms in \<open>auto simp: card_inv_def\<close>)

interpretation card: machine "\<lambda>s. s = pay_card0 order" card_guard "card_do p" "card_inv p" for order p
proof unfold_locales
  fix s assume "s = pay_card0 order"
  then show "card_inv p s" by (simp add: card_inv_def pay_card0_def)
next
  fix s e assume "card_inv p s" "card_guard s e"
  then show "card_inv p (card_do p s e)" by (rule card_inv_step)
qed

abbreviation card_reach :: "order \<Rightarrow> payment_response \<Rightarrow> pay_card \<Rightarrow> bool" where
  "card_reach order p \<equiv> reach (\<lambda>s. s = pay_card0 order) card_guard (card_do p)"

text \<open>
  C13. The card says "Payment confirmed" only on the server's word: the status it shows is one
  that the server has given for this order, never one the return from the gateway implied;
  and it opens nothing but the link of this payment.
\<close>

theorem paid_on_server_word:
  assumes "card_reach order p s"
  shows "pc_status s \<in> set (statuses s) \<and>
    (if paid s then list_ex (\<lambda>st. st = ''PAID'' \<or> st = ''COMPLETED'') (statuses s) else True) \<and>
    list_all (\<lambda>l. l = pa_link p) (pc_opened s)"
  using card.reach_inv [OF assms] by (auto simp: card_inv_def paid_def list_ex_iff)

text \<open>
  Answers are taken in the order they arrive: a poll that was sent before the gateway
  confirmed the payment, and answers after it, takes the confirmation back, and the card
  again offers to pay.
\<close>

theorem late_poll_reopens_payment:
  fixes p s
  defines "evs \<equiv> [PollTick, ConfirmNow, GatewayOk ''PAID'', PollOk ''PENDING'']"
  assumes "pc_status s = ''PENDING''" "\<not> pc_verifying s"
  shows "allowed card_guard (card_do p) s evs \<and>
    paid (run (card_do p) s (take 3 evs)) \<and> \<not> paid (run (card_do p) s evs) \<and>
    Continue \<in> set (offered (pay_card_view (run (card_do p) s evs)))"
  using assms(2,3) unfolding evs_def
  by (simp add: card_offers paid_def checkWithGateway_def gateway_ok_def poll_ok_def Let_def)

text \<open>Wherever the card stands, one poll settles it: the next answer decides what it shows.\<close>

theorem poll_settles:
  "run (card_do p) s [PollTick, PollOk st] = (set_status st s)\<lparr>pc_checked := pc_checked s + 1, polls := polls s,
      statuses := statuses s @ [st]\<rparr> \<and>
   (paid (run (card_do p) s [PollTick, PollOk st]) = (st = ''PAID'' \<or> st = ''COMPLETED''))"
  by (simp add: poll_ok_def set_status_def paid_def)

definition ada_paid :: pay_card where
  "ada_paid = run (card_do \<lparr>pa_order_number = ''N1'', pa_link = ''https://pay''\<rparr>)
     (pay_card0 \<lparr>or_id = ''o1'', or_number = ''N1'', or_status = ''PENDING''\<rparr>) [Continue, PollTick, PollOk ''PAID'']"

lemma ada_paid_reach:
  "card_reach \<lparr>or_id = ''o1'', or_number = ''N1'', or_status = ''PENDING''\<rparr> \<lparr>pa_order_number = ''N1'', pa_link = ''https://pay''\<rparr> ada_paid"
  unfolding ada_paid_def by (rule run_reachable) (simp_all add: pay_card0_def card_offers paid_def)

theorem paid_on_server_word_witness: "pc_status ada_paid = ''PAID'' \<and> ''PAID'' \<in> set (statuses ada_paid)"
  using paid_on_server_word [OF ada_paid_reach] by (simp add: ada_paid_def pay_card0_def poll_ok_def)

theorem late_poll_reopens_payment_witness:
  "\<not> paid (run (card_do \<lparr>pa_order_number = ''N1'', pa_link = ''https://pay''\<rparr>)
     (pay_card0 \<lparr>or_id = ''o1'', or_number = ''N1'', or_status = ''PENDING''\<rparr>)
     [PollTick, ConfirmNow, GatewayOk ''PAID'', PollOk ''PENDING''])"
  using late_poll_reopens_payment [of "pay_card0 \<lparr>or_id = ''o1'', or_number = ''N1'', or_status = ''PENDING''\<rparr>"
      "\<lparr>pa_order_number = ''N1'', pa_link = ''https://pay''\<rparr>"] by (simp add: pay_card0_def)

end
