(* ===== verification/Onboarding.thy ===== *)
theory Onboarding
  imports Machine Session Drafts AccountEndpoints "HOL-Library.Word"
begin

text \<open>
  The seven-step signup, \<open>client/app/onboarding/page.tsx\<close>. The draft is the JSON object that
  the page keeps in its state and in \<open>localStorage\<close>; the rest of the state is the hooks and
  the three refs. Calls that were sent stay in \<open>ob_calls\<close> until their answer arrives, in any
  order. An effect of the component is an event that may run in any state in which its body
  acts; the effects on \<open>[step]\<close> and \<open>[code]\<close> keep the value they last saw. The draft's
  fields have the types that the page writes.
\<close>

section \<open>The draft\<close>

type_synonym fields = "(jsstring \<times> json) list"

definition text_keys :: "jsstring list" where
  "text_keys = [''name'', ''email'', ''userId'', ''role'', ''phone'', ''bio'', ''language'', ''next'', ''ref'']"

definition nested_keys :: "jsstring list" where
  "nested_keys = [''parent'', ''student'', ''tutor'', ''institution'']"

definition empty_draft :: fields where
  "empty_draft = [(''name'', JStr []), (''email'', JStr []), (''verified'', JBool False)]"

text \<open>\<open>state.k\<close> and \<open>state.k ?? ""\<close> of a text field, \<open>{...state.k}\<close> of a nested one.\<close>

definition field_text :: "fields \<Rightarrow> jsstring \<Rightarrow> jsstring option" where
  "field_text st k = (case map_of st k of Some (JStr s) \<Rightarrow> Some s | _ \<Rightarrow> None)"

definition field_or_empty :: "fields \<Rightarrow> jsstring \<Rightarrow> jsstring" where
  "field_or_empty st k = (case field_text st k of Some s \<Rightarrow> s | None \<Rightarrow> [])"

definition nested :: "fields \<Rightarrow> jsstring \<Rightarrow> fields" where
  "nested st k = (case map_of st k of Some (JObj kvs) \<Rightarrow> kvs | _ \<Rightarrow> [])"

definition draft_verified :: "fields \<Rightarrow> bool" where
  "draft_verified st = (map_of st ''verified'' = Some (JBool True))"

text \<open>\<open>state.role\<close> and the like in a condition: the empty text counts as missing.\<close>

definition present :: "fields \<Rightarrow> jsstring \<Rightarrow> bool" where
  "present st k = (field_or_empty st k \<noteq> [])"

text \<open>
  What the page finds is whatever was parsed: the fields of an object, the elements of an array
  and the characters of a text (here one byte each) under their indices, nothing in a number or a
  truth value. A stored \<open>null\<close> has no fields either; the page cannot be shown then, since it reads
  the role of it, and no run starts there.
\<close>

fun own_fields :: "json \<Rightarrow> fields" where
  "own_fields (JObj kvs) = kvs"
| "own_fields (JArr xs) = map (\<lambda>i. (show_nat i, xs ! i)) [0..<length xs]"
| "own_fields (JStr s) = map (\<lambda>i. (show_nat i, JStr [s ! i])) [0..<length s]"
| "own_fields x = []"

definition stored_draft :: "device \<Rightarrow> fields" where
  "stored_draft d = (if \<not> readable d then empty_draft
     else case items d ONBOARDING_STORAGE_KEY of Some (Stored x) \<Rightarrow> own_fields x | _ \<Rightarrow> empty_draft)"

section \<open>Passwords\<close>

definition password_chars :: jsstring where
  "password_chars = ''ABCDEFGHJKLMNPQRSTUVWXYZabcdefghijkmnopqrstuvwxyz23456789!@#$%''"

text \<open>\<open>draws\<close> are the words that \<open>crypto.getRandomValues\<close> fills in, one per character.\<close>

definition randomPassword :: "32 word list \<Rightarrow> jsstring" where
  "randomPassword draws = map (\<lambda>w. password_chars ! (unat w mod length password_chars)) draws"

definition upper_letter :: "char \<Rightarrow> bool" where
  "upper_letter c = (let n = of_char c :: nat in 65 \<le> n \<and> n \<le> 90)"

definition lower_letter :: "char \<Rightarrow> bool" where
  "lower_letter c = (let n = of_char c :: nat in 97 \<le> n \<and> n \<le> 122)"

definition digit_letter :: "char \<Rightarrow> bool" where
  "digit_letter c = (let n = of_char c :: nat in 48 \<le> n \<and> n \<le> 57)"

definition strength :: "jsstring \<Rightarrow> nat" where
  "strength pw = min 4
     ((if utf16_length pw \<ge> 8 then 1 else 0) + (if utf16_length pw \<ge> 12 then 1 else 0) +
      (if list_ex upper_letter pw \<and> list_ex lower_letter pw then 1 else 0) +
      (if list_ex digit_letter pw then 1 else 0) +
      (if list_ex (\<lambda>c. \<not> (upper_letter c \<or> lower_letter c \<or> digit_letter c)) pw then 1 else 0))"

definition strength_labels :: "jsstring list" where
  "strength_labels = [[], ''Weak'', ''Fair'', ''Good'', ''Strong'']"

definition strength_colors :: "jsstring list" where
  "strength_colors = [''bg-red-500'', ''bg-orange-500'', ''bg-yellow-500'', ''bg-green-500'']"

text \<open>The meter: the colours of the four bars, the label and whether the hint is shown.\<close>

definition StrengthMeter :: "jsstring \<Rightarrow> (jsstring list \<times> jsstring \<times> bool) option" where
  "StrengthMeter pw =
     (let s = strength pw in
      if pw = [] then None
      else Some (map (\<lambda>i. if i < s then strength_colors ! max (s - 1) 0 else ''bg-[#F9F6ED]'') [0, 1, 2, 3],
                 strength_labels ! s, s < 3))"

section \<open>State and calls\<close>

record ob_user =
  ou_id :: jsstring
  ou_status :: jsstring
  ou_onboarded :: bool
  ou_roles :: "jsstring list"

datatype ob_call =
    RequestCode jsstring
  | ConfirmCode jsstring jsstring
  | Reverify jsstring bool \<comment> \<open>inside a handler that ends with \<open>setSubmitting(false)\<close>\<close>
  | SaveRole jsstring
  | Register jsstring jsstring "jsstring option" \<comment> \<open>address, generated password, referral\<close>
  | ResendCode jsstring
  | ChangePassword jsstring jsstring

datatype ob_answer = Done | Created jsstring | SignedIn ob_user

record onboarding =
  ob_draft :: fields
  ob_role :: "jsstring option"
  ob_submitting :: bool
  ob_error :: "jsstring option"
  ob_code :: jsstring
  ob_codeSent :: bool
  ob_countdown :: nat
  verifyingRef :: bool
  verifiedRef :: bool
  generatedPwRef :: jsstring
  ob_param :: "int option" \<comment> \<open>\<open>Number\<close> of the URL's step\<close>
  ob_user :: "ob_user option"
  ob_loading :: bool
  ob_device :: device
  ob_seen :: "int option" \<comment> \<open>the step that the effect on \<open>[step]\<close> last saw\<close>
  ob_calls :: "ob_call list"
  ob_sent :: "ob_call list" \<comment> \<open>every call so far\<close>
  ob_pushed :: "jsstring list"
  ob_left :: bool

definition onboarding0 :: "int option \<Rightarrow> device \<Rightarrow> onboarding" where
  "onboarding0 param d = \<lparr>ob_draft = stored_draft d, ob_role = field_text (stored_draft d) ''role'', ob_submitting = False,
     ob_error = None, ob_code = [], ob_codeSent = False, ob_countdown = 0, verifyingRef = False, verifiedRef = False,
     generatedPwRef = [], ob_param = param, ob_user = None, ob_loading = True, ob_device = d, ob_seen = None,
     ob_calls = [], ob_sent = [], ob_pushed = [], ob_left = False\<rparr>"

definition save :: "fields \<Rightarrow> onboarding \<Rightarrow> onboarding" where
  "save patch s = (let st = spread (ob_draft s) patch in
     s\<lparr>ob_draft := st, ob_device := writeCache ONBOARDING_STORAGE_KEY (JObj st) (ob_device s)\<rparr>)"

definition resetDraft :: "onboarding \<Rightarrow> onboarding" where
  "resetDraft s = s\<lparr>verifiedRef := False, ob_draft := empty_draft, ob_role := None, ob_code := [], ob_codeSent := False,
     ob_error := None, ob_device := clearOnboardingDraft (ob_device s)\<rparr>"

definition step_of :: "onboarding \<Rightarrow> int" where
  "step_of s =
     (let raw = (case ob_param s of Some n \<Rightarrow> n | None \<Rightarrow> 0) in
      if raw \<ge> 1 \<and> raw \<le> 7 then raw
      else if \<not> draft_verified (ob_draft s) then 1
      else if \<not> present (ob_draft s) ''role'' then 3
      else 5)"

definition go :: "int \<Rightarrow> onboarding \<Rightarrow> onboarding" where
  "go n s = s\<lparr>ob_error := None, ob_param := Some n, ob_pushed := ob_pushed s @ [''/onboarding?step='' @ show_int n]\<rparr>"

definition call :: "ob_call \<Rightarrow> onboarding \<Rightarrow> onboarding" where
  "call c s = s\<lparr>ob_calls := ob_calls s @ [c], ob_sent := ob_sent s @ [c]\<rparr>"

definition answered :: "ob_call \<Rightarrow> onboarding \<Rightarrow> onboarding" where
  "answered c s = s\<lparr>ob_calls := remove1 c (ob_calls s)\<rparr>"

text \<open>The endpoint behind a call.\<close>

fun call_endpoint :: "ob_call \<Rightarrow> endpoint" where
  "call_endpoint (RequestCode email) = requestLoginCode email"
| "call_endpoint (ResendCode email) = requestLoginCode email"
| "call_endpoint (Reverify email b) = requestLoginCode email"
| "call_endpoint (ConfirmCode email code) = confirmLoginCode email code"
| "call_endpoint (SaveRole r) = setPrimaryRole (if r = ''INSTITUTION'' then ''PARENT'' else r)"
| "call_endpoint (ChangePassword cur new) = changePassword cur new"
| "call_endpoint (Register email pw ref) = register (obj [(''email'', Some (JStr email)), (''password'', Some (JStr pw)),
     (''roles'', Some (JArr [JStr ''PARENT''])), (''referral_code'', map_option JStr ref)])"

section \<open>Handlers\<close>

text \<open>\<open>/^[^@\s]+@[^@\s]+\.[^@\s]+$/\<close>\<close>

definition email_shape :: "jsstring \<Rightarrow> bool" where
  "email_shape s = (list_all (\<lambda>c. \<not> is_space c) s \<and>
     (case split_on (CHR ''@'') s of
        [name, host] \<Rightarrow> name \<noteq> [] \<and> list_ex (\<lambda>i. host ! i = CHR ''.'') [1..<length host - 1]
      | _ \<Rightarrow> False))"

definition session_lost :: "jsstring \<Rightarrow> bool" where
  "session_lost msg = list_ex (str_includes (to_lower msg))
     [''authentication required'', ''not authenticated'', ''unauthorized'', ''session expired'']"

definition already_registered :: "jsstring \<Rightarrow> bool" where
  "already_registered msg = list_ex (str_includes (to_lower msg)) [''already registered'', ''already exists'']"

definition message_of :: "js_exn \<Rightarrow> jsstring \<Rightarrow> jsstring" where
  "message_of e fallback = (if instanceof_Error e then ex_message e else fallback)"

definition sendCode :: "onboarding \<Rightarrow> onboarding" where
  "sendCode s = call (RequestCode (field_or_empty (ob_draft s) ''email'')) (s\<lparr>ob_submitting := True, ob_error := None\<rparr>)"

definition verifyCode :: "onboarding \<Rightarrow> onboarding" where
  "verifyCode s = (if length (ob_code s) \<noteq> 6 \<or> verifyingRef s then s
     else call (ConfirmCode (field_or_empty (ob_draft s) ''email'') (ob_code s))
            (s\<lparr>verifyingRef := True, ob_submitting := True, ob_error := None\<rparr>))"

definition reverify :: "bool \<Rightarrow> onboarding \<Rightarrow> onboarding" where
  "reverify inner s = call (Reverify (field_or_empty (ob_draft s) ''email'') inner) s"

definition pickRole :: "jsstring \<Rightarrow> onboarding \<Rightarrow> onboarding" where
  "pickRole r s = call (SaveRole r) (s\<lparr>ob_submitting := True, ob_error := None\<rparr>)"

definition continueStep1 :: "32 word list \<Rightarrow> onboarding \<Rightarrow> onboarding" where
  "continueStep1 draws s =
     (let email = field_or_empty (ob_draft s) ''email'' in
      if trim (field_or_empty (ob_draft s) ''name'') = [] \<or> \<not> email_shape email
      then s\<lparr>ob_error := Some ''Enter your name and a valid email to continue.''\<rparr>
      else case ob_user s of
          Some u \<Rightarrow> (go (if ou_status u = ''ACTIVE'' then 3 else 2) s)\<lparr>ob_submitting := False\<rparr>
        | None \<Rightarrow> call (Register (trim email) (randomPassword draws) (field_text (ob_draft s) ''ref''))
            (s\<lparr>ob_submitting := True, ob_error := None, generatedPwRef := randomPassword draws\<rparr>))"

definition finishStep5 :: "jsstring \<Rightarrow> jsstring \<Rightarrow> onboarding \<Rightarrow> onboarding" where
  "finishStep5 pw phone s =
     (let s1 = save [(''phone'', JStr phone)] s in
      if pw = [] then go 6 s1
      else call (ChangePassword (generatedPwRef s1) pw) (s1\<lparr>ob_submitting := True, ob_error := None\<rparr>))"

definition save5 :: "jsstring \<Rightarrow> jsstring \<Rightarrow> jsstring \<Rightarrow> onboarding \<Rightarrow> onboarding" where
  "save5 pw pw2 phone s =
     (let s1 = save [(''phone'', JStr phone)] s in
      if pw \<noteq> [] \<and> pw \<noteq> pw2 then s1\<lparr>ob_error := Some ''Passwords do not match.''\<rparr>
      else if pw \<noteq> [] \<and> utf16_length pw < 8 then s1\<lparr>ob_error := Some ''Password must be at least 8 characters.''\<rparr>
      else finishStep5 pw phone s1)"


section \<open>Answers\<close>

definition code_sent :: "onboarding \<Rightarrow> onboarding" where
  "code_sent s = s\<lparr>ob_codeSent := True, ob_countdown := 30\<rparr>"

text \<open>The \<open>finally\<close> of the handlers.\<close>

definition finally_idle :: "onboarding \<Rightarrow> onboarding" where
  "finally_idle s = s\<lparr>ob_submitting := False\<rparr>"

fun ob_settle :: "ob_call \<Rightarrow> js_exn + ob_answer \<Rightarrow> onboarding \<Rightarrow> onboarding" where
  "ob_settle (RequestCode email) (Inr a) s = finally_idle (code_sent s)"
| "ob_settle (RequestCode email) (Inl e) s = finally_idle (s\<lparr>ob_error := Some (message_of e ''Could not send the code'')\<rparr>)"
| "ob_settle (ConfirmCode email code) (Inr (SignedIn u)) s =
     (finally_idle (go 3 (save [(''verified'', JBool True), (''userId'', JStr (ou_id u))]
        (s\<lparr>ob_user := Some u, verifiedRef := True\<rparr>))))\<lparr>verifyingRef := False\<rparr>"
| "ob_settle (ConfirmCode email code) (Inr a) s = s"
| "ob_settle (ConfirmCode email code) (Inl e) s =
     (finally_idle (s\<lparr>ob_error := Some (message_of e (''That code didn'' @ [CHR 0x27] @ ''t work''))\<rparr>))\<lparr>verifyingRef := False\<rparr>"
| "ob_settle (Reverify email inner) (Inr a) s =
     (let s1 = go 2 (code_sent (s\<lparr>ob_code := []\<rparr>)) in if inner then finally_idle s1 else s1)"
| "ob_settle (Reverify email inner) (Inl e) s =
     (let s1 = s\<lparr>ob_pushed := ob_pushed s @ [''/login''], ob_left := True\<rparr> in if inner then finally_idle s1 else s1)"
| "ob_settle (SaveRole r) (Inr a) s = finally_idle (go 4 (save [(''role'', JStr r)] s))"
| "ob_settle (SaveRole r) (Inl e) s =
     (let msg = message_of e ''Could not save your role'' in
      if session_lost msg then reverify True s else finally_idle (s\<lparr>ob_error := Some msg\<rparr>))"
| "ob_settle (Register email pw ref) (Inr (Created ident)) s =
     finally_idle (go 2 (save [(''userId'', JStr ident), (''verified'', JBool False)] s))"
| "ob_settle (Register email pw ref) (Inr a) s = s"
| "ob_settle (Register email pw ref) (Inl e) s =
     (let msg = message_of e ''Could not create your account'' in
      if already_registered msg
      then call (ResendCode email) (s\<lparr>ob_submitting := False, ob_error := None\<rparr>)
      else finally_idle (s\<lparr>ob_error := Some msg\<rparr>))"
| "ob_settle (ResendCode email) (Inr a) s = finally_idle (go 2 s)"
| "ob_settle (ResendCode email) (Inl e) s =
     finally_idle (s\<lparr>ob_error := Some (message_of e (''Could not send the code '' @ em_dash @ '' try again.''))\<rparr>)"
| "ob_settle (ChangePassword cur new) (Inr a) s = finally_idle (go 6 s)"
| "ob_settle (ChangePassword cur new) (Inl e) s =
     (let msg = message_of e ''Could not set your password'' in
      if session_lost msg then reverify True s else finally_idle (s\<lparr>ob_error := Some msg\<rparr>))"

text \<open>The kind of answer that each endpoint gives.\<close>

fun answer_fits :: "ob_call \<Rightarrow> js_exn + ob_answer \<Rightarrow> bool" where
  "answer_fits (ConfirmCode email code) (Inr a) = (case a of SignedIn u \<Rightarrow> True | _ \<Rightarrow> False)"
| "answer_fits (Register email pw ref) (Inr a) = (case a of Created i \<Rightarrow> True | _ \<Rightarrow> False)"
| "answer_fits c r = True"

section \<open>Effects\<close>

definition staleDraft :: "onboarding \<Rightarrow> bool" where
  "staleDraft s = (\<not> ob_loading s \<and> \<not> verifiedRef s \<and>
     (case ob_user s of
        Some u \<Rightarrow> (case field_text (ob_draft s) ''userId'' of Some i \<Rightarrow> i \<noteq> ou_id u | None \<Rightarrow> False)
      | None \<Rightarrow> field_text (ob_draft s) ''userId'' \<noteq> None \<and> draft_verified (ob_draft s)))"

text \<open>The effects on the URL's \<open>next\<close> and \<open>ref\<close>.\<close>

definition carry_next :: "jsstring option \<Rightarrow> onboarding \<Rightarrow> onboarding" where
  "carry_next raw s = (case safeNextPath raw of
     Some t \<Rightarrow> if t \<noteq> [] \<and> \<not> present (ob_draft s) ''next'' then save [(''next'', JStr t)] s else s
   | None \<Rightarrow> s)"

definition carry_ref :: "jsstring option \<Rightarrow> onboarding \<Rightarrow> onboarding" where
  "carry_ref raw s = (case raw of
     Some r \<Rightarrow> if r \<noteq> [] \<and> \<not> present (ob_draft s) ''ref'' then save [(''ref'', JStr (to_upper (trim r)))] s else s
   | None \<Rightarrow> s)"

text \<open>A finished account is sent on; a returning session skips the first step.\<close>

definition sent_on :: "onboarding \<Rightarrow> jsstring option" where
  "sent_on s = (if ob_loading s then None
     else case ob_user s of
         Some u \<Rightarrow> if ou_onboarded u
           then Some (case safeNextPath (field_text (ob_draft s) ''next'') of Some n \<Rightarrow> n | None \<Rightarrow> homeForRoles (ou_roles u))
           else None
       | None \<Rightarrow> None)"

definition skip_first :: "onboarding \<Rightarrow> onboarding" where
  "skip_first s = (case ob_user s of
     Some u \<Rightarrow> if \<not> ob_loading s \<and> \<not> ou_onboarded u \<and> step_of s = 1 then go (if ou_status u = ''ACTIVE'' then 3 else 2) s else s
   | None \<Rightarrow> s)"

text \<open>The effect on \<open>[step]\<close>: the code is sent when the second step opens.\<close>

definition step_effect :: "onboarding \<Rightarrow> onboarding" where
  "step_effect s =
     (let s1 = s\<lparr>ob_seen := Some (step_of s)\<rparr> in
      if step_of s = 2 \<and> \<not> ob_codeSent s \<and> \<not> ob_submitting s \<and> present (ob_draft s) ''email'' then sendCode s1 else s1)"

text \<open>The effect on \<open>[code]\<close>, with the change of the input that triggers it.\<close>

definition type_ob_code :: "jsstring \<Rightarrow> onboarding \<Rightarrow> onboarding" where
  "type_ob_code v s =
     (let c = filter digit_letter v; s1 = s\<lparr>ob_code := c\<rparr> in
      if c = ob_code s then s
      else if length c = 6 \<and> step_of s = 2 \<and> \<not> ob_submitting s then verifyCode s1 else s1)"

definition needs_session :: "onboarding \<Rightarrow> bool" where
  "needs_session s = (\<not> ob_loading s \<and> ob_user s = None \<and> \<not> verifiedRef s \<and> 3 \<le> step_of s \<and> step_of s \<le> 6)"

definition recover :: "onboarding \<Rightarrow> onboarding" where
  "recover s =
     (if \<not> needs_session s \<or> staleDraft s then s
      else if \<not> present (ob_draft s) ''email''
      then s\<lparr>ob_pushed := ob_pushed s @ [''/onboarding/wizard''], ob_left := True\<rparr>
      else reverify False s)"

definition ob_tick :: "onboarding \<Rightarrow> onboarding" where
  "ob_tick s = s\<lparr>ob_countdown := ob_countdown s - 1\<rparr>"

section \<open>The finish line\<close>

fun split_spaces :: "jsstring \<Rightarrow> jsstring \<Rightarrow> jsstring list" where
  "split_spaces acc [] = [rev acc]"
| "split_spaces acc [c] = (if is_space c then [rev acc, []] else [rev (c # acc)])"
| "split_spaces acc (c # d # r) =
     (if is_space c then (if is_space d then split_spaces acc (d # r) else rev acc # split_spaces [] (d # r))
      else split_spaces (c # acc) (d # r))"

text \<open>\<open>s.trim().split(/\s+/)\<close>\<close>

definition words_of :: "jsstring \<Rightarrow> jsstring list" where
  "words_of s = split_spaces [] (trim s)"

definition or_undefined :: "jsstring \<Rightarrow> json option" where
  "or_undefined s = (if s = [] then None else Some (JStr s))"

definition learner_input :: "fields \<Rightarrow> json" where
  "learner_input st =
     (let p = nested st ''parent''; parts = words_of (field_or_empty p ''childName'') in
      obj [(''first_name'', Some (JStr (hd parts))), (''last_name'', Some (JStr (join '' '' (tl parts)))),
           (''date_of_birth'', or_undefined (field_or_empty p ''childDOB'')),
           (''current_level'', map_option JStr (field_text p ''childLevel'')), (''relationship'', Some (JStr ''PARENT''))])"

definition profile_input :: "fields \<Rightarrow> json" where
  "profile_input st =
     (let parts = words_of (field_or_empty st ''name'') in
      obj [(''first_name'', Some (JStr (hd parts))), (''last_name'', Some (JStr (join '' '' (tl parts)))),
           (''phone'', Some (JStr (field_or_empty st ''phone''))),
           (''bio'', or_undefined (trim (field_or_empty st ''bio''))),
           (''preferred_language'', map_option JStr (field_text st ''language''))])"

text \<open>
  The calls of the last button, in their order: a failed one does not stop the others, since
  the first two are caught on their own and nothing depends on the third.
\<close>

definition finish_calls :: "fields \<Rightarrow> endpoint list" where
  "finish_calls st =
     (if field_text st ''role'' \<in> {Some ''PARENT'', Some ''INSTITUTION''} \<and>
         trim (field_or_empty (nested st ''parent'') ''childName'') \<noteq> []
      then [createLearner (learner_input st)] else []) @
     [updateProfile (profile_input st), markOnboarded]"

definition dashboardFor :: "jsstring option \<Rightarrow> jsstring" where
  "dashboardFor role = homeForRoles (case role of Some r \<Rightarrow> if r = [] then [] else [r] | None \<Rightarrow> [])"

definition finish_dest :: "fields \<Rightarrow> jsstring" where
  "finish_dest st =
     (if field_text st ''role'' = Some ''TUTOR'' then ''/become-tutor/apply''
      else case safeNextPath (field_text st ''next'') of
          Some n \<Rightarrow> n
        | None \<Rightarrow> dashboardFor (if field_text st ''role'' = Some ''INSTITUTION'' then Some ''PARENT'' else field_text st ''role''))"

definition finish_ob :: "onboarding \<Rightarrow> onboarding" where
  "finish_ob s = s\<lparr>ob_device := clearOnboardingDraft (ob_device s), ob_pushed := ob_pushed s @ [finish_dest (ob_draft s)],
     ob_left := True\<rparr>"


section \<open>The page\<close>

text \<open>
  The choices of the fourth step and the texts of the sixth are patches of the draft. The
  page shows its steps unless the draft is stale or the session is missing.
\<close>

datatype ob_event =
    SessionIs "ob_user option" bool
  | TypeName jsstring
  | TypeEmail jsstring
  | Continue1 "32 word list"
  | SendCode
  | TypeCode jsstring
  | Verify
  | SelectRole jsstring
  | Continue3
  | Choose jsstring fields
  | Continue4
  | Save5 jsstring jsstring jsstring
  | TypeBio jsstring
  | PickLanguage jsstring
  | Continue6
  | Finish
  | GoBack
  | Tick
  | Answer ob_call "js_exn + ob_answer"
  | CarryNext "jsstring option"
  | CarryRef "jsstring option"
  | SentOn
  | SkipFirst
  | StepEffect
  | ResetStale
  | Recover

definition role_sections :: "(jsstring \<times> jsstring) list" where
  "role_sections = [(''PARENT'', ''parent''), (''STUDENT'', ''student''), (''TUTOR'', ''tutor''), (''INSTITUTION'', ''institution'')]"

definition steps_shown :: "onboarding \<Rightarrow> bool" where
  "steps_shown s = (\<not> staleDraft s \<and> \<not> needs_session s)"

fun ob_guard :: "onboarding \<Rightarrow> ob_event \<Rightarrow> bool" where
  "ob_guard s (SessionIs u l) = (\<not> ob_left s)"
| "ob_guard s (Answer c r) = (\<not> ob_left s \<and> c \<in> set (ob_calls s) \<and> answer_fits c r)"
| "ob_guard s Tick = (\<not> ob_left s \<and> ob_countdown s > 0)"
| "ob_guard s (CarryNext n) = (\<not> ob_left s)"
| "ob_guard s (CarryRef r) = (\<not> ob_left s)"
| "ob_guard s SentOn = (\<not> ob_left s \<and> sent_on s \<noteq> None)"
| "ob_guard s SkipFirst = (\<not> ob_left s)"
| "ob_guard s StepEffect = (\<not> ob_left s \<and> ob_seen s \<noteq> Some (step_of s))"
| "ob_guard s ResetStale = (\<not> ob_left s \<and> staleDraft s)"
| "ob_guard s Recover = (\<not> ob_left s)"
| "ob_guard s e = (\<not> ob_left s \<and> steps_shown s \<and>
     (case e of
        TypeName v \<Rightarrow> step_of s = 1
      | TypeEmail v \<Rightarrow> step_of s = 1
      | Continue1 draws \<Rightarrow> step_of s = 1 \<and> length draws = 24
      | SendCode \<Rightarrow> step_of s = 2 \<and> \<not> ob_submitting s \<and> ob_countdown s = 0
      | TypeCode v \<Rightarrow> step_of s = 2 \<and> utf16_length v \<le> 6
      | Verify \<Rightarrow> step_of s = 2 \<and> length (ob_code s) = 6
      | SelectRole r \<Rightarrow> step_of s = 3 \<and> r \<in> {''PARENT'', ''STUDENT'', ''TUTOR'', ''INSTITUTION''}
      | Continue3 \<Rightarrow> step_of s = 3 \<and> ob_role s \<noteq> None \<and> \<not> ob_submitting s
      | Choose k patch \<Rightarrow> step_of s = 4 \<and> map_of role_sections (field_or_empty (ob_draft s) ''role'') = Some k
      | Continue4 \<Rightarrow> step_of s = 4 \<and> present (ob_draft s) ''role''
      | Save5 pw pw2 phone \<Rightarrow> step_of s = 5 \<and> \<not> ob_submitting s
      | TypeBio v \<Rightarrow> step_of s = 6
      | PickLanguage v \<Rightarrow> step_of s = 6
      | Continue6 \<Rightarrow> step_of s = 6
      | Finish \<Rightarrow> step_of s = 7
      | GoBack \<Rightarrow> 1 < step_of s \<and> step_of s < 7
      | _ \<Rightarrow> False))"

fun ob_step :: "onboarding \<Rightarrow> ob_event \<Rightarrow> onboarding" where
  "ob_step s (SessionIs u l) = s\<lparr>ob_user := u, ob_loading := l\<rparr>"
| "ob_step s (TypeName v) = save [(''name'', JStr v)] s"
| "ob_step s (TypeEmail v) = save [(''email'', JStr v)] s"
| "ob_step s (Continue1 draws) = continueStep1 draws s"
| "ob_step s SendCode = sendCode s"
| "ob_step s (TypeCode v) = type_ob_code v s"
| "ob_step s Verify = verifyCode s"
| "ob_step s (SelectRole r) = s\<lparr>ob_role := Some r\<rparr>"
| "ob_step s Continue3 = (case ob_role s of Some r \<Rightarrow> pickRole r s | None \<Rightarrow> s)"
| "ob_step s (Choose k patch) = save [(k, JObj (spread (nested (ob_draft s) k) patch))] s"
| "ob_step s Continue4 = go 5 s"
| "ob_step s (Save5 pw pw2 phone) = save5 pw pw2 phone s"
| "ob_step s (TypeBio v) = save [(''bio'', JStr v)] s"
| "ob_step s (PickLanguage v) = save [(''language'', JStr v)] s"
| "ob_step s Continue6 = go 7 s"
| "ob_step s Finish = finish_ob s"
| "ob_step s GoBack = go (step_of s - 1) s"
| "ob_step s Tick = ob_tick s"
| "ob_step s (Answer c r) = ob_settle c r (answered c s)"
| "ob_step s (CarryNext n) = carry_next n s"
| "ob_step s (CarryRef r) = carry_ref r s"
| "ob_step s SentOn = s\<lparr>ob_pushed := ob_pushed s @ [the (sent_on s)], ob_left := True\<rparr>"
| "ob_step s SkipFirst = skip_first s"
| "ob_step s StepEffect = step_effect s"
| "ob_step s ResetStale = resetDraft s"
| "ob_step s Recover = recover s"

text \<open>The link "Skip" of the page's frame.\<close>

definition skip_link :: "onboarding \<Rightarrow> jsstring option" where
  "skip_link s =
     (let n = step_of s in
      if n = 1 then (if ob_user s \<noteq> None then Some ''/onboarding?step=3'' else None)
      else if n = 3 then Some (dashboardFor (case field_text (ob_draft s) ''role'' of
          Some r \<Rightarrow> Some r | None \<Rightarrow> (case ob_user s of Some u \<Rightarrow> (case ou_roles u of r # _ \<Rightarrow> Some r | [] \<Rightarrow> None) | None \<Rightarrow> None)))
      else if n = 4 then Some ''/onboarding?step=5''
      else if n = 5 then Some ''/onboarding?step=6''
      else if n = 6 then Some ''/onboarding?step=7''
      else None)"


section \<open>Invariant\<close>

fun field_fits :: "jsstring \<Rightarrow> json \<Rightarrow> bool" where
  "field_fits k (JStr s) = (k \<in> set text_keys)"
| "field_fits k (JObj kvs) = (k \<in> set nested_keys)"
| "field_fits k (JBool b) = (k = ''verified'')"
| "field_fits k v = False"

definition wf_draft :: "fields \<Rightarrow> bool" where
  "wf_draft st = list_all (\<lambda>(k, v). field_fits k v) st"

definition next_validated :: "fields \<Rightarrow> bool" where
  "next_validated st = (case field_text st ''next'' of None \<Rightarrow> True | Some n \<Rightarrow> \<exists>raw. safeNextPath raw = Some n)"

fun is_confirm :: "ob_call \<Rightarrow> bool" where
  "is_confirm (ConfirmCode e c) = True"
| "is_confirm c = False"

fun call_fits :: "ob_call \<Rightarrow> bool" where
  "call_fits (ConfirmCode e c) = (length c = 6 \<and> list_all digit_letter c)"
| "call_fits (Register e pw r) = (length pw = 24 \<and> email_shape e)"
| "call_fits (ChangePassword cur new) = (8 \<le> utf16_length new)"
| "call_fits c = True"

definition confirms_in_flight :: "onboarding \<Rightarrow> nat" where
  "confirms_in_flight s = length (filter is_confirm (ob_calls s))"

definition draft_inv :: "onboarding \<Rightarrow> bool" where
  "draft_inv s = (wf_draft (ob_draft s) \<and> next_validated (ob_draft s) \<and>
     (\<not> ob_left s \<and> readable (ob_device s) \<and> writable (ob_device s) \<longrightarrow> stored_draft (ob_device s) = ob_draft s))"

definition calls_inv :: "onboarding \<Rightarrow> bool" where
  "calls_inv s = (confirms_in_flight s = (if verifyingRef s then 1 else 0) \<and> list_all call_fits (ob_sent s) \<and>
     list_all digit_letter (ob_code s) \<and> ob_countdown s \<le> 30)"

lemma wf_spread: "wf_draft a \<Longrightarrow> wf_draft b \<Longrightarrow> wf_draft (spread a b)"
  by (auto simp: wf_draft_def spread_def list_all_iff)

lemma field_text_spread: "field_text (spread a b) k =
   (case map_of b k of None \<Rightarrow> field_text a k | Some v \<Rightarrow> field_text [(k, v)] k)"
  by (simp add: field_text_def map_of_spread split: option.splits)

lemma stored_save: "readable d \<Longrightarrow> writable d \<Longrightarrow>
   stored_draft (writeCache ONBOARDING_STORAGE_KEY (JObj st) d) = st"
  by (simp add: stored_draft_def writeCache_def)

lemma stored_clear: "readable d \<Longrightarrow> writable d \<Longrightarrow> stored_draft (clearOnboardingDraft d) = empty_draft"
  by (simp add: stored_draft_def clearOnboardingDraft_def removeItem_def)

lemma empty_draft_ok: "wf_draft empty_draft" "next_validated empty_draft"
  by (simp_all add: wf_draft_def empty_draft_def text_keys_def next_validated_def field_text_def)

lemma save_draft_inv:
  assumes "draft_inv s" "wf_draft patch"
    and "case map_of patch ''next'' of None \<Rightarrow> True | Some v \<Rightarrow> (\<exists>t raw. v = JStr t \<and> safeNextPath raw = Some t)"
  shows "draft_inv (save patch s)"
proof -
  have "next_validated (spread (ob_draft s) patch)"
  proof (cases "map_of patch ''next''")
    case None
    then have "field_text (spread (ob_draft s) patch) ''next'' = field_text (ob_draft s) ''next''"
      by (simp add: field_text_spread)
    then show ?thesis using assms(1) by (simp add: draft_inv_def next_validated_def)
  next
    case (Some v)
    then obtain t raw where "v = JStr t" "safeNextPath raw = Some t" using assms(3) by auto
    moreover from this Some have "field_text (spread (ob_draft s) patch) ''next'' = Some t"
      by (simp add: field_text_spread field_text_def [of "[_]"])
    ultimately show ?thesis by (auto simp: next_validated_def)
  qed
  then show ?thesis using assms(1,2)
    by (auto simp: draft_inv_def save_def Let_def wf_spread stored_save)
qed

lemma save_one_draft_inv:
  "draft_inv s \<Longrightarrow> k \<noteq> ''next'' \<Longrightarrow> field_fits k v \<Longrightarrow> draft_inv (save [(k, v)] s)"
  by (rule save_draft_inv) (simp_all add: wf_draft_def)

text \<open>What each building block leaves alone.\<close>

lemma save_fields [simp]:
  "ob_calls (save p s) = ob_calls s" "ob_sent (save p s) = ob_sent s" "verifyingRef (save p s) = verifyingRef s"
  "ob_code (save p s) = ob_code s" "ob_countdown (save p s) = ob_countdown s" "ob_left (save p s) = ob_left s"
  "generatedPwRef (save p s) = generatedPwRef s" "ob_submitting (save p s) = ob_submitting s"
  "ob_draft (save p s) = spread (ob_draft s) p" "ob_codeSent (save p s) = ob_codeSent s" "ob_user (save p s) = ob_user s"
  "ob_param (save p s) = ob_param s" "verifiedRef (save p s) = verifiedRef s" "ob_loading (save p s) = ob_loading s"
  "ob_seen (save p s) = ob_seen s"
  by (simp_all add: save_def Let_def)

lemma go_draft [simp]: "draft_inv (go n s) = draft_inv s" by (simp add: go_def draft_inv_def)
lemma call_draft [simp]: "draft_inv (call c s) = draft_inv s" by (simp add: call_def draft_inv_def)
lemma answered_draft [simp]: "draft_inv (answered c s) = draft_inv s" by (simp add: answered_def draft_inv_def)

lemma hooks_draft [simp]:
  "draft_inv (s\<lparr>ob_submitting := b\<rparr>) = draft_inv s" "draft_inv (s\<lparr>ob_error := x\<rparr>) = draft_inv s"
  "draft_inv (s\<lparr>ob_code := c\<rparr>) = draft_inv s" "draft_inv (s\<lparr>verifyingRef := b\<rparr>) = draft_inv s"
  "draft_inv (s\<lparr>verifiedRef := b\<rparr>) = draft_inv s" "draft_inv (s\<lparr>ob_user := u\<rparr>) = draft_inv s"
  "draft_inv (s\<lparr>ob_loading := b\<rparr>) = draft_inv s" "draft_inv (s\<lparr>ob_role := r\<rparr>) = draft_inv s"
  "draft_inv (s\<lparr>generatedPwRef := pw\<rparr>) = draft_inv s" "draft_inv (s\<lparr>ob_seen := x'\<rparr>) = draft_inv s"
  "draft_inv (s\<lparr>ob_countdown := n\<rparr>) = draft_inv s" "draft_inv (s\<lparr>ob_codeSent := b\<rparr>) = draft_inv s"
  by (simp_all add: draft_inv_def)

lemma left_draft: "draft_inv s \<Longrightarrow> draft_inv (s\<lparr>ob_pushed := ps, ob_left := True\<rparr>)"
  by (simp add: draft_inv_def)


lemma settle_draft_inv: "draft_inv s \<Longrightarrow> draft_inv (ob_settle c r s)"
  by (induction c r s rule: ob_settle.induct)
    (auto simp: finally_idle_def code_sent_def reverify_def Let_def text_keys_def left_draft wf_draft_def
      intro!: save_draft_inv)

lemma draft_inv_step:
  assumes "draft_inv s" "ob_guard s e"
  shows "draft_inv (ob_step s e)"
proof (cases e)
  case (Answer c r)
  then show ?thesis using assms by (simp add: settle_draft_inv)
next
  case (Continue1 draws)
  then show ?thesis using assms(1) by (auto simp: continueStep1_def Let_def split: option.splits)
next
  case (Choose k patch)
  then have "k \<in> set nested_keys" using assms(2)
    by (auto simp: role_sections_def nested_keys_def split: if_splits)
  then show ?thesis using assms(1) Choose
    by (auto simp: nested_keys_def intro!: save_one_draft_inv)
next
  case (Save5 pw pw2 phone)
  have "draft_inv (save [(''phone'', JStr phone)] t)" if "draft_inv t" for t
    using that by (rule save_one_draft_inv) (simp_all add: text_keys_def)
  then show ?thesis using assms(1) Save5 by (simp add: save5_def finishStep5_def Let_def)
next
  case (CarryNext n)
  then show ?thesis using assms(1)
    by (auto simp: carry_next_def wf_draft_def text_keys_def split: option.splits intro!: save_draft_inv)
next
  case (CarryRef n)
  then show ?thesis using assms(1)
    by (auto simp: carry_ref_def text_keys_def split: option.splits intro!: save_one_draft_inv)
next
  case ResetStale
  then show ?thesis using assms stored_clear [of "ob_device s"]
    by (simp add: resetDraft_def draft_inv_def empty_draft_ok clearOnboardingDraft_def)
next
  case Finish
  then show ?thesis using assms by (simp add: finish_ob_def draft_inv_def)
next
  case SentOn
  then show ?thesis using assms(1) by (simp add: draft_inv_def)
next
  case Recover
  then show ?thesis using assms(1) by (simp add: recover_def reverify_def left_draft)
next
  case StepEffect
  then show ?thesis using assms(1) by (simp add: step_effect_def sendCode_def Let_def)
next
  case SkipFirst
  then show ?thesis using assms(1) by (simp add: skip_first_def split: option.splits)
next
  case Tick
  then show ?thesis using assms(1) by (simp add: ob_tick_def)
next
  case (TypeCode v)
  then show ?thesis using assms(1) by (simp add: type_ob_code_def verifyCode_def Let_def)
qed (use assms(1) in \<open>auto simp: sendCode_def verifyCode_def pickRole_def text_keys_def split: option.splits intro!: save_one_draft_inv\<close>)


section \<open>Calls\<close>

lemma calls_frame [simp]:
  "calls_inv (save p s) = calls_inv s" "calls_inv (go n s) = calls_inv s"
  "calls_inv (s\<lparr>ob_submitting := b\<rparr>) = calls_inv s" "calls_inv (s\<lparr>ob_error := x\<rparr>) = calls_inv s"
  "calls_inv (s\<lparr>verifiedRef := b\<rparr>) = calls_inv s" "calls_inv (s\<lparr>ob_user := u\<rparr>) = calls_inv s"
  "calls_inv (s\<lparr>ob_loading := b\<rparr>) = calls_inv s" "calls_inv (s\<lparr>ob_role := r\<rparr>) = calls_inv s"
  "calls_inv (s\<lparr>generatedPwRef := pw\<rparr>) = calls_inv s" "calls_inv (s\<lparr>ob_seen := x'\<rparr>) = calls_inv s"
  "calls_inv (s\<lparr>ob_pushed := ps\<rparr>) = calls_inv s" "calls_inv (s\<lparr>ob_left := b\<rparr>) = calls_inv s"
  "calls_inv (s\<lparr>ob_codeSent := b\<rparr>) = calls_inv s" "calls_inv (s\<lparr>ob_draft := st\<rparr>) = calls_inv s"
  "calls_inv (s\<lparr>ob_device := d\<rparr>) = calls_inv s"
  by (simp_all add: calls_inv_def confirms_in_flight_def go_def)

lemma calls_code_sent [simp]: "calls_inv s \<Longrightarrow> calls_inv (code_sent s)"
  by (simp add: code_sent_def calls_inv_def confirms_in_flight_def)

lemma calls_empty_code [simp]: "calls_inv s \<Longrightarrow> calls_inv (s\<lparr>ob_code := []\<rparr>)"
  by (simp add: calls_inv_def confirms_in_flight_def)

lemma calls_finally [simp]: "calls_inv (finally_idle s) = calls_inv s"
  by (simp add: finally_idle_def)

lemma calls_call: "calls_inv s \<Longrightarrow> call_fits c \<Longrightarrow> \<not> is_confirm c \<Longrightarrow> calls_inv (call c s)"
  by (simp add: calls_inv_def confirms_in_flight_def call_def)

lemma calls_answered: "calls_inv s \<Longrightarrow> \<not> is_confirm c \<Longrightarrow> calls_inv (answered c s)"
  by (simp add: calls_inv_def confirms_in_flight_def answered_def filter_remove1_other)

lemma confirm_answered:
  assumes "calls_inv s" "c \<in> set (ob_calls s)" "is_confirm c"
  shows "calls_inv ((answered c s)\<lparr>verifyingRef := False\<rparr>)"
proof -
  have "filter is_confirm (ob_calls s) \<noteq> []" using assms(2,3) by (auto simp: filter_empty_conv)
  then have "length (filter is_confirm (ob_calls s)) \<noteq> 0" by simp
  then have "length (filter is_confirm (ob_calls s)) = 1"
    using assms(1) by (auto simp: calls_inv_def confirms_in_flight_def split: if_splits)
  then show ?thesis using assms
    by (simp add: calls_inv_def confirms_in_flight_def answered_def length_filter_remove1)
qed

lemma verify_calls: "calls_inv s \<Longrightarrow> calls_inv (verifyCode s)"
  by (auto simp: verifyCode_def calls_inv_def confirms_in_flight_def call_def)

lemma type_code_calls: "calls_inv s \<Longrightarrow> calls_inv (type_ob_code v s)"
proof -
  assume inv: "calls_inv s"
  have "calls_inv (s\<lparr>ob_code := filter digit_letter v\<rparr>)"
    using inv by (auto simp: calls_inv_def confirms_in_flight_def list_all_iff)
  then show ?thesis using inv by (simp add: type_ob_code_def Let_def verify_calls)
qed

lemma settle_calls:
  assumes "calls_inv s" "c \<in> set (ob_calls s)" "answer_fits c r"
  shows "calls_inv (ob_settle c r (answered c s))"
proof (cases "is_confirm c")
  case True
  then obtain e k where c: "c = ConfirmCode e k" by (cases c) auto
  have inv: "calls_inv ((answered c s)\<lparr>verifyingRef := False\<rparr>)" using assms True by (simp add: confirm_answered)
  show ?thesis
  proof (cases r)
    case (Inl x)
    then show ?thesis using inv c by (simp add: finally_idle_def calls_inv_def confirms_in_flight_def)
  next
    case (Inr a)
    then obtain u where "a = SignedIn u" using assms(3) c by (cases a) auto
    then show ?thesis using inv c Inr
      by (simp add: finally_idle_def calls_inv_def confirms_in_flight_def go_def)
  qed
next
  case False
  then have "calls_inv (answered c s)" using assms(1) by (simp add: calls_answered)
  then show ?thesis using False
    by (induction c r "answered c s" rule: ob_settle.induct)
      (auto simp: Let_def reverify_def intro!: calls_call)
qed


lemma length_randomPassword [simp]: "length (randomPassword draws) = length draws"
  by (simp add: randomPassword_def)

lemma email_shape_trim: "email_shape e \<Longrightarrow> trim e = e"
proof -
  assume "email_shape e"
  then have ns: "\<And>c. c \<in> set e \<Longrightarrow> \<not> is_space c" by (auto simp: email_shape_def list_all_iff)
  show ?thesis
  proof (cases "e = []")
    case True
    then show ?thesis by (simp add: trim_def)
  next
    case False
    then have "dropWhile is_space e = e" using ns by (cases e) auto
    moreover have "rev (dropWhile is_space (rev e)) = e"
      using False ns by (intro dropWhile_rev_fixed) auto
    ultimately show ?thesis by (simp add: trim_def)
  qed
qed

lemma step1_calls: "calls_inv s \<Longrightarrow> length draws = 24 \<Longrightarrow> calls_inv (continueStep1 draws s)"
  by (auto simp: continueStep1_def Let_def email_shape_trim split: option.splits intro!: calls_call)

lemma step5_calls: "calls_inv s \<Longrightarrow> calls_inv (save5 pw pw2 phone s)"
  by (auto simp: save5_def finishStep5_def Let_def not_less intro!: calls_call)

lemma calls_inv_step:
  assumes "calls_inv s" "ob_guard s e"
  shows "calls_inv (ob_step s e)"
proof (cases e)
  case (Answer c r)
  then show ?thesis using assms by (simp add: settle_calls)
next
  case (Continue1 draws)
  then show ?thesis using assms by (simp add: step1_calls)
next
  case (Save5 pw pw2 phone)
  then show ?thesis using assms by (simp add: step5_calls)
next
  case (TypeCode v)
  then show ?thesis using assms by (simp add: type_code_calls)
next
  case Verify
  then show ?thesis using assms by (simp add: verify_calls)
next
  case Tick
  then show ?thesis using assms by (auto simp: ob_tick_def calls_inv_def confirms_in_flight_def)
next
  case ResetStale
  then show ?thesis using assms by (simp add: resetDraft_def calls_inv_def confirms_in_flight_def)
next
  case Recover
  then show ?thesis using assms(1) by (simp add: recover_def reverify_def calls_call)
next
  case StepEffect
  then show ?thesis using assms(1) by (simp add: step_effect_def sendCode_def Let_def calls_call)
next
  case SkipFirst
  then show ?thesis using assms(1) by (simp add: skip_first_def split: option.splits)
next
  case (CarryNext n)
  then show ?thesis using assms(1) by (simp add: carry_next_def split: option.splits)
next
  case (CarryRef n)
  then show ?thesis using assms(1) by (simp add: carry_ref_def split: option.splits)
next
  case Finish
  then show ?thesis using assms(1) by (simp add: finish_ob_def)
next
  case Continue3
  then show ?thesis using assms(1) by (simp add: pickRole_def calls_call split: option.splits)
next
  case SendCode
  then show ?thesis using assms(1) by (simp add: sendCode_def calls_call)
qed (use assms(1) in simp_all)

definition ob_starts :: "onboarding \<Rightarrow> bool" where
  "ob_starts s = (\<exists>param d. s = onboarding0 param d \<and> wf_draft (stored_draft d) \<and> next_validated (stored_draft d) \<and>
     items d ONBOARDING_STORAGE_KEY \<noteq> Some (Stored JNull))"

interpretation signup: bounded_machine ob_starts ob_guard ob_step "\<lambda>s. draft_inv s \<and> calls_inv s" confirms_in_flight 1
proof unfold_locales
  fix s assume "ob_starts s"
  then show "draft_inv s \<and> calls_inv s"
    by (auto simp: ob_starts_def onboarding0_def draft_inv_def calls_inv_def confirms_in_flight_def)
next
  fix s e assume "draft_inv s \<and> calls_inv s" "ob_guard s e"
  then show "draft_inv (ob_step s e) \<and> calls_inv (ob_step s e)"
    using draft_inv_step calls_inv_step by blast
next
  fix s assume "draft_inv s \<and> calls_inv s"
  then show "confirms_in_flight s \<le> 1" by (simp add: calls_inv_def)
qed

abbreviation ob_reach :: "onboarding \<Rightarrow> bool" where
  "ob_reach \<equiv> reach ob_starts ob_guard ob_step"

section \<open>Properties\<close>


text \<open>
  C10. At most one confirmation is in flight, however Enter, the button and the sixth digit race;
  every code sent is six digits, every generated password has 24 characters, and no password
  whose \<open>length\<close> (its UTF-16 code units) is below eight is ever sent.
\<close>

theorem signup_calls:
  assumes "ob_reach s"
  shows "confirms_in_flight s \<le> 1 \<and>
    list_all (\<lambda>c. case c of
        ConfirmCode e k \<Rightarrow> length k = 6 \<and> list_all digit_letter k
      | Register e pw r \<Rightarrow> length pw = 24 \<and> email_shape e
      | ChangePassword cur new \<Rightarrow> 8 \<le> utf16_length new
      | _ \<Rightarrow> True) (ob_sent s)"
proof -
  have "list_all call_fits (ob_sent s)" using signup.reach_inv [OF assms] by (simp add: calls_inv_def)
  then have "list_all (\<lambda>c. case c of
        ConfirmCode e k \<Rightarrow> length k = 6 \<and> list_all digit_letter k
      | Register e pw r \<Rightarrow> length pw = 24 \<and> email_shape e
      | ChangePassword cur new \<Rightarrow> 8 \<le> utf16_length new
      | _ \<Rightarrow> True) (ob_sent s)"
    by (rule list.pred_mono_strong) (auto split: ob_call.splits)
  then show ?thesis using signup.reach_load [OF assms] by simp
qed

text \<open>
  The last button leads to a path on this origin, whatever \<open>next\<close> the signup was opened with:
  the target was validated when it was carried in and is validated again here.
\<close>

theorem signup_lands_on_origin:
  assumes "ob_reach s"
  shows "\<not> protocol_relative (finish_dest (ob_draft s))"
proof -
  have nv: "next_validated (ob_draft s)" using signup.reach_inv [OF assms] by (simp add: draft_inv_def)
  have home: "\<not> protocol_relative (dashboardFor r)" for r
    by (simp add: dashboardFor_def homeForRoles_def protocol_relative_def)
  have "\<not> protocol_relative n" if n: "safeNextPath (field_text (ob_draft s) ''next'') = Some n" for n
  proof (cases "field_text (ob_draft s) ''next''")
    case None
    with n show ?thesis by (simp add: safeNextPath_def)
  next
    case (Some t)
    with nv obtain raw where "safeNextPath raw = Some t" by (auto simp: next_validated_def)
    with n Some validated_twice show ?thesis by simp
  qed
  then show ?thesis
    by (auto simp: finish_dest_def home split: option.splits) (auto simp: protocol_relative_def)
qed


subsection \<open>The generated password\<close>

fun not_register :: "ob_call \<Rightarrow> bool" where
  "not_register (Register e pw r) = False"
| "not_register c = True"

definition pw_inv :: "onboarding \<Rightarrow> bool" where
  "pw_inv s = (list_all not_register (ob_sent s) \<longrightarrow> generatedPwRef s = [])"

lemma pw_frame [simp]:
  "pw_inv (save p s) = pw_inv s" "pw_inv (go n s) = pw_inv s" "pw_inv (answered c s) = pw_inv s"
  "pw_inv (code_sent s) = pw_inv s" "pw_inv (finally_idle s) = pw_inv s" "pw_inv (resetDraft s) = pw_inv s"
  "pw_inv (s\<lparr>ob_submitting := b\<rparr>) = pw_inv s" "pw_inv (s\<lparr>ob_error := x\<rparr>) = pw_inv s"
  "pw_inv (s\<lparr>verifiedRef := b\<rparr>) = pw_inv s" "pw_inv (s\<lparr>verifyingRef := b\<rparr>) = pw_inv s"
  "pw_inv (s\<lparr>ob_user := u\<rparr>) = pw_inv s" "pw_inv (s\<lparr>ob_code := k\<rparr>) = pw_inv s"
  "pw_inv (s\<lparr>ob_loading := b\<rparr>) = pw_inv s" "pw_inv (s\<lparr>ob_role := r\<rparr>) = pw_inv s" "pw_inv (s\<lparr>ob_seen := x'\<rparr>) = pw_inv s"
  "pw_inv (s\<lparr>ob_pushed := ps\<rparr>) = pw_inv s" "pw_inv (s\<lparr>ob_left := b\<rparr>) = pw_inv s" "pw_inv (s\<lparr>ob_device := d\<rparr>) = pw_inv s"
  "pw_inv (s\<lparr>ob_countdown := m\<rparr>) = pw_inv s"
  by (simp_all add: pw_inv_def go_def answered_def code_sent_def finally_idle_def resetDraft_def)

lemma pw_call [simp]: "pw_inv s \<Longrightarrow> pw_inv (call c s)"
  by (simp add: pw_inv_def call_def)

lemma pw_call_simp: "pw_inv (call (Register e pw r) s)"
  by (simp add: pw_inv_def call_def)

lemma settle_pw: "pw_inv s \<Longrightarrow> pw_inv (ob_settle c r s)"
  by (induction c r s rule: ob_settle.induct) (simp_all add: Let_def reverify_def)

lemma pw_inv_step: "pw_inv s \<Longrightarrow> pw_inv (ob_step s e)"
  by (cases e) (simp_all add: settle_pw continueStep1_def pw_call_simp sendCode_def verifyCode_def type_ob_code_def
      pickRole_def save5_def finishStep5_def finish_ob_def ob_tick_def carry_next_def carry_ref_def skip_first_def
      step_effect_def recover_def reverify_def Let_def split: option.splits)

interpretation generated: machine ob_starts ob_guard ob_step pw_inv
proof unfold_locales
  fix s assume "ob_starts s"
  then show "pw_inv s" by (auto simp: ob_starts_def onboarding0_def pw_inv_def)
next
  fix s e assume "pw_inv s" "ob_guard s e"
  then show "pw_inv (ob_step s e)" by (simp add: pw_inv_step)
qed

lemma save5_accepts:
  "8 \<le> utf16_length pw \<Longrightarrow> ob_sent (save5 pw pw phone s) = ob_sent s @ [ChangePassword (generatedPwRef s) pw]"
  by (cases pw) (auto simp: save5_def finishStep5_def call_def Let_def utf16_length_def)

text \<open>
  The generated password lives only in a ref of the page. A signup that is resumed after a
  reload, or with an account made earlier, sends an empty current password, which the server
  rejects: the password of the fifth step cannot be set.
\<close>

theorem resumed_signup_sets_no_password:
  assumes "ob_reach s" "list_all not_register (ob_sent s)" "ob_guard s (Save5 pw pw phone)" "8 \<le> utf16_length pw"
  shows "ob_sent (ob_step s (Save5 pw pw phone)) = ob_sent s @ [ChangePassword [] pw]"
  using generated.reach_inv [OF assms(1)] assms(2,4) by (simp add: save5_accepts pw_inv_def)

text \<open>
  Enter in the address field is not held back while the account is being created: pressed
  twice, it registers twice, and the page keeps the password of the second attempt, while
  the account has the first one.
\<close>

theorem enter_twice_loses_password:
  fixes s d1 d2 i pw phone
  assumes "\<not> ob_left s" "steps_shown s" "ob_param s = Some 1" "ob_user s = None"
    and "trim (field_or_empty (ob_draft s) ''name'') \<noteq> []" "email_shape (field_or_empty (ob_draft s) ''email'')"
    and "length d1 = 24" "length d2 = 24" "8 \<le> utf16_length pw"
  defines "email \<equiv> field_or_empty (ob_draft s) ''email''" and "r \<equiv> field_text (ob_draft s) ''ref''"
  defines "first \<equiv> Register email (randomPassword d1) r"
  defines "s' \<equiv> run ob_step s [Continue1 d1, Continue1 d2, Answer first (Inr (Created i))]"
  shows "allowed ob_guard ob_step s [Continue1 d1, Continue1 d2, Answer first (Inr (Created i))] \<and>
    ob_sent s' = ob_sent s @ [first, Register email (randomPassword d2) r] \<and>
    last (ob_sent (save5 pw pw phone s')) = ChangePassword (randomPassword d2) pw"
proof -
  define s1 where "s1 = continueStep1 d1 s"
  have s1: "s1 = call first (s\<lparr>ob_submitting := True, ob_error := None, generatedPwRef := randomPassword d1\<rparr>)"
    using assms(4-6) by (simp add: s1_def continueStep1_def Let_def email_shape_trim first_def email_def r_def)
  have shown: "\<not> ob_left s1" "steps_shown s1" "step_of s1 = 1" "step_of s = 1"
    using assms(1-3) by (simp_all add: s1 call_def steps_shown_def staleDraft_def needs_session_def step_of_def split: option.splits)
  define s2 where "s2 = continueStep1 d2 s1"
  have s2: "s2 = call (Register email (randomPassword d2) r)
      (s1\<lparr>ob_submitting := True, ob_error := None, generatedPwRef := randomPassword d2\<rparr>)"
    using assms(4-6) by (simp add: s2_def continueStep1_def Let_def email_shape_trim s1 call_def email_def r_def)
  have sent: "ob_sent s2 = ob_sent s @ [first, Register email (randomPassword d2) r]" "first \<in> set (ob_calls s2)"
      "\<not> ob_left s2" "generatedPwRef s2 = randomPassword d2"
    using shown by (simp_all add: s2 s1 call_def)
  have s': "s' = ob_settle first (Inr (Created i)) (answered first s2)"
    by (simp add: s'_def s2_def s1_def)
  have "ob_sent s' = ob_sent s2" "generatedPwRef s' = generatedPwRef s2"
    by (simp_all add: s' first_def finally_idle_def go_def answered_def)
  with sent shown show ?thesis
    using assms(1,2,7,8,9) by (simp add: s1_def [symmetric] s2_def [symmetric] save5_accepts) (simp add: first_def)
qed


subsection \<open>Codes\<close>

text \<open>
  Somebody whose address is already known gets two codes in a row: one from the first step,
  which does not record that it has sent one, and one from the effect that opens the second.
\<close>

theorem existing_account_two_codes:
  fixes s d e a
  assumes "\<not> ob_left s" "steps_shown s" "ob_param s = Some 1" "ob_user s = None" "\<not> ob_codeSent s"
    and "trim (field_or_empty (ob_draft s) ''name'') \<noteq> []" "email_shape (field_or_empty (ob_draft s) ''email'')"
    and "length d = 24" "already_registered (message_of e ''Could not create your account'')"
  defines "email \<equiv> field_or_empty (ob_draft s) ''email''"
  defines "first \<equiv> Register email (randomPassword d) (field_text (ob_draft s) ''ref'')"
  defines "evs \<equiv> [Continue1 d, Answer first (Inl e), Answer (ResendCode email) (Inr a), StepEffect]"
  assumes "ob_seen s = Some 1"
  shows "ob_sent (run ob_step s evs) = ob_sent s @ [first, ResendCode email, RequestCode email]"
proof -
  have ne: "email \<noteq> []" using assms(7) by (auto simp: email_def email_shape_def)
  have s1: "continueStep1 d s = call first (s\<lparr>ob_submitting := True, ob_error := None, generatedPwRef := randomPassword d\<rparr>)"
    using assms(4,6,7) by (simp add: continueStep1_def Let_def email_shape_trim first_def email_def)
  show ?thesis
    using assms(5,9) ne unfolding evs_def
    by (simp add: s1 first_def call_def answered_def finally_idle_def go_def step_effect_def step_of_def sendCode_def
        present_def Let_def email_def [symmetric])
qed

text \<open>
  A verified draft whose session is gone is not resumed with a fresh code: it counts as stale,
  the recovery effect stands aside, no code is asked for, the draft is thrown away, and on a
  step from three to six the visitor is then sent to the guarded wizard.
\<close>

theorem lost_session_discards_draft:
  fixes param d
  defines "s \<equiv> run ob_step (onboarding0 param d) [SessionIs None False]"
  defines "s' \<equiv> run ob_step (onboarding0 param d) [SessionIs None False, ResetStale]"
  assumes "draft_verified (stored_draft d)" "field_text (stored_draft d) ''userId'' \<noteq> None" "readable d" "writable d"
  shows "\<not> steps_shown s \<and> recover s = s \<and> ob_guard s ResetStale \<and> ob_sent s' = [] \<and>
    ob_draft s' = empty_draft \<and> stored_draft (ob_device s') = empty_draft \<and>
    (case param of Some n \<Rightarrow> if 3 \<le> n \<and> n \<le> 6 then ob_pushed (recover s') = [''/onboarding/wizard''] \<and> ob_left (recover s') else True
     | None \<Rightarrow> True)"
proof -
  have stale: "staleDraft s" using assms(3,4) by (simp add: s_def onboarding0_def staleDraft_def)
  have s': "s' = resetDraft s" by (simp add: s_def s'_def)
  have fresh: "\<not> staleDraft s'" by (simp add: s' s_def onboarding0_def resetDraft_def staleDraft_def empty_draft_def field_text_def)
  have ne: "\<not> present (ob_draft s') ''email''"
    by (simp add: s' resetDraft_def present_def field_or_empty_def field_text_def empty_draft_def)
  have "needs_session s'" if "param = Some n" "3 \<le> n" "n \<le> 6" for n
    using that by (simp add: s' s_def onboarding0_def resetDraft_def needs_session_def step_of_def)
  then have go_away: "case param of Some n \<Rightarrow> if 3 \<le> n \<and> n \<le> 6 then ob_pushed (recover s') = [''/onboarding/wizard''] \<and> ob_left (recover s') else True
     | None \<Rightarrow> True"
    using fresh ne by (auto simp: recover_def s' s_def onboarding0_def resetDraft_def split: option.splits)
  show ?thesis
    using stale stored_clear [OF assms(5,6)] go_away
    by (simp add: steps_shown_def recover_def) (simp add: s' s_def onboarding0_def resetDraft_def)
qed

subsection \<open>Passwords and names\<close>

text \<open>
  A generated password has one character per drawn word, all from the alphabet without look-alikes;
  the meter has four bars, of which as many are lit as the strength says, a label of its
  list, and the hint exactly below three.
\<close>

theorem password_widgets_bounded:
  "length (randomPassword draws) = length draws \<and>
   list_all (\<lambda>c. c \<in> set password_chars \<and> c \<notin> set ''IOl01'') (randomPassword draws) \<and>
   strength pw \<le> 4 \<and>
   (case StrengthMeter pw of
      None \<Rightarrow> pw = []
    | Some (bars, label, hint) \<Rightarrow> length bars = 4 \<and> length (filter (\<lambda>b. b \<in> set strength_colors) bars) = strength pw \<and>
        label \<in> set strength_labels \<and> hint = (strength pw < 3))"
proof -
  have "password_chars ! (unat w mod length password_chars) \<in> set password_chars" for w :: "32 word"
    by (rule nth_mem) (simp add: password_chars_def)
  moreover have "list_all (\<lambda>c. c \<notin> set ''IOl01'') password_chars" by (simp add: password_chars_def)
  ultimately have chars: "list_all (\<lambda>c. c \<in> set password_chars \<and> c \<notin> set ''IOl01'') (randomPassword draws)"
    unfolding randomPassword_def list_all_iff by auto
  have le: "strength pw \<le> 4" by (simp add: strength_def)
  then have "strength pw = 0 \<or> strength pw = 1 \<or> strength pw = 2 \<or> strength pw = 3 \<or> strength pw = 4" by arith
  then show ?thesis using chars le
    by (elim disjE) (simp_all add: StrengthMeter_def Let_def strength_colors_def strength_labels_def)
qed

text \<open>The meter calls a password of four characters good that the form then refuses as too short.\<close>

theorem short_password_rated_good:
  "StrengthMeter ''Aa1!'' = Some ([''bg-yellow-500'', ''bg-yellow-500'', ''bg-yellow-500'', ''bg-[#F9F6ED]''], ''Good'', False) \<and>
   ob_error (save5 ''Aa1!'' ''Aa1!'' phone s) = Some ''Password must be at least 8 characters.''"
  by (simp add: StrengthMeter_def strength_def strength_colors_def strength_labels_def upper_letter_def lower_letter_def
      digit_letter_def save5_def Let_def utf16_length_def utf16_units_def)

lemma concat_split_spaces: "concat (split_spaces acc s) = rev acc @ filter (\<lambda>c. \<not> is_space c) s"
  by (induction acc s rule: split_spaces.induct) auto

lemma filter_trim: "filter (\<lambda>c. \<not> is_space c) (trim s) = filter (\<lambda>c. \<not> is_space c) s"
proof -
  have d: "filter (\<lambda>c. \<not> is_space c) (dropWhile is_space t) = filter (\<lambda>c. \<not> is_space c) t" for t
    by (induction t) auto
  show ?thesis by (simp add: trim_def rev_filter [symmetric] d)
qed

lemma words_of_nonempty: "words_of s \<noteq> []"
proof -
  have "split_spaces acc t \<noteq> []" for acc t by (induction acc t rule: split_spaces.induct) auto
  then show ?thesis by (simp add: words_of_def)
qed

text \<open>
  The first and the last name sent to the account hold every letter of the name of the first step
  in order; the account is marked as finished after them, and a learner is created first
  exactly when a parent or a school named one.
\<close>

theorem finish_line_calls:
  "concat (words_of name) = filter (\<lambda>c. \<not> is_space c) name \<and> words_of name \<noteq> [] \<and>
   last (finish_calls st) = markOnboarded \<and> updateProfile (profile_input st) \<in> set (finish_calls st) \<and>
   length (finish_calls st) = (if field_text st ''role'' \<in> {Some ''PARENT'', Some ''INSTITUTION''} \<and>
       trim (field_or_empty (nested st ''parent'') ''childName'') \<noteq> [] then 3 else 2)"
  using words_of_nonempty [of name] by (simp add: words_of_def concat_split_spaces filter_trim finish_calls_def)


section \<open>Witnesses\<close>

lemmas ob_eval = onboarding0_def stored_draft_def device0_def empty_draft_def steps_shown_def staleDraft_def
  needs_session_def step_of_def draft_verified_def field_text_def field_or_empty_def present_def save_def spread_def
  writeCache_def Let_def

definition ada_form :: onboarding where
  "ada_form = run ob_step (onboarding0 (Some 1) device0)
     [SessionIs None False, StepEffect, TypeName ''Ada Obi'', TypeEmail ''a@b.co'']"

lemma ada_form_eval:
  "ob_draft ada_form = [(''verified'', JBool False), (''name'', JStr ''Ada Obi''), (''email'', JStr ''a@b.co'')]"
  "\<not> ob_left ada_form" "steps_shown ada_form" "ob_param ada_form = Some 1" "ob_user ada_form = None"
  "\<not> ob_codeSent ada_form" "ob_seen ada_form = Some 1" "ob_sent ada_form = []" "readable (ob_device ada_form)"
  "writable (ob_device ada_form)" "ob_calls ada_form = []"
  by (simp_all add: ada_form_def ob_eval step_effect_def)

lemma device0_starts: "ob_starts (onboarding0 param device0)"
proof -
  have "stored_draft device0 = empty_draft" by (simp add: stored_draft_def device0_def)
  moreover have "items device0 ONBOARDING_STORAGE_KEY \<noteq> Some (Stored JNull)" by (simp add: device0_def)
  ultimately show ?thesis using empty_draft_ok unfolding ob_starts_def by (metis (no_types))
qed

lemma ob_run_reach: "allowed ob_guard ob_step (onboarding0 param device0) evs \<Longrightarrow>
   ob_reach (run ob_step (onboarding0 param device0) evs)"
  by (rule run_reachable) (rule device0_starts)

lemma ada_form_reach: "ob_reach ada_form"
  unfolding ada_form_def
  by (rule ob_run_reach) (simp add: ob_eval step_effect_def)

lemma ada_email: "email_shape ''a@b.co''" "trim ''Ada Obi'' \<noteq> []" "trim ''a@b.co'' = ''a@b.co''"
  by (simp_all add: email_shape_def is_space_def trim_def)


theorem signup_lands_on_origin_witness: "\<not> protocol_relative (finish_dest (ob_draft ada_form))"
  using signup_lands_on_origin [OF ada_form_reach] .

definition ada_verifying :: onboarding where
  "ada_verifying = run ob_step (onboarding0 (Some 2) device0) [SessionIs None False, TypeCode ''123456'', Verify]"

lemma ada_verifying_reach: "ob_reach ada_verifying"
  unfolding ada_verifying_def
  by (rule ob_run_reach)
    (simp add: ob_eval type_ob_code_def verifyCode_def call_def digit_letter_def)

theorem signup_calls_witness: "confirms_in_flight ada_verifying \<le> 1 \<and> ob_sent ada_verifying = [ConfirmCode [] ''123456'']"
  using signup_calls [OF ada_verifying_reach]
  by (simp add: ada_verifying_def ob_eval type_ob_code_def verifyCode_def call_def digit_letter_def)

lemma secret_length: "8 \<le> utf16_length ''Secret12!''"
  by (simp add: utf16_length_def utf16_units_def)

definition ada_resumed :: onboarding where
  "ada_resumed = run ob_step (onboarding0 (Some 5) device0)
     [SessionIs (Some \<lparr>ou_id = ''u1'', ou_status = ''ACTIVE'', ou_onboarded = False, ou_roles = []\<rparr>) False]"

lemma ada_resumed_reach: "ob_reach ada_resumed"
  unfolding ada_resumed_def by (rule ob_run_reach) (simp add: ob_eval)

theorem resumed_signup_sets_no_password_witness:
  "ob_sent (ob_step ada_resumed (Save5 ''Secret12!'' ''Secret12!'' [])) = [ChangePassword [] ''Secret12!'']"
  using resumed_signup_sets_no_password [OF ada_resumed_reach, of "''Secret12!''" "[]"] secret_length
  by (simp add: ada_resumed_def ob_eval del: ob_step.simps(12))

theorem enter_twice_loses_password_witness:
  "last (ob_sent (save5 ''Secret12!'' ''Secret12!'' [] (run ob_step ada_form
     [Continue1 (replicate 24 0), Continue1 (replicate 24 1),
      Answer (Register ''a@b.co'' (randomPassword (replicate 24 0)) None) (Inr (Created ''u1''))])))
   = ChangePassword (randomPassword (replicate 24 1)) ''Secret12!''"
  using enter_twice_loses_password [of ada_form "replicate 24 0" "replicate 24 1" "''Secret12!''" "''u1''" "[]"] secret_length
  by (simp add: ada_form_eval ada_email field_or_empty_def field_text_def del: run.simps allowed.simps)

theorem existing_account_two_codes_witness:
  "ob_sent (run ob_step ada_form
     [Continue1 (replicate 24 0),
      Answer (Register ''a@b.co'' (randomPassword (replicate 24 0)) None) (Inl (plain_error ''email already registered'')),
      Answer (ResendCode ''a@b.co'') (Inr Done), StepEffect]) =
   [Register ''a@b.co'' (randomPassword (replicate 24 0)) None, ResendCode ''a@b.co'', RequestCode ''a@b.co'']"
proof -
  have m: "already_registered (message_of (plain_error ''email already registered'') ''Could not create your account'')"
    by (simp add: already_registered_def message_of_def instanceof_Error_def to_lower_def lower_char_def)
  show ?thesis
    using existing_account_two_codes [of ada_form "replicate 24 0" "plain_error ''email already registered''" Done] m
    by (simp add: ada_form_eval ada_email field_or_empty_def field_text_def del: run.simps)
qed

definition ada_draft :: device where
  "ada_draft = device0\<lparr>items := (\<lambda>_. None)(ONBOARDING_STORAGE_KEY \<mapsto> Stored (JObj
     [(''email'', JStr ''a@b.co''), (''userId'', JStr ''u1''), (''verified'', JBool True)]))\<rparr>"

theorem lost_session_discards_draft_witness:
  "ob_pushed (recover (run ob_step (onboarding0 (Some 4) ada_draft) [SessionIs None False, ResetStale])) = [''/onboarding/wizard'']"
  using lost_session_discards_draft [of ada_draft "Some 4"]
  by (simp add: ada_draft_def stored_draft_def device0_def draft_verified_def field_text_def del: run.simps)

end
