(* ===== verification/OnboardingView.thy ===== *)
theory OnboardingView
  imports Onboarding
begin

text \<open>
  What the seven steps of \<open>client/app/onboarding/page.tsx\<close> show and offer: one view per step
  component, the frame with its title, error box, back button, and the composition of the
  page. The lemmas say that everything the page offers is an event that the state machine
  accepts, and that the choices of the fourth step flip.
\<close>

section \<open>The steps\<close>

definition STEPS :: "jsstring list" where
  "STEPS = [''Account'', ''Verify'', ''Role'', ''Path'', ''Profile'', ''About'', ''Done'']"

text \<open>Value and label of \<open>ROLES\<close>.\<close>

definition ROLES :: "(jsstring \<times> jsstring) list" where
  "ROLES = [(''PARENT'', ''Parent''), (''STUDENT'', ''Student''), (''TUTOR'', ''Tutor''), (''INSTITUTION'', ''School / Company'')]"

definition apostrophe :: jsstring where "apostrophe = [CHR 0x27]"

definition STEP_META :: "(int \<times> jsstring \<times> jsstring) list" where
  "STEP_META =
     [(1, ''Create your account'', ''Start with your name and email - it takes under 2 minutes.''),
      (2, ''Verify your email'', ''Enter the 6-digit code we emailed you.''),
      (3, ''How are you planning to use YK-Virtual?'', ''Select the role that best describes you.''),
      (4, ''What'' @ apostrophe @ ''s next for you?'', ''Tell us a little more so we can point you in the right direction.''),
      (5, ''Complete your profile'', ''Add your contact details and secure your account.''),
      (6, ''About you'', ''Optional details to personalise your experience.''),
      (7, ''You'' @ apostrophe @ ''re all set!'', ''Your account is ready.'')]"

definition Step1 :: "32 word list \<Rightarrow> onboarding \<Rightarrow> ob_event widget list" where
  "Step1 draws s =
     [Field ''Full name'' (field_or_empty (ob_draft s) ''name''), Field ''Email address'' (field_or_empty (ob_draft s) ''email''),
      Btn (if ob_submitting s then ''Creating account'' @ ellipsis else ''Continue'') (\<not> ob_submitting s) (Continue1 draws)]"

definition Step2 :: "onboarding \<Rightarrow> ob_event widget list" where
  "Step2 s =
     [Txt (''We emailed a 6-digit code to '' @ field_or_empty (ob_draft s) ''email'' @ ''. Enter it below to verify your email.''),
      Field ''Verification code'' (ob_code s),
      Btn (if ob_countdown s > 0 then ''Resend in '' @ show_nat (ob_countdown s) @ ''s''
           else if ob_codeSent s then ''Resend code'' else ''Send code'')
        (\<not> (ob_submitting s \<or> ob_countdown s > 0)) SendCode,
      Btn (if ob_submitting s then ''Verifying'' @ ellipsis else ''Verify email'')
        (\<not> (ob_submitting s \<or> length (ob_code s) \<noteq> 6)) Verify]"

definition Step3 :: "onboarding \<Rightarrow> ob_event widget list" where
  "Step3 s = map (\<lambda>(v, l). Btn l True (SelectRole v)) ROLES @
     [Btn (if ob_submitting s then ''Saving'' @ ellipsis else ''Continue'')
        (\<not> (ob_role s = None \<or> ob_role s = Some [] \<or> ob_submitting s)) Continue3]"

text \<open>The texts of an array of the draft, and a chip that adds or removes one.\<close>

definition choices :: "fields \<Rightarrow> jsstring \<Rightarrow> json list" where
  "choices p k = (case map_of p k of Some (JArr xs) \<Rightarrow> xs | _ \<Rightarrow> [])"

definition toggle_choice :: "jsstring \<Rightarrow> json list \<Rightarrow> json list" where
  "toggle_choice g xs = (if JStr g \<in> set xs then filter (\<lambda>x. x \<noteq> JStr g) xs else xs @ [JStr g])"

definition toggle_chip :: "jsstring \<Rightarrow> jsstring \<Rightarrow> onboarding \<Rightarrow> jsstring \<Rightarrow> ob_event widget" where
  "toggle_chip section k s g =
     Btn g True (Choose section [(k, JArr (toggle_choice g (choices (nested (ob_draft s) section) k)))])"

definition pick_chip :: "jsstring \<Rightarrow> jsstring \<Rightarrow> jsstring \<Rightarrow> ob_event widget" where
  "pick_chip section k o' = Btn o' True (Choose section [(k, JStr o')])"

definition next4 :: "ob_event widget" where "next4 = Btn ''Continue'' True Continue4"

definition Step4 :: "onboarding \<Rightarrow> ob_event widget list" where
  "Step4 s =
     (let st = ob_draft s; r = field_or_empty st ''role''; p = nested st ''parent'' in
      if r = ''PARENT'' then
        [Txt ''Who is learning with YK-Virtual?''] @ map (pick_chip ''parent'' ''forWhom'') [''My child'', ''Myself'', ''Both''] @
        (if present p ''forWhom'' \<and> field_or_empty p ''forWhom'' \<noteq> ''Myself''
         then [Field (''Learner'' @ apostrophe @ ''s name'') (field_or_empty p ''childName''),
               Field (''Learner'' @ apostrophe @ ''s level'') (field_or_empty p ''childLevel''),
               Field (''Learner'' @ apostrophe @ ''s date of birth'') (field_or_empty p ''childDOB'')]
         else []) @ [next4]
      else if r = ''STUDENT'' then
        [Txt ''What are you preparing for?''] @
        map (toggle_chip ''student'' ''goals'' s) [''School exams'', ''SAT / ACT'', ''GMAT / GRE'', ''University admission''] @
        [Field ''Your level'' (field_or_empty (nested st ''student'') ''level''), next4]
      else if r = ''TUTOR'' then
        [Txt ''What would you like to teach?''] @
        map (toggle_chip ''tutor'' ''subjects'' s)
          [''Mathematics'', ''English'', ''Sciences'', ''Languages'', ''Computer Science'', ''Business'', ''Test prep''] @
        [Txt ''Levels''] @
        map (toggle_chip ''tutor'' ''levels'' s) [''Primary'', ''Secondary'', ''Undergraduate'', ''Professional''] @ [next4]
      else if r = ''INSTITUTION'' then
        [Txt ''What kind of institution?''] @
        map (pick_chip ''institution'' ''kind'') [''School'', ''Academy / Test-prep'', ''Agency / Consultancy''] @
        [Field ''City'' (field_or_empty (nested st ''institution'') ''city''), next4]
      else [Txt ''Pick a role on the previous step to continue.''])"

text \<open>The fifth step keeps its three inputs in its own state.\<close>

definition Step5 :: "jsstring \<Rightarrow> jsstring \<Rightarrow> jsstring \<Rightarrow> onboarding \<Rightarrow> ob_event widget list" where
  "Step5 pw pw2 phone s =
     [Field ''Phone number (optional)'' phone, Field ''Set your password'' pw] @
     (case StrengthMeter pw of None \<Rightarrow> [] | Some (bars, label, hint) \<Rightarrow> Txt (''Password strength: '' @ label) #
        (if hint then [Txt '' - aim for 8+ characters with mixed case, a number and a symbol.''] else [])) @
     [Field ''Confirm password'' pw2] @
     (if pw2 \<noteq> [] \<and> pw \<noteq> pw2 then [Txt ''Passwords do not match.''] else []) @
     [Btn (if ob_submitting s then ''Saving'' @ ellipsis else ''Save & continue'') (\<not> ob_submitting s) (Save5 pw pw2 phone),
      Txt ''Leave the password empty to keep using email codes to sign in - you can add one later.'']"

definition Step6 :: "onboarding \<Rightarrow> ob_event widget list" where
  "Step6 s = [Field ''Tell us about yourself (optional)'' (field_or_empty (ob_draft s) ''bio''), Txt ''Preferred language''] @
     map (\<lambda>l. Btn l True (PickLanguage l)) [''English'', ''French'', ''Yoruba'', ''Igbo'', ''Hausa'', ''Pidgin''] @
     [Btn ''Finish setup'' True Continue6]"

definition first_name_shown :: "fields \<Rightarrow> jsstring" where
  "first_name_shown st =
     (let n = field_or_empty st ''name''; w = hd (split_on (CHR '' '') (if n = [] then field_or_empty st ''email'' else n))
      in if w = [] then ''there'' else w)"

definition role_label :: "fields \<Rightarrow> jsstring" where
  "role_label st = (case map_of ROLES (field_or_empty st ''role'') of Some l \<Rightarrow> to_lower l | None \<Rightarrow> ''account'')"

definition Step7 :: "onboarding \<Rightarrow> ob_event widget list" where
  "Step7 s =
     [Txt (''You'' @ apostrophe @ ''re all set, '' @ first_name_shown (ob_draft s) @ ''!''),
      Btn ''Go to my dashboard'' True Finish,
      Txt (''You'' @ apostrophe @ ''ll be taken to your '' @ role_label (ob_draft s) @ '' dashboard.'')]"

section \<open>The page\<close>

definition back_button :: "onboarding \<Rightarrow> ob_event widget list" where
  "back_button s = (if step_of s > 1 \<and> step_of s < 7 then [Btn ''Back to previous step'' True GoBack] else [])"

definition frame_title :: "variant \<Rightarrow> onboarding \<Rightarrow> jsstring \<times> jsstring" where
  "frame_title ab s =
     (if step_of s = 1 \<and> ab = B
      then (''Join YK-Virtual free'', ''Under 2 minutes to unlock vetted tutors, escrow-protected payments and live cohorts.'')
      else the (map_of STEP_META (step_of s)))"

definition ob_view :: "variant \<Rightarrow> 32 word list \<Rightarrow> jsstring \<Rightarrow> jsstring \<Rightarrow> jsstring \<Rightarrow> onboarding \<Rightarrow> ob_event widget list" where
  "ob_view ab draws pw pw2 phone s =
     (if \<not> steps_shown s then [Txt (''Loading'' @ ellipsis)]
      else [Txt (fst (frame_title ab s)), Txt (snd (frame_title ab s))] @
        (case ob_error s of Some e \<Rightarrow> if e = [] then [] else [Txt e] | None \<Rightarrow> []) @
        (if step_of s = 1 then Step1 draws s else []) @ (if step_of s = 2 then Step2 s else []) @
        (if step_of s = 3 then Step3 s else []) @ (if step_of s = 4 then Step4 s else []) @
        (if step_of s = 5 then Step5 pw pw2 phone s else []) @ (if step_of s = 6 then Step6 s else []) @
        (if step_of s = 7 then Step7 s else []) @ back_button s)"


section \<open>Properties\<close>

lemma step_range: "1 \<le> step_of s \<and> step_of s \<le> 7"
  by (simp add: step_of_def Let_def)

lemma step_cases: "step_of s = 1 \<or> step_of s = 2 \<or> step_of s = 3 \<or> step_of s = 4 \<or> step_of s = 5 \<or> step_of s = 6 \<or> step_of s = 7"
  using step_range [of s] by arith

text \<open>Whatever stands in the URL and in the draft, the page is on one of its seven steps, and each has a title.\<close>

theorem step_has_title:
  "1 \<le> step_of s \<and> step_of s \<le> 7 \<and> map_of STEP_META (step_of s) \<noteq> None \<and> nat (step_of s) - 1 < length STEPS"
  using step_cases [of s] by (elim disjE) (simp_all add: STEP_META_def STEPS_def)

lemma map_of_single: "map_of (spread a [(k, v)]) k = Some v"
  by (simp add: map_of_spread)

lemma nested_save: "nested (ob_draft (save [(k, JObj kvs)] s)) k = kvs"
  by (simp add: nested_def map_of_single)

lemma toggle_choice_set: "JStr h \<in> set (toggle_choice g xs) \<longleftrightarrow> (if h = g then JStr g \<notin> set xs else JStr h \<in> set xs)"
  by (simp add: toggle_choice_def)

lemma choices_after: "choices (nested (ob_draft (ob_step s (Choose section [(k, JArr xs)]))) section) k = xs"
  by (simp add: nested_def map_of_single choices_def)

text \<open>A chip of the fourth step flips its own choice and leaves the others as they are.\<close>

theorem chip_flips:
  assumes "toggle_chip section k s g = Btn l en e"
  shows "JStr h \<in> set (choices (nested (ob_draft (ob_step s e)) section) k) \<longleftrightarrow>
      (if h = g then JStr g \<notin> set (choices (nested (ob_draft s) section) k)
       else JStr h \<in> set (choices (nested (ob_draft s) section) k))"
proof -
  have e: "e = Choose section [(k, JArr (toggle_choice g (choices (nested (ob_draft s) section) k)))]"
    using assms by (auto simp: toggle_chip_def)
  show ?thesis unfolding e choices_after toggle_choice_set ..
qed

theorem chip_flips_witness:
  "JStr ''SAT / ACT'' \<in> set (choices (nested (ob_draft (ob_step ada_form (Choose ''student'' [(''goals'', JArr [JStr ''SAT / ACT''])]))) ''student'') ''goals'')"
  using chip_flips [of "''student''" "''goals''" ada_form "''SAT / ACT''" "''SAT / ACT''" True
      "Choose ''student'' [(''goals'', JArr [JStr ''SAT / ACT''])]" "''SAT / ACT''"]
  by (simp add: toggle_chip_def ada_form_eval nested_def choices_def toggle_choice_def del: ob_step.simps)

lemma choose_ok: "step_of s = 4 \<Longrightarrow> \<not> ob_left s \<Longrightarrow> steps_shown s \<Longrightarrow>
   map_of role_sections (field_or_empty (ob_draft s) ''role'') = Some k \<Longrightarrow> ob_guard s (Choose k p)"
  by simp

lemma offered_chips [simp]:
  "offered (map (toggle_chip section k s) gs) =
     map (\<lambda>g. Choose section [(k, JArr (toggle_choice g (choices (nested (ob_draft s) section) k)))]) gs"
  "offered (map (pick_chip section k) gs) = map (\<lambda>g. Choose section [(k, JStr g)]) gs"
  by (induction gs) (simp_all add: toggle_chip_def pick_chip_def)

lemma step4_guarded: "step_of s = 4 \<Longrightarrow> \<not> ob_left s \<Longrightarrow> steps_shown s \<Longrightarrow> list_all (ob_guard s) (offered (Step4 s))"
  by (auto simp: Step4_def Let_def next4_def role_sections_def present_def list_all_iff toggle_chip_def pick_chip_def)

text \<open>
  Everything that the page offers in any state is an event that the state machine accepts
  there: no button leads outside the modelled behaviour.
\<close>

theorem page_offers_accepted:
  assumes "\<not> ob_left s" "length draws = 24"
  shows "list_all (ob_guard s) (offered (ob_view ab draws pw pw2 phone s))"
proof (cases "steps_shown s")
  case False
  then show ?thesis by (simp add: ob_view_def)
next
  case True
  have err: "offered (case ob_error s of Some e \<Rightarrow> if e = [] then [] else [Txt e] | None \<Rightarrow> []) = []"
    by (simp split: option.splits)
  have bk: "list_all (ob_guard s) (offered (back_button s))"
    using True assms(1) by (simp add: back_button_def)
  have meter: "offered (case StrengthMeter pw of None \<Rightarrow> [] | Some (bars, label, hint) \<Rightarrow> Txt (''Password strength: '' @ label) #
        (if hint then [Txt '' - aim for 8+ characters with mixed case, a number and a symbol.''] else [])) = []"
    by (simp split: option.splits)
  consider "step_of s = 1" | "step_of s = 2" | "step_of s = 3" | "step_of s = 4" | "step_of s = 5" | "step_of s = 6" | "step_of s = 7"
    using step_cases by blast
  then show ?thesis
  proof cases
    case 4
    then show ?thesis using True bk step4_guarded [OF 4 assms(1) True] by (simp add: ob_view_def err)
  next
    case 5
    then show ?thesis using True assms bk by (simp add: ob_view_def err Step5_def meter)
  qed (use True assms bk in \<open>simp_all add: ob_view_def err Step1_def Step2_def Step3_def Step6_def Step7_def ROLES_def\<close>)
qed

theorem page_offers_accepted_witness:
  "list_all (ob_guard ada_form) (offered (ob_view Control (replicate 24 0) [] [] [] ada_form))"
  using page_offers_accepted [of ada_form "replicate 24 0"] by (simp add: ada_form_eval)

end
