(* ===== verification/CbtCommon.thy ===== *)
theory CbtCommon
  imports JsText "HOL-Library.AList"
begin

text \<open>
  What the two test pages share: answer sheets (a dictionary from question ids to option
  numbers) and when they fit a paper, the clock format, the option letters and keys, and
  removal of a settled request from the list of those in flight.
\<close>

type_synonym answer_sheet = "(jsstring \<times> nat) list"

text \<open>Every answer names a question of the list and one of its options.\<close>

definition sheet_ok :: "('q \<Rightarrow> jsstring) \<Rightarrow> ('q \<Rightarrow> jsstring list) \<Rightarrow> 'q list \<Rightarrow> answer_sheet \<Rightarrow> bool" where
  "sheet_ok qid opts qs a = list_all (\<lambda>(i, v). list_ex (\<lambda>q. qid q = i \<and> v < length (opts q)) qs) a"

lemma sheet_ok_update:
  assumes "sheet_ok qid opts qs a" "q \<in> set qs" "v < length (opts q)"
  shows "sheet_ok qid opts qs (AList.update (qid q) v a)"
proof -
  have "set (AList.update (qid q) v a) \<subseteq> insert (qid q, v) (set a)"
    by (induction a) auto
  with assms show ?thesis by (auto simp: sheet_ok_def list_all_iff list_ex_iff)
qed

lemma sheet_ok_delete: "sheet_ok qid opts qs a \<Longrightarrow> sheet_ok qid opts qs (AList.delete k a)"
  by (auto simp: sheet_ok_def list_all_iff AList.delete_eq)

lemma sheet_ok_lookup:
  "sheet_ok qid opts qs a \<Longrightarrow> map_of a i = Some v \<Longrightarrow> \<exists>q \<in> set qs. qid q = i \<and> v < length (opts q)"
  by (auto simp: sheet_ok_def list_all_iff list_ex_iff dest!: map_of_SomeD)

definition LETTERS :: "jsstring list" where
  "LETTERS = [''A'', ''B'', ''C'', ''D'', ''E'', ''F'']"

definition fmt :: "int \<Rightarrow> jsstring" where
  "fmt sec = (let s = nat (max 0 sec) in
     pad_start 2 (CHR ''0'') (show_nat (s div 60)) @ '':'' @ pad_start 2 (CHR ''0'') (show_nat (s mod 60)))"

fun index_of :: "'a \<Rightarrow> 'a list \<Rightarrow> nat option" where
  "index_of x [] = None"
| "index_of x (y # ys) = (if x = y then Some 0 else map_option Suc (index_of x ys))"

definition digit_key :: "jsstring \<Rightarrow> nat option" where
  "digit_key k = index_of k [''1'', ''2'', ''3'', ''4'', ''5'', ''6'']"

definition drop_nth :: "nat \<Rightarrow> 'a list \<Rightarrow> 'a list" where
  "drop_nth n xs = take n xs @ drop (Suc n) xs"

lemma drop_nth_0 [simp]: "drop_nth 0 xs = tl xs"
  by (cases xs) (simp_all add: drop_nth_def)

end
