(* ===== verification/LearnEndpoints.thy ===== *)
theory LearnEndpoints
  imports Endpoints
begin

text \<open>
  The endpoint functions of the learning side: tests, the learning management system, revision, the library, certificates and the dashboard widgets. Each is a path, a
  request and the use of the answer; \<open>run_endpoint\<close> runs it with a client.
\<close>

section \<open>\<open>client/features/cbt/api.ts\<close>\<close>

definition listMyExams :: endpoint where
  "listMyExams =
     GET ''/learning/exams'' Data"

definition getExamPaper :: "jsstring \<Rightarrow> endpoint" where
  "getExamPaper ident =
     GET (''/learning/exams/'' @ ident) Data"

definition startAttempt :: "jsstring \<Rightarrow> endpoint" where
  "startAttempt examId =
     SEND ''POST'' (''/learning/exams/'' @ examId @ ''/attempts'') NoBody Data"

definition submitAttempt :: "jsstring \<Rightarrow> json \<Rightarrow> endpoint" where
  "submitAttempt attemptId answers =
     SEND ''POST'' (''/learning/exams/attempts/'' @ attemptId @ ''/submit'') (JsonText (JObj [(''answers'',
       answers)])) Data"

definition listMyAttempts :: endpoint where
  "listMyAttempts =
     GET ''/learning/exams/attempts'' Data"

definition getAttemptReview :: "jsstring \<Rightarrow> endpoint" where
  "getAttemptReview attemptId =
     GET (''/learning/exams/attempts/'' @ attemptId) Data"

definition listTutorExams :: endpoint where
  "listTutorExams =
     GET ''/tutor/exams'' Data"

definition getTutorExam :: "jsstring \<Rightarrow> endpoint" where
  "getTutorExam ident =
     GET (''/tutor/exams/'' @ ident) Data"

definition createExam :: "json \<Rightarrow> endpoint" where
  "createExam input =
     SEND ''POST'' ''/tutor/exams'' (JsonText input) Data"

definition updateExam :: "jsstring \<Rightarrow> json \<Rightarrow> endpoint" where
  "updateExam ident input =
     SEND ''PUT'' (''/tutor/exams/'' @ ident) (JsonText input) Data"

definition deleteExam :: "jsstring \<Rightarrow> endpoint" where
  "deleteExam ident =
     SEND ''DELETE'' (''/tutor/exams/'' @ ident) NoBody Discard"

definition listExamAttempts :: "jsstring \<Rightarrow> endpoint" where
  "listExamAttempts examId =
     GET (''/tutor/exams/'' @ examId @ ''/attempts'') Data"

definition listBankSubjects :: endpoint where
  "listBankSubjects =
     GET ''/cbt/subjects'' Data"

definition listBankTopics :: "jsstring \<Rightarrow> endpoint" where
  "listBankTopics slug =
     GET (''/cbt/subjects/'' @ slug @ ''/topics'') Data"

definition drawBankPaper :: "jsstring \<Rightarrow> int \<Rightarrow> int option \<Rightarrow> int option
       \<Rightarrow> jsstring option \<Rightarrow> endpoint" where
  "drawBankPaper slug limit difficulty durationMinutes topic =
     GET (''/cbt/subjects/'' @ slug @ ''/paper?'' @ (qs_text ([(''limit'', show_int limit)] @
       [(''difficulty'', show_int (dflt 0 difficulty))] @ [(''duration_minutes'', show_int (dflt 0
       durationMinutes))] @ opt_s ''topic'' (Some (dflt ([]) topic))))) Data"

definition gradeBankPaper :: "jsstring \<Rightarrow> json option \<Rightarrow> endpoint" where
  "gradeBankPaper attemptToken answers =
     SEND ''POST'' ''/cbt/grade'' (JsonText (JObj [(''attempt_token'', JStr attemptToken), (''answers'',
       case answers of None \<Rightarrow> JNull | Some v \<Rightarrow> v)])) Data"

definition adminListBankQuestions :: "jsstring \<Rightarrow> int \<Rightarrow> int \<Rightarrow> endpoint" where
  "adminListBankQuestions subject page pageSize =
     GET (''/admin/cbt/questions?subject='' @ encode_uri_component subject @ ''&page='' @ show_int page @
          ''&page_size='' @ show_int pageSize)
       (Via (\<lambda>j. if j = JNull then Inl null_deref
          else case jget j ''meta'' of
            Some m \<Rightarrow> if truthy m then Inr (Some (obj [(''data'', jget j ''data''), (''meta'', Some m)]))
              else Inl (plain_error ''Missing pagination meta'')
          | None \<Rightarrow> Inl (plain_error ''Missing pagination meta'')))"

definition adminSetBankQuestionStatus :: "jsstring \<Rightarrow> jsstring \<Rightarrow> endpoint" where
  "adminSetBankQuestionStatus ident status =
     SEND ''PATCH'' (''/admin/cbt/questions/'' @ ident) (JsonText (JObj [(''status'', JStr status)]))
       Discard"

definition adminDeleteBankQuestion :: "jsstring \<Rightarrow> endpoint" where
  "adminDeleteBankQuestion ident =
     SEND ''DELETE'' (''/admin/cbt/questions/'' @ ident) NoBody Discard"

definition adminCreateBankQuestion :: "json \<Rightarrow> endpoint" where
  "adminCreateBankQuestion input =
     SEND ''POST'' ''/admin/cbt/questions'' (JsonText input) Discard"

definition adminImportBankCSV :: "jsstring \<Rightarrow> endpoint" where
  "adminImportBankCSV file =
     SEND ''POST'' ''/admin/cbt/import'' (FormData [(''file'', file)]) Data"

section \<open>\<open>client/features/lms/api.ts\<close>\<close>

definition recordLessonProgress :: "jsstring \<Rightarrow> json \<Rightarrow> endpoint" where
  "recordLessonProgress lessonId input =
     SEND ''POST'' (''/learning/lessons/'' @ lessonId @ ''/progress'') (JsonText input) Data"

definition getLessonProgress :: "jsstring \<Rightarrow> endpoint" where
  "getLessonProgress lessonId =
     GET (''/learning/lessons/'' @ lessonId @ ''/progress'') Data"

definition getMyLessonProgress :: endpoint where
  "getMyLessonProgress =
     GET ''/me/learning/progress'' (DataOr (JArr []))"

definition getCohort :: "jsstring \<Rightarrow> endpoint" where
  "getCohort ident =
     GET (''/cohorts/'' @ ident) Data"

definition getCohortLessons :: "jsstring \<Rightarrow> endpoint" where
  "getCohortLessons cohortId =
     GET (''/cohorts/'' @ cohortId @ ''/lessons'') (DataOr (JArr []))"

definition getMyLessons :: "jsstring option \<Rightarrow> endpoint" where
  "getMyLessons studentProfileId =
     GET (''/me/lessons'' @ (opt_text studentProfileId (\<lambda>studentProfileId. ''?student_profile_id=''
       @ studentProfileId))) (DataOr (JArr []))"

definition getMyTutorLessons :: "jsstring option \<Rightarrow> endpoint" where
  "getMyTutorLessons tutorProfileId =
     GET (''/me/tutor-lessons'' @ (opt_text tutorProfileId (\<lambda>tutorProfileId. ''?tutor_profile_id=''
       @ tutorProfileId))) (DataOr (JArr []))"

definition rescheduleLesson :: "jsstring \<Rightarrow> jsstring \<Rightarrow> jsstring \<Rightarrow>
       endpoint" where
  "rescheduleLesson lessonId startAt endAt =
     SEND ''POST'' (''/lessons/'' @ lessonId @ ''/reschedule'') (JsonText (JObj [(''start_at'', JStr
       startAt), (''end_at'', JStr endAt)])) Data"

definition cancelLesson :: "jsstring \<Rightarrow> endpoint" where
  "cancelLesson lessonId =
     SEND ''POST'' (''/lessons/'' @ lessonId @ ''/cancel'') NoBody Data"

definition getLessonNotes :: "jsstring \<Rightarrow> endpoint" where
  "getLessonNotes lessonId =
     GET (''/lessons/'' @ lessonId @ ''/notes'') (DataOr (JArr []))"

definition addLessonNote :: "jsstring \<Rightarrow> json \<Rightarrow> endpoint" where
  "addLessonNote lessonId input =
     SEND ''POST'' (''/lessons/'' @ lessonId @ ''/notes'') (JsonText input) Data"

definition getLessonAttendance :: "jsstring \<Rightarrow> endpoint" where
  "getLessonAttendance lessonId =
     GET (''/lessons/'' @ lessonId @ ''/attendance'') (DataOr (JArr []))"

definition markAttendance :: "jsstring \<Rightarrow> json \<Rightarrow> endpoint" where
  "markAttendance lessonId input =
     SEND ''POST'' (''/lessons/'' @ lessonId @ ''/attendance'') (JsonText input) Discard"

definition createCohortAssignment :: "jsstring \<Rightarrow> json \<Rightarrow> endpoint" where
  "createCohortAssignment cohortId input =
     SEND ''POST'' (''/cohorts/'' @ cohortId @ ''/assignments'') (JsonText input) Data"

definition createCohortResource :: "jsstring \<Rightarrow> json \<Rightarrow> endpoint" where
  "createCohortResource cohortId input =
     SEND ''POST'' (''/cohorts/'' @ cohortId @ ''/resources'') (JsonText input) Data"

text \<open>The body is the file itself, sent with its own content type.\<close>

definition uploadResourceFile :: "jsstring \<Rightarrow> json \<Rightarrow> endpoint" where
  "uploadResourceFile file_type file =
     (SEND ''POST'' ''/me/uploads'' (JsonText file) Data)
       \<lparr>ep_init := (send_init ''POST'' (JsonText file))
          \<lparr>ri_headers := [(''Content-Type'', if file_type = [] then ''application/octet-stream'' else file_type)]\<rparr>\<rparr>"

definition getCohortEnrollments :: "jsstring \<Rightarrow> endpoint" where
  "getCohortEnrollments cohortId =
     GET (''/cohorts/'' @ cohortId @ ''/enrollments'') (DataOr (JArr []))"

definition createAssessment :: "json \<Rightarrow> endpoint" where
  "createAssessment input =
     SEND ''POST'' ''/learning/assessments'' (JsonText input) Data"

definition getTutorEarnings :: "jsstring option \<Rightarrow> endpoint" where
  "getTutorEarnings tutorProfileId =
     GET (''/me/earnings'' @ (opt_text tutorProfileId (\<lambda>tutorProfileId. ''?tutor_profile_id='' @
       tutorProfileId))) Data"

definition setLessonTranscript :: "jsstring \<Rightarrow> jsstring \<Rightarrow> endpoint" where
  "setLessonTranscript lessonId transcript =
     SEND ''POST'' (''/lessons/'' @ lessonId @ ''/transcript'') (JsonText (JObj [(''transcript'', JStr
       transcript)])) Discard"

section \<open>\<open>client/features/lms/recorded.ts\<close>\<close>

definition listRecordedLessons :: "jsstring \<Rightarrow> endpoint" where
  "listRecordedLessons studentProfileId =
     GET (''/me/recorded-lessons?student_profile_id='' @ encode_uri_component (studentProfileId)) (DataOr
       (JArr []))"

section \<open>\<open>client/features/learning/api.ts\<close>\<close>

definition listAssessments :: "jsstring option \<Rightarrow> endpoint" where
  "listAssessments cohortId =
     GET (''/learning/assessments'' @ (opt_text cohortId (\<lambda>cohortId. ''?cohort_id='' @ cohortId)))
       (DataOr (JArr []))"

definition startAssessment :: "jsstring \<Rightarrow> jsstring option \<Rightarrow> endpoint" where
  "startAssessment assessmentId studentProfileId =
     SEND ''POST'' (''/learning/assessments/'' @ assessmentId @ ''/start'' @ (opt_text studentProfileId
       (\<lambda>studentProfileId. ''?student_profile_id='' @ studentProfileId))) NoBody Data"

definition submitAssessment :: "jsstring \<Rightarrow> jsstring \<Rightarrow> json \<Rightarrow> endpoint"
       where
  "submitAssessment assessmentId studentProfileId answers =
     SEND ''POST'' (''/learning/assessments/'' @ assessmentId @ ''/submit'' @ (if studentProfileId = [] then
       [] else ''?student_profile_id='' @ studentProfileId)) (JsonText (JObj [(''answers'', answers)]))
       Data"

definition listSubmissions :: "jsstring \<Rightarrow> endpoint" where
  "listSubmissions assignmentId =
     GET (''/learning/assignments/'' @ assignmentId @ ''/submissions'') (DataOr (JArr []))"

definition gradeSubmission :: "jsstring \<Rightarrow> int \<Rightarrow> jsstring option \<Rightarrow>
       endpoint" where
  "gradeSubmission submissionId score feedback =
     SEND ''POST'' (''/learning/submissions/'' @ submissionId @ ''/grade'') (JsonText (obj [(''score'', Some
       (JNum score)), (''feedback'', map_option JStr feedback)])) Data"

definition createProgressReport :: "json \<Rightarrow> endpoint" where
  "createProgressReport input =
     SEND ''POST'' ''/learning/progress-reports'' (JsonText input) Data"

definition listProgressReports :: "jsstring option \<Rightarrow> jsstring option \<Rightarrow> endpoint" where
  "listProgressReports studentProfileId tutorProfileId =
     GET (''/learning/progress-reports'' @
       (if dflt [] tutorProfileId \<noteq> [] then ''?tutor_profile_id='' @ dflt [] tutorProfileId
        else opt_text studentProfileId (\<lambda>s. ''?student_profile_id='' @ s))) (DataOr (JArr []))"

definition getAnalytics :: endpoint where
  "getAnalytics =
     GET ''/admin/analytics'' Data"

section \<open>\<open>client/features/learning/api/digest.ts\<close>\<close>

definition getDigestPrefs :: endpoint where
  "getDigestPrefs =
     GET ''/me/digest-prefs'' Data"

definition setDigestPrefs :: "bool \<Rightarrow> endpoint" where
  "setDigestPrefs enabled =
     SEND ''PUT'' ''/me/digest-prefs'' (JsonText (JObj [(''enabled'', JBool enabled)])) Data"

section \<open>\<open>client/features/learning/api/mastery.ts\<close>\<close>

definition getMastery :: "jsstring option \<Rightarrow> jsstring option \<Rightarrow> endpoint" where
  "getMastery subject studentProfileId =
     GET (''/me/learning/mastery'' @
       opt_text (Some (qs_text (opt_s ''subject'' subject @ opt_s ''student_profile_id'' studentProfileId)))
         (\<lambda>qs. ''?'' @ qs)) (DataOr (JArr []))"

section \<open>\<open>client/features/learning/api/player-notes.ts\<close>\<close>

definition listPlayerNotes :: "jsstring \<Rightarrow> endpoint" where
  "listPlayerNotes lessonId =
     GET (''/lessons/'' @ lessonId @ ''/player-notes'') (DataOr (JArr []))"

definition addPlayerNote :: "jsstring \<Rightarrow> json \<Rightarrow> endpoint" where
  "addPlayerNote lessonId input =
     SEND ''POST'' (''/lessons/'' @ lessonId @ ''/player-notes'') (JsonText input) Data"

definition deletePlayerNote :: "jsstring \<Rightarrow> endpoint" where
  "deletePlayerNote ident =
     SEND ''DELETE'' (''/me/player-notes/'' @ ident) NoBody Discard"

section \<open>\<open>client/features/learning/api/revision.ts\<close>\<close>

definition listRevisionPlans :: "jsstring option \<Rightarrow> endpoint" where
  "listRevisionPlans studentProfileId =
     GET (''/me/revision-plans'' @ (opt_text studentProfileId (\<lambda>studentProfileId.
       ''?student_profile_id='' @ studentProfileId))) (DataOr (JArr []))"

definition createRevisionPlan ::
  "jsstring \<Rightarrow> jsstring option \<Rightarrow> jsstring \<Rightarrow> jsstring \<Rightarrow> jsstring option \<Rightarrow> endpoint" where
  "createRevisionPlan subject exam window_start window_end studentProfileId =
     SEND ''POST'' (''/me/revision-plans'' @ opt_text studentProfileId (\<lambda>s. ''?student_profile_id='' @ s))
       (JsonText (JObj [(''subject'', JStr subject), (''exam'', JStr (dflt [] exam)),
          (''window_start'', JStr window_start), (''window_end'', JStr window_end)])) Data"

definition rebalancePlan :: "jsstring \<Rightarrow> endpoint" where
  "rebalancePlan planId =
     SEND ''POST'' (''/me/revision-plans/'' @ planId @ ''/rebalance'') NoBody (Via (data_field_or
       ''reprioritised'' (JNum 0)))"

definition completeTask :: "jsstring \<Rightarrow> endpoint" where
  "completeTask taskId =
     SEND ''POST'' (''/me/revision-plans/tasks/'' @ taskId @ ''/complete'') NoBody Discard"

section \<open>\<open>client/features/library/api.ts\<close>\<close>

text \<open>\<open>qs\<close> of this file.\<close>

definition library_qs ::
  "jsstring option \<Rightarrow> bool option \<Rightarrow> (jsstring \<Rightarrow> jsstring option) \<Rightarrow> int option \<Rightarrow> int option \<Rightarrow> jsstring" where
  "library_qs q featured by page page_size =
     opt_text (Some (qs_text (opt_s ''q'' q @ (if featured = Some True then [(''featured'', ''true'')] else []) @
         concat (map (\<lambda>k. opt_s k (by k)) [''programme_id'', ''subject_id'', ''level_id'', ''curriculum_id'']) @
         opt_n ''page'' page @ opt_n ''page_size'' page_size))) (\<lambda>s. ''?'' @ s)"

definition browseLibrary ::
  "jsstring option \<Rightarrow> bool option \<Rightarrow> (jsstring \<Rightarrow> jsstring option) \<Rightarrow> int option \<Rightarrow> int option \<Rightarrow> endpoint" where
  "browseLibrary q featured by page page_size = GET (''/library'' @ library_qs q featured by page page_size) Whole"

definition featuredLibrary :: "int option \<Rightarrow> endpoint" where
  "featuredLibrary page_size =
     GET (''/library/featured?page_size='' @ show_int (dflt 8 page_size)) (DataOr (JArr []))"

definition getLibraryItem :: "jsstring \<Rightarrow> endpoint" where
  "getLibraryItem lessonId =
     GET (''/library/'' @ lessonId) Data"

definition listAdminLibrary :: "jsstring option \<Rightarrow> int option \<Rightarrow> int option
       \<Rightarrow> endpoint" where
  "listAdminLibrary q page page_size =
     GET (''/admin/library'' @ (let qs_t = qs_text (opt_s ''q'' q @ opt_n ''page'' page @ opt_n
       ''page_size'' page_size) in if qs_t = [] then [] else ''?'' @ (qs_t))) Whole"

definition updateLibraryMeta :: "jsstring \<Rightarrow> json \<Rightarrow> endpoint" where
  "updateLibraryMeta lessonId input =
     SEND ''PUT'' (''/admin/library/'' @ lessonId) (JsonText input) Data"

section \<open>\<open>client/features/certificates/api.ts\<close>\<close>

definition listMyCertificates :: endpoint where
  "listMyCertificates =
     GET ''/me/certificates'' (DataOr (JArr []))"

definition verifyCertificate :: "jsstring \<Rightarrow> endpoint" where
  "verifyCertificate credential =
     GET (''/certificates/verify?credential='' @ encode_uri_component (credential)) Data"

definition verifiedShare :: "jsstring \<Rightarrow> endpoint" where
  "verifiedShare certId =
     SEND ''POST'' (''/me/certificates/'' @ certId @ ''/verified'') NoBody Data"

section \<open>\<open>client/features/dashboard/api.ts\<close>\<close>

definition getDailyQuote :: endpoint where
  "getDailyQuote =
     GET ''/me/dashboard/quote'' (Via (data_field ''quote''))"

text \<open>\<open>const qs\<close> of this file: the learner a parent looks at.\<close>

definition dash_qs :: "jsstring option \<Rightarrow> jsstring" where
  "dash_qs spid = opt_text spid (\<lambda>spid. ''?student_profile_id='' @ encode_uri_component spid)"

definition getGradebook :: "jsstring option \<Rightarrow> endpoint" where
  "getGradebook spid = GET (''/me/dashboard/gradebook'' @ dash_qs spid) (DataOr (JArr []))"

definition getReviewQueue :: "jsstring option \<Rightarrow> endpoint" where
  "getReviewQueue spid = GET (''/me/dashboard/review-queue'' @ dash_qs spid) (DataOr (JArr []))"

definition getLeaderboard :: "jsstring option \<Rightarrow> endpoint" where
  "getLeaderboard spid = GET (''/me/dashboard/leaderboard'' @ dash_qs spid) (DataOr (JArr []))"

definition getDashPrefs :: endpoint where
  "getDashPrefs =
     GET ''/me/dashboard/prefs'' Data"

definition updateDashPrefs :: "json \<Rightarrow> endpoint" where
  "updateDashPrefs input =
     SEND ''PUT'' ''/me/dashboard/prefs'' (JsonText input) Data"

definition submitLessonFeedback :: "jsstring \<Rightarrow> int \<Rightarrow> jsstring option \<Rightarrow> jsstring option \<Rightarrow> endpoint" where
  "submitLessonFeedback lessonId rating comment spid =
     SEND ''POST'' (''/me/lessons/'' @ lessonId @ ''/feedback'' @ dash_qs spid)
       (JsonText (obj [(''rating'', Some (JNum rating)), (''comment'', map_option JStr comment)])) Discard"

end
