(* ===== verification/Authoring.thy ===== *)
theory Authoring
  imports Machine CbtCommon LearnEndpoints JsNumber
begin

text \<open>
  Writing test papers: the web editor \<open>client/components/tutor/ExamAuthoring.tsx\<close> and the
  mobile one \<open>mobile/app/tutor/exams/new.tsx\<close>. A draft question is a text, its options, the
  number of the correct one and an explanation. The web editor is a state machine over one
  open draft; the mobile one is its operations on the question list and the check before
  publishing. \<open>Number\<close> of an input's text is a parameter: \<open>None\<close> is not a finite number.
\<close>

section \<open>Questions\<close>

record draft_question =
  dq_text :: jsstring
  dq_options :: "jsstring list"
  dq_correct :: nat
  dq_explanation :: jsstring

definition blankQuestion :: draft_question where
  "blankQuestion = \<lparr>dq_text = [], dq_options = [[], [], [], []], dq_correct = 0, dq_explanation = []\<rparr>"

definition blank :: "jsstring \<Rightarrow> bool" where
  "blank s = (trim s = [])"

text \<open>\<open>xs.map((x, xi) => xi === i ? f(x) : x)\<close>\<close>

definition map_at :: "nat \<Rightarrow> ('a \<Rightarrow> 'a) \<Rightarrow> 'a list \<Rightarrow> 'a list" where
  "map_at i f xs = (if i < length xs then xs[i := f (xs ! i)] else xs)"

lemma length_map_at [simp]: "length (map_at i f xs) = length xs"
  by (simp add: map_at_def)

lemma map_at_all: "list_all P xs \<Longrightarrow> (i < length xs \<Longrightarrow> P (xs ! i) \<Longrightarrow> P (f (xs ! i))) \<Longrightarrow> list_all P (map_at i f xs)"
  by (auto simp: map_at_def list_all_length nth_list_update)

lemma length_drop_nth: "i < length xs \<Longrightarrow> length (drop_nth i xs) = length xs - 1"
  by (simp add: drop_nth_def)

lemma drop_nth_all: "list_all P xs \<Longrightarrow> list_all P (drop_nth i xs)"
  by (auto simp: drop_nth_def list_all_iff dest: in_set_takeD in_set_dropD)

lemma nth_drop_nth: "i < length xs \<Longrightarrow> j < length xs - 1 \<Longrightarrow> drop_nth i xs ! j = (if j < i then xs ! j else xs ! Suc j)"
  by (auto simp: drop_nth_def nth_append min_def)

text \<open>\<open>[qs[a], qs[b]] = [qs[b], qs[a]]\<close> on a copy, for two indices in range.\<close>

definition swap_at :: "nat \<Rightarrow> nat \<Rightarrow> 'a list \<Rightarrow> 'a list" where
  "swap_at a b xs = xs[a := xs ! b, b := xs ! a]"

lemma swap_at_all: "list_all P xs \<Longrightarrow> a < length xs \<Longrightarrow> b < length xs \<Longrightarrow> list_all P (swap_at a b xs)"
  by (auto simp: swap_at_def list_all_length nth_list_update)

lemma length_swap_at [simp]: "length (swap_at a b xs) = length xs"
  by (simp add: swap_at_def)

section \<open>Removing an option\<close>

definition web_remove_option :: "nat \<Rightarrow> draft_question \<Rightarrow> draft_question" where
  "web_remove_option oi q = q\<lparr>dq_options := drop_nth oi (dq_options q),
     dq_correct := (if dq_correct q \<ge> length (dq_options q) - 1 then 0 else dq_correct q)\<rparr>"

definition mobile_remove_option :: "nat \<Rightarrow> draft_question \<Rightarrow> draft_question" where
  "mobile_remove_option oi q =
     (if length (dq_options q) > 2
      then q\<lparr>dq_options := drop_nth oi (dq_options q),
             dq_correct := (if dq_correct q = oi then 0 else if dq_correct q > oi then dq_correct q - 1 else dq_correct q)\<rparr>
      else q)"

definition key_text :: "draft_question \<Rightarrow> jsstring" where
  "key_text q = dq_options q ! dq_correct q"

text \<open>
  On the phone removing another option than the correct one leaves the correct answer what it
  was; removing the correct one marks the first that is left; the mark stays in range.
\<close>

theorem mobile_removal_keeps_key:
  assumes "length (dq_options q) > 2" "oi < length (dq_options q)" "dq_correct q < length (dq_options q)"
  shows "dq_correct (mobile_remove_option oi q) < length (dq_options (mobile_remove_option oi q)) \<and>
    key_text (mobile_remove_option oi q) =
      (if oi = dq_correct q then dq_options (mobile_remove_option oi q) ! 0 else key_text q)"
  using assms by (auto simp: mobile_remove_option_def key_text_def length_drop_nth nth_drop_nth)

theorem mobile_removal_keeps_key_witness:
  "key_text (mobile_remove_option 0 \<lparr>dq_text = ''2+2'', dq_options = [''3'', ''4'', ''5''], dq_correct = 1, dq_explanation = []\<rparr>) = ''4''"
  using mobile_removal_keeps_key [of "\<lparr>dq_text = ''2+2'', dq_options = [''3'', ''4'', ''5''], dq_correct = 1, dq_explanation = []\<rparr>" 0]
  by (simp add: key_text_def)

text \<open>
  The web editor keeps the number: removing an option that stands before the correct one
  makes the next option the answer (or the first, when the correct one was the last), so the
  paper is marked by a wrong key.
\<close>

theorem web_removal_shifts_key:
  assumes "oi < dq_correct q" "dq_correct q < length (dq_options q)"
  shows "key_text (web_remove_option oi q) =
    (if Suc (dq_correct q) < length (dq_options q) then dq_options q ! Suc (dq_correct q)
     else drop_nth oi (dq_options q) ! 0)"
  using assms by (auto simp: web_remove_option_def key_text_def nth_drop_nth)

theorem web_removal_shifts_key_witness:
  "key_text (web_remove_option 0 \<lparr>dq_text = ''2+2'', dq_options = [''3'', ''4'', ''5''], dq_correct = 1, dq_explanation = []\<rparr>) = ''5''"
  using web_removal_shifts_key [of 0 "\<lparr>dq_text = ''2+2'', dq_options = [''3'', ''4'', ''5''], dq_correct = 1, dq_explanation = []\<rparr>"]
  by simp


section \<open>The web editor\<close>

record paper =
  pp_id :: "jsstring option"
  pp_subject :: jsstring
  pp_title :: jsstring
  pp_description :: jsstring
  pp_minutes :: rat
  pp_pass :: rat
  pp_questions :: "draft_question list"

definition blankDraft :: paper where
  "blankDraft = \<lparr>pp_id = None, pp_subject = [], pp_title = [], pp_description = [], pp_minutes = 30, pp_pass = 60,
     pp_questions = [blankQuestion]\<rparr>"

text \<open>\<open>Number(v) || d\<close>, clamped.\<close>

definition number_or :: "rat \<Rightarrow> rat option \<Rightarrow> rat" where
  "number_or d n = (case n of Some x \<Rightarrow> if x = 0 then d else x | None \<Rightarrow> d)"

definition minutes_of :: "rat option \<Rightarrow> rat" where "minutes_of n = max 1 (min 180 (number_or 1 n))"
definition pass_of :: "rat option \<Rightarrow> rat" where "pass_of n = max 0 (min 100 (number_or 0 n))"

definition question_valid :: "draft_question \<Rightarrow> bool" where
  "question_valid x = (\<not> blank (dq_text x) \<and> length (filter (\<lambda>o'. \<not> blank o') (dq_options x)) \<ge> 2 \<and>
     dq_correct x < length (dq_options x) \<and> \<not> blank (key_text x))"

definition paper_valid :: "paper \<Rightarrow> bool" where
  "paper_valid d = (\<not> blank (pp_subject d) \<and> \<not> blank (pp_title d) \<and> pp_minutes d \<ge> 1 \<and> pp_minutes d \<le> 180 \<and>
     pp_pass d \<ge> 0 \<and> pp_pass d \<le> 100 \<and> length (pp_questions d) \<ge> 1 \<and> list_all question_valid (pp_questions d))"

text \<open>What is sent: every text trimmed.\<close>

definition trimmed_question :: "draft_question \<Rightarrow> draft_question" where
  "trimmed_question x = \<lparr>dq_text = trim (dq_text x), dq_options = map trim (dq_options x), dq_correct = dq_correct x,
     dq_explanation = trim (dq_explanation x)\<rparr>"

definition exam_input :: "paper \<Rightarrow> paper" where
  "exam_input d = d\<lparr>pp_subject := trim (pp_subject d), pp_title := trim (pp_title d),
     pp_description := trim (pp_description d), pp_questions := map trimmed_question (pp_questions d)\<rparr>"

record authoring =
  au_draft :: "paper option"
  au_saving :: bool
  au_error :: jsstring
  au_resultsFor :: "jsstring option"
  au_opening :: nat \<comment> \<open>papers being loaded for editing\<close>
  au_saves :: "paper list" \<comment> \<open>papers being saved\<close>
  au_refreshing :: nat \<comment> \<open>saves that wait for the lists to reload\<close>
  au_sent :: "paper list"
  au_deleted :: "jsstring list"

definition authoring0 :: authoring where
  "authoring0 = \<lparr>au_draft = None, au_saving = False, au_error = [], au_resultsFor = None, au_opening = 0,
     au_saves = [], au_refreshing = 0, au_sent = [], au_deleted = []\<rparr>"

definition on_draft :: "(paper \<Rightarrow> paper) \<Rightarrow> authoring \<Rightarrow> authoring" where
  "on_draft f s = s\<lparr>au_draft := map_option f (au_draft s)\<rparr>"

definition on_questions :: "(draft_question list \<Rightarrow> draft_question list) \<Rightarrow> authoring \<Rightarrow> authoring" where
  "on_questions f = on_draft (\<lambda>d. d\<lparr>pp_questions := f (pp_questions d)\<rparr>)"

definition setQ :: "nat \<Rightarrow> (draft_question \<Rightarrow> draft_question) \<Rightarrow> authoring \<Rightarrow> authoring" where
  "setQ i f = on_questions (map_at i f)"

definition save_paper :: "authoring \<Rightarrow> authoring" where
  "save_paper s =
     (case au_draft s of
        None \<Rightarrow> s
      | Some d \<Rightarrow> if \<not> paper_valid d then s
          else s\<lparr>au_saving := True, au_error := [], au_saves := au_saves s @ [exam_input d], au_sent := au_sent s @ [exam_input d]\<rparr>)"

definition save_paper_ok :: "authoring \<Rightarrow> authoring" where
  "save_paper_ok s = s\<lparr>au_draft := None, au_saves := tl (au_saves s), au_refreshing := au_refreshing s + 1\<rparr>"

definition save_paper_fail :: "js_exn \<Rightarrow> authoring \<Rightarrow> authoring" where
  "save_paper_fail e s = s\<lparr>au_error := (if instanceof_Error e then ex_message e else ''Could not save the paper.''),
     au_saves := tl (au_saves s), au_saving := False\<rparr>"

text \<open>A paper as the server returns it; absent fields have the defaults of the editor.\<close>

record full_question =
  fq_text :: jsstring
  fq_options :: "jsstring list"
  fq_correct :: "nat option"
  fq_explanation :: "jsstring option"

record full_paper =
  fp_id :: jsstring
  fp_subject :: jsstring
  fp_title :: jsstring
  fp_description :: "jsstring option"
  fp_minutes :: rat
  fp_passing :: rat
  fp_questions :: "full_question list option"

definition or_empty :: "jsstring option \<Rightarrow> jsstring" where
  "or_empty x = (case x of Some s \<Rightarrow> s | None \<Rightarrow> [])"

definition draft_of :: "full_paper \<Rightarrow> paper" where
  "draft_of full = \<lparr>pp_id = Some (fp_id full), pp_subject = fp_subject full, pp_title = fp_title full,
     pp_description = or_empty (fp_description full), pp_minutes = fp_minutes full, pp_pass = fp_passing full,
     pp_questions = map (\<lambda>x. \<lparr>dq_text = fq_text x, dq_options = fq_options x,
         dq_correct = (case fq_correct x of Some n \<Rightarrow> n | None \<Rightarrow> 0), dq_explanation = or_empty (fq_explanation x)\<rparr>)
       (case fp_questions full of Some qs \<Rightarrow> qs | None \<Rightarrow> [])\<rparr>"

definition question_in_limits :: "draft_question \<Rightarrow> bool" where
  "question_in_limits q = (2 \<le> length (dq_options q) \<and> length (dq_options q) \<le> 6 \<and> dq_correct q < length (dq_options q))"

text \<open>The limits of the server that the file names, on papers and hence on what it returns.\<close>

definition in_limits :: "paper \<Rightarrow> bool" where
  "in_limits d = (1 \<le> pp_minutes d \<and> pp_minutes d \<le> 180 \<and> 0 \<le> pp_pass d \<and> pp_pass d \<le> 100 \<and>
     1 \<le> length (pp_questions d) \<and> length (pp_questions d) \<le> 60 \<and> list_all question_in_limits (pp_questions d))"

datatype author_event =
    NewPaper | EditPaper | Opened full_paper | OpenFailed | Cancel
  | SetSubject jsstring | SetTitle jsstring | SetDescription jsstring | SetMinutes "rat option" | SetPass "rat option"
  | MoveUp nat | MoveDown nat | RemoveQuestion nat | AddQuestion
  | SetText nat jsstring | SetOption nat nat jsstring | MarkCorrect nat nat | RemoveOption nat nat | AddOption nat
  | SetExplanation nat jsstring
  | SavePaper | SaveOk | SaveErr js_exn | Refreshed
  | ToggleResults jsstring | DeletePaper jsstring bool

definition questions_of :: "authoring \<Rightarrow> draft_question list" where
  "questions_of s = (case au_draft s of Some d \<Rightarrow> pp_questions d | None \<Rightarrow> [])"

definition has_option :: "authoring \<Rightarrow> nat \<Rightarrow> nat \<Rightarrow> bool" where
  "has_option s i oi = (i < length (questions_of s) \<and> oi < length (dq_options (questions_of s ! i)))"

fun author_guard :: "authoring \<Rightarrow> author_event \<Rightarrow> bool" where
  "author_guard s NewPaper = (au_draft s = None)"
| "author_guard s EditPaper = (au_draft s = None)"
| "author_guard s (Opened full) = (au_opening s > 0 \<and> in_limits (draft_of full))"
| "author_guard s OpenFailed = (au_opening s > 0)"
| "author_guard s (MoveUp i) = (0 < i \<and> i < length (questions_of s))"
| "author_guard s (MoveDown i) = (Suc i < length (questions_of s))"
| "author_guard s (RemoveQuestion i) = (i < length (questions_of s) \<and> length (questions_of s) > 1)"
| "author_guard s AddQuestion = (au_draft s \<noteq> None \<and> length (questions_of s) < 60)"
| "author_guard s (SetText i v) = (i < length (questions_of s))"
| "author_guard s (SetExplanation i v) = (i < length (questions_of s))"
| "author_guard s (SetOption i oi v) = has_option s i oi"
| "author_guard s (MarkCorrect i oi) = has_option s i oi"
| "author_guard s (RemoveOption i oi) = (has_option s i oi \<and> length (dq_options (questions_of s ! i)) > 2)"
| "author_guard s (AddOption i) = (i < length (questions_of s) \<and> length (dq_options (questions_of s ! i)) < 6)"
| "author_guard s SavePaper = (\<not> au_saving s \<and> (case au_draft s of Some d \<Rightarrow> paper_valid d | None \<Rightarrow> False))"
| "author_guard s SaveOk = (au_saves s \<noteq> [])"
| "author_guard s (SaveErr e) = (au_saves s \<noteq> [])"
| "author_guard s Refreshed = (au_refreshing s > 0)"
| "author_guard s (ToggleResults i) = (au_draft s = None)"
| "author_guard s (DeletePaper i yes) = (au_draft s = None)"
| "author_guard s e = (au_draft s \<noteq> None)"

fun author_step :: "authoring \<Rightarrow> author_event \<Rightarrow> authoring" where
  "author_step s NewPaper = s\<lparr>au_draft := Some blankDraft\<rparr>"
| "author_step s EditPaper = s\<lparr>au_opening := au_opening s + 1\<rparr>"
| "author_step s (Opened full) = s\<lparr>au_opening := au_opening s - 1, au_draft := Some (draft_of full)\<rparr>"
| "author_step s OpenFailed = s\<lparr>au_opening := au_opening s - 1\<rparr>"
| "author_step s Cancel = s\<lparr>au_draft := None\<rparr>"
| "author_step s (SetSubject v) = on_draft (\<lambda>d. d\<lparr>pp_subject := v\<rparr>) s"
| "author_step s (SetTitle v) = on_draft (\<lambda>d. d\<lparr>pp_title := v\<rparr>) s"
| "author_step s (SetDescription v) = on_draft (\<lambda>d. d\<lparr>pp_description := v\<rparr>) s"
| "author_step s (SetMinutes n) = on_draft (\<lambda>d. d\<lparr>pp_minutes := minutes_of n\<rparr>) s"
| "author_step s (SetPass n) = on_draft (\<lambda>d. d\<lparr>pp_pass := pass_of n\<rparr>) s"
| "author_step s (MoveUp i) = on_questions (swap_at (i - 1) i) s"
| "author_step s (MoveDown i) = on_questions (swap_at (i + 1) i) s"
| "author_step s (RemoveQuestion i) = on_questions (drop_nth i) s"
| "author_step s AddQuestion = on_questions (\<lambda>qs. qs @ [blankQuestion]) s"
| "author_step s (SetText i v) = setQ i (\<lambda>q. q\<lparr>dq_text := v\<rparr>) s"
| "author_step s (SetOption i oi v) = setQ i (\<lambda>q. q\<lparr>dq_options := map_at oi (\<lambda>_. v) (dq_options q)\<rparr>) s"
| "author_step s (MarkCorrect i oi) = setQ i (\<lambda>q. q\<lparr>dq_correct := oi\<rparr>) s"
| "author_step s (RemoveOption i oi) = setQ i (web_remove_option oi) s"
| "author_step s (AddOption i) = setQ i (\<lambda>q. q\<lparr>dq_options := dq_options q @ [[]]\<rparr>) s"
| "author_step s (SetExplanation i v) = setQ i (\<lambda>q. q\<lparr>dq_explanation := v\<rparr>) s"
| "author_step s SavePaper = save_paper s"
| "author_step s SaveOk = save_paper_ok s"
| "author_step s (SaveErr e) = save_paper_fail e s"
| "author_step s Refreshed = s\<lparr>au_refreshing := au_refreshing s - 1, au_saving := False\<rparr>"
| "author_step s (ToggleResults i) = s\<lparr>au_resultsFor := (if au_resultsFor s = Some i then None else Some i)\<rparr>"
| "author_step s (DeletePaper i yes) = (if yes then s\<lparr>au_deleted := au_deleted s @ [i]\<rparr> else s)"


section \<open>What the editor publishes\<close>

definition publishable :: "paper \<Rightarrow> bool" where
  "publishable d = (in_limits d \<and> pp_subject d \<noteq> [] \<and> pp_title d \<noteq> [] \<and>
     list_all (\<lambda>q. dq_text q \<noteq> [] \<and> length (filter (\<lambda>o'. o' \<noteq> []) (dq_options q)) \<ge> 2 \<and> key_text q \<noteq> []) (pp_questions d))"

definition draft_limits :: "authoring \<Rightarrow> bool" where
  "draft_limits s = pred_option in_limits (au_draft s)"

definition saves_inv :: "authoring \<Rightarrow> bool" where
  "saves_inv s = (length (au_saves s) + au_refreshing s = (if au_saving s then 1 else 0) \<and> list_all publishable (au_sent s))"

lemma exam_input_publishable: "paper_valid d \<Longrightarrow> in_limits d \<Longrightarrow> publishable (exam_input d)"
proof -
  assume v: "paper_valid d" and l: "in_limits d"
  have len: "question_in_limits (trimmed_question q) = question_in_limits q" for q
    by (simp add: trimmed_question_def question_in_limits_def)
  have q: "dq_text (trimmed_question q) \<noteq> [] \<and> length (filter (\<lambda>o'. o' \<noteq> []) (dq_options (trimmed_question q))) \<ge> 2 \<and>
      key_text (trimmed_question q) \<noteq> []" if "question_valid q" for q
    using that by (simp add: trimmed_question_def question_valid_def key_text_def blank_def filter_map o_def)
  show ?thesis using v l q
    by (auto simp: publishable_def in_limits_def exam_input_def paper_valid_def blank_def list_all_iff len)
qed

lemma on_draft_limits: "draft_limits s \<Longrightarrow> (\<And>d. au_draft s = Some d \<Longrightarrow> in_limits d \<Longrightarrow> in_limits (f d)) \<Longrightarrow> draft_limits (on_draft f s)"
  by (cases "au_draft s") (simp_all add: draft_limits_def on_draft_def)

lemma on_questions_limits:
  assumes "draft_limits s"
    and "\<And>qs. questions_of s = qs \<Longrightarrow> 1 \<le> length qs \<Longrightarrow> length qs \<le> 60 \<Longrightarrow> list_all question_in_limits qs \<Longrightarrow>
      1 \<le> length (f qs) \<and> length (f qs) \<le> 60 \<and> list_all question_in_limits (f qs)"
  shows "draft_limits (on_questions f s)"
  unfolding on_questions_def
  by (rule on_draft_limits [OF assms(1)]) (use assms(2) in \<open>simp add: in_limits_def questions_of_def\<close>)

lemma setQ_limits:
  assumes "draft_limits s"
    and "i < length (questions_of s) \<Longrightarrow> question_in_limits (questions_of s ! i) \<Longrightarrow> question_in_limits (f (questions_of s ! i))"
  shows "draft_limits (setQ i f s)"
  unfolding setQ_def
  by (rule on_questions_limits [OF assms(1)]) (use assms(2) in \<open>auto intro!: map_at_all\<close>)

lemma clamp_limits: "1 \<le> minutes_of n" "minutes_of n \<le> 180" "0 \<le> pass_of n" "pass_of n \<le> 100"
  by (simp_all add: minutes_of_def pass_of_def)

lemma blank_limits: "in_limits blankDraft" "question_in_limits blankQuestion"
  by (simp_all add: in_limits_def blankDraft_def blankQuestion_def question_in_limits_def)


lemma author_draft_step:
  assumes "draft_limits s" "author_guard s e"
  shows "draft_limits (author_step s e)"
proof (cases e)
  case (Opened full)
  then show ?thesis using assms by (simp add: draft_limits_def)
next
  case (MoveUp i)
  then show ?thesis using assms by (auto intro!: on_questions_limits swap_at_all)
next
  case (MoveDown i)
  then show ?thesis using assms by (auto intro!: on_questions_limits swap_at_all)
next
  case (RemoveQuestion i)
  then show ?thesis using assms by (auto intro!: on_questions_limits simp: length_drop_nth drop_nth_all)
next
  case AddQuestion
  then show ?thesis using assms by (auto intro!: on_questions_limits simp: blank_limits)
next
  case (SetText i v)
  then show ?thesis using assms by (auto intro!: setQ_limits simp: question_in_limits_def)
next
  case (SetExplanation i v)
  then show ?thesis using assms by (auto intro!: setQ_limits simp: question_in_limits_def)
next
  case (SetOption i oi v)
  then show ?thesis using assms by (auto intro!: setQ_limits simp: question_in_limits_def)
next
  case (MarkCorrect i oi)
  then show ?thesis using assms by (auto intro!: setQ_limits simp: question_in_limits_def has_option_def)
next
  case (RemoveOption i oi)
  then show ?thesis using assms
    by (auto intro!: setQ_limits simp: question_in_limits_def has_option_def web_remove_option_def length_drop_nth)
next
  case (AddOption i)
  then show ?thesis using assms by (auto intro!: setQ_limits simp: question_in_limits_def)
next
  case (SetMinutes n)
  then show ?thesis using assms by (auto intro!: on_draft_limits simp: in_limits_def clamp_limits)
next
  case (SetPass n)
  then show ?thesis using assms by (auto intro!: on_draft_limits simp: in_limits_def clamp_limits)
next
  case (SetSubject v)
  then show ?thesis using assms by (auto intro!: on_draft_limits simp: in_limits_def)
next
  case (SetTitle v)
  then show ?thesis using assms by (auto intro!: on_draft_limits simp: in_limits_def)
next
  case (SetDescription v)
  then show ?thesis using assms by (auto intro!: on_draft_limits simp: in_limits_def)
next
  case SavePaper
  then show ?thesis using assms by (auto simp: save_paper_def draft_limits_def split: option.splits)
qed (use assms in \<open>simp_all add: draft_limits_def save_paper_ok_def save_paper_fail_def blank_limits\<close>)

lemma saves_frame: "saves_inv (on_draft f s) = saves_inv s"
  by (simp add: saves_inv_def on_draft_def)

lemma author_saves_step:
  assumes "saves_inv s" "draft_limits s" "author_guard s e"
  shows "saves_inv (author_step s e)"
proof (cases e)
  case SavePaper
  then show ?thesis using assms exam_input_publishable
    by (auto simp: saves_inv_def save_paper_def draft_limits_def split: option.splits)
next
  case SaveOk
  then show ?thesis using assms by (cases "au_saves s") (auto simp: saves_inv_def save_paper_ok_def)
next
  case (SaveErr x)
  then show ?thesis using assms by (cases "au_saves s") (auto simp: saves_inv_def save_paper_fail_def split: if_splits)
next
  case Refreshed
  then show ?thesis using assms by (auto simp: saves_inv_def split: if_splits)
qed (use assms in \<open>simp_all add: saves_frame setQ_def on_questions_def, simp_all add: saves_inv_def\<close>)

interpretation editor: bounded_machine "\<lambda>s. s = authoring0" author_guard author_step
  "\<lambda>s. draft_limits s \<and> saves_inv s" "\<lambda>s. length (au_saves s)" 1
proof unfold_locales
  fix s assume "s = authoring0"
  then show "draft_limits s \<and> saves_inv s" by (simp add: authoring0_def draft_limits_def saves_inv_def)
next
  fix s e assume "draft_limits s \<and> saves_inv s" "author_guard s e"
  then show "draft_limits (author_step s e) \<and> saves_inv (author_step s e)"
    using author_draft_step author_saves_step by blast
next
  fix s assume "draft_limits s \<and> saves_inv s"
  then show "length (au_saves s) \<le> 1" by (auto simp: saves_inv_def split: if_splits)
qed

abbreviation author_reach :: "authoring \<Rightarrow> bool" where
  "author_reach \<equiv> reach (\<lambda>s. s = authoring0) author_guard author_step"

text \<open>
  C30. Whatever a tutor types, moves, adds and removes: at most one save is under way, the open
  draft keeps to the limits of the server, and every paper sent is publishable: a subject, a
  title, 1 to 180 minutes, a mark of 0 to 100, 1 to 60 questions, each with a text, 2 to 6
  options of which two are filled in, and a key that names one that is.
\<close>

theorem papers_publishable:
  assumes "author_reach s"
  shows "length (au_saves s) \<le> 1 \<and> pred_option in_limits (au_draft s) \<and>
    list_all (\<lambda>d. 1 \<le> pp_minutes d \<and> pp_minutes d \<le> 180 \<and> 0 \<le> pp_pass d \<and> pp_pass d \<le> 100 \<and>
      pp_subject d \<noteq> [] \<and> pp_title d \<noteq> [] \<and> 1 \<le> length (pp_questions d) \<and> length (pp_questions d) \<le> 60 \<and>
      list_all (\<lambda>q. dq_text q \<noteq> [] \<and> 2 \<le> length (dq_options q) \<and> length (dq_options q) \<le> 6 \<and>
        dq_correct q < length (dq_options q) \<and> dq_options q ! dq_correct q \<noteq> []) (pp_questions d)) (au_sent s)"
proof -
  have "draft_limits s" "list_all publishable (au_sent s)"
    using editor.reach_inv [OF assms] by (simp_all add: saves_inv_def)
  moreover from this(2) have "list_all (\<lambda>d. 1 \<le> pp_minutes d \<and> pp_minutes d \<le> 180 \<and> 0 \<le> pp_pass d \<and> pp_pass d \<le> 100 \<and>
      pp_subject d \<noteq> [] \<and> pp_title d \<noteq> [] \<and> 1 \<le> length (pp_questions d) \<and> length (pp_questions d) \<le> 60 \<and>
      list_all (\<lambda>q. dq_text q \<noteq> [] \<and> 2 \<le> length (dq_options q) \<and> length (dq_options q) \<le> 6 \<and>
        dq_correct q < length (dq_options q) \<and> dq_options q ! dq_correct q \<noteq> []) (pp_questions d)) (au_sent s)"
    by (rule list.pred_mono_strong) (auto simp: publishable_def in_limits_def question_in_limits_def key_text_def list_all_iff)
  ultimately show ?thesis using editor.reach_load [OF assms] by (simp add: draft_limits_def)
qed


definition two_and_two :: paper where
  "two_and_two = \<lparr>pp_id = None, pp_subject = ''Maths'', pp_title = ''Sums'', pp_description = [], pp_minutes = 30, pp_pass = 60,
     pp_questions = [\<lparr>dq_text = ''2+2'', dq_options = [''3'', ''4'', [], []], dq_correct = 1, dq_explanation = []\<rparr>]\<rparr>"

definition two_and_two_events :: "author_event list" where
  "two_and_two_events = [NewPaper, SetSubject ''Maths '', SetTitle ''Sums'', SetText 0 ''2+2'', SetOption 0 0 ''3'', SetOption 0 1 ''4'',
     MarkCorrect 0 1, SavePaper]"

lemmas author_eval = authoring0_def on_draft_def on_questions_def setQ_def map_at_def blankDraft_def blankQuestion_def
  questions_of_def has_option_def save_paper_def paper_valid_def question_valid_def blank_def key_text_def trim_def
  is_space_def exam_input_def trimmed_question_def

lemma two_and_two_saved: "author_reach (run author_step authoring0 two_and_two_events)"
  by (rule run_reachable) (simp_all add: two_and_two_events_def author_eval)

theorem papers_publishable_witness:
  "au_sent (run author_step authoring0 two_and_two_events) = [two_and_two] \<and>
   length (au_saves (run author_step authoring0 two_and_two_events)) \<le> 1"
  using papers_publishable [OF two_and_two_saved]
  by (simp add: two_and_two_events_def two_and_two_def author_eval)

section \<open>What the service keeps of a paper\<close>

text \<open>
  \<open>internal/service/practice_exam_service.go\<close> and the answer of the handler. The numbers of the body
  are decoded into integers, which fails for a fraction; the editor sends neither a cohort nor the
  mark of the Plus vault. The repository keeps the fields as they are, the questions in their order.
  The paper to be updated is given, found for the author it belongs to.
\<close>

record stored_exam =
  se_id :: jsstring
  se_subject :: jsstring
  se_title :: jsstring
  se_description :: jsstring
  se_minutes :: int
  se_passing :: int
  se_cohort :: "jsstring option"
  se_premium :: bool
  se_questions :: "draft_question list"

definition decoded_int :: "rat \<Rightarrow> int option" where
  "decoded_int x = (if of_int \<lfloor>x\<rfloor> = x then Some \<lfloor>x\<rfloor> else None)"

definition validateExam :: "paper \<Rightarrow> bool" where
  "validateExam p =
     (trim (pp_title p) \<noteq> [] \<and> length (trim (pp_title p)) \<le> 120 \<and>
      trim (pp_subject p) \<noteq> [] \<and> length (trim (pp_subject p)) \<le> 80 \<and>
      1 \<le> pp_minutes p \<and> pp_minutes p \<le> 180 \<and> 0 \<le> pp_pass p \<and> pp_pass p \<le> 100 \<and>
      pp_questions p \<noteq> [] \<and> length (pp_questions p) \<le> 60 \<and>
      list_all (\<lambda>q. trim (dq_text q) \<noteq> [] \<and> length (dq_text q) \<le> 500 \<and> 2 \<le> length (dq_options q) \<and>
        length (dq_options q) \<le> 6 \<and> dq_correct q < length (dq_options q)) (pp_questions p))"

definition stored_question :: "draft_question \<Rightarrow> draft_question" where
  "stored_question q = q\<lparr>dq_text := trim (dq_text q), dq_explanation := trim (dq_explanation q)\<rparr>"

definition stored_from :: "jsstring \<Rightarrow> paper \<Rightarrow> stored_exam option" where
  "stored_from i p =
     (case (decoded_int (pp_minutes p), decoded_int (pp_pass p)) of
        (Some m, Some n) \<Rightarrow>
          if validateExam p
          then Some \<lparr>se_id = i, se_subject = trim (pp_subject p), se_title = trim (pp_title p),
                 se_description = trim (pp_description p), se_minutes = m, se_passing = n, se_cohort = None,
                 se_premium = False, se_questions = map stored_question (pp_questions p)\<rparr>
          else None
      | _ \<Rightarrow> None)"


definition service_update :: "stored_exam \<Rightarrow> paper \<Rightarrow> stored_exam option" where
  "service_update cur p = stored_from (se_id cur) p"



lemma stored_trimmed [simp]: "stored_question (trimmed_question q) = trimmed_question q"
  by (simp add: stored_question_def trimmed_question_def)

lemma trimmed_idem [simp]: "trimmed_question (trimmed_question q) = trimmed_question q"
  by (simp add: trimmed_question_def o_def)








definition two_stored :: stored_exam where
  "two_stored = \<lparr>se_id = ''e1'', se_subject = ''Maths'', se_title = ''Sums'', se_description = [], se_minutes = 30, se_passing = 60,
     se_cohort = None, se_premium = False, se_questions = pp_questions two_and_two\<rparr>"


text \<open>
  The service takes the cohort and the Plus mark from every update, and the editor sends neither:
  a paper that was kept for a cohort or for the Plus vault is open to every learner after its
  author has saved it on the web.
\<close>

theorem edit_lifts_restrictions:
  assumes "service_update e p = Some e'"
  shows "se_cohort e' = None \<and> \<not> se_premium e'"
  using assms by (auto simp: service_update_def stored_from_def split: option.splits if_splits)

theorem edit_lifts_restrictions_witness:
  "(case service_update (two_stored\<lparr>se_cohort := Some ''c1'', se_premium := True\<rparr>) two_and_two of
      Some e \<Rightarrow> se_cohort e = None \<and> \<not> se_premium e | None \<Rightarrow> False)"
proof -
  have "service_update (two_stored\<lparr>se_cohort := Some ''c1'', se_premium := True\<rparr>) two_and_two = Some two_stored"
    by (simp add: service_update_def stored_from_def decoded_int_def validateExam_def two_and_two_def two_stored_def
        stored_question_def trim_def is_space_def)
  with edit_lifts_restrictions [OF this] show ?thesis by simp
qed

text \<open>
  A save that is under way closes whatever draft is open when it succeeds: a new paper begun
  after a cancelled one is thrown away.
\<close>

theorem late_save_closes_new_paper:
  assumes "au_draft s \<noteq> None" "au_saves s \<noteq> []"
  shows "allowed author_guard author_step s [Cancel, NewPaper, SetTitle v, SaveOk] \<and>
    au_draft (run author_step s [Cancel, NewPaper, SetTitle v]) = Some (blankDraft\<lparr>pp_title := v\<rparr>) \<and>
    au_draft (run author_step s [Cancel, NewPaper, SetTitle v, SaveOk]) = None"
  using assms by (simp add: on_draft_def save_paper_ok_def)

theorem late_save_closes_new_paper_witness:
  "au_draft (run author_step (run author_step authoring0 two_and_two_events) [Cancel, NewPaper, SetTitle ''New'', SaveOk]) = None"
  using late_save_closes_new_paper [of "run author_step authoring0 two_and_two_events" "''New''"]
  by (simp add: two_and_two_events_def author_eval)

section \<open>The mobile editor\<close>

record mobile_paper =
  mp_subject :: jsstring
  mp_title :: jsstring
  mp_description :: jsstring
  mp_duration :: jsstring
  mp_passing :: jsstring
  mp_questions :: "draft_question list"

datatype mobile_op =
    SetQ nat "draft_question \<Rightarrow> draft_question" \<comment> \<open>a patch of the text, the explanation or the mark\<close>
  | SetOpt nat nat jsstring | AddQ | RemoveQ nat | AddOpt nat | RemoveOpt nat nat | Mark nat nat

fun apply_op :: "mobile_op \<Rightarrow> draft_question list \<Rightarrow> draft_question list" where
  "apply_op (SetQ i f) qs = map_at i f qs"
| "apply_op (SetOpt i oi v) qs = map_at i (\<lambda>q. q\<lparr>dq_options := map_at oi (\<lambda>_. v) (dq_options q)\<rparr>) qs"
| "apply_op AddQ qs = qs @ [blankQuestion]"
| "apply_op (RemoveQ i) qs = (if length qs > 1 then drop_nth i qs else qs)"
| "apply_op (AddOpt i) qs = map_at i (\<lambda>q. if length (dq_options q) < 6 then q\<lparr>dq_options := dq_options q @ [[]]\<rparr> else q) qs"
| "apply_op (RemoveOpt i oi) qs = map_at i (mobile_remove_option oi) qs"
| "apply_op (Mark i oi) qs = map_at i (\<lambda>q. q\<lparr>dq_correct := oi\<rparr>) qs"

fun mobile_op_offered :: "draft_question list \<Rightarrow> mobile_op \<Rightarrow> bool" where
  "mobile_op_offered qs (SetQ i f) = (i < length qs \<and>
     dq_options (f (qs ! i)) = dq_options (qs ! i) \<and> dq_correct (f (qs ! i)) = dq_correct (qs ! i))"
| "mobile_op_offered qs (SetOpt i oi v) = (i < length qs \<and> oi < length (dq_options (qs ! i)))"
| "mobile_op_offered qs AddQ = True"
| "mobile_op_offered qs (RemoveQ i) = (i < length qs)"
| "mobile_op_offered qs (AddOpt i) = (i < length qs)"
| "mobile_op_offered qs (RemoveOpt i oi) = (i < length qs \<and> oi < length (dq_options (qs ! i)))"
| "mobile_op_offered qs (Mark i oi) = (i < length qs \<and> oi < length (dq_options (qs ! i)))"

fun first_bad_question :: "nat \<Rightarrow> draft_question list \<Rightarrow> (jsstring \<times> jsstring) option" where
  "first_bad_question n [] = None"
| "first_bad_question n (q # qs) =
     (if blank (dq_text q) then Some (''Question '' @ show_nat n, ''Question text is required.'')
      else if list_ex blank (dq_options q) then Some (''Question '' @ show_nat n, ''Fill in every option.'')
      else first_bad_question (Suc n) qs)"

definition mobile_save :: "(jsstring \<Rightarrow> rat option) \<Rightarrow> mobile_paper \<Rightarrow> (jsstring \<times> jsstring) + paper" where
  "mobile_save number m =
     (if blank (mp_subject m) \<or> blank (mp_title m) then Inl (''Missing details'', ''Add a subject and a title.'')
      else case number (mp_duration m) of
        None \<Rightarrow> Inl (''Duration'', ''Duration must be 1-180 minutes.'')
      | Some dur \<Rightarrow> if dur < 1 \<or> dur > 180 then Inl (''Duration'', ''Duration must be 1-180 minutes.'')
          else case number (mp_passing m) of
            None \<Rightarrow> Inl (''Pass mark'', ''Pass mark must be 0-100.'')
          | Some pass \<Rightarrow> if pass < 0 \<or> pass > 100 then Inl (''Pass mark'', ''Pass mark must be 0-100.'')
              else case first_bad_question 1 (mp_questions m) of
                Some alert \<Rightarrow> Inl alert
              | None \<Rightarrow> Inr (exam_input \<lparr>pp_id = None, pp_subject = mp_subject m, pp_title = mp_title m,
                  pp_description = mp_description m, pp_minutes = dur, pp_pass = pass, pp_questions = mp_questions m\<rparr>))"


definition mobile_questions_ok :: "draft_question list \<Rightarrow> bool" where
  "mobile_questions_ok qs = (1 \<le> length qs \<and> list_all question_in_limits qs)"

inductive mobile_reach :: "draft_question list \<Rightarrow> bool" where
  mobile_init: "mobile_reach [blankQuestion]"
| mobile_step: "mobile_reach qs \<Longrightarrow> mobile_op_offered qs op \<Longrightarrow> mobile_reach (apply_op op qs)"

lemma apply_op_ok:
  assumes "mobile_questions_ok qs" "mobile_op_offered qs op"
  shows "mobile_questions_ok (apply_op op qs)"
proof (cases op)
  case (RemoveOpt i oi)
  then have "question_in_limits (mobile_remove_option oi (qs ! i))" if "question_in_limits (qs ! i)"
    using that assms(2) by (auto simp: question_in_limits_def mobile_remove_option_def length_drop_nth)
  then show ?thesis using assms RemoveOpt by (auto simp: mobile_questions_ok_def intro: map_at_all)
next
  case (RemoveQ i)
  then show ?thesis using assms by (auto simp: mobile_questions_ok_def length_drop_nth drop_nth_all)
next
  case AddQ
  then show ?thesis using assms by (simp add: mobile_questions_ok_def blank_limits)
next
  case (SetQ i f)
  then show ?thesis using assms
    by (auto simp: mobile_questions_ok_def question_in_limits_def intro!: map_at_all)
next
  case (SetOpt i oi v)
  then show ?thesis using assms
    by (auto simp: mobile_questions_ok_def question_in_limits_def intro!: map_at_all)
next
  case (AddOpt i)
  then show ?thesis using assms
    by (auto simp: mobile_questions_ok_def question_in_limits_def intro!: map_at_all)
next
  case (Mark i oi)
  then show ?thesis using assms
    by (auto simp: mobile_questions_ok_def question_in_limits_def intro!: map_at_all)
qed

lemma mobile_reach_ok: "mobile_reach qs \<Longrightarrow> mobile_questions_ok qs"
  by (induction rule: mobile_reach.induct)
    (auto simp: apply_op_ok, simp add: mobile_questions_ok_def blank_limits)

lemma first_bad_None: "first_bad_question n qs = None \<longleftrightarrow>
   list_all (\<lambda>q. \<not> blank (dq_text q) \<and> list_all (\<lambda>o'. \<not> blank o') (dq_options q)) qs"
  by (induction qs arbitrary: n) (auto simp: list_all_iff list_ex_iff)

text \<open>
  What the mobile editor publishes has a subject, a title, 1 to 180 minutes, a mark of 0 to
  100, at least one question, and in every question a text, 2 to 6 options, none of them
  empty, and a key among them.
\<close>

theorem mobile_papers_complete:
  assumes "mobile_reach (mp_questions m)" "mobile_save number m = Inr d"
  shows "pp_subject d \<noteq> [] \<and> pp_title d \<noteq> [] \<and> 1 \<le> pp_minutes d \<and> pp_minutes d \<le> 180 \<and> 0 \<le> pp_pass d \<and> pp_pass d \<le> 100 \<and>
    1 \<le> length (pp_questions d) \<and>
    list_all (\<lambda>q. dq_text q \<noteq> [] \<and> 2 \<le> length (dq_options q) \<and> length (dq_options q) \<le> 6 \<and> [] \<notin> set (dq_options q) \<and>
      dq_correct q < length (dq_options q)) (pp_questions d)"
proof -
  have ok: "mobile_questions_ok (mp_questions m)" using assms(1) by (rule mobile_reach_ok)
  have q: "dq_text (trimmed_question q) \<noteq> [] \<and> 2 \<le> length (dq_options (trimmed_question q)) \<and>
      length (dq_options (trimmed_question q)) \<le> 6 \<and> [] \<notin> set (dq_options (trimmed_question q)) \<and>
      dq_correct (trimmed_question q) < length (dq_options (trimmed_question q))"
    if "question_in_limits q" "\<not> blank (dq_text q)" "list_all (\<lambda>o'. \<not> blank o') (dq_options q)" for q
    using that by (auto simp: trimmed_question_def question_in_limits_def blank_def list_all_iff)
  from assms(2) ok q show ?thesis
    by (auto simp: mobile_save_def exam_input_def blank_def mobile_questions_ok_def first_bad_None list_all_iff
        split: if_splits option.splits)
qed

text \<open>The mobile editor has no upper limit on the questions; the web editor and the server stop at sixty.\<close>

lemma add_many: "mobile_reach qs \<Longrightarrow> mobile_reach (qs @ replicate n blankQuestion)"
proof (induction n)
  case (Suc n)
  then have "mobile_reach (apply_op AddQ (qs @ replicate n blankQuestion))" by (intro mobile_step) simp_all
  then show ?case by (simp add: replicate_append_same)
qed simp

theorem mobile_exceeds_sixty: "\<exists>qs. mobile_reach qs \<and> length qs = 61"
  using add_many [OF mobile_init, of 60] by (intro exI [of _ "[blankQuestion] @ replicate 60 blankQuestion"]) simp

lemma one_question_reach: "mobile_reach [\<lparr>dq_text = ''2+2'', dq_options = [''3'', ''4''], dq_correct = 1, dq_explanation = []\<rparr>]"
proof -
  let ?ops = "[RemoveOpt 0 3, RemoveOpt 0 2, SetQ 0 (\<lambda>q. q\<lparr>dq_text := ''2+2''\<rparr>), SetOpt 0 0 ''3'', SetOpt 0 1 ''4'', Mark 0 1]"
  have "mobile_reach (run (\<lambda>qs op. apply_op op qs) qs ops)" if "mobile_reach qs" "allowed mobile_op_offered (\<lambda>qs op. apply_op op qs) qs ops" for qs ops
    using that by (induction ops arbitrary: qs) (auto intro: mobile_step)
  from this [OF mobile_init, of ?ops] show ?thesis
    by (simp add: blankQuestion_def map_at_def mobile_remove_option_def drop_nth_def)
qed

theorem mobile_papers_complete_witness:
  "case mobile_save (\<lambda>t. if t = ''30'' then Some 30 else if t = ''60'' then Some 60 else None)
     \<lparr>mp_subject = ''Maths'', mp_title = ''Sums'', mp_description = [], mp_duration = ''30'', mp_passing = ''60'',
      mp_questions = [\<lparr>dq_text = ''2+2'', dq_options = [''3'', ''4''], dq_correct = 1, dq_explanation = []\<rparr>]\<rparr> of
     Inr d \<Rightarrow> 1 \<le> pp_minutes d \<and> length (pp_questions d) = 1 | Inl a \<Rightarrow> False"
proof -
  let ?number = "\<lambda>t. if t = ''30'' then Some 30 else if t = ''60'' then Some 60 else None"
  let ?m = "\<lparr>mp_subject = ''Maths'', mp_title = ''Sums'', mp_description = [], mp_duration = ''30'', mp_passing = ''60'',
      mp_questions = [\<lparr>dq_text = ''2+2'', dq_options = [''3'', ''4''], dq_correct = 1, dq_explanation = []\<rparr>]\<rparr>"
  obtain d where d: "mobile_save ?number ?m = Inr d" "length (pp_questions d) = 1"
    by (simp add: mobile_save_def blank_def trim_def is_space_def exam_input_def)
  have "1 \<le> pp_minutes d"
    using mobile_papers_complete [of ?m ?number d] d one_question_reach by simp
  with d show ?thesis by simp
qed

end
