(* ===== verification/BankConsole.thy ===== *)
theory BankConsole
  imports Machine CbtCommon LearnEndpoints Authoring
begin

text \<open>
  The console of the shared practice bank, \<open>client/app/admin/cbt/page.tsx\<close>: adding a
  question, publishing or hiding one, deleting one after a second click, importing a file.
  A state is the hooks of the page and of its form with the calls in flight and a log of
  what was sent; the pager of the page is in the theory on pagers.
\<close>

record bank_form =
  bf_topic :: jsstring
  bf_stem :: jsstring
  bf_options :: "jsstring list" \<comment> \<open>\<open>optionA\<close> to \<open>optionD\<close>\<close>
  bf_correct :: jsstring
  bf_explanation :: jsstring
  bf_difficulty :: int

definition bank_form0 :: bank_form where
  "bank_form0 = \<lparr>bf_topic = [], bf_stem = [], bf_options = [[], [], [], []], bf_correct = ''A'', bf_explanation = [],
     bf_difficulty = 2\<rparr>"

definition BANK_LETTERS :: "jsstring list" where "BANK_LETTERS = [''A'', ''B'', ''C'', ''D'']"

record bank_input =
  bi_subject :: jsstring
  bi_topic :: jsstring
  bi_difficulty :: int
  bi_stem :: jsstring
  bi_options :: "jsstring list"
  bi_correct :: int
  bi_explanation :: jsstring
  bi_source :: jsstring

text \<open>\<open>LETTERS.indexOf(c)\<close>\<close>

definition letter_index :: "jsstring \<Rightarrow> int" where
  "letter_index c = (case index_of c BANK_LETTERS of Some n \<Rightarrow> int n | None \<Rightarrow> -1)"

definition bank_input_of :: "jsstring \<Rightarrow> bank_form \<Rightarrow> bank_input" where
  "bank_input_of slug f = \<lparr>bi_subject = slug, bi_topic = (if trim (bf_topic f) = [] then ''General'' else trim (bf_topic f)),
     bi_difficulty = bf_difficulty f, bi_stem = trim (bf_stem f), bi_options = bf_options f,
     bi_correct = letter_index (bf_correct f), bi_explanation = trim (bf_explanation f), bi_source = ''admin-authored''\<rparr>"

datatype bank_request =
    CreateQuestion bank_input
  | SetStatus jsstring jsstring
  | DeleteQuestion jsstring
  | ImportCSV jsstring

record bank_console =
  bk_subject :: jsstring
  bk_page :: nat
  bk_showCreate :: bool
  bk_confirmDelete :: "jsstring option"
  bk_slug :: jsstring
  bk_form :: bank_form
  bk_saving :: bool
  bk_mount :: nat \<comment> \<open>which form is open: closing it and opening it again starts a new one\<close>
  bk_calls :: "(nat \<times> bank_request) list"
  bk_sent :: "bank_request list"
  bk_toasts :: "jsstring list"

definition bank_console0 :: bank_console where
  "bank_console0 = \<lparr>bk_subject = [], bk_page = 1, bk_showCreate = False, bk_confirmDelete = None, bk_slug = ''mathematics'',
     bk_form = bank_form0, bk_saving = False, bk_mount = 0, bk_calls = [], bk_sent = [], bk_toasts = []\<rparr>"

definition bank_send :: "bank_request \<Rightarrow> bank_console \<Rightarrow> bank_console" where
  "bank_send r s = s\<lparr>bk_calls := bk_calls s @ [(bk_mount s, r)], bk_sent := bk_sent s @ [r]\<rparr>"

definition bank_toast :: "jsstring \<Rightarrow> bank_console \<Rightarrow> bank_console" where
  "bank_toast t s = s\<lparr>bk_toasts := bk_toasts s @ [t]\<rparr>"

definition bank_submit :: "bank_console \<Rightarrow> bank_console" where
  "bank_submit s =
     (if blank (bf_stem (bk_form s)) \<or> length (filter (\<lambda>o'. \<not> blank o') (bf_options (bk_form s))) < 2
      then bank_toast ''A stem and at least two non-empty options are required'' s
      else bank_send (CreateQuestion (bank_input_of (bk_slug s) (bk_form s))) (s\<lparr>bk_saving := True\<rparr>))"

definition toggleStatus :: "jsstring \<Rightarrow> jsstring \<Rightarrow> bank_console \<Rightarrow> bank_console" where
  "toggleStatus ident status = bank_send (SetStatus ident (if status = ''published'' then ''draft'' else ''published''))"

text \<open>Clicking the bin asks; a second click on it takes the question back.\<close>

definition ask_delete :: "jsstring \<Rightarrow> bank_console \<Rightarrow> bank_console" where
  "ask_delete ident s = s\<lparr>bk_confirmDelete := (if bk_confirmDelete s = Some ident then None else Some ident)\<rparr>"

text \<open>The end of a save concerns the form that sent it; the list closes whichever is open.\<close>

definition form_idle :: "nat \<Rightarrow> bank_console \<Rightarrow> bank_console" where
  "form_idle m s = (if m = bk_mount s then s\<lparr>bk_saving := False\<rparr> else s)"

fun bank_answer :: "nat \<Rightarrow> bank_request \<Rightarrow> js_exn option \<Rightarrow> bank_console \<Rightarrow> bank_console" where
  "bank_answer m (CreateQuestion i) None s =
     (bank_toast ''Question added to the bank'' s)\<lparr>bk_showCreate := False, bk_saving := False\<rparr>"
| "bank_answer m (CreateQuestion i) (Some e) s =
     form_idle m (bank_toast (if instanceof_Error e then ex_message e else ''Could not create question'') s)"
| "bank_answer m (SetStatus i st) None s = bank_toast (if st = ''published'' then ''Question published'' else ''Moved to draft'') s"
| "bank_answer m (SetStatus i st) (Some e) s = bank_toast (if instanceof_Error e then ex_message e else ''Update failed'') s"
| "bank_answer m (DeleteQuestion i) None s = (bank_toast ''Question deleted'' s)\<lparr>bk_confirmDelete := None\<rparr>"
| "bank_answer m (DeleteQuestion i) (Some e) s = bank_toast (if instanceof_Error e then ex_message e else ''Delete failed'') s"
| "bank_answer m (ImportCSV f) None s = s"
| "bank_answer m (ImportCSV f) (Some e) s = bank_toast (if instanceof_Error e then ex_message e else ''Import failed'') s"

datatype bank_event =
    FilterSubject jsstring
  | ToggleForm "jsstring list" \<comment> \<open>the subjects known when the form opens\<close>
  | PickSlug jsstring
  | EditForm bank_form \<comment> \<open>typing in the form; the mark is one of the four radio buttons\<close>
  | SubmitForm
  | ToggleQuestion jsstring jsstring
  | AskDelete jsstring
  | ConfirmDelete
  | Import jsstring
  | BankAnswer nat bank_request "js_exn option"

fun bank_guard :: "bank_console \<Rightarrow> bank_event \<Rightarrow> bool" where
  "bank_guard s (PickSlug x) = bk_showCreate s"
| "bank_guard s (EditForm f) = (bk_showCreate s \<and> length (bf_options f) = 4 \<and> bf_correct f \<in> set BANK_LETTERS)"
| "bank_guard s SubmitForm = (bk_showCreate s \<and> \<not> bk_saving s)"
| "bank_guard s ConfirmDelete = (bk_confirmDelete s \<noteq> None)"
| "bank_guard s (BankAnswer m r e) = ((m, r) \<in> set (bk_calls s))"
| "bank_guard s e = True"

fun bank_step :: "bank_console \<Rightarrow> bank_event \<Rightarrow> bank_console" where
  "bank_step s (FilterSubject x) = s\<lparr>bk_subject := x, bk_page := 1\<rparr>"
| "bank_step s (ToggleForm subjects) = s\<lparr>bk_showCreate := \<not> bk_showCreate s, bk_mount := bk_mount s + 1, bk_form := bank_form0,
     bk_saving := False, bk_slug := (case subjects of x # _ \<Rightarrow> x | [] \<Rightarrow> ''mathematics'')\<rparr>"
| "bank_step s (PickSlug x) = s\<lparr>bk_slug := x\<rparr>"
| "bank_step s (EditForm f) = s\<lparr>bk_form := f\<rparr>"
| "bank_step s SubmitForm = bank_submit s"
| "bank_step s (ToggleQuestion i st) = toggleStatus i st s"
| "bank_step s (AskDelete i) = ask_delete i s"
| "bank_step s ConfirmDelete = (case bk_confirmDelete s of Some i \<Rightarrow> bank_send (DeleteQuestion i) s | None \<Rightarrow> s)"
| "bank_step s (Import f) = bank_send (ImportCSV f) s"
| "bank_step s (BankAnswer m r e) = bank_answer m r e (s\<lparr>bk_calls := remove1 (m, r) (bk_calls s)\<rparr>)"


section \<open>What reaches the bank\<close>

fun bank_request_ok :: "bank_request \<Rightarrow> bool" where
  "bank_request_ok (CreateQuestion i) = (bi_stem i \<noteq> [] \<and> bi_topic i \<noteq> [] \<and> length (bi_options i) = 4 \<and>
     length (filter (\<lambda>o'. \<not> blank o') (bi_options i)) \<ge> 2 \<and> 0 \<le> bi_correct i \<and> bi_correct i < 4)"
| "bank_request_ok (SetStatus i st) = (st \<in> {''published'', ''draft''})"
| "bank_request_ok r = True"

definition bank_inv :: "bank_console \<Rightarrow> bool" where
  "bank_inv s = (list_all bank_request_ok (bk_sent s) \<and> length (bf_options (bk_form s)) = 4 \<and>
     bf_correct (bk_form s) \<in> set BANK_LETTERS)"

lemma letter_index_range: "c \<in> set BANK_LETTERS \<Longrightarrow> 0 \<le> letter_index c \<and> letter_index c < 4"
  by (auto simp: BANK_LETTERS_def letter_index_def)

lemma bank_send_inv: "bank_inv s \<Longrightarrow> bank_request_ok r \<Longrightarrow> bank_inv (bank_send r s)"
  by (simp add: bank_inv_def bank_send_def)

lemma bank_submit_inv: "bank_inv s \<Longrightarrow> bank_inv (bank_submit s)"
  using letter_index_range [of "bf_correct (bk_form s)"]
  by (auto simp: bank_inv_def bank_submit_def bank_toast_def bank_send_def bank_input_of_def blank_def)

lemma bank_answer_inv: "bank_inv s \<Longrightarrow> bank_inv (bank_answer m r e s)"
  by (cases r; cases e) (simp_all add: bank_inv_def bank_toast_def form_idle_def)

lemma bank_inv_step: "bank_inv s \<Longrightarrow> bank_guard s e \<Longrightarrow> bank_inv (bank_step s e)"
proof (cases e)
  case (BankAnswer m r x)
  assume "bank_inv s"
  then have "bank_inv (s\<lparr>bk_calls := remove1 (m, r) (bk_calls s)\<rparr>)" by (simp add: bank_inv_def)
  then show ?thesis using BankAnswer by (simp add: bank_answer_inv)
next
  case ConfirmDelete
  assume "bank_inv s"
  then show ?thesis using ConfirmDelete by (simp add: bank_send_inv split: option.splits)
next
  case (EditForm f)
  assume "bank_inv s" "bank_guard s e"
  then show ?thesis using EditForm by (simp add: bank_inv_def)
next
  case (ToggleForm subjects)
  assume "bank_inv s"
  then show ?thesis using ToggleForm by (simp add: bank_inv_def bank_form0_def BANK_LETTERS_def)
qed (simp_all add: bank_submit_inv toggleStatus_def ask_delete_def bank_send_inv, simp_all add: bank_inv_def)

interpretation bank: machine "\<lambda>s. s = bank_console0" bank_guard bank_step bank_inv
proof unfold_locales
  fix s assume "s = bank_console0"
  then show "bank_inv s" by (simp add: bank_inv_def bank_console0_def bank_form0_def BANK_LETTERS_def)
next
  fix s e assume "bank_inv s" "bank_guard s e"
  then show "bank_inv (bank_step s e)" by (rule bank_inv_step)
qed

abbreviation bank_reach :: "bank_console \<Rightarrow> bool" where
  "bank_reach \<equiv> reach (\<lambda>s. s = bank_console0) bank_guard bank_step"

text \<open>
  Every question that the console adds has a stem, a topic, four options of which two are
  filled in, and a mark on one of the four.
\<close>

theorem bank_questions_complete:
  assumes "bank_reach s"
  shows "list_all (\<lambda>r. case r of CreateQuestion i \<Rightarrow> bi_stem i \<noteq> [] \<and> bi_topic i \<noteq> [] \<and> length (bi_options i) = 4 \<and>
       length (filter (\<lambda>o'. \<not> blank o') (bi_options i)) \<ge> 2 \<and> 0 \<le> bi_correct i \<and> bi_correct i < 4
     | SetStatus i st \<Rightarrow> st \<in> {''published'', ''draft''} | _ \<Rightarrow> True) (bk_sent s)"
proof -
  have "list_all bank_request_ok (bk_sent s)" using bank.reach_inv [OF assms] by (simp add: bank_inv_def)
  then show ?thesis by (rule list.pred_mono_strong) (auto split: bank_request.splits)
qed

definition no_key_form :: bank_form where
  "no_key_form = bank_form0\<lparr>bf_stem := ''2+2'', bf_options := [''3'', ''4'', [], []], bf_correct := ''D''\<rparr>"

definition no_key_events :: "bank_event list" where
  "no_key_events = [ToggleForm [], EditForm no_key_form, SubmitForm]"

lemmas bank_eval = no_key_events_def no_key_form_def bank_form0_def bank_console0_def bank_submit_def bank_send_def
  bank_input_of_def blank_def trim_def is_space_def letter_index_def BANK_LETTERS_def

lemma no_key_reach: "bank_reach (run bank_step bank_console0 no_key_events)"
  by (rule run_reachable) (simp_all add: bank_eval)

theorem bank_questions_complete_witness: "length (bk_sent (run bank_step bank_console0 no_key_events)) = 1 \<and>
   list_all bank_request_ok (bk_sent (run bank_step bank_console0 no_key_events))"
  using bank_questions_complete [OF no_key_reach] by (simp add: bank_eval)

text \<open>
  The marked option may be one that was left empty: the form counts the filled options and
  does not look at the marked one, so a question can be added that has no correct answer.
\<close>

theorem bank_key_may_be_blank:
  "allowed bank_guard bank_step bank_console0 no_key_events \<and>
   (case bk_sent (run bank_step bank_console0 no_key_events) of
      [CreateQuestion i] \<Rightarrow> bi_options i ! nat (bi_correct i) = []
    | _ \<Rightarrow> False)"
  by (simp add: bank_eval)

end
