(* ===== verification/Pagers.thy ===== *)
theory Pagers
  imports Prelude
begin

text \<open>
  The list pages that show one page of a longer list at a time: when their pager is shown,
  which of its buttons are enabled, and what they do. The pages of the console and the two
  library pages share one contract, the locale \<open>pager_laws\<close>: the buttons lead to the
  neighbouring page exactly when there is one. The envelope's \<open>meta\<close> and the rows of a page
  are those of \<open>pkg/pagination.go\<close>.
\<close>

section \<open>The server's side\<close>

definition page_count :: "nat \<Rightarrow> nat \<Rightarrow> nat" where
  "page_count sz n = (n + sz - 1) div sz"

record page_meta =
  mt_page :: nat
  mt_total_items :: nat
  mt_total_pages :: nat
  mt_has_next :: bool
  mt_has_prev :: bool

definition page_meta :: "nat \<Rightarrow> nat \<Rightarrow> nat \<Rightarrow> page_meta" where
  "page_meta sz n page = \<lparr>mt_page = page, mt_total_items = n, mt_total_pages = page_count sz n,
     mt_has_next = (page < page_count sz n), mt_has_prev = (page > 1)\<rparr>"

text \<open>The positions of the items of one page.\<close>

definition page_rows :: "nat \<Rightarrow> nat \<Rightarrow> nat \<Rightarrow> nat list" where
  "page_rows sz n page = [(page - 1) * sz ..< min n (page * sz)]"

section \<open>The pagers\<close>

datatype list_page =
    Library | AdminLibrary | Referrals | Institutions | Cohorts | Blog | Reviews | Support | Bank | Users | Leads | Payments

record pager =
  pg_size :: nat
  pg_shown :: "nat \<Rightarrow> nat \<Rightarrow> bool" \<comment> \<open>of the number of items and the page\<close>
  pg_prev_on :: "nat \<Rightarrow> nat \<Rightarrow> bool"
  pg_next_on :: "nat \<Rightarrow> nat \<Rightarrow> bool"
  pg_prev :: "nat \<Rightarrow> nat \<Rightarrow> nat"
  pg_next :: "nat \<Rightarrow> nat \<Rightarrow> nat"

definition meta_pager :: "nat \<Rightarrow> pager" where
  "meta_pager sz = \<lparr>pg_size = sz, pg_shown = (\<lambda>n p. mt_total_pages (page_meta sz n p) > 1),
     pg_prev_on = (\<lambda>n p. \<not> p \<le> 1), pg_next_on = (\<lambda>n p. mt_has_next (page_meta sz n p)),
     pg_prev = (\<lambda>n p. p - 1), pg_next = (\<lambda>n p. p + 1)\<rparr>"

definition bank_pager :: pager where
  "bank_pager = \<lparr>pg_size = 20, pg_shown = (\<lambda>n p. mt_total_pages (page_meta 20 n p) > 1),
     pg_prev_on = (\<lambda>n p. mt_has_prev (page_meta 20 n p)), pg_next_on = (\<lambda>n p. mt_has_next (page_meta 20 n p)),
     pg_prev = (\<lambda>n p. max 1 (p - 1)), pg_next = (\<lambda>n p. min (mt_total_pages (page_meta 20 n p)) (p + 1))\<rparr>"

definition users_total_pages :: "nat \<Rightarrow> nat" where
  "users_total_pages n = max 1 (page_count 25 n)"

definition users_pager :: pager where
  "users_pager = \<lparr>pg_size = 25, pg_shown = (\<lambda>n p. True), pg_prev_on = (\<lambda>n p. \<not> p \<le> 1),
     pg_next_on = (\<lambda>n p. \<not> p \<ge> users_total_pages n), pg_prev = (\<lambda>n p. p - 1), pg_next = (\<lambda>n p. p + 1)\<rparr>"

definition leads_pager :: pager where
  "leads_pager = \<lparr>pg_size = 20, pg_shown = (\<lambda>n p. mt_total_items (page_meta 20 n p) > 20), pg_prev_on = (\<lambda>n p. \<not> p \<le> 1),
     pg_next_on = (\<lambda>n p. \<not> p * 20 \<ge> mt_total_items (page_meta 20 n p)), pg_prev = (\<lambda>n p. max 1 (p - 1)), pg_next = (\<lambda>n p. p + 1)\<rparr>"

definition payments_pager :: pager where
  "payments_pager = \<lparr>pg_size = 25, pg_shown = (\<lambda>n p. True), pg_prev_on = (\<lambda>n p. \<not> p \<le> 1),
     pg_next_on = (\<lambda>n p. \<not> length (page_rows 25 n p) < 25), pg_prev = (\<lambda>n p. p - 1), pg_next = (\<lambda>n p. p + 1)\<rparr>"

text \<open>Eight pages share one shape; the server's default is twenty rows.\<close>

definition library_pager :: pager where "library_pager = meta_pager 24"
definition admin_library_pager :: pager where "admin_library_pager = meta_pager 20"
definition referrals_pager :: pager where "referrals_pager = meta_pager 20"
definition institutions_pager :: pager where "institutions_pager = meta_pager 20"
definition cohorts_pager :: pager where "cohorts_pager = meta_pager 20"
definition blog_pager :: pager where "blog_pager = meta_pager 20"
definition reviews_pager :: pager where "reviews_pager = meta_pager 20"
definition support_pager :: pager where "support_pager = meta_pager 20"

lemmas meta_pagers = library_pager_def admin_library_pager_def referrals_pager_def institutions_pager_def
  cohorts_pager_def blog_pager_def reviews_pager_def support_pager_def

fun pager_of :: "list_page \<Rightarrow> pager" where
  "pager_of Library = library_pager"
| "pager_of AdminLibrary = admin_library_pager"
| "pager_of Referrals = referrals_pager"
| "pager_of Institutions = institutions_pager"
| "pager_of Cohorts = cohorts_pager"
| "pager_of Blog = blog_pager"
| "pager_of Reviews = reviews_pager"
| "pager_of Support = support_pager"
| "pager_of Bank = bank_pager"
| "pager_of Users = users_pager"
| "pager_of Leads = leads_pager"
| "pager_of Payments = payments_pager"

text \<open>Browsing: a filter, a tab or a search gives another list and resets the page.\<close>

inductive browse :: "pager \<Rightarrow> nat \<Rightarrow> nat \<Rightarrow> bool" for g where
  browse_open: "browse g n 1"
| browse_filter: "browse g n p \<Longrightarrow> browse g n' 1"
| browse_prev: "browse g n p \<Longrightarrow> pg_shown g n p \<Longrightarrow> pg_prev_on g n p \<Longrightarrow> browse g n (pg_prev g n p)"
| browse_next: "browse g n p \<Longrightarrow> pg_shown g n p \<Longrightarrow> pg_next_on g n p \<Longrightarrow> browse g n (pg_next g n p)"

section \<open>The contract\<close>

locale pager_laws =
  fixes g :: pager
  assumes size_pos: "pg_size g > 0"
    and shown_law: "page_count (pg_size g) n > 1 \<Longrightarrow> pg_shown g n p"
    and prev_law: "pg_prev_on g n p \<Longrightarrow> 1 < p \<and> pg_prev g n p = p - 1"
    and prev_there: "1 < p \<Longrightarrow> pg_prev_on g n p"
    and next_law: "1 \<le> p \<Longrightarrow> pg_next_on g n p \<Longrightarrow> p < page_count (pg_size g) n \<and> pg_next g n p = p + 1"
    and next_there: "p < page_count (pg_size g) n \<Longrightarrow> pg_next_on g n p"
begin

lemma browse_range: "browse g n p \<Longrightarrow> 1 \<le> p \<and> p \<le> max 1 (page_count (pg_size g) n)"
proof (induction rule: browse.induct)
  case (browse_prev n p)
  then show ?case using prev_law [of n p] by auto
next
  case (browse_next n p)
  then show ?case using next_law [of p n] by auto
qed simp_all

lemma browse_all: "1 \<le> p \<Longrightarrow> p \<le> max 1 (page_count (pg_size g) n) \<Longrightarrow> browse g n p"
proof (induction p)
  case (Suc p)
  show ?case
  proof (cases "p = 0")
    case True
    then show ?thesis using browse_open by simp
  next
    case False
    with Suc have p: "1 \<le> p" "p < page_count (pg_size g) n" "browse g n p" by auto
    then have "pg_next_on g n p" "pg_shown g n p" using next_there shown_law by auto
    with p next_law browse.browse_next [of g n p] show ?thesis by simp
  qed
qed simp

lemma browse_iff: "browse g n p \<longleftrightarrow> 1 \<le> p \<and> p \<le> max 1 (page_count (pg_size g) n)"
  using browse_range browse_all by blast

lemma page_of_item: "i < n \<Longrightarrow> browse g n (Suc (i div pg_size g)) \<and> i \<in> set (page_rows (pg_size g) n (Suc (i div pg_size g)))"
proof -
  let ?s = "pg_size g"
  assume i: "i < n"
  then have "i div ?s * ?s + ?s \<le> n + ?s - 1" using size_pos div_times_less_eq_dividend [of i ?s] by linarith
  then have "Suc (i div ?s) * ?s \<le> n + ?s - 1" by simp
  then have "Suc (i div ?s) \<le> page_count ?s n" unfolding page_count_def using size_pos
    by (metis div_le_mono nonzero_mult_div_cancel_right not_gr_zero)
  moreover have "i div ?s * ?s \<le> i" "i < Suc (i div ?s) * ?s"
    using size_pos dividend_less_div_times [of ?s i] by simp_all
  ultimately show ?thesis using i by (simp add: browse_iff page_rows_def)
qed

end


lemma less_page_count: "sz > 0 \<Longrightarrow> p < page_count sz n \<longleftrightarrow> p * sz < n"
proof -
  assume s: "sz > 0"
  have "p < (n + sz - 1) div sz \<longleftrightarrow> Suc p * sz \<le> n + sz - 1"
    using s by (simp add: less_eq_div_iff_mult_less_eq Suc_le_eq [symmetric] del: mult_Suc)
  also have "\<dots> \<longleftrightarrow> p * sz < n" using s by auto
  finally show ?thesis by (simp add: page_count_def)
qed

interpretation meta_list: pager_laws "meta_pager (Suc k)" for k
  by unfold_locales (simp_all add: meta_pager_def page_meta_def)

interpretation bank_list: pager_laws bank_pager
  by unfold_locales (simp_all add: bank_pager_def page_meta_def)

interpretation users_list: pager_laws users_pager
  by unfold_locales (auto simp: users_pager_def users_total_pages_def)

interpretation leads_list: pager_laws leads_pager
  by unfold_locales (auto simp: leads_pager_def page_meta_def less_page_count)

lemma pager_contract: "lp \<noteq> Payments \<Longrightarrow> pager_laws (pager_of lp)"
  using meta_list.pager_laws_axioms [of 23] meta_list.pager_laws_axioms [of 19] bank_list.pager_laws_axioms
    users_list.pager_laws_axioms leads_list.pager_laws_axioms
  by (cases lp) (simp_all add: meta_pagers)

text \<open>
  C31. On every list page but the payments one, browsing with the buttons the page shows visits
  exactly the pages from the first to the last, and the page of every item of the list.
\<close>

theorem pagers_cover:
  assumes "lp \<noteq> Payments"
  shows "(browse (pager_of lp) n p \<longleftrightarrow> 1 \<le> p \<and> p \<le> max 1 (page_count (pg_size (pager_of lp)) n)) \<and>
    (if i < n then browse (pager_of lp) n (Suc (i div pg_size (pager_of lp))) \<and>
       i \<in> set (page_rows (pg_size (pager_of lp)) n (Suc (i div pg_size (pager_of lp)))) else True)"
  using pager_laws.browse_iff [OF pager_contract [OF assms]] pager_laws.page_of_item [OF pager_contract [OF assms]]
  by simp

theorem pagers_cover_witness: "browse (pager_of Blog) 45 3 \<and> 44 \<in> set (page_rows 20 45 3)"
  using pagers_cover [of Blog 45 3 44] by (simp add: page_count_def meta_pagers meta_pager_def)

text \<open>
  The payments page asks whether the current page is full, not whether there is another: a
  list whose length is a multiple of twenty-five leads to an empty page after its last one.
\<close>

lemma payments_walk: "p \<le> k \<Longrightarrow> browse payments_pager (25 * k) (Suc p)"
proof (induction p)
  case 0
  then show ?case using browse_open by simp
next
  case (Suc p)
  then have b: "browse payments_pager (25 * k) (Suc p)" by simp
  have "25 * Suc p \<le> 25 * k" using Suc.prems by simp
  then have "length (page_rows 25 (25 * k) (Suc p)) = 25" by (auto simp: page_rows_def min_def)
  then have "browse payments_pager (25 * k) (pg_next payments_pager (25 * k) (Suc p))"
    by (intro browse_next [OF b]) (simp_all add: payments_pager_def)
  then show ?case by (simp add: payments_pager_def)
qed

theorem payments_overshoot: "browse (pager_of Payments) (25 * k) (Suc k) \<and> page_rows 25 (25 * k) (Suc k) = []"
  using payments_walk [of k k] by (simp add: page_rows_def)

text \<open>
  Where the pager is hidden for a single page, deciding the only item of the second page (a
  review published, a question deleted, a lead moved to another tab) leaves the administrator
  on an empty second page without a pager, while the first page is full.
\<close>

theorem stuck_on_empty_page:
  assumes "lp \<in> {Reviews, Bank, Leads, Blog, Cohorts, Institutions, Support, Referrals, AdminLibrary}"
  defines "g \<equiv> pager_of lp"
  shows "browse g (pg_size g + 1) 2 \<and> length (page_rows (pg_size g) (pg_size g + 1) 2) = 1 \<and>
    page_rows (pg_size g) (pg_size g) 2 = [] \<and> \<not> pg_shown g (pg_size g) 2 \<and>
    length (page_rows (pg_size g) (pg_size g) 1) = pg_size g"
proof -
  have c: "pager_laws g" unfolding g_def by (rule pager_contract) (use assms(1) in auto)
  have sz: "pg_size g = 20" using assms(1) by (auto simp: g_def meta_pagers meta_pager_def bank_pager_def leads_pager_def)
  have "browse g (pg_size g + 1) 2" by (simp add: pager_laws.browse_iff [OF c] sz page_count_def)
  moreover have "\<not> pg_shown g 20 2"
    using assms(1) by (auto simp: g_def meta_pagers meta_pager_def bank_pager_def leads_pager_def page_meta_def page_count_def)
  ultimately show ?thesis by (simp add: sz page_rows_def)
qed

theorem stuck_on_empty_page_witness: "page_rows 20 20 2 = [] \<and> \<not> pg_shown (pager_of Reviews) 20 2"
  using stuck_on_empty_page [of Reviews] by (simp add: meta_pagers meta_pager_def)

end
