(* ===== verification/LearningStats.thy ===== *)
theory LearningStats
  imports Prelude JsNumber "HOL-Library.Multiset"
begin

text \<open>
  The learner dashboard's numbers, \<open>client/lib/learning-stats.ts\<close>: lessons grouped by
  course with progress percentages, the next class, headline statistics and achievements.
  Percentages are computed in binary64 arithmetic (\<open>fl\<close> after every operation) and rounded
  with \<open>Math.round\<close>. The lemmas show that grouping is a partition in order of first
  occurrence, that both ways of counting agree, and when 100% is shown.
\<close>

section \<open>Data\<close>

record stat_lesson =
  sl_id :: jsstring
  sl_title :: jsstring
  sl_cohort_id :: "jsstring option"
  sl_start_at :: "jsstring option"
  sl_video_url :: "jsstring option"
  sl_status :: "jsstring option"

record stat_row =
  sr_lesson_id :: jsstring
  sr_watched :: bool

record cohort_progress =
  cp_cohortId :: jsstring
  cp_title :: jsstring
  cp_total :: nat
  cp_watched :: nat
  cp_pct :: int
  cp_nextUnwatchedId :: "jsstring option"

record learning_stats =
  ls_totalLessons :: nat
  ls_watchedLessons :: nat
  ls_overallPct :: int
  ls_attendancePct :: "rat option"
  ls_submitted :: int
  ls_assignmentsTotal :: int
  ls_avgScore :: "rat option"
  ls_certificates :: int

definition present :: "jsstring option \<Rightarrow> bool" where
  "present v = (case v of None \<Rightarrow> False | Some s \<Rightarrow> s \<noteq> [])"

lemma present_simps [simp]: "\<not> present None" "present (Some s) \<longleftrightarrow> s \<noteq> []"
  by (simp_all add: present_def)

section \<open>\<open>groupByCohort\<close>\<close>

definition cohort_key :: "stat_lesson \<Rightarrow> jsstring" where
  "cohort_key l = (case sl_cohort_id l of Some c \<Rightarrow> c | None \<Rightarrow> ''standalone'')"

text \<open>A \<open>Map\<close> in insertion order; \<open>push\<close> on the list of a key, a new key at the end.\<close>

fun add_lesson :: "stat_lesson \<Rightarrow> (jsstring \<times> stat_lesson list) list \<Rightarrow> (jsstring \<times> stat_lesson list) list" where
  "add_lesson l [] = [(cohort_key l, [l])]"
| "add_lesson l ((k, ls) # rest) =
     (if k = cohort_key l then (k, ls @ [l]) # rest else (k, ls) # add_lesson l rest)"

definition byCohort :: "stat_lesson list \<Rightarrow> (jsstring \<times> stat_lesson list) list" where
  "byCohort lessons = foldl (\<lambda>m l. add_lesson l m) [] lessons"

text \<open>\<open>new Map(rows.map(p => [p.lesson_id, p.watched]))\<close>: the last row of a lesson decides.\<close>

definition watchedByLesson :: "stat_row list \<Rightarrow> jsstring \<Rightarrow> bool" where
  "watchedByLesson rows i =
     (case map_of (rev (map (\<lambda>p. (sr_lesson_id p, sr_watched p)) rows)) i of Some w \<Rightarrow> w | None \<Rightarrow> False)"

definition scan_lesson :: "stat_row list \<Rightarrow> nat \<times> jsstring option \<Rightarrow> stat_lesson \<Rightarrow> nat \<times> jsstring option" where
  "scan_lesson rows acc l =
     (if watchedByLesson rows (sl_id l) then (fst acc + 1, snd acc)
      else if \<not> present (snd acc) \<and> (present (sl_video_url l) \<or> present (sl_start_at l))
      then (fst acc, Some (sl_id l)) else acc)"

definition percent :: "nat \<Rightarrow> nat \<Rightarrow> int" where
  "percent watched tot =
     (if tot = 0 then 0 else js_round (fl (fl (of_int (int watched) / of_int (int tot)) * 100)))"

definition course_of :: "stat_row list \<Rightarrow> (jsstring \<times> jsstring) list \<Rightarrow> jsstring \<times> stat_lesson list \<Rightarrow> cohort_progress" where
  "course_of rows titles g =
     (let r = foldl (scan_lesson rows) (0, None) (snd g) in
      \<lparr>cp_cohortId = fst g,
       cp_title = (case map_of titles (fst g) of Some t \<Rightarrow> t
         | None \<Rightarrow> if fst g = ''standalone'' then ''Your classes'' else ''Cohort''),
       cp_total = length (snd g), cp_watched = fst r, cp_pct = percent (fst r) (length (snd g)),
       cp_nextUnwatchedId = snd r\<rparr>)"

definition groupByCohort :: "stat_lesson list \<Rightarrow> stat_row list \<Rightarrow> (jsstring \<times> jsstring) list \<Rightarrow> cohort_progress list" where
  "groupByCohort lessons rows titles =
     sort_key (\<lambda>c. - cp_pct c) (map (course_of rows titles) (byCohort lessons))"

section \<open>\<open>nextUpcoming\<close>, \<open>computeStats\<close>, \<open>achievements\<close>\<close>

text \<open>\<open>time s\<close> is \<open>new Date(s).getTime()\<close>, \<open>None\<close> for \<open>NaN\<close>.\<close>

definition nextUpcoming :: "(jsstring \<Rightarrow> int option) \<Rightarrow> int \<Rightarrow> stat_lesson list option \<Rightarrow> stat_lesson option" where
  "nextUpcoming time now lessons =
     (let start = (\<lambda>l. case sl_start_at l of None \<Rightarrow> None | Some s \<Rightarrow> if s = [] then None else time s);
          later = filter (\<lambda>l. case start l of Some t \<Rightarrow> t > now | None \<Rightarrow> False)
            (case lessons of Some ls \<Rightarrow> ls | None \<Rightarrow> [])
      in case sort_key (\<lambda>l. the (start l)) later of [] \<Rightarrow> None | l # _ \<Rightarrow> Some l)"

definition avg_score :: "rat list \<Rightarrow> rat option" where
  "avg_score scores =
     (if scores = [] then None
      else Some (fl (of_int (js_round (fl (fl (foldl (\<lambda>s n. fl (s + n)) 0 scores / of_nat (length scores)) * 10))) / 10)))"

record stats_input =
  si_lessons :: "stat_lesson list"
  si_progressRows :: "stat_row list"
  si_attendancePct :: "rat option"
  si_submitted :: int
  si_assignmentsTotal :: int
  si_submissionScores :: "rat list"
  si_certificates :: int

definition watched_count :: "stat_lesson list \<Rightarrow> stat_row list \<Rightarrow> nat" where
  "watched_count lessons rows =
     length (filter (\<lambda>l. list_ex (\<lambda>p. sr_lesson_id p = sl_id l \<and> sr_watched p) rows) lessons)"

definition computeStats :: "stats_input \<Rightarrow> learning_stats" where
  "computeStats i =
     (let tot = length (si_lessons i); watched = watched_count (si_lessons i) (si_progressRows i) in
      \<lparr>ls_totalLessons = tot, ls_watchedLessons = watched, ls_overallPct = percent watched tot,
       ls_attendancePct = si_attendancePct i, ls_submitted = si_submitted i,
       ls_assignmentsTotal = si_assignmentsTotal i, ls_avgScore = avg_score (si_submissionScores i),
       ls_certificates = si_certificates i\<rparr>)"

record achievement =
  ac_id :: jsstring
  ac_label :: jsstring
  ac_earned :: bool

definition achievements :: "learning_stats \<Rightarrow> achievement list" where
  "achievements s =
     [\<lparr>ac_id = ''first'', ac_label = ''First lesson watched'', ac_earned = ls_watchedLessons s \<ge> 1\<rparr>,
      \<lparr>ac_id = ''momentum'', ac_label = ''5 lessons watched'', ac_earned = ls_watchedLessons s \<ge> 5\<rparr>,
      \<lparr>ac_id = ''scholar'', ac_label = ''First assignment submitted'', ac_earned = ls_submitted s \<ge> 1\<rparr>,
      \<lparr>ac_id = ''attendance'', ac_label = ''80%+ attendance'',
        ac_earned = (case ls_attendancePct s of Some a \<Rightarrow> a | None \<Rightarrow> 0) \<ge> 80\<rparr>,
      \<lparr>ac_id = ''certified'', ac_label = ''Certificate earned'', ac_earned = ls_certificates s \<ge> 1\<rparr>,
      \<lparr>ac_id = ''master'', ac_label = ''Course completed'',
        ac_earned = ls_totalLessons s > 0 \<and> ls_overallPct s \<ge> 100\<rparr>]"

definition earned :: "jsstring \<Rightarrow> learning_stats \<Rightarrow> bool" where
  "earned a s = list_ex (\<lambda>x. ac_id x = a \<and> ac_earned x) (achievements s)"

section \<open>Grouping is a partition\<close>

definition group_inv :: "stat_lesson list \<Rightarrow> (jsstring \<times> stat_lesson list) list \<Rightarrow> bool" where
  "group_inv ls m = (distinct (map fst m) \<and> fst ` set m = cohort_key ` set ls \<and>
     (\<forall>k g. map_of m k = Some g \<longrightarrow> g = filter (\<lambda>l. cohort_key l = k) ls))"

lemma add_lesson_keys: "map fst (add_lesson l m) =
    (if cohort_key l \<in> set (map fst m) then map fst m else map fst m @ [cohort_key l])"
  by (induction m) (simp_all del: set_map, fastforce)

lemma add_lesson_map: "map_of (add_lesson l m) k =
    (if k = cohort_key l then Some (case map_of m k of None \<Rightarrow> [l] | Some h \<Rightarrow> h @ [l]) else map_of m k)"
  by (induction m) auto

lemma group_inv_add: "group_inv ls m \<Longrightarrow> group_inv (ls @ [l]) (add_lesson l m)"
proof -
  assume inv: "group_inv ls m"
  have d: "distinct (map fst m)" and dom: "fst ` set m = cohort_key ` set ls"
    and g: "\<And>k h. map_of m k = Some h \<Longrightarrow> h = filter (\<lambda>l. cohort_key l = k) ls"
    using inv by (auto simp: group_inv_def)
  have new: "map_of m (cohort_key l) = None \<Longrightarrow> filter (\<lambda>x. cohort_key x = cohort_key l) ls = []"
    using dom by (auto simp: filter_empty_conv map_of_eq_None_iff) (metis image_eqI)
  have keys: "fst ` set (add_lesson l m) = cohort_key ` set (ls @ [l])"
    using arg_cong [OF add_lesson_keys [of l m], of set] dom by auto
  have "distinct (map fst (add_lesson l m))" using d by (simp add: add_lesson_keys del: set_map)
  moreover have "h = filter (\<lambda>x. cohort_key x = k) (ls @ [l])" if "map_of (add_lesson l m) k = Some h" for k h
    using that g new by (cases "map_of m k") (auto simp: add_lesson_map split: if_splits)
  ultimately show ?thesis using keys by (auto simp: group_inv_def)
qed

lemma byCohort_inv: "group_inv ls (byCohort ls)"
proof (induction ls rule: rev_induct)
  case Nil
  then show ?case by (simp add: byCohort_def group_inv_def)
next
  case (snoc l ls)
  then show ?case using group_inv_add by (simp add: byCohort_def)
qed

lemma group_counts:
  assumes "distinct (map fst m)" "\<forall>(k, g) \<in> set m. g = filter (\<lambda>l. cohort_key l = k) ls"
  shows "(\<Sum>(k, g) \<leftarrow> m. length (filter P g)) = length (filter (\<lambda>l. P l \<and> cohort_key l \<in> fst ` set m) ls)"
  using assms
proof (induction m)
  case (Cons e m)
  obtain k g where e: "e = (k, g)" by (cases e)
  have k: "k \<notin> fst ` set m" using Cons.prems(1) e by simp
  have "length (filter P g) = length (filter (\<lambda>l. P l \<and> cohort_key l = k) ls)"
    using Cons.prems(2) e by (simp add: conj_commute)
  moreover have "length (filter (\<lambda>l. P l \<and> cohort_key l \<in> fst ` set (e # m)) ls) =
      length (filter (\<lambda>l. P l \<and> cohort_key l = k) ls) + length (filter (\<lambda>l. P l \<and> cohort_key l \<in> fst ` set m) ls)"
    using k by (induction ls) (auto simp: e)
  moreover have "(\<Sum>(k, g) \<leftarrow> m. length (filter P g)) = length (filter (\<lambda>l. P l \<and> cohort_key l \<in> fst ` set m) ls)"
    using Cons.IH Cons.prems by simp
  ultimately show ?case by (simp add: e)
qed simp

lemma byCohort_counts: "(\<Sum>(k, g) \<leftarrow> byCohort ls. length (filter P g)) = length (filter P ls)"
proof -
  have inv: "distinct (map fst (byCohort ls))" "\<forall>(k, g) \<in> set (byCohort ls). g = filter (\<lambda>l. cohort_key l = k) ls"
    and dom: "fst ` set (byCohort ls) = cohort_key ` set ls"
    using byCohort_inv [of ls] by (auto simp: group_inv_def)
  have "filter (\<lambda>l. P l \<and> cohort_key l \<in> fst ` set (byCohort ls)) ls = filter P ls"
    by (rule filter_cong) (auto simp: dom)
  then show ?thesis using group_counts [OF inv, of P] by simp
qed


section \<open>Counting\<close>

lemma sum_list_sort_key: "sum_list (map f (sort_key g xs)) = (sum_list (map f xs) :: nat)"
proof -
  have "mset (map f (sort_key g xs)) = mset (map f xs)" by simp
  then show ?thesis using sum_mset_sum_list by metis
qed

lemma mset_map_sort_key: "mset (map f (sort_key g xs)) = mset (map f xs)"
  by simp

lemma scan_watched:
  "fst (foldl (scan_lesson rows) acc ls) = fst acc + length (filter (\<lambda>l. watchedByLesson rows (sl_id l)) ls)"
  by (induction ls arbitrary: acc) (simp_all add: scan_lesson_def)

lemma scan_keeps: "present (snd acc) \<Longrightarrow> snd (foldl (scan_lesson rows) acc ls) = snd acc"
  by (induction ls arbitrary: acc) (simp_all add: scan_lesson_def)

lemma scan_next:
  assumes "\<forall>l \<in> set ls. sl_id l \<noteq> []"
  shows "snd (foldl (scan_lesson rows) (n, None) ls) =
    map_option sl_id (find (\<lambda>l. \<not> watchedByLesson rows (sl_id l) \<and> (present (sl_video_url l) \<or> present (sl_start_at l))) ls)"
  using assms
proof (induction ls arbitrary: n)
  case (Cons l ls)
  have step: "scan_lesson rows (n, None) l = (if watchedByLesson rows (sl_id l) then (n + 1, None)
      else if present (sl_video_url l) \<or> present (sl_start_at l) then (n, Some (sl_id l)) else (n, None))"
    by (simp add: scan_lesson_def)
  have "sl_id l \<noteq> []" using Cons.prems by simp
  then have "snd (foldl (scan_lesson rows) (n, Some (sl_id l)) ls) = Some (sl_id l)"
    using scan_keeps [of "(n, Some (sl_id l))" rows ls] by simp
  then show ?case using Cons by (simp add: step)
qed simp

lemma watched_agrees:
  assumes "distinct (map sr_lesson_id rows)"
  shows "watchedByLesson rows i = list_ex (\<lambda>p. sr_lesson_id p = i \<and> sr_watched p) rows"
proof -
  let ?m = "rev (map (\<lambda>p. (sr_lesson_id p, sr_watched p)) rows)"
  have "map fst ?m = rev (map sr_lesson_id rows)" by (simp add: rev_map comp_def)
  then have "distinct (map fst ?m)" using assms by simp
  then have "map_of ?m i = Some w \<longleftrightarrow> (\<exists>p \<in> set rows. sr_lesson_id p = i \<and> sr_watched p = w)" for w
    by (auto simp: map_of_eq_Some_iff)
  then have "map_of ?m i = Some True \<longleftrightarrow> list_ex (\<lambda>p. sr_lesson_id p = i \<and> sr_watched p) rows"
    by (auto simp: list_ex_iff)
  then show ?thesis by (auto simp: watchedByLesson_def split: option.splits)
qed

lemma course_simps [simp]:
  "cp_cohortId (course_of rows titles g) = fst g"
  "cp_total (course_of rows titles g) = length (snd g)"
  "cp_watched (course_of rows titles g) = length (filter (\<lambda>l. watchedByLesson rows (sl_id l)) (snd g))"
  by (simp_all add: course_of_def Let_def scan_watched)

lemma course_pct: "cp_pct (course_of rows titles g) =
    percent (length (filter (\<lambda>l. watchedByLesson rows (sl_id l)) (snd g))) (length (snd g))"
  by (simp add: course_of_def Let_def scan_watched)

section \<open>Percentages\<close>

lemma percent_range: "w \<le> t \<Longrightarrow> 0 \<le> percent w t \<and> percent w t \<le> 100"
  using ieee.pct_range [of "int w" "int t"] by (simp add: percent_def)

lemma percent_full: "0 < t \<Longrightarrow> percent t t = 100"
  using ieee.pct_full [of "int t"] by (simp add: percent_def)

lemma percent_incomplete: "w < t \<Longrightarrow> t < 200 \<Longrightarrow> percent w t \<le> 99"
  using ieee.pct_incomplete [of "int w" "int t"] by (simp add: percent_def)

lemma percent_100_iff: "w \<le> t \<Longrightarrow> t < 200 \<Longrightarrow> percent w t \<ge> 100 \<longleftrightarrow> 0 < t \<and> w = t"
  using percent_full [of t] percent_incomplete [of w t] by (cases "w = t") (auto simp: percent_def)

lemma percent_rounds_up:
  assumes "205 \<le> t"
  shows "percent (t - 1) t = 100"
proof -
  let ?q = "of_int (int (t - 1)) / of_int (int t) :: rat"
  have "1019 / pow2 10 \<le> ?q"
    using assms by (simp add: pow2_nat divide_simps of_nat_diff)
  then have "fl (1019 / pow2 10) \<le> fl ?q" by (rule fl_mono)
  then have "1019 / pow2 10 \<le> fl ?q" using fl_dyadic [of 1019 10] by simp
  then have "199 / pow2 1 \<le> fl ?q * 100" by (simp add: pow2_nat)
  then have "fl (199 / pow2 1) \<le> fl (fl ?q * 100)" by (rule fl_mono)
  then have "199 / pow2 1 \<le> fl (fl ?q * 100)" using fl_dyadic [of 199 1] by simp
  then have "100 \<le> js_round (fl (fl ?q * 100))"
    using js_round_mono [of "199 / 2" "fl (fl ?q * 100)"] js_round_eqI [of 100 "199 / 2"]
    by (simp add: pow2_nat)
  moreover have "percent (t - 1) t \<le> 100" using percent_range [of "t - 1" t] by simp
  ultimately show ?thesis using assms by (simp add: percent_def)
qed

section \<open>Properties\<close>

text \<open>
  C19. Every lesson is counted in exactly one course, a course is listed once, its counts
  and percentage are in range and it shows 100% when all its lessons are watched; the
  courses come in descending order of their percentage.
\<close>

theorem courses_partition:
  "(\<Sum>c \<leftarrow> groupByCohort lessons rows titles. cp_total c) = length lessons
   \<and> distinct (map cp_cohortId (groupByCohort lessons rows titles))
   \<and> list_all (\<lambda>c. cp_watched c \<le> cp_total c \<and> 0 \<le> cp_pct c \<and> cp_pct c \<le> 100
        \<and> (if cp_watched c = cp_total c then cp_pct c = 100 else cp_total c < 200 \<longrightarrow> cp_pct c < 100))
      (groupByCohort lessons rows titles)
   \<and> sorted (map (\<lambda>c. - cp_pct c) (groupByCohort lessons rows titles))"
proof -
  let ?cs = "map (course_of rows titles) (byCohort lessons)"
  have sum: "(\<Sum>c \<leftarrow> ?cs. cp_total c) = length lessons"
    using byCohort_counts [of "\<lambda>_. True" lessons, unfolded split_def] by (simp add: comp_def)
  have inv: "group_inv lessons (byCohort lessons)" by (rule byCohort_inv)
  have dist: "distinct (map cp_cohortId ?cs)"
    using inv by (simp add: group_inv_def comp_def)
  have ne: "snd g \<noteq> []" if "g \<in> set (byCohort lessons)" for g
  proof -
    obtain k h where g: "g = (k, h)" by (cases g)
    have "k \<in> fst ` set (byCohort lessons)" using that g by force
    with inv have "k \<in> cohort_key ` set lessons" by (simp add: group_inv_def)
    moreover have "h = filter (\<lambda>l. cohort_key l = k) lessons"
      using that g inv by (auto simp: group_inv_def)
    ultimately have "k \<in> cohort_key ` set lessons" "h = filter (\<lambda>l. cohort_key l = k) lessons" by simp_all
    with g show ?thesis by (auto simp: filter_empty_conv)
  qed
  have each: "cp_watched c \<le> cp_total c \<and> 0 \<le> cp_pct c \<and> cp_pct c \<le> 100
        \<and> (if cp_watched c = cp_total c then cp_pct c = 100 else cp_total c < 200 \<longrightarrow> cp_pct c < 100)"
    if "c \<in> set ?cs" for c
  proof -
    obtain g where g: "g \<in> set (byCohort lessons)" "c = course_of rows titles g"
      using \<open>c \<in> set ?cs\<close> unfolding set_map by blast
    have le: "cp_watched c \<le> cp_total c" by (simp add: g(2))
    have p: "cp_pct c = percent (cp_watched c) (cp_total c)" by (simp add: g(2) course_pct)
    have "0 < cp_total c" using ne [OF g(1)] by (simp add: g(2))
    then show ?thesis
      unfolding p using le percent_range [OF le] percent_full [of "cp_total c"]
        percent_incomplete [of "cp_watched c" "cp_total c"] by auto
  qed
  have d2: "distinct (map cp_cohortId (sort_key (\<lambda>c. - cp_pct c) ?cs))"
  proof -
    have "mset (map cp_cohortId (sort_key (\<lambda>c. - cp_pct c) ?cs)) = mset (map cp_cohortId ?cs)"
      by (rule mset_map_sort_key)
    then show ?thesis using dist mset_eq_imp_distinct_iff by blast
  qed
  show ?thesis
    unfolding groupByCohort_def sum_list_sort_key list_all_iff set_sort
    by (intro conjI ballI; (rule sum d2 sorted_sort_key | erule each [THEN conjunct1] each [THEN conjunct2, THEN conjunct1]
        each [THEN conjunct2, THEN conjunct2, THEN conjunct1] each [THEN conjunct2, THEN conjunct2, THEN conjunct2]))
qed


lemma courses_partition_witness:
  "list_all (\<lambda>c. cp_pct c < 100) (groupByCohort
     [\<lparr>sl_id = ''l1'', sl_title = ''A'', sl_cohort_id = None, sl_start_at = None, sl_video_url = None, sl_status = None\<rparr>] [] [])"
proof -
  let ?l = "\<lparr>sl_id = ''l1'', sl_title = ''A'', sl_cohort_id = None, sl_start_at = None, sl_video_url = None, sl_status = None\<rparr>"
  have "groupByCohort [?l] [] [] = [course_of [] [] (''standalone'', [?l])]"
    by (simp add: groupByCohort_def byCohort_def cohort_key_def)
  then show ?thesis
    using courses_partition [of "[?l]" "[]" "[]"] by (simp add: watchedByLesson_def)
qed

text \<open>
  The two ways of counting agree when every lesson has at most one progress row: the
  courses' watched lessons add up to the headline figure. (With several rows for a lesson
  the courses go by the last one, the headline by any of them.)
\<close>

theorem watched_totals_agree:
  assumes "distinct (map sr_lesson_id (si_progressRows i))"
  shows "(\<Sum>c \<leftarrow> groupByCohort (si_lessons i) (si_progressRows i) titles. cp_watched c)
    = ls_watchedLessons (computeStats i)"
  using byCohort_counts [of "\<lambda>l. watchedByLesson (si_progressRows i) (sl_id l)" "si_lessons i", unfolded split_def]
    watched_agrees [OF assms]
  by (simp add: groupByCohort_def sum_list_sort_key comp_def computeStats_def watched_count_def Let_def)

definition sample_lesson :: "jsstring \<Rightarrow> stat_lesson" where
  "sample_lesson i = \<lparr>sl_id = i, sl_title = ''L'', sl_cohort_id = Some ''c1'', sl_start_at = None,
     sl_video_url = Some ''v'', sl_status = None\<rparr>"

definition sample_stats :: "nat \<Rightarrow> stats_input" where
  "sample_stats n =
     \<lparr>si_lessons = replicate n (sample_lesson ''a'') @ [sample_lesson ''b''],
      si_progressRows = [\<lparr>sr_lesson_id = ''a'', sr_watched = True\<rparr>],
      si_attendancePct = None, si_submitted = 0, si_assignmentsTotal = 0, si_submissionScores = [], si_certificates = 0\<rparr>"

lemma watched_totals_agree_witness:
  "(\<Sum>c \<leftarrow> groupByCohort (si_lessons (sample_stats 1)) (si_progressRows (sample_stats 1)) []. cp_watched c)
    = ls_watchedLessons (computeStats (sample_stats 1))"
  by (rule watched_totals_agree) (simp add: sample_stats_def)

text \<open>
  A course points to its first unwatched lesson that has a video or a date, and to none
  exactly when there is no such lesson.
\<close>

theorem course_next_lesson:
  assumes "\<forall>l \<in> set (snd g). sl_id l \<noteq> []"
  shows "cp_nextUnwatchedId (course_of rows titles g) =
    map_option sl_id (find (\<lambda>l. \<not> watchedByLesson rows (sl_id l) \<and> (present (sl_video_url l) \<or> present (sl_start_at l))) (snd g))"
  using scan_next [OF assms] by (simp add: course_of_def Let_def)

lemma course_next_lesson_witness:
  "cp_nextUnwatchedId (course_of [\<lparr>sr_lesson_id = ''a'', sr_watched = True\<rparr>] []
     (''c1'', [\<lparr>sl_id = ''a'', sl_title = ''A'', sl_cohort_id = None, sl_start_at = None, sl_video_url = Some ''v'', sl_status = None\<rparr>,
               \<lparr>sl_id = ''b'', sl_title = ''B'', sl_cohort_id = None, sl_start_at = None, sl_video_url = Some ''v'', sl_status = None\<rparr>]))
   = Some ''b''"
  by (subst course_next_lesson) (simp_all add: watchedByLesson_def)

text \<open>
  The next class is a future one and none of the future classes is earlier; there is
  one exactly when some lesson lies in the future.
\<close>

theorem nextUpcoming_earliest:
  fixes time :: "jsstring \<Rightarrow> int option"
  defines "start \<equiv> (\<lambda>l. case sl_start_at l of None \<Rightarrow> None | Some s \<Rightarrow> if s = [] then None else time s)"
  shows "case nextUpcoming time now (Some ls) of
      None \<Rightarrow> list_all (\<lambda>l. case start l of Some t \<Rightarrow> t \<le> now | None \<Rightarrow> True) ls
    | Some l \<Rightarrow> l \<in> set ls \<and> the (start l) > now \<and>
        list_all (\<lambda>k. case start k of Some t \<Rightarrow> t \<le> now \<or> the (start l) \<le> t | None \<Rightarrow> True) ls"
proof -
  let ?P = "\<lambda>l. case start l of Some t \<Rightarrow> t > now | None \<Rightarrow> False"
  let ?s = "sort_key (\<lambda>l. the (start l)) (filter ?P ls)"
  have n: "nextUpcoming time now (Some ls) = (case ?s of [] \<Rightarrow> None | l # _ \<Rightarrow> Some l)"
    by (simp add: nextUpcoming_def start_def Let_def)
  have set: "set ?s = {l \<in> set ls. ?P l}" by simp
  show ?thesis
  proof (cases ?s)
    case Nil
    then have "filter ?P ls = []" by (metis sort_key_neq_Nil)
    then show ?thesis by (auto simp: n Nil list_all_iff filter_empty_conv not_less split: option.splits)
  next
    case (Cons l r)
    have l: "l \<in> set ls" "?P l" using set Cons by auto
    have "sorted (map (\<lambda>l. the (start l)) ?s)" by simp
    then have "\<forall>k \<in> set r. the (start l) \<le> the (start k)" by (simp add: Cons)
    then have min: "the (start l) \<le> the (start k)" if "k \<in> set ls" "?P k" for k
      using that set Cons by auto
    have "the (start l) > now" using l(2) by (auto split: option.splits)
    moreover have "case start k of Some t \<Rightarrow> t \<le> now \<or> the (start l) \<le> t | None \<Rightarrow> True" if "k \<in> set ls" for k
      using min [OF that] by (cases "start k"; cases "the (start k) > now") auto
    ultimately show ?thesis using l(1) by (simp add: n Cons list_all_iff)
  qed
qed

lemma earned_master: "earned ''master'' s \<longleftrightarrow> ls_totalLessons s > 0 \<and> ls_overallPct s \<ge> 100"
  by (simp add: earned_def achievements_def)

lemma watched_le: "watched_count ls rows \<le> length ls"
  by (simp add: watched_count_def)

text \<open>
  With fewer than 200 lessons the badge for completing everything is earned exactly
  when there is a lesson and every one has been watched.
\<close>

theorem course_completed_badge:
  assumes "length (si_lessons i) < 200"
  shows "earned ''master'' (computeStats i) \<longleftrightarrow>
    si_lessons i \<noteq> [] \<and> list_all (\<lambda>l. list_ex (\<lambda>p. sr_lesson_id p = sl_id l \<and> sr_watched p) (si_progressRows i)) (si_lessons i)"
proof -
  let ?P = "\<lambda>l. list_ex (\<lambda>p. sr_lesson_id p = sl_id l \<and> sr_watched p) (si_progressRows i)"
  have "watched_count (si_lessons i) (si_progressRows i) = length (si_lessons i) \<longleftrightarrow> list_all ?P (si_lessons i)"
    unfolding watched_count_def list_all_iff
    by (metis (no_types, lifting) filter_True length_filter_less less_irrefl)
  then show ?thesis
    using percent_100_iff [OF watched_le assms, of "si_progressRows i"]
    by (auto simp: earned_master computeStats_def Let_def)
qed

lemma course_completed_badge_witness: "\<not> earned ''master'' (computeStats (sample_stats 1))"
  by (subst course_completed_badge) (simp_all add: sample_stats_def sample_lesson_def)

text \<open>
  With 205 lessons or more the badge "Course completed" and 100% are shown while one
  lesson is still unwatched: the percentage is rounded to the nearest integer.
\<close>

theorem completed_too_early:
  assumes "205 \<le> length (si_lessons i)"
    and "watched_count (si_lessons i) (si_progressRows i) = length (si_lessons i) - 1"
  shows "ls_overallPct (computeStats i) = 100 \<and> earned ''master'' (computeStats i)
    \<and> ls_watchedLessons (computeStats i) < ls_totalLessons (computeStats i)"
  using percent_rounds_up [OF assms(1)] assms by (auto simp: earned_master computeStats_def Let_def)


lemma completed_too_early_witness: "earned ''master'' (computeStats (sample_stats 204))"
  by (rule completed_too_early [THEN conjunct2, THEN conjunct1])
    (simp_all add: sample_stats_def sample_lesson_def watched_count_def filter_replicate)

end
