(* ===== verification/ExamPlayer.thy ===== *)
theory ExamPlayer
  imports Machine Http CbtCommon
begin

text \<open>
  The timed examination page \<open>client/components/cbt/ExamPlayer.tsx\<close>: briefing, the running
  sitting with its countdown, keyboard and question map, submission and result. A state is
  the component's hooks, the refs and the submissions in flight; an event is a click on a
  button the page shows (\<open>exam_view\<close>), a key, a tick of the countdown or the settling of a
  request. Times are milliseconds; \<open>remaining\<close> is kept in milliseconds too and shown in
  whole seconds. The answers are a dictionary from question ids to option numbers.
\<close>

section \<open>Data\<close>

record player_question =
  pq_id :: jsstring
  pq_position :: int
  pq_text :: jsstring
  pq_options :: "jsstring list"

record exam_paper =
  ep_id :: jsstring
  ep_subject :: jsstring
  ep_title :: jsstring
  ep_description :: jsstring
  ep_duration_minutes :: nat
  ep_passing_score :: nat
  ep_questions :: "player_question list"

record attempt_result =
  ar_attempt_id :: jsstring
  ar_score :: int
  ar_passed :: bool
  ar_correct :: nat
  ar_total :: nat
  ar_expired :: bool

datatype exam_phase = Brief | Running | Result

text \<open>A submission: the attempt, the answers sent, and whether the countdown sent it.\<close>

type_synonym submission = "jsstring \<times> answer_sheet \<times> bool"

record exam =
  ex_phase :: exam_phase
  attemptId :: jsstring
  expiresAt :: "int option"
  remaining :: int
  idx :: nat
  answers :: answer_sheet
  flags :: "(jsstring \<times> bool) list"
  starting :: bool
  submitting :: bool
  result :: "attempt_result option"
  confirmSubmit :: bool
  error :: jsstring
  submittedRef :: bool
  pending :: "submission list" \<comment> \<open>submissions whose answer has not arrived\<close>
  invalidating :: nat \<comment> \<open>refetches awaited after a submission\<close>
  sent :: "submission list" \<comment> \<open>every submission so far\<close>

definition exam0 :: exam where
  "exam0 = \<lparr>ex_phase = Brief, attemptId = [], expiresAt = None, remaining = 0, idx = 0, answers = [],
     flags = [], starting = False, submitting = False, result = None, confirmSubmit = False, error = [],
     submittedRef = False, pending = [], invalidating = 0, sent = []\<rparr>"

definition qs :: "exam_paper \<Rightarrow> player_question list" where
  "qs p = sort_key pq_position (ep_questions p)"

definition current_q :: "exam_paper \<Rightarrow> exam \<Rightarrow> player_question option" where
  "current_q p s = (if idx s < length (qs p) then Some (qs p ! idx s) else None)"

definition answeredCount :: "exam_paper \<Rightarrow> exam \<Rightarrow> nat" where
  "answeredCount p s = length (filter (\<lambda>x. map_of (answers s) (pq_id x) \<noteq> None) (qs p))"

definition flagged :: "exam \<Rightarrow> jsstring \<Rightarrow> bool" where
  "flagged s i = (case map_of (flags s) i of Some b \<Rightarrow> b | None \<Rightarrow> False)"

section \<open>Handlers\<close>

definition setAnswer :: "player_question \<Rightarrow> nat \<Rightarrow> exam \<Rightarrow> exam" where
  "setAnswer q oi s = s\<lparr>answers := AList.update (pq_id q) oi (answers s)\<rparr>"

definition toggleFlag :: "player_question \<Rightarrow> exam \<Rightarrow> exam" where
  "toggleFlag q s = s\<lparr>flags := AList.update (pq_id q) (\<not> flagged s (pq_id q)) (flags s)\<rparr>"

text \<open>\<open>finish\<close> up to its \<open>await\<close>.\<close>

definition finish :: "jsstring \<Rightarrow> answer_sheet \<Rightarrow> bool \<Rightarrow> exam \<Rightarrow> exam" where
  "finish i current expired s =
     (if submittedRef s then s
      else s\<lparr>submittedRef := True, submitting := True, error := [],
             pending := pending s @ [(i, current, expired)], sent := sent s @ [(i, current, expired)]\<rparr>)"

text \<open>The continuation of \<open>finish\<close> when the n-th submission in flight is answered or fails.\<close>

definition finish_ok :: "nat \<Rightarrow> attempt_result \<Rightarrow> exam \<Rightarrow> exam" where
  "finish_ok n r s = s\<lparr>result := Some r, ex_phase := Result, confirmSubmit := False,
     pending := drop_nth n (pending s), invalidating := invalidating s + 1\<rparr>"

definition finish_fail :: "nat \<Rightarrow> js_exn \<Rightarrow> exam \<Rightarrow> exam" where
  "finish_fail n e s =
     (let expired = snd (snd (pending s ! n)) in
      s\<lparr>submittedRef := False, submitting := False, pending := drop_nth n (pending s),
        error := (if expired then ''Time is up, but the submit failed '' @ em_dash @ '' press Submit again.''
                  else if instanceof_Error e then ex_message e else ''Could not submit '' @ em_dash @ '' try again.'')\<rparr>)"

definition armed :: "exam \<Rightarrow> bool" where
  "armed s = (ex_phase s = Running \<and> expiresAt s \<noteq> None \<and> expiresAt s \<noteq> Some 0 \<and> attemptId s \<noteq> [])"

definition tick :: "int \<Rightarrow> exam \<Rightarrow> exam" where
  "tick now s =
     (case expiresAt s of None \<Rightarrow> s | Some t \<Rightarrow>
        (let left = t - now; s1 = s\<lparr>remaining := left\<rparr> in
         if left \<le> 0 then finish (attemptId s) (answers s) True s1 else s1))"

definition go_next :: "exam_paper \<Rightarrow> exam \<Rightarrow> exam" where
  "go_next p s = s\<lparr>idx := min (idx s + 1) (length (qs p) - 1)\<rparr>"

definition onKey :: "exam_paper \<Rightarrow> player_question \<Rightarrow> jsstring \<Rightarrow> exam \<Rightarrow> exam" where
  "onKey p q key s =
     (let k = to_lower key in
      if k = ''arrowright'' then go_next p s
      else if k = ''arrowleft'' then s\<lparr>idx := idx s - 1\<rparr>
      else if k = ''f'' then toggleFlag q s
      else if k = ''enter'' then go_next p s
      else (case index_of (to_upper k) LETTERS of
          Some li \<Rightarrow> if li < length (pq_options q) then setAnswer q li s
            else (case digit_key k of
                Some ni \<Rightarrow> if ni < length (pq_options q) then setAnswer q ni s else s | None \<Rightarrow> s)
        | None \<Rightarrow> (case digit_key k of
                Some ni \<Rightarrow> if ni < length (pq_options q) then setAnswer q ni s else s | None \<Rightarrow> s)))"

definition begin_start :: "exam \<Rightarrow> exam" where
  "begin_start s = s\<lparr>starting := True, error := []\<rparr>"

definition begin_ok :: "jsstring \<Rightarrow> int \<Rightarrow> int \<Rightarrow> exam \<Rightarrow> exam" where
  "begin_ok aid expires now s =
     s\<lparr>attemptId := aid, expiresAt := Some expires, remaining := expires - now, ex_phase := Running, starting := False\<rparr>"

definition begin_fail :: "js_exn \<Rightarrow> exam \<Rightarrow> exam" where
  "begin_fail e s = s\<lparr>starting := False,
     error := (if instanceof_Error e then ex_message e else ''Could not start the attempt.'')\<rparr>"

definition again :: "exam \<Rightarrow> exam" where
  "again s = s\<lparr>submittedRef := False, result := None, answers := [], flags := [], idx := 0,
     attemptId := [], expiresAt := None, ex_phase := Brief\<rparr>"

section \<open>The page\<close>

datatype exam_event =
    Begin
  | StartOk jsstring int int \<comment> \<open>attempt, deadline, time of arrival\<close>
  | StartFail js_exn
  | Tick int
  | Key jsstring
  | ToggleFlag
  | Choose nat
  | Prev
  | NextQ
  | Goto nat
  | AskSubmit
  | KeepWorking
  | SubmitNow
  | SubmitOk nat attempt_result
  | SubmitFail nat js_exn
  | Invalidated
  | Again

definition brief_view :: "exam_paper \<Rightarrow> exam \<Rightarrow> exam_event widget list" where
  "brief_view p s =
     [Txt (ep_subject p), Txt (ep_title p)] @ (if ep_description p = [] then [] else [Txt (ep_description p)]) @
     [Txt (show_nat (ep_duration_minutes p) @ '' min''), Txt (show_nat (length (qs p)) @ '' questions''),
      Txt (''pass mark '' @ show_nat (ep_passing_score p) @ ''%'')] @
     (if error s = [] then [] else [Txt (error s)]) @
     [Btn (if starting s then ''Starting'' @ ellipsis else if qs p = [] then ''No questions yet'' else ''Start exam'')
        (\<not> (starting s \<or> qs p = [])) Begin]"

definition result_view :: "exam_paper \<Rightarrow> attempt_result \<Rightarrow> exam_event widget list" where
  "result_view p r =
     [Txt (show_int (ar_score r) @ ''%''),
      Txt (show_nat (ar_correct r) @ '' of '' @ show_nat (ar_total r) @ '' correct''),
      Txt (if ar_passed r then ''PASSED'' else ''Not yet '' @ em_dash @ '' pass mark '' @ show_nat (ep_passing_score p) @ ''%'')] @
     (if ar_expired r then [Txt (''time expired '' @ em_dash @ '' auto-submitted'')] else []) @
     [Btn ''Sit this paper again'' True Again]"

definition running_view :: "exam_paper \<Rightarrow> player_question \<Rightarrow> exam \<Rightarrow> exam_event widget list" where
  "running_view p q s =
     [Txt (show_nat (answeredCount p s) @ ''/'' @ show_nat (length (qs p)) @ '' answered''),
      Txt (fmt (remaining s div 1000)),
      Txt (''Question '' @ show_nat (idx s + 1) @ '' of '' @ show_nat (length (qs p))),
      Btn (if flagged s (pq_id q) then ''Flagged'' else ''Flag'') True ToggleFlag, Txt (pq_text q)] @
     map (\<lambda>oi. Btn (pq_options q ! oi) True (Choose oi)) [0..<length (pq_options q)] @
     [Btn ''Previous'' (idx s \<noteq> 0) Prev,
      (if idx s < length (qs p) - 1 then Btn ''Next'' True NextQ else Btn ''Submit'' True AskSubmit)] @
     map (\<lambda>i. Btn (show_nat (i + 1)) True (Goto i)) [0..<length (qs p)] @
     [Btn ''Submit paper'' True AskSubmit] @
     (if error s = [] then [] else [Txt (error s)]) @
     (if confirmSubmit s then
        [Txt (''You have answered '' @ show_nat (answeredCount p s) @ '' of '' @ show_nat (length (qs p)) @ '' questions.''),
         Btn ''Keep working'' (\<not> submitting s) KeepWorking,
         Btn (if submitting s then ''Submitting'' @ ellipsis else ''Submit now'') (\<not> submitting s) SubmitNow] else [])"

definition exam_view :: "exam_paper \<Rightarrow> exam \<Rightarrow> exam_event widget list" where
  "exam_view p s =
     (if ex_phase s = Brief then brief_view p s
      else case (ex_phase s, result s) of
        (Result, Some r) \<Rightarrow> result_view p r
      | _ \<Rightarrow> (case current_q p s of None \<Rightarrow> [] | Some q \<Rightarrow> running_view p q s))"

fun exam_guard :: "exam_paper \<Rightarrow> exam \<Rightarrow> exam_event \<Rightarrow> bool" where
  "exam_guard p s (StartOk aid expires now) = starting s"
| "exam_guard p s (StartFail e) = starting s"
| "exam_guard p s (Tick now) = armed s"
| "exam_guard p s (Key k) = (ex_phase s = Running \<and> current_q p s \<noteq> None)"
| "exam_guard p s (SubmitOk n r) = (n < length (pending s))"
| "exam_guard p s (SubmitFail n e) = (n < length (pending s))"
| "exam_guard p s Invalidated = (invalidating s > 0)"
| "exam_guard p s e = (e \<in> set (offered (exam_view p s)))"

fun exam_step :: "exam_paper \<Rightarrow> exam \<Rightarrow> exam_event \<Rightarrow> exam" where
  "exam_step p s Begin = begin_start s"
| "exam_step p s (StartOk aid expires now) = begin_ok aid expires now s"
| "exam_step p s (StartFail e) = begin_fail e s"
| "exam_step p s (Tick now) = tick now s"
| "exam_step p s (Key k) = (case current_q p s of Some q \<Rightarrow> onKey p q k s | None \<Rightarrow> s)"
| "exam_step p s ToggleFlag = (case current_q p s of Some q \<Rightarrow> toggleFlag q s | None \<Rightarrow> s)"
| "exam_step p s (Choose oi) = (case current_q p s of Some q \<Rightarrow> setAnswer q oi s | None \<Rightarrow> s)"
| "exam_step p s Prev = s\<lparr>idx := idx s - 1\<rparr>"
| "exam_step p s NextQ = s\<lparr>idx := idx s + 1\<rparr>"
| "exam_step p s (Goto i) = s\<lparr>idx := i\<rparr>"
| "exam_step p s AskSubmit = s\<lparr>confirmSubmit := True\<rparr>"
| "exam_step p s KeepWorking = s\<lparr>confirmSubmit := False\<rparr>"
| "exam_step p s SubmitNow = finish (attemptId s) (answers s) False s"
| "exam_step p s (SubmitOk n r) = finish_ok n r s"
| "exam_step p s (SubmitFail n e) = finish_fail n e s"
| "exam_step p s Invalidated = s\<lparr>invalidating := invalidating s - 1, submitting := False\<rparr>"
| "exam_step p s Again = again s"


section \<open>The invariant\<close>

definition valid_sheet :: "exam_paper \<Rightarrow> answer_sheet \<Rightarrow> bool" where
  "valid_sheet p = sheet_ok pq_id pq_options (qs p)"

lemma valid_update:
  "valid_sheet p a \<Longrightarrow> q \<in> set (qs p) \<Longrightarrow> v < length (pq_options q) \<Longrightarrow> valid_sheet p (AList.update (pq_id q) v a)"
  unfolding valid_sheet_def by (rule sheet_ok_update)

definition exam_inv :: "exam_paper \<Rightarrow> exam \<Rightarrow> bool" where
  "exam_inv p s =
     (valid_sheet p (answers s) \<and> list_all (\<lambda>(_, a, _). valid_sheet p a) (sent s) \<and>
      (qs p \<noteq> [] \<longrightarrow> idx s < length (qs p)) \<and>
      (starting s \<longrightarrow> qs p \<noteq> [] \<and> ex_phase s = Brief) \<and>
      (ex_phase s = Brief \<longrightarrow> pending s = [] \<and> \<not> submittedRef s \<and> result s = None) \<and>
      (ex_phase s = Running \<longrightarrow> qs p \<noteq> [] \<and> result s = None \<and> length (pending s) \<le> 1 \<and>
         (submittedRef s \<longleftrightarrow> pending s \<noteq> [])) \<and>
      (ex_phase s = Result \<longrightarrow> pending s = [] \<and> submittedRef s \<and> result s \<noteq> None))"

lemma current_q_mem: "current_q p s = Some q \<Longrightarrow> q \<in> set (qs p)"
  by (auto simp: current_q_def split: if_splits)

lemma running_offers:
  "set (offered (running_view p q s)) =
     {ToggleFlag, AskSubmit} \<union> Choose ` {..<length (pq_options q)} \<union> (if idx s \<noteq> 0 then {Prev} else {}) \<union>
     (if idx s < length (qs p) - 1 then {NextQ} else {}) \<union> Goto ` {..<length (qs p)} \<union>
     (if confirmSubmit s \<and> \<not> submitting s then {KeepWorking, SubmitNow} else {})"
  by (auto simp: running_view_def)

lemma brief_offers: "set (offered (brief_view p s)) = (if starting s \<or> qs p = [] then {} else {Begin})"
  by (simp add: brief_view_def)

lemma result_offers: "set (offered (result_view p r)) = {Again}"
  by (simp add: result_view_def)

lemma view_cases:
  assumes "e \<in> set (offered (exam_view p s))" "exam_inv p s"
  shows "(ex_phase s = Brief \<and> e = Begin \<and> \<not> starting s \<and> qs p \<noteq> [])
    \<or> (ex_phase s = Result \<and> e = Again)
    \<or> (ex_phase s = Running \<and> (\<exists>q. current_q p s = Some q \<and> e \<in> set (offered (running_view p q s))))"
proof (cases "ex_phase s")
  case Brief
  then show ?thesis using assms by (auto simp: exam_view_def brief_offers split: if_splits)
next
  case Running
  then show ?thesis using assms by (auto simp: exam_view_def split: option.splits)
next
  case Result
  then show ?thesis using assms by (auto simp: exam_inv_def exam_view_def result_offers)
qed

lemma exam_inv_start: "s = exam0 \<Longrightarrow> exam_inv p s"
  by (simp add: exam_inv_def exam0_def valid_sheet_def sheet_ok_def)

lemma inv_setAnswer:
  "exam_inv p s \<Longrightarrow> q \<in> set (qs p) \<Longrightarrow> v < length (pq_options q) \<Longrightarrow> exam_inv p (setAnswer q v s)"
  by (simp add: exam_inv_def setAnswer_def valid_update)

lemma inv_toggleFlag: "exam_inv p s \<Longrightarrow> exam_inv p (toggleFlag q s)"
  by (simp add: exam_inv_def toggleFlag_def)

lemma inv_idx: "exam_inv p s \<Longrightarrow> qs p \<noteq> [] \<Longrightarrow> i < length (qs p) \<Longrightarrow> exam_inv p (s\<lparr>idx := i\<rparr>)"
  by (simp add: exam_inv_def)

lemma inv_go_next: "exam_inv p s \<Longrightarrow> qs p \<noteq> [] \<Longrightarrow> exam_inv p (go_next p s)"
  unfolding go_next_def by (rule inv_idx) (auto simp: min_def)

lemma inv_prev: "exam_inv p s \<Longrightarrow> exam_inv p (s\<lparr>idx := idx s - 1\<rparr>)"
  by (auto simp: exam_inv_def less_imp_diff_less)

lemma inv_invalidated: "exam_inv p s \<Longrightarrow> exam_inv p (s\<lparr>invalidating := i, submitting := b\<rparr>)"
  by (simp add: exam_inv_def)

lemma inv_finish: "exam_inv p s \<Longrightarrow> ex_phase s = Running \<Longrightarrow> exam_inv p (finish i (answers s) x s)"
  by (auto simp: exam_inv_def finish_def)

lemma inv_onKey:
  assumes "exam_inv p s" "current_q p s = Some q"
  shows "exam_inv p (onKey p q k s)"
proof -
  have q: "q \<in> set (qs p)" using assms(2) by (rule current_q_mem)
  then have "qs p \<noteq> []" by auto
  with q assms(1) show ?thesis
    unfolding onKey_def Let_def
    by (simp add: inv_go_next inv_prev [unfolded One_nat_def] inv_toggleFlag inv_setAnswer split: option.splits)
qed

lemma pending_running:
  assumes "exam_inv p s" "n < length (pending s)"
  shows "ex_phase s = Running \<and> n = 0 \<and> (\<exists>x. pending s = [x]) \<and> submittedRef s"
proof (cases "ex_phase s")
  case Running
  with assms show ?thesis by (cases "pending s") (auto simp: exam_inv_def)
qed (use assms in \<open>auto simp: exam_inv_def\<close>)

lemma inv_settle:
  assumes "exam_inv p s" "n < length (pending s)"
  shows "exam_inv p (finish_ok n r s)" "exam_inv p (finish_fail n e s)"
  using assms(1) pending_running [OF assms]
  by (auto simp: exam_inv_def finish_ok_def finish_fail_def Let_def)

lemma inv_tick: "exam_inv p s \<Longrightarrow> armed s \<Longrightarrow> exam_inv p (tick now s)"
proof -
  assume a: "exam_inv p s" "armed s"
  let ?s = "\<lambda>l. s\<lparr>remaining := l\<rparr>"
  have "exam_inv p (?s l)" for l using a(1) by (simp add: exam_inv_def)
  moreover have "ex_phase (?s l) = Running" for l using a(2) by (simp add: armed_def)
  ultimately have "exam_inv p (finish i (answers (?s l)) x (?s l))" for i x l by (rule inv_finish)
  with a(1) \<open>\<And>l. exam_inv p (?s l)\<close> show ?thesis
    by (auto simp: tick_def Let_def split: option.splits)
qed

lemma inv_begin_start: "exam_inv p s \<Longrightarrow> ex_phase s = Brief \<Longrightarrow> qs p \<noteq> [] \<Longrightarrow> exam_inv p (begin_start s)"
  by (simp add: exam_inv_def begin_start_def)

lemma inv_begin_done:
  assumes "exam_inv p s" "starting s"
  shows "exam_inv p (begin_ok i x t s)" "exam_inv p (begin_fail e s)"
  using assms by (auto simp: exam_inv_def begin_ok_def begin_fail_def)

lemma inv_again: "exam_inv p s \<Longrightarrow> ex_phase s = Result \<Longrightarrow> exam_inv p (again s)"
  by (auto simp: exam_inv_def again_def valid_sheet_def sheet_ok_def)

lemma inv_running_click:
  assumes "exam_inv p s" "ex_phase s = Running" "current_q p s = Some q" "e \<in> set (offered (running_view p q s))"
  shows "exam_inv p (exam_step p s e)"
proof -
  have q: "q \<in> set (qs p)" using assms(3) by (rule current_q_mem)
  then have ne: "qs p \<noteq> []" by auto
  have c: "exam_inv p (s\<lparr>confirmSubmit := b\<rparr>)" for b using assms(1) by (simp add: exam_inv_def)
  show ?thesis
    using assms q ne
    by (auto simp: running_offers c inv_toggleFlag inv_setAnswer inv_prev [unfolded One_nat_def] inv_idx inv_finish
        split: if_splits)
qed

lemma exam_inv_step: "exam_inv p s \<Longrightarrow> exam_guard p s e \<Longrightarrow> exam_inv p (exam_step p s e)"
proof -
  assume inv: "exam_inv p s" and g: "exam_guard p s e"
  have click: ?thesis if "e \<in> set (offered (exam_view p s))"
    using view_cases [OF that inv] inv
    by (elim disjE conjE exE) (simp_all add: inv_begin_start inv_again inv_running_click)
  show ?thesis
    using inv g click
    by (cases e) (simp_all add: inv_begin_done inv_tick inv_settle inv_onKey inv_invalidated split: option.splits)
qed


interpretation exam: bounded_machine "\<lambda>s. s = exam0" "exam_guard p" "exam_step p" "exam_inv p" "\<lambda>s. length (pending s)" 1
  for p
proof unfold_locales
  show "exam_inv p s \<Longrightarrow> length (pending s) \<le> 1" for s
    by (cases "ex_phase s") (auto simp: exam_inv_def)
qed (fact exam_inv_start, fact exam_inv_step)

abbreviation exam_reach :: "exam_paper \<Rightarrow> exam \<Rightarrow> bool" where
  "exam_reach p \<equiv> reach (\<lambda>s. s = exam0) (exam_guard p) (exam_step p)"

section \<open>What one step can send\<close>

lemma finish_sent: "sent (finish i a x s) = (if submittedRef s then sent s else sent s @ [(i, a, x)])"
  by (simp add: finish_def)

lemma onKey_sent: "sent (onKey p q k s) = sent s"
  by (simp add: onKey_def Let_def go_next_def toggleFlag_def setAnswer_def split: option.splits)

lemma tick_sent: "sent (tick now s) = sent s \<or>
    sent (tick now s) = sent s @ [(attemptId s, answers s, True)] \<and> \<not> submittedRef s"
  by (simp add: tick_def Let_def finish_sent split: option.splits)

lemma step_sent:
  "exam_guard p s e \<Longrightarrow> sent (exam_step p s e) \<noteq> sent s \<Longrightarrow>
   \<not> submittedRef s \<and> (e = SubmitNow \<or> (\<exists>t. e = Tick t)) \<and>
   (\<exists>x. sent (exam_step p s e) = sent s @ [(attemptId s, answers s, x)])"
  using tick_sent [of _ s]
  by (cases e) (auto simp: begin_start_def begin_ok_def begin_fail_def onKey_sent toggleFlag_def setAnswer_def
      finish_sent finish_ok_def finish_fail_def again_def Let_def split: option.splits if_splits)

section \<open>Properties\<close>

text \<open>
  C2. In every reachable state the page shows an existing question, every answer names a
  question of the paper and one of its options, so does every answer ever submitted, and at
  most one submission is in flight.
\<close>

theorem exam_sitting_safe:
  assumes "exam_reach p s"
  shows "(qs p \<noteq> [] \<longrightarrow> idx s < length (qs p)) \<and> valid_sheet p (answers s)
    \<and> list_all (\<lambda>(_, a, _). valid_sheet p a) (sent s) \<and> length (pending s) \<le> 1"
  using exam.reach_inv [OF assms] exam.reach_load [OF assms] by (simp add: exam_inv_def)

text \<open>
  C3. A paper is submitted only while the sitting runs and no submission of it is in
  flight or has been answered; what is sent is the attempt of this sitting with exactly the
  answers on the page.
\<close>

theorem exam_submits_once:
  assumes "exam_reach p s" "exam_guard p s e" "sent (exam_step p s e) \<noteq> sent s"
  shows "ex_phase s = Running \<and> pending s = [] \<and> result s = None
    \<and> (\<exists>x. sent (exam_step p s e) = sent s @ [(attemptId s, answers s, x)])"
proof -
  have inv: "exam_inv p s" using exam.reach_inv [OF assms(1)] .
  have e: "\<not> submittedRef s" "e = SubmitNow \<or> (\<exists>t. e = Tick t)"
      "\<exists>x. sent (exam_step p s e) = sent s @ [(attemptId s, answers s, x)]"
    using step_sent [OF assms(2,3)] by auto
  have "ex_phase s = Running"
    using e(2) assms(2) view_cases [of e p s] inv by (auto simp: armed_def)
  with inv e show ?thesis by (auto simp: exam_inv_def)
qed

text \<open>
  C28. When the countdown ticks at or after the deadline, the paper submits itself with
  what has been answered, unless a submission is already in flight.
\<close>

theorem exam_expiry_submits:
  assumes "exam_reach p s" "armed s" "expiresAt s = Some t" "t \<le> now"
  shows "(pending s = [] \<longrightarrow> sent (exam_step p s (Tick now)) = sent s @ [(attemptId s, answers s, True)])
    \<and> pending (exam_step p s (Tick now)) \<noteq> []"
proof -
  have "ex_phase s = Running" using assms(2) by (simp add: armed_def)
  then have "submittedRef s \<longleftrightarrow> pending s \<noteq> []"
    using exam.reach_inv [OF assms(1)] by (simp add: exam_inv_def)
  then show ?thesis using assms(3,4) by (simp add: tick_def Let_def finish_def)
qed

text \<open>
  While the sitting runs, nothing the user or the network does moves the deadline or
  changes the attempt: both stay as the server gave them until the result is shown.
\<close>

theorem exam_deadline_fixed:
  assumes "exam_reach p s" "ex_phase s = Running" "exam_guard p s e"
  shows "expiresAt (exam_step p s e) = expiresAt s \<and> attemptId (exam_step p s e) = attemptId s
    \<and> ex_phase (exam_step p s e) \<in> {Running, Result}"
proof -
  have inv: "exam_inv p s" using exam.reach_inv [OF assms(1)] .
  have st: "\<not> starting s" using inv assms(2) by (auto simp: exam_inv_def)
  have fin: "expiresAt (finish i a x s') = expiresAt s'" "attemptId (finish i a x s') = attemptId s'"
      "ex_phase (finish i a x s') = ex_phase s'" for i a x s' by (simp_all add: finish_def)
  show ?thesis
    using assms(2,3) st view_cases [of e p s] inv
    by (cases e) (auto simp: running_offers fin tick_def Let_def onKey_def go_next_def toggleFlag_def setAnswer_def
      finish_ok_def finish_fail_def split: option.splits if_splits)
qed


section \<open>A sitting\<close>

definition sample_paper :: exam_paper where
  "sample_paper = \<lparr>ep_id = ''p'', ep_subject = ''Physics'', ep_title = ''Mock'', ep_description = [],
     ep_duration_minutes = 1, ep_passing_score = 50,
     ep_questions = [\<lparr>pq_id = ''q2'', pq_position = 2, pq_text = ''two'', pq_options = [''a'', ''b'']\<rparr>,
       \<lparr>pq_id = ''q1'', pq_position = 1, pq_text = ''one'', pq_options = [''a'', ''b'', ''c'', ''d'', ''e'', ''f'']\<rparr>]\<rparr>"

lemma sample_qs: "qs sample_paper =
   [\<lparr>pq_id = ''q1'', pq_position = 1, pq_text = ''one'', pq_options = [''a'', ''b'', ''c'', ''d'', ''e'', ''f'']\<rparr>,
    \<lparr>pq_id = ''q2'', pq_position = 2, pq_text = ''two'', pq_options = [''a'', ''b'']\<rparr>]"
  by (simp add: qs_def sample_paper_def)

lemmas exam_run_simps = exam0_def exam_view_def sample_qs current_q_def begin_start_def begin_ok_def setAnswer_def
  tick_def finish_def finish_fail_def finish_ok_def armed_def toggleFlag_def flagged_def

definition started :: exam where
  "started = exam0\<lparr>ex_phase := Running, attemptId := ''t1'', expiresAt := Some 61000, remaining := 60000\<rparr>"

lemma started_run: "run (exam_step sample_paper) exam0 [Begin, StartOk ''t1'' 61000 1000] = started
    \<and> allowed (exam_guard sample_paper) (exam_step sample_paper) exam0 [Begin, StartOk ''t1'' 61000 1000]"
  by (simp add: started_def exam_run_simps brief_offers)

lemma exam_run_reach: "allowed (exam_guard p) (exam_step p) exam0 es \<Longrightarrow> exam_reach p (run (exam_step p) exam0 es)"
  by (rule run_reachable) (rule refl)

lemma started_reach: "exam_reach sample_paper started"
  using exam_run_reach [of sample_paper "[Begin, StartOk ''t1'' 61000 1000]"] started_run by simp

definition answered :: exam where "answered = started\<lparr>answers := [(''q1'', 2)]\<rparr>"

lemma answered_reach: "exam_reach sample_paper answered"
proof -
  have "exam_reach sample_paper (exam_step sample_paper started (Choose 2))"
    by (rule reach_step [OF started_reach]) (simp add: started_def exam_run_simps running_offers)
  then show ?thesis by (simp add: answered_def started_def exam_run_simps)
qed

lemma exam_sitting_safe_witness: "valid_sheet sample_paper (answers answered) \<and> idx answered < 2"
  using exam_sitting_safe [OF answered_reach] by (simp add: sample_qs answered_def started_def exam0_def)

lemma exam_submits_once_witness:
  "\<exists>x. sent (exam_step sample_paper answered (Tick 61000)) = [(''t1'', [(''q1'', 2)], x)]"
proof -
  have "exam_guard sample_paper answered (Tick 61000)" "sent (exam_step sample_paper answered (Tick 61000)) \<noteq> sent answered"
    by (simp_all add: answered_def started_def exam_run_simps)
  from exam_submits_once [OF answered_reach this] show ?thesis by (simp add: answered_def started_def exam0_def)
qed

lemma exam_expiry_submits_witness:
  "sent (exam_step sample_paper answered (Tick 61500)) = [(''t1'', [(''q1'', 2)], True)]"
  using exam_expiry_submits [OF answered_reach, of 61000 61500]
  by (simp add: answered_def started_def exam0_def armed_def)

lemma exam_deadline_fixed_witness: "expiresAt (exam_step sample_paper answered (Key ''b'')) = Some 61000"
proof -
  have "ex_phase answered = Running" "exam_guard sample_paper answered (Key ''b'')"
    by (simp_all add: answered_def started_def exam_run_simps)
  from exam_deadline_fixed [OF answered_reach this] show ?thesis by (simp add: answered_def started_def exam0_def)
qed

text \<open>
  The letter F never answers a question: on a question with six options the hint below
  the paper offers the letters A to F, but F only sets the flag.
\<close>

theorem key_F_flags_only:
  "exam_step sample_paper started (Key ''f'') = started\<lparr>flags := [(''q1'', True)]\<rparr>
   \<and> exam_step sample_paper started (Key ''e'') = started\<lparr>answers := [(''q1'', 4)]\<rparr>
   \<and> exam_step sample_paper started (Key ''6'') = started\<lparr>answers := [(''q1'', 5)]\<rparr>"
proof -
  have low: "to_lower ''f'' = ''f''" "to_lower ''e'' = ''e''" "to_lower ''6'' = ''6''"
    by (simp_all add: to_lower_def lower_char_def)
  have up: "to_upper ''e'' = ''E''" "to_upper ''6'' = ''6''"
    by (simp_all add: to_upper_def upper_char_def char_of_def bit_0)
  show ?thesis
    by (simp add: low up started_def exam_run_simps onKey_def LETTERS_def digit_key_def)
qed

text \<open>
  After the deadline a failed submission is sent again by the next tick, one second
  later, while the page asks the user to press Submit again; the message is gone with the
  new attempt.
\<close>

theorem expired_failure_resends:
  "let s1 = exam_step sample_paper answered (Tick 61000);
       s2 = exam_step sample_paper s1 (SubmitFail 0 (plain_error ''Failed to fetch''));
       s3 = exam_step sample_paper s2 (Tick 62000)
   in error s2 = ''Time is up, but the submit failed '' @ em_dash @ '' press Submit again.''
      \<and> exam_guard sample_paper s2 (Tick 62000) \<and> length (sent s3) = 2 \<and> error s3 = []"
  by (simp add: Let_def answered_def started_def exam_run_simps)

end
