(* ===== verification/PracticePlayer.thy ===== *)
theory PracticePlayer
  imports Machine Http CbtCommon
begin

text \<open>
  The practice page \<open>client/components/cbt/PracticePlayer.tsx\<close>: a random draw from the question
  bank, answered on the client and graded by the server. The countdown is an interval set up
  by an effect that depends on the phase alone, so the \<open>finish\<close> it calls is the one of the
  render in which the paper was started; \<open>pr_captured\<close> is the answer sheet of that render.
  Times are milliseconds, the countdown counts seconds.
\<close>

section \<open>Data\<close>

record bank_question =
  bq_id :: jsstring
  bq_topic :: jsstring
  bq_difficulty :: nat
  bq_text :: jsstring
  bq_options :: "jsstring list"

record bank_paper =
  bp_subject :: jsstring
  bp_duration_minutes :: int
  bp_count :: nat
  bp_questions :: "bank_question list"
  bp_attempt_token :: jsstring
  bp_deadline :: jsstring

record graded_question =
  gq_id :: jsstring
  gq_text :: jsstring
  gq_options :: "jsstring list"
  gq_selected_index :: "nat option"
  gq_correct_index :: nat
  gq_explanation :: jsstring
  gq_correct :: bool

record grade_result =
  gr_score :: int
  gr_correct :: nat
  gr_total :: nat
  gr_review :: "graded_question list"

definition isUntimed :: "bank_paper \<Rightarrow> bool" where
  "isUntimed p = (bp_duration_minutes p \<le> 0 \<or> bp_deadline p = [] \<or> starts_with (bp_deadline p) ''0001-01-01'')"

text \<open>\<open>time d\<close> is \<open>new Date(d).getTime()\<close>, \<open>None\<close> for \<open>NaN\<close>.\<close>

definition secondsToDeadline :: "(jsstring \<Rightarrow> int option) \<Rightarrow> jsstring \<Rightarrow> int \<Rightarrow> int" where
  "secondsToDeadline time deadline now =
     (case time deadline of None \<Rightarrow> 0 | Some t \<Rightarrow> (let ms = t - now in if ms > 0 then ms div 1000 else 0))"

datatype prac_phase = PBrief | PRunning | PResult
datatype review_filter = All | Wrong

type_synonym graded_sheet = "(jsstring \<times> nat option) list"

record practice =
  pr_phase :: prac_phase
  pr_idx :: nat
  pr_answers :: answer_sheet
  pr_flags :: "(jsstring \<times> bool) list"
  pr_remaining :: int
  pr_submitting :: bool
  pr_result :: "grade_result option"
  pr_confirm :: bool
  pr_error :: jsstring
  pr_filter :: review_filter
  pr_submittedRef :: bool
  pr_captured :: "answer_sheet option" \<comment> \<open>the interval runs, with these answers in its closure\<close>
  pr_pending :: "graded_sheet list"
  pr_sent :: "graded_sheet list"

definition prac_mount :: "(jsstring \<Rightarrow> int option) \<Rightarrow> bank_paper \<Rightarrow> int \<Rightarrow> practice" where
  "prac_mount time p now =
     \<lparr>pr_phase = PBrief, pr_idx = 0, pr_answers = [], pr_flags = [],
      pr_remaining = (if isUntimed p then int (bp_count p) * 45 else secondsToDeadline time (bp_deadline p) now),
      pr_submitting = False, pr_result = None, pr_confirm = False, pr_error = [], pr_filter = All,
      pr_submittedRef = False, pr_captured = None, pr_pending = [], pr_sent = []\<rparr>"

definition prac_q :: "bank_paper \<Rightarrow> practice \<Rightarrow> bank_question option" where
  "prac_q p s = (if bp_questions p = [] then None
     else Some (bp_questions p ! min (pr_idx s) (length (bp_questions p) - 1)))"

definition prac_flagged :: "practice \<Rightarrow> jsstring \<Rightarrow> bool" where
  "prac_flagged s i = (case map_of (pr_flags s) i of Some b \<Rightarrow> b | None \<Rightarrow> False)"

section \<open>Handlers\<close>

definition payload :: "bank_paper \<Rightarrow> answer_sheet \<Rightarrow> graded_sheet" where
  "payload p a = map (\<lambda>x. (bq_id x, map_of a (bq_id x))) (bp_questions p)"

text \<open>\<open>finish\<close> of the render whose answers are \<open>a\<close>, up to its \<open>await\<close>.\<close>

definition prac_finish :: "bank_paper \<Rightarrow> answer_sheet \<Rightarrow> practice \<Rightarrow> practice" where
  "prac_finish p a s =
     (if pr_submittedRef s then s
      else s\<lparr>pr_submittedRef := True, pr_submitting := True, pr_error := [],
             pr_pending := pr_pending s @ [payload p a], pr_sent := pr_sent s @ [payload p a]\<rparr>)"

text \<open>The phase changes to the result, so the effect is cleaned up and the interval stops.\<close>

definition prac_graded :: "nat \<Rightarrow> grade_result \<Rightarrow> practice \<Rightarrow> practice" where
  "prac_graded n r s = s\<lparr>pr_result := Some r, pr_phase := PResult, pr_confirm := False, pr_submitting := False,
     pr_captured := None, pr_pending := drop_nth n (pr_pending s)\<rparr>"

definition prac_failed :: "nat \<Rightarrow> js_exn \<Rightarrow> practice \<Rightarrow> practice" where
  "prac_failed n e s = s\<lparr>pr_submittedRef := False, pr_submitting := False, pr_pending := drop_nth n (pr_pending s),
     pr_error := (if instanceof_Error e then ex_message e
                  else ''Could not submit '' @ em_dash @ '' check your connection and try again.'')\<rparr>"

definition prac_start :: "practice \<Rightarrow> practice" where
  "prac_start s = s\<lparr>pr_phase := PRunning, pr_captured := Some (pr_answers s)\<rparr>"

definition prac_tick :: "bank_paper \<Rightarrow> practice \<Rightarrow> practice" where
  "prac_tick p s =
     (case pr_captured s of None \<Rightarrow> s | Some a \<Rightarrow>
        if pr_remaining s \<le> 1 then
          (let s1 = s\<lparr>pr_captured := None, pr_remaining := 0\<rparr>
           in if \<not> isUntimed p then prac_finish p a s1 else s1)
        else s\<lparr>pr_remaining := pr_remaining s - 1\<rparr>)"

definition prac_next :: "bank_paper \<Rightarrow> practice \<Rightarrow> practice" where
  "prac_next p s = (if int (pr_idx s) = int (length (bp_questions p)) - 1 then s\<lparr>pr_confirm := True\<rparr>
     else s\<lparr>pr_idx := pr_idx s + 1\<rparr>)"

definition prac_review :: "practice \<Rightarrow> graded_question list" where
  "prac_review s = (case pr_result s of None \<Rightarrow> []
     | Some r \<Rightarrow> if pr_filter s = Wrong then filter (\<lambda>q. \<not> gq_correct q) (gr_review r) else gr_review r)"

section \<open>The page\<close>

datatype prac_event =
    PStart
  | PRedraw
  | PTick
  | PFlag
  | PChoose nat
  | PClear
  | PPrev
  | PNext
  | PGoto nat
  | PAsk
  | PKeep
  | PSubmit
  | PGraded nat grade_result
  | PFailed nat js_exn
  | PFilter

definition p_brief_view :: "bank_paper \<Rightarrow> bool \<Rightarrow> practice \<Rightarrow> prac_event widget list" where
  "p_brief_view p redrawing s =
     [Txt (''Practice paper '' @ bp_subject p),
      Txt (show_nat (length (bp_questions p)) @ '' randomly drawn questions''),
      Txt (if \<not> isUntimed p then ''You set a '' @ show_int (bp_duration_minutes p) @ ''-minute limit''
           else ''Untimed sitting. Suggested pace: 45 seconds per question''),
      Txt (fmt (if \<not> isUntimed p then pr_remaining s else int (length (bp_questions p)) * 45)),
      Txt (if \<not> isUntimed p then ''enforced limit'' else ''pace guide''),
      Btn ''Start paper'' True PStart,
      Btn (if redrawing then ''Drawing'' @ ellipsis else ''Draw different questions'') (\<not> redrawing) PRedraw]"

definition review_row :: "graded_question \<Rightarrow> prac_event widget list" where
  "review_row r = Txt (gq_text r) #
     map (\<lambda>j. Txt (gq_options r ! j @ (if j = gq_correct_index r then '' answer'' else []) @
       (if Some j = gq_selected_index r \<and> j \<noteq> gq_correct_index r then '' your pick'' else [])))
       [0..<length (gq_options r)] @
     (if gq_explanation r = [] then [] else [Txt (''Why: '' @ gq_explanation r)])"

definition p_result_view :: "bank_paper \<Rightarrow> bool \<Rightarrow> grade_result \<Rightarrow> practice \<Rightarrow> prac_event widget list" where
  "p_result_view p redrawing r s =
     [Txt (show_int (gr_score r) @ ''%''),
      Txt (show_nat (gr_correct r) @ '' of '' @ show_nat (gr_total r) @ '' correct''),
      Btn (if redrawing then ''Drawing'' @ ellipsis else ''Practise again (new questions)'') (\<not> redrawing) PRedraw] @
     (if list_ex (\<lambda>q. \<not> gq_correct q) (gr_review r)
      then [Btn (if pr_filter s = Wrong then ''Show all questions'' else ''Review my mistakes only'') True PFilter] else []) @
     concat (map review_row (prac_review s))"

definition p_question_view :: "bank_paper \<Rightarrow> bank_question \<Rightarrow> practice \<Rightarrow> prac_event widget list" where
  "p_question_view p q s =
     [Txt (bq_topic q), Btn (if prac_flagged s (bq_id q) then ''Flagged'' else ''Flag'') True PFlag, Txt (bq_text q)] @
     map (\<lambda>j. Btn (bq_options q ! j) True (PChoose j)) [0..<length (bq_options q)] @
     [Btn ''Previous'' (pr_idx s \<noteq> 0) PPrev] @
     (if map_of (pr_answers s) (bq_id q) \<noteq> None then [Btn ''Clear answer'' True PClear] else []) @
     [Btn (if int (pr_idx s) = int (length (bp_questions p)) - 1 then ''Review & submit'' else ''Next'') True PNext]"

definition p_running_view :: "bank_paper \<Rightarrow> practice \<Rightarrow> prac_event widget list" where
  "p_running_view p s =
     [Txt (''Question '' @ show_nat (pr_idx s + 1) @ '' / '' @ show_nat (length (bp_questions p))),
      Txt (fmt (pr_remaining s))] @
     (if pr_confirm s then
        [Btn (if pr_submitting s then ''Submitting'' @ ellipsis else ''Yes, submit'') (\<not> pr_submitting s) PSubmit,
         Btn ''Keep going'' True PKeep]
      else [Btn ''Submit paper'' True PAsk]) @
     (if pr_error s = [] then [] else [Txt (pr_error s)]) @
     (case prac_q p s of None \<Rightarrow> [] | Some q \<Rightarrow> p_question_view p q s) @
     map (\<lambda>i. Btn (show_nat (i + 1)) True (PGoto i)) [0..<length (bp_questions p)]"

definition prac_view :: "bank_paper \<Rightarrow> bool \<Rightarrow> practice \<Rightarrow> prac_event widget list" where
  "prac_view p redrawing s =
     (if pr_phase s = PBrief then p_brief_view p redrawing s
      else case (pr_phase s, pr_result s) of
        (PResult, Some r) \<Rightarrow> p_result_view p redrawing r s
      | _ \<Rightarrow> p_running_view p s)"

fun prac_guard :: "bank_paper \<Rightarrow> practice \<Rightarrow> prac_event \<Rightarrow> bool" where
  "prac_guard p s PTick = (pr_captured s \<noteq> None)"
| "prac_guard p s (PGraded n r) = (n < length (pr_pending s))"
| "prac_guard p s (PFailed n e) = (n < length (pr_pending s))"
| "prac_guard p s e = (e \<in> set (offered (prac_view p False s)))"

text \<open>\<open>PRedraw\<close> asks the parent for a new draw, which mounts a new player.\<close>

fun prac_step :: "bank_paper \<Rightarrow> practice \<Rightarrow> prac_event \<Rightarrow> practice" where
  "prac_step p s PStart = prac_start s"
| "prac_step p s PRedraw = s"
| "prac_step p s PTick = prac_tick p s"
| "prac_step p s PFlag = (case prac_q p s of None \<Rightarrow> s | Some q \<Rightarrow>
     s\<lparr>pr_flags := AList.update (bq_id q) (\<not> prac_flagged s (bq_id q)) (pr_flags s)\<rparr>)"
| "prac_step p s (PChoose j) = (case prac_q p s of None \<Rightarrow> s | Some q \<Rightarrow>
     s\<lparr>pr_answers := AList.update (bq_id q) j (pr_answers s)\<rparr>)"
| "prac_step p s PClear = (case prac_q p s of None \<Rightarrow> s | Some q \<Rightarrow>
     s\<lparr>pr_answers := AList.delete (bq_id q) (pr_answers s)\<rparr>)"
| "prac_step p s PPrev = s\<lparr>pr_idx := pr_idx s - 1\<rparr>"
| "prac_step p s PNext = prac_next p s"
| "prac_step p s (PGoto i) = s\<lparr>pr_idx := i\<rparr>"
| "prac_step p s PAsk = s\<lparr>pr_confirm := True\<rparr>"
| "prac_step p s PKeep = s\<lparr>pr_confirm := False\<rparr>"
| "prac_step p s PSubmit = prac_finish p (pr_answers s) s"
| "prac_step p s (PGraded n r) = prac_graded n r s"
| "prac_step p s (PFailed n e) = prac_failed n e s"
| "prac_step p s PFilter = s\<lparr>pr_filter := (if pr_filter s = Wrong then All else Wrong)\<rparr>"


section \<open>The invariant\<close>

definition prac_sheet :: "bank_paper \<Rightarrow> answer_sheet \<Rightarrow> bool" where
  "prac_sheet p = sheet_ok bq_id bq_options (bp_questions p)"

text \<open>A graded sheet lists every drawn question once, in order, with one of its options or nothing.\<close>

definition payload_ok :: "bank_paper \<Rightarrow> graded_sheet \<Rightarrow> bool" where
  "payload_ok p g = (map fst g = map bq_id (bp_questions p) \<and>
     (\<forall>(i, v) \<in> set g. v = None \<or> (\<exists>q \<in> set (bp_questions p). bq_id q = i \<and> the v < length (bq_options q))))"

definition prac_inv :: "(jsstring \<Rightarrow> int option) \<Rightarrow> bank_paper \<Rightarrow> int \<Rightarrow> practice \<Rightarrow> bool" where
  "prac_inv time p now s =
     (prac_sheet p (pr_answers s) \<and> list_all (payload_ok p) (pr_sent s) \<and>
      (bp_questions p \<noteq> [] \<longrightarrow> pr_idx s < length (bp_questions p)) \<and>
      (pr_phase s = PBrief \<longrightarrow> pr_answers s = [] \<and> pr_captured s = None \<and> pr_pending s = [] \<and>
         \<not> pr_submittedRef s \<and> pr_result s = None \<and> pr_remaining s = pr_remaining (prac_mount time p now)) \<and>
      (pr_phase s = PRunning \<longrightarrow> pr_result s = None \<and> length (pr_pending s) \<le> 1 \<and>
         (pr_submittedRef s \<longleftrightarrow> pr_pending s \<noteq> []) \<and> pr_captured s \<in> {None, Some []}) \<and>
      (pr_phase s = PResult \<longrightarrow> pr_pending s = [] \<and> pr_captured s = None \<and> pr_result s \<noteq> None))"

lemma payload_is_ok:
  assumes "prac_sheet p a"
  shows "payload_ok p (payload p a)"
proof -
  have "v = None \<or> (\<exists>q \<in> set (bp_questions p). bq_id q = i \<and> the v < length (bq_options q))"
    if "(i, v) \<in> set (payload p a)" for i v
  proof (cases v)
    case (Some k)
    with that have "map_of a i = Some k" by (auto simp: payload_def)
    with assms Some show ?thesis unfolding prac_sheet_def by (auto dest: sheet_ok_lookup)
  qed simp
  then show ?thesis by (auto simp: payload_ok_def payload_def comp_def)
qed

lemma empty_sheet: "prac_sheet p []"
  by (simp add: prac_sheet_def sheet_ok_def)

lemma prac_q_mem:
  assumes "prac_q p s = Some q"
  shows "q \<in> set (bp_questions p)"
proof -
  have ne: "bp_questions p \<noteq> []" "q = bp_questions p ! min (pr_idx s) (length (bp_questions p) - 1)"
    using assms by (auto simp: prac_q_def split: if_splits)
  then have "min (pr_idx s) (length (bp_questions p) - 1) < length (bp_questions p)"
    by (cases "bp_questions p") auto
  with ne(2) show ?thesis by (simp only: nth_mem)
qed

lemma review_offers: "offered (concat (map review_row rs)) = []"
  by (induction rs) (simp_all add: review_row_def)

lemma p_running_offers:
  "set (offered (p_running_view p s)) =
     (if pr_confirm s then (if pr_submitting s then {PKeep} else {PSubmit, PKeep}) else {PAsk}) \<union>
     (case prac_q p s of None \<Rightarrow> {} | Some q \<Rightarrow>
        {PFlag, PNext} \<union> PChoose ` {..<length (bq_options q)} \<union> (if pr_idx s \<noteq> 0 then {PPrev} else {}) \<union>
        (if map_of (pr_answers s) (bq_id q) \<noteq> None then {PClear} else {})) \<union>
     PGoto ` {..<length (bp_questions p)}"
  by (auto simp: p_running_view_def p_question_view_def split: option.splits)

lemma p_brief_offers: "set (offered (p_brief_view p False s)) = {PStart, PRedraw}"
  by (auto simp: p_brief_view_def)

lemma p_result_offers: "set (offered (p_result_view p False r s)) \<subseteq> {PRedraw, PFilter}"
  by (auto simp: p_result_view_def review_offers simp del: offered_concat)

lemma p_view_cases:
  assumes "e \<in> set (offered (prac_view p False s))" "prac_inv time p now s"
  shows "(pr_phase s = PBrief \<and> (e = PStart \<or> e = PRedraw))
    \<or> (pr_phase s = PResult \<and> (e = PRedraw \<or> e = PFilter))
    \<or> (pr_phase s = PRunning \<and> e \<in> set (offered (p_running_view p s)))"
proof (cases "pr_phase s")
  case PBrief
  then show ?thesis using assms by (auto simp: prac_view_def p_brief_offers)
next
  case PRunning
  then show ?thesis using assms by (auto simp: prac_view_def)
next
  case PResult
  then show ?thesis using assms p_result_offers by (fastforce simp: prac_inv_def prac_view_def)
qed

lemma prac_inv_mount: "prac_inv time p now (prac_mount time p now)"
  by (simp add: prac_inv_def prac_mount_def empty_sheet)

lemma prac_inv_finish:
  assumes "prac_inv time p now s" "pr_phase s = PRunning" "prac_sheet p a"
  shows "prac_inv time p now (prac_finish p a s)"
  using assms by (auto simp: prac_inv_def prac_finish_def payload_is_ok)

lemma prac_pending_running:
  assumes "prac_inv time p now s" "n < length (pr_pending s)"
  shows "pr_phase s = PRunning \<and> n = 0 \<and> (\<exists>x. pr_pending s = [x])"
proof (cases "pr_phase s")
  case PRunning
  with assms show ?thesis by (cases "pr_pending s") (auto simp: prac_inv_def)
qed (use assms in \<open>auto simp: prac_inv_def\<close>)

lemma prac_inv_settle:
  assumes "prac_inv time p now s" "n < length (pr_pending s)"
  shows "prac_inv time p now (prac_graded n r s)" "prac_inv time p now (prac_failed n e s)"
  using assms(1) prac_pending_running [OF assms]
  by (auto simp: prac_inv_def prac_graded_def prac_failed_def)

lemma captured_running: "prac_inv time p now s \<Longrightarrow> pr_captured s = Some a \<Longrightarrow> pr_phase s = PRunning \<and> a = []"
  by (cases "pr_phase s") (auto simp: prac_inv_def)

lemma prac_inv_tick:
  assumes "prac_inv time p now s"
  shows "prac_inv time p now (prac_tick p s)"
proof (cases "pr_captured s")
  case None
  with assms show ?thesis by (simp add: prac_tick_def)
next
  case (Some a)
  have a: "pr_phase s = PRunning" "a = []" using captured_running [OF assms Some] by auto
  let ?s = "s\<lparr>pr_captured := None, pr_remaining := 0\<rparr>"
  have "prac_inv time p now ?s" "prac_inv time p now (s\<lparr>pr_remaining := pr_remaining s - 1\<rparr>)"
    using assms a(1) by (auto simp: prac_inv_def)
  moreover have "prac_inv time p now (prac_finish p [] ?s)"
    using calculation(1) a(1) empty_sheet by (intro prac_inv_finish) simp_all
  ultimately show ?thesis by (simp add: prac_tick_def Some a(2) Let_def)
qed

lemma prac_inv_field:
  assumes "prac_inv time p now s"
  shows "prac_inv time p now (s\<lparr>pr_flags := f\<rparr>)" "prac_inv time p now (s\<lparr>pr_confirm := b\<rparr>)"
    "prac_inv time p now (s\<lparr>pr_filter := r\<rparr>)"
    "(bp_questions p \<noteq> [] \<longrightarrow> i < length (bp_questions p)) \<Longrightarrow> prac_inv time p now (s\<lparr>pr_idx := i\<rparr>)"
    "pr_phase s = PRunning \<Longrightarrow> prac_sheet p a \<Longrightarrow> prac_inv time p now (s\<lparr>pr_answers := a\<rparr>)"
  using assms by (simp_all add: prac_inv_def)

lemma prac_inv_next: "prac_inv time p now s \<Longrightarrow> prac_inv time p now (prac_next p s)"
  unfolding prac_next_def by (auto intro!: prac_inv_field) (auto simp: prac_inv_def)

lemma prac_inv_start: "prac_inv time p now s \<Longrightarrow> pr_phase s = PBrief \<Longrightarrow> prac_inv time p now (prac_start s)"
  by (simp add: prac_inv_def prac_start_def empty_sheet)

lemma prac_inv_running_click:
  assumes "prac_inv time p now s" "pr_phase s = PRunning" "e \<in> set (offered (p_running_view p s))"
  shows "prac_inv time p now (prac_step p s e)"
proof -
  have sheet: "prac_sheet p (pr_answers s)" using assms(1) by (simp add: prac_inv_def)
  have up: "prac_sheet p (AList.update (bq_id q) j (pr_answers s))"
    if "prac_q p s = Some q" "j < length (bq_options q)" for q j
    using sheet prac_q_mem [OF that(1)] that(2) unfolding prac_sheet_def by (rule sheet_ok_update)
  have del: "prac_sheet p (AList.delete k (pr_answers s))" for k
    using sheet unfolding prac_sheet_def by (rule sheet_ok_delete)
  have prev: "bp_questions p \<noteq> [] \<longrightarrow> pr_idx s - Suc 0 < length (bp_questions p)"
    using assms(1) by (auto simp: prac_inv_def)
  note facts = prac_inv_field [OF assms(1)] prac_inv_next [OF assms(1)] prac_inv_finish [OF assms(1,2) sheet]
  show ?thesis
  proof (cases e)
    case (PChoose j)
    with assms(3) obtain q where "prac_q p s = Some q" "j < length (bq_options q)"
      by (auto simp: p_running_offers split: option.splits if_splits)
    then show ?thesis using PChoose facts(5) assms(2) up by simp
  qed (use assms(2,3) facts del prev in \<open>auto simp: p_running_offers split: option.splits if_splits\<close>)
qed

lemma prac_inv_step: "prac_inv time p now s \<Longrightarrow> prac_guard p s e \<Longrightarrow> prac_inv time p now (prac_step p s e)"
proof -
  assume inv: "prac_inv time p now s" and g: "prac_guard p s e"
  have click: ?thesis if "e \<in> set (offered (prac_view p False s))"
    using p_view_cases [OF that inv] inv prac_inv_running_click [OF inv]
    by (elim disjE conjE) (simp_all add: prac_inv_start prac_inv_field)
  show ?thesis
    using inv g click
    by (cases e) (simp_all add: prac_inv_tick prac_inv_settle)
qed

interpretation practice: bounded_machine "\<lambda>s. s = prac_mount time p now" "prac_guard p" "prac_step p"
    "prac_inv time p now" "\<lambda>s. length (pr_pending s)" 1
  for time p now
proof unfold_locales
  show "s = prac_mount time p now \<Longrightarrow> prac_inv time p now s" for s using prac_inv_mount by simp
  show "prac_inv time p now s \<Longrightarrow> length (pr_pending s) \<le> 1" for s
    by (cases "pr_phase s") (auto simp: prac_inv_def)
qed (fact prac_inv_step)

abbreviation prac_reach :: "(jsstring \<Rightarrow> int option) \<Rightarrow> bank_paper \<Rightarrow> int \<Rightarrow> practice \<Rightarrow> bool" where
  "prac_reach time p now \<equiv> reach (\<lambda>s. s = prac_mount time p now) (prac_guard p) (prac_step p)"


section \<open>Properties\<close>

lemma prac_finish_sent: "pr_sent (prac_finish p a s) =
    (if pr_submittedRef s then pr_sent s else pr_sent s @ [payload p a])"
  by (simp add: prac_finish_def)

lemma prac_tick_sent: "pr_sent (prac_tick p s) \<noteq> pr_sent s \<Longrightarrow>
    \<not> isUntimed p \<and> \<not> pr_submittedRef s \<and> (\<exists>a. pr_captured s = Some a \<and> pr_sent (prac_tick p s) = pr_sent s @ [payload p a])"
  by (auto simp: prac_tick_def prac_finish_sent Let_def split: option.splits if_splits)

lemma prac_step_sent:
  "pr_sent (prac_step p s e) \<noteq> pr_sent s \<Longrightarrow> \<not> pr_submittedRef s \<and>
     (e = PSubmit \<and> pr_sent (prac_step p s e) = pr_sent s @ [payload p (pr_answers s)] \<or> e = PTick)"
  using prac_tick_sent [of p s]
  by (cases e) (auto simp: prac_start_def prac_next_def prac_finish_sent prac_graded_def prac_failed_def
      split: option.splits if_splits)

text \<open>
  C18. Every sheet that reaches the grader lists the drawn questions exactly once and in
  order, each with one of its own options or nothing; at most one sheet is in flight, and
  none is sent once a result has been shown.
\<close>

theorem practice_sheets_complete:
  assumes "prac_reach time p now s" "prac_guard p s e"
  shows "list_all (payload_ok p) (pr_sent (prac_step p s e)) \<and> length (pr_pending (prac_step p s e)) \<le> 1
    \<and> (pr_sent (prac_step p s e) \<noteq> pr_sent s \<longrightarrow> pr_phase s = PRunning \<and> pr_pending s = [] \<and> pr_result s = None)"
proof -
  have inv: "prac_inv time p now s" using practice.reach_inv [OF assms(1)] .
  have next_reach: "prac_reach time p now (prac_step p s e)" using assms by (rule reach_step)
  have "pr_phase s = PRunning \<and> pr_pending s = [] \<and> pr_result s = None"
    if sent: "pr_sent (prac_step p s e) \<noteq> pr_sent s"
  proof -
    have e: "\<not> pr_submittedRef s" "e = PSubmit \<or> e = PTick" using prac_step_sent [OF sent] by auto
    have "pr_phase s = PRunning"
    proof (cases "e = PTick")
      case True
      with assms(2) captured_running [OF inv] show ?thesis by auto
    next
      case False
      with e(2) assms(2) show ?thesis using p_view_cases [of PSubmit p s, OF _ inv] by auto
    qed
    with e(1) inv show ?thesis by (simp add: prac_inv_def)
  qed
  then show ?thesis
    using practice.reach_inv [OF next_reach] practice.reach_load [OF next_reach] by (auto simp: prac_inv_def)
qed

text \<open>
  Submitting by hand sends the answers on the page.
\<close>

theorem practice_manual_submit:
  assumes "prac_reach time p now s" "prac_guard p s PSubmit" "pr_pending s = []"
  shows "pr_sent (prac_step p s PSubmit) = pr_sent s @ [payload p (pr_answers s)]"
proof -
  have inv: "prac_inv time p now s" using practice.reach_inv [OF assms(1)] .
  then have "pr_phase s = PRunning" using p_view_cases [of PSubmit p s, OF _ inv] assms(2) by auto
  with inv assms(3) have "\<not> pr_submittedRef s" by (simp add: prac_inv_def)
  then show ?thesis by (simp add: prac_finish_sent)
qed

text \<open>
  When the clock of a timed sitting runs out, the paper submits itself with no answer at
  all, whatever the student has chosen: the interval calls the \<open>finish\<close> of the render in
  which the paper was started.
\<close>

theorem practice_timeout_submits_nothing:
  assumes "prac_reach time p now s" "pr_sent (prac_step p s PTick) \<noteq> pr_sent s"
  shows "pr_sent (prac_step p s PTick) = pr_sent s @ [map (\<lambda>x. (bq_id x, None)) (bp_questions p)]"
proof -
  have inv: "prac_inv time p now s" using practice.reach_inv [OF assms(1)] .
  obtain a where "pr_captured s = Some a" "pr_sent (prac_step p s PTick) = pr_sent s @ [payload p a]"
    using prac_tick_sent [of p s] assms(2) by auto
  with captured_running [OF inv] show ?thesis by (simp add: payload_def)
qed

text \<open>
  An untimed sitting is never submitted by the clock, and the clock stops at zero.
\<close>

theorem practice_untimed_never_submits:
  assumes "isUntimed p"
  shows "pr_sent (prac_step p s PTick) = pr_sent s
    \<and> (pr_captured s \<noteq> None \<and> pr_remaining s \<le> 1 \<longrightarrow>
        pr_remaining (prac_step p s PTick) = 0 \<and> \<not> prac_guard p (prac_step p s PTick) PTick)"
  using assms by (auto simp: prac_tick_def Let_def split: option.splits)

text \<open>
  The clock of a timed sitting counts from the moment the page was opened, not to the
  server's deadline: time spent on the briefing is not taken off, so the student starts
  with more time on the clock than the server will allow.
\<close>

theorem practice_clock_ignores_briefing:
  assumes "prac_reach time p opened s" "pr_phase s = PBrief" "\<not> isUntimed p"
    and "time (bp_deadline p) = Some deadline" "opened + 1000 \<le> begun" "begun < deadline"
  shows "pr_remaining (prac_step p s PStart) = secondsToDeadline time (bp_deadline p) opened
    \<and> secondsToDeadline time (bp_deadline p) begun < pr_remaining (prac_step p s PStart)"
proof -
  have "pr_remaining s = secondsToDeadline time (bp_deadline p) opened"
    using practice.reach_inv [OF assms(1)] assms(2,3) by (simp add: prac_inv_def prac_mount_def)
  moreover have "(deadline - begun) div 1000 < (deadline - opened) div 1000" using assms(5) by linarith
  ultimately show ?thesis using assms(4-6) by (simp add: prac_start_def secondsToDeadline_def Let_def)
qed

section \<open>A sitting\<close>

definition drawn_paper :: "int \<Rightarrow> bank_paper" where
  "drawn_paper minutes = \<lparr>bp_subject = ''Physics'', bp_duration_minutes = minutes, bp_count = 2,
     bp_questions = [\<lparr>bq_id = ''b1'', bq_topic = ''Waves'', bq_difficulty = 1, bq_text = ''one'', bq_options = [''a'', ''b'']\<rparr>,
       \<lparr>bq_id = ''b2'', bq_topic = ''Heat'', bq_difficulty = 2, bq_text = ''two'', bq_options = [''a'', ''b'']\<rparr>],
     bp_attempt_token = ''tok'', bp_deadline = ''2026-01-01T10:00:00Z''\<rparr>"

definition ten :: "jsstring \<Rightarrow> int option" where "ten d = Some 3000"

lemmas prac_run_simps = prac_mount_def prac_view_def prac_q_def prac_start_def prac_tick_def prac_finish_def
  isUntimed_def secondsToDeadline_def drawn_paper_def ten_def payload_def p_brief_offers p_running_offers

definition chosen :: practice where
  "chosen = (prac_mount ten (drawn_paper 10) 1000)\<lparr>pr_phase := PRunning, pr_captured := Some [], pr_answers := [(''b1'', 1)],
     pr_remaining := 1\<rparr>"

lemma prac_run_reach: "allowed (prac_guard p) (prac_step p) (prac_mount time p now) es \<Longrightarrow>
    prac_reach time p now (run (prac_step p) (prac_mount time p now) es)"
  by (rule run_reachable) (rule refl)

lemma chosen_reach: "prac_reach ten (drawn_paper 10) 1000 chosen"
proof -
  let ?es = "[PStart, PTick, PChoose 1]"
  have "allowed (prac_guard (drawn_paper 10)) (prac_step (drawn_paper 10)) (prac_mount ten (drawn_paper 10) 1000) ?es"
    and "run (prac_step (drawn_paper 10)) (prac_mount ten (drawn_paper 10) 1000) ?es = chosen"
    by (simp_all add: prac_run_simps chosen_def)
  then show ?thesis using prac_run_reach by metis
qed

lemma practice_timeout_submits_nothing_witness:
  "pr_sent (prac_step (drawn_paper 10) chosen PTick) = [[(''b1'', None), (''b2'', None)]] \<and> pr_answers chosen = [(''b1'', 1)]"
proof -
  have "pr_sent (prac_step (drawn_paper 10) chosen PTick) \<noteq> pr_sent chosen"
    by (simp add: chosen_def prac_run_simps)
  from practice_timeout_submits_nothing [OF chosen_reach this]
  show ?thesis by (simp add: chosen_def prac_mount_def drawn_paper_def)
qed

lemma practice_sheets_complete_witness:
  "list_all (payload_ok (drawn_paper 10)) (pr_sent (prac_step (drawn_paper 10) chosen PTick))"
  by (rule practice_sheets_complete [OF chosen_reach, THEN conjunct1]) (simp add: chosen_def)

lemma practice_manual_submit_witness:
  "\<exists>s. prac_reach ten (drawn_paper 10) 1000 s \<and>
     pr_sent (prac_step (drawn_paper 10) s PSubmit) = [[(''b1'', Some 1), (''b2'', None)]]"
proof -
  let ?s = "chosen\<lparr>pr_confirm := True\<rparr>"
  have "prac_guard (drawn_paper 10) chosen PAsk" by (simp add: chosen_def prac_run_simps)
  then have r: "prac_reach ten (drawn_paper 10) 1000 ?s" using reach_step [OF chosen_reach, of PAsk] by simp
  have "prac_guard (drawn_paper 10) ?s PSubmit" "pr_pending ?s = []"
    by (simp_all add: chosen_def prac_run_simps)
  from practice_manual_submit [OF r this] r show ?thesis
    by (intro exI [of _ ?s]) (simp add: chosen_def prac_mount_def drawn_paper_def payload_def)
qed

lemma practice_untimed_never_submits_witness:
  "pr_sent (prac_step (drawn_paper 0) chosen PTick) = []"
  by (subst practice_untimed_never_submits [THEN conjunct1]) (simp_all add: prac_run_simps chosen_def)

lemma practice_clock_ignores_briefing_witness:
  "pr_remaining (prac_step (drawn_paper 10) (prac_mount ten (drawn_paper 10) 1000) PStart) = 2
   \<and> secondsToDeadline ten (bp_deadline (drawn_paper 10)) 2500 < 2"
proof -
  have "prac_reach ten (drawn_paper 10) 1000 (prac_mount ten (drawn_paper 10) 1000)" by (rule reach_init) simp
  from practice_clock_ignores_briefing [OF this, of 3000 2500] show ?thesis
    by (simp add: prac_run_simps)
qed

end
