(* ===== verification/MobileExam.thy ===== *)
theory MobileExam
  imports Machine Http CbtCommon
begin

text \<open>
  The exam screen of the phone, \<open>mobile/app/practice/[examId].tsx\<close>: load the paper, start an
  attempt, answer against the clock, submit by hand or on expiry, show the marked paper. A
  state is the hooks and refs of the screen with the calls in flight; an event is a tap, a
  tick of the clock, the effect on expiry or the settling of a call. Times are milliseconds.
\<close>

section \<open>State and handlers\<close>

record m_question =
  mq_id :: jsstring
  mq_text :: jsstring
  mq_options :: "jsstring list"

record m_paper =
  mpp_title :: jsstring
  mpp_duration :: int
  mpp_questions :: "m_question list"

record m_reviewed =
  rq_id :: jsstring
  rq_position :: nat
  rq_text :: jsstring
  rq_options :: "jsstring list"
  rq_chosen :: "nat option"
  rq_correct :: nat
  rq_explanation :: jsstring

record m_review =
  rv_score :: int
  rv_passed :: bool
  rv_correct :: nat
  rv_total :: nat
  rv_passing :: int
  rv_expired :: bool
  rv_questions :: "m_reviewed list"

datatype m_load = LoadingPaper | StartingAttempt
datatype m_submit = Submitting jsstring answer_sheet | Reviewing bool \<comment> \<open>with \<open>expired\<close> of the answer\<close>

record mobile_exam =
  mx_paper :: "m_paper option"
  mx_attempt :: "jsstring option"
  mx_expires :: "int option"
  mx_index :: nat
  mx_answers :: answer_sheet
  mx_review :: "m_review option"
  mx_submitting :: bool
  mx_error :: "jsstring option"
  mx_submittedRef :: bool
  mx_now :: int
  mx_loads :: "m_load list"
  mx_calls :: "m_submit list"
  mx_sent :: "(jsstring \<times> answer_sheet) list"

definition mobile_exam0 :: "int \<Rightarrow> mobile_exam" where
  "mobile_exam0 now = \<lparr>mx_paper = None, mx_attempt = None, mx_expires = None, mx_index = 0, mx_answers = [],
     mx_review = None, mx_submitting = False, mx_error = None, mx_submittedRef = False, mx_now = now,
     mx_loads = [], mx_calls = [], mx_sent = []\<rparr>"

definition fmtClock :: "int \<Rightarrow> jsstring" where
  "fmtClock ms = (let total = nat (max 0 (ms div 1000)) in
     pad_start 2 (CHR ''0'') (show_nat (total div 60)) @ '':'' @ pad_start 2 (CHR ''0'') (show_nat (total mod 60)))"

definition remaining :: "mobile_exam \<Rightarrow> int" where
  "remaining s = (case mx_expires s of Some t \<Rightarrow> if t = 0 then 0 else t - mx_now s | None \<Rightarrow> 0)"

definition expired :: "mobile_exam \<Rightarrow> bool" where
  "expired s = (mx_expires s \<noteq> None \<and> remaining s \<le> 0)"

definition m_load :: "mobile_exam \<Rightarrow> mobile_exam" where
  "m_load s = s\<lparr>mx_loads := mx_loads s @ [LoadingPaper]\<rparr>"

definition load_fail :: "m_load \<Rightarrow> js_exn \<Rightarrow> mobile_exam \<Rightarrow> mobile_exam" where
  "load_fail l e s = s\<lparr>mx_loads := remove1 l (mx_loads s),
     mx_error := Some (if instanceof_Error e then ex_message e else ''Could not start this exam'')\<rparr>"

definition m_submit :: "mobile_exam \<Rightarrow> mobile_exam" where
  "m_submit s =
     (case mx_attempt s of
        None \<Rightarrow> s
      | Some a \<Rightarrow> if a = [] \<or> mx_submittedRef s \<or> mx_submitting s then s
          else s\<lparr>mx_submittedRef := True, mx_submitting := True, mx_calls := mx_calls s @ [Submitting a (mx_answers s)],
                 mx_sent := mx_sent s @ [(a, mx_answers s)]\<rparr>)"

definition m_submit_fail :: "m_submit \<Rightarrow> js_exn \<Rightarrow> mobile_exam \<Rightarrow> mobile_exam" where
  "m_submit_fail c e s = s\<lparr>mx_calls := remove1 c (mx_calls s), mx_submittedRef := False, mx_submitting := False,
     mx_error := Some (if instanceof_Error e then ex_message e else ''Could not submit your answers'')\<rparr>"

definition m_questions :: "mobile_exam \<Rightarrow> m_question list" where
  "m_questions s = (case mx_paper s of Some p \<Rightarrow> mpp_questions p | None \<Rightarrow> [])"

definition m_current :: "mobile_exam \<Rightarrow> m_question option" where
  "m_current s = (if mx_index s < length (m_questions s) then Some (m_questions s ! mx_index s) else None)"

definition unanswered :: "mobile_exam \<Rightarrow> nat" where
  "unanswered s = length (filter (\<lambda>q. map_of (mx_answers s) (mq_id q) = None) (m_questions s))"

definition selectOption :: "nat \<Rightarrow> mobile_exam \<Rightarrow> mobile_exam" where
  "selectOption j s =
     (case m_current s of
        None \<Rightarrow> s
      | Some q \<Rightarrow> if mx_submitting s \<or> mx_review s \<noteq> None then s
          else s\<lparr>mx_answers := AList.update (mq_id q) j (mx_answers s)\<rparr>)"

section \<open>The screen\<close>

datatype phone_event =
    Focus | Retry
  | PaperOk m_paper | AttemptOk jsstring int | LoadFail m_load js_exn
  | ClockTick int
  | Select nat | Goto nat | Previous | Next
  | SubmitNow \<comment> \<open>the second button of the question that the last one asks\<close>
  | Expiry
  | SubmitOk jsstring answer_sheet bool | ReviewOk bool m_review | SubmitFail m_submit js_exn
  | BackToPractice

datatype screen = Loader | LoadError jsstring | Result m_review | Player m_paper

definition screen_of :: "mobile_exam \<Rightarrow> screen" where
  "screen_of s =
     (case mx_paper s of
        None \<Rightarrow> (case mx_error s of Some e \<Rightarrow> LoadError e | None \<Rightarrow> Loader)
      | Some p \<Rightarrow> (case mx_review s of Some r \<Rightarrow> Result r | None \<Rightarrow> Player p))"

text \<open>The question that is asked before submitting.\<close>

definition confirm_text :: "mobile_exam \<Rightarrow> jsstring \<times> jsstring" where
  "confirm_text s =
     (if unanswered s > 0
      then (if unanswered s = 1 then ''1 question unanswered'' else show_nat (unanswered s) @ '' questions unanswered'',
            ''Unanswered questions score zero. Submit anyway?'')
      else (''Submit exam?'', ''Your answers will be marked immediately.''))"

definition middot :: jsstring where "middot = [CHR '' '', CHR 0xC2, CHR 0xB7, CHR '' '']"

definition review_rows :: "m_review \<Rightarrow> phone_event widget list" where
  "review_rows r = concat (map (\<lambda>q. Txt (''Q'' @ show_nat (rq_position q) @ middot @ (if rq_chosen q = Some (rq_correct q) then ''Correct'' else ''Wrong'')) # Txt (rq_text q) #
       map (\<lambda>j. Txt ((LETTERS ! j) @ ''. '' @ (rq_options q ! j))) [0..<min 6 (length (rq_options q))] @
       (if rq_explanation q = [] then [] else [Txt (rq_explanation q)])) (rv_questions r))"

definition phone_view :: "mobile_exam \<Rightarrow> phone_event widget list" where
  "phone_view s =
     (case screen_of s of
        Loader \<Rightarrow> [Txt ''Preparing your exam'']
      | LoadError e \<Rightarrow> [Txt e, Btn ''Try again'' True Retry]
      | Result r \<Rightarrow> [Txt (show_int (rv_score r) @ ''%''),
          Txt (if rv_passed r then ''Well done '' @ em_dash @ '' you passed!'' else ''Not this time''),
          Txt (show_nat (rv_correct r) @ '' of '' @ show_nat (rv_total r) @ '' correct'' @ middot @ ''pass mark '' @ show_int (rv_passing r) @ ''%'' @
            (if rv_expired r then middot @ ''time ran out '' @ em_dash @ '' submitted automatically'' else []))] @
          review_rows r @ [Btn ''Back to practice'' True BackToPractice]
      | Player p \<Rightarrow>
          [Txt (''QUESTION '' @ show_nat (mx_index s + 1) @ '' OF '' @ show_nat (length (mpp_questions p))), Txt (fmtClock (remaining s))] @
          (case m_current s of None \<Rightarrow> [] | Some q \<Rightarrow> Txt (mq_text q) #
             map (\<lambda>j. Btn (mq_options q ! j) True (Select j)) [0..<length (mq_options q)]) @
          map (\<lambda>i. Btn (show_nat (i + 1)) True (Goto i)) [0..<length (mpp_questions p)] @
          [Btn ''Previous'' (mx_index s \<noteq> 0) Previous] @
          (if mx_index s + 1 < length (mpp_questions p) then [Btn ''Next'' True Next]
           else [Btn (if mx_submitting s then ''Submitting'' @ ellipsis else ''Submit exam'') (\<not> mx_submitting s) SubmitNow]))"

text \<open>The server gives the same paper \<open>pp\<close> whenever it is asked.\<close>

fun phone_guard :: "m_paper \<Rightarrow> mobile_exam \<Rightarrow> phone_event \<Rightarrow> bool" where
  "phone_guard pp s Focus = True"
| "phone_guard pp s (PaperOk p) = (LoadingPaper \<in> set (mx_loads s) \<and> p = pp)"
| "phone_guard pp s (AttemptOk a t) = (StartingAttempt \<in> set (mx_loads s))"
| "phone_guard pp s (LoadFail l e) = (l \<in> set (mx_loads s))"
| "phone_guard pp s (ClockTick t) = (mx_expires s \<noteq> None \<and> mx_expires s \<noteq> Some 0 \<and> mx_now s \<le> t)"
| "phone_guard pp s Expiry = (expired s \<and> mx_attempt s \<noteq> None \<and> mx_attempt s \<noteq> Some [] \<and> \<not> mx_submittedRef s)"
| "phone_guard pp s (SubmitOk a sheet x) = (Submitting a sheet \<in> set (mx_calls s))"
| "phone_guard pp s (ReviewOk x r) = (Reviewing x \<in> set (mx_calls s))"
| "phone_guard pp s (SubmitFail c e) = (c \<in> set (mx_calls s))"
| "phone_guard pp s e = (e \<in> set (offered (phone_view s)))"

fun phone_step :: "mobile_exam \<Rightarrow> phone_event \<Rightarrow> mobile_exam" where
  "phone_step s Focus = (if mx_paper s = None \<and> mx_error s = None then m_load s else s)"
| "phone_step s Retry = m_load (s\<lparr>mx_error := None\<rparr>)"
| "phone_step s (PaperOk p) = s\<lparr>mx_paper := Some p, mx_loads := remove1 LoadingPaper (mx_loads s) @ [StartingAttempt]\<rparr>"
| "phone_step s (AttemptOk a t) = s\<lparr>mx_attempt := Some a, mx_expires := Some t, mx_loads := remove1 StartingAttempt (mx_loads s)\<rparr>"
| "phone_step s (LoadFail l e) = load_fail l e s"
| "phone_step s (ClockTick t) = s\<lparr>mx_now := t\<rparr>"
| "phone_step s (Select j) = selectOption j s"
| "phone_step s (Goto i) = s\<lparr>mx_index := i\<rparr>"
| "phone_step s Previous = s\<lparr>mx_index := mx_index s - 1\<rparr>"
| "phone_step s Next = s\<lparr>mx_index := min (length (m_questions s) - 1) (mx_index s + 1)\<rparr>"
| "phone_step s SubmitNow = m_submit s"
| "phone_step s Expiry = m_submit s"
| "phone_step s (SubmitOk a sheet x) = s\<lparr>mx_calls := remove1 (Submitting a sheet) (mx_calls s) @ [Reviewing x]\<rparr>"
| "phone_step s (ReviewOk x r) = s\<lparr>mx_calls := remove1 (Reviewing x) (mx_calls s), mx_review := Some (r\<lparr>rv_expired := x\<rparr>), mx_submitting := False\<rparr>"
| "phone_step s (SubmitFail c e) = m_submit_fail c e s"
| "phone_step s BackToPractice = s"


section \<open>The invariant\<close>

abbreviation fits :: "m_paper \<Rightarrow> answer_sheet \<Rightarrow> bool" where
  "fits pp \<equiv> sheet_ok mq_id mq_options (mpp_questions pp)"

definition phone_inv :: "m_paper \<Rightarrow> mobile_exam \<Rightarrow> bool" where
  "phone_inv pp s =
     (pred_option (\<lambda>p. p = pp) (mx_paper s) \<and> fits pp (mx_answers s) \<and> list_all (\<lambda>(a, sheet). fits pp sheet) (mx_sent s) \<and>
      length (mx_calls s) = (if mx_submitting s then 1 else 0) \<and>
      mx_submittedRef s = (mx_submitting s \<or> mx_review s \<noteq> None) \<and> \<not> (mx_submitting s \<and> mx_review s \<noteq> None) \<and>
      (mx_index s = 0 \<or> mx_index s < length (m_questions s)))"

lemma offered_reviewed [simp]: "offered (review_rows r) = []"
proof -
  have "offered (if b then [] else [Txt x]) = []" for b x by simp
  then show ?thesis by (simp add: review_rows_def o_def)
qed

lemma m_submit_inv: "phone_inv pp s \<Longrightarrow> phone_inv pp (m_submit s)"
  by (auto simp: phone_inv_def m_submit_def m_questions_def split: option.splits)

lemma select_inv:
  assumes "phone_inv pp s" "phone_guard pp s (Select j)"
  shows "phone_inv pp (selectOption j s)"
proof (cases "m_current s")
  case None
  then show ?thesis using assms(1) by (simp add: selectOption_def)
next
  case (Some q)
  obtain p where p: "mx_paper s = Some p" "mx_review s = None"
    using assms(2) by (cases "mx_paper s"; cases "mx_review s"; cases "mx_error s")
      (auto simp: phone_view_def screen_of_def)
  then have pp: "p = pp" "mx_paper s = Some pp" using assms(1) by (simp_all add: phone_inv_def)
  have j: "j < length (mq_options q)"
    using assms(2) Some p by (auto simp: phone_view_def screen_of_def split: if_splits)
  have "q \<in> set (mpp_questions pp)" using Some pp by (auto simp: m_current_def m_questions_def split: if_splits)
  with j assms(1) have "fits pp (AList.update (mq_id q) j (mx_answers s))"
    by (intro sheet_ok_update) (simp_all add: phone_inv_def)
  then show ?thesis using assms(1) Some by (simp add: selectOption_def phone_inv_def m_questions_def)
qed

lemma goto_range: "phone_guard pp s (Goto i) \<Longrightarrow> i < length (m_questions s)"
  by (cases "mx_paper s"; cases "mx_review s"; cases "mx_error s"; cases "m_current s")
    (auto simp: phone_view_def screen_of_def m_questions_def split: if_splits)

lemma m_questions_frame [simp]:
  "m_questions (s\<lparr>mx_index := i\<rparr>) = m_questions s" "m_questions (s\<lparr>mx_error := e\<rparr>) = m_questions s"
  "m_questions (s\<lparr>mx_loads := l\<rparr>) = m_questions s" "m_questions (s\<lparr>mx_now := t\<rparr>) = m_questions s"
  "m_questions (s\<lparr>mx_calls := c\<rparr>) = m_questions s" "m_questions (s\<lparr>mx_attempt := a\<rparr>) = m_questions s"
  "m_questions (s\<lparr>mx_expires := x\<rparr>) = m_questions s" "m_questions (s\<lparr>mx_submittedRef := b\<rparr>) = m_questions s"
  "m_questions (s\<lparr>mx_submitting := b\<rparr>) = m_questions s" "m_questions (s\<lparr>mx_review := r\<rparr>) = m_questions s"
  by (simp_all add: m_questions_def)

lemma calls_single: "phone_inv pp s \<Longrightarrow> c \<in> set (mx_calls s) \<Longrightarrow> mx_calls s = [c] \<and> mx_submitting s"
  by (cases "mx_calls s") (auto simp: phone_inv_def split: if_splits)

lemma phone_inv_step:
  assumes "phone_inv pp s" "phone_guard pp s e"
  shows "phone_inv pp (phone_step s e)"
proof (cases e)
  case (Select j)
  then show ?thesis using assms select_inv by simp
next
  case (Goto i)
  then show ?thesis using assms goto_range [of pp s i] by (simp add: phone_inv_def)
next
  case (PaperOk p)
  then show ?thesis using assms by (cases "mx_paper s") (auto simp: phone_inv_def m_questions_def)
next
  case Next
  then show ?thesis using assms(1) by (auto simp: phone_inv_def)
next
  case Previous
  then show ?thesis using assms(1) by (auto simp: phone_inv_def)
next
  case SubmitNow
  then show ?thesis using assms(1) m_submit_inv by simp
next
  case Expiry
  then show ?thesis using assms(1) m_submit_inv by simp
next
  case (SubmitOk a sheet x)
  then show ?thesis using assms calls_single [OF assms(1), of "Submitting a sheet"] by (simp add: phone_inv_def)
next
  case (ReviewOk x r)
  then show ?thesis using assms calls_single [OF assms(1), of "Reviewing x"] by (simp add: phone_inv_def)
next
  case (SubmitFail c x)
  then show ?thesis using assms calls_single [OF assms(1), of c] by (simp add: phone_inv_def m_submit_fail_def)
qed (use assms in \<open>simp_all add: phone_inv_def m_load_def load_fail_def\<close>)

interpretation sitting: bounded_machine "\<lambda>s. \<exists>now. s = mobile_exam0 now" "phone_guard pp" phone_step "phone_inv pp"
  "\<lambda>s. length (mx_calls s)" 1 for pp
proof unfold_locales
  fix s assume "\<exists>now. s = mobile_exam0 now"
  then show "phone_inv pp s" by (auto simp: phone_inv_def mobile_exam0_def sheet_ok_def)
next
  fix s e assume "phone_inv pp s" "phone_guard pp s e"
  then show "phone_inv pp (phone_step s e)" by (rule phone_inv_step)
next
  fix s assume "phone_inv pp s"
  then show "length (mx_calls s) \<le> 1" by (simp add: phone_inv_def)
qed

abbreviation phone_reach :: "m_paper \<Rightarrow> mobile_exam \<Rightarrow> bool" where
  "phone_reach pp \<equiv> reach (\<lambda>s. \<exists>now. s = mobile_exam0 now) (phone_guard pp) phone_step"

text \<open>
  C29. On the phone at most one submission is under way, by hand or by the clock; every sheet that
  is sent answers only questions of the paper with options that they have; and once the
  marked paper is there nothing more can be sent.
\<close>

theorem phone_sitting_safe:
  assumes "phone_reach pp s"
  shows "length (mx_calls s) \<le> 1 \<and>
    list_all (\<lambda>(a, sheet). list_all (\<lambda>(i, v). list_ex (\<lambda>q. mq_id q = i \<and> v < length (mq_options q)) (mpp_questions pp)) sheet) (mx_sent s) \<and>
    (if mx_review s \<noteq> None then mx_calls s = [] \<and> m_submit s = s else True)"
proof -
  have inv: "phone_inv pp s" by (rule sitting.reach_inv [OF assms])
  then have "mx_calls s = [] \<and> m_submit s = s" if "mx_review s \<noteq> None"
    using that by (auto simp: phone_inv_def m_submit_def split: option.splits)
  with inv show ?thesis using sitting.reach_load [OF assms]
    by (simp add: phone_inv_def sheet_ok_def)
qed


section \<open>Losses\<close>

definition no_attempt :: "mobile_exam \<Rightarrow> bool" where
  "no_attempt s = (mx_paper s \<noteq> None \<and> mx_attempt s = None \<and> mx_expires s = None \<and> mx_loads s = [] \<and> mx_calls s = [] \<and>
     mx_review s = None \<and> mx_sent s = [])"

lemma no_attempt_step: "no_attempt s \<Longrightarrow> phone_guard pp s e \<Longrightarrow> no_attempt (phone_step s e)"
  by (cases e; cases "mx_paper s"; cases "m_current s")
    (auto simp: no_attempt_def m_submit_def selectOption_def phone_view_def screen_of_def split: if_splits)

lemma no_attempt_run: "no_attempt s \<Longrightarrow> allowed (phone_guard pp) phone_step s evs \<Longrightarrow> no_attempt (run phone_step s evs)"
  by (induction evs arbitrary: s) (auto simp: no_attempt_step)

lemma no_attempt_shows: "no_attempt s \<Longrightarrow> mx_sent s = [] \<and> (case screen_of s of Player p \<Rightarrow> True | _ \<Rightarrow> False)"
  by (auto simp: no_attempt_def screen_of_def)

lemma expired_iff: "expired s \<longleftrightarrow> (\<exists>t. mx_expires s = Some t \<and> (t = 0 \<or> t \<le> mx_now s))"
  by (auto simp: expired_def remaining_def split: if_splits)

text \<open>
  When the paper arrives but the attempt cannot be started, the screen shows the player all
  the same: the candidate can answer and press submit as often as she likes, nothing is ever
  sent, no error is shown, and no tap starts the attempt again.
\<close>

theorem unstarted_exam_swallows_answers:
  assumes "allowed (phone_guard pp) phone_step (run phone_step (mobile_exam0 now) [Focus, PaperOk pp, LoadFail StartingAttempt e]) evs"
  shows "mx_sent (run phone_step (run phone_step (mobile_exam0 now) [Focus, PaperOk pp, LoadFail StartingAttempt e]) evs) = [] \<and>
    (case screen_of (run phone_step (run phone_step (mobile_exam0 now) [Focus, PaperOk pp, LoadFail StartingAttempt e]) evs) of
       Player p \<Rightarrow> True | _ \<Rightarrow> False)"
proof -
  let ?s = "run phone_step (mobile_exam0 now) [Focus, PaperOk pp, LoadFail StartingAttempt e]"
  have "no_attempt ?s" by (simp add: no_attempt_def mobile_exam0_def m_load_def load_fail_def)
  then have "no_attempt (run phone_step ?s evs)" using assms by (rule no_attempt_run)
  then show ?thesis by (rule no_attempt_shows)
qed

text \<open>
  A submission on expiry that fails is sent again at once, and again after every failure, as
  long as the network is down: nothing waits between the attempts.
\<close>

lemma expiry_loop:
  fixes s a e
  assumes "expired s" "mx_attempt s = Some a" "a \<noteq> []" "\<not> mx_submittedRef s" "\<not> mx_submitting s"
  defines "round \<equiv> [Expiry, SubmitFail (Submitting a (mx_answers s)) e]"
  shows "allowed (phone_guard pp) phone_step s (concat (replicate n round)) \<and>
    length (mx_sent (run phone_step s (concat (replicate n round)))) = length (mx_sent s) + n"
  using assms(1-5) unfolding round_def
proof (induction n arbitrary: s)
  case (Suc n)
  let ?r = "[Expiry, SubmitFail (Submitting a (mx_answers s)) e]"
  let ?t = "run phone_step s ?r"
  have sub: "m_submit s = s\<lparr>mx_submittedRef := True, mx_submitting := True, mx_calls := mx_calls s @ [Submitting a (mx_answers s)],
      mx_sent := mx_sent s @ [(a, mx_answers s)]\<rparr>"
    using Suc.prems by (simp add: m_submit_def)
  have t: "expired ?t" "mx_attempt ?t = Some a" "\<not> mx_submittedRef ?t" "\<not> mx_submitting ?t"
      "mx_answers ?t = mx_answers s" "length (mx_sent ?t) = Suc (length (mx_sent s))"
    using Suc.prems by (simp_all add: sub m_submit_fail_def expired_iff)
  have g: "allowed (phone_guard pp) phone_step s ?r" using Suc.prems by (simp add: sub)
  have app: "allowed G f x (as @ bs) \<longleftrightarrow> allowed G f x as \<and> allowed G f (run f x as) bs" for G f x as bs
    by (induction as arbitrary: x) auto
  have c: "concat (replicate (Suc n) ?r) = ?r @ concat (replicate n ?r)" by simp
  have ih: "allowed (phone_guard pp) phone_step ?t (concat (replicate n ?r)) \<and>
      length (mx_sent (run phone_step ?t (concat (replicate n ?r)))) = length (mx_sent ?t) + n"
    using Suc.IH [of ?t] t Suc.prems(3) by simp
  show ?case unfolding c app run_append using g ih t(6) by simp
qed simp

theorem expired_failure_storms:
  assumes "expired s" "mx_attempt s = Some a" "a \<noteq> []" "\<not> mx_submittedRef s" "\<not> mx_submitting s"
  shows "\<exists>evs. length evs = 2 * n \<and> allowed (phone_guard pp) phone_step s evs \<and> list_all (\<lambda>e. case e of ClockTick t \<Rightarrow> False | _ \<Rightarrow> True) evs \<and>
    length (mx_sent (run phone_step s evs)) = length (mx_sent s) + n"
proof -
  let ?r = "[Expiry, SubmitFail (Submitting a (mx_answers s)) null_deref]"
  have "length (concat (replicate n ?r)) = 2 * n" by (induction n) simp_all
  moreover have "list_all (\<lambda>e. case e of ClockTick t \<Rightarrow> False | _ \<Rightarrow> True) (concat (replicate n ?r))"
    by (induction n) simp_all
  ultimately show ?thesis using expiry_loop [OF assms] by blast
qed

text \<open>
  A submission that the server accepted counts as failed when the marked paper does not
  arrive: the screen sends the same sheet again and shows no error.
\<close>

theorem lost_review_resends:
  fixes s a x e
  assumes "mx_attempt s = Some a" "a \<noteq> []" "\<not> mx_submittedRef s" "\<not> mx_submitting s" "mx_review s = None"
    and "mx_paper s = Some p" "expired s"
  defines "evs \<equiv> [Expiry, SubmitOk a (mx_answers s) x, SubmitFail (Reviewing x) e, Expiry]"
  shows "allowed (phone_guard pp) phone_step s evs \<and>
    mx_sent (run phone_step s evs) = mx_sent s @ [(a, mx_answers s), (a, mx_answers s)] \<and>
    (case mx_error (run phone_step s evs) of Some m \<Rightarrow> screen_of (run phone_step s evs) = Player p | None \<Rightarrow> False)"
proof -
  have sub: "m_submit s = s\<lparr>mx_submittedRef := True, mx_submitting := True, mx_calls := mx_calls s @ [Submitting a (mx_answers s)],
      mx_sent := mx_sent s @ [(a, mx_answers s)]\<rparr>"
    using assms(1-4) by (simp add: m_submit_def)
  show ?thesis using assms(1-7) unfolding evs_def
    by (simp add: sub expired_iff m_submit_fail_def m_submit_def screen_of_def)
qed

text \<open>The clock shows the same text as the one of the web pages, in whole seconds.\<close>

theorem clocks_agree: "fmtClock ms = fmt (ms div 1000)"
  by (simp add: fmtClock_def fmt_def)

section \<open>Witnesses\<close>

definition sums_paper :: m_paper where
  "sums_paper = \<lparr>mpp_title = ''Sums'', mpp_duration = 1,
     mpp_questions = [\<lparr>mq_id = ''q1'', mq_text = ''2+2'', mq_options = [''3'', ''4'']\<rparr>]\<rparr>"

definition sums_expired :: mobile_exam where
  "sums_expired = run phone_step (mobile_exam0 0) [Focus, PaperOk sums_paper, AttemptOk ''a1'' 60000, Select 1, ClockTick 60000]"

lemmas sums_eval = sums_paper_def mobile_exam0_def m_load_def selectOption_def m_current_def m_questions_def
  phone_view_def screen_of_def

lemma sums_expired_eval:
  "mx_attempt sums_expired = Some ''a1''" "\<not> mx_submittedRef sums_expired" "\<not> mx_submitting sums_expired"
  "mx_review sums_expired = None" "mx_paper sums_expired = Some sums_paper" "mx_answers sums_expired = [(''q1'', 1)]"
  "mx_expires sums_expired = Some 60000" "mx_now sums_expired = 60000" "mx_sent sums_expired = []"
  by (simp_all add: sums_expired_def sums_eval)

lemma sums_expired_now: "expired sums_expired"
  by (simp add: expired_def remaining_def sums_expired_eval)

lemma sums_reach: "phone_reach sums_paper (phone_step sums_expired Expiry)"
proof -
  have "phone_reach sums_paper sums_expired"
    unfolding sums_expired_def by (rule run_reachable) (auto simp: sums_eval)
  then show ?thesis by (rule reach_step) (simp add: sums_expired_now sums_expired_eval)
qed

theorem phone_sitting_safe_witness:
  "length (mx_calls (phone_step sums_expired Expiry)) \<le> 1 \<and> mx_sent (phone_step sums_expired Expiry) = [(''a1'', [(''q1'', 1)])]"
  using phone_sitting_safe [OF sums_reach] by (simp add: m_submit_def sums_expired_eval)

theorem unstarted_exam_swallows_answers_witness:
  "mx_sent (run phone_step (run phone_step (mobile_exam0 0) [Focus, PaperOk sums_paper, LoadFail StartingAttempt null_deref])
     [Select 1, SubmitNow, SubmitNow]) = []"
  using unstarted_exam_swallows_answers [of sums_paper 0 null_deref "[Select 1, SubmitNow, SubmitNow]"]
  by (simp add: sums_eval load_fail_def m_submit_def)

theorem expired_failure_storms_witness:
  "\<exists>evs. length evs = 20 \<and> length (mx_sent (run phone_step sums_expired evs)) = 10"
  using expired_failure_storms [OF sums_expired_now sums_expired_eval(1) _ sums_expired_eval(2,3), of 10 sums_paper]
  by (auto simp: sums_expired_eval)

theorem lost_review_resends_witness:
  "length (mx_sent (run phone_step sums_expired
     [Expiry, SubmitOk ''a1'' [(''q1'', 1)] True, SubmitFail (Reviewing True) null_deref, Expiry])) = 2"
  using lost_review_resends [of sums_expired "''a1''" sums_paper sums_paper True null_deref] sums_expired_now
  by (simp add: sums_expired_eval del: run.simps)

end
