(* ===== verification/HelpKb.thy ===== *)
theory HelpKb
  imports JsText
begin

text \<open>
  The help centre and the assistant's local knowledge: \<open>client/lib/help-data.ts\<close> (the articles,
  their slugs, the lookup), \<open>client/lib/chat-kb.ts\<close> (the answer given without a server), the
  searches of \<open>client/app/help/page.tsx\<close> and of the chat widget. The articles are the source's
  own texts. The lemmas show that slugs name their articles, that an article's question asked
  in its own words is answered by it, and where the local answers go wrong.
\<close>

section \<open>The articles\<close>

definition right_arrow :: jsstring where "right_arrow = [CHR 0xE2, CHR 0x86, CHR 0x92]"

record help_faq =
  hf_q :: jsstring
  hf_a :: jsstring

record help_category =
  hc_id :: jsstring
  hc_title :: jsstring
  hc_blurb :: jsstring
  hc_faqs :: "help_faq list"

definition help_getting_started :: help_category where
  "help_getting_started = \<lparr>hc_id = ''getting-started'', hc_title = ''Getting started'',
     hc_blurb = ''Accounts, onboarding and finding the right programme.'',
     hc_faqs = [
       \<lparr>hf_q = ''How do I create an account?'',
        hf_a = ''Click Get started (or Create an account), enter your name and email, verify the 6-digit code we send you, choose your role and set a password. It takes under two minutes.''\<rparr>,
       \<lparr>hf_q = ''Which role should I choose?'',
        hf_a = ''Parent if you're booking for a child, Student if you're learning yourself, Tutor if you want to teach, or School/Company for an institution.''\<rparr>,
       \<lparr>hf_q = ''How do I add a learner?'',
        hf_a = ''From your dashboard or Account '' @ right_arrow @ '' Learners, tap Add a learner and enter their name and level. A minor (under 17) must be linked to a parent or guardian to enrol.''\<rparr>,
       \<lparr>hf_q = ''I didn't get my verification code'',
        hf_a = ''Check your spam folder, then use Resend code. If it still doesn't arrive, contact support - codes are single-use and expire after 10 minutes.''\<rparr>]\<rparr>"

definition help_lessons :: help_category where
  "help_lessons = \<lparr>hc_id = ''lessons'', hc_title = ''Lessons & cohorts'',
     hc_blurb = ''Schedules, joining live lessons, attendance and resources.'',
     hc_faqs = [
       \<lparr>hf_q = ''How do I join a live lesson?'',
        hf_a = ''Open My Learning (LMS), choose your course, and open the lesson. The meeting link is available inside the join window before the session.''\<rparr>,
       \<lparr>hf_q = ''How do I access my course materials?'',
        hf_a = ''Open LMS '' @ right_arrow @ '' My courses, then the cohort. Recordings, notes and resources sit on each lesson where the programme provides them.''\<rparr>,
       \<lparr>hf_q = ''When is my next assignment due?'',
        hf_a = ''Open LMS '' @ right_arrow @ '' your cohort. Assignments and quizzes list due dates there. Submit from the same screen.''\<rparr>,
       \<lparr>hf_q = ''What's my current progress?'',
        hf_a = ''Students: student dashboard and LMS (attendance, assignments, grades). Parents: family dashboard for attendance and weekly progress reports.''\<rparr>,
       \<lparr>hf_q = ''Are lessons recorded?'',
        hf_a = ''Cohort sessions include recordings and resources where the programme provides them. Private tuition recordings follow your tutor's agreement.''\<rparr>,
       \<lparr>hf_q = ''Can I reschedule a private lesson?'',
        hf_a = ''Yes - reschedule within your package window. Contact your tutor or support; the schedule update keeps your escrow and sessions intact.''\<rparr>,
       \<lparr>hf_q = ''How do I see my child's progress?'',
        hf_a = ''The parent dashboard shows attendance, assignments, submissions and weekly progress reports with strengths, weaknesses and recommendations.''\<rparr>]\<rparr>"

definition help_payments :: help_category where
  "help_payments = \<lparr>hc_id = ''payments'', hc_title = ''Payments & escrow'',
     hc_blurb = ''How billing, escrow and refunds work.'',
     hc_faqs = [
       \<lparr>hf_q = ''How is my payment protected?'',
        hf_a = ''Your fee is held in escrow and released to the tutor only after lessons are delivered - either when you confirm or automatically after the delivery window.''\<rparr>,
       \<lparr>hf_q = ''Which payment methods do you accept?'',
        hf_a = ''We accept card payments and bank transfers through Paystack and Flutterwave. Never pay a tutor directly off-platform.''\<rparr>,
       \<lparr>hf_q = ''How do refunds work?'',
        hf_a = ''Refunds follow our Cancellation & Refund policy - see the policy page for the full terms. Unused escrow can be returned per the policy.''\<rparr>,
       \<lparr>hf_q = ''When do tutors get paid?'',
        hf_a = ''Tutors are paid weekly from released escrow after lessons are confirmed delivered.''\<rparr>]\<rparr>"

definition help_tutors :: help_category where
  "help_tutors = \<lparr>hc_id = ''tutors'', hc_title = ''Becoming a tutor'',
     hc_blurb = ''Vetting, subjects, assessments and earnings.'',
     hc_faqs = [
       \<lparr>hf_q = ''How do I apply to teach?'',
        hf_a = ''Start at Become a tutor: create your profile, choose subjects, upload a government-issued ID and pass a subject competency quiz. We review within 5-7 working days.''\<rparr>,
       \<lparr>hf_q = ''What is the competency assessment?'',
        hf_a = ''A short quiz on each subject you applied to teach - 70% to pass, valid for 12 months. You're tested only on the subjects you chose.''\<rparr>,
       \<lparr>hf_q = ''What do tutors earn?'',
        hf_a = ''You set your own rates; YK-Virtual takes a platform fee and holds learner payments in escrow until lessons are delivered.''\<rparr>,
       \<lparr>hf_q = ''How does vetting work?'',
        hf_a = ''Staged: identity + documents, competency assessment, interview and background checks before approval. Documents live in a private bucket with signed URLs.''\<rparr>]\<rparr>"

definition help_safety :: help_category where
  "help_safety = \<lparr>hc_id = ''safety'', hc_title = ''Safeguarding & privacy'',
     hc_blurb = ''How we keep learners safe and handle your data.'',
     hc_faqs = [
       \<lparr>hf_q = ''How do you protect children?'',
        hf_a = ''Minors are linked to parents or guardians, contact details are never exposed to tutors unless required, messaging is booking-scoped, and lesson access is governed.''\<rparr>,
       \<lparr>hf_q = ''How do I report a concern?'',
        hf_a = ''Contact support immediately. Our safeguarding policy and reporting path are in the legal section of this site.''\<rparr>,
       \<lparr>hf_q = ''How is my data used?'',
        hf_a = ''See our Privacy Policy for the full detail. You can export everything we hold on your account from Account '' @ right_arrow @ '' Export data, and delete it at any time.''\<rparr>]\<rparr>"

definition HELP_CATEGORIES :: "help_category list" where
  "HELP_CATEGORIES = [help_getting_started, help_lessons, help_payments, help_tutors, help_safety]"

text \<open>\<open>text.toLowerCase().replace(/[^a-z0-9]+/g, "-").replace(/(^-|-$)/g, "")\<close>\<close>

definition slug_char :: "char \<Rightarrow> bool" where
  "slug_char c = (let n = of_char c :: nat in (97 \<le> n \<and> n \<le> 122) \<or> (48 \<le> n \<and> n \<le> 57))"

text \<open>Runs of other characters become one hyphen; the flag says that one has been written.\<close>

fun hyphenate :: "bool \<Rightarrow> jsstring \<Rightarrow> jsstring" where
  "hyphenate d [] = []"
| "hyphenate d (c # s) =
     (if slug_char c then c # hyphenate False s
      else if d then hyphenate True s else CHR ''-'' # hyphenate True s)"

definition strip_hyphens :: "jsstring \<Rightarrow> jsstring" where
  "strip_hyphens s = drop_last_char CHR ''-'' (case s of c # t \<Rightarrow> if c = CHR ''-'' then t else s | [] \<Rightarrow> s)"

definition slugify :: "jsstring \<Rightarrow> jsstring" where
  "slugify t = strip_hyphens (hyphenate False (to_lower t))"

record help_article = help_faq +
  ha_slug :: jsstring
  ha_category :: help_category

definition getHelpArticles :: "help_article list" where
  "getHelpArticles = concat (map (\<lambda>c. map (\<lambda>f. \<lparr>hf_q = hf_q f, hf_a = hf_a f, ha_slug = slugify (hf_q f), ha_category = c\<rparr>)
     (hc_faqs c)) HELP_CATEGORIES)"

definition getHelpArticle :: "jsstring \<Rightarrow> help_article option" where
  "getHelpArticle slug = find (\<lambda>a. ha_slug a = slug) getHelpArticles"

text \<open>The other articles of the category, on an article's page.\<close>

definition related_articles :: "help_article \<Rightarrow> help_article list" where
  "related_articles article =
     filter (\<lambda>a. hc_id (ha_category a) = hc_id (ha_category article) \<and> ha_slug a \<noteq> ha_slug article) getHelpArticles"

section \<open>Searching\<close>

definition faq_matches :: "jsstring \<Rightarrow> 'a help_faq_scheme \<Rightarrow> bool" where
  "faq_matches q f = (str_includes (to_lower (hf_q f)) q \<or> str_includes (to_lower (hf_a f)) q)"

text \<open>\<open>None\<close> shows the categories instead of results.\<close>

definition help_results :: "jsstring \<Rightarrow> (jsstring \<times> help_faq) list option" where
  "help_results query =
     (let q = to_lower (trim query) in
      if q = [] then None
      else Some (concat (map (\<lambda>cat. map (\<lambda>f. (hc_title cat, f)) (filter (faq_matches q) (hc_faqs cat))) HELP_CATEGORIES)))"

definition kb_articles :: "jsstring \<Rightarrow> help_article list" where
  "kb_articles kbQuery =
     (let q = to_lower (trim kbQuery) in
      if q = [] then take 8 getHelpArticles else take 12 (filter (faq_matches q) getHelpArticles))"

section \<open>The local answer\<close>

definition STOP :: "jsstring list" where
  "STOP = [''the'', ''and'', ''for'', ''how'', ''do'', ''i'', ''my'', ''is'', ''a'', ''to'', ''what'', ''when'',
     ''can'', ''you'', ''me'', ''please'', ''with'', ''on'', ''in'', ''of'', ''it'', ''or'', ''we'']"

text \<open>\<open>s.split(/[^a-z0-9]+/i)\<close>: fields between maximal runs of separators.\<close>

function split_runs :: "(char \<Rightarrow> bool) \<Rightarrow> jsstring \<Rightarrow> jsstring list" where
  "split_runs sep [] = [[]]"
| "split_runs sep (c # s) =
     (if sep c then [] # split_runs sep (dropWhile sep s)
      else case split_runs sep s of [] \<Rightarrow> [[c]] | p # ps \<Rightarrow> (c # p) # ps)"
  by pat_completeness auto
termination
  by (relation "measure (\<lambda>(sep, s). length s)") (simp_all add: length_dropWhile_le less_Suc_eq_le)

definition question_tokens :: "jsstring \<Rightarrow> jsstring list" where
  "question_tokens q = filter (\<lambda>w. length w > 2 \<and> w \<notin> set STOP) (split_runs (\<lambda>c. \<not> alnum c) (to_lower q))"

text \<open>\<open>/(w1|w2|...)/i.test(q)\<close> for words in lower case.\<close>

definition mentions :: "jsstring list \<Rightarrow> jsstring \<Rightarrow> bool" where
  "mentions ws q = list_ex (str_includes (to_lower q)) ws"

definition asks_human :: "jsstring \<Rightarrow> bool" where
  "asks_human q = mentions [''human'', ''agent'', ''refund'', ''complaint'', ''speak to'', ''talk to someone'', ''escalat'', ''unhappy''] q"

definition handover_text :: jsstring where
  "handover_text = ''I can hand this to a person. Log in and tap '' @ [CHR 0xE2, CHR 0x80, CHR 0x9C] @ ''Talk to a person'' @
     [CHR 0xE2, CHR 0x80, CHR 0x9D] @ '', or write via Help '' @ right_arrow @
     '' Contact support. Refunds follow the Cancellation & Refund policy '' @ em_dash @ '' never pay a tutor off-platform.''"

definition article_score :: "jsstring \<Rightarrow> 'a help_faq_scheme \<Rightarrow> nat" where
  "article_score q a =
     (let lower = to_lower q; aq = to_lower (hf_q a); hay = to_lower (hf_q a @ '' '' @ hf_a a) in
      length (filter (str_includes hay) (question_tokens q)) +
      (if aq = lower then 6 else if str_includes aq lower \<or> str_includes lower aq then 4 else 0))"

text \<open>The loop over the articles: the first of the best.\<close>

fun best_of :: "('a \<Rightarrow> nat) \<Rightarrow> ('a \<Rightarrow> jsstring) \<Rightarrow> nat \<times> jsstring \<Rightarrow> 'a list \<Rightarrow> nat \<times> jsstring" where
  "best_of score text acc [] = acc"
| "best_of score text acc (a # as) = best_of score text (if score a > fst acc then (score a, text a) else acc) as"

definition answerFromKnowledge :: "jsstring \<Rightarrow> jsstring" where
  "answerFromKnowledge question =
     (let q = trim question; r = best_of (article_score q) hf_a (0, []) getHelpArticles in
      if asks_human q then handover_text
      else if fst r \<ge> 2 then snd r
      else if mentions [''material'', ''resource'', ''lms'', ''course''] q
      then ''Open LMS '' @ right_arrow @ '' My courses. Recordings, notes and resources sit on each lesson where the programme provides them.''
      else if mentions [''assignment'', ''due'', ''quiz'', ''homework''] q
      then ''Assignments and quizzes are in the LMS for your cohort. Open the course to see due dates, submit work and check grades.''
      else if mentions [''progress'', ''attendance'', ''grade''] q
      then ''Your student dashboard and LMS show attendance and assignments. Parents see weekly progress reports on the family dashboard.''
      else ''I can help with accounts, lessons, payments, tutors and safeguarding. Try the Knowledge Base tab, or ask how to join a live lesson, how escrow works, or how to add a learner. Log in to save this chat and reach a human agent.'')"

section \<open>Slugs\<close>

text \<open>The character tables, as rewrite rules for the letters that the articles use.\<close>

lemma lower_table:
  "map lower_char ''ABCDEFGHIJKLMNOPQRSTUVWXYZ'' = ''abcdefghijklmnopqrstuvwxyz''"
  "map lower_char ''abcdefghijklmnopqrstuvwxyz ?'' = ''abcdefghijklmnopqrstuvwxyz ?''"
  "lower_char (CHR 0x27) = CHR 0x27"
  by (simp_all add: lower_char_def char_of_def bit_0)

lemma slug_table:
  "list_all slug_char ''abcdefghijklmnopqrstuvwxyz''"
  "list_all (\<lambda>c. \<not> slug_char c) ('' ?'' @ [CHR 0x27])"
  by (simp_all add: slug_char_def)

lemmas letters = lower_table [simplified] slug_table [simplified]

lemma slug_char_hyphen [simp]: "\<not> slug_char CHR ''-''"
  by (simp add: slug_char_def)

lemma lower_slug_char: "slug_char c \<Longrightarrow> lower_char c = c"
  by (auto simp: slug_char_def lower_char_def Let_def)

text \<open>Slug characters and single hyphens between them; the flag says that the last one was a hyphen.\<close>

fun tidy :: "bool \<Rightarrow> jsstring \<Rightarrow> bool" where
  "tidy d [] = True"
| "tidy d (c # s) = (if slug_char c then tidy False s else c = CHR ''-'' \<and> \<not> d \<and> tidy True s)"

lemma tidy_hyphenate: "tidy d (hyphenate d s)"
  by (induction s arbitrary: d) auto

lemma tidy_fixed: "tidy d s \<Longrightarrow> hyphenate d s = s"
  by (induction s arbitrary: d) (auto split: if_splits)

lemma tidy_weaken: "tidy True s \<Longrightarrow> tidy False s"
  by (cases s) (auto split: if_splits)

lemma tidy_lower: "tidy d s \<Longrightarrow> to_lower s = s"
proof (induction s arbitrary: d)
  case (Cons c s)
  have "lower_char CHR ''-'' = CHR ''-''" by (simp add: lower_char_def)
  with Cons show ?case by (cases "slug_char c") (auto simp: to_lower_def lower_slug_char)
qed (simp add: to_lower_def)

lemma tidy_append: "tidy d (s @ t) \<Longrightarrow> tidy d s"
  by (induction s arbitrary: d) (auto split: if_splits)

lemma tidy_strip: "tidy False s \<Longrightarrow> tidy True (strip_hyphens s) \<and> (strip_hyphens s \<noteq> [] \<longrightarrow> last (strip_hyphens s) \<noteq> CHR ''-'')"
proof -
  assume t: "tidy False s"
  define r where "r = (case s of c # u \<Rightarrow> if c = CHR ''-'' then u else s | [] \<Rightarrow> s)"
  have r: "tidy True r" using t by (auto simp: r_def split: list.splits if_splits)
  show ?thesis
  proof (cases "r \<noteq> [] \<and> last r = CHR ''-''")
    case True
    then obtain u where u: "r = u @ [CHR ''-'']" by (cases r rule: rev_cases) auto
    have two: "tidy d (v @ [CHR ''-'', CHR ''-'']) \<Longrightarrow> False" for d v
      by (induction v arbitrary: d) (auto split: if_splits)
    have "u \<noteq> [] \<Longrightarrow> last u \<noteq> CHR ''-''"
      using two [of True "butlast u"] r u by (cases u rule: rev_cases) auto
    moreover have "strip_hyphens s = u" using u by (simp add: strip_hyphens_def r_def [symmetric])
    moreover have "tidy True u" using r tidy_append unfolding u by blast
    ultimately show ?thesis by simp
  next
    case False
    then have "drop_last_char CHR ''-'' r = r" unfolding drop_last_char_def by (rule if_not_P)
    then have "strip_hyphens s = r" by (simp add: strip_hyphens_def r_def [symmetric])
    with r False show ?thesis by metis
  qed
qed

lemma strip_fixed: "tidy True s \<Longrightarrow> (s \<noteq> [] \<longrightarrow> last s \<noteq> CHR ''-'') \<Longrightarrow> strip_hyphens s = s"
proof -
  assume t: "tidy True s" and l: "s \<noteq> [] \<longrightarrow> last s \<noteq> CHR ''-''"
  have "(case s of c # u \<Rightarrow> if c = CHR ''-'' then u else s | [] \<Rightarrow> s) = s"
  proof (cases s)
    case (Cons c u)
    then have "c \<noteq> CHR ''-''" using t by (cases "slug_char c") auto
    with Cons show ?thesis by simp
  qed simp
  then have "strip_hyphens s = drop_last_char CHR ''-'' s" unfolding strip_hyphens_def by (rule arg_cong)
  also have "\<dots> = s" using l unfolding drop_last_char_def by (intro if_not_P) blast
  finally show ?thesis .
qed

text \<open>
  A slug consists of lower-case letters, digits and single hyphens between them, whatever the
  text; making a slug of a slug changes nothing.
\<close>

theorem slugify_shape:
  "tidy True (slugify text) \<and> (if slugify text = [] then True else last (slugify text) \<noteq> CHR ''-'') \<and>
   slugify (slugify text) = slugify text"
proof -
  have s: "tidy True (slugify text) \<and> (slugify text \<noteq> [] \<longrightarrow> last (slugify text) \<noteq> CHR ''-'')"
    unfolding slugify_def by (rule tidy_strip) (rule tidy_hyphenate)
  then have "slugify (slugify text) = strip_hyphens (slugify text)"
    using tidy_lower [of True "slugify text"] tidy_fixed [of False "slugify text"] tidy_weaken [of "slugify text"]
    by (simp add: slugify_def [of "slugify text"])
  also have "\<dots> = slugify text" using s by (intro strip_fixed) simp_all
  finally show ?thesis using s by simp
qed

section \<open>Answers\<close>

lemma best_of_acc: "fst (best_of f g acc as) = fold (\<lambda>a n. max n (f a)) as (fst acc)"
  by (induction as arbitrary: acc) (auto simp: max_def)

lemma best_of_keep: "(\<And>b. b \<in> set as \<Longrightarrow> f b \<le> fst acc) \<Longrightarrow> best_of f g acc as = acc"
proof (induction as)
  case (Cons b as)
  then have "\<not> f b > fst acc" by (simp add: not_less)
  with Cons show ?case by simp
qed simp

lemma best_of_max:
  assumes "a \<in> set as" "fst acc < f a" "\<And>b. b \<in> set as \<Longrightarrow> b \<noteq> a \<Longrightarrow> f b < f a"
  shows "best_of f g acc as = (f a, g a)"
  using assms
proof (induction as arbitrary: acc)
  case (Cons b as)
  show ?case
  proof (cases "b = a")
    case True
    have "f c \<le> f a" if "c \<in> set as" for c using Cons.prems(3) [of c] that by (cases "c = a") auto
    with True Cons.prems(2) show ?thesis by (simp add: best_of_keep)
  next
    case False
    with Cons show ?thesis by simp
  qed
qed simp

lemma includes_sublist: "str_includes s p \<longleftrightarrow> sublist p s"
  by (auto simp: includes_iff sublist_def)

lemma split_runs_ne [simp]: "split_runs sep s \<noteq> []"
  by (cases s) (auto split: list.splits)

lemma split_runs_hd: "prefix (hd (split_runs sep s)) s"
  by (induction sep s rule: split_runs.induct) (auto split: list.splits)

lemma split_runs_sublist: "p \<in> set (split_runs sep s) \<Longrightarrow> sublist p s"
proof (induction sep s arbitrary: p rule: split_runs.induct)
  case (2 sep c s)
  show ?case
  proof (cases "sep c")
    case True
    with 2 have "p = [] \<or> sublist p (dropWhile sep s)" by auto
    then show ?thesis
      by (meson sublist_Cons_right suffix_dropWhile suffix_imp_sublist sublist_order.order_trans sublist_Nil_left)
  next
    case False
    obtain q qs where q: "split_runs sep s = q # qs" by (cases "split_runs sep s") auto
    have "prefix q s" using split_runs_hd [of sep s] q by simp
    with False 2 q show ?thesis by (auto simp: sublist_Cons_right)
  qed
qed simp

lemma tokens_found: "t \<in> set (question_tokens q) \<Longrightarrow> str_includes (to_lower q) t"
  by (auto simp: question_tokens_def includes_sublist split_runs_sublist)

lemma article_score_own:
  assumes "to_lower q = to_lower (hf_q a)"
  shows "article_score q a = length (question_tokens q) + 6"
proof -
  have "str_includes (to_lower (hf_q a @ '' '' @ hf_a a)) t" if "t \<in> set (question_tokens q)" for t
  proof -
    have "sublist t (to_lower (hf_q a))" using tokens_found [OF that] assms by (simp add: includes_sublist)
    then have "sublist t (to_lower (hf_q a) @ to_lower ('' '' @ hf_a a))" by (simp add: sublist_append)
    then show ?thesis by (simp add: includes_sublist)
  qed
  then have "filter (str_includes (to_lower (hf_q a @ '' '' @ hf_a a))) (question_tokens q) = question_tokens q"
    by (simp add: filter_id_conv)
  then show ?thesis using assms by (simp add: article_score_def)
qed

lemma article_score_other: "to_lower (hf_q b) \<noteq> to_lower q \<Longrightarrow> article_score q b \<le> length (question_tokens q) + 4"
proof -
  assume "to_lower (hf_q b) \<noteq> to_lower q"
  then have "article_score q b \<le> length (filter (str_includes (to_lower (hf_q b @ '' '' @ hf_a b))) (question_tokens q)) + 4"
    unfolding article_score_def Let_def by (simp only: if_False split: if_split) simp
  also have "\<dots> \<le> length (question_tokens q) + 4" by simp
  finally show ?thesis .
qed

lemma questions_of_articles: "map hf_q getHelpArticles = concat (map (\<lambda>c. map hf_q (hc_faqs c)) HELP_CATEGORIES)"
  by (simp add: getHelpArticles_def map_concat o_def)

lemma article_of_faq:
  "list_ex (\<lambda>f. R (hf_q f) (hf_a f)) (concat (map hc_faqs HELP_CATEGORIES)) \<Longrightarrow>
   list_ex (\<lambda>a. R (hf_q a) (hf_a a)) getHelpArticles"
  by (auto simp: getHelpArticles_def list_ex_iff)

lemmas help_texts = HELP_CATEGORIES_def help_getting_started_def help_lessons_def help_payments_def help_tutors_def help_safety_def

lemma questions_distinct: "distinct (map (\<lambda>a. to_lower (hf_q a)) getHelpArticles)"
proof -
  have "distinct (map to_lower (map hf_q getHelpArticles))"
    unfolding questions_of_articles by (simp add: help_texts to_lower_def letters)
  then show ?thesis by (simp add: o_def)
qed

lemma answer_verbatim:
  assumes "a \<in> set getHelpArticles" "to_lower (trim question) = to_lower (hf_q a)" "\<not> asks_human (trim question)"
  shows "answerFromKnowledge question = hf_a a"
proof -
  let ?q = "trim question"
  have own: "article_score ?q a = length (question_tokens ?q) + 6" using assms(2) by (rule article_score_own)
  have "article_score ?q b < article_score ?q a" if "b \<in> set getHelpArticles" "b \<noteq> a" for b
  proof -
    have "to_lower (hf_q b) \<noteq> to_lower ?q"
      using questions_distinct that assms(1,2) unfolding distinct_map inj_on_def by fastforce
    then show ?thesis using own article_score_other [of b ?q] by simp
  qed
  then have "best_of (article_score ?q) hf_a (0, []) getHelpArticles = (article_score ?q a, hf_a a)"
    using assms(1) own by (intro best_of_max) simp_all
  with assms(3) own show ?thesis by (simp add: answerFromKnowledge_def Let_def)
qed

text \<open>
  A question that repeats the question of an article, in any case and with spaces around it,
  is answered by that article, unless its words ask for a person.
\<close>

theorem verbatim_question_answered:
  assumes "a \<in> set getHelpArticles" "to_lower (trim question) = to_lower (hf_q a)" "\<not> asks_human (trim question)"
  shows "answerFromKnowledge question = hf_a a"
  using assms by (rule answer_verbatim)

lemma suggested_articles:
  "list_all (\<lambda>s. s \<in> set (map hf_q getHelpArticles) \<and> \<not> asks_human (trim s) \<and> trim s = s)
     [''How do I access my course materials?'', ''When is my next assignment due?'', ''How do I join a live lesson?'', ''What's my current progress?'']"
  unfolding questions_of_articles
  by (simp add: help_texts asks_human_def mentions_def to_lower_def lower_char_def trim_def is_space_def)

text \<open>
  The questions that the chat widget suggests are each answered by the article with that
  question.
\<close>

definition SUGGESTED :: "jsstring list" where
  "SUGGESTED = [''How do I access my course materials?'', ''When is my next assignment due?'', ''How do I join a live lesson?'', ''What's my current progress?'']"

theorem suggestions_answered:
  "list_all (\<lambda>s. list_ex (\<lambda>a. hf_q a = s \<and> answerFromKnowledge s = hf_a a) getHelpArticles) SUGGESTED"
proof -
  have "list_ex (\<lambda>a. hf_q a = s \<and> answerFromKnowledge s = hf_a a) getHelpArticles"
    if "s \<in> set (map hf_q getHelpArticles)" "\<not> asks_human (trim s)" "trim s = s" for s
  proof -
    from that(1) obtain a where "a \<in> set getHelpArticles" "hf_q a = s" unfolding set_map by (elim imageE) simp
    then show ?thesis using answer_verbatim [of a s] that by (auto simp: list_ex_iff)
  qed
  with suggested_articles show ?thesis unfolding SUGGESTED_def by (auto simp only: list.pred_inject)
qed

text \<open>
  Refunds have an article of their own, but its question is never answered by it: the word
  alone hands the guest over to a person.
\<close>

theorem refund_article_unreachable:
  "list_ex (\<lambda>a. hf_q a = ''How do refunds work?'' \<and> answerFromKnowledge (hf_q a) = handover_text \<and> hf_a a \<noteq> handover_text)
     getHelpArticles"
proof -
  have "list_ex (\<lambda>f. hf_q f = ''How do refunds work?'' \<and> hf_a f \<noteq> handover_text) (concat (map hc_faqs HELP_CATEGORIES))"
    by (simp add: help_texts handover_text_def)
  then have "list_ex (\<lambda>a. hf_q a = ''How do refunds work?'' \<and> hf_a a \<noteq> handover_text) getHelpArticles"
    using article_of_faq [of "\<lambda>q t. q = ''How do refunds work?'' \<and> t \<noteq> handover_text"] by simp
  moreover have "asks_human (trim ''How do refunds work?'')"
    by (simp add: asks_human_def mentions_def to_lower_def lower_char_def trim_def is_space_def)
  then have "answerFromKnowledge ''How do refunds work?'' = handover_text" by (simp add: answerFromKnowledge_def Let_def)
  ultimately show ?thesis by (auto simp: list_ex_iff)
qed

section \<open>Lookup and search\<close>

lemma slugs_distinct: "distinct (map ha_slug getHelpArticles)"
proof -
  have "map ha_slug getHelpArticles = map slugify (map hf_q getHelpArticles)"
    by (simp add: getHelpArticles_def map_concat o_def)
  moreover have "distinct (map slugify (concat (map (\<lambda>c. map hf_q (hc_faqs c)) HELP_CATEGORIES)))"
    by (simp add: help_texts slugify_def strip_hyphens_def drop_last_char_def to_lower_def letters)
  ultimately show ?thesis by (simp only: questions_of_articles)
qed

lemma find_key: "distinct (map f xs) \<Longrightarrow> x \<in> set xs \<Longrightarrow> find (\<lambda>y. f y = f x) xs = Some x"
  by (induction xs) (auto simp: image_iff)

lemma slug_encoded: "encode_uri_component (slugify s) = slugify s"
proof -
  have "tidy d t \<Longrightarrow> encode_uri_component t = t" for d t
    by (induction t arbitrary: d) (auto simp: encode_uri_component_def uri_unreserved_def alnum_def slug_char_def Let_def split: if_splits)
  then show ?thesis using slugify_shape by blast
qed

text \<open>
  Every article is found under its slug, and the slug needs no escaping in a path.
\<close>

theorem slug_lookup_roundtrip:
  "list_all (\<lambda>a. getHelpArticle (ha_slug a) = Some a \<and> encode_uri_component (ha_slug a) = ha_slug a) getHelpArticles"
proof -
  have "ha_slug a = slugify (hf_q a)" if "a \<in> set getHelpArticles" for a
    using that by (auto simp: getHelpArticles_def)
  then have "encode_uri_component (ha_slug a) = ha_slug a" if "a \<in> set getHelpArticles" for a
    using that by (simp add: slug_encoded)
  then show ?thesis by (simp add: list_all_iff getHelpArticle_def find_key [OF slugs_distinct])
qed

lemma faq_matches_more: "faq_matches q \<lparr>hf_q = x, hf_a = y, ha_slug = s, ha_category = c\<rparr> = faq_matches q \<lparr>hf_q = x, hf_a = y\<rparr>"
  by (simp add: faq_matches_def)

lemma matching_articles:
  "map (\<lambda>a. (hc_title (ha_category a), help_faq.truncate a)) (filter (faq_matches q) getHelpArticles) =
   concat (map (\<lambda>cat. map (\<lambda>f. (hc_title cat, f)) (filter (faq_matches q) (hc_faqs cat))) HELP_CATEGORIES)"
proof -
  have one: "map (\<lambda>a. (hc_title (ha_category a), help_faq.truncate a)) (filter (faq_matches q)
      (map (\<lambda>f. \<lparr>hf_q = hf_q f, hf_a = hf_a f, ha_slug = slugify (hf_q f), ha_category = c\<rparr>) fs)) =
    map (\<lambda>f. (hc_title c, f)) (filter (faq_matches q) fs)" for c fs
    by (induction fs) (auto simp: faq_matches_more help_faq.truncate_def faq_matches_def)
  have "map (\<lambda>a. (hc_title (ha_category a), help_faq.truncate a)) (filter (faq_matches q)
      (concat (map (\<lambda>c. map (\<lambda>f. \<lparr>hf_q = hf_q f, hf_a = hf_a f, ha_slug = slugify (hf_q f), ha_category = c\<rparr>) (hc_faqs c)) cs))) =
    concat (map (\<lambda>cat. map (\<lambda>f. (hc_title cat, f)) (filter (faq_matches q) (hc_faqs cat))) cs)" for cs
    by (induction cs) (simp_all only: concat.simps list.map filter_append map_append one filter.simps)
  then show ?thesis unfolding getHelpArticles_def .
qed

text \<open>
  The search of the chat widget shows the first twelve results of the help centre's search,
  and the first eight articles where the help centre shows its categories.
\<close>

theorem searches_agree:
  "case help_results query of
     None \<Rightarrow> kb_articles query = take 8 getHelpArticles
   | Some hits \<Rightarrow> map (\<lambda>a. (hc_title (ha_category a), help_faq.truncate a)) (kb_articles query) = take 12 hits"
proof -
  have "map (\<lambda>a. (hc_title (ha_category a), help_faq.truncate a)) (take 12 (filter (faq_matches q) getHelpArticles)) =
      take 12 (concat (map (\<lambda>cat. map (\<lambda>f. (hc_title cat, f)) (filter (faq_matches q) (hc_faqs cat))) HELP_CATEGORIES))" for q
    by (simp only: take_map [symmetric] matching_articles)
  then show ?thesis by (simp add: help_results_def kb_articles_def Let_def)
qed

text \<open>A greeting is answered with an article, because two letters occur in its question.\<close>

theorem greeting_gets_article:
  "answerFromKnowledge ''Hi'' =
     ''Parent if you're booking for a child, Student if you're learning yourself, Tutor if you want to teach, or School/Company for an institution.''"
proof -
  have s: "article_score ''Hi'' a = (if str_includes (to_lower (hf_q a)) ''hi'' then 4 else 0)"
    if "length (hf_q a) > 2" for a :: help_article
  proof -
    have "question_tokens ''Hi'' = []" by (simp add: question_tokens_def to_lower_def letters alnum_def)
    moreover have "to_lower (hf_q a) \<noteq> ''hi'' \<and> \<not> str_includes ''hi'' (to_lower (hf_q a))"
      using that sublist_length_le [of "to_lower (hf_q a)" "''hi''"] by (auto simp: includes_sublist to_lower_def)
    moreover have "to_lower ''Hi'' = ''hi''" by (simp add: to_lower_def letters)
    ultimately show ?thesis by (simp add: article_score_def)
  qed
  have long: "length (hf_q a) > 2" if "a \<in> set getHelpArticles" for a
  proof -
    have "list_all (\<lambda>t. length t > 2) (map hf_q getHelpArticles)"
      unfolding questions_of_articles by (simp add: help_texts)
    then show ?thesis using that by (simp add: list_all_iff)
  qed
  obtain a b as where g: "getHelpArticles = a # b # as" and q: "hf_q a = ''How do I create an account?''"
      "hf_q b = ''Which role should I choose?''"
      "hf_a b = ''Parent if you're booking for a child, Student if you're learning yourself, Tutor if you want to teach, or School/Company for an institution.''"
    by (simp add: getHelpArticles_def HELP_CATEGORIES_def help_getting_started_def)
  have "article_score ''Hi'' a = 0" "article_score ''Hi'' b = 4"
    using s [of a] s [of b] q by (simp_all add: to_lower_def letters)
  moreover have "article_score ''Hi'' c \<le> 4" if "c \<in> set as" for c
  proof -
    have "c \<in> set getHelpArticles" unfolding g using that by simp
    then have "length (hf_q c) > 2" by (rule long)
    then show ?thesis by (simp add: s)
  qed
  ultimately have "best_of (article_score ''Hi'') hf_a (0, []) getHelpArticles = (4, hf_a b)"
    by (simp add: g best_of_keep)
  moreover have "\<not> asks_human ''Hi''" by (simp add: asks_human_def mentions_def to_lower_def letters)
  moreover have "trim ''Hi'' = ''Hi''" by (simp add: trim_def is_space_def)
  ultimately show ?thesis using q(3) by (simp add: answerFromKnowledge_def Let_def)
qed

theorem verbatim_question_answered_witness:
  "answerFromKnowledge ''  how do I ADD a learner? '' =
     ''From your dashboard or Account '' @ right_arrow @ '' Learners, tap Add a learner and enter their name and level. A minor (under 17) must be linked to a parent or guardian to enrol.''"
proof -
  let ?q = "''  how do I ADD a learner? ''"
  let ?a = "''From your dashboard or Account '' @ right_arrow @ '' Learners, tap Add a learner and enter their name and level. A minor (under 17) must be linked to a parent or guardian to enrol.''"
  have "list_ex (\<lambda>f. hf_q f = ''How do I add a learner?'' \<and> hf_a f = ?a) (concat (map hc_faqs HELP_CATEGORIES))"
    by (simp add: HELP_CATEGORIES_def help_getting_started_def)
  then obtain a where a: "a \<in> set getHelpArticles" "hf_q a = ''How do I add a learner?''" "hf_a a = ?a"
    using article_of_faq [of "\<lambda>q t. q = ''How do I add a learner?'' \<and> t = ?a"] by (auto simp: list_ex_iff)
  have "trim ?q = ''how do I ADD a learner?''" by (simp add: trim_def is_space_def)
  then show ?thesis
    using verbatim_question_answered [of a ?q] a
    by (simp add: to_lower_def letters asks_human_def mentions_def)
qed

end
