(* ===== verification/ChatWidget.thy ===== *)
theory ChatWidget
  imports Machine Http HelpKb JsNumber CbtCommon
begin

text \<open>
  The assistant that floats over every page, \<open>client/components/layout/ChatWidget.tsx\<close>: its
  launcher, which can be dragged, the three tabs, conversations with the server for a user who
  is signed in, local answers for a guest, the handover to a person and the rating. A state is
  the hooks of the component, the data of its queries, the calls in flight and a log of what
  was sent; an event is a click on what the panel shows, a pointer event on the launcher,
  typing, an effect, or the settling of a query or a call. Coordinates are pixels; the size of
  the window, which the handlers of the launcher read at each event, is part of the state and
  may change at any time.
\<close>

section \<open>State and handlers\<close>

datatype chat_tab = HomeTab | ConversationTab | KbTab

type_synonym bubble = "jsstring \<times> jsstring" \<comment> \<open>role and content\<close>

datatype chat_purpose = ForText jsstring | ForHuman

datatype chat_call =
    Creating chat_purpose
  | Sending jsstring jsstring
  | Escalating jsstring
  | Rating jsstring nat

record drag =
  dr_offX :: rat
  dr_offY :: rat
  dr_moved :: bool
  dr_startX :: rat
  dr_startY :: rat

record chat_widget =
  cw_user :: bool
  cw_open :: bool
  cw_tab :: chat_tab
  cw_thread :: "jsstring option"
  cw_input :: jsstring
  cw_sending :: bool
  cw_error :: "jsstring option"
  cw_kbQuery :: jsstring
  cw_openFaq :: "jsstring option"
  cw_guest :: "bubble list"
  cw_escalated :: bool
  cw_rating :: nat
  cw_rated :: bool
  cw_window :: "rat \<times> rat" \<comment> \<open>\<open>innerWidth\<close> and \<open>innerHeight\<close>\<close>
  cw_anchor :: "(rat \<times> rat) option"
  cw_placed :: "rat \<times> rat" \<comment> \<open>the window when the launcher was last put somewhere\<close>
  cw_drag :: "drag option"
  cw_threads :: "(jsstring \<times> jsstring) list" \<comment> \<open>ids and titles\<close>
  cw_messages :: "jsstring \<rightharpoonup> bubble list"
  cw_calls :: "chat_call list"
  cw_sent :: "chat_call list"
  cw_pushed :: nat \<comment> \<open>times that the log-in page was opened\<close>

definition chat_widget0 :: "rat \<times> rat \<Rightarrow> bool \<Rightarrow> chat_widget" where
  "chat_widget0 window user = \<lparr>cw_user = user, cw_open = False, cw_tab = HomeTab, cw_thread = None, cw_input = [], cw_sending = False,
     cw_error = None, cw_kbQuery = [], cw_openFaq = None, cw_guest = [], cw_escalated = False, cw_rating = 0,
     cw_rated = False, cw_window = window, cw_anchor = None, cw_placed = window, cw_drag = None, cw_threads = [], cw_messages = Map.empty, cw_calls = [],
     cw_sent = [], cw_pushed = 0\<rparr>"

definition cw_call :: "chat_call \<Rightarrow> chat_widget \<Rightarrow> chat_widget" where
  "cw_call c s = s\<lparr>cw_calls := cw_calls s @ [c], cw_sent := cw_sent s @ [c]\<rparr>"

definition settled :: "chat_call \<Rightarrow> chat_widget \<Rightarrow> chat_widget" where
  "settled c s = s\<lparr>cw_calls := remove1 c (cw_calls s)\<rparr>"

definition pushGuest :: "jsstring \<Rightarrow> chat_widget \<Rightarrow> chat_widget" where
  "pushGuest text s = s\<lparr>cw_guest := cw_guest s @ [(''user'', text), (''assistant'', answerFromKnowledge text)]\<rparr>"

text \<open>What follows \<open>ensureThread\<close>, at once when there is a conversation.\<close>

definition with_thread :: "chat_purpose \<Rightarrow> jsstring \<Rightarrow> chat_widget \<Rightarrow> chat_widget" where
  "with_thread p t = (case p of ForText text \<Rightarrow> cw_call (Sending t text) | ForHuman \<Rightarrow> cw_call (Escalating t))"

definition ensureThread :: "chat_purpose \<Rightarrow> chat_widget \<Rightarrow> chat_widget" where
  "ensureThread p s = (case cw_thread s of Some t \<Rightarrow> with_thread p t s | None \<Rightarrow> cw_call (Creating p) s)"

definition send_text :: "jsstring \<Rightarrow> chat_widget \<Rightarrow> chat_widget" where
  "send_text raw s =
     (let text = trim raw; s1 = s\<lparr>cw_input := [], cw_error := None, cw_tab := ConversationTab\<rparr> in
      if text = [] \<or> cw_sending s then s
      else if \<not> cw_user s then pushGuest text s1
      else ensureThread (ForText text) (s1\<lparr>cw_sending := True\<rparr>))"

definition send_failed :: "jsstring \<Rightarrow> js_exn \<Rightarrow> chat_widget \<Rightarrow> chat_widget" where
  "send_failed text e s = (pushGuest text (s\<lparr>cw_error := Some (message_or ''Could not send'' e)\<rparr>))\<lparr>cw_sending := False\<rparr>"

definition sent_ok :: "jsstring \<Rightarrow> jsstring \<Rightarrow> jsstring \<Rightarrow> jsstring \<Rightarrow> chat_widget \<Rightarrow> chat_widget" where
  "sent_ok t text reply status s =
     s\<lparr>cw_escalated := (cw_escalated s \<or> status = ''ESCALATED''),
       cw_messages := (cw_messages s)(t \<mapsto> (case cw_messages s t of Some l \<Rightarrow> l | None \<Rightarrow> []) @ [(''user'', text), (''assistant'', reply)]),
       cw_sending := False\<rparr>"

definition askHuman :: "chat_widget \<Rightarrow> chat_widget" where
  "askHuman s = (if \<not> cw_user s then s\<lparr>cw_pushed := cw_pushed s + 1\<rparr>
     else ensureThread ForHuman (s\<lparr>cw_sending := True, cw_error := None\<rparr>))"

definition submitRating :: "nat \<Rightarrow> chat_widget \<Rightarrow> chat_widget" where
  "submitRating n s =
     (case cw_thread s of
        None \<Rightarrow> s
      | Some t \<Rightarrow> if \<not> cw_user s then s else cw_call (Rating t n) (s\<lparr>cw_rating := n\<rparr>))"

definition liveMsgs :: "chat_widget \<Rightarrow> bubble list" where
  "liveMsgs s =
     (if cw_user s then (case cw_thread s of Some t \<Rightarrow> (case cw_messages s t of Some l \<Rightarrow> l | None \<Rightarrow> []) | None \<Rightarrow> [])
      else cw_guest s)"

section \<open>The launcher\<close>

definition clamp :: "rat \<Rightarrow> rat \<Rightarrow> rat" where
  "clamp room v = min (max 0 v) (room - 56)"

text \<open>The effect that puts the launcher into the corner, as long as it has no place.\<close>

definition placeLauncher :: "chat_widget \<Rightarrow> chat_widget" where
  "placeLauncher s = s\<lparr>cw_anchor := Some (fst (cw_window s) - 32 - 56, snd (cw_window s) - 32 - 56), cw_placed := cw_window s\<rparr>"

definition launcherDown :: "nat \<Rightarrow> rat \<Rightarrow> rat \<Rightarrow> rat \<Rightarrow> rat \<Rightarrow> chat_widget \<Rightarrow> chat_widget" where
  "launcherDown button x y lx ly s =
     (if button \<noteq> 0 then s
      else s\<lparr>cw_drag := Some \<lparr>dr_offX = x - lx, dr_offY = y - ly, dr_moved = False, dr_startX = x, dr_startY = y\<rparr>\<rparr>)"

definition launcherMove :: "rat \<Rightarrow> rat \<Rightarrow> chat_widget \<Rightarrow> chat_widget" where
  "launcherMove x y s =
     (case cw_drag s of
        None \<Rightarrow> s
      | Some d \<Rightarrow>
          let moved = (dr_moved d \<or> \<bar>x - dr_startX d\<bar> > 4 \<or> \<bar>y - dr_startY d\<bar> > 4);
              s' = s\<lparr>cw_drag := Some (d\<lparr>dr_moved := moved\<rparr>)\<rparr> in
          if \<not> moved then s'
          else s'\<lparr>cw_anchor := Some (clamp (fst (cw_window s)) (x - dr_offX d), clamp (snd (cw_window s)) (y - dr_offY d)),
                  cw_placed := cw_window s\<rparr>)"

definition launcherUp :: "chat_widget \<Rightarrow> chat_widget" where
  "launcherUp s =
     (let wasMoved = (case cw_drag s of Some d \<Rightarrow> dr_moved d | None \<Rightarrow> False) in
      s\<lparr>cw_drag := None, cw_open := (if wasMoved then cw_open s else \<not> cw_open s)\<rparr>)"

section \<open>The panel\<close>

datatype widget_event =
    SessionIs bool
  | GotThreads "(jsstring \<times> jsstring) list" | GotMessages jsstring "bubble list"
  | AutoThread | PlaceLauncher | Resize rat rat
  | PointerDown nat rat rat rat rat | PointerMove rat rat | PointerUp
  | CloseChat | GoTab chat_tab | OpenArticle jsstring | OpenThread jsstring | LogIn
  | Suggest jsstring | TypeInput jsstring | SendInput | EnterKey | AskHuman | Rate nat
  | TypeKb jsstring | ToggleFaq jsstring bool
  | Created chat_purpose jsstring | CreateFailed chat_purpose js_exn
  | Sent jsstring jsstring jsstring jsstring | SendFailed jsstring jsstring js_exn
  | Escalated jsstring | EscalateFailed jsstring js_exn
  | Rated jsstring nat | RateFailed jsstring nat

definition home_view :: "chat_widget \<Rightarrow> widget_event widget list" where
  "home_view s = [Btn ''Chat with YK-Virtual'' True (GoTab ConversationTab)] @
     map (\<lambda>a. Btn (hf_q a) True (OpenArticle (hf_q a))) (take 3 getHelpArticles) @
     [Btn ''View all'' True (GoTab KbTab), Txt ''Previous conversations''] @
     (if \<not> cw_user s then [Btn ''Log in'' True LogIn]
      else if cw_threads s = [] then [Txt ''No previous conversation'']
      else map (\<lambda>t. Btn (if snd t = [] then ''Conversation'' else snd t) True (OpenThread (fst t))) (take 4 (cw_threads s)))"

definition conversation_view :: "chat_widget \<Rightarrow> widget_event widget list" where
  "conversation_view s = map (\<lambda>m. Txt (snd m)) (liveMsgs s) @
     (if cw_sending s then [Txt (''YK-Virtual is typing'' @ ellipsis)] else []) @
     (case cw_error s of Some e \<Rightarrow> if e = [] then [] else [Txt e] | None \<Rightarrow> []) @
     (if cw_escalated s then [Txt ''A human on the YK-Virtual team will pick this up. Watch your inbox and Notifications.''] else []) @
     (if liveMsgs s = [] then map (\<lambda>q. Btn q True (Suggest q)) SUGGESTED else []) @
     (if cw_user s \<and> length (liveMsgs s) \<ge> 2 \<and> \<not> cw_rated s
      then map (\<lambda>n. Btn (show_nat n @ '' stars'') True (Rate n)) [1..<6] else []) @
     (if cw_rated s then [Txt ''Thanks for the rating.''] else []) @
     [Btn ''Talk to a person'' (\<not> cw_sending s \<and> \<not> cw_escalated s) AskHuman,
      Field ''input'' (cw_input s), Btn ''Send'' (trim (cw_input s) \<noteq> [] \<and> \<not> cw_sending s) SendInput]"

definition kb_view :: "chat_widget \<Rightarrow> widget_event widget list" where
  "kb_view s = Field ''kbQuery'' (cw_kbQuery s) #
     map (\<lambda>a. Btn (hf_q a) True (ToggleFaq (hf_q a) (cw_openFaq s \<noteq> Some (hf_q a)))) (kb_articles (cw_kbQuery s))"

definition panel_view :: "chat_widget \<Rightarrow> widget_event widget list" where
  "panel_view s =
     (if \<not> cw_open s then []
      else [Txt (case cw_tab s of KbTab \<Rightarrow> ''Knowledge Base'' | ConversationTab \<Rightarrow> ''Conversation'' | HomeTab \<Rightarrow> ''YK-Virtual''),
            Btn ''Close chat'' True CloseChat] @
        (case cw_tab s of HomeTab \<Rightarrow> home_view s | ConversationTab \<Rightarrow> conversation_view s | KbTab \<Rightarrow> kb_view s) @
        [Btn ''Home'' True (GoTab HomeTab), Btn ''Conversation'' True (GoTab ConversationTab), Btn ''Knowledge Base'' True (GoTab KbTab)])"

fun widget_guard :: "chat_widget \<Rightarrow> widget_event \<Rightarrow> bool" where
  "widget_guard s (SessionIs u) = True"
| "widget_guard s (GotThreads ts) = list_all (\<lambda>t. fst t \<noteq> []) ts"
| "widget_guard s (GotMessages t ms) = True"
| "widget_guard s AutoThread = (cw_open s \<and> cw_user s \<and> cw_thread s = None \<and> cw_threads s \<noteq> [])"
| "widget_guard s PlaceLauncher = (cw_anchor s = None)"
| "widget_guard s (Resize w h) = (0 \<le> w \<and> 0 \<le> h)"
| "widget_guard s (PointerDown b x y l t) = True"
| "widget_guard s (PointerMove x y) = True"
| "widget_guard s PointerUp = True"
| "widget_guard s (TypeInput v) = (cw_open s \<and> cw_tab s = ConversationTab)"
| "widget_guard s EnterKey = (cw_open s \<and> cw_tab s = ConversationTab)"
| "widget_guard s (TypeKb v) = (cw_open s \<and> cw_tab s = KbTab)"
| "widget_guard s (Created p t) = (Creating p \<in> set (cw_calls s) \<and> t \<noteq> [])"
| "widget_guard s (CreateFailed p e) = (Creating p \<in> set (cw_calls s))"
| "widget_guard s (Sent t x r st) = (Sending t x \<in> set (cw_calls s))"
| "widget_guard s (SendFailed t x e) = (Sending t x \<in> set (cw_calls s))"
| "widget_guard s (Escalated t) = (Escalating t \<in> set (cw_calls s))"
| "widget_guard s (EscalateFailed t e) = (Escalating t \<in> set (cw_calls s))"
| "widget_guard s (Rated t n) = (Rating t n \<in> set (cw_calls s))"
| "widget_guard s (RateFailed t n) = (Rating t n \<in> set (cw_calls s))"
| "widget_guard s e = (e \<in> set (offered (panel_view s)))"

definition human_failed :: "js_exn \<Rightarrow> chat_widget \<Rightarrow> chat_widget" where
  "human_failed e s = s\<lparr>cw_error := Some (message_or ''Could not reach support'' e), cw_sending := False\<rparr>"

fun widget_step :: "chat_widget \<Rightarrow> widget_event \<Rightarrow> chat_widget" where
  "widget_step s (SessionIs u) = s\<lparr>cw_user := u\<rparr>"
| "widget_step s (GotThreads ts) = s\<lparr>cw_threads := ts\<rparr>"
| "widget_step s (GotMessages t ms) = s\<lparr>cw_messages := (cw_messages s)(t \<mapsto> ms)\<rparr>"
| "widget_step s AutoThread = s\<lparr>cw_thread := Some (fst (hd (cw_threads s)))\<rparr>"
| "widget_step s PlaceLauncher = placeLauncher s"
| "widget_step s (Resize w h) = s\<lparr>cw_window := (w, h)\<rparr>"
| "widget_step s (PointerDown b x y l t) = launcherDown b x y l t s"
| "widget_step s (PointerMove x y) = launcherMove x y s"
| "widget_step s PointerUp = launcherUp s"
| "widget_step s CloseChat = s\<lparr>cw_open := False\<rparr>"
| "widget_step s (GoTab t) = s\<lparr>cw_tab := t\<rparr>"
| "widget_step s (OpenArticle q) = s\<lparr>cw_openFaq := Some q, cw_tab := KbTab\<rparr>"
| "widget_step s (OpenThread t) = s\<lparr>cw_thread := Some t, cw_tab := ConversationTab\<rparr>"
| "widget_step s LogIn = s\<lparr>cw_pushed := cw_pushed s + 1\<rparr>"
| "widget_step s (Suggest q) = send_text q s"
| "widget_step s (TypeInput v) = s\<lparr>cw_input := v\<rparr>"
| "widget_step s SendInput = send_text (cw_input s) s"
| "widget_step s EnterKey = send_text (cw_input s) s"
| "widget_step s AskHuman = askHuman s"
| "widget_step s (Rate n) = submitRating n s"
| "widget_step s (TypeKb v) = s\<lparr>cw_kbQuery := v\<rparr>"
| "widget_step s (ToggleFaq q b) = s\<lparr>cw_openFaq := (if b then Some q else None)\<rparr>"
| "widget_step s (Created p t) = with_thread p t (settled (Creating p) (s\<lparr>cw_thread := Some t\<rparr>))"
| "widget_step s (CreateFailed p e) =
     (case p of ForText x \<Rightarrow> send_failed x e (settled (Creating p) s) | ForHuman \<Rightarrow> human_failed e (settled (Creating p) s))"
| "widget_step s (Sent t x r st) = sent_ok t x r st (settled (Sending t x) s)"
| "widget_step s (SendFailed t x e) = send_failed x e (settled (Sending t x) s)"
| "widget_step s (Escalated t) = (settled (Escalating t) s)\<lparr>cw_escalated := True, cw_sending := False\<rparr>"
| "widget_step s (EscalateFailed t e) = human_failed e (settled (Escalating t) s)"
| "widget_step s (Rated t n) = (settled (Rating t n) s)\<lparr>cw_rated := True\<rparr>"
| "widget_step s (RateFailed t n) = (settled (Rating t n) s)\<lparr>cw_error := Some ''Could not save rating''\<rparr>"

section \<open>The invariant\<close>

fun busy_call :: "chat_call \<Rightarrow> bool" where
  "busy_call (Rating t n) = False"
| "busy_call c = True"

fun purpose_ok :: "chat_purpose \<Rightarrow> bool" where
  "purpose_ok (ForText x) = (x \<noteq> [] \<and> trim x = x)"
| "purpose_ok ForHuman = True"

fun call_ok :: "chat_call \<Rightarrow> bool" where
  "call_ok (Creating p) = purpose_ok p"
| "call_ok (Sending t x) = (t \<noteq> [] \<and> x \<noteq> [] \<and> trim x = x)"
| "call_ok (Escalating t) = (t \<noteq> [])"
| "call_ok (Rating t n) = (t \<noteq> [] \<and> 1 \<le> n \<and> n \<le> 5)"

text \<open>
  The launcher is 56 pixels wide and high. The corner it starts in is 88 pixels from the right and
  the lower edge, so it needs a window of 88 pixels to begin inside the left and the upper one.
\<close>

definition inside :: "rat \<times> rat \<Rightarrow> rat \<times> rat \<Rightarrow> bool" where
  "inside w p = (0 \<le> fst p \<and> fst p + 56 \<le> fst w \<and> 0 \<le> snd p \<and> snd p + 56 \<le> snd w)"

definition well_placed :: "rat \<times> rat \<Rightarrow> rat \<times> rat \<Rightarrow> bool" where
  "well_placed w p = (fst p + 56 \<le> fst w \<and> snd p + 56 \<le> snd w \<and> (88 \<le> fst w \<longrightarrow> 0 \<le> fst p) \<and> (88 \<le> snd w \<longrightarrow> 0 \<le> snd p))"

definition talk_inv :: "chat_widget \<Rightarrow> bool" where
  "talk_inv s =
     (length (filter busy_call (cw_calls s)) = (if cw_sending s then 1 else 0) \<and>
      list_all call_ok (cw_calls s) \<and> list_all call_ok (cw_sent s) \<and> cw_thread s \<noteq> Some [] \<and>
      list_all (\<lambda>t. fst t \<noteq> []) (cw_threads s))"

definition widget_inv :: "chat_widget \<Rightarrow> bool" where
  "widget_inv s = (talk_inv s \<and> pred_option (well_placed (cw_placed s)) (cw_anchor s))"

lemma cw_call_simps [simp]:
  "cw_calls (cw_call c s) = cw_calls s @ [c]" "cw_sent (cw_call c s) = cw_sent s @ [c]"
  "cw_sending (cw_call c s) = cw_sending s" "cw_thread (cw_call c s) = cw_thread s" "cw_threads (cw_call c s) = cw_threads s"
  "cw_user (cw_call c s) = cw_user s" "cw_anchor (cw_call c s) = cw_anchor s" "cw_placed (cw_call c s) = cw_placed s" "cw_escalated (cw_call c s) = cw_escalated s"
  "cw_rated (cw_call c s) = cw_rated s" "cw_input (cw_call c s) = cw_input s" "cw_guest (cw_call c s) = cw_guest s"
  "cw_messages (cw_call c s) = cw_messages s"
  by (simp_all add: cw_call_def)

lemma settled_simps [simp]:
  "cw_calls (settled c s) = remove1 c (cw_calls s)" "cw_sent (settled c s) = cw_sent s"
  "cw_sending (settled c s) = cw_sending s" "cw_thread (settled c s) = cw_thread s" "cw_threads (settled c s) = cw_threads s"
  "cw_user (settled c s) = cw_user s" "cw_anchor (settled c s) = cw_anchor s" "cw_placed (settled c s) = cw_placed s" "cw_escalated (settled c s) = cw_escalated s"
  "cw_rated (settled c s) = cw_rated s" "cw_input (settled c s) = cw_input s" "cw_guest (settled c s) = cw_guest s"
  "cw_messages (settled c s) = cw_messages s"
  by (simp_all add: settled_def)

lemma talk_call: "talk_inv s \<Longrightarrow> call_ok c \<Longrightarrow> \<not> busy_call c \<Longrightarrow> talk_inv (cw_call c s)"
  by (simp add: talk_inv_def)

lemma talk_busy: "talk_inv (s\<lparr>cw_sending := False\<rparr>) \<Longrightarrow> cw_sending s \<Longrightarrow> call_ok c \<Longrightarrow> busy_call c \<Longrightarrow> talk_inv (cw_call c s)"
  by (simp add: talk_inv_def)

lemma talk_settled:
  assumes "talk_inv s" "c \<in> set (cw_calls s)"
  shows "busy_call c \<Longrightarrow> talk_inv ((settled c s)\<lparr>cw_sending := False\<rparr>) \<and> cw_sending s"
    and "\<not> busy_call c \<Longrightarrow> talk_inv (settled c s)"
proof -
  have len: "length (filter busy_call (remove1 c (cw_calls s))) = length (filter busy_call (cw_calls s)) - (if busy_call c then 1 else 0)"
    using assms(2) by (cases "busy_call c") (simp_all add: length_filter_remove1 filter_remove1_other)
  have pos: "busy_call c \<Longrightarrow> length (filter busy_call (cw_calls s)) > 0"
    using assms(2) by (auto simp: filter_empty_conv)
  show "busy_call c \<Longrightarrow> talk_inv ((settled c s)\<lparr>cw_sending := False\<rparr>) \<and> cw_sending s"
    using assms(1) len pos by (auto simp: talk_inv_def list_all_remove1 split: if_splits)
  show "\<not> busy_call c \<Longrightarrow> talk_inv (settled c s)"
    using assms(1) len by (auto simp: talk_inv_def list_all_remove1)
qed

lemma ensure_inv:
  assumes "talk_inv (s\<lparr>cw_sending := False\<rparr>)" "cw_sending s" "purpose_ok p"
  shows "talk_inv (ensureThread p s)"
proof (cases "cw_thread s")
  case None
  with assms show ?thesis by (simp add: ensureThread_def talk_busy)
next
  case (Some t)
  with assms have "call_ok (Escalating t) \<and> (case p of ForText x \<Rightarrow> call_ok (Sending t x) | ForHuman \<Rightarrow> True)"
    by (cases p) (auto simp: talk_inv_def)
  with Some assms show ?thesis by (cases p) (simp_all add: ensureThread_def with_thread_def talk_busy)
qed

lemma talk_frame:
  "talk_inv s \<Longrightarrow> cw_calls s' = cw_calls s \<Longrightarrow> cw_sent s' = cw_sent s \<Longrightarrow> cw_sending s' = cw_sending s \<Longrightarrow>
   cw_thread s' = cw_thread s \<Longrightarrow> cw_threads s' = cw_threads s \<Longrightarrow> talk_inv s'"
  by (simp add: talk_inv_def)

lemma send_text_inv: "talk_inv s \<Longrightarrow> talk_inv (send_text raw s)"
proof (cases "trim raw = [] \<or> cw_sending s")
  case True
  then show "talk_inv s \<Longrightarrow> ?thesis" by (simp add: send_text_def Let_def)
next
  case False
  assume i: "talk_inv s"
  show ?thesis
  proof (cases "cw_user s")
    case True
    then have "send_text raw s = ensureThread (ForText (trim raw))
        (s\<lparr>cw_input := [], cw_error := None, cw_tab := ConversationTab, cw_sending := True\<rparr>)"
      using False by (simp add: send_text_def Let_def)
    moreover have "talk_inv (s\<lparr>cw_input := [], cw_error := None, cw_tab := ConversationTab, cw_sending := False\<rparr>)"
      using i False by (auto simp: talk_inv_def)
    ultimately show ?thesis using False by (simp add: ensure_inv)
  next
    case no_user: False
    with False i show ?thesis by (simp add: send_text_def Let_def pushGuest_def talk_inv_def)
  qed
qed

lemma send_failed_inv: "talk_inv (s\<lparr>cw_sending := False\<rparr>) \<Longrightarrow> talk_inv (send_failed x e s)"
  by (simp add: send_failed_def pushGuest_def talk_inv_def)

lemma home_offers:
  "e \<in> set (offered (home_view s)) \<Longrightarrow>
   (\<exists>q. e = OpenArticle q) \<or> (\<exists>t. e = GoTab t) \<or> e = LogIn \<or> (\<exists>t\<in>set (cw_threads s). e = OpenThread (fst t))"
  by (cases "cw_user s"; cases "cw_threads s = []") (auto simp: home_view_def dest: in_set_takeD)

lemma conversation_offers:
  "e \<in> set (offered (conversation_view s)) \<Longrightarrow>
   (\<exists>q. e = Suggest q \<and> liveMsgs s = []) \<or> (\<exists>n. e = Rate n \<and> 1 \<le> n \<and> n \<le> 5 \<and> \<not> cw_rated s) \<or>
   (e = AskHuman \<and> \<not> cw_sending s \<and> \<not> cw_escalated s) \<or> (e = SendInput \<and> \<not> cw_sending s)"
  by (cases "cw_error s") (auto simp: conversation_view_def split: if_splits)

lemma kb_offers: "e \<in> set (offered (kb_view s)) \<Longrightarrow> \<exists>q b. e = ToggleFaq q b"
  by (auto simp: kb_view_def)

lemma panel_offers:
  assumes "e \<in> set (offered (panel_view s))"
  shows "(case e of AskHuman \<Rightarrow> \<not> cw_sending s \<and> \<not> cw_escalated s | Rate n \<Rightarrow> 1 \<le> n \<and> n \<le> 5 \<and> \<not> cw_rated s
    | OpenThread t \<Rightarrow> t \<in> fst ` set (cw_threads s) | _ \<Rightarrow> True)"
proof -
  have "e = CloseChat \<or> (\<exists>t. e = GoTab t) \<or> e \<in> set (offered (home_view s)) \<or> e \<in> set (offered (conversation_view s)) \<or>
      e \<in> set (offered (kb_view s))"
    using assms by (cases "cw_tab s") (auto simp: panel_view_def split: if_splits)
  then show ?thesis
    using home_offers [of e s] conversation_offers [of e s] kb_offers [of e s] by (cases e) (auto intro: rev_image_eqI)
qed

lemma clamp_placed: "well_placed w (clamp (fst w) x, clamp (snd w) y)"
  by (auto simp: well_placed_def clamp_def min_def)

lemma clamp_inside: "56 \<le> W \<Longrightarrow> 56 \<le> H \<Longrightarrow> inside (W, H) (clamp W x, clamp H y)"
  by (auto simp: inside_def clamp_def min_def)

lemma move_frame:
  "talk_inv s \<Longrightarrow> talk_inv (launcherMove x y s)"
  by (cases "cw_drag s") (auto simp: launcherMove_def Let_def intro: talk_frame)

lemma move_anchor:
  "pred_option (well_placed (cw_placed s)) (cw_anchor s) \<Longrightarrow>
   pred_option (well_placed (cw_placed (launcherMove x y s))) (cw_anchor (launcherMove x y s))"
  by (cases "cw_drag s") (simp_all add: launcherMove_def Let_def clamp_placed)

lemma other_anchor [simp]:
  "cw_anchor (send_text r s) = cw_anchor s" "cw_anchor (send_failed r e s) = cw_anchor s" "cw_anchor (human_failed e s) = cw_anchor s"
  "cw_anchor (askHuman s) = cw_anchor s" "cw_anchor (submitRating n s) = cw_anchor s" "cw_anchor (sent_ok t r rep st s) = cw_anchor s"
  "cw_anchor (with_thread p t s) = cw_anchor s" "cw_anchor (launcherDown b x y l m s) = cw_anchor s"
  "cw_anchor (launcherUp s) = cw_anchor s"
  "cw_placed (send_text r s) = cw_placed s" "cw_placed (send_failed r e s) = cw_placed s" "cw_placed (human_failed e s) = cw_placed s"
  "cw_placed (askHuman s) = cw_placed s" "cw_placed (submitRating n s) = cw_placed s" "cw_placed (sent_ok t r rep st s) = cw_placed s"
  "cw_placed (with_thread p t s) = cw_placed s" "cw_placed (launcherDown b x y l m s) = cw_placed s"
  "cw_placed (launcherUp s) = cw_placed s"
  by (auto simp: send_text_def Let_def send_failed_def pushGuest_def human_failed_def askHuman_def submitRating_def sent_ok_def
      with_thread_def launcherDown_def launcherUp_def ensureThread_def split: option.splits chat_purpose.splits)

lemma human_inv: "talk_inv s \<Longrightarrow> \<not> cw_sending s \<Longrightarrow> talk_inv (askHuman s)"
proof -
  assume i: "talk_inv s" "\<not> cw_sending s"
  then have "talk_inv (ensureThread ForHuman (s\<lparr>cw_sending := True, cw_error := None\<rparr>))"
    by (intro ensure_inv) (simp_all add: talk_inv_def)
  moreover have "talk_inv (s\<lparr>cw_pushed := cw_pushed s + 1\<rparr>)" using i by (auto intro: talk_frame)
  ultimately show ?thesis by (simp add: askHuman_def)
qed

lemma rating_inv: "talk_inv s \<Longrightarrow> 1 \<le> n \<Longrightarrow> n \<le> 5 \<Longrightarrow> talk_inv (submitRating n s)"
  by (cases "cw_thread s") (auto simp: submitRating_def talk_inv_def)

lemma created_inv:
  assumes "talk_inv s" "Creating p \<in> set (cw_calls s)" "t \<noteq> []"
  shows "talk_inv (with_thread p t (settled (Creating p) (s\<lparr>cw_thread := Some t\<rparr>)))"
proof -
  have "talk_inv (s\<lparr>cw_thread := Some t\<rparr>)" using assms by (simp add: talk_inv_def)
  then have i: "talk_inv ((settled (Creating p) (s\<lparr>cw_thread := Some t\<rparr>))\<lparr>cw_sending := False\<rparr>) \<and> cw_sending s"
    using talk_settled(1) [of "s\<lparr>cw_thread := Some t\<rparr>" "Creating p"] assms(2) by simp
  have "call_ok (Creating p)" using assms(1,2) by (auto simp: talk_inv_def list_all_iff)
  with i assms(3) show ?thesis by (cases p) (simp_all add: with_thread_def talk_busy)
qed

lemma talk_step:
  assumes "talk_inv s" "widget_guard s e"
  shows "talk_inv (widget_step s e)"
proof (cases e)
  case (Created p t)
  then show ?thesis using assms created_inv by simp
next
  case (CreateFailed p x)
  then have i: "talk_inv ((settled (Creating p) s)\<lparr>cw_sending := False\<rparr>)"
    using assms talk_settled(1) [of s "Creating p"] by simp
  show ?thesis unfolding CreateFailed widget_step.simps
  proof (cases p)
    case ForHuman
    with i show "talk_inv (case p of ForText y \<Rightarrow> send_failed y x (settled (Creating p) s) | ForHuman \<Rightarrow> human_failed x (settled (Creating p) s))"
      by (auto simp: human_failed_def intro: talk_frame)
  next
    case (ForText y)
    with i show "talk_inv (case p of ForText y \<Rightarrow> send_failed y x (settled (Creating p) s) | ForHuman \<Rightarrow> human_failed x (settled (Creating p) s))"
      by (simp add: send_failed_inv)
  qed
next
  case (Sent t x r st)
  then show ?thesis using assms talk_settled(1) [of s "Sending t x"] by (auto simp: sent_ok_def intro: talk_frame)
next
  case (SendFailed t x e)
  then show ?thesis using assms talk_settled(1) [of s "Sending t x"] by (simp add: send_failed_inv)
next
  case (Escalated t)
  then show ?thesis using assms talk_settled(1) [of s "Escalating t"] by (auto intro: talk_frame)
next
  case (EscalateFailed t e)
  then show ?thesis using assms talk_settled(1) [of s "Escalating t"] by (auto simp: human_failed_def intro: talk_frame)
next
  case (Rated t n)
  then show ?thesis using assms talk_settled(2) [of s "Rating t n"] by (auto intro: talk_frame)
next
  case (RateFailed t n)
  then show ?thesis using assms talk_settled(2) [of s "Rating t n"] by (auto intro: talk_frame)
next
  case AskHuman
  then show ?thesis using assms panel_offers [of e s] human_inv by simp
next
  case (Rate n)
  then show ?thesis using assms panel_offers [of e s] rating_inv by simp
next
  case (OpenThread t)
  then show ?thesis using assms panel_offers [of e s] by (auto simp: talk_inv_def list_all_iff)
next
  case AutoThread
  then show ?thesis using assms by (cases "cw_threads s") (auto simp: talk_inv_def)
next
  case (GotThreads ts)
  then show ?thesis using assms by (simp add: talk_inv_def)
next
  case (PointerMove x y)
  then show ?thesis using assms by (simp add: move_frame)
next
  case (PointerDown b x y l m)
  then show ?thesis using assms by (auto simp: launcherDown_def intro: talk_frame)
next
  case PointerUp
  then show ?thesis using assms by (auto simp: launcherUp_def Let_def intro: talk_frame)
next
  case (Suggest q)
  then show ?thesis using assms by (simp add: send_text_inv)
next
  case SendInput
  then show ?thesis using assms by (simp add: send_text_inv)
next
  case EnterKey
  then show ?thesis using assms by (simp add: send_text_inv)
qed (use assms(1) in \<open>simp_all add: talk_inv_def placeLauncher_def\<close>)

lemma anchor_step:
  assumes "pred_option (well_placed (cw_placed s)) (cw_anchor s)"
  shows "pred_option (well_placed (cw_placed (widget_step s e))) (cw_anchor (widget_step s e))"
proof (cases e)
  case (PointerMove x y)
  then show ?thesis using assms move_anchor by simp
next
  case PlaceLauncher
  then show ?thesis by (simp add: placeLauncher_def well_placed_def)
next
  case (CreateFailed p x)
  then show ?thesis using assms by (cases p) simp_all
qed (use assms in simp_all)

interpretation widget: bounded_machine "\<lambda>s. \<exists>w u. s = chat_widget0 w u" widget_guard widget_step
  widget_inv "\<lambda>s. length (filter busy_call (cw_calls s))" 1
proof unfold_locales
  fix s assume "\<exists>w u. s = chat_widget0 w u"
  then show "widget_inv s" by (auto simp: widget_inv_def talk_inv_def chat_widget0_def)
next
  fix s e assume "widget_inv s" "widget_guard s e"
  then show "widget_inv (widget_step s e)" by (simp add: widget_inv_def talk_step anchor_step)
next
  fix s assume "widget_inv s"
  then show "length (filter busy_call (cw_calls s)) \<le> 1" by (simp add: widget_inv_def talk_inv_def)
qed

abbreviation widget_reach :: "chat_widget \<Rightarrow> bool" where
  "widget_reach \<equiv> reach (\<lambda>s. \<exists>w u. s = chat_widget0 w u) widget_guard widget_step"

text \<open>
  C33. However the window is resized and the launcher dragged, the launcher lies left of the right and
  above the lower edge of the window as it was when it was last put somewhere (by the effect or by a
  drag), and, where that window was at least 88 pixels wide or high, not beyond its left or upper edge; so
  it is inside the present window whenever that is no smaller, and at least 88 by 88 pixels were
  there. At most one message or handover is under way; what is sent is a trimmed text to a named
  conversation, or a rating of one to five stars.
\<close>

theorem widget_safe:
  assumes "widget_reach s"
  shows "(case cw_anchor s of
      None \<Rightarrow> True
    | Some p \<Rightarrow> let (W, H) = cw_placed s in
        fst p + 56 \<le> W \<and> snd p + 56 \<le> H \<and> (if 88 \<le> W then 0 \<le> fst p else True) \<and> (if 88 \<le> H then 0 \<le> snd p else True) \<and>
        (if 88 \<le> W \<and> 88 \<le> H \<and> W \<le> fst (cw_window s) \<and> H \<le> snd (cw_window s) then inside (cw_window s) p else True)) \<and>
    length (filter busy_call (cw_calls s)) \<le> 1 \<and>
    list_all (\<lambda>c. case c of
        Creating p \<Rightarrow> (case p of ForText x \<Rightarrow> x \<noteq> [] \<and> trim x = x | ForHuman \<Rightarrow> True)
      | Sending t x \<Rightarrow> t \<noteq> [] \<and> x \<noteq> [] \<and> trim x = x
      | Escalating t \<Rightarrow> t \<noteq> []
      | Rating t n \<Rightarrow> t \<noteq> [] \<and> 1 \<le> n \<and> n \<le> 5) (cw_sent s)"
proof -
  have inv: "list_all call_ok (cw_sent s)" "pred_option (well_placed (cw_placed s)) (cw_anchor s)"
    using widget.reach_inv [OF assms] by (simp_all add: widget_inv_def talk_inv_def)
  have "list_all (\<lambda>c. case c of
        Creating p \<Rightarrow> (case p of ForText x \<Rightarrow> x \<noteq> [] \<and> trim x = x | ForHuman \<Rightarrow> True)
      | Sending t x \<Rightarrow> t \<noteq> [] \<and> x \<noteq> [] \<and> trim x = x
      | Escalating t \<Rightarrow> t \<noteq> []
      | Rating t n \<Rightarrow> t \<noteq> [] \<and> 1 \<le> n \<and> n \<le> 5) (cw_sent s)"
    using inv(1) by (rule list.pred_mono_strong) (auto split: chat_call.splits chat_purpose.splits)
  then show ?thesis using inv(2) widget.reach_load [OF assms]
    by (cases "cw_anchor s") (auto simp: well_placed_def inside_def split: prod.splits)
qed

text \<open>
  Nothing but a drag moves a launcher that has a place: after the window has become smaller it stays
  where it was, beyond the edge, and a launcher that is out of sight cannot be dragged.
\<close>

theorem resize_loses_launcher:
  assumes "cw_anchor s = Some p" "list_all (\<lambda>e. \<not> (\<exists>x y. e = PointerMove x y)) evs" "allowed widget_guard widget_step s (Resize w h # evs)"
  shows "cw_anchor (run widget_step s (Resize w h # evs)) = Some p"
proof -
  have "cw_anchor (run widget_step t es) = Some p"
    if "cw_anchor t = Some p" "list_all (\<lambda>e. \<not> (\<exists>x y. e = PointerMove x y)) es" "allowed widget_guard widget_step t es" for t es
    using that
  proof (induction es arbitrary: t)
    case (Cons e es)
    have "cw_anchor (widget_step t e) = Some p"
    proof (cases e)
      case (CreateFailed q x)
      then show ?thesis using Cons.prems(1) by (cases q) simp_all
    qed (use Cons.prems in simp_all)
    then show ?case using Cons.IH [of "widget_step t e"] Cons.prems by simp
  qed simp
  from this [of "widget_step s (Resize w h)" evs] assms show ?thesis by simp
qed

section \<open>What the assistant loses\<close>

text \<open>
  A message of a signed-in user that the server does not take is answered locally, but the
  answer goes to the list that only a guest is shown: the conversation is the one before, the
  typed text is gone and only the error is left.
\<close>

theorem failed_message_vanishes:
  fixes s x e t
  assumes "cw_user s" "cw_thread s = Some t" "\<not> cw_sending s" "trim (cw_input s) = x" "x \<noteq> []"
  defines "s' \<equiv> run widget_step s [SendInput, SendFailed t x e]"
  shows "liveMsgs s' = liveMsgs s \<and> cw_input s' = [] \<and> cw_error s' = Some (message_or ''Could not send'' e) \<and>
    cw_guest s' = cw_guest s @ [(''user'', x), (''assistant'', answerFromKnowledge x)]"
  using assms by (simp add: send_text_def Let_def ensureThread_def with_thread_def send_failed_def pushGuest_def liveMsgs_def)

text \<open>A guest's question is answered on the spot, and no request leaves the browser.\<close>

theorem guest_answered_locally:
  assumes "\<not> cw_user s" "\<not> cw_sending s" "trim q \<noteq> []"
  shows "cw_sent (send_text q s) = cw_sent s \<and> cw_calls (send_text q s) = cw_calls s \<and> cw_tab (send_text q s) = ConversationTab \<and>
    liveMsgs (send_text q s) = liveMsgs s @ [(''user'', trim q), (''assistant'', answerFromKnowledge (trim q))]"
  using assms by (simp add: send_text_def Let_def pushGuest_def liveMsgs_def)

text \<open>
  Once one conversation has been handed to a person and its handover has settled, no other
  conversation can be handed over until the page is reloaded.
\<close>

fun is_escalation :: "chat_call \<Rightarrow> bool" where
  "is_escalation (Escalating t) = True"
| "is_escalation (Creating ForHuman) = True"
| "is_escalation c = False"

lemma no_escalation_step:
  assumes "cw_escalated s" "list_all (\<lambda>c. \<not> is_escalation c) (cw_calls s)" "widget_guard s e"
  shows "cw_escalated (widget_step s e) \<and> list_all (\<lambda>c. \<not> is_escalation c) (cw_calls (widget_step s e)) \<and>
    filter is_escalation (cw_sent (widget_step s e)) = filter is_escalation (cw_sent s)"
proof -
  have send: "cw_escalated (send_text x s) \<and> list_all (\<lambda>c. \<not> is_escalation c) (cw_calls (send_text x s)) \<and>
      filter is_escalation (cw_sent (send_text x s)) = filter is_escalation (cw_sent s)" for x
    using assms(1,2)
    by (cases "cw_thread s") (auto simp: send_text_def Let_def pushGuest_def ensureThread_def with_thread_def)
  show ?thesis
  proof (cases e)
    case (Created p t)
    then have "p \<noteq> ForHuman" using assms by (auto simp: list_all_iff)
    with Created assms show ?thesis by (cases p) (simp_all add: with_thread_def list_all_remove1)
  next
    case (CreateFailed p x)
    with assms show ?thesis
      by (cases p) (simp_all add: send_failed_def pushGuest_def human_failed_def list_all_remove1)
  next
    case AskHuman
    then show ?thesis using assms panel_offers [of e s] by simp
  next
    case (Rate n)
    then show ?thesis using assms by (cases "cw_thread s") (simp_all add: submitRating_def)
  next
    case (PointerMove x y)
    then show ?thesis using assms by (cases "cw_drag s") (simp_all add: launcherMove_def Let_def)
  qed (use assms send in \<open>simp_all add: list_all_remove1 sent_ok_def send_failed_def pushGuest_def human_failed_def placeLauncher_def launcherDown_def launcherUp_def Let_def\<close>)
qed

theorem one_handover_per_visit:
  assumes "cw_escalated s" "list_all (\<lambda>c. \<not> is_escalation c) (cw_calls s)" "allowed widget_guard widget_step s evs"
  shows "filter is_escalation (cw_sent (run widget_step s evs)) = filter is_escalation (cw_sent s)"
proof -
  have "cw_escalated (run widget_step s evs) \<and> list_all (\<lambda>c. \<not> is_escalation c) (cw_calls (run widget_step s evs)) \<and>
      filter is_escalation (cw_sent (run widget_step s evs)) = filter is_escalation (cw_sent s)"
    using assms
  proof (induction evs arbitrary: s)
    case (Cons e evs)
    have "cw_escalated (widget_step s e)" "list_all (\<lambda>c. \<not> is_escalation c) (cw_calls (widget_step s e))"
      "filter is_escalation (cw_sent (widget_step s e)) = filter is_escalation (cw_sent s)"
      using no_escalation_step [of s e] Cons.prems by simp_all
    then show ?case using Cons.IH [of "widget_step s e"] Cons.prems by simp
  qed simp
  then show ?thesis by simp
qed

text \<open>A right click on the launcher opens and closes the panel: only the press looks at the button.\<close>

theorem right_click_toggles:
  assumes "cw_drag s = None" "button \<noteq> 0"
  shows "cw_open (run widget_step s [PointerDown button x y l m, PointerUp]) = (\<not> cw_open s)"
  using assms by (simp add: launcherDown_def launcherUp_def)

text \<open>A drag moves the launcher and leaves the panel as it is.\<close>

theorem drag_moves_only:
  assumes "4 < \<bar>x' - x\<bar>" "56 \<le> W" "56 \<le> H" "cw_window s = (W, H)"
  shows "cw_open (run widget_step s [PointerDown 0 x y l m, PointerMove x' y', PointerUp]) = cw_open s \<and>
    (case cw_anchor (run widget_step s [PointerDown 0 x y l m, PointerMove x' y', PointerUp]) of
       Some p \<Rightarrow> inside (W, H) p \<and> p = (clamp W (x' - (x - l)), clamp H (y' - (y - m))) | None \<Rightarrow> False)"
  using assms by (simp add: launcherDown_def launcherMove_def launcherUp_def Let_def clamp_inside)

section \<open>Witnesses\<close>

definition chatting :: chat_widget where
  "chatting = (chat_widget0 (800, 600) True)\<lparr>cw_open := True, cw_tab := ConversationTab, cw_thread := Some ''t1'', cw_input := ''hello ''\<rparr>"

lemmas chat_eval = chatting_def chat_widget0_def trim_def is_space_def

theorem failed_message_vanishes_witness:
  "cw_input (run widget_step chatting [SendInput, SendFailed ''t1'' ''hello'' null_deref]) = [] \<and>
   liveMsgs (run widget_step chatting [SendInput, SendFailed ''t1'' ''hello'' null_deref]) = []"
  using failed_message_vanishes [of chatting "''t1''" "''hello''" null_deref]
  by (simp add: chat_eval liveMsgs_def)

theorem guest_answered_locally_witness:
  "cw_sent (send_text ''How do refunds work?'' (chat_widget0 (800, 600) False)) = []"
  using guest_answered_locally [of "chat_widget0 (800, 600) False" "''How do refunds work?''"]
  by (simp add: chat_eval)

definition handed_over :: chat_widget where
  "handed_over = chatting\<lparr>cw_escalated := True\<rparr>"

theorem one_handover_per_visit_witness:
  "filter is_escalation (cw_sent (run widget_step handed_over [GoTab HomeTab, GotThreads [(''t2'', [])], OpenThread ''t2''])) = []"
  using one_handover_per_visit [of handed_over "[GoTab HomeTab, GotThreads [(''t2'', [])], OpenThread ''t2'']"]
  by (simp add: handed_over_def chat_eval panel_view_def conversation_view_def home_view_def)

theorem right_click_toggles_witness:
  "cw_open (run widget_step (chat_widget0 (800, 600) False) [PointerDown 2 10 10 0 0, PointerUp])"
  using right_click_toggles [of "chat_widget0 (800, 600) False" 2 10 10 0 0] by (simp add: chat_widget0_def)

theorem drag_moves_only_witness:
  "cw_anchor (run widget_step (chat_widget0 (800, 600) False) [PointerDown 0 730 530 712 512, PointerMove 2000 (-5), PointerUp]) = Some (744, 0)"
  using drag_moves_only [of 2000 730 "800" "600" "chat_widget0 (800, 600) False" 530 712 512 "-5"]
  by (simp add: clamp_def chat_widget0_def split: option.splits)

lemma widget_started: "widget_reach (run widget_step (chat_widget0 (800, 600) True)
    [PlaceLauncher, PointerDown 0 730 530 712 512, PointerUp, GoTab ConversationTab, TypeInput ''hello '', EnterKey])"
  by (rule run_reachable) (auto simp: chat_widget0_def placeLauncher_def launcherDown_def launcherUp_def panel_view_def)

theorem widget_safe_witness:
  "let s = run widget_step (chat_widget0 (800, 600) True)
     [PlaceLauncher, PointerDown 0 730 530 712 512, PointerUp, GoTab ConversationTab, TypeInput ''hello '', EnterKey] in
   cw_sent s = [Creating (ForText ''hello'')] \<and> length (filter busy_call (cw_calls s)) \<le> 1 \<and> cw_anchor s = Some (712, 512)"
  using widget_safe [OF widget_started] unfolding Let_def
  by (simp add: chat_widget0_def placeLauncher_def launcherDown_def launcherUp_def send_text_def Let_def trim_def is_space_def ensureThread_def)

theorem resize_loses_launcher_witness:
  "let s = run widget_step (chat_widget0 (800, 600) True) [PlaceLauncher, Resize 400 300, PointerUp, CloseChat] in
   cw_anchor s = Some (712, 512) \<and> \<not> inside (cw_window s) (712, 512)"
proof -
  let ?s = "run widget_step (chat_widget0 (800, 600) True) [PlaceLauncher]"
  have f: "cw_anchor ?s = Some (712, 512)" "allowed widget_guard widget_step ?s [Resize 400 300, PointerUp, CloseChat]"
    by (simp_all add: chat_widget0_def placeLauncher_def launcherUp_def panel_view_def)
  from resize_loses_launcher [OF f(1) _ f(2)] show ?thesis unfolding Let_def
    by (simp add: chat_widget0_def placeLauncher_def launcherUp_def inside_def)
qed

end
