(* ===== verification/ChatPages.thy ===== *)
theory ChatPages
  imports Machine Http JsNumber JsText
begin

text \<open>
  Three more screens of the assistant: the full page \<open>client/app/chat/page.tsx\<close> with its
  optimistic bubbles, the phone's \<open>mobile/app/chat.tsx\<close>, and the agents' inbox
  \<open>client/app/admin/chat/page.tsx\<close>. Each is a machine over its hooks, the cached lists of its
  queries and the calls in flight. The full page is shown to refine the list of the messages
  that the server has acknowledged.
\<close>

section \<open>The full page\<close>

record chat_msg =
  cm_id :: jsstring
  cm_role :: jsstring
  cm_content :: jsstring

record chat_row =
  ct_id :: jsstring
  ct_title :: jsstring
  ct_status :: jsstring

datatype page_call =
    NewThread
  | SendMsg jsstring jsstring jsstring \<comment> \<open>thread, text, id of the optimistic bubble\<close>
  | HandOver jsstring "jsstring option"
  | RateChat jsstring nat

record chat_page =
  cp_active :: "jsstring option"
  cp_input :: jsstring
  cp_sending :: bool
  cp_escalating :: bool
  cp_rating :: "nat option"
  cp_ratingSaved :: bool
  cp_threads :: "chat_row list"
  cp_messages :: "jsstring \<Rightarrow> chat_msg list" \<comment> \<open>cached by thread, empty when absent\<close>
  cp_calls :: "page_call list"
  cp_sent :: "page_call list"
  cp_toasts :: "jsstring list"

definition chat_page0 :: chat_page where
  "chat_page0 = \<lparr>cp_active = None, cp_input = [], cp_sending = False, cp_escalating = False, cp_rating = None,
     cp_ratingSaved = False, cp_threads = [], cp_messages = (\<lambda>t. []), cp_calls = [], cp_sent = [], cp_toasts = []\<rparr>"

definition page_call :: "page_call \<Rightarrow> chat_page \<Rightarrow> chat_page" where
  "page_call c s = s\<lparr>cp_calls := cp_calls s @ [c], cp_sent := cp_sent s @ [c]\<rparr>"

definition page_settled :: "page_call \<Rightarrow> chat_page \<Rightarrow> chat_page" where
  "page_settled c s = s\<lparr>cp_calls := remove1 c (cp_calls s)\<rparr>"

definition toast :: "jsstring \<Rightarrow> chat_page \<Rightarrow> chat_page" where
  "toast m s = s\<lparr>cp_toasts := cp_toasts s @ [m]\<rparr>"

definition on_messages :: "jsstring \<Rightarrow> (chat_msg list \<Rightarrow> chat_msg list) \<Rightarrow> chat_page \<Rightarrow> chat_page" where
  "on_messages t f s = s\<lparr>cp_messages := (cp_messages s)(t := f (cp_messages s t))\<rparr>"

definition tmp_id :: "nat \<Rightarrow> jsstring" where "tmp_id now = ''tmp-'' @ show_nat now"

definition page_send :: "nat \<Rightarrow> chat_page \<Rightarrow> chat_page" where
  "page_send now s =
     (let text = trim (cp_input s) in
      case cp_active s of
        None \<Rightarrow> s
      | Some t \<Rightarrow> if text = [] \<or> cp_sending s then s
          else page_call (SendMsg t text (tmp_id now))
            (on_messages t (\<lambda>old. old @ [\<lparr>cm_id = tmp_id now, cm_role = ''user'', cm_content = text\<rparr>])
              (s\<lparr>cp_input := [], cp_sending := True\<rparr>)))"

definition page_send_ok :: "jsstring \<Rightarrow> jsstring \<Rightarrow> jsstring \<Rightarrow> jsstring \<Rightarrow> nat \<Rightarrow> chat_page \<Rightarrow> chat_page" where
  "page_send_ok t text tmp reply now s =
     (on_messages t (\<lambda>old. filter (\<lambda>m. cm_id m \<noteq> tmp) old @
        [\<lparr>cm_id = tmp @ ''-saved'', cm_role = ''user'', cm_content = text\<rparr>,
         \<lparr>cm_id = ''bot-'' @ show_nat now, cm_role = ''assistant'', cm_content = reply\<rparr>]) s)\<lparr>cp_sending := False\<rparr>"

definition page_send_fail :: "jsstring \<Rightarrow> jsstring \<Rightarrow> js_exn \<Rightarrow> chat_page \<Rightarrow> chat_page" where
  "page_send_fail t tmp e s =
     (toast (message_or ''Could not send the message'' e) (on_messages t (filter (\<lambda>m. cm_id m \<noteq> tmp)) s))\<lparr>cp_sending := False\<rparr>"

definition page_escalate :: "chat_page \<Rightarrow> chat_page" where
  "page_escalate s =
     (case cp_active s of
        None \<Rightarrow> s
      | Some t \<Rightarrow> if cp_escalating s then s
          else page_call (HandOver t (if trim (cp_input s) = [] then None else Some (trim (cp_input s)))) (s\<lparr>cp_escalating := True\<rparr>))"

definition saveRating :: "nat \<Rightarrow> chat_page \<Rightarrow> chat_page" where
  "saveRating n s = (case cp_active s of None \<Rightarrow> s | Some t \<Rightarrow> page_call (RateChat t n) (s\<lparr>cp_rating := Some n\<rparr>))"

definition page_escalated :: "chat_page \<Rightarrow> bool" where
  "page_escalated s =
     (case cp_active s of
        None \<Rightarrow> False
      | Some t \<Rightarrow> (case find (\<lambda>r. ct_id r = t) (cp_threads s) of Some r \<Rightarrow> ct_status r = ''ESCALATED'' | None \<Rightarrow> False))"

datatype page_event =
    PageThreads "chat_row list" | PageMessages jsstring "chat_msg list" | AutoOpen
  | NewChat | NewChatOk jsstring | NewChatFail js_exn
  | OpenChat jsstring | TypeMsg jsstring | SendClick nat | SendKey nat
  | MsgOk jsstring jsstring jsstring jsstring nat | MsgFail jsstring jsstring jsstring js_exn
  | HumanClick | HumanOk jsstring "jsstring option" | HumanFail jsstring "jsstring option" js_exn
  | RateClick nat | RateSaved jsstring nat | RateLost jsstring nat

definition page_view :: "nat \<Rightarrow> chat_page \<Rightarrow> page_event widget list" where
  "page_view now s = [Btn ''+ New chat'' True NewChat] @
     map (\<lambda>r. Btn (ct_title r) True (OpenChat (ct_id r))) (cp_threads s) @
     (case cp_active s of
        None \<Rightarrow> [Txt ''Start a conversation'']
      | Some t \<Rightarrow> map (\<lambda>m. Txt (cm_content m)) (cp_messages s t) @
          (if \<not> page_escalated s \<and> length (cp_messages s t) \<ge> 4 \<and> \<not> cp_ratingSaved s
           then map (\<lambda>n. Btn (''Rate '' @ show_nat n) True (RateClick n)) [1..<6] else [])) @
     (if page_escalated s then [Txt ''A human agent is on this thread - they'll reply here. You can keep messaging.''] else []) @
     [Btn ''Human'' (cp_active s \<noteq> None \<and> \<not> cp_escalating s) HumanClick, Field ''input'' (cp_input s),
      Btn ''Send'' (trim (cp_input s) \<noteq> [] \<and> cp_active s \<noteq> None \<and> \<not> cp_sending s) (SendClick now)]"

text \<open>The server's identifiers never look like those the page makes up.\<close>

definition server_ids :: "chat_msg list \<Rightarrow> bool" where
  "server_ids ms = list_all (\<lambda>m. \<not> prefix ''tmp-'' (cm_id m)) ms"

fun page_guard :: "chat_page \<Rightarrow> page_event \<Rightarrow> bool" where
  "page_guard s (PageThreads ts) = True"
| "page_guard s (PageMessages t ms) = server_ids ms"
| "page_guard s AutoOpen = (cp_active s = None \<and> cp_threads s \<noteq> [])"
| "page_guard s (TypeMsg v) = (cp_active s \<noteq> None \<and> \<not> cp_sending s)"
| "page_guard s (SendKey now) = (cp_active s \<noteq> None \<and> \<not> cp_sending s)"
| "page_guard s (SendClick now) = (SendClick now \<in> set (offered (page_view now s)))"
| "page_guard s (NewChatOk t) = (NewThread \<in> set (cp_calls s))"
| "page_guard s (NewChatFail e) = (NewThread \<in> set (cp_calls s))"
| "page_guard s (MsgOk t x tmp r now) = (SendMsg t x tmp \<in> set (cp_calls s))"
| "page_guard s (MsgFail t x tmp e) = (SendMsg t x tmp \<in> set (cp_calls s))"
| "page_guard s (HumanOk t n) = (HandOver t n \<in> set (cp_calls s))"
| "page_guard s (HumanFail t n e) = (HandOver t n \<in> set (cp_calls s))"
| "page_guard s (RateSaved t n) = (RateChat t n \<in> set (cp_calls s))"
| "page_guard s (RateLost t n) = (RateChat t n \<in> set (cp_calls s))"
| "page_guard s e = (e \<in> set (offered (page_view 0 s)))"

fun page_step :: "chat_page \<Rightarrow> page_event \<Rightarrow> chat_page" where
  "page_step s (PageThreads ts) = s\<lparr>cp_threads := ts\<rparr>"
| "page_step s (PageMessages t ms) = on_messages t (\<lambda>old. ms) s"
| "page_step s AutoOpen = s\<lparr>cp_active := Some (ct_id (hd (cp_threads s)))\<rparr>"
| "page_step s NewChat = page_call NewThread s"
| "page_step s (NewChatOk t) = (page_settled NewThread s)\<lparr>cp_active := Some t\<rparr>"
| "page_step s (NewChatFail e) = toast (message_or ''Could not start a chat'' e) (page_settled NewThread s)"
| "page_step s (OpenChat t) = s\<lparr>cp_active := Some t\<rparr>"
| "page_step s (TypeMsg v) = s\<lparr>cp_input := v\<rparr>"
| "page_step s (SendClick now) = page_send now s"
| "page_step s (SendKey now) = page_send now s"
| "page_step s (MsgOk t x tmp r now) = page_send_ok t x tmp r now (page_settled (SendMsg t x tmp) s)"
| "page_step s (MsgFail t x tmp e) = page_send_fail t tmp e (page_settled (SendMsg t x tmp) s)"
| "page_step s HumanClick = page_escalate s"
| "page_step s (HumanOk t n) = (toast ''Handed to a human - our team will reply here shortly.'' (page_settled (HandOver t n) s))\<lparr>cp_escalating := False\<rparr>"
| "page_step s (HumanFail t n e) = (toast (message_or ''Could not escalate'' e) (page_settled (HandOver t n) s))\<lparr>cp_escalating := False\<rparr>"
| "page_step s (RateClick n) = saveRating n s"
| "page_step s (RateSaved t n) = toast ''Thanks for your feedback!'' ((page_settled (RateChat t n) s)\<lparr>cp_ratingSaved := True\<rparr>)"
| "page_step s (RateLost t n) = toast ''Could not save your rating'' ((page_settled (RateChat t n) s)\<lparr>cp_ratingSaved := False\<rparr>)"

section \<open>The acknowledged conversation\<close>

text \<open>What the server has acknowledged of every thread: replaced by a reload, extended by an answer.\<close>

type_synonym conversations = "jsstring \<Rightarrow> (jsstring \<times> jsstring) list"

definition bubbles :: "chat_msg list \<Rightarrow> (jsstring \<times> jsstring) list" where
  "bubbles = map (\<lambda>m. (cm_role m, cm_content m))"

fun acknowledge :: "conversations \<Rightarrow> page_event \<Rightarrow> conversations" where
  "acknowledge c (PageMessages t ms) = c(t := bubbles ms)"
| "acknowledge c (MsgOk t x tmp r now) = c(t := c t @ [(''user'', x), (''assistant'', r)])"
| "acknowledge c e = c"

fun pending_of :: "page_call \<Rightarrow> jsstring list" where
  "pending_of (SendMsg t x tmp) = [tmp]"
| "pending_of c = []"

definition pending_ids :: "chat_page \<Rightarrow> jsstring list" where
  "pending_ids s = concat (map pending_of (cp_calls s))"

definition conversation_of :: "chat_page \<Rightarrow> conversations" where
  "conversation_of s t = bubbles (filter (\<lambda>m. cm_id m \<notin> set (pending_ids s)) (cp_messages s t))"

section \<open>The page refines it\<close>

definition made_up :: "jsstring \<Rightarrow> bool" where
  "made_up i = (prefix ''tmp-'' i \<and> CHR ''-'' \<notin> set (drop 4 i))"

lemma digit_char_no_hyphen: "n < 10 \<Longrightarrow> digit_char n \<noteq> CHR ''-''"
  using less_16_cases [of n] by (auto simp: digit_char_def)

lemma show_nat_no_hyphen: "CHR ''-'' \<notin> set (show_nat n)"
proof (induction n rule: show_nat.induct)
  case (1 n)
  then show ?case using digit_char_no_hyphen [of n] digit_char_no_hyphen [of "n mod 10"]
    by (subst show_nat.simps) auto
qed

lemma made_up_tmp [simp]: "made_up (tmp_id n)"
  by (simp add: made_up_def tmp_id_def show_nat_no_hyphen)

lemma made_up_others [simp]: "made_up i \<Longrightarrow> \<not> made_up (i @ ''-saved'')" "\<not> made_up (CHR ''b'' # s)"
  by (auto simp: made_up_def prefix_def)

definition page_inv :: "chat_page \<Rightarrow> bool" where
  "page_inv s =
     (length (pending_ids s) = (if cp_sending s then 1 else 0) \<and> list_all made_up (pending_ids s) \<and>
      (\<forall>t. \<forall>m\<in>set (cp_messages s t). made_up (cm_id m) \<longrightarrow> (\<exists>x. SendMsg t x (cm_id m) \<in> set (cp_calls s))))"

lemma page_call_simps [simp]:
  "cp_calls (page_call c s) = cp_calls s @ [c]" "cp_sent (page_call c s) = cp_sent s @ [c]" "cp_sending (page_call c s) = cp_sending s"
  "cp_messages (page_call c s) = cp_messages s" "cp_active (page_call c s) = cp_active s"
  "cp_calls (page_settled c s) = remove1 c (cp_calls s)" "cp_sending (page_settled c s) = cp_sending s"
  "cp_messages (page_settled c s) = cp_messages s" "cp_active (page_settled c s) = cp_active s"
  "cp_calls (toast m s) = cp_calls s" "cp_sending (toast m s) = cp_sending s" "cp_messages (toast m s) = cp_messages s"
  "cp_calls (on_messages t f s) = cp_calls s" "cp_sending (on_messages t f s) = cp_sending s"
  "cp_messages (on_messages t f s) = (cp_messages s)(t := f (cp_messages s t))"
  by (simp_all add: page_call_def page_settled_def toast_def on_messages_def)

lemma pending_append [simp]: "pending_ids (page_call c s) = pending_ids s @ pending_of c"
  by (simp add: pending_ids_def)

lemma pending_frame: "cp_calls s' = cp_calls s \<Longrightarrow> pending_ids s' = pending_ids s"
  by (simp add: pending_ids_def)

lemma concat_map_remove1: "f x = [] \<Longrightarrow> concat (map f (remove1 x xs)) = concat (map f xs)"
  by (induction xs) auto

lemma length_concat_remove1:
  "x \<in> set xs \<Longrightarrow> length (concat (map f (remove1 x xs))) + length (f x) = length (concat (map f xs))"
  by (induction xs) auto

lemma pending_settled_other: "pending_of c = [] \<Longrightarrow> cp_calls s' = remove1 c (cp_calls s) \<Longrightarrow> pending_ids s' = pending_ids s"
  by (simp add: pending_ids_def concat_map_remove1)

lemma pending_mem: "SendMsg t x tmp \<in> set (cp_calls s) \<Longrightarrow> tmp \<in> set (pending_ids s)"
  by (force simp: pending_ids_def)

text \<open>When a message settles, it was the only one and none is left.\<close>

lemma settling:
  assumes "page_inv s" "SendMsg t x tmp \<in> set (cp_calls s)"
  shows "pending_ids s = [tmp]" "cp_calls s' = remove1 (SendMsg t x tmp) (cp_calls s) \<Longrightarrow> pending_ids s' = []"
    "u \<noteq> t \<Longrightarrow> m \<in> set (cp_messages s u) \<Longrightarrow> cm_id m \<noteq> tmp" "made_up tmp"
    "m \<in> set (cp_messages s u) \<Longrightarrow> made_up (cm_id m) \<Longrightarrow> u = t \<and> cm_id m = tmp"
proof -
  have mem: "tmp \<in> set (pending_ids s)" using assms(2) by (rule pending_mem)
  then have one: "length (pending_ids s) = 1" using assms(1) by (cases "cp_sending s") (auto simp: page_inv_def)
  with mem show p: "pending_ids s = [tmp]" by (cases "pending_ids s") auto
  have left: "pending_ids s' = []" if "cp_calls s' = remove1 (SendMsg t x tmp) (cp_calls s)" for s'
    using length_concat_remove1 [OF assms(2), of pending_of] one that
    by (simp add: pending_ids_def)
  then show "cp_calls s' = remove1 (SendMsg t x tmp) (cp_calls s) \<Longrightarrow> pending_ids s' = []" .
  have only: "u = t \<and> i = tmp" if "SendMsg u y i \<in> set (cp_calls s)" for u y i
  proof (rule ccontr)
    assume n: "\<not> (u = t \<and> i = tmp)"
    then have "SendMsg u y i \<in> set (remove1 (SendMsg t x tmp) (cp_calls s))" using that by (simp add: in_set_remove1)
    then have "i \<in> set (pending_ids (page_settled (SendMsg t x tmp) s))" by (intro pending_mem) simp
    then show False using left [of "page_settled (SendMsg t x tmp) s"] by simp
  qed
  show made: "made_up tmp" using assms(1) p by (simp add: page_inv_def)
  show only_id: "m \<in> set (cp_messages s u) \<Longrightarrow> made_up (cm_id m) \<Longrightarrow> u = t \<and> cm_id m = tmp" for u m
  proof -
    assume "m \<in> set (cp_messages s u)" "made_up (cm_id m)"
    then obtain y where "SendMsg u y (cm_id m) \<in> set (cp_calls s)" using assms(1) by (auto simp: page_inv_def)
    then show ?thesis by (rule only)
  qed
  show "u \<noteq> t \<Longrightarrow> m \<in> set (cp_messages s u) \<Longrightarrow> cm_id m \<noteq> tmp" using only_id [of m u] made by auto
qed

lemma plain_ids:
  assumes "page_inv s" "pending_ids s = []" "m \<in> set (cp_messages s u)"
  shows "\<not> made_up (cm_id m)"
proof
  assume "made_up (cm_id m)"
  then obtain x where "SendMsg u x (cm_id m) \<in> set (cp_calls s)" using assms(1,3) by (auto simp: page_inv_def)
  then show False using pending_mem [of u x "cm_id m" s] assms(2) by simp
qed

lemma page_inv_idle:
  assumes "pending_ids s' = []" "\<not> cp_sending s'" "\<And>u m. m \<in> set (cp_messages s' u) \<Longrightarrow> \<not> made_up (cm_id m)"
  shows "page_inv s'"
  using assms by (auto simp: page_inv_def)

lemma page_inv_frame:
  assumes "page_inv s" "cp_sending s' = cp_sending s" "cp_messages s' = cp_messages s"
    and "cp_calls s' = cp_calls s \<or> (\<exists>c. pending_of c = [] \<and> (cp_calls s' = remove1 c (cp_calls s) \<or> cp_calls s' = cp_calls s @ [c]))"
  shows "page_inv s' \<and> conversation_of s' = conversation_of s"
proof -
  have p: "pending_ids s' = pending_ids s"
    using assms(4) by (auto simp: pending_ids_def concat_map_remove1)
  have "SendMsg t x i \<in> set (cp_calls s')" if "SendMsg t x i \<in> set (cp_calls s)" for t x i
  proof -
    have "SendMsg t x i \<noteq> c" if "pending_of c = []" for c using that by auto
    then show ?thesis using assms(4) \<open>SendMsg t x i \<in> set (cp_calls s)\<close> by (auto simp: in_set_remove1)
  qed
  then have "page_inv s'" using assms(1) unfolding page_inv_def p assms(2,3) by blast
  moreover have "conversation_of s' = conversation_of s" by (simp add: conversation_of_def fun_eq_iff p assms(3))
  ultimately show ?thesis by simp
qed

lemma page_send_refines:
  assumes "page_inv s"
  shows "page_inv (page_send now s) \<and> conversation_of (page_send now s) = conversation_of s"
proof (cases "cp_active s = None \<or> trim (cp_input s) = [] \<or> cp_sending s")
  case True
  then have "page_send now s = s" by (cases "cp_active s") (auto simp: page_send_def Let_def)
  with assms show ?thesis by simp
next
  case False
  then obtain t where t: "cp_active s = Some t" by auto
  let ?m = "\<lparr>cm_id = tmp_id now, cm_role = ''user'', cm_content = trim (cp_input s)\<rparr>"
  let ?s = "page_send now s"
  have calls: "cp_calls ?s = cp_calls s @ [SendMsg t (trim (cp_input s)) (tmp_id now)]" "cp_sending ?s"
      "cp_messages ?s = (cp_messages s)(t := cp_messages s t @ [?m])"
    using False t by (simp_all add: page_send_def Let_def)
  have none: "pending_ids s = []" using assms False by (simp add: page_inv_def)
  then have p: "pending_ids ?s = [tmp_id now]" using calls(1) by (simp add: pending_ids_def)
  have other: "m \<in> set (cp_messages s u) \<Longrightarrow> \<not> made_up (cm_id m)" for m u using plain_ids [OF assms none] .
  then have new: "m \<in> set (cp_messages s u) \<Longrightarrow> cm_id m \<noteq> tmp_id now" for m u by (metis made_up_tmp)
  have "page_inv ?s" using calls p other by (auto simp: page_inv_def)
  moreover have "filter (\<lambda>m. cm_id m \<noteq> tmp_id now) (cp_messages s u) = cp_messages s u" for u
    using new by (simp add: filter_id_conv)
  then have "conversation_of ?s = conversation_of s"
    using none p calls(3) by (auto simp: conversation_of_def fun_eq_iff)
  ultimately show ?thesis by simp
qed

lemma reload_refines:
  assumes "page_inv s" "server_ids ms"
  shows "page_inv (on_messages t (\<lambda>old. ms) s) \<and> conversation_of (on_messages t (\<lambda>old. ms) s) = (conversation_of s)(t := bubbles ms)"
proof -
  have new: "m \<in> set ms \<Longrightarrow> \<not> made_up (cm_id m)" for m
    using assms(2) by (auto simp: server_ids_def list_all_iff made_up_def)
  moreover have "list_all made_up (pending_ids s)" using assms(1) by (simp add: page_inv_def)
  ultimately have "filter (\<lambda>m. cm_id m \<notin> set (pending_ids s)) ms = ms"
    by (auto simp: filter_id_conv list_all_iff)
  moreover have p: "pending_ids (on_messages t (\<lambda>old. ms) s) = pending_ids s" by (rule pending_frame) simp
  ultimately have "conversation_of (on_messages t (\<lambda>old. ms) s) = (conversation_of s)(t := bubbles ms)"
    by (auto simp: conversation_of_def fun_eq_iff)
  moreover have "page_inv (on_messages t (\<lambda>old. ms) s)" using assms(1) new p by (auto simp: page_inv_def)
  ultimately show ?thesis by simp
qed

lemma settle_refines:
  fixes s t x tmp f extra
  assumes "page_inv s" "SendMsg t x tmp \<in> set (cp_calls s)" "\<And>m. m \<in> set extra \<Longrightarrow> \<not> made_up (cm_id m)"
    and "cp_calls s' = remove1 (SendMsg t x tmp) (cp_calls s)" "\<not> cp_sending s'"
    and "cp_messages s' = (cp_messages s)(t := filter (\<lambda>m. cm_id m \<noteq> tmp) (cp_messages s t) @ extra)"
  shows "page_inv s' \<and> conversation_of s' = (conversation_of s)(t := conversation_of s t @ bubbles extra)"
proof -
  note S = settling [OF assms(1,2)]
  have p: "pending_ids s' = []" using S(2) assms(4) .
  have plain: "\<not> made_up (cm_id m)" if m: "m \<in> set (cp_messages s' u)" for m u
  proof (cases "u = t")
    case True
    then show ?thesis using m S(5) assms(3,6) by auto
  next
    case False
    then show ?thesis using m S(5) [of m u] assms(6) by auto
  qed
  have "page_inv s'" using p assms(5) plain by (rule page_inv_idle)
  moreover have "filter (\<lambda>m. cm_id m \<noteq> tmp) (cp_messages s u) = cp_messages s u" if "u \<noteq> t" for u
    using S(3) that by (simp add: filter_id_conv)
  then have "conversation_of s' = (conversation_of s)(t := conversation_of s t @ bubbles extra)"
    using p S(1) assms(6) by (auto simp: conversation_of_def fun_eq_iff bubbles_def)
  ultimately show ?thesis by simp
qed

lemma page_refines_step:
  assumes "page_inv s" "page_guard s e"
  shows "page_inv (page_step s e) \<and> conversation_of (page_step s e) = acknowledge (conversation_of s) e"
proof (cases e)
  case (PageMessages t ms)
  then show ?thesis using assms reload_refines [of s ms t] by simp
next
  case (SendClick now)
  then show ?thesis using assms page_send_refines by simp
next
  case (SendKey now)
  then show ?thesis using assms page_send_refines by simp
next
  case (MsgOk t x tmp r now)
  let ?extra = "[\<lparr>cm_id = tmp @ ''-saved'', cm_role = ''user'', cm_content = x\<rparr>,
    \<lparr>cm_id = ''bot-'' @ show_nat now, cm_role = ''assistant'', cm_content = r\<rparr>]"
  have "SendMsg t x tmp \<in> set (cp_calls s)" using MsgOk assms(2) by simp
  moreover have "made_up tmp" using settling(4) [OF assms(1)] MsgOk assms(2) by simp
  ultimately have "page_inv (page_step s e) \<and> conversation_of (page_step s e) = (conversation_of s)(t := conversation_of s t @ bubbles ?extra)"
    using MsgOk by (intro settle_refines [OF assms(1)]) (auto simp: page_send_ok_def)
  then show ?thesis by (simp add: MsgOk bubbles_def)
next
  case (MsgFail t x tmp ex)
  have "SendMsg t x tmp \<in> set (cp_calls s)" using MsgFail assms(2) by simp
  then have "page_inv (page_step s e) \<and> conversation_of (page_step s e) = (conversation_of s)(t := conversation_of s t @ bubbles [])"
    using MsgFail by (intro settle_refines [OF assms(1)]) (auto simp: page_send_fail_def)
  then show ?thesis by (simp add: MsgFail bubbles_def)
next
  case HumanClick
  have "page_inv (page_escalate s) \<and> conversation_of (page_escalate s) = conversation_of s"
    by (rule page_inv_frame [OF assms(1)]) (cases "cp_active s"; auto simp: page_escalate_def intro: exI [of _ "HandOver _ _"])+
  with HumanClick show ?thesis by simp
next
  case (RateClick n)
  have "page_inv (saveRating n s) \<and> conversation_of (saveRating n s) = conversation_of s"
    by (rule page_inv_frame [OF assms(1)]) (cases "cp_active s"; auto simp: saveRating_def intro: exI [of _ "RateChat _ _"])+
  with RateClick show ?thesis by simp
next
  case NewChat
  have "page_inv (page_step s e) \<and> conversation_of (page_step s e) = conversation_of s"
    by (rule page_inv_frame [OF assms(1)]) (auto simp: NewChat intro: exI [of _ NewThread])
  with NewChat show ?thesis by simp
next
  case (NewChatOk t)
  have "page_inv (page_step s e) \<and> conversation_of (page_step s e) = conversation_of s"
    by (rule page_inv_frame [OF assms(1)]) (auto simp: NewChatOk intro: exI [of _ NewThread])
  with NewChatOk show ?thesis by simp
next
  case (NewChatFail x)
  have "page_inv (page_step s e) \<and> conversation_of (page_step s e) = conversation_of s"
    by (rule page_inv_frame [OF assms(1)]) (auto simp: NewChatFail intro: exI [of _ NewThread])
  with NewChatFail show ?thesis by simp
next
  case (HumanOk t n)
  have "page_inv (page_step s e) \<and> conversation_of (page_step s e) = conversation_of s"
    by (rule page_inv_frame [OF assms(1)]) (auto simp: HumanOk intro: exI [of _ "HandOver t n"])
  with HumanOk show ?thesis by simp
next
  case (HumanFail t n x)
  have "page_inv (page_step s e) \<and> conversation_of (page_step s e) = conversation_of s"
    by (rule page_inv_frame [OF assms(1)]) (auto simp: HumanFail intro: exI [of _ "HandOver t n"])
  with HumanFail show ?thesis by simp
next
  case (RateSaved t n)
  have "page_inv (page_step s e) \<and> conversation_of (page_step s e) = conversation_of s"
    by (rule page_inv_frame [OF assms(1)]) (auto simp: RateSaved intro: exI [of _ "RateChat t n"])
  with RateSaved show ?thesis by simp
next
  case (RateLost t n)
  have "page_inv (page_step s e) \<and> conversation_of (page_step s e) = conversation_of s"
    by (rule page_inv_frame [OF assms(1)]) (auto simp: RateLost intro: exI [of _ "RateChat t n"])
  with RateLost show ?thesis by simp
qed (use page_inv_frame [OF assms(1), of "page_step s e"] in simp_all)

interpretation chat_page: machine "\<lambda>s. s = chat_page0" page_guard page_step page_inv
proof unfold_locales
  fix s assume "s = chat_page0"
  then show "page_inv s" by (simp add: page_inv_def chat_page0_def pending_ids_def)
next
  fix s e assume "page_inv s" "page_guard s e"
  then show "page_inv (page_step s e)" by (simp add: page_refines_step)
qed

lemma page_refines_run:
  "page_inv s \<Longrightarrow> allowed page_guard page_step s evs \<Longrightarrow>
   conversation_of (run page_step s evs) = foldl acknowledge (conversation_of s) evs"
  by (induction evs arbitrary: s) (simp_all add: page_refines_step)

text \<open>
  C24. Without the bubble that waits for its answer, the cached conversations are exactly what the
  server has acknowledged, whatever the order of sends, answers, failures and reloads.
\<close>

theorem chat_refines_acknowledged:
  assumes "allowed page_guard page_step chat_page0 evs"
  shows "conversation_of (run page_step chat_page0 evs) = foldl acknowledge (\<lambda>t. []) evs"
proof -
  have "conversation_of chat_page0 = (\<lambda>t. [])" by (simp add: conversation_of_def chat_page0_def bubbles_def fun_eq_iff)
  moreover have "page_inv chat_page0" by (rule chat_page.inv_start) simp
  ultimately show ?thesis using page_refines_run [OF _ assms] by simp
qed

text \<open>
  A message that could not be sent leaves the conversation as it was, and with the bubble the
  text is gone: the input was cleared when it was sent.
\<close>

theorem failed_send_loses_message:
  assumes "reach (\<lambda>s. s = chat_page0) page_guard page_step s"
    and "cp_active s = Some t" "trim (cp_input s) = x" "x \<noteq> []" "\<not> cp_sending s"
  shows "allowed page_guard page_step s [SendKey now, MsgFail t x (tmp_id now) e] \<and>
    cp_messages (run page_step s [SendKey now, MsgFail t x (tmp_id now) e]) = cp_messages s \<and>
    cp_input (run page_step s [SendKey now, MsgFail t x (tmp_id now) e]) = []"
proof -
  have inv: "page_inv s" by (rule chat_page.reach_inv [OF assms(1)])
  then have "pending_ids s = []" using assms(5) by (simp add: page_inv_def)
  then have "cm_id m \<noteq> tmp_id now" if "m \<in> set (cp_messages s t)" for m
    using plain_ids [OF inv _ that] by (metis made_up_tmp)
  then have "filter (\<lambda>m. cm_id m \<noteq> tmp_id now) (cp_messages s t) = cp_messages s t" by (simp add: filter_id_conv)
  with assms(2-5) show ?thesis
    by (simp add: page_send_def page_send_fail_def Let_def) (simp add: toast_def page_settled_def page_call_def on_messages_def fun_upd_idem)
qed

section \<open>The phone\<close>

record phone_chat =
  pc_thread :: "jsstring option"
  pc_messages :: "(jsstring \<times> jsstring) list"
  pc_input :: jsstring
  pc_busy :: bool
  pc_creating :: nat
  pc_waiting :: "jsstring list" \<comment> \<open>messages under way\<close>
  pc_sent :: "(jsstring \<times> jsstring) list"

text \<open>Mounting asks for a conversation.\<close>

definition pchat0 :: phone_chat where
  "pchat0 = \<lparr>pc_thread = None, pc_messages = [], pc_input = [], pc_busy = False, pc_creating = 1, pc_waiting = [], pc_sent = []\<rparr>"

datatype pchat_event = ThreadOk jsstring | ThreadFail | PhoneType jsstring | PhoneSend | ReplyOk jsstring | ReplyFail

definition pchat_send :: "phone_chat \<Rightarrow> phone_chat" where
  "pchat_send s =
     (let text = trim (pc_input s) in
      case pc_thread s of
        None \<Rightarrow> s
      | Some t \<Rightarrow> if text = [] \<or> pc_busy s then s
          else s\<lparr>pc_input := [], pc_busy := True, pc_messages := pc_messages s @ [(''user'', text)],
                 pc_waiting := pc_waiting s @ [text], pc_sent := pc_sent s @ [(t, text)]\<rparr>)"

fun pchat_guard :: "phone_chat \<Rightarrow> pchat_event \<Rightarrow> bool" where
  "pchat_guard s (ThreadOk t) = (pc_creating s > 0)"
| "pchat_guard s ThreadFail = (pc_creating s > 0)"
| "pchat_guard s (ReplyOk r) = (pc_waiting s \<noteq> [])"
| "pchat_guard s ReplyFail = (pc_waiting s \<noteq> [])"
| "pchat_guard s e = True"

fun pchat_step :: "phone_chat \<Rightarrow> pchat_event \<Rightarrow> phone_chat" where
  "pchat_step s (ThreadOk t) = s\<lparr>pc_thread := Some t, pc_creating := pc_creating s - 1\<rparr>"
| "pchat_step s ThreadFail = s\<lparr>pc_creating := pc_creating s - 1\<rparr>"
| "pchat_step s (PhoneType v) = s\<lparr>pc_input := v\<rparr>"
| "pchat_step s PhoneSend = pchat_send s"
| "pchat_step s (ReplyOk r) = s\<lparr>pc_messages := pc_messages s @ [(''assistant'', r)], pc_waiting := tl (pc_waiting s), pc_busy := False\<rparr>"
| "pchat_step s ReplyFail = s\<lparr>pc_messages := pc_messages s @ [(''system'', ''Could not reach the assistant '' @ em_dash @ '' try again.'')],
     pc_waiting := tl (pc_waiting s), pc_busy := False\<rparr>"

text \<open>The messages alternate: a user's message, then its reply or the notice that it failed.\<close>

fun alternates :: "bool \<Rightarrow> (jsstring \<times> jsstring) list \<Rightarrow> bool" where
  "alternates waits [] = (\<not> waits)"
| "alternates waits [m] = (fst m = ''user'' \<and> waits)"
| "alternates waits (m # r # ms) = (fst m = ''user'' \<and> fst r \<noteq> ''user'' \<and> alternates waits ms)"

lemma alternates_ask: "alternates False ms \<Longrightarrow> alternates True (ms @ [(''user'', x)])"
  by (induction False ms rule: alternates.induct) auto

lemma alternates_reply: "alternates True ms \<Longrightarrow> r \<noteq> ''user'' \<Longrightarrow> alternates False (ms @ [(r, y)])"
  by (induction True ms rule: alternates.induct) auto

definition pchat_inv :: "phone_chat \<Rightarrow> bool" where
  "pchat_inv s = (length (pc_waiting s) = (if pc_busy s then 1 else 0) \<and> alternates (pc_busy s) (pc_messages s) \<and>
     list_all (\<lambda>(t, x). x \<noteq> [] \<and> trim x = x) (pc_sent s) \<and>
     map snd (filter (\<lambda>m. fst m = ''user'') (pc_messages s)) = map snd (pc_sent s))"

lemma pchat_inv_step:
  assumes "pchat_inv s" "pchat_guard s e"
  shows "pchat_inv (pchat_step s e)"
proof (cases e)
  case PhoneSend
  then show ?thesis using assms(1)
    by (cases "pc_thread s") (auto simp: pchat_inv_def pchat_send_def Let_def alternates_ask)
next
  case (ReplyOk r)
  then show ?thesis using assms by (cases "pc_busy s") (auto simp: pchat_inv_def alternates_reply)
next
  case ReplyFail
  then show ?thesis using assms by (cases "pc_busy s") (auto simp: pchat_inv_def alternates_reply)
qed (use assms(1) in \<open>simp_all add: pchat_inv_def\<close>)

interpretation pchat: bounded_machine "\<lambda>s. s = pchat0" pchat_guard pchat_step pchat_inv "\<lambda>s. length (pc_waiting s)" 1
proof unfold_locales
  fix s assume "s = pchat0"
  then show "pchat_inv s" by (simp add: pchat_inv_def pchat0_def)
next
  fix s e assume "pchat_inv s" "pchat_guard s e"
  then show "pchat_inv (pchat_step s e)" by (rule pchat_inv_step)
next
  fix s assume "pchat_inv s"
  then show "length (pc_waiting s) \<le> 1" by (simp add: pchat_inv_def)
qed

text \<open>
  On the phone the transcript alternates between the user's messages, all of which were sent,
  and one reply or notice each; a message that fails stays on the screen.
\<close>

theorem phone_transcript_alternates:
  assumes "reach (\<lambda>s. s = pchat0) pchat_guard pchat_step s"
  shows "alternates (pc_busy s) (pc_messages s) \<and> length (pc_waiting s) \<le> 1 \<and>
    map snd (filter (\<lambda>m. fst m = ''user'') (pc_messages s)) = map snd (pc_sent s)"
  using pchat.reach_inv [OF assms] pchat.reach_load [OF assms] by (simp add: pchat_inv_def)

text \<open>
  When the conversation cannot be created, the screen is dead without saying so: nothing is
  ever sent, nothing is shown, and what the user types stays in the box.
\<close>

lemma dead_step:
  "pc_thread s = None \<and> pc_creating s = 0 \<and> pc_sent s = [] \<and> pc_messages s = [] \<and> pc_waiting s = [] \<Longrightarrow> pchat_guard s e \<Longrightarrow>
   pc_thread (pchat_step s e) = None \<and> pc_creating (pchat_step s e) = 0 \<and> pc_sent (pchat_step s e) = [] \<and>
   pc_messages (pchat_step s e) = [] \<and> pc_waiting (pchat_step s e) = []"
  by (cases e) (simp_all add: pchat_send_def Let_def)

lemma dead_run:
  "pc_thread s = None \<and> pc_creating s = 0 \<and> pc_sent s = [] \<and> pc_messages s = [] \<and> pc_waiting s = [] \<Longrightarrow>
   allowed pchat_guard pchat_step s evs \<Longrightarrow> pc_sent (run pchat_step s evs) = [] \<and> pc_messages (run pchat_step s evs) = []"
proof (induction evs arbitrary: s)
  case (Cons e evs)
  then show ?case using dead_step [of s e] by (simp del: pchat_step.simps pchat_guard.simps)
qed simp

theorem phone_chat_dead_without_thread:
  assumes "allowed pchat_guard pchat_step (pchat_step pchat0 ThreadFail) evs"
  shows "pc_sent (run pchat_step (pchat_step pchat0 ThreadFail) evs) = [] \<and>
    pc_messages (run pchat_step (pchat_step pchat0 ThreadFail) evs) = []"
  by (rule dead_run [OF _ assms]) (simp add: pchat0_def)

section \<open>The agents' inbox\<close>

record inbox =
  ix_active :: "jsstring option"
  ix_reply :: jsstring
  ix_threads :: "chat_row list"
  ix_replies :: "(jsstring \<times> jsstring) list" \<comment> \<open>replies under way\<close>
  ix_closing :: "jsstring list"
  ix_sent :: "(jsstring \<times> jsstring) list"
  ix_closed :: "jsstring list"

definition inbox0 :: inbox where
  "inbox0 = \<lparr>ix_active = None, ix_reply = [], ix_threads = [], ix_replies = [], ix_closing = [], ix_sent = [], ix_closed = []\<rparr>"

definition activeThread :: "inbox \<Rightarrow> chat_row option" where
  "activeThread s = (case ix_active s of Some t \<Rightarrow> find (\<lambda>r. ct_id r = t) (ix_threads s) | None \<Rightarrow> None)"

definition answerable :: "inbox \<Rightarrow> bool" where
  "answerable s = (case activeThread s of Some r \<Rightarrow> ct_status r \<noteq> ''CLOSED'' | None \<Rightarrow> False)"

datatype inbox_event =
    InboxThreads "chat_row list" | InboxOpenFirst | Pick jsstring
  | TypeReply jsstring | ReplyKey | ReplyClick | ReplyDone jsstring jsstring | ReplyLost jsstring jsstring
  | CloseClick | CloseDone jsstring | CloseLost jsstring

definition inbox_view :: "inbox \<Rightarrow> inbox_event widget list" where
  "inbox_view s = map (\<lambda>r. Btn (ct_title r) True (Pick (ct_id r))) (ix_threads s) @
     (if answerable s
      then [Btn ''Close conversation'' (ix_closing s = []) CloseClick, Field ''reply'' (ix_reply s),
            Btn (if ix_replies s \<noteq> [] then ''Sending'' @ ellipsis else ''Send'') (trim (ix_reply s) \<noteq> [] \<and> ix_replies s = []) ReplyClick]
      else [])"

definition mutate_reply :: "inbox \<Rightarrow> inbox" where
  "mutate_reply s =
     (case ix_active s of
        Some t \<Rightarrow> s\<lparr>ix_replies := ix_replies s @ [(t, ix_reply s)], ix_sent := ix_sent s @ [(t, ix_reply s)]\<rparr>
      | None \<Rightarrow> s)"

fun inbox_guard :: "inbox \<Rightarrow> inbox_event \<Rightarrow> bool" where
  "inbox_guard s (InboxThreads ts) = True"
| "inbox_guard s InboxOpenFirst = (ix_active s = None \<and> ix_threads s \<noteq> [])"
| "inbox_guard s (TypeReply v) = answerable s"
| "inbox_guard s ReplyKey = answerable s"
| "inbox_guard s (ReplyDone t x) = ((t, x) \<in> set (ix_replies s))"
| "inbox_guard s (ReplyLost t x) = ((t, x) \<in> set (ix_replies s))"
| "inbox_guard s (CloseDone t) = (t \<in> set (ix_closing s))"
| "inbox_guard s (CloseLost t) = (t \<in> set (ix_closing s))"
| "inbox_guard s e = (e \<in> set (offered (inbox_view s)))"

fun inbox_step :: "inbox \<Rightarrow> inbox_event \<Rightarrow> inbox" where
  "inbox_step s (InboxThreads ts) = s\<lparr>ix_threads := ts\<rparr>"
| "inbox_step s InboxOpenFirst = s\<lparr>ix_active := Some (ct_id (hd (ix_threads s)))\<rparr>"
| "inbox_step s (Pick t) = s\<lparr>ix_active := Some t\<rparr>"
| "inbox_step s (TypeReply v) = s\<lparr>ix_reply := v\<rparr>"
| "inbox_step s ReplyKey = (if trim (ix_reply s) \<noteq> [] then mutate_reply s else s)"
| "inbox_step s ReplyClick = mutate_reply s"
| "inbox_step s (ReplyDone t x) = s\<lparr>ix_replies := remove1 (t, x) (ix_replies s), ix_reply := []\<rparr>"
| "inbox_step s (ReplyLost t x) = s\<lparr>ix_replies := remove1 (t, x) (ix_replies s)\<rparr>"
| "inbox_step s CloseClick = (case ix_active s of Some t \<Rightarrow> s\<lparr>ix_closing := ix_closing s @ [t], ix_closed := ix_closed s @ [t]\<rparr> | None \<Rightarrow> s)"
| "inbox_step s (CloseDone t) = s\<lparr>ix_closing := remove1 t (ix_closing s)\<rparr>"
| "inbox_step s (CloseLost t) = s\<lparr>ix_closing := remove1 t (ix_closing s)\<rparr>"

definition inbox_inv :: "inbox \<Rightarrow> bool" where
  "inbox_inv s = (list_all (\<lambda>(t, x). trim x \<noteq> []) (ix_sent s) \<and> length (ix_closing s) \<le> 1)"

lemma inbox_offers:
  "e \<in> set (offered (inbox_view s)) \<Longrightarrow>
   (\<exists>t. e = Pick t) \<or> (e = CloseClick \<and> ix_closing s = []) \<or> (e = ReplyClick \<and> trim (ix_reply s) \<noteq> [] \<and> ix_replies s = [])"
  by (auto simp: inbox_view_def split: if_splits)

lemma inbox_inv_step:
  assumes "inbox_inv s" "inbox_guard s e"
  shows "inbox_inv (inbox_step s e)"
  using assms inbox_offers [of e s]
  by (cases e; cases "ix_active s") (auto simp: inbox_inv_def mutate_reply_def length_remove1)

interpretation agent: bounded_machine "\<lambda>s. s = inbox0" inbox_guard inbox_step inbox_inv "\<lambda>s. length (ix_closing s)" 1
proof unfold_locales
  fix s assume "s = inbox0"
  then show "inbox_inv s" by (simp add: inbox_inv_def inbox0_def)
next
  fix s e assume "inbox_inv s" "inbox_guard s e"
  then show "inbox_inv (inbox_step s e)" by (rule inbox_inv_step)
next
  fix s assume "inbox_inv s"
  then show "length (ix_closing s) \<le> 1" by (simp add: inbox_inv_def)
qed

text \<open>No blank reply is sent, and one conversation is closed at a time.\<close>

theorem inbox_safe:
  assumes "reach (\<lambda>s. s = inbox0) inbox_guard inbox_step s"
  shows "list_all (\<lambda>(t, x). trim x \<noteq> []) (ix_sent s) \<and> length (ix_closing s) \<le> 1"
  using agent.reach_inv [OF assms] by (simp add: inbox_inv_def)

text \<open>
  The Send button waits for the reply under way, the Enter key does not: pressed twice it
  sends the reply twice.
\<close>

theorem enter_twice_replies_twice:
  assumes "answerable s" "ix_active s = Some t" "trim (ix_reply s) \<noteq> []"
  shows "allowed inbox_guard inbox_step s [ReplyKey, ReplyKey] \<and>
    ix_sent (run inbox_step s [ReplyKey, ReplyKey]) = ix_sent s @ [(t, ix_reply s), (t, ix_reply s)]"
  using assms by (simp add: mutate_reply_def answerable_def activeThread_def)

text \<open>
  A reply that arrives late empties the box, and with it the answer begun for another
  conversation.
\<close>

theorem late_reply_clears_draft:
  assumes "(t, x) \<in> set (ix_replies s)" "u \<in> ct_id ` set (ix_threads s)" "answerable (s\<lparr>ix_active := Some u\<rparr>)"
  shows "allowed inbox_guard inbox_step s [Pick u, TypeReply v, ReplyDone t x] \<and>
    ix_reply (run inbox_step s [Pick u, TypeReply v]) = v \<and>
    ix_reply (run inbox_step s [Pick u, TypeReply v, ReplyDone t x]) = []"
  using assms by (auto simp: inbox_view_def)

section \<open>The chart of the last days\<close>

definition bar_height :: "nat list \<Rightarrow> nat \<Rightarrow> rat" where
  "bar_height days d = max 3 (fl (fl (of_nat d / of_nat (fold max days 1)) * 100))"

text \<open>Every bar is between 3 and 100 pixels high, and the highest day reaches 100.\<close>

lemma fold_max_ge: "m \<le> fold max xs (m :: nat) \<and> (\<forall>x\<in>set xs. x \<le> fold max xs m)"
proof (induction xs arbitrary: m)
  case (Cons x xs)
  then have "max x m \<le> fold max xs (max x m)" "\<forall>y\<in>set xs. y \<le> fold max xs (max x m)" by blast+
  then show ?case by auto
qed simp

lemma fold_max_bound: "m \<le> k \<Longrightarrow> \<forall>x\<in>set xs. x \<le> k \<Longrightarrow> fold max xs m \<le> (k :: nat)"
  by (induction xs arbitrary: m) auto

theorem chart_bounded:
  assumes "d \<in> set days"
  shows "3 \<le> bar_height days d \<and> bar_height days d \<le> 100 \<and>
    (if 1 \<le> d \<and> list_all (\<lambda>x. x \<le> d) days then bar_height days d = 100 else True)"
proof -
  let ?m = "fold max days 1"
  have m: "1 \<le> ?m" "d \<le> ?m" using fold_max_ge [of 1 days] assms by auto
  then have "of_nat d / of_nat ?m \<le> (1 :: rat)" by (simp add: divide_simps)
  then have "fl (of_nat d / of_nat ?m) \<le> fl 1" by (rule fl_mono)
  then have "fl (of_nat d / of_nat ?m) * 100 \<le> 100" using fl_of_int [of 1] by simp
  then have "fl (fl (of_nat d / of_nat ?m) * 100) \<le> fl 100" by (rule fl_mono)
  then have le: "fl (fl (of_nat d / of_nat ?m) * 100) \<le> 100" using fl_of_int [of 100] by simp
  have top: "bar_height days d = 100" if "1 \<le> d" "list_all (\<lambda>x. x \<le> d) days"
  proof -
    have "?m = d" using m fold_max_bound [of 1 d days] that by (auto simp: list_all_iff)
    then show ?thesis using that(1) fl_of_int [of 1] fl_of_int [of 100] by (simp add: bar_height_def)
  qed
  show ?thesis using le top by (auto simp: bar_height_def)
qed

section \<open>Witnesses\<close>

lemmas page_eval = chat_page0_def page_send_def Let_def trim_def is_space_def page_call_def page_settled_def on_messages_def
  tmp_id_def show_nat.simps digit_char_def

theorem chat_refines_acknowledged_witness:
  "conversation_of (run page_step chat_page0 [PageThreads [\<lparr>ct_id = ''t1'', ct_title = [], ct_status = ''OPEN''\<rparr>], AutoOpen,
     TypeMsg ''hi'', SendKey 7, MsgOk ''t1'' ''hi'' ''tmp-7'' ''hello'' 9]) =
   (\<lambda>t. [])(''t1'' := [(''user'', ''hi''), (''assistant'', ''hello'')])"
  using chat_refines_acknowledged [of "[PageThreads [\<lparr>ct_id = ''t1'', ct_title = [], ct_status = ''OPEN''\<rparr>], AutoOpen,
     TypeMsg ''hi'', SendKey 7, MsgOk ''t1'' ''hi'' ''tmp-7'' ''hello'' 9]"]
  by (simp add: page_eval)

definition one_thread :: chat_page where
  "one_thread = run page_step chat_page0 [PageThreads [\<lparr>ct_id = ''t1'', ct_title = [], ct_status = ''OPEN''\<rparr>], AutoOpen, TypeMsg ''hi'']"

lemma one_thread_reach: "reach (\<lambda>s. s = chat_page0) page_guard page_step one_thread"
  unfolding one_thread_def by (rule run_reachable) (simp_all add: chat_page0_def)

theorem failed_send_loses_message_witness:
  "cp_input (run page_step one_thread [SendKey 7, MsgFail ''t1'' ''hi'' (tmp_id 7) (plain_error [])]) = [] \<and>
   cp_messages (run page_step one_thread [SendKey 7, MsgFail ''t1'' ''hi'' (tmp_id 7) (plain_error [])]) ''t1'' = []"
  using failed_send_loses_message [OF one_thread_reach, of "''t1''" "''hi''" 7 "plain_error []"]
  by (simp add: one_thread_def chat_page0_def trim_def is_space_def)

definition asked :: phone_chat where
  "asked = run pchat_step pchat0 [ThreadOk ''t1'', PhoneType ''hi'', PhoneSend, ReplyFail, PhoneType ''hi'', PhoneSend]"

lemma asked_reach: "reach (\<lambda>s. s = pchat0) pchat_guard pchat_step asked"
  unfolding asked_def by (rule run_reachable) (simp_all add: pchat0_def pchat_send_def Let_def trim_def is_space_def)

theorem phone_transcript_alternates_witness:
  "alternates True (pc_messages asked) \<and> map snd (pc_sent asked) = [''hi'', ''hi'']"
  using phone_transcript_alternates [OF asked_reach]
  by (simp add: asked_def pchat0_def pchat_send_def Let_def trim_def is_space_def)

theorem phone_chat_dead_without_thread_witness:
  "pc_sent (run pchat_step (pchat_step pchat0 ThreadFail) [PhoneType ''hi'', PhoneSend, PhoneSend]) = []"
  using phone_chat_dead_without_thread [of "[PhoneType ''hi'', PhoneSend, PhoneSend]"] by simp

definition two_threads :: inbox where
  "two_threads = run inbox_step inbox0 [InboxThreads [\<lparr>ct_id = ''t1'', ct_title = [], ct_status = ''OPEN''\<rparr>,
     \<lparr>ct_id = ''t2'', ct_title = [], ct_status = ''ESCALATED''\<rparr>], InboxOpenFirst, TypeReply ''ok'']"

lemmas inbox_eval = two_threads_def inbox0_def answerable_def activeThread_def mutate_reply_def trim_def is_space_def

lemma two_threads_reach: "reach (\<lambda>s. s = inbox0) inbox_guard inbox_step (run inbox_step two_threads [ReplyKey, CloseClick])"
proof -
  have "reach (\<lambda>s. s = inbox0) inbox_guard inbox_step two_threads"
    unfolding two_threads_def by (rule run_reachable) (simp_all add: inbox_eval)
  then show ?thesis by (rule run_reach) (simp add: inbox_eval inbox_view_def)
qed

theorem inbox_safe_witness:
  "ix_sent (run inbox_step two_threads [ReplyKey, CloseClick]) = [(''t1'', ''ok'')] \<and>
   length (ix_closing (run inbox_step two_threads [ReplyKey, CloseClick])) \<le> 1"
  using inbox_safe [OF two_threads_reach] by (simp add: inbox_eval)

theorem enter_twice_replies_twice_witness:
  "ix_sent (run inbox_step two_threads [ReplyKey, ReplyKey]) = [(''t1'', ''ok''), (''t1'', ''ok'')]"
  using enter_twice_replies_twice [of two_threads "''t1''"] by (simp add: inbox_eval)

theorem late_reply_clears_draft_witness:
  "ix_reply (run inbox_step (run inbox_step two_threads [ReplyKey]) [Pick ''t2'', TypeReply ''On it'', ReplyDone ''t1'' ''ok'']) = []"
  using late_reply_clears_draft [of "''t1''" "''ok''" "run inbox_step two_threads [ReplyKey]" "''t2''" "''On it''"]
  by (simp add: inbox_eval)

theorem chart_bounded_witness:
  "bar_height [3, 0, 5] 5 = 100 \<and> bar_height [3, 0, 5] 5 \<le> 100"
  using chart_bounded [of 5 "[3, 0, 5]"] by simp

end
