(* ===== verification/Payouts.thy ===== *)
theory Payouts
  imports Machine Http JsText
begin

text \<open>
  Paying the tutors, \<open>client/app/admin/payouts/page.tsx\<close>: the queue of payouts with its filter
  and pending total, confirming a manual transfer with its reference, the transfer through the
  gateway, and its second step with a one-time code. A state is the hooks of the page, the
  rows last loaded, the calls in flight and a log of what was sent. Amounts are whole units; the amount in the notice of a confirmation is
  left out.
\<close>

section \<open>State and handlers\<close>

record payout_row =
  py_id :: jsstring
  py_status :: jsstring
  py_amount :: int
  py_currency :: jsstring

datatype payout_call =
    ConfirmPaid jsstring jsstring \<comment> \<open>payout, reference\<close>
  | GatewayTransfer jsstring
  | Finalize jsstring jsstring \<comment> \<open>payout, one-time code\<close>

record payouts =
  po_status :: jsstring
  po_rows :: "payout_row list"
  po_paystack :: bool \<comment> \<open>transfers through the gateway are switched on\<close>
  po_refs :: "jsstring \<rightharpoonup> jsstring"
  po_busyId :: "jsstring option"
  po_paystackBusyId :: "jsstring option"
  po_otpFor :: "jsstring option"
  po_otpValue :: jsstring
  po_otpBusy :: bool
  po_calls :: "payout_call list"
  po_refreshing :: "payout_call list" \<comment> \<open>calls that succeeded and wait for the list to reload\<close>
  po_sent :: "payout_call list"
  po_toasts :: "jsstring list"

definition payouts0 :: payouts where
  "payouts0 = \<lparr>po_status = ''PENDING'', po_rows = [], po_paystack = False, po_refs = Map.empty, po_busyId = None,
     po_paystackBusyId = None, po_otpFor = None, po_otpValue = [], po_otpBusy = False, po_calls = [], po_refreshing = [],
     po_sent = [], po_toasts = []\<rparr>"

definition pendingTotal :: "payouts \<Rightarrow> int" where
  "pendingTotal s = foldl (\<lambda>t r. t + py_amount r) 0 (filter (\<lambda>r. py_status r = ''PENDING'') (po_rows s))"

definition po_call :: "payout_call \<Rightarrow> payouts \<Rightarrow> payouts" where
  "po_call c s = s\<lparr>po_calls := po_calls s @ [c], po_sent := po_sent s @ [c]\<rparr>"

definition po_toast :: "jsstring \<Rightarrow> payouts \<Rightarrow> payouts" where
  "po_toast m s = s\<lparr>po_toasts := po_toasts s @ [m]\<rparr>"

definition ref_of :: "payouts \<Rightarrow> jsstring \<Rightarrow> jsstring" where
  "ref_of s i = trim (case po_refs s i of Some r \<Rightarrow> r | None \<Rightarrow> [])"

definition confirm_payout :: "jsstring \<Rightarrow> payouts \<Rightarrow> payouts" where
  "confirm_payout i s =
     (if ref_of s i = [] then po_toast ''Enter the bank/provider transaction reference first'' s
      else po_call (ConfirmPaid i (ref_of s i)) (s\<lparr>po_busyId := Some i\<rparr>))"

definition sendPaystack :: "jsstring \<Rightarrow> payouts \<Rightarrow> payouts" where
  "sendPaystack i s = po_call (GatewayTransfer i) (s\<lparr>po_paystackBusyId := Some i\<rparr>)"

definition sendOTP :: "payouts \<Rightarrow> payouts" where
  "sendOTP s =
     (case po_otpFor s of
        None \<Rightarrow> s
      | Some i \<Rightarrow> if trim (po_otpValue s) = [] then s
          else po_call (Finalize i (trim (po_otpValue s))) (s\<lparr>po_otpBusy := True\<rparr>))"

text \<open>\<open>v.replace(/[^0-9]/g, "")\<close> in an input of at most six characters.\<close>

definition otp_text :: "jsstring \<Rightarrow> jsstring" where
  "otp_text v = filter (\<lambda>c. c \<in> set ''0123456789'') v"

text \<open>The \<open>finally\<close> of each handler.\<close>

fun payout_idle :: "payout_call \<Rightarrow> payouts \<Rightarrow> payouts" where
  "payout_idle (ConfirmPaid i r) s = s\<lparr>po_busyId := None\<rparr>"
| "payout_idle (GatewayTransfer i) s = s\<lparr>po_paystackBusyId := None\<rparr>"
| "payout_idle (Finalize i c) s = s\<lparr>po_otpBusy := False\<rparr>"

fun payout_done :: "payout_call \<Rightarrow> bool \<Rightarrow> payouts \<Rightarrow> payouts" where
  "payout_done (ConfirmPaid i r) otp s = po_toast ('' confirmed '' @ em_dash @ '' tutor notified'') s"
| "payout_done (GatewayTransfer i) otp s =
     (if otp then po_toast ''Enter the OTP sent to the tutor's bank-registered phone/email'' (s\<lparr>po_otpFor := Some i\<rparr>)
      else po_toast (''Transfer sent via Paystack '' @ em_dash @ '' payout marked PAID'') s)"
| "payout_done (Finalize i c) otp s =
     po_toast (''Transfer finalized '' @ em_dash @ '' payout marked PAID'') (s\<lparr>po_otpFor := None, po_otpValue := []\<rparr>)"

fun payout_error :: "payout_call \<Rightarrow> jsstring" where
  "payout_error (ConfirmPaid i r) = ''Could not confirm payout''"
| "payout_error (GatewayTransfer i) = ''Paystack transfer failed''"
| "payout_error (Finalize i c) = ''OTP rejected '' @ em_dash @ '' check it and try again''"

section \<open>The page\<close>

datatype payout_event =
    SetFilter jsstring | RowsLoaded "payout_row list" bool
  | TypeRef jsstring jsstring | ConfirmRow jsstring | PaystackRow jsstring
  | TypeOtp jsstring | FinalizeClick | CancelOtp | Backdrop
  | CallOk payout_call bool \<comment> \<open>whether the answer asks for a one-time code\<close>
  | Reloaded payout_call | CallFailed payout_call js_exn

definition payout_view :: "payouts \<Rightarrow> payout_event widget list" where
  "payout_view s =
     (case po_otpFor s of
        Some i \<Rightarrow> [Field ''otp'' (po_otpValue s), Btn (if po_otpBusy s then ''Finalizing'' @ ellipsis else ''Finalize transfer'')
            (\<not> po_otpBusy s \<and> trim (po_otpValue s) \<noteq> []) FinalizeClick,
          Btn ''Cancel'' True CancelOtp, Btn ''backdrop'' True Backdrop]
      | None \<Rightarrow>
          [Btn ''Pending'' True (SetFilter ''PENDING''), Btn ''All'' True (SetFilter []), Btn ''Paid'' True (SetFilter ''PAID'')] @
          concat (map (\<lambda>r. if py_status r = ''PAID'' then [Txt ''Transfer completed'']
            else (if po_paystack s then [Btn ''Send via Paystack'' (po_paystackBusyId s \<noteq> Some (py_id r)) (PaystackRow (py_id r))] else []) @
              [Btn ''Confirm paid'' (po_busyId s \<noteq> Some (py_id r)) (ConfirmRow (py_id r))]) (po_rows s)))"

text \<open>The dialog of the code covers the page, so its rows cannot be clicked behind it.\<close>

fun payout_guard :: "payouts \<Rightarrow> payout_event \<Rightarrow> bool" where
  "payout_guard s (RowsLoaded rs on) = True"
| "payout_guard s (TypeRef i v) = (po_otpFor s = None)"
| "payout_guard s (TypeOtp v) = (po_otpFor s \<noteq> None \<and> utf16_length v \<le> 6)"
| "payout_guard s (CallOk c otp) = (c \<in> set (po_calls s))"
| "payout_guard s (CallFailed c e) = (c \<in> set (po_calls s))"
| "payout_guard s (Reloaded c) = (c \<in> set (po_refreshing s))"
| "payout_guard s e = (e \<in> set (offered (payout_view s)))"

fun payout_step :: "payouts \<Rightarrow> payout_event \<Rightarrow> payouts" where
  "payout_step s (SetFilter f) = s\<lparr>po_status := f\<rparr>"
| "payout_step s (RowsLoaded rs on) = s\<lparr>po_rows := rs, po_paystack := on\<rparr>"
| "payout_step s (TypeRef i v) = s\<lparr>po_refs := (po_refs s)(i \<mapsto> v)\<rparr>"
| "payout_step s (ConfirmRow i) = confirm_payout i s"
| "payout_step s (PaystackRow i) = sendPaystack i s"
| "payout_step s (TypeOtp v) = s\<lparr>po_otpValue := otp_text v\<rparr>"
| "payout_step s FinalizeClick = sendOTP s"
| "payout_step s CancelOtp = s\<lparr>po_otpFor := None, po_otpValue := []\<rparr>"
| "payout_step s Backdrop = s\<lparr>po_otpFor := None\<rparr>"
| "payout_step s (CallOk c otp) = payout_done c otp (s\<lparr>po_calls := remove1 c (po_calls s), po_refreshing := po_refreshing s @ [c]\<rparr>)"
| "payout_step s (Reloaded c) = payout_idle c (s\<lparr>po_refreshing := remove1 c (po_refreshing s)\<rparr>)"
| "payout_step s (CallFailed c e) =
     payout_idle c (po_toast (message_or (payout_error c) e) (s\<lparr>po_calls := remove1 c (po_calls s)\<rparr>))"

section \<open>What is sent\<close>

fun is_finalize :: "payout_call \<Rightarrow> bool" where
  "is_finalize (Finalize i c) = True"
| "is_finalize c = False"

fun payout_call_ok :: "payout_call \<Rightarrow> bool" where
  "payout_call_ok (ConfirmPaid i r) = (r \<noteq> [] \<and> trim r = r)"
| "payout_call_ok (GatewayTransfer i) = True"
| "payout_call_ok (Finalize i c) = (c \<noteq> [] \<and> length c \<le> 6 \<and> list_all (\<lambda>d. d \<in> set ''0123456789'') c)"

definition code_digits :: "jsstring \<Rightarrow> bool" where
  "code_digits v = list_all (\<lambda>c. c \<in> set ''0123456789'') v"

text \<open>The finalisations that are under way or wait for the list.\<close>

definition finals :: "payouts \<Rightarrow> nat" where
  "finals s = length (filter is_finalize (po_calls s)) + length (filter is_finalize (po_refreshing s))"

definition payout_inv :: "payouts \<Rightarrow> bool" where
  "payout_inv s =
     (finals s = (if po_otpBusy s then 1 else 0) \<and> list_all payout_call_ok (po_sent s) \<and>
      length (po_otpValue s) \<le> 6 \<and> code_digits (po_otpValue s))"

lemma po_simps [simp]:
  "po_calls (po_call c s) = po_calls s @ [c]" "po_sent (po_call c s) = po_sent s @ [c]" "po_refreshing (po_call c s) = po_refreshing s"
  "po_otpBusy (po_call c s) = po_otpBusy s" "po_otpValue (po_call c s) = po_otpValue s" "po_otpFor (po_call c s) = po_otpFor s"
  "po_calls (po_toast m s) = po_calls s" "po_sent (po_toast m s) = po_sent s" "po_refreshing (po_toast m s) = po_refreshing s"
  "po_otpBusy (po_toast m s) = po_otpBusy s" "po_otpValue (po_toast m s) = po_otpValue s" "po_otpFor (po_toast m s) = po_otpFor s"
  "po_rows (po_call c s) = po_rows s" "po_paystack (po_call c s) = po_paystack s" "po_busyId (po_call c s) = po_busyId s"
  "po_paystackBusyId (po_call c s) = po_paystackBusyId s"
  by (simp_all add: po_call_def po_toast_def)

lemma trim_length: "length (trim s) \<le> length s"
proof -
  have "length (trim s) \<le> length (rev (dropWhile is_space s))" unfolding trim_def length_rev by (rule length_dropWhile_le [THEN le_trans]) simp
  also have "\<dots> \<le> length s" by (simp add: length_dropWhile_le)
  finally show ?thesis .
qed

lemma payout_offers:
  "e \<in> set (offered (payout_view s)) \<Longrightarrow>
   (\<exists>f. e = SetFilter f) \<or> (e = FinalizeClick \<and> \<not> po_otpBusy s) \<or> e = CancelOtp \<or> e = Backdrop \<or>
   (\<exists>r\<in>set (po_rows s). py_status r \<noteq> ''PAID'' \<and>
      ((e = PaystackRow (py_id r) \<and> po_paystackBusyId s \<noteq> Some (py_id r)) \<or> (e = ConfirmRow (py_id r) \<and> po_busyId s \<noteq> Some (py_id r))))"
  by (cases "po_otpFor s") (auto simp: payout_view_def split: if_splits)

text \<open>The \<open>finally\<close> of a handler whose call is gone.\<close>

lemma idle_inv:
  assumes "payout_inv s" "finals s' + (if is_finalize c then 1 else 0) = finals s"
    and "po_sent s' = po_sent s" "po_otpValue s' = po_otpValue s" "po_otpBusy s' = po_otpBusy s"
  shows "payout_inv (payout_idle c s')"
proof -
  have f: "finals (payout_idle c s') = finals s'" by (cases c) (simp_all add: finals_def)
  show ?thesis
  proof (cases "is_finalize c")
    case True
    then obtain i x where c: "c = Finalize i x" by (cases c) auto
    then have "finals s' = 0" using assms(1,2) by (cases "po_otpBusy s") (auto simp: payout_inv_def)
    then show ?thesis using assms(1,3,4) f by (simp add: c payout_inv_def)
  next
    case False
    then have "finals s' = finals s" using assms(2) by simp
    then show ?thesis using False assms(1,3-5) f by (cases c) (simp_all add: payout_inv_def)
  qed
qed

lemma payout_confirm_inv: "payout_inv s \<Longrightarrow> payout_inv (confirm_payout i s)"
  by (cases "po_otpBusy s") (simp_all add: confirm_payout_def payout_inv_def ref_of_def finals_def)

lemma trim_all: "list_all P s \<Longrightarrow> list_all P (trim s)"
  using trim_subset [of s] by (auto simp: list_all_iff)

lemma sendOTP_inv:
  assumes "payout_inv s" "\<not> po_otpBusy s"
  shows "payout_inv (sendOTP s)"
proof (cases "po_otpFor s")
  case None
  then show ?thesis using assms(1) by (simp add: sendOTP_def)
next
  case (Some i)
  have "length (trim (po_otpValue s)) \<le> 6" "code_digits (trim (po_otpValue s))"
    using assms(1) trim_length [of "po_otpValue s"] unfolding payout_inv_def code_digits_def by (linarith, blast intro: trim_all)
  with Some assms show ?thesis by (simp add: sendOTP_def payout_inv_def finals_def code_digits_def)
qed

lemma digit_ascii: "c \<in> set ''0123456789'' \<Longrightarrow> (of_char c :: nat) < 128"
  by auto

lemma otp_text_ok: "utf16_length v \<le> 6 \<Longrightarrow> length (otp_text v) \<le> 6 \<and> code_digits (otp_text v)"
  using le_trans [OF ascii_filter_length [of "\<lambda>c. c \<in> set ''0123456789''", OF digit_ascii]]
  unfolding otp_text_def code_digits_def list_all_iff set_filter by blast

lemma payout_done_frame [simp]:
  "finals (payout_done c otp s) = finals s" "po_sent (payout_done c otp s) = po_sent s" "po_otpBusy (payout_done c otp s) = po_otpBusy s"
  "po_otpValue (payout_done c otp s) = po_otpValue s \<or> po_otpValue (payout_done c otp s) = []"
  by (cases c; simp add: finals_def)+

lemma payout_inv_step:
  assumes "payout_inv s" "payout_guard s e"
  shows "payout_inv (payout_step s e)"
proof (cases e)
  case (ConfirmRow i)
  then show ?thesis using assms payout_confirm_inv by simp
next
  case (PaystackRow i)
  then show ?thesis using assms by (simp add: sendPaystack_def payout_inv_def finals_def)
next
  case FinalizeClick
  then show ?thesis using assms payout_offers [of e s] sendOTP_inv by simp
next
  case (TypeOtp v)
  then show ?thesis using assms otp_text_ok [of v] by (simp add: payout_inv_def finals_def)
next
  case (CallOk c otp)
  let ?s = "s\<lparr>po_calls := remove1 c (po_calls s), po_refreshing := po_refreshing s @ [c]\<rparr>"
  have "finals ?s = finals s" using CallOk assms(2) count_remove1 [of c "po_calls s" is_finalize] by (cases "is_finalize c") (simp_all add: finals_def)
  moreover have "po_otpValue (payout_done c otp ?s) = po_otpValue s \<or> po_otpValue (payout_done c otp ?s) = []" by (cases c) simp_all
  ultimately show ?thesis using assms(1) by (auto simp: CallOk payout_inv_def code_digits_def)
next
  case (Reloaded c)
  let ?s = "s\<lparr>po_refreshing := remove1 c (po_refreshing s)\<rparr>"
  have "finals ?s + (if is_finalize c then 1 else 0) = finals s"
    using Reloaded assms(2) count_remove1 [of c "po_refreshing s" is_finalize] by (simp add: finals_def)
  then have "payout_inv (payout_idle c ?s)" by (rule idle_inv [OF assms(1)]) simp_all
  then show ?thesis by (simp add: Reloaded)
next
  case (CallFailed c x)
  let ?s = "po_toast (message_or (payout_error c) x) (s\<lparr>po_calls := remove1 c (po_calls s)\<rparr>)"
  have "finals ?s + (if is_finalize c then 1 else 0) = finals s"
    using CallFailed assms(2) count_remove1 [of c "po_calls s" is_finalize] by (simp add: finals_def)
  then have "payout_inv (payout_idle c ?s)" by (rule idle_inv [OF assms(1)]) simp_all
  then show ?thesis by (simp add: CallFailed)
next
  case CancelOtp
  then show ?thesis using assms(1) by (simp add: payout_inv_def finals_def code_digits_def)
qed (use assms(1) in \<open>simp_all add: payout_inv_def finals_def\<close>)

interpretation payout: bounded_machine "\<lambda>s. s = payouts0" payout_guard payout_step payout_inv
  "\<lambda>s. length (filter is_finalize (po_calls s))" 1
proof unfold_locales
  fix s assume "s = payouts0"
  then show "payout_inv s" by (simp add: payout_inv_def payouts0_def finals_def code_digits_def)
next
  fix s e assume "payout_inv s" "payout_guard s e"
  then show "payout_inv (payout_step s e)" by (rule payout_inv_step)
next
  fix s assume "payout_inv s"
  then show "length (filter is_finalize (po_calls s)) \<le> 1" by (auto simp: payout_inv_def finals_def split: if_splits)
qed

text \<open>
  A payout is never confirmed without a reference, a one-time code has one to six digits, and
  one code is checked at a time.
\<close>

theorem payouts_well_formed:
  assumes "reach (\<lambda>s. s = payouts0) payout_guard payout_step s"
  shows "list_all payout_call_ok (po_sent s) \<and> length (filter is_finalize (po_calls s)) \<le> 1"
  using payout.reach_inv [OF assms] payout.reach_load [OF assms] by (simp add: payout_inv_def)

section \<open>Money sent twice\<close>

definition unpaid :: "jsstring \<Rightarrow> payouts \<Rightarrow> bool" where
  "unpaid i s = list_ex (\<lambda>r. py_id r = i \<and> py_status r \<noteq> ''PAID'') (po_rows s)"

lemma paystack_offered:
  "po_otpFor s = None \<Longrightarrow> po_paystack s \<Longrightarrow> unpaid i s \<Longrightarrow> po_paystackBusyId s \<noteq> Some i \<Longrightarrow>
   PaystackRow i \<in> set (offered (payout_view s))"
  by (fastforce simp: payout_view_def unpaid_def list_ex_iff)

text \<open>
  C35. One slot remembers which row is busy. A click on another row frees the first: its transfer
  can be started again while it is still under way.
\<close>

theorem transfer_sent_twice:
  assumes "po_otpFor s = None" "po_paystack s" "po_paystackBusyId s = None" "unpaid i s" "unpaid j s" "i \<noteq> j"
  shows "allowed payout_guard payout_step s [PaystackRow i, PaystackRow j, PaystackRow i] \<and>
    po_sent (run payout_step s [PaystackRow i, PaystackRow j, PaystackRow i]) =
      po_sent s @ [GatewayTransfer i, GatewayTransfer j, GatewayTransfer i] \<and>
    po_calls (run payout_step s [PaystackRow i, PaystackRow j, PaystackRow i]) =
      po_calls s @ [GatewayTransfer i, GatewayTransfer j, GatewayTransfer i]"
proof -
  let ?s1 = "sendPaystack i s" and ?s2 = "sendPaystack j (sendPaystack i s)"
  have f: "po_otpFor (sendPaystack k t) = po_otpFor t" "po_paystack (sendPaystack k t) = po_paystack t"
      "unpaid l (sendPaystack k t) = unpaid l t" "po_paystackBusyId (sendPaystack k t) = Some k"
      "po_sent (sendPaystack k t) = po_sent t @ [GatewayTransfer k]" "po_calls (sendPaystack k t) = po_calls t @ [GatewayTransfer k]" for k l t
    by (simp_all add: sendPaystack_def unpaid_def)
  have "PaystackRow i \<in> set (offered (payout_view s))" using assms by (intro paystack_offered) simp_all
  moreover have "PaystackRow j \<in> set (offered (payout_view ?s1))" using assms by (intro paystack_offered) (simp_all add: f)
  moreover have "PaystackRow i \<in> set (offered (payout_view ?s2))" using assms by (intro paystack_offered) (simp_all add: f)
  ultimately show ?thesis by (simp add: f)
qed

text \<open>
  The dialog keeps one payout: when the answer for another asks for a code while the first
  dialog is open, the digits already typed are sent for the other payout.
\<close>

theorem code_sent_for_other_payout:
  assumes "po_otpFor s = Some i" "\<not> po_otpBusy s" "GatewayTransfer j \<in> set (po_calls s)" "otp_text v = v" "trim v = v" "v \<noteq> []" "utf16_length v \<le> 6"
  shows "allowed payout_guard payout_step s [TypeOtp v, CallOk (GatewayTransfer j) True, FinalizeClick] \<and>
    po_sent (run payout_step s [TypeOtp v, CallOk (GatewayTransfer j) True, FinalizeClick]) = po_sent s @ [Finalize j v]"
  using assms by (simp add: payout_view_def sendOTP_def po_toast_def po_call_def)

text \<open>Cancel forgets the code, a click beside the dialog keeps it for the next one.\<close>

theorem backdrop_keeps_code:
  "po_otpValue (payout_step s CancelOtp) = [] \<and> po_otpValue (payout_step s Backdrop) = po_otpValue s \<and>
   po_otpFor (payout_step s Backdrop) = None"
  by simp

section \<open>Witnesses\<close>

definition two_rows :: payouts where
  "two_rows = run payout_step payouts0
     [RowsLoaded [\<lparr>py_id = ''p1'', py_status = ''PENDING'', py_amount = 5000, py_currency = ''NGN''\<rparr>,
        \<lparr>py_id = ''p2'', py_status = ''PENDING'', py_amount = 7000, py_currency = ''NGN''\<rparr>] True]"

lemma two_rows_reach: "reach (\<lambda>s. s = payouts0) payout_guard payout_step two_rows"
  unfolding two_rows_def by (rule run_reachable) simp_all

lemma ref_typed_reach:
  "reach (\<lambda>s. s = payouts0) payout_guard payout_step (run payout_step two_rows [TypeRef ''p1'' ''TX 1 '', ConfirmRow ''p1''])"
  by (rule run_reach [OF two_rows_reach]) (simp add: two_rows_def payouts0_def payout_view_def)

theorem payouts_well_formed_witness:
  "po_sent (run payout_step two_rows [TypeRef ''p1'' ''TX 1 '', ConfirmRow ''p1'']) = [ConfirmPaid ''p1'' ''TX 1''] \<and>
   length (filter is_finalize (po_calls (run payout_step two_rows [TypeRef ''p1'' ''TX 1 '', ConfirmRow ''p1'']))) \<le> 1"
  using payouts_well_formed [OF ref_typed_reach]
  by (simp add: two_rows_def payouts0_def confirm_payout_def ref_of_def trim_def is_space_def)

theorem transfer_sent_twice_witness:
  "po_calls (run payout_step two_rows [PaystackRow ''p1'', PaystackRow ''p2'', PaystackRow ''p1'']) =
     [GatewayTransfer ''p1'', GatewayTransfer ''p2'', GatewayTransfer ''p1'']"
  using transfer_sent_twice [of two_rows "''p1''" "''p2''"] by (simp add: two_rows_def payouts0_def unpaid_def)

theorem code_sent_for_other_payout_witness:
  "po_sent (run payout_step (run payout_step two_rows [PaystackRow ''p1'', PaystackRow ''p2'', CallOk (GatewayTransfer ''p1'') True])
     [TypeOtp ''123456'', CallOk (GatewayTransfer ''p2'') True, FinalizeClick]) =
   [GatewayTransfer ''p1'', GatewayTransfer ''p2'', Finalize ''p2'' ''123456'']"
  using code_sent_for_other_payout [of "run payout_step two_rows [PaystackRow ''p1'', PaystackRow ''p2'', CallOk (GatewayTransfer ''p1'') True]"
      "''p1''" "''p2''" "''123456''"]
  by (simp add: two_rows_def payouts0_def sendPaystack_def po_toast_def po_call_def otp_text_def trim_def is_space_def)

end
