(* ===== verification/PrivateTuition.thy ===== *)
theory PrivateTuition
  imports Machine Http JsNumber JsText
begin

text \<open>
  Private tuition: the seven-step request of
  \<open>client/features/tuition/PrivateTuitionWizard.tsx\<close> and the direct booking of
  \<open>client/features/tuition/PrivateBookingForm.tsx\<close>. Each is a machine over its hooks, the
  data of its queries, the calls in flight and a log of what was sent. The person signed in
  does not change while a form is open. Random keys come with the event that draws them.
\<close>

section \<open>The request\<close>

record tuition_form =
  tf_learner :: jsstring
  tf_level :: jsstring
  tf_subject :: jsstring
  tf_goals :: jsstring
  tf_days :: jsstring
  tf_time :: jsstring
  tf_timezone :: jsstring
  tf_preference :: jsstring
  tf_email :: jsstring
  tf_phone :: jsstring

definition EMPTY :: tuition_form where
  "EMPTY = \<lparr>tf_learner = [], tf_level = [], tf_subject = [], tf_goals = [], tf_days = [], tf_time = [],
     tf_timezone = ''Africa/Lagos'', tf_preference = ''No preference - match me'', tf_email = [], tf_phone = []\<rparr>"

definition LEVELS :: "jsstring list" where
  "LEVELS = [''Year 7-9 (British)'', ''IGCSE (Year 10-11)'', ''A-Level (Year 12-13)'', ''JSS1-3 (Nigerian)'', ''SSS1-3 (Nigerian)'', ''Other'']"

definition SUBJECTS :: "jsstring list" where
  "SUBJECTS = [''Mathematics'', ''English Language'', ''Physics'', ''Chemistry'', ''Biology'', ''Computer Science'',
     ''Python Programming'', ''Economics'', ''Other'']"

definition DAYS :: "jsstring list" where
  "DAYS = [''Weekdays'', ''Weekends'', ''Both'']"

definition TIMES :: "jsstring list" where
  "TIMES = [''Morning (8am-12pm)'', ''Afternoon (12-4pm)'', ''Evening (4-8pm)'', ''Flexible'']"

definition PREFERENCES :: "jsstring list" where
  "PREFERENCES = [''No preference - match me'', ''Female tutor'', ''Male tutor'', ''Specific tutor (I'll name them)'']"

record matching_request =
  mr_student :: jsstring
  mr_subject :: jsstring
  mr_goals :: jsstring
  mr_days :: jsstring
  mr_time :: jsstring
  mr_timezone :: jsstring
  mr_location :: jsstring

record ticket =
  tk_email :: jsstring
  tk_subject :: jsstring
  tk_message :: jsstring

datatype tuition_call = Matching matching_request | Ticket ticket

record wizard =
  wz_user :: "jsstring option" \<comment> \<open>e-mail address of the person signed in\<close>
  wz_learners :: "jsstring list option" \<comment> \<open>ids of the linked learners, \<open>None\<close> until loaded\<close>
  wz_subjects :: "(jsstring \<times> jsstring) list" \<comment> \<open>names and ids\<close>
  wz_step :: nat
  wz_form :: tuition_form
  wz_submitting :: bool
  wz_done :: bool
  wz_calls :: "tuition_call list"
  wz_sent :: "tuition_call list"
  wz_toasts :: "jsstring list"

definition wizard0 :: "jsstring option \<Rightarrow> wizard" where
  "wizard0 user = \<lparr>wz_user = user, wz_learners = None, wz_subjects = [], wz_step = 0, wz_form = EMPTY, wz_submitting = False,
     wz_done = False, wz_calls = [], wz_sent = [], wz_toasts = []\<rparr>"

definition contact_email :: "wizard \<Rightarrow> jsstring" where
  "contact_email s = (case wz_user s of Some e \<Rightarrow> e | None \<Rightarrow> tf_email (wz_form s))"

definition stepOk :: "wizard \<Rightarrow> nat \<Rightarrow> bool" where
  "stepOk s k =
     (let f = wz_form s in
      if k = 0 then trim (tf_learner f) \<noteq> [] \<and> tf_level f \<noteq> []
      else if k = 1 then tf_subject f \<noteq> []
      else if k = 2 then utf16_length (trim (tf_goals f)) \<ge> 10
      else if k = 3 then tf_days f \<noteq> [] \<and> tf_time f \<noteq> []
      else if k = 5 then str_includes (contact_email s) ''@''
      else True)"

definition canNext :: "wizard \<Rightarrow> bool" where
  "canNext s = stepOk s (wz_step s)"

definition subject_id :: "wizard \<Rightarrow> jsstring option" where
  "subject_id s = map_option snd (find (\<lambda>(name, i). to_lower name = to_lower (tf_subject (wz_form s))) (wz_subjects s))"

definition middle_dot :: jsstring where "middle_dot = [CHR '' '', CHR 0xC2, CHR 0xB7, CHR '' '']"

definition ticket_of :: "wizard \<Rightarrow> ticket" where
  "ticket_of s =
     (let f = wz_form s in
      \<lparr>tk_email = contact_email s,
       tk_subject = ''Private tuition request - '' @ tf_subject f @ '' ('' @ tf_level f @ '')'',
       tk_message = join [CHR 0x0A]
         [''Learner: '' @ tf_learner f, ''Level: '' @ tf_level f, ''Subject: '' @ tf_subject f, ''Goals: '' @ tf_goals f,
          ''Preferred: '' @ tf_days f @ middle_dot @ tf_time f @ middle_dot @ tf_timezone f,
          ''Tutor preference: '' @ tf_preference f,
          ''Contact: '' @ tf_email f @ '' '' @ (if tf_phone f \<noteq> [] then ''/ '' @ tf_phone f else [])]\<rparr>)"

definition tuition_request :: "wizard \<Rightarrow> tuition_call" where
  "tuition_request s =
     (let f = wz_form s in
      case (wz_user s, wz_learners s, subject_id s) of
        (Some u, Some (l # ls), Some i) \<Rightarrow>
          if i = [] then Ticket (ticket_of s)
          else Matching \<lparr>mr_student = l, mr_subject = i, mr_goals = tf_goals f, mr_days = tf_days f, mr_time = tf_time f,
                 mr_timezone = tf_timezone f, mr_location = ''ONLINE''\<rparr>
      | _ \<Rightarrow> Ticket (ticket_of s))"

definition wizard_submit :: "wizard \<Rightarrow> wizard" where
  "wizard_submit s = (let c = tuition_request s in
     s\<lparr>wz_submitting := True, wz_calls := wz_calls s @ [c], wz_sent := wz_sent s @ [c]\<rparr>)"

definition wizard_done :: "tuition_call \<Rightarrow> wizard \<Rightarrow> wizard" where
  "wizard_done c s = s\<lparr>wz_calls := remove1 c (wz_calls s), wz_done := True, wz_submitting := False,
     wz_toasts := wz_toasts s @ [case c of Matching r \<Rightarrow> ''Request received '' @ em_dash @ '' matching in progress'' | Ticket t \<Rightarrow> ''Request received'']\<rparr>"

definition wizard_lost :: "tuition_call \<Rightarrow> wizard \<Rightarrow> wizard" where
  "wizard_lost c s = s\<lparr>wz_calls := remove1 c (wz_calls s), wz_submitting := False, wz_toasts := wz_toasts s @ [''Could not send request'']\<rparr>"

datatype wizard_field = Learner | Level | Subject | Goals | Days | Time | Timezone | Preference | Email | Phone

fun set_field :: "wizard_field \<Rightarrow> jsstring \<Rightarrow> tuition_form \<Rightarrow> tuition_form" where
  "set_field Learner v f = f\<lparr>tf_learner := v\<rparr>"
| "set_field Level v f = f\<lparr>tf_level := v\<rparr>"
| "set_field Subject v f = f\<lparr>tf_subject := v\<rparr>"
| "set_field Goals v f = f\<lparr>tf_goals := v\<rparr>"
| "set_field Days v f = f\<lparr>tf_days := v\<rparr>"
| "set_field Time v f = f\<lparr>tf_time := v\<rparr>"
| "set_field Timezone v f = f\<lparr>tf_timezone := v\<rparr>"
| "set_field Preference v f = f\<lparr>tf_preference := v\<rparr>"
| "set_field Email v f = f\<lparr>tf_email := v\<rparr>"
| "set_field Phone v f = f\<lparr>tf_phone := v\<rparr>"

datatype wizard_event =
    GotLearners "jsstring list" | GotSubjects "(jsstring \<times> jsstring) list"
  | Choose wizard_field jsstring | Type wizard_field jsstring
  | Back | Continue | SubmitRequest | RequestOk tuition_call | RequestLost tuition_call | Another

text \<open>The inputs and the choices of each step.\<close>

definition typed_on :: "wizard \<Rightarrow> wizard_field list" where
  "typed_on s =
     (if wz_step s = 0 then [Learner] else if wz_step s = 2 then [Goals] else if wz_step s = 3 then [Timezone]
      else if wz_step s = 5 then (if wz_user s = None then [Email, Phone] else [Phone]) else [])"

definition chosen_on :: "nat \<Rightarrow> (wizard_field \<times> jsstring list) list" where
  "chosen_on k =
     (if k = 0 then [(Level, LEVELS)] else if k = 1 then [(Subject, SUBJECTS)] else if k = 3 then [(Days, DAYS), (Time, TIMES)]
      else if k = 4 then [(Preference, PREFERENCES)] else [])"

definition wizard_view :: "wizard \<Rightarrow> wizard_event widget list" where
  "wizard_view s =
     (if wz_done s then [Txt ''Request received'', Btn ''Submit another request'' True Another]
      else concat (map (\<lambda>(fld, vs). map (\<lambda>v. Btn v True (Choose fld v)) vs) (chosen_on (wz_step s))) @
        [Btn ''Back'' (wz_step s \<noteq> 0 \<and> \<not> wz_submitting s) Back,
         (if wz_step s < 6 then Btn ''Continue'' (canNext s) Continue
          else Btn (if wz_submitting s then ''Submitting'' @ ellipsis else ''Submit request'') (\<not> wz_submitting s \<and> canNext s) SubmitRequest)])"

fun wizard_guard :: "wizard \<Rightarrow> wizard_event \<Rightarrow> bool" where
  "wizard_guard s (GotLearners ls) = (wz_user s \<noteq> None)"
| "wizard_guard s (GotSubjects ss) = True"
| "wizard_guard s (Type fld v) = (\<not> wz_done s \<and> fld \<in> set (typed_on s))"
| "wizard_guard s (RequestOk c) = (c \<in> set (wz_calls s))"
| "wizard_guard s (RequestLost c) = (c \<in> set (wz_calls s))"
| "wizard_guard s e = (e \<in> set (offered (wizard_view s)))"

fun wizard_step :: "wizard \<Rightarrow> wizard_event \<Rightarrow> wizard" where
  "wizard_step s (GotLearners ls) = s\<lparr>wz_learners := Some ls\<rparr>"
| "wizard_step s (GotSubjects ss) = s\<lparr>wz_subjects := ss\<rparr>"
| "wizard_step s (Choose fld v) = s\<lparr>wz_form := set_field fld v (wz_form s)\<rparr>"
| "wizard_step s (Type fld v) = s\<lparr>wz_form := set_field fld v (wz_form s)\<rparr>"
| "wizard_step s Back = s\<lparr>wz_step := wz_step s - 1\<rparr>"
| "wizard_step s Continue = s\<lparr>wz_step := wz_step s + 1\<rparr>"
| "wizard_step s SubmitRequest = wizard_submit s"
| "wizard_step s (RequestOk c) = wizard_done c s"
| "wizard_step s (RequestLost c) = wizard_lost c s"
| "wizard_step s Another = s\<lparr>wz_form := EMPTY, wz_step := 0, wz_done := False\<rparr>"

section \<open>What the request promises\<close>

text \<open>A form whose answers are complete, and the lines of a ticket that repeat them.\<close>

definition complete_form :: "tuition_form \<Rightarrow> bool" where
  "complete_form f = (trim (tf_learner f) \<noteq> [] \<and> tf_level f \<in> set LEVELS \<and> tf_subject f \<in> set SUBJECTS \<and>
     utf16_length (trim (tf_goals f)) \<ge> 10 \<and> tf_days f \<in> set DAYS \<and> tf_time f \<in> set TIMES)"

definition repeats_form :: "jsstring \<Rightarrow> tuition_form \<Rightarrow> bool" where
  "repeats_form message f = list_all (str_includes message)
     [''Learner: '' @ tf_learner f, ''Level: '' @ tf_level f, ''Subject: '' @ tf_subject f, ''Goals: '' @ tf_goals f,
      ''Preferred: '' @ tf_days f @ middle_dot @ tf_time f @ middle_dot @ tf_timezone f]"

text \<open>
  A matching request is made for somebody signed in only and names a subject of the catalogue; a
  ticket goes to the address of the person signed in, or else to the one of the form, and repeats
  a complete form.
\<close>

fun tuition_call_ok :: "jsstring option \<Rightarrow> tuition_call \<Rightarrow> bool" where
  "tuition_call_ok user (Matching r) =
     (user \<noteq> None \<and> mr_subject r \<noteq> [] \<and> utf16_length (trim (mr_goals r)) \<ge> 10 \<and> mr_days r \<in> set DAYS \<and> mr_time r \<in> set TIMES)"
| "tuition_call_ok user (Ticket t) =
     (str_includes (tk_email t) ''@'' \<and> user \<in> {None, Some (tk_email t)} \<and>
      (\<exists>f. complete_form f \<and> repeats_form (tk_message t) f \<and> (user = None \<longrightarrow> tk_email t = tf_email f)))"

lemma tuition_call_ok_Ticket: "complete_form f \<Longrightarrow> repeats_form (tk_message t) f \<Longrightarrow>
   str_includes (tk_email t) ''@'' \<Longrightarrow> tk_email t = (case user of Some e \<Rightarrow> e | None \<Rightarrow> tf_email f) \<Longrightarrow>
   tuition_call_ok user (Ticket t)"
  by (cases user) auto

lemma includes_join: "s \<in> set ss \<Longrightarrow> str_includes (join sep ss) s"
proof (induction ss)
  case Nil
  then show ?case by simp
next
  case (Cons t ts)
  show ?case
  proof (cases "s = t")
    case True
    then have "\<exists>b. join sep (t # ts) = [] @ s @ b" by (cases ts) auto
    then show ?thesis unfolding includes_iff by blast
  next
    case False
    then have "ts \<noteq> []" "s \<in> set ts" using Cons.prems by auto
    with Cons.IH obtain a b where "join sep ts = a @ s @ b" by (auto simp: includes_iff)
    with \<open>ts \<noteq> []\<close> have "join sep (t # ts) = (t @ sep @ a) @ s @ b" by (simp add: join_Cons)
    then show ?thesis unfolding includes_iff by blast
  qed
qed

lemma lines_included: "set xs \<subseteq> set ss \<Longrightarrow> list_all (str_includes (join sep ss)) xs"
  using includes_join unfolding list_all_iff by blast

lemma ticket_repeats: "repeats_form (tk_message (ticket_of s)) (wz_form s)"
  unfolding repeats_form_def ticket_of_def Let_def ticket.select_convs by (rule lines_included) simp

definition passed :: "wizard \<Rightarrow> bool" where
  "passed s = (\<forall>j<wz_step s. stepOk s j)"

definition form_ranges :: "tuition_form \<Rightarrow> bool" where
  "form_ranges f = (tf_level f \<in> set ([] # LEVELS) \<and> tf_subject f \<in> set ([] # SUBJECTS) \<and>
     tf_days f \<in> set ([] # DAYS) \<and> tf_time f \<in> set ([] # TIMES))"

definition wizard_inv :: "wizard \<Rightarrow> bool" where
  "wizard_inv s =
     (wz_step s \<le> 6 \<and> passed s \<and> form_ranges (wz_form s) \<and>
      length (wz_calls s) = (if wz_submitting s then 1 else 0) \<and> (if wz_submitting s then wz_step s = 6 \<and> \<not> wz_done s else True) \<and>
      list_all (tuition_call_ok (wz_user s)) (wz_sent s))"

definition own_step :: "wizard_field \<Rightarrow> nat" where
  "own_step fld = (case fld of Learner \<Rightarrow> 0 | Level \<Rightarrow> 0 | Subject \<Rightarrow> 1 | Goals \<Rightarrow> 2 | Days \<Rightarrow> 3 | Time \<Rightarrow> 3 | Timezone \<Rightarrow> 3
     | Preference \<Rightarrow> 4 | Email \<Rightarrow> 5 | Phone \<Rightarrow> 5)"

lemma set_field_other: "own_step fld \<noteq> j \<Longrightarrow> stepOk (s\<lparr>wz_form := set_field fld v (wz_form s)\<rparr>) j = stepOk s j"
  by (cases fld) (simp_all add: stepOk_def own_step_def Let_def contact_email_def cong: option.case_cong)

lemma typed_own: "fld \<in> set (typed_on s) \<Longrightarrow> own_step fld = wz_step s"
  by (auto simp: typed_on_def own_step_def split: if_splits)

lemma wizard_offers:
  "e \<in> set (offered (wizard_view s)) \<Longrightarrow>
   (e = Another \<and> wz_done s) \<or> (e = Back \<and> wz_step s \<noteq> 0 \<and> \<not> wz_submitting s) \<or> (e = Continue \<and> wz_step s < 6 \<and> canNext s) \<or>
   (e = SubmitRequest \<and> \<not> wz_step s < 6 \<and> \<not> wz_submitting s \<and> \<not> wz_done s) \<or>
   (\<exists>fld vs v. e = Choose fld v \<and> (fld, vs) \<in> set (chosen_on (wz_step s)) \<and> v \<in> set vs)"
  by (fastforce simp: wizard_view_def split: if_splits)

lemma chosen_own: "(fld, vs) \<in> set (chosen_on k) \<Longrightarrow> own_step fld = k \<and> vs = (case fld of Level \<Rightarrow> LEVELS | Subject \<Rightarrow> SUBJECTS | Days \<Rightarrow> DAYS | Time \<Rightarrow> TIMES | _ \<Rightarrow> PREFERENCES)"
  by (auto simp: chosen_on_def own_step_def split: if_splits)

lemma passed_frame: "passed s \<Longrightarrow> own_step fld = wz_step s \<Longrightarrow> passed (s\<lparr>wz_form := set_field fld v (wz_form s)\<rparr>)"
  by (simp add: passed_def set_field_other)

lemma set_field_ranges:
  "form_ranges f \<Longrightarrow> v \<in> set (case fld of Level \<Rightarrow> LEVELS | Subject \<Rightarrow> SUBJECTS | Days \<Rightarrow> DAYS | Time \<Rightarrow> TIMES | _ \<Rightarrow> [v]) \<Longrightarrow>
   form_ranges (set_field fld v f)"
  by (cases fld) (auto simp: form_ranges_def)

lemma stepOk_frame:
  "wz_form s' = wz_form s \<Longrightarrow> wz_user s' = wz_user s \<Longrightarrow> stepOk s' = stepOk s"
  by (rule ext) (simp add: stepOk_def contact_email_def cong: option.case_cong)

lemma passed_eq: "wz_form s' = wz_form s \<Longrightarrow> wz_user s' = wz_user s \<Longrightarrow> wz_step s' = wz_step s \<Longrightarrow> passed s' = passed s"
  by (simp add: passed_def stepOk_frame [of s' s])

text \<open>A request sent from the last step is complete.\<close>

lemma complete_request:
  assumes "wizard_inv s" "wz_step s = 6"
  shows "tuition_call_ok (wz_user s) (tuition_request s)"
proof -
  have ok: "stepOk s j" if "j < 6" for j using assms that by (auto simp: wizard_inv_def passed_def)
  have goals: "utf16_length (trim (tf_goals (wz_form s))) \<ge> 10" using ok [of 2] by (simp add: stepOk_def Let_def)
  have times: "tf_days (wz_form s) \<in> set DAYS" "tf_time (wz_form s) \<in> set TIMES"
    using ok [of 3] assms(1) by (auto simp: stepOk_def Let_def wizard_inv_def form_ranges_def)
  have "trim (tf_learner (wz_form s)) \<noteq> []" "tf_level (wz_form s) \<in> set LEVELS" "tf_subject (wz_form s) \<in> set SUBJECTS"
    using ok [of 0] ok [of 1] assms(1) by (auto simp: stepOk_def Let_def wizard_inv_def form_ranges_def)
  with goals times have form: "complete_form (wz_form s)" by (simp add: complete_form_def)
  have "str_includes (contact_email s) ''@''" using ok [of 5] by (simp add: stepOk_def Let_def)
  then have ticket: "tuition_call_ok (wz_user s) (Ticket (ticket_of s))"
    by (intro tuition_call_ok_Ticket [OF form ticket_repeats]) (simp_all add: ticket_of_def Let_def contact_email_def)
  show ?thesis using goals times ticket
    by (auto simp: tuition_request_def Let_def simp del: tuition_call_ok.simps(2) split: option.splits list.splits)
qed

lemma wizard_inv_step:
  assumes "wizard_inv s" "wizard_guard s e"
  shows "wizard_inv (wizard_step s e)"
proof (cases e)
  case (Choose fld v)
  then obtain vs where m: "(fld, vs) \<in> set (chosen_on (wz_step s))" "v \<in> set vs" using assms(2) wizard_offers [of e s] by auto
  then have "own_step fld = wz_step s" "v \<in> set (case fld of Level \<Rightarrow> LEVELS | Subject \<Rightarrow> SUBJECTS | Days \<Rightarrow> DAYS | Time \<Rightarrow> TIMES | _ \<Rightarrow> [v])"
    using chosen_own [OF m(1)] by (auto split: wizard_field.splits)
  then show ?thesis using assms(1) by (auto simp: Choose wizard_inv_def passed_frame set_field_ranges)
next
  case (Type fld v)
  then have "own_step fld = wz_step s" "v \<in> set (case fld of Level \<Rightarrow> LEVELS | Subject \<Rightarrow> SUBJECTS | Days \<Rightarrow> DAYS | Time \<Rightarrow> TIMES | _ \<Rightarrow> [v])"
    using assms(2) typed_own [of fld s] by (auto simp: typed_on_def split: if_splits)
  then show ?thesis using assms(1) by (simp add: Type wizard_inv_def passed_frame set_field_ranges)
next
  case Back
  then show ?thesis using assms wizard_offers [of e s] stepOk_frame [of "s\<lparr>wz_step := wz_step s - 1\<rparr>" s] by (auto simp: wizard_inv_def passed_def)
next
  case Continue
  then have "wz_step s < 6" "canNext s" "\<not> wz_submitting s" using assms wizard_offers [of e s] by (auto simp: wizard_inv_def)
  then show ?thesis using assms(1) stepOk_frame [of "s\<lparr>wz_step := wz_step s + 1\<rparr>" s]
    by (auto simp: Continue wizard_inv_def passed_def canNext_def less_Suc_eq)
next
  case SubmitRequest
  then have "wz_step s = 6" "\<not> wz_submitting s" "\<not> wz_done s" using assms wizard_offers [of e s] by (auto simp: wizard_inv_def)
  then show ?thesis using assms(1) complete_request [of s] passed_eq [of "wizard_submit s" s]
    by (simp add: SubmitRequest wizard_inv_def wizard_submit_def Let_def)
next
  case (RequestOk c)
  then have "c \<in> set (wz_calls s)" using assms(2) by simp
  then have "length (remove1 c (wz_calls s)) = 0" using assms(1) by (simp add: wizard_inv_def length_remove1 split: if_splits)
  then show ?thesis using assms(1) passed_eq [of "wizard_done c s" s] by (simp add: RequestOk wizard_inv_def wizard_done_def)
next
  case (RequestLost c)
  then have "c \<in> set (wz_calls s)" using assms(2) by simp
  then have "length (remove1 c (wz_calls s)) = 0" using assms(1) by (simp add: wizard_inv_def length_remove1 split: if_splits)
  then show ?thesis using assms(1) passed_eq [of "wizard_lost c s" s] by (simp add: RequestLost wizard_inv_def wizard_lost_def)
next
  case Another
  then have "\<not> wz_submitting s" using assms wizard_offers [of e s] by (auto simp: wizard_inv_def)
  then show ?thesis using assms(1) by (simp add: Another wizard_inv_def passed_def EMPTY_def form_ranges_def)
next
  case (GotLearners ls)
  then show ?thesis using assms(1) passed_eq [of "s\<lparr>wz_learners := Some ls\<rparr>" s] by (simp add: wizard_inv_def)
next
  case (GotSubjects ls)
  then show ?thesis using assms(1) passed_eq [of "s\<lparr>wz_subjects := ls\<rparr>" s] by (simp add: wizard_inv_def)
qed

interpretation wizard: bounded_machine "\<lambda>s. s = wizard0 user" wizard_guard wizard_step wizard_inv
  "\<lambda>s. length (wz_calls s)" 1
  for user
proof unfold_locales
  fix s assume "s = wizard0 user"
  then show "wizard_inv s" by (simp add: wizard_inv_def wizard0_def passed_def EMPTY_def form_ranges_def)
next
  fix s e assume "wizard_inv s" "wizard_guard s e"
  then show "wizard_inv (wizard_step s e)" by (rule wizard_inv_step)
next
  fix s assume "wizard_inv s"
  then show "length (wz_calls s) \<le> 1" by (simp add: wizard_inv_def)
qed


text \<open>The events of a guest, and of a parent whose second child needs a tutor.\<close>

definition fill :: "jsstring \<Rightarrow> wizard_event list" where
  "fill child =
     [Type Learner child, Choose Level ''Other'', Continue, Choose Subject ''Physics'', Continue, Type Goals ''Pass physics'', Continue,
      Choose Days ''Both'', Choose Time ''Flexible'', Continue, Choose Preference ''Female tutor'', Continue]"

definition guest_events :: "wizard_event list" where
  "guest_events = fill ''Tolu'' @ [Type Email ''a@b.ng'', Continue, SubmitRequest]"

definition parent_events :: "wizard_event list" where
  "parent_events = [GotLearners [''l1'', ''l2''], GotSubjects [(''physics'', ''p7'')]] @ fill ''Tolu'' @ [Continue, SubmitRequest]"

lemmas wizard_eval = fill_def guest_events_def parent_events_def wizard0_def EMPTY_def wizard_view_def chosen_on_def typed_on_def
  canNext_def stepOk_def contact_email_def LEVELS_def SUBJECTS_def DAYS_def TIMES_def PREFERENCES_def wizard_submit_def
  tuition_request_def subject_id_def ticket_of_def


text \<open>
  A request that could not be sent is still there: the next click sends what the form says.
\<close>

theorem lost_request_resent:
  assumes "reach (\<lambda>s. s = wizard0 user) wizard_guard wizard_step s" "c \<in> set (wz_calls s)"
  shows "allowed wizard_guard wizard_step s [RequestLost c, SubmitRequest] \<and>
    wz_sent (run wizard_step s [RequestLost c, SubmitRequest]) = wz_sent s @ [tuition_request s]"
proof -
  have inv: "wizard_inv s" using wizard.reach_inv [OF assms(1)] .
  then have sub: "wz_step s = 6" "\<not> wz_done s" "length (wz_calls s) = 1" using assms(2) by (auto simp: wizard_inv_def split: if_splits)
  let ?t = "wizard_lost c s"
  have same: "wz_step ?t = wz_step s" "wz_done ?t = wz_done s" "\<not> wz_submitting ?t" "canNext ?t"
    using sub by (simp_all add: wizard_lost_def canNext_def stepOk_def)
  have "SubmitRequest \<in> set (offered (wizard_view ?t))" using same sub by (simp add: wizard_view_def)
  moreover have "tuition_request ?t = tuition_request s"
  proof -
    have "contact_email ?t = contact_email s" by (cases "wz_user s") (simp_all add: contact_email_def wizard_lost_def)
    then have "ticket_of ?t = ticket_of s" by (simp add: ticket_of_def wizard_lost_def)
    note t = this
    have u: "subject_id ?t = subject_id s" "wz_form ?t = wz_form s" "wz_user ?t = wz_user s" "wz_learners ?t = wz_learners s"
      unfolding wizard_lost_def by (simp_all add: subject_id_def)
    show ?thesis unfolding tuition_request_def t u ..
  qed
  ultimately show ?thesis using assms(2) by (simp add: wizard_submit_def Let_def) (simp add: wizard_lost_def)
qed

theorem lost_request_resent_witness:
  "wz_sent (run wizard_step (wizard0 None) (guest_events @
     [RequestLost (tuition_request (run wizard_step (wizard0 None) guest_events)), SubmitRequest])) =
   (let r = tuition_request (run wizard_step (wizard0 None) guest_events) in [r, r])"
proof -
  let ?s = "run wizard_step (wizard0 None) guest_events"
  have a: "allowed wizard_guard wizard_step (wizard0 None) guest_events" by code_simp
  have "tuition_request ?s \<in> set (wz_calls ?s)" "wz_sent ?s = [tuition_request ?s]" by code_simp+
  with lost_request_resent [OF run_reachable [OF refl a]] show ?thesis by (simp only: run_append Let_def) simp
qed

text \<open>
  The request of a parent with linked learners is for the first of them, whatever name, level,
  tutor preference or telephone number the form says: none of these four is sent.
\<close>

theorem matching_ignores_learner_name:
  assumes "wz_user s = Some u" "wz_learners s = Some (l # ls)" "subject_id s = Some i" "i \<noteq> []"
  shows "(case tuition_request s of Matching r \<Rightarrow> mr_student r = l | Ticket t \<Rightarrow> False) \<and>
    tuition_request (s\<lparr>wz_form := (wz_form s)\<lparr>tf_learner := n, tf_level := v, tf_preference := p, tf_phone := q\<rparr>\<rparr>) = tuition_request s"
proof -
  let ?s = "s\<lparr>wz_form := (wz_form s)\<lparr>tf_learner := n, tf_level := v, tf_preference := p, tf_phone := q\<rparr>\<rparr>"
  have "subject_id ?s = subject_id s" by (simp add: subject_id_def)
  then show ?thesis using assms by (simp add: tuition_request_def Let_def)
qed

theorem matching_ignores_learner_name_witness:
  "allowed wizard_guard wizard_step (wizard0 (Some ''p@x.ng'')) parent_events \<and>
   (let s = run wizard_step (wizard0 (Some ''p@x.ng'')) parent_events in
    tf_learner (wz_form s) = ''Tolu'' \<and> tf_preference (wz_form s) = ''Female tutor'' \<and>
    (case tuition_request s of Matching r \<Rightarrow> mr_student r = ''l1'' | Ticket t \<Rightarrow> False) \<and>
    tuition_request (s\<lparr>wz_form := (wz_form s)\<lparr>tf_learner := ''Ada'', tf_level := ''Other'', tf_preference := ''Male tutor'', tf_phone := ''1''\<rparr>\<rparr>) =
      tuition_request s)"
proof -
  let ?s = "run wizard_step (wizard0 (Some ''p@x.ng'')) parent_events"
  have h: "wz_user ?s = Some ''p@x.ng''" "wz_learners ?s = Some [''l1'', ''l2'']" "subject_id ?s = Some ''p7''" "''p7'' \<noteq> ([]::jsstring)" by code_simp+
  have f: "tf_learner (wz_form ?s) = ''Tolu''" "tf_preference (wz_form ?s) = ''Female tutor''" by code_simp+
  have a: "allowed wizard_guard wizard_step (wizard0 (Some ''p@x.ng'')) parent_events" by code_simp
  show ?thesis unfolding Let_def using a f matching_ignores_learner_name [OF h, where n = "''Ada''" and v = "''Other''" and p = "''Male tutor''" and q = "''1''"] by blast
qed

section \<open>The direct booking\<close>

record booking_request =
  bk_student :: jsstring
  bk_tutor :: jsstring
  bk_subject :: jsstring
  bk_sessions :: rat
  bk_duration :: nat
  bk_goals :: "jsstring option"
  bk_key :: jsstring

record payment_request =
  pq_order :: jsstring
  pq_email :: jsstring
  pq_callback :: jsstring

datatype booking_call = Book booking_request | Pay payment_request

record catalogue_subject =
  cs_id :: jsstring
  cs_name :: jsstring
  cs_slug :: jsstring

record booking_form =
  bf_tutor :: jsstring
  bf_subjects :: "jsstring list"
  bf_rate :: rat \<comment> \<open>\<open>defaultRate\<close>\<close>
  bf_user :: "jsstring option"
  bf_learners :: "jsstring list" \<comment> \<open>ids, empty until loaded\<close>
  bf_catalogue :: "catalogue_subject list" \<comment> \<open>empty until loaded\<close>
  bf_subject :: jsstring
  bf_studentId :: jsstring
  bf_sessions :: rat
  bf_duration :: nat
  bf_goals :: jsstring
  bf_busy :: bool
  bf_paymentLink :: "jsstring option"
  bf_orderNumber :: jsstring
  bf_orderId :: jsstring
  bf_calls :: "booking_call list"
  bf_sent :: "booking_call list"
  bf_toasts :: "jsstring list"

definition booking0 :: "jsstring \<Rightarrow> jsstring list \<Rightarrow> rat \<Rightarrow> jsstring option \<Rightarrow> booking_form" where
  "booking0 tutor subjects rate user =
     \<lparr>bf_tutor = tutor, bf_subjects = subjects, bf_rate = rate, bf_user = user, bf_learners = [], bf_catalogue = [],
      bf_subject = (if subjects = [] then ''Mathematics'' else hd subjects), bf_studentId = [], bf_sessions = 10, bf_duration = 60,
      bf_goals = [], bf_busy = False, bf_paymentLink = None, bf_orderNumber = [], bf_orderId = [], bf_calls = [], bf_sent = [], bf_toasts = []\<rparr>"

definition publishedRate :: "booking_form \<Rightarrow> rat" where
  "publishedRate s = (if bf_rate s > 0 then bf_rate s else 0)"

definition bf_toast :: "jsstring \<Rightarrow> booking_form \<Rightarrow> booking_form" where
  "bf_toast m s = s\<lparr>bf_toasts := bf_toasts s @ [m]\<rparr>"

definition bf_call :: "booking_call \<Rightarrow> booking_form \<Rightarrow> booking_form" where
  "bf_call c s = s\<lparr>bf_calls := bf_calls s @ [c], bf_sent := bf_sent s @ [c]\<rparr>"

definition booking_subject :: "booking_form \<Rightarrow> jsstring option" where
  "booking_subject s =
     map_option cs_id (find (\<lambda>c. to_lower (cs_name c) = to_lower (bf_subject s) \<or> cs_slug c = to_lower (bf_subject s)) (bf_catalogue s))"

definition booking_of :: "jsstring \<Rightarrow> jsstring \<Rightarrow> booking_form \<Rightarrow> booking_request" where
  "booking_of subject key s =
     \<lparr>bk_student = bf_studentId s, bk_tutor = bf_tutor s, bk_subject = subject, bk_sessions = bf_sessions s, bk_duration = bf_duration s,
      bk_goals = (if bf_goals s = [] then None else Some (bf_goals s)), bk_key = key\<rparr>"

definition incomplete :: "booking_form \<Rightarrow> bool" where
  "incomplete s = (bf_subject s = [] \<or> booking_subject s = None \<or> booking_subject s = Some [] \<or> bf_studentId s = [] \<or> bf_sessions s < 1)"

definition submit_booking :: "jsstring \<Rightarrow> booking_form \<Rightarrow> booking_form" where
  "submit_booking key s =
     (if incomplete s then bf_toast ''Complete all fields - subject, learner and sessions.'' s
      else if publishedRate s \<le> 0 then bf_toast ''This tutor has no published session rate yet.'' s
      else bf_call (Book (booking_of (the (booking_subject s)) key s)) (s\<lparr>bf_busy := True\<rparr>))"

definition payment_of :: "jsstring \<Rightarrow> booking_form \<Rightarrow> payment_request" where
  "payment_of order s = \<lparr>pq_order = order, pq_email = the (bf_user s), pq_callback = ''/receipts/'' @ order\<rparr>"

datatype booking_event =
    LearnersLoaded "jsstring list" | CatalogueLoaded "catalogue_subject list"
  | PickSubject jsstring | PickLearner jsstring | TypeSessions rat | PickDuration nat | TypeGoals jsstring
  | BookClick jsstring
  | BookingOk booking_request jsstring
  | PaymentOk payment_request jsstring jsstring
  | BookingFailed booking_call js_exn

definition durations :: "nat list" where "durations = [45, 60, 90, 120]"

text \<open>The form is on the screen for a person signed in, until there is a payment link.\<close>

definition form_shown :: "booking_form \<Rightarrow> bool" where
  "form_shown s = (bf_user s \<noteq> None \<and> (bf_paymentLink s = None \<or> bf_paymentLink s = Some []))"

fun booking_guard :: "booking_form \<Rightarrow> booking_event \<Rightarrow> bool" where
  "booking_guard s (LearnersLoaded ls) = (bf_user s \<noteq> None)"
| "booking_guard s (CatalogueLoaded cs) = True"
| "booking_guard s (PickSubject v) = (form_shown s \<and> v \<in> set (bf_subjects s))"
| "booking_guard s (PickLearner v) = (form_shown s \<and> (v = [] \<or> v \<in> set (bf_learners s)))"
| "booking_guard s (TypeSessions n) = form_shown s"
| "booking_guard s (PickDuration d) = (form_shown s \<and> d \<in> set durations)"
| "booking_guard s (TypeGoals v) = form_shown s"
| "booking_guard s (BookClick key) = (form_shown s \<and> \<not> bf_busy s \<and> \<not> publishedRate s \<le> 0)"
| "booking_guard s (BookingOk r order) = (Book r \<in> set (bf_calls s))"
| "booking_guard s (PaymentOk p number link) = (Pay p \<in> set (bf_calls s))"
| "booking_guard s (BookingFailed c e) = (c \<in> set (bf_calls s))"

fun booking_step :: "booking_form \<Rightarrow> booking_event \<Rightarrow> booking_form" where
  "booking_step s (LearnersLoaded ls) = s\<lparr>bf_learners := ls\<rparr>"
| "booking_step s (CatalogueLoaded cs) = s\<lparr>bf_catalogue := cs\<rparr>"
| "booking_step s (PickSubject v) = s\<lparr>bf_subject := v\<rparr>"
| "booking_step s (PickLearner v) = s\<lparr>bf_studentId := v\<rparr>"
| "booking_step s (TypeSessions n) = s\<lparr>bf_sessions := n\<rparr>"
| "booking_step s (PickDuration d) = s\<lparr>bf_duration := d\<rparr>"
| "booking_step s (TypeGoals v) = s\<lparr>bf_goals := v\<rparr>"
| "booking_step s (BookClick key) = submit_booking key s"
| "booking_step s (BookingOk r order) = bf_call (Pay (payment_of order s)) (s\<lparr>bf_calls := remove1 (Book r) (bf_calls s)\<rparr>)"
| "booking_step s (PaymentOk p number link) =
     bf_toast ''Order created - complete payment to confirm your tutor''
       (s\<lparr>bf_calls := remove1 (Pay p) (bf_calls s), bf_orderId := pq_order p, bf_orderNumber := number, bf_paymentLink := Some link, bf_busy := False\<rparr>)"
| "booking_step s (BookingFailed c e) =
     bf_toast (message_or ''Could not create your booking'' e) (s\<lparr>bf_calls := remove1 c (bf_calls s), bf_busy := False\<rparr>)"

section \<open>What is booked\<close>

fun is_pay :: "booking_call \<Rightarrow> bool" where
  "is_pay (Pay p) = True"
| "is_pay (Book r) = False"

fun booking_call_ok :: "jsstring option \<Rightarrow> jsstring \<Rightarrow> booking_call \<Rightarrow> bool" where
  "booking_call_ok user tutor (Book r) =
     (bk_subject r \<noteq> [] \<and> bk_student r \<noteq> [] \<and> bk_sessions r \<ge> 1 \<and> bk_duration r \<in> set durations \<and> bk_tutor r = tutor)"
| "booking_call_ok user tutor (Pay p) = (user = Some (pq_email p) \<and> pq_callback p = ''/receipts/'' @ pq_order p)"

abbreviation books :: "booking_call list \<Rightarrow> nat" where
  "books cs \<equiv> length (filter (\<lambda>c. \<not> is_pay c) cs)"

abbreviation pays :: "booking_call list \<Rightarrow> nat" where
  "pays cs \<equiv> length (filter is_pay cs)"

definition booking_inv :: "jsstring option \<Rightarrow> jsstring \<Rightarrow> booking_form \<Rightarrow> bool" where
  "booking_inv user tutor s =
     (bf_user s = user \<and> bf_tutor s = tutor \<and> length (bf_calls s) = (if bf_busy s then 1 else 0) \<and> (if bf_busy s then user \<noteq> None else True) \<and>
      pays (bf_sent s) + books (bf_calls s) \<le> books (bf_sent s) \<and> bf_duration s \<in> set durations \<and> list_all (booking_call_ok user tutor) (bf_sent s))"

lemma bf_simps [simp]:
  "bf_calls (bf_call c s) = bf_calls s @ [c]" "bf_sent (bf_call c s) = bf_sent s @ [c]" "bf_user (bf_call c s) = bf_user s"
  "bf_tutor (bf_call c s) = bf_tutor s" "bf_busy (bf_call c s) = bf_busy s" "bf_duration (bf_call c s) = bf_duration s"
  "bf_calls (bf_toast m s) = bf_calls s" "bf_sent (bf_toast m s) = bf_sent s" "bf_user (bf_toast m s) = bf_user s"
  "bf_tutor (bf_toast m s) = bf_tutor s" "bf_busy (bf_toast m s) = bf_busy s" "bf_duration (bf_toast m s) = bf_duration s"
  by (simp_all add: bf_call_def bf_toast_def)

lemma one_call: "length cs = (if b then 1 else 0) \<Longrightarrow> c \<in> set cs \<Longrightarrow> b \<and> cs = [c]"
  by (cases cs) (auto split: if_splits)

lemma submit_booking_inv:
  assumes "booking_inv user tutor s" "\<not> bf_busy s" "user \<noteq> None"
  shows "booking_inv user tutor (submit_booking key s)"
  using assms by (auto simp: submit_booking_def incomplete_def booking_inv_def booking_of_def)

lemma booking_inv_step:
  assumes "booking_inv user tutor s" "booking_guard s e"
  shows "booking_inv user tutor (booking_step s e)"
proof (cases e)
  case (BookClick key)
  then show ?thesis using assms submit_booking_inv by (auto simp: form_shown_def booking_inv_def)
next
  case (BookingOk r order)
  then have "bf_busy s \<and> bf_calls s = [Book r]" using assms one_call [of "bf_calls s" "bf_busy s"] by (simp add: booking_inv_def)
  then show ?thesis using assms(1) by (auto simp: BookingOk booking_inv_def payment_of_def)
next
  case (PaymentOk p number link)
  then have "bf_busy s \<and> bf_calls s = [Pay p]" using assms one_call [of "bf_calls s" "bf_busy s"] by (simp add: booking_inv_def)
  then show ?thesis using assms(1) by (auto simp: PaymentOk booking_inv_def)
next
  case (BookingFailed c x)
  then have "bf_busy s \<and> bf_calls s = [c]" using assms one_call [of "bf_calls s" "bf_busy s"] by (simp add: booking_inv_def)
  then show ?thesis using assms(1) by (auto simp: BookingFailed booking_inv_def)
qed (use assms in \<open>auto simp: booking_inv_def\<close>)

interpretation booking: bounded_machine "\<lambda>s. s = booking0 tutor subjects rate user" booking_guard booking_step "booking_inv user tutor"
  "\<lambda>s. length (bf_calls s)" 1
  for tutor subjects rate user
proof unfold_locales
  fix s assume "s = booking0 tutor subjects rate user"
  then show "booking_inv user tutor s" by (simp add: booking_inv_def booking0_def durations_def)
next
  fix s e assume "booking_inv user tutor s" "booking_guard s e"
  then show "booking_inv user tutor (booking_step s e)" by (rule booking_inv_step)
next
  fix s assume "booking_inv user tutor s"
  then show "length (bf_calls s) \<le> 1" by (simp add: booking_inv_def)
qed

text \<open>
  A booking names a subject, a learner, at least one session and a length the form offers; a
  payment follows a booking, for its order and with the payer's own address; one call is under
  way at a time.
\<close>

theorem bookings_well_formed:
  assumes "reach (\<lambda>s. s = booking0 tutor subjects rate user) booking_guard booking_step s"
  shows "list_all (booking_call_ok user tutor) (bf_sent s) \<and> pays (bf_sent s) \<le> books (bf_sent s) \<and> length (bf_calls s) \<le> 1"
  using booking.reach_inv [OF assms] booking.reach_load [OF assms] by (simp add: booking_inv_def)

definition booking_events :: "booking_event list" where
  "booking_events = [LearnersLoaded [''l1''], CatalogueLoaded [\<lparr>cs_id = ''p7'', cs_name = ''Physics'', cs_slug = ''physics''\<rparr>], PickLearner ''l1'',
     BookClick ''k1'']"

definition some_booking :: "jsstring \<Rightarrow> booking_request" where
  "some_booking key = \<lparr>bk_student = ''l1'', bk_tutor = ''t1'', bk_subject = ''p7'', bk_sessions = 10, bk_duration = 60, bk_goals = None, bk_key = key\<rparr>"

lemma booking_example:
  defines "s \<equiv> run booking_step (booking0 ''t1'' [''Physics''] 5000 (Some ''p@x.ng'')) booking_events"
  shows "allowed booking_guard booking_step (booking0 ''t1'' [''Physics''] 5000 (Some ''p@x.ng'')) booking_events"
    and "bf_sent s = [Book (some_booking ''k1'')]" "bf_calls s = [Book (some_booking ''k1'')]" "form_shown s" "\<not> incomplete s"
    and "\<not> publishedRate s \<le> 0" "booking_subject s = Some ''p7''" "bf_busy s"
  unfolding s_def by code_simp+

theorem bookings_well_formed_witness:
  "let s = run booking_step (booking0 ''t1'' [''Physics''] 5000 (Some ''p@x.ng'')) booking_events in
     bf_sent s = [Book (some_booking ''k1'')] \<and> list_all (booking_call_ok (Some ''p@x.ng'') ''t1'') (bf_sent s) \<and> length (bf_calls s) \<le> 1"
  unfolding Let_def using bookings_well_formed [OF run_reachable [OF refl booking_example(1)]] booking_example(2) by blast

text \<open>
  C27. The idempotency key is drawn at each click. When the payment cannot be started, the order
  exists already; the next click books the same lessons again under another key.
\<close>

theorem failed_payment_books_again:
  assumes "bf_calls s = [Book r]" "bf_busy s" "form_shown s" "\<not> incomplete s" "\<not> publishedRate s \<le> 0"
    and "r = booking_of (the (booking_subject s)) k1 s"
  shows "let events = [BookingOk r order, BookingFailed (Pay (payment_of order s)) e, BookClick k2]; t = run booking_step s events in
    allowed booking_guard booking_step s events \<and>
    bf_sent t = bf_sent s @ [Pay (payment_of order s), Book (r\<lparr>bk_key := k2\<rparr>)] \<and> bf_calls t = [Book (r\<lparr>bk_key := k2\<rparr>)]"
proof -
  define t where "t = booking_step (booking_step s (BookingOk r order)) (BookingFailed (Pay (payment_of order s)) e)"
  have t: "form_shown t = form_shown s" "incomplete t = incomplete s" "publishedRate t = publishedRate s"
    "booking_subject t = booking_subject s" "\<not> bf_busy t" "bf_calls t = []" "bf_sent t = bf_sent s @ [Pay (payment_of order s)]"
    "booking_of i k t = booking_of i k s" for i k
    using assms(1) by (simp_all add: t_def form_shown_def incomplete_def publishedRate_def booking_subject_def bf_call_def bf_toast_def booking_of_def)
  have "submit_booking k2 t = bf_call (Book (r\<lparr>bk_key := k2\<rparr>)) (t\<lparr>bf_busy := True\<rparr>)"
    unfolding submit_booking_def t(2,3,4,8) assms(6) using assms(4,5) by (simp add: booking_of_def)
  moreover have "run booking_step s [BookingOk r order, BookingFailed (Pay (payment_of order s)) e, BookClick k2] = submit_booking k2 t"
    by (simp add: t_def)
  moreover have "allowed booking_guard booking_step s [BookingOk r order, BookingFailed (Pay (payment_of order s)) e, BookClick k2]"
    using t(1,3,5) assms(1,3,5) by (simp add: t_def)
  ultimately show ?thesis unfolding Let_def using t(6,7) by simp
qed

theorem failed_payment_books_again_witness:
  "let s = run booking_step (booking0 ''t1'' [''Physics''] 5000 (Some ''p@x.ng'')) booking_events;
       events = [BookingOk (some_booking ''k1'') ''o1'', BookingFailed (Pay (payment_of ''o1'' s)) (plain_error ''x''), BookClick ''k2''] in
   allowed booking_guard booking_step s events \<and>
   bf_sent (run booking_step s events) = [Book (some_booking ''k1''), Pay (payment_of ''o1'' s), Book (some_booking ''k2'')]"
proof -
  let ?s = "run booking_step (booking0 ''t1'' [''Physics''] 5000 (Some ''p@x.ng'')) booking_events"
  have r: "some_booking ''k1'' = booking_of (the (booking_subject ?s)) ''k1'' ?s" by code_simp
  have "(some_booking ''k1'')\<lparr>bk_key := ''k2''\<rparr> = some_booking ''k2''" by (simp add: some_booking_def)
  then show ?thesis
    using failed_payment_books_again [OF booking_example(3,8,4,5,6) r, of "''o1''" "plain_error ''x''" "''k2''"] booking_example(2) unfolding Let_def by simp
qed

text \<open>
  The bounds of the input are not checked: any number from one, whole or not, is booked.
\<close>

theorem sessions_not_capped:
  assumes "form_shown s" "\<not> bf_busy s" "\<not> publishedRate s \<le> 0" "\<not> incomplete s" "1 \<le> n"
  shows "allowed booking_guard booking_step s [TypeSessions n, BookClick k] \<and>
    (case last (bf_sent (run booking_step s [TypeSessions n, BookClick k])) of Book r \<Rightarrow> bk_sessions r = n | Pay p \<Rightarrow> False)"
proof -
  have t: "form_shown (s\<lparr>bf_sessions := n\<rparr>)" "publishedRate (s\<lparr>bf_sessions := n\<rparr>) = publishedRate s" "\<not> incomplete (s\<lparr>bf_sessions := n\<rparr>)"
    using assms by (simp_all add: form_shown_def publishedRate_def incomplete_def booking_subject_def)
  then show ?thesis using assms by (simp add: submit_booking_def booking_of_def)
qed

theorem sessions_not_capped_witness:
  "let s = run booking_step (booking0 ''t1'' [''Physics''] 5000 (Some ''p@x.ng'')) (butlast booking_events);
       t = run booking_step s [TypeSessions (100001 / 2), BookClick ''k''] in
   case last (bf_sent t) of Book r \<Rightarrow> bk_sessions r = 100001 / 2 | Pay p \<Rightarrow> False"
proof -
  let ?s = "run booking_step (booking0 ''t1'' [''Physics''] 5000 (Some ''p@x.ng'')) (butlast booking_events)"
  have "form_shown ?s" "\<not> bf_busy ?s" "\<not> publishedRate ?s \<le> 0" "\<not> incomplete ?s" by code_simp+
  then show ?thesis using sessions_not_capped [of ?s "100001 / 2" "''k''"] unfolding Let_def by simp
qed

end
