(* ===== verification/CoursePage.thy ===== *)
theory CoursePage
  imports Machine Http LearningStats
begin

text \<open>
  A learner's course page (\<open>client/app/lms/courses/[cohortId]/page.tsx\<close>): the lesson player, the
  attendance chart, assignments, quizzes with their dialogs, and lesson notes. The page is a
  machine over its hooks, the data of its queries, the calls in flight and a log of what was
  sent. A dialog covers the page: behind it nothing can be clicked. A mutation is pending as
  long as its call is in flight.
\<close>

section \<open>Data\<close>

record course_lesson =
  cl_id :: jsstring
  cl_title :: jsstring
  cl_video :: "jsstring option"
  cl_meeting :: "jsstring option"

record attendance_row =
  at_lesson :: jsstring
  at_student :: jsstring
  at_status :: jsstring

record quiz_row =
  qr_id :: jsstring
  qr_status :: "jsstring option"

record quiz_question =
  qq_id :: jsstring
  qq_options :: "jsstring list"

record quiz_start =
  qs_assessment :: jsstring \<comment> \<open>\<open>attempt.assessment_id\<close>\<close>
  qs_questions :: "quiz_question list"

record quiz_result =
  qz_score :: int
  qz_max :: int
  qz_correct :: int
  qz_total :: int
  qz_passed :: bool

text \<open>\<open>QuizState\<close>; the answers in the order of their keys.\<close>

datatype quiz_phase =
    QuizIdle | QuizStarting
  | QuizTaking quiz_start "(jsstring \<times> nat) list"
  | QuizDone quiz_result

datatype course_call =
    StartQuizCall jsstring "jsstring option"
  | GradeCall jsstring "jsstring option" "(jsstring \<times> nat) list"
  | SubmitCall jsstring "jsstring option" jsstring
  | NoteCall jsstring "jsstring option" jsstring
  | ProgressCall jsstring int
  | AttendanceCall "jsstring option"

record course_page =
  lp_student :: "jsstring option" \<comment> \<open>\<open>context?.student?.id\<close>\<close>
  lp_lessons :: "course_lesson list option" \<comment> \<open>\<open>None\<close> until fetched\<close>
  lp_attendance :: "attendance_row list"
  lp_assignments :: "jsstring list"
  lp_quizzes :: "quiz_row list"
  lp_quiz :: quiz_phase
  lp_noteText :: jsstring
  lp_submitText :: "jsstring \<rightharpoonup> jsstring"
  lp_filter :: jsstring
  lp_active :: "jsstring option"
  lp_calls :: "course_call list"
  lp_sent :: "course_call list"
  lp_toasts :: "jsstring list"

definition course0 :: "jsstring option \<Rightarrow> course_page" where
  "course0 student =
     \<lparr>lp_student = student, lp_lessons = None, lp_attendance = [], lp_assignments = [], lp_quizzes = [], lp_quiz = QuizIdle,
      lp_noteText = [], lp_submitText = Map.empty, lp_filter = ''all'', lp_active = None, lp_calls = [], lp_sent = [], lp_toasts = []\<rparr>"

definition lessons_of :: "course_page \<Rightarrow> course_lesson list" where
  "lessons_of s = (case lp_lessons s of None \<Rightarrow> [] | Some ls \<Rightarrow> ls)"

section \<open>What the page counts\<close>

text \<open>The attendance query keeps the rows of the learner it was started for.\<close>

definition attendance_of :: "jsstring option \<Rightarrow> attendance_row list \<Rightarrow> attendance_row list" where
  "attendance_of student rows = filter (\<lambda>r. Some (at_student r) = student) rows"

definition count_status :: "jsstring \<Rightarrow> course_page \<Rightarrow> nat" where
  "count_status st s = length (filter (\<lambda>r. at_status r = st) (lp_attendance s))"

definition tracked_pct :: "course_page \<Rightarrow> int" where
  "tracked_pct s = percent (count_status ''PRESENT'' s + count_status ''LATE'' s) (length (lp_attendance s))"

definition filter_label :: "jsstring \<Rightarrow> course_page \<Rightarrow> jsstring" where
  "filter_label f s =
     (if f = ''all'' then ''All ('' @ show_nat (length (lp_attendance s)) @ '')''
      else to_lower f @ '' ('' @
        show_nat (if f = ''PRESENT'' then count_status ''PRESENT'' s else if f = ''LATE'' then count_status ''LATE'' s else 0) @ '')'')"

text \<open>The predicate of the source's \<open>find\<close> ignores its argument.\<close>

definition bar_row :: "attendance_row list \<Rightarrow> nat \<Rightarrow> course_lesson \<Rightarrow> attendance_row option" where
  "bar_row rows i l = find (\<lambda>a. i < length rows \<and> at_lesson (rows ! i) = cl_id l) rows"

definition attendance_bars :: "course_page \<Rightarrow> (jsstring \<times> attendance_row option) list" where
  "attendance_bars s =
     (let ls = take 8 (lessons_of s) in map (\<lambda>(i, l). (cl_id l, bar_row (lp_attendance s) i l)) (zip [0..<length ls] ls))"

definition quizzesPassed :: "course_page \<Rightarrow> nat" where
  "quizzesPassed s = length (filter (\<lambda>q. qr_status q = Some ''PASSED'' \<or> qr_status q = Some ''GRADED'') (lp_quizzes s))"

definition quiz_rate :: "course_page \<Rightarrow> jsstring" where
  "quiz_rate s = (if 0 < length (lp_quizzes s) then show_int (percent (quizzesPassed s) (length (lp_quizzes s))) else ''-'')"

section \<open>Calls\<close>

fun is_start :: "course_call \<Rightarrow> bool" where
  "is_start (StartQuizCall q st) = True"
| "is_start c = False"

fun is_grade :: "course_call \<Rightarrow> bool" where
  "is_grade (GradeCall a st xs) = True"
| "is_grade c = False"

fun is_submit :: "course_call \<Rightarrow> bool" where
  "is_submit (SubmitCall a st t) = True"
| "is_submit c = False"

fun is_note :: "course_call \<Rightarrow> bool" where
  "is_note (NoteCall a st t) = True"
| "is_note c = False"

definition pending :: "(course_call \<Rightarrow> bool) \<Rightarrow> course_page \<Rightarrow> bool" where
  "pending k s = list_ex k (lp_calls s)"

definition lp_call :: "course_call \<Rightarrow> course_page \<Rightarrow> course_page" where
  "lp_call c s = s\<lparr>lp_calls := lp_calls s @ [c], lp_sent := lp_sent s @ [c]\<rparr>"

definition lp_toast :: "jsstring \<Rightarrow> course_page \<Rightarrow> course_page" where
  "lp_toast m s = s\<lparr>lp_toasts := lp_toasts s @ [m]\<rparr>"

definition lp_settled :: "course_call \<Rightarrow> course_page \<Rightarrow> course_page" where
  "lp_settled c s = s\<lparr>lp_calls := remove1 c (lp_calls s)\<rparr>"

section \<open>Handlers\<close>

definition auto_select :: "course_page \<Rightarrow> course_page" where
  "auto_select s =
     (if (lp_active s = None \<or> lp_active s = Some []) \<and> lessons_of s \<noteq> [] then s\<lparr>lp_active := Some (cl_id (hd (lessons_of s)))\<rparr> else s)"

definition active_lesson :: "course_page \<Rightarrow> course_lesson option" where
  "active_lesson s =
     (case find (\<lambda>l. Some (cl_id l) = lp_active s) (lessons_of s) of
        Some l \<Rightarrow> Some l
      | None \<Rightarrow> (if lessons_of s = [] then None else Some (hd (lessons_of s))))"

definition start_quiz :: "jsstring \<Rightarrow> course_page \<Rightarrow> course_page" where
  "start_quiz q s = lp_call (StartQuizCall q (lp_student s)) (s\<lparr>lp_quiz := QuizStarting\<rparr>)"

definition choose_answer :: "jsstring \<Rightarrow> nat \<Rightarrow> course_page \<Rightarrow> course_page" where
  "choose_answer q i s =
     (case lp_quiz s of QuizTaking d ans \<Rightarrow> s\<lparr>lp_quiz := QuizTaking d (put_answer q i ans)\<rparr> | _ \<Rightarrow> s)"

definition grade_quiz :: "course_page \<Rightarrow> course_page" where
  "grade_quiz s = (case lp_quiz s of QuizTaking d ans \<Rightarrow> lp_call (GradeCall (qs_assessment d) (lp_student s) ans) s | _ \<Rightarrow> s)"

definition typed_for :: "jsstring \<Rightarrow> course_page \<Rightarrow> jsstring" where
  "typed_for a s = (case lp_submitText s a of None \<Rightarrow> [] | Some t \<Rightarrow> t)"

definition submit_text :: "jsstring \<Rightarrow> course_page \<Rightarrow> course_page" where
  "submit_text a s = lp_call (SubmitCall a (lp_student s) (typed_for a s)) s"

definition add_note :: "course_page \<Rightarrow> course_page" where
  "add_note s = lp_call (NoteCall (if lessons_of s = [] then [] else cl_id (hd (lessons_of s))) (lp_student s) (lp_noteText s)) s"

definition record_progress :: "int \<Rightarrow> course_page \<Rightarrow> course_page" where
  "record_progress pos s = (case active_lesson s of None \<Rightarrow> s | Some l \<Rightarrow> lp_call (ProgressCall (cl_id l) pos) s)"

fun course_error :: "course_call \<Rightarrow> jsstring option" where
  "course_error (StartQuizCall q st) = Some ''Could not start the quiz''"
| "course_error (GradeCall a st xs) = Some ''Could not submit the quiz''"
| "course_error (SubmitCall a st t) = Some ''Could not submit''"
| "course_error (NoteCall l st t) = Some ''Could not save note''"
| "course_error (ProgressCall l p) = None"
| "course_error (AttendanceCall st) = None"

definition course_failed :: "course_call \<Rightarrow> js_exn \<Rightarrow> course_page \<Rightarrow> course_page" where
  "course_failed c e s =
     (case course_error c of None \<Rightarrow> lp_settled c s | Some d \<Rightarrow> lp_toast (message_or d e) (lp_settled c s))"

section \<open>Events\<close>

datatype course_event =
    StudentKnown "jsstring option" | LessonsFetched "course_lesson list" | AssignmentsFetched "jsstring list" | QuizzesFetched "quiz_row list"
  | FetchAttendance | AttendanceFetched "jsstring option" "attendance_row list" | AutoSelect
  | FilterBy jsstring | SelectLesson jsstring | PlayVideo | PauseVideo int
  | TypeAnswer jsstring jsstring | SubmitAssignment jsstring | TypeNote jsstring | SaveNote
  | StartQuiz jsstring | CloseQuiz | ChooseOption jsstring nat | SubmitQuiz
  | QuizStarted jsstring "jsstring option" quiz_start
  | QuizGraded jsstring "jsstring option" "(jsstring \<times> nat) list" quiz_result
  | AssignmentTaken jsstring "jsstring option" jsstring
  | NoteTaken jsstring "jsstring option" jsstring
  | ProgressTaken jsstring int
  | CourseFailed course_call js_exn

definition quiz_cell :: "course_page \<Rightarrow> quiz_row \<Rightarrow> course_event widget" where
  "quiz_cell s q =
     (case lp_quiz s of
        QuizDone r \<Rightarrow> Txt (show_int (qz_score r) @ ''/'' @ show_int (qz_max r) @ [CHR '' '', CHR 0xC2, CHR 0xB7, CHR '' ''] @ (if qz_passed r then ''Passed'' else ''Retry''))
      | _ \<Rightarrow> Btn (if lp_quiz s = QuizStarting then ''Starting'' @ ellipsis else ''Start quiz'') (\<not> pending is_start s) (StartQuiz (qr_id q)))"

definition option_buttons :: "quiz_start \<Rightarrow> course_event widget list" where
  "option_buttons d =
     concat (map (\<lambda>q. map (\<lambda>i. Btn (qq_options q ! i) True (ChooseOption (qq_id q) i)) [0..<length (qq_options q)]) (qs_questions d))"

definition page_view :: "course_page \<Rightarrow> course_event widget list" where
  "page_view s =
     map (\<lambda>f. Btn (filter_label f s) True (FilterBy f)) [''all'', ''PRESENT'', ''LATE'', ''ABSENT''] @
     map (\<lambda>l. Btn (cl_title l) True (SelectLesson (cl_id l))) (lessons_of s) @
     map (\<lambda>a. Btn ''Submit'' (trim (typed_for a s) \<noteq> [] \<and> \<not> pending is_submit s) (SubmitAssignment a)) (lp_assignments s) @
     map (quiz_cell s) (lp_quizzes s) @
     [Btn ''Save'' (trim (lp_noteText s) \<noteq> [] \<and> \<not> pending is_note s) SaveNote]"

definition course_view :: "course_page \<Rightarrow> course_event widget list" where
  "course_view s =
     (case lp_quiz s of
        QuizTaking d ans \<Rightarrow>
          [Btn ''Close quiz'' True CloseQuiz] @ option_buttons d @
          [Btn (if pending is_grade s then ''Grading'' @ ellipsis
                else ''Submit quiz ('' @ show_nat (length ans) @ ''/'' @ show_nat (length (qs_questions d)) @ '')'')
             (\<not> pending is_grade s \<and> \<not> length ans < length (qs_questions d)) SubmitQuiz]
      | QuizDone r \<Rightarrow> [Txt (if qz_passed r then ''Quiz passed!'' else ''Keep practicing''), Btn ''Done'' True CloseQuiz]
      | _ \<Rightarrow> page_view s)"

definition dialog_open :: "course_page \<Rightarrow> bool" where
  "dialog_open s = (case lp_quiz s of QuizTaking d ans \<Rightarrow> True | QuizDone r \<Rightarrow> True | _ \<Rightarrow> False)"

definition plays_video :: "course_page \<Rightarrow> bool" where
  "plays_video s =
     (case active_lesson s of None \<Rightarrow> False | Some l \<Rightarrow> (case cl_video l of None \<Rightarrow> False | Some v \<Rightarrow> v \<noteq> []))"

fun course_guard :: "course_page \<Rightarrow> course_event \<Rightarrow> bool" where
  "course_guard s (StudentKnown st) = True"
| "course_guard s (LessonsFetched ls) = True"
| "course_guard s (AssignmentsFetched xs) = True"
| "course_guard s (QuizzesFetched qs) = True"
| "course_guard s FetchAttendance = (lp_lessons s \<noteq> None)"
| "course_guard s (AttendanceFetched st rows) = (AttendanceCall st \<in> set (lp_calls s))"
| "course_guard s AutoSelect = True"
| "course_guard s PlayVideo = plays_video s"
| "course_guard s (PauseVideo n) = (plays_video s \<and> 0 \<le> n)"
| "course_guard s (TypeAnswer a t) = (\<not> dialog_open s \<and> a \<in> set (lp_assignments s))"
| "course_guard s (TypeNote t) = (\<not> dialog_open s)"
| "course_guard s (QuizStarted q st d) = (StartQuizCall q st \<in> set (lp_calls s))"
| "course_guard s (QuizGraded a st xs r) = (GradeCall a st xs \<in> set (lp_calls s))"
| "course_guard s (AssignmentTaken a st t) = (SubmitCall a st t \<in> set (lp_calls s))"
| "course_guard s (NoteTaken l st t) = (NoteCall l st t \<in> set (lp_calls s))"
| "course_guard s (ProgressTaken l p) = (ProgressCall l p \<in> set (lp_calls s))"
| "course_guard s (CourseFailed c e) = (c \<in> set (lp_calls s))"
| "course_guard s e = (e \<in> set (offered (course_view s)))"

fun course_step :: "course_page \<Rightarrow> course_event \<Rightarrow> course_page" where
  "course_step s (StudentKnown st) = s\<lparr>lp_student := st\<rparr>"
| "course_step s (LessonsFetched ls) = s\<lparr>lp_lessons := Some ls\<rparr>"
| "course_step s (AssignmentsFetched xs) = s\<lparr>lp_assignments := xs\<rparr>"
| "course_step s (QuizzesFetched qs) = s\<lparr>lp_quizzes := qs\<rparr>"
| "course_step s FetchAttendance = s\<lparr>lp_calls := lp_calls s @ [AttendanceCall (lp_student s)]\<rparr>"
| "course_step s (AttendanceFetched st rows) = (lp_settled (AttendanceCall st) s)\<lparr>lp_attendance := attendance_of st rows\<rparr>"
| "course_step s AutoSelect = auto_select s"
| "course_step s (FilterBy f) = s\<lparr>lp_filter := f\<rparr>"
| "course_step s (SelectLesson l) = s\<lparr>lp_active := Some l\<rparr>"
| "course_step s PlayVideo = record_progress 0 s"
| "course_step s (PauseVideo n) = record_progress n s"
| "course_step s (TypeAnswer a t) = s\<lparr>lp_submitText := (lp_submitText s)(a \<mapsto> t)\<rparr>"
| "course_step s (SubmitAssignment a) = submit_text a s"
| "course_step s (TypeNote t) = s\<lparr>lp_noteText := t\<rparr>"
| "course_step s SaveNote = add_note s"
| "course_step s (StartQuiz q) = start_quiz q s"
| "course_step s CloseQuiz = s\<lparr>lp_quiz := QuizIdle\<rparr>"
| "course_step s (ChooseOption q i) = choose_answer q i s"
| "course_step s SubmitQuiz = grade_quiz s"
| "course_step s (QuizStarted q st d) = (lp_settled (StartQuizCall q st) s)\<lparr>lp_quiz := QuizTaking d []\<rparr>"
| "course_step s (QuizGraded a st xs r) =
     lp_toast (if qz_passed r then ''Quiz passed - well done!'' else ''Quiz completed - review your weak spots.'')
       ((lp_settled (GradeCall a st xs) s)\<lparr>lp_quiz := QuizDone r\<rparr>)"
| "course_step s (AssignmentTaken a st t) =
     (lp_toast ''Assignment submitted - your tutor will grade it.'' (lp_settled (SubmitCall a st t) s))\<lparr>lp_submitText := Map.empty\<rparr>"
| "course_step s (NoteTaken l st t) = (lp_toast ''Note saved'' (lp_settled (NoteCall l st t) s))\<lparr>lp_noteText := []\<rparr>"
| "course_step s (ProgressTaken l p) = lp_settled (ProgressCall l p) s"
| "course_step s (CourseFailed c e) = course_failed c e s"

section \<open>What the page promises\<close>

definition answer_ok :: "quiz_start \<Rightarrow> jsstring \<times> nat \<Rightarrow> bool" where
  "answer_ok d kv = list_ex (\<lambda>q. qq_id q = fst kv \<and> snd kv < length (qq_options q)) (qs_questions d)"

fun taking_ok :: "quiz_phase \<Rightarrow> bool" where
  "taking_ok (QuizTaking d ans) = (distinct (map fst ans) \<and> list_all (answer_ok d) ans)"
| "taking_ok p = True"

fun course_call_ok :: "course_call \<Rightarrow> bool" where
  "course_call_ok (SubmitCall a st t) = (trim t \<noteq> [])"
| "course_call_ok (NoteCall l st t) = (trim t \<noteq> [])"
| "course_call_ok (GradeCall a st xs) = distinct (map fst xs)"
| "course_call_ok (ProgressCall l p) = (0 \<le> p)"
| "course_call_ok c = True"

definition in_flight :: "(course_call \<Rightarrow> bool) \<Rightarrow> course_page \<Rightarrow> nat" where
  "in_flight k s = length (filter k (lp_calls s))"

definition one_each :: "course_page \<Rightarrow> bool" where
  "one_each s = list_all (\<lambda>k. in_flight k s \<le> 1) [is_start, is_grade, is_submit, is_note]"

definition course_inv :: "course_page \<Rightarrow> bool" where
  "course_inv s = (one_each s \<and> taking_ok (lp_quiz s) \<and> list_all course_call_ok (lp_sent s))"

lemma pending_in_flight: "\<not> pending k s \<Longrightarrow> in_flight k s = 0"
  by (simp add: pending_def in_flight_def filter_empty_conv list_ex_iff)

lemma in_flight_call: "in_flight k (lp_call c s) = in_flight k s + (if k c then 1 else 0)"
  by (simp add: in_flight_def lp_call_def)

lemma one_each_call: "one_each s \<Longrightarrow> list_all (\<lambda>k. k c \<longrightarrow> \<not> pending k s) [is_start, is_grade, is_submit, is_note] \<Longrightarrow> one_each (lp_call c s)"
  using pending_in_flight [of _ s] by (auto simp: one_each_def in_flight_call)

lemma one_each_settled: "one_each s \<Longrightarrow> one_each (lp_settled c s)"
proof -
  have "length (filter k (remove1 c (lp_calls s))) \<le> length (filter k (lp_calls s))" for k
    by (cases "k c") (simp_all add: filter_remove1_other filter_remove1 length_remove1)
  then show "one_each s \<Longrightarrow> one_each (lp_settled c s)" by (auto simp: one_each_def in_flight_def lp_settled_def intro: le_trans)
qed

lemma one_each_frame: "one_each s \<Longrightarrow> lp_calls s' = lp_calls s \<Longrightarrow> one_each s'"
  by (simp add: one_each_def in_flight_def)

lemma lp_simps [simp]:
  "lp_calls (lp_call c s) = lp_calls s @ [c]" "lp_sent (lp_call c s) = lp_sent s @ [c]" "lp_quiz (lp_call c s) = lp_quiz s"
  "lp_calls (lp_toast m s) = lp_calls s" "lp_sent (lp_toast m s) = lp_sent s" "lp_quiz (lp_toast m s) = lp_quiz s"
  "lp_calls (lp_settled c s) = remove1 c (lp_calls s)" "lp_sent (lp_settled c s) = lp_sent s" "lp_quiz (lp_settled c s) = lp_quiz s"
  by (simp_all add: lp_call_def lp_toast_def lp_settled_def)

lemma cell_offers: "e \<in> set (offered [quiz_cell s q]) \<Longrightarrow> e = StartQuiz (qr_id q) \<and> \<not> pending is_start s"
  by (cases "lp_quiz s") (auto simp: quiz_cell_def split: if_splits)

lemma cells_offer: "e \<in> set (offered (map (quiz_cell s) qs)) \<Longrightarrow> \<exists>q. e = StartQuiz q \<and> \<not> pending is_start s"
  using offered_map [of e "quiz_cell s" qs] cell_offers [of e s] by blast

lemma submits_offer:
  "e \<in> set (offered (map (\<lambda>a. Btn ''Submit'' (trim (typed_for a s) \<noteq> [] \<and> \<not> pending is_submit s) (SubmitAssignment a)) xs)) \<Longrightarrow>
   \<exists>a. e = SubmitAssignment a \<and> trim (typed_for a s) \<noteq> [] \<and> \<not> pending is_submit s"
  by (induction xs) (auto split: if_splits)

lemma option_offers: "e \<in> set (offered (option_buttons d)) \<Longrightarrow> \<exists>q i. e = ChooseOption q i \<and> answer_ok d (q, i)"
  by (fastforce simp: option_buttons_def answer_ok_def list_ex_iff)

lemma option_offered: "answer_ok d (q, i) \<Longrightarrow> ChooseOption q i \<in> set (offered (option_buttons d))"
  by (force simp: option_buttons_def answer_ok_def list_ex_iff)

lemma page_offers:
  "e \<in> set (offered (page_view s)) \<Longrightarrow>
   (\<exists>f. e = FilterBy f) \<or> (\<exists>l. e = SelectLesson l) \<or> (\<exists>a. e = SubmitAssignment a \<and> trim (typed_for a s) \<noteq> [] \<and> \<not> pending is_submit s) \<or>
   (e = SaveNote \<and> trim (lp_noteText s) \<noteq> [] \<and> \<not> pending is_note s) \<or> (\<exists>q. e = StartQuiz q \<and> \<not> pending is_start s)"
  unfolding page_view_def offered_append set_append Un_iff
  using cells_offer [of e s "lp_quizzes s"] submits_offer [of e s "lp_assignments s"] by (auto split: if_splits)

lemma course_offers:
  assumes "e \<in> set (offered (course_view s))"
  shows "e \<in> set (offered (page_view s)) \<or> e = CloseQuiz \<or>
   (\<exists>d ans. lp_quiz s = QuizTaking d ans \<and>
      ((\<exists>q i. e = ChooseOption q i \<and> answer_ok d (q, i)) \<or> (e = SubmitQuiz \<and> \<not> pending is_grade s \<and> length (qs_questions d) \<le> length ans)))"
proof (cases "lp_quiz s")
  case (QuizTaking d ans)
  then have "e = CloseQuiz \<or> e \<in> set (offered (option_buttons d)) \<or> (e = SubmitQuiz \<and> \<not> pending is_grade s \<and> length (qs_questions d) \<le> length ans)"
    using assms by (auto simp: course_view_def split: if_splits)
  then show ?thesis using QuizTaking option_offers [of e d] by blast
qed (use assms in \<open>simp_all add: course_view_def\<close>)

lemma grade_inv:
  assumes "course_inv s" "\<not> pending is_grade s"
  shows "course_inv (grade_quiz s)"
proof (cases "lp_quiz s")
  case (QuizTaking d ans)
  then show ?thesis using assms one_each_call [of s "GradeCall (qs_assessment d) (lp_student s) ans"] by (simp add: grade_quiz_def course_inv_def)
qed (use assms in \<open>simp_all add: grade_quiz_def\<close>)

lemma choose_inv:
  assumes "course_inv s" "lp_quiz s = QuizTaking d ans" "answer_ok d (q, i)"
  shows "course_inv (choose_answer q i s)"
  using assms one_each_frame [of s "s\<lparr>lp_quiz := QuizTaking d (put_answer q i ans)\<rparr>"]
  by (simp add: choose_answer_def course_inv_def distinct_put_answer all_put_answer)

lemma progress_inv:
  assumes "course_inv s" "0 \<le> n"
  shows "course_inv (record_progress n s)"
proof (cases "active_lesson s")
  case (Some l)
  then show ?thesis using assms one_each_call [of s "ProgressCall (cl_id l) n"] by (simp add: record_progress_def course_inv_def)
qed (use assms in \<open>simp add: record_progress_def\<close>)

lemma course_failed_inv: "course_inv s \<Longrightarrow> course_inv (course_failed c e s)"
  using one_each_settled [of s c] one_each_frame [of "lp_settled c s" "lp_toast m (lp_settled c s)" for m]
  by (cases "course_error c") (simp_all add: course_failed_def course_inv_def)

lemma course_inv_frame:
  "course_inv s \<Longrightarrow> lp_calls s' = lp_calls s \<Longrightarrow> lp_sent s' = lp_sent s \<Longrightarrow> taking_ok (lp_quiz s') \<Longrightarrow> course_inv s'"
  using one_each_frame [of s s'] by (simp add: course_inv_def)

lemma course_inv_settled:
  "course_inv s \<Longrightarrow> lp_calls s' = remove1 c (lp_calls s) \<Longrightarrow> lp_sent s' = lp_sent s \<Longrightarrow> taking_ok (lp_quiz s') \<Longrightarrow> course_inv s'"
  using one_each_settled [of s c] one_each_frame [of "lp_settled c s" s'] by (simp add: course_inv_def)

lemma course_inv_call:
  assumes "course_inv s" "course_call_ok c" "list_all (\<lambda>k. k c \<longrightarrow> \<not> pending k s) [is_start, is_grade, is_submit, is_note]"
  shows "course_inv (lp_call c s)"
  using assms one_each_call [OF _ assms(3)] by (simp add: course_inv_def)

lemma course_inv_step:
  assumes "course_inv s" "course_guard s e"
  shows "course_inv (course_step s e)"
proof (cases e)
  case FetchAttendance
  then show ?thesis using assms(1) by (simp add: course_inv_def one_each_def in_flight_def)
next
  case (StartQuiz q)
  let ?s = "s\<lparr>lp_quiz := QuizStarting\<rparr>"
  have "\<not> pending is_start ?s" using StartQuiz assms course_offers [of e s] page_offers [of e s] by (auto simp: pending_def)
  moreover have "course_inv ?s" using assms(1) by (rule course_inv_frame) simp_all
  ultimately have "course_inv (start_quiz q s)" unfolding start_quiz_def by (intro course_inv_call) simp_all
  then show ?thesis by (simp add: StartQuiz)
next
  case (SubmitAssignment a)
  then show ?thesis using assms course_offers [of e s] page_offers [of e s] by (auto simp: submit_text_def intro!: course_inv_call)
next
  case SaveNote
  then show ?thesis using assms course_offers [of e s] page_offers [of e s] by (auto simp: add_note_def intro!: course_inv_call)
next
  case (ChooseOption q i)
  then show ?thesis using assms course_offers [of e s] page_offers [of e s] choose_inv by auto
next
  case SubmitQuiz
  then show ?thesis using assms course_offers [of e s] page_offers [of e s] grade_inv by auto
next
  case (CourseFailed c x)
  then show ?thesis using assms(1) course_failed_inv by simp
next
  case (QuizStarted q st d)
  then show ?thesis using course_inv_settled [OF assms(1), of _ "StartQuizCall q st"] by simp
next
  case (QuizGraded a st xs r)
  then show ?thesis using course_inv_settled [OF assms(1), of _ "GradeCall a st xs"] by simp
next
  case (AssignmentTaken a st t)
  then show ?thesis using course_inv_settled [OF assms(1), of _ "SubmitCall a st t"] assms(1) by (simp add: course_inv_def)
next
  case (NoteTaken l st t)
  then show ?thesis using course_inv_settled [OF assms(1), of _ "NoteCall l st t"] assms(1) by (simp add: course_inv_def)
next
  case (ProgressTaken l p)
  then show ?thesis using course_inv_settled [OF assms(1), of _ "ProgressCall l p"] assms(1) by (simp add: course_inv_def)
next
  case (AttendanceFetched st rows)
  then show ?thesis using course_inv_settled [OF assms(1), of _ "AttendanceCall st"] assms(1) by (simp add: course_inv_def)
next
  case PlayVideo
  then show ?thesis using assms(1) progress_inv by simp
next
  case (PauseVideo n)
  then show ?thesis using assms progress_inv by simp
qed (use assms(1) in \<open>simp_all add: auto_select_def course_inv_def one_each_def in_flight_def\<close>)

interpretation course: bounded_machine "\<lambda>s. s = course0 student" course_guard course_step course_inv "in_flight is_grade" 1
  for student
proof unfold_locales
  fix s assume "s = course0 student"
  then show "course_inv s" by (simp add: course_inv_def course0_def one_each_def in_flight_def)
next
  fix s e assume "course_inv s" "course_guard s e"
  then show "course_inv (course_step s e)" by (rule course_inv_step)
next
  fix s assume "course_inv s"
  then show "in_flight is_grade s \<le> 1" by (simp add: course_inv_def one_each_def)
qed

text \<open>
  One call of each kind at a time, no blank note or submission, and no question answered twice
  in what is graded.
\<close>

theorem course_page_safe:
  assumes "reach (\<lambda>s. s = course0 student) course_guard course_step s"
  shows "list_all course_call_ok (lp_sent s) \<and> in_flight is_grade s \<le> 1 \<and> in_flight is_start s \<le> 1 \<and>
    in_flight is_submit s \<le> 1 \<and> in_flight is_note s \<le> 1"
  using course.reach_inv [OF assms] course.reach_load [OF assms] by (simp add: course_inv_def one_each_def)

definition algebra :: quiz_start where
  "algebra = \<lparr>qs_assessment = ''a1'', qs_questions =
     [\<lparr>qq_id = ''u1'', qq_options = [''1'', ''2'']\<rparr>, \<lparr>qq_id = ''u2'', qq_options = [''3'', ''4'']\<rparr>]\<rparr>"

definition quiz_events :: "course_event list" where
  "quiz_events = [QuizzesFetched [\<lparr>qr_id = ''a1'', qr_status = None\<rparr>, \<lparr>qr_id = ''a2'', qr_status = None\<rparr>], StartQuiz ''a1'',
     QuizStarted ''a1'' (Some ''st'') algebra, ChooseOption ''u2'' 1, ChooseOption ''u1'' 0, ChooseOption ''u2'' 0]"

lemma quiz_example:
  defines "s \<equiv> run course_step (course0 (Some ''st'')) quiz_events"
  shows "allowed course_guard course_step (course0 (Some ''st'')) quiz_events" "SubmitQuiz \<in> set (offered (course_view s))"
    and "lp_quiz s = QuizTaking algebra [(''u2'', 0), (''u1'', 0)]" "lp_calls s = []" "lp_sent s = [StartQuizCall ''a1'' (Some ''st'')]"
    and "lp_student s = Some ''st''" "map qr_id (lp_quizzes s) = [''a1'', ''a2'']"
  unfolding s_def by code_simp+

theorem course_page_safe_witness:
  "let s = run course_step (course0 (Some ''st'')) (quiz_events @ [SubmitQuiz]) in
   list_all course_call_ok (lp_sent s) \<and> in_flight is_grade s \<le> 1 \<and> lp_sent s = [StartQuizCall ''a1'' (Some ''st''),
     GradeCall ''a1'' (Some ''st'') [(''u2'', 0), (''u1'', 0)]]"
proof -
  have a: "allowed course_guard course_step (course0 (Some ''st'')) (quiz_events @ [SubmitQuiz])" by code_simp
  have "lp_sent (run course_step (course0 (Some ''st'')) (quiz_events @ [SubmitQuiz])) = [StartQuizCall ''a1'' (Some ''st''),
     GradeCall ''a1'' (Some ''st'') [(''u2'', 0), (''u1'', 0)]]" by code_simp
  then show ?thesis using course_page_safe [OF run_reachable [OF refl a]] unfolding Let_def by blast
qed

text \<open>
  A quiz is sent for grading under its own id with an answer to each of its questions.
\<close>

theorem graded_quiz_complete:
  assumes "reach (\<lambda>s. s = course0 student) course_guard course_step s" "SubmitQuiz \<in> set (offered (course_view s))"
  shows "case lp_quiz s of
      QuizTaking d ans \<Rightarrow> fst ` set ans = qq_id ` set (qs_questions d) \<and> list_all (answer_ok d) ans \<and>
        lp_sent (course_step s SubmitQuiz) = lp_sent s @ [GradeCall (qs_assessment d) (lp_student s) ans]
    | _ \<Rightarrow> False"
proof -
  obtain d ans where q: "lp_quiz s = QuizTaking d ans" "length (qs_questions d) \<le> length ans"
    using course_offers [OF assms(2)] page_offers [of SubmitQuiz s] by auto
  have ok: "distinct (map fst ans)" "list_all (answer_ok d) ans" using course.reach_inv [OF assms(1)] q(1) by (simp_all add: course_inv_def)
  have "fst ` set ans \<subseteq> qq_id ` set (qs_questions d)" using ok(2) by (force simp: list_all_iff answer_ok_def list_ex_iff)
  then have "fst ` set ans = qq_id ` set (qs_questions d)" using sheet_complete [OF ok(1), of "map qq_id (qs_questions d)"] q(2) by simp
  then show ?thesis using q ok by (simp add: grade_quiz_def)
qed

theorem graded_quiz_complete_witness:
  "fst ` set [(''u2'', 0::nat), (''u1'', 0)] = qq_id ` set (qs_questions algebra)"
  using graded_quiz_complete [OF run_reachable [OF refl quiz_example(1)] quiz_example(2)] unfolding quiz_example(3) by simp

text \<open>
  The result of a quiz replaces whatever quiz is open. A second quiz, begun while the first is
  graded, is gone with its answers, and nothing of it was sent.
\<close>

theorem result_discards_open_quiz:
  assumes "lp_quiz s = QuizTaking d ans" "SubmitQuiz \<in> set (offered (course_view s))" "\<not> pending is_start s" "q \<in> set (lp_quizzes s)"
    and "answer_ok d2 (u, i)"
  shows "let events = [SubmitQuiz, CloseQuiz, StartQuiz (qr_id q), QuizStarted (qr_id q) (lp_student s) d2, ChooseOption u i,
        QuizGraded (qs_assessment d) (lp_student s) ans r]; t = run course_step s events in
    allowed course_guard course_step s events \<and> lp_quiz t = QuizDone r \<and>
    lp_sent t = lp_sent s @ [GradeCall (qs_assessment d) (lp_student s) ans, StartQuizCall (qr_id q) (lp_student s)]"
proof -
  define s1 where "s1 = course_step s SubmitQuiz"
  define s2 where "s2 = s1\<lparr>lp_quiz := QuizIdle\<rparr>"
  let ?g = "GradeCall (qs_assessment d) (lp_student s) ans" and ?st = "StartQuizCall (qr_id q) (lp_student s)"
  have s1: "lp_quiz s1 = QuizTaking d ans" "lp_calls s1 = lp_calls s @ [?g]" "lp_sent s1 = lp_sent s @ [?g]"
    "lp_student s1 = lp_student s" "lp_quizzes s1 = lp_quizzes s"
    using assms(1) by (simp_all add: s1_def grade_quiz_def) (simp_all add: lp_call_def)
  have close: "course_guard s1 CloseQuiz" using s1(1) by (simp add: course_view_def)
  have cell: "StartQuiz (qr_id q) \<in> set (offered (map (quiz_cell s2) (lp_quizzes s2)))"
  proof -
    have "quiz_cell s2 = (\<lambda>x. Btn ''Start quiz'' True (StartQuiz (qr_id x)))"
      using assms(3) s1(2) by (intro ext) (simp add: s2_def quiz_cell_def pending_def list_ex_iff)
    then have "offered (map (quiz_cell s2) (lp_quizzes s2)) = map (\<lambda>x. StartQuiz (qr_id x)) (lp_quizzes s)"
      using s1(5) by (simp only: offered_map_Btn) (simp add: s2_def)
    then show ?thesis using assms(4) by auto
  qed
  then have start: "course_guard s2 (StartQuiz (qr_id q))" by (simp add: s2_def course_view_def page_view_def)
  define s3 where "s3 = start_quiz (qr_id q) s2"
  have s3: "lp_calls s3 = lp_calls s @ [?g, ?st]" "lp_sent s3 = lp_sent s @ [?g, ?st]"
    using s1 by (simp_all add: s3_def s2_def start_quiz_def)
  define s4 where "s4 = course_step s3 (QuizStarted (qr_id q) (lp_student s) d2)"
  have s4: "lp_quiz s4 = QuizTaking d2 []" "?g \<in> set (lp_calls s4)" "lp_sent s4 = lp_sent s @ [?g, ?st]"
    using s3 by (simp_all add: s4_def remove1_append)
  have pick: "course_guard s4 (ChooseOption u i)"
    using option_offered [OF assms(5)] s4(1) by (simp add: course_view_def)
  define s5 where "s5 = choose_answer u i s4"
  have s5: "?g \<in> set (lp_calls s5)" "lp_sent s5 = lp_sent s4" using s4 by (simp_all add: s5_def choose_answer_def)
  have "run course_step s [SubmitQuiz, CloseQuiz, StartQuiz (qr_id q), QuizStarted (qr_id q) (lp_student s) d2, ChooseOption u i] = s5"
    by (simp add: s1_def s2_def s3_def s4_def s5_def)
  moreover have "allowed course_guard course_step s
      [SubmitQuiz, CloseQuiz, StartQuiz (qr_id q), QuizStarted (qr_id q) (lp_student s) d2, ChooseOption u i, QuizGraded (qs_assessment d) (lp_student s) ans r]"
  proof -
    have "course_guard s3 (QuizStarted (qr_id q) (lp_student s) d2)" using s3(1) by simp
    moreover have "course_guard s5 (QuizGraded (qs_assessment d) (lp_student s) ans r)" using s5(1) by simp
    moreover have "course_guard s SubmitQuiz" using assms(2) by simp
    moreover have "course_step s1 CloseQuiz = s2" "course_step s2 (StartQuiz (qr_id q)) = s3" "course_step s4 (ChooseOption u i) = s5"
      by (simp_all add: s2_def s3_def s5_def)
    ultimately show ?thesis using close start pick unfolding allowed.simps s1_def [symmetric] by (simp only: s4_def [symmetric] simp_thms)
  qed
  ultimately show ?thesis unfolding Let_def using run_append [of course_step s "[SubmitQuiz, CloseQuiz, StartQuiz (qr_id q), QuizStarted (qr_id q) (lp_student s) d2, ChooseOption u i]" "[QuizGraded (qs_assessment d) (lp_student s) ans r]"] s4(3) s5(2)
    by (simp del: course_guard.simps)
qed

definition some_result :: quiz_result where
  "some_result = \<lparr>qz_score = 2, qz_max = 2, qz_correct = 2, qz_total = 2, qz_passed = True\<rparr>"

theorem result_discards_open_quiz_witness:
  "let s = run course_step (course0 (Some ''st'')) quiz_events;
       events = [SubmitQuiz, CloseQuiz, StartQuiz ''a2'', QuizStarted ''a2'' (Some ''st'') algebra, ChooseOption ''u1'' 1,
         QuizGraded ''a1'' (Some ''st'') [(''u2'', 0), (''u1'', 0)] some_result]; t = run course_step s events in
   allowed course_guard course_step s events \<and> lp_quiz t = QuizDone some_result \<and> length (filter is_grade (lp_sent t)) = 1"
proof -
  let ?s = "run course_step (course0 (Some ''st'')) quiz_events"
  have q: "\<lparr>qr_id = ''a2'', qr_status = None\<rparr> \<in> set (lp_quizzes ?s)" "\<not> pending is_start ?s" "answer_ok algebra (''u1'', 1)" by code_simp+
  have d: "qs_assessment algebra = ''a1''" by (simp add: algebra_def)
  show ?thesis
    using result_discards_open_quiz [OF quiz_example(3,2) q(2,1,3), of some_result] quiz_example(5,6) unfolding Let_def d by simp
qed

text \<open>
  A bar of the attendance chart never shows the row of its own lesson, but the first row of all,
  when the rows and the lessons happen to be in the same order.
\<close>

theorem bars_show_first_row:
  "case bar_row rows i l of
     Some r \<Rightarrow> r = hd rows \<and> i < length rows \<and> at_lesson (rows ! i) = cl_id l
   | None \<Rightarrow> rows = [] \<or> \<not> i < length rows \<or> at_lesson (rows ! i) \<noteq> cl_id l"
  by (simp add: bar_row_def find_const) blast

text \<open>
  The filter of the attendance strip changes nothing but the button that is lit, and its button
  for absences counts none.
\<close>

theorem attendance_filter_inert:
  "course_view (s\<lparr>lp_filter := f\<rparr>) = course_view s \<and> attendance_bars (s\<lparr>lp_filter := f\<rparr>) = attendance_bars s \<and>
   filter_label ''ABSENT'' s = ''absent (0)''"
proof -
  let ?s = "s\<lparr>lp_filter := f\<rparr>"
  have c: "count_status x ?s = count_status x s" for x by (simp add: count_status_def)
  have l: "filter_label x ?s = filter_label x s" for x by (simp add: filter_label_def c)
  have ls: "lessons_of ?s = lessons_of s" by (simp add: lessons_of_def)
  have p: "pending k ?s = pending k s" for k by (simp add: pending_def)
  have q: "quiz_cell ?s = quiz_cell s" proof (rule ext)
    fix x show "quiz_cell ?s x = quiz_cell s x" by (cases "lp_quiz s") (simp_all add: quiz_cell_def p)
  qed
  have "page_view ?s = page_view s" unfolding page_view_def l ls p q by (simp add: typed_for_def)
  then have "course_view ?s = course_view s" unfolding course_view_def p by (cases "lp_quiz s") simp_all
  moreover have "attendance_bars ?s = attendance_bars s" by (simp add: attendance_bars_def ls)
  moreover have "filter_label ''ABSENT'' s = ''absent (0)''"
  proof -
    have "to_lower ''ABSENT'' = ''absent''" "show_nat 0 = ''0''" by code_simp+
    then show ?thesis by (simp add: filter_label_def)
  qed
  ultimately show ?thesis by blast
qed

text \<open>
  The attendance query does not depend on the learner. Started before the session is known, it
  leaves no row, whatever the service answers.
\<close>

theorem attendance_lost_before_session:
  assumes "lp_lessons s \<noteq> None" "lp_student s = None"
  shows "let events = [FetchAttendance, StudentKnown (Some i), AttendanceFetched None rows]; t = run course_step s events in
    allowed course_guard course_step s events \<and> lp_attendance t = [] \<and> tracked_pct t = 0"
  using assms by (simp add: attendance_of_def tracked_pct_def percent_def)

theorem attendance_lost_before_session_witness:
  "let s = run course_step (course0 None) [LessonsFetched []];
       t = run course_step s [FetchAttendance, StudentKnown (Some ''i''), AttendanceFetched None [\<lparr>at_lesson = ''l'', at_student = ''i'', at_status = ''PRESENT''\<rparr>]] in
   lp_attendance t = [] \<and> tracked_pct t = 0"
proof -
  have "lp_lessons (run course_step (course0 None) [LessonsFetched []]) \<noteq> None" "lp_student (run course_step (course0 None) [LessonsFetched []]) = None"
    by (simp_all add: course0_def)
  from attendance_lost_before_session [OF this] show ?thesis unfolding Let_def by blast
qed

text \<open>A note is kept with the first lesson, whichever lesson is open.\<close>

theorem note_goes_to_first_lesson:
  assumes "lp_lessons s = Some (l # ls)" "\<not> dialog_open s" "\<not> pending is_note s" "trim t \<noteq> []"
  shows "allowed course_guard course_step s [TypeNote t, SaveNote] \<and>
    lp_sent (run course_step s [TypeNote t, SaveNote]) = lp_sent s @ [NoteCall (cl_id l) (lp_student s) t]"
proof -
  have "course_view (s\<lparr>lp_noteText := t\<rparr>) = page_view (s\<lparr>lp_noteText := t\<rparr>)"
    using assms(2) by (cases "lp_quiz s") (simp_all add: course_view_def dialog_open_def)
  then have "SaveNote \<in> set (offered (course_view (s\<lparr>lp_noteText := t\<rparr>)))"
    using assms(3,4) by (simp add: page_view_def pending_def)
  then show ?thesis using assms(1,2) by (simp add: add_note_def lessons_of_def)
qed

theorem note_goes_to_first_lesson_witness:
  "let l = (\<lambda>i. \<lparr>cl_id = i, cl_title = i, cl_video = None, cl_meeting = None\<rparr>);
       s = run course_step (course0 (Some ''st'')) [LessonsFetched [l ''one'', l ''two''], SelectLesson ''two''] in
   lp_active s = Some ''two'' \<and> lp_sent (run course_step s [TypeNote ''n'', SaveNote]) = [NoteCall ''one'' (Some ''st'') ''n'']"
proof -
  let ?l = "\<lambda>i. \<lparr>cl_id = i, cl_title = i, cl_video = None, cl_meeting = None\<rparr>"
  let ?s = "run course_step (course0 (Some ''st'')) [LessonsFetched [?l ''one'', ?l ''two''], SelectLesson ''two'']"
  have h: "lp_lessons ?s = Some [?l ''one'', ?l ''two'']" "\<not> dialog_open ?s" "\<not> pending is_note ?s" "trim ''n'' \<noteq> []"
    "lp_active ?s = Some ''two''" "lp_sent ?s = []" "lp_student ?s = Some ''st''"
    by code_simp+
  show ?thesis using note_goes_to_first_lesson [OF h(1-4)] h(5-7) unfolding Let_def by simp
qed

text \<open>
  A submission that succeeds empties the inputs of every assignment, also what was typed since.
\<close>

theorem submission_clears_other_answers:
  assumes "\<not> dialog_open s" "a \<in> set (lp_assignments s)" "b \<in> set (lp_assignments s)" "trim (typed_for a s) \<noteq> []" "\<not> pending is_submit s"
  shows "let events = [SubmitAssignment a, TypeAnswer b t, AssignmentTaken a (lp_student s) (typed_for a s)]; u = run course_step s events in
    allowed course_guard course_step s events \<and> typed_for b u = [] \<and>
    lp_sent u = lp_sent s @ [SubmitCall a (lp_student s) (typed_for a s)]"
proof -
  have "course_view s = page_view s" using assms(1) by (cases "lp_quiz s") (simp_all add: course_view_def dialog_open_def)
  moreover have "SubmitAssignment a \<in> set (offered (page_view s))"
    using assms(2,4,5) unfolding page_view_def offered_append offered_map_when by auto
  moreover have "dialog_open (submit_text a s) = dialog_open s" "lp_assignments (submit_text a s) = lp_assignments s"
    "lp_calls (submit_text a s) = lp_calls s @ [SubmitCall a (lp_student s) (typed_for a s)]"
    "lp_sent (submit_text a s) = lp_sent s @ [SubmitCall a (lp_student s) (typed_for a s)]"
    by (simp_all add: dialog_open_def submit_text_def) (simp add: lp_call_def)
  ultimately show ?thesis using assms(1,3) unfolding Let_def by (simp add: typed_for_def)
qed

theorem submission_clears_other_answers_witness:
  "let s = run course_step (course0 None) [AssignmentsFetched [''a'', ''b''], TypeAnswer ''a'' ''x''] in
   typed_for ''b'' (run course_step s [SubmitAssignment ''a'', TypeAnswer ''b'' ''essay'', AssignmentTaken ''a'' None ''x'']) = []"
proof -
  let ?s = "run course_step (course0 None) [AssignmentsFetched [''a'', ''b''], TypeAnswer ''a'' ''x'']"
  have h: "\<not> dialog_open ?s" "''a'' \<in> set (lp_assignments ?s)" "''b'' \<in> set (lp_assignments ?s)" "trim (typed_for ''a'' ?s) \<noteq> []" "\<not> pending is_submit ?s"
    and e: "typed_for ''a'' ?s = ''x''" "lp_student ?s = None" by code_simp+
  show ?thesis using submission_clears_other_answers [OF h, of "''essay''"] unfolding Let_def e by blast
qed

text \<open>Playing a video again reports position 0 after the place that was reported at the pause.\<close>

theorem replay_reports_start:
  assumes "active_lesson s = Some l" "cl_video l = Some v" "v \<noteq> []" "0 \<le> n"
  shows "allowed course_guard course_step s [PauseVideo n, PlayVideo] \<and>
    lp_sent (run course_step s [PauseVideo n, PlayVideo]) = lp_sent s @ [ProgressCall (cl_id l) n, ProgressCall (cl_id l) 0]"
proof -
  let ?t = "lp_call (ProgressCall (cl_id l) n) s"
  have "record_progress n s = ?t" using assms(1) by (simp add: record_progress_def)
  moreover have t: "active_lesson ?t = Some l"
  proof -
    have u: "lessons_of ?t = lessons_of s" "lp_active ?t = lp_active s" by (simp_all add: lp_call_def lessons_of_def)
    show ?thesis using assms(1) unfolding active_lesson_def u .
  qed
  moreover have "record_progress 0 ?t = lp_call (ProgressCall (cl_id l) 0) ?t" unfolding record_progress_def t by simp
  ultimately show ?thesis using assms by (simp add: plays_video_def)
qed

theorem replay_reports_start_witness:
  "let s = run course_step (course0 None) [LessonsFetched [\<lparr>cl_id = ''l'', cl_title = [], cl_video = Some ''v'', cl_meeting = None\<rparr>]] in
   lp_sent (run course_step s [PauseVideo 90, PlayVideo]) = [ProgressCall ''l'' 90, ProgressCall ''l'' 0]"
proof -
  let ?l = "\<lparr>cl_id = ''l'', cl_title = [], cl_video = Some ''v'', cl_meeting = None\<rparr>"
  let ?s = "run course_step (course0 None) [LessonsFetched [?l]]"
  have h: "active_lesson ?s = Some ?l" "lp_sent ?s = []" by code_simp+
  show ?thesis using replay_reports_start [OF h(1), of "''v''" 90] h(2) unfolding Let_def by simp
qed

text \<open>The percentages that the page shows lie between 0 and 100.\<close>

theorem course_rates_bounded:
  "0 \<le> tracked_pct s \<and> tracked_pct s \<le> 100 \<and>
   0 \<le> percent (quizzesPassed s) (length (lp_quizzes s)) \<and> percent (quizzesPassed s) (length (lp_quizzes s)) \<le> 100"
proof -
  have "count_status ''PRESENT'' s + count_status ''LATE'' s \<le> length (lp_attendance s)"
    unfolding count_status_def by (rule length_filter_disjoint) simp
  then show ?thesis by (simp add: tracked_pct_def quizzesPassed_def percent_range)
qed

end
