(* ===== verification/JsDecimal.thy ===== *)
theory JsDecimal
  imports JsNumber JsText
begin

text \<open>
  \<open>Number(text)\<close> on the texts that a number input gives: empty, or a decimal literal with an
  optional sign, fraction and exponent. Every other text is \<open>NaN\<close> here (\<open>None\<close>); the literals
  \<open>Infinity\<close> and \<open>0x\<close>, which such an input never gives, are not told apart.
\<close>

definition is_digit :: "char \<Rightarrow> bool" where
  "is_digit c = (let n = of_char c :: nat in 48 \<le> n \<and> n \<le> 57)"

definition digit_value :: "char \<Rightarrow> nat" where
  "digit_value c = of_char c - 48"

definition digits_value :: "jsstring \<Rightarrow> nat" where
  "digits_value s = foldl (\<lambda>a c. 10 * a + digit_value c) 0 s"

definition split_sign :: "jsstring \<Rightarrow> bool \<times> jsstring" where
  "split_sign s = (case s of [] \<Rightarrow> (False, []) | c # r \<Rightarrow> if c = CHR ''-'' then (True, r) else if c = CHR ''+'' then (False, r) else (False, s))"

definition exponent_of :: "jsstring \<Rightarrow> int option" where
  "exponent_of s =
     (case s of
        [] \<Rightarrow> Some 0
      | c # r \<Rightarrow>
          let (neg, ds) = split_sign r in
          if (c = CHR ''e'' \<or> c = CHR ''E'') \<and> ds \<noteq> [] \<and> list_all is_digit ds
          then Some (if neg then - int (digits_value ds) else int (digits_value ds)) else None)"

definition scale10 :: "nat \<Rightarrow> int \<Rightarrow> rat" where
  "scale10 m k = (if 0 \<le> k then of_nat m * 10 ^ nat k else of_nat m / 10 ^ nat (- k))"

definition decimal_literal :: "jsstring \<Rightarrow> rat option" where
  "decimal_literal s =
     (let (neg, r) = split_sign s;
          whole = takeWhile is_digit r; r1 = dropWhile is_digit r;
          dot = (case r1 of [] \<Rightarrow> False | c # q \<Rightarrow> c = CHR ''.'');
          frac = (if dot then takeWhile is_digit (tl r1) else []);
          rest = (if dot then dropWhile is_digit (tl r1) else r1) in
      if whole @ frac = [] then None
      else case exponent_of rest of
             None \<Rightarrow> None
           | Some k \<Rightarrow> (let v = fl (scale10 (digits_value (whole @ frac)) (k - int (length frac))) in Some (if neg then - v else v)))"

definition js_number :: "jsstring \<Rightarrow> rat option" where
  "js_number s = (if trim s = [] then Some 0 else decimal_literal (trim s))"

text \<open>\<open>Number(text) || d\<close>: zero and \<open>NaN\<close> give the default.\<close>

definition number_or :: "jsstring \<Rightarrow> rat \<Rightarrow> rat" where
  "number_or s d = (case js_number s of None \<Rightarrow> d | Some v \<Rightarrow> if v = 0 then d else v)"

section \<open>Printing and reading back\<close>

lemma digits_value_append: "digits_value (s @ [c]) = 10 * digits_value s + digit_value c"
  by (simp add: digits_value_def)

lemma digit_char_cases: "n < 10 \<Longrightarrow> is_digit (digit_char n) \<and> digit_value (digit_char n) = n"
proof -
  assume "n < 10"
  then have "n \<in> {0, 1, 2, 3, 4, 5, 6, 7, 8, 9}" by auto
  then show ?thesis by (elim insertE) (simp_all add: digit_char_def is_digit_def digit_value_def)
qed

lemma show_nat_digits: "list_all is_digit (show_nat n) \<and> digits_value (show_nat n) = n"
proof (induction n rule: show_nat.induct)
  case (1 n)
  show ?case
  proof (cases "n < 10")
    case True
    then show ?thesis using digit_char_cases [of n] by (subst (1 2) show_nat.simps) (simp add: digits_value_def)
  next
    case False
    have "n mod 10 < 10" by simp
    from digit_char_cases [OF this] 1 [OF False] False show ?thesis
      by (subst (1 2) show_nat.simps) (simp add: digits_value_append)
  qed
qed

lemma digit_not_sign: "is_digit c \<Longrightarrow> c \<noteq> CHR ''-'' \<and> c \<noteq> CHR ''+'' \<and> \<not> is_space c"
  by (auto simp: is_digit_def is_space_def Let_def)

text \<open>A whole number written out is read back, up to the integers that binary64 holds.\<close>

lemma js_number_show_nat:
  assumes "n < 2 ^ 53"
  shows "js_number (show_nat n) = Some (of_nat n)"
proof -
  let ?s = "show_nat n"
  have d: "list_all is_digit ?s" "digits_value ?s = n" using show_nat_digits [of n] by simp_all
  obtain c r where s: "?s = c # r" by (cases ?s) auto
  have c: "is_digit c" using d(1) s by simp
  have sp: "list_all (\<lambda>c. \<not> is_space c) ?s" using d(1) digit_not_sign by (auto simp: list_all_iff)
  have t: "trim ?s = ?s"
    using sp by (intro trim_fixed) (auto simp: list_all_iff s)
  have "split_sign ?s = (False, ?s)" using digit_not_sign [OF c] by (simp add: split_sign_def s)
  moreover have w: "takeWhile is_digit ?s = ?s" "dropWhile is_digit ?s = []" using d(1) by (simp_all add: list_all_iff takeWhile_eq_all_conv dropWhile_eq_Nil_conv)
  moreover have "fl (of_nat n) = of_nat n" using fl_of_int [of "int n"] assms by simp
  ultimately show ?thesis unfolding js_number_def t by (simp add: decimal_literal_def exponent_of_def scale10_def d(2) Let_def w)
qed

section \<open>Amounts of money\<close>

text \<open>
  An amount is kept with two decimals (\<open>DECIMAL\<close> columns) and reaches the pages as the number
  nearest to it; \<open>String\<close> writes the shortest decimal that reads back as that number, which for
  these amounts is the amount itself without trailing zeros.
\<close>

definition money :: "nat \<Rightarrow> rat" where
  "money n = fl (of_nat n / 100)"

definition price_text :: "rat \<Rightarrow> jsstring" where
  "price_text r =
     (let c = nat (js_round (r * 100)) in
      show_nat (c div 100) @
      (if c mod 100 = 0 then [] else if c mod 10 = 0 then ''.'' @ show_nat (c mod 100 div 10)
       else ''.'' @ show_nat (c mod 100 div 10) @ show_nat (c mod 10)))"

lemma price_text_whole: "price_text (of_nat n) = show_nat n"
proof -
  have "js_round ((of_nat n :: rat) * 100) = int (n * 100)" using js_round_int [of "int (n * 100)"] by simp
  then have "nat (js_round ((of_nat n :: rat) * 100)) = n * 100" by simp
  then show ?thesis by (simp add: price_text_def Let_def)
qed

lemma money_hundredths:
  assumes "n < 10 ^ 15"
  shows "js_round (money n * 100) = int n"
proof (rule js_round_eqI)
  have "\<bar>money n - of_nat n / 100\<bar> * 2 ^ 53 \<le> of_nat n / 100" unfolding money_def by (rule fl_close) simp
  moreover have "(of_nat n :: rat) < 10 ^ 15" using assms by (metis of_nat_less_iff of_nat_numeral of_nat_power)
  ultimately have "\<bar>money n - of_nat n / 100\<bar> < 1 / 200" by (simp add: abs_if split: if_splits)
  then show "of_int (int n) \<le> money n * 100 + 1 / 2" "money n * 100 + 1 / 2 < of_int (int n) + 1"
    by (simp_all add: abs_if split: if_splits)
qed

lemma digits_value_join: "digits_value (a @ b) = digits_value a * 10 ^ length b + digits_value b"
proof -
  have "foldl (\<lambda>a c. 10 * a + digit_value c) v b = v * 10 ^ length b + digits_value b" for v
  proof (induction b arbitrary: v rule: rev_induct)
    case (snoc c b)
    then show ?case by (simp add: digits_value_append algebra_simps)
  qed (simp add: digits_value_def)
  then show ?thesis by (simp add: digits_value_def [of "a @ b"] digits_value_def [of a])
qed

lemma scale10_fraction: "scale10 m (- int l) = of_nat m / 10 ^ l"
  by (cases "l = 0") (simp_all add: scale10_def)

text \<open>A decimal of digits, a point and digits is read as the number nearest to it.\<close>

lemma js_number_fraction:
  assumes "list_all is_digit a" "list_all is_digit b" "a \<noteq> []"
  shows "js_number (a @ CHR ''.'' # b) = Some (fl (of_nat (digits_value (a @ b)) / 10 ^ length b))"
proof -
  let ?s = "a @ CHR ''.'' # b"
  have dot: "\<not> is_digit (CHR ''.'')" "\<not> is_space (CHR ''.'')" by code_simp+
  obtain c r where a: "a = c # r" using assms(3) by (cases a) auto
  have c: "is_digit c" using assms(1) a by simp
  have "list_all (\<lambda>c. \<not> is_space c) ?s" using assms(1,2) dot digit_not_sign by (auto simp: list_all_iff)
  then have t: "trim ?s = ?s" using a by (intro trim_fixed) (auto simp: list_all_iff last_append)
  have s: "split_sign ?s = (False, ?s)" using digit_not_sign [OF c] by (simp add: split_sign_def a)
  have w: "takeWhile is_digit ?s = a" "dropWhile is_digit ?s = CHR ''.'' # b"
    using assms(1) dot by (simp_all add: list_all_iff takeWhile_append2 dropWhile_append2)
  have v: "takeWhile is_digit b = b" "dropWhile is_digit b = []"
    using assms(2) by (simp_all add: list_all_iff takeWhile_eq_all_conv dropWhile_eq_Nil_conv)
  have "decimal_literal ?s = Some (fl (scale10 (digits_value (a @ b)) (- int (length b))))"
    unfolding decimal_literal_def s Let_def prod.case w by (simp add: v exponent_of_def assms(3))
  then show ?thesis unfolding js_number_def t by (simp add: scale10_fraction)
qed

lemma show_nat_digit: "d < 10 \<Longrightarrow> length (show_nat d) = 1"
  by (subst show_nat.simps) simp

text \<open>The text of an amount is read back as the same number.\<close>

lemma price_text_read:
  assumes "n < 10 ^ 15"
  shows "js_number (price_text (money n)) = Some (money n)"
proof -
  note sd = show_nat_digits [THEN conjunct1] show_nat_digits [THEN conjunct2]
  have ne: "show_nat m \<noteq> []" for m by simp
  have q: "nat (js_round (money n * 100)) = n" using money_hundredths [OF assms] by simp
  have tens: "n mod 100 div 10 < 10" and ones: "n mod 10 < 10" by auto
  have sum: "n = n div 100 * 100 + n mod 100 div 10 * 10 + n mod 10"
  proof -
    have "n mod 100 mod 10 = n mod 10" by (rule mod_mod_cancel) simp
    then show ?thesis using div_mult_mod_eq [of n 100] div_mult_mod_eq [of "n mod 100" 10] by linarith
  qed
  consider "n mod 100 = 0" | "n mod 100 \<noteq> 0" "n mod 10 = 0" | "n mod 100 \<noteq> 0" "n mod 10 \<noteq> 0" by blast
  then show ?thesis
  proof cases
    case 1
    then have "n = n div 100 * 100" using div_mult_mod_eq [of n 100] by simp
    then have "(of_nat n :: rat) = of_nat (n div 100) * 100" by (metis of_nat_mult of_nat_numeral)
    then have w: "of_nat n / 100 = (of_nat (n div 100) :: rat)" by simp
    have "n div 100 < 2 ^ 53" using assms by simp
    then have "fl (of_nat (n div 100)) = of_nat (n div 100)" using fl_of_int [of "int (n div 100)"] by simp
    then have "money n = of_nat (n div 100)" unfolding money_def w .
    moreover have "price_text (money n) = show_nat (n div 100)" unfolding price_text_def q Let_def using 1 by simp
    ultimately show ?thesis using js_number_show_nat [OF \<open>n div 100 < 2 ^ 53\<close>] by simp
  next
    case 2
    have A: "js_number (show_nat (n div 100) @ CHR ''.'' # show_nat (n mod 100 div 10)) = Some (fl (of_nat (n div 100 * 10 + n mod 100 div 10) / 10))"
      using js_number_fraction [OF sd(1) sd(1) ne, of "n div 100" "n mod 100 div 10"] show_nat_digit [OF tens] by (simp add: digits_value_join sd)
    have B: "(of_nat (n div 100 * 10 + n mod 100 div 10) / 10 :: rat) = of_nat n / 100"
    proof -
      have "n = (n div 100 * 10 + n mod 100 div 10) * 10" using sum 2(2) by simp
      then have "(of_nat n :: rat) = of_nat (n div 100 * 10 + n mod 100 div 10) * 10" by (metis of_nat_mult of_nat_numeral)
      then show ?thesis by simp
    qed
    have "price_text (money n) = show_nat (n div 100) @ CHR ''.'' # show_nat (n mod 100 div 10)" unfolding price_text_def q Let_def using 2 by simp
    then show ?thesis using A unfolding B money_def by (rule ssubst)
  next
    case 3
    have "list_all is_digit (show_nat (n mod 100 div 10) @ show_nat (n mod 10))" using sd(1) by simp
    from js_number_fraction [OF sd(1) this ne, of "n div 100"]
    have "js_number (show_nat (n div 100) @ CHR ''.'' # show_nat (n mod 100 div 10) @ show_nat (n mod 10)) =
        Some (fl (of_nat (n div 100 * 100 + (n mod 100 div 10 * 10 + n mod 10)) / 100))"
      using show_nat_digit [OF tens] show_nat_digit [OF ones] by (simp add: digits_value_join sd)
    moreover have "n div 100 * 100 + (n mod 100 div 10 * 10 + n mod 10) = n" using sum by simp
    moreover have "price_text (money n) = show_nat (n div 100) @ CHR ''.'' # show_nat (n mod 100 div 10) @ show_nat (n mod 10)"
      unfolding price_text_def q Let_def using 3 by simp
    ultimately show ?thesis unfolding money_def by simp
  qed
qed

end
