(* ===== verification/TutorConsole.thy ===== *)
theory TutorConsole
  imports Machine Http JsDecimal
begin

text \<open>
  A tutor's cohort console (\<open>client/app/lms/tutor/cohorts/[cohortId]/page.tsx\<close>): attendance,
  grading, the builders of quizzes, assignments and resources, and progress reports. The rows
  of the lesson schedule are in \<open>LessonSchedule\<close>. The console is a machine over its hooks, the
  data of its queries, the calls in flight and a log of what was sent.
\<close>

section \<open>Data\<close>

record mark_row =
  mk_student :: jsstring
  mk_status :: jsstring

record submission =
  sb_id :: jsstring
  sb_score :: "rat option"
  sb_feedback :: "jsstring option"

record quiz_item =
  qi_question :: jsstring
  qi_options :: "jsstring list"
  qi_correct :: nat

record quiz_draft =
  qd_subject :: jsstring
  qd_title :: jsstring
  qd_instructions :: jsstring
  qd_threshold :: jsstring
  qd_questions :: "quiz_item list"

record assignment_draft =
  ad_title :: jsstring
  ad_instructions :: jsstring
  ad_max :: jsstring

record resource_draft =
  rd_title :: jsstring
  rd_description :: jsstring
  rd_url :: jsstring

record report_draft =
  rp_strengths :: jsstring
  rp_weaknesses :: jsstring
  rp_recommendations :: jsstring
  rp_rating :: jsstring

text \<open>What is sent; \<open>None\<close> is a key that is left out, for a score the \<open>null\<close> of \<open>NaN\<close>.\<close>

datatype console_call =
    Mark jsstring jsstring jsstring \<comment> \<open>lesson, learner, status\<close>
  | Grade jsstring "rat option" "jsstring option"
  | NewQuiz "jsstring option" jsstring "jsstring option" rat "quiz_item list"
  | NewAssignment jsstring "jsstring option" "rat option"
  | NewResource jsstring "jsstring option" "jsstring option"
  | Upload jsstring
  | NewReport jsstring jsstring jsstring jsstring "rat option"

record console =
  tc_lessons :: "jsstring list"
  tc_selected :: jsstring
  tc_rows :: "jsstring \<Rightarrow> mark_row list" \<comment> \<open>by lesson, empty until fetched\<close>
  tc_assignments :: "jsstring list"
  tc_submissions :: "jsstring \<Rightarrow> submission list" \<comment> \<open>by assignment, empty until fetched\<close>
  tc_roster :: "jsstring list"
  tc_attendance :: "jsstring \<rightharpoonup> jsstring"
  tc_grade :: "jsstring \<rightharpoonup> jsstring"
  tc_feedback :: "jsstring \<rightharpoonup> jsstring"
  tc_report :: report_draft
  tc_reportStudent :: jsstring
  tc_quiz :: quiz_draft
  tc_assignment :: assignment_draft
  tc_resource :: resource_draft
  tc_uploading :: bool
  tc_showQuiz :: bool
  tc_showAssignment :: bool
  tc_showResource :: bool
  tc_calls :: "console_call list"
  tc_sent :: "console_call list"
  tc_toasts :: "jsstring list"

definition blank_item :: quiz_item where
  "blank_item = \<lparr>qi_question = [], qi_options = [[], [], [], []], qi_correct = 0\<rparr>"

definition quizDraft0 :: quiz_draft where
  "quizDraft0 = \<lparr>qd_subject = [], qd_title = [], qd_instructions = [], qd_threshold = ''70'', qd_questions = [blank_item]\<rparr>"

definition assignmentDraft0 :: assignment_draft where
  "assignmentDraft0 = \<lparr>ad_title = [], ad_instructions = [], ad_max = ''10''\<rparr>"

definition resourceDraft0 :: resource_draft where
  "resourceDraft0 = \<lparr>rd_title = [], rd_description = [], rd_url = []\<rparr>"

definition report0 :: report_draft where
  "report0 = \<lparr>rp_strengths = [], rp_weaknesses = [], rp_recommendations = [], rp_rating = ''4''\<rparr>"

definition console0 :: console where
  "console0 = \<lparr>tc_lessons = [], tc_selected = [], tc_rows = (\<lambda>l. []), tc_assignments = [], tc_submissions = (\<lambda>a. []), tc_roster = [],
     tc_attendance = Map.empty, tc_grade = Map.empty, tc_feedback = Map.empty, tc_report = report0, tc_reportStudent = [],
     tc_quiz = quizDraft0, tc_assignment = assignmentDraft0, tc_resource = resourceDraft0, tc_uploading = False,
     tc_showQuiz = False, tc_showAssignment = False, tc_showResource = False, tc_calls = [], tc_sent = [], tc_toasts = []\<rparr>"

section \<open>What is shown and what is sent\<close>

definition or_undefined :: "jsstring \<Rightarrow> jsstring option" where
  "or_undefined v = (if v = [] then None else Some v)"

definition lessonId :: "console \<Rightarrow> jsstring" where
  "lessonId s = (if tc_selected s \<noteq> [] then tc_selected s else if tc_lessons s = [] then [] else hd (tc_lessons s))"

definition attendanceRows :: "console \<Rightarrow> mark_row list" where
  "attendanceRows s = (if lessonId s = [] then [] else tc_rows s (lessonId s))"

definition submissions :: "console \<Rightarrow> submission list" where
  "submissions s = (case tc_assignments s of [] \<Rightarrow> [] | a # as \<Rightarrow> tc_submissions s a)"

definition shown_status :: "console \<Rightarrow> mark_row \<Rightarrow> jsstring" where
  "shown_status s r = (case tc_attendance s (mk_student r) of Some v \<Rightarrow> v | None \<Rightarrow> mk_status r)"

definition mark_call :: "console \<Rightarrow> mark_row \<Rightarrow> console_call" where
  "mark_call s r = Mark (lessonId s) (mk_student r) (case tc_attendance s (mk_student r) of Some v \<Rightarrow> v | None \<Rightarrow> ''PRESENT'')"

definition grade_call :: "console \<Rightarrow> submission \<Rightarrow> console_call" where
  "grade_call s b =
     Grade (sb_id b) (case tc_grade s (sb_id b) of Some v \<Rightarrow> js_number v | None \<Rightarrow> Some 0)
       (case tc_feedback s (sb_id b) of Some v \<Rightarrow> or_undefined v | None \<Rightarrow> None)"

definition asked :: "quiz_draft \<Rightarrow> quiz_item list" where
  "asked d = filter (\<lambda>q. trim (qi_question q) \<noteq> []) (qd_questions d)"

definition quiz_call :: "quiz_draft \<Rightarrow> console_call" where
  "quiz_call d = NewQuiz (or_undefined (qd_subject d)) (qd_title d) (or_undefined (qd_instructions d)) (number_or (qd_threshold d) 70) (asked d)"

definition assignment_call :: "assignment_draft \<Rightarrow> console_call" where
  "assignment_call d =
     NewAssignment (ad_title d) (or_undefined (ad_instructions d))
       (case js_number (ad_max d) of None \<Rightarrow> None | Some v \<Rightarrow> if v = 0 then None else Some v)"

definition resource_call :: "resource_draft \<Rightarrow> console_call" where
  "resource_call d = NewResource (rd_title d) (or_undefined (rd_description d)) (or_undefined (rd_url d))"

definition report_call :: "console \<Rightarrow> console_call" where
  "report_call s =
     (let r = tc_report s in
      NewReport (tc_reportStudent s) (rp_strengths r) (rp_weaknesses r) (rp_recommendations r) (js_number (rp_rating r)))"

section \<open>Mutations\<close>

datatype call_kind = KMark | KGrade | KQuiz | KAssignment | KResource | KUpload | KReport

fun kind_of :: "console_call \<Rightarrow> call_kind" where
  "kind_of (Mark l st v) = KMark"
| "kind_of (Grade i v f) = KGrade"
| "kind_of (NewQuiz a b c d e) = KQuiz"
| "kind_of (NewAssignment a b c) = KAssignment"
| "kind_of (NewResource a b c) = KResource"
| "kind_of (Upload f) = KUpload"
| "kind_of (NewReport a b c d e) = KReport"

definition waiting :: "call_kind \<Rightarrow> console \<Rightarrow> bool" where
  "waiting k s = list_ex (\<lambda>c. kind_of c = k) (tc_calls s)"

definition tc_call :: "console_call \<Rightarrow> console \<Rightarrow> console" where
  "tc_call c s = s\<lparr>tc_calls := tc_calls s @ [c], tc_sent := tc_sent s @ [c]\<rparr>"

definition tc_settled :: "console_call \<Rightarrow> jsstring \<Rightarrow> console \<Rightarrow> console" where
  "tc_settled c m s = s\<lparr>tc_calls := remove1 c (tc_calls s), tc_toasts := tc_toasts s @ [m]\<rparr>"

text \<open>The success handlers; an upload answers with the address of the file.\<close>

fun console_done :: "console_call \<Rightarrow> jsstring \<Rightarrow> console \<Rightarrow> console" where
  "console_done (Mark l st v) u s = tc_settled (Mark l st v) ''Attendance updated'' s"
| "console_done (Grade i v f) u s = tc_settled (Grade i v f) ''Submission graded'' s"
| "console_done (NewQuiz a b c d e) u s = (tc_settled (NewQuiz a b c d e) ''Quiz published'' s)\<lparr>tc_showQuiz := False, tc_quiz := quizDraft0\<rparr>"
| "console_done (NewAssignment a b c) u s =
     (tc_settled (NewAssignment a b c) ''Assignment published'' s)\<lparr>tc_showAssignment := False, tc_assignment := assignmentDraft0\<rparr>"
| "console_done (NewResource a b c) u s =
     (tc_settled (NewResource a b c) ''Resource added'' s)\<lparr>tc_showResource := False, tc_resource := resourceDraft0\<rparr>"
| "console_done (Upload f) u s =
     (tc_settled (Upload f) (''Uploaded '' @ f) s)\<lparr>tc_resource := (tc_resource s)\<lparr>rd_url := u\<rparr>, tc_uploading := False\<rparr>"
| "console_done (NewReport a b c d e) u s = (tc_settled (NewReport a b c d e) ''Progress report created'' s)\<lparr>tc_report := report0\<rparr>"

fun console_error :: "call_kind \<Rightarrow> jsstring" where
  "console_error KMark = ''Could not update attendance''"
| "console_error KGrade = ''Could not grade''"
| "console_error KQuiz = ''Could not create quiz''"
| "console_error KAssignment = ''Could not create assignment''"
| "console_error KResource = ''Could not create resource''"
| "console_error KUpload = ''Upload failed''"
| "console_error KReport = ''Could not create report''"

definition console_failed :: "console_call \<Rightarrow> js_exn \<Rightarrow> console \<Rightarrow> console" where
  "console_failed c e s =
     (let t = tc_settled c (message_or (console_error (kind_of c)) e) s in
      if kind_of c = KUpload then t\<lparr>tc_uploading := False\<rparr> else t)"

section \<open>Events\<close>

datatype quiz_edit =
    SetSubject jsstring | SetTitle jsstring | SetInstructions jsstring | SetThreshold jsstring
  | SetQuestion nat jsstring | SetCorrect nat nat | SetOption nat nat jsstring | DropQuestion nat | AddQuestion

definition at_index :: "nat \<Rightarrow> ('a \<Rightarrow> 'a) \<Rightarrow> 'a list \<Rightarrow> 'a list" where
  "at_index i f xs = (if i < length xs then xs[i := f (xs ! i)] else xs)"

definition without_index :: "nat \<Rightarrow> 'a list \<Rightarrow> 'a list" where
  "without_index i xs = take i xs @ drop (Suc i) xs"

fun edit_quiz :: "quiz_edit \<Rightarrow> quiz_draft \<Rightarrow> quiz_draft" where
  "edit_quiz (SetSubject v) d = d\<lparr>qd_subject := v\<rparr>"
| "edit_quiz (SetTitle v) d = d\<lparr>qd_title := v\<rparr>"
| "edit_quiz (SetInstructions v) d = d\<lparr>qd_instructions := v\<rparr>"
| "edit_quiz (SetThreshold v) d = d\<lparr>qd_threshold := v\<rparr>"
| "edit_quiz (SetQuestion i v) d = d\<lparr>qd_questions := at_index i (\<lambda>q. q\<lparr>qi_question := v\<rparr>) (qd_questions d)\<rparr>"
| "edit_quiz (SetCorrect i j) d = d\<lparr>qd_questions := at_index i (\<lambda>q. q\<lparr>qi_correct := j\<rparr>) (qd_questions d)\<rparr>"
| "edit_quiz (SetOption i j v) d = d\<lparr>qd_questions := at_index i (\<lambda>q. q\<lparr>qi_options := at_index j (\<lambda>_. v) (qi_options q)\<rparr>) (qd_questions d)\<rparr>"
| "edit_quiz (DropQuestion i) d = d\<lparr>qd_questions := without_index i (qd_questions d)\<rparr>"
| "edit_quiz AddQuestion d = d\<lparr>qd_questions := qd_questions d @ [blank_item]\<rparr>"

text \<open>A radio button belongs to an option of its question.\<close>

fun edit_possible :: "quiz_edit \<Rightarrow> quiz_draft \<Rightarrow> bool" where
  "edit_possible (SetCorrect i j) d = (i < length (qd_questions d) \<and> j < length (qi_options (qd_questions d ! i)))"
| "edit_possible (SetOption i j v) d = (i < length (qd_questions d) \<and> j < length (qi_options (qd_questions d ! i)))"
| "edit_possible (SetQuestion i v) d = (i < length (qd_questions d))"
| "edit_possible (DropQuestion i) d = (i < length (qd_questions d))"
| "edit_possible e d = True"

datatype console_event =
    LessonsLoaded "jsstring list" | RowsLoaded jsstring "mark_row list" | AssignmentsLoaded "jsstring list"
  | SubmissionsLoaded jsstring "submission list" | RosterLoaded "jsstring list"
  | PickLesson jsstring | PickStatus jsstring jsstring | SaveMark mark_row
  | TypeGrade jsstring jsstring | TypeFeedback jsstring jsstring | GradeClick submission
  | ToggleQuiz | ToggleAssignment | ToggleResource
  | EditQuiz quiz_edit | PublishQuiz
  | TypeAssignment assignment_draft | PublishAssignment
  | PickFile jsstring | RemoveFile | TypeResource resource_draft | AddMaterial
  | PickReportStudent jsstring | TypeReport jsstring jsstring jsstring | Rate jsstring | PublishReport
  | CallDone console_call jsstring | CallLost console_call js_exn

definition statuses :: "jsstring list" where
  "statuses = [''PRESENT'', ''LATE'', ''ABSENT'', ''EXCUSED'']"

definition ratings :: "jsstring list" where
  "ratings = [''1'', ''2'', ''3'', ''4'', ''5'']"

definition grade_enabled :: "console \<Rightarrow> submission \<Rightarrow> bool" where
  "grade_enabled s b = (\<not> (waiting KGrade s \<or> tc_grade s (sb_id b) = Some [] \<and> sb_score b = None))"

definition console_view :: "console \<Rightarrow> console_event widget list" where
  "console_view s =
     map (\<lambda>l. Btn l True (PickLesson l)) (tc_lessons s) @
     map (\<lambda>r. Btn ''Save'' (\<not> waiting KMark s) (SaveMark r)) (attendanceRows s) @
     map (\<lambda>b. Btn ''Grade'' (grade_enabled s b) (GradeClick b)) (submissions s) @
     [Btn ''+ Quiz'' True ToggleQuiz, Btn ''+ Assignment'' True ToggleAssignment, Btn ''+ Resource'' True ToggleResource] @
     (if tc_showQuiz s then
        [Btn ''+ Add question'' True (EditQuiz AddQuestion),
         Btn (if waiting KQuiz s then ''Publishing...'' else ''Publish quiz'')
           (\<not> waiting KQuiz s \<and> trim (qd_title (tc_quiz s)) \<noteq> [] \<and> asked (tc_quiz s) \<noteq> []) PublishQuiz] else []) @
     (if tc_showAssignment s then
        [Btn (if waiting KAssignment s then ''Publishing...'' else ''Publish assignment'')
           (\<not> waiting KAssignment s \<and> trim (ad_title (tc_assignment s)) \<noteq> []) PublishAssignment] else []) @
     (if tc_showResource s then
        [Btn ''remove'' (rd_url (tc_resource s) \<noteq> []) RemoveFile,
         Btn (if waiting KResource s then ''Adding...'' else ''Add material'')
           (\<not> waiting KResource s \<and> \<not> tc_uploading s \<and> trim (rd_title (tc_resource s)) \<noteq> []) AddMaterial] else []) @
     map (\<lambda>n. Btn n True (Rate n)) ratings @
     [Btn (if waiting KReport s then ''Creating...'' else ''Publish report'')
        (\<not> waiting KReport s \<and> rp_strengths (tc_report s) \<noteq> [] \<and> tc_reportStudent s \<noteq> []) PublishReport]"

fun console_guard :: "console \<Rightarrow> console_event \<Rightarrow> bool" where
  "console_guard s (LessonsLoaded ls) = True"
| "console_guard s (RowsLoaded l rs) = True"
| "console_guard s (AssignmentsLoaded xs) = True"
| "console_guard s (SubmissionsLoaded a bs) = True"
| "console_guard s (RosterLoaded xs) = True"
| "console_guard s (PickStatus st v) = (st \<in> mk_student ` set (attendanceRows s) \<and> v \<in> set statuses)"
| "console_guard s (TypeGrade i v) = (i \<in> sb_id ` set (submissions s))"
| "console_guard s (TypeFeedback i v) = (i \<in> sb_id ` set (submissions s))"
| "console_guard s (EditQuiz e) = (tc_showQuiz s \<and> edit_possible e (tc_quiz s))"
| "console_guard s (TypeAssignment d) = tc_showAssignment s"
| "console_guard s (PickFile f) = tc_showResource s"
| "console_guard s (TypeResource d) = tc_showResource s"
| "console_guard s (PickReportStudent v) = (v = [] \<or> v \<in> set (tc_roster s))"
| "console_guard s (TypeReport a b c) = True"
| "console_guard s (CallDone c u) = (c \<in> set (tc_calls s))"
| "console_guard s (CallLost c e) = (c \<in> set (tc_calls s))"
| "console_guard s e = (e \<in> set (offered (console_view s)))"

fun console_step :: "console \<Rightarrow> console_event \<Rightarrow> console" where
  "console_step s (LessonsLoaded ls) = s\<lparr>tc_lessons := ls\<rparr>"
| "console_step s (RowsLoaded l rs) = s\<lparr>tc_rows := (tc_rows s)(l := rs)\<rparr>"
| "console_step s (AssignmentsLoaded xs) = s\<lparr>tc_assignments := xs\<rparr>"
| "console_step s (SubmissionsLoaded a bs) = s\<lparr>tc_submissions := (tc_submissions s)(a := bs)\<rparr>"
| "console_step s (RosterLoaded xs) = s\<lparr>tc_roster := xs\<rparr>"
| "console_step s (PickLesson l) = s\<lparr>tc_selected := l\<rparr>"
| "console_step s (PickStatus st v) = s\<lparr>tc_attendance := (tc_attendance s)(st \<mapsto> v)\<rparr>"
| "console_step s (SaveMark r) = tc_call (mark_call s r) s"
| "console_step s (TypeGrade i v) = s\<lparr>tc_grade := (tc_grade s)(i \<mapsto> v)\<rparr>"
| "console_step s (TypeFeedback i v) = s\<lparr>tc_feedback := (tc_feedback s)(i \<mapsto> v)\<rparr>"
| "console_step s (GradeClick b) = tc_call (grade_call s b) s"
| "console_step s ToggleQuiz = s\<lparr>tc_showQuiz := \<not> tc_showQuiz s\<rparr>"
| "console_step s ToggleAssignment = s\<lparr>tc_showAssignment := \<not> tc_showAssignment s\<rparr>"
| "console_step s ToggleResource = s\<lparr>tc_showResource := \<not> tc_showResource s\<rparr>"
| "console_step s (EditQuiz e) = s\<lparr>tc_quiz := edit_quiz e (tc_quiz s)\<rparr>"
| "console_step s PublishQuiz = tc_call (quiz_call (tc_quiz s)) s"
| "console_step s (TypeAssignment d) = s\<lparr>tc_assignment := d\<rparr>"
| "console_step s PublishAssignment = tc_call (assignment_call (tc_assignment s)) s"
| "console_step s (PickFile f) = tc_call (Upload f) (s\<lparr>tc_uploading := True\<rparr>)"
| "console_step s RemoveFile = s\<lparr>tc_resource := (tc_resource s)\<lparr>rd_url := []\<rparr>\<rparr>"
| "console_step s (TypeResource d) = s\<lparr>tc_resource := d\<rparr>"
| "console_step s AddMaterial = tc_call (resource_call (tc_resource s)) s"
| "console_step s (PickReportStudent v) = s\<lparr>tc_reportStudent := v\<rparr>"
| "console_step s (TypeReport a b c) = s\<lparr>tc_report := (tc_report s)\<lparr>rp_strengths := a, rp_weaknesses := b, rp_recommendations := c\<rparr>\<rparr>"
| "console_step s (Rate n) = s\<lparr>tc_report := (tc_report s)\<lparr>rp_rating := n\<rparr>\<rparr>"
| "console_step s PublishReport = tc_call (report_call s) s"
| "console_step s (CallDone c u) = console_done c u s"
| "console_step s (CallLost c e) = console_failed c e s"

section \<open>What is sent is complete\<close>

definition item_ok :: "quiz_item \<Rightarrow> bool" where
  "item_ok q = (length (qi_options q) = 4 \<and> qi_correct q < 4)"

fun console_call_ok :: "console_call \<Rightarrow> bool" where
  "console_call_ok (Mark l st v) = (v \<in> set statuses)"
| "console_call_ok (NewQuiz sub t ins n qs) =
     (trim t \<noteq> [] \<and> n \<noteq> 0 \<and> qs \<noteq> [] \<and> list_all (\<lambda>q. trim (qi_question q) \<noteq> [] \<and> item_ok q) qs)"
| "console_call_ok (NewAssignment t ins m) = (trim t \<noteq> [] \<and> m \<noteq> Some 0)"
| "console_call_ok (NewResource t d u) = (trim t \<noteq> [])"
| "console_call_ok (NewReport st a b c r) = (st \<noteq> [] \<and> a \<noteq> [] \<and> r \<in> Some ` {1, 2, 3, 4, 5})"
| "console_call_ok c = True"

definition under_way :: "call_kind \<Rightarrow> console \<Rightarrow> nat" where
  "under_way k s = length (filter (\<lambda>c. kind_of c = k) (tc_calls s))"

definition single_calls :: "console \<Rightarrow> bool" where
  "single_calls s = list_all (\<lambda>k. under_way k s \<le> 1) [KMark, KGrade, KQuiz, KAssignment, KResource, KReport]"

definition drafts_ok :: "console \<Rightarrow> bool" where
  "drafts_ok s = (list_all item_ok (qd_questions (tc_quiz s)) \<and> rp_rating (tc_report s) \<in> set ratings \<and>
     (\<forall>v\<in>ran (tc_attendance s). v \<in> set statuses))"

definition console_inv :: "console \<Rightarrow> bool" where
  "console_inv s = (single_calls s \<and> drafts_ok s \<and> list_all console_call_ok (tc_sent s))"

lemma not_waiting: "\<not> waiting k s \<Longrightarrow> under_way k s = 0"
  by (simp add: waiting_def under_way_def filter_empty_conv list_ex_iff)

lemma under_way_call: "under_way k (tc_call c s) = under_way k s + (if kind_of c = k then 1 else 0)"
  by (simp add: under_way_def tc_call_def)

lemma under_way_frame: "tc_calls s' = tc_calls s \<Longrightarrow> under_way k s' = under_way k s"
  by (simp add: under_way_def)

lemma single_frame: "tc_calls s' = tc_calls s \<Longrightarrow> single_calls s' = single_calls s"
  by (simp add: single_calls_def under_way_def)

lemma single_settled: "single_calls s \<Longrightarrow> tc_calls s' = remove1 c (tc_calls s) \<Longrightarrow> single_calls s'"
proof -
  have "length (filter P (remove1 c (tc_calls s))) \<le> length (filter P (tc_calls s))" for P
    by (cases "P c") (simp_all add: filter_remove1_other filter_remove1 length_remove1)
  then show "single_calls s \<Longrightarrow> tc_calls s' = remove1 c (tc_calls s) \<Longrightarrow> single_calls s'"
    by (auto simp: single_calls_def under_way_def intro: le_trans)
qed

lemma tc_simps [simp]:
  "tc_calls (tc_call c s) = tc_calls s @ [c]" "tc_sent (tc_call c s) = tc_sent s @ [c]" "tc_quiz (tc_call c s) = tc_quiz s"
  "tc_report (tc_call c s) = tc_report s" "tc_attendance (tc_call c s) = tc_attendance s"
  "tc_calls (tc_settled c m s) = remove1 c (tc_calls s)" "tc_sent (tc_settled c m s) = tc_sent s" "tc_quiz (tc_settled c m s) = tc_quiz s"
  "tc_report (tc_settled c m s) = tc_report s" "tc_attendance (tc_settled c m s) = tc_attendance s"
  by (simp_all add: tc_call_def tc_settled_def)

lemma drafts_frame: "tc_quiz s' = tc_quiz s \<Longrightarrow> tc_report s' = tc_report s \<Longrightarrow> tc_attendance s' = tc_attendance s \<Longrightarrow> drafts_ok s' = drafts_ok s"
  by (simp add: drafts_ok_def)

lemma console_inv_frame:
  assumes "console_inv s" "tc_calls s' = tc_calls s" "tc_sent s' = tc_sent s" "drafts_ok s'"
  shows "console_inv s'"
  using assms single_frame [of s' s] by (simp add: console_inv_def)

lemma console_inv_call:
  assumes "console_inv s" "kind_of c = KUpload \<or> \<not> waiting (kind_of c) s" "console_call_ok c"
  shows "console_inv (tc_call c s)"
proof -
  have "single_calls (tc_call c s)"
    using assms(1,2) not_waiting [of "kind_of c" s] unfolding console_inv_def single_calls_def under_way_call
    by (cases "kind_of c") auto
  then show ?thesis using assms(1,3) drafts_frame [of "tc_call c s" s] by (simp add: console_inv_def)
qed

lemma item_ok_blank [simp]: "item_ok blank_item" "drafts_ok s \<Longrightarrow> drafts_ok (s\<lparr>tc_quiz := quizDraft0\<rparr>)" "drafts_ok s \<Longrightarrow> drafts_ok (s\<lparr>tc_report := report0\<rparr>)"
  by (simp_all add: item_ok_def blank_item_def drafts_ok_def quizDraft0_def report0_def ratings_def)

lemma all_at_index: "list_all P xs \<Longrightarrow> (\<And>x. P x \<Longrightarrow> P (f x)) \<Longrightarrow> list_all P (at_index i f xs)"
  by (auto simp: at_index_def list_all_length nth_list_update)

lemma all_without_index: "list_all P xs \<Longrightarrow> list_all P (without_index i xs)"
  by (auto simp: without_index_def list_all_iff dest: in_set_takeD in_set_dropD)

lemma length_at_index [simp]: "length (at_index i f xs) = length xs"
  by (simp add: at_index_def)

lemma edit_quiz_ok: "list_all item_ok (qd_questions d) \<Longrightarrow> edit_possible e d \<Longrightarrow> list_all item_ok (qd_questions (edit_quiz e d))"
proof (cases e)
  case (SetCorrect i j)
  assume a: "list_all item_ok (qd_questions d)" "edit_possible e d"
  then have "length (qi_options (qd_questions d ! i)) = 4" "j < length (qi_options (qd_questions d ! i))"
    using SetCorrect by (auto simp: list_all_length item_ok_def)
  then show ?thesis using a by (auto simp: SetCorrect intro!: all_at_index) (simp add: item_ok_def)
qed (auto simp: item_ok_def blank_item_def all_without_index intro!: all_at_index)

lemma rating_read: "v \<in> set ratings \<Longrightarrow> js_number v \<in> Some ` {1, 2, 3, 4, 5}"
proof -
  have "js_number ''1'' = Some 1" "js_number ''2'' = Some 2" "js_number ''3'' = Some 3" "js_number ''4'' = Some 4" "js_number ''5'' = Some 5"
    by code_simp+
  then show "v \<in> set ratings \<Longrightarrow> js_number v \<in> Some ` {1, 2, 3, 4, 5}" by (auto simp: ratings_def)
qed

lemma number_or_nonzero: "d \<noteq> 0 \<Longrightarrow> number_or v d \<noteq> 0"
  by (simp add: number_or_def split: option.split)

lemma console_offers:
  "e \<in> set (offered (console_view s)) \<Longrightarrow>
   (\<exists>l. e = PickLesson l) \<or> (\<exists>r. e = SaveMark r \<and> \<not> waiting KMark s \<and> r \<in> set (attendanceRows s)) \<or>
   (\<exists>b. e = GradeClick b \<and> \<not> waiting KGrade s) \<or> e = ToggleQuiz \<or> e = ToggleAssignment \<or> e = ToggleResource \<or> e = EditQuiz AddQuestion \<or>
   (e = PublishQuiz \<and> \<not> waiting KQuiz s \<and> trim (qd_title (tc_quiz s)) \<noteq> [] \<and> asked (tc_quiz s) \<noteq> []) \<or>
   (e = PublishAssignment \<and> \<not> waiting KAssignment s \<and> trim (ad_title (tc_assignment s)) \<noteq> []) \<or> e = RemoveFile \<or>
   (e = AddMaterial \<and> \<not> waiting KResource s \<and> \<not> tc_uploading s \<and> trim (rd_title (tc_resource s)) \<noteq> []) \<or>
   (\<exists>n. e = Rate n \<and> n \<in> set ratings) \<or>
   (e = PublishReport \<and> \<not> waiting KReport s \<and> rp_strengths (tc_report s) \<noteq> [] \<and> tc_reportStudent s \<noteq> [])"
  unfolding console_view_def in_offered grade_enabled_def by blast

lemma mark_ok: "drafts_ok s \<Longrightarrow> console_call_ok (mark_call s r)"
  by (auto simp: mark_call_def drafts_ok_def statuses_def ran_def split: option.split)

lemma asked_ok: "drafts_ok s \<Longrightarrow> list_all (\<lambda>q. trim (qi_question q) \<noteq> [] \<and> item_ok q) (asked (tc_quiz s))"
  by (auto simp: asked_def drafts_ok_def list_all_iff)

lemma console_done_inv:
  assumes "console_inv s"
  shows "console_inv (console_done c u s)"
proof -
  have b: "single_calls (console_done c u s)" using assms single_settled [of s "console_done c u s" c] by (cases c) (simp_all add: console_inv_def)
  have "drafts_ok (console_done c u s)"
    using assms by (cases c) (simp_all add: console_inv_def drafts_ok_def quizDraft0_def report0_def ratings_def)
  moreover have "tc_sent (console_done c u s) = tc_sent s" by (cases c) simp_all
  ultimately show ?thesis using assms b by (simp add: console_inv_def)
qed

lemma console_failed_inv:
  assumes "console_inv s"
  shows "console_inv (console_failed c e s)"
  using assms single_settled [of s "console_failed c e s" c] drafts_frame [of "console_failed c e s" s]
  by (simp add: console_inv_def console_failed_def Let_def)

lemma console_inv_step:
  assumes "console_inv s" "console_guard s e"
  shows "console_inv (console_step s e)"
proof (cases e)
  case (SaveMark r)
  then show ?thesis using assms console_offers [of e s] mark_ok [of s r] console_inv_call [of s "mark_call s r"]
    by (auto simp: mark_call_def console_inv_def)
next
  case (GradeClick b)
  then show ?thesis using assms console_offers [of e s] console_inv_call [of s "grade_call s b"] by (auto simp: grade_call_def)
next
  case PublishQuiz
  then have "console_call_ok (quiz_call (tc_quiz s))" "\<not> waiting KQuiz s"
    using assms console_offers [of e s] asked_ok [of s] number_or_nonzero [of 70] by (auto simp: quiz_call_def console_inv_def)
  then show ?thesis using PublishQuiz assms(1) console_inv_call [of s "quiz_call (tc_quiz s)"] by (simp add: quiz_call_def)
next
  case PublishAssignment
  then have "console_call_ok (assignment_call (tc_assignment s))" "\<not> waiting KAssignment s"
    using assms console_offers [of e s] by (auto simp: assignment_call_def split: option.splits)
  then show ?thesis using PublishAssignment assms(1) console_inv_call [of s "assignment_call (tc_assignment s)"] by (simp add: assignment_call_def)
next
  case (PickFile f)
  have "console_inv (s\<lparr>tc_uploading := True\<rparr>)" using assms(1) by (rule console_inv_frame) (use assms(1) in \<open>simp_all add: console_inv_def drafts_ok_def\<close>)
  then show ?thesis using console_inv_call [of _ "Upload f"] by (simp add: PickFile)
next
  case AddMaterial
  then have "console_call_ok (resource_call (tc_resource s))" "\<not> waiting KResource s"
    using assms console_offers [of e s] by (auto simp: resource_call_def)
  then show ?thesis using AddMaterial assms(1) console_inv_call [of s "resource_call (tc_resource s)"] by (simp add: resource_call_def)
next
  case PublishReport
  then have "console_call_ok (report_call s)" "\<not> waiting KReport s"
    using assms console_offers [of e s] rating_read [of "rp_rating (tc_report s)"] by (auto simp: report_call_def console_inv_def drafts_ok_def Let_def)
  then show ?thesis using PublishReport assms(1) console_inv_call [of s "report_call s"] by (simp add: report_call_def Let_def)
next
  case (EditQuiz q)
  have "edit_possible q (tc_quiz s)" using EditQuiz assms(2) by simp
  then have "drafts_ok (s\<lparr>tc_quiz := edit_quiz q (tc_quiz s)\<rparr>)" using assms(1) edit_quiz_ok [of "tc_quiz s" q] by (simp add: console_inv_def drafts_ok_def)
  then show ?thesis using assms(1) by (simp add: EditQuiz console_inv_frame)
next
  case (PickStatus st v)
  then have "drafts_ok (s\<lparr>tc_attendance := (tc_attendance s)(st \<mapsto> v)\<rparr>)"
    using assms by (auto simp: console_inv_def drafts_ok_def ran_def)
  then show ?thesis using assms(1) by (simp add: PickStatus console_inv_frame)
next
  case (Rate n)
  then have "drafts_ok (s\<lparr>tc_report := (tc_report s)\<lparr>rp_rating := n\<rparr>\<rparr>)"
    using assms console_offers [of e s] by (auto simp: console_inv_def drafts_ok_def)
  then show ?thesis using assms(1) by (simp add: Rate console_inv_frame)
next
  case (CallDone c u)
  then show ?thesis using assms(1) console_done_inv by simp
next
  case (CallLost c x)
  then show ?thesis using assms(1) console_failed_inv by simp
qed (use assms(1) in \<open>simp_all add: console_inv_def drafts_ok_def single_calls_def under_way_def\<close>)

interpretation console: bounded_machine "\<lambda>s. s = console0" console_guard console_step console_inv "under_way KGrade" 1
proof unfold_locales
  fix s assume "s = console0"
  then show "console_inv s"
    by (simp add: console_inv_def console0_def single_calls_def under_way_def drafts_ok_def quizDraft0_def item_ok_def blank_item_def report0_def ratings_def)
next
  fix s e assume "console_inv s" "console_guard s e"
  then show "console_inv (console_step s e)" by (rule console_inv_step)
next
  fix s assume "console_inv s"
  then show "under_way KGrade s \<le> 1" by (simp add: console_inv_def single_calls_def)
qed

text \<open>
  C12. Whatever the tutor does and whatever is answered when: an attendance mark that is sent is one
  of the four statuses; a quiz has a title, a pass mark other than zero and at least one question,
  each with a text and four options (which may be blank) of which the key is one; an assignment and
  a material have a title; a report has a learner, a strength and a mark of 1 to 5. At most one call
  that saves a mark, a grade, a quiz, an assignment, a material or a report is in flight for each of
  these six kinds; uploads of files are the one kind that is not held back.
\<close>

theorem console_well_formed:
  assumes "reach (\<lambda>s. s = console0) console_guard console_step s"
  shows "list_all console_call_ok (tc_sent s) \<and>
    list_all (\<lambda>k. under_way k s \<le> 1) [KMark, KGrade, KQuiz, KAssignment, KResource, KReport]"
  using console.reach_inv [OF assms] by (simp add: console_inv_def single_calls_def)

definition quiz_written :: "console_event list" where
  "quiz_written = [ToggleQuiz, EditQuiz (SetTitle ''Sums''), EditQuiz (SetQuestion 0 ''1+1''), EditQuiz (SetOption 0 1 ''2''), EditQuiz (SetCorrect 0 1),
     EditQuiz AddQuestion, EditQuiz (SetThreshold ''0''), PublishQuiz]"

theorem console_well_formed_witness:
  "let s = run console_step console0 quiz_written in
   tc_sent s = [NewQuiz None ''Sums'' None 70 [\<lparr>qi_question = ''1+1'', qi_options = [[], ''2'', [], []], qi_correct = 1\<rparr>]] \<and>
   list_all console_call_ok (tc_sent s)"
proof -
  have a: "allowed console_guard console_step console0 quiz_written" by code_simp
  have "tc_sent (run console_step console0 quiz_written) =
      [NewQuiz None ''Sums'' None 70 [\<lparr>qi_question = ''1+1'', qi_options = [[], ''2'', [], []], qi_correct = 1\<rparr>]]" by code_simp
  then show ?thesis using console_well_formed [OF run_reachable [OF refl a]] unfolding Let_def by blast
qed

section \<open>What is sent is not what is shown\<close>

lemma row_offered: "r \<in> set (attendanceRows s) \<Longrightarrow> \<not> waiting KMark s \<Longrightarrow> SaveMark r \<in> set (offered (console_view s))"
  unfolding console_view_def in_offered by blast

lemma grade_offered: "b \<in> set (submissions s) \<Longrightarrow> grade_enabled s b \<Longrightarrow> GradeClick b \<in> set (offered (console_view s))"
  unfolding console_view_def in_offered by blast

text \<open>
  A row that nobody touched shows the status on record; saving it marks the learner present.
\<close>

theorem untouched_row_marked_present:
  assumes "r \<in> set (attendanceRows s)" "tc_attendance s (mk_student r) = None" "\<not> waiting KMark s"
  shows "shown_status s r = mk_status r \<and> allowed console_guard console_step s [SaveMark r] \<and>
    tc_sent (run console_step s [SaveMark r]) = tc_sent s @ [Mark (lessonId s) (mk_student r) ''PRESENT'']"
  using assms row_offered [of r s] by (simp add: shown_status_def mark_call_def)

theorem untouched_row_marked_present_witness:
  "let r = \<lparr>mk_student = ''st'', mk_status = ''ABSENT''\<rparr>; s = run console_step console0 [LessonsLoaded [''l''], RowsLoaded ''l'' [r]] in
   shown_status s r = ''ABSENT'' \<and> tc_sent (run console_step s [SaveMark r]) = [Mark ''l'' ''st'' ''PRESENT'']"
proof -
  let ?r = "\<lparr>mk_student = ''st'', mk_status = ''ABSENT''\<rparr>"
  let ?s = "run console_step console0 [LessonsLoaded [''l''], RowsLoaded ''l'' [?r]]"
  have h: "?r \<in> set (attendanceRows ?s)" "tc_attendance ?s (mk_student ?r) = None" "\<not> waiting KMark ?s" "tc_sent ?s = []" "lessonId ?s = ''l''"
    by code_simp+
  show ?thesis using untouched_row_marked_present [OF h(1-3)] h(4,5) unfolding Let_def by simp
qed

text \<open>
  A graded submission shows its score and feedback. Grading it again without typing sends a
  score of 0 and no feedback.
\<close>

theorem regrade_sends_zero:
  assumes "b \<in> set (submissions s)" "tc_grade s (sb_id b) = None" "tc_feedback s (sb_id b) = None" "\<not> waiting KGrade s"
  shows "allowed console_guard console_step s [GradeClick b] \<and>
    tc_sent (run console_step s [GradeClick b]) = tc_sent s @ [Grade (sb_id b) (Some 0) None]"
  using assms grade_offered [of b s] by (simp add: grade_enabled_def grade_call_def)

theorem regrade_sends_zero_witness:
  "let b = \<lparr>sb_id = ''b'', sb_score = Some 8, sb_feedback = Some ''Good''\<rparr>;
       s = run console_step console0 [AssignmentsLoaded [''a''], SubmissionsLoaded ''a'' [b]] in
   tc_sent (run console_step s [GradeClick b]) = [Grade ''b'' (Some 0) None]"
proof -
  let ?b = "\<lparr>sb_id = ''b'', sb_score = Some 8, sb_feedback = Some ''Good''\<rparr>"
  let ?s = "run console_step console0 [AssignmentsLoaded [''a''], SubmissionsLoaded ''a'' [?b]]"
  have h: "?b \<in> set (submissions ?s)" "tc_grade ?s (sb_id ?b) = None" "tc_feedback ?s (sb_id ?b) = None" "\<not> waiting KGrade ?s" "tc_sent ?s = []"
    by code_simp+
  show ?thesis using regrade_sends_zero [OF h(1-4)] h(5) unfolding Let_def by simp
qed

text \<open>Only the submissions of the first assignment can be graded.\<close>

theorem first_assignment_only:
  assumes "GradeClick b \<in> set (offered (console_view s))"
  shows "tc_assignments s \<noteq> [] \<and> b \<in> set (tc_submissions s (hd (tc_assignments s)))"
  using assms unfolding console_view_def in_offered by (cases "tc_assignments s") (auto simp: submissions_def)

theorem first_assignment_only_witness:
  "let b = \<lparr>sb_id = ''b'', sb_score = None, sb_feedback = None\<rparr>;
       s = run console_step console0 [AssignmentsLoaded [''a'', ''a2''], SubmissionsLoaded ''a'' [b], SubmissionsLoaded ''a2'' [b\<lparr>sb_id := ''c''\<rparr>]] in
   tc_assignments s \<noteq> [] \<and> b \<in> set (tc_submissions s (hd (tc_assignments s)))"
proof -
  let ?b = "\<lparr>sb_id = ''b'', sb_score = None, sb_feedback = None\<rparr>"
  let ?s = "run console_step console0 [AssignmentsLoaded [''a'', ''a2''], SubmissionsLoaded ''a'' [?b], SubmissionsLoaded ''a2'' [?b\<lparr>sb_id := ''c''\<rparr>]]"
  have "?b \<in> set (submissions ?s)" "grade_enabled ?s ?b" by code_simp+
  from first_assignment_only [OF grade_offered [OF this]] show ?thesis unfolding Let_def .
qed

fun sent_threshold :: "console_call \<Rightarrow> rat option" where
  "sent_threshold (NewQuiz sub t ins n qs) = Some n"
| "sent_threshold c = None"

text \<open>
  A whole pass mark is sent as it is written, except that 0 becomes 70.
\<close>

theorem threshold_read:
  assumes "n < 2 ^ 53"
  shows "sent_threshold (quiz_call (d\<lparr>qd_threshold := show_nat n\<rparr>)) = Some (if n = 0 then 70 else of_nat n)"
  using js_number_show_nat [OF assms] by (simp add: quiz_call_def number_or_def)

theorem threshold_read_witness:
  "sent_threshold (quiz_call (quizDraft0\<lparr>qd_threshold := show_nat 250\<rparr>)) = Some 250"
  using threshold_read [of 250 quizDraft0] by simp

text \<open>
  One flag stands for all uploads. When the first of two ends, the material can be added while
  the second is under way; it goes out with the first file.
\<close>

theorem material_added_during_upload:
  assumes "tc_showResource s" "trim (rd_title (tc_resource s)) \<noteq> []" "\<not> waiting KResource s" "Upload f \<notin> set (tc_calls s)"
  shows "let events = [PickFile f, PickFile g, CallDone (Upload f) u, AddMaterial]; t = run console_step s events in
    allowed console_guard console_step s events \<and>
    tc_sent t = tc_sent s @ [Upload f, Upload g, NewResource (rd_title (tc_resource s)) (or_undefined (rd_description (tc_resource s))) (or_undefined u)] \<and>
    Upload g \<in> set (tc_calls t)"
proof -
  define t where "t = run console_step s [PickFile f, PickFile g, CallDone (Upload f) u]"
  have t: "tc_showResource t" "tc_resource t = (tc_resource s)\<lparr>rd_url := u\<rparr>" "\<not> tc_uploading t" "tc_calls t = tc_calls s @ [Upload g]"
    "tc_sent t = tc_sent s @ [Upload f, Upload g]"
    using assms(1,4) by (simp_all add: t_def tc_call_def tc_settled_def remove1_append)
  then have "\<not> waiting KResource t" using assms(3) by (simp add: waiting_def list_ex_iff)
  then have "AddMaterial \<in> set (offered (console_view t))" using t assms(2) unfolding console_view_def in_offered by auto
  moreover have "allowed console_guard console_step s [PickFile f, PickFile g, CallDone (Upload f) u]"
    using assms(1) by (simp add: tc_call_def)
  moreover have "resource_call (tc_resource t) = NewResource (rd_title (tc_resource s)) (or_undefined (rd_description (tc_resource s))) (or_undefined u)"
    by (simp add: resource_call_def t(2))
  moreover have "run console_step s [PickFile f, PickFile g, CallDone (Upload f) u, AddMaterial] = tc_call (resource_call (tc_resource t)) t"
    by (simp add: t_def)
  moreover have "allowed console_guard console_step s [PickFile f, PickFile g, CallDone (Upload f) u, AddMaterial] =
      (allowed console_guard console_step s [PickFile f, PickFile g, CallDone (Upload f) u] \<and> AddMaterial \<in> set (offered (console_view t)))"
    by (simp add: t_def)
  ultimately show ?thesis unfolding Let_def using t(4,5) by simp
qed

theorem material_added_during_upload_witness:
  "let s = run console_step console0 [ToggleResource, TypeResource \<lparr>rd_title = ''Notes'', rd_description = [], rd_url = []\<rparr>] in
   tc_sent (run console_step s [PickFile ''a.pdf'', PickFile ''b.pdf'', CallDone (Upload ''a.pdf'') ''/a'', AddMaterial]) =
     [Upload ''a.pdf'', Upload ''b.pdf'', NewResource ''Notes'' None (Some ''/a'')]"
proof -
  let ?s = "run console_step console0 [ToggleResource, TypeResource \<lparr>rd_title = ''Notes'', rd_description = [], rd_url = []\<rparr>]"
  have h: "tc_showResource ?s" "trim (rd_title (tc_resource ?s)) \<noteq> []" "\<not> waiting KResource ?s" "Upload ''a.pdf'' \<notin> set (tc_calls ?s)"
    and e: "tc_sent ?s = []" "rd_title (tc_resource ?s) = ''Notes''" "rd_description (tc_resource ?s) = []" by code_simp+
  note sent = conjunct1 [OF conjunct2 [OF material_added_during_upload [OF h, of "''b.pdf''" "''/a''", unfolded Let_def e]]]
  have "[] @ [Upload ''a.pdf'', Upload ''b.pdf'', NewResource ''Notes'' (or_undefined []) (or_undefined ''/a'')] =
      [Upload ''a.pdf'', Upload ''b.pdf'', NewResource ''Notes'' None (Some ''/a'')]" by (simp add: or_undefined_def)
  from trans [OF sent this] show ?thesis unfolding Let_def .
qed

end
