(* ===== verification/LessonSchedule.thy ===== *)
theory LessonSchedule
  imports Machine Http JsText
begin

text \<open>
  A row of the lesson schedule in the tutor's console (\<open>LessonScheduleRow\<close> of
  \<open>client/app/lms/tutor/cohorts/[cohortId]/page.tsx\<close>): moving a lesson, cancelling it, and its
  transcript. \<open>to_iso\<close> is \<open>new Date(v).toISOString()\<close> for the value of a date-time input, which is
  local time; \<open>None\<close> is the \<open>RangeError\<close> of an invalid date.
\<close>

record lesson =
  ln_id :: jsstring
  ln_title :: jsstring
  ln_start :: jsstring
  ln_end :: jsstring
  ln_status :: jsstring
  ln_transcript :: "jsstring option"

datatype schedule_call =
    Reschedule jsstring jsstring jsstring
  | CancelLesson jsstring
  | Transcript jsstring jsstring

record schedule_row =
  sr_lesson :: lesson
  sr_editing :: bool
  sr_startAt :: jsstring
  sr_endAt :: jsstring
  sr_notesOpen :: bool
  sr_notes :: jsstring
  sr_calls :: "schedule_call list"
  sr_sent :: "schedule_call list"
  sr_toasts :: "jsstring list"

definition transcript_text :: "lesson \<Rightarrow> jsstring" where
  "transcript_text l = (case ln_transcript l of None \<Rightarrow> [] | Some t \<Rightarrow> t)"

definition row0 :: "lesson \<Rightarrow> schedule_row" where
  "row0 l = \<lparr>sr_lesson = l, sr_editing = False, sr_startAt = take 16 (ln_start l), sr_endAt = take 16 (ln_end l),
     sr_notesOpen = False, sr_notes = transcript_text l, sr_calls = [], sr_sent = [], sr_toasts = []\<rparr>"

definition lesson_done :: "schedule_row \<Rightarrow> bool" where
  "lesson_done s = (ln_status (sr_lesson s) = ''COMPLETED'' \<or> ln_status (sr_lesson s) = ''CANCELLED'')"

fun is_move :: "schedule_call \<Rightarrow> bool" where
  "is_move (Reschedule i a b) = True"
| "is_move c = False"

fun is_cancel :: "schedule_call \<Rightarrow> bool" where
  "is_cancel (CancelLesson i) = True"
| "is_cancel c = False"

fun is_transcript :: "schedule_call \<Rightarrow> bool" where
  "is_transcript (Transcript i t) = True"
| "is_transcript c = False"

definition sr_pending :: "(schedule_call \<Rightarrow> bool) \<Rightarrow> schedule_row \<Rightarrow> bool" where
  "sr_pending k s = list_ex k (sr_calls s)"

definition sr_call :: "schedule_call \<Rightarrow> schedule_row \<Rightarrow> schedule_row" where
  "sr_call c s = s\<lparr>sr_calls := sr_calls s @ [c], sr_sent := sr_sent s @ [c]\<rparr>"

definition sr_toast :: "jsstring \<Rightarrow> schedule_row \<Rightarrow> schedule_row" where
  "sr_toast m s = s\<lparr>sr_toasts := sr_toasts s @ [m]\<rparr>"

text \<open>The mutation of \<open>move\<close>: a date that cannot be read fails before anything is sent.\<close>

definition move_lesson :: "(jsstring \<Rightarrow> jsstring option) \<Rightarrow> schedule_row \<Rightarrow> schedule_row" where
  "move_lesson to_iso s =
     (case (to_iso (sr_startAt s), to_iso (sr_endAt s)) of
        (Some a, Some b) \<Rightarrow> sr_call (Reschedule (ln_id (sr_lesson s)) a b) s
      | _ \<Rightarrow> sr_toast ''Invalid time value'' s)"

text \<open>
  The mutation reads the notes of the last render: a handler that sets them first sends the old.
\<close>

definition save_transcript :: "jsstring \<Rightarrow> schedule_row \<Rightarrow> schedule_row" where
  "save_transcript rendered s = sr_call (Transcript (ln_id (sr_lesson s)) rendered) s"

definition clear_transcript :: "schedule_row \<Rightarrow> schedule_row" where
  "clear_transcript s = save_transcript (sr_notes s) (s\<lparr>sr_notes := []\<rparr>)"

fun schedule_done :: "schedule_call \<Rightarrow> schedule_row \<Rightarrow> schedule_row" where
  "schedule_done (Reschedule i a b) s = (sr_toast ''Lesson rescheduled'' s)\<lparr>sr_editing := False\<rparr>"
| "schedule_done (CancelLesson i) s = sr_toast ''Lesson cancelled'' s"
| "schedule_done (Transcript i t) s = (sr_toast ''Transcript saved'' s)\<lparr>sr_notesOpen := False\<rparr>"

fun schedule_error :: "schedule_call \<Rightarrow> jsstring" where
  "schedule_error (Reschedule i a b) = ''Could not reschedule''"
| "schedule_error (CancelLesson i) = ''Could not cancel''"
| "schedule_error (Transcript i t) = ''Could not save transcript''"

datatype schedule_event =
    LessonReloaded lesson
  | ToggleEdit | ToggleNotes | CancelClick bool
  | TypeStart jsstring | TypeEnd jsstring | ConfirmMove
  | TypeNotes jsstring | SaveNotes | ClearNotes
  | ScheduleOk schedule_call | ScheduleFailed schedule_call js_exn

definition schedule_view :: "schedule_row \<Rightarrow> schedule_event widget list" where
  "schedule_view s =
     (if \<not> lesson_done s then
        [Btn (if sr_editing s then ''Close'' else ''Reschedule'') True ToggleEdit,
         Btn (if sr_notesOpen s then ''Close'' else if transcript_text (sr_lesson s) \<noteq> [] then ''Transcript'' else ''Add transcript'') True ToggleNotes] @
        map (\<lambda>b. Btn ''Cancel'' (\<not> sr_pending is_cancel s) (CancelClick b)) [True, False] else []) @
     (if sr_notesOpen s then
        [Btn (if sr_pending is_transcript s then ''Saving'' @ ellipsis else ''Save transcript'') (\<not> sr_pending is_transcript s) SaveNotes,
         Btn ''Clear'' (\<not> sr_pending is_transcript s \<and> transcript_text (sr_lesson s) \<noteq> []) ClearNotes] else []) @
     (if sr_editing s \<and> \<not> lesson_done s then
        [Btn (if sr_pending is_move s then ''Moving'' @ ellipsis else ''Confirm new time'') (\<not> sr_pending is_move s \<and> sr_startAt s \<noteq> [] \<and> sr_endAt s \<noteq> []) ConfirmMove]
      else [])"

fun schedule_guard :: "schedule_row \<Rightarrow> schedule_event \<Rightarrow> bool" where
  "schedule_guard s (LessonReloaded l) = (ln_id l = ln_id (sr_lesson s))"
| "schedule_guard s (TypeStart v) = (sr_editing s \<and> \<not> lesson_done s)"
| "schedule_guard s (TypeEnd v) = (sr_editing s \<and> \<not> lesson_done s)"
| "schedule_guard s (TypeNotes v) = sr_notesOpen s"
| "schedule_guard s (ScheduleOk c) = (c \<in> set (sr_calls s))"
| "schedule_guard s (ScheduleFailed c e) = (c \<in> set (sr_calls s))"
| "schedule_guard s e = (e \<in> set (offered (schedule_view s)))"

fun schedule_step :: "(jsstring \<Rightarrow> jsstring option) \<Rightarrow> schedule_row \<Rightarrow> schedule_event \<Rightarrow> schedule_row" where
  "schedule_step to_iso s (LessonReloaded l) = s\<lparr>sr_lesson := l\<rparr>"
| "schedule_step to_iso s ToggleEdit = s\<lparr>sr_editing := \<not> sr_editing s\<rparr>"
| "schedule_step to_iso s ToggleNotes = s\<lparr>sr_notesOpen := \<not> sr_notesOpen s\<rparr>"
| "schedule_step to_iso s (CancelClick yes) = (if yes then sr_call (CancelLesson (ln_id (sr_lesson s))) s else s)"
| "schedule_step to_iso s (TypeStart v) = s\<lparr>sr_startAt := v\<rparr>"
| "schedule_step to_iso s (TypeEnd v) = s\<lparr>sr_endAt := v\<rparr>"
| "schedule_step to_iso s ConfirmMove = move_lesson to_iso s"
| "schedule_step to_iso s (TypeNotes v) = s\<lparr>sr_notes := v\<rparr>"
| "schedule_step to_iso s SaveNotes = save_transcript (sr_notes s) s"
| "schedule_step to_iso s ClearNotes = clear_transcript s"
| "schedule_step to_iso s (ScheduleOk c) = schedule_done c (s\<lparr>sr_calls := remove1 c (sr_calls s)\<rparr>)"
| "schedule_step to_iso s (ScheduleFailed c e) = sr_toast (message_or (schedule_error c) e) (s\<lparr>sr_calls := remove1 c (sr_calls s)\<rparr>)"

section \<open>What the row promises\<close>

definition row_kinds :: "(schedule_call \<Rightarrow> bool) list" where
  "row_kinds = [is_move, is_cancel, is_transcript]"

definition row_calls :: "(schedule_call \<Rightarrow> bool) \<Rightarrow> schedule_row \<Rightarrow> nat" where
  "row_calls k s = length (filter k (sr_calls s))"

fun schedule_call_ok :: "jsstring \<Rightarrow> schedule_call \<Rightarrow> bool" where
  "schedule_call_ok i (Reschedule j a b) = (j = i)"
| "schedule_call_ok i (CancelLesson j) = (j = i)"
| "schedule_call_ok i (Transcript j t) = (j = i)"

definition row_inv :: "jsstring \<Rightarrow> schedule_row \<Rightarrow> bool" where
  "row_inv i s = (ln_id (sr_lesson s) = i \<and> row_calls is_move s \<le> 1 \<and> row_calls is_cancel s \<le> 1 \<and> row_calls is_transcript s \<le> 1 \<and>
     list_all (schedule_call_ok i) (sr_sent s))"

lemma row_idle: "\<not> sr_pending k s \<Longrightarrow> row_calls k s = 0"
  by (simp add: sr_pending_def row_calls_def filter_empty_conv list_ex_iff)

lemma row_calls_remove: "length (filter k (remove1 c xs)) \<le> length (filter k xs)"
  by (cases "k c") (simp_all add: filter_remove1_other filter_remove1 length_remove1)

lemma schedule_offers:
  "e \<in> set (offered (schedule_view s)) \<Longrightarrow>
   e = ToggleEdit \<or> e = ToggleNotes \<or> (\<exists>b. e = CancelClick b \<and> \<not> sr_pending is_cancel s \<and> \<not> lesson_done s) \<or>
   ((e = SaveNotes \<or> e = ClearNotes) \<and> \<not> sr_pending is_transcript s) \<or>
   (e = ConfirmMove \<and> \<not> sr_pending is_move s \<and> sr_startAt s \<noteq> [] \<and> sr_endAt s \<noteq> [] \<and> \<not> lesson_done s)"
  unfolding schedule_view_def in_offered by blast

lemma row_call_inv:
  assumes "row_inv i s" "schedule_call_ok i c"
    and "is_move c \<Longrightarrow> \<not> sr_pending is_move s" "is_cancel c \<Longrightarrow> \<not> sr_pending is_cancel s" "is_transcript c \<Longrightarrow> \<not> sr_pending is_transcript s"
  shows "row_inv i (sr_call c s)"
  using assms row_idle [of _ s] by (cases c) (auto simp: row_inv_def sr_call_def row_calls_def)

lemma row_settled_inv:
  assumes "row_inv i s" "sr_calls t = remove1 c (sr_calls s)" "sr_sent t = sr_sent s" "sr_lesson t = sr_lesson s"
  shows "row_inv i t"
  using assms row_calls_remove [of _ c "sr_calls s"] unfolding row_inv_def row_calls_def by (auto intro: le_trans)

lemma row_frame:
  assumes "row_inv i s" "sr_calls t = sr_calls s" "sr_sent t = sr_sent s" "ln_id (sr_lesson t) = ln_id (sr_lesson s)"
  shows "row_inv i t"
  using assms by (simp add: row_inv_def row_calls_def)

lemma row_inv_step:
  assumes "row_inv i s" "schedule_guard s e"
  shows "row_inv i (schedule_step to_iso s e)"
proof -
  have own: "ln_id (sr_lesson s) = i" using assms(1) by (simp add: row_inv_def)
  show ?thesis
proof (cases e)
  case (CancelClick b)
  then show ?thesis using assms own schedule_offers [of e s] by (auto intro!: row_call_inv)
next
  case ConfirmMove
  then have "\<not> sr_pending is_move s" using assms schedule_offers [of e s] by auto
  moreover have "row_inv i (sr_toast m s)" for m by (rule row_frame [OF assms(1)]) (simp_all add: sr_toast_def)
  ultimately show ?thesis using ConfirmMove assms(1) own
    by (auto simp: move_lesson_def intro!: row_call_inv split: option.split)
next
  case SaveNotes
  then show ?thesis using assms own schedule_offers [of e s] by (auto simp: save_transcript_def intro!: row_call_inv)
next
  case ClearNotes
  then have p: "\<not> sr_pending is_transcript (s\<lparr>sr_notes := []\<rparr>)" using assms schedule_offers [of e s] by (auto simp: sr_pending_def)
  have "row_inv i (s\<lparr>sr_notes := []\<rparr>)" by (rule row_frame [OF assms(1)]) simp_all
  then show ?thesis using p own ClearNotes by (auto simp: clear_transcript_def save_transcript_def intro!: row_call_inv)
next
  case (ScheduleOk c)
  then show ?thesis by (cases c) (auto intro: row_settled_inv [OF assms(1), of _ c] simp: sr_toast_def)
next
  case (ScheduleFailed c x)
  then show ?thesis by (auto intro: row_settled_inv [OF assms(1), of _ c] simp: sr_toast_def)
qed (use assms in \<open>auto simp: row_inv_def row_calls_def\<close>)
qed

interpretation row: bounded_machine "\<lambda>s. s = row0 l" schedule_guard "schedule_step to_iso" "row_inv (ln_id l)" "row_calls is_transcript" 1
  for l to_iso
proof unfold_locales
  fix s assume "s = row0 l"
  then show "row_inv (ln_id l) s" by (simp add: row_inv_def row0_def row_calls_def)
next
  fix s e assume "row_inv (ln_id l) s" "schedule_guard s e"
  then show "row_inv (ln_id l) (schedule_step to_iso s e)" by (rule row_inv_step)
next
  fix s assume "row_inv (ln_id l) s"
  then show "row_calls is_transcript s \<le> 1" by (simp add: row_inv_def)
qed

text \<open>Every call of a row is about its own lesson, and one of each kind is under way at a time.\<close>

theorem schedule_row_safe:
  assumes "reach (\<lambda>s. s = row0 l) schedule_guard (schedule_step to_iso) s"
  shows "list_all (schedule_call_ok (ln_id l)) (sr_sent s) \<and> row_calls is_move s \<le> 1 \<and> row_calls is_cancel s \<le> 1 \<and> row_calls is_transcript s \<le> 1"
  using row.reach_inv [OF assms] row.reach_load [OF assms] by (simp add: row_inv_def)

definition some_lesson :: lesson where
  "some_lesson = \<lparr>ln_id = ''l1'', ln_title = ''Sums'', ln_start = ''2026-05-01T10:00:00Z'', ln_end = ''2026-05-01T11:00:00Z'',
     ln_status = ''SCHEDULED'', ln_transcript = Some ''Old text''\<rparr>"

text \<open>Lagos, an hour before which a text of May 2026 from ten o'clock stands in UTC.\<close>

definition lagos :: "jsstring \<Rightarrow> jsstring option" where
  "lagos v = (if v = ''2026-05-01T10:00'' then Some ''2026-05-01T09:00:00.000Z''
     else if v = ''2026-05-01T11:00'' then Some ''2026-05-01T10:00:00.000Z'' else None)"

theorem schedule_row_safe_witness:
  "let s = run (schedule_step lagos) (row0 some_lesson) [ToggleNotes, TypeNotes ''New'', SaveNotes] in
   sr_sent s = [Transcript ''l1'' ''New''] \<and> list_all (schedule_call_ok ''l1'') (sr_sent s)"
proof -
  let ?es = "[ToggleNotes, TypeNotes ''New'', SaveNotes]"
  have a: "allowed schedule_guard (schedule_step lagos) (row0 some_lesson) ?es" and i: "ln_id some_lesson = ''l1''"
    and s: "sr_sent (run (schedule_step lagos) (row0 some_lesson) ?es) = [Transcript ''l1'' ''New'']" by code_simp+
  show ?thesis using schedule_row_safe [OF run_reachable [OF refl a]] s i unfolding Let_def by simp
qed

text \<open>
  Clear does not clear. It empties the text on the screen and saves the text that was there; when
  the service has it, the panel closes on an empty text although the lesson keeps the old one.
\<close>

theorem clear_saves_old_transcript:
  assumes "sr_notesOpen s" "\<not> sr_pending is_transcript s" "transcript_text (sr_lesson s) \<noteq> []"
  shows "let c = Transcript (ln_id (sr_lesson s)) (sr_notes s); t = run (schedule_step to_iso) s [ClearNotes, ScheduleOk c] in
    allowed schedule_guard (schedule_step to_iso) s [ClearNotes, ScheduleOk c] \<and>
    sr_sent t = sr_sent s @ [c] \<and> sr_notes t = [] \<and> \<not> sr_notesOpen t"
proof -
  have "ClearNotes \<in> set (offered (schedule_view s))" using assms unfolding schedule_view_def in_offered by simp
  then show ?thesis unfolding Let_def by (simp add: clear_transcript_def save_transcript_def sr_call_def sr_toast_def)
qed

theorem clear_saves_old_transcript_witness:
  "let s = run (schedule_step lagos) (row0 some_lesson) [ToggleNotes] in
   sr_sent (run (schedule_step lagos) s [ClearNotes, ScheduleOk (Transcript ''l1'' ''Old text'')]) = [Transcript ''l1'' ''Old text'']"
proof -
  let ?s = "run (schedule_step lagos) (row0 some_lesson) [ToggleNotes]"
  have h: "sr_notesOpen ?s" "\<not> sr_pending is_transcript ?s" "transcript_text (sr_lesson ?s) \<noteq> []"
    and e: "ln_id (sr_lesson ?s) = ''l1''" "sr_notes ?s = ''Old text''" "sr_sent ?s = []" by code_simp+
  show ?thesis using clear_saves_old_transcript [OF h, of lagos] e unfolding Let_def by simp
qed

text \<open>
  The editor shows the digits of the stored time and reads them back as local time. Confirming
  a lesson's own time moves it wherever the tutor's zone is not the one it is stored in.
\<close>

theorem unchanged_time_moves_lesson:
  assumes "\<not> lesson_done (row0 l)" "ln_start l \<noteq> []" "ln_end l \<noteq> []"
    and "to_iso (take 16 (ln_start l)) = Some a" "to_iso (take 16 (ln_end l)) = Some b"
  shows "allowed schedule_guard (schedule_step to_iso) (row0 l) [ToggleEdit, ConfirmMove] \<and>
    sr_sent (run (schedule_step to_iso) (row0 l) [ToggleEdit, ConfirmMove]) = [Reschedule (ln_id l) a b]"
proof -
  let ?t = "(row0 l)\<lparr>sr_editing := True\<rparr>"
  have t: "sr_startAt ?t = take 16 (ln_start l)" "sr_endAt ?t = take 16 (ln_end l)" "sr_calls ?t = []" "sr_sent ?t = []" "sr_lesson ?t = l"
    by (simp_all add: row0_def)
  have "ToggleEdit \<in> set (offered (schedule_view (row0 l)))" using assms(1) unfolding schedule_view_def in_offered by simp
  moreover have "ConfirmMove \<in> set (offered (schedule_view ?t))"
    using assms(1-3) t unfolding schedule_view_def in_offered by (simp add: sr_pending_def lesson_done_def)
  moreover have "move_lesson to_iso ?t = sr_call (Reschedule (ln_id l) a b) ?t" unfolding move_lesson_def t assms(4,5) by simp
  moreover have "\<not> sr_editing (row0 l)" by (simp add: row0_def)
  ultimately show ?thesis using t by (simp add: sr_call_def)
qed

theorem unchanged_time_moves_lesson_witness:
  "sr_sent (run (schedule_step lagos) (row0 some_lesson) [ToggleEdit, ConfirmMove]) =
     [Reschedule ''l1'' ''2026-05-01T09:00:00.000Z'' ''2026-05-01T10:00:00.000Z'']"
proof -
  have h: "\<not> lesson_done (row0 some_lesson)" "ln_start some_lesson \<noteq> []" "ln_end some_lesson \<noteq> []"
    "lagos (take 16 (ln_start some_lesson)) = Some ''2026-05-01T09:00:00.000Z''" "lagos (take 16 (ln_end some_lesson)) = Some ''2026-05-01T10:00:00.000Z''"
    "ln_id some_lesson = ''l1''" by code_simp+
  show ?thesis using unchanged_time_moves_lesson [OF h(1-5)] h(6) by simp
qed

end
