(* ===== verification/VideoPlayback.thy ===== *)
theory VideoPlayback
  imports Machine JsNumber JsText
begin

text \<open>
  Recorded lessons on the phone: the player of \<open>mobile/src/components/VideoPlayer.tsx\<close> and the
  course screen that mounts it (\<open>mobile/app/lms/[cohortId].tsx\<close>; its offline button is in
  \<open>OfflineVideo\<close>). The native player is an object with a position and a length that the user
  and the clock move; a new source gives a new one. Times are milliseconds. Answers to a
  lookup that was cancelled do nothing and are not events.
\<close>

section \<open>The player\<close>

record progress_report =
  pr_lesson :: jsstring
  pr_position :: int
  pr_ended :: bool \<comment> \<open>forced by the end of the video; not part of the request\<close>
  pr_at :: int

record video_player =
  vp_lesson :: jsstring
  vp_source :: jsstring
  vp_time :: rat
  vp_duration :: rat
  vp_ready :: bool
  vp_lastSaved :: int
  vp_ended :: bool
  vp_cacheAsked :: bool
  vp_progressAsked :: bool
  vp_due :: int \<comment> \<open>when the interval fires next\<close>
  vp_sent :: "progress_report list"

definition mount_player :: "int \<Rightarrow> jsstring \<Rightarrow> jsstring \<Rightarrow> video_player" where
  "mount_player now lesson url =
     \<lparr>vp_lesson = lesson, vp_source = url, vp_time = 0, vp_duration = 0, vp_ready = False, vp_lastSaved = 0, vp_ended = False,
      vp_cacheAsked = True, vp_progressAsked = True, vp_due = now + 5000, vp_sent = []\<rparr>"

text \<open>\<open>setPlaySource\<close>: another source is another player, and its effects run again.\<close>

definition set_source :: "int \<Rightarrow> jsstring \<Rightarrow> video_player \<Rightarrow> video_player" where
  "set_source now src s =
     (if src = vp_source s then s
      else s\<lparr>vp_source := src, vp_time := 0, vp_duration := 0, vp_progressAsked := True, vp_due := now + 5000\<rparr>)"

text \<open>
  New properties for a mounted player: the effects of the lesson run again; the initial value of
  \<open>playSource\<close> is not read again.
\<close>

definition switch_lesson :: "int \<Rightarrow> jsstring \<Rightarrow> jsstring \<Rightarrow> video_player \<Rightarrow> video_player" where
  "switch_lesson now lesson url s =
     (if lesson = vp_lesson s then s
      else s\<lparr>vp_lesson := lesson, vp_cacheAsked := True, vp_progressAsked := True, vp_due := now + 5000\<rparr>)"

definition save_position :: "int \<Rightarrow> rat \<Rightarrow> bool \<Rightarrow> video_player \<Rightarrow> video_player" where
  "save_position now pos ended s =
     (if now - vp_lastSaved s < 5000 \<and> \<not> ended then s
      else s\<lparr>vp_lastSaved := now,
             vp_sent := vp_sent s @ [\<lparr>pr_lesson = vp_lesson s, pr_position = \<lfloor>pos\<rfloor>, pr_ended = ended, pr_at = now\<rparr>]\<rparr>)"

definition at_end :: "video_player \<Rightarrow> bool" where
  "at_end s = (vp_duration s > 0 \<and> vp_time s \<ge> fl (vp_duration s - 1 / 2))"

definition player_tick :: "int \<Rightarrow> video_player \<Rightarrow> video_player" where
  "player_tick now s =
     (let s' = s\<lparr>vp_due := vp_due s + 5000\<rparr> in
      if at_end s \<and> \<not> vp_ended s then save_position now (vp_duration s) True (s'\<lparr>vp_ended := True\<rparr>)
      else save_position now (vp_time s) False s')"

datatype player_event =
    CacheAnswer int "jsstring option" \<comment> \<open>the local copy, and the time\<close>
  | ProgressAnswer "int option" \<comment> \<open>the position on record, \<open>None\<close> when the call failed\<close>
  | Moves rat rat
  | Ticks int

fun player_guard :: "video_player \<Rightarrow> player_event \<Rightarrow> bool" where
  "player_guard s (CacheAnswer now c) = (vp_cacheAsked s \<and> vp_lastSaved s \<le> now)"
| "player_guard s (ProgressAnswer p) = vp_progressAsked s"
| "player_guard s (Moves t d) = (0 \<le> t \<and> 0 \<le> d)"
| "player_guard s (Ticks now) = (vp_due s \<le> now \<and> vp_lastSaved s \<le> now)"

fun player_step :: "video_player \<Rightarrow> player_event \<Rightarrow> video_player" where
  "player_step s (CacheAnswer now c) =
     (let s' = s\<lparr>vp_cacheAsked := False\<rparr> in
      case c of None \<Rightarrow> s' | Some uri \<Rightarrow> if uri = [] then s' else set_source now uri s')"
| "player_step s (ProgressAnswer p) =
     (let s' = s\<lparr>vp_progressAsked := False, vp_ready := True\<rparr> in
      case p of None \<Rightarrow> s' | Some n \<Rightarrow> if n > 0 then s'\<lparr>vp_time := of_int n\<rparr> else s')"
| "player_step s (Moves t d) = s\<lparr>vp_time := t, vp_duration := d\<rparr>"
| "player_step s (Ticks now) = player_tick now s"

section \<open>The course screen\<close>

record phone_lesson =
  pl_id :: jsstring
  pl_video :: "jsstring option"

record phone_course =
  pc_loading :: bool
  pc_lessons :: "phone_lesson list"
  pc_assignments :: "jsstring list"
  pc_player :: "video_player option" \<comment> \<open>\<open>playing\<close>, with the player it mounts\<close>
  pc_drafts :: "jsstring \<rightharpoonup> jsstring"
  pc_submitting :: bool
  pc_calls :: "(jsstring \<times> jsstring) list"
  pc_sent :: "(jsstring \<times> jsstring) list"

definition phone_course0 :: phone_course where
  "phone_course0 = \<lparr>pc_loading = True, pc_lessons = [], pc_assignments = [], pc_player = None, pc_drafts = Map.empty,
     pc_submitting = False, pc_calls = [], pc_sent = []\<rparr>"

definition draft_of :: "jsstring \<Rightarrow> phone_course \<Rightarrow> jsstring" where
  "draft_of a s = (case pc_drafts s a of None \<Rightarrow> [] | Some t \<Rightarrow> t)"

definition watch_lesson :: "int \<Rightarrow> jsstring \<Rightarrow> jsstring \<Rightarrow> phone_course \<Rightarrow> phone_course" where
  "watch_lesson now i url s =
     s\<lparr>pc_player := Some (case pc_player s of None \<Rightarrow> mount_player now i url | Some p \<Rightarrow> switch_lesson now i url p)\<rparr>"

definition submit_draft :: "jsstring \<Rightarrow> phone_course \<Rightarrow> phone_course" where
  "submit_draft a s =
     (if trim (draft_of a s) = [] then s
      else s\<lparr>pc_submitting := True, pc_calls := pc_calls s @ [(a, draft_of a s)], pc_sent := pc_sent s @ [(a, draft_of a s)]\<rparr>)"

datatype phone_course_event =
    CourseLoaded "phone_lesson list" "jsstring list" | CourseLost
  | Watch int jsstring jsstring | ClosePlayer | InPlayer player_event
  | TypeDraft jsstring jsstring | SubmitDraft jsstring
  | DraftTaken jsstring jsstring | DraftLost jsstring jsstring

fun phone_course_guard :: "phone_course \<Rightarrow> phone_course_event \<Rightarrow> bool" where
  "phone_course_guard s (CourseLoaded ls xs) = pc_loading s"
| "phone_course_guard s CourseLost = pc_loading s"
| "phone_course_guard s (Watch now i url) = (\<not> pc_loading s \<and> url \<noteq> [] \<and> \<lparr>pl_id = i, pl_video = Some url\<rparr> \<in> set (pc_lessons s))"
| "phone_course_guard s ClosePlayer = (pc_player s \<noteq> None)"
| "phone_course_guard s (InPlayer e) = (case pc_player s of None \<Rightarrow> False | Some p \<Rightarrow> player_guard p e)"
| "phone_course_guard s (TypeDraft a t) = (\<not> pc_loading s \<and> a \<in> set (pc_assignments s))"
| "phone_course_guard s (SubmitDraft a) =
     (\<not> pc_loading s \<and> a \<in> set (pc_assignments s) \<and> \<not> pc_submitting s \<and> trim (draft_of a s) \<noteq> [])"
| "phone_course_guard s (DraftTaken a t) = ((a, t) \<in> set (pc_calls s))"
| "phone_course_guard s (DraftLost a t) = ((a, t) \<in> set (pc_calls s))"

fun phone_course_step :: "phone_course \<Rightarrow> phone_course_event \<Rightarrow> phone_course" where
  "phone_course_step s (CourseLoaded ls xs) = s\<lparr>pc_lessons := ls, pc_assignments := xs, pc_loading := False\<rparr>"
| "phone_course_step s CourseLost = s\<lparr>pc_loading := False\<rparr>"
| "phone_course_step s (Watch now i url) = watch_lesson now i url s"
| "phone_course_step s ClosePlayer = s\<lparr>pc_player := None\<rparr>"
| "phone_course_step s (InPlayer e) = s\<lparr>pc_player := map_option (\<lambda>p. player_step p e) (pc_player s)\<rparr>"
| "phone_course_step s (TypeDraft a t) = s\<lparr>pc_drafts := (pc_drafts s)(a \<mapsto> t)\<rparr>"
| "phone_course_step s (SubmitDraft a) = submit_draft a s"
| "phone_course_step s (DraftTaken a t) =
     s\<lparr>pc_calls := remove1 (a, t) (pc_calls s), pc_drafts := (pc_drafts s)(a \<mapsto> []), pc_submitting := False\<rparr>"
| "phone_course_step s (DraftLost a t) = s\<lparr>pc_calls := remove1 (a, t) (pc_calls s), pc_submitting := False\<rparr>"

section \<open>Reports of progress\<close>

text \<open>
  Every report that the end of a video did not force comes at least five seconds after the one
  before it.
\<close>

fun spaced :: "int \<Rightarrow> progress_report list \<Rightarrow> bool" where
  "spaced prev [] = True"
| "spaced prev (r # rs) = (prev \<le> pr_at r \<and> (pr_ended r \<or> prev + 5000 \<le> pr_at r) \<and> spaced (pr_at r) rs)"

definition last_report :: "progress_report list \<Rightarrow> int" where
  "last_report rs = (if rs = [] then 0 else pr_at (List.last rs))"

definition player_inv :: "video_player \<Rightarrow> bool" where
  "player_inv s =
     (spaced 0 (vp_sent s) \<and> vp_lastSaved s = last_report (vp_sent s) \<and> 0 \<le> vp_time s \<and> 0 \<le> vp_duration s \<and>
      list_all (\<lambda>r. 0 \<le> pr_position r) (vp_sent s) \<and>
      length (filter pr_ended (vp_sent s)) = (if vp_ended s then 1 else 0))"

lemma spaced_snoc:
  "spaced a (rs @ [r]) \<longleftrightarrow> spaced a rs \<and> (let b = (if rs = [] then a else pr_at (List.last rs)) in b \<le> pr_at r \<and> (pr_ended r \<or> b + 5000 \<le> pr_at r))"
  by (induction rs arbitrary: a) (auto simp: Let_def)

lemma save_inv:
  assumes "player_inv s" "vp_lastSaved s \<le> now" "0 \<le> pos"
    and "ended \<Longrightarrow> \<not> vp_ended s"
  shows "player_inv (save_position now pos ended (if ended then s\<lparr>vp_ended := True\<rparr> else s))"
proof (cases "now - vp_lastSaved s < 5000 \<and> \<not> ended")
  case True
  then show ?thesis using assms(1) by (simp add: save_position_def)
next
  case False
  then show ?thesis using assms
    by (cases ended) (auto simp: save_position_def player_inv_def spaced_snoc last_report_def Let_def)
qed

lemma player_frame:
  assumes "player_inv s" "vp_sent t = vp_sent s" "vp_lastSaved t = vp_lastSaved s" "vp_ended t = vp_ended s" "0 \<le> vp_time t" "0 \<le> vp_duration t"
  shows "player_inv t"
  using assms by (simp add: player_inv_def)

lemma player_inv_step:
  assumes "player_inv s" "player_guard s e"
  shows "player_inv (player_step s e)"
proof (cases e)
  case (Ticks now)
  let ?s = "s\<lparr>vp_due := vp_due s + 5000\<rparr>"
  have t: "0 \<le> vp_time s" "0 \<le> vp_duration s" using assms(1) by (simp_all add: player_inv_def)
  have i: "player_inv ?s" by (rule player_frame [OF assms(1)]) (use t in simp_all)
  show ?thesis
  proof (cases "at_end s \<and> \<not> vp_ended s")
    case True
    then show ?thesis using save_inv [OF i, of now "vp_duration s" True] assms(2) t Ticks by (simp add: player_tick_def Let_def)
  next
    case False
    have "player_tick now s = save_position now (vp_time s) False ?s" by (simp only: player_tick_def Let_def False if_False)
    then show ?thesis using save_inv [OF i, of now "vp_time s" False] assms(2) t Ticks by simp
  qed
next
  case (CacheAnswer now c)
  have "0 \<le> vp_time s" "0 \<le> vp_duration s" using assms(1) by (simp_all add: player_inv_def)
  then show ?thesis using CacheAnswer
    by (cases c) (auto simp: Let_def set_source_def intro!: player_frame [OF assms(1)])
next
  case (ProgressAnswer p)
  have "0 \<le> vp_time s" "0 \<le> vp_duration s" using assms(1) by (simp_all add: player_inv_def)
  then show ?thesis using ProgressAnswer
    by (cases p) (auto simp: Let_def intro!: player_frame [OF assms(1)])
next
  case (Moves t d)
  then show ?thesis using assms(2) by (auto intro!: player_frame [OF assms(1)])
qed

definition screen_inv :: "phone_course \<Rightarrow> bool" where
  "screen_inv s = (pred_option player_inv (pc_player s) \<and> length (pc_calls s) = (if pc_submitting s then 1 else 0) \<and>
     list_all (\<lambda>(a, t). trim t \<noteq> []) (pc_sent s))"

lemma switch_inv: "player_inv p \<Longrightarrow> player_inv (switch_lesson now i url p)"
  by (simp add: switch_lesson_def player_inv_def)

lemma mount_inv: "player_inv (mount_player now i url)"
  by (simp add: mount_player_def player_inv_def last_report_def)

lemma screen_inv_step:
  assumes "screen_inv s" "phone_course_guard s e"
  shows "screen_inv (phone_course_step s e)"
proof (cases e)
  case (Watch now i url)
  then show ?thesis using assms(1) by (cases "pc_player s") (simp_all add: screen_inv_def watch_lesson_def mount_inv switch_inv)
next
  case (InPlayer pe)
  then show ?thesis using assms player_inv_step by (cases "pc_player s") (auto simp: screen_inv_def)
next
  case (SubmitDraft a)
  then show ?thesis using assms by (simp add: screen_inv_def submit_draft_def)
next
  case (DraftTaken a t)
  then have "length (remove1 (a, t) (pc_calls s)) = 0" using assms by (auto simp: screen_inv_def length_remove1 split: if_splits)
  then show ?thesis using assms(1) DraftTaken by (simp add: screen_inv_def)
next
  case (DraftLost a t)
  then have "length (remove1 (a, t) (pc_calls s)) = 0" using assms by (auto simp: screen_inv_def length_remove1 split: if_splits)
  then show ?thesis using assms(1) DraftLost by (simp add: screen_inv_def)
qed (use assms(1) in \<open>simp_all add: screen_inv_def\<close>)

interpretation screen: bounded_machine "\<lambda>s. s = phone_course0" phone_course_guard phone_course_step screen_inv "\<lambda>s. length (pc_calls s)" 1
proof unfold_locales
  fix s assume "s = phone_course0"
  then show "screen_inv s" by (simp add: screen_inv_def phone_course0_def)
next
  fix s e assume "screen_inv s" "phone_course_guard s e"
  then show "screen_inv (phone_course_step s e)" by (rule screen_inv_step)
next
  fix s assume "screen_inv s"
  then show "length (pc_calls s) \<le> 1" by (simp add: screen_inv_def)
qed

text \<open>
  While a lesson plays, its progress is reported at most every five seconds, apart from the one
  report at its end; positions are never negative; one submission is under way at a time.
\<close>

theorem progress_throttled:
  assumes "reach (\<lambda>s. s = phone_course0) phone_course_guard phone_course_step s"
  shows "(case pc_player s of
      None \<Rightarrow> True
    | Some p \<Rightarrow> spaced 0 (vp_sent p) \<and> list_all (\<lambda>r. 0 \<le> pr_position r) (vp_sent p) \<and> length (filter pr_ended (vp_sent p)) \<le> 1) \<and>
    length (pc_calls s) \<le> 1"
  using screen.reach_inv [OF assms] screen.reach_load [OF assms]
  by (cases "pc_player s") (simp_all add: screen_inv_def player_inv_def)

definition two_lessons :: "phone_course_event list" where
  "two_lessons = [CourseLoaded [\<lparr>pl_id = ''l1'', pl_video = Some ''v1''\<rparr>, \<lparr>pl_id = ''l2'', pl_video = Some ''v2''\<rparr>] [''a''],
     Watch 10000 ''l1'' ''v1'', InPlayer (CacheAnswer 10010 None), InPlayer (ProgressAnswer (Some 40)), InPlayer (Moves 42 600),
     InPlayer (Ticks 15000), InPlayer (Moves (1199 / 2) 600), InPlayer (Ticks 20000)]"

theorem progress_throttled_witness:
  "case pc_player (run phone_course_step phone_course0 two_lessons) of
     None \<Rightarrow> False
   | Some p \<Rightarrow> spaced 0 (vp_sent p) \<and> map (\<lambda>r. (pr_lesson r, pr_position r)) (vp_sent p) = [(''l1'', 42), (''l1'', 600)]"
proof -
  let ?s = "run phone_course_step phone_course0 two_lessons"
  have a: "allowed phone_course_guard phone_course_step phone_course0 two_lessons" by code_simp
  have "case pc_player ?s of None \<Rightarrow> False | Some p \<Rightarrow> map (\<lambda>r. (pr_lesson r, pr_position r)) (vp_sent p) = [(''l1'', 42), (''l1'', 600)]" by code_simp
  then show ?thesis using progress_throttled [OF run_reachable [OF refl a]] by (cases "pc_player ?s") simp_all
qed

section \<open>What is recorded against whom\<close>

text \<open>
  C25. Another lesson chosen while one plays keeps the player and its source: the old video goes on,
  and its position is recorded as progress of the new lesson.
\<close>

theorem next_lesson_plays_old_video:
  assumes "\<not> pc_loading s" "pc_player s = Some p" "\<lparr>pl_id = i, pl_video = Some url\<rparr> \<in> set (pc_lessons s)" "url \<noteq> []" "i \<noteq> vp_lesson p"
    and "0 \<le> t" "0 \<le> d" "t < fl (d - 1 / 2)" "now + 5000 \<le> now2" "vp_lastSaved p \<le> now"
  shows "let events = [Watch now i url, InPlayer (CacheAnswer now None), InPlayer (Moves t d), InPlayer (Ticks now2)] in
    allowed phone_course_guard phone_course_step s events \<and>
    (case pc_player (run phone_course_step s events) of
       None \<Rightarrow> False
     | Some q \<Rightarrow> vp_source q = vp_source p \<and>
         vp_sent q = vp_sent p @ [\<lparr>pr_lesson = i, pr_position = \<lfloor>t\<rfloor>, pr_ended = False, pr_at = now2\<rparr>])"
proof -
  define q where "q = (switch_lesson now i url p)\<lparr>vp_cacheAsked := False, vp_time := t, vp_duration := d\<rparr>"
  have "\<not> at_end q" using assms(8) by (simp add: at_end_def q_def)
  then have tick: "player_tick now2 q = save_position now2 t False (q\<lparr>vp_due := vp_due q + 5000\<rparr>)"
    by (simp add: player_tick_def Let_def q_def)
  have run: "run phone_course_step s [Watch now i url, InPlayer (CacheAnswer now None), InPlayer (Moves t d)] = s\<lparr>pc_player := Some q\<rparr>"
    using assms(2) by (simp add: watch_lesson_def q_def)
  have "allowed phone_course_guard phone_course_step s [Watch now i url, InPlayer (CacheAnswer now None), InPlayer (Moves t d), InPlayer (Ticks now2)]"
    using assms by (simp add: watch_lesson_def switch_lesson_def)
  moreover have "run phone_course_step s [Watch now i url, InPlayer (CacheAnswer now None), InPlayer (Moves t d), InPlayer (Ticks now2)] =
      s\<lparr>pc_player := Some (player_tick now2 q)\<rparr>"
    using run by simp
  moreover have "vp_source (player_tick now2 q) = vp_source p \<and>
      vp_sent (player_tick now2 q) = vp_sent p @ [\<lparr>pr_lesson = i, pr_position = \<lfloor>t\<rfloor>, pr_ended = False, pr_at = now2\<rparr>]"
    unfolding tick using assms(5,9,10) by (simp add: save_position_def q_def switch_lesson_def)
  ultimately show ?thesis unfolding Let_def by simp
qed

theorem next_lesson_plays_old_video_witness:
  "let s = run phone_course_step phone_course0 (take 5 two_lessons);
       t = run phone_course_step s [Watch 12000 ''l2'' ''v2'', InPlayer (CacheAnswer 12000 None), InPlayer (Moves 45 600), InPlayer (Ticks 17000)] in
   case pc_player t of None \<Rightarrow> False
   | Some q \<Rightarrow> vp_source q = ''v1'' \<and> vp_sent q = [\<lparr>pr_lesson = ''l2'', pr_position = 45, pr_ended = False, pr_at = 17000\<rparr>]"
proof -
  let ?s = "run phone_course_step phone_course0 (take 5 two_lessons)"
  let ?p = "the (pc_player ?s)"
  have h: "\<not> pc_loading ?s" "pc_player ?s = Some ?p" "\<lparr>pl_id = ''l2'', pl_video = Some ''v2''\<rparr> \<in> set (pc_lessons ?s)" "''v2'' \<noteq> ([]::jsstring)"
    "''l2'' \<noteq> vp_lesson ?p" "(0::rat) \<le> 45" "(0::rat) \<le> 600" "45 < fl (600 - 1 / 2)" "12000 + 5000 \<le> (17000::int)" "vp_lastSaved ?p \<le> 12000"
    "vp_source ?p = ''v1''" "vp_sent ?p = []" by code_simp+
  show ?thesis using conjunct2 [OF next_lesson_plays_old_video [OF h(1-10), unfolded Let_def h(11,12)]]
    unfolding Let_def by (simp only: append_Nil floor_numeral)
qed

text \<open>
  The place on record is where the video starts, and the first report of an untouched player
  gives it back.
\<close>

theorem resume_roundtrip:
  assumes "vp_progressAsked s" "0 < n" "vp_duration s = 0" "vp_due s \<le> now" "vp_lastSaved s + 5000 \<le> now"
  shows "allowed player_guard player_step s [ProgressAnswer (Some n), Ticks now] \<and>
    vp_sent (run player_step s [ProgressAnswer (Some n), Ticks now]) =
      vp_sent s @ [\<lparr>pr_lesson = vp_lesson s, pr_position = n, pr_ended = False, pr_at = now\<rparr>]"
  using assms by (simp add: player_tick_def at_end_def save_position_def)

theorem resume_roundtrip_witness:
  "vp_sent (run player_step (mount_player 10000 ''l'' ''v'') [ProgressAnswer (Some 40), Ticks 15000]) =
     [\<lparr>pr_lesson = ''l'', pr_position = 40, pr_ended = False, pr_at = 15000\<rparr>]"
  using resume_roundtrip [of "mount_player 10000 ''l'' ''v''" 40 15000] by (simp add: mount_player_def)

text \<open>
  The reports do not wait for the place on record. When it takes five seconds to come, position
  0 and the mark watched are recorded over it, although nothing was played.
\<close>

theorem slow_answer_resets_progress:
  assumes "10000 \<le> now"
  shows "let p = mount_player now i url; q = run player_step p [Ticks (now + 5000)] in
    allowed player_guard player_step p [Ticks (now + 5000)] \<and> vp_progressAsked q \<and> \<not> vp_ready q \<and>
    vp_sent q = [\<lparr>pr_lesson = i, pr_position = 0, pr_ended = False, pr_at = now + 5000\<rparr>]"
  using assms by (simp add: mount_player_def player_tick_def at_end_def save_position_def)

theorem slow_answer_resets_progress_witness:
  "vp_sent (run player_step (mount_player 10000 ''l'' ''v'') [Ticks 15000]) = [\<lparr>pr_lesson = ''l'', pr_position = 0, pr_ended = False, pr_at = 15000\<rparr>]"
  using slow_answer_resets_progress [of 10000 "''l''" "''v''"] by (simp add: Let_def)

text \<open>What is typed while an answer is on its way is gone when it arrives.\<close>

theorem draft_typed_meanwhile_lost:
  assumes "phone_course_guard s (SubmitDraft a)"
  shows "let events = [SubmitDraft a, TypeDraft a t, DraftTaken a (draft_of a s)]; u = run phone_course_step s events in
    allowed phone_course_guard phone_course_step s events \<and> draft_of a u = [] \<and> pc_sent u = pc_sent s @ [(a, draft_of a s)]"
  using assms by (simp add: submit_draft_def draft_of_def)

theorem draft_typed_meanwhile_lost_witness:
  "let s = run phone_course_step phone_course0 [CourseLoaded [] [''a''], TypeDraft ''a'' ''one''];
       u = run phone_course_step s [SubmitDraft ''a'', TypeDraft ''a'' ''one two'', DraftTaken ''a'' ''one''] in
   draft_of ''a'' u = [] \<and> pc_sent u = [(''a'', ''one'')]"
proof -
  let ?s = "run phone_course_step phone_course0 [CourseLoaded [] [''a''], TypeDraft ''a'' ''one'']"
  have h: "phone_course_guard ?s (SubmitDraft ''a'')" "draft_of ''a'' ?s = ''one''" "pc_sent ?s = []" by code_simp+
  show ?thesis using draft_typed_meanwhile_lost [OF h(1), of "''one two''"] unfolding Let_def h(2,3) by simp
qed

end
