(* ===== verification/TutorApply.thy ===== *)
theory TutorApply
  imports Device Machine JsDecimal
begin

text \<open>
  The application of a tutor (\<open>client/features/vetting\<close> and
  \<open>client/app/(marketing)/become-tutor\<close>): the profile id kept in the browser, the guards of the
  five pages, and the steps, each a machine over its hooks, the calls in flight and a log of
  what was sent. A loop that awaits a call for each element keeps the elements that are left;
  the first of them is in flight.
\<close>

section \<open>Where the applicant is\<close>

definition ONBOARDING_KEY :: jsstring where "ONBOARDING_KEY = ''ykay-tutor-onboarding''"

text \<open>\<open>TutorOnboardingState\<close>; both fields are what the stored JSON holds.\<close>

record onboarding =
  ob_profileId :: json \<comment> \<open>\<open>JNull\<close> before there is a profile\<close>
  ob_step :: json

definition onboarding0 :: onboarding where
  "onboarding0 = \<lparr>ob_profileId = JNull, ob_step = JStr ''apply''\<rparr>"

definition readStored :: "device \<Rightarrow> onboarding" where
  "readStored d =
     (case readCache ONBOARDING_KEY d of
        None \<Rightarrow> onboarding0
      | Some v \<Rightarrow> \<lparr>ob_profileId = or_default (jget v ''profileId'') JNull, ob_step = or_default (jget v ''step'') (JStr ''apply'')\<rparr>)"

definition onboarding_json :: "onboarding \<Rightarrow> json" where
  "onboarding_json s = obj [(''profileId'', Some (ob_profileId s)), (''step'', Some (ob_step s))]"

definition save_onboarding :: "(onboarding \<Rightarrow> onboarding) \<Rightarrow> onboarding \<times> device \<Rightarrow> onboarding \<times> device" where
  "save_onboarding f sd = (let merged = f (fst sd) in (merged, writeCache ONBOARDING_KEY (onboarding_json merged) (snd sd)))"

definition reset_onboarding :: "onboarding \<times> device \<Rightarrow> onboarding \<times> device" where
  "reset_onboarding sd = (onboarding0, removeItem ONBOARDING_KEY (snd sd))"

datatype tutor_page = ApplyPage | SubjectsPage | DocumentsPage | AssessmentPage | StatusPage

definition page_path :: "tutor_page \<Rightarrow> jsstring" where
  "page_path p = ''/become-tutor/'' @ (case p of ApplyPage \<Rightarrow> ''apply'' | SubjectsPage \<Rightarrow> ''subjects'' | DocumentsPage \<Rightarrow> ''documents''
     | AssessmentPage \<Rightarrow> ''assessment'' | StatusPage \<Rightarrow> ''status'')"

definition needs_profile :: "tutor_page \<Rightarrow> bool" where
  "needs_profile p = (p \<noteq> ApplyPage \<and> p \<noteq> StatusPage)"

text \<open>The effect of a page: where it sends the visitor.\<close>

definition page_redirect :: "tutor_page \<Rightarrow> bool \<Rightarrow> bool \<Rightarrow> onboarding \<Rightarrow> jsstring option" where
  "page_redirect p isLoading signed_in s =
     (if isLoading then None
      else if \<not> signed_in then Some (''/login?next='' @ page_path p)
      else if needs_profile p \<and> \<not> truthy (ob_profileId s) then Some ''/become-tutor/apply''
      else None)"

definition page_content :: "tutor_page \<Rightarrow> bool \<Rightarrow> bool \<Rightarrow> onboarding \<Rightarrow> bool" where
  "page_content p isLoading signed_in s = (\<not> isLoading \<and> signed_in \<and> \<not> (needs_profile p \<and> \<not> truthy (ob_profileId s)))"

section \<open>Profile\<close>

record profile_form =
  pf_name :: jsstring
  pf_headline :: jsstring
  pf_bio :: jsstring
  pf_years :: rat
  pf_rate :: rat
  pf_online :: bool
  pf_inPerson :: bool

definition profile_form0 :: profile_form where
  "profile_form0 = \<lparr>pf_name = [], pf_headline = [], pf_bio = [], pf_years = 1, pf_rate = 5000, pf_online = True, pf_inPerson = False\<rparr>"

definition profile_issues :: "profile_form \<Rightarrow> jsstring list" where
  "profile_issues f =
     (if utf16_length (pf_name f) < 2 then [''Full name is required''] else []) @
     (if utf16_length (pf_headline f) < 5 then [''A short headline helps parents understand your style''] else []) @
     (if utf16_length (pf_bio f) < 30 then [''Tell parents a little more (min 30 characters)''] else []) @
     (if pf_years f < 1 then [''At least 1 year of teaching experience''] else []) @
     (if pf_rate f \<le> 0 then [''Enter your hourly rate''] else [])"

record profile_step =
  ps_form :: profile_form
  ps_error :: "jsstring option" \<comment> \<open>the only message that is shown\<close>
  ps_submitting :: bool
  ps_calls :: "profile_form list"
  ps_sent :: "profile_form list"
  ps_created :: "jsstring list"

definition profile_step0 :: profile_step where
  "profile_step0 = \<lparr>ps_form = profile_form0, ps_error = None, ps_submitting = False, ps_calls = [], ps_sent = [], ps_created = []\<rparr>"

text \<open>
  \<open>handleSubmit\<close>: the validator's text goes to the errors of the form, which nothing shows. The
  bounds of the number inputs are the browser's.
\<close>

definition submit_profile :: "profile_step \<Rightarrow> profile_step" where
  "submit_profile s =
     (if profile_issues (ps_form s) \<noteq> [] then s
      else s\<lparr>ps_submitting := True, ps_error := None, ps_calls := ps_calls s @ [ps_form s], ps_sent := ps_sent s @ [ps_form s]\<rparr>)"

datatype profile_event = EditProfile profile_form | SubmitProfile | ProfileMade profile_form jsstring | ProfileLost profile_form js_exn

fun profile_guard :: "profile_step \<Rightarrow> profile_event \<Rightarrow> bool" where
  "profile_guard s (EditProfile f) = True"
| "profile_guard s SubmitProfile = (\<not> ps_submitting s \<and> 1 \<le> pf_years (ps_form s) \<and> 1000 \<le> pf_rate (ps_form s))"
| "profile_guard s (ProfileMade f i) = (f \<in> set (ps_calls s))"
| "profile_guard s (ProfileLost f e) = (f \<in> set (ps_calls s))"

fun profile_next :: "profile_step \<Rightarrow> profile_event \<Rightarrow> profile_step" where
  "profile_next s (EditProfile f) = s\<lparr>ps_form := f\<rparr>"
| "profile_next s SubmitProfile = submit_profile s"
| "profile_next s (ProfileMade f i) = s\<lparr>ps_calls := remove1 f (ps_calls s), ps_created := ps_created s @ [i], ps_submitting := False\<rparr>"
| "profile_next s (ProfileLost f e) = s\<lparr>ps_calls := remove1 f (ps_calls s), ps_error := Some (message_or ''Could not create profile'' e), ps_submitting := False\<rparr>"

section \<open>Subjects\<close>

record subjects_step =
  su_catalogue :: "(jsstring \<times> jsstring) list" \<comment> \<open>ids and names\<close>
  su_query :: jsstring
  su_selected :: "jsstring list" \<comment> \<open>the \<open>Set\<close>, in order of insertion\<close>
  su_left :: "jsstring list" \<comment> \<open>what the loop has still to save; \<open>saving\<close> while there is some\<close>
  su_error :: "jsstring option"
  su_sent :: "jsstring list"
  su_saved :: "jsstring list"
  su_next :: nat

definition subjects_step0 :: subjects_step where
  "subjects_step0 = \<lparr>su_catalogue = [], su_query = [], su_selected = [], su_left = [], su_error = None, su_sent = [], su_saved = [], su_next = 0\<rparr>"

definition subjects_shown :: "subjects_step \<Rightarrow> (jsstring \<times> jsstring) list" where
  "subjects_shown s = filter (\<lambda>(i, name). trim (su_query s) = [] \<or> str_includes (to_lower name) (to_lower (trim (su_query s)))) (su_catalogue s)"

definition toggle_subject :: "jsstring \<Rightarrow> subjects_step \<Rightarrow> subjects_step" where
  "toggle_subject i s = s\<lparr>su_selected := (if i \<in> set (su_selected s) then remove1 i (su_selected s) else su_selected s @ [i])\<rparr>"

definition save_subjects :: "subjects_step \<Rightarrow> subjects_step" where
  "save_subjects s = s\<lparr>su_left := su_selected s, su_error := None, su_sent := su_sent s @ [hd (su_selected s)]\<rparr>"

definition subject_saved :: "subjects_step \<Rightarrow> subjects_step" where
  "subject_saved s =
     (let rest = tl (su_left s); s' = s\<lparr>su_saved := su_saved s @ [hd (su_left s)], su_left := rest\<rparr> in
      if rest = [] then s'\<lparr>su_next := su_next s + 1\<rparr> else s'\<lparr>su_sent := su_sent s @ [hd rest]\<rparr>)"

definition subject_lost :: "js_exn \<Rightarrow> subjects_step \<Rightarrow> subjects_step" where
  "subject_lost e s = s\<lparr>su_left := [], su_error := Some (message_or ''Could not save subjects'' e)\<rparr>"

datatype subjects_event =
    Catalogue "(jsstring \<times> jsstring) list" | SearchSubjects jsstring | ToggleSubject jsstring | SaveSubjects | SubjectSaved | SubjectLost js_exn

definition subjects_view :: "subjects_step \<Rightarrow> subjects_event widget list" where
  "subjects_view s =
     map (\<lambda>x. Btn (snd x) True (ToggleSubject (fst x))) (subjects_shown s) @
     [Btn (if su_left s \<noteq> [] then ''Saving'' @ ellipsis
           else ''Continue with '' @ show_nat (length (su_selected s)) @ '' subject'' @ (if length (su_selected s) = 1 then [] else ''s''))
        (su_left s = [] \<and> su_selected s \<noteq> []) SaveSubjects]"

fun subjects_guard :: "subjects_step \<Rightarrow> subjects_event \<Rightarrow> bool" where
  "subjects_guard s (Catalogue xs) = True"
| "subjects_guard s (SearchSubjects v) = True"
| "subjects_guard s SubjectSaved = (su_left s \<noteq> [])"
| "subjects_guard s (SubjectLost e) = (su_left s \<noteq> [])"
| "subjects_guard s e = (e \<in> set (offered (subjects_view s)))"

fun subjects_next :: "subjects_step \<Rightarrow> subjects_event \<Rightarrow> subjects_step" where
  "subjects_next s (Catalogue xs) = s\<lparr>su_catalogue := xs\<rparr>"
| "subjects_next s (SearchSubjects v) = s\<lparr>su_query := v\<rparr>"
| "subjects_next s (ToggleSubject i) = toggle_subject i s"
| "subjects_next s SaveSubjects = save_subjects s"
| "subjects_next s SubjectSaved = subject_saved s"
| "subjects_next s (SubjectLost e) = subject_lost e s"

section \<open>Documents\<close>

record upload_file =
  uf_name :: jsstring
  uf_size :: nat
  uf_type :: jsstring

datatype document_call =
    RequestUpload jsstring jsstring nat \<comment> \<open>name, type, size\<close>
  | PutFile jsstring jsstring jsstring \<comment> \<open>target, type, name\<close>

record documents_step =
  dc_files :: "upload_file list"
  dc_left :: "upload_file list"
  dc_putting :: bool \<comment> \<open>the first file left is being put, not announced\<close>
  dc_error :: "jsstring option"
  dc_open :: bool
  dc_sent :: "document_call list"
  dc_stored :: "upload_file list"
  dc_next :: nat

definition documents_step0 :: documents_step where
  "documents_step0 = \<lparr>dc_files = [], dc_left = [], dc_putting = False, dc_error = None, dc_open = False, dc_sent = [], dc_stored = [], dc_next = 0\<rparr>"

text \<open>The uploader's \<open>addFiles\<close>: at most three, none of the same name and size.\<close>

fun add_files :: "nat \<Rightarrow> upload_file list \<Rightarrow> upload_file list \<Rightarrow> upload_file list" where
  "add_files m next [] = next"
| "add_files m next (f # fs) =
     (if m \<le> length next then next
      else add_files m (if list_ex (\<lambda>x. uf_name x = uf_name f \<and> uf_size x = uf_size f) next then next else next @ [f]) fs)"

definition mime_of :: "upload_file \<Rightarrow> jsstring" where
  "mime_of f = (if uf_type f \<noteq> [] then uf_type f else ''application/octet-stream'')"

text \<open>\<open>parse\<close> is \<open>new URL(u)\<close>: protocol, path and search, \<open>None\<close> when it raises.\<close>

definition upload_target :: "(jsstring \<Rightarrow> (jsstring \<times> jsstring \<times> jsstring) option) \<Rightarrow> jsstring \<Rightarrow> jsstring" where
  "upload_target parse u =
     (case parse u of
        None \<Rightarrow> u
      | Some (protocol, path, search) \<Rightarrow> if protocol \<noteq> ''https:'' \<and> take 9 path = ''/objects/'' then path @ search else u)"

definition announce :: "upload_file \<Rightarrow> document_call" where
  "announce f = RequestUpload (uf_name f) (mime_of f) (uf_size f)"

definition upload_documents :: "documents_step \<Rightarrow> documents_step" where
  "upload_documents s =
     (if dc_files s = [] then s\<lparr>dc_error := Some ''Choose at least one ID document first''\<rparr>
      else s\<lparr>dc_left := dc_files s, dc_putting := False, dc_error := None, dc_sent := dc_sent s @ [announce (hd (dc_files s))]\<rparr>)"

definition documents_fail :: "jsstring \<Rightarrow> documents_step \<Rightarrow> documents_step" where
  "documents_fail m s = s\<lparr>dc_left := [], dc_putting := False, dc_error := Some m\<rparr>"

definition upload_ready :: "(jsstring \<Rightarrow> (jsstring \<times> jsstring \<times> jsstring) option) \<Rightarrow> jsstring \<Rightarrow> documents_step \<Rightarrow> documents_step" where
  "upload_ready parse u s =
     (if u = [] then documents_fail ''Upload URL was not generated'' s
      else let f = hd (dc_left s) in s\<lparr>dc_putting := True, dc_sent := dc_sent s @ [PutFile (upload_target parse u) (mime_of f) (uf_name f)]\<rparr>)"

definition file_put :: "bool \<Rightarrow> documents_step \<Rightarrow> documents_step" where
  "file_put ok s =
     (let f = hd (dc_left s); rest = tl (dc_left s); s' = s\<lparr>dc_stored := dc_stored s @ [f], dc_left := rest, dc_putting := False\<rparr> in
      if \<not> ok then documents_fail (''Upload failed for '' @ uf_name f) s
      else if rest = [] then s'\<lparr>dc_open := False, dc_next := dc_next s + 1\<rparr>
      else s'\<lparr>dc_sent := dc_sent s @ [announce (hd rest)]\<rparr>)"

datatype documents_event =
    AddFiles "upload_file list" | DropFile upload_file | OpenConfirm | CloseConfirm | ConfirmUpload
  | UploadReady jsstring | FilePut bool | DocumentLost js_exn

fun documents_guard :: "documents_step \<Rightarrow> documents_event \<Rightarrow> bool" where
  "documents_guard s (AddFiles fs) = (\<not> dc_open s)"
| "documents_guard s (DropFile f) = (\<not> dc_open s \<and> f \<in> set (dc_files s))"
| "documents_guard s OpenConfirm = (\<not> dc_open s \<and> dc_files s \<noteq> [])"
| "documents_guard s CloseConfirm = dc_open s"
| "documents_guard s ConfirmUpload = (dc_open s \<and> dc_left s = [])"
| "documents_guard s (UploadReady u) = (dc_left s \<noteq> [] \<and> \<not> dc_putting s)"
| "documents_guard s (FilePut ok) = (dc_left s \<noteq> [] \<and> dc_putting s)"
| "documents_guard s (DocumentLost e) = (dc_left s \<noteq> [])"

fun documents_event_step :: "(jsstring \<Rightarrow> (jsstring \<times> jsstring \<times> jsstring) option) \<Rightarrow> documents_step \<Rightarrow> documents_event \<Rightarrow> documents_step" where
  "documents_event_step parse s (AddFiles fs) = s\<lparr>dc_files := add_files 3 (dc_files s) fs, dc_error := None\<rparr>"
| "documents_event_step parse s (DropFile f) = s\<lparr>dc_files := filter (\<lambda>x. x \<noteq> f) (dc_files s), dc_error := None\<rparr>"
| "documents_event_step parse s OpenConfirm = s\<lparr>dc_open := True\<rparr>"
| "documents_event_step parse s CloseConfirm = s\<lparr>dc_open := False\<rparr>"
| "documents_event_step parse s ConfirmUpload = upload_documents s"
| "documents_event_step parse s (UploadReady u) = upload_ready parse u s"
| "documents_event_step parse s (FilePut ok) = file_put ok s"
| "documents_event_step parse s (DocumentLost e) = documents_fail (message_or ''Upload failed'' e) s"

section \<open>Competency quiz\<close>

record quiz_question =
  vq_id :: jsstring
  vq_options :: "jsstring list"

record quiz_attempt =
  va_id :: jsstring
  va_questions :: "quiz_question list"

datatype quiz_call = StartQuiz jsstring | SendQuiz jsstring "(jsstring \<times> nat) list"

record quiz_step =
  qz_subjects :: "jsstring list"
  qz_attempt :: "quiz_attempt option"
  qz_answers :: "(jsstring \<times> nat) list"
  qz_result :: "bool option" \<comment> \<open>\<open>passed\<close>\<close>
  qz_busy :: bool
  qz_error :: "jsstring option"
  qz_calls :: "quiz_call list"
  qz_sent :: "quiz_call list"

definition quiz_step0 :: quiz_step where
  "quiz_step0 = \<lparr>qz_subjects = [], qz_attempt = None, qz_answers = [], qz_result = None, qz_busy = False, qz_error = None, qz_calls = [], qz_sent = []\<rparr>"

definition quiz_inputs :: "quiz_attempt \<Rightarrow> (jsstring \<times> nat) list \<Rightarrow> (jsstring \<times> nat) list" where
  "quiz_inputs a ans = map (\<lambda>q. (vq_id q, case map_of ans (vq_id q) of Some i \<Rightarrow> i | None \<Rightarrow> 0)) (va_questions a)"

definition qz_call :: "quiz_call \<Rightarrow> quiz_step \<Rightarrow> quiz_step" where
  "qz_call c s = s\<lparr>qz_busy := True, qz_error := None, qz_calls := qz_calls s @ [c], qz_sent := qz_sent s @ [c]\<rparr>"

definition submit_quiz :: "quiz_step \<Rightarrow> quiz_step" where
  "submit_quiz s = (case qz_attempt s of None \<Rightarrow> s | Some a \<Rightarrow> qz_call (SendQuiz (va_id a) (quiz_inputs a (qz_answers s))) s)"

definition quiz_settled :: "quiz_call \<Rightarrow> quiz_step \<Rightarrow> quiz_step" where
  "quiz_settled c s = s\<lparr>qz_calls := remove1 c (qz_calls s), qz_busy := False\<rparr>"

fun quiz_error :: "quiz_call \<Rightarrow> jsstring" where
  "quiz_error (StartQuiz i) = ''Could not start quiz''"
| "quiz_error (SendQuiz i xs) = ''Could not submit quiz''"

datatype quiz_event =
    SubjectsKnown "jsstring list" | Begin jsstring | Begun jsstring quiz_attempt | Choose jsstring nat | Send
  | Marked jsstring "(jsstring \<times> nat) list" bool | QuizLost quiz_call js_exn

definition quiz_view :: "quiz_step \<Rightarrow> quiz_event widget list" where
  "quiz_view s =
     (case (qz_result s, qz_attempt s) of
        (Some p, _) \<Rightarrow> [Txt (if p then ''You passed!'' else ''Not quite this time'')]
      | (None, Some a) \<Rightarrow>
          concat (map (\<lambda>q. map (\<lambda>i. Btn (vq_options q ! i) True (Choose (vq_id q) i)) [0..<length (vq_options q)]) (va_questions a)) @
          [Btn (if qz_busy s then ''Submitting'' @ ellipsis else ''Submit answers'')
             (\<not> (qz_busy s \<or> length (qz_answers s) < length (va_questions a))) Send]
      | (None, None) \<Rightarrow> map (\<lambda>i. Btn i (\<not> qz_busy s) (Begin i)) (qz_subjects s))"

fun quiz_guard :: "quiz_step \<Rightarrow> quiz_event \<Rightarrow> bool" where
  "quiz_guard s (SubjectsKnown xs) = True"
| "quiz_guard s (Begun i a) = (StartQuiz i \<in> set (qz_calls s))"
| "quiz_guard s (Marked i xs p) = (SendQuiz i xs \<in> set (qz_calls s))"
| "quiz_guard s (QuizLost c e) = (c \<in> set (qz_calls s))"
| "quiz_guard s e = (e \<in> set (offered (quiz_view s)))"

fun quiz_next :: "quiz_step \<Rightarrow> quiz_event \<Rightarrow> quiz_step" where
  "quiz_next s (SubjectsKnown xs) = s\<lparr>qz_subjects := xs\<rparr>"
| "quiz_next s (Begin i) = qz_call (StartQuiz i) s"
| "quiz_next s (Begun i a) = (quiz_settled (StartQuiz i) s)\<lparr>qz_attempt := Some a\<rparr>"
| "quiz_next s (Choose q i) = s\<lparr>qz_answers := put_answer q i (qz_answers s)\<rparr>"
| "quiz_next s Send = submit_quiz s"
| "quiz_next s (Marked i xs p) = (quiz_settled (SendQuiz i xs) s)\<lparr>qz_result := Some p\<rparr>"
| "quiz_next s (QuizLost c e) = (quiz_settled c s)\<lparr>qz_error := Some (message_or (quiz_error c) e)\<rparr>"

section \<open>Status\<close>

record vetting_profile =
  vp_id :: jsstring
  vp_status :: jsstring

text \<open>\<open>SubmittedState\<close>: the title; a status that is not in the table stands for itself.\<close>

definition status_label :: "jsstring \<Rightarrow> jsstring" where
  "status_label st =
     (case map_of [(''DRAFT'', ''Draft''), (''SUBMITTED'', ''Submitted''), (''UNDER_REVIEW'', ''Under review''),
        (''INTERVIEW'', ''Interview scheduled''), (''VERIFICATION'', ''Verification''), (''APPROVED'', ''Approved''),
        (''REJECTED'', ''Not approved''), (''HOLD'', ''On hold''), (''SUSPENDED'', ''Suspended'')] st of
        Some l \<Rightarrow> l | None \<Rightarrow> st)"

text \<open>The profile id that the status page submits for review, when it offers the button.\<close>

definition review_offer :: "onboarding \<Rightarrow> vetting_profile option \<Rightarrow> bool \<Rightarrow> json option" where
  "review_offer s profile pending =
     (case profile of
        None \<Rightarrow> None
      | Some p \<Rightarrow> if vp_status p = ''DRAFT'' \<and> truthy (ob_profileId s) \<and> \<not> pending then Some (ob_profileId s) else None)"

section \<open>The way through the pages\<close>

text \<open>What is saved is read back on the next page.\<close>

theorem onboarding_roundtrip:
  assumes "readable d" "writable d" "ob_step (f s) \<noteq> JNull"
  shows "readStored (snd (save_onboarding f (s, d))) = f s"
proof -
  have "onboarding_json (f s) \<noteq> JNull" by (simp add: onboarding_json_def obj_def)
  moreover have "jget (onboarding_json (f s)) ''profileId'' = Some (ob_profileId (f s))" "jget (onboarding_json (f s)) ''step'' = Some (ob_step (f s))"
    by (simp_all add: onboarding_json_def jget_obj)
  ultimately show ?thesis using assms by (simp add: readStored_def save_onboarding_def Let_def or_default_def nullish_def)
qed

theorem onboarding_roundtrip_witness:
  "readStored (snd (save_onboarding (\<lambda>s. s\<lparr>ob_profileId := JStr ''p1'', ob_step := JStr ''subjects''\<rparr>) (onboarding0, device0))) =
     \<lparr>ob_profileId = JStr ''p1'', ob_step = JStr ''subjects''\<rparr>"
  using onboarding_roundtrip [of device0 "\<lambda>s. s\<lparr>ob_profileId := JStr ''p1'', ob_step := JStr ''subjects''\<rparr>" onboarding0]
  by (simp add: device0_def onboarding0_def)

text \<open>
  A page shows its step exactly when it sends nobody away, and a visitor sent to the first
  page stays there.
\<close>

theorem guards_settle:
  "page_content p l u s = (\<not> l \<and> page_redirect p l u s = None) \<and>
   (if u \<and> page_redirect p l u s \<noteq> None then page_redirect p l u s = Some (page_path ApplyPage) \<and> page_redirect ApplyPage l u s = None else True)"
  by (auto simp: page_content_def page_redirect_def needs_profile_def page_path_def)

section \<open>Profiles\<close>

definition profile_inv :: "profile_step \<Rightarrow> bool" where
  "profile_inv s = (length (ps_calls s) = (if ps_submitting s then 1 else 0) \<and>
     list_all (\<lambda>f. profile_issues f = [] \<and> 1000 \<le> pf_rate f) (ps_sent s))"

lemma profile_inv_step: "profile_inv s \<Longrightarrow> profile_guard s e \<Longrightarrow> profile_inv (profile_next s e)"
  by (cases e) (auto simp: profile_inv_def submit_profile_def length_remove1 split: if_splits)

interpretation profile: bounded_machine "\<lambda>s. s = profile_step0" profile_guard profile_next profile_inv "\<lambda>s. length (ps_calls s)" 1
proof unfold_locales
  fix s assume "s = profile_step0"
  then show "profile_inv s" by (simp add: profile_inv_def profile_step0_def)
next
  fix s e assume "profile_inv s" "profile_guard s e"
  then show "profile_inv (profile_next s e)" by (rule profile_inv_step)
next
  fix s assume "profile_inv s"
  then show "length (ps_calls s) \<le> 1" by (simp add: profile_inv_def)
qed

definition some_form :: profile_form where
  "some_form = \<lparr>pf_name = ''Ada'', pf_headline = ''Maths'', pf_bio = ''I have taught sums for many years.'', pf_years = 5, pf_rate = 4000,
     pf_online = False, pf_inPerson = False\<rparr>"

text \<open>A profile is sent with every check passed, one at a time.\<close>

theorem profiles_checked:
  assumes "reach (\<lambda>s. s = profile_step0) profile_guard profile_next s"
  shows "list_all (\<lambda>f. profile_issues f = [] \<and> 1000 \<le> pf_rate f) (ps_sent s) \<and> length (ps_calls s) \<le> 1"
  using profile.reach_inv [OF assms] profile.reach_load [OF assms] by (simp add: profile_inv_def)

theorem profiles_checked_witness:
  "let s = run profile_next profile_step0 [EditProfile some_form, SubmitProfile] in
   ps_sent s = [some_form] \<and> list_all (\<lambda>f. profile_issues f = [] \<and> 1000 \<le> pf_rate f) (ps_sent s)"
proof -
  have a: "allowed profile_guard profile_next profile_step0 [EditProfile some_form, SubmitProfile]"
    and s: "ps_sent (run profile_next profile_step0 [EditProfile some_form, SubmitProfile]) = [some_form]" by code_simp+
  show ?thesis using profiles_checked [OF run_reachable [OF refl a]] s unfolding Let_def by blast
qed

text \<open>
  A profile with issues is not sent and no message says so; who teaches neither online nor in
  person has no issue for that.
\<close>

theorem rejected_profile_silent:
  "profile_issues (f\<lparr>pf_online := a, pf_inPerson := b\<rparr>) = profile_issues f \<and>
   (if profile_issues (ps_form s) = [] then True else profile_next s SubmitProfile = s)"
  by (simp add: profile_issues_def submit_profile_def)

section \<open>Subjects are saved in order\<close>

lemma saving_run:
  assumes "su_left s = xs" "xs \<noteq> []"
  shows "allowed subjects_guard subjects_next s (replicate (length xs) SubjectSaved) \<and>
    run subjects_next s (replicate (length xs) SubjectSaved) =
      s\<lparr>su_left := [], su_sent := su_sent s @ tl xs, su_saved := su_saved s @ xs, su_next := su_next s + 1\<rparr>"
  using assms
proof (induction xs arbitrary: s)
  case Nil
  then show ?case by simp
next
  case (Cons x xs)
  show ?case
  proof (cases xs)
    case Nil
    then show ?thesis using Cons.prems by (simp add: subject_saved_def Let_def)
  next
    case (Cons y ys)
    let ?t = "subject_saved s"
    have t: "?t = s\<lparr>su_left := xs, su_sent := su_sent s @ [y], su_saved := su_saved s @ [x]\<rparr>"
      using Cons.prems(1) Cons by (simp add: subject_saved_def Let_def)
    have left: "su_left ?t = xs" by (simp add: t)
    have ne: "xs \<noteq> []" using Cons by simp
    from Cons.IH [OF left ne] show ?thesis using Cons.prems(1) Cons by (simp add: t)
  qed
qed

lemma saving_prefix:
  assumes "su_left s = xs @ y # ys"
  shows "allowed subjects_guard subjects_next s (replicate (length xs) SubjectSaved) \<and>
    run subjects_next s (replicate (length xs) SubjectSaved) =
      s\<lparr>su_left := y # ys, su_sent := su_sent s @ tl (xs @ [y]), su_saved := su_saved s @ xs\<rparr>"
  using assms
proof (induction xs arbitrary: s)
  case Nil
  then show ?case by simp
next
  case (Cons x xs)
  let ?t = "subject_saved s" and ?h = "hd (xs @ [y])"
  have t: "?t = s\<lparr>su_left := xs @ y # ys, su_sent := su_sent s @ [?h], su_saved := su_saved s @ [x]\<rparr>"
    using Cons.prems by (cases xs) (simp_all add: subject_saved_def Let_def)
  have "su_left ?t = xs @ y # ys" by (simp add: t)
  from Cons.IH [OF this] show ?case using Cons.prems by (cases xs) (simp_all add: t)
qed

lemma save_offered: "su_left s = [] \<Longrightarrow> su_selected s \<noteq> [] \<Longrightarrow> SaveSubjects \<in> set (offered (subjects_view s))"
  by (simp add: subjects_view_def)

text \<open>
  While the loop runs, the catalogue may be read again and the applicant may search and toggle.
\<close>

fun undisturbed :: "subjects_event \<Rightarrow> bool" where
  "undisturbed SaveSubjects = False"
| "undisturbed (SubjectLost e) = False"
| "undisturbed e = True"

definition answers :: "subjects_event list \<Rightarrow> nat" where
  "answers evs = length (filter (\<lambda>e. e = SubjectSaved) evs)"

lemma saving_steps:
  assumes "allowed subjects_guard subjects_next s evs" "list_all undisturbed evs" "su_left s = xs"
  shows "answers evs \<le> length xs \<and> su_left (run subjects_next s evs) = drop (answers evs) xs \<and>
    su_saved (run subjects_next s evs) = su_saved s @ take (answers evs) xs \<and>
    su_sent (run subjects_next s evs) = su_sent s @ take (answers evs) (tl xs) \<and>
    su_next (run subjects_next s evs) = su_next s + (if answers evs \<noteq> 0 \<and> answers evs = length xs then 1 else 0)"
  using assms
proof (induction evs arbitrary: s xs)
  case Nil
  then show ?case by (simp add: answers_def)
next
  case (Cons e evs)
  show ?case
  proof (cases "e = SubjectSaved")
    case True
    with Cons.prems obtain x ys where xs: "xs = x # ys" by (cases xs) auto
    let ?t = "subject_saved s"
    have t: "su_left ?t = ys" "su_saved ?t = su_saved s @ [x]" "su_sent ?t = su_sent s @ take 1 ys"
        "su_next ?t = su_next s + (if ys = [] then 1 else 0)"
      using Cons.prems(3) by (cases ys; simp add: subject_saved_def Let_def xs)+
    have a: "answers (e # evs) = Suc (answers evs)" using True by (simp add: answers_def)
    have "allowed subjects_guard subjects_next ?t evs" "list_all undisturbed evs" using Cons.prems(1,2) True by simp_all
    from Cons.IH [OF this t(1)] show ?thesis
      using True t by (cases ys) (auto simp: a [unfolded True] xs)
  next
    case False
    then have a: "answers (e # evs) = answers evs" by (simp add: answers_def)
    have "su_left (subjects_next s e) = xs" "su_saved (subjects_next s e) = su_saved s" "su_sent (subjects_next s e) = su_sent s"
        "su_next (subjects_next s e) = su_next s"
      using Cons.prems(2,3) False by (cases e; simp add: toggle_subject_def)+
    with Cons.IH [of "subjects_next s e" xs] Cons.prems(1,2) show ?thesis by (simp add: a)
  qed
qed

text \<open>
  C15. From one click until the loop ends or a call fails, the subjects that were chosen at the click
  are sent one after the other, in the order of choosing and once each, whatever the applicant
  toggles or searches meanwhile: after \<open>k\<close> answers exactly the first \<open>k\<close> are saved and exactly
  one more is asked for; the next step is opened with the last answer, once. And nothing holds the
  loop back: when every call succeeds the run to the end is possible. What a failure does to the
  subjects that were saved before it is said below.
\<close>

theorem subjects_saved_in_order:
  assumes "su_left s = []" "su_selected s \<noteq> []"
  shows "(let events = SaveSubjects # replicate (length (su_selected s)) SubjectSaved; t = run subjects_next s events in
      allowed subjects_guard subjects_next s events \<and> su_sent t = su_sent s @ su_selected s \<and> su_saved t = su_saved s @ su_selected s \<and>
      su_next t = su_next s + 1 \<and> su_left t = []) \<and>
    (if allowed subjects_guard subjects_next s (SaveSubjects # evs) \<and> list_all undisturbed evs
     then let k = answers evs; t = run subjects_next s (SaveSubjects # evs) in
       k \<le> length (su_selected s) \<and> su_saved t = su_saved s @ take k (su_selected s) \<and>
       su_sent t = su_sent s @ take (k + 1) (su_selected s) \<and> su_left t = drop k (su_selected s) \<and>
       su_next t = su_next s + (if k = length (su_selected s) then 1 else 0)
     else True)"
proof -
  let ?t = "save_subjects s"
  have t: "su_left ?t = su_selected s" "su_sent ?t = su_sent s @ [hd (su_selected s)]" "su_saved ?t = su_saved s" "su_next ?t = su_next s"
    by (simp_all add: save_subjects_def)
  have one: "let events = SaveSubjects # replicate (length (su_selected s)) SubjectSaved; t = run subjects_next s events in
      allowed subjects_guard subjects_next s events \<and> su_sent t = su_sent s @ su_selected s \<and> su_saved t = su_saved s @ su_selected s \<and>
      su_next t = su_next s + 1 \<and> su_left t = []"
    using saving_run [OF t(1) assms(2)] save_offered [OF assms] assms(2) t unfolding Let_def by (simp add: save_subjects_def)
  obtain x xs where sel: "su_selected s = x # xs" using assms(2) by (cases "su_selected s") auto
  show ?thesis using one saving_steps [of ?t evs "su_selected s"] t
    unfolding Let_def by (simp add: sel)
qed

definition two_chosen :: "subjects_event list" where
  "two_chosen = [Catalogue [(''s1'', ''Physics''), (''s2'', ''Maths'')], ToggleSubject ''s2'', ToggleSubject ''s1'']"

text \<open>A run in which a subject is dropped and another added while the loop saves the first two.\<close>

theorem subjects_saved_in_order_witness:
  "let t = run subjects_next subjects_step0 (two_chosen @ [SaveSubjects, ToggleSubject ''s1'', SubjectSaved, SearchSubjects ''ph'', SubjectSaved]) in
   su_saved t = [''s2'', ''s1''] \<and> su_next t = 1"
proof -
  let ?s = "run subjects_next subjects_step0 two_chosen" and ?e = "[ToggleSubject ''s1'', SubjectSaved, SearchSubjects ''ph'', SubjectSaved]"
  have h: "su_left ?s = []" "su_selected ?s \<noteq> []" "su_selected ?s = [''s2'', ''s1'']" "su_saved ?s = []" "su_next ?s = 0"
    "allowed subjects_guard subjects_next ?s (SaveSubjects # ?e)" "list_all undisturbed ?e" "answers ?e = 2" by code_simp+
  show ?thesis using conjunct2 [OF subjects_saved_in_order [OF h(1,2), of ?e]]
    unfolding if_P [OF conjI [OF h(6,7)]] Let_def run_append h(3-5) h(8) by (simp del: run.simps)
qed

text \<open>
  After a failure the next click starts over: the subjects that were saved already are sent
  again.
\<close>

theorem retry_resends_saved_subjects:
  assumes "su_left s = []" "su_selected s = xs @ y # ys"
  shows "let events = SaveSubjects # replicate (length xs) SubjectSaved @ [SubjectLost e, SaveSubjects]; t = run subjects_next s events in
    allowed subjects_guard subjects_next s events \<and> su_saved t = su_saved s @ xs \<and>
    su_sent t = su_sent s @ xs @ [y] @ [hd (xs @ [y])] \<and> su_left t = xs @ y # ys \<and> su_next t = su_next s"
proof -
  let ?t = "save_subjects s"
  have t: "su_left ?t = xs @ y # ys" "su_sent ?t = su_sent s @ [hd (xs @ [y])]" "su_saved ?t = su_saved s" "su_next ?t = su_next s" "su_selected ?t = xs @ y # ys"
    using assms by (cases xs; simp add: save_subjects_def)+
  define u where "u = subject_lost e (run subjects_next ?t (replicate (length xs) SubjectSaved))"
  have u: "su_left u = []" "su_selected u = xs @ y # ys" "su_sent u = su_sent s @ xs @ [y]" "su_saved u = su_saved s @ xs" "su_next u = su_next s"
    using saving_prefix [OF t(1)] t by (cases xs; simp add: u_def subject_lost_def)+
  have "SaveSubjects \<in> set (offered (subjects_view s))" using assms by (intro save_offered) simp_all
  moreover have "SaveSubjects \<in> set (offered (subjects_view u))" using u by (intro save_offered) simp_all
  moreover have "su_left (run subjects_next ?t (replicate (length xs) SubjectSaved)) \<noteq> []" using saving_prefix [OF t(1)] by simp
  moreover have al: "allowed subjects_guard subjects_next ?t (replicate (length xs) SubjectSaved)" using saving_prefix [OF t(1)] by simp
  ultimately have "allowed subjects_guard subjects_next s (SaveSubjects # replicate (length xs) SubjectSaved @ [SubjectLost e, SaveSubjects])"
    by (simp add: allowed_append u_def)
  moreover have "run subjects_next s (SaveSubjects # replicate (length xs) SubjectSaved @ [SubjectLost e, SaveSubjects]) = save_subjects u"
    by (simp add: u_def)
  moreover have "hd (xs @ y # ys) = hd (xs @ [y])" by (cases xs) simp_all
  ultimately show ?thesis unfolding Let_def using u by (simp add: save_subjects_def)
qed

theorem retry_resends_saved_subjects_witness:
  "su_sent (run subjects_next subjects_step0 (two_chosen @ [SaveSubjects, SubjectSaved, SubjectLost (plain_error ''x''), SaveSubjects])) =
     [''s2'', ''s1'', ''s2'']"
proof -
  let ?s = "run subjects_next subjects_step0 two_chosen"
  have h: "su_left ?s = []" "su_selected ?s = [''s2''] @ ''s1'' # []" "su_sent ?s = []" by code_simp+
  show ?thesis using retry_resends_saved_subjects [OF h(1,2), of "plain_error ''x''"] h(3) unfolding Let_def run_append by simp
qed

section \<open>Documents\<close>

definition file_key :: "upload_file \<Rightarrow> jsstring \<times> nat" where
  "file_key f = (uf_name f, uf_size f)"

definition files_ok :: "upload_file list \<Rightarrow> bool" where
  "files_ok fs = (length fs \<le> 3 \<and> distinct (map file_key fs))"

definition documents_inv :: "documents_step \<Rightarrow> bool" where
  "documents_inv s = (files_ok (dc_files s) \<and> length (dc_left s) \<le> 3 \<and> (if dc_next s = 0 then True else dc_stored s \<noteq> []))"

lemma add_files_ok: "files_ok xs \<Longrightarrow> files_ok (add_files 3 xs fs)"
proof (induction fs arbitrary: xs)
  case (Cons f fs)
  have "files_ok (xs @ [f])" if "\<not> 3 \<le> length xs" "\<not> list_ex (\<lambda>x. uf_name x = uf_name f \<and> uf_size x = uf_size f) xs"
    using that Cons.prems by (auto simp: files_ok_def file_key_def list_ex_iff)
  then show ?case using Cons by simp
qed simp

lemma files_ok_filter: "files_ok fs \<Longrightarrow> files_ok (filter P fs)"
  using length_filter_le [of P fs] unfolding files_ok_def by (meson filter_keep_distinct le_trans)

lemma documents_inv_step:
  assumes "documents_inv s"
  shows "documents_inv (documents_event_step parse s e)"
proof (cases e)
  case (AddFiles fs)
  then show ?thesis using assms by (simp add: documents_inv_def add_files_ok)
next
  case (DropFile f)
  then show ?thesis using assms by (simp add: documents_inv_def files_ok_filter)
next
  case ConfirmUpload
  then show ?thesis using assms by (simp add: documents_inv_def upload_documents_def) (simp add: files_ok_def)
next
  case (UploadReady u)
  then show ?thesis using assms by (simp add: documents_inv_def upload_ready_def documents_fail_def Let_def)
next
  case (FilePut ok)
  then show ?thesis using assms by (auto simp: documents_inv_def file_put_def documents_fail_def Let_def)
next
  case (DocumentLost x)
  then show ?thesis using assms by (simp add: documents_inv_def documents_fail_def)
qed (use assms in \<open>simp_all add: documents_inv_def\<close>)

interpretation documents: bounded_machine "\<lambda>s. s = documents_step0" documents_guard "documents_event_step parse" documents_inv "\<lambda>s. length (dc_files s)" 3
  for parse
proof unfold_locales
  fix s assume "s = documents_step0"
  then show "documents_inv s" by (simp add: documents_inv_def documents_step0_def files_ok_def)
next
  fix s e assume "documents_inv s" "documents_guard s e"
  then show "documents_inv (documents_event_step parse s e)" by (intro documents_inv_step)
next
  fix s assume "documents_inv s"
  then show "length (dc_files s) \<le> 3" by (simp add: documents_inv_def files_ok_def)
qed

text \<open>
  At most three documents, none twice, and the next step opens only after something was stored.
\<close>

theorem documents_bounded:
  assumes "reach (\<lambda>s. s = documents_step0) documents_guard (documents_event_step parse) s"
  shows "length (dc_files s) \<le> 3 \<and> distinct (map file_key (dc_files s)) \<and> (if dc_next s = 0 then True else dc_stored s \<noteq> [])"
  using documents.reach_inv [OF assms] documents.reach_load [OF assms] by (simp add: documents_inv_def files_ok_def)

definition passport :: upload_file where
  "passport = \<lparr>uf_name = ''id.pdf'', uf_size = 9, uf_type = ''application/pdf''\<rparr>"

definition picked :: "documents_event list" where
  "picked = [AddFiles [passport, passport\<lparr>uf_name := ''back.pdf''\<rparr>, passport, passport\<lparr>uf_size := 10\<rparr>, passport\<lparr>uf_size := 11\<rparr>], OpenConfirm]"

theorem documents_bounded_witness:
  "map file_key (dc_files (run (documents_event_step (\<lambda>u. None)) documents_step0 picked)) = [(''id.pdf'', 9), (''back.pdf'', 9), (''id.pdf'', 10)] \<and>
   length (dc_files (run (documents_event_step (\<lambda>u. None)) documents_step0 picked)) \<le> 3"
proof -
  have a: "allowed documents_guard (documents_event_step (\<lambda>u. None)) documents_step0 picked"
    and f: "map file_key (dc_files (run (documents_event_step (\<lambda>u. None)) documents_step0 picked)) = [(''id.pdf'', 9), (''back.pdf'', 9), (''id.pdf'', 10)]"
    by code_simp+
  show ?thesis using documents_bounded [OF run_reachable [OF refl a]] f by blast
qed

text \<open>A file goes to its address as it is, or, for the local object store, to this origin.\<close>

theorem upload_target_shape:
  "(case parse u of None \<Rightarrow> upload_target parse u = u
    | Some (protocol, path, search) \<Rightarrow>
        if protocol = ''https:'' \<or> take 9 path \<noteq> ''/objects/'' then upload_target parse u = u
        else take 9 (upload_target parse u) = ''/objects/'')"
proof -
  have "take 9 (path @ search) = ''/objects/''" if "take 9 path = ''/objects/''" for path search
  proof -
    have "length (take 9 path) = 9" using that by simp
    then have "9 \<le> length path" by simp
    then show ?thesis using that by simp
  qed
  then show ?thesis by (auto simp: upload_target_def split: option.split)
qed

fun upload_events :: "jsstring list \<Rightarrow> documents_event list" where
  "upload_events [] = []"
| "upload_events (u # us) = UploadReady u # FilePut True # upload_events us"

lemma uploading_run:
  assumes "dc_left s = fs" "fs \<noteq> []" "length us = length fs" "list_all (\<lambda>u. u \<noteq> []) us" "\<not> dc_putting s"
  shows "allowed documents_guard (documents_event_step parse) s (upload_events us) \<and>
    dc_stored (run (documents_event_step parse) s (upload_events us)) = dc_stored s @ fs \<and>
    dc_next (run (documents_event_step parse) s (upload_events us)) = dc_next s + 1"
  using assms
proof (induction fs arbitrary: s us)
  case Nil
  then show ?case by simp
next
  case (Cons f fs)
  obtain u vs where us: "us = u # vs" using Cons.prems(3) by (cases us) auto
  let ?t = "file_put True (upload_ready parse u s)"
  have r: "upload_ready parse u s = s\<lparr>dc_putting := True, dc_sent := dc_sent s @ [PutFile (upload_target parse u) (mime_of f) (uf_name f)]\<rparr>"
    using Cons.prems us by (simp add: upload_ready_def)
  show ?case
  proof (cases "fs = []")
    case True
    then show ?thesis using Cons.prems us by (simp add: r file_put_def Let_def)
  next
    case False
    have t: "dc_left ?t = fs" "\<not> dc_putting ?t" "dc_stored ?t = dc_stored s @ [f]" "dc_next ?t = dc_next s"
      using Cons.prems False by (simp_all add: r file_put_def Let_def)
    have "length vs = length fs" "list_all (\<lambda>u. u \<noteq> []) vs" using Cons.prems us by simp_all
    from Cons.IH [OF t(1) False this t(2)] t(3,4) show ?thesis using Cons.prems us by (simp add: r)
  qed
qed

text \<open>
  Cancel closes the dialog, not the upload: every document is still sent, and the next step opens.
\<close>

theorem cancelled_upload_goes_on:
  assumes "dc_open s" "dc_left s = []" "dc_files s \<noteq> []" "length us = length (dc_files s)" "list_all (\<lambda>u. u \<noteq> []) us"
  shows "let events = ConfirmUpload # CloseConfirm # upload_events us; t = run (documents_event_step parse) s events in
    allowed documents_guard (documents_event_step parse) s events \<and> dc_stored t = dc_stored s @ dc_files s \<and> dc_next t = dc_next s + 1"
proof -
  let ?t = "(upload_documents s)\<lparr>dc_open := False\<rparr>"
  have t: "dc_left ?t = dc_files s" "\<not> dc_putting ?t" "dc_stored ?t = dc_stored s" "dc_next ?t = dc_next s" "dc_open (upload_documents s)"
    using assms(1,3) by (simp_all add: upload_documents_def)
  show ?thesis using uploading_run [OF t(1) assms(3,4,5) t(2), of parse] assms(1,2) t unfolding Let_def by simp
qed

theorem cancelled_upload_goes_on_witness:
  "let s = run (documents_event_step (\<lambda>u. None)) documents_step0 [AddFiles [passport], OpenConfirm];
       t = run (documents_event_step (\<lambda>u. None)) s [ConfirmUpload, CloseConfirm, UploadReady ''u'', FilePut True] in
   dc_stored t = [passport] \<and> dc_next t = 1"
proof -
  let ?s = "run (documents_event_step (\<lambda>u. None)) documents_step0 [AddFiles [passport], OpenConfirm]"
  have h: "dc_open ?s" "dc_left ?s = []" "dc_files ?s \<noteq> []" "length [''u''] = length (dc_files ?s)" "list_all (\<lambda>u. u \<noteq> []) [''u'']"
    and e: "dc_files ?s = [passport]" "dc_stored ?s = []" "dc_next ?s = 0" by code_simp+
  show ?thesis using cancelled_upload_goes_on [OF h, of "\<lambda>u. None"] e unfolding Let_def upload_events.simps by simp
qed

section \<open>The competency quiz\<close>

definition answer_fits :: "quiz_attempt \<Rightarrow> jsstring \<times> nat \<Rightarrow> bool" where
  "answer_fits a kv = list_ex (\<lambda>q. vq_id q = fst kv \<and> snd kv < length (vq_options q)) (va_questions a)"

definition quiz_inv :: "quiz_step \<Rightarrow> bool" where
  "quiz_inv s = (length (qz_calls s) = (if qz_busy s then 1 else 0) \<and> distinct (map fst (qz_answers s)) \<and>
     (case qz_attempt s of None \<Rightarrow> qz_answers s = [] | Some a \<Rightarrow> list_all (answer_fits a) (qz_answers s) \<and> (\<forall>i. StartQuiz i \<notin> set (qz_calls s))))"

lemma quiz_offers:
  assumes "e \<in> set (offered (quiz_view s))"
  shows "(\<exists>i. e = Begin i \<and> \<not> qz_busy s \<and> qz_attempt s = None) \<or>
    (\<exists>a. qz_attempt s = Some a \<and> qz_result s = None \<and> ((\<exists>q i. e = Choose q i \<and> answer_fits a (q, i)) \<or>
       (e = Send \<and> \<not> qz_busy s \<and> length (va_questions a) \<le> length (qz_answers s))))"
proof (cases "qz_result s")
  case (Some p)
  then show ?thesis using assms by (simp add: quiz_view_def)
next
  case None
  show ?thesis
  proof (cases "qz_attempt s")
    case None
    then show ?thesis using assms \<open>qz_result s = None\<close> by (auto simp: quiz_view_def in_offered_map)
  next
    case (Some a)
    have opts: "e \<in> set (offered (concat (map (\<lambda>q. map (\<lambda>i. Btn (vq_options q ! i) True (Choose (vq_id q) i)) [0..<length (vq_options q)]) (va_questions a)))) \<Longrightarrow>
      \<exists>q i. e = Choose q i \<and> answer_fits a (q, i)"
      by (fastforce simp: answer_fits_def list_ex_iff)
    have v: "quiz_view s = concat (map (\<lambda>q. map (\<lambda>i. Btn (vq_options q ! i) True (Choose (vq_id q) i)) [0..<length (vq_options q)]) (va_questions a)) @
        [Btn (if qz_busy s then ''Submitting'' @ ellipsis else ''Submit answers'') (\<not> (qz_busy s \<or> length (qz_answers s) < length (va_questions a))) Send]"
      using \<open>qz_result s = None\<close> Some by (simp add: quiz_view_def)
    have "(\<exists>q i. e = Choose q i \<and> answer_fits a (q, i)) \<or> (\<not> (qz_busy s \<or> length (qz_answers s) < length (va_questions a)) \<and> e = Send)"
      using assms opts unfolding v in_offered_append in_offered_Btn in_offered_Nil by blast
    then show ?thesis using Some \<open>qz_result s = None\<close> by auto
  qed
qed

lemma quiz_inv_call: "quiz_inv s \<Longrightarrow> \<not> qz_busy s \<Longrightarrow> (qz_attempt s = None \<or> \<not> (\<exists>i. c = StartQuiz i)) \<Longrightarrow> quiz_inv (qz_call c s)"
  by (auto simp: quiz_inv_def qz_call_def split: option.splits)

lemma quiz_inv_step:
  assumes "quiz_inv s" "quiz_guard s e"
  shows "quiz_inv (quiz_next s e)"
proof (cases e)
  case (Begin i)
  then show ?thesis using assms quiz_offers [of e s] quiz_inv_call [of s "StartQuiz i"] by auto
next
  case (Choose q i)
  then obtain a where "qz_attempt s = Some a" "answer_fits a (q, i)" using assms quiz_offers [of e s] by auto
  then show ?thesis using assms(1) Choose by (simp add: quiz_inv_def distinct_put_answer all_put_answer)
next
  case Send
  then obtain a where a: "qz_attempt s = Some a" "\<not> qz_busy s" using assms quiz_offers [of e s] by auto
  then show ?thesis using assms(1) Send quiz_inv_call [of s "SendQuiz (va_id a) (quiz_inputs a (qz_answers s))"] by (simp add: submit_quiz_def)
next
  case (Begun i a)
  then have m: "StartQuiz i \<in> set (qz_calls s)" using assms(2) by simp
  then have "qz_calls s = [StartQuiz i]" "qz_busy s" using assms(1) by (cases "qz_calls s"; auto simp: quiz_inv_def split: if_splits)+
  moreover have "qz_answers s = []" using assms(1) m by (cases "qz_attempt s") (auto simp: quiz_inv_def)
  ultimately show ?thesis by (simp add: Begun quiz_inv_def quiz_settled_def)
next
  case (Marked i xs p)
  then have m: "SendQuiz i xs \<in> set (qz_calls s)" using assms(2) by simp
  then have "remove1 (SendQuiz i xs) (qz_calls s) = []" using assms(1) by (cases "qz_calls s"; auto simp: quiz_inv_def split: if_splits)
  then show ?thesis using assms(1) by (cases "qz_attempt s") (simp_all add: Marked quiz_inv_def quiz_settled_def)
next
  case (QuizLost c x)
  then have "remove1 c (qz_calls s) = []" using assms by (cases "qz_calls s"; auto simp: quiz_inv_def split: if_splits)
  then show ?thesis using assms(1) by (cases "qz_attempt s") (simp_all add: QuizLost quiz_inv_def quiz_settled_def)
next
  case (SubjectsKnown xs)
  then show ?thesis using assms(1) by (cases "qz_attempt s") (simp_all add: quiz_inv_def)
qed

interpretation quiz: bounded_machine "\<lambda>s. s = quiz_step0" quiz_guard quiz_next quiz_inv "\<lambda>s. length (qz_calls s)" 1
proof unfold_locales
  fix s assume "s = quiz_step0"
  then show "quiz_inv s" by (simp add: quiz_inv_def quiz_step0_def)
next
  fix s e assume "quiz_inv s" "quiz_guard s e"
  then show "quiz_inv (quiz_next s e)" by (rule quiz_inv_step)
next
  fix s assume "quiz_inv s"
  then show "length (qz_calls s) \<le> 1" by (simp add: quiz_inv_def)
qed

text \<open>
  The answers sent are the applicant's own: every question has the option that was chosen, and
  the default of the source is never used.
\<close>

theorem tutor_quiz_complete:
  assumes "reach (\<lambda>s. s = quiz_step0) quiz_guard quiz_next s" "Send \<in> set (offered (quiz_view s))"
  shows "case qz_attempt s of
      None \<Rightarrow> False
    | Some a \<Rightarrow> list_all (\<lambda>q. map_of (qz_answers s) (vq_id q) = map_of (quiz_inputs a (qz_answers s)) (vq_id q) \<and>
          map_of (qz_answers s) (vq_id q) \<noteq> None) (va_questions a) \<and>
        qz_sent (quiz_next s Send) = qz_sent s @ [SendQuiz (va_id a) (quiz_inputs a (qz_answers s))]"
proof -
  obtain a where a: "qz_attempt s = Some a" "length (va_questions a) \<le> length (qz_answers s)"
    using quiz_offers [OF assms(2)] by auto
  have ok: "distinct (map fst (qz_answers s))" "list_all (answer_fits a) (qz_answers s)" using quiz.reach_inv [OF assms(1)] a(1) by (simp_all add: quiz_inv_def)
  have "fst ` set (qz_answers s) \<subseteq> vq_id ` set (va_questions a)" using ok(2) by (force simp: list_all_iff answer_fits_def list_ex_iff)
  then have keys: "fst ` set (qz_answers s) = vq_id ` set (va_questions a)"
    using sheet_complete [OF ok(1), of "map vq_id (va_questions a)"] a(2) by simp
  have "map_of (qz_answers s) (vq_id q) = map_of (quiz_inputs a (qz_answers s)) (vq_id q) \<and> map_of (qz_answers s) (vq_id q) \<noteq> None"
    if "q \<in> set (va_questions a)" for q
  proof -
    have some: "map_of (qz_answers s) (vq_id q) \<noteq> None" using that keys by (simp add: map_of_eq_None_iff)
    have "map_of (map (\<lambda>x. (vq_id x, g (vq_id x))) qs) (vq_id q) = Some (g (vq_id q))" if "q \<in> set qs" for g :: "jsstring \<Rightarrow> nat" and qs
      using that by (induction qs) auto
    from this [OF that, of "\<lambda>i. case map_of (qz_answers s) i of Some j \<Rightarrow> j | None \<Rightarrow> 0"] some
    show ?thesis by (auto simp: quiz_inputs_def)
  qed
  then have "list_all (\<lambda>q. map_of (qz_answers s) (vq_id q) = map_of (quiz_inputs a (qz_answers s)) (vq_id q) \<and> map_of (qz_answers s) (vq_id q) \<noteq> None) (va_questions a)"
    unfolding list_all_iff by blast
  moreover have "qz_sent (quiz_next s Send) = qz_sent s @ [SendQuiz (va_id a) (quiz_inputs a (qz_answers s))]"
    by (simp add: a(1) submit_quiz_def qz_call_def)
  ultimately show ?thesis unfolding a(1) option.case by (rule conjI)
qed

definition sums_quiz :: quiz_attempt where
  "sums_quiz = \<lparr>va_id = ''at'', va_questions = [\<lparr>vq_id = ''q1'', vq_options = [''1'', ''2'']\<rparr>, \<lparr>vq_id = ''q2'', vq_options = [''3'', ''4'']\<rparr>]\<rparr>"

theorem tutor_quiz_complete_witness:
  "qz_sent (quiz_next (run quiz_next quiz_step0 [SubjectsKnown [''s''], Begin ''s'', Begun ''s'' sums_quiz, Choose ''q2'' 1, Choose ''q1'' 0]) Send) =
     [StartQuiz ''s'', SendQuiz ''at'' [(''q1'', 0), (''q2'', 1)]]"
proof -
  let ?es = "[SubjectsKnown [''s''], Begin ''s'', Begun ''s'' sums_quiz, Choose ''q2'' 1, Choose ''q1'' 0]"
  let ?s = "run quiz_next quiz_step0 ?es"
  have a: "allowed quiz_guard quiz_next quiz_step0 ?es" "Send \<in> set (offered (quiz_view ?s))"
    and e: "qz_attempt ?s = Some sums_quiz" "qz_sent ?s = [StartQuiz ''s'']" "quiz_inputs sums_quiz (qz_answers ?s) = [(''q1'', 0), (''q2'', 1)]" "va_id sums_quiz = ''at''"
    by code_simp+
  have "qz_sent (quiz_next ?s Send) = qz_sent ?s @ [SendQuiz (va_id sums_quiz) (quiz_inputs sums_quiz (qz_answers ?s))]"
    using tutor_quiz_complete [OF run_reachable [OF refl a(1)] a(2)] unfolding e(1) option.case by (rule conjunct2)
  then show ?thesis unfolding e append.simps .
qed

section \<open>What is submitted for review\<close>

text \<open>
  The status page submits the profile id of this browser, whatever profile it shows, and submits
  none when the browser has none.
\<close>

theorem review_follows_browser:
  "review_offer s (Some \<lparr>vp_id = i, vp_status = ''DRAFT''\<rparr>) False = (if truthy (ob_profileId s) then Some (ob_profileId s) else None)"
  by (simp add: review_offer_def)

end
