(* ===== verification/WelcomeWizard.thy ===== *)
theory WelcomeWizard
  imports Machine Http SafeNext Session
begin

text \<open>
  The first page after a login (\<open>client/app/onboarding/wizard/page.tsx\<close>) and the two linked
  selects of a learner's level (\<open>client/features/onboarding/CurriculumLevelSelect.tsx\<close>). The
  wizard is a machine over its hooks, the runs of \<open>finish\<close> in flight and logs of what was sent
  and where the router was told to go. \<open>finish\<close> closes over the render it was clicked in: a
  run carries the calls it has still to make.
\<close>

section \<open>The linked selects\<close>

record curriculum =
  cu_id :: jsstring
  cu_levels :: "jsstring list"

record level_select =
  ls_value :: jsstring \<comment> \<open>the parent's value\<close>
  ls_curricula :: "curriculum list"
  ls_curriculum :: jsstring
  ls_level :: jsstring
  ls_last :: jsstring

definition level_sync :: "level_select \<Rightarrow> level_select" where
  "level_sync s = (if ls_value s \<noteq> ls_last s then s\<lparr>ls_last := ls_value s, ls_level := ls_value s\<rparr> else s)"

definition level_owner :: "level_select \<Rightarrow> level_select" where
  "level_owner s =
     (if ls_curriculum s = [] \<and> ls_value s \<noteq> []
      then (case find (\<lambda>c. ls_value s \<in> set (cu_levels c)) (ls_curricula s) of
              None \<Rightarrow> s
            | Some c \<Rightarrow> s\<lparr>ls_curriculum := cu_id c\<rparr>)
      else s)"

text \<open>The effect, which runs after every render in which one of its dependencies changed.\<close>

definition level_effect :: "level_select \<Rightarrow> level_select" where
  "level_effect s = level_owner (level_sync s)"

definition level_mounted :: "jsstring \<Rightarrow> curriculum list \<Rightarrow> level_select" where
  "level_mounted v cs = level_effect \<lparr>ls_value = v, ls_curricula = cs, ls_curriculum = [], ls_level = v, ls_last = []\<rparr>"

definition levels_shown :: "level_select \<Rightarrow> jsstring list" where
  "levels_shown s = (case find (\<lambda>c. cu_id c = ls_curriculum s) (ls_curricula s) of Some c \<Rightarrow> cu_levels c | None \<Rightarrow> [])"

datatype level_event = Curricula "curriculum list" | PickCurriculum jsstring | PickLevel jsstring | ParentSets jsstring

definition pick_curriculum :: "jsstring \<Rightarrow> level_select \<Rightarrow> level_select" where
  "pick_curriculum i s =
     (let l = (case find (\<lambda>c. cu_id c = i) (ls_curricula s) of
                 Some c \<Rightarrow> (case cu_levels c of l # ls \<Rightarrow> l | [] \<Rightarrow> [])
               | None \<Rightarrow> [])
      in s\<lparr>ls_curriculum := i, ls_level := l, ls_value := l\<rparr>)"

text \<open>The options of the selects; ids are distinct in the service's list.\<close>

fun level_guard :: "level_select \<Rightarrow> level_event \<Rightarrow> bool" where
  "level_guard s (Curricula cs) = (distinct (map cu_id cs) \<and> (ls_curricula s = [] \<or> cs = ls_curricula s))"
| "level_guard s (PickCurriculum i) = (i = [] \<or> i \<in> cu_id ` set (ls_curricula s))"
| "level_guard s (PickLevel l) = (ls_curriculum s \<noteq> [] \<and> (l = [] \<or> l \<in> set (levels_shown s)))"
| "level_guard s (ParentSets v) = True"

fun level_next :: "level_select \<Rightarrow> level_event \<Rightarrow> level_select" where
  "level_next s (Curricula cs) = level_effect (s\<lparr>ls_curricula := cs\<rparr>)"
| "level_next s (PickCurriculum i) = level_effect (pick_curriculum i s)"
| "level_next s (PickLevel l) = level_effect (s\<lparr>ls_level := l, ls_value := l\<rparr>)"
| "level_next s (ParentSets v) = level_effect (s\<lparr>ls_value := v\<rparr>)"

section \<open>Dates of birth\<close>

type_synonym date = "int \<times> int \<times> int" \<comment> \<open>year, month, day in local time\<close>

definition wizard_age :: "date \<Rightarrow> date \<Rightarrow> int" where
  "wizard_age now bd =
     (case now of (ny, nm, nd) \<Rightarrow> case bd of (y, m, d) \<Rightarrow>
        if nm < m \<or> (nm = m \<and> nd < d) then ny - y - 1 else ny - y)"

definition is_minor :: "date \<Rightarrow> date option \<Rightarrow> bool" where
  "is_minor now bd = (case bd of None \<Rightarrow> False | Some b \<Rightarrow> wizard_age now b < 15)"

section \<open>The wizard\<close>

record wizard_user =
  wu_first :: jsstring
  wu_last :: jsstring
  wu_email :: jsstring
  wu_roles :: "jsstring list"
  wu_onboarded :: bool

datatype learner_call =
    CreateChild jsstring jsstring "jsstring option" \<comment> \<open>first and last name, level\<close>
  | OwnLearner jsstring jsstring "jsstring option" "jsstring option" \<comment> \<open>names, level, date of birth\<close>

datatype wizard_call = LearnerCall learner_call | MarkOnboarded

record wizard =
  wz_user :: "wizard_user option"
  wz_loading :: bool
  wz_tries :: nat
  wz_next :: "jsstring option"
  wz_step :: nat
  wz_first :: jsstring
  wz_level :: jsstring
  wz_goals :: "jsstring list"
  wz_saving :: bool
  wz_dob :: jsstring
  wz_runs :: "(learner_call \<times> learner_call list) list"
  wz_marks :: nat
  wz_sent :: "wizard_call list"
  wz_routes :: "jsstring list"
  wz_toasts :: "jsstring list"

text \<open>The page as it opens; \<open>raw\<close> is the address's \<open>next\<close>.\<close>

definition wizard0 :: "jsstring option \<Rightarrow> wizard" where
  "wizard0 raw = \<lparr>wz_user = None, wz_loading = True, wz_tries = 0, wz_next = safeNextPath raw, wz_step = 0, wz_first = [], wz_level = [],
     wz_goals = [], wz_saving = False, wz_dob = [], wz_runs = [], wz_marks = 0, wz_sent = [], wz_routes = [], wz_toasts = []\<rparr>"

definition has_role :: "jsstring \<Rightarrow> wizard \<Rightarrow> bool" where
  "has_role r s = (case wz_user s of None \<Rightarrow> False | Some u \<Rightarrow> r \<in> set (wu_roles u))"

definition wizard_home :: "wizard \<Rightarrow> jsstring" where
  "wizard_home s =
     (case wz_next s of
        Some n \<Rightarrow> n
      | None \<Rightarrow> homeForRoles (case wz_user s of None \<Rightarrow> [] | Some u \<Rightarrow> wu_roles u))"

definition wizard_route :: "jsstring \<Rightarrow> wizard \<Rightarrow> wizard" where
  "wizard_route p s = s\<lparr>wz_routes := wz_routes s @ [p]\<rparr>"

text \<open>The effect on the session.\<close>

definition wizard_effect :: "wizard \<Rightarrow> wizard" where
  "wizard_effect s =
     (if wz_loading s then s
      else case wz_user s of
        None \<Rightarrow> if wz_tries s < 5 then s else wizard_route (withNext ''/login'' (wz_next s)) s
      | Some u \<Rightarrow> if wu_onboarded u then wizard_route (wizard_home s) s else s)"

definition or_else :: "jsstring \<Rightarrow> jsstring \<Rightarrow> jsstring" where
  "or_else a b = (if a \<noteq> [] then a else b)"

definition or_undefined :: "jsstring \<Rightarrow> jsstring option" where
  "or_undefined a = (if a \<noteq> [] then Some a else None)"

text \<open>The learner calls of \<open>finish\<close>, in the order in which they are awaited.\<close>

definition learner_calls :: "wizard_user \<Rightarrow> wizard \<Rightarrow> learner_call list" where
  "learner_calls u s =
     (if ''PARENT'' \<in> set (wu_roles u) \<and> trim (wz_first s) \<noteq> []
      then [CreateChild (trim (wz_first s)) (or_else (wu_last u) ''Learner'') (or_undefined (wz_level s))] else []) @
     (if ''STUDENT'' \<in> set (wu_roles u)
      then [OwnLearner (trim (or_else (wu_first u) (or_else (wz_first s) (or_else (hd (split_on CHR 0x40 (wu_email u))) ''Learner''))))
              (trim (or_else (wu_last u) ''YK-Virtual'')) (or_undefined (wz_level s)) (or_undefined (wz_dob s))] else [])"

definition mark_onboarded :: "wizard \<Rightarrow> wizard" where
  "mark_onboarded s = s\<lparr>wz_saving := True, wz_marks := wz_marks s + 1, wz_sent := wz_sent s @ [MarkOnboarded]\<rparr>"

text \<open>The part of \<open>finish\<close> up to its next \<open>await\<close>.\<close>

definition finish_from :: "learner_call list \<Rightarrow> wizard \<Rightarrow> wizard" where
  "finish_from cs s =
     (case cs of
        [] \<Rightarrow> mark_onboarded s
      | c # rest \<Rightarrow> s\<lparr>wz_runs := wz_runs s @ [(c, rest)], wz_sent := wz_sent s @ [LearnerCall c]\<rparr>)"

definition wizard_finish :: "wizard \<Rightarrow> wizard" where
  "wizard_finish s = (case wz_user s of None \<Rightarrow> s | Some u \<Rightarrow> finish_from (learner_calls u s) s)"

definition toggle_goal :: "jsstring \<Rightarrow> wizard \<Rightarrow> wizard" where
  "toggle_goal g s = s\<lparr>wz_goals := (if g \<in> set (wz_goals s) then filter (\<lambda>x. x \<noteq> g) (wz_goals s) else wz_goals s @ [g])\<rparr>"

definition GOALS :: "jsstring list" where
  "GOALS = [''exams'', ''grades'', ''confidence'', ''abroad'', ''digital'']"

definition AREAS :: "jsstring list" where
  "AREAS = [''Mathematics'', ''English'', ''Sciences'', ''Computer Science'', ''Exam Prep'']"

datatype wizard_event =
    SessionRead "wizard_user option" | SessionRetry
  | GoTo nat | TypeFirst jsstring | SetLevel jsstring | SetDob jsstring | ToggleGoal jsstring | Finish
  | LearnerMade learner_call "learner_call list" | LearnerFailed learner_call "learner_call list" | Marked | MarkLost

definition step_back :: "wizard_event widget list" where
  "step_back = [Btn ''Back'' True (GoTo 0)]"

definition wizard_view :: "wizard \<Rightarrow> wizard_event widget list" where
  "wizard_view s =
     (if wz_loading s \<or> wz_user s = None then []
      else if wz_step s = 0 then [Btn ''Continue'' True (GoTo 1)]
      else if wz_step s = 1 then
        (if has_role ''PARENT'' s then step_back @ [Btn ''Continue'' (trim (wz_first s) \<noteq> []) (GoTo 2)] else []) @
        (if has_role ''STUDENT'' s then step_back @ [Btn ''Continue'' True (GoTo 2)] else []) @
        (if has_role ''TUTOR'' s then map (\<lambda>a. Btn a True (SetLevel a)) AREAS @ step_back @ [Btn ''Continue'' True (GoTo 2)] else []) @
        (if \<not> has_role ''PARENT'' s \<and> \<not> has_role ''STUDENT'' s \<and> \<not> has_role ''TUTOR'' s
         then step_back @ [Btn ''Continue'' True (GoTo 2)] else [])
      else map (\<lambda>g. Btn g True (ToggleGoal g)) GOALS @
        [Btn ''Back'' True (GoTo 1), Btn (if wz_saving s then ''Saving'' @ ellipsis else ''Finish - take me to my dashboard'') (\<not> wz_saving s) Finish])"

definition learner_form :: "wizard \<Rightarrow> bool" where
  "learner_form s = (\<not> wz_loading s \<and> wz_step s = 1 \<and> (has_role ''PARENT'' s \<or> has_role ''STUDENT'' s))"

fun wizard_guard :: "wizard \<Rightarrow> wizard_event \<Rightarrow> bool" where
  "wizard_guard s (SessionRead u) = True"
| "wizard_guard s SessionRetry = (\<not> wz_loading s \<and> wz_user s = None \<and> wz_tries s < 5)"
| "wizard_guard s (TypeFirst v) = (learner_form s \<and> has_role ''PARENT'' s)"
| "wizard_guard s (SetLevel v) = (learner_form s \<or> SetLevel v \<in> set (offered (wizard_view s)))"
| "wizard_guard s (SetDob v) = (learner_form s \<and> has_role ''STUDENT'' s)"
| "wizard_guard s (LearnerMade c rest) = ((c, rest) \<in> set (wz_runs s))"
| "wizard_guard s (LearnerFailed c rest) = ((c, rest) \<in> set (wz_runs s))"
| "wizard_guard s Marked = (0 < wz_marks s)"
| "wizard_guard s MarkLost = (0 < wz_marks s)"
| "wizard_guard s e = (e \<in> set (offered (wizard_view s)))"

fun wizard_step :: "wizard \<Rightarrow> wizard_event \<Rightarrow> wizard" where
  "wizard_step s (SessionRead u) = wizard_effect (s\<lparr>wz_loading := False, wz_user := u\<rparr>)"
| "wizard_step s SessionRetry = wizard_effect (s\<lparr>wz_tries := wz_tries s + 1\<rparr>)"
| "wizard_step s (GoTo n) = s\<lparr>wz_step := n\<rparr>"
| "wizard_step s (TypeFirst v) = s\<lparr>wz_first := v\<rparr>"
| "wizard_step s (SetLevel v) = s\<lparr>wz_level := v\<rparr>"
| "wizard_step s (SetDob v) = s\<lparr>wz_dob := v\<rparr>"
| "wizard_step s (ToggleGoal g) = toggle_goal g s"
| "wizard_step s Finish = wizard_finish s"
| "wizard_step s (LearnerMade c rest) = finish_from rest (s\<lparr>wz_runs := remove1 (c, rest) (wz_runs s)\<rparr>)"
| "wizard_step s (LearnerFailed c rest) = mark_onboarded (s\<lparr>wz_runs := remove1 (c, rest) (wz_runs s)\<rparr>)"
| "wizard_step s Marked =
     wizard_route (wizard_home s) (s\<lparr>wz_marks := wz_marks s - 1,
       wz_toasts := wz_toasts s @ [''You're all set - welcome to YK-Virtual!'']\<rparr>)"
| "wizard_step s MarkLost = s\<lparr>wz_marks := wz_marks s - 1, wz_toasts := wz_toasts s @ [''Could not save - please try again'']\<rparr>"

section \<open>The selects follow the form\<close>

lemma level_effect_synced: "ls_level (level_effect s) = (if ls_value s \<noteq> ls_last s then ls_value s else ls_level s) \<and>
   ls_last (level_effect s) = ls_value s \<and> ls_value (level_effect s) = ls_value s \<and> ls_curricula (level_effect s) = ls_curricula s"
  by (auto simp: level_effect_def level_owner_def level_sync_def split: option.splits)

definition level_synced :: "level_select \<Rightarrow> bool" where
  "level_synced s = (ls_level s = ls_value s \<and> ls_last s = ls_value s)"

lemma level_synced_step: "level_synced s \<Longrightarrow> level_synced (level_next s e)"
  by (cases e) (auto simp: level_synced_def level_effect_synced pick_curriculum_def Let_def)

definition level_placed :: "level_select \<Rightarrow> bool" where
  "level_placed s =
     (distinct (map cu_id (ls_curricula s)) \<and>
      (ls_curriculum s = [] \<or> (\<exists>c\<in>set (ls_curricula s). cu_id c = ls_curriculum s \<and> (ls_value s = [] \<or> ls_value s \<in> set (cu_levels c)))))"

lemma find_id: "distinct (map cu_id cs) \<Longrightarrow> c \<in> set cs \<Longrightarrow> find (\<lambda>x. cu_id x = cu_id c) cs = Some c"
  by (induction cs) (auto simp: image_iff)

lemma levels_shown_of: "distinct (map cu_id (ls_curricula s)) \<Longrightarrow> c \<in> set (ls_curricula s) \<Longrightarrow> cu_id c = ls_curriculum s \<Longrightarrow> levels_shown s = cu_levels c"
  using find_id [of "ls_curricula s" c] by (simp add: levels_shown_def)

lemma level_effect_placed: "level_placed s \<Longrightarrow> level_placed (level_effect s)"
  by (auto simp: level_effect_def level_owner_def level_sync_def level_placed_def dest!: find_Some_mem split: option.splits)

lemma pick_curriculum_placed:
  assumes "level_placed s" "level_guard s (PickCurriculum i)"
  shows "level_placed (pick_curriculum i s)"
proof (cases "i = []")
  case False
  then obtain c where c: "c \<in> set (ls_curricula s)" "cu_id c = i" using assms(2) by auto
  have "find (\<lambda>x. cu_id x = i) (ls_curricula s) = Some c" using find_id [OF _ c(1)] assms(1) c(2) by (simp add: level_placed_def)
  then show ?thesis using assms(1) c by (auto simp: pick_curriculum_def level_placed_def split: list.splits)
qed (use assms(1) in \<open>simp add: pick_curriculum_def level_placed_def Let_def\<close>)

lemma pick_level_placed: "level_placed s \<Longrightarrow> level_guard s (PickLevel l) \<Longrightarrow> level_placed (s\<lparr>ls_level := l, ls_value := l\<rparr>)"
  using levels_shown_of [of s] by (auto simp: level_placed_def)

lemma level_placed_step: "level_placed s \<Longrightarrow> level_guard s e \<Longrightarrow> (\<nexists>v. e = ParentSets v) \<Longrightarrow> level_placed (level_next s e)"
proof (cases e)
  case (Curricula cs)
  assume "level_placed s" "level_guard s e"
  then have "level_placed (s\<lparr>ls_curricula := cs\<rparr>)" using Curricula by (auto simp: level_placed_def)
  then show ?thesis using Curricula by (simp add: level_effect_placed)
qed (simp_all add: level_effect_placed pick_curriculum_placed pick_level_placed)

text \<open>What the user does with the selects, and the list's arrival.\<close>

definition by_hand :: "level_event \<Rightarrow> bool" where
  "by_hand e = (case e of ParentSets v \<Rightarrow> False | _ \<Rightarrow> True)"

lemma by_hand_iff: "by_hand e \<longleftrightarrow> (\<nexists>v. e = ParentSets v)"
  by (cases e) (simp_all add: by_hand_def)

lemma level_run_placed: "level_placed s \<Longrightarrow> allowed level_guard level_next s es \<Longrightarrow> list_all by_hand es \<Longrightarrow> level_placed (run level_next s es)"
  by (induction es arbitrary: s) (auto simp: by_hand_iff intro!: level_placed_step)

lemma level_run_synced: "level_synced s \<Longrightarrow> level_synced (run level_next s es)"
  by (induction es arbitrary: s) (auto intro: level_synced_step)

lemma level_mounted_inv: "distinct (map cu_id cs) \<Longrightarrow> level_placed (level_mounted v cs)"
  unfolding level_mounted_def by (intro level_effect_placed) (simp add: level_placed_def)

lemma level_mounted_synced: "level_synced (level_mounted v cs)"
  by (simp add: level_mounted_def level_synced_def level_effect_synced)

text \<open>
  The selects show the value of the form, and once a curriculum is shown the level is one of
  its levels, or none.
\<close>

theorem level_select_consistent:
  assumes "allowed level_guard level_next (level_mounted v []) es" "list_all by_hand es"
  shows "(let s = run level_next (level_mounted v []) es in
     ls_level s = ls_value s \<and> (ls_curriculum s = [] \<or> ls_level s = [] \<or> ls_level s \<in> set (levels_shown s)))"
proof -
  let ?s = "run level_next (level_mounted v []) es"
  have "level_placed ?s" "level_synced ?s"
    using level_mounted_inv [of "[]" v] level_mounted_synced [of v "[]"] level_run_placed [OF _ assms] level_run_synced [of "level_mounted v []" es] by auto
  then show ?thesis using levels_shown_of [of ?s] by (auto simp: Let_def level_synced_def level_placed_def)
qed

definition british :: curriculum where "british = \<lparr>cu_id = ''gb'', cu_levels = [''Year 7'', ''Year 8'']\<rparr>"
definition nigerian :: curriculum where "nigerian = \<lparr>cu_id = ''ng'', cu_levels = [''JSS1'', ''Year 7'']\<rparr>"

theorem level_select_consistent_witness:
  "(let s = run level_next (level_mounted ''Year 8'' []) [Curricula [nigerian, british], PickLevel ''Year 7''] in
     ls_level s = ls_value s \<and> (ls_curriculum s = [] \<or> ls_level s = [] \<or> ls_level s \<in> set (levels_shown s)))"
  by (rule level_select_consistent) code_simp+

text \<open>
  Only the level is kept by the form: when the selects are mounted again they show the first
  curriculum that has a level of that name, not the one that was chosen.
\<close>

theorem remount_changes_curriculum:
  assumes "distinct (map cu_id (ls_curricula s))" "c \<in> set (ls_curricula s)" "cu_id c \<noteq> []" "cu_levels c = l # ls" "l \<noteq> []"
    and "find (\<lambda>x. l \<in> set (cu_levels x)) (ls_curricula s) = Some a"
  shows "ls_curriculum (level_next s (PickCurriculum (cu_id c))) = cu_id c \<and>
     ls_value (level_next s (PickCurriculum (cu_id c))) = l \<and> ls_curriculum (level_mounted l (ls_curricula s)) = cu_id a"
  using assms by (auto simp: pick_curriculum_def find_id level_effect_def level_sync_def level_owner_def level_mounted_def split: list.splits)

theorem remount_changes_curriculum_witness:
  "ls_curriculum (level_next (level_mounted [] [nigerian, british]) (PickCurriculum ''gb'')) = ''gb'' \<and>
   ls_curriculum (level_mounted ''Year 7'' [nigerian, british]) = ''ng''"
proof -
  have "find (\<lambda>x. ''Year 7'' \<in> set (cu_levels x)) [nigerian, british] = Some nigerian" by code_simp
  then show ?thesis
    using remount_changes_curriculum [of "level_mounted [] [nigerian, british]" british "''Year 7''" "[''Year 8'']" nigerian]
    by (simp add: level_mounted_def level_effect_synced british_def nigerian_def)
qed

section \<open>Under fifteen\<close>

definition earlier :: "date \<Rightarrow> date \<Rightarrow> bool" where
  "earlier a b = (case a of (y, m, d) \<Rightarrow> case b of (y', m', d') \<Rightarrow> y < y' \<or> (y = y' \<and> (m < m' \<or> (m = m' \<and> d < d'))))"

text \<open>The note for minors shows until the fifteenth birthday and not from that day on.\<close>

theorem minor_until_birthday: "is_minor now (Some (y, m, d)) \<longleftrightarrow> earlier now (y + 15, m, d)"
  by (cases now) (auto simp: is_minor_def wizard_age_def earlier_def)

section \<open>Finishing\<close>

lemma wizard_effect_keeps [simp]:
  "wz_sent (wizard_effect s) = wz_sent s" "wz_runs (wizard_effect s) = wz_runs s" "wz_marks (wizard_effect s) = wz_marks s"
  "wz_saving (wizard_effect s) = wz_saving s" "wz_next (wizard_effect s) = wz_next s" "wz_tries (wizard_effect s) = wz_tries s"
  by (simp_all add: wizard_effect_def wizard_route_def split: option.splits)

definition marks_sent :: "wizard \<Rightarrow> nat" where
  "marks_sent s = length (filter (\<lambda>c. c = MarkOnboarded) (wz_sent s))"

lemma finish_from_load: "marks_sent (finish_from cs s) + length (wz_runs (finish_from cs s)) = marks_sent s + length (wz_runs s) + 1"
  by (cases cs) (simp_all add: finish_from_def mark_onboarded_def marks_sent_def)

lemma mark_onboarded_load: "marks_sent (mark_onboarded s) + length (wz_runs (mark_onboarded s)) = marks_sent s + length (wz_runs s) + 1"
  by (simp add: mark_onboarded_def marks_sent_def)

lemma marks_sent_runs [simp]: "marks_sent (s\<lparr>wz_runs := r\<rparr>) = marks_sent s"
  by (simp add: marks_sent_def)

lemma runs_remove: "x \<in> set r \<Longrightarrow> length (remove1 x r) + 1 = length r"
  using length_pos_if_in_set [of x r] by (simp add: length_remove1)

lemma offered_finish: "Finish \<in> set (offered (wizard_view s)) \<Longrightarrow> \<not> wz_loading s \<and> wz_user s \<noteq> None \<and> \<not> wz_saving s"
  unfolding wizard_view_def step_back_def in_offered by auto

lemma wizard_load_step:
  assumes "wizard_guard s e"
  shows "marks_sent (wizard_step s e) + length (wz_runs (wizard_step s e)) = marks_sent s + length (wz_runs s) + (if e = Finish then 1 else 0)"
proof (cases e)
  case Finish
  then obtain u where "wz_user s = Some u" using assms offered_finish by auto
  then show ?thesis using Finish by (simp add: wizard_finish_def finish_from_load)
next
  case (LearnerMade c rest)
  then show ?thesis using assms runs_remove [of "(c, rest)" "wz_runs s"] by (simp add: finish_from_load)
next
  case (LearnerFailed c rest)
  then show ?thesis using assms runs_remove [of "(c, rest)" "wz_runs s"] by (simp add: mark_onboarded_load)
qed (simp_all add: marks_sent_def toggle_goal_def wizard_route_def)

text \<open>
  Each click on \<open>Finish\<close> ends in exactly one request that marks the account, when the learner
  calls of that click have settled, whatever their outcome; until then it is a run in flight.
\<close>

theorem finish_ends_in_one_mark:
  assumes "allowed wizard_guard wizard_step (wizard0 raw) es"
  shows "(let s = run wizard_step (wizard0 raw) es in
     marks_sent s + length (wz_runs s) = length (filter (\<lambda>e. e = Finish) es))"
proof -
  have "allowed wizard_guard wizard_step s es \<Longrightarrow>
     marks_sent (run wizard_step s es) + length (wz_runs (run wizard_step s es)) = marks_sent s + length (wz_runs s) + length (filter (\<lambda>e. e = Finish) es)" for s
  proof (induction es arbitrary: s)
    case (Cons e es)
    then show ?case using wizard_load_step [of s e] by simp
  qed simp
  from this [OF assms] show ?thesis by (simp add: Let_def wizard0_def marks_sent_def)
qed

definition some_parent :: wizard_user where
  "some_parent = \<lparr>wu_first = ''Ada'', wu_last = ''Obi'', wu_email = ''ada@x.ng'', wu_roles = [''PARENT''], wu_onboarded = False\<rparr>"

definition to_finish :: "wizard_event list" where
  "to_finish = [SessionRead (Some some_parent), GoTo 1, TypeFirst ''Kemi'', GoTo 2, ToggleGoal ''exams'']"

definition kemi :: learner_call where "kemi = CreateChild ''Kemi'' ''Obi'' None"

theorem finish_ends_in_one_mark_witness:
  "(let s = run wizard_step (wizard0 None) (to_finish @ [Finish, LearnerFailed kemi []]) in
     marks_sent s = 1 \<and> marks_sent s + length (wz_runs s) = 1)"
  using finish_ends_in_one_mark [of None "to_finish @ [Finish, LearnerFailed kemi []]"] by code_simp

text \<open>
  The button is disabled only once the learner calls are over: a second click while they run
  creates the learner a second time.
\<close>

theorem second_click_second_learner:
  assumes "wz_user s = Some u" "learner_calls u s = c # rest" "wizard_guard s Finish"
  shows "allowed wizard_guard wizard_step s [Finish, Finish] \<and>
     wz_sent (run wizard_step s [Finish, Finish]) = wz_sent s @ [LearnerCall c, LearnerCall c]"
proof -
  have n: "learner_calls u (s\<lparr>wz_runs := r, wz_sent := t\<rparr>) = learner_calls u s" for r t by (simp add: learner_calls_def)
  have v: "wizard_view (s\<lparr>wz_runs := r, wz_sent := t\<rparr>) = wizard_view s" for r t by (simp add: wizard_view_def has_role_def)
  show ?thesis using assms by (simp add: wizard_finish_def finish_from_def n v)
qed

theorem second_click_second_learner_witness:
  "wz_sent (run wizard_step (run wizard_step (wizard0 None) to_finish) [Finish, Finish]) = [LearnerCall kemi, LearnerCall kemi]"
proof -
  let ?s = "run wizard_step (wizard0 None) to_finish"
  have f: "wz_user ?s = Some some_parent" "learner_calls some_parent ?s = [kemi]" "wizard_guard ?s Finish" "wz_sent ?s = []" by code_simp+
  show ?thesis using second_click_second_learner [OF f(1-3)] f(4) by simp
qed

lemma saving_step:
  assumes "wz_saving s" "wz_runs s = []" "wizard_guard s e"
  shows "wz_saving (wizard_step s e) \<and> wz_runs (wizard_step s e) = [] \<and> wz_sent (wizard_step s e) = wz_sent s"
  using assms offered_finish [of s] by (cases e) (auto simp: toggle_goal_def wizard_route_def)

text \<open>
  C34. Nothing clears \<open>saving\<close>: after the account could not be marked the button stays disabled and no
  request follows, in any continuation of the page.
\<close>

theorem failed_finish_traps:
  assumes "wz_saving s" "wz_runs s = []" "allowed wizard_guard wizard_step s es"
  shows "wz_sent (run wizard_step s es) = wz_sent s \<and> \<not> wizard_guard (run wizard_step s es) Finish"
  using assms
proof (induction es arbitrary: s)
  case Nil
  then show ?case using offered_finish [of s] by auto
next
  case (Cons e es)
  then show ?case using saving_step [of s e] by simp
qed

theorem failed_finish_traps_witness:
  "(let s = run wizard_step (wizard0 None) (to_finish @ [Finish, LearnerMade kemi [], MarkLost]) in
     wz_toasts s = [''Could not save - please try again''] \<and> \<not> wizard_guard (run wizard_step s [GoTo 1, GoTo 2]) Finish)"
proof -
  let ?s = "run wizard_step (wizard0 None) (to_finish @ [Finish, LearnerMade kemi [], MarkLost])"
  have "wz_saving ?s" "wz_runs ?s = []" "allowed wizard_guard wizard_step ?s [GoTo 1, GoTo 2]" by code_simp+
  from failed_finish_traps [OF this] have "\<not> wizard_guard (run wizard_step ?s [GoTo 1, GoTo 2]) Finish" by blast
  moreover have "wz_toasts ?s = [''Could not save - please try again'']" by code_simp
  ultimately show ?thesis by (simp add: Let_def)
qed

section \<open>Goals\<close>

lemma step_goals:
  "wizard_step (s\<lparr>wz_goals := g\<rparr>) e = (wizard_step s e)\<lparr>wz_goals := (case e of ToggleGoal x \<Rightarrow> wz_goals (toggle_goal x (s\<lparr>wz_goals := g\<rparr>)) | _ \<Rightarrow> g)\<rparr>"
  by (cases e) (auto simp: wizard_effect_def wizard_route_def wizard_home_def toggle_goal_def wizard_finish_def finish_from_def mark_onboarded_def
      learner_calls_def split: option.splits list.splits)

definition no_goals :: "wizard \<Rightarrow> wizard" where
  "no_goals s = s\<lparr>wz_goals := []\<rparr>"

definition but_goals :: "wizard_event \<Rightarrow> wizard_event list" where
  "but_goals e = (case e of ToggleGoal g \<Rightarrow> [] | _ \<Rightarrow> [e])"

lemma but_goals_step: "no_goals (wizard_step s e) = run wizard_step (no_goals s) (but_goals e)"
proof (cases "\<exists>g. e = ToggleGoal g")
  case True
  then show ?thesis by (auto simp: no_goals_def but_goals_def toggle_goal_def)
next
  case False
  then show ?thesis using step_goals [of "[]" s e] by (cases e) (simp_all add: no_goals_def but_goals_def del: wizard_step.simps)
qed

lemma but_goals_filter: "concat (map but_goals es) = filter (\<lambda>e. case e of ToggleGoal g \<Rightarrow> False | _ \<Rightarrow> True) es"
  by (induction es) (auto simp: but_goals_def split: wizard_event.splits)

interpretation goals: simulation "\<lambda>s. s = wizard0 raw" "\<lambda>s e. True" wizard_step "\<lambda>s. True" no_goals wizard_step but_goals for raw
  by unfold_locales (simp_all add: but_goals_step)

text \<open>The goals reach no request: without the clicks on them the same calls are sent.\<close>

theorem goals_change_nothing:
  "wz_sent (run wizard_step (wizard0 raw) es) =
     wz_sent (run wizard_step (wizard0 raw) (filter (\<lambda>e. case e of ToggleGoal g \<Rightarrow> False | _ \<Rightarrow> True) es))"
proof -
  have "allowed (\<lambda>s e. True) wizard_step s es" for s by (induction es arbitrary: s) simp_all
  moreover have "no_goals (wizard0 raw) = wizard0 raw" by (simp add: no_goals_def wizard0_def)
  ultimately have "no_goals (run wizard_step (wizard0 raw) es) = run wizard_step (wizard0 raw) (concat (map but_goals es))"
    using goals.sim_start [OF refl] by metis
  then have "wz_sent (no_goals (run wizard_step (wizard0 raw) es)) = wz_sent (run wizard_step (wizard0 raw) (concat (map but_goals es)))" by simp
  then show ?thesis by (simp add: no_goals_def but_goals_filter)
qed

section \<open>Where the wizard leads\<close>

definition wizard_dest :: "jsstring option \<Rightarrow> jsstring \<Rightarrow> bool" where
  "wizard_dest nxt p = (nxt = Some p \<or> p \<in> {''/admin'', ''/tutor-dashboard'', ''/student-dashboard'', ''/dashboard''} \<or> p = withNext ''/login'' nxt)"

definition wizard_inv :: "jsstring option \<Rightarrow> wizard \<Rightarrow> bool" where
  "wizard_inv nxt s = (wz_next s = nxt \<and> wz_tries s \<le> 5 \<and> list_all (wizard_dest nxt) (wz_routes s))"

lemma wizard_home_dest: "wz_next s = nxt \<Longrightarrow> wizard_dest nxt (wizard_home s)"
  by (cases nxt) (simp_all add: wizard_home_def wizard_dest_def homeForRoles_def)

lemma wizard_effect_inv: "wizard_inv nxt s \<Longrightarrow> wizard_inv nxt (wizard_effect s)"
  using wizard_home_dest [of s nxt]
  by (auto simp: wizard_inv_def wizard_effect_def wizard_route_def wizard_dest_def split: option.splits)

lemma finish_from_inv: "wizard_inv nxt s \<Longrightarrow> wizard_inv nxt (finish_from cs s)"
  by (cases cs) (simp_all add: finish_from_def mark_onboarded_def wizard_inv_def)

lemma welcome_inv_step: "wizard_inv nxt s \<Longrightarrow> wizard_guard s e \<Longrightarrow> wizard_inv nxt (wizard_step s e)"
proof (cases e)
  case Marked
  assume "wizard_inv nxt s"
  moreover have "wizard_home (s\<lparr>wz_marks := m, wz_toasts := t\<rparr>) = wizard_home s" for m t
    by (simp add: wizard_home_def split: option.split)
  ultimately show ?thesis using Marked wizard_home_dest [of s nxt] by (simp add: wizard_inv_def wizard_route_def)
next
  case Finish
  assume "wizard_inv nxt s"
  then show ?thesis using Finish by (simp add: wizard_finish_def finish_from_inv split: option.split)
next
  case (LearnerMade c rest)
  assume "wizard_inv nxt s"
  then have "wizard_inv nxt (s\<lparr>wz_runs := remove1 (c, rest) (wz_runs s)\<rparr>)" by (simp add: wizard_inv_def)
  then show ?thesis using LearnerMade by (simp add: finish_from_inv)
next
  case (SessionRead u)
  assume "wizard_inv nxt s"
  then have "wizard_inv nxt (s\<lparr>wz_loading := False, wz_user := u\<rparr>)" by (simp add: wizard_inv_def)
  then show ?thesis using SessionRead by (simp add: wizard_effect_inv)
next
  case SessionRetry
  assume "wizard_inv nxt s" "wizard_guard s e"
  then have "wizard_inv nxt (s\<lparr>wz_tries := wz_tries s + 1\<rparr>)" using SessionRetry by (simp add: wizard_inv_def)
  then show ?thesis using SessionRetry by (simp add: wizard_effect_inv)
qed (simp_all add: wizard_inv_def toggle_goal_def mark_onboarded_def)

interpretation first_login: bounded_machine "\<lambda>s. s = wizard0 raw" wizard_guard wizard_step "wizard_inv (safeNextPath raw)" wz_tries 5 for raw
proof unfold_locales
  fix s assume "s = wizard0 raw"
  then show "wizard_inv (safeNextPath raw) s" by (simp add: wizard_inv_def wizard0_def)
next
  fix s e assume "wizard_inv (safeNextPath raw) s" "wizard_guard s e"
  then show "wizard_inv (safeNextPath raw) (wizard_step s e)" by (rule welcome_inv_step)
next
  fix s assume "wizard_inv (safeNextPath raw) s"
  then show "wz_tries s \<le> 5" by (simp add: wizard_inv_def)
qed

text \<open>
  The wizard leads to the validated address, to the home of a role or to the login, and asks
  for the session at most five times more.
\<close>

theorem wizard_leads_home:
  assumes "reach (\<lambda>s. s = wizard0 raw) wizard_guard wizard_step s"
  shows "wz_tries s \<le> 5 \<and> list_all (\<lambda>p. safeNextPath raw = Some p \<or> p \<in> {''/admin'', ''/tutor-dashboard'', ''/student-dashboard'', ''/dashboard''} \<or>
     p = withNext ''/login'' (safeNextPath raw)) (wz_routes s)"
  using first_login.reach_inv [OF assms] first_login.reach_load [OF assms] by (simp add: wizard_inv_def wizard_dest_def [abs_def])

theorem wizard_leads_home_witness:
  "(let s = run wizard_step (wizard0 None) (to_finish @ [Finish, LearnerMade kemi [], Marked]) in
     wz_routes s = [''/dashboard''] \<and> list_all (\<lambda>p. safeNextPath None = Some p \<or> p \<in> {''/admin'', ''/tutor-dashboard'', ''/student-dashboard'', ''/dashboard''} \<or>
     p = withNext ''/login'' (safeNextPath None)) (wz_routes s))"
proof -
  let ?es = "to_finish @ [Finish, LearnerMade kemi [], Marked]"
  have "allowed wizard_guard wizard_step (wizard0 None) ?es" by code_simp
  then have "reach (\<lambda>s. s = wizard0 None) wizard_guard wizard_step (run wizard_step (wizard0 None) ?es)"
    by (rule run_reachable [rotated]) (rule refl)
  note led = wizard_leads_home [OF this, THEN conjunct2]
  have "wz_routes (run wizard_step (wizard0 None) ?es) = [''/dashboard'']" by code_simp
  with led show ?thesis unfolding Let_def by (rule conjI [rotated])
qed

end
