(* ===== verification/Quizzes.thy ===== *)
theory Quizzes
  imports Machine Http JsDecimal
begin

text \<open>
  A learner's quizzes: on the web (\<open>client/features/learning/StudentQuizzes.tsx\<close>) and on the
  phone (\<open>mobile/app/quizzes/[assessmentId].tsx\<close>), and the revision planner
  (\<open>client/features/learning/RevisionPlanner.tsx\<close>). Each is a machine over its hooks, the calls
  in flight and a log of what was sent. A mutation is pending as long as its call is in flight.
\<close>

section \<open>Papers\<close>

record quiz_question =
  qq_id :: jsstring
  qq_options :: "jsstring list"

record quiz_paper =
  qp_assessment :: jsstring
  qp_questions :: "quiz_question list"

type_synonym answers = "(jsstring \<times> nat) list"

definition paper_ids :: "quiz_paper \<Rightarrow> jsstring list" where
  "paper_ids p = map qq_id (qp_questions p)"

definition option_buttons :: "(jsstring \<Rightarrow> nat \<Rightarrow> 'e) \<Rightarrow> quiz_paper \<Rightarrow> 'e widget list" where
  "option_buttons pick p =
     concat (map (\<lambda>q. map (\<lambda>i. Btn (qq_options q ! i) True (pick (qq_id q) i)) [0..<length (qq_options q)]) (qp_questions p))"

section \<open>On the web\<close>

datatype web_call = StartAssessment jsstring | SubmitAssessment jsstring answers

record student_quizzes =
  sq_list :: "jsstring list"
  sq_session :: "quiz_paper option"
  sq_answers :: answers
  sq_result :: "bool option" \<comment> \<open>\<open>passed\<close>\<close>
  sq_calls :: "web_call list"
  sq_sent :: "web_call list"
  sq_toasts :: "jsstring list"

definition student_quizzes0 :: student_quizzes where
  "student_quizzes0 = \<lparr>sq_list = [], sq_session = None, sq_answers = [], sq_result = None, sq_calls = [], sq_sent = [], sq_toasts = []\<rparr>"

fun is_start :: "web_call \<Rightarrow> bool" where
  "is_start (StartAssessment i) = True"
| "is_start (SubmitAssessment i a) = False"

definition start_pending :: "student_quizzes \<Rightarrow> bool" where
  "start_pending s = list_ex is_start (sq_calls s)"

definition submit_pending :: "student_quizzes \<Rightarrow> bool" where
  "submit_pending s = list_ex (\<lambda>c. \<not> is_start c) (sq_calls s)"

definition web_call :: "web_call \<Rightarrow> student_quizzes \<Rightarrow> student_quizzes" where
  "web_call c s = s\<lparr>sq_calls := sq_calls s @ [c], sq_sent := sq_sent s @ [c]\<rparr>"

definition web_settled :: "web_call \<Rightarrow> jsstring option \<Rightarrow> student_quizzes \<Rightarrow> student_quizzes" where
  "web_settled c t s = s\<lparr>sq_calls := remove1 c (sq_calls s), sq_toasts := sq_toasts s @ (case t of None \<Rightarrow> [] | Some m \<Rightarrow> [m])\<rparr>"

definition submit_session :: "student_quizzes \<Rightarrow> student_quizzes" where
  "submit_session s = (case sq_session s of None \<Rightarrow> s | Some p \<Rightarrow> web_call (SubmitAssessment (qp_assessment p) (sq_answers s)) s)"

datatype web_event =
    Listed "jsstring list" | Take jsstring | Started jsstring quiz_paper | Choose jsstring nat | Cancel | Submit
  | Graded jsstring answers bool | CallLost web_call js_exn | BackToList

definition web_view :: "student_quizzes \<Rightarrow> web_event widget list" where
  "web_view s =
     (case sq_session s of
        Some p \<Rightarrow> Btn ''Cancel'' True Cancel # option_buttons Choose p @
          [Btn (if submit_pending s then ''Grading'' @ ellipsis else ''Submit quiz'')
             (length (sq_answers s) = length (qp_questions p) \<and> \<not> submit_pending s) Submit]
      | None \<Rightarrow> if sq_result s \<noteq> None then [Btn ''Back to quizzes'' True BackToList]
          else map (\<lambda>i. Btn (if start_pending s then ''Starting'' @ ellipsis else ''Take quiz'') (\<not> start_pending s) (Take i)) (sq_list s))"

text \<open>The questions of a paper have distinct ids, keys of the service's table.\<close>

fun web_guard :: "student_quizzes \<Rightarrow> web_event \<Rightarrow> bool" where
  "web_guard s (Listed ids) = True"
| "web_guard s (Started i p) = (StartAssessment i \<in> set (sq_calls s) \<and> distinct (paper_ids p))"
| "web_guard s (Graded i a ok) = (SubmitAssessment i a \<in> set (sq_calls s))"
| "web_guard s (CallLost c e) = (c \<in> set (sq_calls s))"
| "web_guard s e = (e \<in> set (offered (web_view s)))"

fun web_lost :: "web_call \<Rightarrow> jsstring" where
  "web_lost (StartAssessment i) = ''Could not start quiz''"
| "web_lost (SubmitAssessment i a) = ''Could not submit quiz''"

fun web_step :: "student_quizzes \<Rightarrow> web_event \<Rightarrow> student_quizzes" where
  "web_step s (Listed ids) = s\<lparr>sq_list := ids\<rparr>"
| "web_step s (Take i) = web_call (StartAssessment i) s"
| "web_step s (Started i p) = (web_settled (StartAssessment i) None s)\<lparr>sq_session := Some p, sq_result := None, sq_answers := []\<rparr>"
| "web_step s (Choose q i) = s\<lparr>sq_answers := put_answer q i (sq_answers s)\<rparr>"
| "web_step s Cancel = s\<lparr>sq_session := None\<rparr>"
| "web_step s Submit = submit_session s"
| "web_step s (Graded i a ok) =
     (web_settled (SubmitAssessment i a) (Some (if ok then ''Quiz passed - well done!'' else ''Quiz submitted.'')) s)
       \<lparr>sq_result := Some ok, sq_session := None\<rparr>"
| "web_step s (CallLost c e) = web_settled c (Some (message_or (web_lost c) e)) s"
| "web_step s BackToList = s\<lparr>sq_result := None\<rparr>"

section \<open>On the phone\<close>

datatype phone_phase =
    Loading
  | Failed jsstring
  | Ready quiz_paper
  | Submitting
  | Done bool

datatype phone_call = PhoneStart | PhoneSubmit answers

record phone_quiz =
  ph_phase :: phone_phase
  ph_answers :: answers
  ph_calls :: "phone_call list"
  ph_sent :: "phone_call list"

definition phone_start :: "phone_quiz \<Rightarrow> phone_quiz" where
  "phone_start s = s\<lparr>ph_phase := Loading, ph_calls := ph_calls s @ [PhoneStart], ph_sent := ph_sent s @ [PhoneStart]\<rparr>"

text \<open>The screen as it opens: its effect starts the attempt.\<close>

definition phone_quiz0 :: phone_quiz where
  "phone_quiz0 = phone_start \<lparr>ph_phase = Loading, ph_answers = [], ph_calls = [], ph_sent = []\<rparr>"

definition phone_answered :: "quiz_paper \<Rightarrow> answers \<Rightarrow> nat" where
  "phone_answered p a = length (filter (\<lambda>q. qq_id q \<in> fst ` set a) (qp_questions p))"

definition phone_progress :: "quiz_paper \<Rightarrow> answers \<Rightarrow> rat" where
  "phone_progress p a = fl (fl (of_nat (phone_answered p a) / of_nat (max (length (qp_questions p)) 1)) * 100)"

definition phone_submit :: "phone_quiz \<Rightarrow> phone_quiz" where
  "phone_submit s =
     (case ph_phase s of
        Ready p \<Rightarrow> s\<lparr>ph_phase := Submitting, ph_calls := ph_calls s @ [PhoneSubmit (ph_answers s)], ph_sent := ph_sent s @ [PhoneSubmit (ph_answers s)]\<rparr>
      | _ \<Rightarrow> s)"

datatype phone_event =
    PhoneStarted quiz_paper | PhoneChoose jsstring nat | PhoneSend | PhoneGraded answers bool | PhoneLost phone_call js_exn | TryAgain | Retake

definition phone_view :: "phone_quiz \<Rightarrow> phone_event widget list" where
  "phone_view s =
     (case ph_phase s of
        Failed m \<Rightarrow> [Txt ''Couldn't start the quiz'', Txt m, Btn ''Try again'' True TryAgain]
      | Done ok \<Rightarrow> [Btn ''Retake quiz'' True Retake]
      | Ready p \<Rightarrow> option_buttons PhoneChoose p @
          [Btn (''Submit ('' @ show_nat (phone_answered p (ph_answers s)) @ ''/'' @ show_nat (length (qp_questions p)) @ '')'')
             (\<not> phone_answered p (ph_answers s) < length (qp_questions p)) PhoneSend]
      | _ \<Rightarrow> [])"

fun phone_guard :: "phone_quiz \<Rightarrow> phone_event \<Rightarrow> bool" where
  "phone_guard s (PhoneStarted p) = (PhoneStart \<in> set (ph_calls s) \<and> distinct (paper_ids p))"
| "phone_guard s (PhoneGraded a ok) = (PhoneSubmit a \<in> set (ph_calls s))"
| "phone_guard s (PhoneLost c e) = (c \<in> set (ph_calls s))"
| "phone_guard s e = (e \<in> set (offered (phone_view s)))"

fun phone_lost :: "phone_call \<Rightarrow> jsstring" where
  "phone_lost PhoneStart = ''Could not start the quiz''"
| "phone_lost (PhoneSubmit a) = ''Could not submit the quiz''"

fun phone_step :: "phone_quiz \<Rightarrow> phone_event \<Rightarrow> phone_quiz" where
  "phone_step s (PhoneStarted p) = s\<lparr>ph_calls := remove1 PhoneStart (ph_calls s), ph_answers := [], ph_phase := Ready p\<rparr>"
| "phone_step s (PhoneChoose q i) = s\<lparr>ph_answers := put_answer q i (ph_answers s)\<rparr>"
| "phone_step s PhoneSend = phone_submit s"
| "phone_step s (PhoneGraded a ok) = s\<lparr>ph_calls := remove1 (PhoneSubmit a) (ph_calls s), ph_phase := Done ok\<rparr>"
| "phone_step s (PhoneLost c e) = s\<lparr>ph_calls := remove1 c (ph_calls s), ph_phase := Failed (message_or (phone_lost c) e)\<rparr>"
| "phone_step s TryAgain = phone_start s"
| "phone_step s Retake = phone_start s"

section \<open>Revision plans\<close>

record plan =
  pl_id :: jsstring
  pl_subject :: jsstring

record task =
  tk_id :: jsstring
  tk_status :: jsstring

text \<open>
  \<open>EffectTasks\<close> is the fetch of the effect, with the number of the effect that made it;
  \<open>TasksAgain\<close> that of a handler, which no clean-up stops.
\<close>

datatype planner_call =
    ListPlans
  | EffectTasks jsstring nat
  | NewPlan jsstring
  | CompleteTask jsstring "jsstring option" \<comment> \<open>with the plan of the click\<close>
  | Rebalance jsstring
  | TasksAgain jsstring

record planner =
  rv_plans :: "plan list option"
  rv_active :: "plan option"
  rv_tasks :: "task list"
  rv_subject :: jsstring
  rv_busy :: bool
  rv_effect :: nat \<comment> \<open>the effect that is alive\<close>
  rv_calls :: "planner_call list"
  rv_sent :: "planner_call list"

definition planner_call :: "planner_call \<Rightarrow> planner \<Rightarrow> planner" where
  "planner_call c s = s\<lparr>rv_calls := rv_calls s @ [c], rv_sent := rv_sent s @ [c]\<rparr>"

definition planner_gone :: "planner_call \<Rightarrow> planner \<Rightarrow> planner" where
  "planner_gone c s = s\<lparr>rv_calls := remove1 c (rv_calls s)\<rparr>"

definition planner0 :: planner where
  "planner0 = planner_call ListPlans
     \<lparr>rv_plans = None, rv_active = None, rv_tasks = [], rv_subject = [], rv_busy = False, rv_effect = 0, rv_calls = [], rv_sent = []\<rparr>"

text \<open>\<open>setActive\<close> with another object, and the effect it causes.\<close>

definition show_plan :: "plan \<Rightarrow> planner \<Rightarrow> planner" where
  "show_plan p s = planner_call (EffectTasks (pl_id p) (rv_effect s + 1)) (s\<lparr>rv_active := Some p, rv_effect := rv_effect s + 1\<rparr>)"

text \<open>
  \<open>loadPlans\<close> is made once, by the first render, and sees its \<open>active\<close>: none. The plans of an
  answer are new objects, so the first of them is shown even if it was shown before.
\<close>

definition plans_read :: "plan list \<Rightarrow> planner \<Rightarrow> planner" where
  "plans_read ps s = (case ps of [] \<Rightarrow> s\<lparr>rv_plans := Some []\<rparr> | p # _ \<Rightarrow> show_plan p (s\<lparr>rv_plans := Some ps\<rparr>))"

definition create_plan :: "planner \<Rightarrow> planner" where
  "create_plan s = (if trim (rv_subject s) = [] then s else planner_call (NewPlan (trim (rv_subject s))) (s\<lparr>rv_busy := True\<rparr>))"

definition complete_task :: "jsstring \<Rightarrow> planner \<Rightarrow> planner" where
  "complete_task t s = planner_call (CompleteTask t (map_option pl_id (rv_active s))) (s\<lparr>rv_busy := True\<rparr>)"

definition rebalance :: "planner \<Rightarrow> planner" where
  "rebalance s = (case rv_active s of None \<Rightarrow> s | Some p \<Rightarrow> planner_call (Rebalance (pl_id p)) (s\<lparr>rv_busy := True\<rparr>))"

datatype planner_event =
    TypeSubject jsstring | CreatePlan | ShowPlan plan | DoneTask jsstring | RebalanceClick
  | PlansRead "plan list" | PlansLost | EffectRead jsstring nat "task list" | EffectLost jsstring nat
  | PlanCreated jsstring | TaskCompleted jsstring "jsstring option" | Rebalanced jsstring | TasksRead jsstring "task list"
  | HandlerLost planner_call

definition planner_view :: "planner \<Rightarrow> planner_event widget list" where
  "planner_view s =
     [Btn ''Build 90-day plan'' (\<not> (rv_busy s \<or> trim (rv_subject s) = [])) CreatePlan] @
     map (\<lambda>p. Btn (pl_subject p) True (ShowPlan p)) (case rv_plans s of None \<Rightarrow> [] | Some ps \<Rightarrow> ps) @
     (if rv_active s \<noteq> None \<and> rv_tasks s \<noteq> [] then
        Btn ''Rebalance'' (\<not> rv_busy s) RebalanceClick #
        map (\<lambda>t. Btn ''Done'' (tk_status t = ''PENDING'' \<and> \<not> rv_busy s) (DoneTask (tk_id t))) (rv_tasks s)
      else [])"

fun is_handler :: "planner_call \<Rightarrow> bool" where
  "is_handler ListPlans = False"
| "is_handler (EffectTasks i n) = False"
| "is_handler c = True"

fun planner_guard :: "planner \<Rightarrow> planner_event \<Rightarrow> bool" where
  "planner_guard s (TypeSubject v) = True"
| "planner_guard s (PlansRead ps) = (ListPlans \<in> set (rv_calls s) \<and> distinct (map pl_id ps))"
| "planner_guard s PlansLost = (ListPlans \<in> set (rv_calls s))"
| "planner_guard s (EffectRead i n ts) = (EffectTasks i n \<in> set (rv_calls s))"
| "planner_guard s (EffectLost i n) = (EffectTasks i n \<in> set (rv_calls s))"
| "planner_guard s (PlanCreated v) = (NewPlan v \<in> set (rv_calls s))"
| "planner_guard s (TaskCompleted t a) = (CompleteTask t a \<in> set (rv_calls s))"
| "planner_guard s (Rebalanced i) = (Rebalance i \<in> set (rv_calls s))"
| "planner_guard s (TasksRead i ts) = (TasksAgain i \<in> set (rv_calls s))"
| "planner_guard s (HandlerLost c) = (c \<in> set (rv_calls s) \<and> is_handler c)"
| "planner_guard s e = (e \<in> set (offered (planner_view s)))"

fun planner_step :: "planner \<Rightarrow> planner_event \<Rightarrow> planner" where
  "planner_step s (TypeSubject v) = s\<lparr>rv_subject := v\<rparr>"
| "planner_step s CreatePlan = create_plan s"
| "planner_step s (ShowPlan p) = (if rv_active s = Some p then s else show_plan p s)"
| "planner_step s (DoneTask t) = complete_task t s"
| "planner_step s RebalanceClick = rebalance s"
| "planner_step s (PlansRead ps) = plans_read ps (planner_gone ListPlans s)"
| "planner_step s PlansLost = (planner_gone ListPlans s)\<lparr>rv_plans := Some []\<rparr>"
| "planner_step s (EffectRead i n ts) = (planner_gone (EffectTasks i n) s)\<lparr>rv_tasks := (if n = rv_effect s then ts else rv_tasks s)\<rparr>"
| "planner_step s (EffectLost i n) = (planner_gone (EffectTasks i n) s)\<lparr>rv_tasks := (if n = rv_effect s then [] else rv_tasks s)\<rparr>"
| "planner_step s (PlanCreated v) = planner_call ListPlans ((planner_gone (NewPlan v) s)\<lparr>rv_subject := [], rv_busy := False\<rparr>)"
| "planner_step s (TaskCompleted t a) =
     (case a of
        None \<Rightarrow> (planner_gone (CompleteTask t a) s)\<lparr>rv_busy := False\<rparr>
      | Some i \<Rightarrow> planner_call (TasksAgain i) (planner_gone (CompleteTask t a) s))"
| "planner_step s (Rebalanced i) = planner_call (TasksAgain i) (planner_gone (Rebalance i) s)"
| "planner_step s (TasksRead i ts) = (planner_gone (TasksAgain i) s)\<lparr>rv_tasks := ts, rv_busy := False\<rparr>"
| "planner_step s (HandlerLost c) = (planner_gone c s)\<lparr>rv_busy := False\<rparr>"

section \<open>Complete sheets\<close>

definition answer_fits :: "quiz_paper \<Rightarrow> jsstring \<times> nat \<Rightarrow> bool" where
  "answer_fits p a = list_ex (\<lambda>q. qq_id q = fst a \<and> snd a < length (qq_options q)) (qp_questions p)"

text \<open>What both players keep of the paper and the answers to it.\<close>

definition sheet_ok :: "quiz_paper \<Rightarrow> answers \<Rightarrow> bool" where
  "sheet_ok p a = (distinct (paper_ids p) \<and> distinct (map fst a) \<and> list_all (answer_fits p) a)"

lemma sheet_ok_Nil: "distinct (paper_ids p) \<Longrightarrow> sheet_ok p []"
  by (simp add: sheet_ok_def)

lemma option_buttons_offer:
  "e \<in> set (offered (option_buttons pick p)) \<longleftrightarrow> (\<exists>q\<in>set (qp_questions p). \<exists>i<length (qq_options q). e = pick (qq_id q) i)"
  by (force simp: option_buttons_def)

lemma sheet_ok_put:
  "sheet_ok p a \<Longrightarrow> q \<in> set (qp_questions p) \<Longrightarrow> i < length (qq_options q) \<Longrightarrow> sheet_ok p (put_answer (qq_id q) i a)"
  by (auto simp: sheet_ok_def answer_fits_def list_ex_iff intro!: distinct_put_answer all_put_answer)

lemma sheet_ok_keys: "sheet_ok p a \<Longrightarrow> fst ` set a \<subseteq> set (paper_ids p)"
  by (force simp: sheet_ok_def list_all_iff answer_fits_def list_ex_iff paper_ids_def)

lemma sheet_ok_full: "sheet_ok p a \<Longrightarrow> length a = length (qp_questions p) \<Longrightarrow> fst ` set a = set (paper_ids p)"
  using sheet_complete [of a "paper_ids p"] sheet_ok_keys [of p a] by (simp add: sheet_ok_def paper_ids_def)

lemma answered_full: "phone_answered p a = length (qp_questions p) \<longleftrightarrow> set (paper_ids p) \<subseteq> fst ` set a"
proof -
  have "length (filter P xs) = length xs \<longleftrightarrow> list_all P xs" for P :: "quiz_question \<Rightarrow> bool" and xs
  proof (induction xs)
    case (Cons x xs)
    then show ?case using le_imp_less_Suc [OF length_filter_le, THEN less_imp_neq, of P xs] by (cases "P x") auto
  qed simp
  then show ?thesis by (auto simp: phone_answered_def paper_ids_def list_all_iff)
qed

subsection \<open>On the web\<close>

definition open_sheet :: "quiz_paper option \<Rightarrow> answers \<Rightarrow> bool" where
  "open_sheet p a = (case p of None \<Rightarrow> True | Some q \<Rightarrow> sheet_ok q a)"

lemma open_sheet_simps [simp]: "open_sheet None a" "open_sheet (Some p) a = sheet_ok p a"
  by (simp_all add: open_sheet_def)

definition web_inv :: "student_quizzes \<Rightarrow> bool" where
  "web_inv s =
     (open_sheet (sq_session s) (sq_answers s) \<and>
      length (filter is_start (sq_calls s)) \<le> 1 \<and> length (filter (\<lambda>c. \<not> is_start c) (sq_calls s)) \<le> 1)"

lemma web_offers:
  assumes "e \<in> set (offered (web_view s))"
  shows "case e of
      Take i \<Rightarrow> \<not> start_pending s \<and> sq_session s = None
    | Choose q i \<Rightarrow> (\<exists>p x. sq_session s = Some p \<and> x \<in> set (qp_questions p) \<and> qq_id x = q \<and> i < length (qq_options x))
    | Submit \<Rightarrow> (\<exists>p. sq_session s = Some p \<and> length (sq_answers s) = length (qp_questions p)) \<and> \<not> submit_pending s
    | Cancel \<Rightarrow> True | BackToList \<Rightarrow> True | _ \<Rightarrow> False"
proof (cases "sq_session s")
  case None
  then show ?thesis using assms by (cases "sq_result s") (auto simp: web_view_def in_offered)
next
  case (Some p)
  then show ?thesis using assms unfolding web_view_def Some option.case in_offered option_buttons_offer by auto
qed

lemma web_settled_inv: "web_inv s \<Longrightarrow> web_inv (web_settled c t s)"
proof -
  have "length (filter P (remove1 c xs)) \<le> length (filter P xs)" for P :: "web_call \<Rightarrow> bool" and xs
    by (induction xs) auto
  from this [of is_start "sq_calls s"] this [of "\<lambda>c. \<not> is_start c" "sq_calls s"]
  show "web_inv s \<Longrightarrow> web_inv (web_settled c t s)" by (simp add: web_inv_def web_settled_def)
qed

lemma not_pending: "\<not> list_ex P xs \<Longrightarrow> filter P xs = []"
  by (induction xs) auto

lemma web_inv_step: "web_inv s \<Longrightarrow> web_guard s e \<Longrightarrow> web_inv (web_step s e)"
proof (cases e)
  case (Take i)
  assume "web_inv s" "web_guard s e"
  then show ?thesis using Take web_offers [of "Take i" s] not_pending [of is_start "sq_calls s"]
    by (simp add: web_inv_def web_call_def start_pending_def)
next
  case (Started i p)
  assume "web_inv s" "web_guard s e"
  then show ?thesis using Started web_settled_inv [of s "StartAssessment i" None] by (simp add: web_inv_def sheet_ok_Nil)
next
  case (Choose q i)
  assume "web_inv s" "web_guard s e"
  then show ?thesis using Choose web_offers [of "Choose q i" s] by (auto simp: web_inv_def sheet_ok_put)
next
  case Submit
  assume "web_inv s" "web_guard s e"
  then show ?thesis using Submit web_offers [of Submit s] not_pending [of "\<lambda>c. \<not> is_start c" "sq_calls s"]
    by (auto simp: web_inv_def submit_session_def web_call_def submit_pending_def)
next
  case (Graded i a ok)
  assume "web_inv s"
  then show ?thesis using Graded web_settled_inv [of s "SubmitAssessment i a"] by (simp add: web_inv_def)
next
  case (CallLost c x)
  assume "web_inv s"
  then show ?thesis using CallLost web_settled_inv [of s c] by simp
qed (simp_all add: web_inv_def)

interpretation web_quiz: bounded_machine "\<lambda>s. s = student_quizzes0" web_guard web_step web_inv "\<lambda>s. length (sq_calls s)" 2
proof unfold_locales
  fix s assume "s = student_quizzes0"
  then show "web_inv s" by (simp add: web_inv_def student_quizzes0_def)
next
  fix s e assume "web_inv s" "web_guard s e"
  then show "web_inv (web_step s e)" by (rule web_inv_step)
next
  fix s assume "web_inv s"
  then show "length (sq_calls s) \<le> 2" using sum_length_filter_compl [of is_start "sq_calls s"] by (simp add: web_inv_def)
qed

text \<open>
  A quiz can be submitted when every question, and nothing else, is answered with one of its
  options; what is sent is those answers to that quiz.
\<close>

theorem web_quiz_complete:
  assumes "reach (\<lambda>s. s = student_quizzes0) web_guard web_step s" "web_guard s Submit"
  shows "case sq_session s of
      None \<Rightarrow> False
    | Some p \<Rightarrow> fst ` set (sq_answers s) = set (paper_ids p) \<and> list_all (answer_fits p) (sq_answers s) \<and>
        sq_sent (web_step s Submit) = sq_sent s @ [SubmitAssessment (qp_assessment p) (sq_answers s)]"
proof -
  obtain p where p: "sq_session s = Some p" "length (sq_answers s) = length (qp_questions p)" using web_offers [of Submit s] assms(2) by auto
  have "sheet_ok p (sq_answers s)" using web_quiz.reach_inv [OF assms(1)] p(1) by (simp add: web_inv_def)
  then show ?thesis using sheet_ok_full [OF _ p(2)] p(1) by (simp add: submit_session_def web_call_def sheet_ok_def)
qed

definition fractions :: quiz_paper where
  "fractions = \<lparr>qp_assessment = ''a1'', qp_questions = [\<lparr>qq_id = ''q1'', qq_options = [''1/2'', ''1/3'']\<rparr>, \<lparr>qq_id = ''q2'', qq_options = [''2'', ''3'']\<rparr>]\<rparr>"

definition web_events :: "web_event list" where
  "web_events = [Listed [''a1''], Take ''a1'', Started ''a1'' fractions, Choose ''q2'' 1, Choose ''q1'' 0, Choose ''q2'' 0]"

lemma web_example:
  "allowed web_guard web_step student_quizzes0 web_events"
  "web_guard (run web_step student_quizzes0 web_events) Submit"
  "sq_session (run web_step student_quizzes0 web_events) = Some fractions"
  "sq_answers (run web_step student_quizzes0 web_events) = [(''q2'', 0), (''q1'', 0)]"
  by code_simp+

theorem web_quiz_complete_witness:
  "fst ` set [(''q2'', 0::nat), (''q1'', 0)] = set (paper_ids fractions)"
  using web_quiz_complete [OF run_reachable [OF refl web_example(1)] web_example(2)] unfolding web_example(3,4) by simp

text \<open>
  A quiz that is cancelled while it is graded is graded all the same, and its result closes the
  quiz that was opened meanwhile: its answers are never sent.
\<close>

theorem result_closes_new_quiz:
  assumes "SubmitAssessment i a \<in> set (sq_calls s)" "sq_session s = Some p"
  shows "web_guard s (Graded i a ok) \<and> sq_session (web_step s (Graded i a ok)) = None \<and>
    sq_sent (web_step s (Graded i a ok)) = sq_sent s \<and> \<not> web_guard (web_step s (Graded i a ok)) Submit"
  using assms web_offers [of Submit "web_step s (Graded i a ok)"] by (auto simp: web_settled_def)

theorem result_closes_new_quiz_witness:
  "(let s = run web_step student_quizzes0 (web_events @ [Submit, Cancel, Take ''a1'', Started ''a1'' fractions, Choose ''q1'' 1]) in
     allowed web_guard web_step student_quizzes0 (web_events @ [Submit, Cancel, Take ''a1'', Started ''a1'' fractions, Choose ''q1'' 1]) \<and>
     sq_session (web_step s (Graded ''a1'' [(''q2'', 0), (''q1'', 0)] True)) = None)"
proof -
  let ?es = "web_events @ [Submit, Cancel, Take ''a1'', Started ''a1'' fractions, Choose ''q1'' 1]"
  let ?s = "run web_step student_quizzes0 ?es"
  have f: "SubmitAssessment ''a1'' [(''q2'', 0), (''q1'', 0)] \<in> set (sq_calls ?s)" "sq_session ?s = Some fractions"
    "allowed web_guard web_step student_quizzes0 ?es" by code_simp+
  show ?thesis using result_closes_new_quiz [OF f(1,2), of True] f(3) unfolding Let_def by blast
qed

subsection \<open>On the phone\<close>

definition phone_inv :: "phone_quiz \<Rightarrow> bool" where
  "phone_inv s =
     (case ph_phase s of
        Loading \<Rightarrow> ph_calls s = [PhoneStart]
      | Submitting \<Rightarrow> (\<exists>a. ph_calls s = [PhoneSubmit a])
      | Ready p \<Rightarrow> ph_calls s = [] \<and> sheet_ok p (ph_answers s)
      | _ \<Rightarrow> ph_calls s = [])"

lemma phone_offers:
  assumes "e \<in> set (offered (phone_view s))"
  shows "case e of
      PhoneChoose q i \<Rightarrow> (\<exists>p x. ph_phase s = Ready p \<and> x \<in> set (qp_questions p) \<and> qq_id x = q \<and> i < length (qq_options x))
    | PhoneSend \<Rightarrow> (\<exists>p. ph_phase s = Ready p \<and> length (qp_questions p) \<le> phone_answered p (ph_answers s))
    | TryAgain \<Rightarrow> (\<exists>m. ph_phase s = Failed m)
    | Retake \<Rightarrow> (\<exists>ok. ph_phase s = Done ok)
    | _ \<Rightarrow> False"
proof (cases "ph_phase s")
  case (Ready p)
  then show ?thesis using assms unfolding phone_view_def Ready phone_phase.case in_offered option_buttons_offer by auto
qed (use assms in \<open>auto simp: phone_view_def in_offered\<close>)

lemma phone_quiz_inv_step: "phone_inv s \<Longrightarrow> phone_guard s e \<Longrightarrow> phone_inv (phone_step s e)"
proof (cases e)
  case (PhoneStarted p)
  assume "phone_inv s" "phone_guard s e"
  then show ?thesis using PhoneStarted by (auto simp: phone_inv_def sheet_ok_Nil split: phone_phase.splits)
next
  case (PhoneChoose q i)
  assume "phone_inv s" "phone_guard s e"
  then show ?thesis using PhoneChoose phone_offers [of e s] by (auto simp: phone_inv_def sheet_ok_put)
next
  case (PhoneGraded a ok)
  assume "phone_inv s" "phone_guard s e"
  then show ?thesis using PhoneGraded by (auto simp: phone_inv_def split: phone_phase.splits)
next
  case (PhoneLost c x)
  assume "phone_inv s" "phone_guard s e"
  then show ?thesis using PhoneLost by (auto simp: phone_inv_def split: phone_phase.splits)
next
  case PhoneSend
  assume "phone_inv s" "phone_guard s e"
  then show ?thesis using PhoneSend phone_offers [of e s] by (auto simp: phone_inv_def phone_submit_def)
next
  case TryAgain
  assume "phone_inv s" "phone_guard s e"
  then show ?thesis using TryAgain phone_offers [of e s] by (auto simp: phone_inv_def phone_start_def)
next
  case Retake
  assume "phone_inv s" "phone_guard s e"
  then show ?thesis using Retake phone_offers [of e s] by (auto simp: phone_inv_def phone_start_def)
qed

interpretation phone_quiz: bounded_machine "\<lambda>s. s = phone_quiz0" phone_guard phone_step phone_inv "\<lambda>s. length (ph_calls s)" 1
proof unfold_locales
  fix s assume "s = phone_quiz0"
  then show "phone_inv s" by (simp add: phone_inv_def phone_quiz0_def phone_start_def)
next
  fix s e assume "phone_inv s" "phone_guard s e"
  then show "phone_inv (phone_step s e)" by (rule phone_quiz_inv_step)
next
  fix s assume "phone_inv s"
  then show "length (ph_calls s) \<le> 1" by (auto simp: phone_inv_def split: phone_phase.splits)
qed

text \<open>
  The phone's quiz waits for one call at a time, and a sheet is sent when every question, and
  nothing else, is answered with one of its options.
\<close>

theorem phone_quiz_complete:
  assumes "reach (\<lambda>s. s = phone_quiz0) phone_guard phone_step s"
  shows "length (ph_calls s) \<le> 1 \<and>
    (if phone_guard s PhoneSend
     then case ph_phase s of
         Ready p \<Rightarrow> fst ` set (ph_answers s) = set (paper_ids p) \<and> list_all (answer_fits p) (ph_answers s) \<and>
           ph_sent (phone_step s PhoneSend) = ph_sent s @ [PhoneSubmit (ph_answers s)]
       | _ \<Rightarrow> False
     else True)"
proof (cases "phone_guard s PhoneSend")
  case True
  then obtain p where p: "ph_phase s = Ready p" "length (qp_questions p) \<le> phone_answered p (ph_answers s)"
    using phone_offers [of PhoneSend s] by auto
  have ok: "sheet_ok p (ph_answers s)" using phone_quiz.reach_inv [OF assms] p(1) by (simp add: phone_inv_def)
  have "phone_answered p (ph_answers s) = length (qp_questions p)"
    using p(2) by (simp add: phone_answered_def le_antisym)
  then have "fst ` set (ph_answers s) = set (paper_ids p)" using answered_full [of p] sheet_ok_keys [OF ok] by blast
  then show ?thesis using True p(1) ok phone_quiz.reach_load [OF assms] by (simp add: phone_submit_def sheet_ok_def)
qed (use phone_quiz.reach_load [OF assms] in simp)

definition phone_events :: "phone_event list" where
  "phone_events = [PhoneStarted fractions, PhoneChoose ''q2'' 1, PhoneChoose ''q1'' 0]"

lemma phone_example:
  "allowed phone_guard phone_step phone_quiz0 phone_events"
  "phone_guard (run phone_step phone_quiz0 phone_events) PhoneSend"
  "ph_phase (run phone_step phone_quiz0 phone_events) = Ready fractions"
  "ph_answers (run phone_step phone_quiz0 phone_events) = [(''q2'', 1), (''q1'', 0)]"
  by code_simp+

theorem phone_quiz_complete_witness:
  "fst ` set [(''q2'', 1::nat), (''q1'', 0)] = set (paper_ids fractions)"
  using phone_quiz_complete [OF run_reachable [OF refl phone_example(1)]] phone_example(2) unfolding phone_example(3,4) by simp

text \<open>The bar of the phone runs from empty to full and is full when all questions are answered.\<close>

theorem phone_bar_bounded:
  "0 \<le> phone_progress p a \<and> phone_progress p a \<le> 100 \<and>
   (if qp_questions p \<noteq> [] \<and> set (paper_ids p) \<subseteq> fst ` set a then phone_progress p a = 100 else True) \<and>
   (if qp_questions p = [] then phone_progress p a = 0 else True)"
proof -
  let ?n = "phone_answered p a" and ?m = "max (length (qp_questions p)) 1"
  have le: "?n \<le> ?m" by (simp add: phone_answered_def le_max_iff_disj)
  have r: "0 \<le> fl (of_nat ?n / of_nat ?m)" "fl (of_nat ?n / of_nat ?m) \<le> 1"
    using ieee.rnd_ratio_range [of "int ?n" "int ?m"] le by (simp_all del: of_nat_max)
  have "fl 0 \<le> phone_progress p a" "phone_progress p a \<le> fl 100"
    unfolding phone_progress_def using r by (intro fl_mono; simp)+
  moreover have "phone_progress p a = 100" if "qp_questions p \<noteq> []" "set (paper_ids p) \<subseteq> fst ` set a"
  proof -
    have "?n = ?m" using that answered_full [of p a] by (cases "qp_questions p") simp_all
    then show ?thesis unfolding phone_progress_def using ieee.rnd_int [of 1] ieee.rnd_int [of 100] by simp
  qed
  moreover have "phone_progress p a = 0" if "qp_questions p = []"
    using that ieee.rnd_int [of 0] by (simp add: phone_progress_def phone_answered_def)
  ultimately show ?thesis using ieee.rnd_int [of 0] ieee.rnd_int [of 100] by simp
qed

text \<open>
  A submission that fails loses the answers. The only button is the one that starts the quiz
  again, and its attempt begins with none.
\<close>

theorem lost_submission_loses_answers:
  assumes "ph_phase s = Ready p" "ph_calls s = []" "distinct (paper_ids p')"
  shows "let t = phone_step (phone_step s PhoneSend) (PhoneLost (PhoneSubmit (ph_answers s)) e) in
    offered (phone_view t) = [TryAgain] \<and>
    (let u = run phone_step t [TryAgain, PhoneStarted p'] in
       allowed phone_guard phone_step t [TryAgain, PhoneStarted p'] \<and> ph_answers u = [] \<and>
       ph_sent u = ph_sent s @ [PhoneSubmit (ph_answers s), PhoneStart])"
  using assms by (simp add: Let_def phone_submit_def phone_view_def phone_start_def)

theorem lost_submission_loses_answers_witness:
  "ph_sent (run phone_step phone_quiz0 (phone_events @ [PhoneSend, PhoneLost (PhoneSubmit [(''q2'', 1), (''q1'', 0)]) (plain_error ''x''),
      TryAgain, PhoneStarted fractions])) = [PhoneStart, PhoneSubmit [(''q2'', 1), (''q1'', 0)], PhoneStart]"
proof -
  let ?s = "run phone_step phone_quiz0 phone_events"
  have f: "ph_calls ?s = []" "distinct (paper_ids fractions)" "ph_sent ?s = [PhoneStart]" by code_simp+
  show ?thesis
    using lost_submission_loses_answers [OF phone_example(3) f(1,2), of "plain_error ''x''"] unfolding phone_example(4) f(3) Let_def by simp
qed

section \<open>Revision plans\<close>

definition handlers :: "planner \<Rightarrow> nat" where
  "handlers s = length (filter is_handler (rv_calls s))"

text \<open>While the planner is busy one handler waits for one call, and otherwise none does.\<close>

definition planner_inv :: "planner \<Rightarrow> bool" where
  "planner_inv s = (handlers s = (if rv_busy s then 1 else 0))"

lemma handlers_call: "handlers (planner_call c s) = handlers s + (if is_handler c then 1 else 0)"
  by (simp add: handlers_def planner_call_def)

lemma handlers_gone: "c \<in> set (rv_calls s) \<Longrightarrow> handlers (planner_gone c s) = handlers s - (if is_handler c then 1 else 0)"
  using count_remove1 [of c "rv_calls s" is_handler] by (simp add: handlers_def planner_gone_def)

lemma handlers_upd [simp]:
  "handlers (s\<lparr>rv_tasks := t\<rparr>) = handlers s" "handlers (s\<lparr>rv_busy := b\<rparr>) = handlers s" "handlers (s\<lparr>rv_subject := v\<rparr>) = handlers s"
  "handlers (s\<lparr>rv_plans := ps\<rparr>) = handlers s" "handlers (s\<lparr>rv_active := a\<rparr>) = handlers s" "handlers (s\<lparr>rv_effect := n\<rparr>) = handlers s"
  by (simp_all add: handlers_def)

lemma planner_busy [simp]: "rv_busy (planner_call c s) = rv_busy s" "rv_busy (planner_gone c s) = rv_busy s"
  by (simp_all add: planner_call_def planner_gone_def)

lemma show_plan_inv: "planner_inv s \<Longrightarrow> planner_inv (show_plan p s)"
  by (simp add: planner_inv_def show_plan_def handlers_call)

lemma planner_offers:
  "e \<in> set (offered (planner_view s)) \<Longrightarrow> (case e of CreatePlan \<Rightarrow> \<not> rv_busy s | DoneTask t \<Rightarrow> \<not> rv_busy s | RebalanceClick \<Rightarrow> \<not> rv_busy s
     | ShowPlan p \<Rightarrow> True | _ \<Rightarrow> False)"
  unfolding planner_view_def in_offered by auto

lemma handlers_positive: "c \<in> set (rv_calls s) \<Longrightarrow> is_handler c \<Longrightarrow> planner_inv s \<Longrightarrow> rv_busy s \<and> handlers s = 1"
  by (auto simp: planner_inv_def handlers_def filter_empty_conv split: if_splits)

lemma planner_inv_step: "planner_inv s \<Longrightarrow> planner_guard s e \<Longrightarrow> planner_inv (planner_step s e)"
proof (cases e)
  case (PlansRead ps)
  assume "planner_inv s" "planner_guard s e"
  then show ?thesis using PlansRead by (cases ps) (simp_all add: plans_read_def planner_inv_def show_plan_def handlers_call handlers_gone)
next
  case (ShowPlan p)
  assume "planner_inv s"
  then show ?thesis using ShowPlan by (simp add: show_plan_inv)
next
  case (TaskCompleted t a)
  assume a: "planner_inv s" "planner_guard s e"
  then have "rv_busy s" "handlers s = 1" using TaskCompleted handlers_positive [of "CompleteTask t a" s] by auto
  then show ?thesis using TaskCompleted a(2) by (cases a) (simp_all add: planner_inv_def handlers_call handlers_gone)
next
  case CreatePlan
  assume "planner_inv s" "planner_guard s e"
  then show ?thesis using CreatePlan planner_offers [of e s] by (simp add: planner_inv_def create_plan_def handlers_call)
next
  case (DoneTask t)
  assume "planner_inv s" "planner_guard s e"
  then show ?thesis using DoneTask planner_offers [of e s] by (simp add: planner_inv_def complete_task_def handlers_call)
next
  case RebalanceClick
  assume "planner_inv s" "planner_guard s e"
  then show ?thesis using RebalanceClick planner_offers [of e s] by (simp add: planner_inv_def rebalance_def handlers_call split: option.split)
next
  case (PlanCreated v)
  assume "planner_inv s" "planner_guard s e"
  then show ?thesis using PlanCreated handlers_positive [of "NewPlan v" s] by (simp add: planner_inv_def handlers_call handlers_gone)
next
  case (Rebalanced i)
  assume "planner_inv s" "planner_guard s e"
  then show ?thesis using Rebalanced handlers_positive [of "Rebalance i" s] by (simp add: planner_inv_def handlers_call handlers_gone)
next
  case (TasksRead i ts)
  assume "planner_inv s" "planner_guard s e"
  then show ?thesis using TasksRead handlers_positive [of "TasksAgain i" s] by (simp add: planner_inv_def handlers_gone)
next
  case (HandlerLost c)
  assume "planner_inv s" "planner_guard s e"
  then show ?thesis using HandlerLost handlers_positive [of c s] by (simp add: planner_inv_def handlers_gone)
qed (simp_all add: planner_inv_def handlers_gone)

interpretation planner: bounded_machine "\<lambda>s. s = planner0" planner_guard planner_step planner_inv handlers 1
proof unfold_locales
  fix s assume "s = planner0"
  then show "planner_inv s" by (simp add: planner_inv_def planner0_def handlers_call) (simp add: handlers_def)
next
  fix s e assume "planner_inv s" "planner_guard s e"
  then show "planner_inv (planner_step s e)" by (rule planner_inv_step)
next
  fix s assume "planner_inv s"
  then show "handlers s \<le> 1" by (simp add: planner_inv_def)
qed

text \<open>One change of a plan is under way at a time, and the planner says so.\<close>

theorem planner_one_change:
  assumes "reach (\<lambda>s. s = planner0) planner_guard planner_step s"
  shows "handlers s \<le> 1 \<and> rv_busy s = (handlers s = 1)"
  using planner.reach_inv [OF assms] planner.reach_load [OF assms] by (simp add: planner_inv_def)

definition plan_a :: plan where "plan_a = \<lparr>pl_id = ''a'', pl_subject = ''Biology''\<rparr>"
definition plan_b :: plan where "plan_b = \<lparr>pl_id = ''b'', pl_subject = ''Physics''\<rparr>"
definition cells :: task where "cells = \<lparr>tk_id = ''t1'', tk_status = ''PENDING''\<rparr>"
definition waves :: task where "waves = \<lparr>tk_id = ''t2'', tk_status = ''PENDING''\<rparr>"

definition planner_events :: "planner_event list" where
  "planner_events = [PlansRead [plan_a, plan_b], EffectRead ''a'' 1 [cells], DoneTask ''t1'', TaskCompleted ''t1'' (Some ''a'')]"

theorem planner_one_change_witness:
  "allowed planner_guard planner_step planner0 planner_events \<and>
   (let s = run planner_step planner0 planner_events in handlers s \<le> 1 \<and> rv_busy s = (handlers s = 1))"
proof -
  have a: "allowed planner_guard planner_step planner0 planner_events" by code_simp
  show ?thesis unfolding Let_def using a planner_one_change [OF run_reachable [OF refl a]] by blast
qed

text \<open>
  After a plan is created the first plan of the list is shown, whichever was shown before.
\<close>

theorem creation_shows_first_plan:
  assumes "NewPlan v \<in> set (rv_calls s)"
  shows "let t = run planner_step s [PlanCreated v, PlansRead (p # ps)] in rv_active t = Some p \<and> rv_plans t = Some (p # ps)"
  using assms by (simp add: plans_read_def show_plan_def planner_call_def planner_gone_def)

theorem creation_shows_first_plan_witness:
  "let s = run planner_step planner0 [PlansRead [plan_a, plan_b], ShowPlan plan_b, TypeSubject ''Art'', CreatePlan];
       t = run planner_step s [PlanCreated ''Art'', PlansRead [plan_a, plan_b]] in
   rv_active s = Some plan_b \<and> rv_active t = Some plan_a"
proof -
  let ?s = "run planner_step planner0 [PlansRead [plan_a, plan_b], ShowPlan plan_b, TypeSubject ''Art'', CreatePlan]"
  have "NewPlan ''Art'' \<in> set (rv_calls ?s)" "rv_active ?s = Some plan_b" by code_simp+
  then show ?thesis using creation_shows_first_plan [of "''Art''" ?s plan_a "[plan_b]"] unfolding Let_def by blast
qed

text \<open>
  The effect's answers are dropped once another plan is shown, a handler's are not: a task that
  is done while the user turns to another plan puts the first plan's tasks under the second.
\<close>

theorem tasks_of_other_plan:
  assumes "TasksAgain i \<in> set (rv_calls s)" "rv_active s = Some q" "EffectTasks (pl_id q) (rv_effect s) \<in> set (rv_calls s)"
  shows "let t = run planner_step s [EffectRead (pl_id q) (rv_effect s) us, TasksRead i ts] in
    allowed planner_guard planner_step s [EffectRead (pl_id q) (rv_effect s) us, TasksRead i ts] \<and>
    rv_active t = Some q \<and> rv_tasks t = ts"
  using assms by (auto simp: Let_def planner_gone_def in_set_remove1)

theorem tasks_of_other_plan_witness:
  "let t = run planner_step planner0 (planner_events @ [ShowPlan plan_b, EffectRead ''b'' 2 [waves], TasksRead ''a'' [cells]]) in
   rv_active t = Some plan_b \<and> rv_tasks t = [cells]"
proof -
  let ?s = "run planner_step planner0 (planner_events @ [ShowPlan plan_b])"
  have "TasksAgain ''a'' \<in> set (rv_calls ?s)" "rv_active ?s = Some plan_b" "EffectTasks (pl_id plan_b) (rv_effect ?s) \<in> set (rv_calls ?s)"
    "rv_effect ?s = 2" "pl_id plan_b = ''b''" by code_simp+
  then show ?thesis using tasks_of_other_plan [of "''a''" ?s plan_b "[waves]" "[cells]"] by (simp add: Let_def)
qed

end
