(* ===== verification/TutorDashboard.thy ===== *)
theory TutorDashboard
  imports Machine Http JsDecimal LearningStats
begin

text \<open>
  A tutor's dashboard (\<open>client/app/tutor-dashboard/page.tsx\<close>): the lists it makes of the lessons,
  the account for payouts with the table of banks (\<open>client/features/vetting/banks.ts\<close>), the
  weekly slots and the requests to teach a cohort. The page is a machine over its hooks, the
  data of its queries, the calls in flight and a log of what was sent.
\<close>

section \<open>Lessons\<close>

record tutor_lesson =
  tl_id :: jsstring
  tl_start :: int \<comment> \<open>milliseconds\<close>
  tl_status :: jsstring
  tl_cohort :: "jsstring option"

definition today :: "tutor_lesson list \<Rightarrow> tutor_lesson list" where
  "today ls = filter (\<lambda>l. tl_status l = ''SCHEDULED'' \<or> tl_status l = ''ONGOING'') ls"

definition recent :: "tutor_lesson list \<Rightarrow> tutor_lesson list" where
  "recent ls = filter (\<lambda>l. tl_status l = ''COMPLETED'' \<or> tl_status l = ''NO_SHOW'') ls"

definition upcoming :: "tutor_lesson list \<Rightarrow> tutor_lesson list" where
  "upcoming ls = sort_key tl_start (today ls)"

definition all_lessons :: "tutor_lesson list \<Rightarrow> tutor_lesson list" where
  "all_lessons ls = sort_key (\<lambda>l. - tl_start l) ls"

text \<open>The grouping by cohort: a \<open>Map\<close> in order of insertion, with the number of lessons.\<close>

definition cohort_key :: "tutor_lesson \<Rightarrow> jsstring" where
  "cohort_key l = (case tl_cohort l of None \<Rightarrow> ''none'' | Some c \<Rightarrow> c)"

definition lookup0 :: "jsstring \<Rightarrow> (jsstring \<times> nat) list \<Rightarrow> nat" where
  "lookup0 c m = (case map_of m c of None \<Rightarrow> 0 | Some n \<Rightarrow> n)"

fun group_lessons :: "tutor_lesson list \<Rightarrow> (jsstring \<times> nat) list \<Rightarrow> (jsstring \<times> nat) list" where
  "group_lessons [] m = m"
| "group_lessons (l # ls) m = group_lessons ls (put_answer (cohort_key l) (lookup0 (cohort_key l) m + 1) m)"

record course_card =
  cc_cohort :: jsstring
  cc_title :: jsstring
  cc_lessons :: nat
  cc_enrolled :: nat
  cc_capacity :: nat

text \<open>\<open>getCohort\<close> is asked for each; \<open>ask\<close> is its answer: title, enrolled, capacity.\<close>

definition course_card :: "(jsstring \<Rightarrow> (jsstring \<times> nat \<times> nat) option) \<Rightarrow> jsstring \<times> nat \<Rightarrow> course_card" where
  "course_card ask cn =
     (case ask (fst cn) of
        Some (title, enrolled, capacity) \<Rightarrow> \<lparr>cc_cohort = fst cn, cc_title = title, cc_lessons = snd cn, cc_enrolled = enrolled, cc_capacity = capacity\<rparr>
      | None \<Rightarrow> \<lparr>cc_cohort = fst cn, cc_title = ''Cohort'', cc_lessons = snd cn, cc_enrolled = 0, cc_capacity = 0\<rparr>)"

definition teaching_cohorts :: "(jsstring \<Rightarrow> (jsstring \<times> nat \<times> nat) option) \<Rightarrow> tutor_lesson list \<Rightarrow> course_card list" where
  "teaching_cohorts ask ls = map (course_card ask) (filter (\<lambda>cn. fst cn \<noteq> ''none'') (group_lessons ls []))"

definition card_progress :: "course_card \<Rightarrow> int" where
  "card_progress c = (if 0 < cc_capacity c then percent (cc_enrolled c) (cc_capacity c) else 0)"

section \<open>Profiles and banks\<close>

record tutor_profile =
  tp_id :: jsstring
  tp_status :: jsstring
  tp_bio :: "jsstring option"
  tp_headline :: "jsstring option"
  tp_rate :: "rat option"
  tp_online :: bool
  tp_inPerson :: bool
  tp_bankName :: "jsstring option"
  tp_bankCode :: "jsstring option"
  tp_number :: "jsstring option"
  tp_holder :: "jsstring option"

definition text_or :: "jsstring option \<Rightarrow> jsstring" where
  "text_or v = (case v of None \<Rightarrow> [] | Some t \<Rightarrow> t)"

definition profileCompletion :: "tutor_profile option \<Rightarrow> int" where
  "profileCompletion p =
     (case p of
        None \<Rightarrow> 0
      | Some p \<Rightarrow> min 100 (40 + (if text_or (tp_bio p) \<noteq> [] then 20 else 0) + (if text_or (tp_headline p) \<noteq> [] then 10 else 0) +
          (if (case tp_rate p of None \<Rightarrow> 0 | Some r \<Rightarrow> r) > 0 then 15 else 0) + (if tp_online p \<or> tp_inPerson p then 15 else 0)))"

text \<open>Names and codes.\<close>

definition NIGERIAN_BANKS :: "(jsstring \<times> jsstring) list" where
  "NIGERIAN_BANKS =
    [(''Access Bank'', ''044''),
     (''Citibank Nigeria'', ''023''),
     (''Ecobank Nigeria'', ''050''),
     (''Fidelity Bank'', ''070''),
     (''First Bank of Nigeria'', ''011''),
     (''First City Monument Bank'', ''214''),
     (''Globus Bank'', ''00103''),
     (''Guaranty Trust Bank (GTBank)'', ''058''),
     (''Heritage Bank'', ''030''),
     (''Jaiz Bank'', ''301''),
     (''Keystone Bank'', ''082''),
     (''Kuda Microfinance Bank'', ''50211''),
     (''Moniepoint Microfinance Bank'', ''50515''),
     (''Opay'', ''999992''),
     (''Palmpay'', ''999991''),
     (''Parallex Bank'', ''104''),
     (''Polaris Bank'', ''076''),
     (''Providus Bank'', ''101''),
     (''Stanbic IBTC Bank'', ''221''),
     (''Standard Chartered Bank'', ''068''),
     (''Sterling Bank'', ''232''),
     (''SunTrust Bank'', ''100''),
     (''Taj Bank'', ''302''),
     (''Union Bank of Nigeria'', ''032''),
     (''United Bank for Africa (UBA)'', ''033''),
     (''Unity Bank'', ''215''),
     (''VFD Microfinance Bank'', ''566''),
     (''Wema Bank'', ''035''),
     (''Zenith Bank'', ''057'')]"

definition bankNameForCode :: "jsstring \<Rightarrow> jsstring" where
  "bankNameForCode code = (case find (\<lambda>b. snd b = code) NIGERIAN_BANKS of None \<Rightarrow> [] | Some b \<Rightarrow> fst b)"

record bank_form =
  bf_name :: jsstring
  bf_code :: jsstring
  bf_number :: jsstring
  bf_holder :: jsstring

definition bank_form0 :: bank_form where
  "bank_form0 = \<lparr>bf_name = [], bf_code = [], bf_number = [], bf_holder = []\<rparr>"

definition prefilled :: "tutor_profile \<Rightarrow> bank_form" where
  "prefilled p = \<lparr>bf_name = text_or (tp_bankName p), bf_code = text_or (tp_bankCode p), bf_number = text_or (tp_number p), bf_holder = text_or (tp_holder p)\<rparr>"

text \<open>The dependencies of the effect that fills the form.\<close>

definition bank_deps :: "tutor_profile option \<Rightarrow> jsstring option \<times> jsstring option \<times> jsstring option" where
  "bank_deps p = (case p of None \<Rightarrow> (None, None, None) | Some p \<Rightarrow> (tp_bankName p, tp_number p, tp_holder p))"

section \<open>The page\<close>

record weekly_slot =
  ws_day :: nat
  ws_start :: jsstring
  ws_end :: jsstring

datatype dash_call =
    UpdateBank jsstring jsstring "jsstring option" jsstring jsstring \<comment> \<open>profile, name, code, number, holder\<close>
  | AddSlot weekly_slot
  | RemoveSlot jsstring
  | JoinCohort jsstring

record dash =
  td_profile :: "tutor_profile option"
  td_deps :: "jsstring option \<times> jsstring option \<times> jsstring option"
  td_bank :: bank_form
  td_saving :: bool
  td_error :: "jsstring option"
  td_newSlot :: weekly_slot
  td_slots :: "jsstring list"
  td_cohorts :: "(jsstring \<times> jsstring option) list" \<comment> \<open>with the tutor that teaches it\<close>
  td_calls :: "dash_call list"
  td_sent :: "dash_call list"
  td_toasts :: "jsstring list"

definition dash0 :: dash where
  "dash0 = \<lparr>td_profile = None, td_deps = bank_deps None, td_bank = bank_form0, td_saving = False, td_error = None,
     td_newSlot = \<lparr>ws_day = 1, ws_start = ''16:00'', ws_end = ''17:00''\<rparr>, td_slots = [], td_cohorts = [], td_calls = [], td_sent = [], td_toasts = []\<rparr>"

definition dash_call :: "dash_call \<Rightarrow> dash \<Rightarrow> dash" where
  "dash_call c s = s\<lparr>td_calls := td_calls s @ [c], td_sent := td_sent s @ [c]\<rparr>"

definition dash_gone :: "dash_call \<Rightarrow> dash \<Rightarrow> dash" where
  "dash_gone c s = s\<lparr>td_calls := remove1 c (td_calls s)\<rparr>"

definition dash_toast :: "jsstring \<Rightarrow> dash \<Rightarrow> dash" where
  "dash_toast m s = s\<lparr>td_toasts := td_toasts s @ [m]\<rparr>"

definition profile_read :: "tutor_profile option \<Rightarrow> dash \<Rightarrow> dash" where
  "profile_read p s =
     s\<lparr>td_profile := p, td_deps := bank_deps p,
       td_bank := (case p of None \<Rightarrow> td_bank s | Some q \<Rightarrow> if bank_deps p \<noteq> td_deps s then prefilled q else td_bank s)\<rparr>"

definition or_undefined :: "jsstring \<Rightarrow> jsstring option" where
  "or_undefined v = (if v = [] then None else Some v)"

definition bank_update :: "tutor_profile \<Rightarrow> bank_form \<Rightarrow> dash_call" where
  "bank_update p b = UpdateBank (tp_id p) (trim (bf_name b)) (or_undefined (trim (bf_code b))) (trim (bf_number b)) (trim (bf_holder b))"

definition save_bank :: "dash \<Rightarrow> dash" where
  "save_bank s = (case td_profile s of None \<Rightarrow> s | Some p \<Rightarrow> dash_call (bank_update p (td_bank s)) (s\<lparr>td_saving := True, td_error := None\<rparr>))"

fun is_bank :: "dash_call \<Rightarrow> bool" where
  "is_bank (UpdateBank p n c a h) = True"
| "is_bank c = False"

fun is_slot :: "dash_call \<Rightarrow> bool" where
  "is_slot (AddSlot w) = True"
| "is_slot c = False"

fun is_join :: "dash_call \<Rightarrow> bool" where
  "is_join (JoinCohort c) = True"
| "is_join c = False"

definition pending :: "(dash_call \<Rightarrow> bool) \<Rightarrow> dash \<Rightarrow> bool" where
  "pending P s = list_ex P (td_calls s)"

definition approved :: "dash \<Rightarrow> bool" where
  "approved s = (case td_profile s of None \<Rightarrow> False | Some p \<Rightarrow> tp_status p = ''APPROVED'')"

definition teaches :: "dash \<Rightarrow> jsstring \<times> jsstring option \<Rightarrow> bool" where
  "teaches s c = (case td_profile s of None \<Rightarrow> False | Some p \<Rightarrow> snd c = Some (tp_id p))"

datatype dash_event =
    ProfileRead "tutor_profile option" | SlotsRead "jsstring list" | CohortsRead "(jsstring \<times> jsstring option) list"
  | PickBank jsstring | TypeNumber jsstring | TypeHolder jsstring | SaveBank | BankSaved dash_call | BankLost dash_call js_exn
  | EditSlot weekly_slot | AddSlotClick | SlotAdded weekly_slot | SlotLost weekly_slot js_exn | RemoveClick jsstring | SlotRemoved jsstring | RemoveLost jsstring
  | JoinClick jsstring | Joined jsstring | JoinLost jsstring js_exn

text \<open>The tabs \<open>Earnings\<close>, \<open>Availability\<close> and \<open>Cohorts\<close>, side by side.\<close>

definition dash_view :: "dash \<Rightarrow> dash_event widget list" where
  "dash_view s =
     [Btn (if td_saving s then ''Saving'' @ ellipsis else ''Save bank details'') (\<not> td_saving s) SaveBank] @
     [Btn (if pending is_slot s then ''Adding'' @ ellipsis else ''+ Add slot'') (\<not> pending is_slot s) AddSlotClick] @
     map (\<lambda>i. Btn ''Remove'' True (RemoveClick i)) (td_slots s) @
     map (\<lambda>c. Btn ''Request to join'' (\<not> teaches s c \<and> approved s \<and> \<not> pending is_join s) (JoinClick (fst c))) (td_cohorts s)"

text \<open>The service stores account numbers of digits. The select offers the banks and none.\<close>

fun dash_guard :: "dash \<Rightarrow> dash_event \<Rightarrow> bool" where
  "dash_guard s (ProfileRead p) = (case p of None \<Rightarrow> True | Some q \<Rightarrow> list_all is_digit (text_or (tp_number q)))"
| "dash_guard s (SlotsRead xs) = True"
| "dash_guard s (CohortsRead xs) = True"
| "dash_guard s (PickBank c) = (c = [] \<or> c \<in> snd ` set NIGERIAN_BANKS)"
| "dash_guard s (TypeNumber v) = True"
| "dash_guard s (TypeHolder v) = True"
| "dash_guard s (EditSlot w) = (ws_day w < 7)"
| "dash_guard s (BankSaved c) = (is_bank c \<and> c \<in> set (td_calls s))"
| "dash_guard s (BankLost c e) = (is_bank c \<and> c \<in> set (td_calls s))"
| "dash_guard s (SlotAdded w) = (AddSlot w \<in> set (td_calls s))"
| "dash_guard s (SlotLost w e) = (AddSlot w \<in> set (td_calls s))"
| "dash_guard s (SlotRemoved i) = (RemoveSlot i \<in> set (td_calls s))"
| "dash_guard s (RemoveLost i) = (RemoveSlot i \<in> set (td_calls s))"
| "dash_guard s (Joined c) = (JoinCohort c \<in> set (td_calls s))"
| "dash_guard s (JoinLost c e) = (JoinCohort c \<in> set (td_calls s))"
| "dash_guard s e = (e \<in> set (offered (dash_view s)))"

fun dash_step :: "dash \<Rightarrow> dash_event \<Rightarrow> dash" where
  "dash_step s (ProfileRead p) = profile_read p s"
| "dash_step s (SlotsRead xs) = s\<lparr>td_slots := xs\<rparr>"
| "dash_step s (CohortsRead xs) = s\<lparr>td_cohorts := xs\<rparr>"
| "dash_step s (PickBank c) = s\<lparr>td_bank := (td_bank s)\<lparr>bf_code := c, bf_name := bankNameForCode c\<rparr>\<rparr>"
| "dash_step s (TypeNumber v) = s\<lparr>td_bank := (td_bank s)\<lparr>bf_number := filter is_digit v\<rparr>\<rparr>"
| "dash_step s (TypeHolder v) = s\<lparr>td_bank := (td_bank s)\<lparr>bf_holder := v\<rparr>\<rparr>"
| "dash_step s SaveBank = save_bank s"
| "dash_step s (BankSaved c) = dash_toast (''Bank details saved '' @ em_dash @ '' payouts will go to this account'') ((dash_gone c s)\<lparr>td_saving := False\<rparr>)"
| "dash_step s (BankLost c e) = (dash_gone c s)\<lparr>td_error := Some (message_or ''Could not save bank details'' e), td_saving := False\<rparr>"
| "dash_step s (EditSlot w) = s\<lparr>td_newSlot := w\<rparr>"
| "dash_step s AddSlotClick = dash_call (AddSlot (td_newSlot s)) s"
| "dash_step s (SlotAdded w) = dash_toast ''Availability slot added'' (dash_gone (AddSlot w) s)"
| "dash_step s (SlotLost w e) = dash_toast (message_or ''Could not add slot'' e) (dash_gone (AddSlot w) s)"
| "dash_step s (RemoveClick i) = dash_call (RemoveSlot i) s"
| "dash_step s (SlotRemoved i) = dash_toast ''Slot removed'' (dash_gone (RemoveSlot i) s)"
| "dash_step s (RemoveLost i) = dash_gone (RemoveSlot i) s"
| "dash_step s (JoinClick c) = dash_call (JoinCohort c) s"
| "dash_step s (Joined c) = dash_toast (''Join request sent '' @ em_dash @ '' admin will review'') (dash_gone (JoinCohort c) s)"
| "dash_step s (JoinLost c e) = dash_toast (message_or ''Could not request join'' e) (dash_gone (JoinCohort c) s)"

section \<open>Course cards\<close>

lemma lookup0_put: "lookup0 c (put_answer k n m) = (if c = k then n else lookup0 c m)"
  by (induction k n m rule: put_answer.induct) (auto simp: lookup0_def)

lemma lookup0_group: "lookup0 c (group_lessons ls m) = lookup0 c m + length (filter (\<lambda>l. cohort_key l = c) ls)"
  by (induction ls m rule: group_lessons.induct) (simp_all add: lookup0_put)

lemma group_distinct: "distinct (map fst m) \<Longrightarrow> distinct (map fst (group_lessons ls m))"
  by (induction ls m rule: group_lessons.induct) (simp_all add: distinct_put_answer)

lemma lookup0_mem: "distinct (map fst m) \<Longrightarrow> (c, n) \<in> set m \<Longrightarrow> lookup0 c m = n"
  by (simp add: lookup0_def)

lemma sum_put: "sum_list (map snd (filter (\<lambda>a. P (fst a)) (put_answer k (lookup0 k m + 1) m))) = sum_list (map snd (filter (\<lambda>a. P (fst a)) m)) + (if P k then 1 else 0)"
proof (induction m)
  case (Cons x m)
  obtain k' v where x: "x = (k', v)" by (cases x)
  then show ?case using Cons by (cases "k' = k") (auto simp: lookup0_def)
qed (simp add: lookup0_def)

lemma sum_group: "sum_list (map snd (filter (\<lambda>a. P (fst a)) (group_lessons ls m))) =
   sum_list (map snd (filter (\<lambda>a. P (fst a)) m)) + length (filter (\<lambda>l. P (cohort_key l)) ls)"
proof (induction ls m rule: group_lessons.induct)
  case (2 l ls m)
  then show ?case using sum_put [of P "cohort_key l" m] by simp
qed simp

lemma course_card_fields [simp]: "cc_cohort (course_card ask cn) = fst cn" "cc_lessons (course_card ask cn) = snd cn"
  by (simp_all add: course_card_def split: option.split)

text \<open>
  Each cohort has one card, with the number of its lessons, whether or not the cohort could be
  read; together the cards count the lessons that belong to a cohort.
\<close>

theorem cards_count_lessons:
  "distinct (map cc_cohort (teaching_cohorts ask ls)) \<and>
   list_all (\<lambda>c. cc_lessons c = length (filter (\<lambda>l. cohort_key l = cc_cohort c) ls)) (teaching_cohorts ask ls) \<and>
   sum_list (map cc_lessons (teaching_cohorts ask ls)) = length (filter (\<lambda>l. cohort_key l \<noteq> ''none'') ls)"
proof -
  let ?g = "group_lessons ls []"
  have d: "distinct (map fst ?g)" by (rule group_distinct) simp
  have m: "map cc_cohort (teaching_cohorts ask ls) = map fst (filter (\<lambda>cn. fst cn \<noteq> ''none'') ?g)"
    "map cc_lessons (teaching_cohorts ask ls) = map snd (filter (\<lambda>cn. fst cn \<noteq> ''none'') ?g)"
    by (simp_all add: teaching_cohorts_def)
  have "list_all (\<lambda>cn. snd cn = length (filter (\<lambda>l. cohort_key l = fst cn) ls)) ?g"
    unfolding list_all_iff using lookup0_mem [OF d] lookup0_group [of _ ls "[]"] by (auto simp: lookup0_def)
  then have "list_all (\<lambda>c. cc_lessons c = length (filter (\<lambda>l. cohort_key l = cc_cohort c) ls)) (teaching_cohorts ask ls)"
    by (auto simp: teaching_cohorts_def list_all_iff)
  moreover have "sum_list (map cc_lessons (teaching_cohorts ask ls)) = length (filter (\<lambda>l. cohort_key l \<noteq> ''none'') ls)"
    unfolding m using sum_group [of "\<lambda>c. c \<noteq> ''none''" ls "[]"] by simp
  moreover have "distinct (map cc_cohort (teaching_cohorts ask ls))" unfolding m using d by simp
  ultimately show ?thesis by blast
qed

text \<open>
  \<open>Today\<close> is a status, not a day: the panel has every lesson that is scheduled or under way, the
  earliest first.
\<close>

theorem today_ignores_the_date:
  "set (upcoming ls) = {l \<in> set ls. tl_status l = ''SCHEDULED'' \<or> tl_status l = ''ONGOING''} \<and> sorted (map tl_start (upcoming ls)) \<and>
   map (\<lambda>l. l\<lparr>tl_start := 0\<rparr>) (today ls) = today (map (\<lambda>l. l\<lparr>tl_start := 0\<rparr>) ls)"
proof -
  have "map (\<lambda>l. l\<lparr>tl_start := 0\<rparr>) (today ls) = today (map (\<lambda>l. l\<lparr>tl_start := 0\<rparr>) ls)"
    by (induction ls) (simp_all add: today_def)
  then show ?thesis by (auto simp: upcoming_def today_def)
qed

section \<open>Profiles and banks\<close>

text \<open>A profile is complete when it has a biography, a headline, a rate and a way to teach.\<close>

theorem completion_bounds:
  "0 \<le> profileCompletion p \<and> profileCompletion p \<le> 100 \<and>
   (profileCompletion p = 100 \<longleftrightarrow> (case p of
      None \<Rightarrow> False
    | Some q \<Rightarrow> text_or (tp_bio q) \<noteq> [] \<and> text_or (tp_headline q) \<noteq> [] \<and> (case tp_rate q of None \<Rightarrow> False | Some r \<Rightarrow> 0 < r) \<and> (tp_online q \<or> tp_inPerson q)))"
proof (cases p)
  case (Some q)
  then show ?thesis by (cases "tp_rate q") (simp_all add: profileCompletion_def)
qed (simp add: profileCompletion_def)

lemma banks_ok: "list_all (\<lambda>b. bankNameForCode (snd b) = fst b \<and> fst b \<noteq> [] \<and> snd b \<noteq> []) NIGERIAN_BANKS"
  by code_simp

text \<open>Every bank of the select is found by its code, and codes are digits.\<close>

theorem bank_code_roundtrip:
  "list_all (\<lambda>b. bankNameForCode (snd b) = fst b \<and> list_all is_digit (snd b)) NIGERIAN_BANKS \<and> bankNameForCode [] = []"
  by code_simp

section \<open>What is sent\<close>

fun call_ok :: "dash_call \<Rightarrow> bool" where
  "call_ok (UpdateBank p n c a h) = list_all is_digit a"
| "call_ok (AddSlot w) = (ws_day w < 7)"
| "call_ok c = True"

definition count :: "(dash_call \<Rightarrow> bool) \<Rightarrow> dash \<Rightarrow> nat" where
  "count P s = length (filter P (td_calls s))"

definition dash_inv :: "dash \<Rightarrow> bool" where
  "dash_inv s =
     (list_all call_ok (td_sent s) \<and> list_all is_digit (bf_number (td_bank s)) \<and> ws_day (td_newSlot s) < 7 \<and>
      count is_bank s = (if td_saving s then 1 else 0) \<and> count is_slot s \<le> 1 \<and> count is_join s \<le> 1)"

lemma list_all_trim: "list_all P t \<Longrightarrow> list_all P (trim t)"
  unfolding trim_def by (auto simp: list_all_iff dest!: set_dropWhileD)

lemma count_simps [simp]:
  "count P (s\<lparr>td_toasts := t\<rparr>) = count P s" "count P (s\<lparr>td_saving := b\<rparr>) = count P s" "count P (s\<lparr>td_error := x\<rparr>) = count P s"
  "count P (s\<lparr>td_bank := k\<rparr>) = count P s" "count P (s\<lparr>td_newSlot := w\<rparr>) = count P s" "count P (s\<lparr>td_slots := xs\<rparr>) = count P s"
  "count P (s\<lparr>td_cohorts := cs\<rparr>) = count P s" "count P (profile_read p s) = count P s" "count P (dash_toast m s) = count P s"
  by (simp_all add: count_def profile_read_def dash_toast_def)

lemma count_call [simp]: "count P (dash_call c s) = count P s + (if P c then 1 else 0)"
  by (simp add: count_def dash_call_def)

lemma count_gone: "c \<in> set (td_calls s) \<Longrightarrow> count P (dash_gone c s) + (if P c then 1 else 0) = count P s"
  using count_remove1 [of c "td_calls s" P] by (simp add: count_def dash_gone_def)

lemma not_pending_count: "\<not> pending P s \<Longrightarrow> count P s = 0"
  by (auto simp: count_def pending_def list_ex_iff filter_empty_conv)

lemma dash_keeps [simp]:
  "td_sent (dash_gone c s) = td_sent s" "td_bank (dash_gone c s) = td_bank s" "td_newSlot (dash_gone c s) = td_newSlot s" "td_saving (dash_gone c s) = td_saving s"
  "td_sent (dash_toast m s) = td_sent s" "td_bank (dash_toast m s) = td_bank s" "td_newSlot (dash_toast m s) = td_newSlot s" "td_saving (dash_toast m s) = td_saving s"
  "td_sent (dash_call c s) = td_sent s @ [c]" "td_bank (dash_call c s) = td_bank s" "td_newSlot (dash_call c s) = td_newSlot s" "td_saving (dash_call c s) = td_saving s"
  by (simp_all add: dash_gone_def dash_toast_def dash_call_def)

lemma dash_offers:
  "e \<in> set (offered (dash_view s)) \<Longrightarrow> (case e of
      SaveBank \<Rightarrow> \<not> td_saving s
    | AddSlotClick \<Rightarrow> \<not> pending is_slot s
    | RemoveClick i \<Rightarrow> i \<in> set (td_slots s)
    | JoinClick c \<Rightarrow> approved s \<and> \<not> pending is_join s \<and> (\<exists>t. (c, t) \<in> set (td_cohorts s) \<and> \<not> teaches s (c, t))
    | _ \<Rightarrow> False)"
  unfolding dash_view_def in_offered by force

lemma save_bank_inv: "dash_inv s \<Longrightarrow> \<not> td_saving s \<Longrightarrow> dash_inv (save_bank s)"
  by (simp add: dash_inv_def save_bank_def bank_update_def list_all_trim split: option.split)

lemma profile_read_inv: "dash_inv s \<Longrightarrow> dash_guard s (ProfileRead p) \<Longrightarrow> dash_inv (profile_read p s)"
  unfolding dash_inv_def count_simps by (cases p) (simp_all add: profile_read_def prefilled_def)

lemma dash_gone_inv:
  assumes "dash_inv s" "c \<in> set (td_calls s)"
  shows "if is_bank c then dash_inv ((dash_gone c s)\<lparr>td_saving := False\<rparr>) else dash_inv (dash_gone c s)"
  using assms(1) count_gone [OF assms(2), of is_bank] count_gone [OF assms(2), of is_slot] count_gone [OF assms(2), of is_join]
  by (cases c) (auto simp: dash_inv_def split: if_splits)

lemma dash_toast_inv [simp]: "dash_inv (dash_toast m s) = dash_inv s"
  by (simp add: dash_inv_def)

lemma dash_inv_step: "dash_inv s \<Longrightarrow> dash_guard s e \<Longrightarrow> dash_inv (dash_step s e)"
proof (cases e)
  case (ProfileRead p)
  assume "dash_inv s" "dash_guard s e"
  then show ?thesis using ProfileRead profile_read_inv by simp
next
  case SaveBank
  assume "dash_inv s" "dash_guard s e"
  then show ?thesis using SaveBank dash_offers [of e s] save_bank_inv by simp
next
  case (BankSaved c)
  assume "dash_inv s" "dash_guard s e"
  then show ?thesis using BankSaved dash_gone_inv [of s c] by simp
next
  case (BankLost c x)
  assume "dash_inv s" "dash_guard s e"
  then have "dash_inv ((dash_gone c s)\<lparr>td_saving := False\<rparr>)" using BankLost dash_gone_inv [of s c] by simp
  then show ?thesis using BankLost by (simp add: dash_inv_def)
next
  case AddSlotClick
  assume "dash_inv s" "dash_guard s e"
  then show ?thesis using AddSlotClick dash_offers [of e s] not_pending_count [of is_slot s] by (simp add: dash_inv_def)
next
  case (JoinClick c)
  assume "dash_inv s" "dash_guard s e"
  then show ?thesis using JoinClick dash_offers [of e s] not_pending_count [of is_join s] by (simp add: dash_inv_def)
next
  case (SlotAdded w)
  assume "dash_inv s" "dash_guard s e"
  then show ?thesis using SlotAdded dash_gone_inv [of s "AddSlot w"] by simp
next
  case (SlotLost w x)
  assume "dash_inv s" "dash_guard s e"
  then show ?thesis using SlotLost dash_gone_inv [of s "AddSlot w"] by simp
next
  case (SlotRemoved i)
  assume "dash_inv s" "dash_guard s e"
  then show ?thesis using SlotRemoved dash_gone_inv [of s "RemoveSlot i"] by simp
next
  case (RemoveLost i)
  assume "dash_inv s" "dash_guard s e"
  then show ?thesis using RemoveLost dash_gone_inv [of s "RemoveSlot i"] by simp
next
  case (Joined c)
  assume "dash_inv s" "dash_guard s e"
  then show ?thesis using Joined dash_gone_inv [of s "JoinCohort c"] by simp
next
  case (JoinLost c x)
  assume "dash_inv s" "dash_guard s e"
  then show ?thesis using JoinLost dash_gone_inv [of s "JoinCohort c"] by simp
qed (auto simp: dash_inv_def list_all_iff)

interpretation dashboard: bounded_machine "\<lambda>s. s = dash0" dash_guard dash_step dash_inv "\<lambda>s. count is_bank s + count is_slot s + count is_join s" 3
proof unfold_locales
  fix s assume "s = dash0"
  then show "dash_inv s" by (simp add: dash_inv_def dash0_def bank_form0_def count_def)
next
  fix s e assume "dash_inv s" "dash_guard s e"
  then show "dash_inv (dash_step s e)" by (rule dash_inv_step)
next
  fix s assume "dash_inv s"
  then show "count is_bank s + count is_slot s + count is_join s \<le> 3" by (simp add: dash_inv_def)
qed

definition some_tutor :: tutor_profile where
  "some_tutor = \<lparr>tp_id = ''t1'', tp_status = ''APPROVED'', tp_bio = None, tp_headline = None, tp_rate = None, tp_online = True, tp_inPerson = False,
     tp_bankName = Some ''Opay'', tp_bankCode = Some ''999992'', tp_number = Some ''0123456789'', tp_holder = Some ''Ada''\<rparr>"

definition dash_events :: "dash_event list" where
  "dash_events = [ProfileRead (Some some_tutor), CohortsRead [(''c1'', None), (''c2'', Some ''t1'')], SlotsRead [''w1''], TypeNumber ''98-76'', PickBank ''058'', SaveBank]"

lemma dash_example:
  "allowed dash_guard dash_step dash0 dash_events"
  "td_sent (run dash_step dash0 dash_events) = [UpdateBank ''t1'' ''Guaranty Trust Bank (GTBank)'' (Some ''058'') ''9876'' ''Ada'']"
  by code_simp+

text \<open>
  Account numbers are sent as digits and slots with a day of the week; one update of the
  account, one new slot and one request to join are under way at most.
\<close>

theorem dashboard_calls:
  assumes "reach (\<lambda>s. s = dash0) dash_guard dash_step s"
  shows "list_all call_ok (td_sent s) \<and> count is_bank s + count is_slot s + count is_join s \<le> 3 \<and> td_saving s = (count is_bank s = 1)"
  using dashboard.reach_inv [OF assms] dashboard.reach_load [OF assms] by (simp add: dash_inv_def)

theorem dashboard_calls_witness:
  "list_all call_ok [UpdateBank ''t1'' ''Guaranty Trust Bank (GTBank)'' (Some ''058'') ''9876'' ''Ada'']"
  using dashboard_calls [OF run_reachable [OF refl dash_example(1)]] unfolding dash_example(2) by blast

text \<open>
  The effect that fills the form does not depend on the code: when only the code of the account
  changed elsewhere, the form keeps the old one, and saving it puts the old one back.
\<close>

theorem stale_code_saved:
  assumes "td_deps s = bank_deps (Some p)" "td_bank s = prefilled p" "\<not> td_saving s" "list_all is_digit (text_or (tp_number p))"
  shows "let q = p\<lparr>tp_bankCode := c\<rparr> in
    allowed dash_guard dash_step s [ProfileRead (Some q), SaveBank] \<and>
    td_sent (run dash_step s [ProfileRead (Some q), SaveBank]) = td_sent s @ [bank_update p (prefilled p)]"
  using assms by (simp add: profile_read_def bank_deps_def save_bank_def bank_update_def dash_view_def)

theorem stale_code_saved_witness:
  "td_sent (run dash_step dash0 [ProfileRead (Some some_tutor), ProfileRead (Some (some_tutor\<lparr>tp_bankCode := Some ''058''\<rparr>)), SaveBank])
     = [UpdateBank ''t1'' ''Opay'' (Some ''999992'') ''0123456789'' ''Ada'']"
proof -
  let ?s = "run dash_step dash0 [ProfileRead (Some some_tutor)]"
  have f: "td_deps ?s = bank_deps (Some some_tutor)" "td_bank ?s = prefilled some_tutor" "\<not> td_saving ?s" "list_all is_digit (text_or (tp_number some_tutor))"
    "td_sent ?s = []" "bank_update some_tutor (prefilled some_tutor) = UpdateBank ''t1'' ''Opay'' (Some ''999992'') ''0123456789'' ''Ada''"
    by code_simp+
  show ?thesis using stale_code_saved [OF f(1-4), of "Some ''058''"] f(5,6) unfolding Let_def by simp
qed

text \<open>A profile that arrives with another account replaces what was typed.\<close>

theorem profile_discards_typing:
  assumes "td_deps s \<noteq> bank_deps (Some p)"
  shows "td_bank (run dash_step s [TypeHolder v, TypeNumber n, ProfileRead (Some p)]) = prefilled p"
  using assms by (simp add: profile_read_def)

theorem profile_discards_typing_witness:
  "bf_holder (td_bank (run dash_step dash0 [TypeHolder ''Bola'', TypeNumber ''1'', ProfileRead (Some some_tutor)])) = ''Ada''"
proof -
  have "td_deps dash0 \<noteq> bank_deps (Some some_tutor)" by code_simp
  from profile_discards_typing [OF this, of "''Bola''" "''1''"] show ?thesis by (simp add: prefilled_def some_tutor_def text_or_def)
qed

text \<open>
  Only an approved tutor asks to teach a cohort, and not one's own; but nothing remembers the
  request, and once it is through it can be made again.
\<close>

theorem join_request_repeats:
  assumes "dash_guard s (JoinClick c)"
  shows "approved s \<and>
    (let es = [JoinClick c, Joined c, JoinClick c] in
      allowed dash_guard dash_step s es \<and>
      td_sent (run dash_step s es) = td_sent s @ [JoinCohort c, JoinCohort c])"
proof -
  have a: "approved s" "\<not> pending is_join s" using dash_offers [of "JoinClick c" s] assms by auto
  let ?t = "dash_step (dash_step s (JoinClick c)) (Joined c)"
  have n: "JoinCohort c \<notin> set (td_calls s)" using a(2) by (auto simp: pending_def list_ex_iff)
  have calls: "td_calls ?t = td_calls s" using n by (simp add: dash_call_def dash_gone_def dash_toast_def remove1_append)
  have "dash_view ?t = dash_view s"
    using calls by (simp add: dash_view_def pending_def approved_def teaches_def dash_call_def dash_gone_def dash_toast_def cong: list.map_cong)
  then show ?thesis using a(1) assms by (simp add: dash_call_def)
qed

theorem join_request_repeats_witness:
  "td_sent (run dash_step (run dash_step dash0 (butlast dash_events)) [JoinClick ''c1'', Joined ''c1'', JoinClick ''c1'']) = [JoinCohort ''c1'', JoinCohort ''c1'']"
proof -
  have f: "dash_guard (run dash_step dash0 (butlast dash_events)) (JoinClick ''c1'')" "td_sent (run dash_step dash0 (butlast dash_events)) = []" by code_simp+
  show ?thesis using join_request_repeats [OF f(1)] f(2) by (simp add: Let_def)
qed

text \<open>
  A slot's button works while the slot is removed: a second click removes it again, and the
  failure of that is not shown.
\<close>

theorem removal_repeats_silently:
  assumes "i \<in> set (td_slots s)"
  shows "let es = [RemoveClick i, RemoveClick i, SlotRemoved i, RemoveLost i] in
    allowed dash_guard dash_step s es \<and> td_sent (run dash_step s es) = td_sent s @ [RemoveSlot i, RemoveSlot i] \<and>
    td_toasts (run dash_step s es) = td_toasts s @ [''Slot removed'']"
proof -
  have o: "i \<in> set (td_slots t) \<Longrightarrow> RemoveClick i \<in> set (offered (dash_view t))" for t unfolding dash_view_def in_offered by blast
  show ?thesis using assms o [of s] o [of "dash_call (RemoveSlot i) s"]
    by (auto simp: Let_def dash_call_def dash_gone_def dash_toast_def remove1_append in_set_remove1)
qed

theorem removal_repeats_silently_witness:
  "td_toasts (run dash_step (run dash_step dash0 [SlotsRead [''w1'']]) [RemoveClick ''w1'', RemoveClick ''w1'', SlotRemoved ''w1'', RemoveLost ''w1'']) = [''Slot removed'']"
  using removal_repeats_silently [of "''w1''" "run dash_step dash0 [SlotsRead [''w1'']]"] by (simp add: Let_def dash0_def)

end
