(* ===== verification/MobileEndpoints.thy ===== *)
theory MobileEndpoints
  imports Endpoints
begin

text \<open>
  The endpoint functions of the native app. Each is a path, a
  request and the use of the answer; \<open>run_endpoint\<close> runs it with a client.
\<close>

section \<open>\<open>mobile/src/lib/api.ts\<close>\<close>

definition recordLessonProgress :: "jsstring \<Rightarrow> json \<Rightarrow> endpoint" where
  "recordLessonProgress lessonId input =
     SEND ''POST'' (''/learning/lessons/'' @ lessonId @ ''/progress'') (JsonText input) Data"

definition getLessonProgress :: "jsstring \<Rightarrow> endpoint" where
  "getLessonProgress lessonId =
     GET (''/learning/lessons/'' @ lessonId @ ''/progress'') Data"

definition learnerQuery :: "jsstring option \<Rightarrow> jsstring" where
  "learnerQuery studentProfileId = opt_text studentProfileId (\<lambda>s. ''?student_profile_id='' @ encode_uri_component s)"

definition getMyLessonProgress :: "jsstring option \<Rightarrow> endpoint" where
  "getMyLessonProgress studentProfileId =
     GET (''/me/learning/progress'' @ learnerQuery studentProfileId) (DataOr (JArr []))"

definition listPracticeExams :: endpoint where
  "listPracticeExams =
     GET ''/learning/exams'' (DataOr (JArr []))"

definition getPracticePaper :: "jsstring \<Rightarrow> endpoint" where
  "getPracticePaper ident =
     GET (''/learning/exams/'' @ ident) Data"

definition startPracticeAttempt :: "jsstring \<Rightarrow> endpoint" where
  "startPracticeAttempt examId =
     SEND ''POST'' (''/learning/exams/'' @ examId @ ''/attempts'') NoBody Data"

definition submitPracticeAttempt :: "jsstring \<Rightarrow> json \<Rightarrow> endpoint" where
  "submitPracticeAttempt attemptId answers =
     SEND ''POST'' (''/learning/exams/attempts/'' @ attemptId @ ''/submit'') (JsonText (JObj [(''answers'',
       answers)])) Data"

definition listMyAttempts :: endpoint where
  "listMyAttempts =
     GET ''/learning/exams/attempts'' (DataOr (JArr []))"

definition getAttemptReview :: "jsstring \<Rightarrow> endpoint" where
  "getAttemptReview attemptId =
     GET (''/learning/exams/attempts/'' @ attemptId) Data"

definition listTutorExams :: endpoint where
  "listTutorExams =
     GET ''/tutor/exams'' (DataOr (JArr []))"

definition createTutorExam :: "json \<Rightarrow> endpoint" where
  "createTutorExam input =
     SEND ''POST'' ''/tutor/exams'' (JsonText input) Data"

definition getTutorExam :: "jsstring \<Rightarrow> endpoint" where
  "getTutorExam ident =
     GET (''/tutor/exams/'' @ ident) Data"

definition deleteTutorExam :: "jsstring \<Rightarrow> endpoint" where
  "deleteTutorExam ident =
     SEND ''DELETE'' (''/tutor/exams/'' @ ident) NoBody Discard"

definition listExamAttempts :: "jsstring \<Rightarrow> endpoint" where
  "listExamAttempts examId =
     GET (''/tutor/exams/'' @ examId @ ''/attempts'') (DataOr (JArr []))"

definition getAdminOverview :: endpoint where
  "getAdminOverview =
     GET ''/admin/overview'' Data"

definition sendAdminTestEmail :: endpoint where
  "sendAdminTestEmail =
     SEND ''POST'' ''/admin/email/test'' NoBody Data"

definition getGoogleAuthURL :: endpoint where
  "getGoogleAuthURL =
     GET ''/auth/google/url?mobile=1'' (Via (data_field ''url''))"

definition listBanks :: endpoint where
  "listBanks =
     GET ''/tutors/banks'' (DataOr (JArr []))"

definition resolveBankAccount :: "jsstring \<Rightarrow> jsstring \<Rightarrow> endpoint" where
  "resolveBankAccount accountNumber bankCode =
     SEND ''POST'' ''/tutors/banks/resolve'' (JsonText (JObj [(''account_number'', JStr accountNumber),
       (''bank_code'', JStr bankCode)])) (Via (data_field ''account_name''))"

definition getPlusStatus :: endpoint where
  "getPlusStatus =
     GET ''/me/plus'' Data"

definition getPlusDownloadUrl :: "jsstring \<Rightarrow> endpoint" where
  "getPlusDownloadUrl lessonId =
     SEND ''POST'' (''/me/plus/library/'' @ lessonId @ ''/download'') NoBody (Via (data_field_null
       ''video_url''))"

section \<open>\<open>mobile/src/lib/account.ts\<close>\<close>

definition updateProfile :: "json \<Rightarrow> endpoint" where
  "updateProfile input =
     SEND ''PUT'' ''/auth/me/profile'' (JsonText input) Data"

definition listLearners :: endpoint where
  "listLearners =
     GET ''/me/learners'' (DataOr (JArr []))"

definition createLearner :: "json \<Rightarrow> endpoint" where
  "createLearner input =
     SEND ''POST'' ''/me/learners'' (JsonText input) Data"

definition getReferralCode :: endpoint where
  "getReferralCode =
     GET ''/me/referral-code'' Data"

definition listReferrals :: endpoint where
  "listReferrals =
     GET ''/me/referrals'' (DataOr (JArr []))"

definition applyReferral :: "jsstring \<Rightarrow> endpoint" where
  "applyReferral code =
     SEND ''POST'' ''/referrals/apply'' (JsonText (JObj [(''code'', JStr code)])) Data"

definition listOrders :: endpoint where
  "listOrders =
     GET ''/me/orders'' (DataOr (JArr []))"

definition requestPasswordReset :: "jsstring \<Rightarrow> endpoint" where
  "requestPasswordReset email =
     SEND ''POST'' ''/auth/password-reset/request'' (JsonText (JObj [(''email'', JStr email)])) Data"

definition confirmPasswordReset :: "jsstring \<Rightarrow> jsstring \<Rightarrow> endpoint" where
  "confirmPasswordReset token newPassword =
     SEND ''POST'' ''/auth/password-reset/confirm'' (JsonText (JObj [(''token'', JStr token),
       (''new_password'', JStr newPassword)])) Data"

definition resendVerification :: "jsstring \<Rightarrow> endpoint" where
  "resendVerification email =
     SEND ''POST'' ''/auth/verify-email/request'' (JsonText (JObj [(''email'', JStr email)])) Data"

definition confirmVerification :: "jsstring \<Rightarrow> endpoint" where
  "confirmVerification token =
     SEND ''POST'' ''/auth/verify-email/confirm'' (JsonText (JObj [(''token'', JStr token)])) Data"

definition deleteAccount :: endpoint where
  "deleteAccount =
     SEND ''POST'' ''/auth/me/delete'' NoBody Data"

section \<open>\<open>mobile/src/lib/tutor.ts\<close>\<close>

definition getTutorEarnings :: endpoint where
  "getTutorEarnings =
     GET ''/me/earnings'' Data"

definition getTutorLessons :: endpoint where
  "getTutorLessons =
     GET ''/me/tutor-lessons'' (DataOr (JArr []))"

definition rescheduleTutorLesson :: "jsstring \<Rightarrow> jsstring \<Rightarrow> jsstring \<Rightarrow>
       endpoint" where
  "rescheduleTutorLesson lessonId startAt endAt =
     SEND ''POST'' (''/lessons/'' @ lessonId @ ''/reschedule'') (JsonText (JObj [(''start_at'', JStr
       startAt), (''end_at'', JStr endAt)])) Discard"

definition cancelTutorLesson :: "jsstring \<Rightarrow> endpoint" where
  "cancelTutorLesson lessonId =
     SEND ''POST'' (''/lessons/'' @ lessonId @ ''/cancel'') NoBody Discard"

definition getAvailability :: endpoint where
  "getAvailability =
     GET ''/me/availability'' (DataOr (JArr []))"

definition addAvailability :: "json \<Rightarrow> endpoint" where
  "addAvailability input =
     SEND ''POST'' ''/me/availability'' (JsonText input) Data"

definition deleteAvailability :: "jsstring \<Rightarrow> endpoint" where
  "deleteAvailability ident =
     SEND ''DELETE'' (''/me/availability/'' @ ident) NoBody Discard"

definition getConversations :: endpoint where
  "getConversations =
     GET ''/me/conversations'' (DataOr (JArr []))"

definition getMessages :: "jsstring \<Rightarrow> endpoint" where
  "getMessages conversationId =
     GET (''/me/conversations/'' @ conversationId @ ''/messages'') (DataOr (JArr []))"

definition sendMessage :: "jsstring \<Rightarrow> jsstring \<Rightarrow> endpoint" where
  "sendMessage conversationId body_json =
     SEND ''POST'' (''/me/conversations/'' @ conversationId @ ''/messages'') (JsonText (JObj [(''body'',
       JStr body_json)])) Data"

definition getCohort :: "jsstring \<Rightarrow> endpoint" where
  "getCohort ident =
     (GET (''/cohorts/'' @ ident) Data)\<lparr>ep_catch := Some (JNull)\<rparr>"

definition getTutorProfile :: endpoint where
  "getTutorProfile =
     GET ''/tutors/me/vetting/profile'' Data"

end
