(* ===== verification/PhoneHome.thy ===== *)
theory PhoneHome
  imports Machine MobileEndpoints LearningStats
begin

text \<open>
  The phone's screens of lessons: the pinned learner (\<open>mobile/src/lib/learner-context.tsx\<close>), the
  home screen (\<open>mobile/app/home.tsx\<close>), the course list (\<open>mobile/app/lms.tsx\<close>), the lists of
  lessons (\<open>mobile/app/my-lessons.tsx\<close>, \<open>mobile/app/tutor/index.tsx\<close>, \<open>schedule.tsx\<close>,
  \<open>lessons.tsx\<close>) and the progress screen (\<open>mobile/app/progress.tsx\<close>). What a screen computes is a
  function of the time and of what it received; what it asks for is a machine.
\<close>

section \<open>Lessons in time\<close>

record phone_lesson =
  pl_id :: jsstring
  pl_start :: "int option" \<comment> \<open>\<open>getTime()\<close>; \<open>None\<close> for \<open>NaN\<close>\<close>
  pl_status :: jsstring
  pl_cohort :: "jsstring option"
  pl_meeting :: bool
  pl_video :: bool

definition WEEK :: int where "WEEK = 7 * 24 * 3600 * 1000"

text \<open>Comparisons with \<open>NaN\<close> are false.\<close>

definition at_least :: "int \<Rightarrow> phone_lesson \<Rightarrow> bool" where
  "at_least t l = (case pl_start l of None \<Rightarrow> False | Some x \<Rightarrow> t \<le> x)"

definition less_than :: "int \<Rightarrow> phone_lesson \<Rightarrow> bool" where
  "less_than t l = (case pl_start l of None \<Rightarrow> False | Some x \<Rightarrow> x < t)"

definition at_most :: "int \<Rightarrow> phone_lesson \<Rightarrow> bool" where
  "at_most t l = (case pl_start l of None \<Rightarrow> False | Some x \<Rightarrow> x \<le> t)"

definition start_ms :: "phone_lesson \<Rightarrow> int" where
  "start_ms l = (case pl_start l of None \<Rightarrow> 0 | Some x \<Rightarrow> x)"

definition upcoming_from :: "int \<Rightarrow> phone_lesson list \<Rightarrow> phone_lesson list" where
  "upcoming_from now ls = sort_key start_ms (filter (at_least now) ls)"

definition past_before :: "int \<Rightarrow> phone_lesson list \<Rightarrow> phone_lesson list" where
  "past_before now ls = sort_key (\<lambda>l. - start_ms l) (filter (less_than now) ls)"

text \<open>The week of \<open>my-lessons.tsx\<close>, of home and of the tutor's hub, and that of the schedule.\<close>

definition my_lessons_week :: "int \<Rightarrow> phone_lesson list \<Rightarrow> phone_lesson list" where
  "my_lessons_week now ls = sort_key start_ms (filter (\<lambda>l. at_least now l \<and> less_than (now + WEEK) l) ls)"

definition home_week :: "int \<Rightarrow> phone_lesson list \<Rightarrow> phone_lesson list" where
  "home_week now ls = filter (\<lambda>l. at_least now l \<and> less_than (now + WEEK) l) ls"

definition hub_week :: "int \<Rightarrow> phone_lesson list \<Rightarrow> nat" where
  "hub_week now ls = length (filter (\<lambda>l. at_least now l \<and> less_than (now + WEEK) l) ls)"

definition schedule_week :: "int \<Rightarrow> phone_lesson list \<Rightarrow> phone_lesson list" where
  "schedule_week now ls = sort_key start_ms (filter (\<lambda>l. at_least now l \<and> at_most (now + WEEK) l) ls)"

text \<open>The schedule's days: a \<open>Map\<close> in order of insertion; \<open>day\<close> is \<open>toLocaleDateString\<close>.\<close>

definition schedule_days :: "(phone_lesson \<Rightarrow> jsstring) \<Rightarrow> int \<Rightarrow> phone_lesson list \<Rightarrow> (jsstring \<times> phone_lesson list) list" where
  "schedule_days day now ls = into_groups day (schedule_week now ls) []"

definition hub_upcoming :: "int \<Rightarrow> phone_lesson list \<Rightarrow> phone_lesson list" where
  "hub_upcoming now ls = take 3 (upcoming_from now ls)"

text \<open>Home: today's lessons between the two ends of the local day, and the one to show.\<close>

definition today_lessons :: "int \<Rightarrow> int \<Rightarrow> phone_lesson list \<Rightarrow> phone_lesson list" where
  "today_lessons day_start day_end ls = sort_key start_ms (filter (\<lambda>l. at_least day_start l \<and> at_most day_end l) ls)"

definition next_today :: "int \<Rightarrow> phone_lesson list \<Rightarrow> phone_lesson option" where
  "next_today now todays =
     (case find (at_least now) todays of
        Some l \<Rightarrow> Some l
      | None \<Rightarrow> (case todays of [] \<Rightarrow> None | l # _ \<Rightarrow> Some l))"

text \<open>The chip beside a lesson on home's list.\<close>

definition lesson_chip :: "phone_lesson \<Rightarrow> jsstring" where
  "lesson_chip l = (if pl_meeting l then ''LIVE'' else if pl_video l then ''ON-DEMAND'' else ''UPCOMING'')"

section \<open>Figures\<close>

record attempt =
  pa_submitted :: bool
  pa_score :: "rat option"

definition avgScore :: "attempt list \<Rightarrow> int option" where
  "avgScore as =
     (let done = filter pa_submitted as in
      if done = [] then None
      else Some (js_round (fl (foldl (\<lambda>n a. fl (n + (case pa_score a of None \<Rightarrow> 0 | Some x \<Rightarrow> x))) 0 done / of_nat (length done)))))"

definition watchedPct :: "phone_lesson list \<Rightarrow> (jsstring \<Rightarrow> bool) \<Rightarrow> int" where
  "watchedPct ls watched = percent (length (filter (\<lambda>l. watched (pl_id l)) ls)) (length ls)"

definition hero_width :: "phone_lesson list \<Rightarrow> (jsstring \<Rightarrow> bool) \<Rightarrow> int" where
  "hero_width ls watched = max (watchedPct ls watched) 4"

text \<open>\<open>Gauge\<close> and the stars of a report: \<open>repeat(Math.max(1, Math.min(5, rating)))\<close>.\<close>

definition gauge_pct :: "rat \<Rightarrow> int" where
  "gauge_pct rate = min 100 (js_round (fl (rate * 100)))"

definition stars :: "rat option \<Rightarrow> nat option" where
  "stars rating = map_option (\<lambda>r. nat \<lfloor>max 1 (min 5 r)\<rfloor>) rating"

definition unread_badge :: "nat \<Rightarrow> jsstring option" where
  "unread_badge n = (if n = 0 then None else Some (if 9 < n then ''9+'' else show_nat n))"

section \<open>Roles\<close>

definition home_isTutor :: "jsstring list \<Rightarrow> bool" where "home_isTutor roles = (''TUTOR'' \<in> set roles)"

definition home_isParent :: "jsstring list \<Rightarrow> bool" where
  "home_isParent roles = (''PARENT'' \<in> set roles \<and> ''STUDENT'' \<notin> set roles)"

definition home_isLearner :: "jsstring list \<Rightarrow> bool" where
  "home_isLearner roles = (''STUDENT'' \<in> set roles \<or> ''PARENT'' \<in> set roles)"

definition home_isAdmin :: "jsstring list \<Rightarrow> bool" where
  "home_isAdmin roles = (''ACADEMIC_ADMIN'' \<in> set roles \<or> ''SUPER_ADMIN'' \<in> set roles)"

text \<open>The tiles of home's quick actions and the button of its first card.\<close>

definition home_tiles :: "jsstring list \<Rightarrow> jsstring list" where
  "home_tiles roles =
     (if home_isTutor roles then [''/tutor/schedule'', ''/tutor/messages'', ''/tutor/earnings'', ''/tutor/exams'']
      else if home_isParent roles then [''/lms'', ''/practice'', ''/messages'', ''/progress'']
      else [''/lms'', ''/search'', ''/messages'', ''/saved''])"

definition home_cta :: "jsstring list \<Rightarrow> phone_lesson list \<Rightarrow> jsstring" where
  "home_cta roles upcoming = (if home_isTutor roles then ''/tutor/schedule'' else if upcoming \<noteq> [] then ''/lms'' else ''/subjects'')"

datatype lms_role = LmsTutor | LmsStudent | LmsOther

definition lms_role :: "jsstring list \<Rightarrow> lms_role" where
  "lms_role roles = (if ''TUTOR'' \<in> set roles then LmsTutor else if ''STUDENT'' \<in> set roles then LmsStudent else LmsOther)"

text \<open>
  The course cards of \<open>lms.tsx\<close>: groups in order of first lesson, and the title that the service
  gives for a cohort, unless there is none. \<open>received\<close> is what was asked for: \<open>None\<close> for the
  other roles, for whom nothing is.
\<close>

record phone_course =
  co_cohort :: jsstring
  co_title :: jsstring
  co_lessons :: "phone_lesson list"

definition course_key :: "phone_lesson \<Rightarrow> jsstring" where
  "course_key l = (case pl_cohort l of None \<Rightarrow> ''independent'' | Some c \<Rightarrow> c)"

definition course_title :: "(jsstring \<Rightarrow> jsstring option) \<Rightarrow> jsstring \<Rightarrow> jsstring" where
  "course_title ask c =
     (if c = ''independent'' then ''Independent lessons''
      else case ask c of None \<Rightarrow> ''Cohort course'' | Some t \<Rightarrow> if t = [] then ''Cohort course'' else t)"

definition phone_courses :: "(jsstring \<Rightarrow> jsstring option) \<Rightarrow> phone_lesson list \<Rightarrow> phone_course list" where
  "phone_courses ask ls = map (\<lambda>(c, xs). \<lparr>co_cohort = c, co_title = course_title ask c, co_lessons = xs\<rparr>) (into_groups course_key ls [])"

definition lms_paths :: "jsstring list \<Rightarrow> jsstring option \<Rightarrow> jsstring list" where
  "lms_paths roles learner =
     (case lms_role roles of
        LmsTutor \<Rightarrow> [''/me/tutor-lessons'', ''/tutor/exams'']
      | LmsStudent \<Rightarrow> [''/me/lessons'' @ learnerQuery learner, ''/me/learning/progress'' @ learnerQuery learner, ''/learning/exams/attempts'']
      | LmsOther \<Rightarrow> [])"

definition lms_courses :: "jsstring list \<Rightarrow> (jsstring \<Rightarrow> jsstring option) \<Rightarrow> phone_lesson list \<Rightarrow> phone_course list" where
  "lms_courses roles ask received = (if lms_role roles = LmsOther then [] else phone_courses ask received)"

section \<open>The pinned learner\<close>

text \<open>
  \<open>LearnerProvider\<close> stands above every screen and its effect runs once; \<open>fm_stored\<close> is the text
  under \<open>ykv_selected_learner\<close>, \<open>fm_account\<close> who is signed in.
\<close>

record family =
  fm_account :: "jsstring option"
  fm_learners :: "jsstring list"
  fm_selected :: "jsstring option"
  fm_ready :: bool
  fm_stored :: "jsstring option"
  fm_readable :: bool
  fm_writable :: bool

definition family_start :: "jsstring option \<Rightarrow> jsstring option \<Rightarrow> family" where
  "family_start account stored =
     \<lparr>fm_account = account, fm_learners = [], fm_selected = None, fm_ready = False, fm_stored = stored, fm_readable = True, fm_writable = True\<rparr>"

definition pinned :: "family \<Rightarrow> jsstring list \<Rightarrow> jsstring" where
  "pinned s list =
     (case (if fm_readable s then fm_stored s else None) of
        Some v \<Rightarrow> if v \<noteq> [] \<and> v \<in> set list then v else hd list
      | None \<Rightarrow> hd list)"

definition family_read :: "js_exn + jsstring list \<Rightarrow> family \<Rightarrow> family" where
  "family_read r s =
     (case r of
        Inl e \<Rightarrow> s\<lparr>fm_ready := True\<rparr>
      | Inr list \<Rightarrow> s\<lparr>fm_learners := list, fm_selected := (if list \<noteq> [] then Some (pinned s list) else fm_selected s), fm_ready := True\<rparr>)"

definition pick_learner :: "jsstring \<Rightarrow> family \<Rightarrow> family" where
  "pick_learner l s = s\<lparr>fm_selected := Some l, fm_stored := (if fm_writable s then Some l else fm_stored s)\<rparr>"

datatype family_event = FamilyRead "js_exn + jsstring list" | PickLearner jsstring | SignIn jsstring | SignOut

text \<open>\<open>LearnerSwitcher\<close>: chips for two learners or more.\<close>

definition switcher :: "family \<Rightarrow> family_event widget list" where
  "switcher s = (if length (fm_learners s) < 2 then [] else map (\<lambda>l. Btn l True (PickLearner l)) (fm_learners s))"

fun family_guard :: "family \<Rightarrow> family_event \<Rightarrow> bool" where
  "family_guard s (FamilyRead r) = (\<not> fm_ready s)"
| "family_guard s (SignIn a) = True"
| "family_guard s SignOut = True"
| "family_guard s (PickLearner l) = (PickLearner l \<in> set (offered (switcher s)))"

fun family_step :: "family \<Rightarrow> family_event \<Rightarrow> family" where
  "family_step s (FamilyRead r) = family_read r s"
| "family_step s (PickLearner l) = pick_learner l s"
| "family_step s (SignIn a) = s\<lparr>fm_account := Some a\<rparr>"
| "family_step s SignOut = s\<lparr>fm_account := None\<rparr>"

section \<open>Loading a list\<close>

text \<open>
  \<open>my-lessons.tsx\<close>. A load asks who is signed in and then for the lessons; it carries the
  learner of the render it belongs to. \<open>sc_of\<close> is the learner whose lessons are shown.
\<close>

record lessons_screen =
  sc_learner :: "jsstring option"
  sc_lessons :: "phone_lesson list"
  sc_of :: "jsstring option option"
  sc_isTutor :: bool
  sc_loading :: bool
  sc_error :: "jsstring option"
  sc_calls :: "(jsstring option \<times> bool option) list" \<comment> \<open>the learner, and the role once it is known\<close>
  sc_sent :: "jsstring list"

definition lessons_load :: "lessons_screen \<Rightarrow> lessons_screen" where
  "lessons_load s = s\<lparr>sc_loading := True, sc_error := None, sc_calls := sc_calls s @ [(sc_learner s, None)], sc_sent := sc_sent s @ [''/auth/me'']\<rparr>"

definition lessons_screen0 :: "jsstring option \<Rightarrow> lessons_screen" where
  "lessons_screen0 l = lessons_load \<lparr>sc_learner = l, sc_lessons = [], sc_of = None, sc_isTutor = False, sc_loading = True, sc_error = None, sc_calls = [], sc_sent = []\<rparr>"

definition lessons_path :: "bool \<Rightarrow> jsstring option \<Rightarrow> jsstring" where
  "lessons_path tutor l = (if tutor then ''/me/tutor-lessons'' else ''/me/lessons'' @ learnerQuery l)"

definition drop_call :: "nat \<Rightarrow> 'a list \<Rightarrow> 'a list" where
  "drop_call n xs = take n xs @ drop (Suc n) xs"

text \<open>\<open>MeRead n roles\<close>: \<open>None\<close> is a failure, for which the screen takes no roles.\<close>

datatype lessons_event =
    Focus | ChooseLearner "jsstring option" | MeRead nat "jsstring list option" | LessonsRead nat "phone_lesson list" | LessonsLost nat js_exn

definition waits :: "lessons_screen \<Rightarrow> nat \<Rightarrow> bool \<Rightarrow> bool" where
  "waits s n known = (n < length (sc_calls s) \<and> (snd (sc_calls s ! n) \<noteq> None) = known)"

fun lessons_guard :: "lessons_screen \<Rightarrow> lessons_event \<Rightarrow> bool" where
  "lessons_guard s Focus = True"
| "lessons_guard s (ChooseLearner l) = True"
| "lessons_guard s (MeRead n roles) = waits s n False"
| "lessons_guard s (LessonsRead n ls) = waits s n True"
| "lessons_guard s (LessonsLost n e) = waits s n True"

fun lessons_step :: "lessons_screen \<Rightarrow> lessons_event \<Rightarrow> lessons_screen" where
  "lessons_step s Focus = lessons_load s"
| "lessons_step s (ChooseLearner l) = (if l = sc_learner s then s else lessons_load (s\<lparr>sc_learner := l\<rparr>))"
| "lessons_step s (MeRead n roles) =
     (let l = fst (sc_calls s ! n); tutor = (case roles of None \<Rightarrow> False | Some rs \<Rightarrow> ''TUTOR'' \<in> set rs) in
      s\<lparr>sc_isTutor := tutor, sc_calls := (sc_calls s)[n := (l, Some tutor)], sc_sent := sc_sent s @ [lessons_path tutor l]\<rparr>)"
| "lessons_step s (LessonsRead n ls) =
     s\<lparr>sc_lessons := ls, sc_of := Some (fst (sc_calls s ! n)), sc_loading := False, sc_calls := drop_call n (sc_calls s)\<rparr>"
| "lessons_step s (LessonsLost n e) =
     s\<lparr>sc_error := Some (message_or ''Could not load your lessons'' e), sc_loading := False, sc_calls := drop_call n (sc_calls s)\<rparr>"

section \<open>Lists of lessons\<close>

text \<open>
  Every lesson with a readable start is in one of the two lists, in order; those without are in
  none. The first upcoming lesson starts no later than any other that has not begun.
\<close>

theorem diary_partition:
  "mset (upcoming_from now ls @ past_before now ls) = mset (filter (\<lambda>l. pl_start l \<noteq> None) ls) \<and>
   sorted (map start_ms (upcoming_from now ls)) \<and> sorted (map (\<lambda>l. - start_ms l) (past_before now ls)) \<and>
   (case upcoming_from now ls of [] \<Rightarrow> True | l # _ \<Rightarrow> list_all (\<lambda>m. at_least now m \<longrightarrow> start_ms l \<le> start_ms m) ls)"
proof -
  have "mset (filter (at_least now) ls) + mset (filter (less_than now) ls) = mset (filter (\<lambda>l. pl_start l \<noteq> None) ls)"
    by (induction ls) (auto simp: at_least_def less_than_def split: option.splits)
  moreover have "start_ms l \<le> start_ms m" if "upcoming_from now ls = l # xs" "m \<in> set ls" "at_least now m" for l m xs
  proof -
    have "m \<in> set (upcoming_from now ls)" using that(2,3) by (simp add: upcoming_from_def)
    moreover have "sorted (map start_ms (upcoming_from now ls))" by (simp add: upcoming_from_def)
    ultimately show ?thesis using that(1) by auto
  qed
  ultimately show ?thesis by (auto simp: upcoming_from_def past_before_def list_all_iff split: list.split)
qed

lemma sorted_below:
  "sorted (map f xs) \<Longrightarrow> filter (\<lambda>x. f x < k) xs = takeWhile (\<lambda>x. f x < k) xs"
proof (induction xs)
  case Nil
  then show ?case by simp
next
  case (Cons x xs)
  show ?case
  proof (cases "f x < k")
    case True
    with Cons show ?thesis by simp
  next
    case False
    with Cons.prems have "\<forall>y\<in>set xs. \<not> f y < k" by (auto simp: not_less intro: order_trans)
    with False show ?thesis by (simp add: filter_empty_conv)
  qed
qed

lemma sorted_split_at_end:
  "sorted (map f xs) \<Longrightarrow> list_all (\<lambda>x. f x \<le> k) xs \<Longrightarrow> xs = filter (\<lambda>x. f x < k) xs @ filter (\<lambda>x. f x = k) xs"
proof (induction xs)
  case Nil
  then show ?case by simp
next
  case (Cons x xs)
  show ?case
  proof (cases "f x < k")
    case True
    with Cons show ?thesis by simp
  next
    case False
    with Cons.prems have "list_all (\<lambda>y. f y = k) (x # xs)" by (fastforce simp: list_all_iff)
    then show ?thesis by (simp add: list_all_iff)
  qed
qed

text \<open>
  C26. The lessons of the week are those that start from now on and before seven times 24 hours have
  passed. Home keeps them as the service lists them and the hub counts them; \<open>my-lessons\<close> shows
  the same ones by their start, those that start together in the order of home, and they come first among
  its upcoming lessons; the schedule shows exactly these, in this order, and after them the lessons that
  start when the week is over to the millisecond, which none of the others shows.
\<close>

theorem weeks_agree:
  "home_week now ls = filter (\<lambda>l. case pl_start l of None \<Rightarrow> False | Some t \<Rightarrow> now \<le> t \<and> t < now + 604800000) ls \<and>
   hub_week now ls = length (home_week now ls) \<and>
   mset (my_lessons_week now ls) = mset (home_week now ls) \<and> sorted (map start_ms (my_lessons_week now ls)) \<and>
   filter (\<lambda>l. start_ms l = t) (my_lessons_week now ls) = filter (\<lambda>l. start_ms l = t) (home_week now ls) \<and>
   my_lessons_week now ls = takeWhile (less_than (now + WEEK)) (upcoming_from now ls) \<and>
   schedule_week now ls = my_lessons_week now ls @ filter (\<lambda>l. pl_start l = Some (now + WEEK)) ls"
proof -
  let ?k = "now + WEEK" and ?S = "schedule_week now ls" and ?U = "upcoming_from now ls"
  have S: "sorted (map start_ms ?S)" "list_all (\<lambda>l. start_ms l \<le> ?k) ?S"
    by (auto simp: schedule_week_def list_all_iff at_most_def start_ms_def split: option.splits)
  have lt: "at_least now l \<Longrightarrow> less_than ?k l = (start_ms l < ?k)"
    and eq: "at_least now l \<and> start_ms l = ?k \<longleftrightarrow> pl_start l = Some ?k" for l
    by (auto simp: less_than_def at_least_def start_ms_def WEEK_def split: option.splits)
  have "filter (\<lambda>l. start_ms l < ?k) ?S = my_lessons_week now ls"
    unfolding schedule_week_def my_lessons_week_def filter_sort [symmetric]
    by (simp add: filter_sort filter_filter) (rule arg_cong [of _ _ "sort_key start_ms"], rule filter_cong,
        auto simp: less_than_def at_least_def at_most_def start_ms_def split: option.splits)
  moreover have "filter (\<lambda>l. start_ms l = ?k) ?S = filter (\<lambda>l. pl_start l = Some ?k) ls"
  proof -
    have "filter (\<lambda>l. start_ms l = ?k \<and> at_least now l \<and> at_most ?k l) ls = filter (\<lambda>l. pl_start l = Some ?k) ls"
      by (rule filter_cong) (auto simp: at_least_def at_most_def start_ms_def WEEK_def split: option.splits)
    then show ?thesis unfolding schedule_week_def
      by (simp add: sort_key_stable conj_commute)
  qed
  ultimately have sched: "?S = my_lessons_week now ls @ filter (\<lambda>l. pl_start l = Some ?k) ls"
    using sorted_split_at_end [OF S] by simp
  have U: "sorted (map start_ms ?U)" by (simp add: upcoming_from_def)
  have al: "list_all (at_least now) ?U" by (simp add: upcoming_from_def list_all_iff)
  have "my_lessons_week now ls = filter (less_than ?k) ?U"
    unfolding my_lessons_week_def upcoming_from_def by (simp add: filter_sort conj_commute)
  also have "\<dots> = filter (\<lambda>l. start_ms l < ?k) ?U" using al lt by (intro filter_cong) (auto simp: list_all_iff)
  also have "\<dots> = takeWhile (\<lambda>l. start_ms l < ?k) ?U" by (rule sorted_below [OF U])
  also have "\<dots> = takeWhile (less_than ?k) ?U" using al lt by (intro takeWhile_cong) (auto simp: list_all_iff)
  finally have up: "my_lessons_week now ls = takeWhile (less_than ?k) ?U" .
  have home: "home_week now ls = filter (\<lambda>l. case pl_start l of None \<Rightarrow> False | Some t \<Rightarrow> now \<le> t \<and> t < now + 604800000) ls"
    unfolding home_week_def by (rule filter_cong) (auto simp: at_least_def less_than_def WEEK_def split: option.splits)
  have "my_lessons_week now ls = sort_key start_ms (home_week now ls)" by (simp add: my_lessons_week_def home_week_def)
  then have "mset (my_lessons_week now ls) = mset (home_week now ls)" "sorted (map start_ms (my_lessons_week now ls))"
    "filter (\<lambda>l. start_ms l = t) (my_lessons_week now ls) = filter (\<lambda>l. start_ms l = t) (home_week now ls)"
    by (simp_all add: sort_key_stable)
  moreover have "hub_week now ls = length (home_week now ls)" by (simp add: hub_week_def home_week_def)
  ultimately show ?thesis using sched up home by blast
qed

text \<open>No list asks for the status: the lessons shown are the same if all were cancelled.\<close>

theorem cancelled_lessons_count:
  "map pl_id (upcoming_from now (map (\<lambda>l. l\<lparr>pl_status := st\<rparr>) ls)) = map pl_id (upcoming_from now ls) \<and>
   hub_week now (map (\<lambda>l. l\<lparr>pl_status := st\<rparr>) ls) = hub_week now ls"
proof -
  have f: "filter P (map (\<lambda>l. l\<lparr>pl_status := st\<rparr>) ls) = map (\<lambda>l. l\<lparr>pl_status := st\<rparr>) (filter P ls)"
    if "\<And>l. P (l\<lparr>pl_status := st\<rparr>) = P l" for P :: "phone_lesson \<Rightarrow> bool"
    using that by (induction ls) simp_all
  have i: "insort_key start_ms (l\<lparr>pl_status := st\<rparr>) (map (\<lambda>l. l\<lparr>pl_status := st\<rparr>) xs) = map (\<lambda>l. l\<lparr>pl_status := st\<rparr>) (insort_key start_ms l xs)" for l xs
    by (induction xs) (simp_all add: start_ms_def)
  have s: "sort_key start_ms (map (\<lambda>l. l\<lparr>pl_status := st\<rparr>) xs) = map (\<lambda>l. l\<lparr>pl_status := st\<rparr>) (sort_key start_ms xs)" for xs
    by (induction xs) (simp_all add: i)
  show ?thesis by (simp add: upcoming_from_def hub_week_def at_least_def less_than_def f s comp_def)
qed

text \<open>The days of the schedule hold the week's lessons, each under its own day, no day twice.\<close>

theorem schedule_days_partition:
  "distinct (map fst (schedule_days day now ls)) \<and>
   list_all (\<lambda>(d, xs). xs = filter (\<lambda>l. day l = d) (schedule_week now ls)) (schedule_days day now ls) \<and>
   fst ` set (schedule_days day now ls) = day ` set (schedule_week now ls)"
  using into_groups_partition [of day "schedule_week now ls"] by (simp add: schedule_days_def)

theorem phone_courses_partition:
  "distinct (map co_cohort (phone_courses ask ls)) \<and>
   list_all (\<lambda>c. co_lessons c = filter (\<lambda>l. course_key l = co_cohort c) ls \<and> co_title c = course_title ask (co_cohort c) \<and> co_title c \<noteq> []) (phone_courses ask ls) \<and>
   co_cohort ` set (phone_courses ask ls) = course_key ` set ls"
proof -
  have t: "course_title ask c \<noteq> []" for c by (simp add: course_title_def split: option.split)
  let ?g = "into_groups course_key ls []"
  have m: "map co_cohort (phone_courses ask ls) = map fst ?g" by (simp add: phone_courses_def case_prod_beta)
  have i: "co_cohort ` set (phone_courses ask ls) = fst ` set ?g" using arg_cong [OF m, of set] by simp
  have p: "distinct (map fst ?g)" "fst ` set ?g = course_key ` set ls" "list_all (\<lambda>(d, xs). xs = filter (\<lambda>l. course_key l = d) ls) ?g"
    using into_groups_partition [of course_key ls] by blast+
  have "list_all (\<lambda>c. co_lessons c = filter (\<lambda>l. course_key l = co_cohort c) ls \<and> co_title c = course_title ask (co_cohort c) \<and> co_title c \<noteq> []) (phone_courses ask ls)"
    using p(3) t by (simp add: phone_courses_def list.pred_map comp_def case_prod_beta list_all_iff)
  then show ?thesis using p(1,2) unfolding m i by blast
qed

text \<open>
  Today's card: a lesson that has not begun if there is one, else the first of the day although
  it is over; and one of today's in any case.
\<close>

theorem next_today_choice:
  "case next_today now (today_lessons a b ls) of
     None \<Rightarrow> today_lessons a b ls = []
   | Some l \<Rightarrow> l \<in> set (today_lessons a b ls) \<and>
       (if list_ex (at_least now) (today_lessons a b ls) then at_least now l else l = hd (today_lessons a b ls))"
proof (cases "find (at_least now) (today_lessons a b ls)")
  case None
  then have "\<not> list_ex (at_least now) (today_lessons a b ls)" by (auto simp: find_None_iff list_ex_iff)
  then show ?thesis using None by (cases "today_lessons a b ls") (simp_all add: next_today_def)
next
  case (Some l)
  then show ?thesis using find_Some_mem [OF Some] by (auto simp: next_today_def list_ex_iff)
qed

section \<open>Figures\<close>

theorem phone_figures_bounded:
  "0 \<le> watchedPct ls w \<and> watchedPct ls w \<le> 100 \<and> 4 \<le> hero_width ls w \<and> hero_width ls w \<le> 100 \<and> gauge_pct r \<le> 100 \<and>
   (case stars q of None \<Rightarrow> q = None | Some n \<Rightarrow> 1 \<le> n \<and> n \<le> 5)"
proof -
  have p: "0 \<le> watchedPct ls w \<and> watchedPct ls w \<le> 100" unfolding watchedPct_def by (rule percent_range) simp
  have "1 \<le> nat \<lfloor>max 1 (min 5 x)\<rfloor> \<and> nat \<lfloor>max 1 (min 5 x)\<rfloor> \<le> 5" for x :: rat
  proof -
    have "1 \<le> \<lfloor>max 1 (min 5 x)\<rfloor>" "\<lfloor>max 1 (min 5 x)\<rfloor> \<le> 5" by (simp_all add: le_floor_iff floor_le_iff)
    then show ?thesis by linarith
  qed
  then show ?thesis using p by (simp add: hero_width_def gauge_pct_def stars_def split: option.split)
qed

section \<open>Parents\<close>

text \<open>
  Home sends a parent to the courses, by its tile and, when the child has a lesson ahead, by its
  first button; the courses then ask for nothing and show none.
\<close>

theorem parents_see_no_courses:
  assumes "''PARENT'' \<in> set roles" "''STUDENT'' \<notin> set roles" "''TUTOR'' \<notin> set roles"
  shows "''/lms'' \<in> set (home_tiles roles) \<and> home_cta roles (l # ls) = ''/lms'' \<and> home_isLearner roles \<and>
    lms_paths roles learner = [] \<and> lms_courses roles ask received = []"
  using assms by (simp add: home_tiles_def home_cta_def home_isTutor_def home_isParent_def home_isLearner_def lms_role_def lms_paths_def lms_courses_def)

theorem parents_see_no_courses_witness:
  "''/lms'' \<in> set (home_tiles [''PARENT'']) \<and> lms_paths [''PARENT''] (Some ''s1'') = []"
  using parents_see_no_courses [of "[''PARENT'']"] by simp

section \<open>The pinned learner\<close>

text \<open>A learner that was picked is picked again when the app starts again.\<close>

theorem pinned_learner_roundtrip:
  assumes "fm_writable s" "l \<in> set list" "l \<noteq> []"
  shows "fm_selected (family_step (family_start account (fm_stored (pick_learner l s))) (FamilyRead (Inr list))) = Some l"
  using assms by (auto simp: pick_learner_def family_start_def family_read_def pinned_def)

theorem pinned_learner_roundtrip_witness:
  "fm_selected (family_step (family_start (Some ''p'') (fm_stored (pick_learner ''b'' (family_start (Some ''p'') None)))) (FamilyRead (Inr [''a'', ''b'']))) = Some ''b''"
  using pinned_learner_roundtrip [of "family_start (Some ''p'') None" "''b''" "[''a'', ''b'']" "Some ''p''"] by (simp add: family_start_def)

text \<open>
  The learners are read once. Whoever signs in or out later, the list stays what it was, and with
  it the learner that the screens ask for: none when the app started without a session, and one
  of the first account's afterwards.
\<close>

lemma offered_switcher: "PickLearner l \<in> set (offered (switcher s)) \<Longrightarrow> l \<in> set (fm_learners s)"
  by (auto simp: switcher_def in_offered_map split: if_splits)

theorem learners_read_once:
  assumes "fm_ready s" "allowed family_guard family_step s es"
  shows "fm_learners (run family_step s es) = fm_learners s \<and>
    (fm_selected (run family_step s es) = fm_selected s \<or> fm_selected (run family_step s es) \<in> Some ` set (fm_learners s))"
  using assms
proof (induction es arbitrary: s)
  case (Cons e es)
  let ?t = "family_step s e"
  have t: "fm_ready ?t" "fm_learners ?t = fm_learners s" "fm_selected ?t = fm_selected s \<or> fm_selected ?t \<in> Some ` set (fm_learners s)"
    using Cons.prems offered_switcher [of _ s] by (cases e; simp add: pick_learner_def)+
  show ?case using Cons.IH [OF t(1)] Cons.prems(2) t(2,3) by auto
qed simp

theorem learners_read_once_witness:
  "(let s = family_step (family_start None None) (FamilyRead (Inl (plain_error ''signed out''))) in
    fm_learners (run family_step s [SignIn ''parent'']) = [] \<and> fm_selected (run family_step s [SignIn ''parent'']) = None)"
proof -
  let ?s = "family_step (family_start None None) (FamilyRead (Inl (plain_error ''signed out'')))"
  have "fm_ready ?s" "allowed family_guard family_step ?s [SignIn ''parent'']" "fm_learners ?s = []" "fm_selected ?s = None"
    by (simp_all add: family_read_def family_start_def)
  then show ?thesis using learners_read_once [of ?s "[SignIn ''parent'']"] unfolding Let_def by simp
qed

section \<open>Whose lessons are shown\<close>

text \<open>Answers in the order of the requests.\<close>

fun in_order :: "lessons_event \<Rightarrow> bool" where
  "in_order (LessonsRead n ls) = (n = 0)"
| "in_order (LessonsLost n e) = (n = 0)"
| "in_order e = True"

definition ordered_guard :: "lessons_screen \<Rightarrow> lessons_event \<Rightarrow> bool" where
  "ordered_guard s e = (lessons_guard s e \<and> in_order e)"

definition lessons_inv :: "lessons_screen \<Rightarrow> bool" where
  "lessons_inv s =
     (if sc_calls s = [] then sc_error s \<noteq> None \<or> sc_of s = Some (sc_learner s) else fst (last (sc_calls s)) = sc_learner s)"

lemma lessons_load_inv: "lessons_inv (lessons_load s)"
  by (simp add: lessons_inv_def lessons_load_def)

lemma last_update: "xs \<noteq> [] \<Longrightarrow> n < length xs \<Longrightarrow> fst y = fst (xs ! n) \<Longrightarrow> fst (last (xs[n := y])) = fst (last xs)"
  by (auto simp: last_conv_nth nth_list_update)

lemma lessons_inv_step: "lessons_inv s \<Longrightarrow> ordered_guard s e \<Longrightarrow> lessons_inv (lessons_step s e)"
proof (cases e)
  case (MeRead n roles)
  assume a: "lessons_inv s" "ordered_guard s e"
  then have n: "n < length (sc_calls s)" "sc_calls s \<noteq> []" using MeRead by (auto simp: ordered_guard_def waits_def)
  then show ?thesis using a(1) MeRead last_update [OF n(2,1)] by (simp add: lessons_inv_def Let_def)
next
  case (LessonsRead n ls)
  assume a: "lessons_inv s" "ordered_guard s e"
  then obtain c cs where "sc_calls s = c # cs" "n = 0" using LessonsRead by (cases "sc_calls s") (auto simp: ordered_guard_def waits_def)
  then show ?thesis using a(1) LessonsRead by (auto simp: lessons_inv_def drop_call_def split: if_splits)
next
  case (LessonsLost n x)
  assume a: "lessons_inv s" "ordered_guard s e"
  then obtain c cs where "sc_calls s = c # cs" "n = 0" using LessonsLost by (cases "sc_calls s") (auto simp: ordered_guard_def waits_def)
  then show ?thesis using a(1) LessonsLost by (auto simp: lessons_inv_def drop_call_def split: if_splits)
qed (simp_all add: lessons_load_inv)

interpretation ordered_lessons: machine "\<lambda>s. s = lessons_screen0 l" ordered_guard lessons_step lessons_inv for l
proof unfold_locales
  fix s assume "s = lessons_screen0 l"
  then show "lessons_inv s" by (simp add: lessons_screen0_def lessons_load_inv)
next
  fix s e assume "lessons_inv s" "ordered_guard s e"
  then show "lessons_inv (lessons_step s e)" by (rule lessons_inv_step)
qed

text \<open>
  When the answers come in the order of the requests, the lessons shown at rest are those of the
  learner who is pinned.
\<close>

theorem lessons_of_pinned_learner:
  assumes "reach (\<lambda>s. s = lessons_screen0 l) ordered_guard lessons_step s" "sc_calls s = []" "sc_error s = None"
  shows "sc_of s = Some (sc_learner s)"
  using ordered_lessons.reach_inv [OF assms(1)] assms(2,3) by (simp add: lessons_inv_def)

definition kemis_lesson :: phone_lesson where
  "kemis_lesson = \<lparr>pl_id = ''l1'', pl_start = Some 5, pl_status = ''SCHEDULED'', pl_cohort = None, pl_meeting = True, pl_video = False\<rparr>"

theorem lessons_of_pinned_learner_witness:
  "sc_of (run lessons_step (lessons_screen0 (Some ''kemi'')) [MeRead 0 (Some [''PARENT'']), LessonsRead 0 [kemis_lesson]]) = Some (Some ''kemi'')"
proof -
  let ?es = "[MeRead 0 (Some [''PARENT'']), LessonsRead 0 [kemis_lesson]]"
  let ?s = "run lessons_step (lessons_screen0 (Some ''kemi'')) ?es"
  have f: "allowed ordered_guard lessons_step (lessons_screen0 (Some ''kemi'')) ?es" "sc_calls ?s = []" "sc_error ?s = None" "sc_learner ?s = Some ''kemi''"
    by code_simp+
  show ?thesis using lessons_of_pinned_learner [OF run_reachable [OF refl f(1)] f(2,3)] f(4) by simp
qed

text \<open>
  In another order they need not be: the lessons of the learner who was pinned first arrive last
  and stay, on a screen that is at rest.
\<close>

theorem late_lessons_of_other_learner:
  assumes "sc_calls s = [(a, Some t)]" "sc_learner s = a" "b \<noteq> a"
  shows "let events = [ChooseLearner b, MeRead 1 roles, LessonsRead 1 ys, LessonsRead 0 xs]; u = run lessons_step s events in
    allowed lessons_guard lessons_step s events \<and> sc_calls u = [] \<and> \<not> sc_loading u \<and> sc_error u = None \<and>
    sc_learner u = b \<and> sc_of u = Some a \<and> sc_lessons u = xs"
  using assms by (simp add: Let_def lessons_load_def waits_def drop_call_def)

theorem late_lessons_of_other_learner_witness:
  "(let u = run lessons_step (lessons_screen0 (Some ''kemi''))
      [MeRead 0 (Some [''PARENT'']), ChooseLearner (Some ''tobi''), MeRead 1 (Some [''PARENT'']), LessonsRead 1 [], LessonsRead 0 [kemis_lesson]] in
    sc_learner u = Some ''tobi'' \<and> sc_lessons u = [kemis_lesson])"
proof -
  let ?s = "run lessons_step (lessons_screen0 (Some ''kemi'')) [MeRead 0 (Some [''PARENT''])]"
  have "sc_calls ?s = [(Some ''kemi'', Some False)]" "sc_learner ?s = Some ''kemi''" by code_simp+
  from late_lessons_of_other_learner [OF this, of "Some ''tobi''" "Some [''PARENT'']" "[]" "[kemis_lesson]"]
  show ?thesis by (simp add: Let_def)
qed

end
