(* ===== verification/FamilyDesk.thy ===== *)
theory FamilyDesk
  imports Machine SafeNext AccountEndpoints LearnEndpoints
begin

text \<open>
  The parent's dashboard (\<open>client/app/dashboard/page.tsx\<close>), the upcoming lessons that it
  shares with the learner's dashboard (\<open>client/components/dashboard/CalendarWidget.tsx\<close>), the
  badge of a status (\<open>client/components/ui/status-badge.tsx\<close>) and the switch of the weekly
  digest (\<open>client/features/learning/DigestPrefsToggle.tsx\<close>). The queries that a render enables
  are a function of the state; the dialogs are a machine. An open dialog covers the page: the
  guard offers the page's controls to the pointer only while none is open.
\<close>

section \<open>Lessons, orders, badges\<close>

record portal_lesson =
  po_id :: jsstring
  po_title :: jsstring
  po_start :: int \<comment> \<open>\<open>new Date(start_at).getTime()\<close>\<close>
  po_status :: jsstring
  po_meeting :: jsstring
  po_video :: jsstring

definition BOOKING_TABS :: "jsstring list" where
  "BOOKING_TABS = [''All'', ''Upcoming'', ''Completed'', ''Cancelled'']"

definition is_upcoming :: "portal_lesson \<Rightarrow> bool" where
  "is_upcoming l = (po_status l = ''SCHEDULED'' \<or> po_status l = ''ONGOING'')"

definition in_tab :: "jsstring \<Rightarrow> portal_lesson \<Rightarrow> bool" where
  "in_tab tab l =
     (if tab = ''Upcoming'' then is_upcoming l
      else if tab = ''Completed'' then po_status l = ''COMPLETED''
      else if tab = ''Cancelled'' then po_status l = ''CANCELLED'' \<or> po_status l = ''NO_SHOW''
      else True)"

definition bookings :: "jsstring \<Rightarrow> portal_lesson list \<Rightarrow> portal_lesson list" where
  "bookings tab ls = filter (in_tab tab) ls"

definition portal_upcoming :: "portal_lesson list \<Rightarrow> portal_lesson list" where
  "portal_upcoming ls = sort_key po_start (filter is_upcoming ls)"

definition next_lesson :: "portal_lesson list \<Rightarrow> portal_lesson option" where
  "next_lesson ls = (case portal_upcoming ls of [] \<Rightarrow> None | l # _ \<Rightarrow> Some l)"

definition calendar_widget :: "portal_lesson list \<Rightarrow> portal_lesson list" where
  "calendar_widget ls = take 6 (sort_key po_start (filter is_upcoming ls))"

text \<open>Whether a booking offers to join the class.\<close>

definition joinable :: "portal_lesson \<Rightarrow> bool" where
  "joinable l = (po_meeting l \<noteq> [] \<and> is_upcoming l)"

record portal_order =
  or_id :: jsstring
  or_number :: jsstring
  or_status :: jsstring
  or_cohort :: jsstring \<comment> \<open>\<open>checkout_cohort_id\<close>, empty when absent\<close>

definition next_payment :: "portal_order list \<Rightarrow> portal_order option" where
  "next_payment os = find (\<lambda>o'. or_status o' = ''PENDING'') os"

definition paid_count :: "portal_order list \<Rightarrow> nat" where
  "paid_count os = length (filter (\<lambda>o'. or_status o' = ''PAID'') os)"

definition payment_href :: "portal_order \<Rightarrow> jsstring" where
  "payment_href o' = (if or_cohort o' \<noteq> [] then ''/checkout/'' @ or_cohort o' else ''/cohorts'')"

datatype badge = Success | Pending | Failure | Neutral | Info

definition statusKindFor :: "jsstring option \<Rightarrow> badge" where
  "statusKindFor status =
     (let s = to_upper (case status of Some t \<Rightarrow> t | None \<Rightarrow> []) in
      if s \<in> {''APPROVED'', ''CONFIRMED'', ''PAID'', ''COMPLETED'', ''ACTIVE'', ''PUBLISHED'', ''PRESENT'', ''PASSED''} then Success
      else if s \<in> {''PENDING'', ''PROCESSING'', ''SUBMITTED'', ''UNDER_REVIEW'', ''INTERVIEW'', ''VERIFICATION'', ''ONGOING'', ''SCHEDULED'',
          ''IN_PROGRESS'', ''LATE'', ''WAITLISTED''} then Pending
      else if s \<in> {''REJECTED'', ''SUSPENDED'', ''CANCELLED'', ''REFUNDED'', ''FAILED'', ''ABSENT'', ''EXPIRED'', ''NO_SHOW''} then Failure
      else if s \<in> {''DRAFT'', ''HOLD'', ''ARCHIVED''} then Neutral else Info)"

section \<open>The page\<close>

definition NAV :: "jsstring list" where
  "NAV = [''overview'', ''bookings'', ''payments'', ''progress'', ''learners'']"

record portal_learner =
  ln_id :: jsstring
  ln_first :: jsstring
  ln_last :: jsstring

record add_form =
  af_first :: jsstring
  af_last :: jsstring
  af_birth :: jsstring
  af_level :: jsstring
  af_school :: jsstring

definition add_form0 :: add_form where
  "add_form0 = \<lparr>af_first = [], af_last = [], af_birth = [], af_level = [], af_school = []\<rparr>"

record desk =
  dk_user :: bool
  dk_learners :: "portal_learner list option"
  dk_orders :: "portal_order list"
  dk_selected :: jsstring
  dk_section :: jsstring
  dk_tab :: jsstring
  dk_addOpen :: bool
  dk_submitting :: bool
  dk_error :: "jsstring option"
  dk_form :: add_form
  dk_receipt :: "jsstring option" \<comment> \<open>the order of the receipt\<close>
  dk_receiptLoading :: bool
  dk_adding :: "json list" \<comment> \<open>inputs of \<open>createLearner\<close> in flight\<close>
  dk_opening :: "jsstring list" \<comment> \<open>receipts in flight\<close>
  dk_sent :: "json list"
  dk_opened :: "jsstring list"

text \<open>The page after its first effect, for the address's \<open>section\<close>.\<close>

definition desk0 :: "jsstring option \<Rightarrow> desk" where
  "desk0 sec = \<lparr>dk_user = False, dk_learners = None, dk_orders = [], dk_selected = [],
     dk_section = (case sec of None \<Rightarrow> ''overview'' | Some s \<Rightarrow> if s \<noteq> [] \<and> s \<in> set NAV then s else ''overview''),
     dk_tab = ''All'', dk_addOpen = False, dk_submitting = False, dk_error = None, dk_form = add_form0, dk_receipt = None, dk_receiptLoading = False,
     dk_adding = [], dk_opening = [], dk_sent = [], dk_opened = []\<rparr>"

definition learners_of :: "desk \<Rightarrow> portal_learner list" where
  "learners_of s = (case dk_learners s of None \<Rightarrow> [] | Some ls \<Rightarrow> ls)"

definition activeLearner :: "desk \<Rightarrow> portal_learner option" where
  "activeLearner s =
     (case find (\<lambda>l. ln_id l = dk_selected s) (learners_of s) of
        Some l \<Rightarrow> Some l
      | None \<Rightarrow> (case learners_of s of [] \<Rightarrow> None | l # _ \<Rightarrow> Some l))"

definition learnerId :: "desk \<Rightarrow> jsstring" where
  "learnerId s = (case activeLearner s of None \<Rightarrow> [] | Some l \<Rightarrow> ln_id l)"

text \<open>The queries that a render enables, as endpoints.\<close>

definition desk_queries :: "desk \<Rightarrow> endpoint list" where
  "desk_queries s =
     (if dk_user s then [listLearners, unreadCount] else []) @
     [GET ''/me/orders'' (DataOr (JArr []))] @
     (if dk_selected s \<noteq> [] then [listProgressReports (Some (dk_selected s)) None] else []) @
     (if learnerId s \<noteq> []
      then [GET (''/me/lessons?student_profile_id='' @ learnerId s) (DataOr (JArr [])), getAttendanceSummary (Some (learnerId s))] else [])"

definition learner_input :: "add_form \<Rightarrow> json" where
  "learner_input f =
     obj [(''first_name'', Some (JStr (trim (af_first f)))), (''last_name'', Some (JStr (trim (af_last f)))),
          (''date_of_birth'', when_filled (af_birth f)), (''current_level'', when_filled (trim (af_level f))),
          (''school_name'', when_filled (trim (af_school f))), (''relationship'', Some (JStr ''PARENT''))]"

definition submit_add :: "desk \<Rightarrow> desk" where
  "submit_add s =
     s\<lparr>dk_submitting := True, dk_error := None, dk_adding := dk_adding s @ [learner_input (dk_form s)],
       dk_sent := dk_sent s @ [learner_input (dk_form s)]\<rparr>"

definition open_receipt :: "jsstring \<Rightarrow> desk \<Rightarrow> desk" where
  "open_receipt i s = s\<lparr>dk_receiptLoading := True, dk_opening := dk_opening s @ [i], dk_opened := dk_opened s @ [i]\<rparr>"

datatype desk_event =
    SignedIn bool | LearnersRead "portal_learner list" | OrdersRead "portal_order list"
  | SelectLearner jsstring | SetSection jsstring | SetTab jsstring | ViewBookings jsstring
  | OpenAdd | CloseAdd | EditAdd add_form | SubmitAdd | Added json | AddLost json js_exn
  | OpenReceipt jsstring | ReceiptRead jsstring | ReceiptLost jsstring | CloseReceipt

definition receipt_open :: "desk \<Rightarrow> bool" where
  "receipt_open s = (dk_receipt s \<noteq> None \<or> dk_receiptLoading s)"

definition desk_view :: "desk \<Rightarrow> desk_event widget list" where
  "desk_view s =
     (if dk_addOpen s then
        [Btn ''Close dialog'' True CloseAdd,
         Btn (if dk_submitting s then ''Adding'' @ ellipsis else ''Add learner'')
           (\<not> dk_submitting s \<and> af_first (dk_form s) \<noteq> [] \<and> af_last (dk_form s) \<noteq> []) SubmitAdd]
      else if receipt_open s then [Btn ''Close dialog'' True CloseReceipt]
      else
        map (\<lambda>k. Btn k True (SetSection k)) NAV @
        (if learnerId s = [] then [Btn ''Add a learner'' True OpenAdd] else []) @
        (if dk_section s = ''overview'' then [Btn ''My bookings'' True (SetSection ''bookings''), Btn ''Manage learners'' True (SetSection ''learners'')] else []) @
        (if dk_section s = ''bookings'' then map (\<lambda>t. Btn t True (SetTab t)) BOOKING_TABS else []) @
        (if dk_section s = ''payments'' then map (\<lambda>o'. Btn ''Receipt'' True (OpenReceipt (or_id o'))) (dk_orders s) else []) @
        (if dk_section s = ''learners''
         then [Btn ''Add a learner'' True OpenAdd] @ map (\<lambda>l. Btn ''View bookings'' True (ViewBookings (ln_id l))) (learners_of s) else []))"

text \<open>A select reports an option other than the one it shows. The service gives learners ids.\<close>

fun desk_guard :: "desk \<Rightarrow> desk_event \<Rightarrow> bool" where
  "desk_guard s (SignedIn b) = True"
| "desk_guard s (LearnersRead ls) = (list_all (\<lambda>l. ln_id l \<noteq> []) ls)"
| "desk_guard s (OrdersRead os) = True"
| "desk_guard s (SelectLearner i) =
     (\<not> dk_addOpen s \<and> \<not> receipt_open s \<and> i \<in> ln_id ` set (learners_of s) \<and>
      i \<noteq> (if dk_selected s \<noteq> [] then dk_selected s else learnerId s))"
| "desk_guard s (EditAdd f) = dk_addOpen s"
| "desk_guard s (Added c) = (c \<in> set (dk_adding s))"
| "desk_guard s (AddLost c e) = (c \<in> set (dk_adding s))"
| "desk_guard s (ReceiptRead i) = (i \<in> set (dk_opening s))"
| "desk_guard s (ReceiptLost i) = (i \<in> set (dk_opening s))"
| "desk_guard s e = (e \<in> set (offered (desk_view s)))"

fun desk_step :: "desk \<Rightarrow> desk_event \<Rightarrow> desk" where
  "desk_step s (SignedIn b) = s\<lparr>dk_user := b\<rparr>"
| "desk_step s (LearnersRead ls) = s\<lparr>dk_learners := Some ls\<rparr>"
| "desk_step s (OrdersRead os) = s\<lparr>dk_orders := os\<rparr>"
| "desk_step s (SelectLearner i) = s\<lparr>dk_selected := i\<rparr>"
| "desk_step s (SetSection k) = s\<lparr>dk_section := k\<rparr>"
| "desk_step s (SetTab t) = s\<lparr>dk_tab := t\<rparr>"
| "desk_step s (ViewBookings i) = s\<lparr>dk_selected := i, dk_section := ''bookings''\<rparr>"
| "desk_step s OpenAdd = s\<lparr>dk_addOpen := True\<rparr>"
| "desk_step s CloseAdd = s\<lparr>dk_addOpen := False, dk_error := None\<rparr>"
| "desk_step s (EditAdd f) = s\<lparr>dk_form := f\<rparr>"
| "desk_step s SubmitAdd = submit_add s"
| "desk_step s (Added c) = s\<lparr>dk_adding := remove1 c (dk_adding s), dk_form := add_form0, dk_addOpen := False, dk_submitting := False\<rparr>"
| "desk_step s (AddLost c e) =
     s\<lparr>dk_adding := remove1 c (dk_adding s), dk_error := Some (message_or ''Could not add learner'' e), dk_submitting := False\<rparr>"
| "desk_step s (OpenReceipt i) = open_receipt i s"
| "desk_step s (ReceiptRead i) = s\<lparr>dk_opening := remove1 i (dk_opening s), dk_receipt := Some i, dk_receiptLoading := False\<rparr>"
| "desk_step s (ReceiptLost i) = s\<lparr>dk_opening := remove1 i (dk_opening s), dk_receiptLoading := False\<rparr>"
| "desk_step s CloseReceipt = s\<lparr>dk_receipt := None\<rparr>"

section \<open>The switch of the digest\<close>

record digest =
  dg_prefs :: "(bool \<times> jsstring option) option" \<comment> \<open>enabled, last sent\<close>
  dg_saving :: bool
  dg_call :: "(bool \<times> (bool \<times> jsstring option)) option" \<comment> \<open>what is asked for, and the preferences of the click's render\<close>
  dg_word :: "(bool \<times> jsstring option) option" \<comment> \<open>the server's last word\<close>

definition digest0 :: digest where
  "digest0 = \<lparr>dg_prefs = None, dg_saving = False, dg_call = None, dg_word = None\<rparr>"

datatype digest_event =
    PrefsRead "bool \<times> jsstring option" | PrefsLost | ToggleDigest | DigestSaved "bool \<times> jsstring option" | DigestLost

definition digest_view :: "digest \<Rightarrow> digest_event widget list" where
  "digest_view s = (case dg_prefs s of None \<Rightarrow> [] | Some p \<Rightarrow> [Btn ''Weekly progress digest'' (\<not> dg_saving s) ToggleDigest])"

fun digest_guard :: "digest \<Rightarrow> digest_event \<Rightarrow> bool" where
  "digest_guard s (PrefsRead p) = (dg_prefs s = None)"
| "digest_guard s PrefsLost = (dg_prefs s = None)"
| "digest_guard s ToggleDigest = (ToggleDigest \<in> set (offered (digest_view s)))"
| "digest_guard s (DigestSaved p) = (dg_call s \<noteq> None)"
| "digest_guard s DigestLost = (dg_call s \<noteq> None)"

definition toggle_digest :: "digest \<Rightarrow> digest" where
  "toggle_digest s =
     (case dg_prefs s of
        None \<Rightarrow> s
      | Some p \<Rightarrow> s\<lparr>dg_saving := True, dg_prefs := Some (\<not> fst p, snd p), dg_call := Some (\<not> fst p, p)\<rparr>)"

fun digest_step :: "digest \<Rightarrow> digest_event \<Rightarrow> digest" where
  "digest_step s (PrefsRead p) = s\<lparr>dg_prefs := Some p, dg_word := Some p\<rparr>"
| "digest_step s PrefsLost = s\<lparr>dg_prefs := Some (True, None)\<rparr>"
| "digest_step s ToggleDigest = toggle_digest s"
| "digest_step s (DigestSaved p) = s\<lparr>dg_prefs := Some p, dg_word := Some p, dg_call := None, dg_saving := False\<rparr>"
| "digest_step s DigestLost = s\<lparr>dg_prefs := map_option snd (dg_call s), dg_call := None, dg_saving := False\<rparr>"

section \<open>Bookings, payments and badges\<close>

definition settled :: "portal_lesson \<Rightarrow> bool" where
  "settled l = (\<not> is_upcoming l \<and> po_status l \<notin> {''COMPLETED'', ''CANCELLED'', ''NO_SHOW''})"

text \<open>
  The three tabs beside \<open>All\<close> share the lessons out, but for those with another status: a
  rescheduled lesson is under \<open>All\<close> only. What can be joined is under \<open>Upcoming\<close>.
\<close>

theorem tabs_partition:
  "bookings ''All'' ls = ls \<and>
   length (bookings ''Upcoming'' ls) + length (bookings ''Completed'' ls) + length (bookings ''Cancelled'' ls) + length (filter settled ls) = length ls \<and>
   length (portal_upcoming ls) = length (bookings ''Upcoming'' ls) \<and> filter joinable ls = filter joinable (bookings ''Upcoming'' ls)"
proof -
  have "length (bookings ''Upcoming'' ls) + length (bookings ''Completed'' ls) + length (bookings ''Cancelled'' ls) + length (filter settled ls) = length ls"
    by (induction ls) (auto simp: bookings_def in_tab_def is_upcoming_def settled_def)
  moreover have "filter joinable ls = filter joinable (bookings ''Upcoming'' ls)"
    by (induction ls) (auto simp: bookings_def in_tab_def joinable_def)
  moreover have "in_tab ''Upcoming'' = is_upcoming" "in_tab ''All'' = (\<lambda>l. True)" by (simp_all add: in_tab_def fun_eq_iff)
  ultimately show ?thesis by (simp add: bookings_def portal_upcoming_def)
qed

text \<open>
  The next lesson is the earliest of the upcoming ones; there is none exactly when none is
  upcoming. The calendar begins with it and is in order of time.
\<close>

theorem next_lesson_earliest:
  "(case next_lesson ls of
      None \<Rightarrow> filter is_upcoming ls = []
    | Some l \<Rightarrow> l \<in> set ls \<and> is_upcoming l \<and> list_all (\<lambda>x. po_start l \<le> po_start x) (filter is_upcoming ls) \<and>
        hd (calendar_widget ls) = l) \<and>
   sorted (map po_start (calendar_widget ls)) \<and> length (calendar_widget ls) = min 6 (length (filter is_upcoming ls))"
proof -
  let ?u = "portal_upcoming ls"
  have set: "set ?u = set (filter is_upcoming ls)" and srt: "sorted (map po_start ?u)" by (simp_all add: portal_upcoming_def)
  have cal: "calendar_widget ls = take 6 ?u" by (simp add: calendar_widget_def portal_upcoming_def)
  have "sorted (map po_start (take 6 ?u))" using srt by (metis sorted_wrt_take take_map)
  moreover have "length (take 6 ?u) = min 6 (length (filter is_upcoming ls))" by (simp add: portal_upcoming_def min.commute)
  moreover have "case next_lesson ls of None \<Rightarrow> filter is_upcoming ls = []
    | Some l \<Rightarrow> l \<in> set ls \<and> is_upcoming l \<and> list_all (\<lambda>x. po_start l \<le> po_start x) (filter is_upcoming ls) \<and> hd (take 6 ?u) = l"
  proof (cases ?u)
    case Nil
    then show ?thesis by (simp add: next_lesson_def portal_upcoming_def)
  next
    case (Cons l us)
    have "l \<in> set (filter is_upcoming ls)" using set Cons by (metis list.set_intros(1))
    moreover have "\<forall>x\<in>set ?u. po_start l \<le> po_start x" using srt Cons by auto
    then have "list_all (\<lambda>x. po_start l \<le> po_start x) (filter is_upcoming ls)" unfolding list_all_iff set .
    ultimately show ?thesis by (simp add: next_lesson_def Cons)
  qed
  ultimately show ?thesis unfolding cal by blast
qed

lemma upper_char_idem [simp]: "upper_char (upper_char c) = upper_char c"
proof (cases "97 \<le> (of_char c :: nat) \<and> (of_char c :: nat) \<le> 122")
  case True
  then have "(of_char c - 32 :: nat) < 256" by linarith
  then have "(of_char (upper_char c) :: nat) = of_char c - 32" using True by (simp add: upper_char_def)
  moreover have "\<not> 97 \<le> (of_char c - 32 :: nat)" using True by linarith
  ultimately show ?thesis by (simp add: upper_char_def [of "upper_char c"] Let_def)
next
  case False
  then have "upper_char c = c" unfolding upper_char_def Let_def by (rule if_not_P)
  then show ?thesis by simp
qed

lemma to_upper_idem [simp]: "to_upper (to_upper s) = to_upper s"
  by (simp add: to_upper_def)

definition LESSON_STATUS :: "jsstring list" where
  "LESSON_STATUS = [''SCHEDULED'', ''ONGOING'', ''COMPLETED'', ''CANCELLED'', ''RESCHEDULED'', ''NO_SHOW'']"

text \<open>
  The badge of a booking agrees with its tab for every status of a lesson but one: waiting under
  \<open>Upcoming\<close>, success under \<open>Completed\<close>, failure under \<open>Cancelled\<close>; letters of either case
  give the same badge.
\<close>

theorem badges_follow_tabs:
  "list_all (\<lambda>st. statusKindFor (Some st) =
     (if in_tab ''Upcoming'' \<lparr>po_id = i, po_title = t, po_start = a, po_status = st, po_meeting = m, po_video = v\<rparr> then Pending
      else if in_tab ''Completed'' \<lparr>po_id = i, po_title = t, po_start = a, po_status = st, po_meeting = m, po_video = v\<rparr> then Success
      else if in_tab ''Cancelled'' \<lparr>po_id = i, po_title = t, po_start = a, po_status = st, po_meeting = m, po_video = v\<rparr> then Failure
      else Info)) LESSON_STATUS \<and>
   statusKindFor (Some (to_upper s)) = statusKindFor (Some s)"
proof -
  have "map (\<lambda>st. statusKindFor (Some st)) LESSON_STATUS = [Pending, Pending, Success, Failure, Info, Failure]" by code_simp
  then show ?thesis by (simp add: LESSON_STATUS_def in_tab_def is_upcoming_def statusKindFor_def [of "Some (to_upper s)"] statusKindFor_def [of "Some s"])
qed

section \<open>One call at a time\<close>

text \<open>The optional fields of a learner are absent or filled.\<close>

definition sent_ok :: "json \<Rightarrow> bool" where
  "sent_ok c =
     (jget c ''relationship'' = Some (JStr ''PARENT'') \<and> jget c ''first_name'' \<noteq> None \<and> jget c ''last_name'' \<noteq> None \<and>
      jget c ''date_of_birth'' \<noteq> Some (JStr []) \<and> jget c ''current_level'' \<noteq> Some (JStr []) \<and> jget c ''school_name'' \<noteq> Some (JStr []))"

lemma learner_input_fields:
  "jget (learner_input f) ''first_name'' = Some (JStr (trim (af_first f)))"
  "jget (learner_input f) ''last_name'' = Some (JStr (trim (af_last f)))"
  "jget (learner_input f) ''date_of_birth'' = when_filled (af_birth f)"
  "jget (learner_input f) ''current_level'' = when_filled (trim (af_level f))"
  "jget (learner_input f) ''school_name'' = when_filled (trim (af_school f))"
  "jget (learner_input f) ''relationship'' = Some (JStr ''PARENT'')"
  by (simp_all add: learner_input_def jget_obj)

lemma learner_input_ok: "sent_ok (learner_input f)"
  by (simp add: sent_ok_def learner_input_fields when_filled_def)

definition desk_inv :: "desk \<Rightarrow> bool" where
  "desk_inv s =
     (dk_submitting s = (dk_adding s \<noteq> []) \<and> length (dk_adding s) \<le> 1 \<and>
      dk_receiptLoading s = (dk_opening s \<noteq> []) \<and> length (dk_opening s) \<le> 1 \<and>
      (dk_opening s \<noteq> [] \<longrightarrow> dk_receipt s = None \<and> dk_opened s \<noteq> [] \<and> dk_opening s = [last (dk_opened s)]) \<and>
      (dk_receipt s \<noteq> None \<longrightarrow> dk_opened s \<noteq> [] \<and> dk_receipt s = Some (last (dk_opened s))) \<and>
      \<not> (dk_addOpen s \<and> receipt_open s) \<and>
      dk_section s \<in> set NAV \<and> dk_tab s \<in> set BOOKING_TABS \<and> list_all sent_ok (dk_sent s))"

lemma desk_offers:
  "SubmitAdd \<in> set (offered (desk_view s)) \<Longrightarrow> dk_addOpen s \<and> \<not> dk_submitting s \<and> af_first (dk_form s) \<noteq> [] \<and> af_last (dk_form s) \<noteq> []"
  "OpenAdd \<in> set (offered (desk_view s)) \<Longrightarrow> \<not> dk_addOpen s \<and> \<not> receipt_open s"
  "OpenReceipt i \<in> set (offered (desk_view s)) \<Longrightarrow> \<not> dk_addOpen s \<and> \<not> receipt_open s \<and> dk_section s = ''payments'' \<and> i \<in> or_id ` set (dk_orders s)"
  "CloseReceipt \<in> set (offered (desk_view s)) \<Longrightarrow> receipt_open s"
  "SetSection k \<in> set (offered (desk_view s)) \<Longrightarrow> k \<in> set NAV"
  "SetTab k \<in> set (offered (desk_view s)) \<Longrightarrow> k \<in> set BOOKING_TABS"
  unfolding desk_view_def in_offered by (auto simp: NAV_def split: if_splits)

lemma single_remove: "length xs \<le> 1 \<Longrightarrow> x \<in> set xs \<Longrightarrow> remove1 x xs = [] \<and> xs = [x]"
  by (cases xs) auto

lemma desk_inv_step: "desk_inv s \<Longrightarrow> desk_guard s e \<Longrightarrow> desk_inv (desk_step s e)"
proof (cases e)
  case SubmitAdd
  assume "desk_inv s" "desk_guard s e"
  then show ?thesis using SubmitAdd desk_offers(1) [of s] learner_input_ok by (auto simp: desk_inv_def submit_add_def receipt_open_def)
next
  case OpenAdd
  assume "desk_inv s" "desk_guard s e"
  then show ?thesis using OpenAdd desk_offers(2) [of s] by (auto simp: desk_inv_def receipt_open_def)
next
  case (OpenReceipt i)
  assume "desk_inv s" "desk_guard s e"
  then show ?thesis using OpenReceipt desk_offers(3) [of i s] by (auto simp: desk_inv_def receipt_open_def open_receipt_def)
next
  case (SetSection k)
  assume "desk_inv s" "desk_guard s e"
  then show ?thesis using SetSection desk_offers(5) [of k s] by (auto simp: desk_inv_def receipt_open_def)
next
  case (SetTab k)
  assume "desk_inv s" "desk_guard s e"
  then show ?thesis using SetTab desk_offers(6) [of k s] by (auto simp: desk_inv_def receipt_open_def)
next
  case (Added c)
  assume "desk_inv s" "desk_guard s e"
  then show ?thesis using Added single_remove [of "dk_adding s" c] by (auto simp: desk_inv_def receipt_open_def)
next
  case (AddLost c x)
  assume "desk_inv s" "desk_guard s e"
  then show ?thesis using AddLost single_remove [of "dk_adding s" c] by (auto simp: desk_inv_def receipt_open_def)
next
  case (ReceiptRead i)
  assume "desk_inv s" "desk_guard s e"
  then show ?thesis using ReceiptRead single_remove [of "dk_opening s" i] by (auto simp: desk_inv_def receipt_open_def)
next
  case (ReceiptLost i)
  assume "desk_inv s" "desk_guard s e"
  then show ?thesis using ReceiptLost single_remove [of "dk_opening s" i] by (auto simp: desk_inv_def receipt_open_def)
qed (auto simp: desk_inv_def receipt_open_def NAV_def)

interpretation parents: bounded_machine "\<lambda>s. s = desk0 sec" desk_guard desk_step desk_inv "\<lambda>s. length (dk_adding s) + length (dk_opening s)" 2 for sec
proof unfold_locales
  fix s assume "s = desk0 sec"
  then show "desk_inv s" by (auto simp: desk_inv_def desk0_def receipt_open_def NAV_def BOOKING_TABS_def split: option.split)
next
  fix s e assume "desk_inv s" "desk_guard s e"
  then show "desk_inv (desk_step s e)" by (rule desk_inv_step)
next
  fix s assume "desk_inv s"
  then show "length (dk_adding s) + length (dk_opening s) \<le> 2" by (simp add: desk_inv_def)
qed

text \<open>
  The desk adds one learner and reads one receipt at a time; the receipt that is shown is that
  of the order opened last; every learner is sent as a child of the parent, with no empty
  optional field; and the page stays within its sections and tabs whatever the address says.
\<close>

theorem desk_safe:
  assumes "reach (\<lambda>s. s = desk0 sec) desk_guard desk_step s"
  shows "length (dk_adding s) \<le> 1 \<and> length (dk_opening s) \<le> 1 \<and> (dk_adding s \<noteq> [] \<longrightarrow> SubmitAdd \<notin> set (offered (desk_view s))) \<and>
     (case dk_receipt s of None \<Rightarrow> True | Some i \<Rightarrow> dk_opened s \<noteq> [] \<and> i = last (dk_opened s)) \<and>
     dk_section s \<in> set NAV \<and> dk_tab s \<in> set BOOKING_TABS \<and> list_all sent_ok (dk_sent s)"
  using parents.reach_inv [OF assms] desk_offers(1) [of s] by (auto simp: desk_inv_def split: option.split)

definition two_children :: "portal_learner list" where
  "two_children = [\<lparr>ln_id = ''l1'', ln_first = ''Kemi'', ln_last = ''Obi''\<rparr>, \<lparr>ln_id = ''l2'', ln_first = ''Tayo'', ln_last = ''Obi''\<rparr>]"

definition some_order :: portal_order where
  "some_order = \<lparr>or_id = ''o1'', or_number = ''YK-1'', or_status = ''PAID'', or_cohort = []\<rparr>"

definition some_form :: add_form where
  "some_form = \<lparr>af_first = ''Ada '', af_last = ''Obi'', af_birth = [], af_level = ''Year 7'', af_school = []\<rparr>"

definition desk_run :: "desk_event list" where
  "desk_run = [SignedIn True, LearnersRead two_children, OrdersRead [some_order], SetSection ''payments'', OpenReceipt ''o1'', CloseReceipt,
     ReceiptRead ''o1'', CloseReceipt, SetSection ''learners'', OpenAdd, EditAdd some_form, SubmitAdd]"

theorem desk_safe_witness:
  "(let s = run desk_step (desk0 (Some ''nowhere'')) desk_run in
     length (dk_adding s) = 1 \<and> (dk_adding s \<noteq> [] \<longrightarrow> SubmitAdd \<notin> set (offered (desk_view s))) \<and> list_all sent_ok (dk_sent s))"
proof -
  let ?s = "run desk_step (desk0 (Some ''nowhere'')) desk_run"
  have f: "allowed desk_guard desk_step (desk0 (Some ''nowhere'')) desk_run" "length (dk_adding ?s) = 1" by code_simp+
  from desk_safe [OF run_reachable [OF refl f(1)]] f(2) show ?thesis unfolding Let_def by blast
qed

text \<open>
  The dialog of a receipt cannot be closed before its answer: closing leaves it open, and the
  receipt that arrives opens it again. A lost receipt closes it without a word.
\<close>

theorem receipt_closed_too_early:
  assumes "dk_opening s = [i]" "dk_receipt s = None" "\<not> dk_addOpen s" "dk_receiptLoading s"
  shows "allowed desk_guard desk_step s [CloseReceipt, CloseReceipt, ReceiptRead i] \<and>
     dk_receipt (run desk_step s [CloseReceipt, CloseReceipt, ReceiptRead i]) = Some i \<and>
     \<not> receipt_open (desk_step s (ReceiptLost i)) \<and> dk_error (desk_step s (ReceiptLost i)) = dk_error s"
  using assms by (simp add: desk_view_def receipt_open_def)

theorem receipt_closed_too_early_witness:
  "dk_receipt (run desk_step (run desk_step (desk0 None) (take 5 (tl desk_run))) [CloseReceipt, CloseReceipt, ReceiptRead ''o1'']) = Some ''o1''"
proof -
  let ?s = "run desk_step (desk0 None) (take 4 (tl desk_run))"
  have e: "run desk_step (desk0 None) (take 5 (tl desk_run)) = desk_step ?s CloseReceipt" by code_simp
  have "desk_step ?s CloseReceipt = ?s" by code_simp
  moreover have f: "dk_opening ?s = [''o1'']" "dk_receipt ?s = None" "\<not> dk_addOpen ?s" "dk_receiptLoading ?s" by code_simp+
  ultimately show ?thesis using receipt_closed_too_early [OF f] e by presburger
qed

section \<open>Adding a learner\<close>

text \<open>
  A submission is sent once and settles: the answer empties the form and closes the dialog; a
  failure keeps the form and names its reason, and the button is offered again.
\<close>

theorem add_learner_settles:
  assumes "dk_addOpen s" "desk_guard s SubmitAdd" "dk_adding s = []"
  shows "let c = learner_input (dk_form s); t = desk_step s SubmitAdd in
     dk_sent t = dk_sent s @ [c] \<and> \<not> desk_guard t SubmitAdd \<and>
     allowed desk_guard desk_step s [SubmitAdd, Added c] \<and> allowed desk_guard desk_step s [SubmitAdd, AddLost c e] \<and>
     dk_form (desk_step t (Added c)) = add_form0 \<and> \<not> dk_addOpen (desk_step t (Added c)) \<and>
     dk_form (desk_step t (AddLost c e)) = dk_form s \<and> dk_error (desk_step t (AddLost c e)) = Some (message_or ''Could not add learner'' e) \<and>
     desk_guard (desk_step t (AddLost c e)) SubmitAdd"
proof -
  have "SubmitAdd \<in> set (offered (desk_view s))" using assms(2) by simp
  note f = desk_offers(1) [OF this]
  show ?thesis using f assms(3) by (simp add: Let_def submit_add_def desk_view_def)
qed

theorem add_learner_settles_witness:
  "(let s = run desk_step (desk0 None) [OpenAdd, EditAdd some_form]; c = learner_input (dk_form s) in
     dk_sent (desk_step s SubmitAdd) = [learner_input some_form] \<and> dk_form (desk_step (desk_step s SubmitAdd) (Added c)) = add_form0)"
proof -
  let ?s = "run desk_step (desk0 None) [OpenAdd, EditAdd some_form]"
  have f: "dk_addOpen ?s" "desk_guard ?s SubmitAdd" "dk_adding ?s = []" "dk_sent ?s = []" "dk_form ?s = some_form" by code_simp+
  show ?thesis using add_learner_settles [OF f(1-3), of undefined, unfolded Let_def] unfolding f(4,5) Let_def by simp
qed

text \<open>Blanks satisfy the required fields: a learner without a name is sent.\<close>

theorem blank_learner_sent:
  assumes "dk_addOpen s" "\<not> dk_submitting s" "af_first f \<noteq> []" "af_last f \<noteq> []" "trim (af_first f) = []" "trim (af_last f) = []"
  shows "allowed desk_guard desk_step s [EditAdd f, SubmitAdd] \<and>
     jget (last (dk_sent (run desk_step s [EditAdd f, SubmitAdd]))) ''first_name'' = Some (JStr []) \<and>
     jget (last (dk_sent (run desk_step s [EditAdd f, SubmitAdd]))) ''last_name'' = Some (JStr [])"
  using assms by (simp add: submit_add_def desk_view_def learner_input_fields)

definition blank_form :: add_form where
  "blank_form = \<lparr>af_first = '' '', af_last = '' '', af_birth = [], af_level = [], af_school = []\<rparr>"

theorem blank_learner_sent_witness:
  "jget (last (dk_sent (run desk_step (run desk_step (desk0 None) [OpenAdd]) [EditAdd blank_form, SubmitAdd]))) ''first_name'' = Some (JStr [])"
proof -
  let ?s = "run desk_step (desk0 None) [OpenAdd]"
  have "dk_addOpen ?s" "\<not> dk_submitting ?s" "af_first blank_form \<noteq> []" "af_last blank_form \<noteq> []" "trim (af_first blank_form) = []" "trim (af_last blank_form) = []"
    by code_simp+
  from blank_learner_sent [OF this] show ?thesis by blast
qed

text \<open>
  The dialog may be closed and opened again while a learner is being added; the answer then
  closes it and empties the form for the next one.
\<close>

theorem late_answer_discards_next:
  assumes "dk_adding s = [c]" "dk_addOpen s" "\<not> receipt_open s" "dk_section s = ''learners''"
  shows "allowed desk_guard desk_step s [CloseAdd, OpenAdd, EditAdd f, Added c] \<and>
     dk_form (run desk_step s [CloseAdd, OpenAdd, EditAdd f, Added c]) = add_form0 \<and>
     \<not> dk_addOpen (run desk_step s [CloseAdd, OpenAdd, EditAdd f, Added c])"
  using assms by (simp add: desk_view_def receipt_open_def)

theorem late_answer_discards_next_witness:
  "dk_form (run desk_step (run desk_step (desk0 None) desk_run) [CloseAdd, OpenAdd, EditAdd some_form, Added (learner_input some_form)]) = add_form0"
proof -
  let ?s = "run desk_step (desk0 None) desk_run"
  have "dk_adding ?s = [learner_input some_form]" "dk_addOpen ?s" "\<not> receipt_open ?s" "dk_section ?s = ''learners''" by code_simp+
  from late_answer_discards_next [OF this] show ?thesis by blast
qed

section \<open>Whose reports\<close>

definition asks_reports :: "desk \<Rightarrow> bool" where
  "asks_reports s = (\<exists>i t. listProgressReports i t \<in> set (desk_queries s))"

text \<open>Events of a family with at most one child that does not follow \<open>View bookings\<close>.\<close>

fun plain_event :: "desk_event \<Rightarrow> bool" where
  "plain_event (LearnersRead ls) = (length ls \<le> 1)"
| "plain_event (ViewBookings i) = False"
| "plain_event e = True"

definition only_inv :: "desk \<Rightarrow> bool" where
  "only_inv s = (dk_selected s = [] \<and> length (learners_of s) \<le> 1)"

lemma only_inv_step: "only_inv s \<Longrightarrow> desk_guard s e \<and> plain_event e \<Longrightarrow> only_inv (desk_step s e)"
proof (cases e)
  case (SelectLearner i)
  assume s: "only_inv s" and g: "desk_guard s e \<and> plain_event e"
  then obtain l where l: "l \<in> set (learners_of s)" "ln_id l = i" using SelectLearner by auto
  then have one: "learners_of s = [l]" using s single_remove [of "learners_of s" l] by (simp add: only_inv_def)
  then have "learnerId s = i" using l(2) by (simp add: learnerId_def activeLearner_def)
  then show ?thesis using g s SelectLearner by (simp add: only_inv_def)
qed (auto simp: only_inv_def learners_of_def submit_add_def open_receipt_def)

interpretation only_child: machine "\<lambda>s. s = desk0 sec" "\<lambda>s e. desk_guard s e \<and> plain_event e" desk_step only_inv for sec
proof unfold_locales
  fix s assume "s = desk0 sec"
  then show "only_inv s" by (simp add: only_inv_def desk0_def learners_of_def)
next
  fix s e assume "only_inv s" "desk_guard s e \<and> plain_event e"
  then show "only_inv (desk_step s e)" by (rule only_inv_step)
qed

definition reports_path :: "endpoint \<Rightarrow> bool" where
  "reports_path ep = starts_with (ep_path ep) ''/learning/progress-reports''"

text \<open>
  The reports are asked for the learner that was chosen, the lessons and the attendance for the
  one that is shown. In a family with one child, whose only option the select never reports,
  the reports are not asked for, although the child's lessons are; the page says that there are
  none yet.
\<close>

theorem only_child_reports:
  assumes "reach (\<lambda>s. s = desk0 sec) (\<lambda>s e. desk_guard s e \<and> plain_event e) desk_step s" "learners_of s = [l]" "ln_id l \<noteq> []"
  shows "learnerId s = ln_id l \<and> getAttendanceSummary (Some (ln_id l)) \<in> set (desk_queries s) \<and>
     list_all (\<lambda>ep. \<not> reports_path ep) (desk_queries s)"
proof -
  have sel: "dk_selected s = []" using only_child.reach_inv [OF assms(1)] by (simp add: only_inv_def)
  have id: "learnerId s = ln_id l" using assms(2) by (simp add: learnerId_def activeLearner_def)
  show ?thesis using sel id assms(3)
    by (simp add: desk_queries_def reports_path_def listLearners_def unreadCount_def getAttendanceSummary_def)
qed

theorem only_child_reports_witness:
  "(let s = run desk_step (desk0 None) [SignedIn True, LearnersRead (take 1 two_children), SetSection ''progress''] in
     getAttendanceSummary (Some ''l1'') \<in> set (desk_queries s) \<and> list_all (\<lambda>ep. \<not> reports_path ep) (desk_queries s))"
proof -
  let ?G = "\<lambda>s e. desk_guard s e \<and> plain_event e"
  let ?es = "[SignedIn True, LearnersRead (take 1 two_children), SetSection ''progress'']"
  let ?s = "run desk_step (desk0 None) ?es"
  have a: "allowed ?G desk_step (desk0 None) ?es" by code_simp
  have f: "learners_of ?s = [hd two_children]" "ln_id (hd two_children) \<noteq> []" "ln_id (hd two_children) = ''l1''" by code_simp+
  from only_child_reports [OF run_reachable [OF refl a] f(1,2)] f(3) show ?thesis unfolding Let_def by simp
qed

section \<open>The digest\<close>

definition digest_inv :: "digest \<Rightarrow> bool" where
  "digest_inv s =
     (let known = (case dg_word s of Some w \<Rightarrow> w | None \<Rightarrow> (True, None)) in
      dg_saving s = (dg_call s \<noteq> None) \<and> (dg_prefs s = None \<longrightarrow> dg_word s = None \<and> dg_call s = None) \<and>
      (case dg_call s of None \<Rightarrow> dg_prefs s \<noteq> None \<longrightarrow> dg_prefs s = Some known | Some (b, p) \<Rightarrow> p = known \<and> b = (\<not> fst known)))"

lemma digest_inv_step: "digest_inv s \<Longrightarrow> digest_guard s e \<Longrightarrow> digest_inv (digest_step s e)"
  by (cases e) (auto simp: digest_inv_def toggle_digest_def digest_view_def Let_def split: option.splits if_splits)

interpretation digest_machine: machine "\<lambda>s. s = digest0" digest_guard digest_step digest_inv
proof unfold_locales
  fix s assume "s = digest0"
  then show "digest_inv s" by (simp add: digest_inv_def digest0_def)
next
  fix s e assume "digest_inv s" "digest_guard s e"
  then show "digest_inv (digest_step s e)" by (rule digest_inv_step)
qed

text \<open>
  At rest the switch shows the server's last word, whichever changes failed. When nothing was
  ever read it shows the digest as on.
\<close>

theorem digest_shows_server_word:
  assumes "reach (\<lambda>s. s = digest0) digest_guard digest_step s" "dg_call s = None"
  shows "\<not> dg_saving s \<and> (case dg_word s of Some w \<Rightarrow> dg_prefs s = Some w | None \<Rightarrow> dg_prefs s = None \<or> dg_prefs s = Some (True, None))"
  using digest_machine.reach_inv [OF assms(1)] assms(2) by (cases "dg_prefs s") (auto simp: digest_inv_def Let_def split: option.splits)

theorem digest_shows_server_word_witness:
  "(let s = run digest_step digest0 [PrefsRead (False, None), ToggleDigest, DigestLost] in
     dg_prefs s = Some (False, None) \<and> (case dg_word s of Some w \<Rightarrow> dg_prefs s = Some w | None \<Rightarrow> dg_prefs s = None \<or> dg_prefs s = Some (True, None)))"
proof -
  let ?es = "[PrefsRead (False, None), ToggleDigest, DigestLost]"
  let ?s = "run digest_step digest0 ?es"
  have f: "allowed digest_guard digest_step digest0 ?es" "dg_call ?s = None" "dg_prefs ?s = Some (False, None)" by code_simp+
  from digest_shows_server_word [OF run_reachable [OF refl f(1)] f(2)] f(3) show ?thesis unfolding Let_def by blast
qed

end
