(* ===== verification/StudentDesk.thy ===== *)
theory StudentDesk
  imports FamilyDesk LearningStats
begin

text \<open>
  The learner's dashboard (\<open>client/app/student-dashboard/page.tsx\<close>) and its widgets: the weekly
  goal, the resume rail, the gradebook, the review queue, the leaderboard and the rating of a
  lesson (\<open>client/components/dashboard\<close>), the heat map of topics
  (\<open>client/features/learning/MasteryHeatmap.tsx\<close>) and the suggestions
  (\<open>RecommendationsForYou.tsx\<close>). A render is a function of what the queries hold; the widgets
  with a state of their own are machines. The course cards are \<open>groupByCohort\<close> of
  \<open>LearningStats\<close> on the same lessons.
\<close>

section \<open>The page\<close>

record student_lesson =
  st_lesson :: portal_lesson
  st_start_at :: jsstring
  st_cohort :: "jsstring option"

definition stat_of :: "student_lesson \<Rightarrow> stat_lesson" where
  "stat_of l =
     \<lparr>sl_id = po_id (st_lesson l), sl_title = po_title (st_lesson l), sl_cohort_id = st_cohort l, sl_start_at = Some (st_start_at l),
      sl_video_url = Some (po_video (st_lesson l)), sl_status = Some (po_status (st_lesson l))\<rparr>"

definition student_upcoming :: "student_lesson list \<Rightarrow> portal_lesson list" where
  "student_upcoming ls = take 4 (portal_upcoming (map st_lesson ls))"

definition enrolled :: "student_lesson list \<Rightarrow> bool" where
  "enrolled ls = (0 < length ls)"

definition submittedIds :: "jsstring list \<Rightarrow> jsstring list" where
  "submittedIds subs = remdups subs"

definition myCourses :: "student_lesson list \<Rightarrow> stat_row list \<Rightarrow> cohort_progress list" where
  "myCourses ls rows = groupByCohort (map stat_of ls) rows []"

definition myStats :: "student_lesson list \<Rightarrow> stat_row list \<Rightarrow> rat option \<Rightarrow> jsstring list \<Rightarrow> jsstring list \<Rightarrow> rat list \<Rightarrow> nat \<Rightarrow> learning_stats" where
  "myStats ls rows rate subs asg scores certs =
     computeStats \<lparr>si_lessons = map stat_of ls, si_progressRows = rows, si_attendancePct = rate, si_submitted = int (length (submittedIds subs)),
       si_assignmentsTotal = int (length asg), si_submissionScores = scores, si_certificates = int certs\<rparr>"

definition course_href :: "cohort_progress \<Rightarrow> jsstring" where
  "course_href c = (if cp_cohortId c \<noteq> [] \<and> cp_cohortId c \<noteq> ''none'' then ''/lms/courses/'' @ cp_cohortId c else ''/lms'')"

definition course_label :: "cohort_progress \<Rightarrow> jsstring" where
  "course_label c = (if cp_pct c \<ge> 100 then ''Review course'' else if cp_watched c > 0 then ''Resume'' else ''Start course'')"

text \<open>The rows of \<open>Before class begins\<close>: title, whether done, where it leads.\<close>

definition profileDone :: "jsstring \<Rightarrow> jsstring \<Rightarrow> bool" where
  "profileDone fn sn = (fn \<noteq> [] \<and> sn \<noteq> [])"

definition check_rows :: "jsstring \<Rightarrow> jsstring \<Rightarrow> student_lesson list \<Rightarrow> (jsstring \<times> bool \<times> jsstring) list" where
  "check_rows fn sn ls =
     [(''Complete your profile'', profileDone fn sn, ''/account''), (''Enable notifications'', True, ''/notifications''),
      (''Join the community'', False, ''/messages''), (''Open your first course'', enrolled ls, ''/lms'')]"

definition checksDone :: "jsstring \<Rightarrow> jsstring \<Rightarrow> student_lesson list \<Rightarrow> nat" where
  "checksDone fn sn ls = length (filter (\<lambda>b. b) [profileDone fn sn, True, False, enrolled ls])"

record own_profile =
  op_first :: jsstring
  op_minor :: bool

definition hero_title :: "own_profile option \<Rightarrow> student_lesson list \<Rightarrow> jsstring" where
  "hero_title me ls =
     (case me of
        Some m \<Rightarrow>
          if op_minor m \<and> \<not> enrolled ls then ''Hi '' @ op_first m @ '' '' @ em_dash @ '' your parent manages your classes''
          else if enrolled ls then ''Welcome back, '' @ op_first m else ''Hi '' @ op_first m @ '' '' @ em_dash @ '' find your next class''
      | None \<Rightarrow> if enrolled ls then ''You're enrolled '' @ em_dash @ '' class starts soon!'' else ''Find your next class'')"

definition hero_watch :: "student_lesson list \<Rightarrow> jsstring" where
  "hero_watch ls =
     (case next_lesson (map st_lesson ls) of
        None \<Rightarrow> ''/lms''
      | Some n \<Rightarrow> if po_meeting n \<noteq> [] then po_meeting n else if po_video n \<noteq> [] then po_video n else ''/lms'')"

definition resume_items :: "student_lesson list \<Rightarrow> portal_lesson list" where
  "resume_items ls = take 3 (filter (\<lambda>l. po_video l \<noteq> [] \<and> po_status l \<noteq> ''CANCELLED'') (map st_lesson ls))"

definition resume_rail :: "portal_lesson list \<Rightarrow> portal_lesson list" where
  "resume_rail items = take 3 items"

section \<open>Widgets\<close>

definition goal_done :: "stat_row list \<Rightarrow> nat" where
  "goal_done rows = length (filter sr_watched rows)"

definition safeGoal :: "nat \<Rightarrow> nat" where
  "safeGoal goal = (if goal > 0 then goal else 3)"

definition goal_pct :: "nat \<Rightarrow> nat \<Rightarrow> int" where
  "goal_pct done goal = min 100 (percent done (safeGoal goal))"

definition goal_left :: "nat \<Rightarrow> nat \<Rightarrow> nat" where
  "goal_left done goal = safeGoal goal - done"

definition grade_width :: "rat \<Rightarrow> rat" where
  "grade_width score = min 100 score"

definition leaderboard_rows :: "'a list \<Rightarrow> 'a list" where
  "leaderboard_rows rows = take 5 rows"

text \<open>The review queue: an index into the list of the last answer.\<close>

record 'q review =
  rq_items :: "'q list"
  rq_idx :: nat

datatype 'q review_event = QueueRead "'q list" | NextItem

definition review_shown :: "'q review \<Rightarrow> 'q option" where
  "review_shown s = (if rq_idx s < length (rq_items s) then Some (rq_items s ! rq_idx s) else None)"

fun review_guard :: "'q review \<Rightarrow> 'q review_event \<Rightarrow> bool" where
  "review_guard s (QueueRead q) = True"
| "review_guard s NextItem = (review_shown s \<noteq> None \<and> 1 < length (rq_items s))"

text \<open>A render with an empty list runs no hook: the index starts anew.\<close>

fun review_step :: "'q review \<Rightarrow> 'q review_event \<Rightarrow> 'q review" where
  "review_step s (QueueRead q) = \<lparr>rq_items = q, rq_idx = (if q = [] then 0 else rq_idx s)\<rparr>"
| "review_step s NextItem = s\<lparr>rq_idx := (rq_idx s + 1) mod length (rq_items s)\<rparr>"

text \<open>The rating: the buttons give way to the thanks at the first click.\<close>

record rating =
  rt_lessons :: "portal_lesson list"
  rt_rated :: "nat option"
  rt_sent :: "(jsstring \<times> nat) list"

datatype rating_event = RatedLessons "portal_lesson list" | Rate nat

definition rated_lesson :: "portal_lesson list \<Rightarrow> portal_lesson option" where
  "rated_lesson ls = find (\<lambda>l. po_status l \<noteq> ''CANCELLED'') ls"

definition rating_view :: "rating \<Rightarrow> rating_event widget list" where
  "rating_view s = (if rt_rated s = None then map (\<lambda>n. Btn (show_nat n) True (Rate n)) [1, 2, 3, 4, 5] else [Txt ''Thanks for rating it''])"

fun rating_guard :: "rating \<Rightarrow> rating_event \<Rightarrow> bool" where
  "rating_guard s (RatedLessons ls) = True"
| "rating_guard s (Rate n) = (Rate n \<in> set (offered (rating_view s)))"

fun rating_step :: "rating \<Rightarrow> rating_event \<Rightarrow> rating" where
  "rating_step s (RatedLessons ls) = s\<lparr>rt_lessons := ls\<rparr>"
| "rating_step s (Rate n) =
     s\<lparr>rt_rated := Some n, rt_sent := rt_sent s @ (case rated_lesson (rt_lessons s) of None \<Rightarrow> [] | Some l \<Rightarrow> [(po_id l, n)])\<rparr>"

definition rating0 :: rating where
  "rating0 = \<lparr>rt_lessons = [], rt_rated = None, rt_sent = []\<rparr>"

record topic_mastery =
  tm_subject :: jsstring
  tm_topic :: jsstring
  tm_mastery :: rat

datatype band = Strong | Developing | Needs

definition masteryBand :: "rat \<Rightarrow> band" where
  "masteryBand m = (if m \<ge> 75 then Strong else if m \<ge> 50 then Developing else Needs)"

definition bySubject :: "topic_mastery list \<Rightarrow> (jsstring \<times> topic_mastery list) list" where
  "bySubject cells = into_groups tm_subject cells []"

text \<open>The suggestions: the links of each kind, by id or slug.\<close>

record suggestions =
  sg_cohorts :: "jsstring list option"
  sg_programmes :: "(jsstring option \<times> jsstring) list option" \<comment> \<open>slug and id\<close>
  sg_tutors :: "(jsstring option \<times> jsstring) list option"

definition slug_or_id :: "jsstring option \<times> jsstring \<Rightarrow> jsstring" where
  "slug_or_id p = (case fst p of Some s \<Rightarrow> s | None \<Rightarrow> snd p)"

definition shelf :: "suggestions option \<Rightarrow> jsstring list" where
  "shelf d =
     (case map_option (\<lambda>g. (sg_cohorts g, sg_programmes g, sg_tutors g)) d of
        Some (Some cs, Some ps, Some ts) \<Rightarrow>
          map (\<lambda>c. ''/cohorts/'' @ c) (take 2 cs) @ map (\<lambda>p. ''/programmes/'' @ slug_or_id p) (take 2 ps) @
          map (\<lambda>t. ''/tutors/'' @ slug_or_id t) (take 2 ts)
      | _ \<Rightarrow> [])"

section \<open>Before class begins\<close>

text \<open>
  The count agrees with the rows, and the list is never complete: one row is never done and one
  always is.
\<close>

theorem checklist_never_complete:
  "checksDone fn sn ls = length (filter (\<lambda>r. fst (snd r)) (check_rows fn sn ls)) \<and> 1 \<le> checksDone fn sn ls \<and> checksDone fn sn ls \<le> 3 \<and>
   list_ex (\<lambda>r. fst r = ''Join the community'' \<and> \<not> fst (snd r)) (check_rows fn sn ls)"
  by (simp add: checksDone_def check_rows_def)

section \<open>Course cards\<close>

lemma myCourses_of: "c \<in> set (myCourses ls rows) \<Longrightarrow> \<exists>g. g \<in> set (byCohort (map stat_of ls)) \<and> c = course_of rows [] g"
  by (auto simp: myCourses_def groupByCohort_def)

lemma myCourses_total: "c \<in> set (myCourses ls rows) \<Longrightarrow> 0 < cp_total c"
proof -
  assume "c \<in> set (myCourses ls rows)"
  then obtain k h where g: "(k, h) \<in> set (byCohort (map stat_of ls))" "c = course_of rows [] (k, h)" using myCourses_of by fastforce
  have inv: "group_inv (map stat_of ls) (byCohort (map stat_of ls))" by (rule byCohort_inv)
  then have dist: "distinct (map fst (byCohort (map stat_of ls)))" and keys: "fst ` set (byCohort (map stat_of ls)) = cohort_key ` set (map stat_of ls)"
    and grp: "\<And>k h. map_of (byCohort (map stat_of ls)) k = Some h \<Longrightarrow> h = filter (\<lambda>l. cohort_key l = k) (map stat_of ls)"
    unfolding group_inv_def by blast+
  have "k \<in> cohort_key ` set (map stat_of ls)" using imageI [OF g(1), of fst] keys by simp
  moreover have "h = filter (\<lambda>l. cohort_key l = k) (map stat_of ls)" by (rule grp) (rule map_of_is_SomeI [OF dist g(1)])
  ultimately show ?thesis unfolding g(2) by (auto simp: filter_empty_conv)
qed

text \<open>
  The button tells the truth for courses of fewer than 200 lessons: to review exactly when all
  are watched, to start exactly when none is.
\<close>

theorem course_label_true:
  "list_all (\<lambda>c. if cp_total c < 200
      then (course_label c = ''Review course'') = (cp_watched c = cp_total c) \<and> (course_label c = ''Start course'') = (cp_watched c = 0)
      else True) (myCourses ls rows)"
proof -
  have "(course_label c = ''Review course'') = (cp_watched c = cp_total c) \<and> (course_label c = ''Start course'') = (cp_watched c = 0)"
    if c: "c \<in> set (myCourses ls rows)" and t: "cp_total c < 200" for c
  proof -
    obtain g where g: "c = course_of rows [] g" using myCourses_of [OF c] by blast
    have le: "cp_watched c \<le> cp_total c" unfolding g by simp
    have p: "cp_pct c = percent (cp_watched c) (cp_total c)" unfolding g by (simp add: course_pct)
    have "(100 \<le> cp_pct c) = (cp_watched c = cp_total c)" unfolding p using percent_100_iff [OF le t] myCourses_total [OF c] by blast
    then show ?thesis using myCourses_total [OF c] by (auto simp: course_label_def)
  qed
  then show ?thesis by (auto simp: list_all_iff)
qed

text \<open>
  Lessons without a cohort form a course whose key is \<open>standalone\<close>, which the page does not
  expect (it tests for \<open>none\<close>): its card leads to a course that does not exist.
\<close>

theorem standalone_course_link:
  assumes "l \<in> set ls" "st_cohort l = None"
  shows "list_ex (\<lambda>c. cp_cohortId c = ''standalone'' \<and> course_href c = ''/lms/courses/standalone'') (myCourses ls rows)"
proof -
  have "cohort_key (stat_of l) \<in> fst ` set (byCohort (map stat_of ls))"
    using byCohort_inv [of "map stat_of ls"] assms(1) by (auto simp: group_inv_def)
  moreover have "cohort_key (stat_of l) = ''standalone''" using assms(2) by (simp add: cohort_key_def stat_of_def)
  ultimately obtain g where g: "g \<in> set (byCohort (map stat_of ls))" "fst g = ''standalone''" by auto
  then have "course_of rows [] g \<in> set (myCourses ls rows)" by (simp add: myCourses_def groupByCohort_def)
  moreover have "cp_cohortId (course_of rows [] g) = ''standalone''" using g(2) by simp
  ultimately show ?thesis unfolding list_ex_iff course_href_def by (intro bexI [of _ "course_of rows [] g"]) simp_all
qed

definition taster :: student_lesson where
  "taster = \<lparr>st_lesson = \<lparr>po_id = ''t'', po_title = ''Taster'', po_start = 10, po_status = ''SCHEDULED'', po_meeting = [], po_video = []\<rparr>,
     st_start_at = ''2025-01-01'', st_cohort = None\<rparr>"

theorem standalone_course_link_witness:
  "list_ex (\<lambda>c. cp_cohortId c = ''standalone'' \<and> course_href c = ''/lms/courses/standalone'') (myCourses [taster] [])"
  using standalone_course_link [of taster "[taster]" "[]"] by (simp add: taster_def)

section \<open>The weekly goal\<close>

lemma percent_mono: "v \<le> w \<Longrightarrow> 0 < t \<Longrightarrow> percent v t \<le> percent w t"
  using ieee.pct_mono [of "int v" "int w" "int t"] by (simp add: percent_def)

lemma safeGoal_pos [simp]: "0 < safeGoal g"
  by (simp add: safeGoal_def)

lemma percent_nonneg: "0 < t \<Longrightarrow> 0 \<le> percent w t"
  using percent_mono [of 0 w t] percent_range [of 0 t] by simp

text \<open>
  The ring stays within 0 and 100, never falls as lessons are watched, and is full exactly when
  nothing is left, for goals below 200.
\<close>

theorem weekly_goal_bounds:
  "0 \<le> goal_pct n goal \<and> goal_pct n goal \<le> 100 \<and> goal_pct n goal \<le> goal_pct (n + k) goal \<and>
   (if goal < 200 then (goal_pct n goal = 100) = (goal_left n goal = 0) else True)"
proof -
  have "goal < 200 \<Longrightarrow> (goal_pct n goal = 100) = (goal_left n goal = 0)"
  proof -
    assume "goal < 200"
    then have g: "safeGoal goal < 200" by (simp add: safeGoal_def)
    show "(goal_pct n goal = 100) = (goal_left n goal = 0)"
    proof (cases "n < safeGoal goal")
      case True
      then show ?thesis using percent_incomplete [OF True g] by (simp add: goal_pct_def goal_left_def)
    next
      case False
      then have "percent (safeGoal goal) (safeGoal goal) \<le> percent n (safeGoal goal)" by (intro percent_mono) simp_all
      then show ?thesis using False percent_full [of "safeGoal goal"] by (simp add: goal_pct_def goal_left_def)
    qed
  qed
  moreover have "percent n (safeGoal goal) \<le> percent (n + k) (safeGoal goal)" by (rule percent_mono) simp_all
  ultimately show ?thesis using percent_nonneg [of "safeGoal goal" n] by (simp add: goal_pct_def)
qed

text \<open>
  The page counts every lesson that was ever watched: after three the goal of the week is
  reached for good, whatever rows follow.
\<close>

theorem goal_counts_all_weeks:
  assumes "3 \<le> goal_done rows"
  shows "goal_pct (goal_done (rows @ later)) 3 = 100 \<and> goal_left (goal_done (rows @ later)) 3 = 0"
proof -
  have n: "3 \<le> goal_done (rows @ later)" using assms by (simp add: goal_done_def)
  have "percent 3 3 \<le> percent (goal_done (rows @ later)) 3" using n by (rule percent_mono) simp
  then show ?thesis using n percent_full [of 3] by (simp add: goal_pct_def goal_left_def safeGoal_def)
qed

theorem goal_counts_all_weeks_witness:
  "goal_pct (goal_done (replicate 3 \<lparr>sr_lesson_id = ''l'', sr_watched = True\<rparr> @ [])) 3 = 100"
proof -
  have "3 \<le> goal_done (replicate 3 \<lparr>sr_lesson_id = ''l'', sr_watched = True\<rparr>)" by (simp add: goal_done_def eval_nat_numeral)
  from goal_counts_all_weeks [OF this, of "[]"] show ?thesis by blast
qed

section \<open>The review queue\<close>

lemma review_run:
  assumes "1 < length q" "i < length q"
  shows "allowed review_guard review_step \<lparr>rq_items = q, rq_idx = i\<rparr> (replicate k NextItem) \<and>
     run review_step \<lparr>rq_items = q, rq_idx = i\<rparr> (replicate k NextItem) = \<lparr>rq_items = q, rq_idx = (i + k) mod length q\<rparr>"
  using assms(2)
proof (induction k arbitrary: i)
  case (Suc k)
  have "(i + 1) mod length q < length q" using assms(1) by (intro mod_less_divisor) linarith
  from Suc.IH [OF this] Suc.prems assms(1) show ?case by (simp add: review_shown_def mod_simps)
qed simp

text \<open>
  The button goes round the whole queue: from the first item, as many clicks show the items in
  their order, and the next shows the first again.
\<close>

theorem review_goes_round:
  assumes "1 < length q"
  shows "allowed review_guard review_step \<lparr>rq_items = q, rq_idx = 0\<rparr> (replicate (length q) NextItem) \<and>
     map (\<lambda>k. review_shown (run review_step \<lparr>rq_items = q, rq_idx = 0\<rparr> (replicate k NextItem))) [0..<length q] = map Some q \<and>
     run review_step \<lparr>rq_items = q, rq_idx = 0\<rparr> (replicate (length q) NextItem) = \<lparr>rq_items = q, rq_idx = 0\<rparr>"
proof -
  have i: "0 < length q" using assms by linarith
  have "map (\<lambda>k. review_shown (run review_step \<lparr>rq_items = q, rq_idx = 0\<rparr> (replicate k NextItem))) [0..<length q] = map (\<lambda>k. Some (q ! k)) [0..<length q]"
    using review_run [OF assms i] by (intro map_cong) (simp_all add: review_shown_def)
  also have "\<dots> = map Some (map (\<lambda>k. q ! k) [0..<length q])" by simp
  finally show ?thesis using review_run [OF assms i, of "length q"] by (simp add: map_nth)
qed

theorem review_goes_round_witness:
  "map (\<lambda>k. review_shown (run review_step \<lparr>rq_items = [''a'', ''b''], rq_idx = 0\<rparr> (replicate k NextItem))) [0..<2] = [Some ''a'', Some ''b'']"
  using review_goes_round [of "[''a'', ''b'']"] by (simp add: numeral_2_eq_2)

text \<open>
  The index outlives a shorter list: the widget then disappears, questions and button, although
  questions remain, and only an empty or a longer list brings it back.
\<close>

theorem review_shrinks_away:
  assumes "q \<noteq> []" "length q \<le> rq_idx s"
  shows "review_shown (review_step s (QueueRead q)) = None \<and> \<not> review_guard (review_step s (QueueRead q)) NextItem"
  using assms by (simp add: review_shown_def)

theorem review_shrinks_away_witness:
  "review_shown (review_step (run review_step \<lparr>rq_items = [''a'', ''b''], rq_idx = 0\<rparr> [NextItem]) (QueueRead [''a''])) = None"
  using review_shrinks_away [of "[''a'']" "run review_step \<lparr>rq_items = [''a'', ''b''], rq_idx = 0\<rparr> [NextItem]"] by simp

section \<open>Rating a lesson\<close>

definition rating_inv :: "rating \<Rightarrow> bool" where
  "rating_inv s =
     ((rt_rated s = None \<longrightarrow> rt_sent s = []) \<and> length (rt_sent s) \<le> 1 \<and> list_all (\<lambda>(i, n). n \<in> {1, 2, 3, 4, 5} \<and> rt_rated s = Some n) (rt_sent s) \<and>
      (case rt_rated s of None \<Rightarrow> True | Some n \<Rightarrow> n \<in> {1, 2, 3, 4, 5}))"

lemma rating_inv_step: "rating_inv s \<Longrightarrow> rating_guard s e \<Longrightarrow> rating_inv (rating_step s e)"
  by (cases e) (auto simp: rating_inv_def rating_view_def split: option.splits if_splits)

interpretation raters: bounded_machine "\<lambda>s. s = rating0" rating_guard rating_step rating_inv "\<lambda>s. length (rt_sent s)" 1
proof unfold_locales
  fix s assume "s = rating0"
  then show "rating_inv s" by (simp add: rating_inv_def rating0_def)
next
  fix s e assume "rating_inv s" "rating_guard s e"
  then show "rating_inv (rating_step s e)" by (rule rating_inv_step)
next
  fix s assume "rating_inv s"
  then show "length (rt_sent s) \<le> 1" by (simp add: rating_inv_def)
qed

text \<open>One rating at most is sent, of one to five stars, and it is the one that is thanked for.\<close>

theorem one_rating:
  assumes "reach (\<lambda>s. s = rating0) rating_guard rating_step s"
  shows "length (rt_sent s) \<le> 1 \<and> list_all (\<lambda>(i, n). n \<in> {1, 2, 3, 4, 5} \<and> rt_rated s = Some n) (rt_sent s)"
  using raters.reach_inv [OF assms] by (simp add: rating_inv_def)

text \<open>
  The service lists lessons in descending order of their start. A lesson still to come that is
  not cancelled is then in front of every past one: the answer to how the last lesson was rates
  a lesson that has not begun.
\<close>

theorem future_lesson_rated:
  assumes "sorted (rev (map po_start ls))" "l \<in> set ls" "po_status l \<noteq> ''CANCELLED''" "now < po_start l"
  shows "case rated_lesson ls of None \<Rightarrow> False | Some r \<Rightarrow> now < po_start r \<and>
     rt_sent (rating_step \<lparr>rt_lessons = ls, rt_rated = None, rt_sent = []\<rparr> (Rate n)) = [(po_id r, n)]"
proof -
  have "\<exists>r. rated_lesson ls = Some r \<and> po_start l \<le> po_start r" using assms(1-3)
  proof (induction ls)
    case (Cons x xs)
    then show ?case by (cases "po_status x = ''CANCELLED''") (auto simp: rated_lesson_def sorted_append)
  qed simp
  then show ?thesis using assms(4) by auto
qed

definition past_and_future :: "portal_lesson list" where
  "past_and_future =
     [\<lparr>po_id = ''next'', po_title = ''Next'', po_start = 200, po_status = ''SCHEDULED'', po_meeting = [], po_video = []\<rparr>,
      \<lparr>po_id = ''last'', po_title = ''Last'', po_start = 50, po_status = ''COMPLETED'', po_meeting = [], po_video = []\<rparr>]"

theorem one_rating_witness:
  "(let s = run rating_step rating0 [RatedLessons past_and_future, Rate 4] in
     rt_sent s = [(''next'', 4)] \<and> list_all (\<lambda>(i, n). n \<in> {1, 2, 3, 4, 5} \<and> rt_rated s = Some n) (rt_sent s))"
proof -
  let ?es = "[RatedLessons past_and_future, Rate 4]"
  have f: "allowed rating_guard rating_step rating0 ?es" "rt_sent (run rating_step rating0 ?es) = [(''next'', 4)]" by code_simp+
  from one_rating [OF run_reachable [OF refl f(1)]] f(2) show ?thesis unfolding Let_def by blast
qed

theorem future_lesson_rated_witness:
  "rt_sent (rating_step \<lparr>rt_lessons = past_and_future, rt_rated = None, rt_sent = []\<rparr> (Rate 5)) = [(''next'', 5)]"
proof -
  have f: "sorted (rev (map po_start past_and_future))" "hd past_and_future \<in> set past_and_future" "po_status (hd past_and_future) \<noteq> ''CANCELLED''"
    "100 < po_start (hd past_and_future)" by code_simp+
  have "rated_lesson past_and_future = Some (hd past_and_future)" "po_id (hd past_and_future) = ''next''" by code_simp+
  then show ?thesis using future_lesson_rated [OF f, of 5] by simp
qed

section \<open>Topics, rails and suggestions\<close>

text \<open>
  Every topic is shown once, under its subject, in the order of the answer, and the three bands
  of the legend share the topics out.
\<close>

theorem topics_partition:
  "distinct (map fst (bySubject cells)) \<and> fst ` set (bySubject cells) = tm_subject ` set cells \<and>
   list_all (\<lambda>(s, cs). cs = filter (\<lambda>c. tm_subject c = s) cells) (bySubject cells) \<and>
   length (filter (\<lambda>c. masteryBand (tm_mastery c) = Strong) cells) + length (filter (\<lambda>c. masteryBand (tm_mastery c) = Developing) cells) +
     length (filter (\<lambda>c. masteryBand (tm_mastery c) = Needs) cells) = length cells"
proof -
  have "length (filter (\<lambda>c. masteryBand (tm_mastery c) = Strong) cells) + length (filter (\<lambda>c. masteryBand (tm_mastery c) = Developing) cells) +
     length (filter (\<lambda>c. masteryBand (tm_mastery c) = Needs) cells) = length cells"
    by (induction cells) (auto simp: masteryBand_def)
  then show ?thesis using into_groups_partition [of tm_subject cells] by (simp add: bySubject_def)
qed

text \<open>
  The rail resumes at most three recorded lessons that are not cancelled; the suggestions are at
  most six links, and none when a list is missing.
\<close>

theorem rail_and_shelf:
  "length (resume_rail (resume_items ls)) \<le> 3 \<and> resume_rail (resume_items ls) = resume_items ls \<and>
   list_all (\<lambda>l. po_video l \<noteq> [] \<and> po_status l \<noteq> ''CANCELLED'') (resume_items ls) \<and> length (shelf d) \<le> 6"
proof -
  have "list_all (\<lambda>l. po_video l \<noteq> [] \<and> po_status l \<noteq> ''CANCELLED'') (resume_items ls)"
    by (auto simp: resume_items_def list_all_iff dest!: in_set_takeD)
  moreover have "length (shelf d) \<le> 6" by (auto simp: shelf_def split: option.split)
  ultimately show ?thesis by (simp add: resume_rail_def resume_items_def)
qed

end
