(* ===== verification/TutorDesk.thy ===== *)
theory TutorDesk
  imports Machine JsDecimal Endpoints
begin

text \<open>
  The tutor's desks: the gradebook and the progress reports on the web
  (\<open>client/features/learning/TutorLearning.tsx\<close>), the weekly hours and the lessons on the phone
  (\<open>mobile/app/tutor/availability.tsx\<close>, \<open>mobile/app/tutor/lessons.tsx\<close>). Each is a machine over
  its hooks, its calls in flight and a log of what was sent. Parsing a local time and printing
  an instant are parameters of the lessons.
\<close>

section \<open>The gradebook\<close>

definition answers_of :: "jsstring \<Rightarrow> (jsstring \<times> 'a list) list \<Rightarrow> 'a list" where
  "answers_of k m = (case map_of m k of None \<Rightarrow> [] | Some xs \<Rightarrow> xs)"

definition text_of :: "jsstring \<Rightarrow> (jsstring \<times> jsstring) list \<Rightarrow> jsstring" where
  "text_of k m = (case map_of m k of None \<Rightarrow> [] | Some v \<Rightarrow> v)"

record grade_call =
  gc_id :: jsstring
  gc_score :: "rat option" \<comment> \<open>\<open>None\<close> for \<open>NaN\<close>\<close>
  gc_note :: "jsstring option"

record gradebook =
  gb_cohorts :: "jsstring list"
  gb_cohort :: jsstring
  gb_assignment :: jsstring
  gb_assignments :: "(jsstring \<times> jsstring list) list" \<comment> \<open>the query's answers by cohort\<close>
  gb_submissions :: "(jsstring \<times> jsstring list) list" \<comment> \<open>by assignment\<close>
  gb_scores :: "(jsstring \<times> jsstring) list"
  gb_feedback :: "(jsstring \<times> jsstring) list"
  gb_calls :: "grade_call list"
  gb_sent :: "grade_call list"
  gb_refreshed :: "jsstring list"
  gb_toasts :: "jsstring list"

definition gradebook0 :: gradebook where
  "gradebook0 = \<lparr>gb_cohorts = [], gb_cohort = [], gb_assignment = [], gb_assignments = [], gb_submissions = [], gb_scores = [], gb_feedback = [],
     gb_calls = [], gb_sent = [], gb_refreshed = [], gb_toasts = []\<rparr>"

definition shown_submissions :: "gradebook \<Rightarrow> jsstring list" where
  "shown_submissions s = (if gb_assignment s \<noteq> [] then answers_of (gb_assignment s) (gb_submissions s) else [])"

datatype grade_event =
    CohortsRead "jsstring list" | AssignmentsRead jsstring "jsstring list" | SubmissionsRead jsstring "jsstring list"
  | PickCohort jsstring | PickAssignment jsstring | TypeScore jsstring jsstring | TypeNote jsstring jsstring
  | GradeClick jsstring | Graded grade_call | GradeLost grade_call js_exn

definition grade_view :: "gradebook \<Rightarrow> grade_event widget list" where
  "grade_view s =
     map (\<lambda>i. Btn (if gb_calls s \<noteq> [] then ''Grading'' @ ellipsis else ''Grade'') (gb_calls s = [] \<and> text_of i (gb_scores s) \<noteq> []) (GradeClick i))
       (shown_submissions s)"

text \<open>A number input gives the empty text or a decimal literal.\<close>

definition number_text :: "jsstring \<Rightarrow> bool" where
  "number_text v = (v = [] \<or> js_number v \<noteq> None)"

fun grade_guard :: "gradebook \<Rightarrow> grade_event \<Rightarrow> bool" where
  "grade_guard s (CohortsRead cs) = True"
| "grade_guard s (AssignmentsRead c xs) = (c \<noteq> [])"
| "grade_guard s (SubmissionsRead a xs) = (a \<noteq> [])"
| "grade_guard s (PickCohort c) = (c = [] \<or> c \<in> set (gb_cohorts s))"
| "grade_guard s (PickAssignment a) = (gb_cohort s \<noteq> [] \<and> (a = [] \<or> a \<in> set (answers_of (gb_cohort s) (gb_assignments s))))"
| "grade_guard s (TypeScore i v) = (i \<in> set (shown_submissions s) \<and> number_text v)"
| "grade_guard s (TypeNote i v) = (i \<in> set (shown_submissions s))"
| "grade_guard s (Graded c) = (c \<in> set (gb_calls s))"
| "grade_guard s (GradeLost c e) = (c \<in> set (gb_calls s))"
| "grade_guard s (GradeClick i) = (GradeClick i \<in> set (offered (grade_view s)))"

definition grade_of :: "gradebook \<Rightarrow> jsstring \<Rightarrow> grade_call" where
  "grade_of s i =
     \<lparr>gc_id = i, gc_score = js_number (text_of i (gb_scores s)),
      gc_note = (if text_of i (gb_feedback s) \<noteq> [] then Some (text_of i (gb_feedback s)) else None)\<rparr>"

fun grade_step :: "gradebook \<Rightarrow> grade_event \<Rightarrow> gradebook" where
  "grade_step s (CohortsRead cs) = s\<lparr>gb_cohorts := cs\<rparr>"
| "grade_step s (AssignmentsRead c xs) = s\<lparr>gb_assignments := put_answer c xs (gb_assignments s)\<rparr>"
| "grade_step s (SubmissionsRead a xs) = s\<lparr>gb_submissions := put_answer a xs (gb_submissions s)\<rparr>"
| "grade_step s (PickCohort c) = s\<lparr>gb_cohort := c, gb_assignment := []\<rparr>"
| "grade_step s (PickAssignment a) = s\<lparr>gb_assignment := a\<rparr>"
| "grade_step s (TypeScore i v) = s\<lparr>gb_scores := put_answer i v (gb_scores s)\<rparr>"
| "grade_step s (TypeNote i v) = s\<lparr>gb_feedback := put_answer i v (gb_feedback s)\<rparr>"
| "grade_step s (GradeClick i) = s\<lparr>gb_calls := gb_calls s @ [grade_of s i], gb_sent := gb_sent s @ [grade_of s i]\<rparr>"
| "grade_step s (Graded c) =
     s\<lparr>gb_calls := remove1 c (gb_calls s), gb_toasts := gb_toasts s @ [''Submission graded - student notified.''],
       gb_refreshed := gb_refreshed s @ [gb_assignment s]\<rparr>"
| "grade_step s (GradeLost c e) = s\<lparr>gb_calls := remove1 c (gb_calls s), gb_toasts := gb_toasts s @ [message_or ''Could not grade'' e]\<rparr>"

section \<open>Progress reports\<close>

record report_form =
  rf_student :: jsstring
  rf_start :: jsstring
  rf_end :: jsstring
  rf_strengths :: jsstring
  rf_weaknesses :: jsstring
  rf_advice :: jsstring
  rf_rating :: int

record reports =
  rp_form :: report_form
  rp_calls :: "json list"
  rp_sent :: "json list"
  rp_toasts :: "jsstring list"

definition reports0 :: reports where
  "reports0 = \<lparr>rp_form = \<lparr>rf_student = [], rf_start = [], rf_end = [], rf_strengths = [], rf_weaknesses = [], rf_advice = [], rf_rating = 4\<rparr>,
     rp_calls = [], rp_sent = [], rp_toasts = []\<rparr>"

definition report_input :: "report_form \<Rightarrow> json" where
  "report_input f =
     obj [(''student_profile_id'', Some (JStr (rf_student f))), (''period_start'', Some (JStr (rf_start f))), (''period_end'', Some (JStr (rf_end f))),
          (''strengths'', when_filled (rf_strengths f)), (''weaknesses'', when_filled (rf_weaknesses f)),
          (''recommendations'', when_filled (rf_advice f)), (''overall_rating'', Some (JNum (rf_rating f)))]"

datatype report_event = EditReport report_form | Release | Released json | ReleaseLost json js_exn

definition report_view :: "reports \<Rightarrow> report_event widget list" where
  "report_view s =
     [Btn (if rp_calls s \<noteq> [] then ''Releasing'' @ ellipsis else ''Release report'')
        (rp_calls s = [] \<and> rf_start (rp_form s) \<noteq> [] \<and> rf_end (rp_form s) \<noteq> []) Release]"

text \<open>One field changes at a time; the rating comes from a select of one to five.\<close>

fun report_guard :: "reports \<Rightarrow> report_event \<Rightarrow> bool" where
  "report_guard s (EditReport f) = (rf_rating f \<in> {1, 2, 3, 4, 5})"
| "report_guard s Release = (Release \<in> set (offered (report_view s)))"
| "report_guard s (Released c) = (c \<in> set (rp_calls s))"
| "report_guard s (ReleaseLost c e) = (c \<in> set (rp_calls s))"

fun report_step :: "reports \<Rightarrow> report_event \<Rightarrow> reports" where
  "report_step s (EditReport f) = s\<lparr>rp_form := f\<rparr>"
| "report_step s Release = s\<lparr>rp_calls := rp_calls s @ [report_input (rp_form s)], rp_sent := rp_sent s @ [report_input (rp_form s)]\<rparr>"
| "report_step s (Released c) =
     s\<lparr>rp_calls := remove1 c (rp_calls s), rp_toasts := rp_toasts s @ [''Progress report released to student + linked parent.''],
       rp_form := (rp_form s)\<lparr>rf_strengths := [], rf_weaknesses := [], rf_advice := []\<rparr>\<rparr>"
| "report_step s (ReleaseLost c e) = s\<lparr>rp_calls := remove1 c (rp_calls s), rp_toasts := rp_toasts s @ [message_or ''Could not create report'' e]\<rparr>"

section \<open>Weekly hours on the phone\<close>

record hour_slot =
  hs_id :: jsstring
  hs_day :: nat
  hs_start :: jsstring
  hs_end :: jsstring

record hours =
  hr_slots :: "hour_slot list"
  hr_day :: nat
  hr_start :: jsstring
  hr_end :: jsstring
  hr_busy :: bool
  hr_adding :: "(nat \<times> jsstring \<times> jsstring) list"
  hr_removing :: "jsstring list"
  hr_loads :: "bool list" \<comment> \<open>loads in flight; \<open>True\<close> for the one that \<open>add\<close> awaits\<close>
  hr_sent :: "(nat \<times> jsstring \<times> jsstring) list"

definition hours0 :: hours where
  "hours0 = \<lparr>hr_slots = [], hr_day = 1, hr_start = ''09:00'', hr_end = ''17:00'', hr_busy = False, hr_adding = [], hr_removing = [], hr_loads = [False],
     hr_sent = []\<rparr>"

definition DAY_NAMES :: "jsstring list" where
  "DAY_NAMES = [''Sunday'', ''Monday'', ''Tuesday'', ''Wednesday'', ''Thursday'', ''Friday'', ''Saturday'']"

definition grouped_hours :: "hour_slot list \<Rightarrow> (jsstring \<times> nat \<times> hour_slot list) list" where
  "grouped_hours ss =
     filter (\<lambda>g. snd (snd g) \<noteq> []) (map (\<lambda>i. (DAY_NAMES ! i, i, filter (\<lambda>s. hs_day s = i) ss)) [0..<length DAY_NAMES])"

datatype hours_event =
    PickDay nat | TypeStart jsstring | TypeEnd jsstring | AddWindow | WindowAdded "nat \<times> jsstring \<times> jsstring" | WindowLost "nat \<times> jsstring \<times> jsstring"
  | RemoveWindow jsstring | WindowRemoved jsstring | RemoveLost jsstring | FocusHours | HoursRead bool "hour_slot list" | HoursLost bool

definition hours_view :: "hours \<Rightarrow> hours_event widget list" where
  "hours_view s =
     map (\<lambda>i. Btn (take 3 (DAY_NAMES ! i)) True (PickDay i)) [1..<6] @ [Btn ''Add window'' (\<not> hr_busy s) AddWindow] @
     concat (map (\<lambda>g. map (\<lambda>w. Btn ''trash-outline'' True (RemoveWindow (hs_id w))) (snd (snd g))) (grouped_hours (hr_slots s)))"

fun hours_guard :: "hours \<Rightarrow> hours_event \<Rightarrow> bool" where
  "hours_guard s (TypeStart v) = True"
| "hours_guard s (TypeEnd v) = True"
| "hours_guard s FocusHours = True"
| "hours_guard s (WindowAdded w) = (w \<in> set (hr_adding s))"
| "hours_guard s (WindowLost w) = (w \<in> set (hr_adding s))"
| "hours_guard s (WindowRemoved i) = (i \<in> set (hr_removing s))"
| "hours_guard s (RemoveLost i) = (i \<in> set (hr_removing s))"
| "hours_guard s (HoursRead a xs) = (a \<in> set (hr_loads s))"
| "hours_guard s (HoursLost a) = (a \<in> set (hr_loads s))"
| "hours_guard s e = (e \<in> set (offered (hours_view s)))"

definition add_window :: "hours \<Rightarrow> hours" where
  "add_window s =
     (if hr_busy s then s
      else s\<lparr>hr_busy := True, hr_adding := hr_adding s @ [(hr_day s, hr_start s, hr_end s)], hr_sent := hr_sent s @ [(hr_day s, hr_start s, hr_end s)]\<rparr>)"

definition hours_loaded :: "bool \<Rightarrow> hour_slot list \<Rightarrow> hours \<Rightarrow> hours" where
  "hours_loaded a xs s = s\<lparr>hr_slots := xs, hr_loads := remove1 a (hr_loads s), hr_busy := (hr_busy s \<and> \<not> a)\<rparr>"

fun hours_step :: "hours \<Rightarrow> hours_event \<Rightarrow> hours" where
  "hours_step s (PickDay i) = s\<lparr>hr_day := i\<rparr>"
| "hours_step s (TypeStart v) = s\<lparr>hr_start := v\<rparr>"
| "hours_step s (TypeEnd v) = s\<lparr>hr_end := v\<rparr>"
| "hours_step s AddWindow = add_window s"
| "hours_step s (WindowAdded w) = s\<lparr>hr_adding := remove1 w (hr_adding s), hr_loads := hr_loads s @ [True]\<rparr>"
| "hours_step s (WindowLost w) = s\<lparr>hr_adding := remove1 w (hr_adding s), hr_busy := False\<rparr>"
| "hours_step s (RemoveWindow i) = s\<lparr>hr_removing := hr_removing s @ [i]\<rparr>"
| "hours_step s (WindowRemoved i) = s\<lparr>hr_removing := remove1 i (hr_removing s), hr_loads := hr_loads s @ [False]\<rparr>"
| "hours_step s (RemoveLost i) = s\<lparr>hr_removing := remove1 i (hr_removing s)\<rparr>"
| "hours_step s FocusHours = s\<lparr>hr_loads := hr_loads s @ [False]\<rparr>"
| "hours_step s (HoursRead a xs) = hours_loaded a xs s"
| "hours_step s (HoursLost a) = hours_loaded a [] s"

section \<open>Lessons on the phone\<close>

record diary_lesson =
  dl_id :: jsstring
  dl_start :: jsstring
  dl_end :: jsstring
  dl_status :: jsstring

datatype diary_call = MoveLesson jsstring jsstring jsstring | DropLesson jsstring

record diary =
  di_lessons :: "diary_lesson list"
  di_loading :: bool
  di_editing :: "jsstring option"
  di_start :: jsstring
  di_end :: jsstring
  di_busy :: bool
  di_prompt :: "jsstring option" \<comment> \<open>the lesson of the open alert\<close>
  di_calls :: "diary_call list"
  di_loads :: "bool list"
  di_sent :: "diary_call list"
  di_alerts :: "jsstring list"

definition diary0 :: diary where
  "diary0 = \<lparr>di_lessons = [], di_loading = True, di_editing = None, di_start = [], di_end = [], di_busy = False, di_prompt = None, di_calls = [],
     di_loads = [False], di_sent = [], di_alerts = []\<rparr>"

definition toLocalInput :: "jsstring \<Rightarrow> jsstring" where
  "toLocalInput v = take 16 v"

text \<open>\<open>parse\<close> is \<open>Date.parse\<close>, which reads a text without a zone as local time.\<close>

definition parseDraft :: "(jsstring \<Rightarrow> int option) \<Rightarrow> jsstring \<Rightarrow> int option" where
  "parseDraft parse v = parse (if length v = 16 then v @ '':00'' else v)"

definition diary_alert :: "jsstring \<Rightarrow> diary \<Rightarrow> diary" where
  "diary_alert m s = s\<lparr>di_alerts := di_alerts s @ [m]\<rparr>"

definition diary_send :: "diary_call \<Rightarrow> diary \<Rightarrow> diary" where
  "diary_send c s = s\<lparr>di_busy := True, di_calls := di_calls s @ [c], di_sent := di_sent s @ [c]\<rparr>"

definition move_lesson :: "(jsstring \<Rightarrow> int option) \<Rightarrow> (int \<Rightarrow> jsstring) \<Rightarrow> jsstring \<Rightarrow> diary \<Rightarrow> diary" where
  "move_lesson parse print i s =
     (case (parseDraft parse (di_start s), parseDraft parse (di_end s)) of
        (Some a, Some b) \<Rightarrow>
          if b \<le> a then diary_alert ''The end time must be after the start time.'' s else diary_send (MoveLesson i (print a) (print b)) s
      | _ \<Rightarrow> diary_alert ''Use the format 2026-09-01T15:30 for both start and end.'' s)"

datatype diary_event =
    FocusDiary | DiaryRead bool "diary_lesson list" | DiaryLost bool
  | EditTap diary_lesson | TypeDraftStart jsstring | TypeDraftEnd jsstring | ConfirmMove jsstring | CancelTap jsstring | KeepLesson | CancelYes jsstring
  | DiaryDone diary_call | DiaryFailed diary_call js_exn

definition diary_view :: "int \<Rightarrow> (jsstring \<Rightarrow> int option) \<Rightarrow> diary \<Rightarrow> diary_event widget list" where
  "diary_view now parse s =
     (if di_loading s then []
      else concat (map (\<lambda>l.
         (case parse (dl_start l) of
            None \<Rightarrow> []
          | Some t \<Rightarrow> if now \<le> t \<and> dl_status l \<noteq> ''CANCELLED''
              then [Btn (if di_editing s = Some (dl_id l) then ''Close'' else ''Reschedule'') (\<not> di_busy s) (EditTap l), Btn ''Cancel'' (\<not> di_busy s) (CancelTap (dl_id l))]
              else []) @
         (if di_editing s = Some (dl_id l) then [Btn (if di_busy s then ''Saving'' @ ellipsis else ''Confirm new time'') (\<not> di_busy s) (ConfirmMove (dl_id l))] else []))
         (di_lessons s)))"

text \<open>While an alert is open it takes every tap.\<close>

fun diary_guard :: "int \<Rightarrow> (jsstring \<Rightarrow> int option) \<Rightarrow> diary \<Rightarrow> diary_event \<Rightarrow> bool" where
  "diary_guard now parse s FocusDiary = True"
| "diary_guard now parse s (DiaryRead a xs) = (a \<in> set (di_loads s))"
| "diary_guard now parse s (DiaryLost a) = (a \<in> set (di_loads s))"
| "diary_guard now parse s (TypeDraftStart v) = (di_editing s \<noteq> None \<and> di_prompt s = None)"
| "diary_guard now parse s (TypeDraftEnd v) = (di_editing s \<noteq> None \<and> di_prompt s = None)"
| "diary_guard now parse s KeepLesson = (di_prompt s \<noteq> None)"
| "diary_guard now parse s (CancelYes i) = (di_prompt s = Some i)"
| "diary_guard now parse s (DiaryDone c) = (c \<in> set (di_calls s))"
| "diary_guard now parse s (DiaryFailed c e) = (c \<in> set (di_calls s))"
| "diary_guard now parse s e = (di_prompt s = None \<and> e \<in> set (offered (diary_view now parse s)))"

fun is_move :: "diary_call \<Rightarrow> bool" where
  "is_move (MoveLesson i a b) = True"
| "is_move (DropLesson i) = False"

definition diary_loaded :: "bool \<Rightarrow> diary_lesson list \<Rightarrow> diary \<Rightarrow> diary" where
  "diary_loaded a xs s = s\<lparr>di_lessons := xs, di_loading := False, di_loads := remove1 a (di_loads s), di_busy := (di_busy s \<and> \<not> a)\<rparr>"

fun diary_step :: "(jsstring \<Rightarrow> int option) \<Rightarrow> (int \<Rightarrow> jsstring) \<Rightarrow> diary \<Rightarrow> diary_event \<Rightarrow> diary" where
  "diary_step parse print s FocusDiary = s\<lparr>di_loads := di_loads s @ [False]\<rparr>"
| "diary_step parse print s (DiaryRead a xs) = diary_loaded a xs s"
| "diary_step parse print s (DiaryLost a) = diary_loaded a [] s"
| "diary_step parse print s (EditTap l) =
     s\<lparr>di_editing := (if di_editing s = Some (dl_id l) then None else Some (dl_id l)), di_start := toLocalInput (dl_start l), di_end := toLocalInput (dl_end l)\<rparr>"
| "diary_step parse print s (TypeDraftStart v) = s\<lparr>di_start := v\<rparr>"
| "diary_step parse print s (TypeDraftEnd v) = s\<lparr>di_end := v\<rparr>"
| "diary_step parse print s (ConfirmMove i) = move_lesson parse print i s"
| "diary_step parse print s (CancelTap i) = s\<lparr>di_prompt := Some i\<rparr>"
| "diary_step parse print s KeepLesson = s\<lparr>di_prompt := None\<rparr>"
| "diary_step parse print s (CancelYes i) = diary_send (DropLesson i) (s\<lparr>di_prompt := None\<rparr>)"
| "diary_step parse print s (DiaryDone c) =
     s\<lparr>di_calls := remove1 c (di_calls s), di_loads := di_loads s @ [True], di_editing := (if is_move c then None else di_editing s)\<rparr>"
| "diary_step parse print s (DiaryFailed c e) =
     diary_alert (message_or ''Please try again.'' e) (s\<lparr>di_calls := remove1 c (di_calls s), di_busy := False\<rparr>)"

section \<open>Grading\<close>

definition grade_sound :: "grade_call \<Rightarrow> bool" where
  "grade_sound c = (gc_score c \<noteq> None \<and> gc_note c \<noteq> Some [])"

definition grade_inv :: "gradebook \<Rightarrow> bool" where
  "grade_inv s = (length (gb_calls s) \<le> 1 \<and> list_all (\<lambda>(i, v). number_text v) (gb_scores s) \<and> list_all grade_sound (gb_sent s))"

lemma text_of_number: "list_all (\<lambda>(i, v). number_text v) m \<Longrightarrow> number_text (text_of i m)"
  by (auto simp: text_of_def number_text_def list_all_iff dest!: map_of_SomeD split: option.split)

lemma grade_offers: "GradeClick i \<in> set (offered (grade_view s)) \<Longrightarrow> gb_calls s = [] \<and> text_of i (gb_scores s) \<noteq> [] \<and> i \<in> set (shown_submissions s)"
  unfolding grade_view_def in_offered by auto

lemma short_remove1: "length xs \<le> Suc 0 \<Longrightarrow> length (remove1 x xs) \<le> Suc 0"
  by (simp add: length_remove1)

lemma grade_inv_step: "grade_inv s \<Longrightarrow> grade_guard s e \<Longrightarrow> grade_inv (grade_step s e)"
proof (cases e)
  case (GradeClick i)
  assume s: "grade_inv s" and "grade_guard s e"
  then have f: "gb_calls s = []" "text_of i (gb_scores s) \<noteq> []" using GradeClick grade_offers [of i s] by simp_all
  have "number_text (text_of i (gb_scores s))" using s by (intro text_of_number) (simp add: grade_inv_def)
  then show ?thesis using s f GradeClick by (simp add: grade_inv_def grade_sound_def grade_of_def number_text_def)
next
  case (TypeScore i v)
  assume "grade_inv s" "grade_guard s e"
  then show ?thesis using TypeScore by (simp add: grade_inv_def all_put_answer)
qed (simp_all add: grade_inv_def short_remove1 del: length_remove1)

interpretation graders: bounded_machine "\<lambda>s. s = gradebook0" grade_guard grade_step grade_inv "\<lambda>s. length (gb_calls s)" 1
proof unfold_locales
  fix s assume "s = gradebook0"
  then show "grade_inv s" by (simp add: grade_inv_def gradebook0_def)
next
  fix s e assume "grade_inv s" "grade_guard s e"
  then show "grade_inv (grade_step s e)" by (rule grade_inv_step)
next
  fix s assume "grade_inv s"
  then show "length (gb_calls s) \<le> 1" by (simp add: grade_inv_def)
qed

text \<open>
  One submission is graded at a time; every grade that is sent has a number and no empty note,
  and a grade can be sent only for a submission of the assignment on the page.
\<close>

theorem gradebook_safe:
  assumes "reach (\<lambda>s. s = gradebook0) grade_guard grade_step s"
  shows "length (gb_calls s) \<le> 1 \<and> list_all grade_sound (gb_sent s) \<and>
     list_all (\<lambda>e. case e of GradeClick i \<Rightarrow> i \<in> set (shown_submissions s) \<and> gb_calls s = [] | _ \<Rightarrow> True) (offered (grade_view s))"
proof -
  have "list_all (\<lambda>e. case e of GradeClick i \<Rightarrow> i \<in> set (shown_submissions s) \<and> gb_calls s = [] | _ \<Rightarrow> True) (offered (grade_view s))"
    unfolding list_all_iff using grade_offers [of _ s] by (auto split: grade_event.split)
  then show ?thesis using graders.reach_inv [OF assms] by (simp add: grade_inv_def)
qed

definition grading_run :: "grade_event list" where
  "grading_run = [CohortsRead [''c''], PickCohort ''c'', AssignmentsRead ''c'' [''a'', ''b''], PickAssignment ''a'', SubmissionsRead ''a'' [''s1''],
     TypeScore ''s1'' ''85'', GradeClick ''s1'']"

definition grade85 :: grade_call where
  "grade85 = \<lparr>gc_id = ''s1'', gc_score = Some 85, gc_note = None\<rparr>"

theorem gradebook_safe_witness:
  "(let s = run grade_step gradebook0 grading_run in length (gb_sent s) = 1 \<and> list_all grade_sound (gb_sent s))"
proof -
  let ?s = "run grade_step gradebook0 grading_run"
  have f: "allowed grade_guard grade_step gradebook0 grading_run" "length (gb_sent ?s) = 1" by code_simp+
  from gradebook_safe [OF run_reachable [OF refl f(1)]] f(2) show ?thesis unfolding Let_def by blast
qed

text \<open>
  The answer to a grade refreshes the assignment on the page at that time: after a change of the
  assignment, the list that holds the graded submission is not asked for again.
\<close>

theorem wrong_list_refreshed:
  assumes "gb_calls s = [c]" "gb_assignment s \<noteq> a" "gb_cohort s \<noteq> []" "a \<in> set (answers_of (gb_cohort s) (gb_assignments s))"
  shows "allowed grade_guard grade_step s [PickAssignment a, Graded c] \<and>
     gb_refreshed (run grade_step s [PickAssignment a, Graded c]) = gb_refreshed s @ [a] \<and>
     gb_submissions (run grade_step s [PickAssignment a, Graded c]) = gb_submissions s"
  using assms by simp

theorem wrong_list_refreshed_witness:
  "gb_refreshed (run grade_step (run grade_step gradebook0 grading_run) [PickAssignment ''b'', Graded (hd (gb_calls (run grade_step gradebook0 grading_run)))]) = [''b'']"
proof -
  let ?s = "run grade_step gradebook0 grading_run"
  have f: "gb_assignment ?s \<noteq> ''b''" "gb_cohort ?s \<noteq> []" "''b'' \<in> set (answers_of (gb_cohort ?s) (gb_assignments ?s))" "gb_refreshed ?s = []" "length (gb_calls ?s) = 1"
    by code_simp+
  have c: "gb_calls ?s = [hd (gb_calls ?s)]" using f(5) by (cases "gb_calls ?s") simp_all
  show ?thesis using wrong_list_refreshed [OF c f(1-3)] f(4) by (simp del: run.simps)
qed

section \<open>Reporting\<close>

definition report_ok :: "json \<Rightarrow> bool" where
  "report_ok c =
     (jget c ''period_start'' \<noteq> Some (JStr []) \<and> jget c ''period_end'' \<noteq> Some (JStr []) \<and> jget c ''strengths'' \<noteq> Some (JStr []) \<and>
      jget c ''weaknesses'' \<noteq> Some (JStr []) \<and> jget c ''recommendations'' \<noteq> Some (JStr []) \<and>
      (case jget c ''overall_rating'' of Some (JNum n) \<Rightarrow> 1 \<le> n \<and> n \<le> 5 | _ \<Rightarrow> False))"

lemma report_input_fields:
  "jget (report_input f) ''student_profile_id'' = Some (JStr (rf_student f))"
  "jget (report_input f) ''period_start'' = Some (JStr (rf_start f))"
  "jget (report_input f) ''period_end'' = Some (JStr (rf_end f))"
  "jget (report_input f) ''strengths'' = when_filled (rf_strengths f)"
  "jget (report_input f) ''weaknesses'' = when_filled (rf_weaknesses f)"
  "jget (report_input f) ''recommendations'' = when_filled (rf_advice f)"
  "jget (report_input f) ''overall_rating'' = Some (JNum (rf_rating f))"
  by (simp_all add: report_input_def jget_obj)

definition reports_inv :: "reports \<Rightarrow> bool" where
  "reports_inv s = (length (rp_calls s) \<le> 1 \<and> rf_rating (rp_form s) \<in> {1, 2, 3, 4, 5} \<and> list_all report_ok (rp_sent s))"

lemma report_offers: "Release \<in> set (offered (report_view s)) \<longleftrightarrow> rp_calls s = [] \<and> rf_start (rp_form s) \<noteq> [] \<and> rf_end (rp_form s) \<noteq> []"
  by (auto simp: report_view_def)

lemma reports_inv_step: "reports_inv s \<Longrightarrow> report_guard s e \<Longrightarrow> reports_inv (report_step s e)"
proof (cases e)
  case Release
  assume s: "reports_inv s" and "report_guard s e"
  then have f: "rp_calls s = []" "rf_start (rp_form s) \<noteq> []" "rf_end (rp_form s) \<noteq> []" using Release report_offers [of s] by simp_all
  have "report_ok (report_input (rp_form s))" using s f(2,3) by (auto simp: report_ok_def report_input_fields when_filled_def reports_inv_def)
  then show ?thesis using s f Release by (simp add: reports_inv_def)
qed (simp_all add: reports_inv_def short_remove1 del: length_remove1)

interpretation reporters: machine "\<lambda>s. s = reports0" report_guard report_step reports_inv
proof unfold_locales
  fix s assume "s = reports0"
  then show "reports_inv s" by (simp add: reports_inv_def reports0_def)
next
  fix s e assume "reports_inv s" "report_guard s e"
  then show "reports_inv (report_step s e)" by (rule reports_inv_step)
qed

text \<open>One report is released at a time, with both dates, a rating of one to five and no empty text.\<close>

theorem reports_checked:
  assumes "reach (\<lambda>s. s = reports0) report_guard report_step s"
  shows "length (rp_calls s) \<le> 1 \<and> list_all report_ok (rp_sent s)"
  using reporters.reach_inv [OF assms] by (simp add: reports_inv_def)

definition a_report :: report_form where
  "a_report = \<lparr>rf_student = ''st'', rf_start = ''2026-01-01'', rf_end = ''2026-03-31'', rf_strengths = ''Algebra'', rf_weaknesses = [], rf_advice = [], rf_rating = 5\<rparr>"

theorem reports_checked_witness:
  "(let s = run report_step reports0 [EditReport a_report, Release] in rp_sent s = [report_input a_report] \<and> list_all report_ok (rp_sent s))"
proof -
  let ?es = "[EditReport a_report, Release]"
  have f: "allowed report_guard report_step reports0 ?es" "rp_sent (run report_step reports0 ?es) = [report_input a_report]" by code_simp+
  from reports_checked [OF run_reachable [OF refl f(1)]] f(2) show ?thesis unfolding Let_def by blast
qed

text \<open>Neither the learner nor the order of the dates is checked: a report for nobody is sent.\<close>

theorem report_for_nobody:
  assumes "rp_calls s = []" "rf_student f = []" "rf_start f \<noteq> []" "rf_end f \<noteq> []" "rf_rating f \<in> {1, 2, 3, 4, 5}"
  shows "allowed report_guard report_step s [EditReport f, Release] \<and>
     jget (last (rp_sent (run report_step s [EditReport f, Release]))) ''student_profile_id'' = Some (JStr [])"
  using assms by (simp add: report_view_def report_input_fields)

theorem report_for_nobody_witness:
  "jget (last (rp_sent (run report_step reports0 [EditReport (a_report\<lparr>rf_student := [], rf_end := ''2025-01-01''\<rparr>), Release]))) ''student_profile_id'' = Some (JStr [])"
proof -
  let ?f = "a_report\<lparr>rf_student := [], rf_end := ''2025-01-01''\<rparr>"
  have "rp_calls reports0 = []" "rf_student ?f = []" "rf_start ?f \<noteq> []" "rf_end ?f \<noteq> []" "rf_rating ?f \<in> {1, 2, 3, 4, 5}" by code_simp+
  from report_for_nobody [OF this] show ?thesis by blast
qed

text \<open>What is typed while a report is being released is erased by the answer.\<close>

theorem report_typed_meanwhile_lost:
  assumes "rp_calls s = [c]" "rf_rating f \<in> {1, 2, 3, 4, 5}"
  shows "allowed report_guard report_step s [EditReport f, Released c] \<and>
     rf_strengths (rp_form (run report_step s [EditReport f, Released c])) = [] \<and> rf_student (rp_form (run report_step s [EditReport f, Released c])) = rf_student f"
  using assms by simp

theorem report_typed_meanwhile_lost_witness:
  "rf_strengths (rp_form (run report_step (run report_step reports0 [EditReport a_report, Release])
     [EditReport (a_report\<lparr>rf_student := ''st2''\<rparr>), Released (report_input a_report)])) = []"
proof -
  have "rp_calls (run report_step reports0 [EditReport a_report, Release]) = [report_input a_report]" "rf_rating (a_report\<lparr>rf_student := ''st2''\<rparr>) \<in> {1, 2, 3, 4, 5}"
    by code_simp+
  from report_typed_meanwhile_lost [OF this] show ?thesis by blast
qed

section \<open>Weekly hours\<close>

definition awaited :: "bool list \<Rightarrow> nat" where
  "awaited ls = length (filter (\<lambda>b. b) ls)"

lemma awaited_simps [simp]: "awaited (ls @ [b]) = awaited ls + (if b then 1 else 0)" "awaited [] = 0"
  by (simp_all add: awaited_def)

lemma awaited_remove1: "b \<in> set ls \<Longrightarrow> awaited (remove1 b ls) = awaited ls - (if b then 1 else 0)"
  using count_remove1 [of b ls "\<lambda>b. b"] by (simp add: awaited_def split: if_splits)

lemma awaited_pos: "True \<in> set ls \<Longrightarrow> 0 < awaited ls"
  by (auto simp: awaited_def filter_empty_conv length_greater_0_conv [symmetric] simp del: length_greater_0_conv intro: length_pos_if_in_set [of True])

definition hours_inv :: "hours \<Rightarrow> bool" where
  "hours_inv s =
     (length (hr_adding s) + awaited (hr_loads s) = (if hr_busy s then 1 else 0) \<and> hr_day s \<in> {1..5} \<and> list_all (\<lambda>w. fst w \<in> {1..5}) (hr_sent s))"

lemma hours_offers:
  "AddWindow \<in> set (offered (hours_view s)) \<Longrightarrow> \<not> hr_busy s"
  "PickDay i \<in> set (offered (hours_view s)) \<Longrightarrow> i \<in> {1..5}"
  unfolding hours_view_def in_offered offered_concat by (auto simp: in_offered)

lemma hours_loaded_inv:
  assumes "hours_inv s" "a \<in> set (hr_loads s)"
  shows "hours_inv (hours_loaded a xs s)"
  using assms awaited_remove1 [OF assms(2)] awaited_pos [of "hr_loads s"] by (cases a) (auto simp: hours_inv_def hours_loaded_def split: if_splits)

lemma hours_inv_step: "hours_inv s \<Longrightarrow> hours_guard s e \<Longrightarrow> hours_inv (hours_step s e)"
proof (cases e)
  case AddWindow
  assume "hours_inv s" "hours_guard s e"
  then show ?thesis using AddWindow hours_offers(1) [of s] by (simp add: hours_inv_def add_window_def)
next
  case (PickDay i)
  assume "hours_inv s" "hours_guard s e"
  then show ?thesis using PickDay hours_offers(2) [of i s] by (simp add: hours_inv_def)
next
  case (WindowAdded w)
  assume "hours_inv s" "hours_guard s e"
  then show ?thesis using WindowAdded by (cases "hr_adding s") (auto simp: hours_inv_def split: if_splits)
next
  case (WindowLost w)
  assume "hours_inv s" "hours_guard s e"
  then show ?thesis using WindowLost by (cases "hr_adding s") (auto simp: hours_inv_def split: if_splits)
next
  case (HoursRead a xs)
  assume "hours_inv s" "hours_guard s e"
  then show ?thesis using HoursRead by (simp add: hours_loaded_inv)
next
  case (HoursLost a)
  assume "hours_inv s" "hours_guard s e"
  then show ?thesis using HoursLost by (simp add: hours_loaded_inv)
qed (simp_all add: hours_inv_def)

interpretation weekly: bounded_machine "\<lambda>s. s = hours0" hours_guard hours_step hours_inv "\<lambda>s. length (hr_adding s)" 1
proof unfold_locales
  fix s assume "s = hours0"
  then show "hours_inv s" by (simp add: hours_inv_def hours0_def awaited_def)
next
  fix s e assume "hours_inv s" "hours_guard s e"
  then show "hours_inv (hours_step s e)" by (rule hours_inv_step)
next
  fix s assume "hours_inv s"
  then show "length (hr_adding s) \<le> 1" by (simp add: hours_inv_def split: if_splits)
qed

text \<open>One window is added at a time, on a day from Monday to Friday.\<close>

theorem hours_safe:
  assumes "reach (\<lambda>s. s = hours0) hours_guard hours_step s"
  shows "length (hr_adding s) \<le> 1 \<and> (hr_adding s \<noteq> [] \<longrightarrow> hr_busy s) \<and> list_all (\<lambda>w. fst w \<in> {1..5}) (hr_sent s)"
  using weekly.reach_inv [OF assms] by (auto simp: hours_inv_def split: if_splits)

theorem hours_safe_witness:
  "(let s = run hours_step hours0 [PickDay 5, AddWindow] in hr_sent s = [(5, ''09:00'', ''17:00'')] \<and> (hr_adding s \<noteq> [] \<longrightarrow> hr_busy s))"
proof -
  have f: "allowed hours_guard hours_step hours0 [PickDay 5, AddWindow]" "hr_sent (run hours_step hours0 [PickDay 5, AddWindow]) = [(5, ''09:00'', ''17:00'')]" by code_simp+
  from hours_safe [OF run_reachable [OF refl f(1)]] f(2) show ?thesis unfolding Let_def by blast
qed

text \<open>
  A refused window and a failed removal leave the screen as it was, with no message and no
  reload; a failed reload shows a tutor without hours.
\<close>

theorem hours_fail_silently:
  assumes "\<not> hr_busy s" "hr_adding s = []" "i \<notin> set (hr_removing s)" "w = (hr_day s, hr_start s, hr_end s)"
  shows "(run hours_step s [AddWindow, WindowLost w])\<lparr>hr_sent := hr_sent s\<rparr> = s \<and> run hours_step s [RemoveWindow i, RemoveLost i] = s \<and>
     hr_slots (run hours_step s [FocusHours, HoursLost False]) = []"
  using assms by (simp add: add_window_def hours_loaded_def remove1_append remove1_idem)

theorem hours_fail_silently_witness:
  "(run hours_step hours0 [AddWindow, WindowLost (1, ''09:00'', ''17:00'')])\<lparr>hr_sent := []\<rparr> = hours0"
  using hours_fail_silently [of hours0 "[]" "(1, ''09:00'', ''17:00'')"] by (simp add: hours0_def)

lemma seven_days: "length DAY_NAMES = 7"
  by (simp add: DAY_NAMES_def)

text \<open>The list shows every window of the week once, under its day, in the order of the days.\<close>

theorem hours_grouped:
  "list_all (\<lambda>(n, i, ws). n = DAY_NAMES ! i \<and> ws \<noteq> [] \<and> ws = filter (\<lambda>w. hs_day w = i) ss) (grouped_hours ss) \<and>
   sorted_wrt (<) (map (\<lambda>g. fst (snd g)) (grouped_hours ss)) \<and>
   length (concat (map (\<lambda>g. snd (snd g)) (grouped_hours ss))) = length (filter (\<lambda>w. hs_day w < 7) ss)"
proof -
  let ?f = "\<lambda>i. (DAY_NAMES ! i, i, filter (\<lambda>s. hs_day s = i) ss)"
  have g: "grouped_hours ss = map ?f (filter (\<lambda>i. filter (\<lambda>s. hs_day s = i) ss \<noteq> []) [0..<7])"
    by (simp only: grouped_hours_def filter_map comp_def seven_days snd_conv)
  have "sorted_wrt (<) (filter (\<lambda>i. filter (\<lambda>s. hs_day s = i) ss \<noteq> []) [0..<7])" by (intro sorted_wrt_filter) simp
  moreover have "length (concat (map (\<lambda>g. snd (snd g)) (grouped_hours ss))) = sum_list (map (\<lambda>i. length (filter (\<lambda>s. hs_day s = i) ss)) (filter (\<lambda>i. filter (\<lambda>s. hs_day s = i) ss \<noteq> []) [0..<7]))"
    by (simp add: g length_concat comp_def)
  moreover have "\<dots> = sum_list (map (\<lambda>i. length (filter (\<lambda>s. hs_day s = i) ss)) [0..<7])"
    by (rule sum_list_map_filter) simp
  moreover have "\<dots> = length (filter (\<lambda>w. hs_day w < 7) ss)"
  proof (induction ss)
    case (Cons w ws)
    have "sum_list (map (\<lambda>i. if hs_day w = i then (1::nat) else 0) [0..<7]) = (if hs_day w < 7 then 1 else 0)" for w :: hour_slot
    proof (cases "hs_day w < 7")
      case True
      then have "hs_day w \<in> {0, 1, 2, 3, 4, 5, 6}" by auto
      then show ?thesis by (auto simp: upt_rec)
    qed (simp add: upt_rec)
    moreover have "length (filter (\<lambda>s. hs_day s = i) (w # ws)) = (if hs_day w = i then 1 else 0) + length (filter (\<lambda>s. hs_day s = i) ws)" for i by simp
    ultimately show ?case using Cons by (simp only: sum_list_addf) simp
  qed simp
  ultimately show ?thesis by (simp add: g comp_def list_all_iff)
qed

section \<open>Moving lessons\<close>

definition moved_forward :: "(int \<Rightarrow> jsstring) \<Rightarrow> diary_call \<Rightarrow> bool" where
  "moved_forward print c = (case c of MoveLesson i a b \<Rightarrow> (\<exists>x y. x < y \<and> a = print x \<and> b = print y) | DropLesson i \<Rightarrow> True)"

definition diary_inv :: "(int \<Rightarrow> jsstring) \<Rightarrow> diary \<Rightarrow> bool" where
  "diary_inv print s =
     (length (di_calls s) + awaited (di_loads s) = (if di_busy s then 1 else 0) \<and> (di_prompt s \<noteq> None \<longrightarrow> \<not> di_busy s) \<and>
      list_all (moved_forward print) (di_sent s))"

lemma diary_offers:
  "ConfirmMove i \<in> set (offered (diary_view now parse s)) \<Longrightarrow> \<not> di_busy s \<and> di_editing s = Some i"
  "CancelTap i \<in> set (offered (diary_view now parse s)) \<Longrightarrow> \<not> di_busy s"
  by (auto simp: diary_view_def split: if_splits option.splits)

lemma diary_send_inv: "diary_inv print s \<Longrightarrow> \<not> di_busy s \<Longrightarrow> di_prompt s = None \<Longrightarrow> moved_forward print c \<Longrightarrow> diary_inv print (diary_send c s)"
  by (simp add: diary_inv_def diary_send_def)

lemma diary_loaded_inv:
  assumes "diary_inv print s" "a \<in> set (di_loads s)"
  shows "diary_inv print (diary_loaded a xs s)"
  using assms awaited_remove1 [OF assms(2)] awaited_pos [of "di_loads s"] by (cases a) (auto simp: diary_inv_def diary_loaded_def split: if_splits)

lemma diary_inv_step: "diary_inv print s \<Longrightarrow> diary_guard now parse s e \<Longrightarrow> diary_inv print (diary_step parse print s e)"
proof (cases e)
  case (ConfirmMove i)
  assume s: "diary_inv print s" and "diary_guard now parse s e"
  then have f: "\<not> di_busy s" "di_prompt s = None" using ConfirmMove diary_offers(1) [of i now parse s] by simp_all
  have "diary_inv print (diary_alert m s)" for m using s by (simp add: diary_inv_def diary_alert_def)
  moreover have "a < b \<Longrightarrow> diary_inv print (diary_send (MoveLesson i (print a) (print b)) s)" for a b
    using s f by (intro diary_send_inv) (auto simp: moved_forward_def)
  ultimately show ?thesis using ConfirmMove by (auto simp: move_lesson_def split: option.split)
next
  case (CancelTap i)
  assume "diary_inv print s" "diary_guard now parse s e"
  then show ?thesis using CancelTap diary_offers(2) [of i now parse s] by (simp add: diary_inv_def)
next
  case (CancelYes i)
  assume "diary_inv print s" "diary_guard now parse s e"
  then show ?thesis using CancelYes by (auto simp: diary_inv_def diary_send_def moved_forward_def)
next
  case (DiaryRead a xs)
  assume "diary_inv print s" "diary_guard now parse s e"
  then show ?thesis using DiaryRead by (simp add: diary_loaded_inv)
next
  case (DiaryLost a)
  assume "diary_inv print s" "diary_guard now parse s e"
  then show ?thesis using DiaryLost by (simp add: diary_loaded_inv)
next
  case (DiaryDone c)
  assume "diary_inv print s" "diary_guard now parse s e"
  then show ?thesis using DiaryDone by (cases "di_calls s") (auto simp: diary_inv_def split: if_splits)
next
  case (DiaryFailed c x)
  assume "diary_inv print s" "diary_guard now parse s e"
  then show ?thesis using DiaryFailed by (cases "di_calls s") (auto simp: diary_inv_def diary_alert_def split: if_splits)
qed (simp_all add: diary_inv_def)

interpretation diary_machine: bounded_machine "\<lambda>s. s = diary0" "diary_guard now parse" "diary_step parse print" "diary_inv print" "\<lambda>s. length (di_calls s)" 1
  for now parse print
proof unfold_locales
  fix s assume "s = diary0"
  then show "diary_inv print s" by (simp add: diary_inv_def diary0_def awaited_def)
next
  fix s e assume "diary_inv print s" "diary_guard now parse s e"
  then show "diary_inv print (diary_step parse print s e)" by (rule diary_inv_step)
next
  fix s assume "diary_inv print s"
  then show "length (di_calls s) \<le> 1" by (simp add: diary_inv_def split: if_splits)
qed

text \<open>
  The phone changes one lesson at a time, and a lesson is moved only to an end after its start,
  whatever the device makes of the texts.
\<close>

theorem diary_safe:
  assumes "reach (\<lambda>s. s = diary0) (diary_guard now parse) (diary_step parse print) s"
  shows "length (di_calls s) \<le> 1 \<and> (di_calls s \<noteq> [] \<longrightarrow> di_busy s \<and> di_prompt s = None) \<and> list_all (moved_forward print) (di_sent s)"
  using diary_machine.reach_inv [OF assms] by (auto simp: diary_inv_def split: if_splits)

text \<open>A device one hour ahead of UTC, on two texts.\<close>

definition lagos_parse :: "jsstring \<Rightarrow> int option" where
  "lagos_parse v =
     (if v = ''2026-05-01T10:00:00Z'' then Some 10 else if v = ''2026-05-01T11:00:00Z'' then Some 11
      else if v = ''2026-05-01T10:00:00'' then Some 9 else if v = ''2026-05-01T11:00:00'' then Some 10 else None)"

definition ten_to_eleven :: diary_lesson where
  "ten_to_eleven = \<lparr>dl_id = ''l1'', dl_start = ''2026-05-01T10:00:00Z'', dl_end = ''2026-05-01T11:00:00Z'', dl_status = ''SCHEDULED''\<rparr>"

definition print_hour :: "int \<Rightarrow> jsstring" where "print_hour t = show_int t"

theorem diary_safe_witness:
  "(let s = run (diary_step lagos_parse print_hour) diary0 [DiaryRead False [ten_to_eleven], EditTap ten_to_eleven, ConfirmMove ''l1''] in
     length (di_calls s) = 1 \<and> (di_calls s \<noteq> [] \<longrightarrow> di_busy s \<and> di_prompt s = None))"
proof -
  let ?es = "[DiaryRead False [ten_to_eleven], EditTap ten_to_eleven, ConfirmMove ''l1'']"
  have f: "allowed (diary_guard 0 lagos_parse) (diary_step lagos_parse print_hour) diary0 ?es"
    "length (di_calls (run (diary_step lagos_parse print_hour) diary0 ?es)) = 1" by code_simp+
  from diary_safe [OF run_reachable [OF refl f(1)]] f(2) show ?thesis unfolding Let_def by blast
qed

text \<open>
  The editor shows the first sixteen characters of the stored instant and reads them back as
  local time: confirming a lesson's own time sends what the device makes of those digits, an
  hour too early in Lagos.
\<close>

theorem own_time_sent_as_local:
  assumes "di_busy s = False" "di_prompt s = None" "\<not> di_loading s" "l \<in> set (di_lessons s)" "di_editing s = None" "dl_status l \<noteq> ''CANCELLED''"
    and "parse (dl_start l) = Some t" "now \<le> t" "16 \<le> length (dl_start l)" "16 \<le> length (dl_end l)"
    and "parse (take 16 (dl_start l) @ '':00'') = Some a" "parse (take 16 (dl_end l) @ '':00'') = Some b" "a < b"
  shows "allowed (diary_guard now parse) (diary_step parse print) s [EditTap l, ConfirmMove (dl_id l)] \<and>
     di_sent (run (diary_step parse print) s [EditTap l, ConfirmMove (dl_id l)]) = di_sent s @ [MoveLesson (dl_id l) (print a) (print b)]"
proof -
  have o1: "EditTap l \<in> set (offered (diary_view now parse s))"
    using assms by (auto simp: diary_view_def intro!: bexI [of _ l])
  let ?t = "diary_step parse print s (EditTap l)"
  have o2: "ConfirmMove (dl_id l) \<in> set (offered (diary_view now parse ?t))"
    using assms by (auto simp: diary_view_def intro!: bexI [of _ l])
  have d: "parseDraft parse (take 16 (dl_start l)) = Some a" "parseDraft parse (take 16 (dl_end l)) = Some b"
    using assms(9-12) by (simp_all add: parseDraft_def)
  show ?thesis using o1 o2 assms(2,5,13) d by (simp add: move_lesson_def toLocalInput_def diary_send_def)
qed

theorem own_time_sent_as_local_witness:
  "di_sent (run (diary_step lagos_parse print_hour) (run (diary_step lagos_parse print_hour) diary0 [DiaryRead False [ten_to_eleven]])
     [EditTap ten_to_eleven, ConfirmMove (dl_id ten_to_eleven)]) = [MoveLesson ''l1'' ''9'' ''10'']"
proof -
  let ?s = "run (diary_step lagos_parse print_hour) diary0 [DiaryRead False [ten_to_eleven]]"
  have f: "di_busy ?s = False" "di_prompt ?s = None" "\<not> di_loading ?s" "ten_to_eleven \<in> set (di_lessons ?s)" "di_editing ?s = None" "dl_status ten_to_eleven \<noteq> ''CANCELLED''"
    "lagos_parse (dl_start ten_to_eleven) = Some 10" "(0::int) \<le> 10" "16 \<le> length (dl_start ten_to_eleven)" "16 \<le> length (dl_end ten_to_eleven)"
    "lagos_parse (take 16 (dl_start ten_to_eleven) @ '':00'') = Some 9" "lagos_parse (take 16 (dl_end ten_to_eleven) @ '':00'') = Some 10" "(9::int) < 10" by code_simp+
  have g: "di_sent ?s = []" "dl_id ten_to_eleven = ''l1''" "print_hour 9 = ''9''" "print_hour 10 = ''10''" by code_simp+
  from own_time_sent_as_local [OF f, of print_hour, THEN conjunct2] show ?thesis unfolding g by simp
qed

text \<open>A change that was made but could not be read back empties the screen.\<close>

theorem failed_reload_hides_lessons:
  assumes "di_calls s = [c]"
  shows "allowed (diary_guard now parse) (diary_step parse print) s [DiaryDone c, DiaryLost True] \<and>
     di_lessons (run (diary_step parse print) s [DiaryDone c, DiaryLost True]) = [] \<and>
     di_alerts (run (diary_step parse print) s [DiaryDone c, DiaryLost True]) = di_alerts s"
  using assms by (simp add: diary_loaded_def)

theorem failed_reload_hides_lessons_witness:
  "di_lessons (run (diary_step lagos_parse print_hour) (run (diary_step lagos_parse print_hour) diary0
     [DiaryRead False [ten_to_eleven], EditTap ten_to_eleven, ConfirmMove ''l1'']) [DiaryDone (MoveLesson ''l1'' ''9'' ''10''), DiaryLost True]) = []"
proof -
  have "di_calls (run (diary_step lagos_parse print_hour) diary0 [DiaryRead False [ten_to_eleven], EditTap ten_to_eleven, ConfirmMove ''l1'']) = [MoveLesson ''l1'' ''9'' ''10'']"
    by code_simp
  from failed_reload_hides_lessons [OF this] show ?thesis by blast
qed

end
