(* ===== verification/CohortConsole.thy ===== *)
theory CohortConsole
  imports Machine JsDecimal Endpoints
begin

text \<open>
  The administrators' cohort manager (\<open>client/app/admin/cohorts/page.tsx\<close>): the table with its
  filter, pages, tutors and status buttons, the form of a new cohort with its banner, and the
  dialog that edits one. The form and the dialog are mounted and unmounted: an instance has a
  number, and a run that outlives its instance can still call the page back, while what it sets
  in the instance is lost. Bodies keep their numbers as \<open>Number\<close> gives them (\<open>None\<close> is \<open>NaN\<close>).
  A fee is a number: what the service stores is an amount with two decimals (\<open>money\<close>).
\<close>

section \<open>The table\<close>

record cohort_row =
  co_id :: jsstring
  co_title :: jsstring
  co_capacity :: nat
  co_enrolled :: nat
  co_start :: jsstring
  co_end :: jsstring
  co_timezone :: jsstring
  co_mode :: jsstring
  co_fee :: rat
  co_currency :: jsstring
  co_status :: jsstring
  co_tutor :: jsstring \<comment> \<open>empty when none\<close>
  co_opens :: "jsstring option"
  co_closes :: "jsstring option"
  co_schedule :: "jsstring option"

definition FILTERS :: "jsstring list" where
  "FILTERS = [[], ''DRAFT'', ''PUBLISHED'', ''FULL'', ''ONGOING'', ''COMPLETED'', ''CANCELLED'']"

definition capacity_pct :: "cohort_row \<Rightarrow> rat" where
  "capacity_pct c = (if co_capacity c \<noteq> 0 then min (fl (fl (of_nat (co_enrolled c) / of_nat (co_capacity c)) * 100)) 100 else 0)"

text \<open>The status buttons of a row: label and the status that is asked for.\<close>

definition status_actions :: "jsstring \<Rightarrow> (jsstring \<times> jsstring) list" where
  "status_actions st =
     (if st = ''DRAFT'' then [(''Publish'', ''PUBLISHED'')] else []) @
     (if st = ''PUBLISHED'' then [(''Cancel'', ''CANCELLED'')] else []) @
     (if st = ''FULL'' then [(''Start'', ''ONGOING'')] else []) @
     (if st = ''ONGOING'' then [(''Complete'', ''COMPLETED'')] else []) @
     (if st = ''CANCELLED'' then [(''Restore'', ''DRAFT'')] else [])"

definition draft_tutor :: "(jsstring \<times> jsstring) list \<Rightarrow> cohort_row \<Rightarrow> jsstring" where
  "draft_tutor m c = (case map_of m (co_id c) of Some t \<Rightarrow> t | None \<Rightarrow> co_tutor c)"

text \<open>The tutor that the cell names.\<close>

definition tutor_shown :: "(jsstring \<times> jsstring) list \<Rightarrow> (jsstring \<times> jsstring) list \<Rightarrow> cohort_row \<Rightarrow> jsstring" where
  "tutor_shown tutors m c =
     (if co_tutor c \<noteq> [] then (case map_of tutors (draft_tutor m c) of Some n \<Rightarrow> n | None \<Rightarrow> ''Unassigned'') else ''Awaiting tutor'')"

section \<open>The form and the dialog\<close>

record cohort_input =
  ci_programme :: "jsstring option"
  ci_title :: jsstring
  ci_capacity :: "rat option"
  ci_start :: jsstring
  ci_end :: jsstring
  ci_opens :: "jsstring option"
  ci_closes :: "jsstring option"
  ci_timezone :: jsstring
  ci_mode :: jsstring
  ci_fee :: "rat option"
  ci_currency :: jsstring

record cohort_form =
  cf_programme :: jsstring
  cf_title :: jsstring
  cf_capacity :: jsstring
  cf_start :: jsstring
  cf_end :: jsstring
  cf_opens :: jsstring
  cf_closes :: jsstring
  cf_timezone :: jsstring
  cf_mode :: jsstring
  cf_fee :: jsstring
  cf_currency :: jsstring

definition cohort_form0 :: cohort_form where
  "cohort_form0 = \<lparr>cf_programme = [], cf_title = [], cf_capacity = ''20'', cf_start = [], cf_end = [], cf_opens = [], cf_closes = [],
     cf_timezone = ''Africa/Lagos'', cf_mode = ''ONLINE'', cf_fee = ''50000'', cf_currency = ''NGN''\<rparr>"

definition if_text :: "jsstring \<Rightarrow> jsstring option" where
  "if_text v = (if v \<noteq> [] then Some v else None)"

definition new_input :: "cohort_form \<Rightarrow> cohort_input" where
  "new_input f =
     \<lparr>ci_programme = Some (cf_programme f), ci_title = cf_title f, ci_capacity = js_number (cf_capacity f), ci_start = cf_start f, ci_end = cf_end f,
      ci_opens = if_text (cf_opens f), ci_closes = if_text (cf_closes f), ci_timezone = cf_timezone f, ci_mode = cf_mode f,
      ci_fee = js_number (cf_fee f), ci_currency = cf_currency f\<rparr>"

definition new_missing :: "cohort_form \<Rightarrow> bool" where
  "new_missing f = (trim (cf_programme f) = [] \<or> trim (cf_title f) = [] \<or> cf_start f = [] \<or> cf_end f = [])"

definition text_or_default :: "jsstring \<Rightarrow> jsstring \<Rightarrow> jsstring" where
  "text_or_default v d = (if v \<noteq> [] then v else d)"

text \<open>The dialog starts from the row, but for the window of enrolment.\<close>

definition edit_form :: "cohort_row \<Rightarrow> cohort_form" where
  "edit_form c =
     \<lparr>cf_programme = [], cf_title = co_title c, cf_capacity = show_nat (co_capacity c), cf_start = take 10 (co_start c), cf_end = take 10 (co_end c),
      cf_opens = [], cf_closes = [], cf_timezone = text_or_default (co_timezone c) ''Africa/Lagos'', cf_mode = text_or_default (co_mode c) ''ONLINE'',
      cf_fee = price_text (co_fee c), cf_currency = text_or_default (co_currency c) ''NGN''\<rparr>"

definition edit_input :: "cohort_form \<Rightarrow> cohort_input" where
  "edit_input f =
     \<lparr>ci_programme = None, ci_title = cf_title f, ci_capacity = Some (number_or (cf_capacity f) 0), ci_start = cf_start f, ci_end = cf_end f,
      ci_opens = if_text (cf_opens f), ci_closes = if_text (cf_closes f), ci_timezone = cf_timezone f, ci_mode = cf_mode f,
      ci_fee = Some (number_or (cf_fee f) 0), ci_currency = cf_currency f\<rparr>"

type_synonym banner = "jsstring \<times> int" \<comment> \<open>type and size\<close>

definition banner_error :: "banner \<Rightarrow> jsstring option" where
  "banner_error b =
     (if fst b \<noteq> ''image/jpeg'' \<and> fst b \<noteq> ''image/png'' then Some ''Banner image must be a JPEG or PNG file''
      else if snd b > 10 * 1024 * 1024 then Some ''Banner image must be under 10 MB'' else None)"

record creator =
  cr_form :: cohort_form
  cr_banner :: "banner option"
  cr_error :: "jsstring option"
  cr_busy :: bool

definition creator0 :: creator where
  "creator0 = \<lparr>cr_form = cohort_form0, cr_banner = None, cr_error = None, cr_busy = False\<rparr>"

definition pickBanner :: "banner option \<Rightarrow> creator \<Rightarrow> creator" where
  "pickBanner b s =
     (case b of
        None \<Rightarrow> s\<lparr>cr_error := None, cr_banner := None\<rparr>
      | Some f \<Rightarrow> (case banner_error f of Some m \<Rightarrow> s\<lparr>cr_error := Some m\<rparr> | None \<Rightarrow> s\<lparr>cr_error := None, cr_banner := Some f\<rparr>))"

record editor =
  ed_row :: cohort_row
  ed_form :: cohort_form
  ed_error :: "jsstring option"
  ed_busy :: bool

definition editor0 :: "cohort_row \<Rightarrow> editor" where
  "editor0 c = \<lparr>ed_row = c, ed_form = edit_form c, ed_error = None, ed_busy = False\<rparr>"

section \<open>The page\<close>

datatype cohort_run =
    Creating nat cohort_input "banner option"
  | Uploading nat jsstring banner \<comment> \<open>the id of the new cohort\<close>
  | Saving nat jsstring cohort_input

fun run_owner :: "cohort_run \<Rightarrow> nat" where
  "run_owner (Creating n i b) = n"
| "run_owner (Uploading n c b) = n"
| "run_owner (Saving n c i) = n"

fun is_saving :: "cohort_run \<Rightarrow> bool" where
  "is_saving (Saving n c i) = True"
| "is_saving r = False"

datatype cohort_call = SetStatus jsstring jsstring | AssignTutor jsstring jsstring | ReviewJoin jsstring bool

fun is_assign :: "cohort_call \<Rightarrow> bool" where
  "is_assign (AssignTutor c t) = True"
| "is_assign r = False"

fun is_review :: "cohort_call \<Rightarrow> bool" where
  "is_review (ReviewJoin j b) = True"
| "is_review r = False"

record cohort_page =
  cp_status :: jsstring
  cp_page :: nat
  cp_rows :: "cohort_row list"
  cp_more :: bool \<comment> \<open>\<open>meta.has_next\<close>\<close>
  cp_tutors :: "(jsstring \<times> jsstring) list"
  cp_joins :: "jsstring list"
  cp_drafts :: "(jsstring \<times> jsstring) list"
  cp_creator :: "(nat \<times> creator) option"
  cp_editor :: "(nat \<times> editor) option"
  cp_made :: nat \<comment> \<open>instances mounted so far\<close>
  cp_runs :: "cohort_run list"
  cp_calls :: "cohort_call list"
  cp_created :: "cohort_input list"
  cp_saved :: "(jsstring \<times> cohort_input) list"
  cp_sent :: "cohort_call list"
  cp_toasts :: "jsstring list"

definition cohort_page0 :: cohort_page where
  "cohort_page0 = \<lparr>cp_status = [], cp_page = 1, cp_rows = [], cp_more = False, cp_tutors = [], cp_joins = [], cp_drafts = [], cp_creator = None,
     cp_editor = None, cp_made = 0, cp_runs = [], cp_calls = [], cp_created = [], cp_saved = [], cp_sent = [], cp_toasts = []\<rparr>"

definition in_creator :: "nat \<Rightarrow> (creator \<Rightarrow> creator) \<Rightarrow> cohort_page \<Rightarrow> cohort_page" where
  "in_creator n f s = (case cp_creator s of Some (m, c) \<Rightarrow> if m = n then s\<lparr>cp_creator := Some (m, f c)\<rparr> else s | None \<Rightarrow> s)"

definition in_editor :: "nat \<Rightarrow> (editor \<Rightarrow> editor) \<Rightarrow> cohort_page \<Rightarrow> cohort_page" where
  "in_editor n f s = (case cp_editor s of Some (m, e) \<Rightarrow> if m = n then s\<lparr>cp_editor := Some (m, f e)\<rparr> else s | None \<Rightarrow> s)"

definition cohort_toast :: "jsstring \<Rightarrow> cohort_page \<Rightarrow> cohort_page" where
  "cohort_toast m s = s\<lparr>cp_toasts := cp_toasts s @ [m]\<rparr>"

definition cohort_send :: "cohort_call \<Rightarrow> cohort_page \<Rightarrow> cohort_page" where
  "cohort_send c s = s\<lparr>cp_calls := cp_calls s @ [c], cp_sent := cp_sent s @ [c]\<rparr>"

definition toggle_create :: "cohort_page \<Rightarrow> cohort_page" where
  "toggle_create s =
     (case cp_creator s of
        None \<Rightarrow> s\<lparr>cp_creator := Some (cp_made s, creator0), cp_made := cp_made s + 1\<rparr>
      | Some x \<Rightarrow> s\<lparr>cp_creator := None\<rparr>)"

definition open_editor :: "cohort_row \<Rightarrow> cohort_page \<Rightarrow> cohort_page" where
  "open_editor c s = s\<lparr>cp_editor := Some (cp_made s, editor0 c), cp_made := cp_made s + 1\<rparr>"

definition submit_new :: "cohort_page \<Rightarrow> cohort_page" where
  "submit_new s =
     (case cp_creator s of
        None \<Rightarrow> s
      | Some (n, c) \<Rightarrow>
          if new_missing (cr_form c) then in_creator n (\<lambda>c. c\<lparr>cr_error := Some ''Programme, title, start and end dates are required''\<rparr>) s
          else (in_creator n (\<lambda>c. c\<lparr>cr_busy := True, cr_error := None\<rparr>) s)
             \<lparr>cp_runs := cp_runs s @ [Creating n (new_input (cr_form c)) (cr_banner c)], cp_created := cp_created s @ [new_input (cr_form c)]\<rparr>)"

text \<open>The end of \<open>submit\<close>: the toast and \<open>onDone\<close>, which closes whatever form is open.\<close>

definition created_done :: "cohort_page \<Rightarrow> cohort_page" where
  "created_done s = cohort_toast ''Cohort created (DRAFT)'' (s\<lparr>cp_creator := None\<rparr>)"

definition creator_failed :: "nat \<Rightarrow> jsstring \<Rightarrow> cohort_page \<Rightarrow> cohort_page" where
  "creator_failed n m s = in_creator n (\<lambda>c. c\<lparr>cr_error := Some m, cr_busy := False\<rparr>) s"

definition save_row :: "cohort_page \<Rightarrow> cohort_page" where
  "save_row s =
     (case cp_editor s of
        None \<Rightarrow> s
      | Some (n, e) \<Rightarrow>
          (in_editor n (\<lambda>e. e\<lparr>ed_busy := True, ed_error := None\<rparr>) s)
             \<lparr>cp_runs := cp_runs s @ [Saving n (co_id (ed_row e)) (edit_input (ed_form e))],
              cp_saved := cp_saved s @ [(co_id (ed_row e), edit_input (ed_form e))]\<rparr>)"

definition run_gone :: "cohort_run \<Rightarrow> cohort_page \<Rightarrow> cohort_page" where
  "run_gone r s = s\<lparr>cp_runs := remove1 r (cp_runs s)\<rparr>"

datatype cohort_event =
    RowsRead "cohort_row list" bool | TutorsRead "(jsstring \<times> jsstring) list" | JoinsRead "jsstring list"
  | FilterClick jsstring | PrevPage | NextPage
  | ToggleCreate | EditNew cohort_form | ChooseBanner "banner option" | SubmitNew
  | CohortCreated cohort_run "jsstring option" | CreateLost cohort_run js_exn | BannerStored cohort_run | BannerRefused cohort_run "jsstring option"
  | OpenEdit cohort_row | CloseEdit | EditRow cohort_form | SaveRow | RowSaved cohort_run | SaveLost cohort_run js_exn
  | StatusClick jsstring jsstring | PickTutor jsstring jsstring | AssignClick jsstring jsstring | ReviewClick jsstring bool
  | CallDone cohort_call | CallLost cohort_call

definition page_view :: "cohort_page \<Rightarrow> cohort_event widget list" where
  "page_view s =
     [Btn (if cp_creator s \<noteq> None then ''Close'' else ''+ New cohort'') True ToggleCreate] @
     (case cp_creator s of None \<Rightarrow> [] | Some (n, c) \<Rightarrow>
        [Btn (if cr_busy c then ''Creating'' @ ellipsis else ''Create draft cohort'') (\<not> cr_busy c) SubmitNew]) @
     concat (map (\<lambda>j. [Btn ''Approve'' (\<not> list_ex is_review (cp_calls s)) (ReviewClick j True), Btn ''Reject'' (\<not> list_ex is_review (cp_calls s)) (ReviewClick j False)])
       (cp_joins s)) @
     map (\<lambda>f. Btn (text_or_default f ''All'') True (FilterClick f)) FILTERS @
     concat (map (\<lambda>c.
        [Btn (if draft_tutor (cp_drafts s) c = [] then ''Clear'' else if co_tutor c \<noteq> [] then ''Update'' else ''Assign'')
           (draft_tutor (cp_drafts s) c \<noteq> co_tutor c \<and> \<not> list_ex is_assign (cp_calls s)) (AssignClick (co_id c) (draft_tutor (cp_drafts s) c)),
         Btn ''Edit'' True (OpenEdit c)] @
        map (\<lambda>a. Btn (fst a) True (StatusClick (co_id c) (snd a))) (status_actions (co_status c))) (cp_rows s)) @
     [Btn ''Prev'' (1 < cp_page s) PrevPage, Btn ''Next'' (cp_more s) NextPage]"

definition editor_view :: "nat \<times> editor \<Rightarrow> cohort_event widget list" where
  "editor_view x =
     [Btn ''Close'' True CloseEdit,
      Btn (if ed_busy (snd x) then ''Saving'' @ ellipsis else ''Save changes'') (\<not> ed_busy (snd x) \<and> cf_title (ed_form (snd x)) \<noteq> []) SaveRow]"

text \<open>The open dialog covers the page.\<close>

definition cohort_view :: "cohort_page \<Rightarrow> cohort_event widget list" where
  "cohort_view s = (case cp_editor s of Some x \<Rightarrow> editor_view x | None \<Rightarrow> page_view s)"

fun cohort_guard :: "cohort_page \<Rightarrow> cohort_event \<Rightarrow> bool" where
  "cohort_guard s (RowsRead rows hn) = True"
| "cohort_guard s (TutorsRead ts) = True"
| "cohort_guard s (JoinsRead js) = True"
| "cohort_guard s (EditNew f) = (cp_creator s \<noteq> None \<and> cp_editor s = None)"
| "cohort_guard s (ChooseBanner b) = (cp_creator s \<noteq> None \<and> cp_editor s = None)"
| "cohort_guard s (EditRow f) = (cp_editor s \<noteq> None)"
| "cohort_guard s (PickTutor c t) = (cp_editor s = None \<and> c \<in> co_id ` set (cp_rows s) \<and> (t = [] \<or> t \<in> fst ` set (cp_tutors s)))"
| "cohort_guard s (CohortCreated r i) = (r \<in> set (cp_runs s) \<and> (case r of Creating n x b \<Rightarrow> True | _ \<Rightarrow> False))"
| "cohort_guard s (CreateLost r e) = (r \<in> set (cp_runs s) \<and> (case r of Creating n x b \<Rightarrow> True | _ \<Rightarrow> False))"
| "cohort_guard s (BannerStored r) = (r \<in> set (cp_runs s) \<and> (case r of Uploading n i b \<Rightarrow> True | _ \<Rightarrow> False))"
| "cohort_guard s (BannerRefused r m) = (r \<in> set (cp_runs s) \<and> (case r of Uploading n i b \<Rightarrow> True | _ \<Rightarrow> False))"
| "cohort_guard s (RowSaved r) = (r \<in> set (cp_runs s) \<and> is_saving r)"
| "cohort_guard s (SaveLost r e) = (r \<in> set (cp_runs s) \<and> is_saving r)"
| "cohort_guard s (CallDone c) = (c \<in> set (cp_calls s))"
| "cohort_guard s (CallLost c) = (c \<in> set (cp_calls s))"
| "cohort_guard s e = (e \<in> set (offered (cohort_view s)))"

text \<open>After \<open>createAdminCohort\<close>: the banner is uploaded when there is one and the answer has an id.\<close>

definition after_created :: "cohort_run \<Rightarrow> jsstring option \<Rightarrow> cohort_page \<Rightarrow> cohort_page" where
  "after_created r i s =
     (case r of
        Creating n x b \<Rightarrow>
          (case (b, i) of
             (Some f, Some c) \<Rightarrow> if c \<noteq> [] then s\<lparr>cp_runs := cp_runs s @ [Uploading n c f]\<rparr> else created_done s
           | _ \<Rightarrow> created_done s)
      | _ \<Rightarrow> s)"

definition call_done :: "cohort_call \<Rightarrow> cohort_page \<Rightarrow> cohort_page" where
  "call_done c s =
     (case c of
        SetStatus i st \<Rightarrow> cohort_toast (if st = ''PUBLISHED'' then ''Cohort published'' else ''Cohort '' @ to_lower st) s
      | AssignTutor i t \<Rightarrow> cohort_toast ''Tutor assigned to cohort'' (s\<lparr>cp_drafts := []\<rparr>)
      | ReviewJoin j b \<Rightarrow> cohort_toast (if b then ''Tutor assigned to cohort'' else ''Join request rejected'') s)"

definition call_lost :: "cohort_call \<Rightarrow> jsstring" where
  "call_lost c =
     (case c of
        SetStatus i st \<Rightarrow> ''Could not update cohort''
      | AssignTutor i t \<Rightarrow> ''Could not assign tutor (tutor must be approved)''
      | ReviewJoin j b \<Rightarrow> ''Could not review join request'')"

fun cohort_step :: "cohort_page \<Rightarrow> cohort_event \<Rightarrow> cohort_page" where
  "cohort_step s (RowsRead rows hn) = s\<lparr>cp_rows := rows, cp_more := hn\<rparr>"
| "cohort_step s (TutorsRead ts) = s\<lparr>cp_tutors := ts\<rparr>"
| "cohort_step s (JoinsRead js) = s\<lparr>cp_joins := js\<rparr>"
| "cohort_step s (FilterClick f) = s\<lparr>cp_status := f, cp_page := 1\<rparr>"
| "cohort_step s PrevPage = s\<lparr>cp_page := cp_page s - 1\<rparr>"
| "cohort_step s NextPage = s\<lparr>cp_page := cp_page s + 1\<rparr>"
| "cohort_step s ToggleCreate = toggle_create s"
| "cohort_step s (EditNew f) = (case cp_creator s of Some (n, c) \<Rightarrow> in_creator n (\<lambda>c. c\<lparr>cr_form := f\<rparr>) s | None \<Rightarrow> s)"
| "cohort_step s (ChooseBanner b) = (case cp_creator s of Some (n, c) \<Rightarrow> in_creator n (pickBanner b) s | None \<Rightarrow> s)"
| "cohort_step s SubmitNew = submit_new s"
| "cohort_step s (CohortCreated r i) = after_created r i (run_gone r s)"
| "cohort_step s (CreateLost r e) = creator_failed (run_owner r) (message_or ''Could not create cohort'' e) (run_gone r s)"
| "cohort_step s (BannerStored r) = created_done (run_gone r s)"
| "cohort_step s (BannerRefused r m) =
     creator_failed (run_owner r) (text_or_default (case m of Some t \<Rightarrow> t | None \<Rightarrow> []) (''Banner upload failed '' @ em_dash @ '' cohort was created without an image''))
       (run_gone r s)"
| "cohort_step s (OpenEdit c) = open_editor c s"
| "cohort_step s CloseEdit = s\<lparr>cp_editor := None\<rparr>"
| "cohort_step s (EditRow f) = (case cp_editor s of Some (n, e) \<Rightarrow> in_editor n (\<lambda>e. e\<lparr>ed_form := f\<rparr>) s | None \<Rightarrow> s)"
| "cohort_step s SaveRow = save_row s"
| "cohort_step s (RowSaved r) = (run_gone r s)\<lparr>cp_editor := None\<rparr>"
| "cohort_step s (SaveLost r e) = in_editor (run_owner r) (\<lambda>d. d\<lparr>ed_error := Some (message_or ''Could not save'' e), ed_busy := False\<rparr>) (run_gone r s)"
| "cohort_step s (StatusClick i st) = cohort_send (SetStatus i st) s"
| "cohort_step s (PickTutor c t) = s\<lparr>cp_drafts := put_answer c t (cp_drafts s)\<rparr>"
| "cohort_step s (AssignClick c t) = cohort_send (AssignTutor c t) s"
| "cohort_step s (ReviewClick j b) = cohort_send (ReviewJoin j b) s"
| "cohort_step s (CallDone c) = call_done c (s\<lparr>cp_calls := remove1 c (cp_calls s)\<rparr>)"
| "cohort_step s (CallLost c) = cohort_toast (call_lost c) (s\<lparr>cp_calls := remove1 c (cp_calls s)\<rparr>)"

section \<open>One request per form and dialog\<close>

definition input_ok :: "cohort_input \<Rightarrow> bool" where
  "input_ok i = (trim (ci_title i) \<noteq> [] \<and> (case ci_programme i of Some p \<Rightarrow> trim p \<noteq> [] | None \<Rightarrow> False) \<and> ci_start i \<noteq> [] \<and> ci_end i \<noteq> [])"

definition banner_ok :: "banner option \<Rightarrow> bool" where
  "banner_ok b = (case b of None \<Rightarrow> True | Some f \<Rightarrow> banner_error f = None)"

fun run_ok :: "cohort_run \<Rightarrow> bool" where
  "run_ok (Creating n i b) = banner_ok b"
| "run_ok (Uploading n c b) = banner_ok (Some b)"
| "run_ok (Saving n c i) = True"

definition runs_inv :: "nat \<Rightarrow> cohort_run list \<Rightarrow> (nat \<times> creator) option \<Rightarrow> (nat \<times> editor) option \<Rightarrow> bool" where
  "runs_inv made rs cr ed =
     ((\<forall>r\<in>set rs. run_owner r < made \<and> run_ok r) \<and> distinct (map run_owner rs) \<and>
      (case cr of None \<Rightarrow> True
       | Some (n, c) \<Rightarrow> n < made \<and> banner_ok (cr_banner c) \<and> cr_busy c = (n \<in> run_owner ` set rs) \<and> (\<forall>r\<in>set rs. run_owner r = n \<longrightarrow> \<not> is_saving r)) \<and>
      (case ed of None \<Rightarrow> True
       | Some (m, e) \<Rightarrow> m < made \<and> ed_busy e = (m \<in> run_owner ` set rs) \<and> (\<forall>r\<in>set rs. run_owner r = m \<longrightarrow> is_saving r)) \<and>
      (case (cr, ed) of (Some (n, c), Some (m, e)) \<Rightarrow> n \<noteq> m | _ \<Rightarrow> True))"

lemma runs_inv_close [intro]: "runs_inv k rs cr ed \<Longrightarrow> runs_inv k rs None ed" "runs_inv k rs cr ed \<Longrightarrow> runs_inv k rs cr None"
  by (auto simp: runs_inv_def split: option.splits)

lemma runs_inv_creator: "runs_inv k rs None ed \<Longrightarrow> runs_inv (k + 1) rs (Some (k, creator0)) ed"
  by (auto simp: runs_inv_def creator0_def banner_ok_def split: option.splits)

lemma runs_inv_editor: "runs_inv k rs cr None \<Longrightarrow> runs_inv (k + 1) rs cr (Some (k, editor0 c))"
  by (auto simp: runs_inv_def editor0_def split: option.splits)

lemma runs_inv_form: "runs_inv k rs (Some (n, c)) ed \<Longrightarrow> cr_busy d = cr_busy c \<Longrightarrow> banner_ok (cr_banner d) \<Longrightarrow> runs_inv k rs (Some (n, d)) ed"
  by (auto simp: runs_inv_def split: option.splits)

lemma runs_inv_dialog: "runs_inv k rs cr (Some (n, c)) \<Longrightarrow> ed_busy d = ed_busy c \<Longrightarrow> runs_inv k rs cr (Some (n, d))"
  by (auto simp: runs_inv_def split: option.splits)

lemma runs_inv_submit:
  assumes "runs_inv k rs (Some (n, c)) ed" "\<not> cr_busy c" "cr_busy d" "cr_banner d = cr_banner c"
  shows "runs_inv k (rs @ [Creating n i (cr_banner c)]) (Some (n, d)) ed"
  using assms by (auto simp: runs_inv_def split: option.splits)

lemma runs_inv_save:
  assumes "runs_inv k rs cr (Some (n, e))" "\<not> ed_busy e" "ed_busy d"
  shows "runs_inv k (rs @ [Saving n j i]) cr (Some (n, d))"
  using assms by (auto simp: runs_inv_def split: option.splits)

lemma remove_run:
  assumes "distinct (map run_owner rs)" "r \<in> set rs"
  shows "set (remove1 r rs) = set rs - {r}" "run_owner ` set (remove1 r rs) = run_owner ` set rs - {run_owner r}" "distinct (map run_owner (remove1 r rs))"
proof -
  have d: "distinct rs" and i: "inj_on run_owner (set rs)" using assms(1) by (simp_all add: distinct_map)
  show s: "set (remove1 r rs) = set rs - {r}" using d by simp
  show "run_owner ` set (remove1 r rs) = run_owner ` set rs - {run_owner r}" unfolding s using i assms(2) by (auto simp: inj_on_def)
  show "distinct (map run_owner (remove1 r rs))" using d i by (auto simp: distinct_map inj_on_def dest: notin_set_remove1 [THEN contrapos_nn, rotated] in_set_remove1 set_remove1_subset [THEN subsetD])
qed

text \<open>The end of a run: its instance, when it is still mounted, is no longer busy.\<close>

lemma runs_inv_end_new:
  assumes "runs_inv k rs cr ed" "r \<in> set rs" "\<not> is_saving r"
  shows "runs_inv k (remove1 r rs) None ed"
    and "cr = Some (n, c) \<Longrightarrow> n \<noteq> run_owner r \<Longrightarrow> runs_inv k (remove1 r rs) cr ed"
    and "cr = Some (n, c) \<Longrightarrow> n = run_owner r \<Longrightarrow> \<not> cr_busy d \<Longrightarrow> cr_banner d = cr_banner c \<Longrightarrow> runs_inv k (remove1 r rs) (Some (n, d)) ed"
  using assms remove_run [of rs r] by (auto simp: runs_inv_def split: option.splits)

lemma runs_inv_end_edit:
  assumes "runs_inv k rs cr ed" "r \<in> set rs" "is_saving r"
  shows "runs_inv k (remove1 r rs) cr None"
    and "ed = Some (n, c) \<Longrightarrow> n \<noteq> run_owner r \<Longrightarrow> runs_inv k (remove1 r rs) cr ed"
    and "ed = Some (n, c) \<Longrightarrow> n = run_owner r \<Longrightarrow> \<not> ed_busy d \<Longrightarrow> runs_inv k (remove1 r rs) cr (Some (n, d))"
  using assms remove_run [of rs r] by (auto simp: runs_inv_def split: option.splits)

lemma runs_inv_upload:
  assumes "runs_inv k rs cr ed" "Creating n i (Some f) \<in> set rs"
  shows "runs_inv k (remove1 (Creating n i (Some f)) rs @ [Uploading n c f]) cr ed"
proof -
  have "distinct (map run_owner rs)" using assms(1) by (simp add: runs_inv_def)
  note rem = remove_run [OF this assms(2)]
  have n: "n \<in> run_owner ` set rs" using imageI [OF assms(2), of run_owner] by simp
  let ?new = "remove1 (Creating n i (Some f)) rs @ [Uploading n c f]"
  have own: "run_owner ` set ?new = run_owner ` set rs" using rem(2) n by auto
  have dist: "distinct (map run_owner ?new)" using rem(2,3) by (simp flip: set_map)
  have ok: "\<forall>r\<in>set ?new. run_owner r < k \<and> run_ok r" using assms by (auto simp: runs_inv_def dest: set_remove1_subset [THEN subsetD])
  have sv: "\<forall>r\<in>set ?new. run_owner r = m \<longrightarrow> is_saving r" if "\<forall>r\<in>set rs. run_owner r = m \<longrightarrow> is_saving r" for m
    using that assms(2) by (auto dest: set_remove1_subset [THEN subsetD])
  have ns: "\<forall>r\<in>set ?new. run_owner r = m \<longrightarrow> \<not> is_saving r" if "\<forall>r\<in>set rs. run_owner r = m \<longrightarrow> \<not> is_saving r" for m
    using that by (auto dest: set_remove1_subset [THEN subsetD])
  have cr: "case cr of None \<Rightarrow> True
     | Some (n, c) \<Rightarrow> n < k \<and> banner_ok (cr_banner c) \<and> cr_busy c = (n \<in> run_owner ` set ?new) \<and> (\<forall>r\<in>set ?new. run_owner r = n \<longrightarrow> \<not> is_saving r)"
  proof (cases cr)
    case (Some x)
    then show ?thesis unfolding own using assms(1) ns [of "fst x"] by (cases x) (simp only: runs_inv_def option.case prod.case fst_conv, blast)
  qed simp
  have ed: "case ed of None \<Rightarrow> True
     | Some (m, e) \<Rightarrow> m < k \<and> ed_busy e = (m \<in> run_owner ` set ?new) \<and> (\<forall>r\<in>set ?new. run_owner r = m \<longrightarrow> is_saving r)"
  proof (cases ed)
    case (Some x)
    then show ?thesis unfolding own using assms(1) sv [of "fst x"] by (cases x) (simp only: runs_inv_def option.case prod.case fst_conv, blast)
  qed simp
  show ?thesis unfolding runs_inv_def using ok dist cr ed assms(1) by (simp only: runs_inv_def)
qed

definition cohort_inv :: "cohort_page \<Rightarrow> bool" where
  "cohort_inv s =
     (1 \<le> cp_page s \<and> runs_inv (cp_made s) (cp_runs s) (cp_creator s) (cp_editor s) \<and> list_all input_ok (cp_created s) \<and>
      list_all (\<lambda>x. ci_title (snd x) \<noteq> []) (cp_saved s) \<and> length (filter is_assign (cp_calls s)) \<le> 1 \<and> length (filter is_review (cp_calls s)) \<le> 1)"

lemma in_creator_fields [simp]:
  "cp_page (in_creator n f s) = cp_page s" "cp_made (in_creator n f s) = cp_made s" "cp_runs (in_creator n f s) = cp_runs s"
  "cp_editor (in_creator n f s) = cp_editor s" "cp_created (in_creator n f s) = cp_created s" "cp_saved (in_creator n f s) = cp_saved s"
  "cp_calls (in_creator n f s) = cp_calls s"
  "cp_creator (in_creator n f s) = (case cp_creator s of None \<Rightarrow> None | Some (m, c) \<Rightarrow> if m = n then Some (m, f c) else Some (m, c))"
  by (simp_all add: in_creator_def split: option.split)

lemma in_editor_fields [simp]:
  "cp_page (in_editor n f s) = cp_page s" "cp_made (in_editor n f s) = cp_made s" "cp_runs (in_editor n f s) = cp_runs s"
  "cp_creator (in_editor n f s) = cp_creator s" "cp_created (in_editor n f s) = cp_created s" "cp_saved (in_editor n f s) = cp_saved s"
  "cp_calls (in_editor n f s) = cp_calls s"
  "cp_editor (in_editor n f s) = (case cp_editor s of None \<Rightarrow> None | Some (m, c) \<Rightarrow> if m = n then Some (m, f c) else Some (m, c))"
  by (simp_all add: in_editor_def split: option.split)

lemma pickBanner_inv: "banner_ok (cr_banner c) \<Longrightarrow> cr_busy (pickBanner b c) = cr_busy c \<and> banner_ok (cr_banner (pickBanner b c))"
  by (auto simp: pickBanner_def banner_ok_def split: option.splits)

lemma creator_banner_ok: "runs_inv k rs (Some (n, c)) ed \<Longrightarrow> banner_ok (cr_banner c)"
  by (simp add: runs_inv_def)

lemma cohort_offers:
  "PrevPage \<in> set (offered (cohort_view s)) \<Longrightarrow> 1 < cp_page s"
  "SubmitNew \<in> set (offered (cohort_view s)) \<Longrightarrow> \<exists>n c. cp_creator s = Some (n, c) \<and> \<not> cr_busy c"
  "SaveRow \<in> set (offered (cohort_view s)) \<Longrightarrow> \<exists>n e. cp_editor s = Some (n, e) \<and> \<not> ed_busy e \<and> cf_title (ed_form e) \<noteq> []"
  "OpenEdit c \<in> set (offered (cohort_view s)) \<Longrightarrow> cp_editor s = None"
  "AssignClick i t \<in> set (offered (cohort_view s)) \<Longrightarrow> \<not> list_ex is_assign (cp_calls s)"
  "ReviewClick j b \<in> set (offered (cohort_view s)) \<Longrightarrow> \<not> list_ex is_review (cp_calls s)"
  by (auto simp: cohort_view_def page_view_def editor_view_def FILTERS_def offered_map_when split: option.splits if_splits)

lemma none_filter: "\<not> list_ex P xs \<Longrightarrow> filter P xs = []"
  by (induction xs) auto

lemma filter_remove1_le: "length (filter P xs) \<le> Suc 0 \<Longrightarrow> length (filter P (remove1 x xs)) \<le> Suc 0"
  by (simp add: filter_remove1 length_remove1)

lemma new_input_ok: "\<not> new_missing f \<Longrightarrow> input_ok (new_input f)"
  by (simp add: input_ok_def new_input_def new_missing_def)

lemma cohort_calls_step:
  assumes "cohort_inv s" "cohort_guard s e"
  shows "length (filter is_assign (cp_calls (cohort_step s e))) \<le> 1 \<and> length (filter is_review (cp_calls (cohort_step s e))) \<le> 1"
proof (cases e)
  case (AssignClick i t)
  then show ?thesis using assms cohort_offers(5) [of i t s] by (simp add: cohort_inv_def cohort_send_def none_filter)
next
  case (ReviewClick j b)
  then show ?thesis using assms cohort_offers(6) [of j b s] by (simp add: cohort_inv_def cohort_send_def none_filter)
next
  case (CallDone c)
  then show ?thesis using assms by (cases c) (auto simp: cohort_inv_def call_done_def cohort_toast_def filter_remove1_le)
next
  case (CallLost c)
  then show ?thesis using assms by (simp add: cohort_inv_def cohort_toast_def filter_remove1_le)
next
  case (CohortCreated r i)
  then show ?thesis using assms by (simp add: cohort_inv_def after_created_def created_done_def cohort_toast_def run_gone_def split: cohort_run.split option.split)
qed (use assms in \<open>auto simp: cohort_inv_def cohort_send_def toggle_create_def open_editor_def submit_new_def save_row_def created_done_def creator_failed_def
    cohort_toast_def run_gone_def split: option.split\<close>)

lemma cohort_sent_step:
  assumes "cohort_inv s" "cohort_guard s e"
  shows "1 \<le> cp_page (cohort_step s e) \<and> list_all input_ok (cp_created (cohort_step s e)) \<and> list_all (\<lambda>x. ci_title (snd x) \<noteq> []) (cp_saved (cohort_step s e))"
proof (cases e)
  case PrevPage
  then show ?thesis using assms cohort_offers(1) [of s] by (simp add: cohort_inv_def)
next
  case SaveRow
  then show ?thesis using assms cohort_offers(3) [of s] by (auto simp: cohort_inv_def save_row_def edit_input_def)
next
  case SubmitNew
  then show ?thesis using assms new_input_ok by (auto simp: cohort_inv_def submit_new_def split: option.split)
next
  case (CallDone c)
  then show ?thesis using assms by (cases c) (simp_all add: cohort_inv_def call_done_def cohort_toast_def)
next
  case (CohortCreated r i)
  then show ?thesis using assms by (simp add: cohort_inv_def after_created_def created_done_def cohort_toast_def run_gone_def split: cohort_run.split option.split)
qed (use assms in \<open>auto simp: cohort_inv_def cohort_send_def toggle_create_def open_editor_def created_done_def creator_failed_def
    cohort_toast_def run_gone_def split: option.split\<close>)

lemma runs_step_forms:
  assumes "runs_inv (cp_made s) (cp_runs s) (cp_creator s) (cp_editor s)" "cohort_guard s e" "e \<in> {ToggleCreate, EditNew f, ChooseBanner b, SubmitNew, OpenEdit c, CloseEdit, EditRow f, SaveRow}"
  shows "runs_inv (cp_made (cohort_step s e)) (cp_runs (cohort_step s e)) (cp_creator (cohort_step s e)) (cp_editor (cohort_step s e))"
proof -
  consider "e = ToggleCreate" | "e = EditNew f" | "e = ChooseBanner b" | "e = SubmitNew" | "e = OpenEdit c" | "e = CloseEdit" | "e = EditRow f" | "e = SaveRow" using assms(3) by blast
  then show ?thesis
  proof cases
    case 1
    then show ?thesis using assms(1) runs_inv_creator [of "cp_made s" "cp_runs s" "cp_editor s"] by (auto simp: toggle_create_def split: option.split)
  next
    case 2
    show ?thesis
    proof (cases "cp_creator s")
      case (Some x)
      then have "runs_inv (cp_made s) (cp_runs s) (Some (fst x, snd x)) (cp_editor s)" using assms(1) by simp
      note runs_inv_form [OF this, of "(snd x)\<lparr>cr_form := f\<rparr>"] creator_banner_ok [OF this]
      then show ?thesis using 2 Some by (cases x) simp
    qed (use 2 assms(1) in simp)
  next
    case 3
    show ?thesis
    proof (cases "cp_creator s")
      case (Some x)
      then have "runs_inv (cp_made s) (cp_runs s) (Some (fst x, snd x)) (cp_editor s)" using assms(1) by simp
      note runs_inv_form [OF this, of "pickBanner b (snd x)"] creator_banner_ok [OF this]
      then show ?thesis using 3 Some pickBanner_inv [of "snd x" b] by (cases x) simp
    qed (use 3 assms(1) in simp)
  next
    case 4
    then obtain n c where c: "cp_creator s = Some (n, c)" "\<not> cr_busy c" using assms(2) cohort_offers(2) [of s] by auto
    have "runs_inv (cp_made s) (cp_runs s @ [Creating n (new_input (cr_form c)) (cr_banner c)]) (Some (n, c\<lparr>cr_busy := True, cr_error := None\<rparr>)) (cp_editor s)"
      using assms(1) c by (intro runs_inv_submit) simp_all
    moreover have "runs_inv (cp_made s) (cp_runs s) (Some (n, c\<lparr>cr_error := m\<rparr>)) (cp_editor s)" for m
    proof -
      have "runs_inv (cp_made s) (cp_runs s) (Some (n, c)) (cp_editor s)" using assms(1) c(1) by simp
      from runs_inv_form [OF this, of "c\<lparr>cr_error := m\<rparr>"] creator_banner_ok [OF this] show ?thesis by simp
    qed
    ultimately show ?thesis using 4 c by (simp add: submit_new_def)
  next
    case 5
    then have "cp_editor s = None" using assms(2) cohort_offers(4) [of c s] by simp
    then show ?thesis using 5 assms(1) runs_inv_editor [of "cp_made s" "cp_runs s" "cp_creator s" c] by (simp add: open_editor_def)
  next
    case 6
    then show ?thesis using assms(1) by (auto split: option.split)
  next
    case 7
    show ?thesis
    proof (cases "cp_editor s")
      case (Some x)
      then have "runs_inv (cp_made s) (cp_runs s) (cp_creator s) (Some (fst x, snd x))" using assms(1) by simp
      note runs_inv_dialog [OF this, of "(snd x)\<lparr>ed_form := f\<rparr>"]
      then show ?thesis using 7 Some by (cases x) simp
    qed (use 7 assms(1) in simp)
  next
    case 8
    then obtain n d where d: "cp_editor s = Some (n, d)" "\<not> ed_busy d" using assms(2) cohort_offers(3) [of s] by auto
    have "runs_inv (cp_made s) (cp_runs s @ [Saving n (co_id (ed_row d)) (edit_input (ed_form d))]) (cp_creator s) (Some (n, d\<lparr>ed_busy := True, ed_error := None\<rparr>))"
      using assms(1) d by (intro runs_inv_save) simp_all
    then show ?thesis using 8 d by (simp add: save_row_def)
  qed
qed

lemma creator_failed_runs:
  assumes "runs_inv (cp_made s) (cp_runs s) (cp_creator s) (cp_editor s)" "r \<in> set (cp_runs s)" "\<not> is_saving r"
  shows "runs_inv (cp_made s) (remove1 r (cp_runs s)) (cp_creator (creator_failed (run_owner r) m (run_gone r s))) (cp_editor s)"
proof (cases "cp_creator s")
  case None
  then show ?thesis using runs_inv_end_new(1) [OF assms] by (simp add: creator_failed_def run_gone_def)
next
  case (Some x)
  then show ?thesis using runs_inv_end_new(2,3) [OF assms, of "fst x" "snd x"] by (cases x) (auto simp: creator_failed_def run_gone_def)
qed

lemma runs_step_answers:
  assumes "runs_inv (cp_made s) (cp_runs s) (cp_creator s) (cp_editor s)" "cohort_guard s e"
    and "e \<in> {CohortCreated r i, CreateLost r x, BannerStored r, BannerRefused r m, RowSaved r, SaveLost r x}"
  shows "runs_inv (cp_made (cohort_step s e)) (cp_runs (cohort_step s e)) (cp_creator (cohort_step s e)) (cp_editor (cohort_step s e))"
proof -
  have r: "r \<in> set (cp_runs s)" using assms(2,3) by auto
  have f: "cp_made (creator_failed n t (run_gone r s)) = cp_made s" "cp_runs (creator_failed n t (run_gone r s)) = remove1 r (cp_runs s)"
    "cp_editor (creator_failed n t (run_gone r s)) = cp_editor s" for n t by (simp_all add: creator_failed_def run_gone_def)
  consider "e = CohortCreated r i" | "e = CreateLost r x" | "e = BannerStored r" | "e = BannerRefused r m" | "e = RowSaved r" | "e = SaveLost r x" using assms(3) by blast
  then show ?thesis
  proof cases
    case 1
    then obtain n y b where n: "r = Creating n y b" using assms(2) by (auto split: cohort_run.splits)
    have "runs_inv (cp_made s) (remove1 r (cp_runs s)) None (cp_editor s)" using runs_inv_end_new(1) [OF assms(1) r] n by simp
    moreover have "b = Some g \<Longrightarrow> runs_inv (cp_made s) (remove1 r (cp_runs s) @ [Uploading n c g]) (cp_creator s) (cp_editor s)" for g c
      using runs_inv_upload [OF assms(1)] r n by simp
    ultimately show ?thesis using 1 n by (auto simp: after_created_def created_done_def cohort_toast_def run_gone_def split: option.split)
  next
    case 2
    then have "\<not> is_saving r" using assms(2) by (auto split: cohort_run.splits)
    then show ?thesis using 2 creator_failed_runs [OF assms(1) r] f by simp
  next
    case 3
    then have "\<not> is_saving r" using assms(2) by (auto split: cohort_run.splits)
    then show ?thesis using 3 runs_inv_end_new(1) [OF assms(1) r] by (simp add: created_done_def cohort_toast_def run_gone_def)
  next
    case 4
    then have "\<not> is_saving r" using assms(2) by (auto split: cohort_run.splits)
    then show ?thesis using 4 creator_failed_runs [OF assms(1) r] f by simp
  next
    case 5
    then have "is_saving r" using assms(2) by simp
    then show ?thesis using 5 runs_inv_end_edit(1) [OF assms(1) r] by (simp add: run_gone_def)
  next
    case 6
    then have sv: "is_saving r" using assms(2) by simp
    show ?thesis
    proof (cases "cp_editor s")
      case None
      then show ?thesis using 6 runs_inv_end_edit(1) [OF assms(1) r sv] by (simp add: run_gone_def)
    next
      case (Some y)
      then show ?thesis using 6 runs_inv_end_edit(2,3) [OF assms(1) r sv, of "fst y" "snd y"] by (cases y) (auto simp: run_gone_def)
    qed
  qed
qed

lemma runs_step:
  assumes "runs_inv (cp_made s) (cp_runs s) (cp_creator s) (cp_editor s)" "cohort_guard s e"
  shows "runs_inv (cp_made (cohort_step s e)) (cp_runs (cohort_step s e)) (cp_creator (cohort_step s e)) (cp_editor (cohort_step s e))"
proof (cases e)
  case (CallDone c)
  then show ?thesis using assms by (cases c) (simp_all add: call_done_def cohort_toast_def)
qed (use assms runs_step_forms [OF assms] runs_step_answers [OF assms] in \<open>simp_all del: cohort_step.simps cohort_guard.simps\<close>,
     (use assms in \<open>simp add: cohort_send_def cohort_toast_def\<close>)+)

lemma cohort_inv_step: "cohort_inv s \<Longrightarrow> cohort_guard s e \<Longrightarrow> cohort_inv (cohort_step s e)"
  using cohort_calls_step [of s e] cohort_sent_step [of s e] runs_step [of s e] by (simp add: cohort_inv_def del: cohort_step.simps cohort_guard.simps)

interpretation cohort_manager: bounded_machine "\<lambda>s. s = cohort_page0" cohort_guard cohort_step cohort_inv "\<lambda>s. length (filter is_assign (cp_calls s))" 1
proof unfold_locales
  fix s assume "s = cohort_page0"
  then show "cohort_inv s" by (simp add: cohort_inv_def cohort_page0_def runs_inv_def)
next
  fix s e assume "cohort_inv s" "cohort_guard s e"
  then show "cohort_inv (cohort_step s e)" by (rule cohort_inv_step)
next
  fix s assume "cohort_inv s"
  then show "length (filter is_assign (cp_calls s)) \<le> 1" by (simp add: cohort_inv_def)
qed

definition run_banner :: "cohort_run \<Rightarrow> banner option" where
  "run_banner r = (case r of Creating n i b \<Rightarrow> b | Uploading n c b \<Rightarrow> Some b | Saving n c i \<Rightarrow> None)"

text \<open>
  C40. Each form and each dialog has one request in flight at most; every cohort that is asked for
  has a programme, a title and both dates, every change a title; banners are JPEG or PNG of at
  most ten megabytes; one tutor is assigned and one join request reviewed at a time; the page
  number stays positive.
\<close>

theorem cohort_page_safe:
  assumes "reach (\<lambda>s. s = cohort_page0) cohort_guard cohort_step s"
  shows "distinct (map run_owner (cp_runs s)) \<and> list_all (\<lambda>r. banner_ok (run_banner r)) (cp_runs s) \<and> list_all input_ok (cp_created s) \<and>
     list_all (\<lambda>x. ci_title (snd x) \<noteq> []) (cp_saved s) \<and> length (filter is_assign (cp_calls s)) \<le> 1 \<and> length (filter is_review (cp_calls s)) \<le> 1 \<and> 1 \<le> cp_page s"
proof -
  have "run_ok r \<Longrightarrow> banner_ok (run_banner r)" for r by (cases r) (simp_all add: run_banner_def banner_ok_def)
  moreover have "\<forall>r\<in>set (cp_runs s). run_ok r" using cohort_manager.reach_inv [OF assms] by (auto simp: cohort_inv_def runs_inv_def)
  ultimately have "list_all (\<lambda>r. banner_ok (run_banner r)) (cp_runs s)" by (auto simp: list_all_iff)
  then show ?thesis using cohort_manager.reach_inv [OF assms] by (simp add: cohort_inv_def runs_inv_def)
qed

definition spring :: cohort_form where
  "spring = cohort_form0\<lparr>cf_programme := ''p1'', cf_title := ''Spring'', cf_start := ''2026-03-01'', cf_end := ''2026-05-31'', cf_capacity := ''2'', cf_fee := ''5''\<rparr>"

definition spring_run :: "cohort_event list" where
  "spring_run = [ToggleCreate, EditNew spring, ChooseBanner (Some (''image/png'', 1000)), SubmitNew, CohortCreated (Creating 0 (new_input spring) (Some (''image/png'', 1000))) (Some ''c1'')]"

theorem cohort_page_safe_witness:
  "(let s = run cohort_step cohort_page0 spring_run in
     length (cp_runs s) = 1 \<and> list_all (\<lambda>r. banner_ok (run_banner r)) (cp_runs s) \<and> list_all input_ok (cp_created s))"
proof -
  let ?s = "run cohort_step cohort_page0 spring_run"
  have f: "allowed cohort_guard cohort_step cohort_page0 spring_run" "length (cp_runs ?s) = 1" by code_simp+
  from cohort_page_safe [OF run_reachable [OF refl f(1)]] f(2) show ?thesis unfolding Let_def by blast
qed

section \<open>New cohorts\<close>

text \<open>
  When the banner is refused the cohort exists already, and the form stays with its button: the
  next click creates the cohort again.
\<close>

theorem refused_banner_creates_twice:
  assumes "cp_creator s = Some (n, c)" "cp_editor s = None" "\<not> new_missing (cr_form c)" "Uploading n i b \<in> set (cp_runs s)"
  shows "allowed cohort_guard cohort_step s [BannerRefused (Uploading n i b) m, SubmitNew] \<and>
     cp_created (run cohort_step s [BannerRefused (Uploading n i b) m, SubmitNew]) = cp_created s @ [new_input (cr_form c)] \<and>
     cp_toasts (run cohort_step s [BannerRefused (Uploading n i b) m, SubmitNew]) = cp_toasts s"
proof -
  let ?t = "cohort_step s (BannerRefused (Uploading n i b) m)"
  obtain d where t: "cp_creator ?t = Some (n, d)" "cr_form d = cr_form c" "\<not> cr_busy d" "cp_editor ?t = None" "cp_created ?t = cp_created s" "cp_toasts ?t = cp_toasts s"
    using assms(1,2) by (simp add: creator_failed_def run_gone_def in_creator_def)
  have "SubmitNew \<in> set (offered (page_view ?t))" using t(1,3) unfolding page_view_def in_offered by simp
  then have g: "cohort_guard ?t SubmitNew" using t(4) by (simp add: cohort_view_def del: cohort_step.simps)
  have "cp_created (cohort_step ?t SubmitNew) = cp_created s @ [new_input (cr_form c)] \<and> cp_toasts (cohort_step ?t SubmitNew) = cp_toasts s"
    using t assms(3) by (simp add: submit_new_def in_creator_def)
  then show ?thesis using g assms(4) by simp
qed

theorem refused_banner_creates_twice_witness:
  "cp_created (run cohort_step (run cohort_step cohort_page0 spring_run) [BannerRefused (Uploading 0 ''c1'' (''image/png'', 1000)) None, SubmitNew]) =
     [new_input spring, new_input spring]"
proof -
  let ?s = "run cohort_step cohort_page0 spring_run"
  let ?c = "creator0\<lparr>cr_form := spring, cr_banner := Some (''image/png'', 1000), cr_busy := True\<rparr>"
  have f: "cp_creator ?s = Some (0, ?c)" "cp_editor ?s = None" "\<not> new_missing (cr_form ?c)" "Uploading 0 ''c1'' (''image/png'', 1000) \<in> set (cp_runs ?s)"
    and g: "cp_created ?s = [new_input spring]" "cr_form ?c = spring" by code_simp+
  from refused_banner_creates_twice [OF f, of None] show ?thesis unfolding g by simp
qed

text \<open>A number field that was emptied is sent as zero: a cohort without seats, free of charge.\<close>

theorem emptied_numbers_are_zero:
  assumes "cf_capacity f = []" "cf_fee f = []"
  shows "ci_capacity (new_input f) = Some 0 \<and> ci_fee (new_input f) = Some 0 \<and> ci_capacity (edit_input f) = Some 0 \<and> ci_fee (edit_input f) = Some 0"
  using assms by (simp add: new_input_def edit_input_def number_or_def js_number_def trim_def)

theorem emptied_numbers_are_zero_witness: "ci_capacity (new_input (spring\<lparr>cf_capacity := [], cf_fee := []\<rparr>)) = Some 0"
  using emptied_numbers_are_zero [of "spring\<lparr>cf_capacity := [], cf_fee := []\<rparr>"] by simp

section \<open>The dialog\<close>

lemma edit_offered: "c \<in> set (cp_rows s) \<Longrightarrow> OpenEdit c \<in> set (offered (page_view s))"
  unfolding page_view_def in_offered_append offered_concat by (auto simp: in_offered intro!: bexI [of _ c])

text \<open>
  C39. Opening the dialog on a row of the table and saving it untouched asks once for a change of
  that cohort. The body has the row's own title, the first ten characters of its dates, its capacity
  (below two to the fifty-third) and its fee to the hundredth (any amount with two decimals below
  ten to the thirteenth; the column holds less); its timezone, mode and currency, or Africa/Lagos,
  ONLINE and NGN where the row has none; and no window of enrolment, whatever the row holds.
\<close>

theorem edit_keeps_all_but_window:
  assumes "cp_editor s = None" "c \<in> set (cp_rows s)" "co_title c \<noteq> []" "co_capacity c < 2 ^ 53" "co_fee c = money n" "n < 10 ^ 15"
  shows "allowed cohort_guard cohort_step s [OpenEdit c, SaveRow] \<and>
     cp_saved (run cohort_step s [OpenEdit c, SaveRow]) = cp_saved s @ [(co_id c,
       \<lparr>ci_programme = None, ci_title = co_title c, ci_capacity = Some (of_nat (co_capacity c)), ci_start = take 10 (co_start c), ci_end = take 10 (co_end c),
        ci_opens = None, ci_closes = None, ci_timezone = (if co_timezone c = [] then ''Africa/Lagos'' else co_timezone c),
        ci_mode = (if co_mode c = [] then ''ONLINE'' else co_mode c), ci_fee = Some (co_fee c),
        ci_currency = (if co_currency c = [] then ''NGN'' else co_currency c)\<rparr>)]"
proof -
  have "number_or (show_nat (co_capacity c)) 0 = of_nat (co_capacity c)" using js_number_show_nat [OF assms(4)] by (simp add: number_or_def)
  moreover have "number_or (price_text (co_fee c)) 0 = co_fee c" using price_text_read [OF assms(6)] assms(5) by (simp add: number_or_def)
  moreover have "OpenEdit c \<in> set (offered (page_view s))" using assms(2) by (rule edit_offered)
  ultimately show ?thesis using assms(1,3)
    by (simp add: cohort_view_def open_editor_def editor_view_def editor0_def save_row_def in_editor_def edit_input_def edit_form_def text_or_default_def if_text_def)
qed

definition autumn :: cohort_row where
  "autumn = \<lparr>co_id = ''c9'', co_title = ''Autumn'', co_capacity = 4, co_enrolled = 3, co_start = ''2026-09-01T00:00:00Z'', co_end = ''2026-12-01T00:00:00Z'',
     co_timezone = ''Africa/Lagos'', co_mode = ''ONLINE'', co_fee = 99 / 2, co_currency = ''NGN'', co_status = ''PUBLISHED'', co_tutor = ''t1'',
     co_opens = Some ''2026-06-01'', co_closes = Some ''2026-08-31'', co_schedule = Some ''Mondays''\<rparr>"

theorem edit_keeps_all_but_window_witness:
  "(let s = run cohort_step cohort_page0 [RowsRead [autumn] False] in
     map (\<lambda>x. (fst x, ci_capacity (snd x), ci_fee (snd x), ci_opens (snd x))) (cp_saved (run cohort_step s [OpenEdit autumn, SaveRow])) =
       [(''c9'', Some 4, Some (99 / 2), None)] \<and> price_text (99 / 2) = ''49.5'' \<and> co_opens autumn = Some ''2026-06-01'')"
proof -
  let ?s = "run cohort_step cohort_page0 [RowsRead [autumn] False]"
  have f: "cp_editor ?s = None" "autumn \<in> set (cp_rows ?s)" "cp_saved ?s = []" "price_text (99 / 2) = ''49.5''" by code_simp+
  have "money 4950 = 99 / 2" using fl_dyadic [of 99 1] by (simp add: money_def pow2_def)
  then have "co_title autumn \<noteq> []" "co_capacity autumn < 2 ^ 53" "co_fee autumn = money 4950" "(4950::nat) < 10 ^ 15" by (simp_all add: autumn_def)
  from edit_keeps_all_but_window [OF f(1,2) this, THEN conjunct2] f(4) show ?thesis unfolding Let_def f(3) by (simp add: autumn_def del: run.simps)
qed

text \<open>
  A dialog that was closed while it saved still reports: the answer closes the dialog of another
  cohort, with what was typed in it.
\<close>

theorem late_save_closes_other_dialog:
  assumes "cp_editor s = Some (n, e)" "Saving n i x \<in> set (cp_runs s)" "c \<in> set (cp_rows s)"
  shows "allowed cohort_guard cohort_step s [CloseEdit, OpenEdit c, EditRow f, RowSaved (Saving n i x)] \<and>
     cp_editor (run cohort_step s [CloseEdit, OpenEdit c, EditRow f]) = Some (cp_made s, (editor0 c)\<lparr>ed_form := f\<rparr>) \<and>
     cp_editor (run cohort_step s [CloseEdit, OpenEdit c, EditRow f, RowSaved (Saving n i x)]) = None"
proof -
  let ?t = "s\<lparr>cp_editor := None\<rparr>"
  have "OpenEdit c \<in> set (offered (page_view ?t))" using assms(3) by (simp add: edit_offered)
  then have "cohort_guard ?t (OpenEdit c)" by (simp add: cohort_view_def)
  moreover have "cohort_guard s CloseEdit" using assms(1) by (cases e) (simp add: cohort_view_def editor_view_def)
  ultimately show ?thesis using assms(2) by (simp add: open_editor_def in_editor_def run_gone_def)
qed

theorem late_save_closes_other_dialog_witness:
  "cp_editor (run cohort_step (run cohort_step cohort_page0 [RowsRead [autumn] False, OpenEdit autumn, SaveRow])
     [CloseEdit, OpenEdit autumn, EditRow spring, RowSaved (Saving 0 ''c9'' (edit_input (edit_form autumn)))]) = None"
proof -
  let ?s = "run cohort_step cohort_page0 [RowsRead [autumn] False, OpenEdit autumn, SaveRow]"
  have f: "cp_editor ?s = Some (0, (editor0 autumn)\<lparr>ed_busy := True\<rparr>)" "Saving 0 ''c9'' (edit_input (edit_form autumn)) \<in> set (cp_runs ?s)" "autumn \<in> set (cp_rows ?s)"
    by (simp_all add: cohort_page0_def open_editor_def editor0_def save_row_def in_editor_def) (simp add: autumn_def)
  from late_save_closes_other_dialog [OF f, of spring] show ?thesis by blast
qed

section \<open>Tutors and statuses\<close>

text \<open>Assigning one tutor forgets what was picked for every other cohort.\<close>

theorem assigning_forgets_drafts:
  assumes "AssignTutor i t \<in> set (cp_calls s)"
  shows "draft_tutor (cp_drafts (cohort_step s (CallDone (AssignTutor i t)))) c = co_tutor c"
  using assms by (simp add: call_done_def cohort_toast_def draft_tutor_def)

theorem assigning_forgets_drafts_witness:
  "draft_tutor (cp_drafts (cohort_step (run cohort_step cohort_page0 [AssignClick ''c1'' ''t1'']) (CallDone (AssignTutor ''c1'' ''t1'')))) autumn = ''t1''"
proof -
  have "AssignTutor ''c1'' ''t1'' \<in> set (cp_calls (run cohort_step cohort_page0 [AssignClick ''c1'' ''t1'']))" by code_simp
  from assigning_forgets_drafts [OF this, of autumn] show ?thesis by (simp add: autumn_def)
qed

text \<open>A tutor who is only picked is already shown as the one that was assigned.\<close>

theorem picked_tutor_shown:
  assumes "co_tutor c \<noteq> []" "map_of tutors t = Some n"
  shows "tutor_shown tutors (put_answer (co_id c) t m) c = n"
  using assms by (simp add: tutor_shown_def draft_tutor_def map_of_put_answer)

theorem picked_tutor_shown_witness: "tutor_shown [(''t1'', ''Ada''), (''t2'', ''Bola'')] (put_answer (co_id autumn) ''t2'' []) autumn = ''Bola''"
  by (rule picked_tutor_shown) (simp_all add: autumn_def)

text \<open>What the buttons make of a status.\<close>

definition status_guard :: "jsstring \<Rightarrow> jsstring \<Rightarrow> bool" where
  "status_guard st nxt = (nxt \<in> snd ` set (status_actions st))"

definition status_step :: "jsstring \<Rightarrow> jsstring \<Rightarrow> jsstring" where
  "status_step st nxt = nxt"

lemma status_inv_step: "st \<in> {''DRAFT'', ''PUBLISHED'', ''CANCELLED''} \<Longrightarrow> status_guard st nxt \<Longrightarrow> status_step st nxt \<in> {''DRAFT'', ''PUBLISHED'', ''CANCELLED''}"
  by (auto simp: status_guard_def status_step_def status_actions_def)

interpretation unsold: machine "\<lambda>s. s = ''DRAFT''" status_guard status_step "\<lambda>s. s \<in> {''DRAFT'', ''PUBLISHED'', ''CANCELLED''}"
proof unfold_locales
  fix s e :: jsstring assume "s \<in> {''DRAFT'', ''PUBLISHED'', ''CANCELLED''}" "status_guard s e"
  then show "status_step s e \<in> {''DRAFT'', ''PUBLISHED'', ''CANCELLED''}" by (rule status_inv_step)
qed simp

text \<open>
  By the buttons of the page alone a cohort is a draft, published or cancelled for ever: unless
  the service makes it full it can neither be started nor completed.
\<close>

theorem unsold_cohort_never_starts:
  assumes "reach (\<lambda>s. s = ''DRAFT'') status_guard status_step st"
  shows "st \<in> {''DRAFT'', ''PUBLISHED'', ''CANCELLED''} \<and> \<not> status_guard st ''ONGOING'' \<and> \<not> status_guard st ''COMPLETED''"
  using unsold.reach_inv [OF assms] by (auto simp: status_guard_def status_actions_def)

theorem unsold_cohort_never_starts_witness:
  "run status_step ''DRAFT'' [''PUBLISHED''] = ''PUBLISHED'' \<and> \<not> status_guard (run status_step ''DRAFT'' [''PUBLISHED'']) ''ONGOING''"
proof -
  have f: "allowed status_guard status_step ''DRAFT'' [''PUBLISHED'']" "run status_step ''DRAFT'' [''PUBLISHED''] = ''PUBLISHED''" by code_simp+
  from unsold_cohort_never_starts [OF run_reachable [OF refl f(1)]] f(2) show ?thesis by blast
qed

text \<open>The status buttons do not wait for their answer: a second click asks a second time.\<close>

theorem status_asked_twice:
  assumes "cohort_guard s (StatusClick i st)"
  shows "allowed cohort_guard cohort_step s [StatusClick i st, StatusClick i st] \<and>
     cp_sent (run cohort_step s [StatusClick i st, StatusClick i st]) = cp_sent s @ [SetStatus i st, SetStatus i st]"
proof -
  have w: "StatusClick i st \<in> set (offered (page_view s)) = (\<exists>c\<in>set (cp_rows s). co_id c = i \<and> st \<in> snd ` set (status_actions (co_status c)))" for s
    by (cases "cp_creator s") (auto simp: page_view_def FILTERS_def offered_map_when split: if_splits)
  have e: "cp_editor s = None" using assms by (auto simp: cohort_view_def editor_view_def split: option.splits if_splits)
  then have "StatusClick i st \<in> set (offered (page_view s))" using assms by (simp add: cohort_view_def)
  then have "StatusClick i st \<in> set (offered (page_view (cohort_send (SetStatus i st) s)))" unfolding w by (simp add: cohort_send_def)
  moreover have "cp_editor (cohort_send (SetStatus i st) s) = None" using e by (simp add: cohort_send_def)
  ultimately show ?thesis using assms by (simp add: cohort_view_def [of "cohort_send (SetStatus i st) s"]) (simp add: cohort_send_def)
qed

theorem status_asked_twice_witness:
  "cp_sent (run cohort_step (run cohort_step cohort_page0 [RowsRead [autumn] False]) [StatusClick ''c9'' ''CANCELLED'', StatusClick ''c9'' ''CANCELLED'']) =
     [SetStatus ''c9'' ''CANCELLED'', SetStatus ''c9'' ''CANCELLED'']"
proof -
  let ?s = "run cohort_step cohort_page0 [RowsRead [autumn] False]"
  have "cohort_guard ?s (StatusClick ''c9'' ''CANCELLED'')" "cp_sent ?s = []" by code_simp+
  then show ?thesis using status_asked_twice [of ?s "''c9''" "''CANCELLED''"] by (simp del: run.simps)
qed

end
