(* ===== verification/AccountPage.thy ===== *)
theory AccountPage
  imports Machine Endpoints Session
begin

text \<open>
  The settings (\<open>client/app/account/page.tsx\<close>): the profile with its photo, the password, the
  devices, the preferences of this browser and the deletion of the account. The page is a
  machine over its hooks, the session's cached user, which other parts of the page write, and
  its calls in flight.
\<close>

section \<open>Tabs and forms\<close>

definition ALL_TABS :: "jsstring list" where
  "ALL_TABS = [''Profile'', ''Learners'', ''Referrals'', ''Security'', ''Devices'', ''Preferences'', ''Data'']"

definition tabsForRoles :: "jsstring list \<Rightarrow> jsstring list" where
  "tabsForRoles roles =
     (if ''PARENT'' \<in> set roles \<or> ''STUDENT'' \<in> set roles then ALL_TABS else [''Profile'', ''Security'', ''Devices'', ''Preferences'', ''Data''])"

record own_user =
  ou_roles :: "jsstring list"
  ou_first :: "jsstring option"
  ou_last :: "jsstring option"
  ou_phone :: "jsstring option"
  ou_timezone :: jsstring
  ou_bio :: "jsstring option"
  ou_language :: "jsstring option"
  ou_avatar :: "jsstring option"

record profile_form =
  pf_first :: jsstring
  pf_last :: jsstring
  pf_phone :: jsstring
  pf_timezone :: jsstring
  pf_bio :: jsstring
  pf_language :: jsstring

definition profile_form0 :: profile_form where
  "profile_form0 = \<lparr>pf_first = [], pf_last = [], pf_phone = [], pf_timezone = ''Africa/Lagos'', pf_bio = [], pf_language = []\<rparr>"

definition text_or_empty :: "jsstring option \<Rightarrow> jsstring" where
  "text_or_empty v = (case v of Some t \<Rightarrow> t | None \<Rightarrow> [])"

definition profile_form_of :: "own_user \<Rightarrow> profile_form" where
  "profile_form_of u =
     \<lparr>pf_first = text_or_empty (ou_first u), pf_last = text_or_empty (ou_last u), pf_phone = text_or_empty (ou_phone u),
      pf_timezone = (if ou_timezone u \<noteq> [] then ou_timezone u else ''Africa/Lagos''), pf_bio = text_or_empty (ou_bio u), pf_language = text_or_empty (ou_language u)\<rparr>"

text \<open>The body of \<open>PUT /auth/me/profile\<close>, and the cached user with the fields the service answers.\<close>

definition profile_body :: "profile_form \<Rightarrow> profile_form" where
  "profile_body f = f\<lparr>pf_bio := trim (pf_bio f)\<rparr>"

definition stored_profile :: "own_user \<Rightarrow> profile_form \<Rightarrow> own_user" where
  "stored_profile u f =
     u\<lparr>ou_first := Some (pf_first f), ou_last := Some (pf_last f), ou_phone := Some (pf_phone f), ou_timezone := pf_timezone f,
       ou_bio := Some (pf_bio f), ou_language := Some (pf_language f)\<rparr>"

definition PREFS :: "jsstring list" where
  "PREFS = [''booking'', ''progress'', ''promo'']"

definition pref_shown :: "(jsstring \<times> bool) list \<Rightarrow> jsstring \<Rightarrow> bool" where
  "pref_shown m k = (case map_of m k of Some b \<Rightarrow> b | None \<Rightarrow> True)"

text \<open>\<open>!prefs[key]\<close>, where an absent key is \<open>undefined\<close>.\<close>

definition togglePref :: "jsstring \<Rightarrow> (jsstring \<times> bool) list \<Rightarrow> (jsstring \<times> bool) list" where
  "togglePref k m = put_answer k (case map_of m k of Some b \<Rightarrow> \<not> b | None \<Rightarrow> True) m"

section \<open>The page\<close>

datatype account_call =
    SaveProfile profile_form | StorePhoto | ChangePassword jsstring jsstring | RemoveDevice jsstring
  | ExportData | DeleteAccount | LogOut \<comment> \<open>the two stages of the deletion\<close>

record account =
  ap_user :: "own_user option"
  ap_tab :: jsstring
  ap_form :: profile_form
  ap_uploading :: bool
  ap_current :: jsstring
  ap_new :: jsstring
  ap_new2 :: jsstring
  ap_devices :: "jsstring list"
  ap_prefs :: "(jsstring \<times> bool) list"
  ap_stored :: "(jsstring \<times> bool) list" \<comment> \<open>the preferences of this browser\<close>
  ap_draft :: bool \<comment> \<open>the browser may hold a draft of the onboarding\<close>
  ap_confirm :: jsstring
  ap_calls :: "account_call list"
  ap_sent :: "account_call list"
  ap_toasts :: "jsstring list"
  ap_routes :: "jsstring list"

text \<open>The page as it opens, with the preferences of this browser.\<close>

definition account0 :: "(jsstring \<times> bool) list \<Rightarrow> account" where
  "account0 stored = \<lparr>ap_user = None, ap_tab = ''Profile'', ap_form = profile_form0, ap_uploading = False, ap_current = [], ap_new = [], ap_new2 = [],
     ap_devices = [], ap_prefs = stored, ap_stored = stored, ap_draft = True, ap_confirm = [], ap_calls = [], ap_sent = [], ap_toasts = [], ap_routes = []\<rparr>"

text \<open>A new user in the cache runs the effect that fills the form.\<close>

definition user_set :: "own_user \<Rightarrow> account \<Rightarrow> account" where
  "user_set u s = (if ap_user s = Some u then s else s\<lparr>ap_user := Some u, ap_form := profile_form_of u\<rparr>)"

definition account_send :: "account_call \<Rightarrow> account \<Rightarrow> account" where
  "account_send c s = s\<lparr>ap_calls := ap_calls s @ [c], ap_sent := ap_sent s @ [c]\<rparr>"

definition account_gone :: "account_call \<Rightarrow> account \<Rightarrow> account" where
  "account_gone c s = s\<lparr>ap_calls := remove1 c (ap_calls s)\<rparr>"

definition account_toast :: "jsstring \<Rightarrow> account \<Rightarrow> account" where
  "account_toast m s = s\<lparr>ap_toasts := ap_toasts s @ [m]\<rparr>"

fun is_save :: "account_call \<Rightarrow> bool" where
  "is_save (SaveProfile f) = True"
| "is_save c = False"

fun is_password :: "account_call \<Rightarrow> bool" where
  "is_password (ChangePassword a b) = True"
| "is_password c = False"

fun is_delete :: "account_call \<Rightarrow> bool" where
  "is_delete DeleteAccount = True"
| "is_delete LogOut = True"
| "is_delete c = False"

datatype account_event =
    UserRead own_user | SignedOut | DevicesRead "jsstring list"
  | TabClick jsstring | EditProfile profile_form | SaveClick | ProfileSaved profile_form profile_form | ProfileLost profile_form js_exn
  | ChoosePhoto | PhotoStored jsstring | PhotoLost js_exn
  | TypeCurrent jsstring | TypeNew jsstring | TypeNew2 jsstring | PasswordClick | PasswordSaved account_call | PasswordLost account_call js_exn
  | RemoveDeviceClick jsstring | DeviceRemoved jsstring | DeviceKept jsstring js_exn
  | PrefClick jsstring | ExportClick | Exported | ExportLost js_exn | TypeConfirm jsstring | DeleteClick | Deleted | DeleteLost js_exn | LoggedOut | LogoutLost js_exn

definition can_change :: "account \<Rightarrow> bool" where
  "can_change s =
     (\<not> list_ex is_password (ap_calls s) \<and> ap_current s \<noteq> [] \<and> ap_new s \<noteq> [] \<and> 8 \<le> utf16_length (ap_new s) \<and> ap_new s = ap_new2 s)"

definition account_view :: "account \<Rightarrow> account_event widget list" where
  "account_view s =
     (case ap_user s of
        None \<Rightarrow> []
      | Some u \<Rightarrow>
          map (\<lambda>t. Btn t True (TabClick t)) (tabsForRoles (ou_roles u)) @
          (if ap_tab s = ''Profile''
           then [Btn ''Upload photo'' (\<not> ap_uploading s) ChoosePhoto,
                 Btn (if list_ex is_save (ap_calls s) then ''Saving'' @ ellipsis else ''Save changes'') (\<not> list_ex is_save (ap_calls s)) SaveClick] else []) @
          (if ap_tab s = ''Security''
           then [Btn (if list_ex is_password (ap_calls s) then ''Updating'' @ ellipsis else ''Update password'') (can_change s) PasswordClick] else []) @
          (if ap_tab s = ''Devices'' then map (\<lambda>d. Btn ''Remove'' True (RemoveDeviceClick d)) (ap_devices s) else []) @
          (if ap_tab s = ''Preferences'' then map (\<lambda>k. Btn k True (PrefClick k)) PREFS else []) @
          (if ap_tab s = ''Data''
           then [Btn ''Download my data'' True ExportClick,
                 Btn (if list_ex is_delete (ap_calls s) then ''Deleting'' @ ellipsis else ''Delete account'')
                   (ap_confirm s = ''DELETE'' \<and> \<not> list_ex is_delete (ap_calls s)) DeleteClick] else []))"

fun account_guard :: "account \<Rightarrow> account_event \<Rightarrow> bool" where
  "account_guard s (UserRead u) = True"
| "account_guard s SignedOut = True"
| "account_guard s (DevicesRead ds) = True"
| "account_guard s (EditProfile f) = (ap_user s \<noteq> None \<and> ap_tab s = ''Profile'')"
| "account_guard s (TypeCurrent v) = (ap_user s \<noteq> None \<and> ap_tab s = ''Security'')"
| "account_guard s (TypeNew v) = (ap_user s \<noteq> None \<and> ap_tab s = ''Security'')"
| "account_guard s (TypeNew2 v) = (ap_user s \<noteq> None \<and> ap_tab s = ''Security'')"
| "account_guard s (TypeConfirm v) = (ap_user s \<noteq> None \<and> ap_tab s = ''Data'')"
| "account_guard s (ProfileSaved f g) = (SaveProfile f \<in> set (ap_calls s))"
| "account_guard s (ProfileLost f e) = (SaveProfile f \<in> set (ap_calls s))"
| "account_guard s (PhotoStored a) = (StorePhoto \<in> set (ap_calls s))"
| "account_guard s (PhotoLost e) = (StorePhoto \<in> set (ap_calls s))"
| "account_guard s (PasswordSaved c) = (is_password c \<and> c \<in> set (ap_calls s))"
| "account_guard s (PasswordLost c e) = (is_password c \<and> c \<in> set (ap_calls s))"
| "account_guard s (DeviceRemoved d) = (RemoveDevice d \<in> set (ap_calls s))"
| "account_guard s (DeviceKept d e) = (RemoveDevice d \<in> set (ap_calls s))"
| "account_guard s Exported = (ExportData \<in> set (ap_calls s))"
| "account_guard s (ExportLost e) = (ExportData \<in> set (ap_calls s))"
| "account_guard s Deleted = (DeleteAccount \<in> set (ap_calls s))"
| "account_guard s (DeleteLost e) = (DeleteAccount \<in> set (ap_calls s))"
| "account_guard s LoggedOut = (LogOut \<in> set (ap_calls s))"
| "account_guard s (LogoutLost e) = (LogOut \<in> set (ap_calls s))"
| "account_guard s e = (e \<in> set (offered (account_view s)))"

text \<open>\<open>return_to\<close> is \<open>loginWithReturn()\<close> at the page's address.\<close>

fun account_step :: "jsstring \<Rightarrow> account \<Rightarrow> account_event \<Rightarrow> account" where
  "account_step ret s (UserRead u) = user_set u s"
| "account_step ret s SignedOut = s\<lparr>ap_user := None, ap_routes := ap_routes s @ [ret]\<rparr>"
| "account_step ret s (DevicesRead ds) = s\<lparr>ap_devices := ds\<rparr>"
| "account_step ret s (TabClick t) = s\<lparr>ap_tab := t\<rparr>"
| "account_step ret s (EditProfile f) = s\<lparr>ap_form := f\<rparr>"
| "account_step ret s SaveClick = account_send (SaveProfile (profile_body (ap_form s))) s"
| "account_step ret s (ProfileSaved f g) =
     account_toast ''Profile saved'' (case ap_user s of None \<Rightarrow> account_gone (SaveProfile f) s | Some u \<Rightarrow> user_set (stored_profile u g) (account_gone (SaveProfile f) s))"
| "account_step ret s (ProfileLost f e) = account_toast (message_or ''Could not save profile'' e) (account_gone (SaveProfile f) s)"
| "account_step ret s ChoosePhoto = account_send StorePhoto (s\<lparr>ap_uploading := True\<rparr>)"
| "account_step ret s (PhotoStored a) =
     account_toast ''Profile photo updated'' (case ap_user s of
         None \<Rightarrow> (account_gone StorePhoto s)\<lparr>ap_uploading := False\<rparr>
       | Some u \<Rightarrow> user_set (u\<lparr>ou_avatar := Some a\<rparr>) ((account_gone StorePhoto s)\<lparr>ap_uploading := False\<rparr>))"
| "account_step ret s (PhotoLost e) = account_toast (message_or ''Avatar upload failed'' e) ((account_gone StorePhoto s)\<lparr>ap_uploading := False\<rparr>)"
| "account_step ret s (TypeCurrent v) = s\<lparr>ap_current := v\<rparr>"
| "account_step ret s (TypeNew v) = s\<lparr>ap_new := v\<rparr>"
| "account_step ret s (TypeNew2 v) = s\<lparr>ap_new2 := v\<rparr>"
| "account_step ret s PasswordClick = account_send (ChangePassword (ap_current s) (ap_new s)) s"
| "account_step ret s (PasswordSaved c) = account_toast ''Password updated'' ((account_gone c s)\<lparr>ap_current := [], ap_new := [], ap_new2 := []\<rparr>)"
| "account_step ret s (PasswordLost c e) = account_toast (message_or ''Could not update password'' e) (account_gone c s)"
| "account_step ret s (RemoveDeviceClick d) = account_send (RemoveDevice d) s"
| "account_step ret s (DeviceRemoved d) = account_toast ''Device removed'' (account_gone (RemoveDevice d) s)"
| "account_step ret s (DeviceKept d e) = account_toast (message_or ''Could not remove device'' e) (account_gone (RemoveDevice d) s)"
| "account_step ret s (PrefClick k) = s\<lparr>ap_prefs := togglePref k (ap_prefs s), ap_stored := togglePref k (ap_prefs s)\<rparr>"
| "account_step ret s ExportClick = account_send ExportData s"
| "account_step ret s Exported = account_toast ''Your data export is downloading'' (account_gone ExportData s)"
| "account_step ret s (ExportLost e) = account_toast (message_or ''Could not export your data'' e) (account_gone ExportData s)"
| "account_step ret s (TypeConfirm v) = s\<lparr>ap_confirm := v\<rparr>"
| "account_step ret s DeleteClick = account_send DeleteAccount s"
| "account_step ret s Deleted = account_send LogOut (account_gone DeleteAccount s)"
| "account_step ret s (DeleteLost e) = account_toast (message_or ''Could not delete your account'' e) (account_gone DeleteAccount s)"
| "account_step ret s LoggedOut =
     (account_toast ''Your account has been deleted'' (account_gone LogOut s))\<lparr>ap_draft := False, ap_user := None, ap_routes := ap_routes s @ [''/'']\<rparr>"
| "account_step ret s (LogoutLost e) = account_toast (message_or ''Could not delete your account'' e) (account_gone LogOut s)"

section \<open>What is sent\<close>

definition account_sound :: "account_call \<Rightarrow> bool" where
  "account_sound c =
     (case c of
        ChangePassword a b \<Rightarrow> a \<noteq> [] \<and> 8 \<le> utf16_length b
      | SaveProfile f \<Rightarrow> trim (pf_bio f) = pf_bio f
      | _ \<Rightarrow> True)"

definition account_inv :: "account \<Rightarrow> bool" where
  "account_inv s =
     (length (filter is_save (ap_calls s)) \<le> 1 \<and> length (filter is_password (ap_calls s)) \<le> 1 \<and> length (filter is_delete (ap_calls s)) \<le> 1 \<and>
      list_all account_sound (ap_sent s) \<and> ap_tab s \<in> set ALL_TABS)"

lemma tabsForRoles_all: "t \<in> set (tabsForRoles roles) \<Longrightarrow> t \<in> set ALL_TABS"
  by (auto simp: tabsForRoles_def ALL_TABS_def split: if_splits)

lemma account_offers:
  "TabClick t \<in> set (offered (account_view s)) \<Longrightarrow> t \<in> set ALL_TABS"
  "SaveClick \<in> set (offered (account_view s)) \<Longrightarrow> \<not> list_ex is_save (ap_calls s)"
  "PasswordClick \<in> set (offered (account_view s)) \<Longrightarrow> can_change s"
  "DeleteClick \<in> set (offered (account_view s)) \<Longrightarrow> ap_confirm s = ''DELETE'' \<and> \<not> list_ex is_delete (ap_calls s)"
  unfolding account_view_def by (auto simp: in_offered PREFS_def intro: tabsForRoles_all split: option.splits if_splits)

lemma no_such: "\<not> list_ex P xs \<Longrightarrow> filter P xs = []"
  by (induction xs) auto

lemma filter_gone_le: "length (filter P xs) \<le> Suc 0 \<Longrightarrow> length (filter P (remove1 x xs)) \<le> Suc 0"
  by (simp add: filter_remove1 length_remove1)

lemma delete_stage: "length (filter is_delete xs) \<le> Suc 0 \<Longrightarrow> DeleteAccount \<in> set xs \<Longrightarrow> filter is_delete (remove1 DeleteAccount xs) = []"
proof -
  assume a: "length (filter is_delete xs) \<le> Suc 0" "DeleteAccount \<in> set xs"
  then have "DeleteAccount \<in> set (filter is_delete xs)" by simp
  then have "filter is_delete xs = [DeleteAccount]" using a(1) by (cases "filter is_delete xs") auto
  then show ?thesis by (simp add: filter_remove1)
qed

lemma user_set_fields [simp]:
  "ap_calls (user_set u s) = ap_calls s" "ap_sent (user_set u s) = ap_sent s" "ap_tab (user_set u s) = ap_tab s" "ap_toasts (user_set u s) = ap_toasts s"
  by (simp_all add: user_set_def)

lemma trim_idem_bio: "trim (pf_bio (profile_body f)) = pf_bio (profile_body f)"
  by (simp add: profile_body_def)

lemma account_inv_step: "account_inv s \<Longrightarrow> account_guard s e \<Longrightarrow> account_inv (account_step ret s e)"
proof (cases e)
  case (TabClick t)
  assume "account_inv s" "account_guard s e"
  then show ?thesis using TabClick account_offers(1) [of t s] by (simp add: account_inv_def)
next
  case SaveClick
  assume "account_inv s" "account_guard s e"
  then show ?thesis using SaveClick account_offers(2) [of s] trim_idem_bio by (simp add: account_inv_def account_send_def account_sound_def no_such)
next
  case PasswordClick
  assume "account_inv s" "account_guard s e"
  then show ?thesis using PasswordClick account_offers(3) [of s] by (auto simp: account_inv_def account_send_def account_sound_def no_such can_change_def)
next
  case DeleteClick
  assume "account_inv s" "account_guard s e"
  then show ?thesis using DeleteClick account_offers(4) [of s] by (simp add: account_inv_def account_send_def account_sound_def no_such)
next
  case Deleted
  assume "account_inv s" "account_guard s e"
  then show ?thesis using Deleted by (simp add: account_inv_def account_send_def account_gone_def account_sound_def delete_stage filter_gone_le)
next
  case (ProfileSaved f g)
  assume "account_inv s" "account_guard s e"
  then show ?thesis using ProfileSaved by (simp add: account_inv_def account_gone_def account_toast_def filter_gone_le split: option.split)
next
  case (PhotoStored f)
  assume "account_inv s" "account_guard s e"
  then show ?thesis using PhotoStored by (simp add: account_inv_def account_gone_def account_toast_def filter_gone_le split: option.split)
qed (simp_all add: account_inv_def account_send_def account_gone_def account_toast_def account_sound_def filter_gone_le)

interpretation settings: bounded_machine "\<lambda>s. s = account0 st" account_guard "account_step ret" account_inv "\<lambda>s. length (filter is_delete (ap_calls s))" 1 for st ret
proof unfold_locales
  fix s assume "s = account0 st"
  then show "account_inv s" by (simp add: account_inv_def account0_def ALL_TABS_def)
next
  fix s e assume "account_inv s" "account_guard s e"
  then show "account_inv (account_step ret s e)" by (rule account_inv_step)
next
  fix s assume "account_inv s"
  then show "length (filter is_delete (ap_calls s)) \<le> 1" by (simp add: account_inv_def)
qed

text \<open>
  One profile, one password and one deletion are in flight at a time; a password is changed with
  the current one to one of at least eight characters, and the text about the learner is trimmed.
\<close>

theorem account_safe:
  assumes "reach (\<lambda>s. s = account0 st) account_guard (account_step ret) s"
  shows "length (filter is_save (ap_calls s)) \<le> 1 \<and> length (filter is_password (ap_calls s)) \<le> 1 \<and> length (filter is_delete (ap_calls s)) \<le> 1 \<and>
     list_all account_sound (ap_sent s)"
  using settings.reach_inv [OF assms] by (simp add: account_inv_def)

definition some_user :: own_user where
  "some_user = \<lparr>ou_roles = [''PARENT''], ou_first = Some ''Ada'', ou_last = None, ou_phone = None, ou_timezone = [], ou_bio = None, ou_language = None, ou_avatar = None\<rparr>"

definition password_run :: "account_event list" where
  "password_run = [UserRead some_user, TabClick ''Security'', TypeCurrent ''old'', TypeNew ''secret123'', TypeNew2 ''secret123'', PasswordClick]"

theorem account_safe_witness:
  "(let s = run (account_step []) (account0 []) password_run in ap_sent s = [ChangePassword ''old'' ''secret123''] \<and> list_all account_sound (ap_sent s))"
proof -
  let ?s = "run (account_step []) (account0 []) password_run"
  have f: "allowed account_guard (account_step []) (account0 []) password_run" "ap_sent ?s = [ChangePassword ''old'' ''secret123'']" by code_simp+
  from account_safe [OF run_reachable [OF refl f(1)]] f(2) show ?thesis unfolding Let_def by blast
qed

text \<open>The account is deleted only after \<open>DELETE\<close> was typed: without it the button is never offered.\<close>

theorem delete_needs_confirmation:
  assumes "account_guard s DeleteClick"
  shows "ap_confirm s = ''DELETE'' \<and> \<not> list_ex is_delete (ap_calls s) \<and> ap_user s \<noteq> None"
proof -
  have o: "DeleteClick \<in> set (offered (account_view s))" using assms by simp
  then have "ap_user s \<noteq> None" by (cases "ap_user s") (simp_all add: account_view_def)
  then show ?thesis using account_offers(4) [OF o] by blast
qed

theorem delete_needs_confirmation_witness:
  "ap_confirm (run (account_step []) (account0 []) [UserRead some_user, TabClick ''Data'', TypeConfirm ''DELETE'']) = ''DELETE''"
proof -
  have "account_guard (run (account_step []) (account0 []) [UserRead some_user, TabClick ''Data'', TypeConfirm ''DELETE'']) DeleteClick" by code_simp
  from delete_needs_confirmation [OF this] show ?thesis by blast
qed

text \<open>
  The deletion ends with a log-out. When that fails the account is gone, but the page says that
  it could not be deleted, keeps the user and stays.
\<close>

theorem deleted_but_reported_failed:
  assumes "ap_calls s = [DeleteAccount]"
  shows "allowed account_guard (account_step ret) s [Deleted, LogoutLost e] \<and>
     ap_toasts (run (account_step ret) s [Deleted, LogoutLost e]) = ap_toasts s @ [message_or ''Could not delete your account'' e] \<and>
     ap_user (run (account_step ret) s [Deleted, LogoutLost e]) = ap_user s \<and> ap_routes (run (account_step ret) s [Deleted, LogoutLost e]) = ap_routes s"
  using assms by (simp add: account_send_def account_gone_def account_toast_def)

theorem deleted_but_reported_failed_witness:
  "ap_toasts (run (account_step []) (run (account_step []) (account0 []) [UserRead some_user, TabClick ''Data'', TypeConfirm ''DELETE'', DeleteClick])
     [Deleted, LogoutLost (plain_error ''x'')]) = [message_or ''Could not delete your account'' (plain_error ''x'')]"
proof -
  let ?s = "run (account_step []) (account0 []) [UserRead some_user, TabClick ''Data'', TypeConfirm ''DELETE'', DeleteClick]"
  have f: "ap_calls ?s = [DeleteAccount]" "ap_toasts ?s = []" by code_simp+
  from deleted_but_reported_failed [OF f(1), of "[]" "plain_error ''x''"] f(2) show ?thesis by (simp del: run.simps)
qed

section \<open>The profile\<close>

text \<open>
  A profile that the service answers as it was sent comes back as it was typed: the form keeps every field, the text about the
  learner trimmed; an emptied timezone, which the select does not offer, would become Lagos.
\<close>

theorem profile_saved_roundtrip:
  assumes "ap_user s = Some u" "pf_timezone (ap_form s) \<noteq> []" "stored_profile u (profile_body (ap_form s)) \<noteq> u"
  shows "ap_form (run (account_step ret) s [SaveClick, ProfileSaved (profile_body (ap_form s)) (profile_body (ap_form s))]) = profile_body (ap_form s)"
  using assms by (simp add: account_send_def account_gone_def account_toast_def user_set_def profile_form_of_def stored_profile_def text_or_empty_def profile_body_def)

theorem profile_saved_roundtrip_witness:
  "ap_form (run (account_step []) (run (account_step []) (account0 []) [UserRead some_user, EditProfile (profile_form0\<lparr>pf_bio := '' Hi ''\<rparr>)])
     [SaveClick, ProfileSaved (profile_form0\<lparr>pf_bio := ''Hi''\<rparr>) (profile_form0\<lparr>pf_bio := ''Hi''\<rparr>)]) = profile_form0\<lparr>pf_bio := ''Hi''\<rparr>"
proof -
  let ?s = "run (account_step []) (account0 []) [UserRead some_user, EditProfile (profile_form0\<lparr>pf_bio := '' Hi ''\<rparr>)]"
  have f: "ap_user ?s = Some some_user" "pf_timezone (ap_form ?s) \<noteq> []" "stored_profile some_user (profile_body (ap_form ?s)) \<noteq> some_user"
    "profile_body (ap_form ?s) = profile_form0\<lparr>pf_bio := ''Hi''\<rparr>" by code_simp+
  from profile_saved_roundtrip [OF f(1-3), of "[]"] f(4) show ?thesis by (simp del: run.simps)
qed

text \<open>A stored photo, like every new copy of the user, throws away what was typed and not saved.\<close>

theorem photo_discards_typing:
  assumes "ap_user s = Some u" "ap_tab s = ''Profile''" "\<not> ap_uploading s" "ou_avatar u \<noteq> Some a"
  shows "allowed account_guard (account_step ret) s [EditProfile f, ChoosePhoto, PhotoStored a] \<and>
     ap_form (run (account_step ret) s [EditProfile f, ChoosePhoto, PhotoStored a]) = profile_form_of u"
proof -
  have "u\<lparr>ou_avatar := Some a\<rparr> \<noteq> u" using assms(4) by (cases u) simp
  moreover have "profile_form_of (u\<lparr>ou_avatar := Some a\<rparr>) = profile_form_of u" by (simp add: profile_form_of_def)
  moreover have "ChoosePhoto \<in> set (offered (account_view (s\<lparr>ap_form := f\<rparr>)))"
    unfolding account_view_def in_offered using assms(1-3) by (simp add: in_offered)
  ultimately show ?thesis using assms(1,2) by (simp add: account_send_def account_gone_def account_toast_def user_set_def)
qed

theorem photo_discards_typing_witness:
  "ap_form (run (account_step []) (run (account_step []) (account0 []) [UserRead some_user])
     [EditProfile (profile_form0\<lparr>pf_bio := ''Draft''\<rparr>), ChoosePhoto, PhotoStored ''/a.png'']) = profile_form_of some_user"
proof -
  let ?s = "run (account_step []) (account0 []) [UserRead some_user]"
  have "ap_user ?s = Some some_user" "ap_tab ?s = ''Profile''" "\<not> ap_uploading ?s" "ou_avatar some_user \<noteq> Some ''/a.png''" by code_simp+
  from photo_discards_typing [OF this] show ?thesis by blast
qed

section \<open>Preferences\<close>

text \<open>
  A preference that was never touched is shown as on; the first click stores that it is on, and
  only the second turns it off. From then on each click flips it and touches no other.
\<close>

theorem first_click_keeps_preference:
  "(if map_of m k = None then pref_shown m k \<and> pref_shown (togglePref k m) k \<and> \<not> pref_shown (togglePref k (togglePref k m)) k
    else pref_shown (togglePref k m) k = (\<not> pref_shown m k)) \<and>
   (if j = k then True else pref_shown (togglePref k m) j = pref_shown m j)"
  by (auto simp: pref_shown_def togglePref_def map_of_put_answer split: option.splits)

text \<open>
  The tabs are a part of the seven, in their order; the learners and the referrals are there for
  parents and learners only.
\<close>

theorem tabs_of_roles:
  "subseq (tabsForRoles roles) ALL_TABS \<and> (''Learners'' \<in> set (tabsForRoles roles)) = (''PARENT'' \<in> set roles \<or> ''STUDENT'' \<in> set roles) \<and>
   (''Referrals'' \<in> set (tabsForRoles roles)) = (''Learners'' \<in> set (tabsForRoles roles))"
  by (simp add: tabsForRoles_def ALL_TABS_def)

end
