(* ===== verification/UserConsole.thy ===== *)
theory UserConsole
  imports Machine JsText Session Http
begin

text \<open>
  The administrators' list of accounts (\<open>client/app/admin/users/page.tsx\<close>). The viewer's id and whether the
  viewer is a super administrator come from the session and are parameters of the page, which is behind a notice for everyone who is no
  administrator of the platform.
\<close>

section \<open>Rows and pages\<close>

record user_row =
  ur_id :: jsstring
  ur_status :: jsstring
  ur_roles :: "jsstring list"

definition isStaffRole :: "jsstring list \<Rightarrow> bool" where
  "isStaffRole roles = list_ex (\<lambda>r. r \<in> {''SUPER_ADMIN'', ''ACADEMIC_ADMIN'', ''INSTITUTION_ADMIN''}) roles"

definition user_rows :: "bool \<Rightarrow> jsstring \<Rightarrow> user_row list \<Rightarrow> user_row list" where
  "user_rows super tab us =
     filter (\<lambda>u. tab = ''all'' \<or> isStaffRole (ur_roles u)) (filter (\<lambda>u. super \<or> ''SUPER_ADMIN'' \<notin> set (ur_roles u)) us)"

definition pageSize :: nat where "pageSize = 25"

definition totalPages :: "nat \<Rightarrow> nat" where
  "totalPages n = max 1 ((n + pageSize - 1) div pageSize)"

record user_page =
  up_search :: jsstring
  up_debounced :: jsstring
  up_status :: jsstring
  up_page :: nat
  up_tab :: jsstring
  up_users :: "user_row list"
  up_total :: nat
  up_roles :: "jsstring list"
  up_detail :: "jsstring option"
  up_roleCalls :: "(jsstring \<times> jsstring \<times> bool) list" \<comment> \<open>user, role, grant\<close>
  up_statusCalls :: "(jsstring \<times> jsstring) list"
  up_roleSent :: "(jsstring \<times> jsstring \<times> bool) list"
  up_statusSent :: "(jsstring \<times> jsstring) list"
  up_toasts :: "jsstring list"

definition user_page0 :: user_page where
  "user_page0 = \<lparr>up_search = [], up_debounced = [], up_status = [], up_page = 1, up_tab = ''all'', up_users = [], up_total = 0, up_roles = [], up_detail = None,
     up_roleCalls = [], up_statusCalls = [], up_roleSent = [], up_statusSent = [], up_toasts = []\<rparr>"

datatype user_event =
    UsersRead "user_row list" nat | RolesRead "jsstring list"
  | TypeSearch jsstring | ApplySearch | PickStatus jsstring | ResetFilters | TabTo jsstring | PrevUsers | NextUsers
  | ViewUser jsstring | CloseDetail | AddRole jsstring jsstring | DropRole jsstring jsstring | Reactivate jsstring | Suspend jsstring
  | RoleDone "jsstring \<times> jsstring \<times> bool" | RoleLost "jsstring \<times> jsstring \<times> bool" js_exn | StatusDone "jsstring \<times> jsstring" | StatusLost "jsstring \<times> jsstring" js_exn

definition row_busy :: "user_page \<Rightarrow> bool" where
  "row_busy s = (up_roleCalls s \<noteq> [] \<or> up_statusCalls s \<noteq> [])"

text \<open>The controls of a row; \<open>self\<close> is the viewer's id.\<close>

definition row_view :: "bool \<Rightarrow> jsstring \<Rightarrow> user_page \<Rightarrow> user_row \<Rightarrow> user_event widget list" where
  "row_view super self s u =
     [Btn ''View'' True (ViewUser (ur_id u))] @
     map (\<lambda>r. Btn r (\<not> row_busy s \<and> super \<and> r \<noteq> [] \<and> ur_id u \<noteq> []) (AddRole (ur_id u) r)) (filter (\<lambda>r. r \<notin> set (ur_roles u)) (up_roles s)) @
     map (\<lambda>r. Btn r (\<not> row_busy s \<and> super \<and> \<not> (r = ''SUPER_ADMIN'' \<and> ur_id u = self) \<and> ur_id u \<noteq> []) (DropRole (ur_id u) r))
       (filter (\<lambda>r. r \<noteq> ''STUDENT'' \<and> r \<noteq> ''PARENT'') (ur_roles u)) @
     (if ur_status u = ''SUSPENDED'' then [Btn ''Reactivate'' (\<not> row_busy s \<and> super \<and> ur_id u \<noteq> []) (Reactivate (ur_id u))]
      else [Btn ''Suspend'' (\<not> row_busy s \<and> super \<and> ur_id u \<noteq> self \<and> ur_id u \<noteq> []) (Suspend (ur_id u))])"

definition users_view :: "bool \<Rightarrow> jsstring \<Rightarrow> user_page \<Rightarrow> user_event widget list" where
  "users_view super self s =
     (if up_detail s \<noteq> None then [Btn ''Close'' True CloseDetail]
      else [Btn ''All users'' True (TabTo ''all''), Btn ''Admins & staff'' True (TabTo ''admins''), Btn ''Go'' (up_search s \<noteq> []) ApplySearch,
            Btn ''Reset'' True ResetFilters] @
        concat (map (row_view super self s) (user_rows super (up_tab s) (up_users s))) @
        (if up_users s = [] then [Txt ''No users match your filters.''] else []) @
        [Btn ''Prev'' (1 < up_page s) PrevUsers, Btn ''Next'' (up_page s < totalPages (up_total s)) NextUsers])"

text \<open>Enter in the search field applies it, too; an answer has at most a page of rows.\<close>

fun users_guard :: "bool \<Rightarrow> jsstring \<Rightarrow> user_page \<Rightarrow> user_event \<Rightarrow> bool" where
  "users_guard super self s (UsersRead us n) = (length us \<le> pageSize)"
| "users_guard super self s (RolesRead rs) = super"
| "users_guard super self s (TypeSearch v) = (up_detail s = None)"
| "users_guard super self s ApplySearch = (up_detail s = None)"
| "users_guard super self s (PickStatus v) = (up_detail s = None \<and> v \<in> {[], ''ACTIVE'', ''PENDING'', ''SUSPENDED''})"
| "users_guard super self s (RoleDone c) = (c \<in> set (up_roleCalls s))"
| "users_guard super self s (RoleLost c e) = (c \<in> set (up_roleCalls s))"
| "users_guard super self s (StatusDone c) = (c \<in> set (up_statusCalls s))"
| "users_guard super self s (StatusLost c e) = (c \<in> set (up_statusCalls s))"
| "users_guard super self s e = (e \<in> set (offered (users_view super self s)))"

definition set_role :: "jsstring \<Rightarrow> jsstring \<Rightarrow> bool \<Rightarrow> user_page \<Rightarrow> user_page" where
  "set_role u r g s = s\<lparr>up_roleCalls := up_roleCalls s @ [(u, r, g)], up_roleSent := up_roleSent s @ [(u, r, g)]\<rparr>"

definition set_status :: "jsstring \<Rightarrow> jsstring \<Rightarrow> user_page \<Rightarrow> user_page" where
  "set_status u st s = s\<lparr>up_statusCalls := up_statusCalls s @ [(u, st)], up_statusSent := up_statusSent s @ [(u, st)]\<rparr>"

definition users_toast :: "jsstring \<Rightarrow> user_page \<Rightarrow> user_page" where
  "users_toast m s = s\<lparr>up_toasts := up_toasts s @ [m]\<rparr>"

fun users_step :: "user_page \<Rightarrow> user_event \<Rightarrow> user_page" where
  "users_step s (UsersRead us n) = s\<lparr>up_users := us, up_total := n\<rparr>"
| "users_step s (RolesRead rs) = s\<lparr>up_roles := rs\<rparr>"
| "users_step s (TypeSearch v) = s\<lparr>up_search := v\<rparr>"
| "users_step s ApplySearch = s\<lparr>up_debounced := trim (up_search s), up_page := 1\<rparr>"
| "users_step s (PickStatus v) = s\<lparr>up_status := v, up_page := 1\<rparr>"
| "users_step s ResetFilters = s\<lparr>up_search := [], up_debounced := [], up_status := [], up_page := 1\<rparr>"
| "users_step s (TabTo t) = s\<lparr>up_tab := t, up_page := 1\<rparr>"
| "users_step s PrevUsers = s\<lparr>up_page := up_page s - 1\<rparr>"
| "users_step s NextUsers = s\<lparr>up_page := up_page s + 1\<rparr>"
| "users_step s (ViewUser i) = s\<lparr>up_detail := Some i\<rparr>"
| "users_step s CloseDetail = s\<lparr>up_detail := None\<rparr>"
| "users_step s (AddRole u r) = set_role u r True s"
| "users_step s (DropRole u r) = set_role u r False s"
| "users_step s (Reactivate u) = set_status u ''ACTIVE'' s"
| "users_step s (Suspend u) = set_status u ''SUSPENDED'' s"
| "users_step s (RoleDone c) = users_toast ''Role updated'' (s\<lparr>up_roleCalls := remove1 c (up_roleCalls s)\<rparr>)"
| "users_step s (RoleLost c e) = users_toast (message_or ''Failed to update role'' e) (s\<lparr>up_roleCalls := remove1 c (up_roleCalls s)\<rparr>)"
| "users_step s (StatusDone c) = users_toast ''Account status updated'' (s\<lparr>up_statusCalls := remove1 c (up_statusCalls s)\<rparr>)"
| "users_step s (StatusLost c e) = users_toast (message_or ''Failed to update status'' e) (s\<lparr>up_statusCalls := remove1 c (up_statusCalls s)\<rparr>)"

section \<open>What the console changes\<close>

definition role_sound :: "jsstring \<Rightarrow> jsstring \<times> jsstring \<times> bool \<Rightarrow> bool" where
  "role_sound self c = (case c of (u, r, g) \<Rightarrow> u \<noteq> [] \<and> (g \<or> (r \<notin> {''STUDENT'', ''PARENT''} \<and> \<not> (r = ''SUPER_ADMIN'' \<and> u = self))))"

definition status_sound :: "jsstring \<Rightarrow> jsstring \<times> jsstring \<Rightarrow> bool" where
  "status_sound self c = (fst c \<noteq> [] \<and> (snd c = ''ACTIVE'' \<or> (snd c = ''SUSPENDED'' \<and> fst c \<noteq> self)))"

definition users_inv :: "bool \<Rightarrow> jsstring \<Rightarrow> user_page \<Rightarrow> bool" where
  "users_inv super self s =
     (1 \<le> up_page s \<and> length (up_roleCalls s) + length (up_statusCalls s) \<le> 1 \<and>
      list_all (role_sound self) (up_roleSent s) \<and> list_all (status_sound self) (up_statusSent s) \<and>
      (\<not> super \<longrightarrow> up_roleSent s = [] \<and> up_statusSent s = []))"

lemma row_offers:
  "AddRole i r \<in> set (offered (row_view super self s u)) \<Longrightarrow> \<not> row_busy s \<and> super \<and> i \<noteq> []"
  "DropRole i r \<in> set (offered (row_view super self s u)) \<Longrightarrow> \<not> row_busy s \<and> super \<and> role_sound self (i, r, False)"
  "Reactivate i \<in> set (offered (row_view super self s u)) \<Longrightarrow> \<not> row_busy s \<and> super \<and> i \<noteq> []"
  "Suspend i \<in> set (offered (row_view super self s u)) \<Longrightarrow> \<not> row_busy s \<and> super \<and> i \<noteq> [] \<and> i \<noteq> self"
  unfolding row_view_def in_offered by (auto simp: role_sound_def)

lemma row_others:
  "e \<in> set (offered (row_view super self s u)) \<Longrightarrow> (\<exists>i r. e \<in> {ViewUser i, AddRole i r, DropRole i r, Reactivate i, Suspend i})"
  unfolding row_view_def in_offered by (auto split: if_splits)

lemma users_offers:
  "AddRole i r \<in> set (offered (users_view super self s)) \<Longrightarrow> \<not> row_busy s \<and> super \<and> i \<noteq> []"
  "DropRole i r \<in> set (offered (users_view super self s)) \<Longrightarrow> \<not> row_busy s \<and> super \<and> role_sound self (i, r, False)"
  "Reactivate i \<in> set (offered (users_view super self s)) \<Longrightarrow> \<not> row_busy s \<and> super \<and> i \<noteq> []"
  "Suspend i \<in> set (offered (users_view super self s)) \<Longrightarrow> \<not> row_busy s \<and> super \<and> i \<noteq> [] \<and> i \<noteq> self"
  "PrevUsers \<in> set (offered (users_view super self s)) \<Longrightarrow> 1 < up_page s"
  unfolding users_view_def in_offered by (auto simp: in_offered dest: row_offers row_others)

lemma short_remove: "length xs + n \<le> Suc 0 \<Longrightarrow> length (remove1 x xs) + n \<le> Suc 0"
  by (simp add: length_remove1)

lemma short_remove': "n + length xs \<le> Suc 0 \<Longrightarrow> n + length (remove1 x xs) \<le> Suc 0"
  by (simp add: length_remove1)

lemma users_inv_step: "users_inv super self s \<Longrightarrow> users_guard super self s e \<Longrightarrow> users_inv super self (users_step s e)"
proof (cases e)
  case (AddRole i r)
  assume "users_inv super self s" "users_guard super self s e"
  then show ?thesis using AddRole users_offers(1) [of i r super self s] by (auto simp: users_inv_def set_role_def row_busy_def role_sound_def)
next
  case (DropRole i r)
  assume "users_inv super self s" "users_guard super self s e"
  then show ?thesis using DropRole users_offers(2) [of i r super self s] by (auto simp: users_inv_def set_role_def row_busy_def)
next
  case (Reactivate i)
  assume "users_inv super self s" "users_guard super self s e"
  then show ?thesis using Reactivate users_offers(3) [of i super self s] by (auto simp: users_inv_def set_status_def row_busy_def status_sound_def)
next
  case (Suspend i)
  assume "users_inv super self s" "users_guard super self s e"
  then show ?thesis using Suspend users_offers(4) [of i super self s] by (auto simp: users_inv_def set_status_def row_busy_def status_sound_def)
next
  case PrevUsers
  assume "users_inv super self s" "users_guard super self s e"
  then show ?thesis using PrevUsers users_offers(5) [of super self s] by (simp add: users_inv_def)
qed (auto simp: users_inv_def users_toast_def short_remove short_remove')

interpretation user_console: bounded_machine "\<lambda>s. s = user_page0" "users_guard super self" users_step "users_inv super self"
  "\<lambda>s. length (up_roleCalls s) + length (up_statusCalls s)" 1 for super self
proof unfold_locales
  fix s assume "s = user_page0"
  then show "users_inv super self s" by (simp add: users_inv_def user_page0_def)
next
  fix s e assume "users_inv super self s" "users_guard super self s e"
  then show "users_inv super self (users_step s e)" by (rule users_inv_step)
next
  fix s assume "users_inv super self s"
  then show "length (up_roleCalls s) + length (up_statusCalls s) \<le> 1" by (simp add: users_inv_def)
qed

text \<open>
  C38. At most one change of a role or a status is in flight. A viewer who is no super administrator
  has sent none. No call drops the viewer's own role of a super administrator or suspends the
  viewer's own account; no call drops a learner's or a parent's role; every call names an account,
  and every status that is asked for is active or suspended; the page number stays positive. Other
  changes of the viewer's own row are possible: see \<open>own_row_open\<close>.
\<close>

theorem user_console_safe:
  assumes "reach (\<lambda>s. s = user_page0) (users_guard super self) users_step s"
  shows "length (up_roleCalls s) + length (up_statusCalls s) \<le> 1 \<and> (if super then True else up_roleSent s = [] \<and> up_statusSent s = []) \<and>
     (self, ''SUPER_ADMIN'', False) \<notin> set (up_roleSent s) \<and> (self, ''SUSPENDED'') \<notin> set (up_statusSent s) \<and>
     list_all (\<lambda>(u, r, grant). u \<noteq> [] \<and> (if grant then True else r \<noteq> ''STUDENT'' \<and> r \<noteq> ''PARENT'')) (up_roleSent s) \<and>
     list_all (\<lambda>(u, st). u \<noteq> [] \<and> st \<in> {''ACTIVE'', ''SUSPENDED''}) (up_statusSent s) \<and> 1 \<le> up_page s"
proof -
  have inv: "users_inv super self s" by (rule user_console.reach_inv [OF assms])
  have r: "\<forall>c\<in>set (up_roleSent s). role_sound self c" and t: "\<forall>c\<in>set (up_statusSent s). status_sound self c"
    using inv by (simp_all add: users_inv_def list_all_iff)
  from bspec [OF r, of "(self, ''SUPER_ADMIN'', False)"] have a: "(self, ''SUPER_ADMIN'', False) \<notin> set (up_roleSent s)"
    by (auto simp: role_sound_def)
  from bspec [OF t, of "(self, ''SUSPENDED'')"] have b: "(self, ''SUSPENDED'') \<notin> set (up_statusSent s)" by (auto simp: status_sound_def)
  have "list_all (\<lambda>(u, r, grant). u \<noteq> [] \<and> (if grant then True else r \<noteq> ''STUDENT'' \<and> r \<noteq> ''PARENT'')) (up_roleSent s)"
    using r by (auto simp: list_all_iff role_sound_def)
  moreover have "list_all (\<lambda>(u, st). u \<noteq> [] \<and> st \<in> {''ACTIVE'', ''SUSPENDED''}) (up_statusSent s)" using t by (auto simp: list_all_iff status_sound_def)
  ultimately show ?thesis using inv a b by (simp add: users_inv_def)
qed

definition some_admin :: user_row where
  "some_admin = \<lparr>ur_id = ''u1'', ur_status = ''ACTIVE'', ur_roles = [''SUPER_ADMIN'', ''TUTOR'']\<rparr>"

theorem user_console_safe_witness:
  "(let s = run users_step user_page0 [UsersRead [some_admin] 1, DropRole ''u1'' ''TUTOR''] in
     up_roleSent s = [(''u1'', ''TUTOR'', False)] \<and> (''u1'', ''SUPER_ADMIN'', False) \<notin> set (up_roleSent s) \<and> (''u1'', ''SUSPENDED'') \<notin> set (up_statusSent s))"
proof -
  let ?es = "[UsersRead [some_admin] 1, DropRole ''u1'' ''TUTOR'']"
  have f: "allowed (users_guard True ''u1'') users_step user_page0 ?es" "up_roleSent (run users_step user_page0 ?es) = [(''u1'', ''TUTOR'', False)]" by code_simp+
  from user_console_safe [OF run_reachable [OF refl f(1)]] f(2) show ?thesis unfolding Let_def by blast
qed

text \<open>
  What the page leaves open on the viewer's own row, to a super administrator: every role but the
  right itself, a learner's and a parent's can be dropped, and an account that is listed as
  suspended can be made active again.
\<close>

theorem own_row_open:
  assumes "up_detail s = None" "\<not> row_busy s" "u \<in> set (user_rows True (up_tab s) (up_users s))" "ur_id u = self" "self \<noteq> []"
  shows "(if r \<in> set (ur_roles u) \<and> r \<notin> {''STUDENT'', ''PARENT'', ''SUPER_ADMIN''} then users_guard True self s (DropRole self r) else True) \<and>
     (if ur_status u = ''SUSPENDED'' then users_guard True self s (Reactivate self) \<and> up_statusSent (users_step s (Reactivate self)) = up_statusSent s @ [(self, ''ACTIVE'')]
      else True)"
proof -
  have sub: "set (offered (row_view True self s u)) \<subseteq> set (offered (users_view True self s))"
    using assms(1,3) unfolding users_view_def by (auto simp: in_offered)
  have "DropRole self r \<in> set (offered (row_view True self s u))" if "r \<in> set (ur_roles u)" "r \<notin> {''STUDENT'', ''PARENT'', ''SUPER_ADMIN''}"
    using assms that unfolding row_view_def by (auto simp: in_offered)
  moreover have "Reactivate self \<in> set (offered (row_view True self s u))" if "ur_status u = ''SUSPENDED''"
    using assms that unfolding row_view_def by (auto simp: in_offered)
  ultimately show ?thesis using sub by (auto simp: set_status_def)
qed

theorem own_row_open_witness:
  "(let s = run users_step user_page0 [UsersRead [some_admin\<lparr>ur_status := ''SUSPENDED''\<rparr>] 1] in
     users_guard True ''u1'' s (Reactivate ''u1'') \<and> up_statusSent (users_step s (Reactivate ''u1'')) = [(''u1'', ''ACTIVE'')])"
proof -
  let ?s = "run users_step user_page0 [UsersRead [some_admin\<lparr>ur_status := ''SUSPENDED''\<rparr>] 1]" and ?u = "some_admin\<lparr>ur_status := ''SUSPENDED''\<rparr>"
  have f: "up_detail ?s = None" "\<not> row_busy ?s" "?u \<in> set (user_rows True (up_tab ?s) (up_users ?s))" "ur_id ?u = ''u1''" "''u1'' \<noteq> ([]::jsstring)"
    and g: "up_statusSent ?s = []" "ur_status ?u = ''SUSPENDED''" by code_simp+
  from own_row_open [OF f, THEN conjunct2] show ?thesis unfolding Let_def g by simp
qed

text \<open>
  Who is not a super administrator sees no super administrator, in either tab; the staff tab
  shows only staff; and a super administrator sees every account of the page.
\<close>

theorem super_admins_hidden:
  "list_all (\<lambda>u. ''SUPER_ADMIN'' \<notin> set (ur_roles u)) (user_rows False tab us) \<and>
   list_all (\<lambda>u. isStaffRole (ur_roles u)) (user_rows super ''admins'' us) \<and> user_rows True ''all'' us = us \<and> set (user_rows super tab us) \<subseteq> set us"
  by (auto simp: user_rows_def list_all_iff)

text \<open>
  The staff tab filters the page that was read: with no staff among its rows it shows an empty
  table without a word, while the pages still count every account.
\<close>

theorem staff_tab_blank:
  assumes "list_all (\<lambda>u. \<not> isStaffRole (ur_roles u)) (up_users s)" "up_users s \<noteq> []" "up_tab s = ''admins''" "up_detail s = None"
  shows "user_rows super (up_tab s) (up_users s) = [] \<and> Txt ''No users match your filters.'' \<notin> set (users_view super self s) \<and>
     (users_guard super self s NextUsers = (up_page s < totalPages (up_total s)))"
proof -
  have rows: "user_rows super ''admins'' (up_users s) = []" using assms(1) by (simp add: user_rows_def filter_empty_conv list_all_iff)
  have "(NextUsers \<in> set (offered (users_view super self s))) = (up_page s < totalPages (up_total s))"
    using rows assms(2-4) unfolding users_view_def in_offered by (simp add: in_offered)
  then show ?thesis using rows assms(2-4) by (simp add: users_view_def)
qed

theorem staff_tab_blank_witness:
  "user_rows True ''admins'' [\<lparr>ur_id = ''u2'', ur_status = ''ACTIVE'', ur_roles = [''STUDENT'']\<rparr>] = []"
proof -
  let ?s = "user_page0\<lparr>up_users := [\<lparr>ur_id = ''u2'', ur_status = ''ACTIVE'', ur_roles = [''STUDENT'']\<rparr>], up_tab := ''admins''\<rparr>"
  have "list_all (\<lambda>u. \<not> isStaffRole (ur_roles u)) (up_users ?s)" "up_users ?s \<noteq> []" "up_tab ?s = ''admins''" "up_detail ?s = None" by code_simp+
  from staff_tab_blank [OF this, of True "[]", THEN conjunct1] show ?thesis by simp
qed

text \<open>The pages cover the accounts: the next one is offered exactly while accounts remain.\<close>

theorem user_pages_cover:
  "n \<le> pageSize * totalPages n \<and> (if 0 < n then pageSize * (totalPages n - 1) < n else totalPages n = 1) \<and>
   (if 1 \<le> p then (p < totalPages n) = (pageSize * p < n) else True)"
  by (auto simp: totalPages_def pageSize_def)

end
