(* ===== verification/ControlCentre.thy ===== *)
theory ControlCentre
  imports JsText Http "HOL-Library.Multiset"
begin

text \<open>
  The control centre of the super administrators (\<open>client/app/admin/super/page.tsx\<close>) and the
  overview of the administrators (\<open>client/app/admin/page.tsx\<close>): their figures, the queues that need attention, their links and the check of the mail. \<open>loc\<close> is
  \<open>toLocaleString\<close> of a number.
\<close>

section \<open>The figures\<close>

text \<open>The answer of \<open>/admin/stats2\<close>; before it came every field reads as absent.\<close>

record super_stats =
  ss_users :: "nat option"
  ss_active :: "nat option"
  ss_tutors :: "nat option" \<comment> \<open>pending\<close>
  ss_approved :: "nat option"
  ss_tutors_total :: "nat option"
  ss_cohorts :: "nat option"
  ss_lessons :: "nat option"
  ss_escrow :: "nat option"
  ss_paid_out :: "nat option"
  ss_orders :: "nat option"
  ss_orders_paid :: "nat option"
  ss_enrolments :: "nat option"
  ss_institutions :: "nat option"
  ss_referrals :: "nat option"
  ss_posts :: "nat option"
  ss_drafts :: "nat option"
  ss_reviews :: "nat option"
  ss_disputes :: "nat option"
  ss_tickets :: "nat option"
  ss_refunds :: "nat option"
  ss_notes :: "nat option"
  ss_week :: "nat option" \<comment> \<open>lessons of the week\<close>

definition super_stats0 :: super_stats where
  "super_stats0 = \<lparr>ss_users = None, ss_active = None, ss_tutors = None, ss_approved = None, ss_tutors_total = None, ss_cohorts = None, ss_lessons = None,
     ss_escrow = None, ss_paid_out = None, ss_orders = None, ss_orders_paid = None, ss_enrolments = None, ss_institutions = None, ss_referrals = None,
     ss_posts = None, ss_drafts = None, ss_reviews = None, ss_disputes = None, ss_tickets = None, ss_refunds = None, ss_notes = None, ss_week = None\<rparr>"

definition count_or_0 :: "nat option \<Rightarrow> nat" where
  "count_or_0 n = (case n of Some k \<Rightarrow> k | None \<Rightarrow> 0)"

text \<open>\<open>fmtNGN\<close>; \<open>naira\<close> is the sign of the currency.\<close>

definition fmtNGN :: "jsstring \<Rightarrow> (nat \<Rightarrow> jsstring) \<Rightarrow> nat option \<Rightarrow> jsstring" where
  "fmtNGN naira loc n = naira @ loc (count_or_0 n)"

definition dot_between :: jsstring where "dot_between = [CHR '' '', CHR 0xC2, CHR 0xB7, CHR '' '']"

text \<open>A tile: its label, \<open>value ?? "-"\<close> and its hint.\<close>

definition tile_value :: "jsstring option \<Rightarrow> jsstring" where
  "tile_value v = (case v of Some t \<Rightarrow> t | None \<Rightarrow> ''-'')"

text \<open>\<open>n?.toLocaleString()\<close> in a template, where an absent number prints as \<open>undefined\<close>.\<close>

definition in_template :: "(nat \<Rightarrow> jsstring) \<Rightarrow> nat option \<Rightarrow> jsstring" where
  "in_template loc n = (case n of Some k \<Rightarrow> loc k | None \<Rightarrow> ''undefined'')"

definition super_tiles :: "jsstring \<Rightarrow> (nat \<Rightarrow> jsstring) \<Rightarrow> super_stats \<Rightarrow> (jsstring \<times> jsstring \<times> jsstring) list" where
  "super_tiles naira loc s =
     [(''Registered users'', tile_value (map_option loc (ss_users s)), loc (count_or_0 (ss_active s)) @ '' active''),
      (''Tutors'', tile_value (map_option loc (ss_approved s)),
        loc (count_or_0 (ss_tutors_total s)) @ '' total'' @ dot_between @ loc (count_or_0 (ss_tutors s)) @ '' pending''),
      (''Cohorts published'', tile_value (map_option loc (ss_cohorts s)), show_nat (count_or_0 (ss_lessons s)) @ '' lessons today''),
      (''Revenue (escrow)'', fmtNGN naira loc (ss_escrow s), fmtNGN naira loc (ss_paid_out s) @ '' paid out''),
      (''Orders'', show_nat (count_or_0 (ss_orders s)), show_nat (count_or_0 (ss_orders_paid s)) @ '' paid''),
      (''Pending enrolments'', tile_value (map_option loc (ss_enrolments s)), ''Awaiting payment/confirmation''),
      (''Institutions'', tile_value (map_option loc (ss_institutions s)), ''B2B accounts''),
      (''Referrals issued'', tile_value (map_option loc (ss_referrals s)), ''Programme referrals''),
      (''Blog posts'', tile_value (map_option loc (ss_posts s)), in_template loc (ss_drafts s) @ '' drafts''),
      (''Reviews pending'', tile_value (map_option loc (ss_reviews s)), ''Consent-gated moderation''),
      (''Escrow disputed'', tile_value (map_option loc (ss_disputes s)), ''Needs review''),
      (''Open support'', tile_value (map_option loc (ss_tickets s)), ''Awaiting response'')]"

definition revenueGrowth :: "super_stats \<Rightarrow> bool" where
  "revenueGrowth s = (0 < count_or_0 (ss_paid_out s))"

section \<open>Queues and links\<close>

text \<open>Label, address, count and warning of each queue; \<open>filter\<close> keeps the truthy counts.\<close>

definition queue_entry :: "jsstring \<Rightarrow> jsstring \<Rightarrow> nat option \<Rightarrow> jsstring \<times> jsstring \<times> nat option \<times> bool" where
  "queue_entry l h c = (l, h, c, 0 < count_or_0 c)"

definition attention :: "super_stats \<Rightarrow> (jsstring \<times> jsstring \<times> nat option \<times> bool) list" where
  "attention s =
     filter (\<lambda>(l, h, c, w). count_or_0 c \<noteq> 0)
       [queue_entry ''Pending tutor applications'' ''/admin/vetting'' (ss_tutors s),
        queue_entry ''Pending enrolments'' ''/admin/cohorts'' (ss_enrolments s),
        queue_entry ''Open support tickets'' ''/admin/support'' (ss_tickets s),
        queue_entry ''Disputed escrow holds'' ''/admin/payments'' (ss_disputes s),
        queue_entry ''Pending refunds'' ''/admin/payments'' (ss_refunds s),
        queue_entry ''Overdue lesson notes'' ''/admin/lessons'' (ss_notes s),
        queue_entry ''Reviews awaiting moderation'' ''/admin/reviews'' (ss_reviews s)]"

definition MODULES :: "(jsstring \<times> jsstring \<times> jsstring) list" where
  "MODULES =
     [(''/admin/users'', ''Users & roles'', ''Search accounts, roles, status''),
      (''/admin/vetting'', ''Tutor vetting'', ''Applications & approvals''),
      (''/admin/cohorts'', ''Cohorts'', ''Create & publish cohorts''),
      (''/admin/payments'', ''Payments'', ''Orders, refunds, payouts''),
      (''/admin/analytics'', ''Analytics'', ''Platform analytics & reports''),
      (''/admin/lessons'', ''Today'' @ [CHR 0x27] @ ''s classes'', ''Attendance & operations''),
      (''/admin/support'', ''Support'', ''Tickets & escalation''),
      (''/admin/blog'', ''Blog CMS'', ''Publish study content''),
      (''/admin/institutions'', ''Institutions'', ''B2B accounts''),
      (''/admin/referrals'', ''Referrals'', ''Rewards & tracking''),
      (''/admin/reviews'', ''Reviews'', ''Consent-gated publishing'')]"

definition QUICK_ACTIONS :: "super_stats \<Rightarrow> (jsstring \<times> jsstring \<times> jsstring) list" where
  "QUICK_ACTIONS s =
     [(''/admin/users'', ''Add / manage admins'', ''Grant SUPER_ADMIN or ACADEMIC_ADMIN''),
      (''/admin/cohorts'', ''Create a cohort'', ''Publish a new scheduled class''),
      (''/admin/vetting'', ''Review tutors'', show_nat (count_or_0 (ss_tutors s)) @ '' awaiting approval''),
      (''/admin/blog'', ''Write a post'', ''Publish study content'')]"

text \<open>What the check of the mail says: the address and the provider, or the failure.\<close>

definition testEmail :: "js_exn + jsstring \<times> jsstring \<Rightarrow> jsstring" where
  "testEmail r =
     (case r of
        Inl e \<Rightarrow> message_or ''Could not send test email'' e
      | Inr (to, provider) \<Rightarrow> ''Test email sent to '' @ to @ '' via '' @ provider)"

text \<open>The target of an entry of the audit trail, and its action in the activity list.\<close>

definition audit_target :: "jsstring \<Rightarrow> jsstring option \<Rightarrow> jsstring" where
  "audit_target kind i = kind @ (case i of Some t \<Rightarrow> (if t = [] then [] else dot_between @ take 8 t) | None \<Rightarrow> [])"

definition activity_action :: "jsstring option \<Rightarrow> jsstring" where
  "activity_action a = (case a of Some t \<Rightarrow> map (\<lambda>c. if c = CHR ''_'' then CHR '' '' else c) t | None \<Rightarrow> [])"

section \<open>The overview\<close>

text \<open>The answer of \<open>/admin/overview\<close>; its stats have every field that the page reads without \<open>?.\<close>.\<close>

record overview =
  ov_stats :: "super_stats option"
  ov_joins :: "nat option"
  ov_tickets :: "nat option"
  ov_leads_new :: "nat option"
  ov_leads_total :: "nat option"
  ov_payouts :: "nat option"
  ov_vetting :: "nat option"

definition stat_of :: "overview \<Rightarrow> (super_stats \<Rightarrow> nat option) \<Rightarrow> nat option" where
  "stat_of o' f = (case ov_stats o' of None \<Rightarrow> None | Some s \<Rightarrow> f s)"

definition overview_attention :: "overview \<Rightarrow> (jsstring \<times> jsstring \<times> nat option \<times> bool) list" where
  "overview_attention o' =
     filter (\<lambda>(l, h, c, w). 0 < count_or_0 c)
       [queue_entry ''Tutor applications'' ''/admin/vetting'' (stat_of o' ss_tutors),
        queue_entry ''Pending enrolments'' ''/admin/cohorts'' (stat_of o' ss_enrolments),
        queue_entry ''Overdue lesson notes'' ''/admin/lessons'' (stat_of o' ss_notes),
        queue_entry ''Disputed escrow'' ''/admin/payments'' (stat_of o' ss_disputes),
        queue_entry ''Open support'' ''/admin/support'' (stat_of o' ss_tickets),
        queue_entry ''Pending refunds'' ''/admin/payments'' (stat_of o' ss_refunds),
        queue_entry ''Reviews to moderate'' ''/admin/reviews'' (stat_of o' ss_reviews),
        queue_entry ''Cohort join requests'' ''/admin/cohorts'' (ov_joins o'),
        queue_entry ''Open support tickets'' ''/admin/support'' (ov_tickets o')]"

definition OVERVIEW_MODULES :: "(jsstring \<times> jsstring \<times> jsstring) list" where
  "OVERVIEW_MODULES =
     [(''/admin/vetting'', ''Tutor vetting'', ''Applications & approvals''),
      (''/admin/cohorts'', ''Cohorts'', ''Create, publish, manage''),
      (''/admin/lessons'', ''Today'' @ [CHR 0x27] @ ''s classes'', ''Attendance & overview''),
      (''/admin/payments'', ''Payments'', ''Orders, refunds, payouts''),
      (''/admin/analytics'', ''Analytics'', ''Platform analytics''),
      (''/admin/support'', ''Support'', ''Tickets & escalation''),
      (''/admin/chat'', ''Chat agent inbox'', ''Escalated conversations''),
      (''/admin/blog'', ''Blog CMS'', ''Publish study content''),
      (''/admin/institutions'', ''Institutions'', ''B2B accounts''),
      (''/admin/referrals'', ''Referrals'', ''Rewards & tracking''),
      (''/admin/reviews'', ''Reviews'', ''Consent-gated publishing''),
      (''/admin/cbt'', ''CBT bank'', ''2,000+ practice questions'')]"

definition overview_actions :: "overview \<Rightarrow> (jsstring \<times> jsstring \<times> jsstring) list" where
  "overview_actions o' =
     [(''/admin/cohorts'', ''Create a cohort'', ''Publish a new class''),
      (''/admin/vetting'', ''Review tutors'', show_nat (count_or_0 (stat_of o' ss_tutors)) @ '' awaiting approval''),
      (''/admin/blog'', ''Write a post'', ''Publish study content''),
      (''/admin/payments'', ''Payments'', ''Confirm, refund, payouts'')]"

text \<open>The cards: label, \<open>?? "-"\<close> and the line below.\<close>

definition overview_cards :: "jsstring \<Rightarrow> (nat \<Rightarrow> jsstring) \<Rightarrow> overview \<Rightarrow> (jsstring \<times> jsstring \<times> jsstring) list" where
  "overview_cards naira loc o' =
     (let v = (\<lambda>f. tile_value (map_option loc (stat_of o' f))); u = (\<lambda>f. in_template loc (stat_of o' f)) in
     [(''Active learners'', v ss_active, u ss_users @ '' registered''),
      (''Tutors (approved)'', v ss_approved, u ss_tutors_total @ '' total'' @ dot_between @ u ss_tutors @ '' pending''),
      (''Cohorts (published)'', v ss_cohorts, u ss_week @ '' lessons this week''),
      (''Revenue'', fmtNGN naira loc (stat_of o' ss_escrow), fmtNGN naira loc (stat_of o' ss_paid_out) @ '' paid out''),
      (''Lessons today'', v ss_lessons, []),
      (''Pending enrolments'', v ss_enrolments, []),
      (''Orders (total / paid)'', show_nat (count_or_0 (stat_of o' ss_orders)) @ ''/'' @ show_nat (count_or_0 (stat_of o' ss_orders_paid)), []),
      (''Blog published'', v ss_posts, u ss_drafts @ '' drafts''),
      (''Institutions'', v ss_institutions, ''B2B accounts''),
      (''Referrals'', v ss_referrals, ''Programme referrals''),
      (''Reviews pending'', v ss_reviews, ''Moderation queue''),
      (''Escrow disputed'', v ss_disputes, ''Needs review''),
      (''New leads'', show_nat (count_or_0 (ov_leads_new o')), show_nat (count_or_0 (ov_leads_total o')) @ '' total captured''),
      (''Payouts pending'', fmtNGN naira loc (ov_payouts o'), ''Tutor bank transfers''),
      (''Tutor applications'', show_nat (count_or_0 (ov_vetting o')), ''Awaiting review''),
      (''Open support'', show_nat (count_or_0 (ov_tickets o')), ''Active tickets'')])"

section \<open>Properties\<close>

lemma set_but:
  "list_all (\<lambda>h. h = u \<or> h \<in> set ys) xs \<Longrightarrow> list_all (\<lambda>h. h \<in> B \<or> (h \<noteq> u \<and> h \<in> set xs)) ys \<Longrightarrow> B \<subseteq> set ys \<Longrightarrow>
   set ys = (set xs - {u}) \<union> B"
  by (auto simp: list_all_iff)

lemma all_kept: "list_all P (filter Q xs) = list_all (\<lambda>x. Q x \<longrightarrow> P x) xs"
  by (auto simp: list_all_iff)

lemma kept_counts:
  "sum_list (map (\<lambda>(l, h, c, w). count_or_0 c) (filter (\<lambda>(l, h, c, w). count_or_0 c \<noteq> 0) xs)) = sum_list (map (\<lambda>(l, h, c, w). count_or_0 c) xs)"
  for xs :: "(jsstring \<times> jsstring \<times> nat option \<times> bool) list"
  by (induction xs) auto

text \<open>
  The list shows a queue exactly when it is not empty, always with a warning; together the
  entries count all that waits, and each leads to a module of the page.
\<close>

theorem attention_complete:
  "sum_list (map (\<lambda>(l, h, c, w). count_or_0 c) (attention s)) =
     sum_list (map count_or_0 [ss_tutors s, ss_enrolments s, ss_tickets s, ss_disputes s, ss_refunds s, ss_notes s, ss_reviews s]) \<and>
   list_all (\<lambda>(l, h, c, w). w \<and> 0 < count_or_0 c \<and> h \<in> set (map fst MODULES)) (attention s) \<and>
   set (map fst (QUICK_ACTIONS s)) \<subseteq> set (map fst MODULES) \<and> distinct (map fst MODULES)"
proof -
  have "sum_list (map (\<lambda>(l, h, c, w). count_or_0 c) (attention s)) =
     sum_list (map count_or_0 [ss_tutors s, ss_enrolments s, ss_tickets s, ss_disputes s, ss_refunds s, ss_notes s, ss_reviews s])"
    unfolding attention_def kept_counts by (simp add: queue_entry_def)
  moreover have "list_all (\<lambda>(l, h, c, w). w \<and> 0 < count_or_0 c \<and> h \<in> set (map fst MODULES)) (attention s)"
    unfolding attention_def all_kept by (simp add: queue_entry_def MODULES_def)
  moreover have "set (map fst (QUICK_ACTIONS s)) \<subseteq> set (map fst MODULES)" by (simp add: QUICK_ACTIONS_def MODULES_def)
  moreover have "distinct (map fst MODULES)" by (simp add: MODULES_def)
  ultimately show ?thesis by blast
qed

text \<open>
  Before the figures were read, and when they cannot be, four of the tiles claim a zero, the
  drafts are \<open>undefined\<close> and the page says that nothing was paid out yet.
\<close>

theorem figures_before_answer:
  "map (\<lambda>(l, v, h). v) (super_tiles naira loc super_stats0) =
     [''-'', ''-'', ''-'', naira @ loc 0, ''0'', ''-'', ''-'', ''-'', ''-'', ''-'', ''-'', ''-''] \<and>
   (''Blog posts'', ''-'', ''undefined drafts'') \<in> set (super_tiles naira loc super_stats0) \<and>
   \<not> revenueGrowth super_stats0 \<and> attention super_stats0 = []"
  by (simp add: super_tiles_def super_stats0_def tile_value_def fmtNGN_def in_template_def count_or_0_def revenueGrowth_def attention_def queue_entry_def show_nat.simps [of 0] digit_char_def)

section \<open>The two pages agree\<close>

definition where_and_count :: "jsstring \<times> jsstring \<times> nat option \<times> bool \<Rightarrow> jsstring \<times> nat option \<times> bool" where
  "where_and_count q = snd q"

lemma kept_entry:
  "mset (map where_and_count (filter (\<lambda>(l, h, c, w). 0 < count_or_0 c) (queue_entry l h c # qs))) =
   (if 0 < count_or_0 c then {#(h, c, True)#} else {#}) + mset (map where_and_count (filter (\<lambda>(l, h, c, w). 0 < count_or_0 c) qs))"
  by (simp add: queue_entry_def where_and_count_def)

text \<open>
  Both pages report the same queues of the same stats at the same addresses, in another order;
  the overview adds the join requests and the open tickets, so that support counts twice there.
\<close>

theorem overview_reports_the_same:
  "(case ov_stats o' of
      None \<Rightarrow> True
    | Some s \<Rightarrow>
        mset (map where_and_count (overview_attention o')) = mset (map where_and_count (attention s)) +
        (if 0 < count_or_0 (ov_joins o') then {#(''/admin/cohorts'', ov_joins o', True)#} else {#}) +
        (if 0 < count_or_0 (ov_tickets o') then {#(''/admin/support'', ov_tickets o', True)#} else {#}))"
proof (cases "ov_stats o'")
  case (Some s)
  have f: "stat_of o' f = f s" for f using Some by (simp add: stat_of_def)
  have n: "(\<lambda>(l, h, c, w). count_or_0 c \<noteq> 0) = (\<lambda>(l, h, c, w). 0 < count_or_0 c)" by auto
  show ?thesis using Some unfolding overview_attention_def attention_def n f kept_entry by (simp only: option.case filter.simps list.map mset.simps ac_simps)
qed simp

text \<open>
  The modules of the overview are those of the control centre without the accounts, with the
  agents' inbox and the question bank; every queue and quick action leads to one of them.
\<close>

theorem overview_modules:
  "set (map fst OVERVIEW_MODULES) = (set (map fst MODULES) - {''/admin/users''}) \<union> {''/admin/chat'', ''/admin/cbt''} \<and> distinct (map fst OVERVIEW_MODULES) \<and>
   list_all (\<lambda>(l, h, c, w). w \<and> h \<in> set (map fst OVERVIEW_MODULES)) (overview_attention o') \<and>
   set (map fst (overview_actions o')) \<subseteq> set (map fst OVERVIEW_MODULES)"
proof -
  have "list_all (\<lambda>h. h = ''/admin/users'' \<or> h \<in> set (map fst OVERVIEW_MODULES)) (map fst MODULES)" by (simp add: OVERVIEW_MODULES_def MODULES_def)
  moreover have "list_all (\<lambda>h. h \<in> {''/admin/chat'', ''/admin/cbt''} \<or> (h \<noteq> ''/admin/users'' \<and> h \<in> set (map fst MODULES))) (map fst OVERVIEW_MODULES)"
    by (simp add: OVERVIEW_MODULES_def MODULES_def)
  moreover have "{''/admin/chat'', ''/admin/cbt''} \<subseteq> set (map fst OVERVIEW_MODULES)" by (simp add: OVERVIEW_MODULES_def)
  ultimately have "set (map fst OVERVIEW_MODULES) = (set (map fst MODULES) - {''/admin/users''}) \<union> {''/admin/chat'', ''/admin/cbt''}"
    by (rule set_but)
  moreover have "distinct (map fst OVERVIEW_MODULES)" by (simp add: OVERVIEW_MODULES_def)
  moreover have "list_all (\<lambda>(l, h, c, w). w \<and> h \<in> set (map fst OVERVIEW_MODULES)) (overview_attention o')"
    unfolding overview_attention_def all_kept by (simp add: queue_entry_def OVERVIEW_MODULES_def)
  moreover have "set (map fst (overview_actions o')) \<subseteq> set (map fst OVERVIEW_MODULES)" by (simp add: overview_actions_def OVERVIEW_MODULES_def)
  ultimately show ?thesis by (intro conjI)
qed

end
