(* ===== verification/InstitutionDesk.thy ===== *)
theory InstitutionDesk
  imports Machine JsDecimal
begin

text \<open>
  The console of an institution (\<open>client/app/account/institutions/[id]/page.tsx\<close>): its profile
  and the panels of members, learners and Plus seats. A panel lives while its tab is shown: it
  is mounted with empty fields and mutations at rest, so the calls of an unmounted panel go on
  without it. A failure is shown nowhere.
\<close>

section \<open>Profile\<close>

record inst_form =
  if_name :: jsstring
  if_email :: jsstring
  if_phone :: jsstring
  if_website :: jsstring
  if_description :: jsstring

record inst_data =
  id_name :: "jsstring option"
  id_email :: "jsstring option"
  id_phone :: "jsstring option"
  id_website :: "jsstring option"
  id_description :: "jsstring option"

definition inst_form0 :: inst_form where
  "inst_form0 = \<lparr>if_name = [], if_email = [], if_phone = [], if_website = [], if_description = []\<rparr>"

definition or_empty :: "jsstring option \<Rightarrow> jsstring" where
  "or_empty v = (case v of Some t \<Rightarrow> t | None \<Rightarrow> [])"

definition inst_form_of :: "inst_data \<Rightarrow> inst_form" where
  "inst_form_of d = \<lparr>if_name = or_empty (id_name d), if_email = or_empty (id_email d), if_phone = or_empty (id_phone d),
     if_website = or_empty (id_website d), if_description = or_empty (id_description d)\<rparr>"

text \<open>\<open>v || undefined\<close>, and the body of the update.\<close>

definition or_undefined :: "jsstring \<Rightarrow> jsstring option" where
  "or_undefined v = (if v = [] then None else Some v)"

definition inst_update :: "inst_form \<Rightarrow> inst_data" where
  "inst_update f = \<lparr>id_name = or_undefined (if_name f), id_email = or_undefined (if_email f), id_phone = or_undefined (if_phone f),
     id_website = or_undefined (if_website f), id_description = or_undefined (if_description f)\<rparr>"

text \<open>The service keeps the fields that an update does not name.\<close>

definition kept_or :: "jsstring option \<Rightarrow> jsstring option \<Rightarrow> jsstring option" where
  "kept_or new old = (case new of Some t \<Rightarrow> Some t | None \<Rightarrow> old)"

definition updated :: "inst_data \<Rightarrow> inst_data \<Rightarrow> inst_data" where
  "updated u d = \<lparr>id_name = kept_or (id_name u) (id_name d), id_email = kept_or (id_email u) (id_email d), id_phone = kept_or (id_phone u) (id_phone d),
     id_website = kept_or (id_website u) (id_website d), id_description = kept_or (id_description u) (id_description d)\<rparr>"

section \<open>The page\<close>

definition MEMBER_ROLES :: "jsstring list" where
  "MEMBER_ROLES = [''OWNER'', ''ADMIN'', ''TEACHER'', ''STUDENT'', ''BILLING'']"

definition INST_TABS :: "jsstring list" where
  "INST_TABS = [''profile'', ''members'', ''students'', ''plusteams'']"

datatype inst_call =
    SaveInst inst_data | Invite jsstring jsstring | SetRole jsstring jsstring | RemoveMember jsstring
  | LinkLearner jsstring jsstring | UnlinkLearner jsstring
  | SetSeats "rat option" | AssignSeat jsstring | ReleaseSeat jsstring

record inst_page =
  ip_tab :: jsstring
  ip_data :: "inst_data option"
  ip_error :: bool
  ip_loaded :: bool
  ip_form :: inst_form
  ip_saved :: bool
  ip_user :: jsstring
  ip_role :: jsstring
  ip_selected :: jsstring
  ip_ref :: jsstring
  ip_seats :: jsstring
  ip_seatUser :: jsstring
  ip_members :: "jsstring list" \<comment> \<open>their user ids\<close>
  ip_picker :: "jsstring list" \<comment> \<open>the account's learners\<close>
  ip_students :: "jsstring list"
  ip_seatRows :: "jsstring list"
  ip_calls :: "inst_call list" \<comment> \<open>of the page and the panel that is mounted\<close>
  ip_orphans :: "inst_call list" \<comment> \<open>of panels that are gone\<close>
  ip_sent :: "inst_call list"

definition inst_page0 :: inst_page where
  "inst_page0 = \<lparr>ip_tab = ''profile'', ip_data = None, ip_error = False, ip_loaded = False, ip_form = inst_form0, ip_saved = False,
     ip_user = [], ip_role = ''TEACHER'', ip_selected = [], ip_ref = [], ip_seats = [], ip_seatUser = [],
     ip_members = [], ip_picker = [], ip_students = [], ip_seatRows = [], ip_calls = [], ip_orphans = [], ip_sent = []\<rparr>"

fun is_save :: "inst_call \<Rightarrow> bool" where
  "is_save (SaveInst u) = True"
| "is_save c = False"

fun is_invite :: "inst_call \<Rightarrow> bool" where
  "is_invite (Invite u r) = True"
| "is_invite c = False"

fun is_link :: "inst_call \<Rightarrow> bool" where
  "is_link (LinkLearner l r) = True"
| "is_link c = False"

fun is_seats :: "inst_call \<Rightarrow> bool" where
  "is_seats (SetSeats n) = True"
| "is_seats c = False"

fun is_seat :: "inst_call \<Rightarrow> bool" where
  "is_seat (AssignSeat u) = True"
| "is_seat c = False"

datatype inst_event =
    InstRead inst_data | InstLost | MembersRead "jsstring list" | LearnersRead "jsstring list" | StudentsRead "jsstring list" | SeatsRead "jsstring list"
  | TabTo jsstring | EditForm inst_form | SaveClick
  | TypeUser jsstring | PickRole jsstring | InviteClick | ChangeRole jsstring jsstring | RemoveClick jsstring
  | PickLearner jsstring | TypeRef jsstring | LinkClick | UnlinkClick jsstring
  | TypeSeats jsstring | SeatsClick | TypeSeatUser jsstring | AssignClick | ReleaseClick jsstring
  | CallDone inst_call | CallLost inst_call | OrphanSettles inst_call

text \<open>The panel goes away, its calls go on.\<close>

definition unmount :: "inst_page \<Rightarrow> inst_page" where
  "unmount s = s\<lparr>ip_user := [], ip_role := ''TEACHER'', ip_selected := [], ip_ref := [], ip_seats := [], ip_seatUser := [],
     ip_calls := filter is_save (ip_calls s), ip_orphans := ip_orphans s @ filter (\<lambda>c. \<not> is_save c) (ip_calls s)\<rparr>"

definition inst_send :: "inst_call \<Rightarrow> inst_page \<Rightarrow> inst_page" where
  "inst_send c s = s\<lparr>ip_calls := ip_calls s @ [c], ip_sent := ip_sent s @ [c]\<rparr>"

definition inst_gone :: "inst_call \<Rightarrow> inst_page \<Rightarrow> inst_page" where
  "inst_gone c s = s\<lparr>ip_calls := remove1 c (ip_calls s)\<rparr>"

definition profile_view :: "inst_page \<Rightarrow> inst_event widget list" where
  "profile_view s =
     [Btn (if list_ex is_save (ip_calls s) then ''Saving'' @ ellipsis else ''Save changes'') (\<not> list_ex is_save (ip_calls s)) SaveClick] @
     (if ip_saved s then [Txt ''Saved''] else [])"

definition members_view :: "inst_page \<Rightarrow> inst_event widget list" where
  "members_view s =
     map (\<lambda>r. Btn r True (PickRole r)) MEMBER_ROLES @
     [Btn ''Invite'' (trim (ip_user s) \<noteq> [] \<and> \<not> list_ex is_invite (ip_calls s)) InviteClick] @
     (if ip_members s = [] then [Txt ''No members yet.''] else []) @
     concat (map (\<lambda>u. map (\<lambda>r. Btn r True (ChangeRole u r)) MEMBER_ROLES @ [Btn ''Remove member'' True (RemoveClick u)]) (ip_members s))"

definition students_view :: "inst_page \<Rightarrow> inst_event widget list" where
  "students_view s =
     map (\<lambda>l. Btn l True (PickLearner l)) ([] # ip_picker s) @
     [Btn ''Link'' (ip_selected s \<noteq> [] \<and> \<not> list_ex is_link (ip_calls s)) LinkClick] @
     (if ip_students s = [] then [Txt ''No learners linked yet.''] else []) @
     map (\<lambda>l. Btn ''Unlink learner'' True (UnlinkClick l)) (ip_students s)"

definition seats_view :: "inst_page \<Rightarrow> inst_event widget list" where
  "seats_view s =
     [Btn (if list_ex is_seats (ip_calls s) then ''Saving'' @ ellipsis else ''Set seat capacity'') (ip_seats s \<noteq> [] \<and> \<not> list_ex is_seats (ip_calls s)) SeatsClick,
      Btn ''Assign seat'' (trim (ip_seatUser s) \<noteq> [] \<and> \<not> list_ex is_seat (ip_calls s)) AssignClick] @
     (if ip_seatRows s = [] then [Txt ''No seats assigned yet.''] else []) @
     map (\<lambda>u. Btn ''Release'' True (ReleaseClick u)) (ip_seatRows s)"

definition not_found_text :: jsstring where
  "not_found_text = ''Institution not found or you don'' @ [CHR 0x27] @ ''t have access.''"

definition page_there :: "inst_page \<Rightarrow> bool" where
  "page_there s = (ip_data s \<noteq> None \<and> \<not> ip_error s)"

definition inst_view :: "inst_page \<Rightarrow> inst_event widget list" where
  "inst_view s =
     (if ip_error s then [Txt not_found_text]
      else if ip_data s = None then []
      else map (\<lambda>t. Btn t True (TabTo t)) INST_TABS @
        (if ip_tab s = ''profile'' then profile_view s
         else if ip_tab s = ''members'' then members_view s
         else if ip_tab s = ''students'' then students_view s else seats_view s))"

text \<open>A field of numbers holds a number or nothing.\<close>

fun inst_guard :: "inst_page \<Rightarrow> inst_event \<Rightarrow> bool" where
  "inst_guard s (InstRead d) = True"
| "inst_guard s InstLost = True"
| "inst_guard s (MembersRead us) = True"
| "inst_guard s (LearnersRead ls) = True"
| "inst_guard s (StudentsRead ls) = True"
| "inst_guard s (SeatsRead us) = True"
| "inst_guard s (EditForm f) = (page_there s \<and> ip_tab s = ''profile'')"
| "inst_guard s (TypeUser v) = (page_there s \<and> ip_tab s = ''members'')"
| "inst_guard s (TypeRef v) = (page_there s \<and> ip_tab s = ''students'')"
| "inst_guard s (TypeSeats v) = (page_there s \<and> ip_tab s = ''plusteams'' \<and> (v = [] \<or> js_number v \<noteq> None))"
| "inst_guard s (TypeSeatUser v) = (page_there s \<and> ip_tab s = ''plusteams'')"
| "inst_guard s (CallDone c) = (c \<in> set (ip_calls s))"
| "inst_guard s (CallLost c) = (c \<in> set (ip_calls s))"
| "inst_guard s (OrphanSettles c) = (c \<in> set (ip_orphans s))"
| "inst_guard s e = (e \<in> set (offered (inst_view s)))"

text \<open>What the success of a call does to the page; every success rereads its list, too.\<close>

fun call_done :: "inst_call \<Rightarrow> inst_page \<Rightarrow> inst_page" where
  "call_done (SaveInst u) s = s\<lparr>ip_saved := True\<rparr>"
| "call_done (Invite u r) s = s\<lparr>ip_user := []\<rparr>"
| "call_done (LinkLearner l r) s = s\<lparr>ip_selected := [], ip_ref := []\<rparr>"
| "call_done (SetSeats n) s = s\<lparr>ip_seats := []\<rparr>"
| "call_done (AssignSeat u) s = s\<lparr>ip_seatUser := []\<rparr>"
| "call_done c s = s"

fun inst_step :: "inst_page \<Rightarrow> inst_event \<Rightarrow> inst_page" where
  "inst_step s (InstRead d) =
     s\<lparr>ip_data := Some d, ip_error := False, ip_loaded := True, ip_form := (if ip_loaded s then ip_form s else inst_form_of d)\<rparr>"
| "inst_step s InstLost = unmount (s\<lparr>ip_error := True\<rparr>)"
| "inst_step s (MembersRead us) = s\<lparr>ip_members := us\<rparr>"
| "inst_step s (LearnersRead ls) = s\<lparr>ip_picker := ls\<rparr>"
| "inst_step s (StudentsRead ls) = s\<lparr>ip_students := ls\<rparr>"
| "inst_step s (SeatsRead us) = s\<lparr>ip_seatRows := us\<rparr>"
| "inst_step s (TabTo t) = (if t = ip_tab s then s else unmount (s\<lparr>ip_tab := t\<rparr>))"
| "inst_step s (EditForm f) = s\<lparr>ip_form := f\<rparr>"
| "inst_step s SaveClick = inst_send (SaveInst (inst_update (ip_form s))) (s\<lparr>ip_saved := False\<rparr>)"
| "inst_step s (TypeUser v) = s\<lparr>ip_user := v\<rparr>"
| "inst_step s (PickRole r) = s\<lparr>ip_role := r\<rparr>"
| "inst_step s InviteClick = inst_send (Invite (ip_user s) (ip_role s)) s"
| "inst_step s (ChangeRole u r) = inst_send (SetRole u r) s"
| "inst_step s (RemoveClick u) = inst_send (RemoveMember u) s"
| "inst_step s (PickLearner l) = s\<lparr>ip_selected := l\<rparr>"
| "inst_step s (TypeRef v) = s\<lparr>ip_ref := v\<rparr>"
| "inst_step s LinkClick = inst_send (LinkLearner (ip_selected s) (ip_ref s)) s"
| "inst_step s (UnlinkClick l) = inst_send (UnlinkLearner l) s"
| "inst_step s (TypeSeats v) = s\<lparr>ip_seats := v\<rparr>"
| "inst_step s SeatsClick = inst_send (SetSeats (js_number (ip_seats s))) s"
| "inst_step s (TypeSeatUser v) = s\<lparr>ip_seatUser := v\<rparr>"
| "inst_step s AssignClick = inst_send (AssignSeat (ip_seatUser s)) s"
| "inst_step s (ReleaseClick u) = inst_send (ReleaseSeat u) s"
| "inst_step s (CallDone c) = call_done c (inst_gone c s)"
| "inst_step s (CallLost c) = inst_gone c s"
| "inst_step s (OrphanSettles c) = s\<lparr>ip_orphans := remove1 c (ip_orphans s)\<rparr>"

section \<open>What is sent\<close>

definition inst_sound :: "inst_call \<Rightarrow> bool" where
  "inst_sound c =
     (case c of
        SaveInst u \<Rightarrow> Some [] \<notin> {id_name u, id_email u, id_phone u, id_website u, id_description u}
      | Invite u r \<Rightarrow> trim u \<noteq> [] \<and> r \<in> set MEMBER_ROLES
      | SetRole u r \<Rightarrow> r \<in> set MEMBER_ROLES
      | LinkLearner l r \<Rightarrow> l \<noteq> []
      | SetSeats n \<Rightarrow> n \<noteq> None
      | AssignSeat u \<Rightarrow> trim u \<noteq> []
      | _ \<Rightarrow> True)"

definition few :: "inst_call list \<Rightarrow> bool" where
  "few cs = (length (filter is_save cs) \<le> 1 \<and> length (filter is_invite cs) \<le> 1 \<and> length (filter is_link cs) \<le> 1 \<and>
     length (filter is_seats cs) \<le> 1 \<and> length (filter is_seat cs) \<le> 1)"

definition inst_inv :: "inst_page \<Rightarrow> bool" where
  "inst_inv s = (few (ip_calls s) \<and> list_all inst_sound (ip_sent s) \<and> ip_role s \<in> set MEMBER_ROLES \<and>
     (ip_seats s = [] \<or> js_number (ip_seats s) \<noteq> None) \<and> ip_tab s \<in> set INST_TABS)"

lemma update_sound: "inst_sound (SaveInst (inst_update f))"
  by (simp add: inst_sound_def inst_update_def or_undefined_def)

lemma inst_offers:
  "TabTo t \<in> set (offered (inst_view s)) \<Longrightarrow> t \<in> set INST_TABS"
  "SaveClick \<in> set (offered (inst_view s)) \<Longrightarrow> \<not> list_ex is_save (ip_calls s)"
  "PickRole r \<in> set (offered (inst_view s)) \<Longrightarrow> r \<in> set MEMBER_ROLES"
  "InviteClick \<in> set (offered (inst_view s)) \<Longrightarrow> trim (ip_user s) \<noteq> [] \<and> \<not> list_ex is_invite (ip_calls s)"
  "ChangeRole u r \<in> set (offered (inst_view s)) \<Longrightarrow> r \<in> set MEMBER_ROLES"
  "LinkClick \<in> set (offered (inst_view s)) \<Longrightarrow> ip_selected s \<noteq> [] \<and> \<not> list_ex is_link (ip_calls s)"
  "SeatsClick \<in> set (offered (inst_view s)) \<Longrightarrow> ip_seats s \<noteq> [] \<and> \<not> list_ex is_seats (ip_calls s)"
  "AssignClick \<in> set (offered (inst_view s)) \<Longrightarrow> trim (ip_seatUser s) \<noteq> [] \<and> \<not> list_ex is_seat (ip_calls s)"
  unfolding inst_view_def profile_view_def members_view_def students_view_def seats_view_def in_offered by (auto split: if_splits)

lemma none_of: "\<not> list_ex P xs \<Longrightarrow> filter P xs = []"
  by (induction xs) auto

lemma few_gone: "few cs \<Longrightarrow> few (remove1 c cs)"
  by (simp add: few_def filter_remove1 length_remove1)

lemma few_unmounted: "few cs \<Longrightarrow> few (filter is_save cs)"
proof -
  have e: "(\<lambda>c. is_save c \<and> is_invite c) = (\<lambda>c. False)" "(\<lambda>c. is_save c \<and> is_link c) = (\<lambda>c. False)"
    "(\<lambda>c. is_save c \<and> is_seats c) = (\<lambda>c. False)" "(\<lambda>c. is_save c \<and> is_seat c) = (\<lambda>c. False)"
    by (rule ext, case_tac c, simp_all)+
  assume "few cs"
  then show ?thesis by (simp add: few_def e)
qed

lemma few_more:
  "few cs \<Longrightarrow> \<not> list_ex is_save cs \<Longrightarrow> few (cs @ [SaveInst u])"
  "few cs \<Longrightarrow> \<not> list_ex is_invite cs \<Longrightarrow> few (cs @ [Invite v r])"
  "few cs \<Longrightarrow> \<not> list_ex is_link cs \<Longrightarrow> few (cs @ [LinkLearner v r])"
  "few cs \<Longrightarrow> \<not> list_ex is_seats cs \<Longrightarrow> few (cs @ [SetSeats n])"
  "few cs \<Longrightarrow> \<not> list_ex is_seat cs \<Longrightarrow> few (cs @ [AssignSeat v])"
  "few cs \<Longrightarrow> few (cs @ [SetRole v r])" "few cs \<Longrightarrow> few (cs @ [RemoveMember v])"
  "few cs \<Longrightarrow> few (cs @ [UnlinkLearner v])" "few cs \<Longrightarrow> few (cs @ [ReleaseSeat v])"
  by (simp_all add: few_def none_of)

lemma inst_inv_unmount: "inst_inv s \<Longrightarrow> inst_inv (unmount s)"
  by (simp add: inst_inv_def unmount_def few_unmounted MEMBER_ROLES_def)

lemma inst_inv_done: "inst_inv s \<Longrightarrow> inst_inv (call_done c s)"
  by (cases c) (simp_all add: inst_inv_def)

lemma inst_inv_gone: "inst_inv s \<Longrightarrow> inst_inv (inst_gone c s)"
  by (simp add: inst_inv_def inst_gone_def few_gone)

lemma inst_inv_step: "inst_inv s \<Longrightarrow> inst_guard s e \<Longrightarrow> inst_inv (inst_step s e)"
proof (cases e)
  case InstLost
  assume i: "inst_inv s"
  then have "inst_inv (s\<lparr>ip_error := True\<rparr>)" by (simp add: inst_inv_def)
  then show ?thesis using InstLost inst_inv_unmount by simp
next
  case (TabTo t)
  assume i: "inst_inv s" "inst_guard s e"
  then have "inst_inv (s\<lparr>ip_tab := t\<rparr>)" using TabTo inst_offers(1) [of t s] by (simp add: inst_inv_def)
  then show ?thesis using TabTo i(1) inst_inv_unmount by simp
next
  case (CallDone c)
  assume "inst_inv s"
  then show ?thesis using CallDone inst_inv_done inst_inv_gone by simp
next
  case (CallLost c)
  assume "inst_inv s"
  then show ?thesis using CallLost inst_inv_gone by simp
next
  case SaveClick
  assume "inst_inv s" "inst_guard s e"
  then show ?thesis using SaveClick inst_offers(2) [of s] by (simp add: inst_inv_def inst_send_def few_more update_sound)
next
  case (PickRole r)
  assume "inst_inv s" "inst_guard s e"
  then show ?thesis using PickRole inst_offers(3) [of r s] by (simp add: inst_inv_def)
next
  case InviteClick
  assume "inst_inv s" "inst_guard s e"
  then show ?thesis using InviteClick inst_offers(4) [of s] by (simp add: inst_inv_def inst_send_def few_more inst_sound_def)
next
  case (ChangeRole u r)
  assume "inst_inv s" "inst_guard s e"
  then show ?thesis using ChangeRole inst_offers(5) [of u r s] by (simp add: inst_inv_def inst_send_def few_more inst_sound_def)
next
  case LinkClick
  assume "inst_inv s" "inst_guard s e"
  then show ?thesis using LinkClick inst_offers(6) [of s] by (simp add: inst_inv_def inst_send_def few_more inst_sound_def)
next
  case SeatsClick
  assume "inst_inv s" "inst_guard s e"
  then show ?thesis using SeatsClick inst_offers(7) [of s] by (auto simp: inst_inv_def inst_send_def few_more inst_sound_def)
next
  case AssignClick
  assume "inst_inv s" "inst_guard s e"
  then show ?thesis using AssignClick inst_offers(8) [of s] by (simp add: inst_inv_def inst_send_def few_more inst_sound_def)
qed (simp_all add: inst_inv_def inst_send_def few_more inst_sound_def)

interpretation institution: machine "\<lambda>s. s = inst_page0" inst_guard inst_step inst_inv
proof unfold_locales
  fix s assume "s = inst_page0"
  then show "inst_inv s" by (simp add: inst_inv_def inst_page0_def few_def MEMBER_ROLES_def INST_TABS_def)
next
  fix s e assume "inst_inv s" "inst_guard s e"
  then show "inst_inv (inst_step s e)" by (rule inst_inv_step)
qed

text \<open>
  C20. What the console sends is complete: an invitation and a change of role carry one of the known
  roles, an invitation and an assigned seat a user that is not blank, a link a learner, the seats are
  a number and no field of an update is the empty text. What is mounted has at most one save, one
  invitation, one link, one change of the seats and one assignment of a seat in flight. The other four
  calls (a change of role, a removal, an unlinking, a release of a seat) are not held back: their
  controls stay enabled, and any number of them can be in flight.
\<close>

theorem institution_safe:
  assumes "reach (\<lambda>s. s = inst_page0) inst_guard inst_step s"
  shows "list_all (\<lambda>c. case c of
        SaveInst u \<Rightarrow> Some [] \<notin> {id_name u, id_email u, id_phone u, id_website u, id_description u}
      | Invite u r \<Rightarrow> trim u \<noteq> [] \<and> r \<in> set MEMBER_ROLES
      | SetRole u r \<Rightarrow> r \<in> set MEMBER_ROLES
      | LinkLearner l r \<Rightarrow> l \<noteq> []
      | SetSeats n \<Rightarrow> n \<noteq> None
      | AssignSeat u \<Rightarrow> trim u \<noteq> []
      | _ \<Rightarrow> True) (ip_sent s) \<and>
    list_all (\<lambda>kind. length (filter kind (ip_calls s)) \<le> 1) [is_save, is_invite, is_link, is_seats, is_seat]"
  using institution.reach_inv [OF assms] by (simp add: inst_inv_def few_def inst_sound_def [abs_def])

text \<open>Two clicks on the removal of a member send two removals, both in flight.\<close>

theorem removals_not_held_back:
  assumes "page_there s" "ip_tab s = ''members''" "u \<in> set (ip_members s)"
  shows "allowed inst_guard inst_step s [RemoveClick u, RemoveClick u] \<and>
    ip_calls (run inst_step s [RemoveClick u, RemoveClick u]) = ip_calls s @ [RemoveMember u, RemoveMember u]"
proof -
  have "RemoveClick u \<in> set (offered (inst_view t))"
    if "page_there t" "ip_tab t = ''members''" "u \<in> set (ip_members t)" for t
    using that unfolding inst_view_def page_there_def members_view_def by auto
  then show ?thesis using assms by (simp add: inst_send_def page_there_def)
qed

theorem removals_not_held_back_witness:
  "let s = run inst_step inst_page0 [InstRead \<lparr>id_name = None, id_email = None, id_phone = None, id_website = None, id_description = None\<rparr>,
      TabTo ''members'', MembersRead [''u1'']] in
   ip_calls (run inst_step s [RemoveClick ''u1'', RemoveClick ''u1'']) = [RemoveMember ''u1'', RemoveMember ''u1'']"
proof -
  let ?s = "run inst_step inst_page0 [InstRead \<lparr>id_name = None, id_email = None, id_phone = None, id_website = None, id_description = None\<rparr>,
      TabTo ''members'', MembersRead [''u1'']]"
  have f: "page_there ?s" "ip_tab ?s = ''members''" "''u1'' \<in> set (ip_members ?s)" "ip_calls ?s = []" by code_simp+
  show ?thesis using removals_not_held_back [OF f(1-3)] f(4) unfolding Let_def by (simp del: run.simps allowed.simps)
qed

definition some_inst :: inst_data where
  "some_inst = \<lparr>id_name = Some ''YK'', id_email = None, id_phone = Some ''080'', id_website = None, id_description = Some ''Old''\<rparr>"

theorem institution_safe_witness:
  "(let s = run inst_step inst_page0 [InstRead some_inst, TabTo ''members'', TypeUser ''u1'', InviteClick] in
     ip_sent s = [Invite ''u1'' ''TEACHER''] \<and>
     list_all (\<lambda>kind. length (filter kind (ip_calls s)) \<le> 1) [is_save, is_invite, is_link, is_seats, is_seat])"
proof -
  let ?es = "[InstRead some_inst, TabTo ''members'', TypeUser ''u1'', InviteClick]"
  have f: "allowed inst_guard inst_step inst_page0 ?es" "ip_sent (run inst_step inst_page0 ?es) = [Invite ''u1'' ''TEACHER'']" by code_simp+
  from institution_safe [OF run_reachable [OF refl f(1)]] f(2) show ?thesis unfolding Let_def by blast
qed

section \<open>The profile\<close>

text \<open>
  The form is filled once, by the first answer; from then on only typing changes it, no answer
  and no change of the tab.
\<close>

theorem form_keeps_typing:
  "(if ip_loaded s then ip_form (inst_step s e) = (case e of EditForm f \<Rightarrow> f | _ \<Rightarrow> ip_form s) \<and> ip_loaded (inst_step s e) else True)"
proof (cases e)
  case (CallDone c)
  then show ?thesis by (cases c) (simp_all add: inst_gone_def)
qed (simp_all add: unmount_def inst_send_def inst_gone_def)

text \<open>
  An update changes the stored institution to what the form shows, where nothing is empty: a
  field that was emptied is not sent, the service keeps it, and the page says that it is saved.
\<close>

theorem update_roundtrip:
  "inst_form_of (updated (inst_update f) d) =
     \<lparr>if_name = (if if_name f = [] then or_empty (id_name d) else if_name f), if_email = (if if_email f = [] then or_empty (id_email d) else if_email f),
      if_phone = (if if_phone f = [] then or_empty (id_phone d) else if_phone f), if_website = (if if_website f = [] then or_empty (id_website d) else if_website f),
      if_description = (if if_description f = [] then or_empty (id_description d) else if_description f)\<rparr>"
  by (simp add: inst_form_of_def updated_def inst_update_def or_undefined_def kept_or_def or_empty_def)

theorem emptied_field_stays:
  assumes "page_there s" "ip_tab s = ''profile''" "ip_calls s = []" "ip_data s = Some d" "ip_form s = inst_form_of d" "ip_loaded s"
  shows "(let u = inst_update (ip_form s\<lparr>if_description := []\<rparr>);
          es = [EditForm (ip_form s\<lparr>if_description := []\<rparr>), SaveClick, CallDone (SaveInst u), InstRead (updated u d)] in
     allowed inst_guard inst_step s es \<and> Txt ''Saved'' \<in> set (inst_view (run inst_step s es)) \<and>
     if_description (ip_form (run inst_step s es)) = [] \<and>
     map_option id_description (ip_data (run inst_step s es)) = Some (id_description d))"
proof -
  have "SaveClick \<in> set (offered (inst_view (s\<lparr>ip_form := f\<rparr>)))" for f
    using assms(1-3) unfolding inst_view_def in_offered by (simp add: page_there_def profile_view_def in_offered)
  then show ?thesis using assms
    by (simp add: Let_def page_there_def inst_send_def inst_gone_def inst_view_def profile_view_def updated_def inst_update_def or_undefined_def kept_or_def inst_form_of_def)
qed

theorem emptied_field_stays_witness:
  "(let s = run inst_step inst_page0 [InstRead some_inst]; u = inst_update (ip_form s\<lparr>if_description := []\<rparr>) in
     map_option id_description (ip_data (run inst_step s
       [EditForm (ip_form s\<lparr>if_description := []\<rparr>), SaveClick, CallDone (SaveInst u), InstRead (updated u some_inst)])) = Some (Some ''Old''))"
proof -
  let ?s = "run inst_step inst_page0 [InstRead some_inst]"
  have f: "page_there ?s" "ip_tab ?s = ''profile''" "ip_calls ?s = []" "ip_data ?s = Some some_inst" "ip_form ?s = inst_form_of some_inst" "ip_loaded ?s"
    "id_description some_inst = Some ''Old''" by code_simp+
  from emptied_field_stays [OF f(1-6)] f(7) show ?thesis unfolding Let_def by metis
qed

section \<open>Answers and tabs\<close>

text \<open>
  A failed reading of the institution, as after every save, hides the page behind the words
  that it was not found, although its data are there; the panel's fields are lost, the form is
  kept and comes back with the next answer.
\<close>

theorem failed_reading_hides_page:
  assumes "page_there s"
  shows "inst_view (inst_step s InstLost) = [Txt not_found_text] \<and> ip_data (inst_step s InstLost) \<noteq> None \<and>
     ip_user (inst_step s InstLost) = [] \<and> ip_form (inst_step s InstLost) = ip_form s \<and>
     page_there (run inst_step s [InstLost, InstRead d])"
  using assms by (simp add: inst_view_def unmount_def page_there_def)

theorem failed_reading_hides_page_witness:
  "inst_view (run inst_step inst_page0 [InstRead some_inst, InstLost]) = [Txt not_found_text]"
proof -
  have "page_there (run inst_step inst_page0 [InstRead some_inst])" by code_simp
  from failed_reading_hides_page [OF this] show ?thesis by simp
qed

text \<open>
  A panel that was left and opened again does not know its calls: the same user can be invited
  twice while the first invitation is on its way.
\<close>

theorem reopened_panel_invites_twice:
  assumes "page_there s" "ip_tab s = ''members''" "\<not> list_ex is_invite (ip_calls s)" "trim u \<noteq> []"
  shows "(let es = [TypeUser u, InviteClick, TabTo ''students'', TabTo ''members'', TypeUser u, InviteClick] in
     allowed inst_guard inst_step s es \<and> ip_sent (run inst_step s es) = ip_sent s @ [Invite u (ip_role s), Invite u ''TEACHER''])"
proof -
  have t: "TabTo t \<in> set (offered (inst_view s'))" if "page_there s'" "t \<in> set INST_TABS" for s' t
    using that unfolding inst_view_def in_offered by (auto simp: page_there_def in_offered)
  have i: "InviteClick \<in> set (offered (inst_view s'))"
    if "page_there s'" "ip_tab s' = ''members''" "trim (ip_user s') \<noteq> []" "\<not> list_ex is_invite (ip_calls s')" for s'
    using that unfolding inst_view_def in_offered by (simp add: page_there_def members_view_def in_offered)
  have n: "\<not> list_ex is_invite (filter is_save cs)" for cs
    by (induction cs) (auto, metis is_save.elims(2) is_invite.simps(2))
  show ?thesis using assms by (simp add: Let_def t i n inst_send_def unmount_def page_there_def INST_TABS_def)
qed

theorem reopened_panel_invites_twice_witness:
  "ip_sent (run inst_step (run inst_step inst_page0 [InstRead some_inst, TabTo ''members'']) [TypeUser ''u1'', InviteClick, TabTo ''students'', TabTo ''members'', TypeUser ''u1'', InviteClick])
     = [Invite ''u1'' ''TEACHER'', Invite ''u1'' ''TEACHER'']"
proof -
  let ?s = "run inst_step inst_page0 [InstRead some_inst, TabTo ''members'']"
  have f: "page_there ?s" "ip_tab ?s = ''members''" "\<not> list_ex is_invite (ip_calls ?s)" "trim ''u1'' \<noteq> []" "ip_sent ?s = []" "ip_role ?s = ''TEACHER''" by code_simp+
  from reopened_panel_invites_twice [OF f(1-4)] f(5,6) show ?thesis unfolding Let_def by (simp del: run.simps)
qed

text \<open>A learner that is picked while the last link is on its way is forgotten when it comes back.\<close>

theorem late_link_forgets_pick:
  assumes "LinkLearner l r \<in> set (ip_calls s)" "page_there s" "ip_tab s = ''students''" "k \<in> set (ip_picker s)"
  shows "allowed inst_guard inst_step s [PickLearner k, CallDone (LinkLearner l r)] \<and>
     ip_selected (run inst_step s [PickLearner k, CallDone (LinkLearner l r)]) = []"
proof -
  have "PickLearner k \<in> set (offered (inst_view s))"
    using assms(2-4) unfolding inst_view_def in_offered by (auto simp: page_there_def students_view_def in_offered)
  then show ?thesis using assms by (simp add: inst_gone_def)
qed

theorem late_link_forgets_pick_witness:
  "ip_selected (run inst_step (run inst_step inst_page0 [InstRead some_inst, TabTo ''students'', LearnersRead [''a'', ''b''], PickLearner ''a'', LinkClick])
     [PickLearner ''b'', CallDone (LinkLearner ''a'' [])]) = []"
proof -
  let ?s = "run inst_step inst_page0 [InstRead some_inst, TabTo ''students'', LearnersRead [''a'', ''b''], PickLearner ''a'', LinkClick]"
  have "LinkLearner ''a'' [] \<in> set (ip_calls ?s)" "page_there ?s" "ip_tab ?s = ''students''" "''b'' \<in> set (ip_picker ?s)" by code_simp+
  from late_link_forgets_pick [OF this] show ?thesis by blast
qed

end
