(* ===== verification/LearnHubs.thy ===== *)
theory LearnHubs
  imports PhoneHome
begin

text \<open>
  The two learning hubs: the learner's on the web (\<open>client/app/lms/page.tsx\<close>) and the phone's
  (\<open>mobile/app/lms.tsx\<close>), whose course cards are \<open>phone_courses\<close> of \<open>PhoneHome\<close>. The web page asks
  for the titles of cohorts while it renders: each event that changes what it shows ends in a
  render. A load of the phone carries the learner of its render and what it waits for.
\<close>

section \<open>The web hub\<close>

record hub_lesson =
  hl_title :: jsstring
  hl_cohort :: "jsstring option"
  hl_status :: jsstring

definition hub_key :: "hub_lesson \<Rightarrow> jsstring" where
  "hub_key l = (case hl_cohort l of None \<Rightarrow> ''none'' | Some c \<Rightarrow> c)"

definition web_courses :: "hub_lesson list \<Rightarrow> (jsstring \<times> hub_lesson list) list" where
  "web_courses ls = into_groups hub_key ls []"

record web_hub =
  wh_lessons :: "hub_lesson list"
  wh_meta :: "(jsstring \<times> jsstring \<times> jsstring) list" \<comment> \<open>title and address by cohort\<close>
  wh_calls :: "jsstring list"
  wh_sent :: "jsstring list"

definition web_hub0 :: web_hub where
  "web_hub0 = \<lparr>wh_lessons = [], wh_meta = [], wh_calls = [], wh_sent = []\<rparr>"

text \<open>\<open>courses.forEach((c) => void loadCohort(c.cohortId))\<close> in the body of the component.\<close>

definition untitled :: "web_hub \<Rightarrow> jsstring list" where
  "untitled s = filter (\<lambda>c. c \<noteq> ''none'' \<and> map_of (wh_meta s) c = None) (map fst (web_courses (wh_lessons s)))"

definition hub_render :: "web_hub \<Rightarrow> web_hub" where
  "hub_render s = s\<lparr>wh_calls := wh_calls s @ untitled s, wh_sent := wh_sent s @ untitled s\<rparr>"

text \<open>\<open>CohortRead c t i\<close>: the cohort asked for under \<open>c\<close> has the title \<open>t\<close> and the id \<open>i\<close>.\<close>

datatype web_hub_event = HubLessonsRead "hub_lesson list" | OtherRead | CohortRead jsstring jsstring jsstring | CohortLost jsstring

fun web_hub_guard :: "web_hub \<Rightarrow> web_hub_event \<Rightarrow> bool" where
  "web_hub_guard s (HubLessonsRead ls) = True"
| "web_hub_guard s OtherRead = True"
| "web_hub_guard s (CohortRead c t i) = (c \<in> set (wh_calls s))"
| "web_hub_guard s (CohortLost c) = (c \<in> set (wh_calls s))"

fun web_hub_step :: "web_hub \<Rightarrow> web_hub_event \<Rightarrow> web_hub" where
  "web_hub_step s (HubLessonsRead ls) = hub_render (s\<lparr>wh_lessons := ls\<rparr>)"
| "web_hub_step s OtherRead = hub_render s"
| "web_hub_step s (CohortRead c t i) =
     hub_render (s\<lparr>wh_meta := put_answer c (t, ''/lms/courses/'' @ i) (wh_meta s), wh_calls := remove1 c (wh_calls s)\<rparr>)"
| "web_hub_step s (CohortLost c) =
     hub_render (s\<lparr>wh_meta := put_answer c (''My course'', ''#'') (wh_meta s), wh_calls := remove1 c (wh_calls s)\<rparr>)"

text \<open>A course card: title, the lesson it names, completed lessons, percentage and address.\<close>

definition hub_title :: "web_hub \<Rightarrow> jsstring \<Rightarrow> jsstring" where
  "hub_title s c = (case map_of (wh_meta s) c of Some (t, h) \<Rightarrow> t | None \<Rightarrow> ''My course'')"

definition hub_done :: "hub_lesson list \<Rightarrow> nat" where
  "hub_done ls = length (filter (\<lambda>l. hl_status l = ''COMPLETED'') ls)"

definition hub_card :: "web_hub \<Rightarrow> jsstring \<times> hub_lesson list \<Rightarrow> jsstring \<times> hub_lesson option \<times> nat \<times> int \<times> jsstring" where
  "hub_card s c =
     (hub_title s (fst c), (case snd c of [] \<Rightarrow> None | l # _ \<Rightarrow> Some l), hub_done (snd c), percent (hub_done (snd c)) (length (snd c)),
      (if fst c \<noteq> ''none'' then ''/lms/courses/'' @ fst c else ''/lms''))"

section \<open>Assignments and figures\<close>

record hub_submission =
  hs_assignment :: jsstring
  hs_score :: "rat option"

datatype assignment_label = IsGraded rat | IsSubmitted | IsPending

definition label_of :: "hub_submission list \<Rightarrow> jsstring \<Rightarrow> assignment_label" where
  "label_of subs a =
     (case find (\<lambda>s. hs_assignment s = a) subs of
        None \<Rightarrow> IsPending
      | Some s \<Rightarrow> (case hs_score s of Some x \<Rightarrow> IsGraded x | None \<Rightarrow> IsSubmitted))"

definition hub_pending :: "hub_submission list \<Rightarrow> jsstring list \<Rightarrow> nat" where
  "hub_pending subs as = length (filter (\<lambda>a. a \<notin> set (map hs_assignment subs)) as)"

definition hub_graded :: "hub_submission list \<Rightarrow> nat" where
  "hub_graded subs = length (filter (\<lambda>s. hs_score s \<noteq> None) subs)"

definition hub_passed :: "jsstring list \<Rightarrow> nat" where
  "hub_passed statuses = length (filter (\<lambda>q. q = ''PASSED'' \<or> q = ''GRADED'') statuses)"

text \<open>The four figures; \<open>None\<close> is the dash.\<close>

definition hub_figures :: "nat \<Rightarrow> rat option \<Rightarrow> hub_submission list \<Rightarrow> jsstring list \<Rightarrow> jsstring list \<Rightarrow> (jsstring \<times> int option) list" where
  "hub_figures courses rate subs as statuses =
     [(''Active courses'', if courses \<noteq> 0 then Some (int courses) else None),
      (''Attendance'', if courses \<noteq> 0 then map_option js_round rate else None),
      (''Assignments due'', if courses \<noteq> 0 then Some (int (hub_pending subs as)) else None),
      (''Quizzes passed'', if courses \<noteq> 0 then Some (int (hub_passed statuses)) else None)]"

section \<open>The phone's hub\<close>

datatype hub_wait = AskMe | AskTutor | AskLearner | AskTitles "phone_lesson list"

record phone_hub =
  hb_learner :: "jsstring option"
  hb_role :: "lms_role option"
  hb_courses :: "phone_course list"
  hb_loading :: bool
  hb_error :: "jsstring option"
  hb_watched :: "jsstring list" \<comment> \<open>the lessons that were watched\<close>
  hb_attempts :: "attempt list"
  hb_exams :: nat
  hb_tutorLessons :: "phone_lesson list"
  hb_calls :: "(jsstring option \<times> hub_wait) list"
  hb_sent :: "jsstring list"

definition hub_load :: "phone_hub \<Rightarrow> phone_hub" where
  "hub_load s = s\<lparr>hb_loading := True, hb_error := None, hb_calls := hb_calls s @ [(hb_learner s, AskMe)], hb_sent := hb_sent s @ [''/auth/me'']\<rparr>"

definition phone_hub0 :: "jsstring option \<Rightarrow> phone_hub" where
  "phone_hub0 l = hub_load \<lparr>hb_learner = l, hb_role = None, hb_courses = [], hb_loading = True, hb_error = None, hb_watched = [], hb_attempts = [],
     hb_exams = 0, hb_tutorLessons = [], hb_calls = [], hb_sent = []\<rparr>"

text \<open>
  \<open>HubMe n None\<close> is a failure, caught as a user without roles; the tutor's two reads and a
  learner's progress and attempts are caught, too, as empty lists; titles are \<open>allSettled\<close>.
\<close>

datatype phone_hub_event =
    HubFocus | HubLearner "jsstring option" | HubMe nat "jsstring list option" | HubTutor nat "phone_lesson list" nat
  | HubLessons nat "phone_lesson list" "jsstring list" "attempt list" | HubLost nat js_exn | HubTitles nat "(jsstring \<times> jsstring) list"

definition waits_for :: "phone_hub \<Rightarrow> nat \<Rightarrow> (hub_wait \<Rightarrow> bool) \<Rightarrow> bool" where
  "waits_for s n p = (n < length (hb_calls s) \<and> p (snd (hb_calls s ! n)))"

fun phone_hub_guard :: "phone_hub \<Rightarrow> phone_hub_event \<Rightarrow> bool" where
  "phone_hub_guard s HubFocus = True"
| "phone_hub_guard s (HubLearner l) = True"
| "phone_hub_guard s (HubMe n r) = waits_for s n (\<lambda>w. w = AskMe)"
| "phone_hub_guard s (HubTutor n ls k) = waits_for s n (\<lambda>w. w = AskTutor)"
| "phone_hub_guard s (HubLessons n ls ws as) = waits_for s n (\<lambda>w. w = AskLearner)"
| "phone_hub_guard s (HubLost n e) = waits_for s n (\<lambda>w. w = AskLearner)"
| "phone_hub_guard s (HubTitles n ts) = waits_for s n (\<lambda>w. case w of AskTitles ls \<Rightarrow> True | _ \<Rightarrow> False)"

text \<open>A tutor's lessons are copied into the cards as scheduled ones.\<close>

definition tutor_rows :: "phone_lesson list \<Rightarrow> phone_lesson list" where
  "tutor_rows ls = map (\<lambda>l. l\<lparr>pl_status := ''SCHEDULED''\<rparr>) ls"

definition title_paths :: "phone_lesson list \<Rightarrow> jsstring list" where
  "title_paths ls = map (\<lambda>c. ''/cohorts/'' @ c) (filter (\<lambda>c. c \<noteq> ''independent'') (map fst (into_groups course_key ls [])))"

definition advance :: "nat \<Rightarrow> hub_wait \<Rightarrow> phone_hub \<Rightarrow> phone_hub" where
  "advance n w s = s\<lparr>hb_calls := (hb_calls s)[n := (fst (hb_calls s ! n), w)]\<rparr>"

definition hub_done_load :: "nat \<Rightarrow> phone_hub \<Rightarrow> phone_hub" where
  "hub_done_load n s = s\<lparr>hb_loading := False, hb_calls := drop_call n (hb_calls s)\<rparr>"

fun phone_hub_step :: "phone_hub \<Rightarrow> phone_hub_event \<Rightarrow> phone_hub" where
  "phone_hub_step s HubFocus = hub_load s"
| "phone_hub_step s (HubLearner l) = (if l = hb_learner s then s else hub_load (s\<lparr>hb_learner := l\<rparr>))"
| "phone_hub_step s (HubMe n r) =
     (let roles = (case r of None \<Rightarrow> [] | Some rs \<Rightarrow> rs); role = lms_role roles; l = fst (hb_calls s ! n); s' = s\<lparr>hb_role := Some role\<rparr> in
      case role of
        LmsOther \<Rightarrow> hub_done_load n (s'\<lparr>hb_courses := []\<rparr>)
      | LmsTutor \<Rightarrow> advance n AskTutor (s'\<lparr>hb_sent := hb_sent s @ lms_paths roles l\<rparr>)
      | LmsStudent \<Rightarrow> advance n AskLearner (s'\<lparr>hb_sent := hb_sent s @ lms_paths roles l\<rparr>))"
| "phone_hub_step s (HubTutor n ls k) =
     advance n (AskTitles (tutor_rows ls)) (s\<lparr>hb_tutorLessons := ls, hb_exams := k, hb_sent := hb_sent s @ title_paths (tutor_rows ls)\<rparr>)"
| "phone_hub_step s (HubLessons n ls ws as) =
     advance n (AskTitles ls) (s\<lparr>hb_watched := ws, hb_attempts := as, hb_sent := hb_sent s @ title_paths ls\<rparr>)"
| "phone_hub_step s (HubLost n e) = hub_done_load n (s\<lparr>hb_error := Some (message_or ''Could not load your courses'' e)\<rparr>)"
| "phone_hub_step s (HubTitles n ts) =
     hub_done_load n (s\<lparr>hb_courses := (case snd (hb_calls s ! n) of AskTitles ls \<Rightarrow> phone_courses (map_of ts) ls | _ \<Rightarrow> hb_courses s)\<rparr>)"

text \<open>What is below the first card.\<close>

datatype hub_body = Skeletons | LoadError jsstring | NoCohorts | NotALearner | NoCourses | Cards "phone_course list"

definition hub_is_tutor :: "phone_hub \<Rightarrow> bool" where
  "hub_is_tutor s = (hb_role s = Some LmsTutor)"

definition hub_shows :: "phone_hub \<Rightarrow> hub_body" where
  "hub_shows s =
     (if hb_loading s then Skeletons
      else case hb_error s of
             Some e \<Rightarrow> if e \<noteq> [] then LoadError e
               else (if hb_courses s \<noteq> [] then Cards (hb_courses s) else if hub_is_tutor s then NoCohorts else if hb_role s = Some LmsOther then NotALearner else NoCourses)
           | None \<Rightarrow> (if hb_courses s \<noteq> [] then Cards (hb_courses s) else if hub_is_tutor s then NoCohorts else if hb_role s = Some LmsOther then NotALearner else NoCourses))"

definition hub_lessons :: "phone_hub \<Rightarrow> phone_lesson list" where
  "hub_lessons s = concat (map co_lessons (hb_courses s))"

definition is_watched :: "phone_hub \<Rightarrow> phone_lesson \<Rightarrow> bool" where
  "is_watched s l = (pl_id l \<in> set (hb_watched s))"

definition hub_watched_pct :: "phone_hub \<Rightarrow> int" where
  "hub_watched_pct s = watchedPct (hub_lessons s) (\<lambda>i. i \<in> set (hb_watched s))"

definition hub_next :: "int \<Rightarrow> phone_hub \<Rightarrow> phone_lesson option" where
  "hub_next now s = (case upcoming_from now (hub_lessons s) of [] \<Rightarrow> None | l # _ \<Rightarrow> Some l)"

text \<open>A card: the lesson it leads to, the lessons watched, the percentage and the caption.\<close>

definition card_next :: "phone_hub \<Rightarrow> phone_course \<Rightarrow> phone_lesson option" where
  "card_next s c =
     (case find (\<lambda>l. \<not> is_watched s l) (co_lessons c) of
        Some l \<Rightarrow> Some l
      | None \<Rightarrow> (case co_lessons c of [] \<Rightarrow> None | l # _ \<Rightarrow> Some l))"

definition card_done :: "phone_hub \<Rightarrow> phone_course \<Rightarrow> nat" where
  "card_done s c = length (filter (is_watched s) (co_lessons c))"

definition card_pct :: "phone_hub \<Rightarrow> phone_course \<Rightarrow> int" where
  "card_pct s c = percent (card_done s c) (max (length (co_lessons c)) 1)"

datatype card_caption = CompletedLastLesson | NextClass | UpNext

definition card_caption :: "phone_hub \<Rightarrow> phone_course \<Rightarrow> card_caption" where
  "card_caption s c =
     (if \<not> hub_is_tutor s \<and> card_done s c = length (co_lessons c) then CompletedLastLesson else if hub_is_tutor s then NextClass else UpNext)"

text \<open>The figures and the tiles, with their addresses.\<close>

definition hub_metrics :: "int \<Rightarrow> phone_hub \<Rightarrow> (jsstring \<times> jsstring \<times> jsstring) list" where
  "hub_metrics now s =
     (if hb_role s = Some LmsOther then []
      else if hub_is_tutor s
      then [(''THIS WEEK'', show_nat (hub_week now (hb_tutorLessons s)), ''/tutor/schedule''), (''LESSONS'', show_nat (length (hub_lessons s)), ''/lms''),
            (''EXAMS'', show_nat (hb_exams s), ''/tutor/exams''), (''COHORTS'', show_nat (length (hb_courses s)), ''/lms'')]
      else [(''COURSES'', show_nat (length (hb_courses s)), ''/lms''), (''LESSONS'', show_nat (length (hub_lessons s)), ''/lms''),
            (''WATCHED'', show_int (hub_watched_pct s) @ ''%'', ''/lms''),
            (''PRACTICE AVG'', (case avgScore (hb_attempts s) of None \<Rightarrow> em_dash | Some n \<Rightarrow> show_int n @ ''%''), ''/practice'')])"

definition hub_tiles :: "phone_hub \<Rightarrow> jsstring list" where
  "hub_tiles s =
     (if hb_role s = Some LmsOther then []
      else if hub_is_tutor s then [''/tutor/schedule'', ''/tutor/messages'', ''/tutor/earnings'', ''/tutor/exams'']
      else [''/quizzes'', ''/progress'', ''/messages'', ''/search''])"

section \<open>Titles asked for again\<close>

text \<open>Answering the cohorts \<open>cs\<close> that are still untitled, one render after each.\<close>

definition title_run :: "(jsstring \<Rightarrow> jsstring) \<Rightarrow> jsstring list \<Rightarrow> web_hub_event list" where
  "title_run t cs = map (\<lambda>c. CohortRead c (t c) c) cs"

lemma untitled_answer:
  assumes "untitled s = c # cs" "distinct (c # cs)"
  shows "untitled (s\<lparr>wh_meta := put_answer c v (wh_meta s)\<rparr>) = cs"
proof -
  have "untitled (s\<lparr>wh_meta := put_answer c v (wh_meta s)\<rparr>) = filter (\<lambda>d. d \<noteq> c) (untitled s)"
    unfolding untitled_def by (auto simp: map_of_put_answer intro: filter_cong)
  moreover have "filter (\<lambda>d. d \<noteq> c) cs = cs" using assms(2) by (auto simp: filter_id_conv)
  ultimately show ?thesis using assms(1) by simp
qed

lemma untitled_fields [simp]: "untitled (wh_calls_update f s) = untitled s" "untitled (wh_sent_update f s) = untitled s"
  by (simp_all add: untitled_def)

lemma answers_resend:
  "untitled s = cs \<Longrightarrow> distinct cs \<Longrightarrow> set cs \<subseteq> set (wh_calls s) \<Longrightarrow>
   allowed web_hub_guard web_hub_step s (title_run t cs) \<and>
   2 * length (wh_sent (run web_hub_step s (title_run t cs))) = 2 * length (wh_sent s) + length cs * (length cs - 1) \<and>
   untitled (run web_hub_step s (title_run t cs)) = []"
proof (induction cs arbitrary: s)
  case Nil
  then show ?case by (simp add: title_run_def)
next
  case (Cons c cs)
  let ?s = "web_hub_step s (CohortRead c (t c) c)"
  have u: "untitled (s\<lparr>wh_meta := put_answer c (t c, ''/lms/courses/'' @ c) (wh_meta s)\<rparr>) = cs"
    using Cons.prems(1,2) by (rule untitled_answer)
  have s: "untitled ?s = cs" "wh_sent ?s = wh_sent s @ cs" "set cs \<subseteq> set (wh_calls ?s)"
    using u by (simp_all add: hub_render_def)
  have "distinct cs" "c \<in> set (wh_calls s)" using Cons.prems(2,3) by auto
  then have ih: "allowed web_hub_guard web_hub_step ?s (title_run t cs)"
    "2 * length (wh_sent (run web_hub_step ?s (title_run t cs))) = 2 * length (wh_sent ?s) + length cs * (length cs - 1)"
    "untitled (run web_hub_step ?s (title_run t cs)) = []"
    using Cons.IH [OF s(1) _ s(3)] by auto
  have "2 * length (wh_sent ?s) = 2 * length (wh_sent s) + 2 * length cs" using s(2) by simp
  then have "2 * length (wh_sent (run web_hub_step ?s (title_run t cs))) = 2 * length (wh_sent s) + length (c # cs) * (length (c # cs) - 1)"
    using ih(2) by (cases cs) (simp_all add: algebra_simps)
  then show ?case using ih(1,3) \<open>c \<in> set (wh_calls s)\<close> by (simp add: title_run_def del: web_hub_step.simps)
qed

text \<open>
  The titles of \<open>n\<close> cohorts are asked for n (n + 1) / 2 times when they arrive one by one: each
  render asks again for those that are still on their way.
\<close>

theorem titles_asked_again:
  assumes "''none'' \<notin> hub_key ` set ls"
  shows "(let s = web_hub_step web_hub0 (HubLessonsRead ls); n = length (web_courses ls) in
     allowed web_hub_guard web_hub_step s (title_run t (map fst (web_courses ls))) \<and>
     2 * length (wh_sent (run web_hub_step s (title_run t (map fst (web_courses ls))))) = n * (n + 1))"
proof -
  let ?s = "web_hub_step web_hub0 (HubLessonsRead ls)"
  let ?cs = "map fst (web_courses ls)"
  have p: "distinct ?cs" "set ?cs = hub_key ` set ls" using into_groups_partition [of hub_key ls] by (auto simp: web_courses_def)
  then have u: "untitled (web_hub0\<lparr>wh_lessons := ls\<rparr>) = ?cs" using assms unfolding untitled_def web_hub0_def by (simp add: filter_id_conv) (metis image_eqI)
  then have s: "untitled ?s = ?cs" "wh_sent ?s = ?cs" "set ?cs \<subseteq> set (wh_calls ?s)"
    by (simp_all add: hub_render_def, simp_all add: web_hub0_def)
  have a: "allowed web_hub_guard web_hub_step ?s (title_run t ?cs)"
    "2 * length (wh_sent (run web_hub_step ?s (title_run t ?cs))) = 2 * length (wh_sent ?s) + length ?cs * (length ?cs - 1)"
    using answers_resend [OF s(1) p(1) s(3), of t] by blast+
  have "2 * length (wh_sent ?s) + length ?cs * (length ?cs - 1) = length (web_courses ls) * (length (web_courses ls) + 1)"
    using s(2) by (cases "web_courses ls") (simp_all add: algebra_simps)
  then show ?thesis using a by (simp add: Let_def del: web_hub_step.simps)
qed

definition two_cohorts :: "hub_lesson list" where
  "two_cohorts = [\<lparr>hl_title = ''a'', hl_cohort = Some ''x'', hl_status = []\<rparr>, \<lparr>hl_title = ''b'', hl_cohort = Some ''y'', hl_status = []\<rparr>]"

theorem titles_asked_again_witness:
  "2 * length (wh_sent (run web_hub_step (web_hub_step web_hub0 (HubLessonsRead two_cohorts)) (title_run id [''x'', ''y'']))) = 6"
proof -
  have "''none'' \<notin> hub_key ` set two_cohorts" "map fst (web_courses two_cohorts) = [''x'', ''y'']" "length (web_courses two_cohorts) = 2" by code_simp+
  then show ?thesis using titles_asked_again [of two_cohorts id] by (simp add: Let_def del: run.simps web_hub_step.simps)
qed

text \<open>
  Of two answers for one cohort the later counts: a second read that fails takes the title away
  that the first had brought.
\<close>

theorem late_failure_takes_title:
  assumes "wh_calls s = c # cs" "c \<in> set cs"
  shows "allowed web_hub_guard web_hub_step s [CohortRead c t i, CohortLost c] \<and>
     hub_title (run web_hub_step s [CohortRead c t i]) c = t \<and> hub_title (run web_hub_step s [CohortRead c t i, CohortLost c]) c = ''My course''"
  using assms by (simp add: hub_render_def hub_title_def map_of_put_answer)

theorem late_failure_takes_title_witness:
  "hub_title (run web_hub_step (run web_hub_step web_hub0 [HubLessonsRead (take 1 two_cohorts), OtherRead]) [CohortRead ''x'' ''Maths'' ''x'', CohortLost ''x'']) ''x'' = ''My course''"
proof -
  let ?s = "run web_hub_step web_hub0 [HubLessonsRead (take 1 two_cohorts), OtherRead]"
  have "wh_calls ?s = ''x'' # [''x'']" "''x'' \<in> set [''x'']" by code_simp+
  from late_failure_takes_title [OF this, of "''Maths''" "''x''"] show ?thesis by blast
qed

section \<open>Figures of the web hub\<close>

text \<open>
  The cards partition the lessons; their percentages lie within 0 and 100 and their addresses
  are those of the cohorts.
\<close>

theorem hub_cards_partition:
  "distinct (map fst (web_courses ls)) \<and> list_all (\<lambda>(c, xs). xs = filter (\<lambda>l. hub_key l = c) ls) (web_courses ls) \<and>
   list_all (\<lambda>(t, l, d, p, h). 0 \<le> p \<and> p \<le> 100) (map (hub_card s) (web_courses ls))"
proof -
  have "0 \<le> percent (hub_done xs) (length xs) \<and> percent (hub_done xs) (length xs) \<le> 100" for xs
    by (rule percent_range) (simp add: hub_done_def)
  then show ?thesis using into_groups_partition [of hub_key ls] by (auto simp: web_courses_def hub_card_def list_all_iff)
qed

text \<open>
  The figure of assignments due counts the rows that say pending, whatever was submitted. The
  figure of graded ones counts submissions, and is never below the rows that show a grade.
\<close>

theorem due_counts_pending_rows:
  "hub_pending subs as = length (filter (\<lambda>a. label_of subs a = IsPending) as) \<and>
   (if distinct as then length (filter (\<lambda>a. case label_of subs a of IsGraded x \<Rightarrow> True | _ \<Rightarrow> False) as) \<le> hub_graded subs else True)"
proof -
  have n: "(a \<notin> set (map hs_assignment subs)) = (label_of subs a = IsPending)" for a
    proof (cases "find (\<lambda>s. hs_assignment s = a) subs")
    case None
    then have "a \<notin> set (map hs_assignment subs)" by (auto simp: find_None_iff)
    then show ?thesis using None by (simp add: label_of_def)
  next
    case (Some s)
    then have "a \<in> set (map hs_assignment subs)" by (auto simp: find_Some_iff)
    then show ?thesis using Some by (simp add: label_of_def split: option.split)
  qed
  have "length (filter (\<lambda>a. case label_of subs a of IsGraded x \<Rightarrow> True | _ \<Rightarrow> False) as) \<le> hub_graded subs" if "distinct as"
  proof -
    let ?g = "filter (\<lambda>a. case label_of subs a of IsGraded x \<Rightarrow> True | _ \<Rightarrow> False) as"
    let ?f = "filter (\<lambda>s. hs_score s \<noteq> None) subs"
    have "a \<in> hs_assignment ` set ?f" if g: "a \<in> set ?g" for a
    proof -
      obtain x where "label_of subs a = IsGraded x" using g by (cases "label_of subs a") auto
      then obtain s where "find (\<lambda>s. hs_assignment s = a) subs = Some s" "hs_score s = Some x"
        by (auto simp: label_of_def split: option.splits)
      then show ?thesis by (auto simp: find_Some_iff image_iff intro: nth_mem)
    qed
    then have "card (set ?g) \<le> card (hs_assignment ` set ?f)" by (intro card_mono) auto
    also have "\<dots> \<le> length ?f" using card_image_le [of "set ?f" hs_assignment] card_length [of ?f] by simp
    finally show ?thesis using distinct_card [of ?g] that by (simp add: hub_graded_def)
  qed
  then show ?thesis unfolding hub_pending_def n by simp
qed

section \<open>Loading the phone's hub\<close>

text \<open>
  A load that nothing overtakes ends with the cards of the learner's lessons, without an error,
  as \<open>lms_courses\<close> says for the role.
\<close>

theorem hub_load_shows_courses:
  assumes "hb_calls s = []" "''TUTOR'' \<notin> set roles" "''STUDENT'' \<in> set roles"
  shows "(let es = [HubFocus, HubMe 0 (Some roles), HubLessons 0 ls ws as, HubTitles 0 ts]; s' = run phone_hub_step s es in
     allowed phone_hub_guard phone_hub_step s es \<and> hb_courses s' = lms_courses roles (map_of ts) ls \<and> \<not> hb_loading s' \<and> hb_error s' = None \<and>
     hb_sent s' = hb_sent s @ [''/auth/me''] @ lms_paths roles (hb_learner s) @ title_paths ls)"
  using assms by (simp add: Let_def hub_load_def lms_role_def lms_courses_def advance_def hub_done_load_def waits_for_def drop_call_def)

theorem hub_load_shows_courses_witness:
  "\<not> hb_loading (run phone_hub_step (run phone_hub_step (phone_hub0 None) [HubMe 0 None]) [HubFocus, HubMe 0 (Some [''STUDENT'']), HubLessons 0 [] [] [], HubTitles 0 []])"
proof -
  have "hb_calls (run phone_hub_step (phone_hub0 None) [HubMe 0 None]) = []" "''TUTOR'' \<notin> set [''STUDENT'']" "''STUDENT'' \<in> set [''STUDENT'']" by code_simp+
  from hub_load_shows_courses [OF this, of "[]" "[]" "[]" "[]"] show ?thesis unfolding Let_def by blast
qed

text \<open>
  A failed read of the account is taken for a user without roles: the courses are emptied and
  the learner is told to switch to a learner view, without a word of the failure.
\<close>

theorem offline_reads_as_other:
  assumes "hb_calls s = []"
  shows "allowed phone_hub_guard phone_hub_step s [HubFocus, HubMe 0 None] \<and>
     hb_courses (run phone_hub_step s [HubFocus, HubMe 0 None]) = [] \<and> hub_shows (run phone_hub_step s [HubFocus, HubMe 0 None]) = NotALearner"
  using assms by (simp add: Let_def hub_load_def lms_role_def hub_done_load_def waits_for_def drop_call_def hub_shows_def hub_is_tutor_def)

theorem offline_reads_as_other_witness:
  "hub_shows (run phone_hub_step (run phone_hub_step (phone_hub0 None) [HubMe 0 (Some [''STUDENT'']), HubLessons 0 [] [] [], HubTitles 0 []]) [HubFocus, HubMe 0 None]) = NotALearner"
proof -
  have "hb_calls (run phone_hub_step (phone_hub0 None) [HubMe 0 (Some [''STUDENT'']), HubLessons 0 [] [] [], HubTitles 0 []]) = []" by code_simp
  from offline_reads_as_other [OF this] show ?thesis by blast
qed

text \<open>
  Of two loads that overlap, the failure of one stays on the screen although the other has
  brought the courses.
\<close>

theorem failure_hides_courses:
  assumes "hb_calls s = []" "''TUTOR'' \<notin> set roles" "''STUDENT'' \<in> set roles" "message_or ''Could not load your courses'' e \<noteq> []"
  shows "(let es = [HubFocus, HubFocus, HubMe 0 (Some roles), HubMe 1 (Some roles), HubLost 0 e, HubLessons 0 ls ws as, HubTitles 0 ts]; s' = run phone_hub_step s es in
     allowed phone_hub_guard phone_hub_step s es \<and> hb_calls s' = [] \<and> hb_courses s' = phone_courses (map_of ts) ls \<and>
     hub_shows s' = LoadError (message_or ''Could not load your courses'' e))"
  using assms by (simp add: Let_def hub_load_def lms_role_def advance_def hub_done_load_def waits_for_def drop_call_def hub_shows_def)

theorem failure_hides_courses_witness:
  "hub_shows (run phone_hub_step (run phone_hub_step (phone_hub0 None) [HubMe 0 None])
     [HubFocus, HubFocus, HubMe 0 (Some [''STUDENT'']), HubMe 1 (Some [''STUDENT'']), HubLost 0 (plain_error ''x''), HubLessons 0 [] [] [], HubTitles 0 []]) =
   LoadError (message_or ''Could not load your courses'' (plain_error ''x''))"
proof -
  have "hb_calls (run phone_hub_step (phone_hub0 None) [HubMe 0 None]) = []" "''TUTOR'' \<notin> set [''STUDENT'']" "''STUDENT'' \<in> set [''STUDENT'']"
    "message_or ''Could not load your courses'' (plain_error ''x'') \<noteq> []" by code_simp+
  from failure_hides_courses [OF this, of "[]" "[]" "[]" "[]"] show ?thesis unfolding Let_def by blast
qed

section \<open>Cards of the phone\<close>

text \<open>
  A card leads to the first lesson that was not watched, and to the first one when all were;
  its caption then speaks of the last. The percentage lies within 0 and 100 and is full then.
\<close>

theorem completed_card_shows_first:
  assumes "co_lessons c \<noteq> []" "list_all (is_watched s) (co_lessons c)" "\<not> hub_is_tutor s"
  shows "card_next s c = Some (hd (co_lessons c)) \<and> card_caption s c = CompletedLastLesson \<and> card_pct s c = 100"
proof -
  have f: "find (\<lambda>l. \<not> is_watched s l) (co_lessons c) = None" using assms(2) by (auto simp: find_None_iff list_all_iff)
  have "filter (is_watched s) (co_lessons c) = co_lessons c" using assms(2) by (simp add: filter_id_conv list_all_iff)
  then have d: "card_done s c = length (co_lessons c)" by (simp add: card_done_def)
  moreover have "max (length (co_lessons c)) 1 = length (co_lessons c)" using assms(1) by (cases "co_lessons c") simp_all
  moreover from this have "card_pct s c = 100" using d assms(1) percent_full [of "length (co_lessons c)"] by (simp add: card_pct_def)
  ultimately show ?thesis using f assms(1,3) by (cases "co_lessons c") (simp_all add: card_next_def card_caption_def)
qed

definition two_lessons :: phone_course where
  "two_lessons = \<lparr>co_cohort = ''c'', co_title = ''C'', co_lessons =
     [\<lparr>pl_id = ''1'', pl_start = None, pl_status = [], pl_cohort = None, pl_meeting = False, pl_video = True\<rparr>,
      \<lparr>pl_id = ''2'', pl_start = None, pl_status = [], pl_cohort = None, pl_meeting = False, pl_video = True\<rparr>]\<rparr>"

theorem completed_card_shows_first_witness:
  "map_option pl_id (card_next (phone_hub0 None\<lparr>hb_watched := [''1'', ''2'']\<rparr>) two_lessons) = Some ''1''"
proof -
  let ?s = "phone_hub0 None\<lparr>hb_watched := [''1'', ''2'']\<rparr>"
  have f: "co_lessons two_lessons \<noteq> []" "list_all (is_watched ?s) (co_lessons two_lessons)" "\<not> hub_is_tutor ?s" "pl_id (hd (co_lessons two_lessons)) = ''1''" by code_simp+
  from completed_card_shows_first [OF f(1-3)] f(4) show ?thesis by simp
qed

text \<open>A tutor's card calls the first lesson the next class, when it was long ago as well.\<close>

theorem tutor_next_class_is_first:
  assumes "hub_is_tutor s" "hb_watched s = []" "co_lessons c = l # ls"
  shows "card_next s c = Some l \<and> card_caption s c = NextClass"
  using assms by (simp add: card_next_def card_caption_def is_watched_def)

theorem tutor_next_class_is_first_witness:
  "map_option pl_id (card_next (phone_hub0 None\<lparr>hb_role := Some LmsTutor\<rparr>) two_lessons) = Some ''1''"
proof -
  let ?s = "phone_hub0 None\<lparr>hb_role := Some LmsTutor\<rparr>"
  have f: "hub_is_tutor ?s" "hb_watched ?s = []" "co_lessons two_lessons = hd (co_lessons two_lessons) # tl (co_lessons two_lessons)" "pl_id (hd (co_lessons two_lessons)) = ''1''" by code_simp+
  from tutor_next_class_is_first [OF f(1-3)] f(4) show ?thesis by simp
qed

end
