(* ===== verification/VettingConsole.thy ===== *)
theory VettingConsole
  imports Machine JsText "HOL-Library.Sublist"
begin

text \<open>
  The vetting of tutors (\<open>client/app/admin/vetting/page.tsx\<close>). The queries are caches by key: the
  queue of each status and the dossier of each profile. The dossier has no key of its own: it
  keeps its fields and its calls as long as some dossier is shown, and loses them with it. The
  transitions that the service allows are those of \<open>internal/domain/tutor/entity.go\<close>. A failed
  action is shown nowhere.
\<close>

section \<open>Statuses and actions\<close>

datatype vet_status = St_Draft | St_Submitted | St_UnderReview | St_Interview | St_Verification | St_Hold | St_Approved | St_Rejected | St_Suspended

datatype vet_action = Do_Review | Do_Interview | Do_Verify | Do_Approve | Do_Reject | Do_Hold

definition VET_STATUSES :: "vet_status list" where
  "VET_STATUSES = [St_Submitted, St_UnderReview, St_Interview, St_Verification, St_Hold, St_Approved, St_Rejected]"

fun vet_label :: "vet_status \<Rightarrow> jsstring" where
  "vet_label St_Submitted = ''Submitted''"
| "vet_label St_UnderReview = ''Under review''"
| "vet_label St_Interview = ''Interview''"
| "vet_label St_Verification = ''Verification''"
| "vet_label St_Hold = ''On hold''"
| "vet_label St_Approved = ''Approved''"
| "vet_label St_Rejected = ''Rejected''"
| "vet_label St_Suspended = ''Suspended''"
| "vet_label St_Draft = ''Draft''"

definition actionable :: "vet_status \<Rightarrow> bool" where
  "actionable s = (s \<in> {St_Submitted, St_UnderReview, St_Interview, St_Verification, St_Hold})"

text \<open>The button that moves an application on, and all actions that a dossier can offer.\<close>

fun forward_action :: "vet_status \<Rightarrow> (vet_action \<times> jsstring) list" where
  "forward_action St_Submitted = [(Do_Review, ''Start review'')]"
| "forward_action St_UnderReview = [(Do_Interview, ''Move to interview'')]"
| "forward_action St_Interview = [(Do_Verify, ''Move to verification'')]"
| "forward_action St_Verification = [(Do_Approve, ''Approve & publish'')]"
| "forward_action St_Hold = [(Do_Review, ''Resume review'')]"
| "forward_action s = []"

definition vet_actions :: "vet_status \<Rightarrow> (vet_action \<times> jsstring) list" where
  "vet_actions s = (if actionable s then forward_action s @ [(Do_Hold, ''Hold''), (Do_Reject, ''Reject'')] else [])"

text \<open>The status an action leads to, and the service's table of transitions.\<close>

fun target_of :: "vet_action \<Rightarrow> vet_status" where
  "target_of Do_Review = St_UnderReview"
| "target_of Do_Interview = St_Interview"
| "target_of Do_Verify = St_Verification"
| "target_of Do_Approve = St_Approved"
| "target_of Do_Reject = St_Rejected"
| "target_of Do_Hold = St_Hold"

fun transitions :: "vet_status \<Rightarrow> vet_status list" where
  "transitions St_Draft = [St_Submitted]"
| "transitions St_Submitted = [St_UnderReview, St_Hold]"
| "transitions St_UnderReview = [St_Interview, St_Hold, St_Rejected]"
| "transitions St_Interview = [St_Verification, St_Hold, St_Rejected]"
| "transitions St_Verification = [St_Approved, St_Rejected, St_Hold]"
| "transitions St_Hold = [St_UnderReview, St_Rejected]"
| "transitions St_Approved = [St_Suspended]"
| "transitions St_Suspended = [St_Approved, St_Rejected]"
| "transitions St_Rejected = []"

definition CanTransitionTo :: "vet_status \<Rightarrow> vet_status \<Rightarrow> bool" where
  "CanTransitionTo s t = (t \<in> set (transitions s))"

text \<open>A sequence of actions that the console offers and the service performs.\<close>

fun vet_run :: "vet_status \<Rightarrow> vet_action list \<Rightarrow> vet_status option" where
  "vet_run s [] = Some s"
| "vet_run s (a # as) =
     (if a \<in> set (map fst (vet_actions s)) \<and> CanTransitionTo s (target_of a) then vet_run (target_of a) as else None)"

section \<open>The page\<close>

record dossier =
  ds_status :: vet_status
  ds_public :: bool
  ds_documents :: "(jsstring \<times> bool) list" \<comment> \<open>id, and whether it is pending\<close>

datatype vet_call = Act jsstring vet_action jsstring | ReviewDoc jsstring bool jsstring | SetPublic jsstring bool

record vet_page =
  vt_filter :: vet_status
  vt_selected :: "jsstring option"
  vt_queues :: "(vet_status \<times> jsstring list option) list" \<comment> \<open>\<open>None\<close> for a failed read\<close>
  vt_details :: "(jsstring \<times> dossier) list"
  vt_reason :: jsstring
  vt_rejecting :: "jsstring option"
  vt_rejectReason :: jsstring
  vt_calls :: "vet_call list" \<comment> \<open>of the dossier that is shown\<close>
  vt_orphans :: "vet_call list"
  vt_sent :: "vet_call list"

definition vet_page0 :: vet_page where
  "vet_page0 = \<lparr>vt_filter = St_Submitted, vt_selected = None, vt_queues = [], vt_details = [], vt_reason = [], vt_rejecting = None, vt_rejectReason = [],
     vt_calls = [], vt_orphans = [], vt_sent = []\<rparr>"

definition vet_queue :: "vet_page \<Rightarrow> jsstring list" where
  "vet_queue s = (case map_of (vt_queues s) (vt_filter s) of Some (Some xs) \<Rightarrow> xs | _ \<Rightarrow> [])"

definition vet_loading :: "vet_page \<Rightarrow> bool" where
  "vet_loading s = (map_of (vt_queues s) (vt_filter s) = None)"

text \<open>The dossier that is shown, with its profile.\<close>

definition open_dossier :: "vet_page \<Rightarrow> (jsstring \<times> dossier) option" where
  "open_dossier s =
     (if vet_queue s = [] then None
      else case vt_selected s of None \<Rightarrow> None | Some i \<Rightarrow> map_option (\<lambda>d. (i, d)) (map_of (vt_details s) i))"

definition vet_settle :: "vet_page \<Rightarrow> vet_page" where
  "vet_settle s =
     (if open_dossier s \<noteq> None then s
      else s\<lparr>vt_reason := [], vt_rejecting := None, vt_rejectReason := [], vt_calls := [], vt_orphans := vt_orphans s @ vt_calls s\<rparr>)"

fun is_act :: "vet_call \<Rightarrow> bool" where
  "is_act (Act i a r) = True"
| "is_act c = False"

fun is_doc :: "vet_call \<Rightarrow> bool" where
  "is_doc (ReviewDoc d b r) = True"
| "is_doc c = False"

fun is_public :: "vet_call \<Rightarrow> bool" where
  "is_public (SetPublic i b) = True"
| "is_public c = False"

datatype vet_event =
    QueueRead vet_status "jsstring list" | QueueLost vet_status | DetailRead jsstring dossier
  | FilterTo vet_status | Select jsstring | TypeReason jsstring | ActClick vet_action | ApproveDoc jsstring | RejectDoc jsstring
  | TypeDocReason jsstring | ConfirmReject | CancelReject | TogglePublic
  | VetDone vet_call | VetLost vet_call | OrphanDone vet_call

definition busy_with :: "(vet_call \<Rightarrow> bool) \<Rightarrow> vet_page \<Rightarrow> bool" where
  "busy_with k s = list_ex k (vt_calls s)"

definition dossier_view :: "vet_page \<Rightarrow> jsstring \<times> dossier \<Rightarrow> vet_event widget list" where
  "dossier_view s d =
     concat (map (\<lambda>p. if snd p then [Btn ''Approve'' (\<not> busy_with is_doc s) (ApproveDoc (fst p)), Btn ''Reject'' (\<not> busy_with is_doc s) (RejectDoc (fst p))] else [])
       (ds_documents (snd d))) @
     map (\<lambda>p. Btn (snd p) (\<not> busy_with is_act s \<and> (fst p \<noteq> Do_Reject \<or> trim (vt_reason s) \<noteq> [])) (ActClick (fst p))) (vet_actions (ds_status (snd d))) @
     (if ds_status (snd d) = St_Approved
      then [Btn (if ds_public (snd d) then ''Hide'' else ''Make public (is_public = true)'') (\<not> busy_with is_public s) TogglePublic] else [])"

definition vet_view :: "vet_page \<Rightarrow> vet_event widget list" where
  "vet_view s =
     (if vt_rejecting s \<noteq> None
      then [Btn ''Cancel'' True CancelReject,
            Btn (if busy_with is_doc s then ''Rejecting'' @ ellipsis else ''Reject document'') (trim (vt_rejectReason s) \<noteq> [] \<and> \<not> busy_with is_doc s) ConfirmReject]
      else map (\<lambda>t. Btn (vet_label t) True (FilterTo t)) VET_STATUSES @
        (if vet_loading s then []
         else if vet_queue s = [] then [Txt ''No applications in this state'']
         else map (\<lambda>i. Btn i True (Select i)) (vet_queue s) @ (case open_dossier s of None \<Rightarrow> [] | Some d \<Rightarrow> dossier_view s d)))"

fun vet_guard :: "vet_page \<Rightarrow> vet_event \<Rightarrow> bool" where
  "vet_guard s (QueueRead t xs) = True"
| "vet_guard s (QueueLost t) = (map_of (vt_queues s) t = None)"
| "vet_guard s (DetailRead i d) = True"
| "vet_guard s (TypeReason v) = (vt_rejecting s = None \<and> (case open_dossier s of None \<Rightarrow> False | Some d \<Rightarrow> actionable (ds_status (snd d))))"
| "vet_guard s (TypeDocReason v) = (vt_rejecting s \<noteq> None)"
| "vet_guard s (VetDone c) = (c \<in> set (vt_calls s))"
| "vet_guard s (VetLost c) = (c \<in> set (vt_calls s))"
| "vet_guard s (OrphanDone c) = (c \<in> set (vt_orphans s))"
| "vet_guard s e = (e \<in> set (offered (vet_view s)))"

definition vet_send :: "vet_call \<Rightarrow> vet_page \<Rightarrow> vet_page" where
  "vet_send c s = s\<lparr>vt_calls := vt_calls s @ [c], vt_sent := vt_sent s @ [c]\<rparr>"

definition vet_gone :: "vet_call \<Rightarrow> vet_page \<Rightarrow> vet_page" where
  "vet_gone c s = s\<lparr>vt_calls := remove1 c (vt_calls s)\<rparr>"

text \<open>\<open>r ?? reason\<close>: the field's text goes with every action; holding without one says \<open>paused\<close>.\<close>

definition act_reason :: "vet_action \<Rightarrow> jsstring \<Rightarrow> jsstring" where
  "act_reason a reason = (if a = Do_Hold \<and> reason = [] then ''paused'' else reason)"

fun vet_act :: "vet_page \<Rightarrow> vet_event \<Rightarrow> vet_page" where
  "vet_act s (QueueRead t xs) = s\<lparr>vt_queues := (t, Some xs) # vt_queues s\<rparr>"
| "vet_act s (QueueLost t) = s\<lparr>vt_queues := (t, None) # vt_queues s\<rparr>"
| "vet_act s (DetailRead i d) = s\<lparr>vt_details := (i, d) # vt_details s\<rparr>"
| "vet_act s (FilterTo t) = s\<lparr>vt_filter := t\<rparr>"
| "vet_act s (Select i) = s\<lparr>vt_selected := Some i\<rparr>"
| "vet_act s (TypeReason v) = s\<lparr>vt_reason := v\<rparr>"
| "vet_act s (ActClick a) = (case open_dossier s of None \<Rightarrow> s | Some d \<Rightarrow> vet_send (Act (fst d) a (act_reason a (vt_reason s))) s)"
| "vet_act s (ApproveDoc i) = vet_send (ReviewDoc i True []) s"
| "vet_act s (RejectDoc i) = s\<lparr>vt_rejecting := Some i, vt_rejectReason := []\<rparr>"
| "vet_act s (TypeDocReason v) = s\<lparr>vt_rejectReason := v\<rparr>"
| "vet_act s ConfirmReject =
     (case vt_rejecting s of
        None \<Rightarrow> s
      | Some i \<Rightarrow> if trim (vt_rejectReason s) = [] then s
          else (vet_send (ReviewDoc i False (trim (vt_rejectReason s))) s)\<lparr>vt_rejecting := None\<rparr>)"
| "vet_act s CancelReject = s\<lparr>vt_rejecting := None\<rparr>"
| "vet_act s TogglePublic = (case open_dossier s of None \<Rightarrow> s | Some d \<Rightarrow> vet_send (SetPublic (fst d) (\<not> ds_public (snd d))) s)"
| "vet_act s (VetDone c) = (if is_act c then (vet_gone c s)\<lparr>vt_reason := []\<rparr> else vet_gone c s)"
| "vet_act s (VetLost c) = vet_gone c s"
| "vet_act s (OrphanDone c) = s\<lparr>vt_orphans := remove1 c (vt_orphans s)\<rparr>"

definition vet_step :: "vet_page \<Rightarrow> vet_event \<Rightarrow> vet_page" where
  "vet_step s e = vet_settle (vet_act s e)"

section \<open>The way to an approval\<close>

fun still_needed :: "vet_status \<Rightarrow> vet_action list" where
  "still_needed St_UnderReview = [Do_Interview, Do_Verify, Do_Approve]"
| "still_needed St_Interview = [Do_Verify, Do_Approve]"
| "still_needed St_Verification = [Do_Approve]"
| "still_needed St_Approved = []"
| "still_needed s = [Do_Review, Do_Interview, Do_Verify, Do_Approve]"

lemma vet_run_needs: "vet_run s as = Some St_Approved \<Longrightarrow> subseq (still_needed s) as"
proof (induction as arbitrary: s)
  case Nil
  then show ?case by simp
next
  case (Cons a as)
  then have o: "a \<in> set (map fst (vet_actions s))" "CanTransitionTo s (target_of a)" and ih: "subseq (still_needed (target_of a)) as"
    by (auto split: if_splits)
  have "still_needed s = still_needed (target_of a) \<or> still_needed s = a # still_needed (target_of a) \<or> subseq (still_needed s) (still_needed (target_of a))"
    using o by (cases s) (auto simp: vet_actions_def actionable_def CanTransitionTo_def)
  then show ?case using ih by (auto intro: subseq_order.order_trans)
qed

text \<open>
  Whatever an administrator clicks and the service performs: an application that ends up
  approved was reviewed, interviewed, verified and approved, in this order.
\<close>

theorem approval_pipeline:
  assumes "vet_run St_Submitted as = Some St_Approved"
  shows "subseq [Do_Review, Do_Interview, Do_Verify, Do_Approve] as \<and> 4 \<le> length as"
  using vet_run_needs [OF assms] list_emb_length [of "(=)" "[Do_Review, Do_Interview, Do_Verify, Do_Approve]" as] by auto

theorem approval_pipeline_witness:
  "subseq [Do_Review, Do_Interview, Do_Verify, Do_Approve] [Do_Hold, Do_Review, Do_Interview, Do_Verify, Do_Approve]"
proof -
  have "vet_run St_Submitted [Do_Hold, Do_Review, Do_Interview, Do_Verify, Do_Approve] = Some St_Approved" by code_simp
  from approval_pipeline [OF this] show ?thesis by blast
qed

text \<open>
  Of the actions that a dossier offers the service refuses two, always: rejecting what was just
  submitted and holding what is on hold. Of the moves that the service allows from a queue's
  status, only the suspension has no button.
\<close>

theorem offered_but_refused:
  "(a \<in> set (map fst (vet_actions s)) \<and> \<not> CanTransitionTo s (target_of a)) = ((s, a) \<in> {(St_Submitted, Do_Reject), (St_Hold, Do_Hold)}) \<and>
   (if s \<in> set VET_STATUSES then (CanTransitionTo s t \<and> t \<notin> target_of ` set (map fst (vet_actions s))) = (s = St_Approved \<and> t = St_Suspended) else True)"
  by (cases s; cases a; cases t) (simp_all add: vet_actions_def actionable_def CanTransitionTo_def VET_STATUSES_def)

section \<open>What the console sends\<close>

definition vet_sound :: "vet_call \<Rightarrow> bool" where
  "vet_sound c =
     (case c of
        Act i a r \<Rightarrow> (if a = Do_Reject then trim r \<noteq> [] else if a = Do_Hold then r \<noteq> [] else True)
      | ReviewDoc d b r \<Rightarrow> (if b then r = [] else r \<noteq> [] \<and> trim r = r)
      | SetPublic i b \<Rightarrow> True)"

definition vet_few :: "vet_call list \<Rightarrow> bool" where
  "vet_few cs = (length (filter is_act cs) \<le> 1 \<and> length (filter is_doc cs) \<le> 1 \<and> length (filter is_public cs) \<le> 1)"

definition vet_inv :: "vet_page \<Rightarrow> bool" where
  "vet_inv s = (vet_few (vt_calls s) \<and> list_all vet_sound (vt_sent s))"

lemma dossier_offers:
  "ActClick a \<in> set (offered (dossier_view s d)) \<Longrightarrow>
     \<not> busy_with is_act s \<and> a \<in> set (map fst (vet_actions (ds_status (snd d)))) \<and> (a = Do_Reject \<longrightarrow> trim (vt_reason s) \<noteq> [])"
  "ApproveDoc i \<in> set (offered (dossier_view s d)) \<Longrightarrow> \<not> busy_with is_doc s"
  "TogglePublic \<in> set (offered (dossier_view s d)) \<Longrightarrow> \<not> busy_with is_public s"
  "e \<in> {ConfirmReject, CancelReject} \<Longrightarrow> e \<notin> set (offered (dossier_view s d))"
  unfolding dossier_view_def in_offered by (auto split: if_splits)

lemma vet_offers:
  "ActClick a \<in> set (offered (vet_view s)) \<Longrightarrow>
     \<not> busy_with is_act s \<and> (a = Do_Reject \<longrightarrow> trim (vt_reason s) \<noteq> []) \<and> vt_rejecting s = None \<and>
     (\<exists>d. open_dossier s = Some d \<and> a \<in> set (map fst (vet_actions (ds_status (snd d)))))"
  "ApproveDoc i \<in> set (offered (vet_view s)) \<Longrightarrow> \<not> busy_with is_doc s"
  "TogglePublic \<in> set (offered (vet_view s)) \<Longrightarrow> \<not> busy_with is_public s"
  "ConfirmReject \<in> set (offered (vet_view s)) \<Longrightarrow> \<not> busy_with is_doc s"
proof -
  assume a: "ActClick a \<in> set (offered (vet_view s))"
  then obtain d where "open_dossier s = Some d" "ActClick a \<in> set (offered (dossier_view s d))" "vt_rejecting s = None"
    unfolding vet_view_def in_offered by (auto simp: in_offered split: if_splits option.splits)
  then show "\<not> busy_with is_act s \<and> (a = Do_Reject \<longrightarrow> trim (vt_reason s) \<noteq> []) \<and> vt_rejecting s = None \<and>
     (\<exists>d. open_dossier s = Some d \<and> a \<in> set (map fst (vet_actions (ds_status (snd d)))))"
    using dossier_offers(1) [of a s d] by blast
next
  assume "ApproveDoc i \<in> set (offered (vet_view s))"
  then obtain d where "ApproveDoc i \<in> set (offered (dossier_view s d))"
    unfolding vet_view_def in_offered by (auto simp: in_offered split: if_splits option.splits)
  then show "\<not> busy_with is_doc s" by (rule dossier_offers)
next
  assume "TogglePublic \<in> set (offered (vet_view s))"
  then obtain d where "TogglePublic \<in> set (offered (dossier_view s d))"
    unfolding vet_view_def in_offered by (auto simp: in_offered split: if_splits option.splits)
  then show "\<not> busy_with is_public s" by (rule dossier_offers)
next
  assume "ConfirmReject \<in> set (offered (vet_view s))"
  then show "\<not> busy_with is_doc s"
    using dossier_offers(4) [of ConfirmReject] unfolding vet_view_def in_offered by (auto simp: in_offered split: if_splits option.splits)
qed

lemma vet_few_more:
  "vet_few cs \<Longrightarrow> \<not> list_ex is_act cs \<Longrightarrow> vet_few (cs @ [Act i a r])"
  "vet_few cs \<Longrightarrow> \<not> list_ex is_doc cs \<Longrightarrow> vet_few (cs @ [ReviewDoc d b r])"
  "vet_few cs \<Longrightarrow> \<not> list_ex is_public cs \<Longrightarrow> vet_few (cs @ [SetPublic i b])"
  by (auto simp: vet_few_def list_ex_iff filter_empty_conv)

lemma vet_few_gone: "vet_few cs \<Longrightarrow> vet_few (remove1 c cs)"
  by (simp add: vet_few_def filter_remove1 length_remove1)

lemma vet_inv_settle: "vet_inv s \<Longrightarrow> vet_inv (vet_settle s)"
  by (simp add: vet_inv_def vet_settle_def vet_few_def)

lemma vet_inv_act: "vet_inv s \<Longrightarrow> vet_guard s e \<Longrightarrow> vet_inv (vet_act s e)"
proof (cases e)
  case (ActClick a)
  assume i: "vet_inv s" "vet_guard s e"
  then have o: "\<not> list_ex is_act (vt_calls s)" "a = Do_Reject \<longrightarrow> trim (vt_reason s) \<noteq> []" using ActClick vet_offers(1) [of a s] by (auto simp: busy_with_def)
  have "vet_sound (Act j a (act_reason a (vt_reason s)))" for j using o(2) by (auto simp: vet_sound_def act_reason_def)
  then show ?thesis using ActClick i(1) o(1) by (auto simp: vet_inv_def vet_send_def vet_few_more split: option.split)
next
  case (ApproveDoc d)
  assume "vet_inv s" "vet_guard s e"
  then show ?thesis using ApproveDoc vet_offers(2) [of d s] by (simp add: vet_inv_def vet_send_def vet_few_more busy_with_def vet_sound_def)
next
  case TogglePublic
  assume "vet_inv s" "vet_guard s e"
  then show ?thesis using TogglePublic vet_offers(3) [of s] by (simp add: vet_inv_def vet_send_def vet_few_more busy_with_def vet_sound_def split: option.split)
next
  case ConfirmReject
  assume "vet_inv s" "vet_guard s e"
  then show ?thesis using ConfirmReject vet_offers(4) [of s] by (simp add: vet_inv_def vet_send_def vet_few_more busy_with_def vet_sound_def split: option.split)
qed (simp_all add: vet_inv_def vet_gone_def vet_few_gone)

interpretation vetting: machine "\<lambda>s. s = vet_page0" vet_guard vet_step vet_inv
proof unfold_locales
  fix s assume "s = vet_page0"
  then show "vet_inv s" by (simp add: vet_inv_def vet_page0_def vet_few_def)
next
  fix s e assume "vet_inv s" "vet_guard s e"
  then show "vet_inv (vet_step s e)" unfolding vet_step_def by (intro vet_inv_settle vet_inv_act)
qed

text \<open>
  The dossier that is shown has one action, one document's review and one change of visibility
  in flight at most. No rejection, of an application or of a document, goes without a reason,
  and no pause without a word.
\<close>

theorem vetting_safe:
  assumes "reach (\<lambda>s. s = vet_page0) vet_guard vet_step s"
  shows "vet_few (vt_calls s) \<and> list_all vet_sound (vt_sent s)"
  using vetting.reach_inv [OF assms] by (simp add: vet_inv_def)

definition dossier_a :: dossier where "dossier_a = \<lparr>ds_status = St_UnderReview, ds_public = False, ds_documents = [(''d1'', True)]\<rparr>"

definition vet_opening :: "vet_event list" where
  "vet_opening = [QueueRead St_Submitted [''a'', ''b''], DetailRead ''a'' dossier_a, DetailRead ''b'' dossier_a, Select ''a'']"

theorem vetting_safe_witness:
  "(let s = run vet_step vet_page0 (vet_opening @ [RejectDoc ''d1'', TypeDocReason '' blurry '', ConfirmReject]) in
     vt_sent s = [ReviewDoc ''d1'' False ''blurry''] \<and> list_all vet_sound (vt_sent s))"
proof -
  let ?es = "vet_opening @ [RejectDoc ''d1'', TypeDocReason '' blurry '', ConfirmReject]"
  have f: "allowed vet_guard vet_step vet_page0 ?es" "vt_sent (run vet_step vet_page0 ?es) = [ReviewDoc ''d1'' False ''blurry'']" by code_simp+
  from vetting_safe [OF run_reachable [OF refl f(1)]] f(2) show ?thesis unfolding Let_def by blast
qed

text \<open>
  The dossier keeps its field when another profile whose dossier is cached is chosen: the reason
  written about one tutor rejects the next.
\<close>

theorem reason_follows_selection:
  assumes "open_dossier s = Some (i, d)" "vt_rejecting s = None" "j \<in> set (vet_queue s)" "map_of (vt_details s) j = Some d'" "actionable (ds_status d)" "actionable (ds_status d')"
    "vt_calls s = []" "trim v \<noteq> []"
  shows "allowed vet_guard vet_step s [TypeReason v, Select j, ActClick Do_Reject] \<and>
     vt_sent (run vet_step s [TypeReason v, Select j, ActClick Do_Reject]) = vt_sent s @ [Act j Do_Reject v]"
proof -
  let ?r = "s\<lparr>vt_reason := v\<rparr>"
  let ?t = "s\<lparr>vt_reason := v, vt_selected := Some j\<rparr>"
  have q: "vet_queue s \<noteq> []" using assms(3) by auto
  have nl: "\<not> vet_loading s" using q by (auto simp: vet_queue_def vet_loading_def split: option.splits)
  have same: "vet_queue ?r = vet_queue s" "vet_queue ?t = vet_queue s" "vet_loading ?r = vet_loading s" "vet_loading ?t = vet_loading s"
    by (simp_all add: vet_queue_def vet_loading_def)
  have r: "open_dossier ?r = Some (i, d)" using assms(1) q by (cases "vt_selected s") (simp_all add: open_dossier_def same)
  have t: "open_dossier ?t = Some (j, d')" using q assms(4) by (simp add: open_dossier_def same)
  have steps: "vet_step s (TypeReason v) = ?r" "vet_step ?r (Select j) = ?t" using r t by (simp_all add: vet_step_def vet_settle_def)
  have "Select j \<in> set (offered (vet_view ?r))"
    using assms(2,3) q nl unfolding vet_view_def in_offered same by (simp add: same in_offered)
  moreover have "ActClick Do_Reject \<in> set (offered (dossier_view ?t (j, d')))"
    using assms(6-8) unfolding dossier_view_def in_offered by (auto simp: in_offered vet_actions_def busy_with_def)
  then have "ActClick Do_Reject \<in> set (offered (vet_view ?t))"
    using assms(2) q nl t unfolding vet_view_def in_offered same by (simp add: same)
  moreover have "vt_sent (vet_step ?t (ActClick Do_Reject)) = vt_sent s @ [Act j Do_Reject v]"
    using t by (simp add: vet_step_def vet_settle_def vet_send_def act_reason_def)
  ultimately show ?thesis using assms(1,2,5) by (simp add: steps)
qed

theorem reason_follows_selection_witness:
  "vt_sent (run vet_step (run vet_step vet_page0 vet_opening) [TypeReason ''no ID'', Select ''b'', ActClick Do_Reject]) = [Act ''b'' Do_Reject ''no ID'']"
proof -
  let ?s = "run vet_step vet_page0 vet_opening"
  have f: "open_dossier ?s = Some (''a'', dossier_a)" "vt_rejecting ?s = None" "''b'' \<in> set (vet_queue ?s)" "map_of (vt_details ?s) ''b'' = Some dossier_a"
    "actionable (ds_status dossier_a)" "actionable (ds_status dossier_a)" "vt_calls ?s = []" "trim ''no ID'' \<noteq> []" "vt_sent ?s = []" by code_simp+
  from reason_follows_selection [OF f(1-8)] f(9) show ?thesis by (simp del: run.simps)
qed

text \<open>A queue that could not be read says that no applications are in this state.\<close>

theorem failed_queue_looks_empty:
  assumes "map_of (vt_queues s) (vt_filter s) = None" "vt_rejecting s = None"
  shows "vet_guard s (QueueLost (vt_filter s)) \<and> Txt ''No applications in this state'' \<in> set (vet_view (vet_step s (QueueLost (vt_filter s))))"
  using assms by (simp add: vet_step_def vet_settle_def vet_view_def vet_loading_def vet_queue_def)

theorem failed_queue_looks_empty_witness:
  "Txt ''No applications in this state'' \<in> set (vet_view (vet_step vet_page0 (QueueLost St_Submitted)))"
proof -
  have f: "map_of (vt_queues vet_page0) (vt_filter vet_page0) = None" "vt_rejecting vet_page0 = None" "vt_filter vet_page0 = St_Submitted" by code_simp+
  from failed_queue_looks_empty [OF f(1,2)] f(3) show ?thesis by simp
qed

end
