(* ===== verification/FamilyAccount.thy ===== *)
theory FamilyAccount
  imports Machine JsText JsNumber Http "HOL-Library.Sublist"
begin

text \<open>
  A family's applications (\<open>client/app/account/admissions/page.tsx\<close>) and its membership
  (\<open>client/app/account/plus/page.tsx\<close>, \<open>plusDisplayName\<close> of \<open>client/features/plus/api.ts\<close>). The form of an
  application lives while it is shown: its calls go on without it, and their success, whose
  callback belongs to the page, closes whatever form is open.
\<close>

section \<open>Names of plans\<close>

definition brand :: jsstring where "brand = ''YK-Virtual''"

text \<open>\<open>raw.replace(/nuvora/gi, "YK-Virtual")\<close>.\<close>

function rebrand :: "jsstring \<Rightarrow> jsstring" where
  "rebrand s =
     (if s = [] then []
      else if to_upper (take 6 s) = ''NUVORA'' then brand @ rebrand (drop 6 s)
      else hd s # rebrand (tl s))"
  by pat_completeness auto
termination by (relation "measure length") (auto simp: to_upper_def)

declare rebrand.simps [simp del]

record plus_plan =
  pn_code :: jsstring
  pn_name :: jsstring

definition plusDisplayName :: "plus_plan option \<Rightarrow> jsstring option \<Rightarrow> jsstring" where
  "plusDisplayName plan fallback =
     (let code = (case plan of Some p \<Rightarrow> pn_code p | None \<Rightarrow> (case fallback of Some c \<Rightarrow> c | None \<Rightarrow> [])) in
      if code = ''PLUS'' then ''YK-Virtual Plus''
      else if code = ''PLUS_FAMILY'' then ''YK-Virtual Plus Family''
      else if code = ''PLUS_TEAMS'' then ''YK-Virtual Plus Teams''
      else rebrand (case plan of Some p \<Rightarrow> (if pn_name p = [] then ''YK-Virtual Plus'' else pn_name p) | None \<Rightarrow> ''YK-Virtual Plus''))"

section \<open>The membership\<close>

datatype plus_call = Purchase jsstring jsstring | Initiate jsstring jsstring | Activate jsstring | CancelPlus

record plus_page =
  pp_active :: "bool option"
  pp_plans :: "plus_plan list"
  pp_email :: "jsstring option"
  pp_code :: jsstring
  pp_trial :: bool
  pp_calls :: "plus_call list"
  pp_sent :: "plus_call list"
  pp_toasts :: "jsstring list"
  pp_opened :: "jsstring list" \<comment> \<open>payment links\<close>

definition plus_page0 :: plus_page where
  "plus_page0 = \<lparr>pp_active = None, pp_plans = [], pp_email = None, pp_code = ''PLUS'', pp_trial = True, pp_calls = [], pp_sent = [], pp_toasts = [], pp_opened = []\<rparr>"

fun is_start :: "plus_call \<Rightarrow> bool" where
  "is_start CancelPlus = False"
| "is_start c = True"

datatype plus_event =
    StatusRead bool | PlansRead "plus_plan list" | UserKnown "jsstring option"
  | PickPlan jsstring | ToggleTrial | StartClick | CancelClick
  | Purchased jsstring jsstring jsstring | PurchaseLost jsstring jsstring | LinkReady jsstring jsstring jsstring | LinkLost jsstring jsstring
  | Activated jsstring | ActivateLost jsstring | CancelDone | CancelLost

definition plus_send :: "plus_call \<Rightarrow> plus_page \<Rightarrow> plus_page" where
  "plus_send c s = s\<lparr>pp_calls := pp_calls s @ [c], pp_sent := pp_sent s @ [c]\<rparr>"

definition plus_gone :: "plus_call \<Rightarrow> plus_page \<Rightarrow> plus_page" where
  "plus_gone c s = s\<lparr>pp_calls := remove1 c (pp_calls s)\<rparr>"

definition plus_toast :: "jsstring \<Rightarrow> plus_page \<Rightarrow> plus_page" where
  "plus_toast m s = s\<lparr>pp_toasts := pp_toasts s @ [m]\<rparr>"

definition plus_view :: "plus_page \<Rightarrow> plus_event widget list" where
  "plus_view s =
     (case pp_active s of
        None \<Rightarrow> []
      | Some True \<Rightarrow> [Btn ''Cancel subscription'' (CancelPlus \<notin> set (pp_calls s)) CancelClick]
      | Some False \<Rightarrow>
          map (\<lambda>p. Btn (plusDisplayName (Some p) None) True (PickPlan (pn_code p))) (pp_plans s) @
          [Btn (if list_ex is_start (pp_calls s) then ''Processing'' @ ellipsis else if pp_trial s then ''Start free trial'' else ''Subscribe & pay'')
             (\<not> list_ex is_start (pp_calls s)) StartClick,
           Btn (if pp_trial s then ''Skip trial '' @ em_dash @ '' pay now'' else ''Start a free trial instead'') True ToggleTrial])"

fun plus_guard :: "plus_page \<Rightarrow> plus_event \<Rightarrow> bool" where
  "plus_guard s (StatusRead b) = True"
| "plus_guard s (PlansRead ps) = True"
| "plus_guard s (UserKnown e) = True"
| "plus_guard s (Purchased c e i) = (Purchase c e \<in> set (pp_calls s))"
| "plus_guard s (PurchaseLost c e) = (Purchase c e \<in> set (pp_calls s))"
| "plus_guard s (LinkReady i e l) = (Initiate i e \<in> set (pp_calls s))"
| "plus_guard s (LinkLost i e) = (Initiate i e \<in> set (pp_calls s))"
| "plus_guard s (Activated c) = (Activate c \<in> set (pp_calls s))"
| "plus_guard s (ActivateLost c) = (Activate c \<in> set (pp_calls s))"
| "plus_guard s CancelDone = (CancelPlus \<in> set (pp_calls s))"
| "plus_guard s CancelLost = (CancelPlus \<in> set (pp_calls s))"
| "plus_guard s e = (e \<in> set (offered (plus_view s)))"

fun plus_step :: "plus_page \<Rightarrow> plus_event \<Rightarrow> plus_page" where
  "plus_step s (StatusRead b) = s\<lparr>pp_active := Some b\<rparr>"
| "plus_step s (PlansRead ps) = s\<lparr>pp_plans := ps\<rparr>"
| "plus_step s (UserKnown e) = s\<lparr>pp_email := e\<rparr>"
| "plus_step s (PickPlan c) = s\<lparr>pp_code := c\<rparr>"
| "plus_step s ToggleTrial = s\<lparr>pp_trial := \<not> pp_trial s\<rparr>"
| "plus_step s StartClick =
     plus_send (if pp_trial s then Activate (pp_code s) else Purchase (pp_code s) (case pp_email s of Some e \<Rightarrow> e | None \<Rightarrow> [])) s"
| "plus_step s CancelClick = plus_send CancelPlus s"
| "plus_step s (Purchased c e i) = plus_send (Initiate i e) (plus_gone (Purchase c e) s)"
| "plus_step s (PurchaseLost c e) = plus_toast ''Could not start payment'' (plus_gone (Purchase c e) s)"
| "plus_step s (LinkReady i e l) =
     (let s' = plus_gone (Initiate i e) s in if l = [] then s' else s'\<lparr>pp_opened := pp_opened s @ [l]\<rparr>)"
| "plus_step s (LinkLost i e) = plus_toast ''Could not start payment'' (plus_gone (Initiate i e) s)"
| "plus_step s (Activated c) = plus_toast ''YK-Virtual Plus activated (7-day trial)'' (plus_gone (Activate c) s)"
| "plus_step s (ActivateLost c) = plus_toast ''Could not activate Plus'' (plus_gone (Activate c) s)"
| "plus_step s CancelDone = plus_toast ''YK-Virtual Plus cancelled'' (plus_gone CancelPlus s)"
| "plus_step s CancelLost = plus_gone CancelPlus s"

text \<open>The learner whose plan is shown: the first that was ever read.\<close>

definition plan_learner :: "jsstring \<Rightarrow> jsstring list \<Rightarrow> jsstring" where
  "plan_learner studentId learners = (if studentId = [] then (case learners of [] \<Rightarrow> [] | l # _ \<Rightarrow> l) else studentId)"

section \<open>Applications\<close>

record apply_form =
  ap_student :: jsstring
  ap_name :: jsstring
  ap_level :: jsstring
  ap_term :: jsstring
  ap_notes :: jsstring

definition apply_form0 :: apply_form where
  "apply_form0 = \<lparr>ap_student = [], ap_name = [], ap_level = [], ap_term = [], ap_notes = []\<rparr>"

record apply_input =
  ai_student :: jsstring
  ai_name :: "jsstring option"
  ai_level :: "jsstring option"
  ai_term :: "jsstring option"
  ai_notes :: "jsstring option"

definition unless_empty :: "jsstring \<Rightarrow> jsstring option" where
  "unless_empty v = (if v = [] then None else Some v)"

definition apply_input_of :: "apply_form \<Rightarrow> apply_input" where
  "apply_input_of f = \<lparr>ai_student = ap_student f, ai_name = unless_empty (ap_name f), ai_level = unless_empty (ap_level f),
     ai_term = unless_empty (ap_term f), ai_notes = unless_empty (ap_notes f)\<rparr>"

record admissions =
  ad_show :: bool
  ad_learners :: "jsstring list"
  ad_form :: apply_form
  ad_error :: "jsstring option"
  ad_calls :: "apply_input list" \<comment> \<open>of the form that is shown\<close>
  ad_orphans :: "apply_input list"
  ad_sent :: "apply_input list"
  ad_toasts :: nat

definition admissions0 :: admissions where
  "admissions0 = \<lparr>ad_show = False, ad_learners = [], ad_form = apply_form0, ad_error = None, ad_calls = [], ad_orphans = [], ad_sent = [], ad_toasts = 0\<rparr>"

definition show_form :: "bool \<Rightarrow> admissions \<Rightarrow> admissions" where
  "show_form b s =
     (if b = ad_show s then s
      else s\<lparr>ad_show := b, ad_form := apply_form0, ad_error := None, ad_calls := [], ad_orphans := ad_orphans s @ ad_calls s\<rparr>)"

datatype admission_event =
    LearnersKnown "jsstring list" | ToggleForm | EditApply apply_form | SubmitApply | CancelApply
  | Applied apply_input | ApplyLost apply_input js_exn | OrphanApplied apply_input | OrphanApplyLost apply_input

definition admissions_view :: "admissions \<Rightarrow> admission_event widget list" where
  "admissions_view s =
     [Btn (if ad_show s then ''Close'' else ''+ New application'') True ToggleForm] @
     (if ad_show s
      then [Btn (if ad_calls s \<noteq> [] then ''Submitting'' @ ellipsis else ''Submit application'') (ap_student (ad_form s) \<noteq> [] \<and> ad_calls s = []) SubmitApply,
            Btn ''Cancel'' True CancelApply] else [])"

fun admissions_guard :: "admissions \<Rightarrow> admission_event \<Rightarrow> bool" where
  "admissions_guard s (LearnersKnown ls) = True"
| "admissions_guard s (EditApply f) = (ad_show s \<and> (ap_student f = [] \<or> ap_student f \<in> set (ad_learners s) \<or> ap_student f = ap_student (ad_form s)))"
| "admissions_guard s (Applied i) = (i \<in> set (ad_calls s))"
| "admissions_guard s (ApplyLost i e) = (i \<in> set (ad_calls s))"
| "admissions_guard s (OrphanApplied i) = (i \<in> set (ad_orphans s))"
| "admissions_guard s (OrphanApplyLost i) = (i \<in> set (ad_orphans s))"
| "admissions_guard s e = (e \<in> set (offered (admissions_view s)))"

fun admissions_step :: "admissions \<Rightarrow> admission_event \<Rightarrow> admissions" where
  "admissions_step s (LearnersKnown ls) = s\<lparr>ad_learners := ls\<rparr>"
| "admissions_step s ToggleForm = show_form (\<not> ad_show s) s"
| "admissions_step s (EditApply f) = s\<lparr>ad_form := f\<rparr>"
| "admissions_step s SubmitApply =
     (let i = apply_input_of (ad_form s) in s\<lparr>ad_calls := ad_calls s @ [i], ad_sent := ad_sent s @ [i]\<rparr>)"
| "admissions_step s CancelApply = show_form False s"
| "admissions_step s (Applied i) = show_form False (s\<lparr>ad_calls := remove1 i (ad_calls s), ad_toasts := Suc (ad_toasts s)\<rparr>)"
| "admissions_step s (ApplyLost i e) = s\<lparr>ad_calls := remove1 i (ad_calls s), ad_error := Some (message_or ''Could not submit application.'' e)\<rparr>"
| "admissions_step s (OrphanApplied i) = show_form False (s\<lparr>ad_orphans := remove1 i (ad_orphans s), ad_toasts := Suc (ad_toasts s)\<rparr>)"
| "admissions_step s (OrphanApplyLost i) = s\<lparr>ad_orphans := remove1 i (ad_orphans s)\<rparr>"

section \<open>A card\<close>

text \<open>
  One application with its documents; \<open>None\<close> before the documents were read, which happens only
  once they are shown.
\<close>

datatype card_call = Accept | AddDoc jsstring jsstring | RemoveDoc jsstring

record card =
  cd_status :: jsstring
  cd_fee :: "rat option"
  cd_showDocs :: bool
  cd_docs :: "jsstring list option"
  cd_name :: jsstring
  cd_url :: jsstring
  cd_calls :: "card_call list"
  cd_orphans :: "card_call list"
  cd_sent :: "card_call list"
  cd_toasts :: "jsstring list"
  cd_location :: "jsstring option"

definition card0 :: "jsstring \<Rightarrow> rat option \<Rightarrow> card" where
  "card0 status fee = \<lparr>cd_status = status, cd_fee = fee, cd_showDocs = False, cd_docs = None, cd_name = [], cd_url = [], cd_calls = [], cd_orphans = [],
     cd_sent = [], cd_toasts = [], cd_location = None\<rparr>"

definition documents_label :: "card \<Rightarrow> jsstring" where
  "documents_label s = ''Documents ('' @ show_nat (case cd_docs s of None \<Rightarrow> 0 | Some ds \<Rightarrow> length ds) @ '')''"

text \<open>\<open>app.offer_fee ? \<dots>\<close>: a fee of zero shows no offer.\<close>

definition offer_shown :: "card \<Rightarrow> bool" where
  "offer_shown s = (cd_status s = ''OFFERED'' \<and> (case cd_fee s of None \<Rightarrow> False | Some f \<Rightarrow> f \<noteq> 0))"

datatype card_event =
    StatusKnown jsstring | DocsRead "jsstring list" | ToggleDocs | TypeName jsstring | TypeUrl jsstring | AddClick | RemoveClick jsstring
  | AcceptClick | AcceptDone jsstring | AcceptLost | DocDone card_call | DocLost card_call | OrphanSettled card_call

fun is_add :: "card_call \<Rightarrow> bool" where
  "is_add (AddDoc n u) = True"
| "is_add c = False"

definition card_view :: "card \<Rightarrow> card_event widget list" where
  "card_view s =
     [Btn (documents_label s) True ToggleDocs] @
     (if cd_showDocs s
      then map (\<lambda>d. Btn d True (RemoveClick d)) (case cd_docs s of None \<Rightarrow> [] | Some ds \<Rightarrow> ds) @
        (if cd_docs s = Some [] then [Txt ''No documents attached yet.''] else []) @
        [Btn ''Add'' (trim (cd_name s) \<noteq> [] \<and> trim (cd_url s) \<noteq> [] \<and> \<not> list_ex is_add (cd_calls s)) AddClick] else []) @
     (if cd_status s = ''OFFERED''
      then [Btn (if Accept \<in> set (cd_calls s) then ''Accepting'' @ ellipsis else ''Accept offer & enrol'') (Accept \<notin> set (cd_calls s)) AcceptClick] else [])"

fun card_guard :: "card \<Rightarrow> card_event \<Rightarrow> bool" where
  "card_guard s (StatusKnown t) = True"
| "card_guard s (DocsRead ds) = cd_showDocs s"
| "card_guard s (TypeName v) = cd_showDocs s"
| "card_guard s (TypeUrl v) = cd_showDocs s"
| "card_guard s (AcceptDone i) = (Accept \<in> set (cd_calls s))"
| "card_guard s AcceptLost = (Accept \<in> set (cd_calls s))"
| "card_guard s (DocDone c) = (c \<noteq> Accept \<and> c \<in> set (cd_calls s))"
| "card_guard s (DocLost c) = (c \<noteq> Accept \<and> c \<in> set (cd_calls s))"
| "card_guard s (OrphanSettled c) = (c \<in> set (cd_orphans s))"
| "card_guard s e = (e \<in> set (offered (card_view s)))"

definition card_send :: "card_call \<Rightarrow> card \<Rightarrow> card" where
  "card_send c s = s\<lparr>cd_calls := cd_calls s @ [c], cd_sent := cd_sent s @ [c]\<rparr>"

text \<open>Hiding the documents unmounts their panel.\<close>

definition toggle_docs :: "card \<Rightarrow> card" where
  "toggle_docs s =
     (if cd_showDocs s
      then s\<lparr>cd_showDocs := False, cd_name := [], cd_url := [], cd_calls := filter (\<lambda>c. c = Accept) (cd_calls s),
             cd_orphans := cd_orphans s @ filter (\<lambda>c. c \<noteq> Accept) (cd_calls s)\<rparr>
      else s\<lparr>cd_showDocs := True\<rparr>)"

fun card_step :: "card \<Rightarrow> card_event \<Rightarrow> card" where
  "card_step s (StatusKnown t) = s\<lparr>cd_status := t\<rparr>"
| "card_step s (DocsRead ds) = s\<lparr>cd_docs := Some ds\<rparr>"
| "card_step s ToggleDocs = toggle_docs s"
| "card_step s (TypeName v) = s\<lparr>cd_name := v\<rparr>"
| "card_step s (TypeUrl v) = s\<lparr>cd_url := v\<rparr>"
| "card_step s AddClick = card_send (AddDoc (cd_name s) (cd_url s)) s"
| "card_step s (RemoveClick d) = card_send (RemoveDoc d) s"
| "card_step s AcceptClick = card_send Accept s"
| "card_step s (AcceptDone i) =
     s\<lparr>cd_calls := remove1 Accept (cd_calls s), cd_toasts := cd_toasts s @ [''Offer accepted '' @ em_dash @ '' order created''], cd_location := Some (''/receipts/'' @ i)\<rparr>"
| "card_step s AcceptLost = s\<lparr>cd_calls := remove1 Accept (cd_calls s), cd_toasts := cd_toasts s @ [''Could not accept the offer'']\<rparr>"
| "card_step s (DocDone c) = (if is_add c then s\<lparr>cd_calls := remove1 c (cd_calls s), cd_name := [], cd_url := []\<rparr> else s\<lparr>cd_calls := remove1 c (cd_calls s)\<rparr>)"
| "card_step s (DocLost c) = s\<lparr>cd_calls := remove1 c (cd_calls s)\<rparr>"
| "card_step s (OrphanSettled c) = s\<lparr>cd_orphans := remove1 c (cd_orphans s)\<rparr>"

section \<open>The old name never shows\<close>

lemma to_upper_Cons: "to_upper (c # s) = to_upper [c] @ to_upper s"
  by (simp add: to_upper_def)

lemma to_upper_brand: "to_upper (brand @ s) = ''YK-VIRTUAL'' @ to_upper s"
proof -
  have "to_upper brand = ''YK-VIRTUAL''" by code_simp
  then show ?thesis by (simp add: to_upper_def)
qed

lemma rebrand_prefix: "CHR ''Y'' \<notin> set w \<Longrightarrow> prefix w (to_upper (rebrand s)) \<Longrightarrow> prefix w (to_upper s)"
proof (induction s arbitrary: w rule: rebrand.induct)
  case (1 s)
  show ?case
  proof (cases "s = [] \<or> w = []")
    case True
    then show ?thesis using "1.prems"(2) by (auto simp: rebrand.simps [of "[]"] to_upper_def)
  next
    case False
    then obtain c s' x w' where sw: "s = c # s'" "w = x # w'" by (meson neq_Nil_conv)
    show ?thesis
    proof (cases "to_upper (take 6 s) = ''NUVORA''")
      case True
      then have "rebrand s = brand @ rebrand (drop 6 s)" using False by (subst rebrand.simps) simp
      then show ?thesis using "1.prems" sw(2) to_upper_brand by simp
    next
      case n: False
      then have e: "rebrand s = c # rebrand s'" using sw(1) by (subst rebrand.simps) simp
      have "prefix w' (to_upper (rebrand s'))" "x = hd (to_upper [c])" using "1.prems"(2) e sw by (simp_all add: to_upper_def)
      then show ?thesis using "1.IH"(2) [of w'] False n "1.prems"(1) sw by (simp add: to_upper_def)
    qed
  qed
qed

lemma rebrand_clean: "\<not> sublist ''NUVORA'' (to_upper (rebrand s))"
proof (induction s rule: rebrand.induct)
  case (1 s)
  show ?case
  proof (cases "s = []")
    case True
    then show ?thesis by (simp add: rebrand.simps [of "[]"] to_upper_def)
  next
    case ne: False
    show ?thesis
    proof (cases "to_upper (take 6 s) = ''NUVORA''")
      case True
      then have "rebrand s = brand @ rebrand (drop 6 s)" using ne by (subst rebrand.simps) simp
      then have "to_upper (rebrand s) = ''YK-VIRTUAL'' @ to_upper (rebrand (drop 6 s))" using to_upper_brand by simp
      then show ?thesis using "1.IH"(1) [OF ne True] by (simp add: sublist_Cons_right)
    next
      case n: False
      then have e: "rebrand s = hd s # rebrand (tl s)" using ne by (subst rebrand.simps) simp
      have "\<not> prefix ''NUVORA'' (to_upper (rebrand s))"
      proof
        assume "prefix ''NUVORA'' (to_upper (rebrand s))"
        then have "prefix ''NUVORA'' (to_upper s)" by (rule rebrand_prefix [rotated]) simp
        then have "to_upper (take 6 s) = ''NUVORA''" by (auto simp: prefix_def to_upper_def take_map [symmetric])
        then show False using n by simp
      qed
      then show ?thesis using "1.IH"(2) [OF ne n] e by (simp add: to_upper_def sublist_Cons_right)
    qed
  qed
qed

text \<open>
  Whatever the service calls a plan, the account pages never show the old name: not in any mix
  of cases, nor put together from what a replacement leaves.
\<close>

theorem never_shows_nuvora: "\<not> sublist ''NUVORA'' (to_upper (plusDisplayName plan fallback))"
proof -
  have "to_upper ''YK-Virtual Plus'' = ''YK-VIRTUAL PLUS''" "to_upper ''YK-Virtual Plus Family'' = ''YK-VIRTUAL PLUS FAMILY''"
    "to_upper ''YK-Virtual Plus Teams'' = ''YK-VIRTUAL PLUS TEAMS''" by code_simp+
  then have "\<not> sublist ''NUVORA'' (to_upper t)" if "t \<in> {''YK-Virtual Plus'', ''YK-Virtual Plus Family'', ''YK-Virtual Plus Teams''}" for t
    using that by (auto simp: sublist_Cons_right)
  then show ?thesis using rebrand_clean unfolding plusDisplayName_def Let_def by (simp split: if_split)
qed

section \<open>Starting a membership\<close>

definition plus_inv :: "plus_page \<Rightarrow> bool" where
  "plus_inv s = (length (filter is_start (pp_calls s)) \<le> 1 \<and> length (filter (\<lambda>c. c = CancelPlus) (pp_calls s)) \<le> 1)"

lemma plus_offers:
  "StartClick \<in> set (offered (plus_view s)) \<Longrightarrow> \<not> list_ex is_start (pp_calls s)"
  "CancelClick \<in> set (offered (plus_view s)) \<Longrightarrow> CancelPlus \<notin> set (pp_calls s)"
  unfolding plus_view_def in_offered by (auto split: option.splits bool.splits if_splits)

lemma no_start: "\<not> list_ex is_start cs \<Longrightarrow> filter is_start cs = []"
  by (induction cs) auto

lemma one_less: "length (filter P cs) \<le> Suc 0 \<Longrightarrow> P c \<Longrightarrow> c \<in> set cs \<Longrightarrow> filter P (remove1 c cs) = []"
proof -
  assume a: "length (filter P cs) \<le> Suc 0" "P c" "c \<in> set cs"
  then have "c \<in> set (filter P cs)" by simp
  then have "filter P cs = [c]" using a(1) by (cases "filter P cs") auto
  then show ?thesis using a(2) by (simp add: filter_remove1)
qed

lemma fewer: "length (filter P cs) \<le> Suc 0 \<Longrightarrow> length (filter P (remove1 c cs)) \<le> Suc 0"
  by (simp add: filter_remove1 length_remove1)

lemma plus_inv_step: "plus_inv s \<Longrightarrow> plus_guard s e \<Longrightarrow> plus_inv (plus_step s e)"
proof (cases e)
  case StartClick
  assume "plus_inv s" "plus_guard s e"
  then show ?thesis using StartClick plus_offers(1) [of s] by (simp add: plus_inv_def plus_send_def no_start)
next
  case CancelClick
  assume "plus_inv s" "plus_guard s e"
  then show ?thesis using CancelClick plus_offers(2) [of s] by (simp add: plus_inv_def plus_send_def filter_empty_conv) (metis (mono_tags) filter_False list.size(3) nat_less_le not_less_eq_eq zero_le)
next
  case (Purchased c m i)
  assume "plus_inv s" "plus_guard s e"
  then show ?thesis using Purchased by (simp add: plus_inv_def plus_send_def plus_gone_def one_less fewer)
qed (simp_all add: plus_inv_def plus_gone_def plus_toast_def fewer Let_def)

interpretation membership: bounded_machine "\<lambda>s. s = plus_page0" plus_guard plus_step plus_inv "\<lambda>s. length (filter is_start (pp_calls s))" 1
proof unfold_locales
  fix s assume "s = plus_page0"
  then show "plus_inv s" by (simp add: plus_inv_def plus_page0_def)
next
  fix s e assume "plus_inv s" "plus_guard s e"
  then show "plus_inv (plus_step s e)" by (rule plus_inv_step)
next
  fix s assume "plus_inv s"
  then show "length (filter is_start (pp_calls s)) \<le> 1" by (simp add: plus_inv_def)
qed

text \<open>
  One start of a membership is under way at a time: a trial, an order or the payment of one;
  and one cancellation.
\<close>

theorem one_membership_start:
  assumes "reach (\<lambda>s. s = plus_page0) plus_guard plus_step s"
  shows "length (filter is_start (pp_calls s)) \<le> 1 \<and> length (filter (\<lambda>c. c = CancelPlus) (pp_calls s)) \<le> 1"
  using membership.reach_inv [OF assms] by (simp add: plus_inv_def)

definition paying :: "plus_event list" where
  "paying = [StatusRead False, UserKnown (Some ''a@b''), ToggleTrial, StartClick, Purchased ''PLUS'' ''a@b'' ''o1'']"

theorem one_membership_start_witness:
  "(let s = run plus_step plus_page0 paying in pp_calls s = [Initiate ''o1'' ''a@b''] \<and> length (filter is_start (pp_calls s)) \<le> 1)"
proof -
  have f: "allowed plus_guard plus_step plus_page0 paying" "pp_calls (run plus_step plus_page0 paying) = [Initiate ''o1'' ''a@b'']" by code_simp+
  from one_membership_start [OF run_reachable [OF refl f(1)]] f(2) show ?thesis unfolding Let_def by blast
qed

text \<open>
  A payment that cannot be started leaves its order behind: the next click orders again. The
  same holds, without a word, when the answer has no link.
\<close>

theorem failed_link_orders_again:
  assumes "pp_active s = Some False" "\<not> pp_trial s" "pp_calls s = [Initiate i m]" "ev \<in> {LinkLost i m, LinkReady i m []}"
  shows "allowed plus_guard plus_step s [ev, StartClick] \<and>
     pp_sent (run plus_step s [ev, StartClick]) = pp_sent s @ [Purchase (pp_code s) (case pp_email s of Some x \<Rightarrow> x | None \<Rightarrow> [])] \<and>
     pp_opened (run plus_step s [ev, StartClick]) = pp_opened s"
proof -
  have "StartClick \<in> set (offered (plus_view t))" if "pp_active t = Some False" "pp_calls t = []" for t
    using that unfolding plus_view_def in_offered by simp
  then show ?thesis using assms by (auto simp: plus_send_def plus_gone_def plus_toast_def)
qed

theorem failed_link_orders_again_witness:
  "pp_sent (run plus_step (run plus_step plus_page0 paying) [LinkReady ''o1'' ''a@b'' [], StartClick]) =
     [Purchase ''PLUS'' ''a@b'', Initiate ''o1'' ''a@b'', Purchase ''PLUS'' ''a@b'']"
proof -
  let ?s = "run plus_step plus_page0 paying"
  have f: "pp_active ?s = Some False" "\<not> pp_trial ?s" "pp_calls ?s = [Initiate ''o1'' ''a@b'']" "pp_code ?s = ''PLUS''" "pp_email ?s = Some ''a@b''"
    "pp_sent ?s = [Purchase ''PLUS'' ''a@b'', Initiate ''o1'' ''a@b'']" by code_simp+
  have "LinkReady ''o1'' ''a@b'' [] \<in> {LinkLost ''o1'' ''a@b'', LinkReady ''o1'' ''a@b'' []}" by simp
  from failed_link_orders_again [OF f(1-3) this] f(4-6) show ?thesis by (simp del: run.simps)
qed

text \<open>The card of the learning plan stays with the first learner that was read; no other can be chosen.\<close>

theorem plan_of_first_learner:
  "plan_learner (plan_learner [] (l # ls)) ls' = (if l = [] then plan_learner [] ls' else l)"
  by (simp add: plan_learner_def)

section \<open>Applying\<close>

definition apply_sound :: "apply_input \<Rightarrow> bool" where
  "apply_sound i = (ai_student i \<noteq> [] \<and> Some [] \<notin> {ai_name i, ai_level i, ai_term i, ai_notes i})"

definition admissions_inv :: "admissions \<Rightarrow> bool" where
  "admissions_inv s = (length (ad_calls s) \<le> 1 \<and> list_all apply_sound (ad_sent s) \<and> (\<not> ad_show s \<longrightarrow> ad_calls s = []))"

lemma admissions_offers:
  "SubmitApply \<in> set (offered (admissions_view s)) \<Longrightarrow> ap_student (ad_form s) \<noteq> [] \<and> ad_calls s = [] \<and> ad_show s"
  unfolding admissions_view_def in_offered by (auto split: if_splits)

lemma admissions_inv_show: "admissions_inv s \<Longrightarrow> admissions_inv (show_form b s)"
  by (simp add: admissions_inv_def show_form_def)

lemma admissions_inv_step: "admissions_inv s \<Longrightarrow> admissions_guard s e \<Longrightarrow> admissions_inv (admissions_step s e)"
proof (cases e)
  case SubmitApply
  assume i: "admissions_inv s" "admissions_guard s e"
  then show ?thesis using SubmitApply admissions_offers [of s]
    by (auto simp: admissions_inv_def Let_def apply_sound_def apply_input_of_def unless_empty_def)
next
  case (Applied i)
  assume a: "admissions_inv s"
  then have "admissions_inv (s\<lparr>ad_calls := remove1 i (ad_calls s), ad_toasts := Suc (ad_toasts s)\<rparr>)" by (auto simp: admissions_inv_def length_remove1)
  then show ?thesis using Applied admissions_inv_show by simp
next
  case (OrphanApplied i)
  assume a: "admissions_inv s"
  then have "admissions_inv (s\<lparr>ad_orphans := remove1 i (ad_orphans s), ad_toasts := Suc (ad_toasts s)\<rparr>)" by (simp add: admissions_inv_def)
  then show ?thesis using OrphanApplied admissions_inv_show by simp
next
  case ToggleForm
  assume "admissions_inv s"
  then show ?thesis using ToggleForm admissions_inv_show by simp
next
  case CancelApply
  assume "admissions_inv s"
  then show ?thesis using CancelApply admissions_inv_show by simp
qed (auto simp: admissions_inv_def length_remove1)

interpretation applications: machine "\<lambda>s. s = admissions0" admissions_guard admissions_step admissions_inv
proof unfold_locales
  fix s assume "s = admissions0"
  then show "admissions_inv s" by (simp add: admissions_inv_def admissions0_def)
next
  fix s e assume "admissions_inv s" "admissions_guard s e"
  then show "admissions_inv (admissions_step s e)" by (rule admissions_inv_step)
qed

text \<open>Every application names a learner and no empty detail; a form has one of them in flight.\<close>

theorem applications_sound:
  assumes "reach (\<lambda>s. s = admissions0) admissions_guard admissions_step s"
  shows "list_all apply_sound (ad_sent s) \<and> length (ad_calls s) \<le> 1"
  using applications.reach_inv [OF assms] by (simp add: admissions_inv_def)

definition applying :: "admission_event list" where
  "applying = [LearnersKnown [''l1''], ToggleForm, EditApply (apply_form0\<lparr>ap_student := ''l1''\<rparr>), SubmitApply]"

theorem applications_sound_witness:
  "(let s = run admissions_step admissions0 applying in map ai_student (ad_sent s) = [''l1''] \<and> list_all apply_sound (ad_sent s))"
proof -
  have f: "allowed admissions_guard admissions_step admissions0 applying" "map ai_student (ad_sent (run admissions_step admissions0 applying)) = [''l1'']" by code_simp+
  from applications_sound [OF run_reachable [OF refl f(1)]] f(2) show ?thesis unfolding Let_def by blast
qed

text \<open>
  Cancelling does not recall an application that is on its way: it is made all the same, and its
  success closes the form that was opened since, with what was typed there.
\<close>

theorem cancelled_application_comes_back:
  assumes "ad_show s" "ad_calls s = [i]" "ap_student f = []"
  shows "allowed admissions_guard admissions_step s [CancelApply, ToggleForm, EditApply f, OrphanApplied i] \<and>
     \<not> ad_show (run admissions_step s [CancelApply, ToggleForm, EditApply f, OrphanApplied i]) \<and>
     ad_form (run admissions_step s [CancelApply, ToggleForm, EditApply f, OrphanApplied i]) = apply_form0 \<and>
     ad_toasts (run admissions_step s [CancelApply, ToggleForm, EditApply f, OrphanApplied i]) = Suc (ad_toasts s)"
proof -
  have "CancelApply \<in> set (offered (admissions_view s))" using assms(1) unfolding admissions_view_def in_offered by simp
  moreover have "ToggleForm \<in> set (offered (admissions_view t))" for t unfolding admissions_view_def in_offered by simp
  ultimately show ?thesis using assms by (simp add: show_form_def)
qed

theorem cancelled_application_comes_back_witness:
  "ad_toasts (run admissions_step (run admissions_step admissions0 applying)
     [CancelApply, ToggleForm, EditApply (apply_form0\<lparr>ap_notes := ''x''\<rparr>), OrphanApplied (apply_input_of (apply_form0\<lparr>ap_student := ''l1''\<rparr>))]) = 1"
proof -
  let ?s = "run admissions_step admissions0 applying"
  have f: "ad_show ?s" "ad_calls ?s = [apply_input_of (apply_form0\<lparr>ap_student := ''l1''\<rparr>)]" "ap_student (apply_form0\<lparr>ap_notes := ''x''\<rparr>) = []" "ad_toasts ?s = 0" by code_simp+
  from cancelled_application_comes_back [OF f(1-3)] f(4) show ?thesis by (simp del: run.simps)
qed

section \<open>Offers and documents\<close>

text \<open>
  Only an offer can be accepted, once at a time; a free offer can be, too, but nothing is shown
  of it.
\<close>

theorem only_offers_accepted:
  assumes "card_guard s AcceptClick"
  shows "cd_status s = ''OFFERED'' \<and> Accept \<notin> set (cd_calls s) \<and> (if cd_fee s = Some 0 then \<not> offer_shown s else True)"
proof -
  have "AcceptClick \<in> set (offered (card_view s))" using assms by simp
  then show ?thesis unfolding card_view_def in_offered by (auto simp: offer_shown_def split: if_splits option.splits)
qed

theorem only_offers_accepted_witness:
  "cd_status (card0 ''OFFERED'' None) = ''OFFERED''"
proof -
  have "card_guard (card0 ''OFFERED'' None) AcceptClick" by code_simp
  from only_offers_accepted [OF this] show ?thesis by blast
qed

text \<open>What was typed while a document is being added is lost when it was added.\<close>

theorem late_document_clears_typing:
  assumes "cd_showDocs s" "AddDoc n u \<in> set (cd_calls s)"
  shows "allowed card_guard card_step s [TypeName v, DocDone (AddDoc n u)] \<and> cd_name (run card_step s [TypeName v, DocDone (AddDoc n u)]) = []"
  using assms by simp

theorem late_document_clears_typing_witness:
  "cd_name (run card_step (run card_step (card0 ''PENDING'' None) [ToggleDocs, TypeName ''a'', TypeUrl ''b'', AddClick]) [TypeName ''next'', DocDone (AddDoc ''a'' ''b'')]) = []"
proof -
  have "cd_showDocs (run card_step (card0 ''PENDING'' None) [ToggleDocs, TypeName ''a'', TypeUrl ''b'', AddClick])"
    "AddDoc ''a'' ''b'' \<in> set (cd_calls (run card_step (card0 ''PENDING'' None) [ToggleDocs, TypeName ''a'', TypeUrl ''b'', AddClick]))" by code_simp+
  from late_document_clears_typing [OF this, of "''next''"] show ?thesis by blast
qed

end
