(* ===== verification/CatalogueConsole.thy ===== *)
theory CatalogueConsole
  imports Machine JsDecimal HelpKb LoginCode Http
begin

text \<open>
  The administrators' programmes (\<open>client/app/admin/programmes/page.tsx\<close>) and tutors
  (\<open>client/app/admin/tutors/page.tsx\<close>). The programmes page is composed with what the service does
  with its requests: the list, the creation, the update and the change of status of
  \<open>internal/service/admin_service.go\<close> and of the programme repositories. An answer of the list may
  be any list that the service has had, since it is cached.
\<close>

section \<open>Programmes in the service\<close>

datatype programme_status = Pg_Draft | Pg_Published | Pg_Archived

record programme =
  pg_id :: jsstring
  pg_title :: jsstring
  pg_slug :: jsstring
  pg_summary :: "jsstring option"
  pg_description :: "jsstring option"
  pg_format :: jsstring
  pg_status :: programme_status
  pg_min :: "rat option"
  pg_max :: "rat option"
  pg_currency :: jsstring
  pg_featured :: bool

text \<open>Bodies: a price of \<open>Some None\<close> is \<open>NaN\<close>, which is sent as \<open>null\<close>.\<close>

record programme_new =
  pn_title :: jsstring
  pn_slug :: "jsstring option"
  pn_summary :: "jsstring option"
  pn_format :: jsstring
  pn_currency :: jsstring
  pn_min :: "rat option option"
  pn_max :: "rat option option"

record programme_edit =
  pe_title :: jsstring
  pe_summary :: jsstring
  pe_description :: "jsstring option"
  pe_min :: "rat option"
  pe_max :: "rat option"
  pe_currency :: jsstring
  pe_featured :: bool

text \<open>The public list: published programmes, the featured ones first, at most a hundred. The store has its newest first.\<close>

definition listProgrammes :: "programme list \<Rightarrow> programme list" where
  "listProgrammes ps =
     (let pub = filter (\<lambda>p. pg_status p = Pg_Published) ps in take 100 (filter pg_featured pub @ filter (\<lambda>p. \<not> pg_featured p) pub))"

definition slug_for :: "programme_new \<Rightarrow> jsstring" where
  "slug_for i = (let s = (case pn_slug i of Some t \<Rightarrow> trim t | None \<Rightarrow> []) in if s = [] then slugify (pn_title i) else s)"

text \<open>\<open>null\<close> and an absent price are both \<open>nil\<close>.\<close>

definition given_price :: "rat option option \<Rightarrow> rat option" where
  "given_price p = (case p of Some x \<Rightarrow> x | None \<Rightarrow> None)"

definition CreateProgrammeAdmin :: "jsstring \<Rightarrow> programme_new \<Rightarrow> programme list \<Rightarrow> programme list option" where
  "CreateProgrammeAdmin i b ps =
     (if trim (pn_title b) = [] \<or> length (trim (pn_title b)) > 255 then None
      else if length (slug_for b) < 2 \<or> length (slug_for b) > 255 then None
      else if (case (given_price (pn_min b), given_price (pn_max b)) of (Some lo, Some hi) \<Rightarrow> hi < lo | _ \<Rightarrow> False) then None
      else if slug_for b \<in> pg_slug ` set ps \<or> i \<in> pg_id ` set ps then None
      else Some (\<lparr>pg_id = i, pg_title = trim (pn_title b), pg_slug = slug_for b, pg_summary = pn_summary b, pg_description = None,
        pg_format = (if pn_format b = [] then ''COHORT'' else pn_format b), pg_status = Pg_Draft, pg_min = given_price (pn_min b), pg_max = given_price (pn_max b),
        pg_currency = (if pn_currency b = [] then ''NGN'' else pn_currency b), pg_featured = False\<rparr> # ps))"

definition positive_price :: "rat option \<Rightarrow> rat option" where
  "positive_price p = (case p of Some x \<Rightarrow> if 0 < x then Some x else None | None \<Rightarrow> None)"

definition edited :: "programme_edit \<Rightarrow> programme \<Rightarrow> programme" where
  "edited b p = p\<lparr>pg_title := trim (pe_title b), pg_summary := (if trim (pe_summary b) \<noteq> [] then Some (pe_summary b) else None),
     pg_description := pe_description b, pg_min := positive_price (pe_min b), pg_max := positive_price (pe_max b), pg_currency := pe_currency b,
     pg_featured := pe_featured b\<rparr>"

definition at_id :: "jsstring \<Rightarrow> (programme \<Rightarrow> programme) \<Rightarrow> programme list \<Rightarrow> programme list" where
  "at_id i f ps = map (\<lambda>p. if pg_id p = i then f p else p) ps"

definition UpdateProgrammeAdmin :: "jsstring \<Rightarrow> programme_edit \<Rightarrow> programme list \<Rightarrow> programme list option" where
  "UpdateProgrammeAdmin i b ps = (if trim (pe_title b) = [] \<or> i \<notin> pg_id ` set ps then None else Some (at_id i (edited b) ps))"

definition SetProgrammeStatusAdmin :: "jsstring \<Rightarrow> programme_status \<Rightarrow> programme list \<Rightarrow> programme list option" where
  "SetProgrammeStatusAdmin i t ps = (if i \<notin> pg_id ` set ps then None else Some (at_id i (\<lambda>p. p\<lparr>pg_status := t\<rparr>) ps))"

section \<open>The forms\<close>

record create_form =
  cf_title :: jsstring
  cf_slug :: jsstring
  cf_summary :: jsstring
  cf_format :: jsstring
  cf_currency :: jsstring
  cf_min :: jsstring
  cf_max :: jsstring

definition create_form0 :: create_form where
  "create_form0 = \<lparr>cf_title = [], cf_slug = [], cf_summary = [], cf_format = ''COHORT'', cf_currency = ''NGN'', cf_min = [], cf_max = []\<rparr>"

definition if_any :: "jsstring \<Rightarrow> jsstring option" where
  "if_any v = (if v = [] then None else Some v)"

definition price_if_any :: "jsstring \<Rightarrow> rat option option" where
  "price_if_any v = (if v = [] then None else Some (js_number v))"

definition create_body :: "create_form \<Rightarrow> programme_new" where
  "create_body f = \<lparr>pn_title = trim (cf_title f), pn_slug = if_any (trim (cf_slug f)), pn_summary = if_any (trim (cf_summary f)), pn_format = cf_format f,
     pn_currency = (if cf_currency f = [] then ''NGN'' else cf_currency f), pn_min = price_if_any (cf_min f), pn_max = price_if_any (cf_max f)\<rparr>"

record edit_form =
  ef_title :: jsstring
  ef_summary :: jsstring
  ef_currency :: jsstring
  ef_min :: jsstring
  ef_max :: jsstring

definition edit_form_of :: "programme \<Rightarrow> edit_form" where
  "edit_form_of p = \<lparr>ef_title = pg_title p, ef_summary = (case pg_summary p of Some t \<Rightarrow> t | None \<Rightarrow> []),
     ef_currency = (if pg_currency p = [] then ''NGN'' else pg_currency p),
     ef_min = (case pg_min p of Some r \<Rightarrow> price_text r | None \<Rightarrow> []), ef_max = (case pg_max p of Some r \<Rightarrow> price_text r | None \<Rightarrow> [])\<rparr>"

definition price_or_zero :: "jsstring \<Rightarrow> rat option" where
  "price_or_zero v = (if v = [] then Some 0 else js_number v)"

definition edit_body :: "edit_form \<Rightarrow> programme_edit" where
  "edit_body f = \<lparr>pe_title = trim (ef_title f), pe_summary = trim (ef_summary f), pe_description = None, pe_min = price_or_zero (ef_min f),
     pe_max = price_or_zero (ef_max f), pe_currency = (if ef_currency f = [] then ''NGN'' else ef_currency f), pe_featured = False\<rparr>"

section \<open>The programmes page\<close>

datatype programme_call = CreateCall programme_new | EditCall nat jsstring programme_edit | StatusCall jsstring programme_status

fun is_create :: "programme_call \<Rightarrow> bool" where
  "is_create (CreateCall b) = True"
| "is_create c = False"

fun dialog_of :: "programme_call \<Rightarrow> nat option" where
  "dialog_of (EditCall n i b) = Some n"
| "dialog_of c = None"

record edit_dialog =
  dl_no :: nat
  dl_id :: jsstring
  dl_form :: edit_form
  dl_busy :: bool
  dl_error :: "jsstring option"

record programmes_page =
  pp_rows :: "programme list"
  pp_creating :: bool
  pp_form :: create_form
  pp_error :: "jsstring option"
  pp_busy :: bool
  pp_refetching :: bool \<comment> \<open>the creation has been answered, and waits for the list\<close>
  pp_dialog :: "edit_dialog option"
  pp_made :: nat
  pp_calls :: "programme_call list"
  pp_sent :: "programme_call list"
  pp_toasts :: "jsstring list"
  sv_programmes :: "programme list" \<comment> \<open>the service's store\<close>
  sv_lists :: "programme list list" \<comment> \<open>the lists it has had\<close>

definition programmes_page0 :: "programme list \<Rightarrow> programmes_page" where
  "programmes_page0 ps = \<lparr>pp_rows = [], pp_creating = False, pp_form = create_form0, pp_error = None, pp_busy = False, pp_refetching = False,
     pp_dialog = None, pp_made = 0, pp_calls = [], pp_sent = [], pp_toasts = [], sv_programmes = ps, sv_lists = [listProgrammes ps]\<rparr>"

datatype programmes_event =
    RowsRead "programme list" | OpenCreate | CloseCreate | TypeNew create_form | SubmitNew
  | OpenEdit programme | CloseEdit | TypeEdit edit_form | SubmitEdit | StatusClick jsstring programme_status
  | Answered programme_call jsstring | Refused programme_call js_exn | LostAfter programme_call jsstring js_exn | CreateSettled

definition status_button :: "programme \<Rightarrow> programmes_event widget list" where
  "status_button p =
     (case pg_status p of
        Pg_Draft \<Rightarrow> [Btn ''Publish'' True (StatusClick (pg_id p) Pg_Published)]
      | Pg_Published \<Rightarrow> [Btn ''Archive'' True (StatusClick (pg_id p) Pg_Archived)]
      | Pg_Archived \<Rightarrow> [Btn ''Restore'' True (StatusClick (pg_id p) Pg_Draft)])"

definition programmes_view :: "programmes_page \<Rightarrow> programmes_event widget list" where
  "programmes_view s =
     (if pp_creating s
      then [Btn (if pp_busy s then ''Creating'' @ ellipsis else ''Create DRAFT programme'') (\<not> pp_busy s) SubmitNew, Btn ''Cancel'' True CloseCreate]
      else case pp_dialog s of
        Some d \<Rightarrow> [Btn ''Close'' True CloseEdit, Btn (if dl_busy d then ''Saving'' @ ellipsis else ''Save changes'') (\<not> dl_busy d) SubmitEdit]
      | None \<Rightarrow> Btn ''Create programme'' True OpenCreate #
          (if pp_rows s = [] then [Txt ''No programmes yet'']
           else concat (map (\<lambda>p. [Txt (pg_title p), Btn ''Edit'' True (OpenEdit p)] @ status_button p) (pp_rows s))))"

text \<open>What the service does with a request; the id is the one it gives a new programme.\<close>

definition serve :: "programme_call \<Rightarrow> jsstring \<Rightarrow> programme list \<Rightarrow> programme list option" where
  "serve c i ps =
     (case c of
        CreateCall b \<Rightarrow> CreateProgrammeAdmin i b ps
      | EditCall n j b \<Rightarrow> UpdateProgrammeAdmin j b ps
      | StatusCall j t \<Rightarrow> SetProgrammeStatusAdmin j t ps)"

fun programmes_guard :: "programmes_page \<Rightarrow> programmes_event \<Rightarrow> bool" where
  "programmes_guard s (RowsRead ps) = (ps \<in> set (sv_lists s))"
| "programmes_guard s (TypeNew f) = pp_creating s"
| "programmes_guard s (TypeEdit f) = (\<not> pp_creating s \<and> pp_dialog s \<noteq> None)"
| "programmes_guard s (Answered c i) = (c \<in> set (pp_calls s) \<and> serve c i (sv_programmes s) \<noteq> None)"
| "programmes_guard s (Refused c e) = (c \<in> set (pp_calls s))"
| "programmes_guard s (LostAfter c i e) = (c \<in> set (pp_calls s) \<and> serve c i (sv_programmes s) \<noteq> None)"
| "programmes_guard s CreateSettled = pp_refetching s"
| "programmes_guard s e = (e \<in> set (offered (programmes_view s)))"

definition page_send :: "programme_call \<Rightarrow> programmes_page \<Rightarrow> programmes_page" where
  "page_send c s = s\<lparr>pp_calls := pp_calls s @ [c], pp_sent := pp_sent s @ [c]\<rparr>"

definition stored :: "programme list \<Rightarrow> programmes_page \<Rightarrow> programmes_page" where
  "stored ps s = s\<lparr>sv_programmes := ps, sv_lists := listProgrammes ps # sv_lists s\<rparr>"

definition in_dialog :: "nat \<Rightarrow> (edit_dialog \<Rightarrow> edit_dialog) \<Rightarrow> programmes_page \<Rightarrow> programmes_page" where
  "in_dialog n f s = (case pp_dialog s of Some d \<Rightarrow> if dl_no d = n then s\<lparr>pp_dialog := Some (f d)\<rparr> else s | None \<Rightarrow> s)"

definition toast :: "jsstring \<Rightarrow> programmes_page \<Rightarrow> programmes_page" where
  "toast m s = s\<lparr>pp_toasts := pp_toasts s @ [m]\<rparr>"

definition call_gone :: "programme_call \<Rightarrow> programmes_page \<Rightarrow> programmes_page" where
  "call_gone c s = s\<lparr>pp_calls := remove1 c (pp_calls s)\<rparr>"

text \<open>The success and the failure of a request. An edit that succeeds closes whatever dialog is open.\<close>

definition on_success :: "programme_call \<Rightarrow> programmes_page \<Rightarrow> programmes_page" where
  "on_success c s =
     (case c of
        CreateCall b \<Rightarrow> toast (''Programme \"'' @ trim (pn_title b) @ ''\" created (DRAFT)'') (s\<lparr>pp_refetching := True\<rparr>)
      | EditCall n j b \<Rightarrow> toast ''Programme updated'' (s\<lparr>pp_dialog := None\<rparr>)
      | StatusCall j t \<Rightarrow> toast ''Programme status updated'' s)"

definition on_failure :: "programme_call \<Rightarrow> js_exn \<Rightarrow> programmes_page \<Rightarrow> programmes_page" where
  "on_failure c e s =
     (case c of
        CreateCall b \<Rightarrow> s\<lparr>pp_error := Some (message_or ''Could not create programme'' e), pp_busy := False\<rparr>
      | EditCall n j b \<Rightarrow> in_dialog n (\<lambda>d. d\<lparr>dl_error := Some (message_or ''Could not save'' e), dl_busy := False\<rparr>) s
      | StatusCall j t \<Rightarrow> toast (message_or ''Could not update status'' e) s)"

definition submit_new :: "programmes_page \<Rightarrow> programmes_page" where
  "submit_new s =
     (if trim (cf_title (pp_form s)) = [] then s\<lparr>pp_error := Some ''Title is required''\<rparr>
      else page_send (CreateCall (create_body (pp_form s))) (s\<lparr>pp_busy := True, pp_error := None\<rparr>))"

definition submit_edit :: "programmes_page \<Rightarrow> programmes_page" where
  "submit_edit s =
     (case pp_dialog s of
        None \<Rightarrow> s
      | Some d \<Rightarrow>
          if trim (ef_title (dl_form d)) = [] then s\<lparr>pp_dialog := Some (d\<lparr>dl_error := Some ''Title is required''\<rparr>)\<rparr>
          else page_send (EditCall (dl_no d) (dl_id d) (edit_body (dl_form d))) (s\<lparr>pp_dialog := Some (d\<lparr>dl_busy := True, dl_error := None\<rparr>)\<rparr>))"

fun programmes_step :: "programmes_page \<Rightarrow> programmes_event \<Rightarrow> programmes_page" where
  "programmes_step s (RowsRead ps) = s\<lparr>pp_rows := ps\<rparr>"
| "programmes_step s OpenCreate = s\<lparr>pp_error := None, pp_creating := True\<rparr>"
| "programmes_step s CloseCreate = s\<lparr>pp_creating := False\<rparr>"
| "programmes_step s (TypeNew f) = s\<lparr>pp_form := f\<rparr>"
| "programmes_step s SubmitNew = submit_new s"
| "programmes_step s (OpenEdit p) =
     s\<lparr>pp_dialog := Some \<lparr>dl_no = pp_made s, dl_id = pg_id p, dl_form = edit_form_of p, dl_busy = False, dl_error = None\<rparr>, pp_made := pp_made s + 1\<rparr>"
| "programmes_step s CloseEdit = s\<lparr>pp_dialog := None\<rparr>"
| "programmes_step s (TypeEdit f) = (case pp_dialog s of Some d \<Rightarrow> s\<lparr>pp_dialog := Some (d\<lparr>dl_form := f\<rparr>)\<rparr> | None \<Rightarrow> s)"
| "programmes_step s SubmitEdit = submit_edit s"
| "programmes_step s (StatusClick i t) = page_send (StatusCall i t) s"
| "programmes_step s (Answered c i) =
     (case serve c i (sv_programmes s) of Some ps \<Rightarrow> on_success c (stored ps (call_gone c s)) | None \<Rightarrow> s)"
| "programmes_step s (Refused c e) = on_failure c e (call_gone c s)"
| "programmes_step s (LostAfter c i e) =
     (case serve c i (sv_programmes s) of Some ps \<Rightarrow> on_failure c e (stored ps (call_gone c s)) | None \<Rightarrow> s)"
| "programmes_step s CreateSettled = s\<lparr>pp_refetching := False, pp_creating := False, pp_form := create_form0, pp_busy := False\<rparr>"

section \<open>What can be published\<close>

definition published_ids :: "programme list \<Rightarrow> jsstring set" where
  "published_ids ps = pg_id ` set (filter (\<lambda>p. pg_status p = Pg_Published) ps)"

fun archives :: "programme_call \<Rightarrow> bool" where
  "archives (StatusCall i t) = (t = Pg_Archived)"
| "archives c = True"

fun archives_only :: "programmes_event \<Rightarrow> bool" where
  "archives_only (StatusClick i t) = (t = Pg_Archived)"
| "archives_only e = True"

definition all_published :: "programme list \<Rightarrow> bool" where
  "all_published ps = list_all (\<lambda>p. pg_status p = Pg_Published) ps"

lemma listed_published: "all_published (listProgrammes ps)"
  by (auto simp: all_published_def listProgrammes_def Let_def list_all_iff dest: in_set_takeD)

lemma at_id_published:
  "(\<And>p. pg_id (f p) = pg_id p) \<Longrightarrow> (\<And>p. pg_status (f p) = Pg_Published \<Longrightarrow> pg_status p = Pg_Published) \<Longrightarrow>
     published_ids (at_id i f ps) \<subseteq> published_ids ps"
  by (auto simp: published_ids_def at_id_def image_iff split: if_splits)

lemma serve_published:
  assumes "serve c i ps = Some qs" "archives c"
  shows "published_ids qs \<subseteq> published_ids ps"
proof (cases c)
  case (CreateCall b)
  then show ?thesis using assms by (auto simp: serve_def CreateProgrammeAdmin_def published_ids_def split: if_splits)
next
  case (EditCall n j b)
  then show ?thesis using assms at_id_published [of "edited b" j ps]
    by (auto simp: serve_def UpdateProgrammeAdmin_def edited_def split: if_splits)
next
  case (StatusCall j t)
  then show ?thesis using assms at_id_published [of "\<lambda>p. p\<lparr>pg_status := t\<rparr>" j ps]
    by (auto simp: serve_def SetProgrammeStatusAdmin_def split: if_splits)
qed

definition listing_inv :: "jsstring set \<Rightarrow> programmes_page \<Rightarrow> bool" where
  "listing_inv ids s =
     (all_published (pp_rows s) \<and> list_all all_published (sv_lists s) \<and> published_ids (sv_programmes s) \<subseteq> ids \<and>
      list_all archives (pp_calls s) \<and> list_all archives (pp_sent s))"

lemma listing_fields [simp]:
  "listing_inv ids (toast m s) = listing_inv ids s" "listing_inv ids (in_dialog n f s) = listing_inv ids s"
  "listing_inv ids (on_failure c e s) = listing_inv ids s" "listing_inv ids (on_success c s) = listing_inv ids s"
  by (auto simp: listing_inv_def toast_def in_dialog_def on_failure_def on_success_def split: option.split programme_call.split)

lemma listing_gone: "listing_inv ids s \<Longrightarrow> listing_inv ids (call_gone c s)"
  by (auto simp: listing_inv_def call_gone_def list_all_iff dest: set_remove1_subset [THEN subsetD])

lemma listing_stored:
  "listing_inv ids s \<Longrightarrow> serve c i (sv_programmes s) = Some ps \<Longrightarrow> archives c \<Longrightarrow> listing_inv ids (stored ps s)"
  using serve_published [of c i "sv_programmes s" ps] by (auto simp: listing_inv_def stored_def listed_published)

lemma listing_offers: "all_published (pp_rows s) \<Longrightarrow> list_all archives_only (offered (programmes_view s))"
  by (auto simp: programmes_view_def status_button_def all_published_def list_all_iff split: option.split programme_status.split)

lemma listing_step:
  assumes "listing_inv ids s" "programmes_guard s e"
  shows "listing_inv ids (programmes_step s e)"
proof (cases e)
  case (StatusClick i t)
  then have "t = Pg_Archived" using assms listing_offers [of s] by (auto simp: listing_inv_def list_all_iff)
  then show ?thesis using assms StatusClick by (auto simp: listing_inv_def page_send_def)
next
  case (Answered c i)
  then have "archives c" using assms by (auto simp: listing_inv_def list_all_iff)
  then show ?thesis using assms Answered listing_gone [OF assms(1), of c] listing_stored [of ids "call_gone c s" c i]
    by (auto simp: call_gone_def split: option.split)
next
  case (LostAfter c i x)
  then have "archives c" using assms by (auto simp: listing_inv_def list_all_iff)
  then show ?thesis using assms LostAfter listing_gone [OF assms(1), of c] listing_stored [of ids "call_gone c s" c i]
    by (auto simp: call_gone_def split: option.split)
next
  case (Refused c x)
  then show ?thesis using listing_gone [OF assms(1), of c] by simp
qed (use assms in \<open>auto simp: listing_inv_def page_send_def submit_new_def submit_edit_def list_all_iff split: option.split\<close>)

lemma listing_start: "listing_inv (published_ids ps) (programmes_page0 ps)"
  using listed_published [of ps] by (simp add: programmes_page0_def listing_inv_def all_published_def)

interpretation lists: machine "\<lambda>s. s = programmes_page0 ps" programmes_guard programmes_step "listing_inv (published_ids ps)"
  for ps
  by unfold_locales (simp add: listing_start, rule listing_step)

text \<open>
  C17. Whatever an administrator does in the console, it never publishes a programme: it reads the
  public list, so that only published rows are shown, of the three status buttons only \<open>Archive\<close>
  is ever offered, and a draft, the created ones included, and an archived programme stay as they are.
\<close>

theorem console_never_publishes:
  assumes "reach (\<lambda>s. s = programmes_page0 ps) programmes_guard programmes_step s"
  shows "published_ids (sv_programmes s) \<subseteq> published_ids ps \<and> list_all archives (pp_sent s) \<and>
     list_all archives_only (offered (programmes_view s)) \<and> all_published (pp_rows s)"
  using lists.reach_inv [OF assms] listing_offers [of s] by (simp add: listing_inv_def)

definition maths_programme :: programme where
  "maths_programme = \<lparr>pg_id = ''m'', pg_title = ''Maths'', pg_slug = ''maths'', pg_summary = Some ''All of it'', pg_description = Some ''Long'',
     pg_format = ''COHORT'', pg_status = Pg_Published, pg_min = Some 5, pg_max = None, pg_currency = ''NGN'', pg_featured = True\<rparr>"

definition new_draft :: create_form where
  "new_draft = create_form0\<lparr>cf_title := '' Physics ''\<rparr>"

definition create_and_archive :: "programmes_event list" where
  "create_and_archive = [RowsRead [maths_programme], OpenCreate, TypeNew new_draft, SubmitNew, Answered (CreateCall (create_body new_draft)) ''p'', CreateSettled,
     StatusClick ''m'' Pg_Archived, Answered (StatusCall ''m'' Pg_Archived) [], RowsRead []]"

theorem console_never_publishes_witness:
  "(let s = run programmes_step (programmes_page0 [maths_programme]) create_and_archive in
     map pg_status (sv_programmes s) = [Pg_Draft, Pg_Archived] \<and> pp_rows s = [] \<and> list_all archives (pp_sent s))"
proof -
  let ?s = "run programmes_step (programmes_page0 [maths_programme]) create_and_archive"
  have f: "allowed programmes_guard programmes_step (programmes_page0 [maths_programme]) create_and_archive"
    "map pg_status (sv_programmes ?s) = [Pg_Draft, Pg_Archived]" "pp_rows ?s = []" by code_simp+
  from console_never_publishes [OF run_reachable [OF refl f(1)]] f(2,3) show ?thesis unfolding Let_def by blast
qed

section \<open>Editing\<close>

lemma price_read_back: "n < 2 ^ 53 \<Longrightarrow> price_or_zero (price_text (of_nat n)) = Some (of_nat n)"
  using js_number_show_nat [of n] show_nat_digits [of n] by (auto simp: price_text_whole price_or_zero_def js_number_def trim_def decimal_literal_def split_sign_def)

definition whole_price :: "rat option \<Rightarrow> bool" where
  "whole_price r = (case r of None \<Rightarrow> True | Some x \<Rightarrow> 0 < x \<and> x < 2 ^ 53 \<and> x = of_int \<lfloor>x\<rfloor>)"

lemma price_kept:
  assumes "whole_price r"
  shows "positive_price (price_or_zero (case r of Some x \<Rightarrow> price_text x | None \<Rightarrow> [])) = r"
proof (cases r)
  case None
  then show ?thesis by (simp add: price_or_zero_def positive_price_def)
next
  case (Some x)
  then have x: "0 < x" "x < 2 ^ 53" "x = of_int \<lfloor>x\<rfloor>" using assms by (auto simp: whole_price_def)
  define n where "n = nat \<lfloor>x\<rfloor>"
  have "0 \<le> \<lfloor>x\<rfloor>" using x(1) by simp
  then have n: "x = of_nat n" using x(3) by (simp add: n_def)
  then have "n < 2 ^ 53" using x(2) by (metis of_nat_less_iff of_nat_numeral of_nat_power)
  from price_read_back [OF this] show ?thesis using Some x(1) n by (simp add: positive_price_def)
qed

text \<open>
  A dialog that is opened and saved untouched sends the title, the summary, the currency and
  whole prices back as they are; but the update clears the description, which the dialog does
  not send, and takes the programme off the featured ones.
\<close>

theorem untouched_edit_unfeatures:
  assumes "trim (pg_title p) = pg_title p" "case pg_summary p of Some t \<Rightarrow> t \<noteq> [] \<and> trim t = t | None \<Rightarrow> True" "pg_currency p \<noteq> []"
    and "whole_price (pg_min p)" "whole_price (pg_max p)"
  shows "edited (edit_body (edit_form_of p)) p = p\<lparr>pg_description := None, pg_featured := False\<rparr>"
  using assms price_kept [OF assms(4)] price_kept [OF assms(5)] by (auto simp: edited_def edit_body_def edit_form_of_def split: option.splits)

theorem untouched_edit_unfeatures_witness:
  "edited (edit_body (edit_form_of maths_programme)) maths_programme = maths_programme\<lparr>pg_description := None, pg_featured := False\<rparr>"
proof -
  have "whole_price (Some 5)" "whole_price None" by (simp_all add: whole_price_def)
  then have p: "whole_price (pg_min maths_programme)" "whole_price (pg_max maths_programme)" by (simp_all add: maths_programme_def)
  have f: "trim (pg_title maths_programme) = pg_title maths_programme" "case pg_summary maths_programme of Some t \<Rightarrow> t \<noteq> [] \<and> trim t = t | None \<Rightarrow> True"
    "pg_currency maths_programme \<noteq> []" by code_simp+
  from untouched_edit_unfeatures [OF f p] show ?thesis .
qed

section \<open>What the page sends\<close>

definition dialog_calls :: "nat \<Rightarrow> programme_call list \<Rightarrow> nat" where
  "dialog_calls n cs = length (filter (\<lambda>c. dialog_of c = Some n) cs)"

fun call_sound :: "programme_call \<Rightarrow> bool" where
  "call_sound (CreateCall b) = (pn_title b \<noteq> [] \<and> trim (pn_title b) = pn_title b \<and> pn_currency b \<noteq> [] \<and> pn_slug b \<noteq> Some [] \<and> pn_summary b \<noteq> Some [])"
| "call_sound (EditCall n i b) = (pe_title b \<noteq> [] \<and> trim (pe_title b) = pe_title b \<and> pe_currency b \<noteq> [])"
| "call_sound (StatusCall i t) = True"

definition forms_inv :: "programmes_page \<Rightarrow> bool" where
  "forms_inv s =
     (length (filter is_create (pp_calls s)) + (if pp_refetching s then 1 else 0) = (if pp_busy s then 1 else 0) \<and>
      list_all call_sound (pp_sent s) \<and>
      (\<forall>n. dialog_calls n (pp_calls s) \<le> 1 \<and> (pp_made s \<le> n \<longrightarrow> dialog_calls n (pp_calls s) = 0)) \<and>
      (case pp_dialog s of None \<Rightarrow> True | Some d \<Rightarrow> dl_no d < pp_made s \<and> dialog_calls (dl_no d) (pp_calls s) = (if dl_busy d then 1 else 0)))"

lemma dialog_calls_simps [simp]:
  "dialog_calls n [] = 0"
  "dialog_calls n (xs @ [c]) = dialog_calls n xs + (if dialog_of c = Some n then 1 else 0)"
  by (simp_all add: dialog_calls_def)

lemma dialog_calls_gone: "c \<in> set cs \<Longrightarrow> dialog_calls n (remove1 c cs) = dialog_calls n cs - (if dialog_of c = Some n then 1 else 0)"
  by (simp add: dialog_calls_def filter_remove1 length_remove1)

lemma dialog_calls_pos: "c \<in> set cs \<Longrightarrow> dialog_of c = Some n \<Longrightarrow> 0 < dialog_calls n cs"
  by (auto simp: dialog_calls_def filter_empty_conv)

lemma creates_gone: "c \<in> set cs \<Longrightarrow> length (filter is_create (remove1 c cs)) = length (filter is_create cs) - (if is_create c then 1 else 0)"
  by (simp add: filter_remove1 length_remove1)

lemma creates_pos: "c \<in> set cs \<Longrightarrow> is_create c \<Longrightarrow> 0 < length (filter is_create cs)"
  by (auto simp: filter_empty_conv)

lemma stored_fields [simp]:
  "pp_calls (stored ps s) = pp_calls s" "pp_refetching (stored ps s) = pp_refetching s" "pp_busy (stored ps s) = pp_busy s"
  "pp_sent (stored ps s) = pp_sent s" "pp_made (stored ps s) = pp_made s" "pp_dialog (stored ps s) = pp_dialog s"
  by (simp_all add: stored_def)

lemma forms_stored [simp]: "forms_inv (stored ps s) = forms_inv s"
  by (cases "pp_dialog s") (simp_all add: forms_inv_def)

lemma stored_success: "on_success c (stored ps s) = stored ps (on_success c s)"
  by (cases c) (simp_all add: on_success_def stored_def toast_def)

lemma stored_failure: "on_failure c e (stored ps s) = stored ps (on_failure c e s)"
  by (cases c) (simp_all add: on_failure_def stored_def toast_def in_dialog_def split: option.split)

lemma status_button_offers: "e \<in> set (offered (status_button p)) \<Longrightarrow> \<exists>i t. e = StatusClick i t"
  by (cases "pg_status p") (auto simp: status_button_def)

lemma forms_offers:
  "SubmitNew \<in> set (offered (programmes_view s)) \<Longrightarrow> \<not> pp_busy s"
  "SubmitEdit \<in> set (offered (programmes_view s)) \<Longrightarrow> (case pp_dialog s of Some d \<Rightarrow> \<not> dl_busy d | None \<Rightarrow> False)"
  by (auto simp: programmes_view_def dest: status_button_offers split: option.splits if_splits)

lemma create_sound: "trim (cf_title f) \<noteq> [] \<Longrightarrow> call_sound (CreateCall (create_body f))"
  by (simp add: create_body_def if_any_def)

lemma edit_sound: "trim (ef_title f) \<noteq> [] \<Longrightarrow> call_sound (EditCall n i (edit_body f))"
  by (simp add: edit_body_def)

lemma forms_success:
  assumes "forms_inv s" "c \<in> set (pp_calls s)"
  shows "forms_inv (on_success c (call_gone c s))"
proof (cases c)
  case (CreateCall b)
  then show ?thesis using assms creates_pos [of c "pp_calls s"] dialog_calls_gone [OF assms(2)] creates_gone [OF assms(2)]
    by (auto simp: forms_inv_def on_success_def call_gone_def toast_def split: option.splits if_splits)
next
  case (EditCall n j b)
  then show ?thesis using assms dialog_calls_gone [OF assms(2)] creates_gone [OF assms(2)]
    by (auto simp: forms_inv_def on_success_def call_gone_def toast_def le_diff_conv le_SucI)
next
  case (StatusCall j t)
  then show ?thesis using assms dialog_calls_gone [OF assms(2)] creates_gone [OF assms(2)]
    by (auto simp: forms_inv_def on_success_def call_gone_def toast_def split: option.splits)
qed

lemma forms_failure:
  assumes "forms_inv s" "c \<in> set (pp_calls s)"
  shows "forms_inv (on_failure c e (call_gone c s))"
proof (cases c)
  case (CreateCall b)
  then show ?thesis using assms creates_pos [of c "pp_calls s"] dialog_calls_gone [OF assms(2)] creates_gone [OF assms(2)]
    by (auto simp: forms_inv_def on_failure_def call_gone_def split: option.splits if_splits)
next
  case (EditCall n j b)
  have one: "dialog_calls n (pp_calls s) = 1"
    using assms(1) dialog_calls_pos [OF assms(2), of n] EditCall by (auto simp: forms_inv_def dest: spec [of _ n])
  show ?thesis
  proof (cases "pp_dialog s")
    case None
    then show ?thesis using EditCall assms dialog_calls_gone [OF assms(2)] creates_gone [OF assms(2)]
      by (auto simp: forms_inv_def on_failure_def call_gone_def in_dialog_def le_diff_conv le_SucI)
  next
    case (Some d)
    then show ?thesis using EditCall assms dialog_calls_gone [OF assms(2)] creates_gone [OF assms(2)] one
      by (auto simp: forms_inv_def on_failure_def call_gone_def in_dialog_def le_diff_conv le_SucI split: if_splits)
  qed
next
  case (StatusCall j t)
  then show ?thesis using assms dialog_calls_gone [OF assms(2)] creates_gone [OF assms(2)]
    by (auto simp: forms_inv_def on_failure_def call_gone_def toast_def split: option.splits)
qed

lemma forms_step:
  assumes "forms_inv s" "programmes_guard s e"
  shows "forms_inv (programmes_step s e)"
proof (cases e)
  case SubmitNew
  then have "\<not> pp_busy s" using assms(2) forms_offers(1) [of s] by simp
  then show ?thesis using assms(1) SubmitNew create_sound [of "pp_form s"]
    by (auto simp: forms_inv_def submit_new_def page_send_def split: option.splits if_splits)
next
  case SubmitEdit
  then obtain d where d: "pp_dialog s = Some d" "\<not> dl_busy d" using assms(2) forms_offers(2) [of s] by (auto split: option.splits)
  then have "dl_no d < pp_made s" "dialog_calls (dl_no d) (pp_calls s) = 0" using assms(1) by (auto simp: forms_inv_def)
  then show ?thesis using assms(1) SubmitEdit d edit_sound [of "dl_form d" "dl_no d" "dl_id d"]
    by (auto simp: forms_inv_def submit_edit_def page_send_def split: if_splits)
next
  case (Answered c i)
  then show ?thesis using assms forms_success [OF assms(1), of c] by (auto simp: stored_success split: option.split)
next
  case (LostAfter c i x)
  then show ?thesis using assms forms_failure [OF assms(1), of c x] by (auto simp: stored_failure split: option.split)
next
  case (Refused c x)
  then show ?thesis using assms forms_failure [OF assms(1), of c x] by simp
next
  case (OpenEdit p)
  then show ?thesis using assms(1) by (auto simp: forms_inv_def)
qed (use assms in \<open>auto simp: forms_inv_def page_send_def split: option.splits if_splits\<close>)

lemma forms_start: "forms_inv (programmes_page0 ps)"
  by (simp add: forms_inv_def programmes_page0_def)

interpretation forms: machine "\<lambda>s. s = programmes_page0 ps" programmes_guard programmes_step forms_inv
  for ps
  by unfold_locales (simp add: forms_start, rule forms_step)

text \<open>
  At most one creation and one update per dialog are on their way, the buttons of the form and
  of the dialog say so, and every body that was ever sent has a trimmed title and a currency.
\<close>

theorem programmes_safe:
  assumes "reach (\<lambda>s. s = programmes_page0 ps) programmes_guard programmes_step s"
  shows "forms_inv s \<and> length (filter is_create (pp_calls s)) \<le> 1"
  using forms.reach_inv [OF assms] by (auto simp: forms_inv_def split: if_splits)

theorem programmes_safe_witness:
  "(let s = run programmes_step (programmes_page0 [maths_programme]) create_and_archive in forms_inv s \<and> length (pp_sent s) = 2)"
proof -
  let ?s = "run programmes_step (programmes_page0 [maths_programme]) create_and_archive"
  have f: "allowed programmes_guard programmes_step (programmes_page0 [maths_programme]) create_and_archive" "length (pp_sent ?s) = 2" by code_simp+
  from programmes_safe [OF run_reachable [OF refl f(1)]] f(2) show ?thesis unfolding Let_def by blast
qed

text \<open>
  An update that is answered closes the dialog that is open then: what is being typed about
  another programme is lost.
\<close>

theorem late_update_closes_next:
  assumes "EditCall n i b \<in> set (pp_calls s)" "serve (EditCall n i b) j (sv_programmes s) = Some ps"
    and "pp_dialog s = None" "\<not> pp_creating s" "p \<in> set (pp_rows s)"
  shows "allowed programmes_guard programmes_step s [OpenEdit p, TypeEdit f, Answered (EditCall n i b) j] \<and>
     pp_dialog (run programmes_step s [OpenEdit p, TypeEdit f]) \<noteq> None \<and>
     pp_dialog (run programmes_step s [OpenEdit p, TypeEdit f, Answered (EditCall n i b) j]) = None"
  using assms by (auto simp: programmes_view_def on_success_def toast_def)

theorem late_update_closes_next_witness:
  "(let s = run programmes_step (programmes_page0 [maths_programme])
      [RowsRead [maths_programme], OpenEdit maths_programme, SubmitEdit, CloseEdit] in
    pp_dialog (run programmes_step s [OpenEdit maths_programme, TypeEdit (edit_form_of maths_programme),
      Answered (EditCall 0 ''m'' (edit_body (edit_form_of maths_programme))) []]) = None)"
proof -
  let ?s = "run programmes_step (programmes_page0 [maths_programme]) [RowsRead [maths_programme], OpenEdit maths_programme, SubmitEdit, CloseEdit]"
  let ?b = "edit_body (edit_form_of maths_programme)"
  let ?ps = "[edited ?b maths_programme]"
  have f: "pp_calls ?s = [EditCall 0 ''m'' ?b]" "pp_dialog ?s = None" "\<not> pp_creating ?s" "pp_rows ?s = [maths_programme]"
    by (simp_all add: maths_programme_def programmes_page0_def submit_edit_def page_send_def edit_form_of_def trim_def is_space_def)
  have g: "serve (EditCall 0 ''m'' ?b) [] (sv_programmes ?s) = Some ?ps"
    by (simp add: maths_programme_def programmes_page0_def submit_edit_def page_send_def edit_form_of_def trim_def is_space_def serve_def
        UpdateProgrammeAdmin_def edit_body_def at_id_def)
  from f(1,4) have m: "EditCall 0 ''m'' ?b \<in> set (pp_calls ?s)" "maths_programme \<in> set (pp_rows ?s)" by simp_all
  from late_update_closes_next [OF m(1) g f(2,3) m(2)] show ?thesis unfolding Let_def by blast
qed

text \<open>The end of a creation empties the form, whatever was typed into it since it was sent; a status button can be clicked again before its answer.\<close>

theorem creation_discards_typing:
  assumes "pp_refetching s" "pp_creating s"
  shows "allowed programmes_guard programmes_step s [TypeNew f, CreateSettled] \<and>
     pp_form (run programmes_step s [TypeNew f, CreateSettled]) = create_form0 \<and> \<not> pp_creating (run programmes_step s [TypeNew f, CreateSettled])"
  using assms by simp

theorem creation_discards_typing_witness:
  "pp_form (run programmes_step (run programmes_step (programmes_page0 [maths_programme]) (take 5 create_and_archive)) [TypeNew new_draft, CreateSettled]) = create_form0"
proof -
  have f: "pp_refetching (run programmes_step (programmes_page0 [maths_programme]) (take 5 create_and_archive))"
    "pp_creating (run programmes_step (programmes_page0 [maths_programme]) (take 5 create_and_archive))" by code_simp+
  from creation_discards_typing [OF f] show ?thesis by blast
qed

end
