(* ===== verification/TutorRegister.thy ===== *)
theory TutorRegister
  imports Machine JsDecimal LoginCode Http
begin

text \<open>
  The administrators' register of tutors (\<open>client/app/admin/tutors/page.tsx\<close>): the list of the
  approved tutors with the switch of their visibility, and the form that makes a tutor. The
  service's checks of \<open>UpsertTutorAdmin\<close> (\<open>internal/service/admin_service.go\<close>) that the form
  anticipates are part of the model; its check of e-mail addresses is Go's library.
\<close>

record tutor_form =
  tf_email :: jsstring
  tf_password :: jsstring
  tf_display :: jsstring
  tf_headline :: jsstring
  tf_bio :: jsstring
  tf_years :: jsstring
  tf_rate_min :: jsstring
  tf_rate_max :: jsstring
  tf_approve :: bool

definition tutor_form0 :: tutor_form where
  "tutor_form0 = \<lparr>tf_email = [], tf_password = [], tf_display = [], tf_headline = [], tf_bio = [], tf_years = ''3'', tf_rate_min = [], tf_rate_max = [],
     tf_approve = True\<rparr>"

text \<open>A rate of \<open>Some None\<close> is \<open>NaN\<close>, sent as \<open>null\<close>.\<close>

record tutor_body =
  tb_email :: jsstring
  tb_password :: "jsstring option"
  tb_display :: jsstring
  tb_headline :: "jsstring option"
  tb_bio :: "jsstring option"
  tb_years :: rat
  tb_rate_min :: "rat option option"
  tb_rate_max :: "rat option option"
  tb_approve :: bool
  tb_subjects :: "jsstring list"

definition unless_empty :: "jsstring \<Rightarrow> jsstring option" where
  "unless_empty v = (if v = [] then None else Some v)"

definition tutor_payload :: "tutor_form \<Rightarrow> jsstring list \<Rightarrow> tutor_body" where
  "tutor_payload f subs = \<lparr>tb_email = trim (tf_email f), tb_password = unless_empty (tf_password f), tb_display = trim (tf_display f),
     tb_headline = unless_empty (trim (tf_headline f)), tb_bio = unless_empty (trim (tf_bio f)), tb_years = number_or (tf_years f) 0,
     tb_rate_min = map_option js_number (unless_empty (tf_rate_min f)), tb_rate_max = map_option js_number (unless_empty (tf_rate_max f)),
     tb_approve = tf_approve f, tb_subjects = subs\<rparr>"

definition tutor_form_error :: "tutor_form \<Rightarrow> jsstring option" where
  "tutor_form_error f =
     (if \<not> email_ok (trim (tf_email f)) then Some ''Enter a valid email for the tutor account.''
      else if trim (tf_display f) = [] then Some ''Display name is required.'' else None)"

definition toggleSubject :: "jsstring \<Rightarrow> jsstring list \<Rightarrow> jsstring list" where
  "toggleSubject slug cur = (if slug \<in> set cur then filter (\<lambda>s. s \<noteq> slug) cur else cur @ [slug])"

section \<open>The service's checks\<close>

text \<open>
  \<open>valid_address\<close> is Go's \<open>mail.ParseAddress\<close>, \<open>strong\<close> the password rule, \<open>known\<close> the accounts.
  \<open>None\<close> is an accepted request.
\<close>

definition upsert_refusal :: "(jsstring \<Rightarrow> bool) \<Rightarrow> (jsstring \<Rightarrow> bool) \<Rightarrow> jsstring set \<Rightarrow> tutor_body \<Rightarrow> jsstring option" where
  "upsert_refusal valid_address strong known b =
     (let email = to_lower (trim (tb_email b)); pw = (case tb_password b of Some p \<Rightarrow> p | None \<Rightarrow> []);
          lo = (case tb_rate_min b of Some x \<Rightarrow> x | None \<Rightarrow> None); hi = (case tb_rate_max b of Some x \<Rightarrow> x | None \<Rightarrow> None) in
      if \<not> valid_address email then Some ''a valid email is required''
      else if trim (tb_display b) = [] \<or> length (trim (tb_display b)) > 255 then Some ''display name is required (max 255 chars)''
      else if tb_years b < 0 \<or> tb_years b > 80 then Some ''years experience must be 0-80''
      else if (case (lo, hi) of (Some l, Some h) \<Rightarrow> h < l | _ \<Rightarrow> False) then Some ''hourly_rate_max cannot be below hourly_rate_min''
      else if email \<notin> known \<and> trim pw = [] then Some ''password is required to create a new tutor account''
      else if trim pw \<noteq> [] \<and> \<not> strong pw then Some ''password'' else None)"

section \<open>The page\<close>

record tutor_row =
  tt_id :: jsstring
  tt_name :: jsstring
  tt_public :: bool

record tutors_page =
  tp_rows :: "tutor_row list"
  tp_options :: "(jsstring \<times> jsstring) list" \<comment> \<open>subjects: slug and name\<close>
  tp_open :: bool
  tp_busy :: bool
  tp_settling :: bool \<comment> \<open>the request is answered, and waits for the list\<close>
  tp_error :: "jsstring option"
  tp_form :: tutor_form
  tp_subjects :: "jsstring list"
  tp_saving :: "tutor_body option"
  tp_saved :: "tutor_body list"
  tp_toggles :: "(jsstring \<times> bool) list"
  tp_asked :: "(jsstring \<times> bool) list"
  tp_toasts :: "jsstring list"

definition tutors_page0 :: tutors_page where
  "tutors_page0 = \<lparr>tp_rows = [], tp_options = [], tp_open = False, tp_busy = False, tp_settling = False, tp_error = None, tp_form = tutor_form0, tp_subjects = [],
     tp_saving = None, tp_saved = [], tp_toggles = [], tp_asked = [], tp_toasts = []\<rparr>"

datatype tutors_event =
    TutorsRead "tutor_row list" | SubjectsRead "(jsstring \<times> jsstring) list" | AddTutor | CloseForm | TypeTutor tutor_form | SubjectClick jsstring | SaveTutor
  | TutorSaved | TutorLost js_exn | SaveSettled | PublicClick jsstring bool | PublicDone "jsstring \<times> bool" | PublicLost "jsstring \<times> bool" js_exn

definition tutors_view :: "tutors_page \<Rightarrow> tutors_event widget list" where
  "tutors_view s =
     (if tp_open s
      then map (\<lambda>p. Btn (snd p) True (SubjectClick (fst p))) (tp_options s) @
        (case tp_error s of Some m \<Rightarrow> [Txt m] | None \<Rightarrow> []) @
        [Btn (if tp_busy s then ''Saving'' @ ellipsis else if tf_approve (tp_form s) then ''Create vetted tutor'' else ''Create tutor (DRAFT)'') (\<not> tp_busy s) SaveTutor,
         Btn ''Cancel'' True CloseForm]
      else Btn ''Add tutor'' True AddTutor #
        (if tp_rows s = [] then [Txt ''No approved tutors yet'']
         else map (\<lambda>t. Btn (if tt_public t then ''Hide from marketplace'' else ''Make public'') True (PublicClick (tt_id t) (\<not> tt_public t))) (tp_rows s)))"

fun tutors_guard :: "tutors_page \<Rightarrow> tutors_event \<Rightarrow> bool" where
  "tutors_guard s (TutorsRead ts) = True"
| "tutors_guard s (SubjectsRead os) = True"
| "tutors_guard s (TypeTutor f) = tp_open s"
| "tutors_guard s TutorSaved = (tp_saving s \<noteq> None)"
| "tutors_guard s (TutorLost e) = (tp_saving s \<noteq> None)"
| "tutors_guard s SaveSettled = tp_settling s"
| "tutors_guard s (PublicDone c) = (c \<in> set (tp_toggles s))"
| "tutors_guard s (PublicLost c e) = (c \<in> set (tp_toggles s))"
| "tutors_guard s e = (e \<in> set (offered (tutors_view s)))"

definition tutors_toast :: "jsstring \<Rightarrow> tutors_page \<Rightarrow> tutors_page" where
  "tutors_toast m s = s\<lparr>tp_toasts := tp_toasts s @ [m]\<rparr>"

definition save_tutor :: "tutors_page \<Rightarrow> tutors_page" where
  "save_tutor s =
     (case tutor_form_error (tp_form s) of
        Some m \<Rightarrow> s\<lparr>tp_error := Some m\<rparr>
      | None \<Rightarrow> s\<lparr>tp_busy := True, tp_error := None, tp_saving := Some (tutor_payload (tp_form s) (tp_subjects s)),
          tp_saved := tp_saved s @ [tutor_payload (tp_form s) (tp_subjects s)]\<rparr>)"

text \<open>The toast reads the \<open>approve\<close> of the render that sent the request, as its body does.\<close>

definition saved_message :: "tutors_page \<Rightarrow> jsstring" where
  "saved_message s =
     (case tp_saving s of
        Some b \<Rightarrow> if tb_approve b then ''Vetted tutor created '' @ em_dash @ '' approved, public and ready to assign'' else ''Tutor created (DRAFT)''
      | None \<Rightarrow> [])"

fun tutors_step :: "tutors_page \<Rightarrow> tutors_event \<Rightarrow> tutors_page" where
  "tutors_step s (TutorsRead ts) = s\<lparr>tp_rows := ts\<rparr>"
| "tutors_step s (SubjectsRead os) = s\<lparr>tp_options := os\<rparr>"
| "tutors_step s AddTutor = s\<lparr>tp_error := None, tp_open := True\<rparr>"
| "tutors_step s CloseForm = s\<lparr>tp_open := False\<rparr>"
| "tutors_step s (TypeTutor f) = s\<lparr>tp_form := f\<rparr>"
| "tutors_step s (SubjectClick slug) = s\<lparr>tp_subjects := toggleSubject slug (tp_subjects s)\<rparr>"
| "tutors_step s SaveTutor = save_tutor s"
| "tutors_step s TutorSaved = (tutors_toast (saved_message s) s)\<lparr>tp_saving := None, tp_settling := True\<rparr>"
| "tutors_step s (TutorLost e) = s\<lparr>tp_saving := None, tp_error := Some (message_or ''Could not save the tutor'' e), tp_busy := False\<rparr>"
| "tutors_step s SaveSettled = s\<lparr>tp_settling := False, tp_open := False, tp_form := tutor_form0, tp_subjects := [], tp_busy := False\<rparr>"
| "tutors_step s (PublicClick i b) = s\<lparr>tp_toggles := tp_toggles s @ [(i, b)], tp_asked := tp_asked s @ [(i, b)]\<rparr>"
| "tutors_step s (PublicDone c) = tutors_toast ''Visibility updated'' (s\<lparr>tp_toggles := remove1 c (tp_toggles s)\<rparr>)"
| "tutors_step s (PublicLost c e) = tutors_toast (message_or ''Could not update visibility'' e) (s\<lparr>tp_toggles := remove1 c (tp_toggles s)\<rparr>)"

section \<open>One creation at a time\<close>

definition body_sound :: "tutor_body \<Rightarrow> bool" where
  "body_sound b = (email_ok (tb_email b) \<and> trim (tb_email b) = tb_email b \<and> tb_display b \<noteq> [] \<and> trim (tb_display b) = tb_display b \<and>
     tb_headline b \<noteq> Some [] \<and> tb_bio b \<noteq> Some [] \<and> tb_password b \<noteq> Some [] \<and> distinct (tb_subjects b))"

definition tutors_inv :: "tutors_page \<Rightarrow> bool" where
  "tutors_inv s =
     (tp_busy s = (tp_saving s \<noteq> None \<or> tp_settling s) \<and> \<not> (tp_saving s \<noteq> None \<and> tp_settling s) \<and> distinct (tp_subjects s) \<and>
      list_all body_sound (tp_saved s))"

lemma toggle_distinct: "distinct xs \<Longrightarrow> distinct (toggleSubject x xs)"
  by (simp add: toggleSubject_def)

lemma payload_sound: "tutor_form_error f = None \<Longrightarrow> distinct subs \<Longrightarrow> body_sound (tutor_payload f subs)"
  by (auto simp: body_sound_def tutor_payload_def tutor_form_error_def unless_empty_def split: if_splits)

lemma register_offered: "SaveTutor \<in> set (offered (tutors_view s)) \<Longrightarrow> \<not> tp_busy s"
  by (auto simp: tutors_view_def offered_map_when split: if_splits option.splits)

lemma tutors_start: "tutors_inv tutors_page0"
  by (simp add: tutors_inv_def tutors_page0_def)

lemma tutors_step_inv:
  assumes "tutors_inv s" "tutors_guard s e"
  shows "tutors_inv (tutors_step s e)"
proof (cases e)
  case SaveTutor
  then have "\<not> tp_busy s" using assms(2) register_offered [of s] by simp
  then show ?thesis using assms(1) SaveTutor payload_sound [of "tp_form s" "tp_subjects s"]
    by (auto simp: tutors_inv_def save_tutor_def split: option.split)
qed (use assms in \<open>auto simp: tutors_inv_def tutors_toast_def toggle_distinct\<close>)

interpretation tutors: machine "\<lambda>s. s = tutors_page0" tutors_guard tutors_step tutors_inv
  by unfold_locales (simp add: tutors_start, rule tutors_step_inv)

text \<open>
  One creation at a time, and every body sent has a checked address, a display name and each
  subject once.
\<close>

theorem register_safe:
  assumes "reach (\<lambda>s. s = tutors_page0) tutors_guard tutors_step s"
  shows "tp_busy s = (tp_saving s \<noteq> None \<or> tp_settling s) \<and> list_all body_sound (tp_saved s) \<and> distinct (tp_subjects s)"
  using tutors.reach_inv [OF assms] by (simp add: tutors_inv_def)

definition ada_form :: tutor_form where
  "ada_form = tutor_form0\<lparr>tf_email := '' ada@x.io '', tf_display := ''Ada''\<rparr>"

definition add_ada :: "tutors_event list" where
  "add_ada = [SubjectsRead [(''maths'', ''Maths'')], AddTutor, TypeTutor ada_form, SubjectClick ''maths'', SaveTutor, TutorSaved]"

theorem register_safe_witness:
  "(let s = run tutors_step tutors_page0 add_ada in
     tp_busy s = (tp_saving s \<noteq> None \<or> tp_settling s) \<and> list_all body_sound (tp_saved s) \<and> map tb_subjects (tp_saved s) = [[''maths'']])"
proof -
  let ?s = "run tutors_step tutors_page0 add_ada"
  have f: "allowed tutors_guard tutors_step tutors_page0 add_ada" "map tb_subjects (tp_saved ?s) = [[''maths'']]" by code_simp+
  from register_safe [OF run_reachable [OF refl f(1)]] f(2) show ?thesis unfolding Let_def by blast
qed

text \<open>Every subject is chosen exactly when it was clicked an odd number of times, whatever else was clicked.\<close>

theorem subjects_follow_clicks:
  "x \<in> set (fold toggleSubject clicks []) = odd (count_list clicks x)"
proof -
  have "x \<in> set (fold toggleSubject clicks cur) = ((x \<in> set cur) \<noteq> odd (count_list clicks x))" for cur
    by (induction clicks arbitrary: cur) (auto simp: toggleSubject_def)
  then show ?thesis by simp
qed

text \<open>
  The form does not require a password, though the service refuses a new account without one:
  a form that it accepts and that names an unknown address without a password is always refused.
\<close>

theorem passwordless_refused:
  assumes "tutor_form_error f = None" "trim (tf_password f) = []" "to_lower (trim (tf_email f)) \<notin> known"
  shows "upsert_refusal valid_address strong known (tutor_payload f subs) \<noteq> None"
  using assms by (auto simp: upsert_refusal_def tutor_payload_def unless_empty_def Let_def)

theorem passwordless_refused_witness:
  "upsert_refusal (\<lambda>a. True) (\<lambda>p. True) {} (tutor_payload ada_form []) \<noteq> None"
proof -
  have f: "tutor_form_error ada_form = None" "trim (tf_password ada_form) = []" by code_simp+
  from passwordless_refused [OF f, of "{}" "\<lambda>a. True" "\<lambda>p. True" "[]"] show ?thesis by simp
qed

text \<open>
  With an accepted address, years and rates within bounds and, for a new account, an
  accepted password, what the form accepts is accepted, provided the name is no longer than
  255 characters.
\<close>

theorem form_accepted:
  assumes "tutor_form_error f = None" "valid_address (to_lower (trim (tf_email f)))" "length (trim (tf_display f)) \<le> 255"
    and "0 \<le> number_or (tf_years f) 0" "number_or (tf_years f) 0 \<le> 80" "strong (tf_password f)" "trim (tf_password f) \<noteq> []"
    and "tf_rate_min f = [] \<or> tf_rate_max f = []"
  shows "upsert_refusal valid_address strong known (tutor_payload f subs) = None"
  using assms by (auto simp: upsert_refusal_def tutor_payload_def unless_empty_def tutor_form_error_def Let_def split: if_splits option.splits)

theorem form_accepted_witness:
  "upsert_refusal (\<lambda>a. True) (\<lambda>p. length p \<ge> 8) {} (tutor_payload (ada_form\<lparr>tf_password := ''secret12''\<rparr>) []) = None"
proof -
  let ?f = "ada_form\<lparr>tf_password := ''secret12''\<rparr>"
  have f: "tutor_form_error ?f = None" "length (trim (tf_display ?f)) \<le> 255" "0 \<le> number_or (tf_years ?f) 0" "number_or (tf_years ?f) 0 \<le> 80"
    "length (tf_password ?f) \<ge> 8" "trim (tf_password ?f) \<noteq> []" "tf_rate_min ?f = [] \<or> tf_rate_max ?f = []" by code_simp+
  show ?thesis using form_accepted [of ?f "\<lambda>a. True" "\<lambda>p. length p \<ge> 8" "{}" "[]", OF f(1) TrueI f(2-7)] .
qed

text \<open>What is typed while a creation waits for the list is lost when it ends.\<close>

theorem settled_form_is_empty:
  assumes "tp_settling s" "tp_open s"
  shows "allowed tutors_guard tutors_step s [TypeTutor f, SaveSettled] \<and> tp_form (run tutors_step s [TypeTutor f, SaveSettled]) = tutor_form0"
  using assms by simp

theorem settled_form_is_empty_witness:
  "tp_form (run tutors_step (run tutors_step tutors_page0 add_ada) [TypeTutor ada_form, SaveSettled]) = tutor_form0"
proof -
  have f: "tp_settling (run tutors_step tutors_page0 add_ada)" "tp_open (run tutors_step tutors_page0 add_ada)" by code_simp+
  from settled_form_is_empty [OF f] show ?thesis by blast
qed

end
