(* ===== verification/Leads.thy ===== *)
theory Leads
  imports Machine JsText LoginCode Http
begin

text \<open>
  Visitors who leave their number: the dialog of the course pages
  (\<open>client/features/leads/LeadCapture.tsx\<close>) over the visits of a session, the link to WhatsApp
  (\<open>client/features/leads/api.ts\<close>), and the administrators' queue (\<open>client/app/admin/leads/page.tsx\<close>).
\<close>

section \<open>The form\<close>

record lead_form =
  lf_name :: jsstring
  lf_email :: jsstring
  lf_phone :: jsstring
  lf_message :: jsstring

record lead_body =
  lb_name :: jsstring
  lb_email :: "jsstring option"
  lb_phone :: jsstring
  lb_source :: jsstring
  lb_intent :: jsstring
  lb_message :: "jsstring option"

text \<open>\<open>/^\+?[0-9\s\-()]{7,20}$/\<close>\<close>

definition phone_char :: "char \<Rightarrow> bool" where
  "phone_char c = (digit c \<or> is_space c \<or> c = CHR ''-'' \<or> c = CHR ''('' \<or> c = CHR '')'')"

definition phone_ok :: "jsstring \<Rightarrow> bool" where
  "phone_ok s = (let r = (case s of c # t \<Rightarrow> if c = CHR ''+'' then t else s | [] \<Rightarrow> s) in
     list_all phone_char r \<and> 7 \<le> length r \<and> length r \<le> 20)"

definition lead_error :: "lead_form \<Rightarrow> jsstring option" where
  "lead_error f =
     (if utf16_length (trim (lf_name f)) < 2 then Some ''Please enter your name.''
      else if \<not> phone_ok (trim (lf_phone f)) then Some ''Enter a valid phone number so we can reach you.''
      else if lf_email f \<noteq> [] \<and> \<not> email_ok (lf_email f) then Some ''That email doesn't look right.''
      else None)"

definition or_absent :: "jsstring \<Rightarrow> jsstring option" where
  "or_absent v = (if v = [] then None else Some v)"

definition lead_payload :: "jsstring \<Rightarrow> lead_form \<Rightarrow> lead_body" where
  "lead_payload source f = \<lparr>lb_name = trim (lf_name f), lb_email = or_absent (trim (lf_email f)), lb_phone = trim (lf_phone f), lb_source = source,
     lb_intent = ''CALLBACK_REQUEST'', lb_message = or_absent (trim (lf_message f))\<rparr>"

section \<open>The link to WhatsApp\<close>

definition leadWhatsAppHref :: "jsstring \<Rightarrow> jsstring option" where
  "leadWhatsAppHref phone =
     (let digits = filter digit phone in
      if digits = [] then None
      else Some (''https://wa.me/'' @ (if hd digits = CHR ''0'' then ''234'' @ tl digits else digits)))"

section \<open>The dialog over a session\<close>

text \<open>
  One page at a time shows the dialog. \<open>lc_shown\<close> is the flag in \<open>sessionStorage\<close>, which may be
  blocked (\<open>lc_works\<close>); the effect of the mount sets the timer and listens unless the flag is set.
  A request belongs to its visit: a later page ignores its answer.
\<close>

record lead_dialog =
  lc_works :: bool
  lc_shown :: bool
  lc_source :: jsstring
  lc_visit :: nat
  lc_exit :: bool \<comment> \<open>\<open>exitIntent\<close>\<close>
  lc_armed :: bool
  lc_timer :: bool
  lc_fired :: bool \<comment> \<open>\<open>firedRef\<close>\<close>
  lc_open :: bool
  lc_sent :: bool
  lc_form :: lead_form
  lc_busy :: bool
  lc_error :: "jsstring option"
  lc_calls :: "(nat \<times> lead_body) list"
  lc_log :: "lead_body list"
  lc_auto :: nat \<comment> \<open>openings that nobody asked for\<close>

definition lead_form0 :: lead_form where
  "lead_form0 = \<lparr>lf_name = [], lf_email = [], lf_phone = [], lf_message = []\<rparr>"

definition leadShownThisSession :: "lead_dialog \<Rightarrow> bool" where
  "leadShownThisSession s = (lc_works s \<and> lc_shown s)"

definition markLeadShown :: "lead_dialog \<Rightarrow> lead_dialog" where
  "markLeadShown s = (if lc_works s then s\<lparr>lc_shown := True\<rparr> else s)"

definition visit_page :: "jsstring \<Rightarrow> bool \<Rightarrow> bool \<Rightarrow> lead_dialog \<Rightarrow> lead_dialog" where
  "visit_page source delayed exit_intent s =
     s\<lparr>lc_source := source, lc_visit := lc_visit s + 1, lc_exit := exit_intent, lc_armed := \<not> leadShownThisSession s,
       lc_timer := (delayed \<and> \<not> leadShownThisSession s), lc_fired := False, lc_open := False, lc_sent := False, lc_form := lead_form0,
       lc_busy := False, lc_error := None\<rparr>"

definition lead_dialog0 :: "bool \<Rightarrow> lead_dialog" where
  "lead_dialog0 works = \<lparr>lc_works = works, lc_shown = False, lc_source = [], lc_visit = 0, lc_exit = False, lc_armed = False, lc_timer = False, lc_fired = False,
     lc_open = False, lc_sent = False, lc_form = lead_form0, lc_busy = False, lc_error = None, lc_calls = [], lc_log = [], lc_auto = 0\<rparr>"

definition openLead :: "lead_dialog \<Rightarrow> lead_dialog" where
  "openLead s = (if lc_fired s \<or> leadShownThisSession s then s else (markLeadShown (s\<lparr>lc_fired := True, lc_auto := lc_auto s + 1\<rparr>))\<lparr>lc_open := True\<rparr>)"

datatype lead_event =
    Visit jsstring bool bool | DelayOver | MouseOut int | CtaClick | CloseLead | TypeLead lead_form | SubmitLead
  | LeadStored "nat \<times> lead_body" | LeadRefused "nat \<times> lead_body" js_exn

definition lead_view :: "lead_dialog \<Rightarrow> lead_event widget list" where
  "lead_view s =
     Btn ''Get a call back'' (\<not> lc_open s) CtaClick #
     (if \<not> lc_open s then []
      else Btn ''Close'' True CloseLead #
        (if lc_sent s then [Txt (''Thanks '' @ hd (split_on (CHR '' '') (lf_name (lc_form s)))), Btn ''Done'' True CloseLead]
         else [Btn (if lc_busy s then ''Sending'' @ ellipsis else ''Call me back'') (\<not> lc_busy s) SubmitLead]))"

fun lead_guard :: "lead_dialog \<Rightarrow> lead_event \<Rightarrow> bool" where
  "lead_guard s (Visit p d x) = True"
| "lead_guard s DelayOver = lc_timer s"
| "lead_guard s (MouseOut y) = lc_armed s"
| "lead_guard s (TypeLead f) = (lc_open s \<and> \<not> lc_sent s)"
| "lead_guard s (LeadStored c) = (c \<in> set (lc_calls s))"
| "lead_guard s (LeadRefused c e) = (c \<in> set (lc_calls s))"
| "lead_guard s e = (e \<in> set (offered (lead_view s)))"

definition submit_lead :: "lead_dialog \<Rightarrow> lead_dialog" where
  "submit_lead s =
     (case lead_error (lc_form s) of
        Some m \<Rightarrow> s\<lparr>lc_error := Some m\<rparr>
      | None \<Rightarrow> s\<lparr>lc_busy := True, lc_error := None, lc_calls := lc_calls s @ [(lc_visit s, lead_payload (lc_source s) (lc_form s))],
          lc_log := lc_log s @ [lead_payload (lc_source s) (lc_form s)]\<rparr>)"

fun lead_step :: "lead_dialog \<Rightarrow> lead_event \<Rightarrow> lead_dialog" where
  "lead_step s (Visit p d x) = visit_page p d x s"
| "lead_step s DelayOver = openLead (s\<lparr>lc_timer := False\<rparr>)"
| "lead_step s (MouseOut y) = (if \<not> lc_exit s \<or> y > 8 then s else openLead s)"
| "lead_step s CtaClick = (markLeadShown s)\<lparr>lc_open := True\<rparr>"
| "lead_step s CloseLead = s\<lparr>lc_open := False\<rparr>"
| "lead_step s (TypeLead f) = s\<lparr>lc_form := f\<rparr>"
| "lead_step s SubmitLead = submit_lead s"
| "lead_step s (LeadStored c) =
     (let t = s\<lparr>lc_calls := remove1 c (lc_calls s)\<rparr> in if fst c = lc_visit s then t\<lparr>lc_sent := True, lc_busy := False\<rparr> else t)"
| "lead_step s (LeadRefused c e) =
     (let t = s\<lparr>lc_calls := remove1 c (lc_calls s)\<rparr> in
      if fst c = lc_visit s
      then t\<lparr>lc_error := Some (message_or (''Could not send your details '' @ em_dash @ '' try again.'') e), lc_busy := False\<rparr> else t)"

section \<open>Shown once\<close>

definition callable :: "lead_body \<Rightarrow> bool" where
  "callable b = (utf16_length (lb_name b) \<ge> 2 \<and> trim (lb_name b) = lb_name b \<and> phone_ok (lb_phone b) \<and>
     (case lb_email b of Some e \<Rightarrow> email_ok e | None \<Rightarrow> True) \<and> lb_message b \<noteq> Some [])"

definition visit_calls :: "nat \<Rightarrow> (nat \<times> lead_body) list \<Rightarrow> nat" where
  "visit_calls n cs = length (filter (\<lambda>c. fst c = n) cs)"

definition shown_inv :: "lead_dialog \<Rightarrow> bool" where
  "shown_inv s =
     ((lc_works s \<longrightarrow> lc_auto s \<le> 1 \<and> (\<not> lc_shown s \<longrightarrow> lc_auto s = 0)) \<and> lc_auto s \<le> lc_visit s \<and>
      (lc_visit s = 0 \<longrightarrow> \<not> lc_armed s \<and> \<not> lc_timer s) \<and> (0 < lc_visit s \<and> \<not> lc_fired s \<longrightarrow> lc_auto s < lc_visit s))"

definition asked_inv :: "lead_dialog \<Rightarrow> bool" where
  "asked_inv s =
     (list_all callable (lc_log s) \<and> list_all (\<lambda>c. fst c \<le> lc_visit s) (lc_calls s) \<and> visit_calls (lc_visit s) (lc_calls s) = (if lc_busy s then 1 else 0))"

lemma email_ok_trim: "email_ok e \<Longrightarrow> trim e = e"
proof (cases "e = []")
  case False
  assume "email_ok e"
  then have "\<not> is_space c" if "c \<in> set e" for c using that by (auto simp: email_ok_def list_all_iff)
  then show ?thesis using False by (intro trim_fixed) simp_all
qed simp

lemma payload_callable: "lead_error f = None \<Longrightarrow> callable (lead_payload p f)"
  by (auto simp: lead_error_def callable_def lead_payload_def or_absent_def email_ok_trim split: if_splits)

lemma shown_fields [simp]:
  "shown_inv (s\<lparr>lc_open := b\<rparr>) = shown_inv s" "shown_inv (s\<lparr>lc_form := f\<rparr>) = shown_inv s" "shown_inv (s\<lparr>lc_error := m\<rparr>) = shown_inv s"
  "shown_inv (s\<lparr>lc_calls := cs\<rparr>) = shown_inv s" "shown_inv (s\<lparr>lc_busy := b\<rparr>) = shown_inv s" "shown_inv (s\<lparr>lc_sent := b\<rparr>) = shown_inv s"
  "shown_inv (s\<lparr>lc_log := l\<rparr>) = shown_inv s"
  by (simp_all add: shown_inv_def)

lemma openLead_shown: "shown_inv s \<Longrightarrow> 0 < lc_visit s \<Longrightarrow> shown_inv (openLead s)"
  by (auto simp: shown_inv_def openLead_def markLeadShown_def leadShownThisSession_def)

lemma shown_step:
  assumes "shown_inv s" "lead_guard s e"
  shows "shown_inv (lead_step s e)"
proof (cases e)
  case DelayOver
  then have "shown_inv (s\<lparr>lc_timer := False\<rparr>)" "0 < lc_visit s" using assms by (auto simp: shown_inv_def)
  then show ?thesis using DelayOver openLead_shown [of "s\<lparr>lc_timer := False\<rparr>"] by simp
next
  case (MouseOut y)
  then have "0 < lc_visit s" using assms by (auto simp: shown_inv_def)
  then show ?thesis using MouseOut openLead_shown [OF assms(1)] assms(1) by simp
next
  case CtaClick
  then show ?thesis using assms(1) by (auto simp: shown_inv_def markLeadShown_def)
next
  case (Visit p d x)
  then show ?thesis using assms(1) by (auto simp: shown_inv_def visit_page_def)
qed (use assms in \<open>auto simp: submit_lead_def Let_def split: option.split\<close>)

lemma asked_fields [simp]:
  "asked_inv (openLead s) = asked_inv s" "asked_inv (markLeadShown s) = asked_inv s" "asked_inv (s\<lparr>lc_open := b\<rparr>) = asked_inv s"
  "asked_inv (s\<lparr>lc_form := f\<rparr>) = asked_inv s" "asked_inv (s\<lparr>lc_error := m\<rparr>) = asked_inv s" "asked_inv (s\<lparr>lc_timer := b\<rparr>) = asked_inv s"
  "asked_inv (s\<lparr>lc_sent := b\<rparr>) = asked_inv s"
  by (simp_all add: asked_inv_def openLead_def markLeadShown_def)

lemma visit_calls_none: "list_all (\<lambda>c. fst c \<le> n) cs \<Longrightarrow> visit_calls (Suc n) cs = 0"
  by (auto simp: visit_calls_def filter_empty_conv list_all_iff)

lemma visit_calls_gone: "c \<in> set cs \<Longrightarrow> visit_calls n (remove1 c cs) = visit_calls n cs - (if fst c = n then 1 else 0)"
  by (simp add: visit_calls_def filter_remove1 length_remove1)

lemma list_all_gone: "list_all P xs \<Longrightarrow> list_all P (remove1 x xs)"
  by (auto simp: list_all_iff dest: set_remove1_subset [THEN subsetD])

lemma asked_gone:
  assumes "asked_inv s" "c \<in> set (lc_calls s)"
  shows "asked_inv (s\<lparr>lc_calls := remove1 c (lc_calls s), lc_busy := (if fst c = lc_visit s then False else lc_busy s)\<rparr>)"
  using assms by (auto simp: asked_inv_def visit_calls_gone list_all_gone)

lemma asked_step:
  assumes "asked_inv s" "lead_guard s e"
  shows "asked_inv (lead_step s e)"
proof (cases e)
  case (Visit p d x)
  then show ?thesis using assms(1) visit_calls_none [of "lc_visit s" "lc_calls s"]
    by (auto simp: asked_inv_def visit_page_def list_all_iff)
next
  case SubmitLead
  then have "\<not> lc_busy s" using assms(2) by (auto simp: lead_view_def split: if_splits)
  then show ?thesis using assms(1) SubmitLead payload_callable [of "lc_form s" "lc_source s"]
    by (auto simp: asked_inv_def submit_lead_def visit_calls_def split: option.split)
next
  case (LeadStored c)
  then show ?thesis using assms asked_gone [of s c] by (simp add: Let_def asked_inv_def)
next
  case (LeadRefused c x)
  then show ?thesis using assms asked_gone [of s c] by (simp add: Let_def asked_inv_def)
qed (use assms in simp_all)

definition lead_inv :: "lead_dialog \<Rightarrow> bool" where
  "lead_inv s = (shown_inv s \<and> asked_inv s)"

interpretation leads: machine "\<lambda>s. s = lead_dialog0 works" lead_guard lead_step lead_inv
  for works
  by unfold_locales (simp add: lead_inv_def shown_inv_def asked_inv_def lead_dialog0_def visit_calls_def, simp add: lead_inv_def shown_step asked_step)

text \<open>
  Over all the pages of a session the dialog opens by itself at most once when the browser keeps
  the flag, and at most once on each page when it does not. A page has at most one request on
  its way, and every request that was sent can be called back.
\<close>

theorem shown_once_per_session:
  assumes "reach (\<lambda>s. s = lead_dialog0 works) lead_guard lead_step s"
  shows "(if lc_works s then lc_auto s \<le> 1 else lc_auto s \<le> lc_visit s) \<and> list_all callable (lc_log s) \<and>
     visit_calls (lc_visit s) (lc_calls s) = (if lc_busy s then 1 else 0)"
  using leads.reach_inv [OF assms] by (simp add: lead_inv_def shown_inv_def asked_inv_def)

definition ada_lead :: lead_form where
  "ada_lead = \<lparr>lf_name = '' Ada Obi'', lf_email = [], lf_phone = ''0801 234 5678'', lf_message = []\<rparr>"

definition two_pages :: "lead_event list" where
  "two_pages = [Visit ''maths'' True True, MouseOut 3, TypeLead ada_lead, SubmitLead, DelayOver, Visit ''physics'' True True]"

theorem shown_once_per_session_witness:
  "(let s = run lead_step (lead_dialog0 True) two_pages in lc_auto s \<le> 1 \<and> lc_visit s = 2 \<and> length (lc_log s) = 1 \<and> list_all callable (lc_log s))"
proof -
  let ?s = "run lead_step (lead_dialog0 True) two_pages"
  have f: "allowed lead_guard lead_step (lead_dialog0 True) two_pages" "lc_works ?s" "lc_visit ?s = 2" "length (lc_log ?s) = 1" by code_simp+
  from shown_once_per_session [OF run_reachable [OF refl f(1)]] f(2-4) show ?thesis unfolding Let_def by simp
qed

text \<open>
  The button does not set the ref: where the flag cannot be kept, the timer opens the dialog
  again for a visitor who has asked for a call and closed it.
\<close>

theorem blocked_storage_reopens:
  assumes "\<not> lc_works s" "lc_timer s" "\<not> lc_fired s" "\<not> lc_open s"
  shows "allowed lead_guard lead_step s [CtaClick, CloseLead, DelayOver] \<and> lc_open (run lead_step s [CtaClick, CloseLead, DelayOver])"
  using assms by (simp add: lead_view_def markLeadShown_def openLead_def leadShownThisSession_def)

theorem blocked_storage_reopens_witness:
  "lc_open (run lead_step (run lead_step (lead_dialog0 False) [Visit ''maths'' True True]) [CtaClick, CloseLead, DelayOver])"
proof -
  let ?s = "run lead_step (lead_dialog0 False) [Visit ''maths'' True True]"
  have f: "\<not> lc_works ?s" "lc_timer ?s" "\<not> lc_fired ?s" "\<not> lc_open ?s" by code_simp+
  from blocked_storage_reopens [OF f] show ?thesis by blast
qed

section \<open>Numbers\<close>

text \<open>
  A local number and the same number in its international form lead to one chat, however they are
  grouped.
\<close>

lemma filter_all: "list_all P xs \<Longrightarrow> filter P xs = xs"
  by (simp add: list_all_iff filter_id_conv)

theorem local_and_international:
  assumes "list_all digit d" "\<And>c. c \<in> set sep \<Longrightarrow> \<not> digit c"
  shows "leadWhatsAppHref (''0'' @ sep @ d) = Some (''https://wa.me/234'' @ d) \<and> leadWhatsAppHref (''+234'' @ sep @ d) = Some (''https://wa.me/234'' @ d)"
proof -
  have "filter digit sep = []" using assms(2) by (auto simp: filter_empty_conv)
  moreover have "filter digit ''0'' = ''0''" "filter digit ''+234'' = ''234''" by (simp_all add: digit_def)
  ultimately have "filter digit (''0'' @ sep @ d) = ''0'' @ d" "filter digit (''+234'' @ sep @ d) = ''234'' @ d"
    using filter_all [OF assms(1)] by (simp_all only: filter_append append_Nil)
  then show ?thesis by (simp add: leadWhatsAppHref_def Let_def)
qed

theorem local_and_international_witness:
  "leadWhatsAppHref ''0 801'' = Some ''https://wa.me/234801''"
proof -
  have "list_all digit ''801''" "\<And>c. c \<in> set '' '' \<Longrightarrow> \<not> digit c" by (simp_all add: digit_def)
  from local_and_international [of "''801''" "'' ''", OF this] show ?thesis by simp
qed

text \<open>
  The form takes a phone for valid that has no digit at all, for which the queue has no chat;
  and an international number dialled with \<open>00\<close> is taken for a local one.
\<close>

theorem odd_numbers:
  "phone_ok ''(------)'' \<and> leadWhatsAppHref ''(------)'' = None \<and>
   phone_ok (''0044'' @ replicate 9 (CHR ''1'')) \<and> leadWhatsAppHref (''0044'' @ replicate 9 (CHR ''1'')) = Some (''https://wa.me/234044'' @ replicate 9 (CHR ''1''))"
  by code_simp

text \<open>The thanks go to the text before the first blank of the name as it was typed: a leading blank thanks nobody.\<close>

theorem leading_blank_thanks_nobody:
  assumes "lc_open s" "lc_sent s" "lf_name (lc_form s) = '' '' @ n"
  shows "Txt ''Thanks '' \<in> set (lead_view s)"
  using assms by (simp add: lead_view_def)

theorem leading_blank_thanks_nobody_witness:
  "Txt ''Thanks '' \<in> set (lead_view (run lead_step (lead_dialog0 True)
     [Visit ''maths'' True True, MouseOut 3, TypeLead ada_lead, SubmitLead, LeadStored (1, lead_payload ''maths'' ada_lead)]))"
proof -
  let ?s = "run lead_step (lead_dialog0 True) [Visit ''maths'' True True, MouseOut 3, TypeLead ada_lead, SubmitLead, LeadStored (1, lead_payload ''maths'' ada_lead)]"
  have f: "lc_open ?s" "lc_sent ?s" "lf_name (lc_form ?s) = '' '' @ ''Ada Obi''" by code_simp+
  from leading_blank_thanks_nobody [OF f] show ?thesis .
qed

end
