(* ===== verification/LeadQueue.thy ===== *)
theory LeadQueue
  imports Machine JsText Http Leads
begin

text \<open>
  The administrators' queue of leads (\<open>client/app/admin/leads/page.tsx\<close>): the counters and tabs, the
  buttons of a lead, the one slot that remembers which lead is being marked, and the pager. The
  query's answers are events of any content.
\<close>

datatype lead_status = Ls_New | Ls_Contacted | Ls_Converted | Ls_Closed

definition status_word :: "lead_status \<Rightarrow> jsstring" where
  "status_word st = (case st of Ls_New \<Rightarrow> ''NEW'' | Ls_Contacted \<Rightarrow> ''CONTACTED'' | Ls_Converted \<Rightarrow> ''CONVERTED'' | Ls_Closed \<Rightarrow> ''CLOSED'')"

definition intentLabel :: "jsstring \<Rightarrow> jsstring" where
  "intentLabel i =
     (if i = ''CALLBACK_REQUEST'' then ''Callback request''
      else if i = ''ENROLLMENT_STARTED'' then ''Started enrollment''
      else if i = ''GENERAL_INTEREST'' then ''Browse interest'' else i)"

record lead_row =
  lr_id :: jsstring
  lr_name :: jsstring
  lr_phone :: jsstring \<comment> \<open>empty when none\<close>
  lr_intent :: jsstring
  lr_status :: lead_status

text \<open>The buttons of a lead: label and the status asked for.\<close>

definition lead_marks :: "lead_status \<Rightarrow> (jsstring \<times> lead_status) list" where
  "lead_marks st =
     (if st = Ls_New then [(''Mark contacted'', Ls_Contacted)] else []) @
     (if st = Ls_New \<or> st = Ls_Contacted then [(''Enrolled'', Ls_Converted)] else []) @
     (if st \<noteq> Ls_Closed \<and> st \<noteq> Ls_Converted then [(''Close'', Ls_Closed)] else [])"

fun marked :: "lead_status \<Rightarrow> lead_status list \<Rightarrow> lead_status option" where
  "marked st [] = Some st"
| "marked st (t # ts) = (if t \<in> set (map snd (lead_marks st)) then marked t ts else None)"

record lead_queue =
  lq_status :: "lead_status option" \<comment> \<open>\<open>None\<close> is the tab of all\<close>
  lq_page :: nat
  lq_busy :: "jsstring option"
  lq_rows :: "lead_row list"
  lq_total :: "nat option"
  lq_counts :: "(lead_status \<times> nat) list"
  lq_calls :: "(jsstring \<times> lead_status) list"
  lq_settling :: "(jsstring \<times> lead_status) list" \<comment> \<open>answered, waiting for the list\<close>
  lq_sent :: "(jsstring \<times> lead_status) list"
  lq_toasts :: "jsstring list"

definition lead_queue0 :: lead_queue where
  "lead_queue0 = \<lparr>lq_status = Some Ls_New, lq_page = 1, lq_busy = None, lq_rows = [], lq_total = None, lq_counts = [], lq_calls = [], lq_settling = [],
     lq_sent = [], lq_toasts = []\<rparr>"

datatype queue_event =
    LeadsRead "lead_row list" "nat option" "(lead_status \<times> nat) list" | StatusTab "lead_status option" | MarkLead jsstring lead_status
  | MarkDone "jsstring \<times> lead_status" | MarkSettled "jsstring \<times> lead_status" | MarkLost "jsstring \<times> lead_status" js_exn | PrevLeads | NextLeads

definition lead_tabs :: "lead_status option list" where
  "lead_tabs = [None, Some Ls_New, Some Ls_Contacted, Some Ls_Converted, Some Ls_Closed]"

definition row_buttons :: "lead_queue \<Rightarrow> lead_row \<Rightarrow> queue_event widget list" where
  "row_buttons s l = [Txt (lr_name l), Txt (intentLabel (lr_intent l))] @ (case leadWhatsAppHref (lr_phone l) of Some h \<Rightarrow> [Txt h] | None \<Rightarrow> []) @
     map (\<lambda>m. Btn (fst m) (lq_busy s \<noteq> Some (lr_id l)) (MarkLead (lr_id l) (snd m))) (lead_marks (lr_status l))"

definition pager :: "lead_queue \<Rightarrow> queue_event widget list" where
  "pager s =
     (case lq_total s of
        Some n \<Rightarrow> if n > 20 then [Btn ''Prev'' (lq_page s > 1) PrevLeads, Btn ''Next'' (lq_page s * 20 < n) NextLeads] else []
      | None \<Rightarrow> [])"

definition queue_view :: "lead_queue \<Rightarrow> queue_event widget list" where
  "queue_view s =
     map (\<lambda>t. Btn (case t of None \<Rightarrow> ''All'' | Some st \<Rightarrow> status_word st) True (StatusTab t)) lead_tabs @
     (if lq_rows s = [] then [Txt ''No leads here''] else concat (map (row_buttons s) (lq_rows s))) @ pager s"

fun queue_guard :: "lead_queue \<Rightarrow> queue_event \<Rightarrow> bool" where
  "queue_guard s (LeadsRead rows n cs) = True"
| "queue_guard s (MarkDone c) = (c \<in> set (lq_calls s))"
| "queue_guard s (MarkLost c e) = (c \<in> set (lq_calls s))"
| "queue_guard s (MarkSettled c) = (c \<in> set (lq_settling s))"
| "queue_guard s e = (e \<in> set (offered (queue_view s)))"

fun queue_step :: "lead_queue \<Rightarrow> queue_event \<Rightarrow> lead_queue" where
  "queue_step s (LeadsRead rows n cs) = s\<lparr>lq_rows := rows, lq_total := n, lq_counts := cs\<rparr>"
| "queue_step s (StatusTab t) = s\<lparr>lq_status := t, lq_page := 1\<rparr>"
| "queue_step s (MarkLead i t) = s\<lparr>lq_busy := Some i, lq_calls := lq_calls s @ [(i, t)], lq_sent := lq_sent s @ [(i, t)]\<rparr>"
| "queue_step s (MarkDone c) = s\<lparr>lq_calls := remove1 c (lq_calls s), lq_settling := lq_settling s @ [c],
     lq_toasts := lq_toasts s @ [''Lead marked '' @ to_lower (status_word (snd c))]\<rparr>"
| "queue_step s (MarkSettled c) = s\<lparr>lq_settling := remove1 c (lq_settling s), lq_busy := None\<rparr>"
| "queue_step s (MarkLost c e) = s\<lparr>lq_calls := remove1 c (lq_calls s), lq_busy := None, lq_toasts := lq_toasts s @ [message_or ''Could not update lead'' e]\<rparr>"
| "queue_step s PrevLeads = s\<lparr>lq_page := max 1 (lq_page s - 1)\<rparr>"
| "queue_step s NextLeads = s\<lparr>lq_page := lq_page s + 1\<rparr>"

section \<open>The funnel\<close>

text \<open>
  A lead moves forward only: two marks end the work on it, a converted or closed lead offers
  none, and no lead becomes new again.
\<close>

theorem funnel_ends:
  assumes "marked st ts = Some r"
  shows "length ts \<le> 2 \<and> Ls_New \<notin> set ts \<and> (length ts = 2 \<longrightarrow> r \<in> {Ls_Converted, Ls_Closed} \<and> st = Ls_New) \<and>
     (r \<in> {Ls_Converted, Ls_Closed} \<longrightarrow> lead_marks r = [])"
proof -
  have one: "t \<in> {Ls_Contacted, Ls_Converted, Ls_Closed}" "t = Ls_Contacted \<Longrightarrow> st = Ls_New" "st \<noteq> Ls_Converted" "st \<noteq> Ls_Closed"
    if "t \<in> set (map snd (lead_marks st))" for t st
    using that by (cases st; auto simp: lead_marks_def)+
  show ?thesis
  proof (cases ts)
    case (Cons t us)
    then have t: "t \<in> set (map snd (lead_marks st))" "marked t us = Some r" using assms by (auto split: if_splits)
    show ?thesis
    proof (cases us)
      case Nil
      then show ?thesis using Cons t one [OF t(1)] by (auto simp: lead_marks_def)
    next
      case (Cons u vs)
      then have u: "u \<in> set (map snd (lead_marks t))" "marked u vs = Some r" using t(2) by (auto split: if_splits)
      have tc: "t = Ls_Contacted" "st = Ls_New" using one [OF t(1)] one(3,4) [OF u(1)] by auto
      have "u \<noteq> Ls_Contacted" using one(2) [OF u(1)] tc(1) by auto
      then have ue: "u \<in> {Ls_Converted, Ls_Closed}" using one(1) [OF u(1)] by auto
      have "vs = []"
      proof (cases vs)
        case (Cons v ws)
        then have "v \<in> set (map snd (lead_marks u))" using u(2) by (auto split: if_splits)
        then show ?thesis using one(3,4) ue by blast
      qed
      then show ?thesis using \<open>ts = t # us\<close> \<open>us = u # vs\<close> u tc ue by (auto simp: lead_marks_def)
    qed
  qed (use assms in \<open>auto simp: lead_marks_def\<close>)
qed

theorem funnel_ends_witness:
  "marked Ls_New [Ls_Contacted, Ls_Converted] = Some Ls_Converted \<and> length [Ls_Contacted, Ls_Converted] \<le> 2"
proof -
  have "marked Ls_New [Ls_Contacted, Ls_Converted] = Some Ls_Converted" by code_simp
  from funnel_ends [OF this] this show ?thesis by blast
qed

section \<open>The queue\<close>

definition queue_inv :: "lead_queue \<Rightarrow> bool" where
  "queue_inv s = (1 \<le> lq_page s \<and> list_all (\<lambda>c. snd c \<noteq> Ls_New) (lq_sent s) \<and> list_all (\<lambda>c. snd c \<noteq> Ls_New) (lq_calls s @ lq_settling s))"

lemma marks_never_new: "m \<in> set (lead_marks st) \<Longrightarrow> snd m \<noteq> Ls_New"
  by (auto simp: lead_marks_def split: if_splits)

lemma queue_offers: "MarkLead i t \<in> set (offered (queue_view s)) \<Longrightarrow> t \<noteq> Ls_New \<and> lq_busy s \<noteq> Some i"
  by (auto simp: queue_view_def row_buttons_def pager_def offered_map_when dest: marks_never_new split: option.splits if_splits)

lemma queue_step_inv: "queue_inv s \<Longrightarrow> queue_guard s e \<Longrightarrow> queue_inv (queue_step s e)"
proof (cases e)
  case (MarkLead i t)
  assume "queue_inv s" "queue_guard s e"
  then show ?thesis using MarkLead queue_offers [of i t s] by (simp add: queue_inv_def)
qed (auto simp: queue_inv_def list_all_iff dest: set_remove1_subset [THEN subsetD])

interpretation queue: machine "\<lambda>s. s = lead_queue0" queue_guard queue_step queue_inv
  by unfold_locales (simp add: queue_inv_def lead_queue0_def, rule queue_step_inv)

text \<open>No request makes a lead new again, and the page is at least the first.\<close>

theorem queue_safe:
  assumes "reach (\<lambda>s. s = lead_queue0) queue_guard queue_step s"
  shows "1 \<le> lq_page s \<and> list_all (\<lambda>c. snd c \<noteq> Ls_New) (lq_sent s)"
  using queue.reach_inv [OF assms] by (simp add: queue_inv_def)

definition lead_a :: lead_row where
  "lead_a = \<lparr>lr_id = ''a'', lr_name = ''Ada'', lr_phone = ''0801'', lr_intent = ''CALLBACK_REQUEST'', lr_status = Ls_New\<rparr>"

definition lead_b :: lead_row where
  "lead_b = lead_a\<lparr>lr_id := ''b''\<rparr>"

theorem queue_safe_witness:
  "(let s = run queue_step lead_queue0 [LeadsRead [lead_a, lead_b] (Some 21) [], MarkLead ''a'' Ls_Closed, NextLeads] in
     1 \<le> lq_page s \<and> lq_sent s = [(''a'', Ls_Closed)] \<and> list_all (\<lambda>c. snd c \<noteq> Ls_New) (lq_sent s))"
proof -
  let ?es = "[LeadsRead [lead_a, lead_b] (Some 21) [], MarkLead ''a'' Ls_Closed, NextLeads]"
  have f: "allowed queue_guard queue_step lead_queue0 ?es" "lq_sent (run queue_step lead_queue0 ?es) = [(''a'', Ls_Closed)]" by code_simp+
  from queue_safe [OF run_reachable [OF refl f(1)]] f(2) show ?thesis unfolding Let_def by blast
qed

text \<open>
  The one slot holds one lead: when a second lead is being marked, the end of the first one's
  request gives the second its buttons back, and its mark can be sent again.
\<close>

theorem one_slot_for_all:
  assumes "l \<in> set (lq_rows s)" "(lbl, t) \<in> set (lead_marks (lr_status l))" "lq_busy s = Some a" "a \<noteq> lr_id l" "c \<in> set (lq_settling s)"
  shows "allowed queue_guard queue_step s [MarkLead (lr_id l) t, MarkSettled c, MarkLead (lr_id l) t] \<and>
     lq_sent (run queue_step s [MarkLead (lr_id l) t, MarkSettled c, MarkLead (lr_id l) t]) = lq_sent s @ [(lr_id l, t), (lr_id l, t)]"
proof -
  have "MarkLead (lr_id l) t \<in> set (offered (queue_view s'))" if "l \<in> set (lq_rows s')" "lq_busy s' \<noteq> Some (lr_id l)" for s'
  proof -
    have "MarkLead (lr_id l) t \<in> set (offered (row_buttons s' l))" using assms(2) that(2) by (force simp: row_buttons_def offered_map_when image_iff split: option.split)
    then show ?thesis using that(1) by (auto simp: queue_view_def)
  qed
  then show ?thesis using assms by simp
qed

theorem one_slot_for_all_witness:
  "lq_sent (run queue_step (run queue_step lead_queue0 [LeadsRead [lead_a, lead_b] (Some 2) [], MarkLead ''a'' Ls_Closed, MarkDone (''a'', Ls_Closed)])
      [MarkLead ''b'' Ls_Closed, MarkSettled (''a'', Ls_Closed), MarkLead ''b'' Ls_Closed]) = [(''a'', Ls_Closed), (''b'', Ls_Closed), (''b'', Ls_Closed)]"
proof -
  let ?s = "run queue_step lead_queue0 [LeadsRead [lead_a, lead_b] (Some 2) [], MarkLead ''a'' Ls_Closed, MarkDone (''a'', Ls_Closed)]"
  have f: "lead_b \<in> set (lq_rows ?s)" "(''Close'', Ls_Closed) \<in> set (lead_marks (lr_status lead_b))" "lq_busy ?s = Some ''a''" "''a'' \<noteq> lr_id lead_b"
    "(''a'', Ls_Closed) \<in> set (lq_settling ?s)" "lr_id lead_b = ''b''" "lq_sent ?s = [(''a'', Ls_Closed)]" by code_simp+
  from one_slot_for_all [OF f(1-5)] f(6,7) show ?thesis by (simp del: run.simps)
qed

text \<open>
  Marking leads shrinks their tab: when the list falls to twenty the pager goes, and whoever was
  on the second page sees no lead and no way back but another tab.
\<close>

theorem shrunk_list_strands:
  assumes "n \<le> 20"
  shows "queue_guard s (LeadsRead [] (Some n) cs) \<and> Txt ''No leads here'' \<in> set (queue_view (queue_step s (LeadsRead [] (Some n) cs))) \<and>
     list_all (\<lambda>e. case e of StatusTab t \<Rightarrow> True | _ \<Rightarrow> False) (offered (queue_view (queue_step s (LeadsRead [] (Some n) cs)))) \<and>
     lq_page (queue_step s (LeadsRead [] (Some n) cs)) = lq_page s"
  using assms by (simp add: queue_view_def pager_def lead_tabs_def)

theorem shrunk_list_strands_witness:
  "(let s = run queue_step lead_queue0 [LeadsRead [lead_a] (Some 21) [], NextLeads] in
     lq_page (queue_step s (LeadsRead [] (Some 20) [])) = 2 \<and> Txt ''No leads here'' \<in> set (queue_view (queue_step s (LeadsRead [] (Some 20) []))))"
proof -
  let ?s = "run queue_step lead_queue0 [LeadsRead [lead_a] (Some 21) [], NextLeads]"
  have "lq_page ?s = 2" by code_simp
  with shrunk_list_strands [of 20 ?s "[]"] show ?thesis unfolding Let_def by simp
qed

end
