(* ===== verification/SearchPages.thy ===== *)
theory SearchPages
  imports Machine JsText Endpoints
begin

text \<open>
  Searching on the web (\<open>client/app/search/page.tsx\<close>) and on the phone
  (\<open>mobile/app/search.tsx\<close>). The web page asks by key: an answer belongs to the term and the
  filters it was asked for. The phone's screen keeps one list of results, whichever search
  answers. Both wait before they ask; the timer is an event. A tutor is its slug.
\<close>

section \<open>The web page\<close>

datatype search_group = By_Tutors | By_Programmes | By_Subjects

datatype search_key = TutorKey jsstring jsstring bool | ProgrammeKey jsstring | SubjectKey jsstring

record web_search =
  ws_q :: jsstring \<comment> \<open>of the address\<close>
  ws_input :: jsstring
  ws_debounced :: jsstring
  ws_timer :: bool
  ws_group :: search_group
  ws_subject :: jsstring
  ws_online :: bool
  ws_data :: "(search_key \<times> jsstring list option) list" \<comment> \<open>\<open>None\<close>: the read failed\<close>
  ws_fetching :: "search_key list"
  ws_asked :: "search_key list"
  ws_pushed :: "jsstring list"

definition activeQ :: "web_search \<Rightarrow> jsstring" where
  "activeQ s = (if utf16_length (ws_debounced s) > 1 then ws_debounced s else [])"

definition current_keys :: "web_search \<Rightarrow> search_key list" where
  "current_keys s = (if activeQ s = [] then [] else [TutorKey (activeQ s) (ws_subject s) (ws_online s), ProgrammeKey (activeQ s), SubjectKey (activeQ s)])"

text \<open>After each change the queries of the current keys that have no answer yet are sent.\<close>

definition needed :: "web_search \<Rightarrow> search_key list" where
  "needed s = filter (\<lambda>k. k \<notin> fst ` set (ws_data s) \<and> k \<notin> set (ws_fetching s)) (current_keys s)"

definition ask :: "web_search \<Rightarrow> web_search" where
  "ask s = s\<lparr>ws_fetching := ws_fetching s @ needed s, ws_asked := ws_asked s @ needed s\<rparr>"

definition web_search0 :: "jsstring \<Rightarrow> web_search" where
  "web_search0 q = ask \<lparr>ws_q = q, ws_input = q, ws_debounced = q, ws_timer = True, ws_group = By_Tutors, ws_subject = [], ws_online = False, ws_data = [],
     ws_fetching = [], ws_asked = [], ws_pushed = []\<rparr>"

definition search_rows :: "search_key \<Rightarrow> web_search \<Rightarrow> jsstring list" where
  "search_rows k s = (case map_of (ws_data s) k of Some (Some xs) \<Rightarrow> xs | _ \<Rightarrow> [])"

definition anyLoading :: "web_search \<Rightarrow> bool" where
  "anyLoading s = list_ex (\<lambda>k. k \<in> set (ws_fetching s)) (current_keys s)"

definition group_key :: "web_search \<Rightarrow> search_key" where
  "group_key s = (case ws_group s of By_Tutors \<Rightarrow> TutorKey (activeQ s) (ws_subject s) (ws_online s) | By_Programmes \<Rightarrow> ProgrammeKey (activeQ s)
     | By_Subjects \<Rightarrow> SubjectKey (activeQ s))"

datatype web_event =
    TypeTerm jsstring | Settle | AddressIs jsstring | SubmitTerm | GroupTo search_group | SubjectTo jsstring | OnlineTo bool
  | Found search_key "jsstring list" | NotRead search_key

definition search_texts :: "web_search \<Rightarrow> jsstring list" where
  "search_texts s =
     (if activeQ s = []
      then [if utf16_length (ws_debounced s) = 1 then ''Keep typing - search needs at least 2 characters.''
            else ''Type above to search tutors, programmes and subjects.'']
      else search_rows (group_key s) s @
        (if search_rows (group_key s) s = [] \<and> \<not> anyLoading s
         then [case ws_group s of By_Tutors \<Rightarrow> ''No tutors match'' | By_Programmes \<Rightarrow> ''No programmes match'' | By_Subjects \<Rightarrow> ''No subjects match''] else []))"

fun web_guard :: "web_search \<Rightarrow> web_event \<Rightarrow> bool" where
  "web_guard s Settle = ws_timer s"
| "web_guard s (GroupTo g) = (activeQ s \<noteq> [])"
| "web_guard s (SubjectTo v) = (activeQ s \<noteq> [] \<and> ws_group s = By_Tutors)"
| "web_guard s (OnlineTo b) = (activeQ s \<noteq> [] \<and> ws_group s = By_Tutors)"
| "web_guard s (Found k xs) = (k \<in> set (ws_fetching s))"
| "web_guard s (NotRead k) = (k \<in> set (ws_fetching s))"
| "web_guard s e = True"

text \<open>A new value of the input restarts the timer; setting the same value changes nothing.\<close>

definition set_input :: "jsstring \<Rightarrow> web_search \<Rightarrow> web_search" where
  "set_input v s = (if v = ws_input s then s else s\<lparr>ws_input := v, ws_timer := True\<rparr>)"

definition push_target :: "jsstring \<Rightarrow> jsstring" where
  "push_target v = (if trim v \<noteq> [] then ''/search?q='' @ encode_uri_component (trim v) else ''/search'')"

fun web_act :: "web_search \<Rightarrow> web_event \<Rightarrow> web_search" where
  "web_act s (TypeTerm v) = set_input v s"
| "web_act s Settle = s\<lparr>ws_timer := False, ws_debounced := trim (ws_input s)\<rparr>"
| "web_act s (AddressIs q) = (if q = ws_q s then s else set_input q (s\<lparr>ws_q := q\<rparr>))"
| "web_act s SubmitTerm = s\<lparr>ws_pushed := ws_pushed s @ [push_target (ws_input s)]\<rparr>"
| "web_act s (GroupTo g) = s\<lparr>ws_group := g\<rparr>"
| "web_act s (SubjectTo v) = s\<lparr>ws_subject := v\<rparr>"
| "web_act s (OnlineTo b) = s\<lparr>ws_online := b\<rparr>"
| "web_act s (Found k xs) = s\<lparr>ws_fetching := remove1 k (ws_fetching s), ws_data := (k, Some xs) # ws_data s\<rparr>"
| "web_act s (NotRead k) = s\<lparr>ws_fetching := remove1 k (ws_fetching s), ws_data := (k, None) # ws_data s\<rparr>"

definition web_step :: "web_search \<Rightarrow> web_event \<Rightarrow> web_search" where
  "web_step s e = ask (web_act s e)"

section \<open>What the web page asks and shows\<close>

fun key_term :: "search_key \<Rightarrow> jsstring" where
  "key_term (TutorKey q a b) = q"
| "key_term (ProgrammeKey q) = q"
| "key_term (SubjectKey q) = q"

definition web_inv :: "web_search \<Rightarrow> bool" where
  "web_inv s =
     (list_all (\<lambda>k. utf16_length (key_term k) > 1) (ws_asked s) \<and> distinct (ws_asked s) \<and> distinct (ws_fetching s) \<and>
      set (ws_asked s) = set (ws_fetching s) \<union> fst ` set (ws_data s) \<and> set (ws_fetching s) \<inter> fst ` set (ws_data s) = {} \<and>
      (if ws_timer s then True else ws_debounced s = trim (ws_input s)) \<and> set (current_keys s) \<subseteq> set (ws_asked s))"

definition asked_once :: "web_search \<Rightarrow> bool" where
  "asked_once s =
     (list_all (\<lambda>k. utf16_length (key_term k) > 1) (ws_asked s) \<and> distinct (ws_asked s) \<and> distinct (ws_fetching s) \<and>
      set (ws_asked s) = set (ws_fetching s) \<union> fst ` set (ws_data s) \<and> set (ws_fetching s) \<inter> fst ` set (ws_data s) = {} \<and>
      (if ws_timer s then True else ws_debounced s = trim (ws_input s)))"

lemma current_terms: "k \<in> set (current_keys s) \<Longrightarrow> utf16_length (key_term k) > 1"
  by (auto simp: current_keys_def activeQ_def utf16_length_def split: if_splits)

lemma ask_fields [simp]:
  "ws_data (ask s) = ws_data s" "ws_timer (ask s) = ws_timer s" "ws_debounced (ask s) = ws_debounced s" "ws_input (ask s) = ws_input s"
  "current_keys (ask s) = current_keys s" "activeQ (ask s) = activeQ s" "ws_group (ask s) = ws_group s" "search_rows k (ask s) = search_rows k s"
  by (simp_all add: ask_def current_keys_def activeQ_def search_rows_def)

lemma distinct_current: "distinct (current_keys s)"
  by (simp add: current_keys_def)

lemma ask_inv: "asked_once s \<Longrightarrow> web_inv (ask s)"
proof -
  assume a: "asked_once s"
  have n: "set (needed s) = set (current_keys s) - (set (ws_fetching s) \<union> fst ` set (ws_data s))" "distinct (needed s)"
    using distinct_current [of s] by (auto simp: needed_def)
  have t: "list_all (\<lambda>k. utf16_length (key_term k) > 1) (needed s)" using current_terms [of _ s] n(1) by (auto simp: list_all_iff)
  have f: "ws_fetching (ask s) = ws_fetching s @ needed s" "ws_asked (ask s) = ws_asked s @ needed s" by (simp_all add: ask_def)
  have all: "list_all (\<lambda>k. utf16_length (key_term k) > 1) (ws_asked s)" "distinct (ws_asked s)" "distinct (ws_fetching s)"
    "set (ws_asked s) = set (ws_fetching s) \<union> fst ` set (ws_data s)" "set (ws_fetching s) \<inter> fst ` set (ws_data s) = {}"
    "if ws_timer s then True else ws_debounced s = trim (ws_input s)"
    using a unfolding asked_once_def by simp_all
  have d: "distinct (ws_asked s @ needed s)" "distinct (ws_fetching s @ needed s)" using all(2,3,4) n by auto
  have u: "set (ws_asked s @ needed s) = set (ws_fetching s @ needed s) \<union> fst ` set (ws_data s)" using all(4) by auto
  have x: "set (ws_fetching s @ needed s) \<inter> fst ` set (ws_data s) = {}" using all(5) n(1) by auto
  have c: "set (current_keys s) \<subseteq> set (ws_asked s @ needed s)" using all(4) n(1) by auto
  have l: "list_all (\<lambda>k. utf16_length (key_term k) > 1) (ws_asked s @ needed s)" using all(1) t by simp
  show ?thesis unfolding web_inv_def f ask_fields using all(6) d u x c l by (intro conjI)
qed

lemma act_asked: "web_inv s \<Longrightarrow> web_guard s e \<Longrightarrow> asked_once (web_act s e)"
  by (cases e) (auto simp: web_inv_def asked_once_def set_input_def)

lemma web_start: "web_inv (web_search0 q)"
  unfolding web_search0_def by (intro ask_inv) (simp add: asked_once_def)

interpretation web: machine "\<lambda>s. s = web_search0 q" web_guard web_step web_inv
  for q
  by unfold_locales (simp add: web_start, simp add: web_step_def act_asked ask_inv)

text \<open>
  Only terms of at least two characters are asked for, each key once; once the timer has run the
  term is the trimmed input, and every key of the current term and filters has an answer or is
  on its way.
\<close>

theorem searches_asked_once:
  assumes "reach (\<lambda>s. s = web_search0 q) web_guard web_step s"
  shows "list_all (\<lambda>k. utf16_length (key_term k) > 1) (ws_asked s) \<and> distinct (ws_asked s) \<and>
     (if ws_timer s then True else ws_debounced s = trim (ws_input s)) \<and> set (current_keys s) \<subseteq> set (ws_fetching s) \<union> fst ` set (ws_data s)"
  using web.reach_inv [OF assms] unfolding web_inv_def by blast

theorem searches_asked_once_witness:
  "(let s = run web_step (web_search0 []) [TypeTerm '' algebra'', Settle, OnlineTo True] in
     length (ws_asked s) = 4 \<and> distinct (ws_asked s) \<and> ws_debounced s = ''algebra'')"
proof -
  let ?es = "[TypeTerm '' algebra'', Settle, OnlineTo True]"
  have f: "allowed web_guard web_step (web_search0 []) ?es" "length (ws_asked (run web_step (web_search0 []) ?es)) = 4"
    "ws_debounced (run web_step (web_search0 []) ?es) = ''algebra''" by code_simp+
  from searches_asked_once [OF run_reachable [OF refl f(1)]] f(2,3) show ?thesis unfolding Let_def by blast
qed

text \<open>What is pushed is read back from the address as the trimmed input, whatever it is.\<close>

lemma decode_component: "form_decode (encode_uri_component s) = s"
proof (induction s)
  case (Cons c s)
  show ?case
  proof (cases "uri_unreserved c")
    case True
    then have "c \<noteq> CHR ''%''" "c \<noteq> CHR ''+''" by (auto simp: uri_unreserved_def alnum_def)
    with Cons True show ?thesis by (simp add: encode_uri_component_def)
  next
    case False
    with Cons show ?thesis by (simp add: encode_uri_component_def form_decode_pct)
  qed
qed (simp add: encode_uri_component_def)

theorem pushed_term_comes_back:
  "(if trim v = [] then push_target v = ''/search'' else parse_qs (drop 8 (push_target v)) = [(''q'', trim v)])"
proof (cases "trim v = []")
  case False
  let ?e = "encode_uri_component (trim v)"
  have f: "CHR ''&'' \<notin> set ?e" "CHR ''='' \<notin> set ?e" by (simp_all add: encode_component_free)
  have d: "drop 8 (push_target v) = ''q'' @ CHR ''='' # ?e" using False by (simp add: push_target_def)
  have a: "split_on (CHR ''&'') (''q'' @ CHR ''='' # ?e) = [''q'' @ CHR ''='' # ?e]" using f(1) by (intro split_on_free) auto
  have b: "split_on (CHR ''='') (''q'' @ CHR ''='' # ?e) = [''q'', ?e]" using f(2) by (subst split_on_append) (simp_all add: split_on_free)
  have c: "form_decode ''q'' = ''q''" by (simp add: numeral_2_eq_2)
  have "parse_qs (''q'' @ CHR ''='' # ?e) = [parse_pair (''q'' @ CHR ''='' # ?e)]" unfolding parse_qs_def a by simp
  also have "parse_pair (''q'' @ CHR ''='' # ?e) = (''q'', trim v)" unfolding parse_pair_def b using c by (simp add: decode_component)
  finally show ?thesis using False d by simp
qed (simp add: push_target_def)

text \<open>The new address replaces what was typed since it was submitted.\<close>

theorem address_discards_typing:
  assumes "q \<noteq> ws_q s"
  shows "allowed web_guard web_step s [TypeTerm v, AddressIs q] \<and> ws_input (run web_step s [TypeTerm v, AddressIs q]) = q"
  using assms by (simp add: web_step_def set_input_def ask_def)

theorem address_discards_typing_witness:
  "ws_input (run web_step (run web_step (web_search0 []) [TypeTerm ''maths'', SubmitTerm]) [TypeTerm ''maths tutor'', AddressIs ''maths'']) = ''maths''"
proof -
  have "''maths'' \<noteq> ws_q (run web_step (web_search0 []) [TypeTerm ''maths'', SubmitTerm])" by code_simp
  from address_discards_typing [OF this] show ?thesis by blast
qed

lemma answered_view:
  "activeQ (s\<lparr>ws_fetching := f, ws_data := d\<rparr>) = activeQ s" "current_keys (s\<lparr>ws_fetching := f, ws_data := d\<rparr>) = current_keys s"
  "group_key (s\<lparr>ws_fetching := f, ws_data := d\<rparr>) = group_key s"
  by (cases "ws_group s"; simp add: activeQ_def current_keys_def group_key_def)+

text \<open>A search that fails says that nothing matches.\<close>

theorem failed_search_says_none:
  assumes "k = group_key s" "activeQ s \<noteq> []" "set (ws_fetching s) \<inter> set (current_keys s) = {k}" "distinct (ws_fetching s)"
    and "set (current_keys s) \<subseteq> set (ws_fetching s) \<union> fst ` set (ws_data s)"
  shows "web_guard s (NotRead k) \<and> (\<exists>m. search_texts (web_step s (NotRead k)) = [m] \<and> take 3 m = ''No '')"
proof -
  let ?t = "s\<lparr>ws_fetching := remove1 k (ws_fetching s), ws_data := (k, None) # ws_data s\<rparr>"
  have k: "k \<in> set (ws_fetching s)" using assms(3) by blast
  have act: "activeQ ?t = activeQ s" "current_keys ?t = current_keys s" "group_key ?t = k" "ws_group ?t = ws_group s"
    unfolding answered_view using assms(1) by simp_all
  have "needed ?t = []" using assms(4,5) by (auto simp: needed_def act filter_empty_conv)
  then have st: "web_step s (NotRead k) = ?t" by (simp add: web_step_def ask_def)
  have "search_rows k ?t = []" by (simp add: search_rows_def)
  moreover have "\<not> anyLoading ?t" using assms(3,4) by (auto simp: anyLoading_def act list_ex_iff)
  ultimately show ?thesis using k assms(2) unfolding st search_texts_def act by (simp split: search_group.split)
qed

theorem failed_search_says_none_witness:
  "(let s = run web_step (web_search0 ''ab'') [Found (ProgrammeKey ''ab'') [], Found (SubjectKey ''ab'') []] in
     \<exists>m. search_texts (web_step s (NotRead (TutorKey ''ab'' [] False))) = [m] \<and> take 3 m = ''No '')"
proof -
  let ?s = "run web_step (web_search0 ''ab'') [Found (ProgrammeKey ''ab'') [], Found (SubjectKey ''ab'') []]"
  have f: "TutorKey ''ab'' [] False = group_key ?s" "activeQ ?s \<noteq> []" "set (ws_fetching ?s) \<inter> set (current_keys ?s) = {TutorKey ''ab'' [] False}"
    "distinct (ws_fetching ?s)" "set (current_keys ?s) \<subseteq> set (ws_fetching ?s) \<union> fst ` set (ws_data ?s)" by code_simp+
  from failed_search_says_none [OF f] show ?thesis unfolding Let_def by blast
qed

section \<open>The phone's screen\<close>

text \<open>
  A search is a run: \<open>Looking\<close> waits for the list, \<open>Marking\<close> for the device's saved tutors.
  Clearing the timer stops no run.
\<close>

datatype phone_run = Looking nat jsstring | Marking nat "jsstring list"

record phone_search =
  ph_subject :: "jsstring option"
  ph_query :: jsstring
  ph_results :: "jsstring list"
  ph_saved :: "jsstring list" \<comment> \<open>\<open>savedSet\<close>\<close>
  ph_searched :: bool
  ph_loading :: bool
  ph_timer :: "jsstring option"
  ph_runs :: "phone_run list"
  ph_made :: nat
  ph_store :: "jsstring list" \<comment> \<open>what the device has saved\<close>
  ph_recommended :: "jsstring list"

definition phone_search0 :: "jsstring \<Rightarrow> jsstring option \<Rightarrow> jsstring list \<Rightarrow> phone_search" where
  "phone_search0 q subject store = \<lparr>ph_subject = subject, ph_query = q, ph_results = [], ph_saved = [], ph_searched = False, ph_loading = False, ph_timer = Some q,
     ph_runs = [], ph_made = 0, ph_store = store, ph_recommended = []\<rparr>"

datatype phone_event =
    TypeQuery jsstring | TimerRuns | TutorsAre phone_run "jsstring list" | TutorsLost phone_run | SavedRead phone_run | Recommended "jsstring list" | Heart jsstring

definition searching :: "phone_search \<Rightarrow> bool" where
  "searching s = (utf16_length (trim (ph_query s)) \<ge> 2 \<or> ph_subject s \<noteq> None)"

text \<open>The tutors on the screen, each with whether its heart is filled.\<close>

definition phone_rows :: "phone_search \<Rightarrow> (jsstring \<times> bool) list" where
  "phone_rows s =
     (if searching s then (if ph_loading s then [] else map (\<lambda>t. (t, t \<in> set (ph_saved s))) (ph_results s))
      else map (\<lambda>t. (t, t \<in> set (ph_saved s))) (take 5 (ph_recommended s)))"

definition none_found :: "phone_search \<Rightarrow> bool" where
  "none_found s = (searching s \<and> \<not> ph_loading s \<and> ph_searched s \<and> ph_results s = [])"

fun phone_guard :: "phone_search \<Rightarrow> phone_event \<Rightarrow> bool" where
  "phone_guard s (TypeQuery v) = True"
| "phone_guard s TimerRuns = (ph_timer s \<noteq> None)"
| "phone_guard s (TutorsAre r ts) = (r \<in> set (ph_runs s) \<and> (case r of Looking n q \<Rightarrow> True | _ \<Rightarrow> False))"
| "phone_guard s (TutorsLost r) = (r \<in> set (ph_runs s) \<and> (case r of Looking n q \<Rightarrow> True | _ \<Rightarrow> False))"
| "phone_guard s (SavedRead r) = (r \<in> set (ph_runs s) \<and> (case r of Marking n ts \<Rightarrow> True | _ \<Rightarrow> False))"
| "phone_guard s (Recommended ts) = True"
| "phone_guard s (Heart t) = (t \<in> fst ` set (phone_rows s))"

definition run_timer :: "phone_search \<Rightarrow> phone_search" where
  "run_timer s =
     (case ph_timer s of
        None \<Rightarrow> s
      | Some q \<Rightarrow>
          let t = s\<lparr>ph_timer := None\<rparr> in
          if utf16_length (trim q) < 2 \<and> ph_subject s = None then t\<lparr>ph_results := [], ph_searched := False\<rparr>
          else t\<lparr>ph_loading := True, ph_runs := ph_runs s @ [Looking (ph_made s) (trim q)], ph_made := ph_made s + 1\<rparr>)"

definition toggled_store :: "jsstring \<Rightarrow> jsstring list \<Rightarrow> jsstring list" where
  "toggled_store t st = (if t \<in> set st then filter (\<lambda>x. x \<noteq> t) st else st @ [t])"

definition drop_run :: "phone_run \<Rightarrow> phone_search \<Rightarrow> phone_search" where
  "drop_run r s = s\<lparr>ph_runs := remove1 r (ph_runs s)\<rparr>"

fun phone_step :: "phone_search \<Rightarrow> phone_event \<Rightarrow> phone_search" where
  "phone_step s (TypeQuery v) = s\<lparr>ph_query := v, ph_timer := Some v\<rparr>"
| "phone_step s TimerRuns = run_timer s"
| "phone_step s (TutorsAre r ts) =
     (case r of Looking n q \<Rightarrow> (drop_run r s)\<lparr>ph_results := ts, ph_runs := ph_runs (drop_run r s) @ [Marking n ts]\<rparr> | _ \<Rightarrow> s)"
| "phone_step s (TutorsLost r) = (drop_run r s)\<lparr>ph_results := [], ph_loading := False, ph_searched := True\<rparr>"
| "phone_step s (SavedRead r) =
     (case r of
        Marking n ts \<Rightarrow> (drop_run r s)\<lparr>ph_saved := filter (\<lambda>t. t \<in> set (ph_store s)) ts, ph_loading := False, ph_searched := True\<rparr>
      | _ \<Rightarrow> s)"
| "phone_step s (Recommended ts) = s\<lparr>ph_recommended := ts\<rparr>"
| "phone_step s (Heart t) = s\<lparr>ph_store := toggled_store t (ph_store s), ph_saved := toggled_store t (ph_store s)\<rparr>"

text \<open>
  The answer that comes last wins, whatever is in the field: after two searches whose answers
  overtake each other the screen shows the tutors of the first under the text of the second,
  and none of the two runs is left to correct it.
\<close>

theorem overtaken_answer_wins:
  assumes "ph_runs s = [Looking m a, Looking n b]" "m \<noteq> n" "searching s" "b = trim (ph_query s)"
  shows "(let es = [TutorsAre (Looking n b) new, SavedRead (Marking n new), TutorsAre (Looking m a) old, SavedRead (Marking m old)] in
     allowed phone_guard phone_step s es \<and> map fst (phone_rows (run phone_step s es)) = old \<and>
     ph_query (run phone_step s es) = ph_query s \<and> ph_runs (run phone_step s es) = [])"
  using assms by (simp add: drop_run_def phone_rows_def searching_def o_def)

theorem overtaken_answer_wins_witness:
  "(let s = run phone_step (phone_search0 ''math'' None []) [TimerRuns, TypeQuery ''maths'', TimerRuns];
        es = [TutorsAre (Looking 1 ''maths'') [''new''], SavedRead (Marking 1 [''new'']), TutorsAre (Looking 0 ''math'') [''old''], SavedRead (Marking 0 [''old''])] in
     map fst (phone_rows (run phone_step s es)) = [''old''] \<and> ph_query s = ''maths'')"
proof -
  let ?s = "run phone_step (phone_search0 ''math'' None []) [TimerRuns, TypeQuery ''maths'', TimerRuns]"
  have f: "ph_runs ?s = [Looking 0 ''math'', Looking 1 ''maths'']" "searching ?s" "''maths'' = trim (ph_query ?s)" "ph_query ?s = ''maths''" by code_simp+
  from overtaken_answer_wins [OF f(1) _ f(2,3), of "[''new'']" "[''old'']"] f(4) show ?thesis unfolding Let_def by simp
qed

text \<open>
  The screen knows what is saved only after a search or a touch: a saved tutor that is
  recommended has an empty heart, and touching it takes the tutor out of the saved ones.
\<close>

theorem empty_heart_unsaves:
  assumes "t \<in> set (take 5 rs)" "t \<in> set store" "utf16_length (trim q) < 2"
  shows "(let s = run phone_step (phone_search0 q None store) [TimerRuns, Recommended rs] in
     (t, False) \<in> set (phone_rows s) \<and> phone_guard s (Heart t) \<and> t \<notin> set (ph_store (phone_step s (Heart t))))"
  using assms by (auto simp: phone_search0_def run_timer_def Let_def phone_rows_def searching_def toggled_store_def image_iff)

theorem empty_heart_unsaves_witness:
  "''ada'' \<notin> set (ph_store (phone_step (run phone_step (phone_search0 [] None [''ada'']) [TimerRuns, Recommended [''ada'']]) (Heart ''ada'')))"
proof -
  have f: "''ada'' \<in> set (take 5 [''ada''])" "''ada'' \<in> set [''ada'']" "utf16_length (trim []) < 2" by code_simp+
  from empty_heart_unsaves [OF f] show ?thesis unfolding Let_def by blast
qed

text \<open>A search that fails reads as one that found nobody.\<close>

theorem lost_search_finds_nobody:
  assumes "ph_runs s = [Looking n q]" "searching s"
  shows "phone_guard s (TutorsLost (Looking n q)) \<and> none_found (phone_step s (TutorsLost (Looking n q)))"
  using assms by (simp add: none_found_def searching_def drop_run_def)

theorem lost_search_finds_nobody_witness:
  "none_found (phone_step (run phone_step (phone_search0 ''maths'' None []) [TimerRuns]) (TutorsLost (Looking 0 ''maths'')))"
proof -
  have f: "ph_runs (run phone_step (phone_search0 ''maths'' None []) [TimerRuns]) = [Looking 0 ''maths'']"
    "searching (run phone_step (phone_search0 ''maths'' None []) [TimerRuns])" by code_simp+
  from lost_search_finds_nobody [OF f] show ?thesis by blast
qed

text \<open>The answers of one search at a time are shown with the hearts that the device has.\<close>

theorem single_search_true:
  assumes "ph_runs s = []" "ph_timer s = Some (ph_query s)" "searching s"
  shows "(let n = ph_made s; es = [TimerRuns, TutorsAre (Looking n (trim (ph_query s))) ts, SavedRead (Marking n ts)] in
     allowed phone_guard phone_step s es \<and> phone_rows (run phone_step s es) = map (\<lambda>t. (t, t \<in> set (ph_store s))) ts)"
  using assms by (auto simp: run_timer_def Let_def phone_rows_def searching_def drop_run_def)

theorem single_search_true_witness:
  "phone_rows (run phone_step (phone_search0 ''maths'' None [''ada'']) [TimerRuns, TutorsAre (Looking 0 ''maths'') [''ada'', ''bo''],
     SavedRead (Marking 0 [''ada'', ''bo''])]) = [(''ada'', True), (''bo'', False)]"
proof -
  let ?s = "phone_search0 ''maths'' None [''ada'']"
  have f: "ph_runs ?s = []" "ph_timer ?s = Some (ph_query ?s)" "searching ?s" "ph_made ?s = 0" "trim (ph_query ?s) = ''maths''" "ph_store ?s = [''ada'']" by code_simp+
  from single_search_true [OF f(1-3), of "[''ada'', ''bo'']"] show ?thesis unfolding Let_def f(4-6) by (simp del: run.simps)
qed

end
