(* ===== verification/MessageCenter.thy ===== *)
theory MessageCenter
  imports Machine JsText
begin

text \<open>
  The messages of the web client (\<open>client/features/messaging/components/MessageCenter.tsx\<close>): the
  conversations, the thread that is selected with its optimistic sends, and the contacts of an
  empty inbox. A send keeps the conversation it was made in, the thread as it was before, and the
  conversation that its callbacks see. Which one that is depends on the query library: with
  \<open>latest\<close> the callbacks of the last render replace those of the hook's pending mutation, as version 5
  does; without it a send keeps the callbacks it was started with.
\<close>

section \<open>The page\<close>

record message =
  mg_mine :: bool
  mg_body :: jsstring

record send_run =
  sr_no :: nat
  sr_to :: jsstring
  sr_body :: jsstring
  sr_prev :: "message list"
  sr_seen :: jsstring \<comment> \<open>\<open>selected\<close> in \<open>onError\<close> and \<open>onSettled\<close>\<close>
  sr_current :: bool \<comment> \<open>the mutation that the hook shows\<close>

record contact =
  ct_user :: jsstring
  ct_cohort :: "jsstring option"

record message_center =
  mc_tutor :: bool
  mc_convs :: "jsstring list option"
  mc_selected :: "jsstring option"
  mc_threads :: "(jsstring \<times> message list) list"
  mc_draft :: jsstring
  mc_sends :: "send_run list"
  mc_made :: nat
  mc_sent :: "(jsstring \<times> jsstring) list"
  mc_read :: "jsstring list" \<comment> \<open>conversations marked as read, in order\<close>
  mc_contacts :: "contact list option"
  mc_contactBusy :: "jsstring option"
  mc_starting :: "contact list"

definition message_center0 :: "bool \<Rightarrow> message_center" where
  "message_center0 tutor = \<lparr>mc_tutor = tutor, mc_convs = None, mc_selected = None, mc_threads = [], mc_draft = [], mc_sends = [], mc_made = 0, mc_sent = [],
     mc_read = [], mc_contacts = None, mc_contactBusy = None, mc_starting = []\<rparr>"

definition thread_of :: "message_center \<Rightarrow> jsstring \<Rightarrow> message list" where
  "thread_of s c = (case map_of (mc_threads s) c of Some ms \<Rightarrow> ms | None \<Rightarrow> [])"

definition set_thread :: "jsstring \<Rightarrow> message list \<Rightarrow> message_center \<Rightarrow> message_center" where
  "set_thread c ms s = s\<lparr>mc_threads := (c, ms) # mc_threads s\<rparr>"

definition messageList :: "message_center \<Rightarrow> message list" where
  "messageList s = (case mc_selected s of Some c \<Rightarrow> thread_of s c | None \<Rightarrow> [])"

datatype center_event =
    ConvsRead "jsstring list" | ThreadRead jsstring "message list" | SelectConv jsstring | TypeDraft jsstring | EnterKey | SendClick
  | SendDone send_run | SendFailed send_run | OpenContacts | ContactsRead "contact list" | ContactsLost | StartWith contact | Started contact jsstring | StartLost contact

definition send_pending :: "message_center \<Rightarrow> bool" where
  "send_pending s = list_ex sr_current (mc_sends s)"

definition no_contacts :: "bool \<Rightarrow> jsstring" where
  "no_contacts tutor = (if tutor then ''No confirmed learners in your cohorts yet.''
     else ''No tutor on your enrolments yet '' @ em_dash @ '' book a class first.'')"

definition inbox_view :: "message_center \<Rightarrow> center_event widget list" where
  "inbox_view s =
     (case mc_convs s of
        None \<Rightarrow> []
      | Some cs \<Rightarrow>
          if cs = []
          then Btn (if mc_tutor s then ''Message your learners'' else ''Message your tutor'') True OpenContacts #
            (case mc_contacts s of
               None \<Rightarrow> []
             | Some xs \<Rightarrow> if xs = [] then [Txt (no_contacts (mc_tutor s))]
                 else map (\<lambda>c. Btn (ct_user c) (mc_contactBusy s \<noteq> Some (ct_user c)) (StartWith c)) xs)
          else map (\<lambda>c. Btn c True (SelectConv c)) cs)"

definition thread_view :: "message_center \<Rightarrow> center_event widget list" where
  "thread_view s =
     (case mc_selected s of
        None \<Rightarrow> [Txt ''Select a conversation to view messages'']
      | Some c \<Rightarrow> map (\<lambda>m. Txt (mg_body m)) (rev (messageList s)) @ [Btn ''Send'' (trim (mc_draft s) \<noteq> [] \<and> \<not> send_pending s) SendClick])"

fun center_guard :: "message_center \<Rightarrow> center_event \<Rightarrow> bool" where
  "center_guard s (ConvsRead cs) = True"
| "center_guard s (ThreadRead c ms) = True"
| "center_guard s (TypeDraft v) = (mc_selected s \<noteq> None)"
| "center_guard s EnterKey = (mc_selected s \<noteq> None)"
| "center_guard s (SendDone r) = (r \<in> set (mc_sends s))"
| "center_guard s (SendFailed r) = (r \<in> set (mc_sends s))"
| "center_guard s (ContactsRead xs) = (mc_contacts s \<noteq> None)"
| "center_guard s ContactsLost = (mc_contacts s \<noteq> None)"
| "center_guard s (Started c v) = (c \<in> set (mc_starting s))"
| "center_guard s (StartLost c) = (c \<in> set (mc_starting s))"
| "center_guard s e = (e \<in> set (offered (inbox_view s @ thread_view s)))"

text \<open>\<open>submit\<close> with \<open>onMutate\<close>: the optimistic message goes in front, the field is emptied.\<close>

definition submit :: "message_center \<Rightarrow> message_center" where
  "submit s =
     (case mc_selected s of
        None \<Rightarrow> s
      | Some c \<Rightarrow>
          if trim (mc_draft s) = [] then s
          else (set_thread c (\<lparr>mg_mine = True, mg_body = trim (mc_draft s)\<rparr> # thread_of s c) s)
            \<lparr>mc_draft := [], mc_made := mc_made s + 1, mc_sent := mc_sent s @ [(c, trim (mc_draft s))],
             mc_sends := map (\<lambda>r. r\<lparr>sr_current := False\<rparr>) (mc_sends s) @
               [\<lparr>sr_no = mc_made s, sr_to = c, sr_body = trim (mc_draft s), sr_prev = thread_of s c, sr_seen = c, sr_current = True\<rparr>]\<rparr>)"

text \<open>A render with another selection: the hook's pending mutation gets its callbacks.\<close>

definition select :: "bool \<Rightarrow> jsstring \<Rightarrow> message_center \<Rightarrow> message_center" where
  "select latest c s =
     s\<lparr>mc_selected := Some c, mc_sends := map (\<lambda>r. if latest \<and> sr_current r then r\<lparr>sr_seen := c\<rparr> else r) (mc_sends s)\<rparr>"

fun center_act :: "bool \<Rightarrow> message_center \<Rightarrow> center_event \<Rightarrow> message_center" where
  "center_act latest s (ConvsRead cs) = s\<lparr>mc_convs := Some cs\<rparr>"
| "center_act latest s (ThreadRead c ms) = set_thread c ms s"
| "center_act latest s (SelectConv c) = select latest c s"
| "center_act latest s (TypeDraft v) = s\<lparr>mc_draft := v\<rparr>"
| "center_act latest s EnterKey = submit s"
| "center_act latest s SendClick = submit s"
| "center_act latest s (SendDone r) = s\<lparr>mc_sends := remove1 r (mc_sends s)\<rparr>"
| "center_act latest s (SendFailed r) = set_thread (sr_seen r) (sr_prev r) (s\<lparr>mc_sends := remove1 r (mc_sends s)\<rparr>)"
| "center_act latest s OpenContacts = s\<lparr>mc_contacts := Some []\<rparr>"
| "center_act latest s (ContactsRead xs) = s\<lparr>mc_contacts := Some xs\<rparr>"
| "center_act latest s ContactsLost = s\<lparr>mc_contacts := Some []\<rparr>"
| "center_act latest s (StartWith c) =
     (if ct_cohort c = None then s else s\<lparr>mc_contactBusy := Some (ct_user c), mc_starting := mc_starting s @ [c]\<rparr>)"
| "center_act latest s (Started c v) = (select latest v s)\<lparr>mc_contacts := None, mc_contactBusy := None, mc_starting := remove1 c (mc_starting s)\<rparr>"
| "center_act latest s (StartLost c) = s\<lparr>mc_contactBusy := None, mc_starting := remove1 c (mc_starting s)\<rparr>"

text \<open>The effect that marks as read runs when the selection or the number of messages has changed.\<close>

definition mark_read :: "message_center \<Rightarrow> message_center \<Rightarrow> message_center" where
  "mark_read s t =
     (case mc_selected t of
        None \<Rightarrow> t
      | Some c \<Rightarrow> if mc_selected s = Some c \<and> length (messageList s) = length (messageList t) then t else t\<lparr>mc_read := mc_read t @ [c]\<rparr>)"

definition center_step :: "bool \<Rightarrow> message_center \<Rightarrow> center_event \<Rightarrow> message_center" where
  "center_step latest s e = mark_read s (center_act latest s e)"

section \<open>What is sent, and what is marked\<close>

lemma mark_read_fields [simp]:
  "mc_sent (mark_read s t) = mc_sent t" "mc_sends (mark_read s t) = mc_sends t" "mc_made (mark_read s t) = mc_made t"
  "mc_selected (mark_read s t) = mc_selected t" "mc_threads (mark_read s t) = mc_threads t" "mc_draft (mark_read s t) = mc_draft t"
  "mc_contacts (mark_read s t) = mc_contacts t" "mc_convs (mark_read s t) = mc_convs t" "mc_tutor (mark_read s t) = mc_tutor t"
  by (simp_all add: mark_read_def split: option.split)

lemma set_thread_fields [simp]:
  "mc_sent (set_thread c ms s) = mc_sent s" "mc_sends (set_thread c ms s) = mc_sends s" "mc_made (set_thread c ms s) = mc_made s"
  "mc_selected (set_thread c ms s) = mc_selected s" "mc_read (set_thread c ms s) = mc_read s" "mc_draft (set_thread c ms s) = mc_draft s"
  "thread_of (set_thread c ms s) d = (if d = c then ms else thread_of s d)"
  by (simp_all add: set_thread_def thread_of_def)

lemma thread_of_cong [simp]: "thread_of (s\<lparr>mc_sends := x\<rparr>) c = thread_of s c"
  by (simp add: thread_of_def)

lemma none_current: "filter sr_current (map (\<lambda>r. r\<lparr>sr_current := False\<rparr>) rs) = []"
  by (induction rs) auto

lemma current_select: "filter sr_current (map (\<lambda>r. if latest \<and> sr_current r then r\<lparr>sr_seen := c\<rparr> else r) rs) =
    map (\<lambda>r. if latest \<and> sr_current r then r\<lparr>sr_seen := c\<rparr> else r) (filter sr_current rs)"
  by (induction rs) auto

definition sends_ok :: "bool \<Rightarrow> nat \<Rightarrow> send_run list \<Rightarrow> bool" where
  "sends_ok latest n rs = (list_all (\<lambda>r. sr_no r < n \<and> (latest \<or> sr_seen r = sr_to r)) rs \<and> length (filter sr_current rs) \<le> 1)"

lemma sends_gone: "sends_ok latest n rs \<Longrightarrow> sends_ok latest n (remove1 r rs)"
  by (auto simp: sends_ok_def list_all_iff filter_remove1 length_remove1 dest: set_remove1_subset [THEN subsetD])

lemma sends_select: "sends_ok latest n rs \<Longrightarrow> sends_ok latest n (map (\<lambda>r. if latest \<and> sr_current r then r\<lparr>sr_seen := c\<rparr> else r) rs)"
  by (auto simp: sends_ok_def list_all_iff current_select)

lemma sends_more:
  "sends_ok latest n rs \<Longrightarrow> sr_no r = n \<Longrightarrow> sr_seen r = sr_to r \<Longrightarrow> sends_ok latest (Suc n) (map (\<lambda>r. r\<lparr>sr_current := False\<rparr>) rs @ [r])"
  by (auto simp: sends_ok_def list_all_iff none_current)

definition bodies_ok :: "message_center \<Rightarrow> bool" where
  "bodies_ok s = list_all (\<lambda>x. snd x \<noteq> [] \<and> trim (snd x) = snd x) (mc_sent s)"

definition marked_ok :: "message_center \<Rightarrow> bool" where
  "marked_ok s = (case mc_selected s of None \<Rightarrow> True | Some c \<Rightarrow> c \<in> set (mc_read s))"

definition center_ok :: "bool \<Rightarrow> message_center \<Rightarrow> bool" where
  "center_ok latest s = (bodies_ok s \<and> sends_ok latest (mc_made s) (mc_sends s) \<and> marked_ok s)"

lemma act_read: "mc_read (center_act latest s e) = mc_read s"
  by (cases e) (simp_all add: submit_def select_def split: option.split)

lemma marked_step: "marked_ok s \<Longrightarrow> marked_ok (center_step latest s e)"
  by (auto simp: marked_ok_def center_step_def mark_read_def act_read split: option.splits)

lemma center_step_ok:
  assumes "center_ok latest s"
  shows "center_ok latest (center_step latest s e)"
proof -
  have b: "bodies_ok s" and k: "sends_ok latest (mc_made s) (mc_sends s)" and m: "marked_ok s" using assms by (simp_all add: center_ok_def)
  have "bodies_ok (center_act latest s e) \<and> sends_ok latest (mc_made (center_act latest s e)) (mc_sends (center_act latest s e))"
    using b k by (cases e) (auto simp: bodies_ok_def submit_def select_def sends_gone sends_select sends_more split: option.split)
  then show ?thesis using marked_step [OF m, of latest e] by (simp add: center_ok_def center_step_def bodies_ok_def)
qed

lemma center_start: "center_ok latest (message_center0 tutor)"
  by (simp add: center_ok_def message_center0_def bodies_ok_def sends_ok_def marked_ok_def)

interpretation center: machine "\<lambda>s. s = message_center0 tutor" center_guard "center_step latest" "center_ok latest"
  for tutor latest
  by unfold_locales (simp add: center_start, rule center_step_ok)

text \<open>
  Every message that is sent has a trimmed text; the conversation on the screen has been marked as
  read; and where callbacks are not replaced, a send that fails changes no thread but its own.
\<close>

theorem center_safe:
  assumes "reach (\<lambda>s. s = message_center0 tutor) center_guard (center_step latest) s"
  shows "bodies_ok s \<and> marked_ok s \<and>
     (if latest then True
      else list_all (\<lambda>r. sr_seen r = sr_to r \<and> (c = sr_to r \<or> thread_of (center_step latest s (SendFailed r)) c = thread_of s c)) (mc_sends s))"
proof -
  have i: "center_ok latest s" using center.reach_inv [OF assms] .
  have t: "thread_of (center_step latest s (SendFailed r)) c = (if c = sr_seen r then sr_prev r else thread_of s c)" for r
    by (simp add: center_step_def thread_of_def set_thread_def)
  show ?thesis using i unfolding t by (auto simp: center_ok_def sends_ok_def list_all_iff)
qed

definition two_conversations :: "center_event list" where
  "two_conversations = [ConvsRead [''a'', ''b''], SelectConv ''a'', TypeDraft '' hi '', EnterKey]"

theorem center_safe_witness:
  "(let s = run (center_step False) (message_center0 False) two_conversations in
     mc_sent s = [(''a'', ''hi'')] \<and> mc_read s = [''a'', ''a''] \<and> bodies_ok s \<and> marked_ok s)"
proof -
  let ?s = "run (center_step False) (message_center0 False) two_conversations"
  have f: "allowed center_guard (center_step False) (message_center0 False) two_conversations" "mc_sent ?s = [(''a'', ''hi'')]" "mc_read ?s = [''a'', ''a'']"
    by code_simp+
  from center_safe [OF run_reachable [OF refl f(1)]] f(2,3) show ?thesis unfolding Let_def by blast
qed

section \<open>Failures and their threads\<close>

text \<open>
  Where the callbacks are those of the last render, a send that fails after another conversation
  was chosen puts the messages of the first conversation into the second, and leaves the failed
  message in the first.
\<close>

theorem failed_send_fills_other_thread:
  assumes "mc_selected s = Some a" "mc_convs s = Some (x # xs)" "b \<in> set (x # xs)" "b \<noteq> a" "trim (mc_draft s) \<noteq> []"
  shows "(let r = \<lparr>sr_no = mc_made s, sr_to = a, sr_body = trim (mc_draft s), sr_prev = thread_of s a, sr_seen = b, sr_current = True\<rparr>;
              t = run (center_step True) s [EnterKey, SelectConv b, SendFailed r] in
     allowed center_guard (center_step True) s [EnterKey, SelectConv b, SendFailed r] \<and> thread_of t b = thread_of s a \<and>
     thread_of t a = \<lparr>mg_mine = True, mg_body = trim (mc_draft s)\<rparr> # thread_of s a)"
proof -
  let ?r = "\<lparr>sr_no = mc_made s, sr_to = a, sr_body = trim (mc_draft s), sr_prev = thread_of s a, sr_seen = b, sr_current = True\<rparr>"
  let ?m = "\<lparr>mg_mine = True, mg_body = trim (mc_draft s)\<rparr>"
  define u where "u = center_step True s EnterKey"
  define v where "v = center_step True u (SelectConv b)"
  have u: "mc_convs u = mc_convs s" "mc_threads u = (a, ?m # thread_of s a) # mc_threads s"
    "mc_sends u = map (\<lambda>r. r\<lparr>sr_current := False\<rparr>) (mc_sends s) @ [?r\<lparr>sr_seen := a\<rparr>]"
    using assms(1,5) by (simp_all add: u_def center_step_def submit_def set_thread_def)
  have v: "mc_threads v = (a, ?m # thread_of s a) # mc_threads s" "?r \<in> set (mc_sends v)"
    using u by (simp_all add: v_def center_step_def select_def)
  have ok: "center_guard u (SelectConv b)" using assms(2,3) u(1) by (auto simp: inbox_view_def)
  have w: "mc_threads (center_step True v (SendFailed ?r)) = (b, thread_of s a) # mc_threads v" by (simp add: center_step_def set_thread_def)
  show ?thesis unfolding Let_def using assms(1,4) ok v w by (simp add: u_def [symmetric] v_def [symmetric] thread_of_def)
qed

theorem failed_send_fills_other_thread_witness:
  "(let s = run (center_step True) (message_center0 False) [ConvsRead [''a'', ''b''], SelectConv ''a'', ThreadRead ''a'' [\<lparr>mg_mine = False, mg_body = ''secret''\<rparr>], TypeDraft ''hi''];
        r = \<lparr>sr_no = 0, sr_to = ''a'', sr_body = ''hi'', sr_prev = [\<lparr>mg_mine = False, mg_body = ''secret''\<rparr>], sr_seen = ''b'', sr_current = True\<rparr> in
     thread_of (run (center_step True) s [EnterKey, SelectConv ''b'', SendFailed r]) ''b'' = [\<lparr>mg_mine = False, mg_body = ''secret''\<rparr>])"
proof -
  let ?s = "run (center_step True) (message_center0 False) [ConvsRead [''a'', ''b''], SelectConv ''a'', ThreadRead ''a'' [\<lparr>mg_mine = False, mg_body = ''secret''\<rparr>], TypeDraft ''hi'']"
  have f: "mc_selected ?s = Some ''a''" "mc_convs ?s = Some (''a'' # [''b''])" "''b'' \<in> set (''a'' # [''b''])" "''b'' \<noteq> ''a''" "trim (mc_draft ?s) \<noteq> []"
    "mc_made ?s = 0" "trim (mc_draft ?s) = ''hi''" "thread_of ?s ''a'' = [\<lparr>mg_mine = False, mg_body = ''secret''\<rparr>]" by code_simp+
  from failed_send_fills_other_thread [OF f(1-5)] show ?thesis unfolding Let_def f(6-8) by blast
qed

text \<open>A message that could not be sent is neither in its thread nor in the field.\<close>

theorem failed_send_forgets_text:
  assumes "mc_selected s = Some a" "trim (mc_draft s) \<noteq> []"
  shows "(let r = \<lparr>sr_no = mc_made s, sr_to = a, sr_body = trim (mc_draft s), sr_prev = thread_of s a, sr_seen = a, sr_current = True\<rparr>;
              t = run (center_step latest) s [EnterKey, SendFailed r] in
     allowed center_guard (center_step latest) s [EnterKey, SendFailed r] \<and> thread_of t a = thread_of s a \<and> mc_draft t = [])"
proof -
  let ?r = "\<lparr>sr_no = mc_made s, sr_to = a, sr_body = trim (mc_draft s), sr_prev = thread_of s a, sr_seen = a, sr_current = True\<rparr>"
  define u where "u = center_step latest s EnterKey"
  have u: "mc_draft u = []" "?r \<in> set (mc_sends u)" using assms by (simp_all add: u_def center_step_def submit_def set_thread_def)
  have w: "mc_threads (center_step latest u (SendFailed ?r)) = (a, thread_of s a) # mc_threads u" "mc_draft (center_step latest u (SendFailed ?r)) = []"
    using u(1) by (simp_all add: center_step_def set_thread_def)
  show ?thesis unfolding Let_def using assms(1) u w by (simp add: u_def [symmetric] thread_of_def)
qed

theorem failed_send_forgets_text_witness:
  "mc_draft (run (center_step True) (run (center_step True) (message_center0 False) [ConvsRead [''a''], SelectConv ''a'', TypeDraft ''hi''])
     [EnterKey, SendFailed \<lparr>sr_no = 0, sr_to = ''a'', sr_body = ''hi'', sr_prev = [], sr_seen = ''a'', sr_current = True\<rparr>]) = []"
proof -
  let ?s = "run (center_step True) (message_center0 False) [ConvsRead [''a''], SelectConv ''a'', TypeDraft ''hi'']"
  have f: "mc_selected ?s = Some ''a''" "trim (mc_draft ?s) \<noteq> []" "mc_made ?s = 0" "trim (mc_draft ?s) = ''hi''" "thread_of ?s ''a'' = []" by code_simp+
  from failed_send_forgets_text [OF f(1,2), of True] show ?thesis unfolding Let_def f(3-5) by blast
qed

text \<open>What was written to one conversation is sent to the one that is chosen next.\<close>

theorem draft_follows_selection:
  assumes "mc_selected s = Some a" "mc_convs s = Some (x # xs)" "b \<in> set (x # xs)" "trim v \<noteq> []"
  shows "allowed center_guard (center_step latest) s [TypeDraft v, SelectConv b, EnterKey] \<and>
     mc_sent (run (center_step latest) s [TypeDraft v, SelectConv b, EnterKey]) = mc_sent s @ [(b, trim v)]"
proof -
  define u where "u = center_step latest s (TypeDraft v)"
  have u: "mc_convs u = mc_convs s" "mc_draft u = v" "mc_sent u = mc_sent s" by (simp_all add: u_def center_step_def)
  have ok: "center_guard u (SelectConv b)" using assms(2,3) u(1) by (auto simp: inbox_view_def)
  have "mc_selected (center_step latest u (SelectConv b)) = Some b" "mc_draft (center_step latest u (SelectConv b)) = v"
    "mc_sent (center_step latest u (SelectConv b)) = mc_sent s" using u by (simp_all add: center_step_def select_def)
  then have "mc_sent (center_step latest (center_step latest u (SelectConv b)) EnterKey) = mc_sent s @ [(b, trim v)]" "center_guard (center_step latest u (SelectConv b)) EnterKey"
    using assms(4) by (simp_all add: center_step_def [of latest "center_step latest u (SelectConv b)"] submit_def)
  then show ?thesis using assms(1) ok by (simp add: u_def [symmetric])
qed

theorem draft_follows_selection_witness:
  "mc_sent (run (center_step True) (run (center_step True) (message_center0 False) [ConvsRead [''a'', ''b''], SelectConv ''a''])
     [TypeDraft ''hi'', SelectConv ''b'', EnterKey]) = [(''b'', ''hi'')]"
proof -
  let ?s = "run (center_step True) (message_center0 False) [ConvsRead [''a'', ''b''], SelectConv ''a'']"
  have f: "mc_selected ?s = Some ''a''" "mc_convs ?s = Some (''a'' # [''b''])" "''b'' \<in> set (''a'' # [''b''])" "trim ''hi'' \<noteq> []" "mc_sent ?s = []" "trim ''hi'' = ''hi''" by code_simp+
  from draft_follows_selection [OF f(1-4), of True] show ?thesis unfolding f(5,6) by simp
qed

text \<open>Contacts that are being read, and contacts that could not be read, are reported as none at all.\<close>

theorem contacts_reported_missing:
  assumes "mc_convs s = Some []"
  shows "center_guard s OpenContacts \<and> Txt (no_contacts (mc_tutor s)) \<in> set (inbox_view (center_step latest s OpenContacts)) \<and>
     Txt (no_contacts (mc_tutor s)) \<in> set (inbox_view (center_step latest s ContactsLost))"
  using assms by (simp add: inbox_view_def center_step_def)

theorem contacts_reported_missing_witness:
  "Txt (no_contacts True) \<in> set (inbox_view (center_step True (run (center_step True) (message_center0 True) [ConvsRead []]) OpenContacts))"
proof -
  have f: "mc_convs (run (center_step True) (message_center0 True) [ConvsRead []]) = Some []" "mc_tutor (run (center_step True) (message_center0 True) [ConvsRead []]) = True"
    by code_simp+
  from contacts_reported_missing [OF f(1), of True] show ?thesis unfolding f(2) by blast
qed

end
