(* ===== verification/PhoneLogin.thy ===== *)
theory PhoneLogin
  imports Machine JsText Http
begin

text \<open>
  Signing in on the phone (\<open>mobile/app/login.tsx\<close>): with a password, and with Google through a
  web view that posts the session's token back to the app. The device's token is part of the
  state, as \<open>setToken\<close> and the client's answer to a refused session (\<open>mobile/src/lib/api.ts\<close>) leave it.
\<close>

section \<open>The screen\<close>

datatype login_run = PasswordRun jsstring jsstring | UrlRun | ProfileRun jsstring

record phone_login =
  pl_email :: jsstring
  pl_password :: jsstring
  pl_busy :: bool
  pl_google :: "jsstring option"
  pl_token :: "jsstring option" \<comment> \<open>in the device's store\<close>
  pl_screen :: jsstring
  pl_runs :: "login_run list"
  pl_asked :: "login_run list"
  pl_alerts :: "(jsstring \<times> jsstring) list"
  pl_devices :: nat \<comment> \<open>calls of \<open>registerDevice\<close>\<close>
  pl_offered :: "jsstring list" \<comment> \<open>tokens that an answer or a message has brought\<close>

definition phone_login0 :: phone_login where
  "phone_login0 = \<lparr>pl_email = [], pl_password = [], pl_busy = False, pl_google = None, pl_token = None, pl_screen = ''/login'', pl_runs = [], pl_asked = [],
     pl_alerts = [], pl_devices = 0, pl_offered = []\<rparr>"

text \<open>A message of the web view: the page that posted it, and what \<open>JSON.parse\<close> gives, when it is JSON.\<close>

datatype phone_login_event =
    TypeEmail jsstring | TypePassword jsstring | LoginPress
  | Welcome login_run jsstring "jsstring list" | MfaRequired login_run | LoginFails login_run js_exn
  | GooglePress | UrlIs login_run jsstring | UrlFails login_run js_exn | CancelGoogle | WebMessage jsstring "json option"
  | ProfileIs login_run "jsstring list" | ProfileRefused login_run | ProfileLost login_run

definition login_ask :: "login_run \<Rightarrow> phone_login \<Rightarrow> phone_login" where
  "login_ask r s = s\<lparr>pl_runs := pl_runs s @ [r], pl_asked := pl_asked s @ [r]\<rparr>"

definition login_end :: "login_run \<Rightarrow> phone_login \<Rightarrow> phone_login" where
  "login_end r s = s\<lparr>pl_runs := remove1 r (pl_runs s)\<rparr>"

definition alert :: "jsstring \<Rightarrow> jsstring \<Rightarrow> phone_login \<Rightarrow> phone_login" where
  "alert title text s = s\<lparr>pl_alerts := pl_alerts s @ [(title, text)]\<rparr>"

definition finishSession :: "jsstring \<Rightarrow> jsstring list \<Rightarrow> phone_login \<Rightarrow> phone_login" where
  "finishSession token roles s =
     s\<lparr>pl_token := Some token, pl_devices := pl_devices s + 1, pl_screen := (if ''STUDENT'' \<in> set roles then ''/lms'' else ''/home'')\<rparr>"

text \<open>\<open>data.type === "ykv_google_auth" && data.token\<close>, for a token that is a text.\<close>

definition message_token :: "json option \<Rightarrow> jsstring option" where
  "message_token d =
     (case d of
        None \<Rightarrow> None
      | Some j \<Rightarrow> (case (jget j ''type'', jget j ''token'') of
          (Some (JStr t), Some (JStr k)) \<Rightarrow> if t = ''ykv_google_auth'' \<and> k \<noteq> [] then Some k else None
        | _ \<Rightarrow> None))"

definition onGoogleMessage :: "json option \<Rightarrow> phone_login \<Rightarrow> phone_login" where
  "onGoogleMessage d s =
     (case message_token d of
        None \<Rightarrow> s
      | Some k \<Rightarrow> login_ask (ProfileRun k) (s\<lparr>pl_google := None, pl_token := Some k, pl_offered := k # pl_offered s\<rparr>))"

definition submit_login :: "phone_login \<Rightarrow> phone_login" where
  "submit_login s =
     (if pl_email s = [] \<or> pl_password s = [] then alert ''Missing details'' ''Enter your email and password.'' s
      else login_ask (PasswordRun (pl_email s) (pl_password s)) (s\<lparr>pl_busy := True\<rparr>))"

fun is_password :: "login_run \<Rightarrow> bool" where
  "is_password (PasswordRun e p) = True"
| "is_password r = False"

fun run_token :: "login_run \<Rightarrow> jsstring option" where
  "run_token (ProfileRun k) = Some k"
| "run_token r = None"

definition on_screen :: "phone_login \<Rightarrow> bool" where
  "on_screen s = (pl_screen s = ''/login'')"

text \<open>The web view covers the form; a token that the service answers with is a text that is not empty.\<close>

fun login_guard :: "phone_login \<Rightarrow> phone_login_event \<Rightarrow> bool" where
  "login_guard s (TypeEmail v) = (on_screen s \<and> pl_google s = None \<and> \<not> pl_busy s)"
| "login_guard s (TypePassword v) = (on_screen s \<and> pl_google s = None \<and> \<not> pl_busy s)"
| "login_guard s LoginPress = (on_screen s \<and> pl_google s = None \<and> \<not> pl_busy s)"
| "login_guard s GooglePress = (on_screen s \<and> pl_google s = None)"
| "login_guard s CancelGoogle = (on_screen s \<and> pl_google s \<noteq> None)"
| "login_guard s (WebMessage page d) = (on_screen s \<and> pl_google s \<noteq> None)"
| "login_guard s (Welcome r k roles) = (r \<in> set (pl_runs s) \<and> is_password r \<and> k \<noteq> [])"
| "login_guard s (MfaRequired r) = (r \<in> set (pl_runs s) \<and> is_password r)"
| "login_guard s (LoginFails r e) = (r \<in> set (pl_runs s) \<and> is_password r)"
| "login_guard s (UrlIs r u) = (r \<in> set (pl_runs s) \<and> r = UrlRun)"
| "login_guard s (UrlFails r e) = (r \<in> set (pl_runs s) \<and> r = UrlRun)"
| "login_guard s (ProfileIs r roles) = (r \<in> set (pl_runs s) \<and> run_token r \<noteq> None)"
| "login_guard s (ProfileRefused r) = (r \<in> set (pl_runs s) \<and> run_token r \<noteq> None)"
| "login_guard s (ProfileLost r) = (r \<in> set (pl_runs s) \<and> run_token r \<noteq> None)"

text \<open>
  A refused profile makes the client delete the stored token before it raises; the \<open>catch\<close> of the
  screen then ends the sign-in with the token all the same.
\<close>

definition profile_failed :: "login_run \<Rightarrow> phone_login \<Rightarrow> phone_login" where
  "profile_failed r s = (case run_token r of Some k \<Rightarrow> finishSession k [] s | None \<Rightarrow> s)"

fun login_step :: "phone_login \<Rightarrow> phone_login_event \<Rightarrow> phone_login" where
  "login_step s (TypeEmail v) = s\<lparr>pl_email := v\<rparr>"
| "login_step s (TypePassword v) = s\<lparr>pl_password := v\<rparr>"
| "login_step s LoginPress = submit_login s"
| "login_step s (Welcome r k roles) = (finishSession k roles (login_end r (s\<lparr>pl_offered := k # pl_offered s\<rparr>)))\<lparr>pl_busy := False\<rparr>"
| "login_step s (MfaRequired r) =
     (alert ''Check your email'' ''This admin account requires an emailed verification code'' (login_end r s))\<lparr>pl_busy := False\<rparr>"
| "login_step s (LoginFails r e) = (alert ''Login failed'' (message_or ''Please try again.'' e) (login_end r s))\<lparr>pl_busy := False\<rparr>"
| "login_step s GooglePress = login_ask UrlRun s"
| "login_step s (UrlIs r u) = (login_end r s)\<lparr>pl_google := (if u = [] then None else Some u)\<rparr>"
| "login_step s (UrlFails r e) = alert ''Google sign-in unavailable'' (message_or ''Try email login instead.'' e) (login_end r s)"
| "login_step s CancelGoogle = s\<lparr>pl_google := None\<rparr>"
| "login_step s (WebMessage page d) = onGoogleMessage d s"
| "login_step s (ProfileIs r roles) = (case run_token r of Some k \<Rightarrow> finishSession k roles (login_end r s) | None \<Rightarrow> s)"
| "login_step s (ProfileRefused r) = profile_failed r ((login_end r s)\<lparr>pl_token := None\<rparr>)"
| "login_step s (ProfileLost r) = profile_failed r (login_end r s)"

section \<open>What the device may hold\<close>

definition token_ok :: "jsstring list \<Rightarrow> jsstring option \<Rightarrow> bool" where
  "token_ok tokens t = (case t of Some k \<Rightarrow> k \<in> set tokens | None \<Rightarrow> True)"

lemma token_ok_simps [simp]: "token_ok ts None" "token_ok ts (Some k) = (k \<in> set ts)"
  by (simp_all add: token_ok_def)

lemma token_ok_more: "token_ok ts t \<Longrightarrow> token_ok (k # ts) t"
  by (auto simp: token_ok_def split: option.splits)

definition complete_run :: "login_run \<Rightarrow> bool" where
  "complete_run r = (case r of PasswordRun e p \<Rightarrow> e \<noteq> [] \<and> p \<noteq> [] | _ \<Rightarrow> True)"

definition runs_ok :: "bool \<Rightarrow> jsstring list \<Rightarrow> login_run list \<Rightarrow> bool" where
  "runs_ok busy tokens rs =
     (length (filter is_password rs) = (if busy then 1 else 0) \<and>
      list_all (\<lambda>r. token_ok tokens (run_token r)) rs)"

lemma runs_end:
  assumes "runs_ok busy tokens rs" "r \<in> set rs"
  shows "is_password r \<Longrightarrow> runs_ok False tokens (remove1 r rs)" "\<not> is_password r \<Longrightarrow> runs_ok busy tokens (remove1 r rs)"
  using assms by (auto simp: runs_ok_def list_all_iff filter_remove1 length_remove1 dest: set_remove1_subset [THEN subsetD] split: if_splits)

lemma runs_more: "runs_ok busy tokens rs \<Longrightarrow> runs_ok busy (k # tokens) rs"
  by (auto simp: runs_ok_def list_all_iff token_ok_more)

definition signed_ok :: "phone_login \<Rightarrow> bool" where
  "signed_ok s = (runs_ok (pl_busy s) (pl_offered s) (pl_runs s) \<and> token_ok (pl_offered s) (pl_token s) \<and> list_all complete_run (pl_asked s) \<and>
     (if pl_devices s = 0 then pl_screen s = ''/login'' else pl_token s \<noteq> None \<and> pl_screen s \<in> {''/lms'', ''/home''}))"

lemma run_kinds: "is_password r \<Longrightarrow> run_token r = None" "run_token r = Some k \<Longrightarrow> \<not> is_password r"
  by (cases r; simp)+

lemma offered_run: "runs_ok b ts rs \<Longrightarrow> r \<in> set rs \<Longrightarrow> run_token r = Some k \<Longrightarrow> k \<in> set ts"
  by (auto simp: runs_ok_def list_all_iff dest!: bspec)

lemma signed_step:
  assumes "signed_ok s" "login_guard s e"
  shows "signed_ok (login_step s e)"
proof (cases e)
  case LoginPress
  then show ?thesis using assms by (auto simp: signed_ok_def submit_login_def alert_def login_ask_def runs_ok_def complete_run_def)
next
  case (Welcome r k roles)
  then show ?thesis using assms runs_end(1) [of "pl_busy s" "pl_offered s" "pl_runs s" r]
    by (auto simp: signed_ok_def finishSession_def login_end_def intro: runs_more)
next
  case (MfaRequired r)
  then show ?thesis using assms runs_end(1) [of "pl_busy s" "pl_offered s" "pl_runs s" r] by (auto simp: signed_ok_def alert_def login_end_def split: if_splits)
next
  case (LoginFails r x)
  then show ?thesis using assms runs_end(1) [of "pl_busy s" "pl_offered s" "pl_runs s" r] by (auto simp: signed_ok_def alert_def login_end_def split: if_splits)
next
  case (UrlIs r u)
  then show ?thesis using assms runs_end(2) [of "pl_busy s" "pl_offered s" "pl_runs s" r] by (auto simp: signed_ok_def login_end_def)
next
  case (UrlFails r x)
  then show ?thesis using assms runs_end(2) [of "pl_busy s" "pl_offered s" "pl_runs s" r] by (auto simp: signed_ok_def login_end_def alert_def)
next
  case (WebMessage page d)
  then show ?thesis using assms by (auto simp: signed_ok_def onGoogleMessage_def login_ask_def runs_ok_def list_all_iff complete_run_def token_ok_more split: option.split)
next
  case (ProfileIs r roles)
  then obtain k where k: "run_token r = Some k" "r \<in> set (pl_runs s)" using assms(2) by auto
  show ?thesis using ProfileIs assms k runs_end(2) [OF _ k(2) run_kinds(2) [OF k(1)], of "pl_busy s" "pl_offered s"] offered_run [OF _ k(2,1)]
    by (auto simp: signed_ok_def finishSession_def login_end_def)
next
  case (ProfileRefused r)
  then obtain k where k: "run_token r = Some k" "r \<in> set (pl_runs s)" using assms(2) by auto
  show ?thesis using ProfileRefused assms k runs_end(2) [OF _ k(2) run_kinds(2) [OF k(1)], of "pl_busy s" "pl_offered s"] offered_run [OF _ k(2,1)]
    by (auto simp: signed_ok_def finishSession_def login_end_def profile_failed_def)
next
  case (ProfileLost r)
  then obtain k where k: "run_token r = Some k" "r \<in> set (pl_runs s)" using assms(2) by auto
  show ?thesis using ProfileLost assms k runs_end(2) [OF _ k(2) run_kinds(2) [OF k(1)], of "pl_busy s" "pl_offered s"] offered_run [OF _ k(2,1)]
    by (auto simp: signed_ok_def finishSession_def login_end_def profile_failed_def)
qed (use assms in \<open>auto simp: signed_ok_def login_ask_def runs_ok_def complete_run_def\<close>)

lemma signed_start: "signed_ok phone_login0"
  by (simp add: signed_ok_def phone_login0_def runs_ok_def)

interpretation signing: machine "\<lambda>s. s = phone_login0" login_guard login_step signed_ok
  by unfold_locales (simp add: signed_start, rule signed_step)

text \<open>
  One password request at a time, never without an address and a password; the device only holds
  a token that an answer or a message brought, and the screen is left only with a token, to
  the learning hub or to the home.
\<close>

theorem phone_login_safe:
  assumes "reach (\<lambda>s. s = phone_login0) login_guard login_step s"
  shows "length (filter is_password (pl_runs s)) = (if pl_busy s then 1 else 0) \<and>
     list_all complete_run (pl_asked s) \<and>
     (case pl_token s of Some k \<Rightarrow> k \<in> set (pl_offered s) | None \<Rightarrow> pl_screen s = ''/login'') \<and> pl_screen s \<in> {''/login'', ''/lms'', ''/home''}"
  using signing.reach_inv [OF assms] by (auto simp: signed_ok_def runs_ok_def split: option.splits if_splits)

definition ada_signs_in :: "phone_login_event list" where
  "ada_signs_in = [TypeEmail ''a@x.io'', TypePassword ''pw'', LoginPress, Welcome (PasswordRun ''a@x.io'' ''pw'') ''t1'' [''STUDENT'']]"

theorem phone_login_safe_witness:
  "(let s = run login_step phone_login0 ada_signs_in in
     pl_screen s = ''/lms'' \<and> (case pl_token s of Some k \<Rightarrow> k \<in> set (pl_offered s) | None \<Rightarrow> pl_screen s = ''/login''))"
proof -
  let ?s = "run login_step phone_login0 ada_signs_in"
  have f: "allowed login_guard login_step phone_login0 ada_signs_in" "pl_screen ?s = ''/lms''" by code_simp+
  from phone_login_safe [OF run_reachable [OF refl f(1)]] f(2) show ?thesis unfolding Let_def by blast
qed

section \<open>The web view\<close>

text \<open>
  The screen does not look at the page that posts: any page that the web view has been led to can
  sign the device in to a session of its choice.
\<close>

theorem any_page_signs_in:
  assumes "on_screen s" "pl_google s \<noteq> None" "k \<noteq> []"
  shows "(let m = WebMessage page (Some (JObj [(''type'', JStr ''ykv_google_auth''), (''token'', JStr k)])); t = run login_step s [m, ProfileIs (ProfileRun k) roles] in
     allowed login_guard login_step s [m, ProfileIs (ProfileRun k) roles] \<and> pl_token t = Some k \<and> \<not> on_screen t)"
  using assms by (simp add: onGoogleMessage_def message_token_def login_ask_def finishSession_def on_screen_def login_end_def)

theorem any_page_signs_in_witness:
  "pl_token (run login_step (run login_step phone_login0 [GooglePress, UrlIs UrlRun ''https://accounts.google.com''])
     [WebMessage ''https://evil.example'' (Some (JObj [(''type'', JStr ''ykv_google_auth''), (''token'', JStr ''x'')])), ProfileIs (ProfileRun ''x'') []]) = Some ''x''"
proof -
  let ?s = "run login_step phone_login0 [GooglePress, UrlIs UrlRun ''https://accounts.google.com'']"
  have f: "on_screen ?s" "pl_google ?s \<noteq> None" "''x'' \<noteq> []" by code_simp+
  from any_page_signs_in [OF f] show ?thesis unfolding Let_def by blast
qed

text \<open>
  A token that the service refuses is deleted by the client and stored again by the screen, which
  then opens the home of a session that does not exist.
\<close>

theorem refused_token_kept:
  assumes "ProfileRun k \<in> set (pl_runs s)"
  shows "login_guard s (ProfileRefused (ProfileRun k)) \<and> pl_token (login_step s (ProfileRefused (ProfileRun k))) = Some k \<and>
     pl_screen (login_step s (ProfileRefused (ProfileRun k))) = ''/home''"
  using assms by (simp add: profile_failed_def finishSession_def)

theorem refused_token_kept_witness:
  "pl_token (login_step (run login_step phone_login0 [GooglePress, UrlIs UrlRun ''u'',
     WebMessage ''g'' (Some (JObj [(''type'', JStr ''ykv_google_auth''), (''token'', JStr ''x'')]))]) (ProfileRefused (ProfileRun ''x''))) = Some ''x''"
proof -
  have "ProfileRun ''x'' \<in> set (pl_runs (run login_step phone_login0 [GooglePress, UrlIs UrlRun ''u'',
     WebMessage ''g'' (Some (JObj [(''type'', JStr ''ykv_google_auth''), (''token'', JStr ''x'')]))]))" by code_simp
  from refused_token_kept [OF this] show ?thesis by blast
qed

text \<open>A second click asks for a second address; a web view that was cancelled comes back with the later one.\<close>

theorem cancelled_view_returns:
  assumes "on_screen s" "pl_google s = None" "u \<noteq> []" "v \<noteq> []"
  shows "(let es = [GooglePress, GooglePress, UrlIs UrlRun u, CancelGoogle, UrlIs UrlRun v] in
     allowed login_guard login_step s es \<and> pl_google (run login_step s es) = Some v)"
  using assms by (simp add: login_ask_def login_end_def on_screen_def remove1_append)

theorem cancelled_view_returns_witness:
  "pl_google (run login_step phone_login0 [GooglePress, GooglePress, UrlIs UrlRun ''u'', CancelGoogle, UrlIs UrlRun ''v'']) = Some ''v''"
proof -
  have f: "on_screen phone_login0" "pl_google phone_login0 = None" "''u'' \<noteq> []" "''v'' \<noteq> []" by code_simp+
  from cancelled_view_returns [OF f] show ?thesis unfolding Let_def by blast
qed

text \<open>An account that needs a code is not signed in: the token stays, the form is free again.\<close>

theorem mfa_signs_nobody_in:
  assumes "PasswordRun e p \<in> set (pl_runs s)"
  shows "(let t = login_step s (MfaRequired (PasswordRun e p)) in pl_token t = pl_token s \<and> pl_screen t = pl_screen s \<and> \<not> pl_busy t \<and>
     length (pl_alerts t) = length (pl_alerts s) + 1)"
  by (simp add: alert_def login_end_def)

theorem mfa_signs_nobody_in_witness:
  "pl_token (login_step (run login_step phone_login0 (take 3 ada_signs_in)) (MfaRequired (PasswordRun ''a@x.io'' ''pw''))) = None"
proof -
  let ?s = "run login_step phone_login0 (take 3 ada_signs_in)"
  have f: "PasswordRun ''a@x.io'' ''pw'' \<in> set (pl_runs ?s)" "pl_token ?s = None" by code_simp+
  from mfa_signs_nobody_in [OF f(1)] f(2) show ?thesis unfolding Let_def by simp
qed

end
