(* ===== verification/MobileApi.thy ===== *)
theory MobileApi
  imports Http
begin

text \<open>
  The native app's client \<open>mobile/src/lib/api.ts\<close>: required build-time URLs, the session
  token, \<open>fireUnauthorized\<close>, and \<open>apiFetch\<close> with its retry loop. The loop is a recursion
  on the attempts left, so it is total; the lemmas bound the requests it sends, give the
  back-off it waits, and say when the stored session is dropped.
\<close>

definition requiredMobileURL :: "bool \<Rightarrow> jsstring \<Rightarrow> jsstring option \<Rightarrow> jsstring \<Rightarrow> js_exn + jsstring" where
  "requiredMobileURL isProductionBuild name val fallback =
     (case val of
        Some v \<Rightarrow> if v \<noteq> [] \<and> trim v \<noteq> [] then Inr (drop_last_char (CHR ''/'') v)
                  else if isProductionBuild
                       then Inl (plain_error (name @ '' must be set for production mobile builds''))
                       else Inr fallback
      | None \<Rightarrow> if isProductionBuild
                then Inl (plain_error (name @ '' must be set for production mobile builds''))
                else Inr fallback)"

record mobile_env =
  me_base :: jsstring \<comment> \<open>\<open>API_BASE\<close>\<close>
  me_token :: "jsstring option" \<comment> \<open>\<open>SecureStore\<close> content, read once per call\<close>
  me_handler :: bool \<comment> \<open>\<open>unauthorizedHandler\<close> is registered\<close>
  me_net :: "nat \<Rightarrow> outcome"

definition has_token :: "mobile_env \<Rightarrow> bool" where
  "has_token env = (\<exists>t. me_token env = Some t \<and> t \<noteq> [])"

lemma has_token_code [code]:
  "has_token env = (case me_token env of None \<Rightarrow> False | Some t \<Rightarrow> t \<noteq> [])"
  by (auto simp: has_token_def split: option.splits)

definition mobile_headers :: "mobile_env \<Rightarrow> (jsstring \<times> jsstring) list" where
  "mobile_headers env =
     [(''Content-Type'', ''application/json''), (''X-Client'', ''yk-virtual-mobile'')] @
     (if has_token env then [(''Authorization'', ''Bearer '' @ the (me_token env))] else [])"

definition fetchWithTimeout :: "mobile_env \<Rightarrow> jsstring \<Rightarrow> req_init \<Rightarrow> request" where
  "fetchWithTimeout env path init =
     \<lparr>rq_url = me_base env @ path,
      rq_method = (case ri_method init of None \<Rightarrow> ''GET'' | Some m \<Rightarrow> m),
      rq_headers = mobile_headers env, rq_body = ri_body init\<rparr>"

definition fireUnauthorized :: "mobile_env \<Rightarrow> effect list" where
  "fireUnauthorized env = TokenCleared # (if me_handler env then [UnauthorizedCalled] else [])"

definition json_or_null :: "response \<Rightarrow> json option" where
  "json_or_null r = (case rs_body r of Inl _ \<Rightarrow> None | Inr j \<Rightarrow> Some j)"

text \<open>The body of the \<open>try\<close> block: the effects of one attempt and what it returns or throws.\<close>

definition mobile_attempt :: "mobile_env \<Rightarrow> jsstring \<Rightarrow> req_init \<Rightarrow> nat \<Rightarrow> call_result" where
  "mobile_attempt env path init n =
     (let sent = Sent (fetchWithTimeout env path init) in
      case me_net env n of
        Rejects e \<Rightarrow> ([sent], Inl e)
      | Responds res \<Rightarrow>
          if rs_status res = 401 then
            (sent # (if has_token env then fireUnauthorized env else []),
             Inl (plain_error (error_message (json_or_null res)
               (if has_token env then ''Session expired. Please log in again.''
                else ''Authentication required''))))
          else if \<not> rs_ok res then
            ([sent], Inl (plain_error (error_message (json_or_null res)
               (''Request failed '' @ show_nat (rs_status res)))))
          else ([sent], rs_body res))"

definition isTimeout :: "js_exn \<Rightarrow> bool" where
  "isTimeout e = (instanceof_Error e \<and> ex_name e = ''AbortError'')"

definition network_text :: "jsstring \<Rightarrow> bool" where
  "network_text m = (let l = to_lower m in
     str_includes l ''network'' \<or> str_includes l ''fetch'' \<or> str_includes l ''failed to fetch'')"

definition retriable :: "js_exn \<Rightarrow> bool" where
  "retriable e = (isTimeout e \<or> (instanceof_Error e \<and> network_text (ex_message e)))"

definition last_error :: "js_exn \<Rightarrow> js_exn" where
  "last_error e = (if instanceof_Error e then e else plain_error (ex_message e))"

definition give_up :: "js_exn \<Rightarrow> js_exn" where
  "give_up e = (if isTimeout e then plain_error ''Request timed out. Check your connection.''
                else last_error e)"

text \<open>The loop, with the attempts that may still follow this one as its first argument.\<close>

fun mobile_loop :: "nat \<Rightarrow> mobile_env \<Rightarrow> jsstring \<Rightarrow> req_init \<Rightarrow> nat \<Rightarrow> call_result" where
  "mobile_loop left env path init n =
     (case mobile_attempt env path init n of
        (effs, Inr j) \<Rightarrow> (effs, Inr j)
      | (effs, Inl e) \<Rightarrow>
          (case left of
             0 \<Rightarrow> (effs, Inl (give_up e))
           | Suc k \<Rightarrow>
               if \<not> retriable e then (effs, Inl (give_up e))
               else (let r = mobile_loop k env path init (Suc n)
                     in (effs @ [Slept (500 * (n + 1))] @ fst r, snd r))))"

declare mobile_loop.simps [simp del]

definition mobileFetch :: "int \<Rightarrow> mobile_env \<Rightarrow> jsstring \<Rightarrow> req_init \<Rightarrow> call_result" where
  "mobileFetch maxRetries env path init =
     (if maxRetries < 0 then ([], Inl (plain_error ''Request failed''))
      else mobile_loop (nat maxRetries) env path init 0)"

text \<open>The default of the source: one retry.\<close>

definition mobileFetch1 :: "mobile_env \<Rightarrow> jsstring \<Rightarrow> req_init \<Rightarrow> call_result" where
  "mobileFetch1 = mobileFetch 1"

section \<open>One attempt\<close>

lemma attempt_sents: "sents (fst (mobile_attempt env p i n)) = [Sent (fetchWithTimeout env p i)]"
  by (simp add: mobile_attempt_def Let_def fireUnauthorized_def split: outcome.splits)

lemma attempt_head: "\<exists>es. fst (mobile_attempt env p i n) = Sent (fetchWithTimeout env p i) # es"
  by (simp add: mobile_attempt_def Let_def split: outcome.splits)

lemma attempt_cleared:
  "TokenCleared \<in> set (fst (mobile_attempt env p i n)) \<longleftrightarrow>
     has_token env \<and> (\<exists>r. me_net env n = Responds r \<and> rs_status r = 401)"
  by (auto simp: mobile_attempt_def Let_def fireUnauthorized_def split: outcome.splits)

lemma attempt_slept: "Slept m \<notin> set (fst (mobile_attempt env p i n))"
  by (auto simp: mobile_attempt_def Let_def fireUnauthorized_def split: outcome.splits)

lemma attempt_ok:
  "me_net env n = Responds r \<Longrightarrow> rs_ok r \<Longrightarrow>
   mobile_attempt env p i n = ([Sent (fetchWithTimeout env p i)], rs_body r)"
  by (simp add: mobile_attempt_def Let_def rs_ok_def)

section \<open>The loop\<close>

lemmas loop_unfold = mobile_loop.simps

lemma loop_sends_le: "length (sents (fst (mobile_loop left env p i n))) \<le> Suc left"
proof (induction left arbitrary: n)
  case 0
  then show ?case
    using attempt_sents [of env p i n]
    by (subst loop_unfold) (auto split: prod.splits sum.splits)
next
  case (Suc k)
  show ?case
    using attempt_sents [of env p i n] Suc [of "Suc n"]
    by (subst loop_unfold) (auto simp: Let_def split: prod.splits sum.splits)
qed

lemma loop_starts: "\<exists>es. fst (mobile_loop left env p i n) = Sent (fetchWithTimeout env p i) # es"
  using attempt_head [of env p i n]
  by (subst loop_unfold) (auto simp: Let_def split: prod.splits sum.splits nat.splits)

lemma loop_same_request: "r \<in> set (sents (fst (mobile_loop left env p i n))) \<Longrightarrow>
    r = Sent (fetchWithTimeout env p i)"
proof (induction left arbitrary: n)
  case 0
  then show ?case
    using attempt_sents [of env p i n]
    by (subst (asm) loop_unfold) (auto split: prod.splits sum.splits)
next
  case (Suc k)
  then show ?case
    using attempt_sents [of env p i n]
    by (subst (asm) loop_unfold) (auto simp: Let_def split: prod.splits sum.splits if_splits)
qed

lemma loop_ok:
  "me_net env n = Responds r \<Longrightarrow> rs_ok r \<Longrightarrow> rs_body r = Inr j \<Longrightarrow>
   mobile_loop left env p i n = ([Sent (fetchWithTimeout env p i)], Inr j)"
  by (subst loop_unfold) (simp add: attempt_ok)

fun sleeps :: "effect list \<Rightarrow> nat list" where
  "sleeps [] = []"
| "sleeps (Slept m # es) = m # sleeps es"
| "sleeps (_ # es) = sleeps es"

lemma sleeps_append [simp]: "sleeps (xs @ ys) = sleeps xs @ sleeps ys"
  by (induction xs rule: sleeps.induct) auto

lemma sleeps_none: "(\<And>m. Slept m \<notin> set es) \<Longrightarrow> sleeps es = []"
  by (induction es rule: sleeps.induct) auto

text \<open>The pauses are 500, 1000, 1500, ... milliseconds: one between two attempts.\<close>

lemma loop_backoff:
  "sleeps (fst (mobile_loop left env p i n)) =
     map (\<lambda>k. 500 * (n + k + 1)) [0..<length (sents (fst (mobile_loop left env p i n))) - 1]"
proof (induction left arbitrary: n)
  case 0
  then show ?case
    using attempt_sents [of env p i n] sleeps_none [OF attempt_slept, of env p i n]
    by (subst (1 2) loop_unfold) (auto split: prod.splits sum.splits)
next
  case (Suc k)
  obtain es v where a: "mobile_attempt env p i n = (es, v)" by (cases "mobile_attempt env p i n")
  have es: "sents es = [Sent (fetchWithTimeout env p i)]" "sleeps es = []"
    using attempt_sents [of env p i n] sleeps_none [OF attempt_slept, of env p i n] a by simp_all
  let ?rest = "mobile_loop k env p i (Suc n)"
  obtain ss where ss: "fst ?rest = Sent (fetchWithTimeout env p i) # ss"
    using loop_starts by blast
  define m where "m = length (sents ss)"
  have shift: "map (\<lambda>k. 500 * (Suc n + k + 1)) [0..<m] = map (\<lambda>k. 500 * (n + k + 1)) [1..<Suc m]"
    by (simp add: map_Suc_upt [symmetric] del: upt_Suc)
  have up: "map (\<lambda>k. 500 * (n + k + 1)) [0..<Suc m] =
      500 * (n + 1) # map (\<lambda>k. 500 * (n + k + 1)) [1..<Suc m]"
    by (subst upt_conv_Cons) simp_all
  show ?case
  proof (cases "\<exists>e. v = Inl e \<and> retriable e")
    case True
    then obtain e where e: "v = Inl e" "retriable e" by blast
    have l: "fst (mobile_loop (Suc k) env p i n) = es @ [Slept (500 * (n + 1))] @ fst ?rest"
      using a e by (subst loop_unfold) (simp add: Let_def)
    have "sleeps (fst ?rest) = map (\<lambda>k. 500 * (n + k + 1)) [1..<Suc m]"
      using Suc [of "Suc n"] ss shift by (simp add: m_def)
    with up show ?thesis unfolding l by (simp add: es ss m_def del: upt_Suc)
  next
    case False
    with a es show ?thesis
      by (subst (1 2) loop_unfold) (auto split: sum.splits)
  qed
qed

section \<open>Properties of the client\<close>

lemma mobileFetch1_ok:
  "me_net env 0 = Responds r \<Longrightarrow> rs_ok r \<Longrightarrow> str_includes (content_type r) ''json'' \<Longrightarrow>
   rs_body r = Inr j \<Longrightarrow> snd (mobileFetch1 env p i) = Inr j"
  by (simp add: mobileFetch1_def mobileFetch_def loop_ok)

lemma mobileFetch1_sends: "length (sents (fst (mobileFetch1 env p i))) \<le> 2"
  using loop_sends_le [of 1 env p i 0] by (simp add: mobileFetch1_def mobileFetch_def)

lemma mobileFetch1_starts: "\<exists>q es. fst (mobileFetch1 env p i) = Sent q # es"
  using loop_starts [of 1 env p i 0] by (auto simp: mobileFetch1_def mobileFetch_def)

interpretation mobile: api_client mobileFetch1 me_net 2
  by unfold_locales (fact mobileFetch1_ok, fact mobileFetch1_sends, fact mobileFetch1_starts)

text \<open>
  C21. The retry loop returns after at most \<open>maxRetries + 1\<close> requests (none when
  \<open>maxRetries\<close> is negative), all of them the same request, with pauses of
  500, 1000, 1500, ... ms between consecutive attempts.
\<close>

theorem mobile_retry_budget:
  "length (sents (fst (mobileFetch m env p i))) \<le> nat (m + 1) \<and>
   sents (fst (mobileFetch m env p i)) =
     replicate (length (sents (fst (mobileFetch m env p i)))) (Sent (fetchWithTimeout env p i)) \<and>
   sleeps (fst (mobileFetch m env p i)) =
     map (\<lambda>k. 500 * (k + 1)) [0..<length (sents (fst (mobileFetch m env p i))) - 1]"
proof (cases "m < 0")
  case True
  then show ?thesis by (simp add: mobileFetch_def)
next
  case False
  have n: "nat (m + 1) = Suc (nat m)" using False by simp
  have same: "x \<in> set (sents (fst (mobile_loop (nat m) env p i 0))) \<Longrightarrow>
      x = Sent (fetchWithTimeout env p i)" for x
    by (rule loop_same_request)
  show ?thesis
    using False n loop_sends_le [of "nat m" env p i 0] loop_backoff [of "nat m" env p i 0]
      replicate_length_same [of "sents (fst (mobile_loop (nat m) env p i 0))"] same
    by (simp add: mobileFetch_def)
qed

lemma loop_cleared:
  "TokenCleared \<in> set (fst (mobile_loop left env p i n)) \<Longrightarrow>
   has_token env \<and> (\<exists>k r. me_net env k = Responds r \<and> rs_status r = 401)"
proof (induction left arbitrary: n)
  case 0
  then show ?case
    using attempt_cleared [of env p i n]
    by (subst (asm) loop_unfold) (auto split: prod.splits sum.splits)
next
  case (Suc k)
  then show ?case
    using attempt_cleared [of env p i n]
    by (subst (asm) loop_unfold) (auto simp: Let_def split: prod.splits sum.splits if_splits)
qed

text \<open>
  The stored session is dropped only by a 401 answer to a request that carried a token:
  a signed-out screen that calls a protected endpoint never clears anything.
\<close>

theorem session_dropped_only_on_401:
  assumes "TokenCleared \<in> set (fst (mobileFetch m env p i))"
  shows "has_token env \<and> (\<exists>k r. me_net env k = Responds r \<and> rs_status r = 401)"
  using assms loop_cleared by (auto simp: mobileFetch_def split: if_splits)

lemma loop_timeouts:
  assumes "\<And>k. me_net env k = Rejects \<lparr>ex_class = c, ex_name = ''AbortError'', ex_message = msg\<rparr>"
    and "c \<noteq> NotAnError"
  shows "length (sents (fst (mobile_loop left env p i n))) = Suc left"
  using assms
proof (induction left arbitrary: n)
  case 0
  then show ?case by (subst loop_unfold) (simp add: mobile_attempt_def Let_def)
next
  case (Suc k)
  then show ?case
    by (subst loop_unfold)
      (simp add: mobile_attempt_def Let_def retriable_def isTimeout_def instanceof_Error_def)
qed

text \<open>
  The retry does not look at the method: when every attempt times out, a \<open>POST\<close> is sent
  \<open>maxRetries + 1\<close> times, as any other request is.
\<close>

theorem timed_out_post_resent:
  assumes "\<And>k. me_net env k = Rejects \<lparr>ex_class = DomExn, ex_name = ''AbortError'', ex_message = msg\<rparr>"
  shows "length (sents (fst (mobileFetch1 env p (send_init ''POST'' b)))) = 2"
  using loop_timeouts [OF assms, where left = 1] by (simp add: mobileFetch1_def mobileFetch_def)

text \<open>
  An error answer of the server is retried as if it were a network failure when its
  message contains the word "network" or "fetch": the request reached the server and is
  sent again.
\<close>

theorem http_error_resent:
  assumes "\<And>k. me_net env k = Responds r" "\<not> rs_ok r" "rs_status r \<noteq> 401"
    and "rs_body r = Inr (error_body code msg)" "network_text msg" "msg \<noteq> []"
  shows "length (sents (fst (mobileFetch1 env p i))) = 2"
proof -
  have a: "mobile_attempt env p i n = ([Sent (fetchWithTimeout env p i)], Inl (plain_error msg))" for n
    using assms by (simp add: mobile_attempt_def Let_def json_or_null_def)
  have "retriable (plain_error msg)"
    using assms(5) by (simp add: retriable_def instanceof_Error_def)
  then have "length (sents (fst (mobile_loop 1 env p i 0))) = 2"
    by (simp add: loop_unfold [of "Suc 0"] loop_unfold [of 0] a Let_def)
  then show ?thesis by (simp add: mobileFetch1_def mobileFetch_def)
qed


definition sample_env :: "outcome \<Rightarrow> mobile_env" where
  "sample_env out = \<lparr>me_base = ''https://api.ykay.ng/api/v1'', me_token = Some ''tok'', me_handler = True, me_net = (\<lambda>_. out)\<rparr>"

lemma session_dropped_only_on_401_witness:
  "has_token (sample_env (Responds \<lparr>rs_status = 401, rs_headers = [], rs_body = Inr JNull\<rparr>))"
proof -
  let ?env = "sample_env (Responds \<lparr>rs_status = 401, rs_headers = [], rs_body = Inr JNull\<rparr>)"
  have "TokenCleared \<in> set (fst (mobileFetch 0 ?env ''/me'' get_init))"
    by (simp add: mobileFetch_def loop_unfold mobile_attempt_def sample_env_def has_token_def
        fireUnauthorized_def Let_def)
  then show ?thesis using session_dropped_only_on_401 by blast
qed

lemma timed_out_post_resent_witness:
  "length (sents (fst (mobileFetch1
     (sample_env (Rejects \<lparr>ex_class = DomExn, ex_name = ''AbortError'', ex_message = ''Aborted''\<rparr>))
     ''/bookings'' (send_init ''POST'' NoBody)))) = 2"
  by (rule timed_out_post_resent) (simp add: sample_env_def)

lemma http_error_resent_witness:
  "length (sents (fst (mobileFetch1
     (sample_env (Responds \<lparr>rs_status = 502, rs_headers = [],
        rs_body = Inr (error_body ''gateway'' ''payment network unavailable'')\<rparr>))
     ''/payments'' (send_init ''POST'' NoBody)))) = 2"
proof (rule http_error_resent [where r = "\<lparr>rs_status = 502, rs_headers = [],
        rs_body = Inr (error_body ''gateway'' ''payment network unavailable'')\<rparr>" and code = "''gateway''"])
  show "network_text ''payment network unavailable''"
    by (simp add: network_text_def to_lower_def lower_char_def Let_def)
qed (simp_all add: sample_env_def rs_ok_def)

end
