(* ===== verification/AdminEndpoints.thy ===== *)
theory AdminEndpoints
  imports Endpoints
begin

text \<open>
  The endpoint functions of the administration, admissions, vetting, institution, lead, review and private-tuition pages. Each is a path, a
  request and the use of the answer; \<open>run_endpoint\<close> runs it with a client.
\<close>

section \<open>\<open>client/features/admin/api.ts\<close>\<close>

definition getAdminStats :: endpoint where
  "getAdminStats =
     GET ''/admin/stats'' Data"

definition listAdminPosts :: "jsstring option \<Rightarrow> jsstring option \<Rightarrow> int option
       \<Rightarrow> int option \<Rightarrow> endpoint" where
  "listAdminPosts status search page page_size =
     GET (''/admin/blog?'' @ qs_text (opt_s ''status'' status @ opt_s ''search'' search @ [(''page'',
       show_int (dflt 1 page))] @ [(''page_size'', show_int (dflt 20 page_size))])) Whole"

definition createAdminPost :: "json \<Rightarrow> endpoint" where
  "createAdminPost input =
     SEND ''POST'' ''/admin/blog'' (JsonText input) Data"

definition updateAdminPost :: "jsstring \<Rightarrow> json \<Rightarrow> endpoint" where
  "updateAdminPost ident input =
     SEND ''PUT'' (''/admin/blog/'' @ ident) (JsonText input) Data"

definition setAdminPostStatus :: "jsstring \<Rightarrow> jsstring \<Rightarrow> endpoint" where
  "setAdminPostStatus ident status =
     SEND ''POST'' (''/admin/blog/'' @ ident @ ''/status'') (JsonText (JObj [(''status'', JStr status)]))
       Discard"

definition listInstitutions :: "jsstring option \<Rightarrow> jsstring option \<Rightarrow> int option
       \<Rightarrow> endpoint" where
  "listInstitutions search typ page =
     GET (''/admin/institutions?'' @ qs_text (opt_s ''search'' search @ opt_s ''type'' typ @ [(''page'',
       show_int (dflt 1 page))])) Whole"

definition adminUpdateInstitution :: "jsstring \<Rightarrow> json \<Rightarrow> endpoint" where
  "adminUpdateInstitution ident input =
     SEND ''PUT'' (''/admin/institutions/'' @ ident) (JsonText input) Data"

definition adminSetInstitutionStatus :: "jsstring \<Rightarrow> json \<Rightarrow> endpoint" where
  "adminSetInstitutionStatus ident input =
     SEND ''POST'' (''/admin/institutions/'' @ ident @ ''/status'') (JsonText input) Data"

definition listReferrals :: "jsstring option \<Rightarrow> int option \<Rightarrow> endpoint" where
  "listReferrals status page =
     GET (''/admin/referrals?'' @ qs_text (opt_s ''status'' status @ [(''page'', show_int (dflt 1 page))]))
       Whole"

definition listReviews :: "jsstring option \<Rightarrow> int option \<Rightarrow> endpoint" where
  "listReviews status page =
     GET (''/admin/reviews?'' @ qs_text (opt_s ''status'' status @ [(''page'', show_int (dflt 1 page))]))
       Whole"

definition moderateReview :: "jsstring \<Rightarrow> jsstring \<Rightarrow> endpoint" where
  "moderateReview ident status =
     SEND ''POST'' (''/admin/reviews/'' @ ident @ ''/moderate'') (JsonText (JObj [(''status'', JStr
       status)])) Discard"

definition getAdminStats2 :: endpoint where
  "getAdminStats2 =
     GET ''/admin/stats/overview2'' Data"

definition listSupportTickets :: "jsstring option \<Rightarrow> int option \<Rightarrow> endpoint" where
  "listSupportTickets status page =
     GET (''/admin/support?'' @ qs_text (opt_s ''status'' status @ [(''page'', show_int (dflt 1 page))]))
       Whole"

definition setSupportStatus :: "jsstring \<Rightarrow> jsstring \<Rightarrow> endpoint" where
  "setSupportStatus ident status =
     SEND ''POST'' (''/admin/support/'' @ ident @ ''/status'') (JsonText (JObj [(''status'', JStr status)]))
       Discard"

definition listAdminCohorts :: "jsstring option \<Rightarrow> int option \<Rightarrow> endpoint" where
  "listAdminCohorts status page =
     GET (''/admin/cohorts?'' @ qs_text (opt_s ''status'' status @ [(''page'', show_int (dflt 1 page))]))
       Whole"

definition createAdminCohort :: "json \<Rightarrow> endpoint" where
  "createAdminCohort input =
     SEND ''POST'' ''/admin/cohorts'' (JsonText input) Data"

definition setAdminCohortStatus :: "jsstring \<Rightarrow> jsstring \<Rightarrow> endpoint" where
  "setAdminCohortStatus ident status =
     SEND ''POST'' (''/admin/cohorts/'' @ ident @ ''/status'') (JsonText (JObj [(''status'', JStr status)]))
       Discard"

definition listApprovedTutors :: "int option \<Rightarrow> endpoint" where
  "listApprovedTutors pageSize =
     GET (''/admin/vetting/queue?status=APPROVED&page_size='' @ show_int (dflt 200 pageSize)) (DataOr (JArr
       []))"

definition assignAdminCohortTutor :: "jsstring \<Rightarrow> jsstring \<Rightarrow> endpoint" where
  "assignAdminCohortTutor cohortId tutorProfileId =
     SEND ''POST'' (''/admin/cohorts/'' @ cohortId @ ''/tutor'') (JsonText (JObj [(''tutor_profile_id'',
       JStr tutorProfileId)])) Discard"

definition setTutorPublic :: "jsstring \<Rightarrow> bool \<Rightarrow> endpoint" where
  "setTutorPublic profileId isPublic =
     SEND ''POST'' (''/admin/vetting/profiles/'' @ profileId @ ''/public'') (JsonText (JObj [(''is_public'',
       JBool isPublic)])) Discard"

definition listLessonsToday :: endpoint where
  "listLessonsToday =
     GET ''/admin/lessons/today'' (DataOr (JArr []))"

definition confirmManualPayment :: "jsstring \<Rightarrow> jsstring option \<Rightarrow> endpoint" where
  "confirmManualPayment orderId note_text =
     SEND ''POST'' (''/admin/orders/'' @ orderId @ ''/confirm-payment'') (JsonText (obj [(''note'',
       map_option JStr note_text)])) Discard"

definition listAdminOrders :: "int option \<Rightarrow> int option \<Rightarrow> endpoint" where
  "listAdminOrders page pageSize =
     GET (''/admin/orders?page='' @ show_int (dflt 1 page) @ ''&page_size='' @ show_int (dflt 25 pageSize))
       (Via (paged ''orders''))"

definition getAdminOrder :: "jsstring \<Rightarrow> endpoint" where
  "getAdminOrder orderId =
     GET (''/admin/orders/'' @ orderId) Data"

definition refundOrder :: "jsstring \<Rightarrow> jsstring \<Rightarrow> endpoint" where
  "refundOrder orderId reason =
     SEND ''POST'' (''/admin/orders/'' @ orderId @ ''/refund'') (JsonText (JObj [(''reason'', JStr
       reason)])) Discard"

definition listAdminPayouts :: "jsstring option \<Rightarrow> endpoint" where
  "listAdminPayouts status =
     GET (''/admin/payouts'' @ opt_text status (\<lambda>status. ''?status='' @ status))
       (Via (\<lambda>j. if j = JNull then Inl null_deref
          else Inr (Some (case Option.bind (env_data j) (\<lambda>d. jget d ''payouts'') of
            Some (JArr xs) \<Rightarrow> JArr xs | _ \<Rightarrow> JArr []))))"

definition listAdminUsers :: "jsstring option \<Rightarrow> jsstring option \<Rightarrow> int option
       \<Rightarrow> int option \<Rightarrow> endpoint" where
  "listAdminUsers search status page pageSize =
     GET (''/admin/users?'' @ qs_text (opt_s ''search'' search @ opt_s ''status'' status @ [(''page'',
       show_int (dflt 1 page))] @ [(''page_size'', show_int (dflt 50 pageSize))])) (Via (paged ''users''))"

definition listAdminRoles :: endpoint where
  "listAdminRoles =
     GET ''/admin/users/roles'' (DataOr (JArr []))"

definition setUserRole :: "jsstring \<Rightarrow> jsstring \<Rightarrow> bool \<Rightarrow> endpoint" where
  "setUserRole userId role grant =
     SEND ''POST'' (''/admin/users/'' @ userId @ ''/role'') (JsonText (JObj [(''role'', JStr role),
       (''grant'', JBool grant)])) Discard"

definition setUserStatus :: "jsstring \<Rightarrow> jsstring \<Rightarrow> endpoint" where
  "setUserStatus userId status =
     SEND ''POST'' (''/admin/users/'' @ userId @ ''/status'') (JsonText (JObj [(''status'', JStr status)]))
       Discard"

definition listPendingEnrollments :: "int option \<Rightarrow> endpoint" where
  "listPendingEnrollments limit =
     GET (''/admin/pending-enrollments?limit='' @ show_int (dflt 100 limit)) (DataOr (JArr []))"

definition updateCohort :: "jsstring \<Rightarrow> json \<Rightarrow> endpoint" where
  "updateCohort cohortId input =
     SEND ''PUT'' (''/admin/cohorts/'' @ cohortId) (JsonText input) Discard"

definition setAdminProgrammeStatus :: "jsstring \<Rightarrow> jsstring \<Rightarrow> endpoint" where
  "setAdminProgrammeStatus programmeId status =
     SEND ''POST'' (''/admin/programmes/'' @ programmeId @ ''/status'') (JsonText (JObj [(''status'', JStr
       status)])) Discard"

definition updateProgramme :: "jsstring \<Rightarrow> json \<Rightarrow> endpoint" where
  "updateProgramme programmeId input =
     SEND ''PUT'' (''/admin/programmes/'' @ programmeId) (JsonText input) Discard"

definition getUserDetail :: "jsstring \<Rightarrow> endpoint" where
  "getUserDetail userId =
     GET (''/admin/users/'' @ userId @ ''/detail'') Data"

definition listCohortJoins :: "jsstring option \<Rightarrow> endpoint" where
  "listCohortJoins status =
     GET (''/admin/cohort-joins'' @ (opt_text status (\<lambda>status. ''?status='' @ encode_uri_component
       (status)))) (DataOr (JArr []))"

definition reviewCohortJoin :: "jsstring \<Rightarrow> jsstring \<Rightarrow> endpoint" where
  "reviewCohortJoin ident status =
     SEND ''POST'' (''/admin/cohort-joins/'' @ ident @ ''/review'') (JsonText (JObj [(''status'', JStr
       status)])) Discard"

definition getProgrammeRoster :: "jsstring \<Rightarrow> endpoint" where
  "getProgrammeRoster slug =
     GET (''/admin/programmes/'' @ encode_uri_component (slug) @ ''/roster'') Data"

definition listAuditLogs :: "jsstring option \<Rightarrow> jsstring option \<Rightarrow> int option
       \<Rightarrow> endpoint" where
  "listAuditLogs action target_type limit =
     GET (''/admin/audit?'' @ qs_text (opt_s ''action'' action @ opt_s ''target_type'' target_type @
       [(''limit'', show_int (dflt 100 limit))])) (DataOr (JArr []))"

definition createAdminProgramme :: "json \<Rightarrow> endpoint" where
  "createAdminProgramme input =
     SEND ''POST'' ''/admin/programmes'' (JsonText input) Data"

definition listAdminPayoutRows :: "jsstring option \<Rightarrow> endpoint" where
  "listAdminPayoutRows status =
     GET (''/admin/payouts'' @ opt_text status (\<lambda>status. ''?status='' @ status))
       (Via (\<lambda>j. if j = JNull then Inl null_deref
          else Inr (Some (JObj [(''payouts'', or_default (Option.bind (env_data j) (\<lambda>d. jget d ''payouts'')) (JArr [])),
            (''paystack_transfers'', JBool (case Option.bind (env_data j) (\<lambda>d. jget d ''paystack_transfers'') of
               Some v \<Rightarrow> truthy v | None \<Rightarrow> False))]))))"

definition paystackPayout :: "jsstring \<Rightarrow> endpoint" where
  "paystackPayout payoutId =
     SEND ''POST'' (''/admin/payouts/'' @ payoutId @ ''/paystack'') (JsonText (JObj [])) Data"

definition finalizePaystackPayout :: "jsstring \<Rightarrow> jsstring \<Rightarrow> endpoint" where
  "finalizePaystackPayout payoutId otp =
     SEND ''POST'' (''/admin/payouts/'' @ payoutId @ ''/paystack/otp'') (JsonText (JObj [(''otp'', JStr
       otp)])) Discard"

definition confirmPayoutPaid :: "jsstring \<Rightarrow> jsstring \<Rightarrow> endpoint" where
  "confirmPayoutPaid payoutId providerReference =
     SEND ''POST'' (''/admin/payouts/'' @ payoutId @ ''/paid'') (JsonText (JObj [(''provider_reference'',
       JStr providerReference)])) Discard"

definition getAdminOverview :: endpoint where
  "getAdminOverview =
     GET ''/admin/overview'' Data"

definition sendAdminTestEmail :: endpoint where
  "sendAdminTestEmail =
     SEND ''POST'' ''/admin/email/test'' (JsonText (JObj [])) Data"

section \<open>\<open>client/features/admissions/api.ts\<close>\<close>

definition applyAdmission :: "json \<Rightarrow> endpoint" where
  "applyAdmission input =
     SEND ''POST'' ''/admissions/apply'' (JsonText input) Data"

definition listMyAdmissions :: endpoint where
  "listMyAdmissions =
     GET ''/admissions/me'' (DataOr (JArr []))"

definition acceptAdmission :: "jsstring \<Rightarrow> endpoint" where
  "acceptAdmission ident =
     SEND ''POST'' (''/me/admissions/'' @ ident @ ''/accept'') NoBody Data"

definition listMyDocuments :: "jsstring \<Rightarrow> endpoint" where
  "listMyDocuments appId =
     GET (''/me/admissions/'' @ appId @ ''/documents'') (DataOr (JArr []))"

definition addDocument :: "jsstring \<Rightarrow> json \<Rightarrow> endpoint" where
  "addDocument appId input =
     SEND ''POST'' (''/me/admissions/'' @ appId @ ''/documents'') (JsonText input) Data"

definition removeDocument :: "jsstring \<Rightarrow> jsstring \<Rightarrow> endpoint" where
  "removeDocument appId docId =
     SEND ''DELETE'' (''/me/admissions/'' @ appId @ ''/documents/'' @ docId) NoBody Discard"

definition listAdminAdmissions :: "jsstring option \<Rightarrow> endpoint" where
  "listAdminAdmissions status =
     GET (''/admin/admissions'' @ (opt_text status (\<lambda>status. ''?status='' @ status))) Whole"

text \<open>\<open>{ status, ...offer }\<close>: the fields of the offer, when there is one, follow the status.\<close>

definition setAdmissionStatus :: "jsstring \<Rightarrow> jsstring \<Rightarrow> (jsstring \<times> json) list option \<Rightarrow> endpoint" where
  "setAdmissionStatus ident status offer =
     SEND ''POST'' (''/admin/admissions/'' @ ident @ ''/status'')
       (JsonText (JObj (spread [(''status'', JStr status)] (dflt [] offer)))) Data"

definition listAdminDocuments :: "jsstring \<Rightarrow> endpoint" where
  "listAdminDocuments appId =
     GET (''/admin/admissions/'' @ appId @ ''/documents'') (DataOr (JArr []))"

section \<open>\<open>client/features/institutions/console.ts\<close>\<close>

definition listMyInstitutions :: endpoint where
  "listMyInstitutions =
     GET ''/me/institutions'' (DataOr (JArr []))"

definition getInstitution :: "jsstring \<Rightarrow> endpoint" where
  "getInstitution ident =
     GET (''/me/institutions/'' @ ident) Data"

definition updateInstitution :: "jsstring \<Rightarrow> json \<Rightarrow> endpoint" where
  "updateInstitution ident input =
     SEND ''PUT'' (''/me/institutions/'' @ ident) (JsonText input) Data"

definition listMemberships :: "jsstring \<Rightarrow> endpoint" where
  "listMemberships ident =
     GET (''/me/institutions/'' @ ident @ ''/memberships'') (DataOr (JArr []))"

definition inviteMember :: "jsstring \<Rightarrow> jsstring \<Rightarrow> jsstring \<Rightarrow> endpoint"
       where
  "inviteMember ident userId role =
     SEND ''POST'' (''/me/institutions/'' @ ident @ ''/members'') (JsonText (JObj [(''user_id'', JStr
       userId), (''role'', JStr role)])) Data"

definition setMemberRole :: "jsstring \<Rightarrow> jsstring \<Rightarrow> jsstring \<Rightarrow> endpoint"
       where
  "setMemberRole ident userId role =
     SEND ''PUT'' (''/me/institutions/'' @ ident @ ''/members/'' @ userId @ ''/role'') (JsonText (JObj
       [(''role'', JStr role)])) Discard"

definition removeMember :: "jsstring \<Rightarrow> jsstring \<Rightarrow> endpoint" where
  "removeMember ident userId =
     SEND ''DELETE'' (''/me/institutions/'' @ ident @ ''/members/'' @ userId) NoBody Discard"

definition listStudents :: "jsstring \<Rightarrow> endpoint" where
  "listStudents ident =
     GET (''/me/institutions/'' @ ident @ ''/students'') (DataOr (JArr []))"

definition addStudent :: "jsstring \<Rightarrow> jsstring \<Rightarrow> jsstring option \<Rightarrow> endpoint" where
  "addStudent ident studentProfileId enrollmentRef =
     SEND ''POST'' (''/me/institutions/'' @ ident @ ''/students'')
       (JsonText (JObj [(''student_profile_id'', JStr studentProfileId), (''enrollment_ref'', JStr (dflt [] enrollmentRef))])) Data"

definition removeStudent :: "jsstring \<Rightarrow> jsstring \<Rightarrow> endpoint" where
  "removeStudent ident studentProfileId =
     SEND ''DELETE'' (''/me/institutions/'' @ ident @ ''/students/'' @ studentProfileId) NoBody Discard"

section \<open>\<open>client/features/vetting/api.ts\<close>\<close>

definition createTutorProfile :: "json \<Rightarrow> endpoint" where
  "createTutorProfile input =
     SEND ''POST'' ''/tutors/me/vetting/profile'' (JsonText input) Data"

definition getMyProfile :: endpoint where
  "getMyProfile =
     (GET ''/tutors/me/vetting/profile'' Data)\<lparr>ep_catch := Some (JNull)\<rparr>"

definition addSubject :: "jsstring \<Rightarrow> jsstring \<Rightarrow> endpoint" where
  "addSubject profileId subjectId =
     SEND ''POST'' (''/tutors/me/vetting/profiles/'' @ profileId @ ''/subjects'') (JsonText (JObj
       [(''subject_id'', JStr subjectId)])) Discard"

definition listMySubjects :: "jsstring \<Rightarrow> endpoint" where
  "listMySubjects profileId =
     GET (''/tutors/me/vetting/profiles/'' @ profileId @ ''/subjects'') Data"

definition submitForReview :: "jsstring \<Rightarrow> endpoint" where
  "submitForReview profileId =
     SEND ''POST'' (''/tutors/me/vetting/profiles/'' @ profileId @ ''/submit'') NoBody Discard"

definition requestDocumentUpload :: "jsstring \<Rightarrow> jsstring \<Rightarrow> jsstring \<Rightarrow>
       jsstring \<Rightarrow> int \<Rightarrow> endpoint" where
  "requestDocumentUpload profileId typ fileName mimeType fileSize =
     SEND ''POST'' (''/tutors/me/vetting/profiles/'' @ profileId @ ''/documents'') (JsonText (JObj
       [(''type'', JStr typ), (''file_name'', JStr fileName), (''mime_type'', JStr mimeType),
       (''file_size'', JNum fileSize)])) Data"

definition startAssessment :: "jsstring \<Rightarrow> jsstring \<Rightarrow> endpoint" where
  "startAssessment profileId subjectId =
     SEND ''POST'' (''/tutors/me/vetting/profiles/'' @ profileId @ ''/assessments'') (JsonText (JObj
       [(''subject_id'', JStr subjectId)])) Data"

definition submitAssessment :: "jsstring \<Rightarrow> json \<Rightarrow> endpoint" where
  "submitAssessment attemptId answers =
     SEND ''POST'' (''/tutors/me/vetting/assessments/'' @ attemptId @ ''/submit'') (JsonText (JObj
       [(''answers'', answers)])) Data"

definition listVettingQueue :: "jsstring \<Rightarrow> int option \<Rightarrow> endpoint" where
  "listVettingQueue status page =
     GET (''/admin/vetting/queue?'' @ qs_text (opt_s ''status'' (Some status) @ [(''page'', show_int (dflt 1
       page))])) Whole"

definition getVettingProfile :: "jsstring \<Rightarrow> endpoint" where
  "getVettingProfile profileId =
     GET (''/admin/vetting/profiles/'' @ profileId) Data"

definition adminAction :: "jsstring \<Rightarrow> jsstring \<Rightarrow> jsstring option \<Rightarrow>
       endpoint" where
  "adminAction profileId action reason =
     SEND ''POST'' (''/admin/vetting/profiles/'' @ profileId @ ''/'' @ action) (JsonText (JObj [(''reason'',
       JStr (dflt ([]) reason))])) Discard"

definition reviewDocument :: "jsstring \<Rightarrow> bool \<Rightarrow> jsstring option \<Rightarrow>
       endpoint" where
  "reviewDocument documentId approve reason =
     SEND ''POST'' (''/admin/vetting/documents/'' @ documentId @ ''/review'') (JsonText (JObj [(''approve'',
       JBool approve), (''reason'', JStr (dflt ([]) reason))])) Discard"

definition updateBankDetails :: "jsstring \<Rightarrow> json \<Rightarrow> endpoint" where
  "updateBankDetails profileId input =
     SEND ''POST'' (''/tutors/me/vetting/profiles/'' @ profileId @ ''/bank'') (JsonText input) Discard"

section \<open>\<open>client/features/leads/api.ts\<close>\<close>

text \<open>\<open>{ ...input, website: "" }\<close>: the honeypot field is always empty.\<close>

definition captureLead :: "(jsstring \<times> json) list \<Rightarrow> endpoint" where
  "captureLead input = SEND ''POST'' ''/leads'' (JsonText (JObj (spread input [(''website'', JStr [])]))) Data"

definition listLeads :: "jsstring option \<Rightarrow> int option \<Rightarrow> endpoint" where
  "listLeads status page =
     GET (''/admin/leads?'' @ qs_text (opt_s ''status'' status @ [(''page'', show_int (dflt 1 page))]))
       (Via (\<lambda>j. if j = JNull then Inl null_deref
          else Inr (Some (obj (map (\<lambda>(k, v). (k, Some v))
              (filter (\<lambda>(k, _). k \<noteq> ''meta'') (case env_data j of Some (JObj kvs) \<Rightarrow> kvs | _ \<Rightarrow> [])) @
              [(''meta'', jget j ''meta'')])))))"

definition updateLeadStatus :: "jsstring \<Rightarrow> json \<Rightarrow> endpoint" where
  "updateLeadStatus ident status =
     SEND ''POST'' (''/admin/leads/'' @ ident @ ''/status'') (JsonText (JObj [(''status'', status)])) Data"

section \<open>\<open>client/features/reviews/api.ts\<close>\<close>

definition listTutorReviews :: "jsstring \<Rightarrow> endpoint" where
  "listTutorReviews tutorSlug =
     GET (''/tutors/'' @ tutorSlug @ ''/reviews'') (DataOr (JArr []))"

definition createReview :: "json \<Rightarrow> endpoint" where
  "createReview input =
     SEND ''POST'' ''/reviews'' (JsonText input) Data"

section \<open>\<open>client/features/tuition/api.ts\<close>\<close>

definition createPrivateTuitionRequest :: "json \<Rightarrow> endpoint" where
  "createPrivateTuitionRequest params =
     SEND ''POST'' ''/private-tuition/requests'' (JsonText params) Data"

definition listMyPrivateRequests :: endpoint where
  "listMyPrivateRequests =
     GET ''/private-tuition/requests'' (DataOr (JArr []))"

definition listAdminPrivateRequests :: "jsstring option \<Rightarrow> endpoint" where
  "listAdminPrivateRequests status =
     GET (''/admin/private-tuition/requests'' @ (opt_text status (\<lambda>status. ''?status='' @ status)))
       Whole"

definition matchPrivateRequest :: "jsstring \<Rightarrow> json \<Rightarrow> endpoint" where
  "matchPrivateRequest requestId input =
     SEND ''POST'' (''/admin/private-tuition/requests/'' @ requestId @ ''/match'') (JsonText input) Data"

end
