(* ===== verification/EndpointProps.thy ===== *)
theory EndpointProps
  imports ApiClient MobileApi AdminEndpoints LearnEndpoints AccountEndpoints MobileEndpoints
begin

text \<open>
  What the endpoint functions show once they run through a client: requests that move money
  are sent once, session probes never reload the page, lists are arrays, identifiers stay
  one path segment, and filters reach the server as they were given.
\<close>

section \<open>Two networks for the examples\<close>

definition offline_env :: web_env where
  "offline_env = \<lparr>we_browser = True, we_api_url = None, we_trace = (\<lambda>_. ''t''),
     we_net = (\<lambda>_. Rejects \<lparr>ex_class = TypeExn, ex_name = ''TypeError'', ex_message = ''Failed to fetch''\<rparr>)\<rparr>"

definition answering_env :: "json \<Rightarrow> web_env" where
  "answering_env j = \<lparr>we_browser = True, we_api_url = None, we_trace = (\<lambda>_. ''t''),
     we_net = (\<lambda>_. Responds \<lparr>rs_status = 200, rs_headers = [(''content-type'', ''application/json'')], rs_body = Inr j\<rparr>)\<rparr>"

section \<open>Requests through the web client\<close>

lemma run_endpoint_fst [simp]: "fst (run_endpoint call ep) = fst (call (ep_path ep) (ep_init ep))"
  by (simp add: run_endpoint_def Let_def)

lemma catch_fields [simp]:
  "ep_path (ep\<lparr>ep_catch := c\<rparr>) = ep_path ep" "ep_init (ep\<lparr>ep_catch := c\<rparr>) = ep_init ep"
  by simp_all

text \<open>
  What a call puts on the network, whatever the network does: one request, by its method, its path
  below the API and the fields of its JSON body (\<open>None\<close> for a request without a body).
\<close>

definition posts_once :: "web_env \<Rightarrow> endpoint \<Rightarrow> jsstring \<Rightarrow> (jsstring \<Rightarrow> json option) option \<Rightarrow> bool" where
  "posts_once env ep path content =
     (case sents (fst (run_endpoint (apiFetch env) ep)) of
        [Sent q] \<Rightarrow> rq_method q = ''POST'' \<and> rq_url q = API_BASE env @ path \<and>
          (case rq_body q of
             NoBody \<Rightarrow> content = None
           | JsonText (JObj kvs) \<Rightarrow> content = Some (map_of kvs)
           | _ \<Rightarrow> False)
      | _ \<Rightarrow> False)"

lemma sent_by_post: "sents (fst (run_endpoint (apiFetch env) (SEND ''POST'' p b u))) = [Sent (rawFetch env 0 p (send_init ''POST'' b))]"
proof -
  have "\<not> retryable (send_init ''POST'' b)"
    by (simp add: retryable_def RETRYABLE_METHODS_def to_upper_def upper_char_def send_init_def)
  then show ?thesis by (auto simp: api_defs split: outcome.splits)
qed

lemma posts_json: "posts_once env (SEND ''POST'' p (JsonText (JObj kvs)) u) q f = (p = q \<and> f = Some (map_of kvs))"
  unfolding posts_once_def sent_by_post by (auto simp: rawFetch_def Let_def)

lemma posts_nothing: "posts_once env (SEND ''POST'' p NoBody u) q f = (p = q \<and> f = None)"
  unfolding posts_once_def sent_by_post by (auto simp: rawFetch_def Let_def)

lemma map_of_spread_fun: "map_of (spread a b) = map_of a ++ map_of b"
  by (rule ext) (simp add: map_of_spread map_add_def)

text \<open>
  C36. Each of the twelve functions of the web client that are named here, which book, enrol, pay, refund
  or pay out, puts exactly one \<open>POST\<close> on the network per call, whatever the network does, on the path of the order, payout
  or admission they were given, with exactly these fields: the booking of a cohort carries the
  caller's idempotency key, and a coupon exactly when there is one; the private booking and the
  payment carry the caller's fields as they are (with the type of the booking beside them), the
  other ones the plan, note, reason, code or reference, and the verification of an order and the
  acceptance of an admission no body.
\<close>

theorem money_sent_once:
  "posts_once env (createCohortBooking cohort student key coupon) ''/bookings''
     (Some ((case coupon of None \<Rightarrow> Map.empty | Some c \<Rightarrow> [''coupon_code'' \<mapsto> JStr c])
        (''type'' \<mapsto> JStr ''COHORT'', ''cohort_id'' \<mapsto> JStr cohort, ''student_id'' \<mapsto> JStr student, ''idempotency_key'' \<mapsto> JStr key))) \<and>
   posts_once env (createPrivateBooking booking) ''/bookings'' (Some ([''type'' \<mapsto> JStr ''PRIVATE''] ++ map_of booking)) \<and>
   posts_once env (initiatePayment (JObj payment)) ''/payments/initiate'' (Some (map_of payment)) \<and>
   posts_once env (verifyOrder order) (''/me/orders/'' @ order @ ''/verify'') None \<and>
   posts_once env (purchasePlus plan) ''/me/plus/purchase'' (Some [''plan_code'' \<mapsto> JStr plan]) \<and>
   posts_once env (activatePlus plan trial) ''/me/plus/activate''
     (Some [''plan_code'' \<mapsto> JStr plan, ''trial'' \<mapsto> JBool (trial = Some True)]) \<and>
   posts_once env (acceptAdmission admission) (''/me/admissions/'' @ admission @ ''/accept'') None \<and>
   posts_once env (confirmManualPayment order note_text) (''/admin/orders/'' @ order @ ''/confirm-payment'')
     (Some (case note_text of None \<Rightarrow> Map.empty | Some t \<Rightarrow> [''note'' \<mapsto> JStr t])) \<and>
   posts_once env (refundOrder order reason) (''/admin/orders/'' @ order @ ''/refund'') (Some [''reason'' \<mapsto> JStr reason]) \<and>
   posts_once env (paystackPayout payout) (''/admin/payouts/'' @ payout @ ''/paystack'') (Some Map.empty) \<and>
   posts_once env (finalizePaystackPayout payout otp) (''/admin/payouts/'' @ payout @ ''/paystack/otp'') (Some [''otp'' \<mapsto> JStr otp]) \<and>
   posts_once env (confirmPayoutPaid payout reference) (''/admin/payouts/'' @ payout @ ''/paid'')
     (Some [''provider_reference'' \<mapsto> JStr reference])"
proof -
  have cohort: "posts_once env (createCohortBooking cohort student key coupon) ''/bookings''
     (Some ((case coupon of None \<Rightarrow> Map.empty | Some c \<Rightarrow> [''coupon_code'' \<mapsto> JStr c])
        (''type'' \<mapsto> JStr ''COHORT'', ''cohort_id'' \<mapsto> JStr cohort, ''student_id'' \<mapsto> JStr student, ''idempotency_key'' \<mapsto> JStr key)))"
    by (cases coupon) (auto simp: createCohortBooking_def posts_json obj_def)
  have note_sent: "posts_once env (confirmManualPayment order note_text) (''/admin/orders/'' @ order @ ''/confirm-payment'')
     (Some (case note_text of None \<Rightarrow> Map.empty | Some t \<Rightarrow> [''note'' \<mapsto> JStr t]))"
    by (cases note_text) (simp_all add: confirmManualPayment_def posts_json obj_def)
  have plus: "posts_once env (activatePlus plan trial) ''/me/plus/activate''
     (Some [''plan_code'' \<mapsto> JStr plan, ''trial'' \<mapsto> JBool (trial = Some True)])"
    by (cases trial) (auto simp: activatePlus_def posts_json dflt_def)
  show ?thesis using cohort note_sent plus
    by (simp add: createPrivateBooking_def initiatePayment_def verifyOrder_def purchasePlus_def acceptAdmission_def
        refundOrder_def paystackPayout_def finalizePaystackPayout_def confirmPayoutPaid_def posts_json posts_nothing
        map_of_spread_fun)
qed

text \<open>
  No call of the log-in pages and no probe of the session sends the browser away: a wrong
  password or a missing session is reported to the page that asked.
\<close>

theorem auth_calls_stay:
  "list_all (\<lambda>ep. list_all (\<lambda>e. \<not> (case e of Navigated _ \<Rightarrow> True | _ \<Rightarrow> False))
       (fst (run_endpoint (apiFetch env) ep)))
     [AccountEndpoints.register j, login email password remember, confirmMFA token code remember, logout,
      getCurrentUser, getSessionContext, AccountEndpoints.requestPasswordReset email,
      AccountEndpoints.confirmPasswordReset token password, requestLoginCode email, confirmLoginCode email code,
      loginWithCollegeCredentials email password, AccountEndpoints.confirmVerification token]"
  (is "list_all ?P ?eps")
proof -
  have "list_all (\<lambda>ep. starts_with (ep_path ep) ''/auth/'') ?eps"
    by (simp add: AccountEndpoints.register_def login_def confirmMFA_def logout_def getCurrentUser_def
        getSessionContext_def AccountEndpoints.requestPasswordReset_def AccountEndpoints.confirmPasswordReset_def
        requestLoginCode_def confirmLoginCode_def loginWithCollegeCredentials_def
        AccountEndpoints.confirmVerification_def)
  moreover have "starts_with (ep_path ep) ''/auth/'' \<Longrightarrow> ?P ep" for ep
    using auth_path_stays [of "ep_path ep" _ env "ep_init ep"]
    by (auto simp: list_all_iff split: effect.splits)
  ultimately show ?thesis by (rule list.pred_mono_strong) simp
qed

text \<open>
  Asking for the current user never fails. A server that cannot be reached, an error
  answer or an answer that is not JSON gives \<open>null\<close>, the value that stands for a visitor
  without a session.
\<close>

theorem current_user_never_fails:
  "snd (run_endpoint (apiFetch env) getCurrentUser) = Inr (
     case snd (apiFetch env ''/auth/me'' get_init) of
       Inl e \<Rightarrow> Some JNull
     | Inr j \<Rightarrow> if j = JNull then Some JNull else jget j ''data'')"
  by (simp add: run_endpoint_def getCurrentUser_def finish_endpoint_def Let_def split: sum.split)

text \<open>
  The payouts page of the administration always gets an array: an envelope without
  \<open>data\<close>, with a null \<open>data\<close>, or with anything but a list of payouts gives the empty one.
\<close>

theorem payouts_array:
  assumes "snd (run_endpoint (apiFetch env) (listAdminPayouts status)) = Inr v"
  shows "\<exists>xs. v = Some (JArr xs)"
  using assms
  by (auto simp: run_endpoint_def listAdminPayouts_def finish_endpoint_def Let_def GET_def
      split: sum.splits if_splits option.splits json.splits) metis

theorem payouts_array_witness:
  "\<exists>xs. Some (JArr []) = Some (JArr xs)"
  by (rule payouts_array [of "answering_env (JObj [(''data'', JNull)])" None])
    (simp add: answering_env_def run_endpoint_def listAdminPayouts_def finish_endpoint_def GET_def Let_def
      apiFetch_def fetch_with_retry_def read_response_def rs_ok_def content_type_def env_data_def opt_text_def)

section \<open>Lists\<close>

lemma list_endpoint:
  assumes "ep_unwrap ep = DataOr (JArr [])" "ep_catch ep = None"
  shows "(case snd (run_endpoint call ep) of Inl e \<Rightarrow> True | Inr v \<Rightarrow> v \<noteq> None \<and> v \<noteq> Some JNull)"
  using assms
  by (auto simp: run_endpoint_def finish_endpoint_def Let_def or_default_def nullish_def
      split: sum.splits if_splits option.splits)

lemma list_endpoints:
  assumes "list_all (\<lambda>ep. ep_unwrap ep = DataOr (JArr []) \<and> ep_catch ep = None) eps"
  shows "list_all (\<lambda>ep. case snd (run_endpoint call ep) of
     Inl e \<Rightarrow> True | Inr v \<Rightarrow> v \<noteq> None \<and> v \<noteq> Some JNull) eps"
  using assms by (rule list.pred_mono_strong) (blast intro: list_endpoint)

text \<open>
  The list functions of the learner and parent pages never hand \<open>undefined\<close> or \<open>null\<close> to
  a page that maps over them, whatever client runs them and whatever it answers.
\<close>

theorem lists_never_null:
  "list_all (\<lambda>ep. case snd (run_endpoint call ep) of
       Inl e \<Rightarrow> True | Inr v \<Rightarrow> v \<noteq> None \<and> v \<noteq> Some JNull)
     [AccountEndpoints.listLearners, getMyLessons sp, LearnEndpoints.getMyLessonProgress,
      listMyAssignments sp, listMySubmissions sp,
      listMyCertificates, listRevisionPlans sp, getGradebook sp, getReviewQueue sp, getLeaderboard sp,
      listPlusPlans, listChatThreads, getCohortResources cohort, getCohortAssignments cohort]"
  by (rule list_endpoints)
    (simp add: AccountEndpoints.listLearners_def getMyLessons_def LearnEndpoints.getMyLessonProgress_def
      listMyAssignments_def listMySubmissions_def listMyCertificates_def
      listRevisionPlans_def getGradebook_def getReviewQueue_def getLeaderboard_def listPlusPlans_def
      listChatThreads_def getCohortResources_def getCohortAssignments_def)

section \<open>Paths and filters\<close>

text \<open>
  The filters of the search, the administration's user and article lists and the subject
  list reach the server as they were given: what it reads back from the query string is
  the list of the filters that are set, in order, with every character intact.
\<close>

theorem filters_reach_server:
  "\<exists>u p t s. ep_path (listAdminUsers search status page per_page) = ''/admin/users?'' @ u \<and>
     ep_path (listAdminPosts status search page per_page) = ''/admin/blog?'' @ p \<and>
     ep_path (searchTutors params) = ''/tutors/search?'' @ t \<and>
     ep_path (listSubjects search category page per_page) = ''/subjects?'' @ s \<and>
     parse_qs u = opt_s ''search'' search @ opt_s ''status'' status @
       [(''page'', show_int (dflt 1 page)), (''page_size'', show_int (dflt 50 per_page))] \<and>
     parse_qs p = opt_s ''status'' status @ opt_s ''search'' search @
       [(''page'', show_int (dflt 1 page)), (''page_size'', show_int (dflt 20 per_page))] \<and>
     parse_qs t = [(k, the v). (k, v) \<leftarrow> params, v \<noteq> None \<and> v \<noteq> Some []] \<and>
     parse_qs s = opt_s ''search'' search @ opt_s ''category'' category @
       opt_n ''page'' page @ opt_n ''page_size'' per_page"
proof -
  have "filter (\<lambda>(_, v). v \<noteq> []) (map (\<lambda>(k, v). (k, dflt [] v)) params)
      = [(k, the v). (k, v) \<leftarrow> params, v \<noteq> None \<and> v \<noteq> Some []]"
    by (induction params) (auto simp: dflt_def split: option.splits)
  then show ?thesis
    by (simp add: listAdminUsers_def listAdminPosts_def searchTutors_def listSubjects_def
        parse_qs_text append_assoc)
qed

text \<open>
  A programme's slug stays one segment of the roster's path, and a credential number one
  value of the certificate query, whatever the user typed; for printable ASCII the server
  decodes it to the same text.
\<close>

theorem typed_text_stays_component:
  assumes "ascii x"
  shows "\<exists>y. split_on (CHR ''/'') (ep_path (getProgrammeRoster x)) = [[], ''admin'', ''programmes'', y, ''roster''] \<and>
     list_all (\<lambda>c. c \<notin> set y) ''?#/'' \<and> decode_uri_component y = Some x \<and>
     split_on (CHR ''='') (ep_path (verifyCertificate x)) = [''/certificates/verify?credential'', y] \<and>
     list_all (\<lambda>c. c \<notin> set y) ''&#''"
proof -
  let ?y = "encode_uri_component x"
  have free: "CHR ''/'' \<notin> set ?y" "CHR ''?'' \<notin> set ?y" "CHR ''#'' \<notin> set ?y"
    "CHR ''&'' \<notin> set ?y" "CHR ''='' \<notin> set ?y"
    by (rule encode_component_free, simp)+
  have "split_on (CHR ''/'') (?y @ CHR ''/'' # ''roster'') = [?y, ''roster'']"
    by (simp add: split_on_append [OF free(1)])
  moreover have "split_on (CHR ''='') ?y = [?y]" by (rule split_on_free [OF free(5)])
  ultimately show ?thesis using free
    by (intro exI [of _ ?y]) (simp add: getProgrammeRoster_def verifyCertificate_def decode_encode_ascii [OF assms])
qed

theorem typed_text_stays_component_witness:
  "\<exists>y. split_on (CHR ''/'') (ep_path (getProgrammeRoster ''a/../b?x'')) = [[], ''admin'', ''programmes'', y, ''roster'']"
  using typed_text_stays_component [of "''a/../b?x''"] by (auto simp: ascii_def)

end
