(* ===== verification/Spec2Isabelle.thy ===== *)
theory Spec2Isabelle
  imports SsrClient Proxy Realtime Messaging Notifications Catalogue OfflineVideo Drafts Login PayCard OnboardingView Authoring BankConsole Pagers Session LearningStats ExamPlayer PracticePlayer MobileExam ChatWidget ChatPages Payouts PrivateTuition CoursePage JsDecimal TutorConsole LessonSchedule VideoPlayback TutorApply WelcomeWizard Quizzes TutorDashboard PhoneHome FamilyDesk StudentDesk TutorDesk CohortConsole AccountPage UserConsole ControlCentre InstitutionDesk LearnHubs VettingConsole FamilyAccount CatalogueConsole TutorRegister LeadQueue SearchPages MessageCenter PhoneLogin EndpointProps
begin

text \<open>
  \<^bold>\<open>YK-Virtual: a verification library for the web and mobile clients.\<close>

  YK-Virtual is a virtual school: a Next.js web client (\<open>client/\<close>) and an Expo native client
  (\<open>mobile/\<close>) over one HTTP service that answers with the envelope \<open>{data, meta}\<close> or
  \<open>{error: {code, message}}\<close>. This library models the clients' TypeScript: how requests are
  made, guarded and retried, who may see what, and the pages that keep state of their own.
  The service is another program; its answers are parameters, or events of any content.

  \<^bold>\<open>How the program is modelled.\<close> A JavaScript string is the list of its UTF-8 bytes
  (\<open>Prelude\<close>, \<open>JsText\<close>; where the code compares a text's length with a number, \<open>utf16_length\<close> counts
  its UTF-16 units), a JSON value the datatype \<open>json\<close>, a number an integer or, where the
  code rounds, a rational to which \<open>fl\<close> applies binary64 rounding (\<open>JsNumber\<close>). An exception
  is a value (\<open>js_exn\<close>) on the left of a sum. A function that calls the network takes it as a
  parameter: the outcome of the \<open>n\<close>-th \<open>fetch\<close> of the call. A page is a state machine
  (\<open>Machine\<close>): a record with its hooks, its refs, the calls in flight and a log of what was
  sent; a datatype of events (clicks, keys, typing, timers, effects, answers); a guard and a
  step function, one equation per handler, cut at each \<open>await\<close>. What a page shows is a list of
  widgets, and a click is possible when its widget offers it (\<open>offered\<close>). Hooks change between
  events, so a handler sees the state of the render it belongs to; where it sees an older
  one, the state keeps a copy. Answers arrive in any order and any number of events may come
  between a call and its answer. \<open>reach\<close> is the set of reachable states, \<open>run\<close> a sequence of
  steps, \<open>allowed\<close> that each of them passes its guard.

  \<^bold>\<open>The theories.\<close>

  \<^item> \<^emph>\<open>Vocabulary.\<close> \<open>Prelude\<close> (lists, JSON, widgets), \<open>Machine\<close> (guarded events; the locales
    \<open>machine\<close> and \<open>bounded_machine\<close>, which the pages interpret, and \<open>simulation\<close>), \<open>JsText\<close>, \<open>JsNumber\<close> (the
    locale \<open>rounding\<close>, interpreted by \<open>fl\<close>), \<open>JsDecimal\<close> (\<open>Number\<close> of a text, \<open>String\<close> of
    an amount of money and the round trip of the two), \<open>Http\<close> (requests, outcomes, effects, the locale
    \<open>api_client\<close>, interpreted by both clients).
  \<^item> \<^emph>\<open>Requests.\<close> \<open>ApiClient\<close> (\<open>client/lib/api.ts\<close>), \<open>MobileApi\<close> (\<open>mobile/src/lib/api.ts\<close>),
    \<open>SsrClient\<close> (\<open>client/lib/server-api.ts\<close>, the circuit breaker), \<open>Proxy\<close>
    (\<open>client/app/api/v1\<close>), and the endpoint functions of \<open>client/features\<close> and \<open>mobile/src/lib\<close>:
    \<open>Endpoints\<close>, \<open>AdminEndpoints\<close>, \<open>LearnEndpoints\<close>, \<open>AccountEndpoints\<close>, \<open>MobileEndpoints\<close>,
    with their common properties in \<open>EndpointProps\<close>.
  \<^item> \<^emph>\<open>Sessions.\<close> \<open>SafeNext\<close> (\<open>client/lib/safe-next.ts\<close> with the platform's URL parser),
    \<open>Session\<close> (\<open>middleware.ts\<close>, cookies, single sign-on, role homes, the gate), \<open>LoginCode\<close>,
    \<open>Login\<close> (the pages of \<open>client/app/(auth)\<close>), \<open>Onboarding\<close> and \<open>OnboardingView\<close> (the
    seven-step signup of \<open>client/app/onboarding\<close>).
  \<^item> \<^emph>\<open>Money.\<close> \<open>Checkout\<close> and \<open>PayCard\<close> (\<open>features/bookings/components/CheckoutClient.tsx\<close>),
    \<open>Payouts\<close> (\<open>app/admin/payouts\<close>), \<open>PrivateTuition\<close> (\<open>features/tuition\<close>).
  \<^item> \<^emph>\<open>Learning.\<close> \<open>LearningStats\<close> (\<open>client/lib/learning-stats.ts\<close>), \<open>CbtCommon\<close>, \<open>ExamPlayer\<close>,
    \<open>PracticePlayer\<close> (\<open>components/cbt\<close>), \<open>MobileExam\<close> (\<open>mobile/app/practice/[examId].tsx\<close>),
    \<open>Authoring\<close> (both editors of test papers), \<open>BankConsole\<close> (\<open>app/admin/cbt\<close>), \<open>CoursePage\<close> (\<open>app/lms/courses/[cohortId]\<close>), \<open>Quizzes\<close> (the quizzes of both
    clients and the study planner), \<open>TutorConsole\<close> with \<open>LessonSchedule\<close>
    (\<open>app/lms/tutor/cohorts/[cohortId]\<close>), \<open>TutorDesk\<close> (gradebook, reports, hours and lessons), \<open>LearnHubs\<close> (the
    learning hubs of both clients).
  \<^item> \<^emph>\<open>Devices.\<close> \<open>Device\<close> (key-value storage; the locale \<open>offline_cache\<close>), \<open>Messaging\<close>,
    \<open>Notifications\<close>, \<open>Catalogue\<close>, \<open>OfflineVideo\<close>, \<open>Drafts\<close>, \<open>Realtime\<close> (the stream of
    \<open>mobile/src/lib/sse.ts\<close> and the hooks over it), \<open>VideoPlayback\<close> (the phone's lesson
    player), \<open>PhoneHome\<close> (\<open>mobile/app/home.tsx\<close> and the learner the phone is pinned to).
  \<^item> \<^emph>\<open>Help and consoles.\<close> \<open>HelpKb\<close> (\<open>lib/help-data.ts\<close>, \<open>lib/chat-kb.ts\<close>), \<open>ChatWidget\<close>,
    \<open>ChatPages\<close> (the assistant's screens and the agents' inbox), \<open>Pagers\<close> (the locale
    \<open>pager_laws\<close>, interpreted for the families of list pages);
    \<open>WelcomeWizard\<close> (\<open>app/onboarding/wizard\<close>), \<open>TutorApply\<close> (the tutor's application), the dashboards
    \<open>StudentDesk\<close>, \<open>FamilyDesk\<close>, \<open>TutorDashboard\<close>, the settings \<open>AccountPage\<close>, the console of an
    institution \<open>InstitutionDesk\<close>, and the administrators' \<open>CohortConsole\<close>, \<open>UserConsole\<close>,
    \<open>ControlCentre\<close>, \<open>VettingConsole\<close> (\<open>app/admin/vetting\<close>), \<open>CatalogueConsole\<close> (\<open>app/admin/programmes\<close>),
    \<open>TutorRegister\<close> (\<open>app/admin/tutors\<close>) and \<open>LeadQueue\<close> (\<open>app/admin/leads\<close>); \<open>FamilyAccount\<close> (admissions and
    membership), \<open>Leads\<close> (the call-back dialog of the public pages), \<open>SearchPages\<close> (both clients' search),
    \<open>MessageCenter\<close> (\<open>features/messaging/components\<close>) and \<open>PhoneLogin\<close> (\<open>mobile/app/login.tsx\<close>).

  \<^bold>\<open>What the lemmas show.\<close> Each machine has an invariant kept by every step (one preservation
  lemma per handler) from which its safety property follows: submissions, confirmations and
  payments that cannot overtake themselves, what is sent complete and well-formed, bounds of
  counters and positions; each statement names the kinds of calls it bounds. The checkout keeps a
  log of the bookings that were answered, so that payments are matched with them one by one; the
  chat's launcher carries the window's size, which events change; the middleware is compared with
  the members' pages by their path segments and not by its own list of prefixes. Abstract specifications are refined: the shared stream a plain
  publish-subscribe hub, the phone's message cache a map of threads, the assistant page the
  list of acknowledged messages. Round trips hold for drafts, query strings, encodings,
  slugs, amounts of money and edited papers, the last through what the service stores. Several theorems state what the code does where it falls short of
  its comments: open redirects, requests sent twice, answers and texts that are lost. They
  are listed as findings.

  \<^bold>\<open>Bounds and fuel.\<close> No definition takes fuel. Retry loops recurse on the attempts that are
  left, decoders and parsers on the length of the text, polling and countdowns are events.

  \<^bold>\<open>Assumptions.\<close> Case folding and trimming are the ASCII part of the standard's tables.
  Date parsing, printing of instants and numbers in the local language, time zones, the
  platform's URL of a relative address, the validators of the form libraries, file downloads
  and random values are parameters. Query caches are the data they hold, replaced whenever the network answers;
  refetches are events that may happen at any time;
  which render's callbacks a pending mutation has is a parameter of \<open>MessageCenter\<close>. Exponent limits of binary64 are not
  modelled. Guards that name a limit of the service (question counts, identifiers that are
  not empty, identifiers that the page cannot have made up) say so beside their definition.

  \<^bold>\<open>Not modelled.\<close> The service (\<open>cmd\<close>, \<open>internal\<close>, \<open>pkg\<close>, \<open>migrations\<close>): another program in another language. Five
  of its pieces appear, where a page is checked against them: the page arithmetic in \<open>Pagers\<close>, the table of
  transitions in \<open>VettingConsole\<close>, the programmes' operations in \<open>CatalogueConsole\<close>, the checks of a
  new tutor in \<open>TutorRegister\<close> and the checks, the creation and the update of a test paper in \<open>Authoring\<close>.
  Public pages, shared components, metadata, static tables and themes: text and styling.
  The remaining dashboards, console tables and phone screens, which show what the modelled
  endpoint functions return. Tests and build configuration.
\<close>

end
